(* ===== verification/Pristine_Prelude.thy ===== *)
theory Pristine_Prelude
  imports Main "HOL-Library.AList" "HOL-Library.Multiset"
begin

text \<open>
  Shared vocabulary of the development: JavaScript strings, plain objects used as
  dictionaries, results of fallible functions, settled promises, interceptor chains, and the
  log and trace effects.

  Strings are lists of characters below code point 256. A plain object is its list of own
  properties in creation order; \<open>obj_keys\<close> lists them the way \<open>Object.keys\<close> does, array-index
  names first. Names inherited from \<open>Object.prototype\<close> are outside the model.
\<close>

named_theorems js_simps "evaluation of the JavaScript helpers"

section \<open>Characters and strings\<close>

definition is_digit :: "char \<Rightarrow> bool" where
  "is_digit c \<longleftrightarrow> 48 \<le> (of_char c :: nat) \<and> (of_char c :: nat) \<le> 57"

definition is_letter :: "char \<Rightarrow> bool" where
  "is_letter c \<longleftrightarrow>
     (65 \<le> (of_char c :: nat) \<and> (of_char c :: nat) \<le> 90) \<or>
     (97 \<le> (of_char c :: nat) \<and> (of_char c :: nat) \<le> 122)"

text \<open>White space as the regular expression class and \<open>trim\<close> take it, below code point 256.\<close>

definition is_space :: "char \<Rightarrow> bool" where
  "is_space c \<longleftrightarrow> (9 \<le> (of_char c :: nat) \<and> (of_char c :: nat) \<le> 13) \<or>
     (of_char c :: nat) = 32 \<or> (of_char c :: nat) = 160"

definition lower_char :: "char \<Rightarrow> char" where
  "lower_char c =
     (let n = (of_char c :: nat) in
      if (65 \<le> n \<and> n \<le> 90) \<or> (192 \<le> n \<and> n \<le> 222 \<and> n \<noteq> 215) then char_of (n + 32) else c)"

definition upper_char :: "char \<Rightarrow> char" where
  "upper_char c =
     (let n = (of_char c :: nat) in if 97 \<le> n \<and> n \<le> 122 then char_of (n - 32) else c)"

definition to_lower :: "string \<Rightarrow> string" where
  "to_lower s = map lower_char s"

definition to_upper :: "string \<Rightarrow> string" where
  "to_upper s = map upper_char s"

definition starts_with :: "string \<Rightarrow> string \<Rightarrow> bool" where
  "starts_with s p \<longleftrightarrow> take (length p) s = p"

definition ends_with :: "string \<Rightarrow> string \<Rightarrow> bool" where
  "ends_with s p \<longleftrightarrow> length p \<le> length s \<and> drop (length s - length p) s = p"

definition trim :: "string \<Rightarrow> string" where
  "trim s = rev (dropWhile is_space (rev (dropWhile is_space s)))"

fun split_on :: "char \<Rightarrow> string \<Rightarrow> string list" where
  "split_on c [] = [[]]"
| "split_on c (x # xs) =
     (if x = c then [] # split_on c xs
      else (case split_on c xs of [] \<Rightarrow> [[x]] | h # t \<Rightarrow> (x # h) # t))"

fun join :: "string \<Rightarrow> string list \<Rightarrow> string" where
  "join sep [] = []"
| "join sep [x] = x"
| "join sep (x # y # ys) = x @ sep @ join sep (y # ys)"

lemma join_append: "xs \<noteq> [] \<Longrightarrow> ys \<noteq> [] \<Longrightarrow> join sep (xs @ ys) = join sep xs @ sep @ join sep ys"
proof (induction sep xs rule: join.induct)
  case (2 sep x)
  then show ?case by (cases ys) simp_all
qed simp_all

lemma join_last: "xs \<noteq> [] \<Longrightarrow> last xs \<noteq> [] \<Longrightarrow> join sep xs \<noteq> [] \<and> last (join sep xs) = last (last xs)"
  by (induction sep xs rule: join.induct) auto

lemma join_hd: "xs \<noteq> [] \<Longrightarrow> hd xs \<noteq> [] \<Longrightarrow> hd (join sep xs) = hd (hd xs)"
  by (induction sep xs rule: join.induct) auto

text \<open>Text between single quotes, as in the messages.\<close>

definition quoted :: "string \<Rightarrow> string" where
  "quoted s = [CHR 0x27] @ s @ [CHR 0x27]"

fun index_of :: "char \<Rightarrow> string \<Rightarrow> nat option" where
  "index_of c [] = None"
| "index_of c (x # xs) = (if x = c then Some 0 else map_option Suc (index_of c xs))"

text \<open>Decimal value of a digit string, and \<open>String(n)\<close> for a natural number.\<close>

definition digit_value :: "char \<Rightarrow> nat" where
  "digit_value c = (of_char c :: nat) - 48"

definition num_value :: "string \<Rightarrow> nat" where
  "num_value s = foldl (\<lambda>n c. 10 * n + digit_value c) 0 s"

definition digit_char :: "nat \<Rightarrow> char" where
  "digit_char d = char_of (48 + d)"

fun show_nat :: "nat \<Rightarrow> string" where
  "show_nat n = (if n < 10 then [digit_char n] else show_nat (n div 10) @ [digit_char (n mod 10)])"

declare show_nat.simps [simp del]

lemma digit_char_props:
  assumes "d < 10"
  shows "is_digit (digit_char d)" and "digit_value (digit_char d) = d"
  using assms by (simp_all add: is_digit_def digit_char_def digit_value_def of_char_of)

lemma num_value_append: "num_value (s @ [c]) = 10 * num_value s + digit_value c"
  by (simp add: num_value_def)

lemma num_value_show_nat [simp]: "num_value (show_nat n) = n"
proof (induction n rule: show_nat.induct)
  case (1 n)
  show ?case
  proof (cases "n < 10")
    case True
    then show ?thesis
      by (simp add: show_nat.simps [of n] num_value_def digit_char_props)
  next
    case False
    with 1 show ?thesis
      by (simp add: show_nat.simps [of n] num_value_append digit_char_props)
  qed
qed

lemma show_nat_digits [simp]: "list_all is_digit (show_nat n)"
proof (induction n rule: show_nat.induct)
  case (1 n)
  then show ?case by (simp add: show_nat.simps [of n] digit_char_props)
qed

lemma show_nat_nonempty [simp]: "show_nat n \<noteq> []"
  by (simp add: show_nat.simps [of n])

text \<open>\<open>String(n)\<close> for an integer.\<close>

definition show_int :: "int \<Rightarrow> string" where
  "show_int n = (if n < 0 then ''-'' @ show_nat (nat (- n)) else show_nat (nat n))"

lemma split_on_nonempty [simp]: "split_on c s \<noteq> []"
  by (induction s) (auto split: list.splits)

lemma split_on_no_sep: "c \<notin> set s \<Longrightarrow> split_on c s = [s]"
  by (induction s) auto

lemma split_on_append_sep: "c \<notin> set s \<Longrightarrow> split_on c (s @ c # t) = s # split_on c t"
  by (induction s) (auto split: list.splits)

lemma split_on_join:
  assumes "xs \<noteq> []" and "\<forall>x \<in> set xs. c \<notin> set x"
  shows "split_on c (join [c] xs) = xs"
  using assms
  by (induction "[c]" xs rule: join.induct) (auto simp: split_on_no_sep split_on_append_sep)

lemma starts_with_Cons [simp]: "starts_with (c # s) [d] \<longleftrightarrow> c = d"
  by (simp add: starts_with_def)

section \<open>Plain objects as dictionaries\<close>

type_synonym 'v obj = "(string \<times> 'v) list"

abbreviation obj_get :: "'v obj \<Rightarrow> string \<Rightarrow> 'v option" where
  "obj_get ob k \<equiv> map_of ob k"

abbreviation obj_set :: "string \<Rightarrow> 'v \<Rightarrow> 'v obj \<Rightarrow> 'v obj" where
  "obj_set k v ob \<equiv> AList.update k v ob"

abbreviation obj_delete :: "string \<Rightarrow> 'v obj \<Rightarrow> 'v obj" where
  "obj_delete k ob \<equiv> AList.delete k ob"

definition obj_has :: "'v obj \<Rightarrow> string \<Rightarrow> bool" where
  "obj_has ob k \<longleftrightarrow> map_of ob k \<noteq> None"

text \<open>Array-index property names: canonical decimals below \<open>2^32 - 1\<close>.\<close>

definition is_index_key :: "string \<Rightarrow> bool" where
  "is_index_key s \<longleftrightarrow> s \<noteq> [] \<and> list_all is_digit s \<and> (length s = 1 \<or> hd s \<noteq> CHR ''0'') \<and>
     num_value s < 4294967295"

definition obj_keys :: "'v obj \<Rightarrow> string list" where
  "obj_keys ob = (let ks = map fst ob in
     sort_key num_value (filter is_index_key ks) @ filter (\<lambda>k. \<not> is_index_key k) ks)"

definition wf_obj :: "'v obj \<Rightarrow> bool" where
  "wf_obj ob \<longleftrightarrow> distinct (map fst ob)"

lemma obj_has_iff: "obj_has ob k \<longleftrightarrow> k \<in> fst ` set ob"
  by (auto simp: obj_has_def map_of_eq_None_iff)

lemma set_obj_keys [simp]: "set (obj_keys ob) = fst ` set ob"
  by (auto simp: obj_keys_def Let_def)

lemma distinct_obj_keys: "wf_obj ob \<Longrightarrow> distinct (obj_keys ob)"
  by (auto simp: wf_obj_def obj_keys_def Let_def distinct_map_filter)

lemma obj_keys_plain:
  assumes "list_all (\<lambda>k. \<not> is_index_key k) (map fst ob)"
  shows "obj_keys ob = map fst ob"
proof -
  have "filter is_index_key (map fst ob) = []"
    and "filter (\<lambda>k. \<not> is_index_key k) (map fst ob) = map fst ob"
    using assms by (auto simp: filter_empty_conv filter_id_conv list_all_iff)
  then show ?thesis by (simp add: obj_keys_def Let_def)
qed

lemma set_obj_set: "kv \<in> set (obj_set k v ob) \<Longrightarrow> kv = (k, v) \<or> kv \<in> set ob"
  by (induction ob) (auto split: if_splits)

lemma map_filter_append: "List.map_filter f (xs @ ys) = List.map_filter f xs @ List.map_filter f ys"
  by (simp add: List.map_filter_def)

lemma wf_obj_set [simp]: "wf_obj ob \<Longrightarrow> wf_obj (obj_set k v ob)"
  by (simp add: wf_obj_def distinct_update)

lemma wf_obj_delete [simp]: "wf_obj ob \<Longrightarrow> wf_obj (obj_delete k ob)"
  by (simp add: wf_obj_def distinct_delete)

lemma wf_obj_Nil [simp]: "wf_obj []"
  by (simp add: wf_obj_def)

lemma obj_has_set [simp]: "obj_has (obj_set k v ob) k' \<longleftrightarrow> k' = k \<or> obj_has ob k'"
  by (auto simp: obj_has_def update_conv)

lemma obj_get_set: "obj_get (obj_set k v ob) k' = (if k' = k then Some v else obj_get ob k')"
  by (simp add: update_conv')

text \<open>
  The dictionary contract the components rely on: reading back what was written, and a key
  list that holds exactly the keys with a value.
\<close>

locale dictionary =
  fixes empty_d :: "'d"
    and get_d :: "'d \<Rightarrow> string \<Rightarrow> 'v option"
    and set_d :: "string \<Rightarrow> 'v \<Rightarrow> 'd \<Rightarrow> 'd"
    and keys_d :: "'d \<Rightarrow> string list"
  assumes get_empty: "get_d empty_d k = None"
    and get_set: "get_d (set_d k v d) k' = (if k' = k then Some v else get_d d k')"
    and keys_get: "k \<in> set (keys_d d) \<longleftrightarrow> get_d d k \<noteq> None"
begin

text \<open>Writing a layer of entries over a dictionary: the layer's entry wins, else the base.\<close>

lemma get_layer:
  "get_d (foldl (\<lambda>d k. set_d k (f k) d) base ks) k =
     (if k \<in> set ks then Some (f k) else get_d base k)"
  by (induction ks arbitrary: base) (auto simp: get_set)

lemma keys_set: "set (keys_d (set_d k v d)) = insert k (set (keys_d d))"
  by (auto simp: keys_get get_set split: if_splits)

end

interpretation objd: dictionary "[]" map_of AList.update obj_keys
  by unfold_locales (auto simp: update_conv' map_of_eq_None_iff)

lemma distinct_map_inj: "distinct (map f xs) \<Longrightarrow> x \<in> set xs \<Longrightarrow> y \<in> set xs \<Longrightarrow> f x = f y \<Longrightarrow> x = y"
  by (auto simp: distinct_map dest: inj_onD)

text \<open>The object spread \<open>{...a, ...b}\<close>.\<close>

definition obj_merge :: "'v obj \<Rightarrow> 'v obj \<Rightarrow> 'v obj" where
  "obj_merge a b = foldl (\<lambda>ob (k, v). obj_set k v ob) a b"

lemma wf_obj_merge: "wf_obj a \<Longrightarrow> wf_obj (obj_merge a b)"
  unfolding obj_merge_def by (induction b arbitrary: a) auto

lemma obj_get_merge: "wf_obj b \<Longrightarrow> map_of (obj_merge a b) = map_of a ++ map_of b"
proof (induction b arbitrary: a)
  case Nil
  then show ?case by (simp add: obj_merge_def)
next
  case (Cons kv b)
  obtain k v where kv: "kv = (k, v)" by (cases kv)
  with Cons.prems have "wf_obj b" and k: "k \<notin> fst ` set b" by (auto simp: wf_obj_def)
  then have "map_of (obj_merge (obj_set k v a) b) = map_of (obj_set k v a) ++ map_of b"
    using Cons.IH by blast
  moreover have "obj_merge a (kv # b) = obj_merge (obj_set k v a) b"
    by (simp add: obj_merge_def kv)
  ultimately show ?case
    using k by (auto simp: kv update_conv' map_add_def map_of_eq_None_iff fun_eq_iff
        split: option.splits)
qed

section \<open>Fallible results and promises\<close>

definition sum_bind :: "'e + 'a \<Rightarrow> ('a \<Rightarrow> 'e + 'b) \<Rightarrow> 'e + 'b" where
  "sum_bind x f = (case x of Inl e \<Rightarrow> Inl e | Inr a \<Rightarrow> f a)"

lemma sum_bind_simps [simp]:
  "sum_bind (Inl e) f = Inl e"
  "sum_bind (Inr a) f = f a"
  by (simp_all add: sum_bind_def)

lemma sum_bind_Inr_conv: "sum_bind x f = Inr b \<longleftrightarrow> (\<exists>a. x = Inr a \<and> f a = Inr b)"
  by (cases x) simp_all

lemma sum_bind_Inl_conv:
  "sum_bind x f = Inl e \<longleftrightarrow> x = Inl e \<or> (\<exists>a. x = Inr a \<and> f a = Inl e)"
  by (cases x) simp_all

text \<open>
  What a promise ends as. \<open>NeverSettles\<close> is the promise whose executor failed without calling
  \<open>resolve\<close> or \<open>reject\<close>: nobody awaiting it ever continues.
\<close>

datatype ('e, 'a) settled = Fulfilled 'a | Rejected 'e | NeverSettles

fun settled_of :: "'e + 'a \<Rightarrow> ('e, 'a) settled" where
  "settled_of (Inl e) = Rejected e"
| "settled_of (Inr a) = Fulfilled a"

section \<open>Chains of optional hooks\<close>

text \<open>
  A chain threads a value through a list of hooks; the first hook that throws ends it. A hook
  that is absent or that returns \<open>undefined\<close> or \<open>null\<close> leaves the value as it is.
\<close>

fun run_chain :: "('i \<Rightarrow> 'a \<Rightarrow> 'e + 'a) \<Rightarrow> 'i list \<Rightarrow> 'a \<Rightarrow> 'e + 'a" where
  "run_chain step [] a = Inr a"
| "run_chain step (i # is) a = (case step i a of Inl e \<Rightarrow> Inl e | Inr b \<Rightarrow> run_chain step is b)"

lemma run_chain_append:
  "run_chain step (xs @ ys) a = sum_bind (run_chain step xs a) (run_chain step ys)"
  by (induction xs arbitrary: a) (auto split: sum.splits)

lemma run_chain_id: "(\<And>i b. i \<in> set is \<Longrightarrow> step i b = Inr b) \<Longrightarrow> run_chain step is a = Inr a"
  by (induction "is" arbitrary: a) auto

lemma run_chain_error_origin:
  "run_chain step is a = Inl e \<Longrightarrow> \<exists>xs i ys b. is = xs @ i # ys \<and> run_chain step xs a = Inr b \<and> step i b = Inl e"
proof (induction "is" arbitrary: a)
  case Nil
  then show ?case by simp
next
  case (Cons i "is")
  show ?case
  proof (cases "step i a")
    case (Inl e')
    with Cons.prems show ?thesis
      by (intro exI [of _ "[]"] exI [of _ i] exI [of _ "is"] exI [of _ a]) simp
  next
    case (Inr b)
    with Cons.prems have "run_chain step is b = Inl e" by simp
    then obtain xs j ys b' where "is = xs @ j # ys" "run_chain step xs b = Inr b'" "step j b' = Inl e"
      using Cons.IH by blast
    with Inr show ?thesis
      by (intro exI [of _ "i # xs"] exI [of _ j] exI [of _ ys] exI [of _ b']) simp
  qed
qed

locale hook_chain =
  fixes step :: "'i \<Rightarrow> 'a \<Rightarrow> 'e + 'a"
    and inv :: "'a \<Rightarrow> bool"
    and err :: "'e \<Rightarrow> bool"
  assumes step_inv: "inv a \<Longrightarrow> step i a = Inr b \<Longrightarrow> inv b"
    and step_err: "step i a = Inl e \<Longrightarrow> err e"
begin

lemma chain_inv: "inv a \<Longrightarrow> run_chain step is a = Inr b \<Longrightarrow> inv b"
  by (induction "is" arbitrary: a) (auto split: sum.splits dest: step_inv)

lemma chain_err: "run_chain step is a = Inl e \<Longrightarrow> err e"
  by (induction "is" arbitrary: a) (auto split: sum.splits dest: step_err)

end

section \<open>Orderings by priority\<close>

text \<open>\<open>Array.prototype.sort\<close> with the comparator \<open>b.priority - a.priority\<close>: stable, descending.\<close>

definition sort_desc :: "('a \<Rightarrow> int) \<Rightarrow> 'a list \<Rightarrow> 'a list" where
  "sort_desc prio xs = sort_key (\<lambda>x. - prio x) xs"

lemma set_sort_desc [simp]: "set (sort_desc prio xs) = set xs"
  by (simp add: sort_desc_def)

lemma mset_sort_desc [simp]: "mset (sort_desc prio xs) = mset xs"
  by (simp add: sort_desc_def)

lemma length_sort_desc [simp]: "length (sort_desc prio xs) = length xs"
  by (simp add: sort_desc_def)

lemma sort_desc_sorted: "sorted_wrt (\<lambda>x y. prio y \<le> prio x) (sort_desc prio xs)"
proof -
  have "sorted (map (\<lambda>x. - prio x) (sort_desc prio xs))"
    by (simp add: sort_desc_def)
  then show ?thesis by (simp add: sorted_map)
qed

lemma sort_desc_stable:
  "filter (\<lambda>x. prio x = p) (sort_desc prio xs) = filter (\<lambda>x. prio x = p) xs"
  using sort_key_stable [of "\<lambda>x. - prio x" "- p" xs] by (simp add: sort_desc_def)

section \<open>Observable effects\<close>

datatype severity = Debug | Info | Notice | Warning | Error

datatype effect =
    Log severity string
  | Marker string "(string \<times> string) list"
  | SpanStart string
  | SpanEnd string
  | Invoke string "string list"

text \<open>\<open>Invoke\<close> is a call of the application's own code: a controller method, a scheduled task.\<close>

definition in_span :: "string \<Rightarrow> effect list \<Rightarrow> effect list" where
  "in_span name effs = SpanStart name # effs @ [SpanEnd name]"

lemma set_in_span [simp]: "set (in_span name effs) = insert (SpanStart name) (insert (SpanEnd name) (set effs))"
  by (auto simp: in_span_def)

end
