(* ===== verification/Route_Tree.thy ===== *)
theory Route_Tree
  imports Pristine_Prelude
begin

text \<open>
  The route tree of the networking package: \<open>utils/url.util.ts\<close> and the nodes under
  \<open>nodes/\<close>. A node's parent pointer is represented by the list of its ancestors' paths,
  nearest first, which \<open>find_node\<close> carries down and returns with the leaf it found.
\<close>

section \<open>Url utilities\<close>

fun split_loop :: "string \<Rightarrow> string \<Rightarrow> string list \<Rightarrow> string \<times> string list" where
  "split_loop [] buffer paths = (buffer, paths)"
| "split_loop (c # cs) buffer paths =
     (if c = CHR ''/'' then split_loop cs [] (paths @ [''/'' @ buffer])
      else split_loop cs (buffer @ [c]) paths)"

definition splitPath :: "string \<Rightarrow> string list" where
  "splitPath path =
     (case split_loop path [] [] of (buffer, paths) \<Rightarrow>
        let paths = (if buffer \<noteq> [] then paths @ [''/'' @ buffer] else paths) in
        if paths \<noteq> [] \<and> last paths = ''/'' then butlast paths else paths)"

definition isPathARouteParameter :: "string \<Rightarrow> bool" where
  "isPathARouteParameter path \<longleftrightarrow>
     (starts_with path ''/{'' \<and> ends_with path ''}'') \<or> starts_with path ''/:''"

definition isPathACatchAll :: "string \<Rightarrow> bool" where
  "isPathACatchAll path \<longleftrightarrow> starts_with path ''/*''"

section \<open>Nodes\<close>

datatype 'r node =
    PathNode (node_path: string) "nat option" "'r node list"
  | MethodNode (node_method: string) 'r nat

datatype tree_error =
    PathRouterAddingError
  | PathRouterInstantiationError string
  | MethodRouterAddingError
  | UndefinedSlice

record 'r found =
  fd_method :: string
  fd_route :: 'r
  fd_level :: nat
  fd_ancestors :: "string list"

definition path_matches :: "string \<Rightarrow> string \<Rightarrow> bool" where
  "path_matches path seg \<longleftrightarrow> isPathACatchAll path \<or> isPathARouteParameter path \<or> path = seg"

text \<open>The child of type \<open>PathRouterNode\<close> that \<open>add\<close> descends into for the next segment.\<close>

fun add_candidate :: "string \<Rightarrow> 'r node \<Rightarrow> bool" where
  "add_candidate seg (MethodNode m r l) = False"
| "add_candidate seg (PathNode p l ch) =
     (if isPathACatchAll seg then isPathACatchAll p
      else if isPathARouteParameter seg then isPathARouteParameter p \<and> p = seg
      else path_matches p seg \<and> \<not> isPathACatchAll p \<and> \<not> isPathARouteParameter p)"

fun is_method_child :: "string \<Rightarrow> 'r node \<Rightarrow> bool" where
  "is_method_child m (MethodNode m' r l) = (m' = m)"
| "is_method_child m (PathNode p l ch) = False"

fun first_index :: "('a \<Rightarrow> bool) \<Rightarrow> 'a list \<Rightarrow> nat option" where
  "first_index P [] = None"
| "first_index P (x # xs) = (if P x then Some 0 else map_option Suc (first_index P xs))"

fun add_node :: "'r node \<Rightarrow> string list \<Rightarrow> string \<Rightarrow> 'r \<Rightarrow> nat \<Rightarrow> tree_error + 'r node" where
  "add_node (MethodNode m' r' l') sp m r level = Inl MethodRouterAddingError"
| "add_node (PathNode p l ch) [] m r level = Inr (PathNode p l ch)"
| "add_node (PathNode p l ch) [s] m r level =
     (if \<not> path_matches p s then Inr (PathNode p l ch)
      else if list_ex (is_method_child m) ch then Inl PathRouterAddingError
      else Inr (PathNode p (Some level) (ch @ [MethodNode m r (level + 1)])))"
| "add_node (PathNode p l ch) (s # q # rest) m r level =
     (if \<not> path_matches p s then Inr (PathNode p l ch)
      else case first_index (add_candidate q) ch of
        Some i \<Rightarrow>
          (case add_node (ch ! i) (q # rest) m r (level + 1) of
             Inl e \<Rightarrow> Inl e
           | Inr c \<Rightarrow> Inr (PathNode p (Some level) (ch[i := c])))
      | None \<Rightarrow>
          (if \<not> starts_with q ''/'' then Inl (PathRouterInstantiationError q)
           else case add_node (PathNode q None []) (q # rest) m r (level + 1) of
             Inl e \<Rightarrow> Inl e
           | Inr c \<Rightarrow> Inr (PathNode p (Some level) (ch @ [c]))))"

text \<open>\<open>node.parent?.isCatchAll() === false\<close> and \<open>containsRouteParameterInPath\<close> of a found leaf.\<close>

definition parent_is_catch_all :: "string list \<Rightarrow> bool" where
  "parent_is_catch_all anc = (case anc of [] \<Rightarrow> False | a # _ \<Rightarrow> isPathACatchAll a)"

definition contains_route_parameter :: "'r found \<Rightarrow> bool" where
  "contains_route_parameter f = list_ex isPathARouteParameter (fd_ancestors f)"

definition select_found :: "'r found list \<Rightarrow> 'r found option" where
  "select_found fs =
     (if fs = [] then None
      else
        let nonCatchAll = filter (\<lambda>f. fd_ancestors f \<noteq> [] \<and> \<not> parent_is_catch_all (fd_ancestors f)) fs in
        if nonCatchAll \<noteq> [] then
          (if length nonCatchAll = 1 then Some (hd nonCatchAll)
           else case find (\<lambda>f. \<not> contains_route_parameter f) nonCatchAll of
             Some f \<Rightarrow> Some f
           | None \<Rightarrow> Some (hd nonCatchAll))
        else Some (hd (sort_desc (\<lambda>f. int (fd_level f)) fs)))"

fun find_node :: "string list \<Rightarrow> 'r node \<Rightarrow> string list \<Rightarrow> string \<Rightarrow> 'r found option" where
  "find_node anc (MethodNode m' r l) sp m =
     (if m' = m \<and> (parent_is_catch_all anc \<or> sp = [])
      then Some \<lparr>fd_method = m', fd_route = r, fd_level = l, fd_ancestors = anc\<rparr> else None)"
| "find_node anc (PathNode p l ch) [] m = None"
| "find_node anc (PathNode p l ch) (s # rest) m =
     (if \<not> path_matches p s then None
      else select_found (List.map_filter (\<lambda>c. find_node (p # anc) c rest m) ch))"

text \<open>
  \<open>getRouteParameters\<close>: from the leaf's parent upwards, each node paired with the segment at
  its position in the reversed request path. A parent's entry overwrites a child's.
\<close>

definition own_parameter :: "string \<Rightarrow> string list \<Rightarrow> tree_error + string obj" where
  "own_parameter p sp =
     (case sp of
        [] \<Rightarrow> (if \<not> isPathACatchAll p \<and> isPathARouteParameter p then Inl UndefinedSlice else Inr [])
      | s # _ \<Rightarrow>
          (if \<not> path_matches p s then Inr []
           else if starts_with p ''/{'' \<and> ends_with p ''}'' then
             Inr [(take (length p - 3) (drop 2 p), drop 1 s)]
           else if starts_with p ''/:'' then Inr [(drop 2 p, drop 1 s)]
           else Inr []))"

fun getRouteParameters :: "string list \<Rightarrow> string list \<Rightarrow> tree_error + string obj" where
  "getRouteParameters [] sp = Inr []"
| "getRouteParameters (p # up) sp =
     sum_bind (own_parameter p sp) (\<lambda>own.
       if up = [] then Inr own
       else sum_bind (getRouteParameters up (drop 1 sp)) (\<lambda>above. Inr (obj_merge own above)))"

section \<open>The router's tree operations\<close>

definition root_node :: "'r node" where
  "root_node = PathNode ''/'' None []"

definition register :: "'r node \<Rightarrow> string \<Rightarrow> string \<Rightarrow> 'r \<Rightarrow> tree_error + 'r node" where
  "register root path m r = add_node root (splitPath path) m r 0"

fun register_all :: "'r node \<Rightarrow> (string \<times> string \<times> 'r) list \<Rightarrow> tree_error + 'r node" where
  "register_all root [] = Inr root"
| "register_all root ((path, m, r) # rs) =
     sum_bind (register root path m r) (\<lambda>root'. register_all root' rs)"

fun getRouteTreeLevel :: "nat \<Rightarrow> 'r node \<Rightarrow> string" where
  "getRouteTreeLevel level (MethodNode m r l) = []"
| "getRouteTreeLevel level (PathNode p l ch) =
     concat (map (\<lambda>c. replicate level (CHR 0x09) @ ''--'' @
       (case c of PathNode p' _ _ \<Rightarrow> p' | MethodNode m _ _ \<Rightarrow> m) @ [CHR 0x0A] @
       getRouteTreeLevel (level + 1) c) ch)"

section \<open>Abstraction: the routes a tree holds\<close>

fun routes :: "'r node \<Rightarrow> (string list \<times> string \<times> 'r) list" where
  "routes (MethodNode m r l) = [([], m, r)]"
| "routes (PathNode p l ch) = map (\<lambda>(pat, m, r). (p # pat, m, r)) (concat (map routes ch))"

text \<open>A route pattern against a request path; \<open>ca\<close> says that the segment before was a catch-all.\<close>

fun pat_match :: "bool \<Rightarrow> string list \<Rightarrow> string list \<Rightarrow> bool" where
  "pat_match ca [] sp = (ca \<or> sp = [])"
| "pat_match ca (p # ps) [] = False"
| "pat_match ca (p # ps) (s # sp) = (path_matches p s \<and> pat_match (isPathACatchAll p) ps sp)"

definition seg_equiv :: "string \<Rightarrow> string \<Rightarrow> bool" where
  "seg_equiv a b \<longleftrightarrow> a = b \<or> (isPathACatchAll a \<and> isPathACatchAll b)"

definition pat_equiv :: "string list \<Rightarrow> string list \<Rightarrow> bool" where
  "pat_equiv = list_all2 seg_equiv"

section \<open>Lemmas on segments\<close>

lemma catch_all_not_parameter: "isPathACatchAll p \<Longrightarrow> \<not> isPathARouteParameter p"
  by (cases p; cases "tl p") (auto simp: isPathACatchAll_def isPathARouteParameter_def starts_with_def)

lemma path_matches_refl [simp]: "path_matches p p"
  by (simp add: path_matches_def)

lemma seg_equiv_matches: "seg_equiv p q \<Longrightarrow> path_matches p s \<longleftrightarrow> path_matches q s"
  by (auto simp: seg_equiv_def path_matches_def)

lemma seg_equiv_catch_all: "seg_equiv p q \<Longrightarrow> isPathACatchAll p \<longleftrightarrow> isPathACatchAll q"
  by (auto simp: seg_equiv_def)

lemma seg_equiv_self_match: "seg_equiv p q \<Longrightarrow> path_matches p q"
  by (auto simp: seg_equiv_def path_matches_def)

lemma seg_equiv_trans: "seg_equiv a b \<Longrightarrow> seg_equiv b c \<Longrightarrow> seg_equiv a c"
  by (auto simp: seg_equiv_def)

lemma seg_equiv_sym: "seg_equiv a b \<Longrightarrow> seg_equiv b a"
  by (auto simp: seg_equiv_def)

lemma add_candidate_iff: "add_candidate q (PathNode p l ch) \<longleftrightarrow> seg_equiv p q"
  by (auto simp: seg_equiv_def path_matches_def dest: catch_all_not_parameter)

lemma pat_equiv_match: "pat_equiv ps qs \<Longrightarrow> pat_match ca ps sp \<longleftrightarrow> pat_match ca qs sp"
  unfolding pat_equiv_def
proof (induction ps qs arbitrary: ca sp rule: list_all2_induct)
  case Nil
  then show ?case by simp
next
  case (Cons p ps q qs)
  then show ?case
    by (cases sp) (auto simp: seg_equiv_matches seg_equiv_catch_all)
qed

lemma pat_equiv_refl [simp]: "pat_equiv ps ps"
  by (simp add: pat_equiv_def list_all2_same seg_equiv_def)

lemma pat_equiv_Cons [simp]: "pat_equiv (p # ps) (q # qs) \<longleftrightarrow> seg_equiv p q \<and> pat_equiv ps qs"
  by (simp add: pat_equiv_def)

lemma first_index_Some:
  "first_index P xs = Some i \<Longrightarrow> i < length xs \<and> P (xs ! i)"
  by (induction xs arbitrary: i) (auto split: if_splits)

lemma first_index_None: "first_index P xs = None \<longleftrightarrow> list_all (\<lambda>x. \<not> P x) xs"
  by (induction xs) auto

lemma add_candidate_path:
  assumes "add_candidate q c"
  obtains p l ch where "c = PathNode p l ch" and "seg_equiv p q"
  using assms by (cases c) (auto simp: add_candidate_iff simp del: add_candidate.simps(2))

section \<open>Adding a route\<close>

lemma mset_concat_update:
  assumes "i < length ch"
  shows "mset (concat (map f (ch[i := c]))) + mset (f (ch ! i)) = mset (concat (map f ch)) + mset (f c)"
proof -
  have "concat (map f ch) = concat (map f (take i ch)) @ f (ch ! i) @ concat (map f (drop (Suc i) ch))"
    by (subst id_take_nth_drop [OF assms]) simp
  moreover have "concat (map f (ch[i := c])) =
      concat (map f (take i ch)) @ f c @ concat (map f (drop (Suc i) ch))"
    by (subst upd_conv_take_nth_drop [OF assms]) simp
  ultimately show ?thesis by simp
qed

text \<open>An accepted \<open>add\<close> puts exactly one route into the tree, under a pattern equivalent to the given one.\<close>

lemma add_node_routes:
  assumes "add_node (PathNode p l ch) (s # rest) m r level = Inr t'" and "path_matches p s"
  shows "\<exists>pat l' ch'. t' = PathNode p l' ch' \<and> pat_equiv pat rest \<and>
    mset (routes t') = add_mset (p # pat, m, r) (mset (routes (PathNode p l ch)))"
  using assms
proof (induction rest arbitrary: p l ch s level t')
  case Nil
  then have "t' = PathNode p (Some level) (ch @ [MethodNode m r (level + 1)])"
    by (simp split: if_splits)
  then show ?case by (intro exI [of _ "[]"]) simp
next
  case (Cons q rest)
  show ?case
  proof (cases "first_index (add_candidate q) ch")
    case None
    with Cons.prems obtain c where c: "add_node (PathNode q None []) (q # rest) m r (level + 1) = Inr c"
      and t': "t' = PathNode p (Some level) (ch @ [c])"
      by (auto split: if_splits sum.splits)
    from Cons.IH [OF c] obtain pat where "pat_equiv pat rest"
      and "mset (routes c) = add_mset (q # pat, m, r) (mset (routes (PathNode q None [])))"
      by auto
    with t' show ?thesis
      by (intro exI [of _ "q # pat"]) (simp add: seg_equiv_def)
  next
    case (Some i)
    from first_index_Some [OF Some] obtain p' l' ch' where i: "i < length ch"
      and ci: "ch ! i = PathNode p' l' ch'" and eq: "seg_equiv p' q"
      by (auto elim: add_candidate_path)
    from Cons.prems Some obtain c where c: "add_node (PathNode p' l' ch') (q # rest) m r (level + 1) = Inr c"
      and t': "t' = PathNode p (Some level) (ch[i := c])"
      by (auto simp: ci split: if_splits sum.splits)
    from Cons.IH [OF c seg_equiv_self_match [OF eq]] obtain pat where pat: "pat_equiv pat rest"
      and rc: "mset (routes c) = add_mset (p' # pat, m, r) (mset (routes (ch ! i)))"
      unfolding ci by auto
    have "mset (concat (map routes (ch[i := c]))) + mset (routes (ch ! i)) =
        mset (concat (map routes ch)) + mset (routes c)"
      by (rule mset_concat_update [OF i])
    with rc have "mset (concat (map routes (ch[i := c]))) =
        add_mset (p' # pat, m, r) (mset (concat (map routes ch)))"
      by simp
    then have "image_mset (\<lambda>(pat, m, r). (p # pat, m, r)) (mset (concat (map routes (ch[i := c])))) =
        add_mset (p # p' # pat, m, r)
          (image_mset (\<lambda>(pat, m, r). (p # pat, m, r)) (mset (concat (map routes ch))))"
      by simp
    with t' pat eq show ?thesis
      by (intro exI [of _ "p' # pat"]) simp
  qed
qed

lemma add_node_ignored:
  "sp = [] \<or> \<not> path_matches p (hd sp) \<Longrightarrow> add_node (PathNode p l ch) sp m r level = Inr (PathNode p l ch)"
  by (cases sp; cases "tl sp") auto

text \<open>Siblings never answer for the same segment or the same method: the tree's invariant.\<close>

fun child_key :: "'r node \<Rightarrow> bool \<times> string" where
  "child_key (MethodNode m r l) = (True, m)"
| "child_key (PathNode p l ch) = (False, if isPathACatchAll p then ''/*'' else p)"

fun wf_node :: "'r node \<Rightarrow> bool" where
  "wf_node (MethodNode m r l) = True"
| "wf_node (PathNode p l ch) = (list_all wf_node ch \<and> distinct (map child_key ch))"

lemma child_key_path: "child_key (PathNode p l ch) = child_key (PathNode q l' ch') \<longleftrightarrow> seg_equiv p q"
proof -
  have "isPathACatchAll ''/*''" by (simp add: isPathACatchAll_def starts_with_def)
  then show ?thesis by (auto simp: seg_equiv_def)
qed

lemma is_method_child_key: "is_method_child m c \<longleftrightarrow> child_key c = (True, m)"
  by (cases c) auto

lemma add_candidate_key:
  "add_candidate q c \<longleftrightarrow> child_key c = (False, if isPathACatchAll q then ''/*'' else q)"
proof (cases c)
  case (PathNode p l ch)
  then show ?thesis
    using child_key_path [of p l ch q None "[]"] add_candidate_iff [of q p l ch] by simp
qed (simp split: if_splits)

lemma add_node_wf:
  assumes "add_node t sp m r level = Inr t'" and "wf_node t"
  shows "wf_node t' \<and> child_key t' = child_key t"
  using assms
proof (induction t sp m r level arbitrary: t' rule: add_node.induct)
  case (3 p l ch s m r level)
  then show ?case
    by (auto split: if_splits simp: list_ex_iff is_method_child_key) blast+
next
  case (4 p l ch s q rest m r level)
  show ?case
  proof (cases "path_matches p s")
    case False
    with 4 show ?thesis by simp
  next
    case True
    show ?thesis
    proof (cases "first_index (add_candidate q) ch")
      case None
      with True 4 obtain c where c: "add_node (PathNode q None []) (q # rest) m r (level + 1) = Inr c"
        and t': "t' = PathNode p (Some level) (ch @ [c])" and q: "starts_with q ''/''"
        by (auto split: if_splits sum.splits)
      have "wf_node c" and "child_key c = (False, if isPathACatchAll q then ''/*'' else q)"
        using "4.IH"(1) [OF _ None _ c] True q by auto
      moreover have "(False, if isPathACatchAll q then ''/*'' else q) \<notin> child_key ` set ch"
        using None by (force simp: first_index_None list_all_iff add_candidate_key)
      ultimately show ?thesis using t' "4.prems" by auto
    next
      case (Some i)
      with True 4 obtain c where c: "add_node (ch ! i) (q # rest) m r (level + 1) = Inr c"
        and t': "t' = PathNode p (Some level) (ch[i := c])"
        by (auto split: if_splits sum.splits)
      from Some have i: "i < length ch" by (auto dest: first_index_Some)
      with "4.prems" have "wf_node (ch ! i)" by (simp add: list_all_length)
      with "4.IH"(2) [OF _ Some c] True have wc: "wf_node c" "child_key c = child_key (ch ! i)"
        by auto
      then have "map child_key (ch[i := c]) = map child_key ch"
        using i by (simp add: map_update list_update_same_conv)
      moreover have "list_all wf_node (ch[i := c])"
        using "4.prems" wc(1) i by (auto simp: list_all_iff dest: set_update_subset_insert [THEN subsetD])
      ultimately show ?thesis using t' "4.prems" by auto
    qed
  qed
qed auto

text \<open>\<open>add\<close> is refused exactly when an equivalent route with the same method is already there.\<close>

lemma routes_nonempty_path: "(pat, m, r) \<in> set (routes (PathNode p l ch)) \<longleftrightarrow>
    (\<exists>c pat'. c \<in> set ch \<and> pat = p # pat' \<and> (pat', m, r) \<in> set (routes c))"
  by auto

declare routes.simps(2) [simp del]
declare routes_nonempty_path [simp]

lemma add_node_refused:
  assumes "wf_node (PathNode p l ch)" and "path_matches p s" and "list_all (\<lambda>q. starts_with q ''/'') rest"
  shows "add_node (PathNode p l ch) (s # rest) m r level = Inl e \<Longrightarrow>
      e = PathRouterAddingError \<and> (\<exists>pat r'. pat_equiv pat rest \<and> (p # pat, m, r') \<in> set (routes (PathNode p l ch)))"
    and "pat_equiv pat rest \<Longrightarrow> (p # pat, m, r') \<in> set (routes (PathNode p l ch)) \<Longrightarrow>
      add_node (PathNode p l ch) (s # rest) m r level = Inl PathRouterAddingError"
  using assms
proof (induction rest arbitrary: p l ch s level pat)
  case Nil
  {
    case 1
    then obtain c where "c \<in> set ch" and "is_method_child m c"
      by (auto simp: list_ex_iff split: if_splits)
    have "\<exists>r'. ([], m, r') \<in> set (routes c)"
      using \<open>is_method_child m c\<close> by (cases c) auto
    with 1 \<open>c \<in> set ch\<close> show ?case
      by (auto split: if_splits intro!: exI [of _ "[]"])
  next
    case 2
    then obtain c where c: "c \<in> set ch" and rc: "([], m, r') \<in> set (routes c)"
      by (auto simp: pat_equiv_def)
    from rc have "is_method_child m c" by (cases c) auto
    with 2 c show ?case by (auto simp: list_ex_iff)
  }
next
  case (Cons q rest)
  {
    case 1
    show ?case
    proof (cases "first_index (add_candidate q) ch")
      case None
      with 1 have "add_node (PathNode q None []) (q # rest) m r (level + 1) = Inl e"
        by (auto split: if_splits sum.splits)
      with Cons.IH(1) [of q None "[]" q "level + 1"] 1(4) show ?thesis by simp
    next
      case (Some i)
      from first_index_Some [OF Some] obtain p' l' ch' where i: "i < length ch"
        and ci: "ch ! i = PathNode p' l' ch'" and eq: "seg_equiv p' q"
        by (auto elim: add_candidate_path)
      with Some 1 have err: "add_node (PathNode p' l' ch') (q # rest) m r (level + 1) = Inl e"
        by (auto split: if_splits sum.splits)
      have "wf_node (PathNode p' l' ch')" using 1(2) i ci by (metis list_all_length wf_node.simps(2))
      with Cons.IH(1) [OF err _ seg_equiv_self_match [OF eq]] 1(4) obtain pat r' where
        "e = PathRouterAddingError" "pat_equiv pat rest" "(p' # pat, m, r') \<in> set (routes (ch ! i))"
        unfolding ci by auto
      with eq i show ?thesis
        by (intro conjI exI [of _ "p' # pat"] exI [of _ r']) (auto intro!: exI [of _ "ch ! i"])
    qed
  next
    case 2
    then obtain p1 pat' c where pat: "pat = p1 # pat'" "seg_equiv p1 q" "pat_equiv pat' rest"
      and c: "c \<in> set ch" "(p1 # pat', m, r') \<in> set (routes c)"
      by (cases pat) (auto simp: pat_equiv_def)
    from c(2) obtain l1 ch1 where c1: "c = PathNode p1 l1 ch1" by (cases c) auto
    from pat(2) c have cand: "add_candidate q c" by (simp only: c1 add_candidate_iff)
    then obtain i where i: "first_index (add_candidate q) ch = Some i"
      using c(1) by (cases "first_index (add_candidate q) ch") (auto simp: first_index_None list_all_iff)
    then have il: "i < length ch" and ci: "add_candidate q (ch ! i)" by (auto dest: first_index_Some)
    from cand ci have "child_key c = child_key (ch ! i)" by (simp add: add_candidate_key)
    with 2(3) c(1) il have "c = ch ! i"
      by (auto intro: distinct_map_inj [of child_key ch])
    moreover have "wf_node c" using 2(3) c(1) by (auto simp: list_all_iff)
    ultimately have "add_node (ch ! i) (q # rest) m r (level + 1) = Inl PathRouterAddingError"
      using Cons.IH(2) [OF pat(3), of p1 l1 ch1 q "level + 1"] c c1 2(5)
        seg_equiv_self_match [OF pat(2)] by simp
    with i 2(4) show ?case by simp
  }
qed

section \<open>Finding a route\<close>

lemma find_member: "find P xs = Some x \<Longrightarrow> x \<in> set xs \<and> P x"
  by (auto simp: find_Some_iff)

lemma select_found_member: "select_found fs = Some f \<Longrightarrow> f \<in> set fs"
proof -
  assume a: "select_found fs = Some f"
  let ?nca = "filter (\<lambda>f. fd_ancestors f \<noteq> [] \<and> \<not> parent_is_catch_all (fd_ancestors f)) fs"
  have sub: "set ?nca \<subseteq> set fs" by auto
  have fs: "fs \<noteq> []" using a by (auto simp: select_found_def)
  have "f \<in> set ?nca" if "?nca \<noteq> []"
    using a that fs hd_in_set [OF that]
    by (auto simp only: select_found_def Let_def if_False if_True not_False_eq_True simp_thms
        option.inject split: if_splits option.splits dest: find_member)
  moreover have "f \<in> set fs" if "?nca = []"
  proof -
    have "f = hd (sort_desc (\<lambda>f. int (fd_level f)) fs)"
      using a that fs by (simp add: select_found_def Let_def)
    moreover have "sort_desc (\<lambda>f. int (fd_level f)) fs \<noteq> []"
      using fs by (metis length_0_conv length_sort_desc)
    ultimately show ?thesis by (metis hd_in_set set_sort_desc)
  qed
  ultimately show ?thesis using sub by blast
qed

lemma select_found_None [simp]: "select_found fs = None \<longleftrightarrow> fs = []"
  by (auto simp: select_found_def Let_def split: option.splits)

lemma map_filter_member:
  "y \<in> set (List.map_filter f xs) \<longleftrightarrow> (\<exists>x \<in> set xs. f x = Some y)"
  by (induction xs) (auto simp: List.map_filter_simps split: option.splits)

lemma map_filter_empty: "List.map_filter f xs = [] \<longleftrightarrow> (\<forall>x \<in> set xs. f x = None)"
  by (induction xs) (auto simp: List.map_filter_simps split: option.splits)

text \<open>Whatever \<open>find\<close> returns is a registered route of the asked method whose pattern matches the path.\<close>

lemma find_node_sound:
  "find_node anc n sp m = Some f \<Longrightarrow>
     \<exists>pat. (pat, m, fd_route f) \<in> set (routes n) \<and> fd_method f = m \<and>
       fd_ancestors f = rev pat @ anc \<and> pat_match (parent_is_catch_all anc) pat sp"
proof (induction anc n sp m arbitrary: f rule: find_node.induct)
  case (3 anc p l ch s rest m)
  then have ps: "path_matches p s"
    and "f \<in> set (List.map_filter (\<lambda>c. find_node (p # anc) c rest m) ch)"
    by (auto split: if_splits dest: select_found_member)
  then obtain c where c: "c \<in> set ch" and fc: "find_node (p # anc) c rest m = Some f"
    by (auto simp: map_filter_member)
  from "3.IH" [OF _ fc] ps obtain pat where "(pat, m, fd_route f) \<in> set (routes c)"
    "fd_method f = m" "fd_ancestors f = rev pat @ p # anc" "pat_match (isPathACatchAll p) pat rest"
    by (auto simp: parent_is_catch_all_def)
  with c ps show ?case
    by (intro exI [of _ "p # pat"]) (auto intro!: bexI [of _ c] simp: image_iff)
qed (auto split: if_splits)

lemma find_node_complete:
  "(pat, m, r) \<in> set (routes n) \<Longrightarrow> pat_match (parent_is_catch_all anc) pat sp \<Longrightarrow>
     find_node anc n sp m \<noteq> None"
proof (induction anc n sp m arbitrary: pat rule: find_node.induct)
  case (3 anc p l ch s rest m)
  then obtain c pat' where c: "c \<in> set ch" and "pat = p # pat'" and r: "(pat', m, r) \<in> set (routes c)"
    by auto
  with 3 have ps: "path_matches p s" and "pat_match (parent_is_catch_all (p # anc)) pat' rest"
    by (auto simp: parent_is_catch_all_def)
  with "3.IH" [OF _ r] have "find_node (p # anc) c rest m \<noteq> None" by auto
  with c ps show ?case by (auto simp: map_filter_empty)
qed auto

section \<open>Priority of static routes\<close>

definition static_segment :: "string \<Rightarrow> bool" where
  "static_segment s \<longleftrightarrow> \<not> isPathACatchAll s \<and> \<not> isPathARouteParameter s"

definition clean_leaf :: "'r found \<Rightarrow> bool" where
  "clean_leaf f \<longleftrightarrow> fd_ancestors f \<noteq> [] \<and> \<not> parent_is_catch_all (fd_ancestors f) \<and>
     \<not> contains_route_parameter f"

lemma select_found_clean:
  assumes "g \<in> set fs" and "clean_leaf g"
  shows "\<exists>f. select_found fs = Some f \<and> clean_leaf f"
proof -
  let ?nca = "filter (\<lambda>f. fd_ancestors f \<noteq> [] \<and> \<not> parent_is_catch_all (fd_ancestors f)) fs"
  have g: "g \<in> set ?nca" using assms by (auto simp: clean_leaf_def)
  then have ne: "?nca \<noteq> []" by (metis empty_iff list.set(1))
  have fs: "fs \<noteq> []" using assms(1) by auto
  show ?thesis
  proof (cases "length ?nca = 1")
    case True
    with g have "?nca = [g]" by (cases ?nca) auto
    with ne fs assms show ?thesis by (simp add: select_found_def Let_def)
  next
    case False
    have "find (\<lambda>f. \<not> contains_route_parameter f) ?nca \<noteq> None"
      using g assms(2) unfolding find_None_iff by (auto simp: clean_leaf_def)
    then obtain f where f: "find (\<lambda>f. \<not> contains_route_parameter f) ?nca = Some f" by blast
    then have "clean_leaf f" by (auto dest: find_member simp: clean_leaf_def)
    with f False ne fs show ?thesis unfolding select_found_def Let_def by simp
  qed
qed

lemma find_node_static:
  "(sp, m, r) \<in> set (routes n) \<Longrightarrow> list_all static_segment sp \<Longrightarrow>
     list_all (\<lambda>p. \<not> isPathARouteParameter p) anc \<Longrightarrow> \<not> parent_is_catch_all anc \<Longrightarrow>
     anc \<noteq> [] \<or> sp \<noteq> [] \<Longrightarrow> \<exists>f. find_node anc n sp m = Some f \<and> clean_leaf f"
proof (induction anc n sp m rule: find_node.induct)
  case (1 anc m' r' l sp m)
  then show ?case by (auto simp: clean_leaf_def contains_route_parameter_def list_ex_iff list_all_iff)
next
  case (3 anc p l ch s rest m)
  then obtain c where c: "c \<in> set ch" and s: "s = p" and r: "(rest, m, r) \<in> set (routes c)"
    by auto
  with 3 have st: "static_segment p" "list_all static_segment rest" by auto
  with 3 s have anc: "list_all (\<lambda>p. \<not> isPathARouteParameter p) (p # anc)" "\<not> parent_is_catch_all (p # anc)"
    by (auto simp: static_segment_def parent_is_catch_all_def)
  have "\<not> \<not> path_matches p s" using s by simp
  from "3.IH" [OF this r st(2) anc] obtain g where "find_node (p # anc) c rest m = Some g" "clean_leaf g"
    by auto
  with c have "g \<in> set (List.map_filter (\<lambda>c. find_node (p # anc) c rest m) ch)"
    by (auto simp: map_filter_member)
  from select_found_clean [OF this \<open>clean_leaf g\<close>] show ?case using s by simp
qed simp

section \<open>Route parameters\<close>

definition param_name :: "string \<Rightarrow> string" where
  "param_name p = (if starts_with p ''/{'' \<and> ends_with p ''}'' then take (length p - 3) (drop 2 p)
     else drop 2 p)"

text \<open>The parameters a pattern assigns to a path of its own length, root first.\<close>

definition pattern_params :: "string list \<Rightarrow> string list \<Rightarrow> string obj" where
  "pattern_params pat sp = List.map_filter (\<lambda>(p, s).
     if isPathARouteParameter p then Some (param_name p, drop 1 s) else None) (zip pat sp)"

lemma own_parameter_Cons:
  assumes "path_matches p s"
  shows "own_parameter p (s # sp) =
    Inr (if isPathARouteParameter p then [(param_name p, drop 1 s)] else [])"
  using assms by (auto simp: own_parameter_def param_name_def isPathARouteParameter_def)

lemma getRouteParameters_upwards:
  "list_all2 path_matches ups sps \<Longrightarrow> ups \<noteq> [] \<Longrightarrow>
     \<exists>ob. getRouteParameters ups sps = Inr ob \<and> wf_obj ob \<and>
       map_of ob = map_of (pattern_params (rev ups) (rev sps))"
proof (induction ups sps rule: list_all2_induct)
  case Nil
  then show ?case by simp
next
  case (Cons p up s sps)
  let ?own = "if isPathARouteParameter p then [(param_name p, drop 1 s)] else []"
  have own: "own_parameter p (s # sps) = Inr ?own" by (rule own_parameter_Cons [OF Cons.hyps(1)])
  have wf: "wf_obj ?own" by (simp add: wf_obj_def)
  have len: "length up = length sps" using Cons.hyps(2) by (rule list_all2_lengthD)
  have params: "pattern_params (rev up @ [p]) (rev sps @ [s]) = pattern_params (rev up) (rev sps) @ ?own"
    using len by (simp add: pattern_params_def List.map_filter_def)
  show ?case
  proof (cases "up = []")
    case True
    with own wf len show ?thesis by (auto simp: pattern_params_def List.map_filter_def)
  next
    case False
    with Cons.IH obtain ob where ob: "getRouteParameters up sps = Inr ob" "wf_obj ob"
      "map_of ob = map_of (pattern_params (rev up) (rev sps))" by blast
    have "map_of (obj_merge ?own ob) = map_of (pattern_params (rev up) (rev sps) @ ?own)"
      by (simp only: obj_get_merge [OF ob(2)] ob(3) map_of_append)
    with False own ob(1) wf params show ?thesis
      by (auto intro: wf_obj_merge)
  qed
qed

lemma pat_match_lengths:
  "pat_match ca pat sp \<Longrightarrow> list_all (\<lambda>p. \<not> isPathACatchAll p) pat \<Longrightarrow> \<not> ca \<Longrightarrow> list_all2 path_matches pat sp"
  by (induction ca pat sp rule: pat_match.induct) auto

section \<open>Splitting a path\<close>

lemma split_loop_no_slash:
  "CHR ''/'' \<notin> set u \<Longrightarrow> split_loop (u @ cs) buf ps = split_loop cs (buf @ u) ps"
  by (induction u arbitrary: buf) auto

lemma split_loop_join:
  assumes "segs \<noteq> []" and "list_all (\<lambda>u. CHR ''/'' \<notin> set u) segs"
  shows "split_loop (join ''/'' segs) [] ps = (last segs, ps @ map (\<lambda>u. ''/'' @ u) (butlast segs))"
  using assms
proof (induction "''/''" segs arbitrary: ps rule: join.induct)
  case (2 x)
  then show ?case using split_loop_no_slash [of x "[]" "[]" ps] by simp
next
  case (3 x y ys)
  then have "split_loop (x @ ''/'' @ join ''/'' (y # ys)) [] ps =
      split_loop (join ''/'' (y # ys)) [] (ps @ [''/'' @ x])"
    using split_loop_no_slash [of x "''/'' @ join ''/'' (y # ys)" "[]" ps] by simp
  with 3 show ?case by simp
qed simp

lemma split_loop_slashes:
  "list_all (\<lambda>u. starts_with u ''/'') ps \<Longrightarrow> list_all (\<lambda>u. starts_with u ''/'') (snd (split_loop cs buf ps))"
  by (induction cs buf ps rule: split_loop.induct) auto

lemma splitPath_slashes: "list_all (\<lambda>u. starts_with u ''/'') (splitPath path)"
proof -
  obtain buf ps where b: "split_loop path [] [] = (buf, ps)" by (cases "split_loop path [] []") auto
  have "list_all (\<lambda>u. starts_with u ''/'') ps"
    using split_loop_slashes [of "[]" path "[]"] b by simp
  then show ?thesis by (auto simp: splitPath_def b Let_def list_all_iff dest: in_set_butlastD)
qed

section \<open>Registering routes\<close>

definition registrable :: "string \<Rightarrow> bool" where
  "registrable path \<longleftrightarrow> splitPath path \<noteq> [] \<and> hd (splitPath path) = ''/''"

lemma root_path_static [simp]: "path_matches ''/'' s \<longleftrightarrow> s = ''/''"
  by (auto simp: path_matches_def isPathACatchAll_def isPathARouteParameter_def starts_with_def)

lemma register_not_registrable:
  "\<not> registrable path \<Longrightarrow> register (PathNode ''/'' l ch) path m r = Inr (PathNode ''/'' l ch)"
  unfolding register_def registrable_def by (rule add_node_ignored) auto

lemma register_registrable:
  assumes "registrable path" and "register (PathNode ''/'' l ch) path m r = Inr t"
  shows "\<exists>l' ch' pat. t = PathNode ''/'' l' ch' \<and> pat_equiv pat (splitPath path) \<and>
    mset (routes t) = add_mset (pat, m, r) (mset (routes (PathNode ''/'' l ch)))"
proof -
  obtain rest where sp: "splitPath path = ''/'' # rest"
    using assms(1) by (cases "splitPath path") (auto simp: registrable_def)
  from assms(2) have "add_node (PathNode ''/'' l ch) (''/'' # rest) m r 0 = Inr t"
    by (simp add: register_def sp)
  from add_node_routes [OF this] obtain pat l' ch' where "t = PathNode ''/'' l' ch'" "pat_equiv pat rest"
    "mset (routes t) = add_mset (''/'' # pat, m, r) (mset (routes (PathNode ''/'' l ch)))"
    by auto
  then show ?thesis unfolding sp
    by (intro exI [of _ l'] exI [of _ ch'] exI [of _ "''/'' # pat"]) (simp add: seg_equiv_def)
qed

lemma register_all_routes:
  assumes "register_all (PathNode ''/'' l ch) rs = Inr t"
  shows "(\<exists>l' ch'. t = PathNode ''/'' l' ch') \<and>
    set (routes (PathNode ''/'' l ch)) \<subseteq> set (routes t) \<and>
    (\<forall>pat m r. (pat, m, r) \<in> set (routes t) \<longrightarrow> (pat, m, r) \<in> set (routes (PathNode ''/'' l ch)) \<or>
       (\<exists>path. (path, m, r) \<in> set rs \<and> registrable path \<and> pat_equiv pat (splitPath path))) \<and>
    (\<forall>path m r. (path, m, r) \<in> set rs \<and> registrable path \<longrightarrow>
       (\<exists>pat. pat_equiv pat (splitPath path) \<and> (pat, m, r) \<in> set (routes t)))"
  using assms
proof (induction rs arbitrary: l ch)
  case Nil
  then show ?case by auto
next
  case (Cons x rs)
  obtain path m r where x: "x = (path, m, r)" by (cases x) auto
  from Cons.prems obtain t1 where t1: "register (PathNode ''/'' l ch) path m r = Inr t1"
    and rest: "register_all t1 rs = Inr t"
    by (auto simp: x sum_bind_Inr_conv)
  show ?case
  proof (cases "registrable path")
    case False
    with t1 have "t1 = PathNode ''/'' l ch" by (simp add: register_not_registrable)
    note IH = Cons.IH [OF rest [unfolded this]]
    have in_rest: "(path', m', r') \<in> set (x # rs) \<and> registrable path' \<longleftrightarrow>
        (path', m', r') \<in> set rs \<and> registrable path'" for path' m' r'
      using False by (auto simp: x)
    have in_rest': "(path', m', r') \<in> set (x # rs) \<and> registrable path' \<and> Q \<longleftrightarrow>
        (path', m', r') \<in> set rs \<and> registrable path' \<and> Q" for path' m' r' Q
      using in_rest by metis
    show ?thesis unfolding in_rest in_rest' by (rule IH)
  next
    case True
    from register_registrable [OF True t1] obtain l1 ch1 pat where t1': "t1 = PathNode ''/'' l1 ch1"
      and pe: "pat_equiv pat (splitPath path)"
      and ms: "mset (routes t1) = add_mset (pat, m, r) (mset (routes (PathNode ''/'' l ch)))"
      by blast
    have st: "set (routes t1) = insert (pat, m, r) (set (routes (PathNode ''/'' l ch)))"
      using arg_cong [OF ms, of set_mset] by simp
    note IH = Cons.IH [OF rest [unfolded t1'], folded t1']
    have sub: "set (routes t1) \<subseteq> set (routes t)" using IH by (elim conjE)
    have member: "(pat, m, r) \<in> set (routes t)" using sub st by blast
    show ?thesis
    proof (intro conjI allI impI)
      show "\<exists>l' ch'. t = PathNode ''/'' l' ch'" using IH by (elim conjE)
      show "set (routes (PathNode ''/'' l ch)) \<subseteq> set (routes t)"
        using sub st by blast
    next
      fix pat' m' r'
      assume "(pat', m', r') \<in> set (routes t)"
      with IH have "(pat', m', r') \<in> set (routes t1) \<or>
          (\<exists>path. (path, m', r') \<in> set rs \<and> registrable path \<and> pat_equiv pat' (splitPath path))"
        by meson
      with True pe show "(pat', m', r') \<in> set (routes (PathNode ''/'' l ch)) \<or>
          (\<exists>path. (path, m', r') \<in> set (x # rs) \<and> registrable path \<and> pat_equiv pat' (splitPath path))"
        unfolding st x by auto
    next
      fix path' m' r'
      assume a: "(path', m', r') \<in> set (x # rs) \<and> registrable path'"
      show "\<exists>pat. pat_equiv pat (splitPath path') \<and> (pat, m', r') \<in> set (routes t)"
      proof (cases "(path', m', r') \<in> set rs")
        case True
        with a IH show ?thesis by meson
      next
        case False
        with a have "path' = path" "m' = m" "r' = r" by (auto simp: x)
        with pe member show ?thesis by blast
      qed
    qed
  qed
qed

lemma routes_root [simp]: "routes root_node = []"
  by (simp add: root_node_def routes.simps)

lemma register_all_wf: "register_all t rs = Inr t' \<Longrightarrow> wf_node t \<Longrightarrow> wf_node t'"
  by (induction t rs rule: register_all.induct)
     (auto simp: sum_bind_Inr_conv register_def dest: add_node_wf)

lemma wf_root [simp]: "wf_node root_node"
  by (simp add: root_node_def)

section \<open>Properties of routing\<close>

text \<open>
  Claim C1. After any list of successful registrations from the empty tree, what \<open>find\<close> answers to
  a request path and method is a route that was registered for that method under a pattern that
  matches the path (a parameter matches any segment, a catch-all any segment and, when last, any
  remainder); it answers nothing only where no registered route has that method and such a
  pattern. Paths that do not start with a slash, and the path made only of a slash, register
  nothing.
\<close>

theorem find_iff_registered:
  assumes "register_all root_node rs = Inr t"
  shows "case find_node [] t (splitPath url) m of
      Some f \<Rightarrow> fd_method f = m \<and> (\<exists>path. (path, m, fd_route f) \<in> set rs \<and> registrable path \<and>
        pat_match False (splitPath path) (splitPath url))
    | None \<Rightarrow> \<not> (\<exists>path r. (path, m, r) \<in> set rs \<and> registrable path \<and>
        pat_match False (splitPath path) (splitPath url))"
proof -
  note R = register_all_routes [OF assms [unfolded root_node_def]]
  have top: "\<not> parent_is_catch_all []" by (simp add: parent_is_catch_all_def)
  show ?thesis
  proof (cases "find_node [] t (splitPath url) m")
    case (Some f)
    from find_node_sound [OF Some] top obtain pat where fm: "fd_method f = m"
      and pat: "(pat, m, fd_route f) \<in> set (routes t)" "pat_match False pat (splitPath url)" by auto
    have "(pat, m, fd_route f) \<notin> set (routes (PathNode ''/'' None []))" by simp
    with R pat(1) obtain path where "(path, m, fd_route f) \<in> set rs" "registrable path"
      "pat_equiv pat (splitPath path)" by meson
    with pat(2) fm Some show ?thesis using pat_equiv_match by auto
  next
    case None
    have "find_node [] t (splitPath url) m \<noteq> None"
      if "(path, m, r) \<in> set rs" "registrable path" "pat_match False (splitPath path) (splitPath url)" for path r
    proof -
      from R that(1,2) obtain pat where "pat_equiv pat (splitPath path)" and rt: "(pat, m, r) \<in> set (routes t)"
        by meson
      with that(3) have "pat_match (parent_is_catch_all []) pat (splitPath url)"
        using top pat_equiv_match by simp
      from find_node_complete [OF rt this] show ?thesis .
    qed
    with None show ?thesis by auto
  qed
qed

theorem find_iff_registered_witness:
  "\<exists>t f. register_all root_node [(''/api/:id'', ''GET'', 1 :: nat), (''/api'', ''GET'', 2)] = Inr t \<and>
    find_node [] t (splitPath ''/api/7'') ''GET'' = Some f \<and> fd_route f = 1 \<and>
    find_node [] t (splitPath ''/api/7/x'') ''GET'' = None"
proof -
  obtain t where t: "register_all root_node [(''/api/:id'', ''GET'', 1 :: nat), (''/api'', ''GET'', 2)] = Inr t"
    by (simp add: register_def splitPath_def root_node_def path_matches_def isPathACatchAll_def
        isPathARouteParameter_def starts_with_def ends_with_def)
  have r: "registrable ''/api/:id''" by (simp add: registrable_def splitPath_def)
  have "pat_match False (splitPath ''/api/:id'') (splitPath ''/api/7'')"
    and "\<not> pat_match False (splitPath ''/api'') (splitPath ''/api/7'')"
    and "\<not> pat_match False (splitPath ''/api/:id'') (splitPath ''/api/7/x'')"
    and "\<not> pat_match False (splitPath ''/api'') (splitPath ''/api/7/x'')"
    by (simp_all add: splitPath_def path_matches_def isPathACatchAll_def
        isPathARouteParameter_def starts_with_def ends_with_def)
  with r t find_iff_registered [OF t, where url = "''/api/7''" and m = "''GET''"]
    find_iff_registered [OF t, where url = "''/api/7/x''" and m = "''GET''"]
  show ?thesis by (auto split: option.splits)
qed

text \<open>
  A request for a path registered segment by segment with no parameter and no
  catch-all is never answered by a parametrised route or by a route ending in a catch-all:
  \<open>find\<close> returns a leaf with no route parameter in its whole path whose parent is not a
  catch-all.
\<close>

theorem static_route_priority:
  assumes "register_all root_node rs = Inr t"
    and "(path, m, r) \<in> set rs" and "registrable path"
    and "list_all static_segment (splitPath path)"
  shows "\<exists>f. find_node [] t (splitPath path) m = Some f \<and> \<not> contains_route_parameter f \<and>
    \<not> parent_is_catch_all (fd_ancestors f)"
proof -
  note R = register_all_routes [OF assms(1) [unfolded root_node_def]]
  with assms(2,3) obtain pat where pe: "pat_equiv pat (splitPath path)"
    and rt: "(pat, m, r) \<in> set (routes t)" by meson
  have "pat = splitPath path"
  proof -
    have "pat_equiv xs ys \<Longrightarrow> list_all static_segment ys \<Longrightarrow> xs = ys" for xs ys
      unfolding pat_equiv_def
      by (induction xs ys rule: list_all2_induct) (auto simp: seg_equiv_def static_segment_def)
    with pe assms(4) show ?thesis by blast
  qed
  with rt have "(splitPath path, m, r) \<in> set (routes t)" by simp
  from find_node_static [OF this assms(4), of "[]"] assms(3) show ?thesis
    by (auto simp: parent_is_catch_all_def registrable_def clean_leaf_def)
qed

theorem static_route_priority_witness:
  "\<exists>t f. register_all root_node [(''/api/:id'', ''GET'', 1 :: nat), (''/api/me'', ''GET'', 2)] = Inr t \<and>
    find_node [] t (splitPath ''/api/me'') ''GET'' = Some f \<and> \<not> contains_route_parameter f"
proof -
  obtain t where t: "register_all root_node [(''/api/:id'', ''GET'', 1 :: nat), (''/api/me'', ''GET'', 2)] = Inr t"
    by (simp add: register_def splitPath_def root_node_def path_matches_def isPathACatchAll_def
        isPathARouteParameter_def starts_with_def ends_with_def)
  have "registrable ''/api/me''" by (simp add: registrable_def splitPath_def)
  moreover have "list_all static_segment (splitPath ''/api/me'')"
    by (simp add: splitPath_def static_segment_def isPathACatchAll_def isPathARouteParameter_def
        starts_with_def ends_with_def)
  ultimately show ?thesis using t static_route_priority [OF t, of "''/api/me''" "''GET''" 2] by auto
qed

text \<open>
  Claim C2. For a request answered by a route whose pattern has no catch-all, the parameters
  read by climbing from the leaf with the reversed request path are exactly the pattern's
  parameters bound to the request's segments, the one nearest the root winning when a name
  occurs twice; reading them never fails.
\<close>

theorem found_route_parameters:
  assumes "find_node [] t sp m = Some f" and "t = PathNode p l ch"
    and "list_all (\<lambda>q. \<not> isPathACatchAll q) (fd_ancestors f)"
  shows "\<exists>ob. getRouteParameters (fd_ancestors f) (rev sp) = Inr ob \<and>
    map_of ob = map_of (pattern_params (rev (fd_ancestors f)) sp)"
proof -
  from find_node_sound [OF assms(1)] obtain pat where rt: "(pat, m, fd_route f) \<in> set (routes t)"
    and anc: "fd_ancestors f = rev pat" and pm: "pat_match False pat sp"
    by (auto simp: parent_is_catch_all_def)
  have "list_all2 path_matches pat sp"
    using pat_match_lengths [OF pm] assms(3) by (simp add: anc list_all_rev)
  then have "list_all2 path_matches (rev pat) (rev sp)" by (simp add: list_all2_rev)
  moreover have "rev pat \<noteq> []" using rt assms(2) by auto
  ultimately show ?thesis using getRouteParameters_upwards [of "rev pat" "rev sp"]
    by (auto simp: anc)
qed

theorem found_route_parameters_witness:
  "\<exists>t f. register_all root_node [(''/u/:id/{id}'', ''GET'', 1 :: nat)] = Inr t \<and>
     find_node [] t (splitPath ''/u/7/8'') ''GET'' = Some f \<and>
     (\<exists>ob. getRouteParameters (fd_ancestors f) (rev (splitPath ''/u/7/8'')) = Inr ob \<and>
       map_of ob ''id'' = Some ''7'')"
proof -
  let ?t = "PathNode ''/'' (Some 0) [PathNode ''/u'' (Some 1) [PathNode ''/:id'' (Some 2)
      [PathNode ''/{id}'' (Some 3) [MethodNode ''GET'' (1 :: nat) 4]]]]"
  let ?f = "\<lparr>fd_method = ''GET'', fd_route = 1 :: nat, fd_level = 4,
      fd_ancestors = [''/{id}'', ''/:id'', ''/u'', ''/'']\<rparr>"
  have t: "register_all root_node [(''/u/:id/{id}'', ''GET'', 1 :: nat)] = Inr ?t"
    by (simp add: register_def splitPath_def root_node_def path_matches_def isPathACatchAll_def
        isPathARouteParameter_def starts_with_def ends_with_def)
  have f: "find_node [] ?t (splitPath ''/u/7/8'') ''GET'' = Some ?f"
    by (simp add: splitPath_def path_matches_def isPathACatchAll_def isPathARouteParameter_def
        starts_with_def ends_with_def List.map_filter_def select_found_def parent_is_catch_all_def)
  have "list_all (\<lambda>q. \<not> isPathACatchAll q) (fd_ancestors ?f)"
    by (simp add: isPathACatchAll_def starts_with_def)
  from found_route_parameters [OF f refl this] t f show ?thesis
    by (auto simp: pattern_params_def splitPath_def List.map_filter_def param_name_def
        isPathARouteParameter_def starts_with_def ends_with_def)
qed

text \<open>
  Behind a catch-all the climb loses its alignment: on the route \<open>/api/:id/*\<close>, a
  request whose remainder has two segments binds \<open>id\<close> to the first segment of the remainder,
  not to the segment in the place of \<open>:id\<close>.
\<close>

theorem catch_all_shifts_parameters:
  shows "\<exists>t f ob. register_all root_node [(''/api/:id/*'', ''GET'', r)] = Inr t \<and>
    find_node [] t [''/'', ''/api'', v, x, y] ''GET'' = Some f \<and>
    getRouteParameters (fd_ancestors f) (rev [''/'', ''/api'', v, x, y]) = Inr ob \<and>
    map_of ob ''id'' = Some (drop 1 x)"
proof -
  let ?t = "PathNode ''/'' (Some 0) [PathNode ''/api'' (Some 1) [PathNode ''/:id'' (Some 2)
      [PathNode ''/*'' (Some 3) [MethodNode ''GET'' r 4]]]]"
  let ?f = "\<lparr>fd_method = ''GET'', fd_route = r, fd_level = 4,
      fd_ancestors = [''/*'', ''/:id'', ''/api'', ''/'']\<rparr>"
  have "register_all root_node [(''/api/:id/*'', ''GET'', r)] = Inr ?t"
    by (simp add: register_def splitPath_def root_node_def path_matches_def isPathACatchAll_def
        isPathARouteParameter_def starts_with_def ends_with_def)
  moreover have "find_node [] ?t [''/'', ''/api'', v, x, y] ''GET'' = Some ?f"
    by (simp add: path_matches_def isPathACatchAll_def isPathARouteParameter_def
        starts_with_def ends_with_def List.map_filter_def select_found_def parent_is_catch_all_def
        sort_desc_def)
  moreover have "\<exists>ob. getRouteParameters (fd_ancestors ?f) (rev [''/'', ''/api'', v, x, y]) = Inr ob \<and>
      map_of ob ''id'' = Some (drop 1 x)"
    by (simp add: own_parameter_def path_matches_def isPathACatchAll_def isPathARouteParameter_def
        starts_with_def ends_with_def obj_merge_def) auto
  ultimately show ?thesis by blast
qed

text \<open>
  In a tree built by registrations, registering a further path that starts with a
  slash and has a segment after it fails exactly when a route with the same method and an equivalent pattern (equal segments,
  any two catch-alls counting as equal) is already there, and then with the adding error;
  otherwise exactly that route is added and every other route kept.
\<close>

theorem register_duplicate_iff:
  assumes "register_all root_node rs = Inr t" and "registrable path"
  shows "(register t path m r = Inl PathRouterAddingError \<and>
      (\<exists>pat r'. pat_equiv pat (splitPath path) \<and> (pat, m, r') \<in> set (routes t))) \<or>
    (\<exists>t' pat. register t path m r = Inr t' \<and> pat_equiv pat (splitPath path) \<and>
      mset (routes t') = add_mset (pat, m, r) (mset (routes t)) \<and>
      \<not> (\<exists>pat r'. pat_equiv pat (splitPath path) \<and> (pat, m, r') \<in> set (routes t)))"
proof -
  obtain rest where sp: "splitPath path = ''/'' # rest"
    using assms(2) by (cases "splitPath path") (auto simp: registrable_def)
  have slashes: "list_all (\<lambda>q. starts_with q ''/'') rest"
    using splitPath_slashes [of path] by (simp add: sp)
  have "\<exists>l ch. t = PathNode ''/'' l ch"
    using register_all_routes [OF assms(1) [unfolded root_node_def]] by (elim conjE)
  then obtain l ch where t: "t = PathNode ''/'' l ch" by blast
  have wf: "wf_node (PathNode ''/'' l ch)"
    using register_all_wf [OF assms(1)] by (simp add: t)
  show ?thesis
  proof (cases "register t path m r")
    case (Inl e)
    then have "add_node (PathNode ''/'' l ch) (''/'' # rest) m r 0 = Inl e"
      by (simp add: register_def t sp)
    from add_node_refused(1) [OF wf _ slashes this] obtain pat r' where e: "e = PathRouterAddingError"
      and pat: "pat_equiv pat rest" "(''/'' # pat, m, r') \<in> set (routes t)"
      unfolding t by auto
    from pat(1) have "pat_equiv (''/'' # pat) (splitPath path)" by (simp add: sp seg_equiv_def)
    with pat(2) e Inl show ?thesis by blast
  next
    case (Inr t')
    from register_registrable [OF assms(2) Inr [unfolded t]] obtain pat where
      pat: "pat_equiv pat (splitPath path)" "mset (routes t') = add_mset (pat, m, r) (mset (routes t))"
      unfolding t by blast
    have "False" if eq: "pat_equiv pat (splitPath path)" and rt: "(pat, m, r') \<in> set (routes t)" for pat r'
    proof -
      from rt obtain pat' where p: "pat = ''/'' # pat'" by (auto simp: t)
      with eq have "pat_equiv pat' rest" by (simp add: sp)
      from add_node_refused(2) [OF wf _ slashes this, of "''/''" m r' r 0] rt Inr
      show False by (simp add: p t register_def sp del: routes_nonempty_path)
    qed
    with pat Inr show ?thesis by blast
  qed
qed

theorem register_duplicate_iff_witness:
  "\<exists>t. register_all root_node [(''/a/*x'', ''GET'', 1 :: nat)] = Inr t \<and>
     register t ''/a/*y'' ''GET'' 2 = Inl PathRouterAddingError"
proof -
  let ?t = "PathNode ''/'' (Some 0) [PathNode ''/a'' (Some 1) [PathNode ''/*x'' (Some 2)
      [MethodNode ''GET'' (1 :: nat) 3]]]"
  have t: "register_all root_node [(''/a/*x'', ''GET'', 1 :: nat)] = Inr ?t"
    by (simp add: register_def splitPath_def root_node_def path_matches_def isPathACatchAll_def
        isPathARouteParameter_def starts_with_def ends_with_def)
  have "registrable ''/a/*y''" by (simp add: registrable_def splitPath_def)
  note D = register_duplicate_iff [OF t this, of "''GET''" 2]
  have "pat_equiv [''/'', ''/a'', ''/*x''] (splitPath ''/a/*y'')"
    by (simp add: splitPath_def pat_equiv_def seg_equiv_def isPathACatchAll_def starts_with_def)
  moreover have "([''/'', ''/a'', ''/*x''], ''GET'', 1) \<in> set (routes ?t)" by simp
  ultimately show ?thesis using D t by blast
qed

lemma splitPath_join:
  assumes "segs \<noteq> []" and "list_all (\<lambda>u. u \<noteq> [] \<and> CHR ''/'' \<notin> set u) segs"
  shows "splitPath (''/'' @ join ''/'' segs) = ''/'' # map (\<lambda>u. ''/'' @ u) segs"
proof -
  have "split_loop (''/'' @ join ''/'' segs) [] [] =
      (last segs, ''/'' # map (\<lambda>u. ''/'' @ u) (butlast segs))"
    using split_loop_join [of segs "[''/'']"] assms by (simp add: list_all_iff)
  moreover have "last segs \<noteq> []" using assms by (simp add: list_all_iff)
  moreover have "map (\<lambda>u. ''/'' @ u) segs =
      map (\<lambda>u. ''/'' @ u) (butlast segs) @ [''/'' @ last segs]"
    using assms(1) by (metis append_butlast_last_id list.simps(8,9) map_append)
  ultimately show ?thesis by (simp add: splitPath_def)
qed

text \<open>
  The path made of one slash has no segments at all: registering it changes nothing
  whatever the tree, and a request for it never finds a route.
\<close>

theorem root_path_is_lost:
  "register (PathNode ''/'' l ch) ''/'' m r = Inr (PathNode ''/'' l ch) \<and>
   find_node [] (PathNode ''/'' l ch) (splitPath ''/'') m = None"
  by (simp add: register_def splitPath_def)

end
