(* ===== verification/Pristine_Errors.thy ===== *)
theory Pristine_Errors
  imports Pristine_Prelude
begin

text \<open>
  Thrown values and their rendering: \<open>PristineError\<close> of the common package
  (\<open>errors/pristine.error.ts\<close> and the named subclasses), the environment manager of the core
  package, and \<open>HttpErrorResponder\<close> of the networking package. The stack text, which the engine
  makes, is an argument wherever the code builds an error. Error objects whose \<open>message\<close>
  accessor itself throws are outside the model.
\<close>

section \<open>Thrown values\<close>

datatype error_kind = UserError | SystemError

text \<open>
  \<open>details\<close> is an opaque value: only its presence matters here. \<open>NativeErr\<close> is an \<open>Error\<close> that
  is no \<open>PristineError\<close>; \<open>NullishErr\<close> is a thrown \<open>undefined\<close> or \<open>null\<close>, whose properties cannot be
  read; \<open>ValueErr\<close> is any other thrown value. The text of the last two is their \<open>String(...)\<close> form.
\<close>

datatype thrown =
    PristineErr (pe_name: string) (pe_message: string) (pe_kind: error_kind)
      (pe_code: "string option") (pe_status: "nat option") (pe_details: "string option")
      (pe_stack: "string option") (pe_cause: "thrown option")
  | NativeErr string string "string option" "thrown option"
  | ValueErr string
  | NullishErr string

definition is_pristine :: "thrown \<Rightarrow> bool" where
  "is_pristine e = (case e of PristineErr _ _ _ _ _ _ _ _ \<Rightarrow> True | _ \<Rightarrow> False)"

definition http_status :: "thrown \<Rightarrow> nat option" where
  "http_status e = (case e of PristineErr _ _ _ _ st _ _ _ \<Rightarrow> st | _ \<Rightarrow> None)"

text \<open>\<open>error?.message ?? fallback\<close>.\<close>

definition message_or :: "string \<Rightarrow> thrown \<Rightarrow> string" where
  "message_or fallback e = (case e of PristineErr _ m _ _ _ _ _ _ \<Rightarrow> m | NativeErr _ m _ _ \<Rightarrow> m
     | ValueErr _ \<Rightarrow> fallback | NullishErr _ \<Rightarrow> fallback)"

definition name_or :: "string \<Rightarrow> thrown \<Rightarrow> string" where
  "name_or fallback e = (case e of PristineErr n _ _ _ _ _ _ _ \<Rightarrow> n | NativeErr n _ _ _ \<Rightarrow> n
     | ValueErr _ \<Rightarrow> fallback | NullishErr _ \<Rightarrow> fallback)"

text \<open>What a plain \<open>error.message\<close> in a catch block throws, where it throws.\<close>

definition unreadable :: "thrown \<Rightarrow> string option" where
  "unreadable e = (case e of
     NullishErr s \<Rightarrow> Some (''Cannot read properties of '' @ s @ '' (reading '' @ [CHR 0x27] @ ''message'' @ [CHR 0x27] @ '')'')
   | _ \<Rightarrow> None)"

text \<open>The constructor: the kind defaults to a user error.\<close>

definition new_PristineError ::
  "string \<Rightarrow> string \<Rightarrow> error_kind option \<Rightarrow> string option \<Rightarrow> nat option \<Rightarrow> string option \<Rightarrow>
   string option \<Rightarrow> thrown option \<Rightarrow> thrown" where
  "new_PristineError name message kind code status details stk cause =
     PristineErr name message (case kind of None \<Rightarrow> UserError | Some k \<Rightarrow> k) code status details stk cause"

definition PristineError_from :: "string option \<Rightarrow> thrown \<Rightarrow> thrown" where
  "PristineError_from stk error =
     (case error of
        PristineErr _ _ _ _ _ _ _ _ \<Rightarrow> error
      | NativeErr n m _ _ \<Rightarrow>
          new_PristineError ''PristineError'' m (Some SystemError) None None None stk (Some error)
      | ValueErr s \<Rightarrow>
          new_PristineError ''PristineError'' s (Some SystemError) None None None stk None
      | NullishErr s \<Rightarrow>
          new_PristineError ''PristineError'' s (Some SystemError) None None None stk None)"

definition UnauthorizedError :: "string \<Rightarrow> string option \<Rightarrow> thrown option \<Rightarrow> thrown" where
  "UnauthorizedError message stk cause =
     new_PristineError ''UnauthorizedError'' message (Some UserError) (Some ''UNAUTHORIZED'') (Some 401) None stk cause"

definition ForbiddenError :: "string \<Rightarrow> string option \<Rightarrow> thrown" where
  "ForbiddenError message stk =
     new_PristineError ''ForbiddenError'' message (Some UserError) (Some ''FORBIDDEN'') (Some 403) None stk None"

definition NotFoundError :: "string \<Rightarrow> string option \<Rightarrow> thrown" where
  "NotFoundError message stk =
     new_PristineError ''NotFoundError'' message (Some UserError) (Some ''NOT_FOUND'') (Some 404) None stk None"

section \<open>The runtime environment\<close>

definition getEnvironment :: "string option \<Rightarrow> string" where
  "getEnvironment raw = to_lower (case raw of None \<Rightarrow> ''prod'' | Some r \<Rightarrow> r)"

section \<open>From a thrown value to a response\<close>

record cause_entry =
  ce_name :: string
  ce_message :: string
  ce_stack :: "string option"

record error_body =
  eb_code :: string
  eb_message :: string
  eb_details :: "string option"
  eb_debugMessage :: "string option"
  eb_stack :: "string option"
  eb_cause :: "cause_entry list option"

fun collectCauseChain :: "nat \<Rightarrow> thrown option \<Rightarrow> cause_entry list" where
  "collectCauseChain depth (Some (PristineErr n m k c st d stk cause)) =
     (if depth < 10 then \<lparr>ce_name = n, ce_message = m, ce_stack = stk\<rparr> # collectCauseChain (Suc depth) cause
      else [])"
| "collectCauseChain depth (Some (NativeErr n m stk cause)) =
     (if depth < 10 then \<lparr>ce_name = n, ce_message = m, ce_stack = stk\<rparr> # collectCauseChain (Suc depth) cause
      else [])"
| "collectCauseChain depth (Some (ValueErr s)) = []"
| "collectCauseChain depth (Some (NullishErr s)) = []"
| "collectCauseChain depth None = []"

definition error_cause :: "thrown \<Rightarrow> thrown option" where
  "error_cause e = (case e of PristineErr _ _ _ _ _ _ _ c \<Rightarrow> c | NativeErr _ _ _ c \<Rightarrow> c | _ \<Rightarrow> None)"

definition respond :: "string option \<Rightarrow> string option \<Rightarrow> thrown \<Rightarrow> nat \<times> error_body" where
  "respond raw stk error =
     (let e = PristineError_from stk error;
          isDev = (getEnvironment raw = ''dev'');
          isUserError = (pe_kind e \<noteq> SystemError);
          status = (case pe_status e of Some s \<Rightarrow> s | None \<Rightarrow> 500);
          code = (case pe_code e of Some c \<Rightarrow> c | None \<Rightarrow> ''INTERNAL_ERROR'');
          messageForUser =
            (if isUserError then pe_message e
             else if isDev then pe_message e
             else if status = 500 then ''Internal Server Error'' else ''Error'');
          chain = collectCauseChain 0 (pe_cause e)
      in (status,
          \<lparr>eb_code = code, eb_message = messageForUser,
           eb_details = (if isUserError \<or> isDev then pe_details e else None),
           eb_debugMessage = (if isDev then Some (pe_message e) else None),
           eb_stack = (if isDev \<and> pe_stack e \<noteq> Some [] then pe_stack e else None),
           eb_cause = (if isDev \<and> chain \<noteq> [] then Some chain else None)\<rparr>))"

section \<open>Lemmas\<close>

lemma from_pristine [simp]: "is_pristine e \<Longrightarrow> PristineError_from stk e = e"
  by (cases e) (auto simp: is_pristine_def PristineError_from_def)

lemma is_pristine_from [simp]: "is_pristine (PristineError_from stk e)"
  by (cases e) (auto simp: is_pristine_def PristineError_from_def new_PristineError_def)

lemma from_other_system: "\<not> is_pristine e \<Longrightarrow> pe_kind (PristineError_from stk e) = SystemError \<and>
    pe_status (PristineError_from stk e) = None \<and> pe_code (PristineError_from stk e) = None"
  by (cases e) (auto simp: is_pristine_def PristineError_from_def new_PristineError_def)

lemma unreadable_iff: "(\<exists>t. unreadable e = Some t) \<longleftrightarrow> (\<exists>s. e = NullishErr s)" "unreadable e = None \<longleftrightarrow> (\<forall>s. e \<noteq> NullishErr s)"
  by (cases e; simp add: unreadable_def)+

lemma collectCauseChain_length: "length (collectCauseChain depth c) \<le> 10 - depth"
  by (induction depth c rule: collectCauseChain.induct) auto

section \<open>Properties of the error responder\<close>

text \<open>
  Claim C5. Outside the development environment the response to a system error depends only on
  the error's HTTP status and code: two system errors that agree on those produce the same
  response whatever their messages, details, stacks and causes, and that response carries no
  details, debug message, stack or cause.
\<close>

theorem production_hides_system_errors:
  assumes "getEnvironment raw \<noteq> ''dev''"
    and "pe_kind (PristineError_from stk1 e1) = SystemError"
    and "pe_kind (PristineError_from stk2 e2) = SystemError"
    and "pe_status (PristineError_from stk1 e1) = pe_status (PristineError_from stk2 e2)"
    and "pe_code (PristineError_from stk1 e1) = pe_code (PristineError_from stk2 e2)"
  shows "respond raw stk1 e1 = respond raw stk2 e2 \<and>
    eb_details (snd (respond raw stk1 e1)) = None \<and> eb_debugMessage (snd (respond raw stk1 e1)) = None \<and>
    eb_stack (snd (respond raw stk1 e1)) = None \<and> eb_cause (snd (respond raw stk1 e1)) = None"
  using assms by (simp add: respond_def Let_def)

theorem production_hides_system_errors_witness:
  "respond None (Some ''s1'') (NativeErr ''TypeError'' ''password is hunter2'' None None) =
   respond None (Some ''s2'') (ValueErr ''x'')"
proof -
  have "getEnvironment None \<noteq> ''dev''" by (simp add: getEnvironment_def to_lower_def lower_char_def Let_def)
  then show ?thesis
    using production_hides_system_errors [of None "Some ''s1''"
        "NativeErr ''TypeError'' ''password is hunter2'' None None" "Some ''s2''" "ValueErr ''x''"]
    by (simp add: PristineError_from_def new_PristineError_def)
qed

text \<open>
  Any thrown value that is not a framework error is answered with status 500 and the
  code INTERNAL_ERROR; normalising twice changes nothing; and in development the reported cause
  chain never has more than ten entries, and starts with the original error when that was an
  \<open>Error\<close>.
\<close>

theorem foreign_errors_are_internal:
  "(\<not> is_pristine e \<longrightarrow> fst (respond raw stk e) = 500 \<and> eb_code (snd (respond raw stk e)) = ''INTERNAL_ERROR'') \<and>
   PristineError_from stk' (PristineError_from stk e) = PristineError_from stk e \<and>
   (case eb_cause (snd (respond raw stk e)) of None \<Rightarrow> True | Some chain \<Rightarrow> chain \<noteq> [] \<and> length chain \<le> 10) \<and>
   (case e of NativeErr n m s c \<Rightarrow> getEnvironment raw = ''dev'' \<longrightarrow>
      (\<exists>chain. eb_cause (snd (respond raw stk e)) = Some (\<lparr>ce_name = n, ce_message = m, ce_stack = s\<rparr> # chain))
    | _ \<Rightarrow> True)"
proof -
  have "length (collectCauseChain 0 c) \<le> 10" "length (collectCauseChain (Suc 0) c) \<le> 9" for c
    using collectCauseChain_length [of 0 c] collectCauseChain_length [of 1 c] by simp_all
  then show ?thesis
    by (cases e) (auto simp: respond_def Let_def is_pristine_def PristineError_from_def new_PristineError_def)
qed

theorem foreign_errors_are_internal_witness:
  "fst (respond (Some ''DEV'') None (ValueErr ''x'')) = 500"
  using foreign_errors_are_internal [of "ValueErr ''x''" "Some ''DEV''" None None]
  by (simp add: is_pristine_def)

end
