(* ===== verification/Security.thy ===== *)
theory Security
  imports Pristine_Errors
begin

text \<open>
  The security package: the guard and authenticator factories, \<open>AuthorizerManager\<close>,
  \<open>AuthenticationManager\<close>, \<open>PermissionManager\<close> and \<open>RoleGuard\<close>. Guards, authenticators, identity
  providers and voters are the application's; a record gives what each call on them answers for
  the request at hand, a thrown value included. The container's \<open>resolve\<close> is an argument.
  Every manager returns the log entries, markers and spans it produced, in order, with its result.
\<close>

section \<open>Identities\<close>

datatype claim = ClaimList "string list" | ClaimOther

record identity =
  id_id :: "string option"
  id_claims :: "claim obj option"

section \<open>Guards and the guard factory\<close>

record guard_inst =
  gi_name :: string
  gi_isAuthorized :: "(thrown + bool) option"
  gi_setContext :: "(thrown + unit) option"

datatype 'tok guard_ref = GuardClass 'tok | GuardObject guard_inst

definition GuardInstantiationError :: "string \<Rightarrow> thrown" where
  "GuardInstantiationError message =
     new_PristineError ''GuardInstantiationError'' message None None None (Some ''guard'') None None"

definition guard_fromContext ::
  "('tok \<Rightarrow> thrown + guard_inst) \<Rightarrow> 'tok guard_ref \<Rightarrow> thrown + guard_inst" where
  "guard_fromContext resolve ref =
     sum_bind (case ref of GuardClass tok \<Rightarrow> resolve tok | GuardObject g \<Rightarrow> Inr g) (\<lambda>g.
       if gi_isAuthorized g = None then
         Inl (GuardInstantiationError ''The guard doesn't implement the isAuthorized() method.'')
       else if gi_setContext g = None then
         Inl (GuardInstantiationError ''The guard doesn't implement the setContext() method.'')
       else Inr g)"

section \<open>The authorizer manager\<close>

text \<open>
  What one guard of the route answers: the name the marker carries (the placeholder until the
  factory returned) with the decision or the thrown value.
\<close>

definition guard_outcome ::
  "('tok \<Rightarrow> thrown + guard_inst) \<Rightarrow> 'tok guard_ref \<Rightarrow> string \<times> (thrown + bool)" where
  "guard_outcome resolve ref =
     (case guard_fromContext resolve ref of
        Inl e \<Rightarrow> (''(unknown guard)'', Inl e)
      | Inr g \<Rightarrow>
          (gi_name g,
           sum_bind (the (gi_setContext g)) (\<lambda>_. the (gi_isAuthorized g))))"

definition typed_auth_error :: "thrown \<Rightarrow> bool" where
  "typed_auth_error e \<longleftrightarrow> is_pristine e \<and> (http_status e = Some 401 \<or> http_status e = Some 403)"

fun guard_loop ::
  "('tok \<Rightarrow> thrown + guard_inst) \<Rightarrow> 'tok guard_ref list \<Rightarrow> bool \<Rightarrow> effect list \<times> (thrown + bool)" where
  "guard_loop resolve [] authorized = ([], Inr authorized)"
| "guard_loop resolve (ref # refs) authorized =
     (case guard_outcome resolve ref of
        (name, Inr did) \<Rightarrow>
          (let (effs, res) = guard_loop resolve refs (authorized \<and> did) in
           (Marker ''authz.guard-decision''
              [(''guard'', name), (''decision'', if did then ''allow'' else ''deny'')] # effs, res))
      | (name, Inl e) \<Rightarrow>
          (let effs0 =
             [Marker ''authz.guard-decision''
                [(''guard'', name), (''decision'', ''error''),
                 (''errorMessage'', message_or ''Unknown error'' e)],
              Log Error ''AuthorizerManager: Error while authorizing the request.''] in
           if typed_auth_error e then (effs0, Inl e)
           else (let (effs, res) = guard_loop resolve refs False in (effs0 @ effs, res))))"

text \<open>\<open>None\<close>: no route context, no guards on it, or guards that are not an array.\<close>

definition isAuthorized ::
  "('tok \<Rightarrow> thrown + guard_inst) \<Rightarrow> 'tok guard_ref list option \<Rightarrow> effect list \<times> (thrown + bool)" where
  "isAuthorized resolve guards =
     (case guards of
        None \<Rightarrow> ([Marker ''authz.no-guards'' []], Inr True)
      | Some refs \<Rightarrow>
          (case guard_loop resolve refs True of
             (effs, Inl e) \<Rightarrow> (effs, Inl e)
           | (effs, Inr b) \<Rightarrow> (effs @ [Log Info ''User authorized''], Inr b)))"

section \<open>The role guard\<close>

datatype roles_option = RolesAbsent | RolesNotArray | Roles "string list"

definition TypeError :: "string \<Rightarrow> thrown" where
  "TypeError message = NativeErr ''TypeError'' message None None"

fun roles_loop :: "string list \<Rightarrow> string list \<Rightarrow> bool" where
  "roles_loop claimed [] = True"
| "roles_loop claimed (role # roles) = (if role \<notin> set claimed then False else roles_loop claimed roles)"

text \<open>
  The first argument is the guard context's roles option, \<open>None\<close> when no context was set. An
  identity without \<open>claims\<close> makes the second test of the claim read a property of \<open>undefined\<close>.
\<close>

definition RoleGuard_isAuthorized ::
  "string \<Rightarrow> roles_option option \<Rightarrow> identity option \<Rightarrow> thrown + bool" where
  "RoleGuard_isAuthorized rolesClaimKey context ident =
     (case context of
        None \<Rightarrow> Inr False
      | Some opt \<Rightarrow>
          (let neededRoles = (case opt of Roles rs \<Rightarrow> rs | _ \<Rightarrow> []) in
           if neededRoles = [] then Inr True
           else case ident of
             None \<Rightarrow> Inr False
           | Some i \<Rightarrow>
               (case id_claims i of
                  None \<Rightarrow> Inl (TypeError (''Cannot read properties of undefined (reading '' @ [CHR 0x27] @ rolesClaimKey @ [CHR 0x27] @ '')''))
                | Some claims \<Rightarrow>
                    (case obj_get claims rolesClaimKey of
                       Some (ClaimList claimed) \<Rightarrow> Inr (roles_loop claimed neededRoles)
                     | _ \<Rightarrow> Inr False))))"

section \<open>Authenticators and the authentication manager\<close>

record authenticator_inst =
  ai_name :: string
  ai_authenticate :: "(thrown + identity option) option"
  ai_setContext :: "(thrown + unit) option"

datatype 'tok authenticator_ref = AuthenticatorClass 'tok | AuthenticatorObject authenticator_inst

definition AuthenticatorInstantiationError :: "string \<Rightarrow> thrown" where
  "AuthenticatorInstantiationError message =
     new_PristineError ''AuthenticatorInstantiationError'' message None None None (Some ''authenticator'') None None"

definition authenticator_fromContext ::
  "('tok \<Rightarrow> thrown + authenticator_inst) \<Rightarrow> 'tok authenticator_ref \<Rightarrow> thrown + authenticator_inst" where
  "authenticator_fromContext resolve ref =
     sum_bind (case ref of AuthenticatorClass tok \<Rightarrow> resolve tok | AuthenticatorObject a \<Rightarrow> Inr a) (\<lambda>a.
       if ai_authenticate a = None then
         Inl (AuthenticatorInstantiationError
           ''The authenticator isn't valid. It isn't a function or doesn't implement the 'authenticate' method.'')
       else if ai_setContext a = None then
         Inl (AuthenticatorInstantiationError
           ''The authenticator isn't valid. It isn't a function or doesn't implement the 'setContext' method.'')
       else Inr a)"

record identity_provider =
  ip_name :: string
  ip_provide :: "identity \<Rightarrow> thrown + identity"

fun provider_loop :: "identity_provider list \<Rightarrow> identity \<Rightarrow> effect list \<times> (thrown + identity)" where
  "provider_loop [] i = ([], Inr i)"
| "provider_loop (p # ps) i =
     (let span = ''identity-provider.'' @ ip_name p in
      case ip_provide p i of
        Inl e \<Rightarrow> ([SpanStart span, SpanEnd span], Inl e)
      | Inr i' \<Rightarrow> (let (effs, res) = provider_loop ps i' in (SpanStart span # SpanEnd span # effs, res)))"

definition authentication_failed :: "thrown \<Rightarrow> effect list" where
  "authentication_failed e =
     [Marker ''auth.error'' [(''errorName'', name_or ''Error'' e), (''errorMessage'', message_or ''Unknown error'' e)],
      Log Error ''AuthenticationManager: Error authenticating the request.'']"

definition authenticate ::
  "('tok \<Rightarrow> thrown + authenticator_inst) \<Rightarrow> identity_provider list \<Rightarrow> 'tok authenticator_ref option \<Rightarrow>
   effect list \<times> (thrown + identity option)" where
  "authenticate resolve providers context =
     (case context of
        None \<Rightarrow> ([Marker ''auth.no-authenticator'' []], Inr None)
      | Some ref \<Rightarrow>
          (case authenticator_fromContext resolve ref of
             Inl e \<Rightarrow> (authentication_failed e, Inl e)
           | Inr a \<Rightarrow>
               (case the (ai_setContext a) of
                  Inl e \<Rightarrow> (authentication_failed e, Inl e)
                | Inr _ \<Rightarrow>
                    (let resolved = Marker ''auth.authenticator-resolved'' [(''authenticator'', ai_name a)] in
                     case the (ai_authenticate a) of
                       Inl e \<Rightarrow> (resolved # authentication_failed e, Inl e)
                     | Inr None \<Rightarrow>
                         ([resolved, Marker ''auth.identity-not-found'' [(''authenticator'', ai_name a)]], Inr None)
                     | Inr (Some i) \<Rightarrow>
                         (let found = Marker ''auth.identity-resolved''
                                [(''authenticator'', ai_name a),
                                 (''identityId'', case id_id i of Some x \<Rightarrow> x | None \<Rightarrow> ''(no id)'')];
                              (effs, res) = provider_loop providers i in
                          case res of
                            Inl e \<Rightarrow> (resolved # found # effs @ authentication_failed e, Inl e)
                          | Inr i' \<Rightarrow> (resolved # found # effs @
                              [Log Info ''User successfully authenticated.''], Inr (Some i')))))))"

section \<open>The permission manager\<close>

datatype vote = Grant | Deny | Abstain

datatype voting_strategy = GrantOnUnanimousAbstention | DenyOnUnanimousAbstention

record voter =
  vt_name :: string
  vt_supports :: bool
  vt_vote :: "thrown + vote"

fun vote_text :: "vote \<Rightarrow> string" where
  "vote_text Grant = ''GRANT''"
| "vote_text Deny = ''DENY''"
| "vote_text Abstain = ''ABSTAIN''"

fun vote_loop :: "voter list \<Rightarrow> vote list \<Rightarrow> effect list \<times> (thrown + vote list)" where
  "vote_loop [] votes = ([], Inr votes)"
| "vote_loop (v # vs) votes =
     (if \<not> vt_supports v then
        (let (effs, res) = vote_loop vs votes in
         (Log Debug ''PermissionManager: voter does not support this resource.'' # effs, res))
      else case vt_vote v of
        Inr vote \<Rightarrow>
          (let (effs, res) = vote_loop vs (votes @ [vote]) in
           (Marker ''permission.voter-vote'' [(''voter'', vt_name v), (''vote'', vote_text vote)] #
            Log (if vote = Deny then Info else Debug)
              (''PermissionManager: Voter '' @ vt_name v @ '' voted: '' @ vote_text vote) # effs, res))
      | Inl e \<Rightarrow>
          ([Marker ''permission.voter-vote'' [(''voter'', vt_name v), (''vote'', ''error''),
              (''errorMessage'', message_or ''Unknown error'' e)],
            Log Error ''PermissionManager: Error while voting, please check the logs for more details.''], Inl e))"

definition hasAccessToResource ::
  "voter list \<Rightarrow> string \<Rightarrow> voting_strategy \<Rightarrow> effect list \<times> (thrown + bool)" where
  "hasAccessToResource voters resourceName votingStrategy =
     (let effs0 = (if voters = [] then
          [Marker ''permission.no-voters'' [],
           Log Warning ''PermissionManager: No voters were found, this could lead to unexpected behavior. Make sure that you have registered voters in your application.'']
        else []) in
      case vote_loop voters [] of
        (effs, Inl e) \<Rightarrow> (effs0 @ effs, Inl e)
      | (effs, Inr votes) \<Rightarrow>
          (let shouldGrantAccess = (Deny \<notin> set votes);
               shouldGrantAccess =
                 (if votingStrategy = DenyOnUnanimousAbstention \<and>
                     (votes = [] \<or> list_all (\<lambda>v. v = Abstain) votes)
                  then False else shouldGrantAccess)
           in (effs0 @ effs @ [Log Debug (''PermissionManager: Access to resource '' @ resourceName @ '' was '' @
                 (if shouldGrantAccess then ''GRANTED'' else ''DENIED''))], Inr shouldGrantAccess)))"

section \<open>Lemmas\<close>

definition guard_allows :: "('tok \<Rightarrow> thrown + guard_inst) \<Rightarrow> 'tok guard_ref \<Rightarrow> bool" where
  "guard_allows resolve ref \<longleftrightarrow> (\<exists>g. guard_fromContext resolve ref = Inr g \<and>
     gi_setContext g = Some (Inr ()) \<and> gi_isAuthorized g = Some (Inr True))"

lemma guard_fromContext_total:
  "guard_fromContext resolve ref = Inr g \<Longrightarrow> (\<exists>a. gi_isAuthorized g = Some a) \<and> (\<exists>s. gi_setContext g = Some s)"
  by (auto simp: guard_fromContext_def sum_bind_Inr_conv split: if_splits)

lemma guard_allows_outcome: "guard_allows resolve ref \<longleftrightarrow> snd (guard_outcome resolve ref) = Inr True"
proof (cases "guard_fromContext resolve ref")
  case (Inl e)
  then show ?thesis by (simp add: guard_allows_def guard_outcome_def)
next
  case (Inr g)
  with guard_fromContext_total [OF Inr] show ?thesis
    by (auto simp: guard_allows_def guard_outcome_def sum_bind_Inr_conv)
qed

lemma guard_loop_True:
  "snd (guard_loop resolve refs authorized) = Inr True \<longleftrightarrow>
     authorized \<and> list_all (\<lambda>ref. snd (guard_outcome resolve ref) = Inr True) refs"
proof (induction refs arbitrary: authorized)
  case Nil
  then show ?case by simp
next
  case (Cons ref refs)
  obtain name out where out: "guard_outcome resolve ref = (name, out)" by (cases "guard_outcome resolve ref")
  show ?case
    by (cases out) (auto simp: out Let_def split_beta Cons.IH)
qed

text \<open>Looking for the first element of a list with a property, behind elements without it.\<close>

lemma first_split:
  "(\<exists>xs r ys. x # zs = xs @ r # ys \<and> P r \<and> list_all ok xs) \<longleftrightarrow>
     P x \<or> (ok x \<and> (\<exists>xs r ys. zs = xs @ r # ys \<and> P r \<and> list_all ok xs))"
  (is "?l \<longleftrightarrow> ?r")
proof
  assume ?l
  then obtain xs r ys where "x # zs = xs @ r # ys" "P r" "list_all ok xs" by blast
  then show ?r by (cases xs) auto
next
  assume ?r
  then show ?l
  proof
    assume "P x"
    then show ?l by (intro exI [of _ "[]"]) simp
  next
    assume "ok x \<and> (\<exists>xs r ys. zs = xs @ r # ys \<and> P r \<and> list_all ok xs)"
    then obtain xs r ys where "ok x" "zs = xs @ r # ys" "P r" "list_all ok xs" by blast
    then show ?l by (intro exI [of _ "x # xs"] exI [of _ r] exI [of _ ys]) simp
  qed
qed

lemma guard_loop_error:
  "snd (guard_loop resolve refs authorized) = Inl e \<longleftrightarrow>
     (\<exists>xs ref ys. refs = xs @ ref # ys \<and> snd (guard_outcome resolve ref) = Inl e \<and> typed_auth_error e \<and>
        list_all (\<lambda>r. case snd (guard_outcome resolve r) of Inl e' \<Rightarrow> \<not> typed_auth_error e' | Inr _ \<Rightarrow> True) xs)"
proof (induction refs arbitrary: authorized)
  case Nil
  then show ?case by simp
next
  case (Cons ref refs)
  obtain name out where out: "guard_outcome resolve ref = (name, out)" by (cases "guard_outcome resolve ref")
  define next_auth where "next_auth = (case out of Inr did \<Rightarrow> authorized \<and> did | Inl _ \<Rightarrow> False)"
  let ?P = "\<lambda>r. snd (guard_outcome resolve r) = Inl e \<and> typed_auth_error e"
  let ?ok = "\<lambda>r. case snd (guard_outcome resolve r) of Inl e' \<Rightarrow> \<not> typed_auth_error e' | Inr _ \<Rightarrow> True"
  have "snd (guard_loop resolve (ref # refs) authorized) = Inl e \<longleftrightarrow>
      ?P ref \<or> (?ok ref \<and> snd (guard_loop resolve refs next_auth) = Inl e)"
    by (cases out) (auto simp: out next_auth_def Let_def split_beta)
  also have "\<dots> \<longleftrightarrow> ?P ref \<or> (?ok ref \<and> (\<exists>xs r ys. refs = xs @ r # ys \<and> ?P r \<and> list_all ?ok xs))"
    by (simp only: Cons.IH conj_assoc)
  also have "\<dots> \<longleftrightarrow> (\<exists>xs r ys. ref # refs = xs @ r # ys \<and> ?P r \<and> list_all ?ok xs)"
    by (rule first_split [symmetric])
  finally show ?case by (simp only: conj_assoc)
qed

definition decision_guard :: "effect \<Rightarrow> string option" where
  "decision_guard eff = (case eff of
     Marker name ((k, v) # _) \<Rightarrow> (if name = ''authz.guard-decision'' \<and> k = ''guard'' then Some v else None)
   | _ \<Rightarrow> None)"

lemma decision_guard_simps [simp]:
  "decision_guard (Marker ''authz.guard-decision'' ((''guard'', n) # xs)) = Some n"
  "decision_guard (Log sev m) = None"
  by (simp_all add: decision_guard_def)

lemma guard_loop_decisions:
  "\<exists>k. List.map_filter decision_guard (fst (guard_loop resolve refs authorized)) =
       map (\<lambda>r. fst (guard_outcome resolve r)) (take k refs) \<and>
     (\<forall>b. snd (guard_loop resolve refs authorized) = Inr b \<longrightarrow> k = length refs)"
proof (induction refs arbitrary: authorized)
  case Nil
  then show ?case by (simp add: List.map_filter_simps)
next
  case (Cons ref refs)
  obtain name out where out: "guard_outcome resolve ref = (name, out)" by (cases "guard_outcome resolve ref")
  show ?case
  proof (cases "\<exists>e. out = Inl e \<and> typed_auth_error e")
    case True
    then show ?thesis
      by (intro exI [of _ 1]) (auto simp: out List.map_filter_simps)
  next
    case False
    define next_auth where "next_auth = (case out of Inr did \<Rightarrow> authorized \<and> did | Inl _ \<Rightarrow> False)"
    obtain effs res where rec: "guard_loop resolve refs next_auth = (effs, res)"
      by (cases "guard_loop resolve refs next_auth")
    from Cons.IH [of next_auth] obtain k where
      "List.map_filter decision_guard effs = map (\<lambda>r. fst (guard_outcome resolve r)) (take k refs)"
      "\<forall>b. res = Inr b \<longrightarrow> k = length refs"
      by (auto simp: rec)
    with False rec show ?thesis
      by (intro exI [of _ "Suc k"], cases out)
         (auto simp: out next_auth_def List.map_filter_simps)
  qed
qed

lemma provider_loop_chain: "snd (provider_loop ps i) = run_chain ip_provide ps i"
proof (induction ps arbitrary: i)
  case Nil
  then show ?case by simp
next
  case (Cons p ps)
  show ?case
    by (cases "ip_provide p i") (simp_all add: Let_def split_beta Cons.IH)
qed

lemma roles_loop_iff: "roles_loop claimed roles \<longleftrightarrow> set roles \<subseteq> set claimed"
  by (induction roles) auto

lemma vote_loop_result:
  "snd (vote_loop vs votes) =
     (case find (\<lambda>v. vt_supports v \<and> (\<exists>e. vt_vote v = Inl e)) vs of
        Some v \<Rightarrow> Inl (projl (vt_vote v))
      | None \<Rightarrow> Inr (votes @ map (\<lambda>v. projr (vt_vote v)) (filter vt_supports vs)))"
proof (induction vs arbitrary: votes)
  case Nil
  then show ?case by simp
next
  case (Cons v vs)
  then show ?case
    by (cases "vt_vote v") (simp_all add: Let_def split_beta split: option.splits)
qed

lemma list_all_votes_granted:
  "list_all P (map f (filter s vs)) \<longleftrightarrow> (\<forall>v \<in> set vs. s v \<longrightarrow> P (f v))"
  by (auto simp: list_all_iff)

section \<open>Properties of authorization\<close>

text \<open>
  Claim C6. A route with guards is authorized exactly when every guard can be built by the
  factory, accepts its context and answers true; nothing else, a failing or unbuildable guard
  in particular, ever authorizes. A route without a guards array is authorized.
\<close>

theorem isAuthorized_iff:
  "(snd (isAuthorized resolve (Some refs)) = Inr True \<longleftrightarrow> (\<forall>ref \<in> set refs. guard_allows resolve ref)) \<and>
   snd (isAuthorized resolve None) = Inr True"
proof -
  have "snd (isAuthorized resolve (Some refs)) = snd (guard_loop resolve refs True)"
    by (auto simp: isAuthorized_def split: prod.splits sum.splits)
  then show ?thesis
    by (auto simp: guard_loop_True guard_allows_outcome list_all_iff isAuthorized_def)
qed

theorem isAuthorized_iff_witness:
  "snd (isAuthorized (\<lambda>_ :: unit. Inr \<lparr>gi_name = ''G'', gi_isAuthorized = Some (Inr True), gi_setContext = Some (Inr ())\<rparr>)
     (Some [GuardClass ()])) = Inr True"
  using isAuthorized_iff [of "\<lambda>_ :: unit. Inr \<lparr>gi_name = ''G'', gi_isAuthorized = Some (Inr True),
      gi_setContext = Some (Inr ())\<rparr>" "[GuardClass ()]"]
  by (simp add: guard_allows_def guard_fromContext_def)

text \<open>
  The authorizer throws exactly when some guard fails with a framework error of
  status 401 or 403, and then it throws the first such error in guard order, unchanged; every
  failure before it was of another kind and did not stop the loop.
\<close>

theorem isAuthorized_throws_iff:
  "snd (isAuthorized resolve (Some refs)) = Inl e \<longleftrightarrow>
     (\<exists>xs ref ys. refs = xs @ ref # ys \<and> snd (guard_outcome resolve ref) = Inl e \<and> typed_auth_error e \<and>
        list_all (\<lambda>r. case snd (guard_outcome resolve r) of Inl e' \<Rightarrow> \<not> typed_auth_error e' | Inr _ \<Rightarrow> True) xs)"
proof -
  have "snd (isAuthorized resolve (Some refs)) = snd (guard_loop resolve refs True)"
    by (auto simp: isAuthorized_def split: prod.splits sum.splits)
  then show ?thesis by (simp only: guard_loop_error)
qed

text \<open>
  When the authorizer returns a decision, it has consulted every guard of the route,
  in order, one decision marker each, also after a guard denied: a denial never hides the
  guards behind it.
\<close>

theorem every_guard_leaves_a_marker:
  assumes "isAuthorized resolve (Some refs) = (effs, Inr b)"
  shows "List.map_filter decision_guard effs = map (\<lambda>r. fst (guard_outcome resolve r)) refs"
proof -
  obtain effs' where loop: "guard_loop resolve refs True = (effs', Inr b)"
    and effs: "effs = effs' @ [Log Info ''User authorized'']"
    using assms by (auto simp: isAuthorized_def split: prod.splits sum.splits)
  from guard_loop_decisions [of resolve refs True] loop
  have "List.map_filter decision_guard effs' = map (\<lambda>r. fst (guard_outcome resolve r)) refs"
    by auto
  then show ?thesis by (simp add: effs map_filter_append List.map_filter_simps)
qed

theorem every_guard_leaves_a_marker_witness:
  "\<exists>effs. isAuthorized (\<lambda>_ :: unit. Inl (ValueErr ''boom'')) (Some [GuardClass (), GuardClass ()]) = (effs, Inr False) \<and>
     List.map_filter decision_guard effs = [''(unknown guard)'', ''(unknown guard)'']"
proof -
  obtain effs where r: "isAuthorized (\<lambda>_ :: unit. Inl (ValueErr ''boom'')) (Some [GuardClass (), GuardClass ()]) = (effs, Inr False)"
    by (simp add: isAuthorized_def guard_outcome_def guard_fromContext_def typed_auth_error_def is_pristine_def)
  from every_guard_leaves_a_marker [OF r] r show ?thesis
    by (auto simp: guard_outcome_def guard_fromContext_def)
qed

section \<open>Properties of authentication, permissions and roles\<close>

text \<open>
  What authentication ends as: nothing without an authenticator; the factory's, the
  context's or the authenticator's own error; no identity when the authenticator finds none,
  and then no identity provider is consulted; otherwise the identity threaded through every
  identity provider in their order, the first provider that throws ending it.
\<close>

theorem authenticate_result:
  "snd (authenticate resolve providers context) =
     (case context of
        None \<Rightarrow> Inr None
      | Some ref \<Rightarrow>
          sum_bind (authenticator_fromContext resolve ref) (\<lambda>a.
          sum_bind (the (ai_setContext a)) (\<lambda>_.
          sum_bind (the (ai_authenticate a)) (\<lambda>found.
            case found of
              None \<Rightarrow> Inr None
            | Some i \<Rightarrow> sum_bind (run_chain ip_provide providers i) (\<lambda>i'. Inr (Some i'))))))"
  by (auto simp: authenticate_def provider_loop_chain [symmetric] Let_def split_beta
      split: option.splits sum.splits)

text \<open>
  Access to a resource: when no supporting voter throws, access is granted exactly
  when no supporting voter denies and, under the strategy that denies on unanimous abstention,
  some supporting voter grants. Voters that do not support the resource never count.
\<close>

theorem permission_decision:
  assumes "\<forall>v \<in> set voters. vt_supports v \<longrightarrow> (\<exists>b. vt_vote v = Inr b)"
  shows "snd (hasAccessToResource voters resourceName strategy) = Inr True \<longleftrightarrow>
     (\<forall>v \<in> set voters. vt_supports v \<longrightarrow> vt_vote v \<noteq> Inr Deny) \<and>
     (strategy = DenyOnUnanimousAbstention \<longrightarrow> (\<exists>v \<in> set voters. vt_supports v \<and> vt_vote v = Inr Grant))"
proof -
  let ?cast = "map (\<lambda>v. projr (vt_vote v)) (filter vt_supports voters)"
  have "find (\<lambda>v. vt_supports v \<and> (\<exists>e. vt_vote v = Inl e)) voters = None"
    using assms by (auto simp: find_None_iff)
  then have loop: "snd (vote_loop voters []) = Inr ?cast"
    by (simp add: vote_loop_result)
  have cast: "b \<in> set ?cast \<longleftrightarrow> (\<exists>v \<in> set voters. vt_supports v \<and> vt_vote v = Inr b)" for b
    using assms by force
  have abstain: "list_all (\<lambda>v. v = Abstain) ?cast \<longleftrightarrow> Grant \<notin> set ?cast \<and> Deny \<notin> set ?cast"
    unfolding list_all_iff by (metis (full_types) vote.exhaust vote.distinct(3,5))
  have "snd (hasAccessToResource voters resourceName strategy) = Inr True \<longleftrightarrow>
      Deny \<notin> set ?cast \<and>
      \<not> (strategy = DenyOnUnanimousAbstention \<and> (?cast = [] \<or> list_all (\<lambda>v. v = Abstain) ?cast))"
    using loop by (cases "vote_loop voters []") (simp add: hasAccessToResource_def Let_def)
  also have "\<dots> \<longleftrightarrow> Deny \<notin> set ?cast \<and> (strategy = DenyOnUnanimousAbstention \<longrightarrow> Grant \<in> set ?cast)"
    unfolding abstain by (metis (no_types) empty_iff list.set(1))
  finally show ?thesis by (simp only: cast) blast
qed

theorem permission_decision_witness:
  "snd (hasAccessToResource
     [\<lparr>vt_name = ''A'', vt_supports = True, vt_vote = Inr Abstain\<rparr>,
      \<lparr>vt_name = ''B'', vt_supports = False, vt_vote = Inr Deny\<rparr>,
      \<lparr>vt_name = ''C'', vt_supports = True, vt_vote = Inr Grant\<rparr>] ''doc'' DenyOnUnanimousAbstention) = Inr True"
  by (subst permission_decision) simp_all

text \<open>
  A role guard with a non-empty role list authorizes exactly the identities whose
  role claim is an array that holds every required role; it throws only for an identity that
  has no claims at all.
\<close>

theorem role_guard_decision:
  assumes "needed \<noteq> []"
  shows "RoleGuard_isAuthorized key (Some (Roles needed)) ident =
     (case ident of
        None \<Rightarrow> Inr False
      | Some i \<Rightarrow>
          if id_claims i = None then
            Inl (TypeError (''Cannot read properties of undefined (reading '' @ [CHR 0x27] @ key @ [CHR 0x27] @ '')''))
          else Inr (\<exists>claimed. obj_get (the (id_claims i)) key = Some (ClaimList claimed) \<and>
                     set needed \<subseteq> set claimed))"
  using assms
  by (auto simp: RoleGuard_isAuthorized_def roles_loop_iff split: option.splits claim.splits)

theorem role_guard_decision_witness:
  "RoleGuard_isAuthorized ''roles'' (Some (Roles [''ADMIN'']))
     (Some \<lparr>id_id = Some ''1'', id_claims = Some [(''roles'', ClaimList [''USER'', ''ADMIN''])]\<rparr>) = Inr True"
  by (subst role_guard_decision) simp_all

end
