(* ===== verification/Object_Util.thy ===== *)
theory Object_Util
  imports Pristine_Prelude
begin

text \<open>
  \<open>ObjectUtil.deepMerge\<close> of the common package (\<open>utils/object.util.ts\<close>), which combines a
  class-level and a method-level route context. A hole of an array and an element that is
  \<open>undefined\<close> are both \<open>JUndefined\<close>: every read of the code treats them alike. The property
  name \<open>__proto__\<close>, whose assignment is special, is outside the model.
\<close>

section \<open>Values\<close>

text \<open>
  \<open>JAtom\<close> stands for a primitive or a function, \<open>JInstance\<close> for an object that is neither an
  array nor a plain object, with its identity and its enumerable own properties.
\<close>

datatype jsv =
    JUndefined
  | JNull
  | JAtom string
  | JArray "jsv list"
  | JObject "(string \<times> jsv) list"
  | JInstance string "(string \<times> jsv) list"

section \<open>The merge\<close>

fun isPlainObject :: "jsv \<Rightarrow> bool" where
  "isPlainObject (JObject ob) = True"
| "isPlainObject _ = False"

text \<open>The enumerable own properties in the order of \<open>Object.keys\<close>.\<close>

definition entries :: "(string \<times> jsv) list \<Rightarrow> (string \<times> jsv) list" where
  "entries ob = sort_key (\<lambda>kv. num_value (fst kv)) (filter (\<lambda>kv. is_index_key (fst kv)) ob) @
     filter (\<lambda>kv. \<not> is_index_key (fst kv)) ob"

definition own_properties :: "jsv \<Rightarrow> (string \<times> jsv) list" where
  "own_properties v = (case v of
     JObject ob \<Rightarrow> entries ob
   | JInstance n ob \<Rightarrow> entries ob
   | JArray xs \<Rightarrow> map (\<lambda>(i, x). (show_nat i, x)) (enumerate 0 xs)
   | _ \<Rightarrow> [])"

text \<open>\<open>merged[i]\<close> and \<open>merged[i] = v\<close>; writing past the end leaves holes.\<close>

definition element :: "jsv list \<Rightarrow> nat \<Rightarrow> jsv" where
  "element xs i = (if i < length xs then xs ! i else JUndefined)"

definition set_element :: "jsv list \<Rightarrow> nat \<Rightarrow> jsv \<Rightarrow> jsv list" where
  "set_element xs i v =
     (if i < length xs then xs[i := v] else xs @ replicate (i - length xs) JUndefined @ [v])"

definition property :: "(string \<times> jsv) list \<Rightarrow> string \<Rightarrow> jsv" where
  "property ob k = (case map_of ob k of Some v \<Rightarrow> v | None \<Rightarrow> JUndefined)"

lemma size_list_filter: "size_list f (filter P xs) + size_list f (filter (\<lambda>x. \<not> P x) xs) \<le> length xs + size_list f xs"
  by (induction xs) auto

lemma size_list_mset: "mset xs = mset ys \<Longrightarrow> size_list f xs = size_list f ys"
  by (metis mset_map size_list_conv_sum_list size_mset sum_mset_sum_list)

lemma entries_mset: "mset (entries ob) = mset ob"
  by (simp add: entries_def)

lemma size_entries [simp]: "size_list f (entries ob) = size_list f ob"
  by (rule size_list_mset) (rule entries_mset)

function (sequential) mergeValue :: "jsv \<Rightarrow> jsv \<Rightarrow> jsv"
  and mergeElements :: "jsv list \<Rightarrow> nat \<Rightarrow> jsv list \<Rightarrow> jsv list"
  and mergeEntries :: "(string \<times> jsv) list \<Rightarrow> (string \<times> jsv) list \<Rightarrow> (string \<times> jsv) list" where
  "mergeValue targetValue (JArray xs) =
     JArray (mergeElements (case targetValue of JArray ts \<Rightarrow> ts | _ \<Rightarrow> []) 0 xs)"
| "mergeValue targetValue (JObject ob) =
     JObject (mergeEntries (case targetValue of JObject t \<Rightarrow> t | _ \<Rightarrow> []) (entries ob))"
| "mergeValue targetValue sourceValue = sourceValue"
| "mergeElements merged i [] = merged"
| "mergeElements merged i (x # xs) =
     (if x = JUndefined then mergeElements merged (Suc i) xs
      else mergeElements (set_element merged i (mergeValue (element merged i) x)) (Suc i) xs)"
| "mergeEntries target [] = target"
| "mergeEntries target ((k, v) # es) =
     (if v = JUndefined then mergeEntries target es
      else mergeEntries (obj_set k (mergeValue (property target k) v) target) es)"
  by pat_completeness auto
termination
  by (relation "measure (\<lambda>s. case s of
        Inl (_, v) \<Rightarrow> 2 * size v
      | Inr (Inl (_, _, xs)) \<Rightarrow> 2 * size_list size xs + 1
      | Inr (Inr (_, es)) \<Rightarrow> 2 * size_list (size_prod (\<lambda>_. 0) size) es + 1)")
     auto

definition mergeInto :: "(string \<times> jsv) list \<Rightarrow> jsv \<Rightarrow> (string \<times> jsv) list" where
  "mergeInto target source = mergeEntries target (own_properties source)"

definition deepMerge :: "jsv list \<Rightarrow> jsv" where
  "deepMerge sources = JObject (foldl mergeInto [] sources)"

section \<open>Lemmas\<close>

lemma set_entries [simp]: "set (entries ob) = set ob"
  using arg_cong [OF entries_mset, of set_mset ob] by simp

lemma distinct_entries: "wf_obj ob \<Longrightarrow> distinct (map fst (entries ob))"
  unfolding wf_obj_def
  by (metis distinct_map_filter entries_mset mset_map mset_eq_imp_distinct_iff)

lemma property_entries: "wf_obj ob \<Longrightarrow> property (entries ob) k = property ob k"
  using map_of_inject_set [of "entries ob" ob] distinct_entries [of ob]
  by (simp add: property_def wf_obj_def)

lemma property_set [simp]: "property (obj_set k v ob) k' = (if k' = k then v else property ob k')"
  by (simp add: property_def update_conv')

lemma property_Nil [simp]: "property [] k = JUndefined"
  by (simp add: property_def)

lemma mergeValue_undefined [simp]: "mergeValue t JUndefined = JUndefined"
  by simp

lemma property_mergeEntries:
  "distinct (map fst es) \<Longrightarrow> property (mergeEntries t es) k =
     (if property es k = JUndefined then property t k else mergeValue (property t k) (property es k))"
proof (induction es arbitrary: t)
  case Nil
  then show ?case by simp
next
  case (Cons e es)
  obtain k' v where e: "e = (k', v)" by (cases e)
  have "k' \<notin> fst ` set es" and IH: "property (mergeEntries u es) k =
      (if property es k = JUndefined then property u k else mergeValue (property u k) (property es k))" for u
    using Cons by (auto simp: e)
  then have "property es k' = JUndefined"
    by (auto simp: property_def map_of_eq_None_iff [THEN iffD2] split: option.splits
        dest: map_of_SomeD intro: rev_image_eqI)
  then show ?case
    by (auto simp: e IH property_def [of "(k', v) # es"] property_def [of es, symmetric]
        split: option.splits)
qed

lemma element_set [simp]: "element (set_element xs i v) j = (if j = i then v else element xs j)"
  by (auto simp: element_def set_element_def nth_append nth_Cons')

lemma element_Nil [simp]: "element [] j = JUndefined"
  by (simp add: element_def)

lemma element_mergeElements:
  "element (mergeElements m i xs) j =
     (if j < i \<or> element xs (j - i) = JUndefined then element m j
      else mergeValue (element m j) (element xs (j - i)))"
proof (induction xs arbitrary: m i j)
  case Nil
  then show ?case by simp
next
  case (Cons x xs)
  have "element (x # xs) (j - i) = (if j \<le> i then x else element xs (j - Suc i))"
    by (auto simp: element_def nth_Cons' Suc_diff_Suc)
  then show ?case by (auto simp: Cons.IH less_Suc_eq)
qed

section \<open>Properties of the merge\<close>

text \<open>
  Merging two objects, property by property: where the second source has no value the
  result is a copy of the first source's value, and where it has one the result is that value
  merged onto the copy of the first.
\<close>

theorem deepMerge_two:
  assumes "wf_obj a" and "wf_obj b"
  shows "\<exists>ob. deepMerge [JObject a, JObject b] = JObject ob \<and>
    (\<forall>k. property ob k =
       (if property b k = JUndefined then mergeValue JUndefined (property a k)
        else mergeValue (mergeValue JUndefined (property a k)) (property b k)))"
  using assms
  by (auto simp: deepMerge_def mergeInto_def own_properties_def property_mergeEntries
      distinct_entries property_entries)

theorem deepMerge_two_witness:
  "\<exists>ob. deepMerge [JObject [(''a'', JAtom ''1''), (''b'', JAtom ''2'')], JObject [(''b'', JAtom ''3'')]] = JObject ob \<and>
     property ob ''a'' = JAtom ''1'' \<and> property ob ''b'' = JAtom ''3''"
proof -
  have wf: "wf_obj [(''a'', JAtom ''1''), (''b'', JAtom ''2'')]" "wf_obj [(''b'', JAtom ''3'')]"
    by (simp_all add: wf_obj_def)
  from deepMerge_two [OF wf] show ?thesis by (auto simp: property_def)
qed

text \<open>
  Arrays merge by index: an element of the later array is merged onto the element at
  the same index of the earlier one, and an earlier element survives only where the later array
  has none. Neither array is kept whole.
\<close>

theorem arrays_merge_by_index:
  "\<exists>zs. mergeValue (JArray ts) (JArray xs) = JArray zs \<and>
    (\<forall>j. element zs j =
       (if element xs j = JUndefined then element ts j else mergeValue (element ts j) (element xs j)))"
  by (simp add: element_mergeElements)

end
