(* ===== verification/Router.thy ===== *)
theory Router
  imports Route_Tree Security Object_Util
begin

text \<open>
  The router of the networking package (\<open>router.ts\<close>), its cache (\<open>cache/\<close>) and the request
  interceptors. What the container, the URL parser, the digest and the application's code answer
  during one request is the record \<open>services\<close>. Debug log entries are left out of the effects; the
  tracing manager is taken as resolved. Requests are handled one at a time: every access to the
  cache is synchronous in the code, and the cache invariant is one of the single accesses.
\<close>

section \<open>Requests, responses and routes\<close>

record request =
  rq_method :: string
  rq_url :: string
  rq_host :: "string option"
  rq_headers :: "string obj"
  rq_body :: "string option"

datatype body = NoBody | BodyText string | BodyError error_body

record response =
  rp_status :: nat
  rp_body :: body
  rp_headers :: "string obj"
  rp_request :: "request option"

definition new_Response :: response where
  "new_Response = \<lparr>rp_status = 200, rp_body = NoBody, rp_headers = [], rp_request = None\<rparr>"

record route =
  rt_controller :: string
  rt_property :: string
  rt_arguments :: "string list"
  rt_context :: jsv

type_synonym params = "string obj"

section \<open>Setup\<close>

text \<open>A decorated method of a controller; \<open>rd_decorated\<close> says that it carries route metadata.\<close>

record route_declaration =
  rd_decorated :: bool
  rd_path :: string
  rd_httpMethod :: string
  rd_property :: string
  rd_arguments :: "string list"
  rd_context :: jsv

record controller_declaration =
  cd_token :: string
  cd_basePath :: "string option"
  cd_context :: jsv
  cd_routes :: "route_declaration list"

definition drop_trailing_slash :: "string \<Rightarrow> string" where
  "drop_trailing_slash s = (if ends_with s ''/'' then butlast s else s)"

definition route_path :: "string option \<Rightarrow> string \<Rightarrow> string" where
  "route_path basePath path =
     (let base = drop_trailing_slash (case basePath of Some b \<Rightarrow> b | None \<Rightarrow> []);
          path = (if starts_with path ''/'' then drop 1 path else path);
          path = drop_trailing_slash path
      in base @ ''/'' @ path)"

definition build_route :: "controller_declaration \<Rightarrow> route_declaration \<Rightarrow> route" where
  "build_route c d = \<lparr>rt_controller = cd_token c, rt_property = rd_property d,
     rt_arguments = rd_arguments d, rt_context = deepMerge [cd_context c, rd_context d]\<rparr>"

definition declared_routes :: "controller_declaration list \<Rightarrow> (string \<times> string \<times> route) list" where
  "declared_routes cs = concat (map (\<lambda>c. map (\<lambda>d.
     (route_path (cd_basePath c) (rd_path d), rd_httpMethod d, build_route c d))
     (filter rd_decorated (cd_routes c))) cs)"

record router =
  ro_root :: "route node"
  ro_setupCompleted :: bool

definition new_Router :: router where
  "new_Router = \<lparr>ro_root = root_node, ro_setupCompleted = False\<rparr>"

definition setup_routes :: "controller_declaration list \<Rightarrow> router \<Rightarrow> tree_error + router" where
  "setup_routes cs ro =
     (if ro_setupCompleted ro then Inr ro
      else sum_bind (register_all (ro_root ro) (declared_routes cs)) (\<lambda>root.
        Inr \<lparr>ro_root = root, ro_setupCompleted = True\<rparr>))"

section \<open>The router cache\<close>

record cached_route =
  cr_node :: "route found option"
  cr_parameters :: "params option"
  cr_arguments :: "string list obj"

definition new_CachedRouterRoute :: "route found option \<Rightarrow> cached_route" where
  "new_CachedRouterRoute node = \<lparr>cr_node = node, cr_parameters = None, cr_arguments = []\<rparr>"

type_synonym cache = "cached_route obj"

definition cache_key :: "string \<Rightarrow> string \<Rightarrow> string" where
  "cache_key method pathname = method @ ''_'' @ pathname"

definition cache_get :: "bool \<Rightarrow> cache \<Rightarrow> string \<Rightarrow> cached_route option" where
  "cache_get isActive cache key = (if \<not> isActive then None else obj_get cache key)"

definition cache_set :: "bool \<Rightarrow> cache \<Rightarrow> string \<Rightarrow> route found option \<Rightarrow> cached_route \<times> cache" where
  "cache_set isActive cache key node =
     (let c = new_CachedRouterRoute node in
      if \<not> isActive then (c, cache) else (c, obj_set key c cache))"

definition getCachedControllerMethodArguments ::
  "bool \<Rightarrow> (request \<Rightarrow> thrown + string option) \<Rightarrow> cache \<Rightarrow> string \<Rightarrow> request \<Rightarrow> thrown + string list option" where
  "getCachedControllerMethodArguments isActive hashRequest cache key request =
     (if \<not> isActive then Inr None
      else case obj_get cache key of
        None \<Rightarrow> Inr None
      | Some c \<Rightarrow> sum_bind (hashRequest request) (\<lambda>h.
          case h of None \<Rightarrow> Inr None | Some h \<Rightarrow> Inr (obj_get (cr_arguments c) h)))"

definition setControllerMethodArguments ::
  "bool \<Rightarrow> (request \<Rightarrow> thrown + string option) \<Rightarrow> cache \<Rightarrow> string \<Rightarrow> request \<Rightarrow> string list \<Rightarrow> thrown + cache" where
  "setControllerMethodArguments isActive hashRequest cache key request arguments =
     (if \<not> isActive then Inr cache
      else case obj_get cache key of
        None \<Rightarrow> Inr cache
      | Some c \<Rightarrow> sum_bind (hashRequest request) (\<lambda>h.
          case h of
            None \<Rightarrow> Inr cache
          | Some h \<Rightarrow> Inr (obj_set key (c\<lparr>cr_arguments := obj_set h arguments (cr_arguments c)\<rparr>) cache)))"

section \<open>Interceptors\<close>

text \<open>
  The optional methods of an interceptor: absent, or answering a new value, nothing, or a throw.
\<close>

record interceptor =
  ic_name :: string
  ic_priority :: "int option"
  ic_interceptRequest :: "(request \<Rightarrow> thrown + request option) option"
  ic_interceptResponse :: "(response \<Rightarrow> thrown + response option) option"
  ic_interceptError :: "(thrown \<Rightarrow> response \<Rightarrow> thrown + response option) option"

definition interceptor_priority :: "interceptor \<Rightarrow> int" where
  "interceptor_priority i = (case ic_priority i of Some p \<Rightarrow> p | None \<Rightarrow> 0)"

text \<open>One hook on a value; a failure is tagged with the interceptor's name.\<close>

definition hook_step :: "string \<Rightarrow> ('a \<Rightarrow> thrown + 'a option) option \<Rightarrow> 'a \<Rightarrow> (string \<times> thrown) + 'a" where
  "hook_step name hook a =
     (case hook of
        None \<Rightarrow> Inr a
      | Some h \<Rightarrow> (case h a of Inl e \<Rightarrow> Inl (name, e) | Inr None \<Rightarrow> Inr a | Inr (Some b) \<Rightarrow> Inr b))"

definition request_step :: "interceptor \<Rightarrow> request \<Rightarrow> (string \<times> thrown) + request" where
  "request_step i = hook_step (ic_name i) (ic_interceptRequest i)"

definition response_step :: "interceptor \<Rightarrow> response \<Rightarrow> (string \<times> thrown) + response" where
  "response_step i = hook_step (ic_name i) (ic_interceptResponse i)"

definition error_step :: "thrown \<Rightarrow> interceptor \<Rightarrow> response \<Rightarrow> (string \<times> thrown) + response" where
  "error_step error i = hook_step (ic_name i) (map_option (\<lambda>h. h error) (ic_interceptError i))"

text \<open>
  The registered interceptors: \<open>None\<close> when none is registered, a throw when the container
  cannot build one. \<open>reads\<close> says that the catch block of the hook reads \<open>error.message\<close>: a thrown
  \<open>undefined\<close> or \<open>null\<close> is then replaced by the \<open>TypeError\<close> of that access, before anything is logged.
\<close>

definition run_interceptors ::
  "(thrown + interceptor list) option \<Rightarrow> (interceptor \<Rightarrow> 'a \<Rightarrow> (string \<times> thrown) + 'a) \<Rightarrow> (string \<Rightarrow> string) \<Rightarrow>
   bool \<Rightarrow> 'a \<Rightarrow> effect list \<times> (thrown + 'a)" where
  "run_interceptors registered step message reads a =
     (case registered of
        None \<Rightarrow> ([], Inr a)
      | Some (Inl e) \<Rightarrow> ([], Inl e)
      | Some (Inr is) \<Rightarrow>
          (case run_chain step (sort_desc interceptor_priority is) a of
             Inl (name, e) \<Rightarrow>
               (case (reads, unreadable e) of
                  (True, Some t) \<Rightarrow> ([], Inl (TypeError t))
                | _ \<Rightarrow> ([Log Error (message name)], Inl e))
           | Inr b \<Rightarrow> ([], Inr b)))"

definition hook_failure :: "string \<Rightarrow> string \<Rightarrow> string" where
  "hook_failure method name = ''There was an exception thrown while executing the '' @ [CHR 0x27] @ method @
     [CHR 0x27] @ '' method of the RequestInterceptor named: '' @ [CHR 0x27] @ name @ [CHR 0x27] @ ''.''"

definition executeRequestInterceptors ::
  "(thrown + interceptor list) option \<Rightarrow> request \<Rightarrow> effect list \<times> (thrown + request)" where
  "executeRequestInterceptors registered request =
     run_interceptors registered request_step (hook_failure ''interceptedRequest'') True request"

definition executeResponseInterceptors ::
  "(thrown + interceptor list) option \<Rightarrow> response \<Rightarrow> effect list \<times> (thrown + response)" where
  "executeResponseInterceptors registered response =
     run_interceptors registered response_step (\<lambda>name. ''Router - '' @ hook_failure ''interceptResponse'' name) False response"

definition error_response :: "string option \<Rightarrow> string option \<Rightarrow> thrown \<Rightarrow> request \<Rightarrow> response" where
  "error_response raw stk error request =
     (let (status, b) = respond raw stk error in
      new_Response\<lparr>rp_status := status, rp_body := BodyError b, rp_request := Some request\<rparr>)"

definition executeErrorResponseInterceptors ::
  "string option \<Rightarrow> string option \<Rightarrow> (thrown + interceptor list) option \<Rightarrow> thrown \<Rightarrow> request \<Rightarrow>
   effect list \<times> (thrown + response)" where
  "executeErrorResponseInterceptors raw stk registered error request =
     (let (effs, res) = run_interceptors registered (error_step error) (hook_failure ''interceptError'') True
            (error_response raw stk error request) in
      case res of
        Inl e \<Rightarrow> (effs, Inl e)
      | Inr response \<Rightarrow>
          (let (effs', res') = executeResponseInterceptors registered response in (effs @ effs', res')))"

section \<open>Executing a request\<close>

datatype controller_result = ControllerResponse response | ControllerValue string

text \<open>
  What the outside answers for one request: the path of \<open>new URL(url, host)\<close>, the digest of a
  request, the container, the argument resolvers and the controller methods.
\<close>

record services =
  sv_new_URL :: "string \<Rightarrow> string option \<Rightarrow> thrown + string"
  sv_digest :: "request \<Rightarrow> string option"
  sv_cache_active :: bool
  sv_guard :: "string \<Rightarrow> thrown + guard_inst"
  sv_authenticator :: "string \<Rightarrow> thrown + authenticator_inst"
  sv_providers :: "identity_provider list"
  sv_interceptors :: "(thrown + interceptor list) option"
  sv_controller :: "string \<Rightarrow> thrown + unit"
  sv_argument :: "string \<Rightarrow> request \<Rightarrow> params \<Rightarrow> identity option \<Rightarrow> thrown + string"
  sv_call :: "string \<Rightarrow> string \<Rightarrow> string list \<Rightarrow> thrown + controller_result"
  sv_environment :: "string option"
  sv_stack :: "string option"

definition request_pathname :: "services \<Rightarrow> request \<Rightarrow> thrown + string" where
  "request_pathname sv request =
     sv_new_URL sv (rq_url request) (Some (case rq_host request of Some h \<Rightarrow> h | None \<Rightarrow> ''https://default.com''))"

text \<open>\<open>hashRequest\<close> parses the URL of the request without a base.\<close>

definition hashRequest :: "services \<Rightarrow> request \<Rightarrow> thrown + string option" where
  "hashRequest sv request = sum_bind (sv_new_URL sv (rq_url request) None) (\<lambda>_. Inr (sv_digest sv request))"

text \<open>What the managers read from the route context: the tokens of the guards and the authenticator. The options of a guard are left out.\<close>

definition token_of :: "string \<Rightarrow> jsv \<Rightarrow> string" where
  "token_of field v = (case v of
     JObject ob \<Rightarrow> (case property ob field of JAtom t \<Rightarrow> t | JInstance t _ \<Rightarrow> t | _ \<Rightarrow> ''undefined'')
   | _ \<Rightarrow> ''undefined'')"

definition route_guards :: "jsv \<Rightarrow> string guard_ref list option" where
  "route_guards context = (case context of
     JObject ob \<Rightarrow> (case property ob ''@guard'' of
         JArray gs \<Rightarrow> Some (map (\<lambda>g. GuardClass (token_of ''guard'' g)) gs)
       | _ \<Rightarrow> None)
   | _ \<Rightarrow> None)"

definition route_authenticator :: "jsv \<Rightarrow> string authenticator_ref option" where
  "route_authenticator context = (case context of
     JObject ob \<Rightarrow> (case property ob ''@authenticator'' of
         JUndefined \<Rightarrow> None
       | a \<Rightarrow> Some (AuthenticatorClass (token_of ''authenticator'' a)))
   | _ \<Rightarrow> None)"

definition isUserError :: "thrown \<Rightarrow> bool" where
  "isUserError error \<longleftrightarrow> is_pristine error \<and> pe_kind error = UserError"

text \<open>Finding the method node, through the cache.\<close>

definition find_method_node ::
  "services \<Rightarrow> route node \<Rightarrow> cache \<Rightarrow> string \<Rightarrow> string \<Rightarrow> effect list \<times> cached_route \<times> cache" where
  "find_method_node sv root cache method pathname =
     (case cache_get (sv_cache_active sv) cache (cache_key method pathname) of
        Some c \<Rightarrow> ([], c, cache)
      | None \<Rightarrow>
          (in_span ''router.find.method.router.node'' [],
           cache_set (sv_cache_active sv) cache (cache_key method pathname)
             (find_node [] root (splitPath pathname) method)))"

definition route_parameters :: "cached_route \<Rightarrow> route found \<Rightarrow> string \<Rightarrow> tree_error + params" where
  "route_parameters c node pathname =
     (case cr_parameters c of
        Some ps \<Rightarrow> Inr ps
      | None \<Rightarrow> getRouteParameters (fd_ancestors node) (rev (splitPath pathname)))"

definition remember_parameters :: "services \<Rightarrow> cache \<Rightarrow> string \<Rightarrow> cached_route \<Rightarrow> params \<Rightarrow> cache" where
  "remember_parameters sv cache key c ps =
     (if sv_cache_active sv \<and> cr_parameters c = None then obj_set key (c\<lparr>cr_parameters := Some ps\<rparr>) cache else cache)"

fun resolve_arguments :: "(string \<Rightarrow> thrown + string) \<Rightarrow> string list \<Rightarrow> thrown + string list" where
  "resolve_arguments resolve [] = Inr []"
| "resolve_arguments resolve (a # as) =
     sum_bind (resolve a) (\<lambda>v. sum_bind (resolve_arguments resolve as) (\<lambda>vs. Inr (v # vs)))"

definition controller_arguments ::
  "services \<Rightarrow> cache \<Rightarrow> string \<Rightarrow> route \<Rightarrow> params \<Rightarrow> identity option \<Rightarrow> request \<Rightarrow> thrown + string list \<times> cache" where
  "controller_arguments sv cache key rt ps ident request =
     sum_bind (getCachedControllerMethodArguments (sv_cache_active sv) (hashRequest sv) cache key request) (\<lambda>found.
       case found of
         Some arguments \<Rightarrow> Inr (arguments, cache)
       | None \<Rightarrow>
           sum_bind (resolve_arguments (\<lambda>a. sv_argument sv a request ps ident) (rt_arguments rt)) (\<lambda>arguments.
           sum_bind (setControllerMethodArguments (sv_cache_active sv) (hashRequest sv) cache key request arguments)
             (\<lambda>cache'. Inr (arguments, cache'))))"

definition controller_response :: "controller_result \<Rightarrow> response" where
  "controller_response result =
     (case result of
        ControllerResponse r \<Rightarrow> r
      | ControllerValue v \<Rightarrow> new_Response\<lparr>rp_status := 200, rp_body := BodyText v\<rparr>)"

text \<open>A span that is only ended when what it covers did not throw.\<close>

definition open_span :: "string \<Rightarrow> effect list \<times> (thrown + 'a) \<Rightarrow> effect list" where
  "open_span name er = SpanStart name # fst er @ (case snd er of Inl _ \<Rightarrow> [] | Inr _ \<Rightarrow> [SpanEnd name])"

text \<open>
  The guarded block: authorize, intercept the request, resolve the arguments, call the controller,
  intercept the response. \<open>Inr None\<close> is the early return of a request that is not authorized.
\<close>

definition run_controller ::
  "services \<Rightarrow> cache \<Rightarrow> string \<Rightarrow> route \<Rightarrow> params \<Rightarrow> identity option \<Rightarrow> request \<Rightarrow>
   effect list \<times> (thrown + response option) \<times> cache" where
  "run_controller sv cache key rt ps ident request =
     (case isAuthorized (sv_guard sv) (route_guards (rt_context rt)) of
        (effs, Inl e) \<Rightarrow> (effs, Inl e, cache)
      | (effs, Inr authorized) \<Rightarrow>
          if \<not> authorized then
            (effs @ [Log Warning ''User not authorized to access this url.''], Inr None, cache)
          else
            let er = executeRequestInterceptors (sv_interceptors sv) request;
                effs = effs @ open_span ''request.interceptors'' er in
            case snd er of
              Inl e \<Rightarrow> (effs, Inl e, cache)
            | Inr intercepted \<Rightarrow>
                (case controller_arguments sv cache key rt ps ident intercepted of
                   Inl e \<Rightarrow> (effs, Inl e, cache)
                 | Inr (arguments, cache) \<Rightarrow>
                     let effs = effs @ [Invoke (rt_controller rt @ ''.'' @ rt_property rt) arguments] in
                     (case sv_call sv (rt_controller rt) (rt_property rt) arguments of
                        Inl e \<Rightarrow> (effs, Inl e, cache)
                      | Inr result \<Rightarrow>
                          let er = executeResponseInterceptors (sv_interceptors sv) (controller_response result) in
                          (effs @ open_span ''response.interceptors'' er,
                           (case snd er of Inl e \<Rightarrow> Inl e | Inr r \<Rightarrow> Inr (Some r)), cache))))"

text \<open>Ending the root span and answering with the error interceptors' promise.\<close>

definition answer_error :: "services \<Rightarrow> thrown \<Rightarrow> request \<Rightarrow> effect list \<times> (thrown, response) settled" where
  "answer_error sv error request =
     (let (effs, res) = executeErrorResponseInterceptors (sv_environment sv) (sv_stack sv)
            (sv_interceptors sv) error request in
      (SpanEnd ''router.request.execution'' # effs, settled_of res))"

definition authentication_error :: "services \<Rightarrow> thrown \<Rightarrow> thrown" where
  "authentication_error sv error =
     (if typed_auth_error error then error
      else UnauthorizedError ''You are not authenticated to access this.'' (sv_stack sv) (Some error))"

definition caught_log :: "thrown \<Rightarrow> effect" where
  "caught_log e =
     (if isUserError e then Log Warning ''Router - The request was answered with a user error''
      else Log Error ''Router - There was an error trying to execute the request in the router'')"

text \<open>
  Both catch blocks read \<open>error.message\<close> before they answer. For a thrown \<open>undefined\<close> or \<open>null\<close> that
  access throws again, inside the asynchronous executor of the promise, which then stays pending.
\<close>

definition execute_route ::
  "services \<Rightarrow> cache \<Rightarrow> string \<Rightarrow> route \<Rightarrow> params \<Rightarrow> request \<Rightarrow>
   effect list \<times> (thrown, response) settled \<times> cache" where
  "execute_route sv cache key rt ps request =
     (case sv_controller sv (rt_controller rt) of
        Inl e \<Rightarrow> ([SpanStart ''router.controller.resolver''], NeverSettles, cache)
      | Inr _ \<Rightarrow>
          let effs = in_span ''router.controller.resolver'' [];
              er = authenticate (sv_authenticator sv) (sv_providers sv) (route_authenticator (rt_context rt));
              effs = effs @ open_span ''router.request.authentication'' er in
          case snd er of
            Inl e \<Rightarrow>
              if unreadable e \<noteq> None then (effs, NeverSettles, cache)
              else (let (effs', st) = answer_error sv (authentication_error sv e) request in
                (effs @ Log Warning ''Authentication error'' # effs', st, cache))
          | Inr ident \<Rightarrow>
              (case run_controller sv cache key rt ps ident request of
                 (effs', Inr (Some response), cache) \<Rightarrow>
                   (effs @ effs' @ [SpanEnd ''router.request.execution''], Fulfilled response, cache)
               | (effs', Inr None, cache) \<Rightarrow>
                   (let (effs'', st) = answer_error sv
                          (ForbiddenError ''You are not allowed to access this.'' (sv_stack sv)) request in
                    (effs @ effs' @ effs'', st, cache))
               | (effs', Inl e, cache) \<Rightarrow>
                   if unreadable e \<noteq> None then (effs @ effs', NeverSettles, cache)
                   else (let (effs'', st) = answer_error sv e request in
                     (effs @ effs' @ caught_log e # effs'', st, cache))))"

definition not_found_error :: "services \<Rightarrow> string \<Rightarrow> string \<Rightarrow> thrown" where
  "not_found_error sv method pathname =
     NotFoundError (''No route found for method: '' @ [CHR 0x27] @ method @ [CHR 0x27] @ '' and path: '' @
       [CHR 0x27] @ pathname @ [CHR 0x27] @ ''.'') (sv_stack sv)"

definition execute ::
  "services \<Rightarrow> route node \<Rightarrow> cache \<Rightarrow> request \<Rightarrow> effect list \<times> (thrown, response) settled \<times> cache" where
  "execute sv root cache request =
     (case request_pathname sv request of
        Inl e \<Rightarrow> ([SpanStart ''router.request.execution''], NeverSettles, cache)
      | Inr pathname \<Rightarrow>
          let key = cache_key (rq_method request) pathname;
              (effs, c, cache) = find_method_node sv root cache (rq_method request) pathname;
              effs = SpanStart ''router.request.execution'' # effs in
          case cr_node c of
            None \<Rightarrow>
              (let (effs', st) = answer_error sv (not_found_error sv (rq_method request) pathname) request in
               (effs @ Log Warning (''No route found for '' @ rq_method request @ '' '' @ pathname) # effs', st, cache))
          | Some node \<Rightarrow>
              (case route_parameters c node pathname of
                 Inl _ \<Rightarrow> (effs, NeverSettles, cache)
               | Inr ps \<Rightarrow>
                   let (effs', st, cache) = execute_route sv (remember_parameters sv cache key c ps) key
                          (fd_route node) ps request in
                   (effs @ effs', st, cache)))"

section \<open>Lemmas: parameters of a found route\<close>

lemma pat_match_length: "pat_match ca pat sp \<Longrightarrow> length pat \<le> length sp"
  by (induction ca pat sp rule: pat_match.induct) auto

lemma getRouteParameters_total: "length ups \<le> length sps \<Longrightarrow> \<exists>ob. getRouteParameters ups sps = Inr ob"
proof (induction ups sps rule: getRouteParameters.induct)
  case (1 sps)
  then show ?case by simp
next
  case (2 p up sps)
  then obtain s rest where sps: "sps = s # rest" and len: "length up \<le> length rest"
    by (cases sps) auto
  have "\<exists>own. own_parameter p sps = Inr own"
    by (simp add: own_parameter_def sps)
  then obtain own where own: "own_parameter p sps = Inr own" ..
  show ?case
  proof (cases "up = []")
    case True
    with own show ?thesis by simp
  next
    case False
    with "2.IH" len sps obtain above where "getRouteParameters up (drop 1 sps) = Inr above"
      by auto
    with own False show ?thesis by simp
  qed
qed

lemma found_parameters_total:
  assumes "find_node [] root sp m = Some f"
  shows "\<exists>ps. getRouteParameters (fd_ancestors f) (rev sp) = Inr ps"
proof -
  from find_node_sound [OF assms] obtain pat where "fd_ancestors f = rev pat"
    and "pat_match (parent_is_catch_all []) pat sp" by auto
  then show ?thesis using getRouteParameters_total pat_match_length by fastforce
qed

section \<open>Lemmas: the cache\<close>

lemma takeWhile_stop: "c \<notin> set xs \<Longrightarrow> takeWhile (\<lambda>d. d \<noteq> c) (xs @ c # ys) = xs"
  by (induction xs) auto

lemma cache_key_inj:
  assumes "CHR ''/'' \<notin> set m" and "CHR ''/'' \<notin> set m'" and "starts_with p ''/''" and "starts_with p' ''/''"
  shows "cache_key m p = cache_key m' p' \<longleftrightarrow> m = m' \<and> p = p'"
proof
  assume eq: "cache_key m p = cache_key m' p'"
  obtain q q' where "p = CHR ''/'' # q" "p' = CHR ''/'' # q'"
    using assms(3,4) by (cases p; cases p') (auto simp: starts_with_def)
  moreover from this have "takeWhile (\<lambda>c. c \<noteq> CHR ''/'') (cache_key m p) = m @ ''_''"
    and "takeWhile (\<lambda>c. c \<noteq> CHR ''/'') (cache_key m' p') = m' @ ''_''"
    using assms(1,2) takeWhile_stop [of "CHR ''/''" "m @ ''_''" q] takeWhile_stop [of "CHR ''/''" "m' @ ''_''" q']
    by (auto simp: cache_key_def)
  ultimately show "m = m' \<and> p = p'" using eq by (simp add: cache_key_def)
qed simp

text \<open>A cached entry agrees with the tree, and so does every entry of a good cache.\<close>

definition entry_ok :: "route node \<Rightarrow> string \<Rightarrow> string \<Rightarrow> cached_route \<Rightarrow> bool" where
  "entry_ok root m p c \<longleftrightarrow> cr_node c = find_node [] root (splitPath p) m \<and>
     (\<forall>ps f. cr_parameters c = Some ps \<longrightarrow> cr_node c = Some f \<longrightarrow>
        getRouteParameters (fd_ancestors f) (rev (splitPath p)) = Inr ps)"

definition proper_request :: "string \<Rightarrow> string \<Rightarrow> bool" where
  "proper_request m p \<longleftrightarrow> CHR ''/'' \<notin> set m \<and> starts_with p ''/''"

definition cache_ok :: "route node \<Rightarrow> cache \<Rightarrow> bool" where
  "cache_ok root cache \<longleftrightarrow> (\<forall>m p c. proper_request m p \<longrightarrow> obj_get cache (cache_key m p) = Some c \<longrightarrow>
     entry_ok root m p c)"

lemma cache_ok_Nil [simp]: "cache_ok root []"
  by (simp add: cache_ok_def)

lemma cache_ok_get: "cache_ok root cache \<Longrightarrow> proper_request m p \<Longrightarrow>
    obj_get cache (cache_key m p) = Some c \<Longrightarrow> entry_ok root m p c"
  by (simp add: cache_ok_def)

lemma cache_ok_set:
  "cache_ok root cache \<Longrightarrow> proper_request m p \<Longrightarrow> entry_ok root m p c \<Longrightarrow>
     cache_ok root (obj_set (cache_key m p) c cache)"
  by (auto simp: cache_ok_def obj_get_set proper_request_def cache_key_inj split: if_splits)

lemma entry_ok_new: "entry_ok root m p (new_CachedRouterRoute (find_node [] root (splitPath p) m))"
  by (simp add: entry_ok_def new_CachedRouterRoute_def)

lemma find_method_node_ok:
  assumes "cache_ok root cache" and "proper_request m p"
    and "find_method_node sv root cache m p = (effs, c, cache')"
  shows "entry_ok root m p c" and "cache_ok root cache'"
    and "sv_cache_active sv \<Longrightarrow> obj_get cache' (cache_key m p) = Some c"
  using assms cache_ok_get [OF assms(1,2)]
  by (auto simp: find_method_node_def cache_get_def cache_set_def Let_def entry_ok_new obj_get_set
      intro: cache_ok_set split: option.splits if_splits)

lemma route_parameters_ok:
  assumes "entry_ok root m p c" and "cr_node c = Some f"
  shows "\<exists>ps. route_parameters c f p = Inr ps \<and> getRouteParameters (fd_ancestors f) (rev (splitPath p)) = Inr ps"
  using assms found_parameters_total [of root "splitPath p" m f]
  by (auto simp: route_parameters_def entry_ok_def split: option.splits)

lemma remember_parameters_ok:
  assumes "cache_ok root cache" and "proper_request m p" and "entry_ok root m p c"
    and "cr_node c = Some f" and "route_parameters c f p = Inr ps"
  shows "cache_ok root (remember_parameters sv cache (cache_key m p) c ps)"
  using assms
  by (auto simp: remember_parameters_def route_parameters_def entry_ok_def intro!: cache_ok_set)

lemma controller_arguments_ok:
  assumes "cache_ok root cache" and "proper_request m p"
    and "controller_arguments sv cache (cache_key m p) rt ps ident request = Inr (arguments, cache')"
  shows "cache_ok root cache'"
  using assms cache_ok_get [OF assms(1,2)]
  by (auto simp: controller_arguments_def setControllerMethodArguments_def sum_bind_Inr_conv entry_ok_def
      intro!: cache_ok_set split: option.splits if_splits)

lemma run_controller_cache_ok:
  "cache_ok root cache \<Longrightarrow> proper_request m p \<Longrightarrow>
     cache_ok root (snd (snd (run_controller sv cache (cache_key m p) rt ps ident request)))"
  by (auto simp: run_controller_def Let_def dest: controller_arguments_ok split: prod.splits sum.splits)

lemma execute_route_cache_ok:
  assumes "cache_ok root cache" and "proper_request m p"
  shows "cache_ok root (snd (snd (execute_route sv cache (cache_key m p) rt ps request)))"
proof -
  have "cache_ok root cache'" if "run_controller sv cache (cache_key m p) rt ps ident request = (e, r, cache')" for ident e r cache'
    using run_controller_cache_ok [OF assms, of sv rt ps ident request] that by simp
  with assms(1) show ?thesis
    by (auto simp: execute_route_def Let_def split: prod.splits sum.splits option.splits)
qed

section \<open>Lemmas: effects of the stages\<close>

definition invocations :: "effect list \<Rightarrow> (string \<times> string list) list" where
  "invocations effs = List.map_filter (\<lambda>e. case e of Invoke n args \<Rightarrow> Some (n, args) | _ \<Rightarrow> None) effs"

lemma invocations_simps [simp]:
  "invocations [] = []"
  "invocations (Log s m # effs) = invocations effs"
  "invocations (Marker n hs # effs) = invocations effs"
  "invocations (SpanStart n # effs) = invocations effs"
  "invocations (SpanEnd n # effs) = invocations effs"
  "invocations (Invoke n args # effs) = (n, args) # invocations effs"
  by (simp_all add: invocations_def List.map_filter_simps)

lemma invocations_append [simp]: "invocations (xs @ ys) = invocations xs @ invocations ys"
  by (simp add: invocations_def map_filter_append)

lemma invocations_in_span [simp]: "invocations (in_span n effs) = invocations effs"
  by (simp add: in_span_def)

lemma invocations_caught_log [simp]: "invocations (caught_log e # effs) = invocations effs"
  by (simp add: caught_log_def)

lemma invocations_open_span [simp]: "invocations (open_span n er) = invocations (fst er)"
  by (simp add: open_span_def split: sum.splits)

lemma guard_loop_invocations: "invocations (fst (guard_loop resolve refs authorized)) = []"
proof (induction refs arbitrary: authorized)
  case (Cons ref refs)
  obtain name out where "guard_outcome resolve ref = (name, out)" by (cases "guard_outcome resolve ref")
  with Cons.IH show ?case by (cases out) (simp_all add: Let_def split_beta)
qed simp

lemma isAuthorized_invocations: "invocations (fst (isAuthorized resolve guards)) = []"
proof (cases guards)
  case (Some refs)
  show ?thesis
    using guard_loop_invocations [of resolve refs True]
    by (cases "guard_loop resolve refs True"; cases "snd (guard_loop resolve refs True)")
       (simp_all add: isAuthorized_def Some)
qed (simp add: isAuthorized_def)

lemma provider_loop_invocations: "invocations (fst (provider_loop ps i)) = []"
proof (induction ps arbitrary: i)
  case (Cons p ps)
  then show ?case by (cases "ip_provide p i") (simp_all add: Let_def split_beta)
qed simp

lemma authenticate_invocations: "invocations (fst (authenticate resolve providers context)) = []"
  by (auto simp: authenticate_def authentication_failed_def provider_loop_invocations Let_def split_beta
      split: option.splits sum.splits)

lemma run_interceptors_invocations: "invocations (fst (run_interceptors registered step message reads a)) = []"
  by (auto simp: run_interceptors_def split: option.splits sum.splits bool.splits)

lemma executeErrorResponseInterceptors_invocations:
  "invocations (fst (executeErrorResponseInterceptors raw stk registered error request)) = []"
  using run_interceptors_invocations
  by (auto simp: executeErrorResponseInterceptors_def executeResponseInterceptors_def Let_def split_beta
      split: sum.splits)

lemma answer_error_invocations: "invocations (fst (answer_error sv error request)) = []"
  by (simp add: answer_error_def split_beta executeErrorResponseInterceptors_invocations)

lemmas stage_invocations = isAuthorized_invocations authenticate_invocations run_interceptors_invocations
  executeErrorResponseInterceptors_invocations answer_error_invocations

lemma run_controller_invocations:
  assumes "(n, args) \<in> set (invocations (fst (run_controller sv cache key rt ps ident request)))"
  shows "snd (isAuthorized (sv_guard sv) (route_guards (rt_context rt))) = Inr True \<and>
    n = rt_controller rt @ ''.'' @ rt_property rt"
proof -
  obtain effs res where auth: "isAuthorized (sv_guard sv) (route_guards (rt_context rt)) = (effs, res)"
    by (cases "isAuthorized (sv_guard sv) (route_guards (rt_context rt))")
  have "invocations effs = []"
    using isAuthorized_invocations [of "sv_guard sv" "route_guards (rt_context rt)"] auth by simp
  with assms auth show ?thesis
    by (auto simp: run_controller_def Let_def executeRequestInterceptors_def executeResponseInterceptors_def
        run_interceptors_invocations split: sum.splits prod.splits if_splits)
qed

lemma answer_error_settles: "snd (answer_error sv error request) \<noteq> NeverSettles"
proof -
  have "settled_of r \<noteq> NeverSettles" for r :: "thrown + response" by (cases r) simp_all
  then show ?thesis by (simp add: answer_error_def split_beta)
qed

lemma execute_route_settles:
  "fst (snd (execute_route sv cache key rt ps request)) = NeverSettles \<longleftrightarrow>
     (case sv_controller sv (rt_controller rt) of
        Inl e \<Rightarrow> True
      | Inr u \<Rightarrow>
          (case snd (authenticate (sv_authenticator sv) (sv_providers sv) (route_authenticator (rt_context rt))) of
             Inl e \<Rightarrow> unreadable e \<noteq> None
           | Inr ident \<Rightarrow>
               (case fst (snd (run_controller sv cache key rt ps ident request)) of
                  Inl e \<Rightarrow> unreadable e \<noteq> None
                | Inr r \<Rightarrow> False)))"
  using answer_error_settles
  by (auto simp: execute_route_def Let_def split_beta split: sum.splits option.splits)

lemma execute_missing:
  assumes "request_pathname sv request = Inr p"
    and "find_method_node sv root cache (rq_method request) p = (effs, c, cache1)" and "cr_node c = None"
  shows "snd (execute sv root cache request) =
    (snd (answer_error sv (not_found_error sv (rq_method request) p) request), cache1)"
  using assms by (simp add: execute_def Let_def split_beta)

lemma execute_found:
  assumes "request_pathname sv request = Inr p"
    and "find_method_node sv root cache (rq_method request) p = (effs, c, cache1)" and "cr_node c = Some node"
    and "route_parameters c node p = Inr ps"
  shows "snd (execute sv root cache request) =
    snd (execute_route sv (remember_parameters sv cache1 (cache_key (rq_method request) p) c ps)
      (cache_key (rq_method request) p) (fd_route node) ps request)"
  using assms by (simp add: execute_def Let_def split_beta)

lemma execute_route_auth_error:
  assumes "sv_controller sv (rt_controller rt) = Inr u"
    and "snd (authenticate (sv_authenticator sv) (sv_providers sv) (route_authenticator (rt_context rt))) = Inl e"
    and "unreadable e = None"
  shows "fst (snd (execute_route sv cache key rt ps request)) =
    snd (answer_error sv (authentication_error sv e) request)"
  using assms by (simp add: execute_route_def Let_def split_beta)

lemma execute_route_denied:
  assumes "sv_controller sv (rt_controller rt) = Inr u"
    and "snd (authenticate (sv_authenticator sv) (sv_providers sv) (route_authenticator (rt_context rt))) = Inr ident"
    and "snd (isAuthorized (sv_guard sv) (route_guards (rt_context rt))) = Inr False"
  shows "fst (snd (execute_route sv cache key rt ps request)) =
    snd (answer_error sv (ForbiddenError ''You are not allowed to access this.'' (sv_stack sv)) request)"
proof -
  obtain effs where "isAuthorized (sv_guard sv) (route_guards (rt_context rt)) = (effs, Inr False)"
    using assms(3) by (cases "isAuthorized (sv_guard sv) (route_guards (rt_context rt))") auto
  then have "run_controller sv cache key rt ps ident request =
      (effs @ [Log Warning ''User not authorized to access this url.''], Inr None, cache)"
    by (simp add: run_controller_def)
  with assms(1,2) show ?thesis by (simp add: execute_route_def Let_def split_beta)
qed

section \<open>A sample application\<close>

text \<open>One guarded route on \<open>/dogs/{id}\<close>, the inputs on which the properties are instantiated.\<close>

definition sample_route :: route where
  "sample_route = \<lparr>rt_controller = ''DogController'', rt_property = ''get'', rt_arguments = [''id''],
     rt_context = JObject [(''@guard'', JArray [JObject [(''guard'', JAtom ''G'')]])]\<rparr>"

definition sample_root :: "route node" where
  "sample_root = PathNode ''/'' (Some 0) [PathNode ''/dogs'' (Some 1)
     [PathNode ''/{id}'' (Some 2) [MethodNode ''GET'' sample_route 3]]]"

definition sample_services :: "bool \<Rightarrow> bool \<Rightarrow> services" where
  "sample_services active allow = \<lparr>
     sv_new_URL = (\<lambda>url base. if base = None then Inl (TypeError ''Invalid URL'') else Inr url),
     sv_digest = (\<lambda>_. Some ''digest''), sv_cache_active = active,
     sv_guard = (\<lambda>_. Inr \<lparr>gi_name = ''G'', gi_isAuthorized = Some (Inr allow), gi_setContext = Some (Inr ())\<rparr>),
     sv_authenticator = (\<lambda>_. Inl (TypeError ''no authenticator'')), sv_providers = [],
     sv_interceptors = None, sv_controller = (\<lambda>_. Inr ()),
     sv_argument = (\<lambda>a request ps ident. case obj_get ps a of Some v \<Rightarrow> Inr v | None \<Rightarrow> Inr ''undefined''),
     sv_call = (\<lambda>c m arguments. Inr (ControllerValue ''ok'')), sv_environment = None, sv_stack = None\<rparr>"

definition sample_request :: request where
  "sample_request = \<lparr>rq_method = ''GET'', rq_url = ''/dogs/7'', rq_host = None, rq_headers = [], rq_body = None\<rparr>"

end
