(* ===== verification/Router_Properties.thy ===== *)
theory Router_Properties
  imports Router
begin

text \<open>
  The properties of the router: what gates the controller method, when a request is answered,
  what the cache may change, and the statuses of refused requests.
\<close>

section \<open>Properties of the router\<close>



text \<open>
  Claim C4. Which requests never get an answer: with a cache that agrees with the tree, the
  promise of \<open>execute\<close> stays pending exactly when the URL of the request cannot be parsed, or
  when a route is found and either the container cannot build its controller, or its
  authentication throws \<open>undefined\<close> or \<open>null\<close>, or the authenticated request makes the guarded
  block (interceptors, arguments, controller method) throw \<open>undefined\<close> or \<open>null\<close>, which the catch blocks
  cannot read a message from. Every other request is settled, and no request hangs for a missing
  route, a refused guard or an error that is an object.
\<close>

theorem execute_hangs_iff:
  assumes "cache_ok root cache"
    and "\<And>p. request_pathname sv request = Inr p \<Longrightarrow> proper_request (rq_method request) p"
  shows "fst (snd (execute sv root cache request)) = NeverSettles \<longleftrightarrow>
    (case request_pathname sv request of
       Inl e \<Rightarrow> True
     | Inr p \<Rightarrow> (case find_node [] root (splitPath p) (rq_method request) of
           None \<Rightarrow> False
         | Some node \<Rightarrow> (case sv_controller sv (rt_controller (fd_route node)) of
               Inl e \<Rightarrow> True
             | Inr u \<Rightarrow> (case snd (authenticate (sv_authenticator sv) (sv_providers sv)
                   (route_authenticator (rt_context (fd_route node)))) of
                 Inl e \<Rightarrow> (\<exists>s. e = NullishErr s)
               | Inr ident \<Rightarrow>
                   (let key = cache_key (rq_method request) p;
                        (effs, c, cache') = find_method_node sv root cache (rq_method request) p
                    in \<exists>ps s. getRouteParameters (fd_ancestors node) (rev (splitPath p)) = Inr ps \<and>
                      fst (snd (run_controller sv (remember_parameters sv cache' key c ps) key
                        (fd_route node) ps ident request)) = Inl (NullishErr s))))))"
proof (cases "request_pathname sv request")
  case (Inl e)
  then show ?thesis by (simp add: execute_def)
next
  case (Inr p)
  obtain effs c cache1 where f: "find_method_node sv root cache (rq_method request) p = (effs, c, cache1)"
    by (cases "find_method_node sv root cache (rq_method request) p") auto
  have ok: "entry_ok root (rq_method request) p c"
    using find_method_node_ok(1) [OF assms(1) assms(2) [OF Inr] f] .
  show ?thesis
  proof (cases "cr_node c")
    case None
    with execute_missing [OF Inr f None] ok answer_error_settles [of sv] show ?thesis
      by (simp add: Inr entry_ok_def)
  next
    case (Some node)
    with ok obtain ps where ps: "route_parameters c node p = Inr ps"
      and gp: "getRouteParameters (fd_ancestors node) (rev (splitPath p)) = Inr ps"
      using route_parameters_ok by blast
    have "find_node [] root (splitPath p) (rq_method request) = Some node"
      using ok Some by (simp add: entry_ok_def)
    then show ?thesis
      using execute_found [OF Inr f Some ps]
      by (simp add: Inr f gp execute_route_settles unreadable_iff Let_def split: sum.splits)
  qed
qed

theorem execute_hangs_iff_witness:
  "fst (snd (execute (sample_services True True\<lparr>sv_controller := \<lambda>_. Inl (TypeError ''unresolvable'')\<rparr>)
     sample_root [] sample_request)) = NeverSettles \<and>
   fst (snd (execute (sample_services False True\<lparr>sv_call := \<lambda>_ _ _. Inl (NullishErr ''undefined'')\<rparr>)
     sample_root [] sample_request)) = NeverSettles"
proof -
  define sv1 sv2 node where "sv1 = sample_services True True\<lparr>sv_controller := \<lambda>_. Inl (TypeError ''unresolvable'')\<rparr>"
    and "sv2 = sample_services False True\<lparr>sv_call := \<lambda>_ _ _. Inl (NullishErr ''undefined'')\<rparr>"
    and "node = \<lparr>fd_method = ''GET'', fd_route = sample_route, fd_level = 3, fd_ancestors = [''/{id}'', ''/dogs'', ''/'']\<rparr>"
  note sample = sv1_def sv2_def node_def
  have path: "request_pathname sv1 sample_request = Inr ''/dogs/7''"
    "request_pathname sv2 sample_request = Inr ''/dogs/7''"
    unfolding sample by code_simp+
  have proper: "proper_request (rq_method sample_request) p"
    if "request_pathname sv1 sample_request = Inr p \<or> request_pathname sv2 sample_request = Inr p" for p
    using that unfolding path by (auto simp: proper_request_def sample_request_def)
  have found: "find_node [] sample_root (splitPath ''/dogs/7'') (rq_method sample_request) = Some node"
    unfolding sample by code_simp
  have ctrl: "sv_controller sv1 (rt_controller (fd_route node)) = Inl (TypeError ''unresolvable'')"
    "sv_controller sv2 (rt_controller (fd_route node)) = Inr ()"
    unfolding sample by code_simp+
  have auth: "snd (authenticate (sv_authenticator sv2) (sv_providers sv2)
      (route_authenticator (rt_context (fd_route node)))) = Inr None"
    unfolding sample by code_simp
  have ps: "getRouteParameters (fd_ancestors node) (rev (splitPath ''/dogs/7'')) = Inr [(''id'', ''7'')]"
    unfolding sample by code_simp
  have entry: "find_method_node sv2 sample_root [] (rq_method sample_request) ''/dogs/7'' =
      (in_span ''router.find.method.router.node'' [], new_CachedRouterRoute (Some node), [])"
    unfolding sample by code_simp
  have thrown: "fst (snd (run_controller sv2 (remember_parameters sv2 []
      (cache_key (rq_method sample_request) ''/dogs/7'') (new_CachedRouterRoute (Some node)) [(''id'', ''7'')])
      (cache_key (rq_method sample_request) ''/dogs/7'') (fd_route node) [(''id'', ''7'')] None sample_request)) =
      Inl (NullishErr ''undefined'')"
    unfolding sample by code_simp
  have "fst (snd (execute sv1 sample_root [] sample_request)) = NeverSettles"
    using execute_hangs_iff [OF cache_ok_Nil, of sv1 sample_request sample_root] proper
    by (simp add: path found ctrl)
  moreover have "fst (snd (execute sv2 sample_root [] sample_request)) = NeverSettles"
    using execute_hangs_iff [OF cache_ok_Nil, of sv2 sample_request sample_root] proper
    by (simp add: path found ctrl auth ps entry thrown)
  ultimately show ?thesis unfolding sample by blast
qed

text \<open>
  The cache never changes what a request is routed to: every request leaves a cache
  whose entries agree with the route tree, so that with such a cache the node and the parameters
  of any lookup are the tree's.
\<close>

theorem execute_keeps_cache:
  assumes "cache_ok root cache"
    and "\<And>p. request_pathname sv request = Inr p \<Longrightarrow> proper_request (rq_method request) p"
  shows "cache_ok root (snd (snd (execute sv root cache request))) \<and>
    (\<forall>m p c f. proper_request m p \<longrightarrow>
       c = fst (snd (find_method_node sv root (snd (snd (execute sv root cache request))) m p)) \<longrightarrow>
       cr_node c = find_node [] root (splitPath p) m \<and>
       (cr_node c = Some f \<longrightarrow>
          route_parameters c f p = getRouteParameters (fd_ancestors f) (rev (splitPath p))))"
proof -
  have keep: "cache_ok root (snd (snd (execute sv root cache request)))"
  proof (cases "request_pathname sv request")
    case (Inl e)
    with assms(1) show ?thesis by (simp add: execute_def)
  next
    case (Inr p)
    obtain effs c cache1 where f: "find_method_node sv root cache (rq_method request) p = (effs, c, cache1)"
      by (cases "find_method_node sv root cache (rq_method request) p") auto
    note pr = assms(2) [OF Inr]
    note ok = find_method_node_ok [OF assms(1) pr f]
    show ?thesis
    proof (cases "cr_node c")
      case None
      with execute_missing [OF Inr f None] ok(2) show ?thesis by simp
    next
      case (Some node)
      with ok(1) obtain ps where ps: "route_parameters c node p = Inr ps"
        using route_parameters_ok by blast
      show ?thesis
        using execute_found [OF Inr f Some ps]
          execute_route_cache_ok [OF remember_parameters_ok [OF ok(2) pr ok(1) Some ps] pr]
        by simp
    qed
  qed
  moreover have "cr_node c = find_node [] root (splitPath p) m \<and>
      (cr_node c = Some f \<longrightarrow> route_parameters c f p = getRouteParameters (fd_ancestors f) (rev (splitPath p)))"
    if "proper_request m p" "find_method_node sv root cache' m p = (effs, c, cache'')" "cache_ok root cache'"
    for m p c f effs cache' cache''
    using find_method_node_ok(1) [OF that(3,1,2)] route_parameters_ok [of root m p c f]
    by (auto simp: entry_ok_def)
  ultimately show ?thesis by (metis prod.collapse)
qed

theorem execute_keeps_cache_witness:
  "cache_ok sample_root (snd (snd (execute (sample_services True True) sample_root [] sample_request)))"
proof -
  have path: "request_pathname (sample_services True True) sample_request = Inr ''/dogs/7''"
    by code_simp
  have "proper_request (rq_method sample_request) p" if "request_pathname (sample_services True True) sample_request = Inr p" for p
    using that unfolding path by (auto simp: proper_request_def sample_request_def)
  from execute_keeps_cache [OF cache_ok_Nil this] show ?thesis by blast
qed

text \<open>
  The statuses of refused requests when no interceptor is registered: no matching
  route is answered with 404, a failing authentication with 401 or 403
  (unless what it throws is \<open>undefined\<close> or \<open>null\<close>), and a request that the
  guards deny with 403; the response carries the request.
\<close>

theorem refused_request_statuses:
  assumes "sv_interceptors sv = None" and "request_pathname sv request = Inr p"
    and "sv_cache_active sv = False"
  shows "case find_node [] root (splitPath p) (rq_method request) of
      None \<Rightarrow> \<exists>r. fst (snd (execute sv root cache request)) = Fulfilled r \<and> rp_status r = 404 \<and>
        rp_request r = Some request
    | Some node \<Rightarrow> (\<forall>u. sv_controller sv (rt_controller (fd_route node)) = Inr u \<longrightarrow>
        (case snd (authenticate (sv_authenticator sv) (sv_providers sv)
            (route_authenticator (rt_context (fd_route node)))) of
          Inl e \<Rightarrow> unreadable e = None \<longrightarrow> (\<exists>r. fst (snd (execute sv root cache request)) = Fulfilled r \<and>
            rp_status r \<in> {401, 403} \<and> rp_request r = Some request)
        | Inr ident \<Rightarrow>
            snd (isAuthorized (sv_guard sv) (route_guards (rt_context (fd_route node)))) = Inr False \<longrightarrow>
            (\<exists>r. fst (snd (execute sv root cache request)) = Fulfilled r \<and> rp_status r = 403 \<and>
              rp_request r = Some request)))"
proof -
  have answer: "snd (answer_error sv e request) = Fulfilled (error_response (sv_environment sv) (sv_stack sv) e request)" for e
    by (simp add: answer_error_def executeErrorResponseInterceptors_def executeResponseInterceptors_def
        run_interceptors_def assms(1) Let_def)
  have status: "rp_status (error_response raw stk e request) = st \<and> rp_request (error_response raw stk e request) = Some request"
    if "is_pristine e" "http_status e = Some st" for e st raw stk
    using that by (cases e) (simp_all add: error_response_def respond_def Let_def new_Response_def
        is_pristine_def http_status_def PristineError_from_def)
  have auth: "\<exists>st \<in> {401, 403}. is_pristine (authentication_error sv e) \<and> http_status (authentication_error sv e) = Some st" for e
    by (auto simp: authentication_error_def typed_auth_error_def UnauthorizedError_def new_PristineError_def
        is_pristine_def http_status_def)
  have nf: "is_pristine (not_found_error sv m q) \<and> http_status (not_found_error sv m q) = Some 404" for m q
    by (simp add: not_found_error_def NotFoundError_def new_PristineError_def is_pristine_def http_status_def)
  have fb: "is_pristine (ForbiddenError m stk) \<and> http_status (ForbiddenError m stk) = Some 403" for m stk
    by (simp add: ForbiddenError_def new_PristineError_def is_pristine_def http_status_def)
  let ?node = "find_node [] root (splitPath p) (rq_method request)"
  have find: "find_method_node sv root cache (rq_method request) p =
      (in_span ''router.find.method.router.node'' [], new_CachedRouterRoute ?node, cache)"
    by (simp add: find_method_node_def cache_get_def cache_set_def assms(3) Let_def)
  show ?thesis
  proof (cases ?node)
    case None
    then show ?thesis
      using status nf execute_missing [OF assms(2) find]
      by (simp add: new_CachedRouterRoute_def answer)
  next
    case (Some node)
    obtain ps where ps: "route_parameters (new_CachedRouterRoute ?node) node p = Inr ps"
      using route_parameters_ok [OF entry_ok_new, of root p "rq_method request" node] Some
      by (auto simp: new_CachedRouterRoute_def)
    have run: "fst (snd (execute sv root cache request)) = fst (snd (execute_route sv cache
        (cache_key (rq_method request) p) (fd_route node) ps request))"
      using execute_found [OF assms(2) find _ ps] Some
      by (simp add: remember_parameters_def assms(3) new_CachedRouterRoute_def)
    show ?thesis
    proof (cases "snd (authenticate (sv_authenticator sv) (sv_providers sv)
        (route_authenticator (rt_context (fd_route node))))")
      case (Inl e)
      have "rp_status (error_response (sv_environment sv) (sv_stack sv) (authentication_error sv e) request) \<in> {401, 403} \<and>
          rp_request (error_response (sv_environment sv) (sv_stack sv) (authentication_error sv e) request) = Some request"
        using auth [of e] status by blast
      then show ?thesis
        using Some Inl execute_route_auth_error [OF _ Inl] by (simp add: run answer)
    next
      case (Inr ident)
      then show ?thesis
        using Some status fb execute_route_denied [OF _ Inr] by (simp add: run answer)
    qed
  qed
qed

theorem refused_request_statuses_witness:
  "\<exists>r. fst (snd (execute (sample_services False False) sample_root [] sample_request)) = Fulfilled r \<and> rp_status r = 403"
proof -
  let ?sv = "sample_services False False"
  have path: "request_pathname ?sv sample_request = Inr ''/dogs/7''" by code_simp
  have found: "find_node [] sample_root (splitPath ''/dogs/7'') (rq_method sample_request) =
      Some \<lparr>fd_method = ''GET'', fd_route = sample_route, fd_level = 3, fd_ancestors = [''/{id}'', ''/dogs'', ''/'']\<rparr>"
    by code_simp
  have ctrl: "sv_controller ?sv (rt_controller sample_route) = Inr ()" by code_simp
  have auth: "snd (authenticate (sv_authenticator ?sv) (sv_providers ?sv)
      (route_authenticator (rt_context sample_route))) = Inr None"
    by code_simp
  have denied: "snd (isAuthorized (sv_guard ?sv) (route_guards (rt_context sample_route))) = Inr False"
    by code_simp
  have none: "sv_interceptors ?sv = None" "sv_cache_active ?sv = False" by (simp_all add: sample_services_def)
  show ?thesis
    using refused_request_statuses [OF none(1) path none(2), of sample_root "[]"]
    by (auto simp: found ctrl auth denied)
qed

text \<open>
  With the router cache active, a request whose URL is not absolute never reaches its
  controller: the cache hashes the request by parsing its URL without a base, the parse error is
  caught as any failure, and a request that was authorized is answered with 500.
\<close>

theorem active_cache_needs_absolute_url:
  assumes "cache_ok root cache" and "proper_request (rq_method request) p"
    and "sv_cache_active sv" and "sv_interceptors sv = None"
    and "request_pathname sv request = Inr p"
    and "sv_new_URL sv (rq_url request) None = Inl (NativeErr nm msg stk cause)"
    and "find_node [] root (splitPath p) (rq_method request) = Some node"
    and "sv_controller sv (rt_controller (fd_route node)) = Inr u"
    and "snd (authenticate (sv_authenticator sv) (sv_providers sv)
      (route_authenticator (rt_context (fd_route node)))) = Inr ident"
    and "snd (isAuthorized (sv_guard sv) (route_guards (rt_context (fd_route node)))) = Inr True"
  shows "\<exists>r. fst (snd (execute sv root cache request)) = Fulfilled r \<and> rp_status r = 500"
proof -
  let ?key = "cache_key (rq_method request) p"
  let ?e = "NativeErr nm msg stk cause"
  obtain effs c cache1 where f: "find_method_node sv root cache (rq_method request) p = (effs, c, cache1)"
    by (cases "find_method_node sv root cache (rq_method request) p") auto
  note ok = find_method_node_ok [OF assms(1,2) f]
  have node: "cr_node c = Some node" using ok(1) assms(7) by (simp add: entry_ok_def)
  obtain ps where ps: "route_parameters c node p = Inr ps"
    using route_parameters_ok [OF ok(1) node] by blast
  let ?cache = "remember_parameters sv cache1 ?key c ps"
  have "obj_get ?cache ?key \<noteq> None"
    using ok(3) [OF assms(3)] by (simp add: remember_parameters_def obj_get_set)
  then have arguments: "controller_arguments sv ?cache ?key rt ps ident request = Inl ?e" for rt
    using assms(3,6) by (auto simp: controller_arguments_def getCachedControllerMethodArguments_def hashRequest_def)
  obtain aeffs where auth: "isAuthorized (sv_guard sv) (route_guards (rt_context (fd_route node))) = (aeffs, Inr True)"
    using assms(10) by (cases "isAuthorized (sv_guard sv) (route_guards (rt_context (fd_route node)))") auto
  have "fst (snd (run_controller sv ?cache ?key (fd_route node) ps ident request)) = Inl ?e"
    by (simp add: run_controller_def auth Let_def executeRequestInterceptors_def run_interceptors_def
        assms(4) arguments)
  then have "fst (snd (execute_route sv ?cache ?key (fd_route node) ps request)) = snd (answer_error sv ?e request)"
    using assms(8,9) by (simp add: execute_route_def Let_def split_beta unreadable_def)
  moreover have "snd (answer_error sv ?e request) =
      Fulfilled (error_response (sv_environment sv) (sv_stack sv) ?e request)"
    by (simp add: answer_error_def executeErrorResponseInterceptors_def executeResponseInterceptors_def
        run_interceptors_def assms(4) Let_def)
  moreover have "rp_status (error_response (sv_environment sv) (sv_stack sv) ?e request) = 500"
    by (simp add: error_response_def respond_def Let_def new_Response_def PristineError_from_def new_PristineError_def)
  ultimately show ?thesis using execute_found [OF assms(5) f node ps] by simp
qed

theorem active_cache_needs_absolute_url_witness:
  "\<exists>r. fst (snd (execute (sample_services True True) sample_root [] sample_request)) = Fulfilled r \<and> rp_status r = 500"
proof (rule active_cache_needs_absolute_url [OF cache_ok_Nil])
  show "proper_request (rq_method sample_request) ''/dogs/7''"
    by (simp add: proper_request_def sample_request_def)
  show "find_node [] sample_root (splitPath ''/dogs/7'') (rq_method sample_request) =
      Some \<lparr>fd_method = ''GET'', fd_route = sample_route, fd_level = 3, fd_ancestors = [''/{id}'', ''/dogs'', ''/'']\<rparr>"
    by code_simp
  show "request_pathname (sample_services True True) sample_request = Inr ''/dogs/7''" by code_simp
  show "snd (authenticate (sv_authenticator (sample_services True True)) (sv_providers (sample_services True True))
      (route_authenticator (rt_context (fd_route \<lparr>fd_method = ''GET'', fd_route = sample_route, fd_level = 3,
         fd_ancestors = [''/{id}'', ''/dogs'', ''/'']\<rparr>)))) = Inr None"
    by code_simp
  show "snd (isAuthorized (sv_guard (sample_services True True)) (route_guards (rt_context (fd_route
      \<lparr>fd_method = ''GET'', fd_route = sample_route, fd_level = 3, fd_ancestors = [''/{id}'', ''/dogs'', ''/'']\<rparr>)))) = Inr True"
    by code_simp
qed (simp_all add: sample_services_def TypeError_def)

section \<open>Properties of the setup\<close>

lemma drop_trailing_slash_kept: "s \<noteq> [] \<Longrightarrow> last s \<noteq> CHR ''/'' \<Longrightarrow> drop_trailing_slash s = s"
  by (cases s rule: rev_cases) (auto simp: drop_trailing_slash_def ends_with_def)

lemma drop_trailing_slash_dropped: "drop_trailing_slash (s @ ''/'') = s"
  by (simp add: drop_trailing_slash_def ends_with_def)

lemma joined_segments:
  assumes "segs \<noteq> []" and "list_all (\<lambda>u. u \<noteq> [] \<and> CHR ''/'' \<notin> set u) segs"
  shows "join ''/'' segs \<noteq> [] \<and> last (join ''/'' segs) \<noteq> CHR ''/'' \<and> hd (join ''/'' segs) \<noteq> CHR ''/''"
proof -
  have "last segs \<in> set segs" and "hd segs \<in> set segs" using assms(1) by simp_all
  then have l: "last segs \<noteq> []" "CHR ''/'' \<notin> set (last segs)" and h: "hd segs \<noteq> []" "CHR ''/'' \<notin> set (hd segs)"
    using assms(2) by (simp_all add: list_all_iff)
  have "last (last segs) \<noteq> CHR ''/''" and "hd (hd segs) \<noteq> CHR ''/''"
    using l h last_in_set [of "last segs"] hd_in_set [of "hd segs"] by metis+
  with join_last [OF assms(1) l(1), of "''/''"] join_hd [OF assms(1) h(1), of "''/''"] show ?thesis
    by simp
qed

text \<open>
  Setup makes the path of a route from the controller's and the method's whatever
  slashes surround them: a trailing slash of the base, a leading and a trailing slash of the
  path change nothing, and the registered segments are those of the base followed by those of
  the path.
\<close>

theorem route_path_segments:
  assumes "base \<noteq> []" and "path \<noteq> []"
    and "list_all (\<lambda>u. u \<noteq> [] \<and> CHR ''/'' \<notin> set u) (base @ path)"
    and "before \<in> {[], ''/''}" and "after \<in> {[], ''/''}" and "after' \<in> {[], ''/''}"
  shows "splitPath (route_path (Some (''/'' @ join ''/'' base @ after)) (before @ join ''/'' path @ after')) =
    ''/'' # map (\<lambda>u. ''/'' @ u) (base @ path)"
proof -
  have pre: "starts_with (before @ join ''/'' path @ after') ''/'' \<longleftrightarrow> before = ''/''"
    using assms(4) joined_segments [OF assms(2)] assms(3)
    by (cases "join ''/'' path") (auto simp: starts_with_def)
  have last: "drop_trailing_slash (s @ after) = s" if "s \<noteq> []" "last s \<noteq> CHR ''/''" "after \<in> {[], ''/''}" for s after
    using that drop_trailing_slash_kept [of s] drop_trailing_slash_dropped [of s] by auto
  have b: "join ''/'' base \<noteq> []" "last (join ''/'' base) \<noteq> CHR ''/''"
    and q: "join ''/'' path \<noteq> []" "last (join ''/'' path) \<noteq> CHR ''/''"
    using joined_segments [OF assms(1)] joined_segments [OF assms(2)] assms(3) by simp_all
  have "drop_trailing_slash ((''/'' @ join ''/'' base) @ after) = ''/'' @ join ''/'' base"
    using last [OF _ _ assms(5), of "''/'' @ join ''/'' base"] b by simp
  moreover have "drop_trailing_slash (if before = ''/'' then drop 1 (before @ join ''/'' path @ after')
      else before @ join ''/'' path @ after') = join ''/'' path"
    using last [OF q assms(6)] assms(4) by auto
  ultimately have "route_path (Some (''/'' @ join ''/'' base @ after)) (before @ join ''/'' path @ after') =
      ''/'' @ join ''/'' (base @ path)"
    using join_append [OF assms(1,2), of "''/''"] by (simp add: route_path_def Let_def pre)
  then show ?thesis using splitPath_join [of "base @ path"] assms(1,3) by simp
qed

theorem route_path_segments_witness:
  "splitPath (route_path (Some ''/api/2.0/'') ''/dogs/{id}'') = [''/'', ''/api'', ''/2.0'', ''/dogs'', ''/{id}'']"
  using route_path_segments [of "[''api'', ''2.0'']" "[''dogs'', ''{id}'']" "''/''" "''/''" "[]"] by simp

text \<open>
  A guard of the controller class does not protect a method that carries a guard of its
  own: both contexts list their guards as arrays, the merge of the two arrays is by index, and
  the route is authorized by the method's guard alone, although the guide says that both run.
\<close>

theorem class_guard_is_lost:
  "snd (isAuthorized resolve (route_guards (rt_context (build_route
      (c\<lparr>cd_context := JObject [(''@guard'', JArray [JObject
          [(''constructorName'', JAtom n), (''guard'', JAtom classGuard), (''options'', classOptions)]])]\<rparr>)
      (d\<lparr>rd_context := JObject [(''@guard'', JArray [JObject
          [(''constructorName'', JAtom m), (''guard'', JAtom methodGuard), (''options'', methodOptions)]])]\<rparr>))))) =
   snd (isAuthorized resolve (Some [GuardClass methodGuard]))"
proof -
  have keys: "\<not> is_index_key ''@guard''" "\<not> is_index_key ''constructorName''"
    "\<not> is_index_key ''guard''" "\<not> is_index_key ''options''"
    by (simp_all add: is_index_key_def is_digit_def)
  show ?thesis
    by (simp add: build_route_def deepMerge_def mergeInto_def own_properties_def entries_def keys
        route_guards_def token_of_def property_def element_def set_element_def)
qed

end
