(* ===== verification/Configuration.thy ===== *)
theory Configuration
  imports Pristine_Errors
begin

text \<open>
  The configuration package: the value resolvers, \<open>ConfigurationParser\<close> and
  \<open>ConfigurationManager\<close>. The number type and the conversion \<open>+value\<close> of a string are
  parameters (\<open>None\<close> is NaN). A promise is represented by what it settles to, a resolver object
  by what its \<open>resolve\<close> answers; the container's \<open>resolve\<close> and the configuration file that was
  loaded are arguments. The container's registrations of instances are kept in order, the last
  one of a token being the one it resolves.
\<close>

section \<open>Values and resolvers\<close>

datatype 'n scalar = SBool bool | SNum 'n | SStr string

datatype 'n rvalue = RScalar "'n scalar" | RResolver "thrown + 'n rvalue" | ROther

definition ConfigurationResolverError :: "string \<Rightarrow> thrown" where
  "ConfigurationResolverError message =
     new_PristineError ''ConfigurationResolverError'' message None None None (Some ''value'') None None"

definition ConfigurationValidationError :: "string list \<Rightarrow> thrown" where
  "ConfigurationValidationError messages =
     new_PristineError ''ConfigurationValidationError'' (join [CHR 0x0A] messages) None None None None None None"

definition boolean_resolveString :: "string \<Rightarrow> thrown + bool" where
  "boolean_resolveString value =
     (let normalizedValue = to_lower value in
      if normalizedValue = ''true'' \<or> normalizedValue = ''1'' then Inr True
      else if normalizedValue = ''false'' \<or> normalizedValue = ''0'' then Inr False
      else Inl (ConfigurationResolverError ''Cannot convert the string to a boolean.''))"

definition boolean_resolveNumber :: "'n::zero_neq_one \<Rightarrow> thrown + bool" where
  "boolean_resolveNumber value =
     (if value = 0 then Inr False else if value = 1 then Inr True
      else Inl (ConfigurationResolverError ''Cannot convert the number to a boolean.''))"

fun boolean_resolve :: "'n::zero_neq_one rvalue \<Rightarrow> thrown + bool" where
  "boolean_resolve (RScalar (SBool b)) = Inr b"
| "boolean_resolve (RScalar (SStr s)) = boolean_resolveString s"
| "boolean_resolve (RScalar (SNum n)) = boolean_resolveNumber n"
| "boolean_resolve (RResolver (Inl e)) = Inl e"
| "boolean_resolve (RResolver (Inr v)) = boolean_resolve v"
| "boolean_resolve ROther = Inl (ConfigurationResolverError
     ''Cannot resolve the value passed. It isn't of type boolean, string, number or ResolverInterface.'')"

definition number_resolveString :: "(string \<Rightarrow> 'n option) \<Rightarrow> string \<Rightarrow> thrown + 'n" where
  "number_resolveString to_number value =
     (case to_number value of
        Some n \<Rightarrow> Inr n
      | None \<Rightarrow> Inl (ConfigurationResolverError ''Cannot convert the string to a number.''))"

definition number_resolveBoolean :: "bool \<Rightarrow> 'n::zero_neq_one" where
  "number_resolveBoolean value = (if \<not> value then 0 else 1)"

fun number_resolve :: "(string \<Rightarrow> 'n option) \<Rightarrow> 'n::zero_neq_one rvalue \<Rightarrow> thrown + 'n" where
  "number_resolve to_number (RScalar (SNum n)) = Inr n"
| "number_resolve to_number (RScalar (SStr s)) = number_resolveString to_number s"
| "number_resolve to_number (RScalar (SBool b)) = Inr (number_resolveBoolean b)"
| "number_resolve to_number (RResolver (Inl e)) = Inl e"
| "number_resolve to_number (RResolver (Inr v)) = number_resolve to_number v"
| "number_resolve to_number ROther = Inl (ConfigurationResolverError
     ''Cannot resolve the value passed. It isn't of type boolean, string, number or ResolverInterface.'')"

text \<open>An enum class is the object with its keys and values (and reverse keys when numeric).\<close>

definition enum_resolveString :: "(string \<Rightarrow> 'n option) \<Rightarrow> 'n scalar obj \<Rightarrow> string \<Rightarrow> thrown + 'n scalar" where
  "enum_resolveString to_number enumClass value =
     (let keys = filter (\<lambda>k. to_number k = None) (obj_keys enumClass) in
      case find (\<lambda>k. to_lower k = to_lower value \<or> obj_get enumClass k = Some (SStr value)) keys of
        Some k \<Rightarrow> Inr (the (obj_get enumClass k))
      | None \<Rightarrow> Inl (ConfigurationResolverError ''Cannot convert the string to a key of the enum.''))"

definition enum_resolveNumber :: "'n scalar obj \<Rightarrow> 'n \<Rightarrow> thrown + 'n scalar" where
  "enum_resolveNumber enumClass value =
     (case find (\<lambda>k. obj_get enumClass k = Some (SNum value)) (obj_keys enumClass) of
        Some k \<Rightarrow> Inr (the (obj_get enumClass k))
      | None \<Rightarrow> Inl (ConfigurationResolverError ''Cannot convert the number to a value of the enum.''))"

text \<open>\<open>+value\<close> turns a boolean into 0 or 1 and a numeric string into its number first.\<close>

fun enum_resolve :: "(string \<Rightarrow> 'n option) \<Rightarrow> 'n scalar obj \<Rightarrow> 'n::zero_neq_one rvalue \<Rightarrow> thrown + 'n scalar" where
  "enum_resolve to_number enumClass (RScalar (SNum n)) = enum_resolveNumber enumClass n"
| "enum_resolve to_number enumClass (RScalar (SBool b)) = enum_resolveNumber enumClass (number_resolveBoolean b)"
| "enum_resolve to_number enumClass (RScalar (SStr s)) =
     (case to_number s of
        Some n \<Rightarrow> enum_resolveNumber enumClass n
      | None \<Rightarrow> enum_resolveString to_number enumClass s)"
| "enum_resolve to_number enumClass (RResolver (Inl e)) = Inl e"
| "enum_resolve to_number enumClass (RResolver (Inr v)) = enum_resolve to_number enumClass v"
| "enum_resolve to_number enumClass ROther = Inl (ConfigurationResolverError
     ''Cannot resolve the value passed. It isn't of type string, number or ResolverInterface.'')"

definition environment_variable_resolve :: "(string \<Rightarrow> string option) \<Rightarrow> string \<Rightarrow> thrown + string" where
  "environment_variable_resolve environment name =
     (case environment name of
        None \<Rightarrow> Inl (ConfigurationResolverError (''Cannot find the environment variable: '' @ quoted name @ ''.''))
      | Some v \<Rightarrow> Inr v)"

section \<open>The parser\<close>

datatype 'n setting =
    SettingScalar "'n scalar"
  | SettingRejected thrown
  | SettingDynamic "string option" "string option \<Rightarrow> thrown + 'n scalar"
  | SettingResolver "thrown + 'n scalar"
  | SettingNull
  | SettingUnsupported string

fun parse_setting :: "(string \<Rightarrow> thrown + string) \<Rightarrow> 'n setting \<Rightarrow> thrown + 'n scalar" where
  "parse_setting resolve (SettingScalar s) = Inr s"
| "parse_setting resolve (SettingRejected e) = Inl e"
| "parse_setting resolve (SettingDynamic token dynamicResolve) =
     sum_bind (case token of None \<Rightarrow> Inr None | Some t \<Rightarrow> sum_bind (resolve t) (\<lambda>i. Inr (Some i))) dynamicResolve"
| "parse_setting resolve (SettingResolver r) = r"
| "parse_setting resolve SettingNull =
     Inl (NativeErr ''TypeError'' ''Cannot read properties of null (reading 'dynamicResolve')'' None None)"
| "parse_setting resolve (SettingUnsupported t) =
     Inl (ConfigurationValidationError [''The configuration value passed contains an unsupported type. Unsupported type: '' @ quoted t])"

section \<open>The configuration manager\<close>

record 'n definition_entry =
  de_parameterName :: string
  de_isRequired :: bool
  de_defaultValue :: "'n setting"
  de_defaultResolvers :: "'n setting list option"

record 'n manager =
  mg_definitions :: "'n definition_entry obj"
  mg_registered :: "(string \<times> 'n scalar) list"

definition registered_value :: "'n manager \<Rightarrow> string \<Rightarrow> 'n scalar option" where
  "registered_value mg key = map_of (rev (mg_registered mg)) (''%'' @ key @ ''%'')"

definition register_definition :: "'n definition_entry \<Rightarrow> 'n manager \<Rightarrow> thrown + 'n manager" where
  "register_definition d mg =
     (if obj_has (mg_definitions mg) (de_parameterName d) then
        Inl (new_PristineError ''ConfigurationDefinitionAlreadyExistsError''
          ''There is already a configuration definition registered for this parameter name.''
          None None None (Some (de_parameterName d)) None None)
      else Inr (mg\<lparr>mg_definitions := obj_set (de_parameterName d) d (mg_definitions mg)\<rparr>))"

definition registerConfigurationValue :: "string \<Rightarrow> 'n scalar \<Rightarrow> 'n manager \<Rightarrow> 'n manager" where
  "registerConfigurationValue key v mg = mg\<lparr>mg_registered := mg_registered mg @ [(''%'' @ key @ ''%'', v)]\<rparr>"

text \<open>What \<open>readFileConfigSafely\<close> makes of the loaded file: the load's failure, no file, its block.\<close>

datatype 'n file_block = NoBlock | PlainBlock "'n setting obj" | OtherBlock

definition readFileConfigSafely :: "thrown + 'n file_block option \<Rightarrow> effect list \<times> 'n setting obj" where
  "readFileConfigSafely loaded =
     (case loaded of
        Inl e \<Rightarrow> ([Log Warning (''[pristine] WARNING: Failed to load pristine.config.ts for runtime configuration: '' @
           message_or ''undefined'' e @ [CHR 0x0A] @ ''Continuing without file-based configuration overrides.'')], [])
      | Inr None \<Rightarrow> ([], [])
      | Inr (Some NoBlock) \<Rightarrow> ([], [])
      | Inr (Some (PlainBlock ob)) \<Rightarrow> ([], ob)
      | Inr (Some OtherBlock) \<Rightarrow>
          ([Log Warning ''[pristine] WARNING: pristine.config.ts:config is not a plain object. Ignoring file-based configuration overrides.''], []))"

definition merge_layer :: "'n setting obj \<Rightarrow> 'n setting obj \<Rightarrow> 'n setting obj" where
  "merge_layer merged layer = foldl (\<lambda>ob k. obj_set k (the (obj_get layer k)) ob) merged (obj_keys layer)"

definition merge_layers :: "'n setting obj \<Rightarrow> 'n setting obj \<Rightarrow> 'n setting obj \<Rightarrow> 'n setting obj" where
  "merge_layers configDefaults fileConfig overrides = merge_layer (merge_layer (merge_layer [] configDefaults) fileConfig) overrides"

definition shadow_warning :: "string \<Rightarrow> effect" where
  "shadow_warning k = Log Warning (join [CHR 0x0A]
     [''[pristine] WARNING: Configuration key '' @ quoted k @ '' is set in BOTH:'',
      ''  - the explicit overrides passed to kernel.start()'', ''  - pristine.config.ts:config'',
      ''Using the value from the explicit overrides. Set the key in only one place to silence this warning.''])"

definition shadow_warnings :: "'n setting obj \<Rightarrow> 'n setting obj \<Rightarrow> effect list" where
  "shadow_warnings fileConfig overrides = map shadow_warning
     (filter (obj_has fileConfig) (obj_keys overrides))"

definition unknown_key_message :: "string \<Rightarrow> string" where
  "unknown_key_message key =
     ''There are no ConfigurationDefinition in any of the modules for the following key: '' @ quoted key @ ''.''"

definition required_key_message :: "string \<Rightarrow> string" where
  "required_key_message key = ''The Configuration with key: '' @ quoted key @ '' is required and must be defined.''"

fun load_explicit ::
  "(string \<Rightarrow> thrown + string) \<Rightarrow> 'n setting obj \<Rightarrow> string list \<Rightarrow> string list \<Rightarrow> 'n manager \<Rightarrow>
   (thrown + string list) \<times> 'n manager" where
  "load_explicit resolve merged [] errors mg = (Inr errors, mg)"
| "load_explicit resolve merged (key # keys) errors mg =
     (if \<not> obj_has (mg_definitions mg) key then
        load_explicit resolve merged keys (errors @ [unknown_key_message key]) mg
      else case parse_setting resolve (the (obj_get merged key)) of
        Inl e \<Rightarrow> (Inl e, mg)
      | Inr v \<Rightarrow>
          (let mg = registerConfigurationValue key v mg in
           load_explicit resolve merged keys errors
             (mg\<lparr>mg_definitions := obj_delete key (mg_definitions mg)\<rparr>)))"

fun first_resolved :: "(string \<Rightarrow> thrown + string) \<Rightarrow> 'n setting list \<Rightarrow> 'n scalar option" where
  "first_resolved resolve [] = None"
| "first_resolved resolve (r # rs) =
     (case parse_setting resolve r of Inr v \<Rightarrow> Some v | Inl _ \<Rightarrow> first_resolved resolve rs)"

fun load_defaults ::
  "(string \<Rightarrow> thrown + string) \<Rightarrow> string list \<Rightarrow> string list \<Rightarrow> 'n manager \<Rightarrow> (thrown + string list) \<times> 'n manager" where
  "load_defaults resolve [] errors mg = (Inr errors, mg)"
| "load_defaults resolve (key # keys) errors mg =
     (let d = the (obj_get (mg_definitions mg) key) in
      case (case de_defaultResolvers d of Some rs \<Rightarrow> first_resolved resolve rs | None \<Rightarrow> None) of
        Some v \<Rightarrow> load_defaults resolve keys errors (registerConfigurationValue key v mg)
      | None \<Rightarrow>
          if de_isRequired d then
            load_defaults resolve keys (errors @ [required_key_message key]) mg
          else case parse_setting resolve (de_defaultValue d) of
            Inl e \<Rightarrow> (Inl e, mg)
          | Inr v \<Rightarrow> load_defaults resolve keys errors (registerConfigurationValue key v mg))"

definition load ::
  "(string \<Rightarrow> thrown + string) \<Rightarrow> thrown + 'n file_block option \<Rightarrow> 'n setting obj \<Rightarrow> 'n setting obj \<Rightarrow> 'n manager \<Rightarrow>
   effect list \<times> (thrown + unit) \<times> 'n manager" where
  "load resolve loaded overrides configDefaults mg =
     (let (effs, fileConfig) = readFileConfigSafely loaded;
          effs = effs @ shadow_warnings fileConfig overrides;
          merged = merge_layers configDefaults fileConfig overrides in
      case load_explicit resolve merged (obj_keys merged) [] mg of
        (Inl e, mg) \<Rightarrow> (effs, Inl e, mg)
      | (Inr errors, mg) \<Rightarrow>
          (case load_defaults resolve (obj_keys (mg_definitions mg)) errors mg of
             (Inl e, mg) \<Rightarrow> (effs, Inl e, mg)
           | (Inr errors, mg) \<Rightarrow>
               if errors \<noteq> [] then (effs, Inl (ConfigurationValidationError errors), mg)
               else (effs, Inr (), mg\<lparr>mg_definitions := []\<rparr>)))"

definition is_undefined :: "'n setting \<Rightarrow> bool" where
  "is_undefined s = (case s of SettingUnsupported t \<Rightarrow> t = ''undefined'' | _ \<Rightarrow> False)"

definition getMissingRequiredParameters :: "'n setting obj \<Rightarrow> 'n manager \<Rightarrow> (string \<times> bool) list" where
  "getMissingRequiredParameters overrides mg =
     List.map_filter (\<lambda>key.
       let d = the (obj_get (mg_definitions mg) key) in
       if \<not> de_isRequired d then None
       else if obj_has overrides key \<and> \<not> is_undefined (the (obj_get overrides key)) then None
       else Some (key, case de_defaultResolvers d of Some rs \<Rightarrow> rs \<noteq> [] | None \<Rightarrow> False))
     (obj_keys (mg_definitions mg))"

section \<open>Lemmas\<close>

lemma registered_value_register [simp]:
  "registered_value (registerConfigurationValue k v mg) k' = (if k' = k then Some v else registered_value mg k')"
  by (auto simp: registered_value_def registerConfigurationValue_def)

lemma registered_value_definitions [simp]:
  "registered_value (mg\<lparr>mg_definitions := ds\<rparr>) k = registered_value mg k"
  by (simp add: registered_value_def)

lemma definitions_register [simp]: "mg_definitions (registerConfigurationValue k v mg) = mg_definitions mg"
  by (simp add: registerConfigurationValue_def)

lemma obj_get_merge_layer: "obj_get (merge_layer base layer) k =
    (case obj_get layer k of Some s \<Rightarrow> Some s | None \<Rightarrow> obj_get base k)"
  using objd.keys_get [of k layer] unfolding merge_layer_def objd.get_layer
  by (auto split: option.splits)

lemma obj_get_merge_layers: "obj_get (merge_layers configDefaults fileConfig overrides) k =
    (case obj_get overrides k of Some s \<Rightarrow> Some s
     | None \<Rightarrow> (case obj_get fileConfig k of Some s \<Rightarrow> Some s | None \<Rightarrow> obj_get configDefaults k))"
  by (simp add: merge_layers_def obj_get_merge_layer split: option.splits)

lemma wf_merge_layer: "wf_obj base \<Longrightarrow> wf_obj (merge_layer base layer)"
proof -
  have "wf_obj base \<Longrightarrow> wf_obj (foldl (\<lambda>ob k. obj_set k (f k) ob) base ks)" for f ks
    by (induction ks arbitrary: base) simp_all
  then show "wf_obj base \<Longrightarrow> wf_obj (merge_layer base layer)" by (simp add: merge_layer_def)
qed

lemma wf_merge_layers [simp]: "wf_obj (merge_layers configDefaults fileConfig overrides)"
  by (simp add: merge_layers_def wf_merge_layer)

text \<open>What a setting or a definition without explicit value resolves to, if it does.\<close>

definition parsed :: "(string \<Rightarrow> thrown + string) \<Rightarrow> 'n setting \<Rightarrow> 'n scalar option" where
  "parsed resolve s = (case parse_setting resolve s of Inr v \<Rightarrow> Some v | Inl _ \<Rightarrow> None)"

definition by_resolvers :: "(string \<Rightarrow> thrown + string) \<Rightarrow> 'n definition_entry \<Rightarrow> 'n scalar option" where
  "by_resolvers resolve d = (case de_defaultResolvers d of Some rs \<Rightarrow> first_resolved resolve rs | None \<Rightarrow> None)"

definition fallback :: "(string \<Rightarrow> thrown + string) \<Rightarrow> 'n definition_entry \<Rightarrow> 'n scalar option" where
  "fallback resolve d = (case by_resolvers resolve d of
     Some v \<Rightarrow> Some v
   | None \<Rightarrow> if de_isRequired d then None else parsed resolve (de_defaultValue d))"

lemma parsed_Some: "parsed resolve s = Some v \<longleftrightarrow> parse_setting resolve s = Inr v"
  by (auto simp: parsed_def split: sum.splits)

lemma obj_has_delete: "obj_has (obj_delete key ob) k \<longleftrightarrow> k \<noteq> key \<and> obj_has ob k"
  by (auto simp: obj_has_def delete_conv')

lemma obj_get_deletes: "obj_get (foldl (\<lambda>ob k. obj_delete k ob) ob ks) k = (if k \<in> set ks then None else obj_get ob k)"
  by (induction ks arbitrary: ob) (auto simp: delete_conv')

lemma wf_obj_deletes: "wf_obj ob \<Longrightarrow> wf_obj (foldl (\<lambda>ob k. obj_delete k ob) ob ks)"
  by (induction ks arbitrary: ob) simp_all

lemma load_explicit_parses:
  assumes "fst (load_explicit resolve merged keys errors mg) = Inr errors'" and "distinct keys"
    and "k \<in> set keys" and "obj_has (mg_definitions mg) k"
  shows "parsed resolve (the (obj_get merged k)) \<noteq> None"
  using assms
proof (induction keys arbitrary: errors mg)
  case (Cons key keys)
  show ?case
  proof (cases "obj_has (mg_definitions mg) key")
    case False
    with Cons show ?thesis by auto
  next
    case True
    with Cons.prems(1) obtain v where v: "parse_setting resolve (the (obj_get merged key)) = Inr v"
      by (auto split: sum.splits)
    show ?thesis
    proof (cases "k = key")
      case True
      with v show ?thesis by (simp add: parsed_def)
    next
      case False
      let ?mg = "(registerConfigurationValue key v mg)\<lparr>mg_definitions := obj_delete key (mg_definitions mg)\<rparr>"
      have "fst (load_explicit resolve merged keys errors ?mg) = Inr errors'"
        using Cons.prems(1) True v by (simp add: Let_def)
      then show ?thesis
        using Cons.IH [of errors ?mg] Cons.prems False by (auto simp: obj_has_delete)
    qed
  qed
qed simp

lemma load_explicit_result:
  assumes "distinct keys"
    and "\<And>k. k \<in> set keys \<Longrightarrow> obj_has (mg_definitions mg) k \<Longrightarrow> parsed resolve (the (obj_get merged k)) \<noteq> None"
  shows "\<exists>mg'. load_explicit resolve merged keys errors mg =
      (Inr (errors @ map unknown_key_message (filter (\<lambda>k. \<not> obj_has (mg_definitions mg) k) keys)), mg') \<and>
    mg_definitions mg' = foldl (\<lambda>ob k. obj_delete k ob) (mg_definitions mg) keys \<and>
    (\<forall>k. registered_value mg' k = (if k \<in> set keys \<and> obj_has (mg_definitions mg) k
       then parsed resolve (the (obj_get merged k)) else registered_value mg k))"
  using assms
proof (induction keys arbitrary: errors mg)
  case Nil
  then show ?case by simp
next
  case (Cons key keys)
  show ?case
  proof (cases "obj_has (mg_definitions mg) key")
    case False
    have noop: "obj_delete key (mg_definitions mg) = mg_definitions mg"
      using False by (simp add: obj_has_def map_of_eq_None_iff delete_id)
    show ?thesis
      using Cons.IH [of mg "errors @ [unknown_key_message key]"] Cons.prems False noop by (auto split: if_splits)
  next
    case True
    then obtain v where v: "parse_setting resolve (the (obj_get merged key)) = Inr v"
      using Cons.prems(2) [of key] by (auto simp: parsed_def split: sum.splits)
    define mg1 where "mg1 = (registerConfigurationValue key v mg)\<lparr>mg_definitions := obj_delete key (mg_definitions mg)\<rparr>"
    have has: "obj_has (mg_definitions mg1) k \<longleftrightarrow> k \<noteq> key \<and> obj_has (mg_definitions mg) k" for k
      by (simp add: mg1_def obj_has_delete)
    have "\<exists>mg'. load_explicit resolve merged keys errors mg1 =
        (Inr (errors @ map unknown_key_message (filter (\<lambda>k. \<not> obj_has (mg_definitions mg1) k) keys)), mg') \<and>
      mg_definitions mg' = foldl (\<lambda>ob k. obj_delete k ob) (mg_definitions mg1) keys \<and>
      (\<forall>k. registered_value mg' k = (if k \<in> set keys \<and> obj_has (mg_definitions mg1) k
         then parsed resolve (the (obj_get merged k)) else registered_value mg1 k))"
      using Cons.prems by (intro Cons.IH) (auto simp: has)
    moreover have "filter (\<lambda>k. \<not> obj_has (mg_definitions mg1) k) keys = filter (\<lambda>k. \<not> obj_has (mg_definitions mg) k) keys"
      using Cons.prems(1) by (auto simp: has intro!: filter_cong)
    moreover have "load_explicit resolve merged (key # keys) errors mg = load_explicit resolve merged keys errors mg1"
      using True v by (simp add: mg1_def Let_def)
    moreover have "registered_value mg1 k = (if k = key then Some v else registered_value mg k)" for k
      by (simp add: mg1_def)
    ultimately show ?thesis
      using True Cons.prems(1) v has by (auto simp: parsed_def mg1_def)
  qed
qed

lemma load_defaults_result:
  assumes "\<And>k. k \<in> set keys \<Longrightarrow> fallback resolve (the (obj_get (mg_definitions mg) k)) = None \<Longrightarrow>
      de_isRequired (the (obj_get (mg_definitions mg) k))"
    and "distinct keys"
  shows "\<exists>mg'. load_defaults resolve keys errors mg =
      (Inr (errors @ map required_key_message
         (filter (\<lambda>k. fallback resolve (the (obj_get (mg_definitions mg) k)) = None) keys)), mg') \<and>
    mg_definitions mg' = mg_definitions mg \<and>
    (\<forall>k. registered_value mg' k =
       (case (if k \<in> set keys then fallback resolve (the (obj_get (mg_definitions mg) k)) else None) of
          Some v \<Rightarrow> Some v | None \<Rightarrow> registered_value mg k))"
  using assms
proof (induction keys arbitrary: errors mg)
  case Nil
  then show ?case by simp
next
  case (Cons key keys)
  let ?d = "the (obj_get (mg_definitions mg) key)"
  show ?case
  proof (cases "fallback resolve ?d")
    case None
    then have "by_resolvers resolve ?d = None" and "de_isRequired ?d"
      using Cons.prems(1) [of key] by (auto simp: fallback_def split: option.splits)
    then have step: "load_defaults resolve (key # keys) errors mg =
        load_defaults resolve keys (errors @ [required_key_message key]) mg"
      by (simp add: by_resolvers_def Let_def)
    from Cons.IH [of mg "errors @ [required_key_message key]"] Cons.prems obtain mg' where
      "load_defaults resolve keys (errors @ [required_key_message key]) mg =
        (Inr ((errors @ [required_key_message key]) @ map required_key_message
         (filter (\<lambda>k. fallback resolve (the (obj_get (mg_definitions mg) k)) = None) keys)), mg')"
      "mg_definitions mg' = mg_definitions mg"
      "\<And>k. registered_value mg' k =
       (case (if k \<in> set keys then fallback resolve (the (obj_get (mg_definitions mg) k)) else None) of
          Some v \<Rightarrow> Some v | None \<Rightarrow> registered_value mg k)"
      by auto
    with None show ?thesis
      unfolding step by (intro exI [of _ mg']) auto
  next
    case (Some v)
    let ?mg = "registerConfigurationValue key v mg"
    have step: "load_defaults resolve (key # keys) errors mg = load_defaults resolve keys errors ?mg"
      using Some by (auto simp: fallback_def by_resolvers_def parsed_def Let_def split: option.splits if_splits sum.splits)
    have "(\<And>k. k \<in> set keys \<Longrightarrow> fallback resolve (the (obj_get (mg_definitions ?mg) k)) = None \<Longrightarrow>
      de_isRequired (the (obj_get (mg_definitions ?mg) k)))" and "distinct keys"
      using Cons.prems by simp_all
    from Cons.IH [OF this, of errors] obtain mg' where
      "load_defaults resolve keys errors ?mg = (Inr (errors @ map required_key_message
         (filter (\<lambda>k. fallback resolve (the (obj_get (mg_definitions mg) k)) = None) keys)), mg')"
      "mg_definitions mg' = mg_definitions mg"
      "\<And>k. registered_value mg' k =
       (case (if k \<in> set keys then fallback resolve (the (obj_get (mg_definitions mg) k)) else None) of
          Some v \<Rightarrow> Some v | None \<Rightarrow> registered_value ?mg k)"
      by auto
    with Some Cons.prems(2) show ?thesis
      unfolding step by (intro exI [of _ mg']) (auto split: option.splits)
  qed
qed

lemma load_defaults_falls_back:
  assumes "fst (load_defaults resolve keys errors mg) = Inr errors'" and "k \<in> set keys"
    and "fallback resolve (the (obj_get (mg_definitions mg) k)) = None"
  shows "de_isRequired (the (obj_get (mg_definitions mg) k))"
  using assms
proof (induction keys arbitrary: errors mg)
  case (Cons key keys)
  show ?case
  proof (cases "k = key")
    case True
    with Cons.prems show ?thesis
      by (auto simp: fallback_def by_resolvers_def parsed_def Let_def split: option.splits if_splits sum.splits)
  next
    case False
    with Cons.prems have k: "k \<in> set keys" by simp
    obtain errors1 mg1 where "fst (load_defaults resolve keys errors1 mg1) = Inr errors'"
      and "mg_definitions mg1 = mg_definitions mg"
      using Cons.prems(1) by (auto simp: Let_def split: option.splits if_splits sum.splits)
    with Cons.IH [of errors1 mg1] k Cons.prems(3) show ?thesis by simp
  qed
qed simp

section \<open>Properties of the configuration\<close>

text \<open>
  After a successful load every defined parameter has the value of the first source
  that gives it one, in the order explicit overrides, configuration file, module defaults,
  default resolvers, default value, and no definition is left pending.
\<close>

theorem load_precedence:
  assumes "load resolve loaded overrides configDefaults mg = (effs, Inr (), mg')"
    and "wf_obj (mg_definitions mg)" and "obj_get (mg_definitions mg) key = Some d"
  shows "mg_definitions mg' = [] \<and> registered_value mg' key \<noteq> None \<and>
    registered_value mg' key =
      (case obj_get overrides key of Some s \<Rightarrow> parsed resolve s
       | None \<Rightarrow> (case obj_get (snd (readFileConfigSafely loaded)) key of Some s \<Rightarrow> parsed resolve s
       | None \<Rightarrow> (case obj_get configDefaults key of Some s \<Rightarrow> parsed resolve s
       | None \<Rightarrow> (case by_resolvers resolve d of Some v \<Rightarrow> Some v
       | None \<Rightarrow> if de_isRequired d then None else parsed resolve (de_defaultValue d)))))"
proof -
  let ?merged = "merge_layers configDefaults (snd (readFileConfigSafely loaded)) overrides"
  have dist: "distinct (obj_keys ?merged)" by (simp add: distinct_obj_keys)
  obtain errors1 mg1 where ex: "load_explicit resolve ?merged (obj_keys ?merged) [] mg = (Inr errors1, mg1)"
    and de: "fst (load_defaults resolve (obj_keys (mg_definitions mg1)) errors1 mg1) = Inr []"
    and mg': "mg' = (snd (load_defaults resolve (obj_keys (mg_definitions mg1)) errors1 mg1))\<lparr>mg_definitions := []\<rparr>"
    using assms(1) by (auto simp: load_def Let_def split: prod.splits sum.splits if_splits)
  have known: "parsed resolve (the (obj_get ?merged k)) \<noteq> None"
    if "k \<in> set (obj_keys ?merged)" "obj_has (mg_definitions mg) k" for k
    using load_explicit_parses [OF arg_cong [OF ex, of fst, unfolded fst_conv] dist that] .
  from load_explicit_result [OF dist, where mg = mg and merged = ?merged and resolve = resolve and errors = "[]", OF known] ex have
    defs1: "mg_definitions mg1 = foldl (\<lambda>ob k. obj_delete k ob) (mg_definitions mg) (obj_keys ?merged)" and
    reg1: "\<And>k. registered_value mg1 k = (if k \<in> set (obj_keys ?merged) \<and> obj_has (mg_definitions mg) k
       then parsed resolve (the (obj_get ?merged k)) else registered_value mg k)"
    by auto
  have wf1: "distinct (obj_keys (mg_definitions mg1))"
    unfolding defs1 by (intro distinct_obj_keys wf_obj_deletes assms(2))
  have req: "de_isRequired (the (obj_get (mg_definitions mg1) k))"
    if "k \<in> set (obj_keys (mg_definitions mg1))" "fallback resolve (the (obj_get (mg_definitions mg1) k)) = None" for k
    using load_defaults_falls_back [OF de that] .
  from load_defaults_result [where mg = mg1 and resolve = resolve and errors = errors1, OF req wf1] obtain mg2 where
    "load_defaults resolve (obj_keys (mg_definitions mg1)) errors1 mg1 = (Inr (errors1 @ map required_key_message
       (filter (\<lambda>k. fallback resolve (the (obj_get (mg_definitions mg1) k)) = None) (obj_keys (mg_definitions mg1)))), mg2)" and
    reg2: "\<And>k. registered_value mg2 k =
       (case (if k \<in> set (obj_keys (mg_definitions mg1)) then fallback resolve (the (obj_get (mg_definitions mg1) k)) else None) of
          Some v \<Rightarrow> Some v | None \<Rightarrow> registered_value mg1 k)"
    by auto
  with de mg' have mg'2: "mg' = mg2\<lparr>mg_definitions := []\<rparr>"
    and none: "\<forall>k \<in> set (obj_keys (mg_definitions mg1)). fallback resolve (the (obj_get (mg_definitions mg1) k)) \<noteq> None"
    by (auto simp: filter_empty_conv)
  have keys1: "k \<in> set (obj_keys (mg_definitions mg1)) \<longleftrightarrow>
      obj_get ?merged k = None \<and> obj_get (mg_definitions mg) k \<noteq> None" for k
    unfolding objd.keys_get defs1 obj_get_deletes using objd.keys_get [of k ?merged] by auto
  show ?thesis
  proof (cases "obj_get ?merged key")
    case None
    then have key: "key \<in> set (obj_keys (mg_definitions mg1))"
      unfolding keys1 using assms(3) by simp
    have get: "obj_get (mg_definitions mg1) key = Some d"
      using None assms(3) objd.keys_get [of key ?merged] unfolding defs1 obj_get_deletes by auto
    have "fallback resolve d \<noteq> None" using none key get by force
    moreover from this have "registered_value mg' key = fallback resolve d"
      using reg2 [of key] key get by (auto simp: mg'2)
    ultimately show ?thesis
      using None by (auto simp: mg'2 obj_get_merge_layers fallback_def split: option.splits)
  next
    case (Some s)
    then have mem: "key \<in> set (obj_keys ?merged)" and "key \<notin> set (obj_keys (mg_definitions mg1))"
      using keys1 [of key] objd.keys_get [of key ?merged] by auto
    moreover have has: "obj_has (mg_definitions mg) key" using assms(3) by (simp add: obj_has_def)
    ultimately have "registered_value mg' key = parsed resolve s"
      using reg2 [of key] reg1 [of key] Some by (simp add: mg'2)
    moreover have "parsed resolve s \<noteq> None"
      using load_explicit_parses [OF arg_cong [OF ex, of fst, unfolded fst_conv] dist mem has] Some by simp
    ultimately show ?thesis
      using Some by (auto simp: mg'2 obj_get_merge_layers split: option.splits)
  qed
qed

theorem load_precedence_witness:
  "registered_value (snd (snd (load (\<lambda>t. Inl (ValueErr t)) (Inr (Some (PlainBlock [(''port'', SettingScalar (SNum (80::int)))])))
       [(''port'', SettingScalar (SNum 8080))] [(''port'', SettingScalar (SNum 1))]
       \<lparr>mg_definitions = [(''port'', \<lparr>de_parameterName = ''port'', de_isRequired = True, de_defaultValue = SettingNull,
          de_defaultResolvers = None\<rparr>)], mg_registered = []\<rparr>))) ''port'' = Some (SNum 8080)"
proof -
  let ?res = "\<lambda>t. Inl (ValueErr t) :: thrown + string"
  let ?file = "Inr (Some (PlainBlock [(''port'', SettingScalar (SNum (80::int)))])) :: thrown + int file_block option"
  let ?d = "\<lparr>de_parameterName = ''port'', de_isRequired = True, de_defaultValue = SettingNull,
      de_defaultResolvers = None\<rparr> :: int definition_entry"
  let ?mg = "\<lparr>mg_definitions = [(''port'', ?d)], mg_registered = []\<rparr> :: int manager"
  let ?load = "load ?res ?file [(''port'', SettingScalar (SNum 8080))] [(''port'', SettingScalar (SNum 1))] ?mg"
  have "fst (snd ?load) = Inr ()" by code_simp
  then have "?load = (fst ?load, Inr (), snd (snd ?load))" by (metis prod.collapse)
  from load_precedence [OF this, of "''port''" ?d] show ?thesis
    by (simp add: wf_obj_def parsed_def)
qed

text \<open>
  When no value in use fails to resolve, a load ends in a validation error exactly when
  some explicit key is defined by no module or some required parameter has no value, and the
  error lists all of them: the unknown keys first, then the missing parameters.
\<close>

theorem load_reports_all:
  assumes "wf_obj (mg_definitions mg)"
    and "merged = merge_layers configDefaults (snd (readFileConfigSafely loaded)) overrides"
    and "\<And>k s. obj_get merged k = Some s \<Longrightarrow> obj_has (mg_definitions mg) k \<Longrightarrow> parsed resolve s \<noteq> None"
    and "\<And>k d. obj_get (mg_definitions mg) k = Some d \<Longrightarrow> obj_get merged k = None \<Longrightarrow>
      \<not> de_isRequired d \<Longrightarrow> fallback resolve d \<noteq> None"
  shows "fst (snd (load resolve loaded overrides configDefaults mg)) =
    (let unknown = filter (\<lambda>k. \<not> obj_has (mg_definitions mg) k) (obj_keys merged);
         missing = filter (\<lambda>k. fallback resolve (the (obj_get (mg_definitions mg) k)) = None)
           (obj_keys (foldl (\<lambda>ob k. obj_delete k ob) (mg_definitions mg) (obj_keys merged)));
         errors = map unknown_key_message unknown @ map required_key_message missing
     in if errors = [] then Inr () else Inl (ConfigurationValidationError errors))"
proof -
  have dist: "distinct (obj_keys merged)" unfolding assms(2) by (simp add: distinct_obj_keys)
  have known: "parsed resolve (the (obj_get merged k)) \<noteq> None" if "k \<in> set (obj_keys merged)" "obj_has (mg_definitions mg) k" for k
    using that assms(3) [of k] unfolding objd.keys_get by auto
  let ?rest = "foldl (\<lambda>ob k. obj_delete k ob) (mg_definitions mg) (obj_keys merged)"
  let ?unknown = "filter (\<lambda>k. \<not> obj_has (mg_definitions mg) k) (obj_keys merged)"
  from load_explicit_result [OF dist, where mg = mg and merged = merged and resolve = resolve and errors = "[]", OF known]
  obtain mg1 where ex: "load_explicit resolve merged (obj_keys merged) [] mg = (Inr (map unknown_key_message ?unknown), mg1)"
    and defs1: "mg_definitions mg1 = ?rest" by auto
  have rest: "obj_get ?rest k = (if obj_get merged k = None then obj_get (mg_definitions mg) k else None)" for k
    unfolding obj_get_deletes using objd.keys_get [of k merged] by auto
  have req: "de_isRequired (the (obj_get (mg_definitions mg1) k))"
    if "k \<in> set (obj_keys (mg_definitions mg1))" "fallback resolve (the (obj_get (mg_definitions mg1) k)) = None" for k
  proof -
    from that(1) obtain d where "obj_get merged k = None" and d: "obj_get (mg_definitions mg) k = Some d"
      and "obj_get (mg_definitions mg1) k = Some d"
      unfolding objd.keys_get defs1 rest by (auto split: if_splits)
    with that(2) assms(4) [OF d] show ?thesis by auto
  qed
  have wf1: "distinct (obj_keys (mg_definitions mg1))"
    unfolding defs1 by (intro distinct_obj_keys wf_obj_deletes assms(1))
  have same: "the (obj_get ?rest k) = the (obj_get (mg_definitions mg) k)" if "k \<in> set (obj_keys ?rest)" for k
    using that unfolding objd.keys_get rest by (auto split: if_splits)
  have filt: "filter (\<lambda>k. fallback resolve (the (obj_get ?rest k)) = None) (obj_keys ?rest) =
      filter (\<lambda>k. fallback resolve (the (obj_get (mg_definitions mg) k)) = None) (obj_keys ?rest)"
    using same by (auto intro!: filter_cong)
  from load_defaults_result [where mg = mg1 and resolve = resolve and errors = "map unknown_key_message ?unknown", OF req wf1]
  obtain mg2 where "load_defaults resolve (obj_keys (mg_definitions mg1)) (map unknown_key_message ?unknown) mg1 =
      (Inr (map unknown_key_message ?unknown @ map required_key_message
        (filter (\<lambda>k. fallback resolve (the (obj_get (mg_definitions mg) k)) = None) (obj_keys ?rest))), mg2)"
    unfolding defs1 filt by auto
  then show ?thesis
    by (simp add: load_def split_beta Let_def assms(2) [symmetric] ex)
qed

theorem load_reports_all_witness:
  "fst (snd (load (\<lambda>t. Inl (ValueErr t)) (Inr None) [(''prot'', SettingScalar (SNum (1::int)))] []
     \<lparr>mg_definitions = [(''port'', \<lparr>de_parameterName = ''port'', de_isRequired = True, de_defaultValue = SettingNull,
        de_defaultResolvers = None\<rparr>)], mg_registered = []\<rparr>)) =
   Inl (ConfigurationValidationError [unknown_key_message ''prot'', required_key_message ''port''])"
proof -
  let ?res = "\<lambda>t. Inl (ValueErr t) :: thrown + string"
  let ?d = "\<lparr>de_parameterName = ''port'', de_isRequired = True, de_defaultValue = SettingNull,
      de_defaultResolvers = None\<rparr> :: int definition_entry"
  let ?mg = "\<lparr>mg_definitions = [(''port'', ?d)], mg_registered = []\<rparr> :: int manager"
  have merged: "merge_layers [] (snd (readFileConfigSafely (Inr None))) [(''prot'', SettingScalar (SNum (1::int)))] =
      [(''prot'', SettingScalar (SNum 1))]"
    by (simp add: merge_layers_def merge_layer_def readFileConfigSafely_def obj_keys_def)
  have keys: "obj_keys [(''prot'', SettingScalar (SNum (1::int)))] = [''prot'']" "obj_keys [(''port'', ?d)] = [''port'']"
    by (simp_all add: obj_keys_def)
  have wf: "wf_obj (mg_definitions ?mg)" by (simp add: wf_obj_def)
  show ?thesis
    by (subst load_reports_all [OF wf refl])
      (auto simp: merged keys obj_has_def fallback_def by_resolvers_def split: if_splits)
qed

text \<open>
  The preflight check and the load disagree: a required parameter that only the
  configuration file provides is reported as missing without any default resolver, while the load
  takes the file's value and succeeds.
\<close>

theorem missing_report_ignores_the_file:
  "let d = \<lparr>de_parameterName = key, de_isRequired = True, de_defaultValue = SettingNull, de_defaultResolvers = None\<rparr>;
       mg = \<lparr>mg_definitions = [(key, d)], mg_registered = []\<rparr>;
       (effs, res, mg') = load resolve (Inr (Some (PlainBlock [(key, SettingScalar v)]))) [] [] mg
   in getMissingRequiredParameters [] mg = [(key, False)] \<and> res = Inr () \<and> registered_value mg' key = Some v"
proof -
  have one: "obj_keys [(key, x)] = [key]" for x :: 'c by (simp add: obj_keys_def)
  have none: "obj_keys ([] :: 'c obj) = []" by (simp add: obj_keys_def)
  show ?thesis
    by (simp add: getMissingRequiredParameters_def List.map_filter_simps obj_keys_def obj_has_def load_def
        readFileConfigSafely_def merge_layers_def merge_layer_def)
qed

section \<open>Properties of the resolvers\<close>

text \<open>
  A boolean read from an environment variable: whatever its case, true is exactly the
  texts \<open>true\<close> and \<open>1\<close>, false exactly \<open>false\<close> and \<open>0\<close>, and everything else, an absent variable
  included, is an error rather than a default.
\<close>

theorem environment_boolean:
  "boolean_resolve (RResolver (map_sum id (\<lambda>s. RScalar (SStr s) :: 'n::zero_neq_one rvalue) (environment_variable_resolve environment name))) = Inr b \<longleftrightarrow>
     (\<exists>v. environment name = Some v \<and> (if b then to_lower v \<in> {''true'', ''1''} else to_lower v \<in> {''false'', ''0''}))"
  by (auto simp: environment_variable_resolve_def boolean_resolveString_def Let_def split: option.splits if_splits)

end
