(* ===== verification/Kernel.thy ===== *)
theory Kernel
  imports Configuration
begin

text \<open>
  The kernel of the core package (\<open>kernel.ts\<close>): the initialisation of the module graph, the boot
  sequence of \<open>start\<close>, its dry run \<open>verifyInstantiation\<close> with the instantiation report, and
  \<open>stop\<close>. A module is known by its keyname; the graph is a function from keynames to modules.
  The recursions over the graph take fuel, \<open>None\<close> being the recursion that did not end; the
  lemmas say when fuel suffices and when no fuel does. Timings are left out.
\<close>

section \<open>Modules and the kernel's state\<close>

text \<open>A shutdown hook: the milliseconds after which its promise settles, if it does, and how.\<close>

datatype shutdown_hook = Hook "nat option" "thrown + unit"

record 'n kmodule =
  km_imports :: "string list"
  km_providers :: "(string \<times> bool) list"
  km_onInit :: "(thrown + unit) option"
  km_afterInit :: "(thrown + unit) option"
  km_onShutdown :: "shutdown_hook option"
  km_configurationDefinitions :: "'n definition_entry list"
  km_configDefaults :: "'n setting obj option"

datatype boot_event =
    Provide string
  | OnInit string
  | ModuleSpan string
  | AfterInit string
  | Shutdown string

record 'n kernel =
  kn_instantiated :: "'n kmodule obj"
  kn_afterInstantiated :: "string list"
  kn_events :: "boot_event list"
  kn_manager :: "'n manager"
  kn_stopped :: bool

definition new_Kernel :: "'n kernel" where
  "new_Kernel = \<lparr>kn_instantiated = [], kn_afterInstantiated = [], kn_events = [],
     kn_manager = \<lparr>mg_definitions = [], mg_registered = []\<rparr>, kn_stopped = False\<rparr>"

text \<open>
  The environment of a boot: the module graph, the registry of tagged services (token, module
  scope, validity for the container), the container's answers, the configuration file and the
  identity test of two default values.
\<close>

record 'n boot_env =
  be_graph :: "string \<Rightarrow> 'n kmodule"
  be_tags :: "(string \<times> string option \<times> bool) list"
  be_managerResolves :: "thrown + unit"
  be_resolve :: "string \<Rightarrow> thrown + string"
  be_file :: "thrown + 'n file_block option"
  be_identical :: "'n setting \<Rightarrow> 'n setting \<Rightarrow> bool"
  be_logHandler :: "thrown + unit"
  be_tests :: "thrown + (string \<times> (thrown + bool)) list"

type_synonym 'n outcome = "(thrown + unit) \<times> 'n kernel"

definition log_event :: "boot_event \<Rightarrow> 'n kernel \<Rightarrow> 'n kernel" where
  "log_event ev kn = kn\<lparr>kn_events := kn_events kn @ [ev]\<rparr>"

definition ProviderRegistrationError :: thrown where
  "ProviderRegistrationError = new_PristineError ''ProviderRegistrationError''
     ''There was an error registering the providerRegistration: '' None None None (Some ''provider'') None None"

fun registerProviderRegistrations :: "(string \<times> bool) list \<Rightarrow> 'n kernel \<Rightarrow> 'n outcome" where
  "registerProviderRegistrations [] kn = (Inr (), kn)"
| "registerProviderRegistrations ((token, valid) # ps) kn =
     (if valid then registerProviderRegistrations ps (log_event (Provide token) kn)
      else (Inl ProviderRegistrationError, kn))"

definition module_tags :: "(string \<times> string option \<times> bool) list \<Rightarrow> string \<Rightarrow> (string \<times> bool) list" where
  "module_tags tags key = map (\<lambda>(t, s, v). (t, v)) (filter (\<lambda>(t, s, v). s = Some key) tags)"

definition unscoped_tags :: "(string \<times> string option \<times> bool) list \<Rightarrow> (string \<times> bool) list" where
  "unscoped_tags tags = map (\<lambda>(t, s, v). (t, v)) (filter (\<lambda>(t, s, v). s = None) tags)"

section \<open>Initialising the graph\<close>

text \<open>What \<open>initModule\<close> does once the imports are initialised.\<close>

definition finish_init :: "'n boot_env \<Rightarrow> string \<Rightarrow> 'n kernel \<Rightarrow> 'n outcome" where
  "finish_init env key kn =
     (case registerProviderRegistrations (module_tags (be_tags env) key) kn of
        (Inl e, kn) \<Rightarrow> (Inl e, kn)
      | (Inr _, kn) \<Rightarrow>
          (case registerProviderRegistrations (km_providers (be_graph env key)) kn of
             (Inl e, kn) \<Rightarrow> (Inl e, kn)
           | (Inr _, kn) \<Rightarrow>
               (case km_onInit (be_graph env key) of
                  None \<Rightarrow> (Inr (), log_event (ModuleSpan key) kn)
                | Some (Inl e) \<Rightarrow> (Inl e, log_event (OnInit key) kn)
                | Some (Inr _) \<Rightarrow> (Inr (), log_event (ModuleSpan key) (log_event (OnInit key) kn)))))"

fun initModule :: "nat \<Rightarrow> 'n boot_env \<Rightarrow> string \<Rightarrow> 'n kernel \<Rightarrow> 'n outcome option"
  and initImports :: "nat \<Rightarrow> 'n boot_env \<Rightarrow> string list \<Rightarrow> 'n kernel \<Rightarrow> 'n outcome option" where
  "initModule 0 env key kn = None"
| "initModule (Suc n) env key kn =
     (if obj_has (kn_instantiated kn) key then Some (Inr (), kn)
      else case initImports n env (km_imports (be_graph env key))
             (kn\<lparr>kn_instantiated := obj_set key (be_graph env key) (kn_instantiated kn)\<rparr>) of
        None \<Rightarrow> None
      | Some (Inl e, kn) \<Rightarrow> Some (Inl e, kn)
      | Some (Inr _, kn) \<Rightarrow> Some (finish_init env key kn))"
| "initImports n env [] kn = Some (Inr (), kn)"
| "initImports n env (key # keys) kn =
     (case initModule n env key kn of
        None \<Rightarrow> None
      | Some (Inl e, kn) \<Rightarrow> Some (Inl e, kn)
      | Some (Inr _, kn) \<Rightarrow> initImports n env keys kn)"

fun afterInitModule :: "nat \<Rightarrow> 'n boot_env \<Rightarrow> string \<Rightarrow> 'n kernel \<Rightarrow> 'n outcome option"
  and afterInitImports :: "nat \<Rightarrow> 'n boot_env \<Rightarrow> string list \<Rightarrow> 'n kernel \<Rightarrow> 'n outcome option" where
  "afterInitModule 0 env key kn = None"
| "afterInitModule (Suc n) env key kn =
     (case afterInitImports n env (km_imports (be_graph env key)) kn of
        None \<Rightarrow> None
      | Some (Inl e, kn) \<Rightarrow> Some (Inl e, kn)
      | Some (Inr _, kn) \<Rightarrow>
          if key \<in> set (kn_afterInstantiated kn) then Some (Inr (), kn)
          else case km_afterInit (be_graph env key) of
            Some (Inl e) \<Rightarrow> Some (Inl e, log_event (AfterInit key) kn)
          | Some (Inr _) \<Rightarrow> Some (Inr (), (log_event (AfterInit key) kn)
              \<lparr>kn_afterInstantiated := kn_afterInstantiated kn @ [key]\<rparr>)
          | None \<Rightarrow> Some (Inr (), kn\<lparr>kn_afterInstantiated := kn_afterInstantiated kn @ [key]\<rparr>))"
| "afterInitImports n env [] kn = Some (Inr (), kn)"
| "afterInitImports n env (key # keys) kn =
     (case afterInitModule n env key kn of
        None \<Rightarrow> None
      | Some (Inl e, kn) \<Rightarrow> Some (Inl e, kn)
      | Some (Inr _, kn) \<Rightarrow> afterInitImports n env keys kn)"

section \<open>Configuration phases\<close>

fun register_definitions :: "'n definition_entry list \<Rightarrow> 'n manager \<Rightarrow> (thrown + unit) \<times> 'n manager" where
  "register_definitions [] mg = (Inr (), mg)"
| "register_definitions (d # ds) mg =
     (case register_definition d mg of Inl e \<Rightarrow> (Inl e, mg) | Inr mg \<Rightarrow> register_definitions ds mg)"

text \<open>A new manager is resolved from the container for every boot.\<close>

definition registerConfigurationDefinitions :: "'n boot_env \<Rightarrow> 'n kernel \<Rightarrow> 'n outcome" where
  "registerConfigurationDefinitions env kn =
     (case be_managerResolves env of
        Inl e \<Rightarrow> (Inl e, kn)
      | Inr _ \<Rightarrow>
          (let ds = concat (map (\<lambda>k. km_configurationDefinitions (the (obj_get (kn_instantiated kn) k)))
                 (obj_keys (kn_instantiated kn)));
               (res, mg) = register_definitions ds (kn_manager kn)
           in (res, kn\<lparr>kn_manager := mg\<rparr>)))"

text \<open>The merged defaults with the module each one comes from.\<close>

fun add_defaults ::
  "('n setting \<Rightarrow> 'n setting \<Rightarrow> bool) \<Rightarrow> string \<Rightarrow> 'n setting obj \<Rightarrow> string list \<Rightarrow> ('n setting \<times> string) obj \<Rightarrow>
   thrown + ('n setting \<times> string) obj" where
  "add_defaults identical moduleKey ds [] acc = Inr acc"
| "add_defaults identical moduleKey ds (k # ks) acc =
     (let incoming = the (obj_get ds k) in
      case obj_get acc k of
        Some (present, source) \<Rightarrow>
          if \<not> identical present incoming then
            Inl (NativeErr ''Error'' (''[pristine] Two modules in the graph set conflicting 'configDefaults' for key '' @ quoted k @
              '': '' @ quoted source @ '' and '' @ quoted moduleKey @
              ''. Reconcile in one module's configDefaults (or remove from one) before continuing.'') None None)
          else add_defaults identical moduleKey ds ks (obj_set k (incoming, moduleKey) acc)
      | None \<Rightarrow> add_defaults identical moduleKey ds ks (obj_set k (incoming, moduleKey) acc))"

fun collect_defaults ::
  "('n setting \<Rightarrow> 'n setting \<Rightarrow> bool) \<Rightarrow> (string \<times> 'n kmodule) list \<Rightarrow> ('n setting \<times> string) obj \<Rightarrow>
   thrown + ('n setting \<times> string) obj" where
  "collect_defaults identical [] acc = Inr acc"
| "collect_defaults identical ((key, m) # ms) acc =
     (case km_configDefaults m of
        None \<Rightarrow> collect_defaults identical ms acc
      | Some ds \<Rightarrow> sum_bind (add_defaults identical key ds (obj_keys ds) acc) (collect_defaults identical ms))"

definition collectConfigDefaults :: "'n boot_env \<Rightarrow> 'n kernel \<Rightarrow> thrown + ('n setting \<times> string) obj" where
  "collectConfigDefaults env kn = collect_defaults (be_identical env)
     (map (\<lambda>k. (k, the (obj_get (kn_instantiated kn) k))) (obj_keys (kn_instantiated kn))) []"

definition validateConfigDefaultsAgainstDefinitions :: "('n setting \<times> string) obj \<Rightarrow> 'n manager \<Rightarrow> thrown + unit" where
  "validateConfigDefaultsAgainstDefinitions defaults mg =
     (case find (\<lambda>k. \<not> obj_has (mg_definitions mg) k) (obj_keys defaults) of
        None \<Rightarrow> Inr ()
      | Some k \<Rightarrow> Inl (NativeErr ''Error'' (''[pristine] Module '' @ quoted (snd (the (obj_get defaults k))) @
          '' has a configDefaults entry for unknown configuration key '' @ quoted k @
          ''. Either it's a typo, or the owning module is not imported in your AppModule graph.'') None None))"

definition loadConfiguration :: "'n boot_env \<Rightarrow> 'n setting obj \<Rightarrow> 'n kernel \<Rightarrow> 'n outcome" where
  "loadConfiguration env overrides kn =
     (case collectConfigDefaults env kn of
        Inl e \<Rightarrow> (Inl e, kn)
      | Inr defaults \<Rightarrow>
          (case validateConfigDefaultsAgainstDefinitions defaults (kn_manager kn) of
             Inl e \<Rightarrow> (Inl e, kn)
           | Inr _ \<Rightarrow>
               (let (effs, res, mg) = load (be_resolve env) (be_file env) overrides
                      (map (\<lambda>(k, v, s). (k, v)) defaults) (kn_manager kn)
                in (res, kn\<lparr>kn_manager := mg\<rparr>))))"

definition registerNonModuleScopedServiceTags :: "'n boot_env \<Rightarrow> 'n kernel \<Rightarrow> 'n outcome" where
  "registerNonModuleScopedServiceTags env kn = registerProviderRegistrations (unscoped_tags (be_tags env)) kn"

definition probe_logHandler :: "'n boot_env \<Rightarrow> 'n kernel \<Rightarrow> 'n outcome" where
  "probe_logHandler env kn = (be_logHandler env, kn)"

section \<open>Start\<close>

definition and_then :: "'n outcome option \<Rightarrow> ('n kernel \<Rightarrow> 'n outcome option) \<Rightarrow> 'n outcome option" where
  "and_then r next_step =
     (case r of None \<Rightarrow> None | Some (Inl e, kn) \<Rightarrow> Some (Inl e, kn) | Some (Inr _, kn) \<Rightarrow> next_step kn)"

definition start :: "nat \<Rightarrow> 'n boot_env \<Rightarrow> string \<Rightarrow> 'n setting obj \<Rightarrow> 'n kernel \<Rightarrow> 'n outcome option" where
  "start fuel env root overrides kn =
     and_then (initModule fuel env root kn) (\<lambda>kn.
     and_then (Some (registerConfigurationDefinitions env kn)) (\<lambda>kn.
     and_then (Some (loadConfiguration env overrides kn)) (\<lambda>kn.
     and_then (Some (registerNonModuleScopedServiceTags env kn)) (\<lambda>kn.
     and_then (afterInitModule fuel env root kn) (\<lambda>kn.
     Some (probe_logHandler env kn))))))"

section \<open>The instantiation report\<close>

datatype boot_phase = ModuleRegistration | ConfigurationCheck | ConfigurationLoad
  | ServiceTagRegistration | AfterInitPhase | BootProbe | InstantiationTests

datatype status = Passed | PassedWithWarnings | Failed | Skipped

fun phase_index :: "boot_phase \<Rightarrow> nat" where
  "phase_index ModuleRegistration = 0"
| "phase_index ConfigurationCheck = 1"
| "phase_index ConfigurationLoad = 2"
| "phase_index ServiceTagRegistration = 3"
| "phase_index AfterInitPhase = 4"
| "phase_index BootProbe = 5"
| "phase_index InstantiationTests = 6"

instantiation boot_phase :: linorder
begin

definition less_eq_boot_phase :: "boot_phase \<Rightarrow> boot_phase \<Rightarrow> bool" where
  "less_eq_boot_phase p q \<longleftrightarrow> phase_index p \<le> phase_index q"

definition less_boot_phase :: "boot_phase \<Rightarrow> boot_phase \<Rightarrow> bool" where
  "less_boot_phase p q \<longleftrightarrow> phase_index p < phase_index q"

instance
proof
  fix x y z :: boot_phase
  show "x < y \<longleftrightarrow> x \<le> y \<and> \<not> y \<le> x" by (auto simp: less_eq_boot_phase_def less_boot_phase_def)
  show "x \<le> x" by (simp add: less_eq_boot_phase_def)
  show "x \<le> y \<Longrightarrow> y \<le> z \<Longrightarrow> x \<le> z" by (simp add: less_eq_boot_phase_def)
  show "x \<le> y \<Longrightarrow> y \<le> x \<Longrightarrow> x = y" by (cases x; cases y) (simp_all add: less_eq_boot_phase_def)
  show "x \<le> y \<or> y \<le> x" by (auto simp: less_eq_boot_phase_def)
qed

end

record report =
  ir_phases :: "(boot_phase \<times> status) list"
  ir_missing :: "(string \<times> bool) list"
  ir_tests :: "(string \<times> bool) list"

definition failedInstantiationTests :: "report \<Rightarrow> (string \<times> bool) list" where
  "failedInstantiationTests r = filter (\<lambda>(n, passed). \<not> passed) (ir_tests r)"

definition overallStatus :: "report \<Rightarrow> status" where
  "overallStatus r =
     (if list_ex (\<lambda>(p, st). st = Failed) (ir_phases r) then Failed
      else if failedInstantiationTests r \<noteq> [] then Failed
      else if list_ex (\<lambda>(p, st). st = PassedWithWarnings) (ir_phases r) then PassedWithWarnings
      else Passed)"

definition hasErrors :: "report \<Rightarrow> bool" where
  "hasErrors r \<longleftrightarrow> overallStatus r = Failed"

definition skipRemainingPhases :: "boot_phase list \<Rightarrow> report \<Rightarrow> report" where
  "skipRemainingPhases ps r = r\<lparr>ir_phases := ir_phases r @ map (\<lambda>p. (p, Skipped)) ps\<rparr>"

text \<open>\<open>runPhase\<close>: the result of the phase's function becomes an entry and a flag.\<close>

definition runPhase :: "boot_phase \<Rightarrow> 'n outcome \<Rightarrow> report \<Rightarrow> bool \<times> report \<times> 'n kernel" where
  "runPhase p oc r =
     (case oc of
        (Inr _, kn) \<Rightarrow> (True, r\<lparr>ir_phases := ir_phases r @ [(p, Passed)]\<rparr>, kn)
      | (Inl _, kn) \<Rightarrow> (False, r\<lparr>ir_phases := ir_phases r @ [(p, Failed)]\<rparr>, kn))"

definition mark_last :: "status \<Rightarrow> report \<Rightarrow> report" where
  "mark_last st r = r\<lparr>ir_phases := butlast (ir_phases r) @ [(fst (last (ir_phases r)), st)]\<rparr>"

definition runInstantiationTests :: "'n boot_env \<Rightarrow> report \<Rightarrow> report" where
  "runInstantiationTests env r =
     r\<lparr>ir_phases := ir_phases r @ [(InstantiationTests, Passed)],
       ir_tests := (case be_tests env of
           Inl _ \<Rightarrow> []
         | Inr ts \<Rightarrow> map (\<lambda>(n, res). (n, case res of Inr passed \<Rightarrow> passed | Inl _ \<Rightarrow> False)) ts)\<rparr>"

definition verify_probe :: "'n boot_env \<Rightarrow> bool \<Rightarrow> report \<Rightarrow> 'n kernel \<Rightarrow> report" where
  "verify_probe env runTests r kn =
     (let (ok, r, kn) = runPhase BootProbe (probe_logHandler env kn) r in
      if runTests then runInstantiationTests env r else skipRemainingPhases [InstantiationTests] r)"

definition verify_tags :: "nat \<Rightarrow> 'n boot_env \<Rightarrow> string \<Rightarrow> bool \<Rightarrow> bool \<Rightarrow> report \<Rightarrow> 'n kernel \<Rightarrow> report option" where
  "verify_tags fuel env root runTests stopOnFirst r kn =
     (let (ok, r, kn) = runPhase ServiceTagRegistration (registerNonModuleScopedServiceTags env kn) r in
      if \<not> ok \<and> stopOnFirst then Some (skipRemainingPhases [AfterInitPhase, BootProbe, InstantiationTests] r)
      else case afterInitModule fuel env root kn of
        None \<Rightarrow> None
      | Some oc \<Rightarrow>
          (let (ok, r, kn) = runPhase AfterInitPhase oc r in
           if \<not> ok \<and> stopOnFirst then Some (skipRemainingPhases [BootProbe, InstantiationTests] r)
           else Some (verify_probe env runTests r kn)))"

definition verify_load ::
  "nat \<Rightarrow> 'n boot_env \<Rightarrow> string \<Rightarrow> 'n setting obj \<Rightarrow> bool \<Rightarrow> bool \<Rightarrow> bool \<Rightarrow> report \<Rightarrow> 'n kernel \<Rightarrow> report option" where
  "verify_load fuel env root overrides runTests stopOnFirst checked r kn =
     (let (ok, r, kn) =
        (if \<not> checked then (False, skipRemainingPhases [ConfigurationLoad] r, kn)
         else runPhase ConfigurationLoad (loadConfiguration env overrides kn) r) in
      if \<not> ok \<and> stopOnFirst then
        Some (skipRemainingPhases [ServiceTagRegistration, AfterInitPhase, BootProbe, InstantiationTests] r)
      else verify_tags fuel env root runTests stopOnFirst r kn)"

definition verifyInstantiation ::
  "nat \<Rightarrow> 'n boot_env \<Rightarrow> string \<Rightarrow> 'n setting obj \<Rightarrow> bool \<Rightarrow> bool \<Rightarrow> 'n kernel \<Rightarrow> report option" where
  "verifyInstantiation fuel env root overrides runTests stopOnFirst kn =
     (case initModule fuel env root kn of
        None \<Rightarrow> None
      | Some oc \<Rightarrow>
          (let (ok, r, kn) = runPhase ModuleRegistration oc \<lparr>ir_phases = [], ir_missing = [], ir_tests = []\<rparr> in
           if \<not> ok then
             Some (skipRemainingPhases [ConfigurationCheck, ConfigurationLoad, ServiceTagRegistration,
               AfterInitPhase, BootProbe, InstantiationTests] r)
           else
             let (ok, r, kn) = runPhase ConfigurationCheck (registerConfigurationDefinitions env kn) r;
                 missing = (if ok then getMissingRequiredParameters overrides (kn_manager kn) else []);
                 r = r\<lparr>ir_missing := missing\<rparr>;
                 r = (if ok \<and> missing \<noteq> [] then mark_last PassedWithWarnings r else r) in
             if \<not> ok \<and> stopOnFirst then
               Some (skipRemainingPhases [ConfigurationLoad, ServiceTagRegistration, AfterInitPhase,
                 BootProbe, InstantiationTests] r)
             else verify_load fuel env root overrides runTests stopOnFirst ok r kn))"

section \<open>Stop\<close>

definition timeout_error :: "nat \<Rightarrow> string \<Rightarrow> thrown" where
  "timeout_error timeoutMs label =
     NativeErr ''Error'' (''onShutdown for '' @ quoted label @ '' exceeded '' @ show_nat timeoutMs @ ''ms'') None None"

definition runWithTimeout :: "nat \<Rightarrow> string \<Rightarrow> shutdown_hook \<Rightarrow> (thrown + unit) option" where
  "runWithTimeout timeoutMs label hook =
     (case hook of
        Hook (Some d) res \<Rightarrow> (if timeoutMs > 0 \<and> timeoutMs < d then Some (Inl (timeout_error timeoutMs label)) else Some res)
      | Hook None res \<Rightarrow> (if timeoutMs > 0 then Some (Inl (timeout_error timeoutMs label)) else None))"

fun shutdown_modules :: "nat \<Rightarrow> (string \<times> 'n kmodule) list \<Rightarrow> 'n kernel \<Rightarrow> (effect list \<times> 'n kernel) option" where
  "shutdown_modules timeoutMs [] kn = Some ([], kn)"
| "shutdown_modules timeoutMs ((name, m) # ms) kn =
     (case km_onShutdown m of
        None \<Rightarrow> shutdown_modules timeoutMs ms kn
      | Some hook \<Rightarrow>
          (case runWithTimeout timeoutMs name hook of
             None \<Rightarrow> None
           | Some res \<Rightarrow>
               (case shutdown_modules timeoutMs ms (log_event (Shutdown name) kn) of
                  None \<Rightarrow> None
                | Some (effs, kn) \<Rightarrow>
                    Some ((case res of
                        Inl e \<Rightarrow> [Log Error (''[Kernel] onShutdown failed for module '' @ quoted name @ '': '' @ message_or ''undefined'' e)]
                      | Inr _ \<Rightarrow> []) @ effs, kn))))"

definition stop :: "nat option \<Rightarrow> 'n boot_env \<Rightarrow> 'n kernel \<Rightarrow> (effect list \<times> 'n kernel) option" where
  "stop perHookTimeoutMs env kn =
     (if kn_stopped kn then Some ([], kn)
      else case shutdown_modules (case perHookTimeoutMs of Some t \<Rightarrow> t | None \<Rightarrow> 10000)
             (map (\<lambda>k. (k, the (obj_get (kn_instantiated kn) k))) (obj_keys (kn_instantiated kn)))
             (kn\<lparr>kn_stopped := True\<rparr>) of
        None \<Rightarrow> None
      | Some (effs, kn) \<Rightarrow>
          Some (effs @ (case be_logHandler env of Inr _ \<Rightarrow> [Invoke ''logHandler.terminate'' []] | Inl _ \<Rightarrow> []), kn))"

section \<open>A sample graph\<close>

text \<open>The root imports \<open>A\<close> and \<open>B\<close>, which both import \<open>C\<close>; every module has a shutdown hook.\<close>

definition sample_graph :: "string \<Rightarrow> int kmodule" where
  "sample_graph key = \<lparr>km_imports =
       (if key = ''root'' then [''A'', ''B''] else if key = ''A'' \<or> key = ''B'' then [''C''] else []),
     km_providers = [], km_onInit = None, km_afterInit = Some (Inr ()),
     km_onShutdown = Some (Hook (Some 1) (Inr ())), km_configurationDefinitions = [], km_configDefaults = None\<rparr>"

definition sample_env :: "int boot_env" where
  "sample_env = \<lparr>be_graph = sample_graph, be_tags = [], be_managerResolves = Inr (),
     be_resolve = (\<lambda>t. Inl (ValueErr t)), be_file = Inr None, be_identical = (\<lambda>a b. False),
     be_logHandler = Inr (), be_tests = Inr []\<rparr>"

end
