(* ===== verification/Kernel_Properties.thy ===== *)
theory Kernel_Properties
  imports Kernel
begin

text \<open>
  The properties of the kernel: order and termination of the module initialisation, what happens
  on cyclic imports, the agreement of \<open>verifyInstantiation\<close> with \<open>start\<close>, and shutdown.
\<close>

section \<open>Orderings of modules\<close>

definition import_rel :: "'n boot_env \<Rightarrow> (string \<times> string) set" where
  "import_rel env = {(k, j). j \<in> set (km_imports (be_graph env k))}"

definition dependencies_first :: "'n boot_env \<Rightarrow> string list \<Rightarrow> bool" where
  "dependencies_first env ks \<longleftrightarrow> distinct ks \<and>
     (\<forall>i < length ks. set (km_imports (be_graph env (ks ! i))) \<subseteq> set (take i ks))"

lemma dependencies_first_Nil [simp]: "dependencies_first env []"
  by (simp add: dependencies_first_def)

lemma dependencies_first_snoc:
  "dependencies_first env (ks @ [k]) \<longleftrightarrow>
     dependencies_first env ks \<and> k \<notin> set ks \<and> set (km_imports (be_graph env k)) \<subseteq> set ks"
  by (auto simp: dependencies_first_def nth_append less_Suc_eq all_conj_distrib)

lemma dependencies_first_closed:
  assumes "dependencies_first env ks" and "k \<in> set ks" and "(k, j) \<in> (import_rel env)\<^sup>*"
  shows "j \<in> set ks"
  using assms(3,2)
proof (induction rule: rtrancl_induct)
  case (step i j)
  then obtain n where "n < length ks" "ks ! n = i" by (auto simp: in_set_conv_nth)
  with assms(1) step.hyps(2) have "j \<in> set (take n ks)"
    by (auto simp: dependencies_first_def import_rel_def)
  then show ?case by (rule in_set_takeD)
qed

section \<open>Initialisation\<close>

definition finished :: "'n kernel \<Rightarrow> string list" where
  "finished kn = List.map_filter (\<lambda>ev. case ev of ModuleSpan k \<Rightarrow> Some k | _ \<Rightarrow> None) (kn_events kn)"

definition visited :: "'n kernel \<Rightarrow> string set" where
  "visited kn = {k. obj_has (kn_instantiated kn) k}"

lemma finished_log [simp]:
  "finished (log_event (Provide t) kn) = finished kn"
  "finished (log_event (OnInit k) kn) = finished kn"
  "finished (log_event (ModuleSpan k) kn) = finished kn @ [k]"
  by (simp_all add: finished_def log_event_def List.map_filter_def)

lemma visited_log [simp]: "visited (log_event ev kn) = visited kn"
  by (simp add: visited_def log_event_def)

lemma registerProviderRegistrations_keeps:
  "registerProviderRegistrations ps kn = (res, kn') \<Longrightarrow> finished kn' = finished kn \<and> visited kn' = visited kn"
  by (induction ps kn rule: registerProviderRegistrations.induct) (auto split: if_splits)

lemma finish_init_visited: "finish_init env key kn = (res, kn') \<Longrightarrow> visited kn' = visited kn"
  by (auto simp: finish_init_def dest!: registerProviderRegistrations_keeps
      split: prod.splits sum.splits option.splits)

lemma finish_init_finished: "finish_init env key kn = (Inr (), kn') \<Longrightarrow> finished kn' = finished kn @ [key]"
  by (auto simp: finish_init_def dest!: registerProviderRegistrations_keeps
      split: prod.splits sum.splits option.splits)

lemma finished_instantiated [simp]: "finished (kn\<lparr>kn_instantiated := ms\<rparr>) = finished kn"
  by (simp add: finished_def)

lemma visited_instantiated [simp]:
  "visited (kn\<lparr>kn_instantiated := obj_set k m (kn_instantiated kn)\<rparr>) = insert k (visited kn)"
  by (auto simp: visited_def)

lemma init_visited_mono:
  "initModule n env key kn = Some (res, kn') \<Longrightarrow> visited kn \<subseteq> visited kn' \<and> visited kn' \<subseteq> visited kn \<union> (import_rel env)\<^sup>* `` {key}"
  "initImports n env keys kn = Some (res, kn') \<Longrightarrow>
     visited kn \<subseteq> visited kn' \<and> visited kn' \<subseteq> visited kn \<union> (import_rel env)\<^sup>* `` set keys"
proof (induction n env key kn and n env keys kn arbitrary: res kn' and res kn' rule: initModule_initImports.induct)
  case (2 n env key kn)
  show ?case
  proof (cases "obj_has (kn_instantiated kn) key")
    case True
    with 2 show ?thesis by auto
  next
    case False
    let ?kn = "kn\<lparr>kn_instantiated := obj_set key (be_graph env key) (kn_instantiated kn)\<rparr>"
    obtain res1 kn1 where imp: "initImports n env (km_imports (be_graph env key)) ?kn = Some (res1, kn1)"
      using "2.prems" False by (auto split: option.splits)
    from "2.IH" [OF False imp] have "insert key (visited kn) \<subseteq> visited kn1"
      and "visited kn1 \<subseteq> insert key (visited kn) \<union> (import_rel env)\<^sup>* `` set (km_imports (be_graph env key))"
      by simp_all
    moreover have "(import_rel env)\<^sup>* `` set (km_imports (be_graph env key)) \<subseteq> (import_rel env)\<^sup>* `` {key}"
      by (auto simp: import_rel_def intro: converse_rtrancl_into_rtrancl)
    moreover have "visited kn' = visited kn1"
      using "2.prems" False imp by (auto split: sum.splits dest: finish_init_visited)
    ultimately show ?thesis by auto
  qed
next
  case (4 n env key keys kn)
  then show ?case by (fastforce split: option.splits sum.splits prod.splits)
qed auto

text \<open>With at least as much fuel as there are modules left, the recursion ends.\<close>

lemma init_returns:
  fixes env :: "'n boot_env"
  assumes "finite U" and "\<And>k j. k \<in> U \<Longrightarrow> j \<in> set (km_imports (be_graph env k)) \<Longrightarrow> j \<in> U"
  shows "key \<in> U \<Longrightarrow> card (U - visited kn) < n \<Longrightarrow> initModule n env key kn \<noteq> None"
    and "set keys \<subseteq> U \<Longrightarrow> card (U - visited kn) < n \<Longrightarrow> initImports n env keys kn \<noteq> None"
  using assms
proof (induction n env key kn and n env keys kn rule: initModule_initImports.induct)
  case (2 n env key kn)
  show ?case
  proof (cases "obj_has (kn_instantiated kn) key")
    case False
    let ?kn = "kn\<lparr>kn_instantiated := obj_set key (be_graph env key) (kn_instantiated kn)\<rparr>"
    have "key \<in> U - visited kn" using False 2 by (simp add: visited_def)
    then have "card (U - visited ?kn) < card (U - visited kn)"
      using \<open>finite U\<close> by (intro psubset_card_mono) auto
    with 2 have "card (U - visited ?kn) < n" by simp
    with "2.IH" [OF False] 2 have "initImports n env (km_imports (be_graph env key)) ?kn \<noteq> None" by blast
    with False show ?thesis by (auto split: sum.splits)
  qed simp
next
  case (4 n env key keys kn)
  then obtain res kn1 where step: "initModule n env key kn = Some (res, kn1)" by auto
  then have "visited kn \<subseteq> visited kn1" using init_visited_mono(1) by blast
  then have "card (U - visited kn1) \<le> card (U - visited kn)"
    using \<open>finite U\<close> by (intro card_mono) auto
  with 4 step show ?case by (cases res) auto
qed auto

lemma init_order:
  assumes "acyclic (import_rel env)"
  shows "initModule n env key kn = Some (Inr (), kn') \<Longrightarrow> dependencies_first env (finished kn) \<Longrightarrow>
      set (finished kn) \<subseteq> visited kn \<Longrightarrow>
      (\<And>x. x \<in> visited kn \<Longrightarrow> x \<notin> set (finished kn) \<Longrightarrow> (x, key) \<in> (import_rel env)\<^sup>+) \<Longrightarrow>
      dependencies_first env (finished kn') \<and> key \<in> set (finished kn') \<and> set (finished kn) \<subseteq> set (finished kn') \<and>
      visited kn' - set (finished kn') = visited kn - set (finished kn) \<and> set (finished kn') \<subseteq> visited kn'"
    and "initImports n env keys kn = Some (Inr (), kn') \<Longrightarrow> dependencies_first env (finished kn) \<Longrightarrow>
      set (finished kn) \<subseteq> visited kn \<Longrightarrow>
      (\<And>x k. x \<in> visited kn \<Longrightarrow> x \<notin> set (finished kn) \<Longrightarrow> k \<in> set keys \<Longrightarrow> (x, k) \<in> (import_rel env)\<^sup>+) \<Longrightarrow>
      dependencies_first env (finished kn') \<and> set keys \<subseteq> set (finished kn') \<and> set (finished kn) \<subseteq> set (finished kn') \<and>
      visited kn' - set (finished kn') = visited kn - set (finished kn) \<and> set (finished kn') \<subseteq> visited kn'"
  using assms
proof (induction n env key kn and n env keys kn arbitrary: kn' and kn' rule: initModule_initImports.induct)
  case (2 n env key kn)
  show ?case
  proof (cases "obj_has (kn_instantiated kn) key")
    case True
    then have "key \<in> visited kn" by (simp add: visited_def)
    moreover have "(key, key) \<notin> (import_rel env)\<^sup>+" using \<open>acyclic (import_rel env)\<close> by (auto simp: acyclic_def)
    ultimately have "key \<in> set (finished kn)" using "2.prems"(4) by blast
    with True "2.prems" show ?thesis by simp
  next
    case False
    let ?kn = "kn\<lparr>kn_instantiated := obj_set key (be_graph env key) (kn_instantiated kn)\<rparr>"
    have fresh: "key \<notin> visited kn" using False by (simp add: visited_def)
    obtain kn1 where imp: "initImports n env (km_imports (be_graph env key)) ?kn = Some (Inr (), kn1)"
      and fin: "finish_init env key kn1 = (Inr (), kn')"
      using "2.prems"(1) False by (auto split: option.splits sum.splits prod.splits)
    have gray: "(x, k) \<in> (import_rel env)\<^sup>+"
      if "x \<in> visited ?kn" "x \<notin> set (finished ?kn)" "k \<in> set (km_imports (be_graph env key))" for x k
    proof (cases "x = key")
      case True
      with that(3) show ?thesis by (auto simp: import_rel_def)
    next
      case False
      with that "2.prems"(4) have "(x, key) \<in> (import_rel env)\<^sup>+" by simp
      with that(3) show ?thesis by (auto simp: import_rel_def intro: trancl_into_trancl)
    qed
    have sub: "set (finished ?kn) \<subseteq> visited ?kn" and dep: "dependencies_first env (finished ?kn)"
      using "2.prems"(2,3) by auto
    from "2.IH" [OF False imp dep sub gray \<open>acyclic (import_rel env)\<close>]
    have r: "dependencies_first env (finished kn1)" "set (km_imports (be_graph env key)) \<subseteq> set (finished kn1)"
      "set (finished kn) \<subseteq> set (finished kn1)"
      "visited kn1 - set (finished kn1) = insert key (visited kn) - set (finished kn)"
      "set (finished kn1) \<subseteq> visited kn1" by auto
    have new: "key \<in> visited kn1" "key \<notin> set (finished kn1)"
      using r(4) fresh "2.prems"(3) by auto
    show ?thesis
      unfolding finish_init_finished [OF fin] finish_init_visited [OF fin]
      using r new fresh "2.prems"(3) by (auto simp: dependencies_first_snoc)
  qed
next
  case (4 n env key keys kn)
  then obtain kn1 where m: "initModule n env key kn = Some (Inr (), kn1)"
    and rest: "initImports n env keys kn1 = Some (Inr (), kn')"
    by (auto split: option.splits sum.splits prod.splits)
  have "dependencies_first env (finished kn1) \<and> key \<in> set (finished kn1) \<and> set (finished kn) \<subseteq> set (finished kn1) \<and>
      visited kn1 - set (finished kn1) = visited kn - set (finished kn) \<and> set (finished kn1) \<subseteq> visited kn1"
    using "4.IH"(1) [OF m] 4 by simp
  then have a: "dependencies_first env (finished kn1)" "key \<in> set (finished kn1)" "set (finished kn) \<subseteq> set (finished kn1)"
    "visited kn1 - set (finished kn1) = visited kn - set (finished kn)" "set (finished kn1) \<subseteq> visited kn1" by auto
  have "(x, k) \<in> (import_rel env)\<^sup>+" if "x \<in> visited kn1" "x \<notin> set (finished kn1)" "k \<in> set keys" for x k
  proof -
    have "x \<in> visited kn" "x \<notin> set (finished kn)" using that(1,2) a(4) by auto
    with that(3) "4.prems"(4) show ?thesis by simp
  qed
  from "4.IH"(2) [OF m refl refl rest a(1,5) this \<open>acyclic (import_rel env)\<close>] a show ?case by auto
qed auto

text \<open>The steps of one module: its service tags, its providers, its hook and its span.\<close>

definition module_steps :: "'n boot_env \<Rightarrow> string \<Rightarrow> boot_event list" where
  "module_steps env key = map (\<lambda>(t, v). Provide t) (module_tags (be_tags env) key) @
     map (\<lambda>(t, v). Provide t) (km_providers (be_graph env key)) @
     (if km_onInit (be_graph env key) = None then [] else [OnInit key]) @ [ModuleSpan key]"

lemma registered_providers:
  "registerProviderRegistrations ps kn = (Inr (), kn') \<Longrightarrow> kn_events kn' = kn_events kn @ map (\<lambda>(t, v). Provide t) ps"
  by (induction ps kn rule: registerProviderRegistrations.induct) (auto simp: log_event_def split: if_splits)

lemma finish_init_steps: "finish_init env key kn = (Inr (), kn') \<Longrightarrow> kn_events kn' = kn_events kn @ module_steps env key"
  by (auto simp: finish_init_def module_steps_def log_event_def dest!: registered_providers
      split: prod.splits sum.splits option.splits)

lemma init_steps:
  "initModule n env key kn = Some (Inr (), kn') \<Longrightarrow> kn_events kn = concat (map (module_steps env) (finished kn)) \<Longrightarrow>
     kn_events kn' = concat (map (module_steps env) (finished kn'))"
  "initImports n env keys kn = Some (Inr (), kn') \<Longrightarrow> kn_events kn = concat (map (module_steps env) (finished kn)) \<Longrightarrow>
     kn_events kn' = concat (map (module_steps env) (finished kn'))"
proof (induction n env key kn and n env keys kn arbitrary: kn' and kn' rule: initModule_initImports.induct)
  case (2 n env key kn)
  show ?case
  proof (cases "obj_has (kn_instantiated kn) key")
    case True
    with "2.prems" show ?thesis by simp
  next
    case False
    let ?kn = "kn\<lparr>kn_instantiated := obj_set key (be_graph env key) (kn_instantiated kn)\<rparr>"
    obtain kn1 where imp: "initImports n env (km_imports (be_graph env key)) ?kn = Some (Inr (), kn1)"
      and fin: "finish_init env key kn1 = (Inr (), kn')"
      using "2.prems"(1) False by (auto split: option.splits sum.splits prod.splits)
    have same: "kn_events ?kn = kn_events kn" "finished ?kn = finished kn" by simp_all
    have "kn_events ?kn = concat (map (module_steps env) (finished ?kn))"
      unfolding same by (rule "2.prems"(2))
    from "2.IH" [OF False imp this] show ?thesis
      by (simp add: finish_init_finished [OF fin] finish_init_steps [OF fin])
  qed
next
  case (4 n env key keys kn)
  obtain kn1 where m: "initModule n env key kn = Some (Inr (), kn1)"
    and rest: "initImports n env keys kn1 = Some (Inr (), kn')"
    using "4.prems"(1) by (auto split: option.splits sum.splits prod.splits)
  from "4.IH"(2) [OF m refl refl rest "4.IH"(1) [OF m "4.prems"(2)]] show ?case .
qed auto

section \<open>After initialisation\<close>

lemma registerProviderRegistrations_after:
  "registerProviderRegistrations ps kn = (res, kn') \<Longrightarrow> kn_afterInstantiated kn' = kn_afterInstantiated kn"
  by (induction ps kn rule: registerProviderRegistrations.induct) (auto simp: log_event_def split: if_splits)

lemma finish_init_after: "finish_init env key kn = (res, kn') \<Longrightarrow> kn_afterInstantiated kn' = kn_afterInstantiated kn"
  by (auto simp: finish_init_def log_event_def dest!: registerProviderRegistrations_after
      split: prod.splits sum.splits option.splits)

lemma init_after:
  "initModule n env key kn = Some (res, kn') \<Longrightarrow> kn_afterInstantiated kn' = kn_afterInstantiated kn"
  "initImports n env keys kn = Some (res, kn') \<Longrightarrow> kn_afterInstantiated kn' = kn_afterInstantiated kn"
proof (induction n env key kn and n env keys kn arbitrary: res kn' and res kn' rule: initModule_initImports.induct)
  case (2 n env key kn)
  show ?case
  proof (cases "obj_has (kn_instantiated kn) key")
    case True
    with 2 show ?thesis by simp
  next
    case False
    let ?kn = "kn\<lparr>kn_instantiated := obj_set key (be_graph env key) (kn_instantiated kn)\<rparr>"
    obtain res1 kn1 where imp: "initImports n env (km_imports (be_graph env key)) ?kn = Some (res1, kn1)"
      using "2.prems" False by (auto split: option.splits)
    from "2.IH" [OF False imp] have "kn_afterInstantiated kn1 = kn_afterInstantiated kn" by simp
    with "2.prems" False imp show ?thesis by (auto dest: finish_init_after split: sum.splits)
  qed
next
  case (4 n env key keys kn)
  obtain res1 kn1 where m: "initModule n env key kn = Some (res1, kn1)"
    using "4.prems" by (auto split: option.splits)
  from "4.IH"(1) [OF m] "4.prems" m "4.IH"(2) [OF m refl] show ?case
    by (cases res1) auto
qed auto

lemma configuration_after:
  "registerConfigurationDefinitions env kn = (res, kn') \<Longrightarrow> kn_afterInstantiated kn' = kn_afterInstantiated kn"
  "loadConfiguration env overrides kn = (res, kn') \<Longrightarrow> kn_afterInstantiated kn' = kn_afterInstantiated kn"
  by (auto simp: registerConfigurationDefinitions_def loadConfiguration_def Let_def split: sum.splits prod.splits)

lemma after_events [simp]: "kn_afterInstantiated (log_event ev kn) = kn_afterInstantiated kn"
  by (simp add: log_event_def)

lemma after_order:
  "afterInitModule n env key kn = Some (Inr (), kn') \<Longrightarrow> dependencies_first env (kn_afterInstantiated kn) \<Longrightarrow>
     dependencies_first env (kn_afterInstantiated kn') \<and> key \<in> set (kn_afterInstantiated kn') \<and>
     set (kn_afterInstantiated kn) \<subseteq> set (kn_afterInstantiated kn')"
  "afterInitImports n env keys kn = Some (Inr (), kn') \<Longrightarrow> dependencies_first env (kn_afterInstantiated kn) \<Longrightarrow>
     dependencies_first env (kn_afterInstantiated kn') \<and> set keys \<subseteq> set (kn_afterInstantiated kn') \<and>
     set (kn_afterInstantiated kn) \<subseteq> set (kn_afterInstantiated kn')"
proof (induction n env key kn and n env keys kn arbitrary: kn' and kn' rule: afterInitModule_afterInitImports.induct)
  case (2 n env key kn)
  then obtain kn1 where imp: "afterInitImports n env (km_imports (be_graph env key)) kn = Some (Inr (), kn1)"
    by (auto split: option.splits sum.splits prod.splits)
  from "2.IH" [OF imp "2.prems"(2)] "2.prems"(1) imp show ?case
    by (auto simp: dependencies_first_snoc split: if_splits option.splits sum.splits)
next
  case (4 n env key keys kn)
  then obtain kn1 where m: "afterInitModule n env key kn = Some (Inr (), kn1)"
    and rest: "afterInitImports n env keys kn1 = Some (Inr (), kn')"
    by (auto split: option.splits sum.splits prod.splits)
  from "4.IH"(1) [OF m "4.prems"(2)] "4.IH"(2) [OF m refl refl rest] show ?case by auto
qed auto

lemma after_imports_each:
  "afterInitImports n env keys kn = Some (Inr (), kn') \<Longrightarrow> k \<in> set keys \<Longrightarrow>
     \<exists>kn1 kn2. afterInitModule n env k kn1 = Some (Inr (), kn2)"
  by (induction keys arbitrary: kn) (auto split: option.splits sum.splits prod.splits)

lemma after_init_needs_no_cycle:
  "afterInitModule n env key kn = Some (Inr (), kn') \<Longrightarrow> (key, key) \<notin> (import_rel env)\<^sup>+"
proof (induction n arbitrary: key kn kn')
  case (Suc n)
  show ?case
  proof
    assume "(key, key) \<in> (import_rel env)\<^sup>+"
    then obtain j where j: "(key, j) \<in> import_rel env" and "(j, key) \<in> (import_rel env)\<^sup>*"
      by (meson tranclD)
    then have cyc: "(j, j) \<in> (import_rel env)\<^sup>+" by simp
    obtain kn1 where "afterInitImports n env (km_imports (be_graph env key)) kn = Some (Inr (), kn1)"
      using Suc.prems by (auto split: option.splits sum.splits prod.splits)
    moreover have "j \<in> set (km_imports (be_graph env key))" using j by (simp add: import_rel_def)
    ultimately obtain kn2 kn3 where "afterInitModule n env j kn2 = Some (Inr (), kn3)"
      using after_imports_each by blast
    then show False using Suc.IH cyc by blast
  qed
qed simp

lemma start_stages:
  assumes "start fuel env root overrides kn = Some (Inr (), kn')"
  shows "\<exists>kn1 kn2 kn3 kn4. initModule fuel env root kn = Some (Inr (), kn1) \<and>
    registerConfigurationDefinitions env kn1 = (Inr (), kn2) \<and> loadConfiguration env overrides kn2 = (Inr (), kn3) \<and>
    registerNonModuleScopedServiceTags env kn3 = (Inr (), kn4) \<and> afterInitModule fuel env root kn4 = Some (Inr (), kn') \<and>
    be_logHandler env = Inr ()"
  using assms
  by (auto simp: start_def and_then_def probe_logHandler_def split: option.splits sum.splits prod.splits)

section \<open>Properties of the boot\<close>

text \<open>
  Claim C7. On an acyclic graph, when the initialisation of a new kernel succeeds every module
  reachable from the root has been initialised exactly once, after all of its imports, and no
  other module has; and what the kernel did is, module by module in that order, to register its
  service tags, then its providers, to run its hook and to end its span, with nothing in between.
\<close>

theorem init_dependencies_first:
  assumes "acyclic (import_rel env)" and "initModule fuel env root new_Kernel = Some (Inr (), kn)"
  shows "dependencies_first env (finished kn) \<and> set (finished kn) = (import_rel env)\<^sup>* `` {root} \<and>
    visited kn = set (finished kn) \<and> kn_events kn = concat (map (module_steps env) (finished kn))"
proof -
  have new: "finished (new_Kernel :: 'a kernel) = []" "visited (new_Kernel :: 'a kernel) = {}"
    and events: "kn_events (new_Kernel :: 'a kernel) = []"
    by (simp_all add: finished_def visited_def new_Kernel_def List.map_filter_simps obj_has_def)
  have "kn_events kn = concat (map (module_steps env) (finished kn))"
    by (rule init_steps(1) [OF assms(2)]) (simp add: new events)
  from init_order(1) [OF assms] have r: "dependencies_first env (finished kn)" "root \<in> set (finished kn)"
    "visited kn - set (finished kn) = {}" "set (finished kn) \<subseteq> visited kn"
    by (simp_all add: new)
  moreover have "visited kn \<subseteq> (import_rel env)\<^sup>* `` {root}"
    using init_visited_mono(1) [OF assms(2)] by (simp add: new)
  moreover have "(import_rel env)\<^sup>* `` {root} \<subseteq> set (finished kn)"
    using dependencies_first_closed [OF r(1,2)] by auto
  ultimately have "set (finished kn) = (import_rel env)\<^sup>* `` {root}" and "visited kn = set (finished kn)" by blast+
  with r \<open>kn_events kn = _\<close> show ?thesis by blast
qed

lemma sample_acyclic: "acyclic (import_rel sample_env)"
  by (rule acyclicI_order [where f = "\<lambda>k. if k = ''root'' then 2 else if k = ''A'' \<or> k = ''B'' then 1 else (0::nat)"])
     (auto simp: import_rel_def sample_env_def sample_graph_def split: if_splits)

theorem init_dependencies_first_witness:
  "\<exists>kn. initModule 5 sample_env ''root'' new_Kernel = Some (Inr (), kn) \<and> dependencies_first sample_env (finished kn)"
proof -
  have "map_option fst (initModule 5 sample_env ''root'' new_Kernel) = Some (Inr ())"
    by code_simp
  then obtain kn where run: "initModule 5 sample_env ''root'' new_Kernel = Some (Inr (), kn)" by auto
  with init_dependencies_first [OF sample_acyclic run] show ?thesis by blast
qed

text \<open>
  The initialisation of any finite module graph ends, cyclic or not: with more fuel than
  there are modules it returns an outcome.
\<close>

theorem init_terminates:
  assumes "finite U" and "root \<in> U"
    and "\<And>k j. k \<in> U \<Longrightarrow> j \<in> set (km_imports (be_graph env k)) \<Longrightarrow> j \<in> U"
  shows "initModule (Suc (card U)) env root kn \<noteq> None"
proof -
  have "card (U - visited kn) \<le> card U" using assms(1) by (intro card_mono) auto
  then have "card (U - visited kn) < Suc (card U)" by simp
  with init_returns(1) [where U = U and env = env and key = root and n = "Suc (card U)" and kn = kn] assms
  show ?thesis by blast
qed

theorem init_terminates_witness: "initModule 3 (sample_env\<lparr>be_graph := \<lambda>k. (sample_graph k)\<lparr>km_imports := [''A'', ''B'']\<rparr>\<rparr>) ''A'' new_Kernel \<noteq> None"
  using init_terminates [of "{''A'', ''B''}" "''A''" "sample_env\<lparr>be_graph := \<lambda>k. (sample_graph k)\<lparr>km_imports := [''A'', ''B'']\<rparr>\<rparr>" new_Kernel]
  by (simp add: numeral_3_eq_3)

text \<open>
  A kernel whose module graph has a cycle through the root never finishes starting: the
  after-initialisation descends into the imports before it looks whether the module was done, so
  with no amount of fuel does \<open>start\<close> succeed, although the initialisation handles cycles.
\<close>

theorem cyclic_imports_never_start:
  assumes "(root, root) \<in> (import_rel env)\<^sup>+"
  shows "start fuel env root overrides kn \<noteq> Some (Inr (), kn')"
proof
  assume "start fuel env root overrides kn = Some (Inr (), kn')"
  from start_stages [OF this] obtain kn4 where "afterInitModule fuel env root kn4 = Some (Inr (), kn')" by blast
  with after_init_needs_no_cycle assms show False by blast
qed

theorem cyclic_imports_never_start_witness:
  "\<forall>fuel kn. start fuel (sample_env\<lparr>be_graph := \<lambda>k. (sample_graph k)\<lparr>km_imports := [''A'']\<rparr>\<rparr>) ''A'' [] new_Kernel \<noteq> Some (Inr (), kn)"
proof -
  have "(''A'', ''A'') \<in> import_rel (sample_env\<lparr>be_graph := \<lambda>k. (sample_graph k)\<lparr>km_imports := [''A'']\<rparr>\<rparr>)"
    by (simp add: import_rel_def)
  then show ?thesis by (intro allI cyclic_imports_never_start) auto
qed

text \<open>
  When \<open>start\<close> succeeds, every module reachable from the root has run its after-initialisation
  exactly once, after those of its imports.
\<close>

theorem start_after_init_order:
  assumes "start fuel env root overrides new_Kernel = Some (Inr (), kn)"
  shows "dependencies_first env (kn_afterInstantiated kn) \<and> (import_rel env)\<^sup>* `` {root} \<subseteq> set (kn_afterInstantiated kn)"
proof -
  from start_stages [OF assms] obtain kn1 kn2 kn3 kn4 where
    st: "initModule fuel env root new_Kernel = Some (Inr (), kn1)" "registerConfigurationDefinitions env kn1 = (Inr (), kn2)"
      "loadConfiguration env overrides kn2 = (Inr (), kn3)" "registerNonModuleScopedServiceTags env kn3 = (Inr (), kn4)"
    and after: "afterInitModule fuel env root kn4 = Some (Inr (), kn)" by blast
  have "kn_afterInstantiated kn4 = []"
    using init_after(1) [OF st(1)] configuration_after(1) [OF st(2)] configuration_after(2) [OF st(3)]
      registerProviderRegistrations_after [OF st(4) [unfolded registerNonModuleScopedServiceTags_def]]
    by (simp add: new_Kernel_def)
  with after_order(1) [OF after] have "dependencies_first env (kn_afterInstantiated kn)"
    and "root \<in> set (kn_afterInstantiated kn)" by simp_all
  with dependencies_first_closed show ?thesis by blast
qed

theorem start_after_init_order_witness:
  "\<exists>kn. start 5 sample_env ''root'' [] new_Kernel = Some (Inr (), kn) \<and>
     dependencies_first sample_env (kn_afterInstantiated kn)"
proof -
  have "map_option fst (start 5 sample_env ''root'' [] new_Kernel) = Some (Inr ())"
    by code_simp
  then obtain kn where run: "start 5 sample_env ''root'' [] new_Kernel = Some (Inr (), kn)" by auto
  with start_after_init_order [OF run] show ?thesis by blast
qed

section \<open>The dry run\<close>

definition phase_failed :: "report \<Rightarrow> bool" where
  "phase_failed r \<longleftrightarrow> list_ex (\<lambda>(p, st). st = Failed) (ir_phases r)"

lemma phase_failed_run:
  "runPhase p oc r = (ok, r', kn') \<Longrightarrow>
     phase_failed r' = (phase_failed r \<or> \<not> ok) \<and> map fst (ir_phases r') = map fst (ir_phases r) @ [p] \<and>
     oc = (if ok then Inr () else Inl (projl (fst oc)), kn') \<and> ir_tests r' = ir_tests r"
  by (auto simp: runPhase_def phase_failed_def split: prod.splits sum.splits)

lemma phase_failed_skip [simp]:
  "phase_failed (skipRemainingPhases ps r) = phase_failed r"
  "map fst (ir_phases (skipRemainingPhases ps r)) = map fst (ir_phases r) @ ps"
  "ir_tests (skipRemainingPhases ps r) = ir_tests r"
  by (induction ps) (auto simp: skipRemainingPhases_def phase_failed_def)

lemma phase_failed_missing [simp]:
  "phase_failed (r\<lparr>ir_missing := m\<rparr>) = phase_failed r" "ir_phases (r\<lparr>ir_missing := m\<rparr>) = ir_phases r"
  by (simp_all add: phase_failed_def)

lemma phase_failed_tests [simp]: "phase_failed (runInstantiationTests env r) = phase_failed r"
  by (simp add: runInstantiationTests_def phase_failed_def)

lemma run_phase_report [simp]:
  "phase_failed (fst (snd (runPhase p oc r))) \<longleftrightarrow> phase_failed r \<or> \<not> fst (runPhase p oc r)"
  "failedInstantiationTests (fst (snd (runPhase p oc r))) = failedInstantiationTests r"
  "failedInstantiationTests (skipRemainingPhases ps r) = failedInstantiationTests r"
  "failedInstantiationTests (mark_last st r) = failedInstantiationTests r"
  "failedInstantiationTests (r\<lparr>ir_missing := m\<rparr>) = failedInstantiationTests r"
  by (auto simp: runPhase_def phase_failed_def failedInstantiationTests_def skipRemainingPhases_def mark_last_def
      split: prod.splits sum.splits)

lemma verify_tags_plain:
  assumes "verify_tags fuel env root False stopOnFirst r kn = Some r'"
  shows "phase_failed r' \<longleftrightarrow> phase_failed r \<or> \<not> (\<exists>kn'. and_then (Some (registerNonModuleScopedServiceTags env kn)) (\<lambda>kn.
     and_then (afterInitModule fuel env root kn) (\<lambda>kn. Some (probe_logHandler env kn))) = Some (Inr (), kn'))"
  using assms
  by (auto simp: verify_tags_def verify_probe_def and_then_def Let_def
      split: prod.splits if_splits option.splits sum.splits dest!: phase_failed_run)

lemma verify_tags_without_tests:
  assumes "verify_tags fuel env root runTests stopOnFirst r kn = Some r'"
  shows "\<exists>r''. verify_tags fuel env root False stopOnFirst r kn = Some r'' \<and> phase_failed r'' = phase_failed r'"
  using assms by (auto simp: verify_tags_def verify_probe_def Let_def split_beta split: if_splits option.splits)

lemma verify_tags_result:
  assumes "verify_tags fuel env root runTests stopOnFirst r kn = Some r'"
  shows "phase_failed r' \<longleftrightarrow> phase_failed r \<or> \<not> (\<exists>kn'. and_then (Some (registerNonModuleScopedServiceTags env kn)) (\<lambda>kn.
     and_then (afterInitModule fuel env root kn) (\<lambda>kn. Some (probe_logHandler env kn))) = Some (Inr (), kn'))"
  using verify_tags_without_tests [OF assms] verify_tags_plain [of fuel env root stopOnFirst r kn] by metis

text \<open>A test of the container that throws or does not answer true.\<close>

definition a_test_fails :: "'n boot_env \<Rightarrow> bool" where
  "a_test_fails env = (case be_tests env of Inl _ \<Rightarrow> False | Inr ts \<Rightarrow> list_ex (\<lambda>(n, res). res \<noteq> Inr True) ts)"

lemma failed_tests_run:
  "failedInstantiationTests (runInstantiationTests env r) = [] \<longleftrightarrow> \<not> a_test_fails env"
proof -
  have "filter (\<lambda>(n, passed). \<not> passed) (map (\<lambda>(n, res). (n, case res of Inr passed \<Rightarrow> passed | Inl _ \<Rightarrow> False)) ts) = [] \<longleftrightarrow>
      \<not> list_ex (\<lambda>(n, res). res \<noteq> Inr True) ts" for ts :: "(string \<times> (thrown + bool)) list"
    by (induction ts) (auto split: sum.splits)
  then show ?thesis
    by (cases "be_tests env") (simp_all add: failedInstantiationTests_def runInstantiationTests_def a_test_fails_def)
qed

lemma verify_tags_tests:
  assumes "verify_tags fuel env root runTests stopOnFirst r kn = Some r'" and "failedInstantiationTests r = []"
  shows "phase_failed r' \<or> (failedInstantiationTests r' \<noteq> [] \<longleftrightarrow> runTests \<and> a_test_fails env)"
  using assms
  by (auto simp: verify_tags_def verify_probe_def Let_def split_beta failed_tests_run split: if_splits option.splits)

lemma verify_load_tests:
  assumes "verify_load fuel env root overrides runTests stopOnFirst checked r kn = Some r'" and "failedInstantiationTests r = []"
    and "checked \<or> phase_failed r"
  shows "phase_failed r' \<or> (failedInstantiationTests r' \<noteq> [] \<longleftrightarrow> runTests \<and> a_test_fails env)"
proof (cases checked)
  case True
  show ?thesis
  proof (cases "fst (runPhase ConfigurationLoad (loadConfiguration env overrides kn) r)")
    case ok: True
    show ?thesis
      by (rule verify_tags_tests [of fuel env root runTests stopOnFirst
            "fst (snd (runPhase ConfigurationLoad (loadConfiguration env overrides kn) r))"
            "snd (snd (runPhase ConfigurationLoad (loadConfiguration env overrides kn) r))"])
         (use assms in \<open>simp_all add: verify_load_def Let_def split_beta True ok\<close>)
  next
    case False
    show ?thesis
    proof (cases stopOnFirst)
      case True
      then show ?thesis using assms \<open>checked\<close> False by (auto simp: verify_load_def Let_def split_beta)
    next
      case going_on: False
      show ?thesis
        by (rule verify_tags_tests [of fuel env root runTests stopOnFirst
              "fst (snd (runPhase ConfigurationLoad (loadConfiguration env overrides kn) r))"
              "snd (snd (runPhase ConfigurationLoad (loadConfiguration env overrides kn) r))"])
           (use assms in \<open>simp_all add: verify_load_def Let_def split_beta True going_on\<close>)
    qed
  qed
qed (use assms in \<open>auto simp: verify_load_def Let_def split: if_splits dest: verify_tags_result\<close>)

text \<open>
  Claim C8. The dry run agrees with the boot: whatever phases it goes on with after a failure, a
  report of \<open>verifyInstantiation\<close> has errors exactly when \<open>start\<close> on the same kernel and input would
  not succeed, or when the instantiation tests were asked for (as they are by default) and one of
  them throws or does not answer true.
\<close>

theorem verify_agrees_with_start:
  assumes "verifyInstantiation fuel env root overrides runTests stopOnFirst kn = Some r"
  shows "hasErrors r \<longleftrightarrow> \<not> (\<exists>kn'. start fuel env root overrides kn = Some (Inr (), kn')) \<or>
    (runTests \<and> (case be_tests env of Inl _ \<Rightarrow> False | Inr ts \<Rightarrow> \<exists>n res. (n, res) \<in> set ts \<and> res \<noteq> Inr True))"
proof -
  obtain res1 kn1 where init: "initModule fuel env root kn = Some (res1, kn1)"
    using assms by (auto simp: verifyInstantiation_def split: option.splits)
  obtain res2 kn2 where defs: "registerConfigurationDefinitions env kn1 = (res2, kn2)"
    by (cases "registerConfigurationDefinitions env kn1")
  obtain res3 kn3 where load: "loadConfiguration env overrides kn2 = (res3, kn3)"
    by (cases "loadConfiguration env overrides kn2")
  have start: "(\<exists>kn'. start fuel env root overrides kn = Some (Inr (), kn')) \<longleftrightarrow>
      res1 = Inr () \<and> res2 = Inr () \<and> res3 = Inr () \<and>
      (\<exists>kn'. and_then (Some (registerNonModuleScopedServiceTags env kn3)) (\<lambda>kn.
       and_then (afterInitModule fuel env root kn) (\<lambda>kn. Some (probe_logHandler env kn))) = Some (Inr (), kn'))"
    unfolding start_def init by (cases res1; cases res2; cases res3) (simp_all add: and_then_def defs load)
  have phases: "phase_failed r \<longleftrightarrow> \<not> (\<exists>kn'. start fuel env root overrides kn = Some (Inr (), kn'))"
    using assms unfolding start
    by (cases res1; cases res2; cases res3;
        auto simp: verifyInstantiation_def init defs load runPhase_def verify_load_def Let_def mark_last_def phase_failed_def
          split: if_splits dest!: verify_tags_result; simp add: phase_failed_def skipRemainingPhases_def)+
  have none: "failedInstantiationTests \<lparr>ir_phases = ps, ir_missing = m, ir_tests = []\<rparr> = []" for ps m
    by (simp add: failedInstantiationTests_def)
  have "phase_failed r \<or> (failedInstantiationTests r \<noteq> [] \<longleftrightarrow> runTests \<and> a_test_fails env)"
    using assms
    by (auto simp: verifyInstantiation_def init Let_def split_beta none simp del: split_paired_Ex
        split: if_splits dest!: verify_load_tests)
  with phases show ?thesis
    by (auto simp: hasErrors_def overallStatus_def phase_failed_def a_test_fails_def list_ex_iff split: sum.splits)
qed

theorem verify_agrees_with_start_witness:
  "\<exists>r kn. verifyInstantiation 5 sample_env ''root'' [] True True new_Kernel = Some r \<and> \<not> hasErrors r \<and>
     start 5 sample_env ''root'' [] new_Kernel = Some (Inr (), kn)"
proof -
  have "map_option hasErrors (verifyInstantiation 5 sample_env ''root'' [] True True new_Kernel) = Some False"
    by code_simp
  then obtain r where run: "verifyInstantiation 5 sample_env ''root'' [] True True new_Kernel = Some r" and "\<not> hasErrors r"
    by auto
  with verify_agrees_with_start [OF run] show ?thesis by blast
qed

lemma verify_tags_phases:
  assumes "verify_tags fuel env root runTests stopOnFirst r kn = Some r'"
  shows "map fst (ir_phases r') = map fst (ir_phases r) @ [ServiceTagRegistration, AfterInitPhase, BootProbe, InstantiationTests]"
  using assms
  by (auto simp: verify_tags_def verify_probe_def runInstantiationTests_def Let_def
      split: prod.splits if_splits option.splits dest!: phase_failed_run)

lemma verify_load_phases:
  assumes "verify_load fuel env root overrides runTests stopOnFirst checked r kn = Some r'"
  shows "map fst (ir_phases r') = map fst (ir_phases r) @
    [ConfigurationLoad, ServiceTagRegistration, AfterInitPhase, BootProbe, InstantiationTests]"
  using assms
  by (auto simp: verify_load_def Let_def split: prod.splits if_splits dest!: phase_failed_run verify_tags_phases)

lemma mark_last_phases: "ir_phases r \<noteq> [] \<Longrightarrow> map fst (ir_phases (mark_last st r)) = map fst (ir_phases r)"
  by (cases "ir_phases r" rule: rev_cases) (simp_all add: mark_last_def)

lemma verify_phases:
  assumes "verifyInstantiation fuel env root overrides runTests stopOnFirst kn = Some r"
  shows "map fst (ir_phases r) = [ModuleRegistration, ConfigurationCheck, ConfigurationLoad,
    ServiceTagRegistration, AfterInitPhase, BootProbe, InstantiationTests]"
  using assms
  by (auto simp: verifyInstantiation_def Let_def runPhase_def mark_last_phases
      split: prod.splits if_splits option.splits sum.splits dest!: verify_load_phases)

text \<open>
  Every report of the dry run has exactly one entry for each boot phase, in the order of
  the phases, whichever of them failed or were skipped.
\<close>

theorem report_covers_every_phase:
  assumes "verifyInstantiation fuel env root overrides runTests stopOnFirst kn = Some r"
  shows "sorted (map fst (ir_phases r)) \<and> distinct (map fst (ir_phases r)) \<and> p \<in> set (map fst (ir_phases r))"
  unfolding verify_phases [OF assms] by (cases p) (simp_all add: less_eq_boot_phase_def)

theorem report_covers_every_phase_witness:
  "\<exists>r. verifyInstantiation 5 sample_env ''root'' [] True True new_Kernel = Some r \<and> BootProbe \<in> set (map fst (ir_phases r))"
proof -
  have "map_option hasErrors (verifyInstantiation 5 sample_env ''root'' [] True True new_Kernel) = Some False"
    by code_simp
  then obtain r where "verifyInstantiation 5 sample_env ''root'' [] True True new_Kernel = Some r" by auto
  from this report_covers_every_phase [OF this, of BootProbe] show ?thesis by blast
qed

section \<open>Shutdown\<close>

definition shutdowns :: "'n kernel \<Rightarrow> string list" where
  "shutdowns kn = List.map_filter (\<lambda>ev. case ev of Shutdown k \<Rightarrow> Some k | _ \<Rightarrow> None) (kn_events kn)"

lemma shutdowns_log [simp]: "shutdowns (log_event (Shutdown k) kn) = shutdowns kn @ [k]"
  by (simp add: shutdowns_def log_event_def List.map_filter_def)

lemma stopped_log [simp]: "kn_stopped (log_event ev kn) = kn_stopped kn"
  by (simp add: log_event_def)

lemma shutdown_modules_total:
  assumes "timeoutMs > 0"
  shows "\<exists>effs kn'. shutdown_modules timeoutMs ms kn = Some (effs, kn') \<and>
    shutdowns kn' = shutdowns kn @ map fst (filter (\<lambda>(k, m). km_onShutdown m \<noteq> None) ms) \<and>
    kn_stopped kn' = kn_stopped kn"
proof (induction ms arbitrary: kn)
  case (Cons m ms)
  obtain k md where m: "m = (k, md)" by (cases m)
  show ?case
  proof (cases "km_onShutdown md")
    case None
    with Cons.IH [of kn] show ?thesis by (simp add: m)
  next
    case (Some hook)
    have "\<exists>res. runWithTimeout timeoutMs k hook = Some res"
      using assms by (auto simp: runWithTimeout_def split: shutdown_hook.splits option.splits)
    then obtain res where res: "runWithTimeout timeoutMs k hook = Some res" ..
    from Cons.IH [of "log_event (Shutdown k) kn"] obtain effs kn' where
      "shutdown_modules timeoutMs ms (log_event (Shutdown k) kn) = Some (effs, kn')"
      "shutdowns kn' = (shutdowns kn @ [k]) @ map fst (filter (\<lambda>(k, m). km_onShutdown m \<noteq> None) ms)"
      "kn_stopped kn' = kn_stopped kn"
      by auto
    then show ?thesis by (simp add: m Some res)
  qed
qed simp

text \<open>
  With a positive timeout \<open>stop\<close> always returns, and it has then called the shutdown hook
  of every instantiated module that has one, in the order of instantiation, whatever hooks threw
  or never settled; a second call does nothing.
\<close>

theorem stop_runs_every_hook:
  assumes "timeoutMs \<noteq> Some 0" and "\<not> kn_stopped kn"
  shows "\<exists>effs kn'. stop timeoutMs env kn = Some (effs, kn') \<and>
    shutdowns kn' = shutdowns kn @
      filter (\<lambda>k. km_onShutdown (the (obj_get (kn_instantiated kn) k)) \<noteq> None) (obj_keys (kn_instantiated kn)) \<and>
    stop timeoutMs env kn' = Some ([], kn')"
proof -
  let ?t = "case timeoutMs of Some t \<Rightarrow> t | None \<Rightarrow> 10000"
  let ?ms = "map (\<lambda>k. (k, the (obj_get (kn_instantiated kn) k))) (obj_keys (kn_instantiated kn))"
  have "?t > 0" using assms(1) by (auto split: option.splits)
  from shutdown_modules_total [OF this, of ?ms "kn\<lparr>kn_stopped := True\<rparr>"] obtain effs kn' where
    "shutdown_modules ?t ?ms (kn\<lparr>kn_stopped := True\<rparr>) = Some (effs, kn')" and
    sh: "shutdowns kn' = shutdowns kn @ map fst (filter (\<lambda>(k, m). km_onShutdown m \<noteq> None) ?ms)" and
    "kn_stopped kn'"
    by (auto simp: shutdowns_def)
  moreover have "map fst (filter (\<lambda>(k, m). km_onShutdown m \<noteq> None) ?ms) =
      filter (\<lambda>k. km_onShutdown (the (obj_get (kn_instantiated kn) k)) \<noteq> None) (obj_keys (kn_instantiated kn))"
    by (simp add: filter_map o_def)
  ultimately show ?thesis using assms(2) by (simp add: stop_def)
qed

theorem stop_runs_every_hook_witness:
  "\<exists>effs kn'. stop None sample_env (new_Kernel\<lparr>kn_instantiated := [(''A'', (sample_graph ''A'')\<lparr>km_onShutdown := Some (Hook None (Inr ()))\<rparr>)]\<rparr>) =
     Some (effs, kn') \<and> shutdowns kn' = [''A'']"
proof -
  let ?kn = "new_Kernel\<lparr>kn_instantiated := [(''A'', (sample_graph ''A'')\<lparr>km_onShutdown := Some (Hook None (Inr ()))\<rparr>)]\<rparr>"
  have "obj_keys (kn_instantiated ?kn) = [''A'']" and "shutdowns ?kn = []"
    by (simp_all add: obj_keys_def shutdowns_def new_Kernel_def List.map_filter_simps)
  with stop_runs_every_hook [of None ?kn sample_env] show ?thesis
    by (auto simp: new_Kernel_def sample_graph_def)
qed

text \<open>
  Shutdown does not keep a module's dependencies alive until the module is down: in the
  graph where the root imports \<open>A\<close> and \<open>B\<close> and both import \<open>C\<close>, the hook of \<open>C\<close> runs before the hook
  of \<open>B\<close>, which depends on it.
\<close>

theorem shutdown_before_dependents:
  "map_option (\<lambda>(res, kn). map_option (\<lambda>(effs, kn'). shutdowns kn') (stop None sample_env kn))
     (start 5 sample_env ''root'' [] new_Kernel) = Some (Some [''root'', ''A'', ''C'', ''B'']) \<and>
   (''B'', ''C'') \<in> import_rel sample_env"
proof
  show "map_option (\<lambda>(res, kn). map_option (\<lambda>(effs, kn'). shutdowns kn') (stop None sample_env kn))
     (start 5 sample_env ''root'' [] new_Kernel) = Some (Some [''root'', ''A'', ''C'', ''B''])"
    by code_simp
  show "(''B'', ''C'') \<in> import_rel sample_env"
    by (simp add: import_rel_def sample_env_def sample_graph_def)
qed

end
