(* ===== verification/Calendar.thy ===== *)
theory Calendar
  imports Pristine_Prelude
begin

text \<open>
  The \<open>Date\<close> arithmetic of the language that the scheduling code uses: days and years of the
  proleptic Gregorian calendar, the local fields of an instant and the constructor from local
  fields. Instants are milliseconds since the epoch, a wall time is the local time written as if
  it were UTC. The clipping of instants beyond 8.64e15 milliseconds is left out.
\<close>

section \<open>Days, years and months\<close>

definition ms_per_day :: int where "ms_per_day = 86400000"

definition day_from_year :: "int \<Rightarrow> int" where
  "day_from_year y = 365 * (y - 1970) + (y - 1969) div 4 - (y - 1901) div 100 + (y - 1601) div 400"

definition year_of_day :: "int \<Rightarrow> int" where
  "year_of_day d =
     (let y = 1970 + (400 * d) div 146097 in
      if d < day_from_year y then y - 1 else if day_from_year (y + 1) \<le> d then y + 1 else y)"

definition leap_year :: "int \<Rightarrow> bool" where
  "leap_year y \<longleftrightarrow> y mod 4 = 0 \<and> (y mod 100 \<noteq> 0 \<or> y mod 400 = 0)"

text \<open>The day of the year on which month \<open>m\<close> (0 to 11) starts; month 12 is the next year.\<close>

definition month_start :: "int \<Rightarrow> int \<Rightarrow> int" where
  "month_start y m =
     (let leap = (if leap_year y then 1 else 0) in
      if m \<le> 0 then 0 else if m = 1 then 31 else if m = 2 then 59 + leap else if m = 3 then 90 + leap
      else if m = 4 then 120 + leap else if m = 5 then 151 + leap else if m = 6 then 181 + leap
      else if m = 7 then 212 + leap else if m = 8 then 243 + leap else if m = 9 then 273 + leap
      else if m = 10 then 304 + leap else if m = 11 then 334 + leap else 365 + leap)"

definition month_of_day :: "int \<Rightarrow> int" where
  "month_of_day d =
     (let y = year_of_day d; k = d - day_from_year y in
      if k < month_start y 1 then 0 else if k < month_start y 2 then 1 else if k < month_start y 3 then 2
      else if k < month_start y 4 then 3 else if k < month_start y 5 then 4 else if k < month_start y 6 then 5
      else if k < month_start y 7 then 6 else if k < month_start y 8 then 7 else if k < month_start y 9 then 8
      else if k < month_start y 10 then 9 else if k < month_start y 11 then 10 else 11)"

definition date_of_day :: "int \<Rightarrow> int" where
  "date_of_day d = d - day_from_year (year_of_day d) - month_start (year_of_day d) (month_of_day d) + 1"

definition weekday_of_day :: "int \<Rightarrow> int" where
  "weekday_of_day d = (d + 4) mod 7"

section \<open>Fields of a wall time\<close>

definition day_of :: "int \<Rightarrow> int" where "day_of w = w div ms_per_day"

definition getFullYear :: "int \<Rightarrow> int" where "getFullYear w = year_of_day (day_of w)"
definition getMonth :: "int \<Rightarrow> int" where "getMonth w = month_of_day (day_of w)"
definition getDate :: "int \<Rightarrow> int" where "getDate w = date_of_day (day_of w)"
definition getDay :: "int \<Rightarrow> int" where "getDay w = weekday_of_day (day_of w)"
definition getHours :: "int \<Rightarrow> int" where "getHours w = (w div 3600000) mod 24"
definition getMinutes :: "int \<Rightarrow> int" where "getMinutes w = (w div 60000) mod 60"
definition getSeconds :: "int \<Rightarrow> int" where "getSeconds w = (w div 1000) mod 60"

text \<open>The constructor from fields: years 0 to 99 mean 1900 to 1999, the other fields overflow.\<close>

definition make_day :: "int \<Rightarrow> int \<Rightarrow> int \<Rightarrow> int" where
  "make_day y m dt =
     (let y = (if 0 \<le> y \<and> y \<le> 99 then 1900 + y else y); ym = y + m div 12 in
      day_from_year ym + month_start ym (m mod 12) + dt - 1)"

definition make_wall :: "int \<Rightarrow> int \<Rightarrow> int \<Rightarrow> int \<Rightarrow> int \<Rightarrow> int \<Rightarrow> int" where
  "make_wall y m dt h mi s = make_day y m dt * ms_per_day + h * 3600000 + mi * 60000 + s * 1000"

section \<open>Time zones\<close>

text \<open>
  The host's time zone: the wall time of an instant and the instant of a wall time. A fixed-offset
  zone is the zone without transitions.
\<close>

record zone =
  zn_local :: "int \<Rightarrow> int"
  zn_utc :: "int \<Rightarrow> int"

definition fixed_zone :: "int \<Rightarrow> zone" where
  "fixed_zone off = \<lparr>zn_local = (\<lambda>t. t + off), zn_utc = (\<lambda>w. w - off)\<rparr>"

section \<open>Lemmas on days\<close>

lemma div_bounds: "0 < k \<Longrightarrow> k * (a div k) \<le> a \<and> a < k * (a div k) + k" for k a :: int
  using mult_div_mod_eq [of k a] pos_mod_sign [of k a] pos_mod_bound [of k a] by linarith

lemma div_plus_one: "0 < k \<Longrightarrow> (a + 1) div k = a div k + (if (a + 1) mod k = 0 then 1 else 0)" for k a :: int
proof -
  assume k: "0 < k"
  have a: "a + 1 = k * (a div k) + (a mod k + 1)" using mult_div_mod_eq [of k a] by linarith
  show ?thesis
  proof (cases "a mod k + 1 = k")
    case True
    then have e: "a + 1 = k * (a div k + 1)" using a by (simp add: algebra_simps)
    then have "(a + 1) div k = a div k + 1" using k by simp
    moreover have "(a + 1) mod k = 0" using e by simp
    ultimately show ?thesis by simp
  next
    case False
    then have r: "0 \<le> a mod k + 1" "a mod k + 1 < k"
      using pos_mod_sign [of k a] pos_mod_bound [of k a] k by linarith+
    have "(a + 1) div k = a div k" using a r by (intro int_div_pos_eq [where r = "a mod k + 1"]) auto
    moreover have "(a + 1) mod k = a mod k + 1" using a r by (intro int_mod_pos_eq [where q = "a div k"]) auto
    moreover have "a mod k + 1 \<noteq> 0" using pos_mod_sign [of k a] k by linarith
    ultimately show ?thesis by simp
  qed
qed

lemma day_from_year_bounds:
  "146097 * (y - 1970) - 506 \<le> 400 * day_from_year y"
  "400 * day_from_year y \<le> 146097 * (y - 1970) + 589"
proof -
  define q4 q100 q400 where "q4 = (y - 1969) div 4" and "q100 = (y - 1901) div 100" and "q400 = (y - 1601) div 400"
  have "4 * q4 \<le> y - 1969" "y - 1969 < 4 * q4 + 4" "100 * q100 \<le> y - 1901" "y - 1901 < 100 * q100 + 100"
    "400 * q400 \<le> y - 1601" "y - 1601 < 400 * q400 + 400"
    using div_bounds [of 4 "y - 1969"] div_bounds [of 100 "y - 1901"] div_bounds [of 400 "y - 1601"]
    by (simp_all add: q4_def q100_def q400_def)
  moreover have "day_from_year y = 365 * (y - 1970) + q4 - q100 + q400"
    by (simp add: day_from_year_def q4_def q100_def q400_def)
  ultimately show "146097 * (y - 1970) - 506 \<le> 400 * day_from_year y"
    "400 * day_from_year y \<le> 146097 * (y - 1970) + 589" by simp_all
qed

lemma day_from_year_Suc: "day_from_year (y + 1) = day_from_year y + (if leap_year y then 366 else 365)"
proof -
  have d: "(y + 1 - (c + 1)) div k = (y - (c + 1)) div k + (if y mod k = 0 then 1 else 0)"
    if "0 < k" "c mod k = 0" for c k :: int
  proof -
    have "(y - c) mod k = y mod k" using mod_diff_right_eq [of y c k] that(2) by simp
    moreover have "y - (c + 1) + 1 = y - c" by simp
    ultimately show ?thesis using div_plus_one [OF that(1), of "y - (c + 1)"] by simp
  qed
  have d4: "(y + 1 - 1969) div 4 = (y - 1969) div 4 + (if y mod 4 = 0 then 1 else 0)"
    using d [of 4 1968] by simp
  have d100: "(y + 1 - 1901) div 100 = (y - 1901) div 100 + (if y mod 100 = 0 then 1 else 0)"
    using d [of 100 1900] by simp
  have d400: "(y + 1 - 1601) div 400 = (y - 1601) div 400 + (if y mod 400 = 0 then 1 else 0)"
    using d [of 400 1600] by simp
  have c: "y mod 400 = 0 \<Longrightarrow> y mod 100 = 0" "y mod 100 = 0 \<Longrightarrow> y mod 4 = 0"
    using dvd_trans [of 100 400 y] dvd_trans [of 4 100 y] by (simp_all add: dvd_eq_mod_eq_0 [symmetric])
  define A B C where "A \<longleftrightarrow> y mod 4 = 0" and "B \<longleftrightarrow> y mod 100 = 0" and "C \<longleftrightarrow> y mod 400 = 0"
  have "day_from_year (y + 1) = 365 * (y + 1 - 1970) + ((y - 1969) div 4 + (if A then 1 else 0)) -
      ((y - 1901) div 100 + (if B then 1 else 0)) + ((y - 1601) div 400 + (if C then 1 else 0))"
    unfolding day_from_year_def d4 d100 d400 A_def B_def C_def ..
  also have "\<dots> = day_from_year y + 365 + (if A then 1 else 0) - (if B then 1 else 0) + (if C then 1 else 0)"
    by (simp add: day_from_year_def)
  finally have e: "day_from_year (y + 1) =
      day_from_year y + 365 + (if A then 1 else 0) - (if B then 1 else 0) + (if C then 1 else 0)" .
  have l: "leap_year y \<longleftrightarrow> A \<and> (\<not> B \<or> C)" by (simp add: leap_year_def A_def B_def C_def)
  have "C \<Longrightarrow> B" "B \<Longrightarrow> A" using c by (simp_all add: A_def B_def C_def)
  then show ?thesis unfolding e l by auto
qed

lemma year_of_day_bounds: "day_from_year (year_of_day d) \<le> d \<and> d < day_from_year (year_of_day d + 1)"
proof -
  define y where "y = 1970 + (400 * d) div 146097"
  have "y - 1970 = (400 * d) div 146097" by (simp add: y_def)
  then have y: "146097 * (y - 1970) \<le> 400 * d" "400 * d < 146097 * (y - 1970) + 146097"
    using div_bounds [of 146097 "400 * d"] by simp_all
  have lo: "day_from_year (y - 1) \<le> d" using day_from_year_bounds(2) [of "y - 1"] y(1) by simp
  have hi: "d < day_from_year (y + 2)" using day_from_year_bounds(1) [of "y + 2"] y(2) by simp
  have "year_of_day d = (if d < day_from_year y then y - 1 else if day_from_year (y + 1) \<le> d then y + 1 else y)"
    by (simp add: year_of_day_def y_def)
  then show ?thesis using lo hi by (auto simp: add.assoc)
qed

lemma day_from_year_less: "y < y' \<Longrightarrow> day_from_year y < day_from_year y'"
proof (induction "nat (y' - y)" arbitrary: y')
  case (Suc n)
  have step: "day_from_year (y' - 1) < day_from_year y'" using day_from_year_Suc [of "y' - 1"] by (simp split: if_splits)
  show ?case
  proof (cases "y = y' - 1")
    case True
    with step show ?thesis by simp
  next
    case False
    with Suc.hyps(2) Suc.prems have "day_from_year y < day_from_year (y' - 1)" by (intro Suc.hyps(1)) auto
    with step show ?thesis by simp
  qed
qed simp

lemma year_of_day_unique:
  assumes "day_from_year y \<le> d" and "d < day_from_year (y + 1)"
  shows "year_of_day d = y"
proof (rule ccontr)
  assume "year_of_day d \<noteq> y"
  then consider "year_of_day d + 1 \<le> y" | "y + 1 \<le> year_of_day d" by linarith
  then show False
  proof cases
    case 1
    then have "day_from_year (year_of_day d + 1) \<le> day_from_year y"
      using day_from_year_less [of "year_of_day d + 1" y] by (cases "year_of_day d + 1 = y") auto
    then show False using assms(1) year_of_day_bounds [of d] by linarith
  next
    case 2
    then have "day_from_year (y + 1) \<le> day_from_year (year_of_day d)"
      using day_from_year_less [of "y + 1" "year_of_day d"] by (cases "y + 1 = year_of_day d") auto
    then show False using assms(2) year_of_day_bounds [of d] by linarith
  qed
qed

lemma year_of_day_mono: "d \<le> d' \<Longrightarrow> year_of_day d \<le> year_of_day d'"
  using year_of_day_bounds [of d] year_of_day_bounds [of d'] day_from_year_less [of "year_of_day d' + 1" "year_of_day d"]
  by (cases "year_of_day d' + 1 = year_of_day d") force+

section \<open>Lemmas on months\<close>

lemma month_12: "month_start y 12 = day_from_year (y + 1) - day_from_year y"
  by (simp add: month_start_def day_from_year_Suc)

lemma int_0_11: "0 \<le> m \<Longrightarrow> m \<le> 11 \<Longrightarrow> m = 0 \<or> m = 1 \<or> m = 2 \<or> m = 3 \<or> m = 4 \<or> m = 5 \<or> m = 6 \<or>
    m = 7 \<or> m = 8 \<or> m = 9 \<or> m = 10 \<or> m = (11::int)"
  by presburger

lemma month_start_step: "0 \<le> m \<Longrightarrow> m \<le> 11 \<Longrightarrow> month_start y m < month_start y (m + 1)"
  by (drule (1) int_0_11, elim disjE) (simp_all add: month_start_def)

lemma month_of_day_bounds:
  assumes "k = d - day_from_year (year_of_day d)"
  shows "0 \<le> month_of_day d \<and> month_of_day d \<le> 11 \<and> month_start (year_of_day d) (month_of_day d) \<le> k \<and>
    k < month_start (year_of_day d) (month_of_day d + 1)"
proof -
  have "0 \<le> k" "k < month_start (year_of_day d) 12"
    using year_of_day_bounds [of d] by (simp_all add: assms month_12)
  then show ?thesis
    unfolding month_of_day_def Let_def assms [symmetric] by (auto simp: month_start_def [of _ 0])
qed

lemma month_start_less: "0 \<le> m \<Longrightarrow> m < m' \<Longrightarrow> m' \<le> 12 \<Longrightarrow> month_start y m < month_start y m'"
proof (induction "nat (m' - m)" arbitrary: m')
  case (Suc n)
  have step: "month_start y (m' - 1) < month_start y m'" using Suc.prems month_start_step [of "m' - 1" y] by simp
  show ?case
  proof (cases "m = m' - 1")
    case True
    with step show ?thesis by simp
  next
    case False
    have "month_start y m < month_start y (m' - 1)" using Suc.hyps(2) Suc.prems False by (intro Suc.hyps(1)) auto
    with step show ?thesis by simp
  qed
qed simp

lemma month_of_day_unique:
  assumes "year_of_day d = y" and "0 \<le> m" and "m \<le> 11"
    and "month_start y m \<le> d - day_from_year y" and "d - day_from_year y < month_start y (m + 1)"
  shows "month_of_day d = m"
proof -
  note b = month_of_day_bounds [OF refl, of d, unfolded assms(1)]
  show ?thesis
  proof (rule ccontr)
    assume "month_of_day d \<noteq> m"
    then consider "month_of_day d + 1 \<le> m" | "m + 1 \<le> month_of_day d" by linarith
    then show False
    proof cases
      case 1
      then have "month_start y (month_of_day d + 1) \<le> month_start y m"
        using month_start_less [of "month_of_day d + 1" m y] b assms(3) by (cases "month_of_day d + 1 = m") auto
      with b assms(4) show False by linarith
    next
      case 2
      then have "month_start y (m + 1) \<le> month_start y (month_of_day d)"
        using month_start_less [of "m + 1" "month_of_day d" y] b assms(2) by (cases "m + 1 = month_of_day d") auto
      with b assms(5) show False by linarith
    qed
  qed
qed

text \<open>The first day of the month after that of \<open>d\<close>.\<close>

definition next_month :: "int \<Rightarrow> int" where
  "next_month d = day_from_year (year_of_day d) + month_start (year_of_day d) (month_of_day d + 1)"

lemma next_month_greater: "d < next_month d"
  using month_of_day_bounds [OF refl, of d] by (simp add: next_month_def)

lemma same_month:
  assumes "d \<le> d'" and "d' < next_month d"
  shows "month_of_day d' = month_of_day d \<and> year_of_day d' = year_of_day d"
proof -
  let ?y = "year_of_day d" and ?m = "month_of_day d"
  note b = month_of_day_bounds [OF refl, of d]
  have "month_start ?y (?m + 1) \<le> month_start ?y 12"
    using month_start_less [of "?m + 1" 12 ?y] b by (cases "?m + 1 = 12") auto
  then have "d' < day_from_year (?y + 1)" using assms(2) month_12 [of ?y] by (simp add: next_month_def)
  then have y: "year_of_day d' = ?y"
    using assms(1) year_of_day_bounds [of d] by (intro year_of_day_unique) auto
  moreover have "month_of_day d' = ?m"
    using b assms by (intro month_of_day_unique [OF y]) (auto simp: next_month_def)
  ultimately show ?thesis by simp
qed

lemma make_day_current:
  assumes "99 < year_of_day d"
  shows "make_day (year_of_day d) (month_of_day d) (date_of_day d + j) = d + j"
  using assms month_of_day_bounds [OF refl, of d] by (simp add: make_day_def date_of_day_def)

lemma make_day_next_month:
  assumes "99 < year_of_day d"
  shows "make_day (year_of_day d) (month_of_day d + 1) 1 = next_month d"
proof -
  note b = month_of_day_bounds [OF refl, of d]
  show ?thesis
  proof (cases "month_of_day d = 11")
    case True
    have "month_start (year_of_day d + 1) 0 = 0" by (simp add: month_start_def)
    with True assms month_12 [of "year_of_day d"] show ?thesis by (simp add: make_day_def next_month_def)
  next
    case False
    with b assms show ?thesis by (simp add: make_day_def next_month_def Let_def)
  qed
qed

section \<open>Lemmas on wall times\<close>

definition wall :: "int \<Rightarrow> int \<Rightarrow> int \<Rightarrow> int \<Rightarrow> int" where
  "wall d h mi s = d * ms_per_day + h * 3600000 + mi * 60000 + s * 1000"

lemma make_wall_alt: "make_wall y m dt h mi s = wall (make_day y m dt) h mi s"
  by (simp add: make_wall_def wall_def)

lemma wall_fields:
  assumes "0 \<le> h" "h < 24" "0 \<le> mi" "mi < 60" "0 \<le> s" "s < 60" "0 \<le> ms" "ms < 1000"
  shows "day_of (wall d h mi s + ms) = d" "getHours (wall d h mi s + ms) = h"
    "getMinutes (wall d h mi s + ms) = mi" "getSeconds (wall d h mi s + ms) = s"
proof -
  have "(wall d h mi s + ms) div 1000 = d * 86400 + h * 3600 + mi * 60 + s"
    using assms by (intro int_div_pos_eq [where r = ms]) (auto simp: wall_def ms_per_day_def)
  moreover have "(wall d h mi s + ms) div 60000 = d * 1440 + h * 60 + mi"
    using assms by (intro int_div_pos_eq [where r = "s * 1000 + ms"]) (auto simp: wall_def ms_per_day_def)
  moreover have "(wall d h mi s + ms) div 3600000 = d * 24 + h"
    using assms by (intro int_div_pos_eq [where r = "mi * 60000 + s * 1000 + ms"]) (auto simp: wall_def ms_per_day_def)
  moreover show "day_of (wall d h mi s + ms) = d"
    using assms unfolding day_of_def
    by (intro int_div_pos_eq [where r = "h * 3600000 + mi * 60000 + s * 1000 + ms"]) (auto simp: wall_def ms_per_day_def)
  moreover have "(d * 86400 + h * 3600 + mi * 60 + s) mod 60 = s"
    using assms by (intro int_mod_pos_eq [where q = "d * 1440 + h * 60 + mi"]) auto
  moreover have "(d * 1440 + h * 60 + mi) mod 60 = mi"
    using assms by (intro int_mod_pos_eq [where q = "d * 24 + h"]) auto
  moreover have "(d * 24 + h) mod 24 = h"
    using assms by (intro int_mod_pos_eq [where q = d]) auto
  ultimately show "getHours (wall d h mi s + ms) = h" "getMinutes (wall d h mi s + ms) = mi"
    "getSeconds (wall d h mi s + ms) = s"
    by (simp_all add: getHours_def getMinutes_def getSeconds_def)
qed

lemma field_bounds:
  "0 \<le> getHours w" "getHours w < 24" "0 \<le> getMinutes w" "getMinutes w < 60" "0 \<le> getSeconds w" "getSeconds w < 60"
  by (simp_all add: getHours_def getMinutes_def getSeconds_def)

lemma wall_split: "w = wall (day_of w) (getHours w) (getMinutes w) (getSeconds w) + w mod 1000"
proof -
  have a: "w = 1000 * (w div 1000) + w mod 1000" by simp
  have b: "w div 1000 = 60 * (w div 60000) + (w div 1000) mod 60"
    using mult_div_mod_eq [of 60 "w div 1000"] zdiv_zmult2_eq [of 60 w 1000] by simp
  have c: "w div 60000 = 60 * (w div 3600000) + (w div 60000) mod 60"
    using mult_div_mod_eq [of 60 "w div 60000"] zdiv_zmult2_eq [of 60 w 60000] by simp
  have d: "w div 3600000 = 24 * (w div 86400000) + (w div 3600000) mod 24"
    using mult_div_mod_eq [of 24 "w div 3600000"] zdiv_zmult2_eq [of 24 w 3600000] by simp
  show ?thesis
    using a b c d unfolding wall_def day_of_def getHours_def getMinutes_def getSeconds_def ms_per_day_def by linarith
qed

end
