(* ===== verification/Cron_Expression.thy ===== *)
theory Cron_Expression
  imports Calendar Pristine_Errors
begin

text \<open>
  Cron expressions of the local-scheduling package (\<open>models/cron-expression.model.ts\<close>): the
  constructor, which parses and validates, and the search for the next execution date in the
  host's time zone, which is an argument.
\<close>

section \<open>Parsing\<close>

record cron =
  ce_expression :: string
  ce_hasSecondsField :: bool
  ce_seconds :: "int set"
  ce_minutes :: "int set"
  ce_hours :: "int set"
  ce_daysOfMonth :: "int set"
  ce_months :: "int set"
  ce_daysOfWeek :: "int set"
  ce_dayOfMonthRestricted :: bool
  ce_dayOfWeekRestricted :: bool

text \<open>The details of the error are its expression and, when known, its field, one to a line.\<close>

definition InvalidCronExpressionError :: "string \<Rightarrow> string \<Rightarrow> string option \<Rightarrow> thrown" where
  "InvalidCronExpressionError message expression field =
     new_PristineError ''InvalidCronExpressionError'' message None (Some ''INVALID_CRON_EXPRESSION'') (Some 400)
       (Some (expression @ (case field of None \<Rightarrow> [] | Some f \<Rightarrow> CHR 0x0A # f))) None None"

definition MONTH_NAMES :: "int obj" where
  "MONTH_NAMES = [(''JAN'', 1), (''FEB'', 2), (''MAR'', 3), (''APR'', 4), (''MAY'', 5), (''JUN'', 6),
     (''JUL'', 7), (''AUG'', 8), (''SEP'', 9), (''OCT'', 10), (''NOV'', 11), (''DEC'', 12)]"

definition DAY_OF_WEEK_NAMES :: "int obj" where
  "DAY_OF_WEEK_NAMES = [(''SUN'', 0), (''MON'', 1), (''TUE'', 2), (''WED'', 3), (''THU'', 4), (''FRI'', 5), (''SAT'', 6)]"

definition all_digits :: "string \<Rightarrow> bool" where
  "all_digits s \<longleftrightarrow> s \<noteq> [] \<and> list_all is_digit s"

text \<open>The bounds, the label and the names of a field.\<close>

record field_spec =
  fs_min :: int
  fs_max :: int
  fs_label :: string
  fs_names :: "int obj option"

definition parseValue :: "string \<Rightarrow> field_spec \<Rightarrow> string \<Rightarrow> thrown + int" where
  "parseValue orig fs token =
     (if token = [] then Inl (InvalidCronExpressionError (''The '' @ fs_label fs @ '' field has a malformed, empty value.'') orig (Some (fs_label fs)))
      else sum_bind
        (if fs_names fs \<noteq> None \<and> list_ex is_letter token then
           (case obj_get (the (fs_names fs)) (to_upper token) of
              None \<Rightarrow> Inl (InvalidCronExpressionError (''The '' @ fs_label fs @ '' field has an unknown name '' @ quoted token @ ''.'') orig (Some (fs_label fs)))
            | Some v \<Rightarrow> Inr v)
         else if all_digits token then Inr (int (num_value token))
         else Inl (InvalidCronExpressionError (''The '' @ fs_label fs @ '' field has an invalid value '' @ quoted token @ ''.'') orig (Some (fs_label fs))))
        (\<lambda>v. if v < fs_min fs \<or> v > fs_max fs then
            Inl (InvalidCronExpressionError (''The '' @ fs_label fs @ '' field value '' @ quoted token @ '' is out of range ('' @
              show_nat (nat (fs_min fs)) @ ''-'' @ show_nat (nat (fs_max fs)) @ '').'') orig (Some (fs_label fs)))
          else Inr v))"

text \<open>The step of a list element with its slash at position \<open>i\<close>.\<close>

definition parse_step :: "string \<Rightarrow> field_spec \<Rightarrow> string \<Rightarrow> string \<Rightarrow> thrown + int" where
  "parse_step orig fs segment stepPart =
     (if index_of (CHR ''/'') stepPart \<noteq> None then
        Inl (InvalidCronExpressionError (''The '' @ fs_label fs @ '' field element '' @ quoted segment @ '' has more than one step.'') orig (Some (fs_label fs)))
      else if \<not> all_digits stepPart then
        Inl (InvalidCronExpressionError (''The '' @ fs_label fs @ '' field element '' @ quoted segment @ '' has an invalid step '' @ quoted stepPart @ ''.'') orig (Some (fs_label fs)))
      else if num_value stepPart = 0 then
        Inl (InvalidCronExpressionError (''The '' @ fs_label fs @ '' field element '' @ quoted segment @ '' has a step of 0; the step must be greater than 0.'') orig (Some (fs_label fs)))
      else Inr (int (num_value stepPart)))"

function step_values :: "int \<Rightarrow> int \<Rightarrow> int \<Rightarrow> int list" where
  "step_values v high step = (if v > high \<or> step \<le> 0 then [] else v # step_values (v + step) high step)"
  by pat_completeness auto
termination by (relation "measure (\<lambda>(v, high, step). nat (high - v + 1))") auto

declare step_values.simps [simp del]

definition parse_bounds :: "string \<Rightarrow> field_spec \<Rightarrow> bool \<Rightarrow> string \<Rightarrow> thrown + int \<times> int" where
  "parse_bounds orig fs stepped rangePart =
     (if rangePart = ''*'' then Inr (fs_min fs, fs_max fs)
      else case index_of (CHR ''-'') rangePart of
        Some (Suc i) \<Rightarrow>
          sum_bind (parseValue orig fs (take (Suc i) rangePart)) (\<lambda>low.
          sum_bind (parseValue orig fs (drop (Suc (Suc i)) rangePart)) (\<lambda>high. Inr (low, high)))
      | _ \<Rightarrow> sum_bind (parseValue orig fs rangePart) (\<lambda>low. Inr (low, if stepped then fs_max fs else low)))"

definition parse_segment :: "string \<Rightarrow> field_spec \<Rightarrow> string \<Rightarrow> string \<Rightarrow> thrown + int list" where
  "parse_segment orig fs field segment =
     (if segment = [] then
        Inl (InvalidCronExpressionError (''The '' @ fs_label fs @ '' field '' @ quoted field @ '' contains an empty list element.'') orig (Some (fs_label fs)))
      else
        let slash = index_of (CHR ''/'') segment in
        sum_bind (case slash of None \<Rightarrow> Inr 1 | Some i \<Rightarrow> parse_step orig fs segment (drop (Suc i) segment)) (\<lambda>step.
        sum_bind (parse_bounds orig fs (slash \<noteq> None) (case slash of None \<Rightarrow> segment | Some i \<Rightarrow> take i segment)) (\<lambda>(low, high).
          if low > high then
            Inl (InvalidCronExpressionError (''The '' @ fs_label fs @ '' field element '' @ quoted segment @ '' is a descending range ('' @
              show_nat (nat low) @ '' > '' @ show_nat (nat high) @ ''); ranges must be ascending.'') orig (Some (fs_label fs)))
          else Inr (step_values low high step))))"

fun parse_segments :: "string \<Rightarrow> field_spec \<Rightarrow> string \<Rightarrow> string list \<Rightarrow> int set \<Rightarrow> thrown + int set" where
  "parse_segments orig fs field [] values = Inr values"
| "parse_segments orig fs field (seg # segs) values =
     sum_bind (parse_segment orig fs field seg) (\<lambda>vs. parse_segments orig fs field segs (values \<union> set vs))"

definition parseField :: "string \<Rightarrow> field_spec \<Rightarrow> string \<Rightarrow> thrown + int set" where
  "parseField orig fs field = parse_segments orig fs field (split_on (CHR '','') field) {}"

definition second_spec :: field_spec where
  "second_spec = \<lparr>fs_min = 0, fs_max = 59, fs_label = ''second'', fs_names = None\<rparr>"
definition minute_spec :: field_spec where
  "minute_spec = \<lparr>fs_min = 0, fs_max = 59, fs_label = ''minute'', fs_names = None\<rparr>"
definition hour_spec :: field_spec where
  "hour_spec = \<lparr>fs_min = 0, fs_max = 23, fs_label = ''hour'', fs_names = None\<rparr>"
definition day_of_month_spec :: field_spec where
  "day_of_month_spec = \<lparr>fs_min = 1, fs_max = 31, fs_label = ''day-of-month'', fs_names = None\<rparr>"
definition month_spec :: field_spec where
  "month_spec = \<lparr>fs_min = 1, fs_max = 12, fs_label = ''month'', fs_names = Some MONTH_NAMES\<rparr>"
definition day_of_week_spec :: field_spec where
  "day_of_week_spec = \<lparr>fs_min = 0, fs_max = 7, fs_label = ''day-of-week'', fs_names = Some DAY_OF_WEEK_NAMES\<rparr>"

definition parseDayOfWeek :: "string \<Rightarrow> string \<Rightarrow> thrown + int set" where
  "parseDayOfWeek orig field = sum_bind (parseField orig day_of_week_spec field) (\<lambda>raw. Inr ((\<lambda>v. if v = 7 then 0 else v) ` raw))"

text \<open>\<open>trim\<close> and the replacement of every run of white space by one space.\<close>

fun collapse :: "bool \<Rightarrow> string \<Rightarrow> string" where
  "collapse after_space [] = []"
| "collapse after_space (c # cs) =
     (if is_space c then (if after_space then collapse True cs else CHR '' '' # collapse True cs)
      else c # collapse False cs)"

definition normalize :: "string \<Rightarrow> string" where
  "normalize expression = collapse False (trim expression)"

definition new_CronExpression :: "string \<Rightarrow> thrown + cron" where
  "new_CronExpression expression =
     (let normalized = normalize expression; fields = split_on (CHR '' '') normalized in
      if normalized = [] then Inl (InvalidCronExpressionError ''A cron expression cannot be empty.'' expression None)
      else if length fields \<noteq> 5 \<and> length fields \<noteq> 6 then
        Inl (InvalidCronExpressionError (''A cron expression must have 5 fields (minute hour day-of-month month day-of-week), or 6 fields with a leading seconds field, but '' @
          show_nat (length fields) @ '' were provided.'') expression None)
      else
        let has = (length fields = 6); rest = (if has then tl fields else fields) in
        sum_bind (if has then parseField expression second_spec (hd fields) else Inr {0}) (\<lambda>seconds.
        sum_bind (parseField expression minute_spec (rest ! 0)) (\<lambda>minutes.
        sum_bind (parseField expression hour_spec (rest ! 1)) (\<lambda>hours.
        sum_bind (parseField expression day_of_month_spec (rest ! 2)) (\<lambda>daysOfMonth.
        sum_bind (parseField expression month_spec (rest ! 3)) (\<lambda>months.
        sum_bind (parseDayOfWeek expression (rest ! 4)) (\<lambda>daysOfWeek.
          Inr \<lparr>ce_expression = normalized, ce_hasSecondsField = has, ce_seconds = seconds, ce_minutes = minutes,
            ce_hours = hours, ce_daysOfMonth = daysOfMonth, ce_months = months, ce_daysOfWeek = daysOfWeek,
            ce_dayOfMonthRestricted = (rest ! 2 \<noteq> ''*''), ce_dayOfWeekRestricted = (rest ! 4 \<noteq> ''*'')\<rparr>)))))))"

definition isValid :: "string \<Rightarrow> bool" where
  "isValid expression = (case new_CronExpression expression of Inr _ \<Rightarrow> True | Inl _ \<Rightarrow> False)"

section \<open>The next execution date\<close>

definition matchesDay :: "cron \<Rightarrow> int \<Rightarrow> bool" where
  "matchesDay c w =
     (let dayOfMonthMatches = (getDate w \<in> ce_daysOfMonth c); dayOfWeekMatches = (getDay w \<in> ce_daysOfWeek c) in
      if ce_dayOfMonthRestricted c \<and> ce_dayOfWeekRestricted c then dayOfMonthMatches \<or> dayOfWeekMatches
      else dayOfMonthMatches \<and> dayOfWeekMatches)"

definition MAX_SCAN_YEARS :: int where "MAX_SCAN_YEARS = 8"
definition MAX_SCAN_ITERATIONS :: int where "MAX_SCAN_ITERATIONS = 1000000"

text \<open>One round of the scan: the wall time to go on with, or \<open>None\<close> when the candidate matches.\<close>

definition scan_step :: "cron \<Rightarrow> int \<Rightarrow> int option" where
  "scan_step c w =
     (if getMonth w + 1 \<notin> ce_months c then Some (make_wall (getFullYear w) (getMonth w + 1) 1 0 0 0)
      else if \<not> matchesDay c w then Some (make_wall (getFullYear w) (getMonth w) (getDate w + 1) 0 0 0)
      else if getHours w \<notin> ce_hours c then
        Some (make_wall (getFullYear w) (getMonth w) (getDate w) (getHours w + 1) 0 0)
      else if getMinutes w \<notin> ce_minutes c then
        Some (make_wall (getFullYear w) (getMonth w) (getDate w) (getHours w) (getMinutes w + 1) 0)
      else if ce_hasSecondsField c \<and> getSeconds w \<notin> ce_seconds c then
        Some (make_wall (getFullYear w) (getMonth w) (getDate w) (getHours w) (getMinutes w) (getSeconds w + 1))
      else None)"

function scan :: "zone \<Rightarrow> cron \<Rightarrow> int \<Rightarrow> int \<Rightarrow> int \<Rightarrow> int option" where
  "scan z c maxYear iterations candidate =
     (if iterations \<ge> MAX_SCAN_ITERATIONS then None
      else if getFullYear (zn_local z candidate) > maxYear then None
      else case scan_step c (zn_local z candidate) of
        None \<Rightarrow> Some candidate
      | Some w \<Rightarrow> scan z c maxYear (iterations + 1) (zn_utc z w))"
  by pat_completeness auto
termination by (relation "measure (\<lambda>(z, c, maxYear, iterations, candidate). nat (MAX_SCAN_ITERATIONS - iterations))") auto

declare scan.simps [simp del]

definition unit_ms :: "cron \<Rightarrow> int" where
  "unit_ms c = (if ce_hasSecondsField c then 1000 else 60000)"

definition getNextExecutionDate :: "zone \<Rightarrow> cron \<Rightarrow> int \<Rightarrow> int option" where
  "getNextExecutionDate z c from_ms =
     scan z c (getFullYear (zn_local z from_ms) + MAX_SCAN_YEARS) 0 ((from_ms div unit_ms c) * unit_ms c + unit_ms c)"

fun getNextExecutionDates :: "zone \<Rightarrow> cron \<Rightarrow> int \<Rightarrow> nat \<Rightarrow> int list" where
  "getNextExecutionDates z c cursor 0 = []"
| "getNextExecutionDates z c cursor (Suc n) =
     (case getNextExecutionDate z c cursor of None \<Rightarrow> [] | Some t \<Rightarrow> t # getNextExecutionDates z c t n)"

end
