(* ===== verification/Cron_Builder.thy ===== *)
theory Cron_Builder
  imports Cron_Expression
begin

text \<open>
  The fluent builder of cron expressions (\<open>builders/cron-expression.builder.ts\<close>). Its methods set
  text fields; the specification keeps what each field means, and the refinement theorem says that
  the text built by any sequence of calls parses to exactly those values.
\<close>

section \<open>The builder\<close>

record cron_builder =
  secondField :: "string option"
  minuteField :: string
  hourField :: string
  dayOfMonthField :: string
  monthField :: string
  dayOfWeekField :: string

definition new_CronExpressionBuilder :: cron_builder where
  "new_CronExpressionBuilder =
     \<lparr>secondField = None, minuteField = ''*'', hourField = ''*'', dayOfMonthField = ''*'', monthField = ''*'', dayOfWeekField = ''*''\<rparr>"

text \<open>The comma-separated list of integers.\<close>

definition list_field :: "int \<Rightarrow> int list \<Rightarrow> string" where
  "list_field n ns = join '','' (map show_int (n # ns))"

definition step_field :: "int \<Rightarrow> string" where
  "step_field s = ''*/'' @ show_int s"

definition range_field :: "int \<Rightarrow> int \<Rightarrow> int option \<Rightarrow> string" where
  "range_field start stop step =
     (case step of None \<Rightarrow> show_int start @ ''-'' @ show_int stop
      | Some s \<Rightarrow> show_int start @ ''-'' @ show_int stop @ ''/'' @ show_int s)"

text \<open>The methods, as the calls of a chain.\<close>

datatype builder_call =
    AtSecond int "int list" | EverySeconds int | SecondsBetween int int "int option"
  | AtMinute int "int list" | EveryMinutes int | MinutesBetween int int "int option"
  | AtHour int "int list" | EveryHours int | HoursBetween int int "int option"
  | OnDayOfMonth int "int list" | EveryDaysOfMonth int | DaysOfMonthBetween int int "int option"
  | InMonth int "int list" | MonthsBetween int int "int option"
  | OnDayOfWeek int "int list" | DaysOfWeekBetween int int "int option"
  | HourlyAtMinute int | DailyAt int int | WeeklyOn int int int | MonthlyOn int int int

fun builder_method :: "builder_call \<Rightarrow> cron_builder \<Rightarrow> cron_builder" where
  "builder_method (AtSecond n ns) b = b\<lparr>secondField := Some (list_field n ns)\<rparr>"
| "builder_method (EverySeconds s) b = b\<lparr>secondField := Some (step_field s)\<rparr>"
| "builder_method (SecondsBetween l h s) b = b\<lparr>secondField := Some (range_field l h s)\<rparr>"
| "builder_method (AtMinute n ns) b = b\<lparr>minuteField := list_field n ns\<rparr>"
| "builder_method (EveryMinutes s) b = b\<lparr>minuteField := step_field s\<rparr>"
| "builder_method (MinutesBetween l h s) b = b\<lparr>minuteField := range_field l h s\<rparr>"
| "builder_method (AtHour n ns) b = b\<lparr>hourField := list_field n ns\<rparr>"
| "builder_method (EveryHours s) b = b\<lparr>hourField := step_field s\<rparr>"
| "builder_method (HoursBetween l h s) b = b\<lparr>hourField := range_field l h s\<rparr>"
| "builder_method (OnDayOfMonth n ns) b = b\<lparr>dayOfMonthField := list_field n ns\<rparr>"
| "builder_method (EveryDaysOfMonth s) b = b\<lparr>dayOfMonthField := step_field s\<rparr>"
| "builder_method (DaysOfMonthBetween l h s) b = b\<lparr>dayOfMonthField := range_field l h s\<rparr>"
| "builder_method (InMonth n ns) b = b\<lparr>monthField := list_field n ns\<rparr>"
| "builder_method (MonthsBetween l h s) b = b\<lparr>monthField := range_field l h s\<rparr>"
| "builder_method (OnDayOfWeek n ns) b = b\<lparr>dayOfWeekField := list_field n ns\<rparr>"
| "builder_method (DaysOfWeekBetween l h s) b = b\<lparr>dayOfWeekField := range_field l h s\<rparr>"
| "builder_method (HourlyAtMinute m) b = b\<lparr>minuteField := show_int m, hourField := ''*''\<rparr>"
| "builder_method (DailyAt h m) b = b\<lparr>minuteField := show_int m, hourField := show_int h\<rparr>"
| "builder_method (WeeklyOn d h m) b = b\<lparr>minuteField := show_int m, hourField := show_int h, dayOfWeekField := show_int d\<rparr>"
| "builder_method (MonthlyOn d h m) b = b\<lparr>minuteField := show_int m, hourField := show_int h, dayOfMonthField := show_int d\<rparr>"

definition builder_toString :: "cron_builder \<Rightarrow> string" where
  "builder_toString b =
     (let fields = [minuteField b, hourField b, dayOfMonthField b, monthField b, dayOfWeekField b] in
      join '' '' (case secondField b of Some s \<Rightarrow> s # fields | None \<Rightarrow> fields))"

definition builder_build :: "cron_builder \<Rightarrow> thrown + cron" where
  "builder_build b = new_CronExpression (builder_toString b)"

section \<open>The meaning of a field\<close>

datatype field_value = Every | Values int "int list" | Step int | Range int int "int option"

fun render :: "field_value \<Rightarrow> string" where
  "render Every = ''*''"
| "render (Values n ns) = list_field n ns"
| "render (Step s) = step_field s"
| "render (Range l h s) = range_field l h s"

fun valid_value :: "field_spec \<Rightarrow> field_value \<Rightarrow> bool" where
  "valid_value fs Every \<longleftrightarrow> True"
| "valid_value fs (Values n ns) \<longleftrightarrow> set (n # ns) \<subseteq> {fs_min fs..fs_max fs}"
| "valid_value fs (Step s) \<longleftrightarrow> 0 < s"
| "valid_value fs (Range l h s) \<longleftrightarrow> fs_min fs \<le> l \<and> l \<le> h \<and> h \<le> fs_max fs \<and> (case s of None \<Rightarrow> True | Some k \<Rightarrow> 0 < k)"

fun meaning :: "field_spec \<Rightarrow> field_value \<Rightarrow> int set" where
  "meaning fs Every = {fs_min fs..fs_max fs}"
| "meaning fs (Values n ns) = set (n # ns)"
| "meaning fs (Step s) = {v. fs_min fs \<le> v \<and> v \<le> fs_max fs \<and> s dvd v - fs_min fs}"
| "meaning fs (Range l h s) = {v. l \<le> v \<and> v \<le> h \<and> (case s of None \<Rightarrow> 1 | Some k \<Rightarrow> k) dvd v - l}"

section \<open>Lemmas on the rendered text\<close>

lemma step_values_set:
  "0 < step \<Longrightarrow> set (step_values v high step) = {x. v \<le> x \<and> x \<le> high \<and> step dvd x - v}"
proof (induction v high step rule: step_values.induct)
  case (1 v high step)
  show ?case
  proof (cases "v > high")
    case False
    then have IH: "set (step_values (v + step) high step) = {x. v + step \<le> x \<and> x \<le> high \<and> step dvd x - (v + step)}"
      using 1 by simp
    have "step dvd x - (v + step) \<longleftrightarrow> step dvd x - v" for x
      using dvd_diff_commute [of step] by (metis add_diff_cancel_left' diff_diff_add dvd_diff_right_iff dvd_refl)
    moreover have "v + step \<le> x" if "v \<le> x" "x \<noteq> v" "step dvd x - v" for x
      using zdvd_imp_le [OF that(3)] that(1,2) by simp
    ultimately show ?thesis
      using False IH 1(2) by (subst step_values.simps) auto
  qed (auto simp: step_values.simps)
qed

text \<open>The characters of a rendered number.\<close>

lemma digit_not: "is_digit c \<Longrightarrow> c \<noteq> CHR ''/'' \<and> c \<noteq> CHR ''-'' \<and> c \<noteq> CHR '','' \<and> c \<noteq> CHR '' '' \<and> c \<noteq> CHR ''*'' \<and> \<not> is_letter c \<and> \<not> is_space c"
  by (auto simp: is_digit_def is_letter_def is_space_def)

lemma show_int_chars: "0 \<le> n \<Longrightarrow> c \<in> set (show_int n) \<Longrightarrow> is_digit c"
  using show_nat_digits [of "nat n"] by (auto simp: show_int_def list_all_iff)

lemma show_int_nonempty [simp]: "show_int n \<noteq> []"
  by (simp add: show_int_def)

lemma index_of_append: "c \<notin> set s \<Longrightarrow> index_of c (s @ c # t) = Some (length s)"
  by (induction s) auto

lemma index_of_none: "c \<notin> set s \<Longrightarrow> index_of c s = None"
  by (induction s) auto

lemma show_int_facts:
  assumes "0 \<le> n"
  shows "CHR ''/'' \<notin> set (show_int n)" "CHR ''-'' \<notin> set (show_int n)" "CHR '','' \<notin> set (show_int n)"
    "CHR '' '' \<notin> set (show_int n)" "CHR ''*'' \<notin> set (show_int n)" "\<not> list_ex is_letter (show_int n)"
    "all_digits (show_int n)" "int (num_value (show_int n)) = n" "show_int n \<noteq> ''*''"
  using assms show_int_chars [OF assms] digit_not
  by (auto simp: list_ex_iff all_digits_def list_all_iff) (auto simp: show_int_def)

lemma parseValue_show_int:
  "0 \<le> fs_min fs \<Longrightarrow> fs_min fs \<le> n \<Longrightarrow> n \<le> fs_max fs \<Longrightarrow> parseValue orig fs (show_int n) = Inr n"
  using show_int_facts [of n] by (simp add: parseValue_def)

lemma parse_step_show_int: "0 < s \<Longrightarrow> parse_step orig fs segment (show_int s) = Inr s"
  using show_int_facts [of s] index_of_none [of "CHR ''/''" "show_int s"] by (simp add: parse_step_def)

lemma step_field_alt: "step_field s = CHR ''*'' # CHR ''/'' # show_int s"
  by (simp add: step_field_def)

lemma parse_segment_star: "fs_min fs \<le> fs_max fs \<Longrightarrow> parse_segment orig fs field ''*'' = Inr (step_values (fs_min fs) (fs_max fs) 1)"
  by (simp add: parse_segment_def parse_bounds_def)

lemma parse_segment_step:
  "fs_min fs \<le> fs_max fs \<Longrightarrow> 0 < s \<Longrightarrow> parse_segment orig fs field (step_field s) = Inr (step_values (fs_min fs) (fs_max fs) s)"
  by (simp add: parse_segment_def parse_bounds_def step_field_alt parse_step_show_int)

lemma parse_segment_value:
  assumes "0 \<le> fs_min fs" and "fs_min fs \<le> n" and "n \<le> fs_max fs"
  shows "parse_segment orig fs field (show_int n) = Inr [n]"
proof -
  note f = show_int_facts [of n]
  have "parse_bounds orig fs False (show_int n) = Inr (n, n)"
    using f assms index_of_none [of "CHR ''-''" "show_int n"] by (simp add: parse_bounds_def parseValue_show_int)
  moreover have "step_values n n 1 = [n]" by (simp add: step_values.simps [of n n 1] step_values.simps [of "n + 1"])
  ultimately show ?thesis
    using f assms index_of_none [of "CHR ''/''" "show_int n"] by (simp add: parse_segment_def)
qed

lemma parse_bounds_range:
  assumes "0 \<le> fs_min fs" and "fs_min fs \<le> l" and "l \<le> h" and "h \<le> fs_max fs"
  shows "parse_bounds orig fs stepped (show_int l @ CHR ''-'' # show_int h) = Inr (l, h)"
proof -
  note f = show_int_facts [of l]
  obtain i where i: "length (show_int l) = Suc i" by (cases "show_int l") auto
  have "show_int l @ CHR ''-'' # show_int h \<noteq> ''*''" by (cases "show_int l") auto
  moreover have "index_of (CHR ''-'') (show_int l @ CHR ''-'' # show_int h) = Some (Suc i)"
    using f(2) assms i index_of_append [of "CHR ''-''" "show_int l" "show_int h"] by simp
  moreover have "take (Suc i) (show_int l @ CHR ''-'' # show_int h) = show_int l"
    "drop (Suc (Suc i)) (show_int l @ CHR ''-'' # show_int h) = show_int h"
    by (simp_all add: i)
  ultimately show ?thesis using assms by (simp add: parse_bounds_def parseValue_show_int del: take_append drop_append)
qed

lemma parse_segment_range:
  assumes "0 \<le> fs_min fs" and "valid_value fs (Range l h s)"
  shows "parse_segment orig fs field (range_field l h s) = Inr (step_values l h (case s of None \<Rightarrow> 1 | Some k \<Rightarrow> k))"
proof (cases s)
  case None
  have "CHR ''/'' \<notin> set (show_int l @ CHR ''-'' # show_int h)"
    using show_int_facts(1) [of l] show_int_facts(1) [of h] assms by auto
  then have "index_of (CHR ''/'') (show_int l @ CHR ''-'' # show_int h) = None" by (rule index_of_none)
  with None assms show ?thesis by (simp add: range_field_def parse_segment_def parse_bounds_range)
next
  case (Some k)
  let ?r = "show_int l @ CHR ''-'' # show_int h"
  have "CHR ''/'' \<notin> set ?r" using show_int_facts(1) [of l] show_int_facts(1) [of h] assms by auto
  then have i: "index_of (CHR ''/'') (?r @ CHR ''/'' # show_int k) = Some (length ?r)" by (rule index_of_append)
  have "parse_segment orig fs field (?r @ CHR ''/'' # show_int k) = Inr (step_values l h k)"
    unfolding parse_segment_def Let_def i
    using Some assms parse_bounds_range [of fs l h orig True] by (simp add: parse_step_show_int)
  with Some show ?thesis by (simp add: range_field_def)
qed

lemma parse_segments_values:
  assumes "0 \<le> fs_min fs" and "set ns \<subseteq> {fs_min fs..fs_max fs}"
  shows "parse_segments orig fs field (map show_int ns) A = Inr (A \<union> set ns)"
  using assms(2) by (induction ns arbitrary: A) (auto simp: parse_segment_value [OF assms(1)])

lemma comma_free_split:
  assumes "CHR '','' \<notin> set s"
  shows "parseField orig fs s = sum_bind (parse_segment orig fs s s) (\<lambda>vs. Inr (set vs))"
  by (simp add: parseField_def split_on_no_sep [OF assms])

text \<open>A rendered field parses to its meaning.\<close>

lemma parseField_render:
  assumes "0 \<le> fs_min fs" and "fs_min fs \<le> fs_max fs" and "valid_value fs v"
  shows "parseField orig fs (render v) = Inr (meaning fs v)"
proof (cases v)
  case Every
  then show ?thesis using assms by (simp add: comma_free_split parse_segment_star step_values_set) auto
next
  case (Values n ns)
  have "split_on (CHR '','') (join '','' (map show_int (n # ns))) = map show_int (n # ns)"
    using assms Values show_int_facts(3) by (intro split_on_join) auto
  then show ?thesis
    using Values assms parse_segments_values [of fs "n # ns" orig _ "{}"] by (simp add: list_field_def parseField_def del: list.map)
next
  case (Step s)
  then have "CHR '','' \<notin> set (step_field s)" using assms show_int_facts(3) [of s] by (auto simp: step_field_alt)
  then show ?thesis using Step assms by (simp add: comma_free_split parse_segment_step step_values_set)
next
  case (Range l h s)
  then have "CHR '','' \<notin> set (range_field l h s)"
    using assms show_int_facts(3) [of l] show_int_facts(3) [of h] show_int_facts(3) [of "the s"]
    by (auto simp: range_field_def split: option.splits)
  then show ?thesis
    using Range assms by (simp add: comma_free_split parse_segment_range step_values_set split: option.splits)
qed

section \<open>The assembled text\<close>

definition word_text :: "string \<Rightarrow> bool" where
  "word_text s \<longleftrightarrow> s \<noteq> [] \<and> (\<forall>c \<in> set s. \<not> is_space c)"

lemma collapse_word: "\<forall>c \<in> set s. \<not> is_space c \<Longrightarrow> s \<noteq> [] \<Longrightarrow> collapse b (s @ t) = s @ collapse False t"
proof (induction s arbitrary: b)
  case (Cons x xs)
  then show ?case by (cases xs) simp_all
qed simp

lemma space_is_space [simp]: "is_space (CHR '' '')"
  by (simp add: is_space_def)

lemma collapse_join:
  "list_all word_text xs \<Longrightarrow> collapse b (join '' '' xs) = join '' '' xs"
proof (induction "'' ''" xs arbitrary: b rule: join.induct)
  case (2 x)
  then show ?case using collapse_word [of x b "[]"] by (simp add: word_text_def)
next
  case (3 x y ys)
  then show ?case by (simp add: collapse_word word_text_def)
qed simp

lemma trim_noop:
  assumes "s \<noteq> []" and "\<not> is_space (hd s)" and "\<not> is_space (last s)"
  shows "trim s = s"
proof -
  have "dropWhile is_space s = s" using assms by (cases s) simp_all
  moreover have "dropWhile is_space (rev s) = rev s"
  proof (cases "rev s")
    case (Cons x xs)
    then have "last s = x" by (metis hd_rev list.sel(1))
    with assms Cons show ?thesis by simp
  qed simp
  ultimately show ?thesis by (simp add: trim_def)
qed

lemma normalize_join:
  assumes "xs \<noteq> []" and "list_all word_text xs"
  shows "normalize (join '' '' xs) = join '' '' xs"
proof -
  have h: "word_text (hd xs)" "word_text (last xs)" using assms by (auto simp: list_all_iff)
  have "\<not> is_space (hd (join '' '' xs))" using join_hd [OF assms(1)] h by (simp add: word_text_def)
  moreover have "join '' '' xs \<noteq> [] \<and> \<not> is_space (last (join '' '' xs))"
    using join_last [OF assms(1)] h by (simp add: word_text_def)
  ultimately show ?thesis using assms(2) by (simp add: normalize_def trim_noop collapse_join)
qed

lemma split_words: "xs \<noteq> [] \<Longrightarrow> list_all word_text xs \<Longrightarrow> split_on (CHR '' '') (join '' '' xs) = xs"
proof (rule split_on_join)
  assume words: "list_all word_text xs"
  show "\<forall>x \<in> set xs. CHR '' '' \<notin> set x"
  proof
    fix x
    assume "x \<in> set xs"
    with words have "\<forall>c \<in> set x. \<not> is_space c" by (simp add: list_all_iff word_text_def)
    then show "CHR '' '' \<notin> set x" using space_is_space by blast
  qed
qed

lemma show_int_word: "0 \<le> n \<Longrightarrow> word_text (show_int n)"
  using show_int_chars digit_not by (auto simp: word_text_def)

lemma join_comma_word: "ns \<noteq> [] \<Longrightarrow> \<forall>n \<in> set ns. 0 \<le> n \<Longrightarrow> word_text (join '','' (map show_int ns))"
proof (induction ns rule: induct_list012)
  case (3 x y zs)
  then have "word_text (join '','' (map show_int (y # zs)))" "word_text (show_int x)" by (auto intro: show_int_word)
  then show ?case by (auto simp: word_text_def is_space_def)
qed (auto intro: show_int_word)

lemma render_word:
  assumes "0 \<le> fs_min fs" and "valid_value fs v"
  shows "word_text (render v)"
proof (cases v)
  case (Values n ns)
  with assms show ?thesis using join_comma_word [of "n # ns"] by (force simp: list_field_def)
next
  case (Step s)
  with assms show ?thesis using show_int_word [of s] by (auto simp: step_field_alt word_text_def is_space_def)
next
  case (Range l h s)
  with assms show ?thesis using show_int_word [of l] show_int_word [of h] show_int_word [of "the s"]
    by (cases s) (auto simp: range_field_def word_text_def is_space_def)
qed (simp add: word_text_def is_space_def)

lemma render_star: "0 \<le> fs_min fs \<Longrightarrow> valid_value fs v \<Longrightarrow> render v = ''*'' \<longleftrightarrow> v = Every"
proof (cases v)
  case (Values n ns)
  assume "0 \<le> fs_min fs" "valid_value fs v"
  then have n: "0 \<le> n" using Values by simp
  have "hd (join '','' (map show_int (n # ns))) = hd (show_int n)" by (subst join_hd) simp_all
  moreover have "hd (show_int n) \<noteq> CHR ''*''" using show_int_facts(5) [OF n] by (metis hd_in_set show_int_nonempty)
  ultimately show ?thesis using Values by (auto simp: list_field_def simp del: list.map)
next
  case (Range l h s)
  have "show_int l @ CHR ''-'' # t \<noteq> ''*''" for t by (cases "show_int l") auto
  then show ?thesis using Range by (simp add: range_field_def split: option.splits)
qed (simp_all add: step_field_alt)

section \<open>The specification and the refinement\<close>

record cron_spec =
  sp_second :: "field_value option"
  sp_minute :: field_value
  sp_hour :: field_value
  sp_dayOfMonth :: field_value
  sp_month :: field_value
  sp_dayOfWeek :: field_value

definition spec_new :: cron_spec where
  "spec_new = \<lparr>sp_second = None, sp_minute = Every, sp_hour = Every, sp_dayOfMonth = Every, sp_month = Every, sp_dayOfWeek = Every\<rparr>"

fun spec_call :: "builder_call \<Rightarrow> cron_spec \<Rightarrow> cron_spec" where
  "spec_call (AtSecond n ns) b = b\<lparr>sp_second := Some (Values n ns)\<rparr>"
| "spec_call (EverySeconds s) b = b\<lparr>sp_second := Some (Step s)\<rparr>"
| "spec_call (SecondsBetween l h s) b = b\<lparr>sp_second := Some (Range l h s)\<rparr>"
| "spec_call (AtMinute n ns) b = b\<lparr>sp_minute := Values n ns\<rparr>"
| "spec_call (EveryMinutes s) b = b\<lparr>sp_minute := Step s\<rparr>"
| "spec_call (MinutesBetween l h s) b = b\<lparr>sp_minute := Range l h s\<rparr>"
| "spec_call (AtHour n ns) b = b\<lparr>sp_hour := Values n ns\<rparr>"
| "spec_call (EveryHours s) b = b\<lparr>sp_hour := Step s\<rparr>"
| "spec_call (HoursBetween l h s) b = b\<lparr>sp_hour := Range l h s\<rparr>"
| "spec_call (OnDayOfMonth n ns) b = b\<lparr>sp_dayOfMonth := Values n ns\<rparr>"
| "spec_call (EveryDaysOfMonth s) b = b\<lparr>sp_dayOfMonth := Step s\<rparr>"
| "spec_call (DaysOfMonthBetween l h s) b = b\<lparr>sp_dayOfMonth := Range l h s\<rparr>"
| "spec_call (InMonth n ns) b = b\<lparr>sp_month := Values n ns\<rparr>"
| "spec_call (MonthsBetween l h s) b = b\<lparr>sp_month := Range l h s\<rparr>"
| "spec_call (OnDayOfWeek n ns) b = b\<lparr>sp_dayOfWeek := Values n ns\<rparr>"
| "spec_call (DaysOfWeekBetween l h s) b = b\<lparr>sp_dayOfWeek := Range l h s\<rparr>"
| "spec_call (HourlyAtMinute m) b = b\<lparr>sp_minute := Values m [], sp_hour := Every\<rparr>"
| "spec_call (DailyAt h m) b = b\<lparr>sp_minute := Values m [], sp_hour := Values h []\<rparr>"
| "spec_call (WeeklyOn d h m) b = b\<lparr>sp_minute := Values m [], sp_hour := Values h [], sp_dayOfWeek := Values d []\<rparr>"
| "spec_call (MonthlyOn d h m) b = b\<lparr>sp_minute := Values m [], sp_hour := Values h [], sp_dayOfMonth := Values d []\<rparr>"

definition valid_spec :: "cron_spec \<Rightarrow> bool" where
  "valid_spec sp \<longleftrightarrow>
     (case sp_second sp of None \<Rightarrow> True | Some v \<Rightarrow> valid_value second_spec v) \<and> valid_value minute_spec (sp_minute sp) \<and>
     valid_value hour_spec (sp_hour sp) \<and> valid_value day_of_month_spec (sp_dayOfMonth sp) \<and>
     valid_value month_spec (sp_month sp) \<and> valid_value day_of_week_spec (sp_dayOfWeek sp)"

definition concrete :: "cron_spec \<Rightarrow> cron_builder" where
  "concrete sp = \<lparr>secondField = map_option render (sp_second sp), minuteField = render (sp_minute sp),
     hourField = render (sp_hour sp), dayOfMonthField = render (sp_dayOfMonth sp), monthField = render (sp_month sp),
     dayOfWeekField = render (sp_dayOfWeek sp)\<rparr>"

lemma builder_method_refines: "builder_method k (concrete sp) = concrete (spec_call k sp)"
  by (cases k) (simp_all add: concrete_def list_field_def)

lemma builder_chain_refines: "fold builder_method ks (concrete sp) = concrete (fold spec_call ks sp)"
  by (induction ks arbitrary: sp) (simp_all add: builder_method_refines)

lemma concrete_new: "concrete spec_new = new_CronExpressionBuilder"
  by (simp add: concrete_def spec_new_def new_CronExpressionBuilder_def)

definition cron_of_spec :: "cron_spec \<Rightarrow> cron" where
  "cron_of_spec sp =
     \<lparr>ce_expression = builder_toString (concrete sp), ce_hasSecondsField = (sp_second sp \<noteq> None),
      ce_seconds = (case sp_second sp of None \<Rightarrow> {0} | Some v \<Rightarrow> meaning second_spec v),
      ce_minutes = meaning minute_spec (sp_minute sp), ce_hours = meaning hour_spec (sp_hour sp),
      ce_daysOfMonth = meaning day_of_month_spec (sp_dayOfMonth sp), ce_months = meaning month_spec (sp_month sp),
      ce_daysOfWeek = (\<lambda>v. if v = 7 then 0 else v) ` meaning day_of_week_spec (sp_dayOfWeek sp),
      ce_dayOfMonthRestricted = (sp_dayOfMonth sp \<noteq> Every), ce_dayOfWeekRestricted = (sp_dayOfWeek sp \<noteq> Every)\<rparr>"

lemmas spec_bounds = second_spec_def minute_spec_def hour_spec_def day_of_month_spec_def month_spec_def day_of_week_spec_def

lemma specs_nonneg:
  "0 \<le> fs_min second_spec" "0 \<le> fs_min minute_spec" "0 \<le> fs_min hour_spec" "0 \<le> fs_min day_of_month_spec"
  "0 \<le> fs_min month_spec" "0 \<le> fs_min day_of_week_spec"
  "fs_min second_spec \<le> fs_max second_spec" "fs_min minute_spec \<le> fs_max minute_spec"
  "fs_min hour_spec \<le> fs_max hour_spec" "fs_min day_of_month_spec \<le> fs_max day_of_month_spec"
  "fs_min month_spec \<le> fs_max month_spec" "fs_min day_of_week_spec \<le> fs_max day_of_week_spec"
  by (simp_all add: spec_bounds)

text \<open>
  Claim C11. Whatever chain of builder calls is made, when the last value set for every field is
  valid the built text parses, and the parsed expression holds exactly the values the calls ask
  for: the listed values, every step-th value from the lower bound, the stepped range, or every
  value, with a seconds field only if one was set and weekday 7 read as Sunday.
\<close>

theorem builder_build_meaning:
  assumes "valid_spec (fold spec_call ks spec_new)"
  shows "builder_build (fold builder_method ks new_CronExpressionBuilder) = Inr (cron_of_spec (fold spec_call ks spec_new))"
proof -
  define sp where "sp = fold spec_call ks spec_new"
  have b: "fold builder_method ks new_CronExpressionBuilder = concrete sp"
    by (simp add: concrete_new [symmetric] builder_chain_refines sp_def)
  have v: "valid_value minute_spec (sp_minute sp)" "valid_value hour_spec (sp_hour sp)"
    "valid_value day_of_month_spec (sp_dayOfMonth sp)" "valid_value month_spec (sp_month sp)"
    "valid_value day_of_week_spec (sp_dayOfWeek sp)"
    and vs: "\<And>s. sp_second sp = Some s \<Longrightarrow> valid_value second_spec s"
    using assms by (auto simp: valid_spec_def sp_def)
  note words = v [THEN render_word [rotated]] and stars = v [THEN render_star [rotated]]
  note parse = parseField_render [OF specs_nonneg(2,8) v(1)] parseField_render [OF specs_nonneg(3,9) v(2)]
    parseField_render [OF specs_nonneg(4,10) v(3)] parseField_render [OF specs_nonneg(5,11) v(4)]
    parseField_render [OF specs_nonneg(6,12) v(5)]
  define fields where "fields = [render (sp_minute sp), render (sp_hour sp), render (sp_dayOfMonth sp),
    render (sp_month sp), render (sp_dayOfWeek sp)]"
  define all where "all = (case sp_second sp of None \<Rightarrow> fields | Some s \<Rightarrow> render s # fields)"
  have built: "builder_toString (concrete sp) = join '' '' all"
    by (simp add: builder_toString_def concrete_def all_def fields_def Let_def split: option.splits)
  have "list_all word_text all"
    using words specs_nonneg vs [THEN render_word [rotated]]
    by (auto simp: all_def fields_def split: option.splits)
  moreover have "all \<noteq> []" by (auto simp: all_def fields_def split: option.splits)
  ultimately have n: "normalize (join '' '' all) = join '' '' all" "split_on (CHR '' '') (join '' '' all) = all"
    "join '' '' all \<noteq> []"
    using normalize_join split_words join_last [of all "'' ''"] by (auto simp: list_all_iff word_text_def)
  have "new_CronExpression (join '' '' all) = Inr (cron_of_spec sp)"
    unfolding new_CronExpression_def Let_def n cron_of_spec_def built
    using parse stars specs_nonneg vs [THEN parseField_render [OF specs_nonneg(1,7)]]
    by (cases "sp_second sp") (simp_all add: all_def fields_def parseDayOfWeek_def n(3) [unfolded all_def fields_def])
  then show ?thesis unfolding builder_build_def b built sp_def [symmetric] .
qed

theorem builder_build_meaning_witness:
  "builder_build (fold builder_method [EveryMinutes 15, HoursBetween 9 17 None, OnDayOfWeek 1 [5, 7]] new_CronExpressionBuilder) =
   Inr (cron_of_spec (spec_new\<lparr>sp_minute := Step 15, sp_hour := Range 9 17 None, sp_dayOfWeek := Values 1 [5, 7]\<rparr>))"
  using builder_build_meaning [of "[EveryMinutes 15, HoursBetween 9 17 None, OnDayOfWeek 1 [5, 7]]"]
  by (simp add: valid_spec_def spec_bounds spec_new_def)

end
