(* ===== verification/Cron_Properties.thy ===== *)
theory Cron_Properties
  imports Cron_Expression
begin

text \<open>
  The properties of cron expressions: what the scan returns is a match in every time zone; in a
  zone without transitions it is the first match after the reference instant and the iteration
  ceiling is never reached; with a transition the result can lie before the reference instant.
\<close>

section \<open>Matching\<close>

definition cron_matches :: "cron \<Rightarrow> int \<Rightarrow> bool" where
  "cron_matches c w \<longleftrightarrow> getMonth w + 1 \<in> ce_months c \<and> matchesDay c w \<and> getHours w \<in> ce_hours c \<and>
     getMinutes w \<in> ce_minutes c \<and> (ce_hasSecondsField c \<longrightarrow> getSeconds w \<in> ce_seconds c)"

lemma scan_step_None: "scan_step c w = None \<longleftrightarrow> cron_matches c w"
  by (auto simp: scan_step_def cron_matches_def)

lemma scan_sound:
  "scan z c maxYear i t = Some t' \<Longrightarrow> cron_matches c (zn_local z t') \<and> getFullYear (zn_local z t') \<le> maxYear"
proof (induction z c maxYear i t rule: scan.induct)
  case (1 z c maxYear i t)
  show ?case
  proof (cases "scan_step c (zn_local z t)")
    case None
    then have "cron_matches c (zn_local z t)" by (simp add: scan_step_None)
    with "1.prems" None show ?thesis by (auto simp: scan.simps [of z c maxYear i t] split: if_splits)
  next
    case (Some w)
    with 1 show ?thesis by (auto simp: scan.simps [of z c maxYear i t] split: if_splits)
  qed
qed

section \<open>Positions of a wall time\<close>

lemma day_of_mono: "w \<le> v \<Longrightarrow> day_of w \<le> day_of v"
  by (simp add: day_of_def ms_per_day_def zdiv_mono1)

lemma day_of_less: "v < d * ms_per_day \<Longrightarrow> day_of v < d"
proof -
  assume "v < d * ms_per_day"
  moreover have "ms_per_day * day_of v \<le> v"
    using div_bounds [of ms_per_day v] by (simp add: day_of_def ms_per_day_def)
  ultimately have "ms_per_day * day_of v < ms_per_day * d" by (simp add: mult.commute)
  then show ?thesis by (simp add: ms_per_day_def)
qed

lemma div_between:
  fixes k :: int
  assumes "0 < k" and "w \<le> v" and "v < k * (w div k + 1)"
  shows "v div k = w div k"
proof -
  have "w div k \<le> v div k" using assms by (intro zdiv_mono1) auto
  moreover have "v div k < w div k + 1"
  proof (rule ccontr)
    assume "\<not> v div k < w div k + 1"
    then have "k * (w div k + 1) \<le> k * (v div k)" using assms(1) by simp
    also have "\<dots> \<le> v" using div_bounds [OF assms(1), of v] by simp
    finally show False using assms(3) by simp
  qed
  ultimately show ?thesis by simp
qed

lemma coarser_fields:
  "getMinutes w = (w div 60000) mod 60" "getHours w = ((w div 60000) div 60) mod 24"
  "day_of w = ((w div 60000) div 60) div 24" "day_of w = (w div 3600000) div 24"
  "w div 60000 = (w div 1000) div 60"
  by (simp_all add: getMinutes_def getHours_def day_of_def ms_per_day_def zdiv_zmult2_eq [symmetric])

lemma cron_matches_day:
  assumes "day_of v = day_of w"
  shows "getMonth v = getMonth w" "matchesDay c v = matchesDay c w" "getFullYear v = getFullYear w"
  using assms by (simp_all add: getMonth_def matchesDay_def getDate_def getDay_def getFullYear_def)

lemma wall_hour_overflow: "wall d 24 0 0 = wall (d + 1) 0 0 0"
  by (simp add: wall_def ms_per_day_def algebra_simps)

lemma wall_minute_overflow: "wall d h 60 0 = wall d (h + 1) 0 0"
  by (simp add: wall_def algebra_simps)

lemma wall_second_overflow: "wall d h mi 60 = wall d h (mi + 1) 0"
  by (simp add: wall_def algebra_simps)

section \<open>One round of the scan\<close>

text \<open>An expression whose fields are non-empty and within their bounds, as parsing makes them.\<close>

definition wf_cron :: "cron \<Rightarrow> bool" where
  "wf_cron c \<longleftrightarrow> ce_hours c \<noteq> {} \<and> ce_hours c \<subseteq> {0..23} \<and> ce_minutes c \<noteq> {} \<and> ce_minutes c \<subseteq> {0..59} \<and>
     ce_seconds c \<noteq> {} \<and> ce_seconds c \<subseteq> {0..59}"

definition next_wall :: "cron \<Rightarrow> int \<Rightarrow> int" where
  "next_wall c w =
     (let d = day_of w; h = getHours w; mi = getMinutes w; s = getSeconds w in
      if getMonth w + 1 \<notin> ce_months c then wall (next_month d) 0 0 0
      else if \<not> matchesDay c w then wall (d + 1) 0 0 0
      else if h \<notin> ce_hours c then wall d (h + 1) 0 0
      else if mi \<notin> ce_minutes c then wall d h (mi + 1) 0
      else wall d h mi (s + 1))"

lemma scan_step_next_wall:
  assumes "99 < getFullYear w" and "scan_step c w = Some w'"
  shows "w' = next_wall c w"
proof -
  have y: "99 < year_of_day (day_of w)" using assms(1) by (simp add: getFullYear_def)
  have "make_day (getFullYear w) (getMonth w) (getDate w) = day_of w"
    "make_day (getFullYear w) (getMonth w) (getDate w + 1) = day_of w + 1"
    "make_day (getFullYear w) (getMonth w + 1) 1 = next_month (day_of w)"
    using make_day_current [OF y, of 0] make_day_current [OF y, of 1] make_day_next_month [OF y]
    by (simp_all add: getFullYear_def getMonth_def getDate_def)
  with assms(2) show ?thesis
    by (auto simp: scan_step_def next_wall_def make_wall_alt Let_def split: if_splits)
qed

lemma no_match_until_next_wall:
  assumes "\<not> cron_matches c w" and "w mod unit_ms c = 0" and "w \<le> v" and "v < next_wall c w"
    and "v mod unit_ms c = 0"
  shows "\<not> cron_matches c v"
proof -
  let ?d = "day_of w" and ?h = "getHours w" and ?mi = "getMinutes w" and ?s = "getSeconds w"
  have split: "w = wall ?d ?h ?mi ?s + w mod 1000" by (rule wall_split)
  consider (month) "getMonth w + 1 \<notin> ce_months c"
    | (day) "getMonth w + 1 \<in> ce_months c" "\<not> matchesDay c w"
    | (hour) "getMonth w + 1 \<in> ce_months c" "matchesDay c w" "?h \<notin> ce_hours c"
    | (minute) "getMonth w + 1 \<in> ce_months c" "matchesDay c w" "?h \<in> ce_hours c" "?mi \<notin> ce_minutes c"
    | (second) "getMonth w + 1 \<in> ce_months c" "matchesDay c w" "?h \<in> ce_hours c" "?mi \<in> ce_minutes c"
        "ce_hasSecondsField c" "?s \<notin> ce_seconds c"
    using assms(1) by (auto simp: cron_matches_def)
  then show ?thesis
  proof cases
    case month
    then have "v < next_month ?d * ms_per_day" using assms(4) by (simp add: next_wall_def wall_def Let_def)
    then have "day_of v < next_month ?d" by (rule day_of_less)
    with day_of_mono [OF assms(3)] same_month have "getMonth v = getMonth w" by (simp add: getMonth_def)
    with month show ?thesis by (simp add: cron_matches_def)
  next
    case day
    then have "v < (?d + 1) * ms_per_day" using assms(4) by (simp add: next_wall_def wall_def Let_def)
    then have "day_of v < ?d + 1" by (rule day_of_less)
    with day_of_mono [OF assms(3)] have "day_of v = ?d" by simp
    with day show ?thesis by (simp add: cron_matches_def cron_matches_day(2) [of v w])
  next
    case hour
    have "w div 3600000 = ?d * 24 + ?h"
      using mult_div_mod_eq [of 24 "w div 3600000"] by (simp add: coarser_fields(4) getHours_def)
    moreover have "v < wall ?d (?h + 1) 0 0" using hour assms(4) by (simp add: next_wall_def Let_def)
    ultimately have "v < 3600000 * (w div 3600000 + 1)" by (simp add: wall_def ms_per_day_def algebra_simps)
    then have "v div 3600000 = w div 3600000" using assms(3) by (intro div_between) auto
    then have "getHours v = ?h" by (simp add: getHours_def)
    with hour show ?thesis by (simp add: cron_matches_def)
  next
    case minute
    have "w div 60000 = (?d * 24 + ?h) * 60 + ?mi"
      using mult_div_mod_eq [of 60 "w div 60000"] mult_div_mod_eq [of 24 "w div 60000 div 60"]
      by (simp add: coarser_fields(1,2,3))
    moreover have "v < wall ?d ?h (?mi + 1) 0" using minute assms(4) by (simp add: next_wall_def Let_def)
    ultimately have "v < 60000 * (w div 60000 + 1)" by (simp add: wall_def ms_per_day_def algebra_simps)
    then have "v div 60000 = w div 60000" using assms(3) by (intro div_between) auto
    then have "getMinutes v = ?mi" by (simp add: getMinutes_def)
    with minute show ?thesis by (simp add: cron_matches_def)
  next
    case second
    then have "w mod 1000 = 0" using assms(2) by (simp add: unit_ms_def)
    with split have "w = wall ?d ?h ?mi ?s" by simp
    moreover have "v < wall ?d ?h ?mi (?s + 1)" using second assms(4) by (simp add: next_wall_def Let_def)
    ultimately have "v < w + 1000" by (simp add: wall_def)
    moreover have "1000 * (w div 1000) = w" using \<open>w mod 1000 = 0\<close> mult_div_mod_eq [of 1000 w] by simp
    ultimately have "v < 1000 * (w div 1000 + 1)" by simp
    then have "v div 1000 = w div 1000" using assms(3) by (intro div_between) auto
    then have "getSeconds v = ?s" by (simp add: getSeconds_def)
    with second show ?thesis by (simp add: cron_matches_def)
  qed
qed

section \<open>The number of rounds\<close>

text \<open>
  A bound on the rounds a scan needs from a wall time: within a minute, an hour and a day, where a
  field with no allowed value ahead costs the overflow into the next coarser unit, and one round
  for every day left.
\<close>

definition second_rounds :: "cron \<Rightarrow> int \<Rightarrow> int" where
  "second_rounds c s =
     (if \<not> ce_hasSecondsField c \<or> s \<in> ce_seconds c then 0
      else if \<exists>x \<in> ce_seconds c. s \<le> x then 60 - s else 60 - s + 228)"

definition minute_rounds :: "cron \<Rightarrow> int \<Rightarrow> int \<Rightarrow> int" where
  "minute_rounds c mi s =
     (if mi \<in> ce_minutes c then second_rounds c s
      else if \<exists>x \<in> ce_minutes c. mi \<le> x then 60 - mi + 60 else 60 - mi + 168)"

definition hour_rounds :: "cron \<Rightarrow> int \<Rightarrow> int \<Rightarrow> int \<Rightarrow> int" where
  "hour_rounds c h mi s =
     (if h \<in> ce_hours c then minute_rounds c mi s
      else if \<exists>x \<in> ce_hours c. h \<le> x then 24 - h + 120 else 24 - h + 144)"

definition day_rounds :: "cron \<Rightarrow> int \<Rightarrow> int" where
  "day_rounds c w =
     (if getMonth w + 1 \<in> ce_months c \<and> matchesDay c w
      then hour_rounds c (getHours w) (getMinutes w) (getSeconds w) else 144)"

lemma second_rounds_bounds:
  assumes "wf_cron c" and "0 \<le> s" and "s < 60"
  shows "0 \<le> second_rounds c s" "second_rounds c s \<le> 288" "second_rounds c 0 \<le> 60"
proof -
  have "\<exists>x \<in> ce_seconds c. 0 \<le> x" using assms(1) by (auto simp: wf_cron_def)
  then show "second_rounds c 0 \<le> 60" by (simp add: second_rounds_def)
  show "0 \<le> second_rounds c s" "second_rounds c s \<le> 288" using assms(2,3) by (auto simp: second_rounds_def)
qed

lemma minute_rounds_bounds:
  assumes "wf_cron c" and "0 \<le> mi" and "mi < 60" and "0 \<le> s" and "s < 60"
  shows "0 \<le> minute_rounds c mi s" "minute_rounds c mi s \<le> 288" "minute_rounds c mi 0 \<le> 228" "minute_rounds c 0 0 \<le> 120"
proof -
  have "\<exists>x \<in> ce_minutes c. 0 \<le> x" using assms(1) by (auto simp: wf_cron_def)
  then show "minute_rounds c 0 0 \<le> 120"
    using second_rounds_bounds [OF assms(1,4,5)] by (auto simp: minute_rounds_def)
  show "0 \<le> minute_rounds c mi s" "minute_rounds c mi s \<le> 288" "minute_rounds c mi 0 \<le> 228"
    using second_rounds_bounds [OF assms(1,4,5)] assms(2,3) by (auto simp: minute_rounds_def)
qed

lemma hour_rounds_bounds:
  assumes "wf_cron c" and "0 \<le> h" and "h < 24" and "0 \<le> mi" and "mi < 60" and "0 \<le> s" and "s < 60"
  shows "0 \<le> hour_rounds c h mi s" "hour_rounds c h mi s \<le> 288" "hour_rounds c h 0 0 \<le> 168" "hour_rounds c 0 0 0 \<le> 144"
proof -
  have "\<exists>x \<in> ce_hours c. 0 \<le> x" using assms(1) by (auto simp: wf_cron_def)
  then show "hour_rounds c 0 0 0 \<le> 144"
    using minute_rounds_bounds [OF assms(1,4-7)] by (auto simp: hour_rounds_def)
  show "0 \<le> hour_rounds c h mi s" "hour_rounds c h mi s \<le> 288" "hour_rounds c h 0 0 \<le> 168"
    using minute_rounds_bounds [OF assms(1,4-7)] assms(2,3) by (auto simp: hour_rounds_def)
qed

lemma day_rounds_bounds:
  assumes "wf_cron c"
  shows "0 \<le> day_rounds c w" "day_rounds c w \<le> 288" "day_rounds c (wall d 0 0 0) \<le> 144"
proof -
  show "0 \<le> day_rounds c w" "day_rounds c w \<le> 288"
    using hour_rounds_bounds [OF assms field_bounds [of w]] by (auto simp: day_rounds_def)
  have "getHours (wall d 0 0 0) = 0" "getMinutes (wall d 0 0 0) = 0" "getSeconds (wall d 0 0 0) = 0"
    using wall_fields [of 0 0 0 0 d] by simp_all
  then show "day_rounds c (wall d 0 0 0) \<le> 144"
    using hour_rounds_bounds(4) [OF assms, of 0 0 0] by (simp add: day_rounds_def)
qed

lemma day_rounds_wall:
  assumes "0 \<le> h" "h < 24" "0 \<le> mi" "mi < 60" "0 \<le> s" "s < 60" and "day_of w = d"
    and "getMonth w + 1 \<in> ce_months c" and "matchesDay c w"
  shows "day_rounds c (wall d h mi s) = hour_rounds c h mi s" "day_of (wall d h mi s) = d"
proof -
  note f = wall_fields [OF assms(1-6), of 0 d, simplified]
  show d: "day_of (wall d h mi s) = d" by (rule f(1))
  show "day_rounds c (wall d h mi s) = hour_rounds c h mi s"
    using cron_matches_day [of "wall d h mi s" w] assms(7-9) d f by (simp add: day_rounds_def)
qed

lemma day_of_wall_0 [simp]: "day_of (wall d 0 0 0) = d"
  using wall_fields(1) [of 0 0 0 0 d] by simp

text \<open>Every round that does not match takes the bound down by at least one.\<close>

lemma rounds_decrease:
  assumes "wf_cron c" and "\<not> cron_matches c w"
  shows "day_rounds c (next_wall c w) - day_of (next_wall c w) < day_rounds c w - day_of w"
proof -
  let ?d = "day_of w" and ?h = "getHours w" and ?mi = "getMinutes w" and ?s = "getSeconds w"
  note b = field_bounds [of w]
  note m = day_rounds_bounds(3) [OF assms(1)]
  consider (out) "\<not> (getMonth w + 1 \<in> ce_months c \<and> matchesDay c w)"
    | (hour) "getMonth w + 1 \<in> ce_months c" "matchesDay c w" "?h \<notin> ce_hours c"
    | (minute) "getMonth w + 1 \<in> ce_months c" "matchesDay c w" "?h \<in> ce_hours c" "?mi \<notin> ce_minutes c"
    | (second) "getMonth w + 1 \<in> ce_months c" "matchesDay c w" "?h \<in> ce_hours c" "?mi \<in> ce_minutes c"
        "ce_hasSecondsField c" "?s \<notin> ce_seconds c"
    using assms(2) by (auto simp: cron_matches_def)
  then show ?thesis
  proof cases
    case out
    define d' where "d' = (if getMonth w + 1 \<notin> ce_months c then next_month ?d else ?d + 1)"
    have "next_wall c w = wall d' 0 0 0" and "?d < d'"
      using out next_month_greater [of ?d] by (auto simp: next_wall_def d'_def Let_def)
    moreover have "day_rounds c w = 144" using out by (auto simp: day_rounds_def)
    ultimately show ?thesis using m [of d'] by simp
  next
    case hour
    then have nw: "next_wall c w = wall ?d (?h + 1) 0 0" by (simp add: next_wall_def Let_def)
    have now: "day_rounds c w = hour_rounds c ?h ?mi ?s" using hour by (simp add: day_rounds_def)
    show ?thesis
    proof (cases "?h = 23")
      case True
      have "\<not> (\<exists>x \<in> ce_hours c. 23 \<le> x)" using hour(3) assms(1) True by (force simp: wf_cron_def)
      then have "day_rounds c w = 145" using hour(3) True by (simp add: now hour_rounds_def)
      then show ?thesis using m [of "?d + 1"] by (simp add: nw True wall_hour_overflow)
    next
      case False
      then have h: "?h + 1 < 24" using b by simp
      have "hour_rounds c (?h + 1) 0 0 < hour_rounds c ?h ?mi ?s"
      proof (cases "\<exists>x \<in> ce_hours c. ?h \<le> x")
        case True
        then have "\<exists>x \<in> ce_hours c. ?h + 1 \<le> x" using hour(3) by (metis order_le_less zless_imp_add1_zle)
        then show ?thesis
          using True hour(3) h minute_rounds_bounds(4) [OF assms(1), of 0 0] by (auto simp: hour_rounds_def)
      next
        case False
        then have "\<not> (\<exists>x \<in> ce_hours c. ?h + 1 \<le> x)" "?h + 1 \<notin> ce_hours c" by force+
        then show ?thesis using False hour(3) by (simp add: hour_rounds_def)
      qed
      then show ?thesis
        using day_rounds_wall [of "?h + 1" 0 0 w ?d c] b h hour by (simp add: nw now)
    qed
  next
    case minute
    then have nw: "next_wall c w = wall ?d ?h (?mi + 1) 0" by (simp add: next_wall_def Let_def)
    have now: "day_rounds c w = minute_rounds c ?mi ?s" using minute by (simp add: day_rounds_def hour_rounds_def)
    show ?thesis
    proof (cases "?mi = 59")
      case True
      have "\<not> (\<exists>x \<in> ce_minutes c. 59 \<le> x)" using minute(4) assms(1) True by (force simp: wf_cron_def)
      then have now: "day_rounds c w = 169" using minute(4) True by (simp add: now minute_rounds_def)
      have nw: "next_wall c w = wall ?d (?h + 1) 0 0" by (simp add: nw True wall_minute_overflow)
      show ?thesis
      proof (cases "?h = 23")
        case True
        then show ?thesis using m [of "?d + 1"] by (simp add: nw now wall_hour_overflow)
      next
        case False
        then have h: "?h + 1 < 24" using b by simp
        then show ?thesis
          using day_rounds_wall [of "?h + 1" 0 0 w ?d c] hour_rounds_bounds(3) [OF assms(1), of "?h + 1" 0 0] b minute
          by (simp add: nw now)
      qed
    next
      case False
      then have h: "?mi + 1 < 60" using b by simp
      have "minute_rounds c (?mi + 1) 0 < minute_rounds c ?mi ?s"
      proof (cases "\<exists>x \<in> ce_minutes c. ?mi \<le> x")
        case True
        then have "\<exists>x \<in> ce_minutes c. ?mi + 1 \<le> x" using minute(4) by (metis order_le_less zless_imp_add1_zle)
        then show ?thesis
          using True minute(4) h second_rounds_bounds(3) [OF assms(1), of 0] by (auto simp: minute_rounds_def)
      next
        case False
        then have "\<not> (\<exists>x \<in> ce_minutes c. ?mi + 1 \<le> x)" "?mi + 1 \<notin> ce_minutes c" by force+
        then show ?thesis using False minute(4) by (simp add: minute_rounds_def)
      qed
      then show ?thesis
        using day_rounds_wall [of ?h "?mi + 1" 0 w ?d c] b h minute by (simp add: nw now hour_rounds_def)
    qed
  next
    case second
    then have nw: "next_wall c w = wall ?d ?h ?mi (?s + 1)" by (simp add: next_wall_def Let_def)
    have now: "day_rounds c w = second_rounds c ?s"
      using second by (simp add: day_rounds_def hour_rounds_def minute_rounds_def)
    show ?thesis
    proof (cases "?s = 59")
      case True
      have "\<not> (\<exists>x \<in> ce_seconds c. 59 \<le> x)" using second(6) assms(1) True by (force simp: wf_cron_def)
      then have now: "day_rounds c w = 229" using second(5,6) True by (simp add: now second_rounds_def)
      have nw: "next_wall c w = wall ?d ?h (?mi + 1) 0" by (simp add: nw True wall_second_overflow)
      show ?thesis
      proof (cases "?mi = 59")
        case True
        then have nw: "next_wall c w = wall ?d (?h + 1) 0 0" by (simp add: nw wall_minute_overflow)
        show ?thesis
        proof (cases "?h = 23")
          case True
          then show ?thesis using m [of "?d + 1"] by (simp add: nw now wall_hour_overflow)
        next
          case False
          then have h: "?h + 1 < 24" using b by simp
          then show ?thesis
            using day_rounds_wall [of "?h + 1" 0 0 w ?d c] hour_rounds_bounds(3) [OF assms(1), of "?h + 1" 0 0] b second
            by (simp add: nw now)
        qed
      next
        case False
        then have h: "?mi + 1 < 60" using b by simp
        then show ?thesis
          using day_rounds_wall [of ?h "?mi + 1" 0 w ?d c] minute_rounds_bounds(3) [OF assms(1), of "?mi + 1" 0] b second
          by (simp add: nw now hour_rounds_def)
      qed
    next
      case False
      then have h: "?s + 1 < 60" using b by simp
      have "second_rounds c (?s + 1) < second_rounds c ?s"
      proof (cases "\<exists>x \<in> ce_seconds c. ?s \<le> x")
        case True
        then have "\<exists>x \<in> ce_seconds c. ?s + 1 \<le> x" using second(6) by (metis order_le_less zless_imp_add1_zle)
        then show ?thesis using True second(5,6) h by (auto simp: second_rounds_def)
      next
        case False
        then have "\<not> (\<exists>x \<in> ce_seconds c. ?s + 1 \<le> x)" "?s + 1 \<notin> ce_seconds c" by force+
        then show ?thesis using False second(5,6) by (simp add: second_rounds_def)
      qed
      then show ?thesis
        using day_rounds_wall [of ?h ?mi "?s + 1" w ?d c] b h second
        by (simp add: nw now hour_rounds_def minute_rounds_def)
    qed
  qed
qed

section \<open>The whole scan in a zone without transitions\<close>

lemma next_wall_later: "w < next_wall c w"
proof -
  let ?d = "day_of w" and ?h = "getHours w" and ?mi = "getMinutes w" and ?s = "getSeconds w"
  note b = field_bounds [of w]
  have w: "w = ?d * ms_per_day + ?h * 3600000 + ?mi * 60000 + ?s * 1000 + w mod 1000"
    using wall_split [of w] by (simp add: wall_def)
  have ms: "w mod 1000 < 1000" by simp
  have mono: "ms_per_day * (?d + 1) \<le> ms_per_day * d'" if "?d < d'" for d'
    using that by (intro mult_left_mono) (auto simp: ms_per_day_def)
  have "w < ms_per_day * (?d + 1)" using w b ms by (simp add: ms_per_day_def)
  then have day: "w < wall d' 0 0 0" if "?d < d'" for d'
    using mono [OF that] by (simp add: wall_def mult.commute)
  have "w < wall ?d (?h + 1) 0 0" "w < wall ?d ?h (?mi + 1) 0" "w < wall ?d ?h ?mi (?s + 1)"
    using w b ms by (simp_all add: wall_def)
  then show ?thesis
    using day next_month_greater [of ?d] by (simp add: next_wall_def Let_def)
qed

lemma next_wall_aligned: "w mod unit_ms c = 0 \<Longrightarrow> \<not> cron_matches c w \<Longrightarrow> next_wall c w mod unit_ms c = 0"
proof -
  assume "\<not> cron_matches c w"
  have "wall d h mi 0 = (d * 1440 + h * 60 + mi) * 60000" "wall d h mi s = (d * 86400 + h * 3600 + mi * 60 + s) * 1000" for d h mi s
    by (simp_all add: wall_def ms_per_day_def)
  then have "60000 dvd wall d h mi 0" "1000 dvd wall d h mi s" for d h mi s
    by (simp_all only: dvd_triv_right)
  then show "next_wall c w mod unit_ms c = 0"
    using \<open>\<not> cron_matches c w\<close>
    by (auto simp: next_wall_def unit_ms_def Let_def cron_matches_def dvd_eq_mod_eq_0 [symmetric])
qed

lemma getFullYear_mono: "w \<le> v \<Longrightarrow> getFullYear w \<le> getFullYear v"
  by (simp add: getFullYear_def year_of_day_mono day_of_mono)

lemma scan_fixed_zone:
  assumes "wf_cron c" and "w mod unit_ms c = 0" and "99 < getFullYear w"
    and "day_rounds c w + (day_from_year (maxYear + 1) - day_of w) < MAX_SCAN_ITERATIONS - i"
  shows "case scan (fixed_zone off) c maxYear i (w - off) of
      Some t \<Rightarrow> w \<le> t + off \<and> (t + off) mod unit_ms c = 0 \<and> cron_matches c (t + off) \<and>
        (\<forall>u. w \<le> u \<and> u < t + off \<and> u mod unit_ms c = 0 \<longrightarrow> \<not> cron_matches c u)
    | None \<Rightarrow> (\<forall>u. w \<le> u \<and> getFullYear u \<le> maxYear \<and> u mod unit_ms c = 0 \<longrightarrow> \<not> cron_matches c u)"
  using assms(2-4)
proof (induction "nat (MAX_SCAN_ITERATIONS - i)" arbitrary: i w rule: less_induct)
  case less
  have local: "zn_local (fixed_zone off) (w - off) = w" and utc: "zn_utc (fixed_zone off) w' = w' - off" for w'
    by (simp_all add: fixed_zone_def)
  show ?case
  proof (cases "getFullYear w > maxYear")
    case True
    then have "scan (fixed_zone off) c maxYear i (w - off) = None" by (simp add: scan.simps local)
    moreover have "\<not> getFullYear u \<le> maxYear" if "w \<le> u" for u using getFullYear_mono [OF that] True by simp
    ultimately show ?thesis by auto
  next
    case False
    have "day_of w < day_from_year (maxYear + 1)"
    proof -
      have "day_of w < day_from_year (year_of_day (day_of w) + 1)" using year_of_day_bounds by blast
      also have "\<dots> \<le> day_from_year (maxYear + 1)"
        using False day_from_year_less [of "year_of_day (day_of w) + 1" "maxYear + 1"]
        by (cases "year_of_day (day_of w) = maxYear") (auto simp: getFullYear_def)
      finally show ?thesis .
    qed
    then have i: "i < MAX_SCAN_ITERATIONS" using less.prems(3) day_rounds_bounds(1) [OF assms(1), of w] by linarith
    show ?thesis
    proof (cases "cron_matches c w")
      case True
      then have "scan (fixed_zone off) c maxYear i (w - off) = Some (w - off)"
        using False i by (simp add: scan.simps local scan_step_None [symmetric])
      with True less.prems(1) show ?thesis by auto
    next
      case nomatch: False
      then obtain w' where st: "scan_step c w = Some w'" using scan_step_None [of c w] by auto
      have w': "w' = next_wall c w" by (rule scan_step_next_wall [OF less.prems(2) st])
      have eq: "scan (fixed_zone off) c maxYear i (w - off) = scan (fixed_zone off) c maxYear (i + 1) (w' - off)"
        using False i by (simp add: scan.simps [of _ _ _ i] local st utc)
      have later: "w < w'" unfolding w' by (rule next_wall_later)
      have "day_rounds c w' + (day_from_year (maxYear + 1) - day_of w') < MAX_SCAN_ITERATIONS - (i + 1)"
        using rounds_decrease [OF assms(1) nomatch] less.prems(3) unfolding w' by linarith
      moreover have "99 < getFullYear w'" using less.prems(2) getFullYear_mono [of w w'] later by simp
      moreover have "w' mod unit_ms c = 0" unfolding w' by (rule next_wall_aligned [OF less.prems(1) nomatch])
      ultimately have IH: "case scan (fixed_zone off) c maxYear (i + 1) (w' - off) of
          Some t \<Rightarrow> w' \<le> t + off \<and> (t + off) mod unit_ms c = 0 \<and> cron_matches c (t + off) \<and>
            (\<forall>u. w' \<le> u \<and> u < t + off \<and> u mod unit_ms c = 0 \<longrightarrow> \<not> cron_matches c u)
        | None \<Rightarrow> (\<forall>u. w' \<le> u \<and> getFullYear u \<le> maxYear \<and> u mod unit_ms c = 0 \<longrightarrow> \<not> cron_matches c u)"
        using i by (intro less.hyps) auto
      have skip: "w' \<le> u" if "w \<le> u" "u mod unit_ms c = 0" "cron_matches c u" for u
      proof (rule ccontr)
        assume "\<not> w' \<le> u"
        then have "u < w'" by simp
        from no_match_until_next_wall [OF nomatch less.prems(1) that(1) this [unfolded w'] that(2)] that(3)
        show False by simp
      qed
      show ?thesis
      proof (cases "scan (fixed_zone off) c maxYear (i + 1) (w' - off)")
        case None
        then have "\<forall>u. w' \<le> u \<and> getFullYear u \<le> maxYear \<and> u mod unit_ms c = 0 \<longrightarrow> \<not> cron_matches c u"
          using IH by simp
        then have "\<forall>u. w \<le> u \<and> getFullYear u \<le> maxYear \<and> u mod unit_ms c = 0 \<longrightarrow> \<not> cron_matches c u"
          using skip by meson
        with None show ?thesis unfolding eq by simp
      next
        case (Some t)
        then have t: "w' \<le> t + off" "(t + off) mod unit_ms c = 0" "cron_matches c (t + off)"
          "\<forall>u. w' \<le> u \<and> u < t + off \<and> u mod unit_ms c = 0 \<longrightarrow> \<not> cron_matches c u"
          using IH by simp_all
        then have "\<forall>u. w \<le> u \<and> u < t + off \<and> u mod unit_ms c = 0 \<longrightarrow> \<not> cron_matches c u" using skip by meson
        with t later Some show ?thesis unfolding eq by simp
      qed
    qed
  qed
qed

end
