(* ===== verification/Cron_Theorems.thy ===== *)
theory Cron_Theorems
  imports Cron_Properties
begin

text \<open>
  The theorems on cron expressions: the bounds of what the parser accepts, soundness of the next
  execution date in every zone, minimality and completeness of it in a zone without transitions,
  and its failure to advance at a transition.
\<close>

section \<open>What parsing accepts\<close>

lemma step_values_props:
  "set (step_values v high step) \<subseteq> {v..high}" "v \<le> high \<Longrightarrow> 0 < step \<Longrightarrow> v \<in> set (step_values v high step)"
proof (induction v high step rule: step_values.induct)
  case (1 v high step)
  { case 1
    then show ?case
    proof (cases "v > high \<or> step \<le> 0")
      case False
      then have "set (step_values (v + step) high step) \<subseteq> {v + step..high}" using "1.IH"(1) by simp
      with False show ?thesis by (subst step_values.simps) auto
    qed (simp add: step_values.simps)
  next
    case 2
    then show ?case by (subst step_values.simps) simp }
qed

lemma step_values_1: "set (step_values v high 1) = {v..high}"
proof (induction v high "1 :: int" rule: step_values.induct)
  case (1 v high)
  show ?case
  proof (cases "v > high")
    case False
    then have "set (step_values (v + 1) high 1) = {v + 1..high}" using 1 by simp
    with False show ?thesis by (subst step_values.simps) auto
  qed (simp add: step_values.simps)
qed

lemma parseValue_bounds: "parseValue orig fs token = Inr v \<Longrightarrow> fs_min fs \<le> v \<and> v \<le> fs_max fs"
  by (auto simp: parseValue_def sum_bind_Inr_conv split: if_splits)

lemma parse_bounds_bounds:
  assumes "parse_bounds orig fs stepped s = Inr (low, high)" and "fs_min fs \<le> fs_max fs"
  shows "fs_min fs \<le> low \<and> low \<le> fs_max fs \<and> fs_min fs \<le> high \<and> high \<le> fs_max fs"
  using assms
  by (auto simp: parse_bounds_def sum_bind_Inr_conv dest!: parseValue_bounds split: if_splits option.splits nat.splits)

lemma parse_step_pos: "parse_step orig fs segment s = Inr step \<Longrightarrow> 0 < step"
  by (auto simp: parse_step_def split: if_splits)

lemma parse_segment_bounds:
  assumes "parse_segment orig fs field segment = Inr vs" and "fs_min fs \<le> fs_max fs"
  shows "vs \<noteq> [] \<and> set vs \<subseteq> {fs_min fs..fs_max fs}"
proof -
  obtain stepped rangePart step low high where "parse_bounds orig fs stepped rangePart = Inr (low, high)"
    and step: "0 < step" and "low \<le> high" and vs: "vs = step_values low high step"
    using assms(1)
  proof (cases "index_of (CHR ''/'') segment")
    case None
    then show ?thesis
      using assms(1) that [of False segment _ _ 1]
      by (auto simp: parse_segment_def sum_bind_Inr_conv not_less split: if_splits)
  next
    case (Some i)
    then show ?thesis
      using assms(1) that [of True "take i segment"]
      by (auto simp: parse_segment_def sum_bind_Inr_conv not_less dest: parse_step_pos split: if_splits)
  qed
  moreover from this have "fs_min fs \<le> low" "high \<le> fs_max fs" using parse_bounds_bounds assms(2) by blast+
  ultimately show ?thesis using step_values_props [of low high step] by fastforce
qed

lemma parse_segments_bounds:
  assumes "parse_segments orig fs field segs values = Inr r" and "fs_min fs \<le> fs_max fs"
    and "values \<subseteq> {fs_min fs..fs_max fs}"
  shows "r \<subseteq> {fs_min fs..fs_max fs} \<and> values \<subseteq> r \<and> (segs \<noteq> [] \<longrightarrow> r \<noteq> {})"
  using assms
proof (induction segs arbitrary: "values")
  case (Cons seg segs)
  then obtain vs where vs: "parse_segment orig fs field seg = Inr vs" and r: "parse_segments orig fs field segs (values \<union> set vs) = Inr r"
    by (auto simp: sum_bind_Inr_conv)
  note b = parse_segment_bounds [OF vs Cons.prems(2)]
  have "r \<subseteq> {fs_min fs..fs_max fs} \<and> values \<union> set vs \<subseteq> r" using Cons.IH [OF r Cons.prems(2)] b Cons.prems(3) by simp
  with b show ?case by (cases vs) auto
qed simp

lemma parseField_bounds:
  "parseField orig fs field = Inr r \<Longrightarrow> fs_min fs \<le> fs_max fs \<Longrightarrow> r \<noteq> {} \<and> r \<subseteq> {fs_min fs..fs_max fs}"
  using parse_segments_bounds [of orig fs field "split_on (CHR '','') field" "{}" r] by (simp add: parseField_def)

lemma parseField_star: "parseField orig fs ''*'' = Inr r \<Longrightarrow> r = {fs_min fs..fs_max fs}"
  by (auto simp: parseField_def parse_segment_def parse_bounds_def sum_bind_Inr_conv step_values_1 split: if_splits)

lemma parseDayOfWeek_bounds: "parseDayOfWeek orig field = Inr r \<Longrightarrow> r \<noteq> {} \<and> r \<subseteq> {0..6}"
  by (auto simp: parseDayOfWeek_def sum_bind_Inr_conv day_of_week_spec_def dest!: parseField_bounds)

lemma parseDayOfWeek_star: "parseDayOfWeek orig ''*'' = Inr r \<Longrightarrow> {0..6} \<subseteq> r"
  by (force simp: parseDayOfWeek_def sum_bind_Inr_conv day_of_week_spec_def dest!: parseField_star)

lemmas cron_specs = second_spec_def minute_spec_def hour_spec_def day_of_month_spec_def month_spec_def day_of_week_spec_def

text \<open>The fields of a parsed expression, as one fact for the theorems below.\<close>

lemma new_CronExpression_fields:
  assumes "new_CronExpression e = Inr c"
  obtains sec mi hr dom mon dow where
    "ce_seconds c = {0} \<or> parseField e second_spec sec = Inr (ce_seconds c)"
    "parseField e minute_spec mi = Inr (ce_minutes c)" "parseField e hour_spec hr = Inr (ce_hours c)"
    "parseField e day_of_month_spec dom = Inr (ce_daysOfMonth c)" "parseField e month_spec mon = Inr (ce_months c)"
    "parseDayOfWeek e dow = Inr (ce_daysOfWeek c)"
    "ce_dayOfMonthRestricted c = (dom \<noteq> ''*'')" "ce_dayOfWeekRestricted c = (dow \<noteq> ''*'')"
proof -
  define fields where "fields = split_on (CHR '' '') (normalize e)"
  define rest where "rest = (if length fields = 6 then tl fields else fields)"
  have "(if length fields = 6 then parseField e second_spec (hd fields) else Inr {0}) = Inr (ce_seconds c)"
    "parseField e minute_spec (rest ! 0) = Inr (ce_minutes c)" "parseField e hour_spec (rest ! 1) = Inr (ce_hours c)"
    "parseField e day_of_month_spec (rest ! 2) = Inr (ce_daysOfMonth c)" "parseField e month_spec (rest ! 3) = Inr (ce_months c)"
    "parseDayOfWeek e (rest ! 4) = Inr (ce_daysOfWeek c)"
    "ce_dayOfMonthRestricted c = (rest ! 2 \<noteq> ''*'')" "ce_dayOfWeekRestricted c = (rest ! 4 \<noteq> ''*'')"
    using assms unfolding new_CronExpression_def Let_def fields_def [symmetric] rest_def [symmetric]
    by (auto simp: sum_bind_Inr_conv split: if_split_asm)
  then show thesis using that [of "hd fields" "rest ! 0" "rest ! 1" "rest ! 2" "rest ! 3" "rest ! 4"]
    by (simp split: if_splits)
qed

lemma parsed_bounds:
  assumes "new_CronExpression e = Inr c"
  shows "ce_seconds c \<noteq> {} \<and> ce_seconds c \<subseteq> {0..59}" "ce_minutes c \<noteq> {} \<and> ce_minutes c \<subseteq> {0..59}"
    "ce_hours c \<noteq> {} \<and> ce_hours c \<subseteq> {0..23}" "ce_daysOfMonth c \<noteq> {} \<and> ce_daysOfMonth c \<subseteq> {1..31}"
    "ce_months c \<noteq> {} \<and> ce_months c \<subseteq> {1..12}" "ce_daysOfWeek c \<noteq> {} \<and> ce_daysOfWeek c \<subseteq> {0..6}"
proof (atomize (full), rule new_CronExpression_fields [OF assms], goal_cases)
  case (1 sec mi hr dom mon dow)
  have "ce_seconds c \<noteq> {} \<and> ce_seconds c \<subseteq> {0..59}"
    using 1(1) by (rule disjE) (simp, simp add: parseField_bounds [of e second_spec sec "ce_seconds c", simplified second_spec_def, simplified] second_spec_def)
  moreover note parseField_bounds [OF 1(2)] parseField_bounds [OF 1(3)] parseField_bounds [OF 1(4)]
    parseField_bounds [OF 1(5)] parseDayOfWeek_bounds [OF 1(6)]
  ultimately show ?case by (simp add: cron_specs)
qed

lemma parsed_wf: "new_CronExpression e = Inr c \<Longrightarrow> wf_cron c"
  using parsed_bounds [of e c] by (simp add: wf_cron_def)

lemma parsed_unrestricted:
  assumes "new_CronExpression e = Inr c"
  shows "ce_dayOfMonthRestricted c \<or> ce_daysOfMonth c = {1..31}" "ce_dayOfWeekRestricted c \<or> {0..6} \<subseteq> ce_daysOfWeek c"
proof (atomize (full), rule new_CronExpression_fields [OF assms], goal_cases)
  case (1 sec mi hr dom mon dow)
  then show ?case
    using parseField_star [of e day_of_month_spec "ce_daysOfMonth c"] parseDayOfWeek_star [of e "ce_daysOfWeek c"]
    by (cases "dom = ''*''"; cases "dow = ''*''") (simp_all add: day_of_month_spec_def)
qed

section \<open>A day to match within eight years\<close>

lemma leap_within_8: "\<exists>y. Y < y \<and> y \<le> Y + 8 \<and> leap_year y" for Y :: int
proof -
  define a where "a = 4 * (Y div 4) + 4"
  have a: "Y < a" "a \<le> Y + 4" using div_bounds [of 4 Y] by (simp_all add: a_def)
  have a4: "a mod 4 = 0" "(a + 4) mod 4 = 0" by (simp_all add: a_def)
  show ?thesis
  proof (cases "a mod 100 = 0")
    case True
    then have "(a + 4) mod 100 = 4" using mod_add_left_eq [of a 100 4] by simp
    then have "leap_year (a + 4)" using a4 by (simp add: leap_year_def)
    then show ?thesis using a by (intro exI [of _ "a + 4"]) simp
  next
    case False
    then have "leap_year a" using a4 by (simp add: leap_year_def)
    then show ?thesis using a by (intro exI [of _ a]) simp
  qed
qed

definition month_days :: "int \<Rightarrow> int \<Rightarrow> int" where
  "month_days y m = month_start y (m + 1) - month_start y m"

lemma month_days_leap: "leap_year y \<Longrightarrow> 0 \<le> m \<Longrightarrow> m \<le> 11 \<Longrightarrow> month_days z m \<le> month_days y m \<and> 28 \<le> month_days z m \<and> month_days z m \<le> 31"
  by (drule (1) int_0_11, elim disjE) (simp_all add: month_days_def month_start_def)

lemma day_in_month:
  assumes "0 \<le> m" and "m \<le> 11" and "1 \<le> dt" and "dt \<le> month_days y m"
  defines "d \<equiv> day_from_year y + month_start y m + dt - 1"
  shows "year_of_day d = y" "month_of_day d = m" "date_of_day d = dt"
proof -
  have "month_start y (m + 1) \<le> month_start y 12"
    using month_start_less [of "m + 1" 12 y] assms(1,2) by (cases "m = 11") auto
  moreover have "0 \<le> month_start y m" using month_start_less [of 0 m y] assms(1,2) by (cases "m = 0") (auto simp: month_start_def)
  ultimately show y: "year_of_day d = y"
    using assms(3,4) month_12 [of y] by (intro year_of_day_unique) (auto simp: d_def month_days_def)
  show m: "month_of_day d = m"
    using assms(3,4) by (intro month_of_day_unique [OF y assms(1,2)]) (auto simp: d_def month_days_def)
  show "date_of_day d = dt" unfolding date_of_day_def y m by (simp add: d_def)
qed

lemma weekday_in_range: "0 \<le> k \<Longrightarrow> k < 7 \<Longrightarrow> \<exists>j. 0 \<le> j \<and> j < 7 \<and> weekday_of_day (d + j) = k"
proof -
  assume k: "0 \<le> k" "k < 7"
  have "(d + (k - (d + 4)) mod 7 + 4) mod 7 = (d + 4 + (k - (d + 4))) mod 7"
    by (subst mod_add_right_eq [symmetric]) (simp add: algebra_simps mod_simps)
  then have "weekday_of_day (d + (k - (d + 4)) mod 7) = k" using k by (simp add: weekday_of_day_def)
  then show ?thesis by (intro exI [of _ "(k - (d + 4)) mod 7"]) simp
qed

lemma date_bounds: "1 \<le> date_of_day d \<and> date_of_day d \<le> month_days (year_of_day d) (month_of_day d)"
  using month_of_day_bounds [OF refl, of d] by (simp add: date_of_day_def month_days_def)

text \<open>The day part of a match, of a day number.\<close>

definition day_ok :: "cron \<Rightarrow> int \<Rightarrow> bool" where
  "day_ok c d \<longleftrightarrow> month_of_day d + 1 \<in> ce_months c \<and>
     (if ce_dayOfMonthRestricted c \<and> ce_dayOfWeekRestricted c
      then date_of_day d \<in> ce_daysOfMonth c \<or> weekday_of_day d \<in> ce_daysOfWeek c
      else date_of_day d \<in> ce_daysOfMonth c \<and> weekday_of_day d \<in> ce_daysOfWeek c)"

lemma cron_matches_alt:
  "cron_matches c w \<longleftrightarrow> day_ok c (day_of w) \<and> getHours w \<in> ce_hours c \<and>
     getMinutes w \<in> ce_minutes c \<and> (ce_hasSecondsField c \<longrightarrow> getSeconds w \<in> ce_seconds c)"
  by (auto simp: cron_matches_def day_ok_def matchesDay_def getMonth_def getDate_def getDay_def)

lemma day_ok_within_8:
  assumes parsed: "new_CronExpression e = Inr c" and ok: "day_ok c v"
  shows "\<exists>d. Y < year_of_day d \<and> year_of_day d \<le> Y + 8 \<and> day_ok c d"
proof -
  obtain y where y: "Y < y" "y \<le> Y + 8" "leap_year y" using leap_within_8 by blast
  let ?m = "month_of_day v"
  have m: "0 \<le> ?m" "?m \<le> 11" using month_of_day_bounds [OF refl, of v] by auto
  note len = month_days_leap [OF y(3) m]
  note un = parsed_unrestricted [OF parsed]
  consider (date) "date_of_day v \<in> ce_daysOfMonth c" "ce_dayOfWeekRestricted c \<longrightarrow> ce_dayOfMonthRestricted c"
    | (week) "weekday_of_day v \<in> ce_daysOfWeek c" "ce_dayOfMonthRestricted c \<longrightarrow> ce_dayOfWeekRestricted c"
    using ok by (auto simp: day_ok_def split: if_splits)
  moreover have mon: "?m + 1 \<in> ce_months c" using ok by (simp add: day_ok_def)
  ultimately show ?thesis
  proof cases
    case date
    define d where "d = day_from_year y + month_start y ?m + date_of_day v - 1"
    have "date_of_day v \<le> month_days y ?m" using date_bounds [of v] len [of "year_of_day v"] by linarith
    then have d: "year_of_day d = y" "month_of_day d = ?m" "date_of_day d = date_of_day v"
      using day_in_month [OF m, of "date_of_day v" y] date_bounds [of v] by (simp_all add: d_def)
    have "weekday_of_day d \<in> {0..6}" by (simp add: weekday_of_day_def)
    with mon date un(2) have "day_ok c d" unfolding day_ok_def d(2,3) by auto
    with d y show ?thesis by blast
  next
    case week
    have "0 \<le> weekday_of_day v" "weekday_of_day v < 7" by (simp_all add: weekday_of_day_def)
    then obtain j where j: "0 \<le> j" "j < 7" "weekday_of_day (day_from_year y + month_start y ?m + j) = weekday_of_day v"
      using weekday_in_range by blast
    define d where "d = day_from_year y + month_start y ?m + (j + 1) - 1"
    have "j + 1 \<le> month_days y ?m" using j len [of y] by linarith
    then have d: "year_of_day d = y" "month_of_day d = ?m" "date_of_day d = j + 1"
      using day_in_month [OF m, of "j + 1" y] j by (simp_all add: d_def)
    have wd: "weekday_of_day d = weekday_of_day v" using j(3) by (simp add: d_def add.assoc)
    have "j + 1 \<in> ce_daysOfMonth c" if "\<not> ce_dayOfMonthRestricted c" using un(1) that j(1,2) by simp
    with mon week have "day_ok c d" unfolding day_ok_def d(2,3) wd by (simp split: if_split)
    with d y show ?thesis by blast
  qed
qed

lemma match_within_8:
  assumes parsed: "new_CronExpression e = Inr c" and "cron_matches c v"
  shows "\<exists>w. Y < getFullYear w \<and> getFullYear w \<le> Y + 8 \<and> w mod unit_ms c = 0 \<and> cron_matches c w"
proof -
  obtain d where d: "Y < year_of_day d" "year_of_day d \<le> Y + 8" "day_ok c d"
    using day_ok_within_8 [OF parsed] assms(2) cron_matches_alt by blast
  define s where "s = (if ce_hasSecondsField c then getSeconds v else 0)"
  define w where "w = wall d (getHours v) (getMinutes v) s"
  have f: "day_of w = d" "getHours w = getHours v" "getMinutes w = getMinutes v" "getSeconds w = s"
    using wall_fields [of "getHours v" "getMinutes v" s 0 d] field_bounds [of v] by (simp_all add: w_def s_def)
  have "1000 dvd w" by (simp add: w_def wall_def ms_per_day_def)
  moreover have "60000 dvd w" if "s = 0" using that by (simp add: w_def wall_def ms_per_day_def)
  ultimately have "w mod unit_ms c = 0" by (auto simp: unit_ms_def s_def dvd_eq_mod_eq_0 split: if_splits)
  moreover have "cron_matches c w" using assms(2) d(3) f by (auto simp: cron_matches_alt s_def)
  ultimately show ?thesis using d f by (intro exI [of _ w]) (simp add: getFullYear_def)
qed

section \<open>The theorems\<close>

text \<open>
  Whatever text parses as a cron expression, its sets of seconds, minutes, hours, days,
  months and weekdays are non-empty and within the bounds of their fields (Sunday being 0 only),
  and a field written as a star is not restricted and holds every value.
\<close>

theorem parsed_fields_in_bounds:
  "case new_CronExpression e of Inl _ \<Rightarrow> \<not> isValid e
   | Inr c \<Rightarrow> isValid e \<and> ce_seconds c \<noteq> {} \<and> ce_seconds c \<subseteq> {0..59} \<and> ce_minutes c \<noteq> {} \<and> ce_minutes c \<subseteq> {0..59} \<and>
      ce_hours c \<noteq> {} \<and> ce_hours c \<subseteq> {0..23} \<and> ce_daysOfMonth c \<noteq> {} \<and> ce_daysOfMonth c \<subseteq> {1..31} \<and>
      ce_months c \<noteq> {} \<and> ce_months c \<subseteq> {1..12} \<and> ce_daysOfWeek c \<noteq> {} \<and> ce_daysOfWeek c \<subseteq> {0..6} \<and>
      (ce_dayOfMonthRestricted c \<or> ce_daysOfMonth c = {1..31}) \<and> (ce_dayOfWeekRestricted c \<or> ce_daysOfWeek c = {0..6})"
proof (cases "new_CronExpression e")
  case (Inr c)
  then show ?thesis using parsed_bounds [OF Inr] parsed_unrestricted [OF Inr] by (auto simp: isValid_def)
qed (simp add: isValid_def)

text \<open>
  In every time zone, whatever its transitions, a next execution date is a wall time that
  matches every field of the expression, no later than eight years after the reference year.
\<close>

theorem next_execution_matches:
  assumes "getNextExecutionDate z c from_ms = Some t"
  shows "cron_matches c (zn_local z t) \<and> getFullYear (zn_local z t) \<le> getFullYear (zn_local z from_ms) + 8"
  using scan_sound [OF assms [unfolded getNextExecutionDate_def]] by (simp add: MAX_SCAN_YEARS_def)

definition noon_cron :: cron where
  "noon_cron = (case new_CronExpression ''0 12 * * MON-FRI'' of Inr c \<Rightarrow> c | Inl _ \<Rightarrow> undefined)"

text \<open>The same expression, evaluated: noon of every weekday.\<close>

lemma noon_cron_parsed: "new_CronExpression ''0 12 * * MON-FRI'' = Inr noon_cron"
  by code_simp

theorem next_execution_matches_witness:
  "getNextExecutionDate (fixed_zone 3600000) noon_cron 1700000000000 = Some 1700046000000 \<and>
   cron_matches noon_cron 1700049600000"
proof -
  have n: "getNextExecutionDate (fixed_zone 3600000) noon_cron 1700000000000 = Some 1700046000000" by code_simp
  from next_execution_matches [OF this] n show ?thesis by (simp add: fixed_zone_def)
qed

lemma day_from_year_9: "day_from_year (y + 9) \<le> day_from_year y + 9 * 366"
proof -
  have step: "day_from_year (z + 1) \<le> day_from_year z + 366" for z by (simp add: day_from_year_Suc)
  show ?thesis
    using step [of y] step [of "y + 1"] step [of "y + 2"] step [of "y + 3"] step [of "y + 4"] step [of "y + 5"]
      step [of "y + 6"] step [of "y + 7"] step [of "y + 8"] by (simp add: add.assoc)
qed

text \<open>The scan, from the first aligned instant after the reference instant; 3,582 rounds are enough.\<close>

lemma next_execution_scan:
  assumes "wf_cron c" and "off mod 60000 = 0" and "99 < getFullYear (from_ms + off)"
  defines "w \<equiv> (from_ms div unit_ms c) * unit_ms c + unit_ms c + off"
  shows "case getNextExecutionDate (fixed_zone off) c from_ms of
      Some t \<Rightarrow> w \<le> t + off \<and> (t + off) mod unit_ms c = 0 \<and> cron_matches c (t + off) \<and>
        (\<forall>u. w \<le> u \<and> u < t + off \<and> u mod unit_ms c = 0 \<longrightarrow> \<not> cron_matches c u)
    | None \<Rightarrow> (\<forall>u. w \<le> u \<and> getFullYear u \<le> getFullYear (from_ms + off) + 8 \<and> u mod unit_ms c = 0 \<longrightarrow> \<not> cron_matches c u)"
proof -
  let ?y = "getFullYear (from_ms + off)"
  have unit: "0 < unit_ms c" "off mod unit_ms c = 0" using assms(2) by (auto simp: unit_ms_def)
  have later: "from_ms + off < w" using div_bounds [OF unit(1), of from_ms] by (simp add: w_def algebra_simps)
  have al: "w mod unit_ms c = 0" unfolding w_def using unit(2) by (auto simp: mod_eq_0_iff_dvd)
  have y: "99 < getFullYear w" using assms(3) getFullYear_mono [of "from_ms + off" w] later by simp
  have "day_from_year ?y \<le> day_of (from_ms + off)" using year_of_day_bounds by (simp add: getFullYear_def)
  also have "\<dots> \<le> day_of w" using later by (simp add: day_of_mono)
  finally have "day_rounds c w + (day_from_year (?y + 8 + 1) - day_of w) < MAX_SCAN_ITERATIONS - 0"
    using day_rounds_bounds(2) [OF assms(1), of w] day_from_year_9 [of ?y] by (simp add: MAX_SCAN_ITERATIONS_def add.assoc)
  from scan_fixed_zone [OF assms(1) al y this, of off] show ?thesis
    by (simp add: getNextExecutionDate_def MAX_SCAN_YEARS_def w_def fixed_zone_def)
qed

lemma aligned_after:
  fixes u :: int
  assumes "from_ms < u" and "u mod k = 0" and "0 < k"
  shows "(from_ms div k) * k + k \<le> u"
proof -
  have "k * (from_ms div k) < k * (u div k)"
    using div_bounds [OF assms(3), of from_ms] assms(1,2) mult_div_mod_eq [of k u] by linarith
  then have "from_ms div k + 1 \<le> u div k" using assms(3) by simp
  then have "k * (from_ms div k + 1) \<le> k * (u div k)" using assms(3) by simp
  then show ?thesis using assms(2) mult_div_mod_eq [of k u] by (simp add: algebra_simps)
qed

text \<open>The least match after the reference instant, and when there is none.\<close>

lemma next_execution_Some:
  assumes "new_CronExpression e = Inr c" and "off mod 60000 = 0" and "99 < getFullYear (from_ms + off)"
    and "getNextExecutionDate (fixed_zone off) c from_ms = Some t"
  shows "from_ms < t \<and> t mod unit_ms c = 0 \<and> cron_matches c (t + off) \<and>
    (\<forall>u. from_ms < u \<and> u < t \<and> u mod unit_ms c = 0 \<longrightarrow> \<not> cron_matches c (u + off))"
proof (intro conjI allI impI)
  let ?w = "(from_ms div unit_ms c) * unit_ms c + unit_ms c + off"
  have unit: "0 < unit_ms c" "off mod unit_ms c = 0" using assms(2) by (auto simp: unit_ms_def)
  have *: "?w \<le> t + off" "(t + off) mod unit_ms c = 0" "cron_matches c (t + off)"
    "\<forall>u. ?w \<le> u \<and> u < t + off \<and> u mod unit_ms c = 0 \<longrightarrow> \<not> cron_matches c u"
    using next_execution_scan [OF parsed_wf [OF assms(1)] assms(2,3)] assms(4) by simp_all
  show "from_ms < t" using div_bounds [OF unit(1), of from_ms] *(1) by (simp add: algebra_simps)
  show "t mod unit_ms c = 0" using *(2) unit(2) dvd_add_left_iff [of "unit_ms c" off t] unfolding mod_eq_0_iff_dvd by blast
  show "cron_matches c (t + off)" by (rule *(3))
  fix u
  assume u: "from_ms < u \<and> u < t \<and> u mod unit_ms c = 0"
  then have "(u + off) mod unit_ms c = 0" using unit(2) by auto
  with u *(4) aligned_after [of from_ms u "unit_ms c"] unit(1) show "\<not> cron_matches c (u + off)" by simp
qed

lemma next_execution_None:
  assumes "new_CronExpression e = Inr c" and "off mod 60000 = 0" and "99 < getFullYear (from_ms + off)"
    and none: "getNextExecutionDate (fixed_zone off) c from_ms = None"
  shows "\<not> cron_matches c w"
proof
  assume "cron_matches c w"
  let ?w = "(from_ms div unit_ms c) * unit_ms c + unit_ms c + off"
  have unit: "0 < unit_ms c" "off mod unit_ms c = 0" using assms(2) by (auto simp: unit_ms_def)
    from match_within_8 [OF assms(1) \<open>cron_matches c w\<close>, of "getFullYear (from_ms + off)"]
    obtain v where v: "getFullYear (from_ms + off) < getFullYear v" "getFullYear v \<le> getFullYear (from_ms + off) + 8"
      "v mod unit_ms c = 0" "cron_matches c v"
      by auto
    have "from_ms + off < v" using v(1) getFullYear_mono [of v "from_ms + off"] by (cases "v \<le> from_ms + off") auto
    moreover have "(v - off) mod unit_ms c = 0" using v(3) unit(2) unfolding mod_eq_0_iff_dvd by (rule dvd_diff)
    ultimately have "?w \<le> v" using aligned_after [of from_ms "v - off" "unit_ms c"] unit(1) by simp
    moreover have "\<forall>u. ?w \<le> u \<and> getFullYear u \<le> getFullYear (from_ms + off) + 8 \<and> u mod unit_ms c = 0 \<longrightarrow> \<not> cron_matches c u"
      using next_execution_scan [OF parsed_wf [OF assms(1)] assms(2,3)] none by simp
    ultimately show False using v(2,3,4) by simp
qed

text \<open>
  Claim C9. In a zone without transitions, of an offset of whole minutes, the next execution date of
  a parsed expression is the least matching unit boundary strictly after the reference instant,
  where the unit is a second with a seconds field and a minute without: it is such a boundary, it
  matches, and no boundary in between does. No round of the scan jumps over a match and the
  iteration ceiling is never met. The reference instant is in a year after 99, since \<open>new Date\<close> reads
  smaller years as of the last century.
\<close>

theorem next_execution_is_least:
  assumes "new_CronExpression e = Inr c" and "off mod 60000 = 0" and "99 < getFullYear (from_ms + off)"
    and "getNextExecutionDate (fixed_zone off) c from_ms = Some t"
  shows "from_ms < t \<and> t mod (if ce_hasSecondsField c then 1000 else 60000) = 0 \<and> cron_matches c (t + off) \<and>
    (\<forall>u. from_ms < u \<and> u < t \<and> u mod (if ce_hasSecondsField c then 1000 else 60000) = 0 \<longrightarrow> \<not> cron_matches c (u + off))"
  using next_execution_Some [OF assms] unfolding unit_ms_def .

theorem next_execution_is_least_witness:
  "1700046000000 mod 60000 = (0 :: int) \<and> cron_matches noon_cron (1700046000000 + 3600000) \<and>
   \<not> cron_matches noon_cron (1700045940000 + 3600000)"
proof -
  have n: "getNextExecutionDate (fixed_zone 3600000) noon_cron 1700000000000 = Some 1700046000000" by code_simp
  have y: "99 < getFullYear (1700000000000 + 3600000)" "ce_hasSecondsField noon_cron = False" by code_simp+
  have "1700046000000 mod 60000 = (0 :: int)" "cron_matches noon_cron (1700046000000 + 3600000)"
    "1700000000000 < u \<Longrightarrow> u < 1700046000000 \<Longrightarrow> u mod 60000 = 0 \<Longrightarrow> \<not> cron_matches noon_cron (u + 3600000)" for u
    using next_execution_is_least [OF noon_cron_parsed _ y(1) n] y(2) by simp_all
  from this(1,2) this(3) [of 1700045940000] show ?thesis by simp
qed

text \<open>
  Claim C10. The window of eight years is wide enough: in a zone without transitions, of an offset
  of whole minutes, and from an instant in a year after 99, a parsed expression has no next execution
  date exactly when no wall time at all matches it, however far away. Where a zone has transitions
  nothing is claimed.
\<close>

theorem no_next_execution_iff_never:
  assumes "new_CronExpression e = Inr c" and "off mod 60000 = 0" and "99 < getFullYear (from_ms + off)"
  shows "getNextExecutionDate (fixed_zone off) c from_ms = None \<longleftrightarrow> (\<forall>w. \<not> cron_matches c w)"
proof
  assume never: "\<forall>w. \<not> cron_matches c w"
  show "getNextExecutionDate (fixed_zone off) c from_ms = None"
  proof (rule ccontr)
    assume "getNextExecutionDate (fixed_zone off) c from_ms \<noteq> None"
    then obtain t where "getNextExecutionDate (fixed_zone off) c from_ms = Some t" by blast
    with never scan_sound show False unfolding getNextExecutionDate_def by blast
  qed
next
  assume "getNextExecutionDate (fixed_zone off) c from_ms = None"
  then show "\<forall>w. \<not> cron_matches c w" using next_execution_None [OF assms] by blast
qed

theorem no_next_execution_iff_never_witness: "\<exists>w. cron_matches noon_cron w"
proof -
  have "getNextExecutionDate (fixed_zone 3600000) noon_cron 1700000000000 \<noteq> None" by code_simp
  moreover have "99 < getFullYear (1700000000000 + 3600000)" by code_simp
  ultimately show ?thesis using no_next_execution_iff_never [OF noon_cron_parsed, of 3600000 1700000000000] by auto
qed

section \<open>Daylight saving time\<close>

text \<open>
  A zone like New York's in autumn: the clocks go from UTC-4 to UTC-5 at the instant \<open>T\<close>. As
  ECMAScript prescribes, a wall time that occurs twice denotes its first occurrence.
\<close>

definition fall_back_zone :: "int \<Rightarrow> zone" where
  "fall_back_zone T =
     \<lparr>zn_local = (\<lambda>t. if t < T then t - 4 * 3600000 else t - 5 * 3600000),
      zn_utc = (\<lambda>w. if w + 4 * 3600000 < T then w + 4 * 3600000 else w + 5 * 3600000)\<rparr>"

definition half_past_one :: cron where
  "half_past_one = (case new_CronExpression ''30 1 * * *'' of Inr c \<Rightarrow> c | Inl _ \<Rightarrow> undefined)"

text \<open>
  The documented "strictly after" does not hold where the clocks go back: ten minutes
  into the repeated hour of 5 November 2023 in New York, the next execution date of
  \<open>30 1 * * *\<close> is half past one of the first pass, forty minutes in the past, because the
  local-time constructor resolves the repeated wall times to their first occurrence.
\<close>

theorem next_execution_can_be_past:
  "new_CronExpression ''30 1 * * *'' = Inr half_past_one \<and>
   getNextExecutionDate (fall_back_zone 1699164000000) half_past_one (1699164000000 + 10 * 60000) =
     Some (1699164000000 - 30 * 60000)"
proof
  show "new_CronExpression ''30 1 * * *'' = Inr half_past_one" by code_simp
  show "getNextExecutionDate (fall_back_zone 1699164000000) half_past_one (1699164000000 + 10 * 60000) =
     Some (1699164000000 - 30 * 60000)" by code_simp
qed

end
