(* ===== verification/Schedules.thy ===== *)
theory Schedules
  imports Cron_Theorems
begin

text \<open>
  The schedules (\<open>schedules/cron.schedule.ts\<close>, \<open>schedules/date.schedule.ts\<close>) and the contract the
  scheduler relies on (\<open>interfaces/schedule.interface.ts\<close>), stated as a locale. A schedule object is
  the function its \<open>getNextExecutionDate\<close> computes.
\<close>

section \<open>The schedules\<close>

type_synonym schedule = "int \<Rightarrow> int option"

definition CronSchedule :: "zone \<Rightarrow> cron \<Rightarrow> schedule" where
  "CronSchedule z c = getNextExecutionDate z c"

definition DateSchedule :: "int \<Rightarrow> schedule" where
  "DateSchedule date = (\<lambda>from_ms. if date > from_ms then Some date else None)"

section \<open>The contract\<close>

text \<open>Successive occurrences, as \<open>getNextExecutionDates\<close> collects them.\<close>

fun dates :: "schedule \<Rightarrow> int \<Rightarrow> nat \<Rightarrow> int list" where
  "dates sch cursor 0 = []"
| "dates sch cursor (Suc n) = (case sch cursor of None \<Rightarrow> [] | Some t \<Rightarrow> t # dates sch t n)"

lemma getNextExecutionDates_dates: "getNextExecutionDates z c cursor n = dates (CronSchedule z c) cursor n"
  by (induction n arbitrary: cursor) (simp_all add: CronSchedule_def split: option.split)

lemma dates_length: "length (dates sch b n) \<le> n"
  by (induction n arbitrary: b) (auto split: option.split)

text \<open>
  A source of occurrences: the next one is after the instant asked for, it stays the next one until
  it has passed, and a source that has run dry stays dry.
\<close>

locale occurrence_source =
  fixes next_date :: schedule and valid :: "int \<Rightarrow> bool"
  assumes later: "valid b \<Longrightarrow> next_date b = Some t \<Longrightarrow> b < t"
    and valid_later: "valid b \<Longrightarrow> b \<le> b' \<Longrightarrow> valid b'"
    and stays: "valid b \<Longrightarrow> next_date b = Some t \<Longrightarrow> b \<le> b' \<Longrightarrow> b' < t \<Longrightarrow> next_date b' = Some t"
    and dry: "valid b \<Longrightarrow> next_date b = None \<Longrightarrow> b \<le> b' \<Longrightarrow> next_date b' = None"
begin

lemma dates_sorted: "valid b \<Longrightarrow> sorted_wrt (<) (b # dates next_date b n)"
proof (induction n arbitrary: b)
  case (Suc n)
  show ?case
  proof (cases "next_date b")
    case (Some t)
    then have "b < t" using later Suc.prems by blast
    moreover have "sorted_wrt (<) (t # dates next_date t n)"
      using Suc.IH valid_later [OF Suc.prems] \<open>b < t\<close> by simp
    ultimately show ?thesis using Some by auto
  qed simp
qed simp

text \<open>No occurrence is missing: one that is not listed comes after a full list.\<close>

lemma dates_complete:
  "valid b \<Longrightarrow> b \<le> b' \<Longrightarrow> next_date b' = Some u \<Longrightarrow>
     u \<in> set (dates next_date b n) \<or> (length (dates next_date b n) = n \<and> (\<forall>t \<in> set (dates next_date b n). t < u))"
proof (induction n arbitrary: b)
  case (Suc n)
  show ?case
  proof (cases "next_date b")
    case None
    with dry [OF Suc.prems(1) None Suc.prems(2)] Suc.prems(3) show ?thesis by simp
  next
    case (Some t)
    have t: "b < t" using later [OF Suc.prems(1) Some] .
    show ?thesis
    proof (cases "b' < t")
      case True
      with stays [OF Suc.prems(1) Some Suc.prems(2)] Suc.prems(3) Some show ?thesis by simp
    next
      case False
      then have "t < u" using later [OF valid_later [OF Suc.prems(1,2)] Suc.prems(3)] by simp
      with Suc.IH [of t] False t valid_later [OF Suc.prems(1)] Suc.prems(3) Some show ?thesis by auto
    qed
  qed
qed simp

end

section \<open>The providers\<close>

interpretation date_source: occurrence_source "DateSchedule date" "\<lambda>_. True" for date
  by unfold_locales (auto simp: DateSchedule_def split: if_splits)

text \<open>A cron expression in a zone without transitions; text that does not parse has no occurrence.\<close>

definition cron_source :: "string \<Rightarrow> int \<Rightarrow> schedule" where
  "cron_source e minutes =
     (case new_CronExpression e of Inr c \<Rightarrow> CronSchedule (fixed_zone (minutes * 60000)) c | Inl _ \<Rightarrow> (\<lambda>_. None))"

definition modern :: "int \<Rightarrow> int \<Rightarrow> bool" where
  "modern minutes b \<longleftrightarrow> 99 < getFullYear (b + minutes * 60000)"

lemma modern_later: "modern minutes b \<Longrightarrow> b \<le> b' \<Longrightarrow> modern minutes b'"
  using getFullYear_mono [of "b + minutes * 60000" "b' + minutes * 60000"] by (simp add: modern_def)

lemma cron_stays:
  assumes e: "new_CronExpression e = Inr c" and m: "modern minutes b"
    and n: "getNextExecutionDate (fixed_zone (minutes * 60000)) c b = Some t" and b': "b \<le> b'" "b' < t"
  shows "getNextExecutionDate (fixed_zone (minutes * 60000)) c b' = Some t"
proof -
  let ?off = "minutes * 60000"
  have off: "?off mod 60000 = 0" by simp
  note t = next_execution_Some [OF e off m [unfolded modern_def] n]
  have m': "99 < getFullYear (b' + ?off)" using modern_later [OF m b'(1)] by (simp add: modern_def)
  show ?thesis
  proof (cases "getNextExecutionDate (fixed_zone ?off) c b'")
    case None
    from next_execution_None [OF e off m' None] t show ?thesis by blast
  next
    case (Some t')
    note t' = next_execution_Some [OF e off m' Some]
    have "\<not> t < t'" using conjunct2 [OF conjunct2 [OF conjunct2 [OF t']], THEN spec, of t] t b'(2) by auto
    moreover have "\<not> t' < t" using conjunct2 [OF conjunct2 [OF conjunct2 [OF t]], THEN spec, of t'] t' b'(1) by auto
    ultimately show ?thesis using Some by simp
  qed
qed

interpretation cron_source: occurrence_source "cron_source e minutes" "modern minutes" for e minutes
proof (unfold_locales, goal_cases)
  case (1 b t)
  show ?case
  proof (cases "new_CronExpression e")
    case (Inr c)
    with 1 next_execution_Some [OF Inr, of "minutes * 60000" b t] show ?thesis
      by (simp add: cron_source_def CronSchedule_def modern_def)
  qed (use 1 in \<open>simp add: cron_source_def\<close>)
next
  case (2 b b')
  then show ?case by (rule modern_later)
next
  case (3 b t b')
  show ?case
  proof (cases "new_CronExpression e")
    case (Inr c)
    with 3 cron_stays [OF Inr, of minutes b t b'] show ?thesis by (simp add: cron_source_def CronSchedule_def)
  qed (use 3 in \<open>simp add: cron_source_def\<close>)
next
  case (4 b b')
  show ?case
  proof (cases "new_CronExpression e")
    case (Inr c)
    let ?off = "minutes * 60000"
    have none: "\<not> cron_matches c w" for w
      using 4 Inr next_execution_None [OF Inr, of ?off b w] by (simp add: cron_source_def CronSchedule_def modern_def)
    then show ?thesis
      using Inr scan_sound [of "fixed_zone ?off" c] by (fastforce simp: cron_source_def CronSchedule_def getNextExecutionDate_def)
  qed (simp add: cron_source_def)
qed

text \<open>
  In a zone without transitions the list of the next n execution dates is strictly
  increasing from the reference instant on, and leaves nothing out: the next execution date of any
  later instant is in the list, or the list has all its n entries and they are earlier.
\<close>

theorem next_dates_enumerate:
  assumes "new_CronExpression e = Inr c" and "99 < getFullYear (from_ms + minutes * 60000)"
    and "ds = getNextExecutionDates (fixed_zone (minutes * 60000)) c from_ms n"
  shows "sorted_wrt (<) (from_ms # ds) \<and>
    (\<forall>b u. from_ms \<le> b \<and> getNextExecutionDate (fixed_zone (minutes * 60000)) c b = Some u \<longrightarrow>
       u \<in> set ds \<or> (length ds = n \<and> (\<forall>t \<in> set ds. t < u)))"
proof -
  have src: "cron_source e minutes = CronSchedule (fixed_zone (minutes * 60000)) c" using assms(1) by (simp add: cron_source_def)
  have m: "modern minutes from_ms" using assms(2) by (simp add: modern_def)
  from cron_source.dates_sorted [OF m, of e n] cron_source.dates_complete [OF m, of _ e _ n]
  show ?thesis unfolding assms(3) getNextExecutionDates_dates src by (auto simp: CronSchedule_def)
qed

theorem next_dates_enumerate_witness:
  "sorted_wrt (<) (1700000000000 # getNextExecutionDates (fixed_zone (60 * 60000)) noon_cron 1700000000000 3)"
proof -
  have "99 < getFullYear (1700000000000 + 60 * 60000)" by code_simp
  from next_dates_enumerate [OF noon_cron_parsed this refl] show ?thesis by blast
qed

end
