(* ===== verification/Local_Scheduler.thy ===== *)
theory Local_Scheduler
  imports Schedules
begin

text \<open>
  The in-process scheduler (\<open>managers/local-scheduler.manager.ts\<close>): the operations of the manager
  and the callbacks of the event loop, over an explicit state. The state objects live in a store,
  because a callback keeps its object after the id is unregistered. The clock does not move within
  one turn of the event loop. Of the log entries only those of skipped and failed work are kept.
\<close>

section \<open>Arguments and errors\<close>

text \<open>What callers pass: a schedule object, or the text of a cron expression.\<close>

datatype schedule_arg = ScheduleObject schedule | CronText string

definition resolveSchedule :: "zone \<Rightarrow> schedule_arg \<Rightarrow> thrown + schedule" where
  "resolveSchedule z arg =
     (case arg of ScheduleObject sch \<Rightarrow> Inr sch
      | CronText e \<Rightarrow> sum_bind (new_CronExpression e) (\<lambda>c. Inr (CronSchedule z c)))"

definition ScheduleAlreadyExistsError :: "string \<Rightarrow> thrown" where
  "ScheduleAlreadyExistsError sid =
     new_PristineError ''ScheduleAlreadyExistsError'' (''A schedule is already registered with the id '' @ quoted sid @ ''.'')
       None (Some ''SCHEDULE_ALREADY_EXISTS'') (Some 409) (Some sid) None None"

definition ScheduleNotFoundError :: "string \<Rightarrow> thrown" where
  "ScheduleNotFoundError sid =
     new_PristineError ''ScheduleNotFoundError'' (''No schedule is registered with the id '' @ quoted sid @ ''.'')
       None (Some ''SCHEDULE_NOT_FOUND'') (Some 404) (Some sid) None None"

section \<open>The state\<close>

record schedule_options =
  op_allowOverlap :: "bool option"
  op_catchUp :: "bool option"
  op_threshold :: "int option"

record entry =
  en_id :: string
  en_schedule :: schedule
  en_task :: nat
  en_allowOverlap :: bool
  en_catchUp :: bool
  en_threshold :: int
  en_timeout :: "nat option"
  en_armedTarget :: "int option"
  en_nextDate :: "int option"
  en_running :: bool

text \<open>What the outside sees: the tasks started, with their event id, and the occurrences skipped.\<close>

datatype journal_entry =
    Ran string nat int string
  | SkippedMissed string int int
  | SkippedOverlap string int
  | TagSkipped string string
  | TagFailed string thrown

record scheduler =
  sd_started :: bool
  sd_states :: "nat obj"
  sd_store :: "nat \<Rightarrow> entry"
  sd_fresh :: nat
  sd_timers :: "(nat \<times> int \<times> nat) list"
  sd_inFlight :: "(nat \<times> nat) list"
  sd_clock :: int
  sd_journal :: "journal_entry list"

definition MAX_TIMEOUT_DELAY :: int where "MAX_TIMEOUT_DELAY = 2147483647"

definition DEFAULT_MISSED_EXECUTION_THRESHOLD_MS :: int where "DEFAULT_MISSED_EXECUTION_THRESHOLD_MS = 5000"

abbreviation upd :: "nat \<Rightarrow> (entry \<Rightarrow> entry) \<Rightarrow> scheduler \<Rightarrow> scheduler" where
  "upd r f s \<equiv> s\<lparr>sd_store := (sd_store s)(r := f (sd_store s r))\<rparr>"

text \<open>
  Node's \<open>setTimeout\<close> replaces a delay outside 1 to \<open>2^31 - 1\<close> by 1; the timer's entry holds the
  earliest time it elapses.
\<close>

definition setTimeout :: "int \<Rightarrow> nat \<Rightarrow> scheduler \<Rightarrow> nat \<times> scheduler" where
  "setTimeout delay r s =
     (sd_fresh s, s\<lparr>sd_timers := sd_timers s @ [(sd_fresh s, sd_clock s + (if delay < 1 \<or> delay > 2147483647 then 1 else delay), r)],
        sd_fresh := Suc (sd_fresh s)\<rparr>)"

definition clearTimeout :: "nat \<Rightarrow> scheduler \<Rightarrow> scheduler" where
  "clearTimeout h s = s\<lparr>sd_timers := filter (\<lambda>(h', _). h' \<noteq> h) (sd_timers s)\<rparr>"

section \<open>Timers\<close>

definition clearTimer :: "nat \<Rightarrow> scheduler \<Rightarrow> scheduler" where
  "clearTimer r s =
     (case en_timeout (sd_store s r) of None \<Rightarrow> s
      | Some h \<Rightarrow> upd r (en_timeout_update (\<lambda>_. None)) (clearTimeout h s))"

definition setChunkedTimeout :: "nat \<Rightarrow> scheduler \<Rightarrow> scheduler" where
  "setChunkedTimeout r s =
     (case en_armedTarget (sd_store s r) of None \<Rightarrow> s
      | Some target \<Rightarrow>
          let delay = target - sd_clock s;
              chunk = max 0 (min delay MAX_TIMEOUT_DELAY);
              (h, s1) = setTimeout chunk r s in
          upd r (en_timeout_update (\<lambda>_. Some h)) s1)"

definition armFrom :: "nat \<Rightarrow> int \<Rightarrow> scheduler \<Rightarrow> scheduler" where
  "armFrom r baseEpoch s =
     (case en_schedule (sd_store s r) baseEpoch of
        None \<Rightarrow> upd r (\<lambda>e. e\<lparr>en_armedTarget := None, en_nextDate := None\<rparr>) s
      | Some t \<Rightarrow> setChunkedTimeout r (upd r (\<lambda>e. e\<lparr>en_armedTarget := Some t, en_nextDate := Some t\<rparr>) s))"

definition arm :: "nat \<Rightarrow> scheduler \<Rightarrow> scheduler" where
  "arm r s = armFrom r (sd_clock s) (clearTimer r s)"

section \<open>Running tasks\<close>

text \<open>\<open>toISOString\<close>.\<close>

definition pad :: "nat \<Rightarrow> nat \<Rightarrow> string" where
  "pad width n = replicate (width - length (show_nat n)) (CHR ''0'') @ show_nat n"

definition toISOString :: "int \<Rightarrow> string" where
  "toISOString t =
     (let y = getFullYear t in
      (if 0 \<le> y \<and> y \<le> 9999 then pad 4 (nat y) else (if y < 0 then ''-'' else ''+'') @ pad 6 (nat \<bar>y\<bar>)) @ ''-'' @
      pad 2 (nat (getMonth t + 1)) @ ''-'' @ pad 2 (nat (getDate t)) @ ''T'' @ pad 2 (nat (getHours t)) @ '':'' @
      pad 2 (nat (getMinutes t)) @ '':'' @ pad 2 (nat (getSeconds t)) @ ''.'' @ pad 3 (nat (t mod 1000)) @ ''Z'')"

definition execute_task :: "nat \<Rightarrow> int \<Rightarrow> scheduler \<Rightarrow> scheduler" where
  "execute_task r target s =
     (let e = sd_store s r; s1 = upd r (en_running_update (\<lambda>_. True)) s in
      s1\<lparr>sd_journal := sd_journal s1 @ [Ran (en_id e) (en_task e) target (en_id e @ '':'' @ toISOString target)],
         sd_inFlight := sd_inFlight s1 @ [(sd_fresh s1, r)], sd_fresh := Suc (sd_fresh s1)\<rparr>)"

definition fire :: "nat \<Rightarrow> int \<Rightarrow> scheduler \<Rightarrow> scheduler" where
  "fire r target s =
     (let now = sd_clock s; e = sd_store s r;
          driftMs = now - target;
          isMissed = (driftMs > en_threshold e);
          skipBecauseMissed = (isMissed \<and> \<not> en_catchUp e);
          skipBecauseOverlap = (en_running e \<and> \<not> en_allowOverlap e);
          s1 = armFrom r (max now target) s in
      if skipBecauseMissed then s1\<lparr>sd_journal := sd_journal s1 @ [SkippedMissed (en_id e) target driftMs]\<rparr>
      else if skipBecauseOverlap then s1\<lparr>sd_journal := sd_journal s1 @ [SkippedOverlap (en_id e) target]\<rparr>
      else execute_task r target s1)"

text \<open>The callback of an elapsed timer.\<close>

definition onTimer :: "nat \<Rightarrow> scheduler \<Rightarrow> scheduler" where
  "onTimer r s =
     (let s0 = upd r (en_timeout_update (\<lambda>_. None)) s in
      if \<not> sd_started s0 then s0
      else case en_armedTarget (sd_store s0 r) of None \<Rightarrow> s0
        | Some target \<Rightarrow>
            if target - sd_clock s0 > 1 then setChunkedTimeout r s0 else fire r target s0)"

text \<open>A timer elapses: it leaves the list of timers and its callback runs.\<close>

definition elapse :: "nat \<Rightarrow> nat \<Rightarrow> scheduler \<Rightarrow> scheduler" where
  "elapse h r s = onTimer r (clearTimeout h s)"

text \<open>The end of an invocation, whether its task succeeded or threw.\<close>

definition invocation_settled :: "nat \<Rightarrow> nat \<Rightarrow> scheduler \<Rightarrow> scheduler" where
  "invocation_settled i r s =
     (let s1 = upd r (en_running_update (\<lambda>_. False)) s in
      s1\<lparr>sd_inFlight := filter (\<lambda>(i', _). i' \<noteq> i) (sd_inFlight s1)\<rparr>)"

section \<open>The operations\<close>

definition new_LocalSchedulerManager :: "int \<Rightarrow> scheduler" where
  "new_LocalSchedulerManager now =
     \<lparr>sd_started = False, sd_states = [], sd_store = (\<lambda>_. \<lparr>en_id = [], en_schedule = (\<lambda>_. None), en_task = 0,
        en_allowOverlap = False, en_catchUp = False, en_threshold = 0, en_timeout = None, en_armedTarget = None,
        en_nextDate = None, en_running = False\<rparr>), sd_fresh = 0, sd_timers = [], sd_inFlight = [], sd_clock = now, sd_journal = []\<rparr>"

definition or_default :: "'a option \<Rightarrow> 'a \<Rightarrow> 'a" where
  "or_default x d = (case x of None \<Rightarrow> d | Some v \<Rightarrow> v)"

definition new_entry :: "string \<Rightarrow> schedule \<Rightarrow> nat \<Rightarrow> schedule_options \<Rightarrow> entry" where
  "new_entry sid sch task options =
     \<lparr>en_id = sid, en_schedule = sch, en_task = task, en_allowOverlap = or_default (op_allowOverlap options) False,
      en_catchUp = or_default (op_catchUp options) False,
      en_threshold = or_default (op_threshold options) DEFAULT_MISSED_EXECUTION_THRESHOLD_MS,
      en_timeout = None, en_armedTarget = None, en_nextDate = None, en_running = False\<rparr>"

definition schedule_op :: "zone \<Rightarrow> string \<Rightarrow> schedule_arg \<Rightarrow> nat \<Rightarrow> schedule_options \<Rightarrow> scheduler \<Rightarrow> thrown + scheduler" where
  "schedule_op z sid arg task options s =
     (if obj_has (sd_states s) sid then Inl (ScheduleAlreadyExistsError sid)
      else sum_bind (resolveSchedule z arg) (\<lambda>sch.
        let r = sd_fresh s;
            s1 = s\<lparr>sd_store := (sd_store s)(r := new_entry sid sch task options), sd_fresh := Suc r,
                   sd_states := obj_set sid r (sd_states s)\<rparr> in
        Inr (if sd_started s1 then arm r s1 else s1)))"

definition unschedule :: "string \<Rightarrow> scheduler \<Rightarrow> bool \<times> scheduler" where
  "unschedule sid s =
     (case obj_get (sd_states s) sid of None \<Rightarrow> (False, s)
      | Some r \<Rightarrow> let s1 = clearTimer r s in (True, s1\<lparr>sd_states := obj_delete sid (sd_states s1)\<rparr>))"

text \<open>Rescheduling: the error thrown, if any, and the state it leaves.\<close>

definition reschedule :: "zone \<Rightarrow> string \<Rightarrow> schedule_arg \<Rightarrow> scheduler \<Rightarrow> thrown option \<times> scheduler" where
  "reschedule z sid arg s =
     (case obj_get (sd_states s) sid of None \<Rightarrow> (Some (ScheduleNotFoundError sid), s)
      | Some r \<Rightarrow>
          let s1 = clearTimer r s in
          case resolveSchedule z arg of Inl err \<Rightarrow> (Some err, s1)
          | Inr sch \<Rightarrow>
              let s2 = upd r (\<lambda>e. e\<lparr>en_schedule := sch, en_armedTarget := None, en_nextDate := None\<rparr>) s1 in
              (None, if sd_started s2 then arm r s2 else s2))"

definition has :: "string \<Rightarrow> scheduler \<Rightarrow> bool" where
  "has sid s = obj_has (sd_states s) sid"

record descriptor =
  de_id :: string
  de_schedule :: schedule
  de_isRunning :: bool
  de_nextExecutionDate :: "int option"

definition list_op :: "scheduler \<Rightarrow> descriptor list" where
  "list_op s = map (\<lambda>(_, r). let e = sd_store s r in
     \<lparr>de_id = en_id e, de_schedule = en_schedule e, de_isRunning = en_running e, de_nextExecutionDate = en_nextDate e\<rparr>) (sd_states s)"

definition next_execution_date_op :: "string \<Rightarrow> scheduler \<Rightarrow> thrown + int option" where
  "next_execution_date_op sid s =
     (case obj_get (sd_states s) sid of None \<Rightarrow> Inl (ScheduleNotFoundError sid)
      | Some r \<Rightarrow> let e = sd_store s r in
          Inr (case en_nextDate e of Some t \<Rightarrow> Some t | None \<Rightarrow> en_schedule e (sd_clock s)))"

text \<open>
  A tagged class: its name, what its \<open>getSchedules\<close> returns or throws, and its \<open>run\<close> method.
\<close>

record schedulable =
  sc_name :: string
  sc_getSchedules :: "thrown + schedule list"
  sc_run :: nat

definition default_options :: schedule_options where
  "default_options = \<lparr>op_allowOverlap = None, op_catchUp = None, op_threshold = None\<rparr>"

definition log_entry :: "journal_entry \<Rightarrow> scheduler \<Rightarrow> scheduler" where
  "log_entry x s = s\<lparr>sd_journal := sd_journal s @ [x]\<rparr>"

fun register_schedules :: "zone \<Rightarrow> schedulable \<Rightarrow> nat \<Rightarrow> nat \<Rightarrow> schedule list \<Rightarrow> scheduler \<Rightarrow> scheduler" where
  "register_schedules z sc n_schedules index [] s = s"
| "register_schedules z sc n_schedules index (sch # schs) s =
     (let sid = (if n_schedules > 1 then sc_name sc @ ''#'' @ show_nat index else sc_name sc) in
      if obj_has (sd_states s) sid then
        register_schedules z sc n_schedules (Suc index) schs (log_entry (TagSkipped sid (sc_name sc)) s)
      else case schedule_op z sid (ScheduleObject sch) (sc_run sc) default_options s of
        Inl err \<Rightarrow> log_entry (TagFailed (sc_name sc) err) s
      | Inr s1 \<Rightarrow> register_schedules z sc n_schedules (Suc index) schs s1)"

definition register_schedulable :: "zone \<Rightarrow> schedulable \<Rightarrow> scheduler \<Rightarrow> scheduler" where
  "register_schedulable z sc s =
     (case sc_getSchedules sc of Inl err \<Rightarrow> log_entry (TagFailed (sc_name sc) err) s
      | Inr schs \<Rightarrow> register_schedules z sc (length schs) 0 schs s)"

definition registerSchedulables :: "zone \<Rightarrow> schedulable list \<Rightarrow> scheduler \<Rightarrow> scheduler" where
  "registerSchedulables z scs s = foldl (\<lambda>s sc. register_schedulable z sc s) s scs"

definition start_op :: "zone \<Rightarrow> schedulable list \<Rightarrow> scheduler \<Rightarrow> scheduler" where
  "start_op z scs s =
     (if sd_started s then s
      else let s1 = (registerSchedulables z scs s)\<lparr>sd_started := True\<rparr> in
        foldl (\<lambda>s (_, r). arm r s) s1 (sd_states s1))"

text \<open>Stopping, up to the point where it waits for the invocations in flight.\<close>

definition stop_op :: "scheduler \<Rightarrow> nat list \<times> scheduler" where
  "stop_op s =
     (let s1 = foldl (\<lambda>s (_, r). upd r (\<lambda>e. e\<lparr>en_armedTarget := None, en_nextDate := None\<rparr>) (clearTimer r s))
           (s\<lparr>sd_started := False\<rparr>) (sd_states s) in
      (map fst (sd_inFlight s1), s1))"

section \<open>The event loop\<close>

text \<open>
  One turn: a call of an operation, an elapsed timer (Node may be a millisecond early), the end
  of an invocation, or the passing of time.
\<close>

inductive turn :: "zone \<Rightarrow> scheduler \<Rightarrow> scheduler \<Rightarrow> bool" for z where
  Schedule: "schedule_op z sid arg task options s = Inr s' \<Longrightarrow> turn z s s'"
| Unschedule: "turn z s (snd (unschedule sid s))"
| Reschedule: "turn z s (snd (reschedule z sid arg s))"
| Start: "turn z s (start_op z scs s)"
| Stop: "turn z s (snd (stop_op s))"
| Elapse: "(h, due, r) \<in> set (sd_timers s) \<Longrightarrow> due - 1 \<le> sd_clock s \<Longrightarrow> turn z s (elapse h r s)"
| Settle: "(i, r) \<in> set (sd_inFlight s) \<Longrightarrow> turn z s (invocation_settled i r s)"
| Tick: "0 \<le> d \<Longrightarrow> turn z s (s\<lparr>sd_clock := sd_clock s + d\<rparr>)"

inductive reachable :: "zone \<Rightarrow> scheduler \<Rightarrow> bool" for z where
  Initial: "reachable z (new_LocalSchedulerManager now)"
| Turn: "reachable z s \<Longrightarrow> turn z s s' \<Longrightarrow> reachable z s'"

end
