(* ===== verification/Scheduler_Properties.thy ===== *)
theory Scheduler_Properties
  imports Local_Scheduler
begin

text \<open>
  Invariants of the in-process scheduler over all reachable states, what firing an occurrence
  decides and how it goes on, and two situations the code does not handle: a malformed reschedule
  and a time zone transition.
\<close>

section \<open>The invariants\<close>

abbreviation refs :: "scheduler \<Rightarrow> nat set" where
  "refs s \<equiv> snd ` set (sd_states s)"

text \<open>A timer that elapses by the target of its object, or next, and within the maximal delay.\<close>

definition timely :: "int \<Rightarrow> entry \<Rightarrow> int \<Rightarrow> bool" where
  "timely now e due \<longleftrightarrow> (\<exists>target. en_armedTarget e = Some target \<and> due \<le> max target (now + 1) \<and> due \<le> now + MAX_TIMEOUT_DELAY)"

text \<open>Timers and armed state objects correspond one to one, and only registered ones are armed.\<close>

definition timers_ok :: "scheduler \<Rightarrow> bool" where
  "timers_ok s \<longleftrightarrow>
     wf_obj (sd_states s) \<and> distinct (map snd (sd_states s)) \<and> (\<forall>r \<in> refs s. r < sd_fresh s) \<and>
     distinct (map fst (sd_timers s)) \<and>
     (\<forall>(h, due, r) \<in> set (sd_timers s). h < sd_fresh s \<and> r \<in> refs s \<and> en_timeout (sd_store s r) = Some h \<and>
        timely (sd_clock s) (sd_store s r) due) \<and>
     (\<forall>r h. en_timeout (sd_store s r) = Some h \<longrightarrow> (\<exists>due. (h, due, r) \<in> set (sd_timers s))) \<and>
     (\<forall>r. en_nextDate (sd_store s r) = en_armedTarget (sd_store s r))"

definition inflight_ok :: "scheduler \<Rightarrow> bool" where
  "inflight_ok s \<longleftrightarrow>
     distinct (map fst (sd_inFlight s)) \<and> (\<forall>(i, r) \<in> set (sd_inFlight s). i < sd_fresh s \<and> r < sd_fresh s) \<and>
     (\<forall>r. \<not> en_allowOverlap (sd_store s r) \<longrightarrow>
        (en_running (sd_store s r) \<longleftrightarrow> r \<in> snd ` set (sd_inFlight s)) \<and>
        length (filter (\<lambda>(i, r'). r' = r) (sd_inFlight s)) \<le> 1)"

definition stopped_ok :: "scheduler \<Rightarrow> bool" where
  "stopped_ok s \<longleftrightarrow> (sd_started s \<or> sd_timers s = [])"

section \<open>Timer operations\<close>

lemma obj_set_new: "\<not> obj_has ob k \<Longrightarrow> obj_set k v ob = ob @ [(k, v)]"
  by (induction ob) (auto simp: obj_has_iff)

lemma timers_okD:
  assumes "timers_ok s"
  shows "wf_obj (sd_states s)" "distinct (map snd (sd_states s))" "distinct (map fst (sd_timers s))"
    "\<And>r. r \<in> refs s \<Longrightarrow> r < sd_fresh s"
    "\<And>h due r. (h, due, r) \<in> set (sd_timers s) \<Longrightarrow> h < sd_fresh s \<and> r \<in> refs s \<and> en_timeout (sd_store s r) = Some h \<and>
        timely (sd_clock s) (sd_store s r) due"
    "\<And>r h. en_timeout (sd_store s r) = Some h \<Longrightarrow> \<exists>due. (h, due, r) \<in> set (sd_timers s)"
    "\<And>r. en_nextDate (sd_store s r) = en_armedTarget (sd_store s r)"
  using assms by (fastforce simp: timers_ok_def)+

lemma clearTimer_frame [simp]:
  "sd_states (clearTimer r s) = sd_states s" "sd_started (clearTimer r s) = sd_started s"
  "sd_fresh (clearTimer r s) = sd_fresh s" "sd_inFlight (clearTimer r s) = sd_inFlight s"
  "sd_clock (clearTimer r s) = sd_clock s" "sd_journal (clearTimer r s) = sd_journal s"
  by (simp_all add: clearTimer_def clearTimeout_def split: option.split)

lemma clearTimer_store:
  "sd_store (clearTimer r s) = (sd_store s)(r := (sd_store s r)\<lparr>en_timeout := None\<rparr>)"
  by (cases "en_timeout (sd_store s r)") (auto simp: clearTimer_def clearTimeout_def fun_eq_iff)

lemma timer_handle:
  assumes "timers_ok s" and "(h, due, r) \<in> set (sd_timers s)" and "(h', due', r') \<in> set (sd_timers s)"
  shows "r = r' \<longleftrightarrow> h = h'"
proof
  assume "r = r'"
  then show "h = h'" using timers_okD(5) [OF assms(1,2)] timers_okD(5) [OF assms(1,3)] by simp
next
  assume "h = h'"
  with distinct_map_inj [OF timers_okD(3) [OF assms(1)] assms(2,3)] show "r = r'" by simp
qed

lemma clearTimer_timers:
  assumes "timers_ok s"
  shows "sd_timers (clearTimer r s) = filter (\<lambda>(_, _, r'). r' \<noteq> r) (sd_timers s)"
proof (cases "en_timeout (sd_store s r)")
  case None
  then have "r' \<noteq> r" if "(h', due, r') \<in> set (sd_timers s)" for h' due r'
    using timers_okD(5) [OF assms that] by auto
  then have "filter (\<lambda>(_, _, r'). r' \<noteq> r) (sd_timers s) = sd_timers s" by (auto simp: filter_id_conv)
  with None show ?thesis by (simp add: clearTimer_def)
next
  case (Some h)
  from timers_okD(6) [OF assms Some] obtain due0 where t: "(h, due0, r) \<in> set (sd_timers s)" by blast
  have "filter (\<lambda>(h', _). h' \<noteq> h) (sd_timers s) = filter (\<lambda>(_, _, r'). r' \<noteq> r) (sd_timers s)"
    using timer_handle [OF assms _ t] by (intro filter_cong) auto
  with Some show ?thesis by (simp add: clearTimer_def clearTimeout_def)
qed

lemma clearTimer_ok:
  assumes "timers_ok s"
  shows "timers_ok (clearTimer r s)"
  unfolding timers_ok_def clearTimer_timers [OF assms] clearTimer_store clearTimer_frame
  using timers_okD [OF assms] by (auto simp: distinct_map_filter)

text \<open>An elapsed timer is a cleared one: its callback starts from the state \<open>clearTimer\<close> gives.\<close>

lemma elapse_alt:
  assumes "timers_ok s" and "(h, due, r) \<in> set (sd_timers s)"
  shows "upd r (en_timeout_update (\<lambda>_. None)) (clearTimeout h s) = clearTimer r s"
  using timers_okD(5) [OF assms] by (simp add: clearTimer_def)

lemma setChunkedTimeout_frame [simp]:
  "sd_states (setChunkedTimeout r s) = sd_states s" "sd_started (setChunkedTimeout r s) = sd_started s"
  "sd_inFlight (setChunkedTimeout r s) = sd_inFlight s" "sd_clock (setChunkedTimeout r s) = sd_clock s"
  "sd_journal (setChunkedTimeout r s) = sd_journal s" "sd_fresh s \<le> sd_fresh (setChunkedTimeout r s)"
  by (simp_all add: setChunkedTimeout_def setTimeout_def Let_def split: option.split)

definition timer_delay :: "int \<Rightarrow> int" where
  "timer_delay delay = max 1 (min delay MAX_TIMEOUT_DELAY)"

lemma setChunkedTimeout_Some:
  assumes "en_armedTarget (sd_store s r) = Some target"
  shows "setChunkedTimeout r s = s\<lparr>sd_timers := sd_timers s @ [(sd_fresh s, sd_clock s + timer_delay (target - sd_clock s), r)],
      sd_fresh := Suc (sd_fresh s), sd_store := (sd_store s)(r := (sd_store s r)\<lparr>en_timeout := Some (sd_fresh s)\<rparr>)\<rparr>"
  using assms by (auto simp: setChunkedTimeout_def setTimeout_def timer_delay_def MAX_TIMEOUT_DELAY_def Let_def)

lemma setChunkedTimeout_ok:
  assumes "timers_ok s" and "r \<in> refs s" and "en_timeout (sd_store s r) = None"
  shows "timers_ok (setChunkedTimeout r s)"
proof (cases "en_armedTarget (sd_store s r)")
  case None
  with assms show ?thesis by (simp add: setChunkedTimeout_def)
next
  case (Some target)
  note D = timers_okD [OF assms(1)]
  have "timely (sd_clock s) ((sd_store s r)\<lparr>en_timeout := Some (sd_fresh s)\<rparr>) (sd_clock s + timer_delay (target - sd_clock s))"
    using Some by (simp add: timely_def timer_delay_def MAX_TIMEOUT_DELAY_def)
  moreover have "sd_fresh s \<notin> fst ` set (sd_timers s)" using D(5) by fastforce
  moreover have "(h, due, r) \<notin> set (sd_timers s)" for h due using D(5) [of h due r] assms(3) by auto
  ultimately show ?thesis
    unfolding setChunkedTimeout_Some [OF Some] timers_ok_def
    using D assms(2) Some by (auto simp: less_Suc_eq)
qed

lemma armFrom_frame [simp]:
  "sd_states (armFrom r b s) = sd_states s" "sd_started (armFrom r b s) = sd_started s"
  "sd_inFlight (armFrom r b s) = sd_inFlight s" "sd_clock (armFrom r b s) = sd_clock s"
  "sd_journal (armFrom r b s) = sd_journal s" "sd_fresh s \<le> sd_fresh (armFrom r b s)"
  by (simp_all add: armFrom_def order_trans [OF _ setChunkedTimeout_frame(6)] split: option.split)

text \<open>Any change of an unarmed object that keeps its two dates equal is harmless.\<close>

lemma upd_ok:
  assumes "timers_ok s" and "en_timeout (sd_store s r) = None" and "en_timeout e = None" and "en_nextDate e = en_armedTarget e"
  shows "timers_ok (s\<lparr>sd_store := (sd_store s)(r := e)\<rparr>)"
proof -
  note D = timers_okD [OF assms(1)]
  have "r' \<noteq> r" if "(h, due, r') \<in> set (sd_timers s)" for h due r' using D(5) [OF that] assms(2) by auto
  then have "\<forall>(h, due, r') \<in> set (sd_timers s). r' \<noteq> r" by blast
  moreover have "\<exists>due. (h, due, r') \<in> set (sd_timers s)" if "en_timeout (((sd_store s)(r := e)) r') = Some h" for r' h
    using that D(6) assms(3) by (cases "r' = r") simp_all
  ultimately show ?thesis
    using assms(1,4) unfolding timers_ok_def by (simp add: case_prod_unfold)
qed

lemma armFrom_ok:
  assumes "timers_ok s" and "r \<in> refs s" and "en_timeout (sd_store s r) = None"
  shows "timers_ok (armFrom r b s)"
proof (cases "en_schedule (sd_store s r) b")
  case None
  with assms show ?thesis by (simp add: armFrom_def upd_ok)
next
  case (Some t)
  let ?s = "upd r (\<lambda>e. e\<lparr>en_armedTarget := Some t, en_nextDate := Some t\<rparr>) s"
  have "timers_ok ?s" by (rule upd_ok) (use assms in simp_all)
  then have "timers_ok (setChunkedTimeout r ?s)" by (rule setChunkedTimeout_ok) (use assms in simp_all)
  with Some show ?thesis by (simp add: armFrom_def)
qed

lemma arm_frame [simp]:
  "sd_states (arm r s) = sd_states s" "sd_started (arm r s) = sd_started s" "sd_inFlight (arm r s) = sd_inFlight s"
  "sd_clock (arm r s) = sd_clock s" "sd_journal (arm r s) = sd_journal s" "sd_fresh s \<le> sd_fresh (arm r s)"
  using armFrom_frame(6) [of "clearTimer r s" r] by (simp_all add: arm_def)

lemma arm_ok: "timers_ok s \<Longrightarrow> r \<in> refs s \<Longrightarrow> timers_ok (arm r s)"
  unfolding arm_def by (rule armFrom_ok) (auto simp: clearTimer_ok clearTimer_store)

section \<open>Every turn keeps the invariants\<close>

text \<open>Changes that do not concern running tasks.\<close>

definition same_runs :: "scheduler \<Rightarrow> scheduler \<Rightarrow> bool" where
  "same_runs s s' \<longleftrightarrow> sd_inFlight s' = sd_inFlight s \<and> sd_fresh s \<le> sd_fresh s' \<and>
     (\<forall>r. en_running (sd_store s' r) = en_running (sd_store s r) \<and> en_allowOverlap (sd_store s' r) = en_allowOverlap (sd_store s r))"

lemma same_runs_refl [simp]: "same_runs s s"
  by (simp add: same_runs_def)

lemma same_runs_trans: "same_runs s s' \<Longrightarrow> same_runs s' s'' \<Longrightarrow> same_runs s s''"
  by (auto simp: same_runs_def)

lemma inflight_ok_cong: "same_runs s s' \<Longrightarrow> inflight_ok s \<Longrightarrow> inflight_ok s'"
  by (auto simp: same_runs_def inflight_ok_def)

lemma clearTimer_runs: "same_runs s (clearTimer r s)"
  by (simp add: same_runs_def clearTimer_store)

lemma setChunkedTimeout_runs: "same_runs s (setChunkedTimeout r s)"
  by (cases "en_armedTarget (sd_store s r)") (auto simp: same_runs_def setChunkedTimeout_Some, simp_all add: setChunkedTimeout_def)

lemma armFrom_runs: "same_runs s (armFrom r b s)"
proof (cases "en_schedule (sd_store s r) b")
  case (Some t)
  have "same_runs s (upd r (\<lambda>e. e\<lparr>en_armedTarget := Some t, en_nextDate := Some t\<rparr>) s)" by (simp add: same_runs_def)
  from same_runs_trans [OF this setChunkedTimeout_runs] Some show ?thesis by (simp add: armFrom_def)
qed (simp add: armFrom_def same_runs_def)

lemma arm_runs: "same_runs s (arm r s)"
  unfolding arm_def by (rule same_runs_trans [OF clearTimer_runs armFrom_runs])

text \<open>The state of the manager between turns.\<close>

definition sched_ok :: "scheduler \<Rightarrow> bool" where
  "sched_ok s \<longleftrightarrow> timers_ok s \<and> inflight_ok s \<and> stopped_ok s"

lemma sched_okI: "timers_ok s \<Longrightarrow> same_runs s0 s \<Longrightarrow> inflight_ok s0 \<Longrightarrow> stopped_ok s \<Longrightarrow> sched_ok s"
  by (auto simp: sched_ok_def intro: inflight_ok_cong)

lemma clearTimer_stopped: "timers_ok s \<Longrightarrow> stopped_ok s \<Longrightarrow> stopped_ok (clearTimer r s)"
  by (auto simp: stopped_ok_def clearTimer_timers)

lemma new_ok: "sched_ok (new_LocalSchedulerManager now)"
  by (simp add: sched_ok_def timers_ok_def inflight_ok_def stopped_ok_def new_LocalSchedulerManager_def)

definition registered :: "string \<Rightarrow> schedule \<Rightarrow> nat \<Rightarrow> schedule_options \<Rightarrow> scheduler \<Rightarrow> scheduler" where
  "registered sid sch task options s =
     s\<lparr>sd_store := (sd_store s)(sd_fresh s := new_entry sid sch task options), sd_fresh := Suc (sd_fresh s),
       sd_states := obj_set sid (sd_fresh s) (sd_states s)\<rparr>"

lemma schedule_op_alt:
  "schedule_op z sid arg task options s =
     (if obj_has (sd_states s) sid then Inl (ScheduleAlreadyExistsError sid)
      else sum_bind (resolveSchedule z arg) (\<lambda>sch.
        Inr (if sd_started s then arm (sd_fresh s) (registered sid sch task options s) else registered sid sch task options s)))"
  by (simp add: schedule_op_def registered_def Let_def cong: if_cong)

lemma registered_ok:
  assumes ok: "sched_ok s" and new: "\<not> obj_has (sd_states s) sid"
  shows "sched_ok (registered sid sch task options s)" (is "sched_ok ?s1")
proof -
  have T: "timers_ok s" and I: "inflight_ok s" and S: "stopped_ok s" using ok by (auto simp: sched_ok_def)
  note D = timers_okD [OF T]
  let ?r = "sd_fresh s"
  have states: "sd_states ?s1 = sd_states s @ [(sid, ?r)]"
    using new by (simp add: registered_def obj_set_new)
  have refs: "\<forall>r \<in> refs s. r < sd_fresh s" using D(4) by blast
  have timers: "r \<noteq> ?r" if "(h, due, r) \<in> set (sd_timers s)" for h due r using D(4) [of r] D(5) [OF that] by auto
  have "wf_obj (sd_states ?s1)" using D(1) by (simp add: registered_def)
  moreover have "distinct (map snd (sd_states ?s1))" using D(2) refs by (auto simp: states)
  ultimately have "timers_ok ?s1"
    using D refs timers unfolding timers_ok_def states by (auto simp: registered_def new_entry_def less_Suc_eq)
  moreover have none: "filter (\<lambda>(i, r'). r' = ?r) (sd_inFlight s) = []" "?r \<notin> snd ` set (sd_inFlight s)"
    using I by (auto simp: inflight_ok_def filter_empty_conv)
  then have "inflight_ok ?s1"
    using I unfolding inflight_ok_def registered_def
    by (auto simp: new_entry_def less_Suc_eq)
  moreover have "stopped_ok ?s1" using S by (simp add: stopped_ok_def registered_def)
  ultimately show ?thesis by (simp add: sched_ok_def)
qed

lemma arm_sched_ok: "sched_ok s \<Longrightarrow> sd_started s \<Longrightarrow> r \<in> refs s \<Longrightarrow> sched_ok (arm r s)"
  by (rule sched_okI [OF arm_ok arm_runs]) (auto simp: sched_ok_def stopped_ok_def)

lemma schedule_ok: "sched_ok s \<Longrightarrow> schedule_op z sid arg task options s = Inr s' \<Longrightarrow> sched_ok s'"
  by (auto simp: schedule_op_alt sum_bind_Inr_conv registered_ok intro!: arm_sched_ok split: if_splits)
     (auto simp: registered_def obj_set_new)

lemma unschedule_ok:
  assumes "sched_ok s"
  shows "sched_ok (snd (unschedule sid s))"
proof (cases "obj_get (sd_states s) sid")
  case (Some r)
  have T: "timers_ok (clearTimer r s)" and S: "stopped_ok (clearTimer r s)" and I: "inflight_ok s"
    using assms clearTimer_ok clearTimer_stopped by (auto simp: sched_ok_def)
  let ?s = "(clearTimer r s)\<lparr>sd_states := obj_delete sid (sd_states s)\<rparr>"
  note D = timers_okD [OF T, unfolded clearTimer_frame]
  have sub: "set (obj_delete sid (sd_states s)) = set (sd_states s) - {(sid, r)}"
    using Some D(1) by (auto simp: AList.delete_eq wf_obj_def dest: map_of_SomeD eq_key_imp_eq_value)
  have "refs s - {r} \<subseteq> snd ` set (obj_delete sid (sd_states s))" by (force simp: sub)
  moreover have "r' \<noteq> r" if "(h, due, r') \<in> set (sd_timers (clearTimer r s))" for h due r'
    using D(5) [OF that] by (auto simp: clearTimer_store)
  ultimately have "\<forall>(h, due, r') \<in> set (sd_timers (clearTimer r s)). r' \<in> snd ` set (obj_delete sid (sd_states s))"
    using D(5) by fastforce
  moreover have "distinct (map snd (obj_delete sid (sd_states s)))"
    using D(2) by (simp add: AList.delete_eq distinct_map_filter)
  moreover have "\<forall>r' \<in> snd ` set (obj_delete sid (sd_states s)). r' < sd_fresh s" using D(4) by (auto simp: sub)
  ultimately have "timers_ok ?s"
    using T unfolding timers_ok_def by (simp add: case_prod_unfold)
  moreover have "same_runs s ?s" using clearTimer_runs [of s r] by (simp add: same_runs_def)
  moreover have "stopped_ok ?s" using S by (simp add: stopped_ok_def)
  ultimately have "sched_ok ?s" by (rule sched_okI [OF _ _ I])
  with Some show ?thesis by (simp add: unschedule_def Let_def)
qed (simp add: unschedule_def assms)

lemma reschedule_ok:
  assumes ok: "sched_ok s"
  shows "sched_ok (snd (reschedule z sid arg s))"
proof (cases "obj_get (sd_states s) sid")
  case (Some r)
  then have r: "r \<in> refs s" by (force dest: map_of_SomeD)
  have T: "timers_ok (clearTimer r s)" and S: "stopped_ok (clearTimer r s)" and I: "inflight_ok s"
    using ok clearTimer_ok clearTimer_stopped by (auto simp: sched_ok_def)
  have c: "sched_ok (clearTimer r s)" by (rule sched_okI [OF T clearTimer_runs I S])
  show ?thesis
  proof (cases "resolveSchedule z arg")
    case (Inl err)
    with Some c show ?thesis by (simp add: reschedule_def)
  next
    case (Inr sch)
    let ?s = "upd r (\<lambda>e. e\<lparr>en_schedule := sch, en_armedTarget := None, en_nextDate := None\<rparr>) (clearTimer r s)"
    have "timers_ok ?s" by (rule upd_ok [OF T]) (simp_all add: clearTimer_store)
    moreover have "same_runs s ?s" by (rule same_runs_trans [OF clearTimer_runs [of _ r]]) (simp add: same_runs_def)
    moreover have "stopped_ok ?s" using S by (simp add: stopped_ok_def)
    ultimately have "sched_ok ?s" by (rule sched_okI [OF _ _ I])
    with Some Inr r show ?thesis by (simp add: reschedule_def Let_def arm_sched_ok)
  qed
qed (simp add: reschedule_def ok)

text \<open>Loops over the registered objects.\<close>

lemma fold_states:
  assumes "P s" and "\<And>s' r. P s' \<Longrightarrow> r \<in> snd ` set xs \<Longrightarrow> P (f r s')"
  shows "P (foldl (\<lambda>s (_, r). f r s) s xs)"
  using assms
proof (induction xs arbitrary: s)
  case (Cons x xs)
  from Cons.prems have "P (f (snd x) s)" by auto
  moreover from Cons.prems(2) have "\<And>s' r. P s' \<Longrightarrow> r \<in> snd ` set xs \<Longrightarrow> P (f r s')" by auto
  ultimately have "P (foldl (\<lambda>s (_, r). f r s) (f (snd x) s) xs)" by (rule Cons.IH)
  then show ?case by (simp add: case_prod_unfold)
qed simp

lemma log_entry_ok: "sched_ok s \<Longrightarrow> sched_ok (log_entry x s)"
  by (simp add: sched_ok_def timers_ok_def inflight_ok_def stopped_ok_def log_entry_def)

lemma register_schedules_ok: "sched_ok s \<Longrightarrow> sched_ok (register_schedules z sc n i schs s)"
  by (induction z sc n i schs s rule: register_schedules.induct)
     (auto simp: Let_def log_entry_ok schedule_ok split: sum.split)

lemma registerSchedulables_ok: "sched_ok s \<Longrightarrow> sched_ok (registerSchedulables z scs s)"
  unfolding registerSchedulables_def
  by (induction scs arbitrary: s)
     (auto simp: register_schedulable_def log_entry_ok register_schedules_ok split: sum.split)

lemma start_ok:
  assumes "sched_ok s"
  shows "sched_ok (start_op z scs s)"
proof (cases "sd_started s")
  case False
  let ?s = "(registerSchedulables z scs s)\<lparr>sd_started := True\<rparr>"
  have "sched_ok ?s"
    using registerSchedulables_ok [OF assms, of z scs]
    by (simp add: sched_ok_def timers_ok_def inflight_ok_def stopped_ok_def)
  then have "sched_ok (foldl (\<lambda>s (_, r). arm r s) ?s (sd_states ?s))"
    using fold_states [of "\<lambda>s'. sched_ok s' \<and> sd_started s' \<and> sd_states s' = sd_states ?s" ?s "sd_states ?s" arm]
    by (simp add: arm_sched_ok)
  with False show ?thesis by (simp add: start_op_def Let_def)
qed (simp add: start_op_def assms)

definition disarm :: "nat \<Rightarrow> scheduler \<Rightarrow> scheduler" where
  "disarm r s = upd r (\<lambda>e. e\<lparr>en_armedTarget := None, en_nextDate := None\<rparr>) (clearTimer r s)"

lemma disarm_ok: "timers_ok s \<Longrightarrow> timers_ok (disarm r s)"
  unfolding disarm_def by (rule upd_ok) (auto simp: clearTimer_ok clearTimer_store)

lemma disarm_runs: "same_runs s (disarm r s)"
  unfolding disarm_def by (rule same_runs_trans [OF clearTimer_runs [of _ r]]) (simp add: same_runs_def)

lemma disarm_frame [simp]: "sd_states (disarm r s) = sd_states s" "sd_started (disarm r s) = sd_started s"
  "sd_inFlight (disarm r s) = sd_inFlight s" "sd_journal (disarm r s) = sd_journal s" "sd_clock (disarm r s) = sd_clock s"
  by (simp_all add: disarm_def)

lemma disarm_timers: "timers_ok s \<Longrightarrow> sd_timers (disarm r s) = filter (\<lambda>(_, _, r'). r' \<noteq> r) (sd_timers s)"
  by (simp add: disarm_def clearTimer_timers)

lemma disarm_all:
  "timers_ok s \<Longrightarrow> let s' = foldl (\<lambda>s (_, r). disarm r s) s xs in
     timers_ok s' \<and> same_runs s s' \<and> sd_states s' = sd_states s \<and> sd_started s' = sd_started s \<and>
     sd_inFlight s' = sd_inFlight s \<and> sd_journal s' = sd_journal s \<and>
     sd_timers s' = filter (\<lambda>(_, _, r). r \<notin> snd ` set xs) (sd_timers s)"
proof (induction xs arbitrary: s)
  case (Cons x xs)
  from Cons.IH [OF disarm_ok [OF Cons.prems], of "snd x"] disarm_runs [of s "snd x"] disarm_timers [OF Cons.prems, of "snd x"]
  show ?case by (auto simp: case_prod_unfold Let_def intro: same_runs_trans filter_cong)
qed (simp add: case_prod_unfold)

lemma stop_ok:
  assumes "sched_ok s"
  shows "sched_ok (snd (stop_op s))" "sd_timers (snd (stop_op s)) = []"
proof -
  let ?s = "s\<lparr>sd_started := False\<rparr>"
  have T: "timers_ok ?s" and I: "inflight_ok ?s" using assms by (auto simp: sched_ok_def timers_ok_def inflight_ok_def)
  have eq: "snd (stop_op s) = foldl (\<lambda>s (_, r). disarm r s) ?s (sd_states s)"
    by (simp add: stop_op_def disarm_def Let_def)
  have "filter (\<lambda>(_, _, r). r \<notin> refs s) (sd_timers s) = []"
    using timers_okD(5) [OF T] by (auto simp: filter_empty_conv)
  with disarm_all [OF T, of "sd_states s"] show t: "sd_timers (snd (stop_op s)) = []" by (simp add: eq Let_def)
  show "sched_ok (snd (stop_op s))"
    using disarm_all [OF T, of "sd_states s"] t I by (auto simp: eq Let_def stopped_ok_def intro: sched_okI)
qed

lemma execute_task_ok:
  assumes ok: "sched_ok s" and r: "r < sd_fresh s" and idle: "en_running (sd_store s r) \<longrightarrow> en_allowOverlap (sd_store s r)"
  shows "sched_ok (execute_task r target s)"
proof -
  have T: "timers_ok s" and I: "inflight_ok s" and S: "stopped_ok s" using ok by (auto simp: sched_ok_def)
  have "timers_ok (execute_task r target s)"
    using T unfolding timers_ok_def by (auto simp: execute_task_def Let_def less_Suc_eq timely_def)
  moreover have none: "filter (\<lambda>(i, r'). r' = r) (sd_inFlight s) = []" if "\<not> en_allowOverlap (sd_store s r)"
    using I idle that by (force simp: inflight_ok_def filter_empty_conv)
  have "sd_fresh s \<notin> fst ` set (sd_inFlight s)" using I by (auto simp: inflight_ok_def)
  then have "inflight_ok (execute_task r target s)"
    using I r idle none unfolding inflight_ok_def
    by (auto simp: execute_task_def Let_def less_Suc_eq filter_empty_conv)
  moreover have "stopped_ok (execute_task r target s)" using S by (simp add: stopped_ok_def execute_task_def Let_def)
  ultimately show ?thesis by (simp add: sched_ok_def)
qed

lemma journal_ok: "sched_ok (s\<lparr>sd_journal := j\<rparr>) \<longleftrightarrow> sched_ok s"
  by (simp add: sched_ok_def timers_ok_def inflight_ok_def stopped_ok_def)

lemma fire_ok:
  assumes ok: "sched_ok s" and "sd_started s" and r: "r \<in> refs s" and "en_timeout (sd_store s r) = None"
  shows "sched_ok (fire r target s)"
proof -
  let ?s = "armFrom r (max (sd_clock s) target) s"
  have I: "inflight_ok s" using ok by (simp add: sched_ok_def)
  have "stopped_ok ?s" using assms(2) by (simp add: stopped_ok_def)
  moreover have "timers_ok ?s" using ok by (intro armFrom_ok assms) (simp add: sched_ok_def)
  ultimately have s: "sched_ok ?s" by (intro sched_okI [OF _ armFrom_runs I])
  have "r < sd_fresh ?s" using timers_okD(4) [of ?s r] s r by (simp add: sched_ok_def)
  moreover have "en_running (sd_store ?s r) = en_running (sd_store s r)" "en_allowOverlap (sd_store ?s r) = en_allowOverlap (sd_store s r)"
    using armFrom_runs [of s r] by (simp_all add: same_runs_def)
  ultimately show ?thesis
    using execute_task_ok [OF s] s by (auto simp: fire_def Let_def journal_ok)
qed

lemma elapse_step:
  assumes "timers_ok s" and "(h, due, r) \<in> set (sd_timers s)"
  shows "elapse h r s = (let s0 = clearTimer r s in if \<not> sd_started s0 then s0
      else case en_armedTarget (sd_store s0 r) of None \<Rightarrow> s0
        | Some target \<Rightarrow> if target - sd_clock s0 > 1 then setChunkedTimeout r s0 else fire r target s0)"
  by (simp add: elapse_def onTimer_def elapse_alt [OF assms])

lemma elapse_ok:
  assumes ok: "sched_ok s" and t: "(h, due, r) \<in> set (sd_timers s)"
  shows "sched_ok (elapse h r s)"
proof -
  have T: "timers_ok s" and I: "inflight_ok s" and S: "stopped_ok s" using ok by (auto simp: sched_ok_def)
  have c: "sched_ok (clearTimer r s)"
    by (rule sched_okI [OF clearTimer_ok [OF T] clearTimer_runs I clearTimer_stopped [OF T S]])
  have r: "r \<in> refs s" using timers_okD(5) [OF T t] by simp
  have idle: "en_timeout (sd_store (clearTimer r s) r) = None" by (simp add: clearTimer_store)
  have tc: "timers_ok (clearTimer r s)" using c by (simp add: sched_ok_def)
  note eq = elapse_step [OF T t]
  show ?thesis
  proof (cases "sd_started s \<and> en_armedTarget (sd_store s r) \<noteq> None")
    case True
    then obtain target where target: "en_armedTarget (sd_store s r) = Some target" by auto
    have "sched_ok (setChunkedTimeout r (clearTimer r s))"
      using True setChunkedTimeout_ok [OF tc _ idle] r I
      by (intro sched_okI [OF _ same_runs_trans [OF clearTimer_runs setChunkedTimeout_runs] I]) (simp_all add: stopped_ok_def)
    moreover have "sched_ok (fire r target (clearTimer r s))"
      using True r idle by (intro fire_ok [OF c]) simp_all
    ultimately show ?thesis using True target by (simp add: eq Let_def clearTimer_store)
  next
    case False
    with c show ?thesis by (auto simp: eq Let_def clearTimer_store)
  qed
qed

lemma settle_ok:
  assumes ok: "sched_ok s" and i: "(i, r) \<in> set (sd_inFlight s)"
  shows "sched_ok (invocation_settled i r s)"
proof -
  have T: "timers_ok s" and I: "inflight_ok s" and S: "stopped_ok s" using ok by (auto simp: sched_ok_def)
  let ?l = "sd_inFlight s" and ?s = "invocation_settled i r s"
  have l: "sd_inFlight ?s = filter (\<lambda>(i', _). i' \<noteq> i) ?l" by (simp add: invocation_settled_def Let_def)
  have only: "(i', r') = (i, r)" if "(i', r') \<in> set ?l" "i' = i" for i' r'
    using distinct_map_inj [of fst ?l "(i', r')" "(i, r)"] I i that by (auto simp: inflight_ok_def)
  have single: "i' = i" if "(i', r) \<in> set ?l" "\<not> en_allowOverlap (sd_store s r)" for i'
  proof (rule ccontr)
    assume "i' \<noteq> i"
    then have "card {(i, r), (i', r)} = 2" by simp
    moreover have "{(i, r), (i', r)} \<subseteq> set (filter (\<lambda>(i, r'). r' = r) ?l)" using i that(1) by auto
    ultimately have "2 \<le> length (filter (\<lambda>(i, r'). r' = r) ?l)"
      by (metis card_length card_mono finite_set le_trans)
    with I that(2) show False by (fastforce simp: inflight_ok_def)
  qed
  have "inflight_ok ?s"
    unfolding inflight_ok_def l
  proof (intro conjI allI impI)
    show "distinct (map fst (filter (\<lambda>(i', _). i' \<noteq> i) ?l))" using I by (auto simp: inflight_ok_def distinct_map_filter)
    show "\<forall>(i', r') \<in> set (filter (\<lambda>(i', _). i' \<noteq> i) ?l). i' < sd_fresh ?s \<and> r' < sd_fresh ?s"
      using I by (auto simp: inflight_ok_def invocation_settled_def Let_def)
  next
    fix r'
    assume a: "\<not> en_allowOverlap (sd_store ?s r')"
    then have a': "\<not> en_allowOverlap (sd_store s r')" by (auto simp: invocation_settled_def Let_def split: if_splits)
    show "en_running (sd_store ?s r') \<longleftrightarrow> r' \<in> snd ` set (filter (\<lambda>(i', _). i' \<noteq> i) ?l)"
    proof (cases "r' = r")
      case True
      then have "r' \<notin> snd ` set (filter (\<lambda>(i', _). i' \<noteq> i) ?l)" using single a' by auto
      with True show ?thesis by (simp add: invocation_settled_def Let_def)
    next
      case False
      then have "en_running (sd_store ?s r') \<longleftrightarrow> r' \<in> snd ` set ?l"
        using I a' by (auto simp: inflight_ok_def invocation_settled_def Let_def)
      also have "\<dots> \<longleftrightarrow> r' \<in> snd ` set (filter (\<lambda>(i', _). i' \<noteq> i) ?l)" using only False by force
      finally show ?thesis .
    qed
    have "length (filter (\<lambda>(i, r''). r'' = r') (filter (\<lambda>(i', _). i' \<noteq> i) ?l)) \<le> length (filter (\<lambda>(i, r''). r'' = r') ?l)"
      using length_filter_le [of "\<lambda>(i', _). i' \<noteq> i" "filter (\<lambda>(i, r''). r'' = r') ?l"]
      by (simp add: conj_commute case_prod_unfold)
    also have "\<dots> \<le> 1" using I a' by (auto simp: inflight_ok_def)
    finally show "length (filter (\<lambda>(i, r''). r'' = r') (filter (\<lambda>(i', _). i' \<noteq> i) ?l)) \<le> 1" .
  qed
  moreover have "timers_ok ?s"
    using T unfolding timers_ok_def by (auto simp: invocation_settled_def Let_def timely_def)
  moreover have "stopped_ok ?s" using S by (simp add: stopped_ok_def invocation_settled_def Let_def)
  ultimately show ?thesis by (simp add: sched_ok_def)
qed

lemma turn_ok: "turn z s s' \<Longrightarrow> sched_ok s \<Longrightarrow> sched_ok s'"
proof (induction rule: turn.induct)
  case (Tick d s)
  then show ?case by (fastforce simp: sched_ok_def timers_ok_def inflight_ok_def stopped_ok_def timely_def)
qed (auto intro: schedule_ok unschedule_ok reschedule_ok start_ok stop_ok(1) elapse_ok settle_ok)

lemma reachable_ok: "reachable z s \<Longrightarrow> sched_ok s"
  by (induction rule: reachable.induct) (auto intro: new_ok turn_ok)

end
