(* ===== verification/Scheduler_Theorems.thy ===== *)
theory Scheduler_Theorems
  imports Scheduler_Properties
begin

text \<open>
  The theorems on the in-process scheduler: one timer per armed schedule, no overlapping runs,
  occurrences in order, and the two situations in which it goes wrong.
\<close>

section \<open>One timer for each armed schedule\<close>

lemma one_timer:
  assumes "timers_ok s"
  shows "length (filter (\<lambda>(_, _, r'). r' = r) (sd_timers s)) \<le> 1"
proof (rule ccontr)
  let ?f = "filter (\<lambda>(_, _, r'). r' = r) (sd_timers s)"
  assume "\<not> length ?f \<le> 1"
  then obtain x y zs where f: "?f = x # y # zs" by (cases ?f; cases "tl ?f") auto
  then have "x \<in> set ?f" "y \<in> set ?f" by simp_all
  then have "(fst x, fst (snd x), r) \<in> set (sd_timers s)" "(fst y, fst (snd y), r) \<in> set (sd_timers s)" by auto
  with timer_handle [OF assms] have "fst x = fst y" by blast
  moreover have "distinct (map fst ?f)" using timers_okD(3) [OF assms] by (simp add: distinct_map_filter)
  ultimately show False by (simp add: f)
qed

text \<open>
  In every reachable state of the scheduler each registered schedule owns at most one
  pending timer and is armed with the date it lists; every pending timer belongs to a registered
  schedule of a started scheduler, elapses no later than the occurrence it is armed for, and never
  exceeds the longest delay \<open>setTimeout\<close> takes.
\<close>

theorem single_timer:
  assumes "reachable z s"
  shows "length (filter (\<lambda>(_, _, r'). r' = r) (sd_timers s)) \<le> 1 \<and>
    en_nextDate (sd_store s r) = en_armedTarget (sd_store s r) \<and>
    (\<forall>(h, due, r) \<in> set (sd_timers s). sd_started s \<and> (\<exists>sid. obj_get (sd_states s) sid = Some r) \<and>
       (\<exists>target. en_armedTarget (sd_store s r) = Some target \<and> due \<le> max target (sd_clock s + 1) \<and> due \<le> sd_clock s + 2147483647))"
proof (intro conjI ballI)
  have T: "timers_ok s" and S: "stopped_ok s" using reachable_ok [OF assms] by (auto simp: sched_ok_def)
  show "length (filter (\<lambda>(_, _, r'). r' = r) (sd_timers s)) \<le> 1" by (rule one_timer [OF T])
  show "en_nextDate (sd_store s r) = en_armedTarget (sd_store s r)" by (rule timers_okD(7) [OF T])
  fix t
  assume t: "t \<in> set (sd_timers s)"
  obtain h due r' where eq: "t = (h, due, r')" by (cases t)
  note D = timers_okD(5) [OF T t [unfolded eq]]
  then obtain sid where "(sid, r') \<in> set (sd_states s)" by auto
  then have "obj_get (sd_states s) sid = Some r'" using timers_okD(1) [OF T] by (simp add: wf_obj_def)
  moreover have "sd_started s" using S t by (auto simp: stopped_ok_def)
  ultimately show "case t of (h, due, r) \<Rightarrow> sd_started s \<and> (\<exists>sid. obj_get (sd_states s) sid = Some r) \<and>
       (\<exists>target. en_armedTarget (sd_store s r) = Some target \<and> due \<le> max target (sd_clock s + 1) \<and> due \<le> sd_clock s + 2147483647)"
    using D by (auto simp: eq timely_def MAX_TIMEOUT_DELAY_def)
qed

text \<open>A started scheduler with one schedule, for the next hour.\<close>

definition sample_manager :: scheduler where
  "sample_manager =
     (case schedule_op (fixed_zone 0) ''job'' (ScheduleObject (DateSchedule 3600000)) 7 default_options
         (start_op (fixed_zone 0) [] (new_LocalSchedulerManager 0)) of Inr s \<Rightarrow> s | Inl _ \<Rightarrow> undefined)"

lemma sample_manager_reachable: "reachable (fixed_zone 0) sample_manager"
proof -
  have "reachable (fixed_zone 0) (start_op (fixed_zone 0) [] (new_LocalSchedulerManager 0))"
    by (rule reachable.Turn [OF reachable.Initial turn.Start])
  moreover have "schedule_op (fixed_zone 0) ''job'' (ScheduleObject (DateSchedule 3600000)) 7 default_options
         (start_op (fixed_zone 0) [] (new_LocalSchedulerManager 0)) = Inr sample_manager"
    by (simp add: sample_manager_def schedule_op_def start_op_def registerSchedulables_def new_LocalSchedulerManager_def
        resolveSchedule_def obj_has_def Let_def)
  ultimately show ?thesis by (blast intro: reachable.Turn turn.Schedule)
qed

lemma sample_manager_simps:
  "sd_timers sample_manager = [(1, 3600000, 0)]" "sd_states sample_manager = [(''job'', 0)]" "sd_clock sample_manager = 0"
  "sd_started sample_manager" "en_armedTarget (sd_store sample_manager 0) = Some 3600000" "sd_journal sample_manager = []"
  "\<not> en_allowOverlap (sd_store sample_manager 0)" "sd_inFlight sample_manager = []"
  by (simp_all add: sample_manager_def schedule_op_def start_op_def registerSchedulables_def new_LocalSchedulerManager_def
      resolveSchedule_def obj_has_def Let_def arm_def armFrom_def clearTimer_def setChunkedTimeout_def setTimeout_def
      new_entry_def DateSchedule_def MAX_TIMEOUT_DELAY_def default_options_def or_default_def)

lemma DateSchedule_later: "from_ms < date \<Longrightarrow> DateSchedule date from_ms = Some date"
  by (simp add: DateSchedule_def)

lemma sample_manager_schedule: "en_schedule (sd_store sample_manager 0) = DateSchedule 3600000"
  by (simp add: sample_manager_def schedule_op_def start_op_def registerSchedulables_def new_LocalSchedulerManager_def
      resolveSchedule_def obj_has_def Let_def arm_def armFrom_def clearTimer_def setChunkedTimeout_def setTimeout_def
      new_entry_def DateSchedule_later)

theorem single_timer_witness:
  "sd_timers sample_manager = [(1, 3600000, 0)] \<and> (\<exists>sid. obj_get (sd_states sample_manager) sid = Some 0)"
  using single_timer [OF sample_manager_reachable, of 0] by (simp add: sample_manager_simps)

text \<open>
  Claim C12. A schedule without \<open>allowOverlap\<close> never runs twice at the same time: in every reachable
  state at most one of its invocations is in flight, and it is listed as running exactly then.
\<close>

theorem no_overlapping_runs:
  assumes "reachable z s" and "\<not> en_allowOverlap (sd_store s r)"
  shows "length (filter (\<lambda>(i, r'). r' = r) (sd_inFlight s)) \<le> 1 \<and>
    (en_running (sd_store s r) \<longleftrightarrow> length (filter (\<lambda>(i, r'). r' = r) (sd_inFlight s)) = 1)"
proof -
  have I: "inflight_ok s" using reachable_ok [OF assms(1)] by (simp add: sched_ok_def)
  let ?f = "filter (\<lambda>(i, r'). r' = r) (sd_inFlight s)"
  have "length ?f \<le> 1" "en_running (sd_store s r) \<longleftrightarrow> r \<in> snd ` set (sd_inFlight s)"
    using I assms(2) by (auto simp: inflight_ok_def)
  moreover have "r \<in> snd ` set (sd_inFlight s) \<longleftrightarrow> ?f \<noteq> []" by (force simp: filter_empty_conv)
  moreover have "?f \<noteq> [] \<longleftrightarrow> length ?f = 1" using calculation(1) by (cases ?f) auto
  ultimately show ?thesis by simp
qed

theorem no_overlapping_runs_witness: "\<not> en_running (sd_store sample_manager 0)"
  using no_overlapping_runs [OF sample_manager_reachable, of 0] by (simp add: sample_manager_simps)

section \<open>Occurrences in order\<close>

text \<open>The turns that are not calls of operations.\<close>

inductive loop_turn :: "scheduler \<Rightarrow> scheduler \<Rightarrow> bool" where
  Elapse: "(h, due, r) \<in> set (sd_timers s) \<Longrightarrow> due - 1 \<le> sd_clock s \<Longrightarrow> loop_turn s (elapse h r s)"
| Settle: "(i, r) \<in> set (sd_inFlight s) \<Longrightarrow> loop_turn s (invocation_settled i r s)"
| Tick: "0 \<le> d \<Longrightarrow> loop_turn s (s\<lparr>sd_clock := sd_clock s + d\<rparr>)"

inductive loop_turns :: "scheduler \<Rightarrow> scheduler \<Rightarrow> bool" where
  None: "loop_turns s s"
| More: "loop_turns s s' \<Longrightarrow> loop_turn s' s'' \<Longrightarrow> loop_turns s s''"

inductive_cases loop_turnE: "loop_turn s s'"

lemma loop_turn_turn: "loop_turn s s' \<Longrightarrow> turn z s s'"
  by (induction rule: loop_turn.induct) (auto intro: turn.intros)

lemma loop_turn_ok: "loop_turn s s' \<Longrightarrow> sched_ok s \<Longrightarrow> sched_ok s'"
  by (rule turn_ok [OF loop_turn_turn])

text \<open>A schedule as its contract wants it: its next occurrence is after the given instant.\<close>

definition strict :: "schedule \<Rightarrow> bool" where
  "strict sch \<longleftrightarrow> (\<forall>b t. sch b = Some t \<longrightarrow> b < t)"

text \<open>The occurrences of a schedule that a journal records, run or skipped.\<close>

fun occurrence :: "string \<Rightarrow> journal_entry \<Rightarrow> int list" where
  "occurrence sid (Ran sid' task target ev) = (if sid' = sid then [target] else [])"
| "occurrence sid (SkippedMissed sid' target d) = (if sid' = sid then [target] else [])"
| "occurrence sid (SkippedOverlap sid' target) = (if sid' = sid then [target] else [])"
| "occurrence sid (TagSkipped _ _) = []"
| "occurrence sid (TagFailed _ _) = []"

definition occurrences :: "string \<Rightarrow> journal_entry list \<Rightarrow> int list" where
  "occurrences sid js = concat (map (occurrence sid) js)"

lemma occurrences_append [simp]: "occurrences sid (xs @ ys) = occurrences sid xs @ occurrences sid ys"
  by (simp add: occurrences_def)

text \<open>What a turn of the loop does to a state object: everything but its timer state stays.\<close>

definition same_entry :: "entry \<Rightarrow> entry \<Rightarrow> bool" where
  "same_entry e e' \<longleftrightarrow> en_id e' = en_id e \<and> en_schedule e' = en_schedule e \<and> en_task e' = en_task e \<and>
     en_allowOverlap e' = en_allowOverlap e \<and> en_catchUp e' = en_catchUp e \<and> en_threshold e' = en_threshold e"

lemma same_entry_refl [simp]: "same_entry e e"
  by (simp add: same_entry_def)

lemma setChunkedTimeout_entry:
  "sd_store (setChunkedTimeout r s) r' = (sd_store s r')\<lparr>en_timeout := en_timeout (sd_store (setChunkedTimeout r s) r')\<rparr>"
  by (cases "en_armedTarget (sd_store s r)") (auto simp: setChunkedTimeout_Some, simp_all add: setChunkedTimeout_def)

lemma setChunkedTimeout_armed [simp]:
  "en_armedTarget (sd_store (setChunkedTimeout r s) r') = en_armedTarget (sd_store s r')"
  by (subst setChunkedTimeout_entry) simp

lemma setChunkedTimeout_same: "same_entry (sd_store s r') (sd_store (setChunkedTimeout r s) r')"
  by (subst setChunkedTimeout_entry) (simp add: same_entry_def)

lemma armFrom_armed:
  "en_armedTarget (sd_store (armFrom r b s) r') = (if r' = r then en_schedule (sd_store s r) b else en_armedTarget (sd_store s r'))"
  by (simp add: armFrom_def split: option.split)

lemma armFrom_same: "same_entry (sd_store s r') (sd_store (armFrom r b s) r')"
proof (cases "en_schedule (sd_store s r) b")
  case (Some t)
  let ?s = "upd r (\<lambda>e. e\<lparr>en_armedTarget := Some t, en_nextDate := Some t\<rparr>) s"
  from setChunkedTimeout_same [of ?s r' r] Some show ?thesis by (auto simp: armFrom_def same_entry_def)
qed (simp add: armFrom_def same_entry_def)

text \<open>What firing an occurrence records.\<close>

definition decision :: "scheduler \<Rightarrow> nat \<Rightarrow> int \<Rightarrow> journal_entry" where
  "decision s r target =
     (let e = sd_store s r in
      if sd_clock s - target > en_threshold e \<and> \<not> en_catchUp e then SkippedMissed (en_id e) target (sd_clock s - target)
      else if en_running e \<and> \<not> en_allowOverlap e then SkippedOverlap (en_id e) target
      else Ran (en_id e) (en_task e) target (en_id e @ '':'' @ toISOString target))"

lemma fire_facts:
  "sd_journal (fire r target s) = sd_journal s @ [decision s r target]"
  "sd_states (fire r target s) = sd_states s"
  "en_armedTarget (sd_store (fire r target s) r') =
     (if r' = r then en_schedule (sd_store s r) (max (sd_clock s) target) else en_armedTarget (sd_store s r'))"
  "same_entry (sd_store s r') (sd_store (fire r target s) r')"
  using armFrom_same [of s r' r "max (sd_clock s) target"] armFrom_same [of s r r "max (sd_clock s) target"]
  by (auto simp: fire_def decision_def execute_task_def Let_def armFrom_armed same_entry_def)

lemma occurrence_decision: "occurrence sid (decision s r target) = (if sid = en_id (sd_store s r) then [target] else [])"
  by (auto simp: decision_def Let_def)

text \<open>
  The state of one schedule since the loop started at a journal of length \<open>n\<close>: the occurrences
  handled so far are in order, and before the one the schedule is armed for.
\<close>

definition in_order :: "nat \<Rightarrow> scheduler \<Rightarrow> string \<Rightarrow> nat \<Rightarrow> bool" where
  "in_order n s sid r \<longleftrightarrow>
     n \<le> length (sd_journal s) \<and> sorted_wrt (<) (occurrences sid (drop n (sd_journal s))) \<and>
     (\<forall>t \<in> set (occurrences sid (drop n (sd_journal s))). \<forall>a. en_armedTarget (sd_store s r) = Some a \<longrightarrow> t < a)"

definition names_ok :: "scheduler \<Rightarrow> bool" where
  "names_ok s \<longleftrightarrow> (\<forall>(sid, r) \<in> set (sd_states s). en_id (sd_store s r) = sid)"

text \<open>Turns that register nothing keep the names of the state objects.\<close>

definition keeps :: "scheduler \<Rightarrow> scheduler \<Rightarrow> bool" where
  "keeps s s' \<longleftrightarrow> set (sd_states s') \<subseteq> set (sd_states s) \<and> (\<forall>r. en_id (sd_store s' r) = en_id (sd_store s r))"

lemma keeps_refl [simp]: "keeps s s"
  by (simp add: keeps_def)

lemma keeps_trans: "keeps s s' \<Longrightarrow> keeps s' s'' \<Longrightarrow> keeps s s''"
  by (auto simp: keeps_def)

lemma keeps_names: "keeps s s' \<Longrightarrow> names_ok s \<Longrightarrow> names_ok s'"
  by (fastforce simp: keeps_def names_ok_def)

lemma clearTimer_keeps: "keeps s (clearTimer r s)"
  by (simp add: keeps_def clearTimer_store)

lemma armFrom_keeps: "keeps s (armFrom r b s)"
  using armFrom_same by (simp add: keeps_def same_entry_def)

lemma arm_keeps: "keeps s (arm r s)"
  unfolding arm_def by (rule keeps_trans [OF clearTimer_keeps armFrom_keeps])

lemma unschedule_keeps: "keeps s (snd (unschedule sid s))"
  by (auto simp: unschedule_def keeps_def Let_def AList.delete_eq clearTimer_store split: option.splits)

lemma reschedule_keeps: "keeps s (snd (reschedule z sid arg s))"
proof (cases "obj_get (sd_states s) sid")
  case (Some r)
  have "keeps s (upd r (\<lambda>e. e\<lparr>en_schedule := sch, en_armedTarget := None, en_nextDate := None\<rparr>) (clearTimer r s))" for sch
    by (rule keeps_trans [OF clearTimer_keeps [of _ r]]) (simp add: keeps_def)
  with Some show ?thesis
    by (auto simp: reschedule_def Let_def clearTimer_keeps intro: keeps_trans [OF _ arm_keeps] split: sum.split)
qed (simp add: reschedule_def)

lemma stop_keeps: "keeps s (snd (stop_op s))"
proof -
  have d: "keeps s' (disarm r s')" for r s' by (simp add: disarm_def keeps_def clearTimer_store)
  have "keeps s (foldl (\<lambda>s (_, r). disarm r s) (s\<lparr>sd_started := False\<rparr>) (sd_states s))"
  proof (rule fold_states)
    show "keeps s (s\<lparr>sd_started := False\<rparr>)" by (simp add: keeps_def)
  qed (rule keeps_trans [OF _ d])
  then show ?thesis by (simp add: stop_op_def disarm_def Let_def)
qed

lemma fire_keeps: "keeps s (fire r target s)"
  using fire_facts(4) by (simp add: keeps_def fire_facts(2) same_entry_def)

lemma setChunkedTimeout_keeps: "keeps s (setChunkedTimeout r s)"
  using setChunkedTimeout_same by (simp add: keeps_def same_entry_def)

lemma elapse_keeps:
  assumes "timers_ok s" and "(h, due, r) \<in> set (sd_timers s)"
  shows "keeps s (elapse h r s)"
proof -
  note c = keeps_trans [OF clearTimer_keeps [of s r]]
  show ?thesis
    unfolding elapse_step [OF assms] Let_def
    by (auto intro: c [OF fire_keeps] c [OF setChunkedTimeout_keeps] clearTimer_keeps split: option.split)
qed

lemma registered_names:
  assumes "sched_ok s" and "\<not> obj_has (sd_states s) sid" and "names_ok s"
  shows "names_ok (registered sid sch task options s)"
proof -
  have "\<forall>r \<in> refs s. r < sd_fresh s" using timers_okD(4) assms(1) by (auto simp: sched_ok_def)
  with assms(2,3) show ?thesis by (auto simp: names_ok_def registered_def obj_set_new new_entry_def)
qed

lemma schedule_names:
  "sched_ok s \<Longrightarrow> names_ok s \<Longrightarrow> schedule_op z sid arg task options s = Inr s' \<Longrightarrow> names_ok s'"
  by (auto simp: schedule_op_alt sum_bind_Inr_conv registered_names intro: keeps_names [OF arm_keeps] split: if_splits)

lemma log_entry_names: "names_ok s \<Longrightarrow> names_ok (log_entry x s)"
  by (simp add: names_ok_def log_entry_def)

lemma register_schedules_names:
  "sched_ok s \<Longrightarrow> names_ok s \<Longrightarrow> names_ok (register_schedules z sc n i schs s)"
  by (induction z sc n i schs s rule: register_schedules.induct)
     (auto simp: Let_def log_entry_names log_entry_ok schedule_names schedule_ok split: sum.split)

lemma registerSchedulables_names: "sched_ok s \<Longrightarrow> names_ok s \<Longrightarrow> names_ok (registerSchedulables z scs s)"
  unfolding registerSchedulables_def
  by (induction scs arbitrary: s)
     (auto simp: register_schedulable_def log_entry_ok register_schedules_ok log_entry_names register_schedules_names split: sum.split)

lemma start_names:
  assumes "sched_ok s" and "names_ok s"
  shows "names_ok (start_op z scs s)"
proof -
  let ?s = "(registerSchedulables z scs s)\<lparr>sd_started := True\<rparr>"
  have "names_ok ?s" using registerSchedulables_names [OF assms, of z scs] by (simp add: names_ok_def)
  then have "names_ok (foldl (\<lambda>s (_, r). arm r s) ?s (sd_states ?s))"
    by (rule fold_states) (rule keeps_names [OF arm_keeps])
  with assms show ?thesis by (simp add: start_op_def Let_def)
qed

lemma turn_names: "turn z s s' \<Longrightarrow> sched_ok s \<Longrightarrow> names_ok s \<Longrightarrow> names_ok s'"
proof (induction rule: turn.induct)
  case (Elapse h due r s)
  then show ?case by (intro keeps_names [OF elapse_keeps]) (auto simp: sched_ok_def)
next
  case (Settle i r s)
  then have "keeps s (invocation_settled i r s)" by (simp add: keeps_def invocation_settled_def Let_def)
  then show ?case using Settle by (auto intro: keeps_names)
next
  case (Tick d s)
  then show ?case by (simp add: names_ok_def)
qed (auto intro: schedule_names keeps_names [OF unschedule_keeps] keeps_names [OF reschedule_keeps] start_names
    keeps_names [OF stop_keeps])

lemma reachable_names: "reachable z s \<Longrightarrow> names_ok s"
proof (induction rule: reachable.induct)
  case (Initial now)
  then show ?case by (simp add: names_ok_def new_LocalSchedulerManager_def)
qed (auto intro: turn_names reachable_ok)

text \<open>One turn of the loop, for one schedule.\<close>

lemma names_inj:
  assumes "timers_ok s" and "names_ok s" and "(sid, r) \<in> set (sd_states s)" and "r' \<in> refs s"
  shows "en_id (sd_store s r') = sid \<longleftrightarrow> r' = r"
proof
  assume id: "en_id (sd_store s r') = sid"
  from assms(4) obtain sid' where "(sid', r') \<in> set (sd_states s)" by auto
  with assms(2) id have "(sid, r') \<in> set (sd_states s)" by (fastforce simp: names_ok_def)
  with assms(1,3) show "r' = r" using timers_okD(1) [OF assms(1)] by (auto simp: wf_obj_def dest: eq_key_imp_eq_value)
next
  assume "r' = r"
  with assms(2,3) show "en_id (sd_store s r') = sid" by (auto simp: names_ok_def)
qed

lemma in_order_fire:
  assumes "in_order n s sid r" and "r' = r \<longleftrightarrow> en_id (sd_store s r') = sid"
    and "en_armedTarget (sd_store s r') = Some target" and "strict (en_schedule (sd_store s r'))"
  shows "in_order n (fire r' target s) sid r"
proof -
  let ?d = "drop n (sd_journal s)"
  have drop: "drop n (sd_journal (fire r' target s)) = ?d @ [decision s r' target]"
    using assms(1) by (simp add: fire_facts(1) in_order_def)
  show ?thesis
  proof (cases "r' = r")
    case True
    have less: "\<forall>t \<in> set (occurrences sid ?d). t < target" and sorted: "sorted_wrt (<) (occurrences sid ?d)"
      using assms(1,3) True by (auto simp: in_order_def)
    have later: "target < a" if "en_armedTarget (sd_store (fire r' target s) r) = Some a" for a
      using that assms(4) True by (fastforce simp: fire_facts(3) strict_def)
    have "occurrences sid (?d @ [decision s r' target]) = occurrences sid ?d @ [target]"
      using True assms(2) by (simp add: occurrences_def occurrence_decision)
    with less sorted later assms(1) show ?thesis
      unfolding in_order_def drop by (auto simp: fire_facts(1) sorted_wrt_append dest: less_trans)
  next
    case False
    then have "occurrences sid (?d @ [decision s r' target]) = occurrences sid ?d"
      using assms(2) by (simp add: occurrences_def occurrence_decision)
    with False assms(1) show ?thesis unfolding in_order_def drop by (simp add: fire_facts(1,3))
  qed
qed

lemma in_order_turn:
  assumes "loop_turn s s'" and "sched_ok s" and "names_ok s" and "(sid, r) \<in> set (sd_states s)"
    and "strict (en_schedule (sd_store s r))" and "in_order n s sid r"
  shows "in_order n s' sid r \<and> (sid, r) \<in> set (sd_states s') \<and> en_schedule (sd_store s' r) = en_schedule (sd_store s r)"
proof (rule loop_turnE [OF assms(1)])
  fix h due r'
  assume eq: "s' = elapse h r' s" and t: "(h, due, r') \<in> set (sd_timers s)"
  have T: "timers_ok s" using assms(2) by (simp add: sched_ok_def)
  have r': "r' \<in> refs s" using timers_okD(5) [OF T t] by simp
  have inj: "r' = r \<longleftrightarrow> en_id (sd_store s r') = sid" using names_inj [OF T assms(3,4) r'] by simp
  let ?s = "clearTimer r' s"
  have base: "in_order n ?s sid r" using assms(6) by (auto simp: in_order_def clearTimer_store split: if_splits)
  have chunk: "in_order n (setChunkedTimeout r' ?s) sid r" using base by (simp add: in_order_def)
  have keep: "en_schedule (sd_store (setChunkedTimeout r' ?s) r) = en_schedule (sd_store s r)"
    "en_schedule (sd_store (fire r' target ?s) r) = en_schedule (sd_store s r)" for target
    using setChunkedTimeout_same [of ?s r r'] fire_facts(4) [of ?s r r' target] by (auto simp: same_entry_def clearTimer_store)
  have fire: "in_order n (fire r' target ?s) sid r" if "en_armedTarget (sd_store s r') = Some target" for target
  proof (cases "r' = r")
    case True
    show ?thesis
      by (rule in_order_fire [OF base]) (use that inj True assms(5) in \<open>auto simp: clearTimer_store\<close>)
  next
    case False
    then have "occurrence sid (decision ?s r' target) = []" using inj by (simp add: occurrence_decision clearTimer_store)
    with base False show ?thesis by (simp add: in_order_def fire_facts(1,3) occurrences_def)
  qed
  show ?thesis
    unfolding eq elapse_step [OF T t] Let_def
    using base chunk fire keep assms(4)
    by (auto simp: fire_facts(2) clearTimer_store split: option.split)
next
  fix i r'
  assume "s' = invocation_settled i r' s"
  with assms(4,6) show ?thesis by (auto simp: in_order_def invocation_settled_def Let_def)
next
  fix d
  assume "s' = s\<lparr>sd_clock := sd_clock s + d\<rparr>"
  with assms(4,6) show ?thesis by (simp add: in_order_def)
qed

text \<open>
  Claim C13. Between calls of operations, however its timers elapse, its tasks end and time passes,
  a registered schedule that keeps the contract (the next occurrence is after the given instant)
  has each of its occurrences handled at most once and in increasing order: the targets the journal
  records for it, run or skipped, grow strictly and stay below the one it is armed for.
\<close>

theorem occurrences_in_order:
  assumes "reachable z s" and "loop_turns s s'" and "(sid, r) \<in> set (sd_states s)" and "strict (en_schedule (sd_store s r))"
  shows "sorted_wrt (<) (occurrences sid (drop (length (sd_journal s)) (sd_journal s'))) \<and>
    (\<forall>t \<in> set (occurrences sid (drop (length (sd_journal s)) (sd_journal s'))).
       \<forall>a. en_armedTarget (sd_store s' r) = Some a \<longrightarrow> t < a)"
proof -
  have "reachable z s' \<and> (sid, r) \<in> set (sd_states s') \<and> en_schedule (sd_store s' r) = en_schedule (sd_store s r) \<and>
      in_order (length (sd_journal s)) s' sid r"
    using assms(2,1,3,4)
  proof (induction rule: loop_turns.induct)
    case (None s)
    then show ?case by (simp add: in_order_def occurrences_def)
  next
    case (More s s' s'')
    then have IH: "reachable z s'" "(sid, r) \<in> set (sd_states s')" "en_schedule (sd_store s' r) = en_schedule (sd_store s r)"
      "in_order (length (sd_journal s)) s' sid r" by auto
    from in_order_turn [OF More.hyps(2) reachable_ok [OF IH(1)] reachable_names [OF IH(1)] IH(2) _ IH(4)] IH(1,3) More.prems(3)
    show ?case using loop_turn_turn [OF More.hyps(2)] by (auto intro: reachable.Turn)
  qed
  then show ?thesis by (simp add: in_order_def)
qed

lemma DateSchedule_strict: "strict (DateSchedule d)"
  by (simp add: strict_def DateSchedule_def)

theorem occurrences_in_order_witness:
  "sorted_wrt (<) (occurrences ''job'' (drop 0 (sd_journal (elapse 1 0 (sample_manager\<lparr>sd_clock := 3600000\<rparr>)))))"
proof -
  have "loop_turns sample_manager (sample_manager\<lparr>sd_clock := sd_clock sample_manager + 3600000\<rparr>)"
    by (rule loop_turns.More [OF loop_turns.None loop_turn.Tick]) simp
  then have "loop_turns sample_manager (elapse 1 0 (sample_manager\<lparr>sd_clock := sd_clock sample_manager + 3600000\<rparr>))"
    by (rule loop_turns.More) (rule loop_turn.Elapse [of _ 3600000], simp_all add: sample_manager_simps)
  from occurrences_in_order [OF sample_manager_reachable this, of "''job''" 0] show ?thesis
    by (simp add: sample_manager_simps sample_manager_schedule DateSchedule_strict)
qed

section \<open>A malformed reschedule\<close>

text \<open>Without a pending timer a schedule is never handled again by the loop alone.\<close>

definition dormant :: "nat \<Rightarrow> scheduler \<Rightarrow> string \<Rightarrow> nat \<Rightarrow> bool" where
  "dormant n s sid r \<longleftrightarrow> en_timeout (sd_store s r) = None \<and> (sid, r) \<in> set (sd_states s) \<and>
     n \<le> length (sd_journal s) \<and> occurrences sid (drop n (sd_journal s)) = []"

lemma dormant_turn:
  assumes "loop_turn s s'" and "sched_ok s" and "names_ok s" and "dormant n s sid r"
  shows "dormant n s' sid r"
proof (rule loop_turnE [OF assms(1)])
  fix h due r'
  assume eq: "s' = elapse h r' s" and t: "(h, due, r') \<in> set (sd_timers s)"
  have T: "timers_ok s" using assms(2) by (simp add: sched_ok_def)
  note t' = timers_okD(5) [OF T t]
  then have ne: "r' \<noteq> r" using assms(4) by (auto simp: dormant_def)
  let ?s = "clearTimer r' s"
  have "en_id (sd_store s r') \<noteq> sid" using names_inj [OF T assms(3), of sid r r'] assms(4) t' ne by (auto simp: dormant_def)
  then have dec: "occurrence sid (decision ?s r' target) = []" for target by (simp add: occurrence_decision clearTimer_store)
  have base: "dormant n ?s sid r" using assms(4) by (auto simp: dormant_def clearTimer_store)
  have timeout: "en_timeout (sd_store (setChunkedTimeout r' s0) r) = en_timeout (sd_store s0 r)" for s0
    using ne by (cases "en_armedTarget (sd_store s0 r')") (auto simp: setChunkedTimeout_Some, simp add: setChunkedTimeout_def)
  have "en_timeout (sd_store (armFrom r' b s0) r) = en_timeout (sd_store s0 r)" for s0 b
    using ne by (simp add: armFrom_def timeout split: option.split)
  then have "en_timeout (sd_store (fire r' target s0) r) = en_timeout (sd_store s0 r)" for s0 target
    by (auto simp: fire_def Let_def execute_task_def)
  with base dec have "dormant n (fire r' target ?s) sid r" for target
    by (simp add: dormant_def fire_facts(1,2) occurrences_def)
  moreover have "dormant n (setChunkedTimeout r' ?s) sid r" using base by (simp add: dormant_def timeout)
  ultimately show ?thesis
    unfolding eq elapse_step [OF T t] Let_def using base by (auto split: option.split)
next
  fix i r'
  assume "s' = invocation_settled i r' s"
  with assms(4) show ?thesis by (auto simp: dormant_def invocation_settled_def Let_def)
next
  fix d
  assume "s' = s\<lparr>sd_clock := sd_clock s + d\<rparr>"
  with assms(4) show ?thesis by (simp add: dormant_def)
qed

text \<open>
  A reschedule with malformed text throws, but only after the timer was cleared: the
  schedule stays registered with its old occurrences and still lists its next date, yet no turn of
  the event loop ever handles an occurrence of it again.
\<close>

theorem malformed_reschedule_disarms:
  assumes "reachable z s" and "obj_get (sd_states s) sid = Some r" and "new_CronExpression e = Inl err"
    and "loop_turns (snd (reschedule z sid (CronText e) s)) s'"
  shows "fst (reschedule z sid (CronText e) s) = Some err \<and>
    obj_get (sd_states (snd (reschedule z sid (CronText e) s))) sid = Some r \<and>
    en_nextDate (sd_store (snd (reschedule z sid (CronText e) s)) r) = en_nextDate (sd_store s r) \<and>
    occurrences sid (drop (length (sd_journal s)) (sd_journal s')) = []"
proof -
  let ?s = "clearTimer r s"
  have eq: "reschedule z sid (CronText e) s = (Some err, ?s)"
    using assms(2,3) by (simp add: reschedule_def resolveSchedule_def)
  have reach: "reachable z ?s" using reachable.Turn [OF assms(1) turn.Reschedule, of sid "CronText e"] by (simp add: eq)
  have "reachable z s' \<and> dormant (length (sd_journal s)) s' sid r"
    using assms(4) unfolding eq snd_conv
  proof (induction "?s" s' rule: loop_turns.induct)
    case None
    have "(sid, r) \<in> set (sd_states s)" using assms(2) by (rule map_of_SomeD)
    with reach show ?case by (simp add: dormant_def clearTimer_store occurrences_def)
  next
    case (More s' s'')
    then show ?case
      using dormant_turn reachable_ok reachable_names loop_turn_turn by (blast intro: reachable.Turn)
  qed
  then show ?thesis using assms(2) by (simp add: eq dormant_def clearTimer_store)
qed

theorem malformed_reschedule_disarms_witness:
  "fst (reschedule (fixed_zone 0) ''job'' (CronText ''60 * * * *'') sample_manager) \<noteq> None \<and>
   en_nextDate (sd_store (snd (reschedule (fixed_zone 0) ''job'' (CronText ''60 * * * *'') sample_manager)) 0) =
     en_nextDate (sd_store sample_manager 0)"
proof -
  have "\<not> isValid ''60 * * * *''" by code_simp
  then obtain err where "new_CronExpression ''60 * * * *'' = Inl err" by (auto simp: isValid_def split: sum.splits)
  from malformed_reschedule_disarms [OF sample_manager_reachable _ this loop_turns.None, of "''job''" 0]
  show ?thesis by (simp add: sample_manager_simps)
qed

section \<open>A schedule that answers with the past\<close>

definition spinning :: "int \<Rightarrow> int \<Rightarrow> nat \<Rightarrow> scheduler \<Rightarrow> bool" where
  "spinning t now k s \<longleftrightarrow>
     sd_started s \<and> sd_clock s = now + int k \<and> (\<exists>h. sd_timers s = [(h, sd_clock s + 1, 0)] \<and> en_timeout (sd_store s 0) = Some h) \<and>
     en_armedTarget (sd_store s 0) = Some t \<and> en_id (sd_store s 0) = ''job'' \<and> en_threshold (sd_store s 0) = 5000 \<and>
     \<not> en_catchUp (sd_store s 0) \<and> occurrences ''job'' (sd_journal s) = replicate k t"

text \<open>One millisecond and the timer: the same occurrence again.\<close>

lemma spin_turn:
  assumes s: "spinning t now k s" and late: "t + 5000 < now"
    and sch: "en_schedule (sd_store s 0) (now + int k + 1) = Some t"
  shows "\<exists>s'. loop_turns s s' \<and> spinning t now (Suc k) s' \<and> en_schedule (sd_store s' 0) = en_schedule (sd_store s 0)"
proof -
  obtain h where h: "sd_timers s = [(h, sd_clock s + 1, 0)]" "en_timeout (sd_store s 0) = Some h"
    using s by (auto simp: spinning_def)
  let ?s1 = "s\<lparr>sd_clock := sd_clock s + 1\<rparr>"
  let ?s2 = "elapse h 0 ?s1"
  have "loop_turns s ?s1" by (rule loop_turns.More [OF loop_turns.None loop_turn.Tick]) simp
  then have turns: "loop_turns s ?s2"
    by (rule loop_turns.More) (rule loop_turn.Elapse [of _ "sd_clock s + 1"], simp_all add: h)
  let ?s0 = "clearTimer 0 ?s1"
  have s0: "?s0 = ?s1\<lparr>sd_timers := [], sd_store := (sd_store s)(0 := (sd_store s 0)\<lparr>en_timeout := None\<rparr>)\<rparr>"
    using h by (simp add: clearTimer_def clearTimeout_def)
  have f: "?s2 = fire 0 t ?s0"
    unfolding s0 using s late by (simp add: elapse_def onTimer_def clearTimeout_def h Let_def spinning_def)
  have "max (now + int k + 1) t = now + int k + 1" using late by simp
  then have a: "armFrom 0 (max (sd_clock ?s0) t) ?s0 =
      setChunkedTimeout 0 (upd 0 (\<lambda>e. e\<lparr>en_armedTarget := Some t, en_nextDate := Some t\<rparr>) ?s0)"
    unfolding s0 using s sch by (simp add: armFrom_def spinning_def)
  have "timer_delay (t - (now + int k + 1)) = 1" using late by (simp add: timer_delay_def MAX_TIMEOUT_DELAY_def)
  then have "spinning t now (Suc k) ?s2 \<and> en_schedule (sd_store ?s2 0) = en_schedule (sd_store s 0)"
    unfolding f fire_def a Let_def unfolding s0
    using s late by (simp add: setChunkedTimeout_Some spinning_def occurrences_def replicate_append_same add.commute)
  with turns show ?thesis by blast
qed

lemma loop_turns_trans: "loop_turns s' s'' \<Longrightarrow> loop_turns s s' \<Longrightarrow> loop_turns s s''"
  by (induction rule: loop_turns.induct) (auto intro: loop_turns.More)

lemma spin_turns:
  assumes "spinning t now 0 s" and "t + 5000 < now"
    and "\<And>b. now \<le> b \<Longrightarrow> b \<le> now + int n \<Longrightarrow> en_schedule (sd_store s 0) b = Some t"
  shows "\<exists>s'. loop_turns s s' \<and> spinning t now n s' \<and> en_schedule (sd_store s' 0) = en_schedule (sd_store s 0)"
  using assms(3)
proof (induction n)
  case 0
  with assms(1) show ?case by (blast intro: loop_turns.None)
next
  case (Suc n)
  then obtain s' where s': "loop_turns s s'" "spinning t now n s'" "en_schedule (sd_store s' 0) = en_schedule (sd_store s 0)"
    by fastforce
  have "en_schedule (sd_store s' 0) (now + int n + 1) = Some t" using Suc.prems [of "now + int n + 1"] s'(3) by simp
  from spin_turn [OF s'(2) assms(2) this] s'(1,3) show ?case by (auto intro: loop_turns_trans)
qed

text \<open>Within the same minute the next date is the same.\<close>

lemma next_execution_same_minute:
  assumes "\<not> ce_hasSecondsField c" and "b div 60000 = a div 60000" and "getFullYear (zn_local z b) = getFullYear (zn_local z a)"
  shows "getNextExecutionDate z c b = getNextExecutionDate z c a"
  using assms by (simp add: getNextExecutionDate_def unit_ms_def)

lemma fall_back_minute:
  assumes "1699164600000 \<le> b" and "b \<le> 1699164600000 + 50000"
  shows "getNextExecutionDate (fall_back_zone 1699164000000) half_past_one b = Some 1699162200000"
proof -
  let ?z = "fall_back_zone 1699164000000" and ?a = "1699164600000 :: int"
  have "\<not> ce_hasSecondsField half_past_one" "getNextExecutionDate ?z half_past_one ?a = Some 1699162200000" by code_simp+
  moreover have "b div 60000 = ?a div 60000" using assms by (intro div_between) auto
  moreover have "getFullYear (zn_local ?z b) = getFullYear (zn_local ?z ?a)"
  proof -
    have "day_of (zn_local ?z b) = day_of (zn_local ?z ?a)"
      unfolding day_of_def using assms by (intro div_between) (auto simp: ms_per_day_def fall_back_zone_def)
    then show ?thesis by (simp add: getFullYear_def)
  qed
  ultimately show ?thesis using next_execution_same_minute [of half_past_one b ?a ?z] by simp
qed

text \<open>The scheduler of a process started ten minutes into the repeated hour.\<close>

definition autumn_manager :: "int \<Rightarrow> scheduler" where
  "autumn_manager now =
     (case schedule_op (fall_back_zone 1699164000000) ''job'' (ScheduleObject (CronSchedule (fall_back_zone 1699164000000) half_past_one)) 7
         default_options (start_op (fall_back_zone 1699164000000) [] (new_LocalSchedulerManager now)) of Inr s \<Rightarrow> s | Inl _ \<Rightarrow> undefined)"

text \<open>
  Where a cron expression answers with a date in the past (the repeated hour of the end
  of daylight saving time), the scheduler spins: it arms a timer of one millisecond, finds the
  occurrence missed, logs it as skipped and arms for the same past occurrence again, as many times
  as milliseconds pass.
\<close>

theorem repeated_hour_spins:
  assumes "n \<le> 50000"
  shows "\<exists>s'. loop_turns (autumn_manager 1699164600000) s' \<and> sd_clock s' = 1699164600000 + int n \<and>
    occurrences ''job'' (sd_journal s') = replicate n 1699162200000"
proof -
  let ?z = "fall_back_zone 1699164000000"
  let ?sch = "CronSchedule ?z half_past_one"
  have sch: "?sch b = Some 1699162200000" if "1699164600000 \<le> b" "b \<le> 1699164600000 + int n" for b
    using fall_back_minute [of b] that assms by (simp add: CronSchedule_def)
  have "spinning 1699162200000 1699164600000 0 (autumn_manager 1699164600000) \<and>
      en_schedule (sd_store (autumn_manager 1699164600000) 0) = ?sch"
    using sch [of 1699164600000]
    by (simp add: autumn_manager_def schedule_op_def start_op_def registerSchedulables_def new_LocalSchedulerManager_def
        resolveSchedule_def obj_has_def Let_def arm_def armFrom_def clearTimer_def setChunkedTimeout_def setTimeout_def
        new_entry_def MAX_TIMEOUT_DELAY_def default_options_def or_default_def spinning_def occurrences_def
        DEFAULT_MISSED_EXECUTION_THRESHOLD_MS_def)
  from spin_turns [OF conjunct1 [OF this], of n] this sch show ?thesis by (auto simp: spinning_def)
qed

theorem repeated_hour_spins_witness:
  "\<exists>s'. loop_turns (autumn_manager 1699164600000) s' \<and> sd_clock s' = 1699164600000 + int 40000 \<and>
    occurrences ''job'' (sd_journal s') = replicate 40000 1699162200000"
  by (rule repeated_hour_spins) simp

end
