(* ===== verification/Event_Pipeline.thy ===== *)
theory Event_Pipeline
  imports Object_Util Pristine_Errors
begin

text \<open>
  The event dispatcher (\<open>core/src/dispatchers/event.dispatcher.ts\<close>) and the event pipeline
  (\<open>core/src/pipelines/event.pipeline.ts\<close>). An asynchronous computation is the time it takes and
  what it ends as. Interceptors, mappers, listeners and handlers are the application's and appear
  as functions; so does the container, which builds the dispatcher of each event or fails. Debug
  log entries and spans are left out.
\<close>

section \<open>Asynchronous computations\<close>

type_synonym 'a task = "nat \<times> (thrown, 'a) settled"

definition delay_task :: "nat \<Rightarrow> 'a task \<Rightarrow> 'a task" where
  "delay_task d t = (d + fst t, snd t)"

definition await :: "'a task \<Rightarrow> ('a \<Rightarrow> 'b task) \<Rightarrow> 'b task" where
  "await t f =
     (case snd t of Fulfilled a \<Rightarrow> delay_task (fst t) (f a)
      | Rejected e \<Rightarrow> (fst t, Rejected e)
      | NeverSettles \<Rightarrow> (fst t, NeverSettles))"

text \<open>
  \<open>Promise.all\<close>: the values in the order of the promises once all are there, the earliest
  rejection otherwise (the first of the list among simultaneous ones).
\<close>

definition rejections :: "'a task list \<Rightarrow> (nat \<times> thrown) list" where
  "rejections ts = concat (map (\<lambda>t. case snd t of Rejected e \<Rightarrow> [(fst t, e)] | _ \<Rightarrow> []) ts)"

definition values_of :: "'a task list \<Rightarrow> 'a list" where
  "values_of ts = concat (map (\<lambda>t. case snd t of Fulfilled a \<Rightarrow> [a] | _ \<Rightarrow> []) ts)"

definition never :: "'a task list \<Rightarrow> bool" where
  "never ts \<longleftrightarrow> list_ex (\<lambda>t. case snd t of NeverSettles \<Rightarrow> True | _ \<Rightarrow> False) ts"

definition latest :: "'a task list \<Rightarrow> nat" where
  "latest ts = foldr (\<lambda>t m. max (fst t) m) ts 0"

definition promise_all :: "'a task list \<Rightarrow> 'a list task" where
  "promise_all ts =
     (case sort_key fst (rejections ts) of
        (d, e) # _ \<Rightarrow> (d, Rejected e)
      | [] \<Rightarrow> (latest ts, if never ts then NeverSettles else Fulfilled (values_of ts)))"

section \<open>Events\<close>

record event =
  ev_type :: string
  ev_payload :: jsv
  ev_id :: string
  ev_groupId :: "string option"

record event_response =
  er_event :: event
  er_response :: jsv

text \<open>
  A listener and a handler. \<open>supports\<close> and a listener's \<open>execute\<close> can throw on the spot; a handler
  that throws on the spot rejects at once, since its call is awaited.
\<close>

record event_listener =
  el_name :: string
  el_supports :: "event \<Rightarrow> thrown + bool"
  el_execute :: "event \<Rightarrow> thrown + unit task"

record event_handler =
  eh_name :: string
  eh_priority :: "int option"
  eh_supports :: "event \<Rightarrow> thrown + bool"
  eh_handle :: "event \<Rightarrow> event_response task"

record dispatcher =
  dp_handlers :: "event_handler list"
  dp_listeners :: "event_listener list"

definition handler_priority :: "event_handler \<Rightarrow> int" where
  "handler_priority h = (case eh_priority h of None \<Rightarrow> 0 | Some p \<Rightarrow> p)"

definition new_EventDispatcher :: "event_handler list \<Rightarrow> event_listener list \<Rightarrow> dispatcher" where
  "new_EventDispatcher handlers listeners = \<lparr>dp_handlers = sort_desc handler_priority handlers, dp_listeners = listeners\<rparr>"

definition EventDispatcherNoEventHandlersError :: "string \<Rightarrow> event \<Rightarrow> thrown" where
  "EventDispatcherNoEventHandlersError message ev =
     new_PristineError ''EventDispatcherNoEventHandlersError'' message None None None (Some (ev_id ev)) None None"

text \<open>The listeners started for an event, up to one that throws on the spot.\<close>

fun start_listeners :: "event \<Rightarrow> event_listener list \<Rightarrow> (string \<times> unit task) list \<times> thrown option" where
  "start_listeners ev [] = ([], None)"
| "start_listeners ev (l # ls) =
     (case el_supports l ev of
        Inl e \<Rightarrow> ([], Some e)
      | Inr False \<Rightarrow> start_listeners ev ls
      | Inr True \<Rightarrow>
          (case el_execute l ev of Inl e \<Rightarrow> ([], Some e)
           | Inr t \<Rightarrow> let (ts, err) = start_listeners ev ls in ((el_name l, t) # ts, err)))"

fun find_handler :: "event \<Rightarrow> event_handler list \<Rightarrow> thrown + event_handler option" where
  "find_handler ev [] = Inr None"
| "find_handler ev (h # hs) =
     (case eh_supports h ev of Inl e \<Rightarrow> Inl e | Inr True \<Rightarrow> Inr (Some h) | Inr False \<Rightarrow> find_handler ev hs)"

text \<open>
  What a dispatch ends as, the handler it called, the listeners it started, and the rejections of
  listeners nobody had taken up when they happened.
\<close>

record dispatch_result =
  dr_task :: "event_response task"
  dr_handler :: "string option"
  dr_listeners :: "string list"
  dr_unhandled :: "(string \<times> thrown) list"

definition unhandled_before :: "nat option \<Rightarrow> (string \<times> unit task) list \<Rightarrow> (string \<times> thrown) list" where
  "unhandled_before attached ts =
     concat (map (\<lambda>(name, t). case snd t of
        Rejected e \<Rightarrow> (case attached of None \<Rightarrow> [(name, e)] | Some d \<Rightarrow> if fst t < d then [(name, e)] else [])
      | _ \<Rightarrow> []) ts)"

definition dispatch :: "dispatcher \<Rightarrow> event \<Rightarrow> dispatch_result" where
  "dispatch dp ev =
     (let (ts, err) = start_listeners ev (dp_listeners dp);
          failed = (\<lambda>e. \<lparr>dr_task = (0, Rejected e), dr_handler = None, dr_listeners = map fst ts, dr_unhandled = unhandled_before None ts\<rparr>) in
      case err of Some e \<Rightarrow> failed e
      | None \<Rightarrow>
          (case find_handler ev (dp_handlers dp) of
             Inl e \<Rightarrow> failed e
           | Inr None \<Rightarrow> failed (EventDispatcherNoEventHandlersError ''There are no EventHandlers that support this event.'' ev)
           | Inr (Some h) \<Rightarrow>
               (case eh_handle h ev of (d, r) \<Rightarrow>
                  (case r of
                     Fulfilled resp \<Rightarrow>
                       \<lparr>dr_task = (max d (latest (map snd ts)), if never (map snd ts) then NeverSettles else Fulfilled resp),
                        dr_handler = Some (eh_name h), dr_listeners = map fst ts, dr_unhandled = unhandled_before (Some d) ts\<rparr>
                   | _ \<Rightarrow> \<lparr>dr_task = (d, r), dr_handler = Some (eh_name h), dr_listeners = map fst ts, dr_unhandled = unhandled_before None ts\<rparr>))))"

section \<open>Interceptors\<close>

record event_interceptor =
  ei_name :: string
  ei_preMapping :: "(jsv \<Rightarrow> jsv option task) option"
  ei_postMapping :: "(event \<Rightarrow> event option task) option"
  ei_preResponse :: "(event_response \<Rightarrow> event_response option task) option"
  ei_postResponse :: "(jsv \<Rightarrow> jsv option task) option"

text \<open>A stage of interception: its hook, its error code and the word for it in its message.\<close>

definition interceptor_error :: "string \<Rightarrow> string \<Rightarrow> string \<Rightarrow> thrown \<Rightarrow> thrown" where
  "interceptor_error stage code name cause =
     new_PristineError ''PristineError'' (''There was an error while executing the '' @ stage @ '' Event interceptors'')
       (Some SystemError) (Some code) None (Some name) None (Some cause)"

fun intercept :: "string \<Rightarrow> string \<Rightarrow> (event_interceptor \<Rightarrow> ('a \<Rightarrow> 'a option task) option) \<Rightarrow> event_interceptor list \<Rightarrow> 'a \<Rightarrow> 'a task" where
  "intercept stage code hook [] x = (0, Fulfilled x)"
| "intercept stage code hook (i # is) x =
     (case hook i of
        None \<Rightarrow> intercept stage code hook is x
      | Some h \<Rightarrow>
          (case h x of
             (d, Fulfilled y) \<Rightarrow> delay_task d (intercept stage code hook is (case y of None \<Rightarrow> x | Some y' \<Rightarrow> y'))
           | (d, Rejected e) \<Rightarrow> (d, Rejected (interceptor_error stage code (ei_name i) e))
           | (d, NeverSettles) \<Rightarrow> (d, NeverSettles)))"

definition preMappingIntercept :: "event_interceptor list \<Rightarrow> jsv \<Rightarrow> jsv task" where
  "preMappingIntercept = intercept ''PreMapping'' ''EVENT_PRE_MAPPING_INTERCEPTOR_FAILED'' ei_preMapping"

definition postMappingIntercept :: "event_interceptor list \<Rightarrow> event \<Rightarrow> event task" where
  "postMappingIntercept = intercept ''PostMapping'' ''EVENT_POST_MAPPING_INTERCEPTOR_FAILED'' ei_postMapping"

definition preResponseMappingIntercept :: "event_interceptor list \<Rightarrow> event_response \<Rightarrow> event_response task" where
  "preResponseMappingIntercept = intercept ''PreResponseMapping'' ''EVENT_PRE_RESPONSE_INTERCEPTOR_FAILED'' ei_preResponse"

definition postResponseMappingIntercept :: "event_interceptor list \<Rightarrow> jsv \<Rightarrow> jsv task" where
  "postResponseMappingIntercept = intercept ''PostResponseMapping'' ''EVENT_POST_RESPONSE_INTERCEPTOR_FAILED'' ei_postResponse"

section \<open>The pipeline\<close>

datatype execution_order = Sequential | Parallel

record execution_options =
  eo_events :: "event list"
  eo_order :: execution_order

record event_mapper =
  em_supportsMapping :: "jsv \<Rightarrow> thrown + bool"
  em_map :: "jsv \<Rightarrow> thrown + execution_options"
  em_supportsReverse :: "event_response \<Rightarrow> jsv \<Rightarrow> thrown + bool"
  em_reverseMap :: "event_response \<Rightarrow> jsv \<Rightarrow> thrown + jsv"

record pipeline =
  pl_interceptors :: "event_interceptor list"
  pl_mappers :: "event_mapper list"

text \<open>Creating the child container of an event, registering it, and resolving the dispatcher from it.\<close>

type_synonym container = "event \<Rightarrow> thrown + dispatcher"

text \<open>
  A run: what it ends as, the dispatches it made in the order they began for each list of events,
  and the errors lost in an executor that neither resolved nor rejected.
\<close>

record 'a run =
  rn_task :: "'a task"
  rn_dispatched :: "(string \<times> dispatch_result) list"
  rn_lost :: "thrown list"

definition executeEvent :: "event_interceptor list \<Rightarrow> dispatcher \<Rightarrow> event \<Rightarrow> event_response run" where
  "executeEvent ints dp ev =
     (case postMappingIntercept ints ev of
        (d, Fulfilled ev') \<Rightarrow> let r = dispatch dp ev' in
          \<lparr>rn_task = delay_task d (dr_task r), rn_dispatched = [(ev_id ev', r)], rn_lost = []\<rparr>
      | (d, Rejected e) \<Rightarrow> \<lparr>rn_task = (d, Rejected e), rn_dispatched = [], rn_lost = []\<rparr>
      | (d, NeverSettles) \<Rightarrow> \<lparr>rn_task = (d, NeverSettles), rn_dispatched = [], rn_lost = []\<rparr>)"

text \<open>
  The executor of a sequential list: an error of the container is thrown outside its \<open>try\<close>, so the
  promise never settles.
\<close>

fun run_sequential :: "event_interceptor list \<Rightarrow> container \<Rightarrow> event list \<Rightarrow> event_response list run" where
  "run_sequential ints ct [] = \<lparr>rn_task = (0, Fulfilled []), rn_dispatched = [], rn_lost = []\<rparr>"
| "run_sequential ints ct (ev # evs) =
     (case ct ev of
        Inl e \<Rightarrow> \<lparr>rn_task = (0, NeverSettles), rn_dispatched = [], rn_lost = [e]\<rparr>
      | Inr dp \<Rightarrow>
          let r = executeEvent ints dp ev in
          (case snd (rn_task r) of
             Fulfilled resp \<Rightarrow>
               let rest = run_sequential ints ct evs in
               \<lparr>rn_task = delay_task (fst (rn_task r)) (await (rn_task rest) (\<lambda>rs. (0, Fulfilled (resp # rs)))),
                rn_dispatched = rn_dispatched r @ rn_dispatched rest, rn_lost = rn_lost r @ rn_lost rest\<rparr>
           | Rejected e \<Rightarrow> \<lparr>rn_task = (fst (rn_task r), Rejected e), rn_dispatched = rn_dispatched r, rn_lost = rn_lost r\<rparr>
           | NeverSettles \<Rightarrow> \<lparr>rn_task = (fst (rn_task r), NeverSettles), rn_dispatched = rn_dispatched r, rn_lost = rn_lost r\<rparr>))"

definition run_parallel :: "event_interceptor list \<Rightarrow> container \<Rightarrow> event \<Rightarrow> event_response list run" where
  "run_parallel ints ct ev =
     (case ct ev of
        Inl e \<Rightarrow> \<lparr>rn_task = (0, NeverSettles), rn_dispatched = [], rn_lost = [e]\<rparr>
      | Inr dp \<Rightarrow>
          let r = executeEvent ints dp ev in
          \<lparr>rn_task = await (rn_task r) (\<lambda>resp. (0, Fulfilled [resp])), rn_dispatched = rn_dispatched r, rn_lost = rn_lost r\<rparr>)"

definition run_group :: "event_interceptor list \<Rightarrow> container \<Rightarrow> execution_options \<Rightarrow> event_response list run list" where
  "run_group ints ct g =
     (case eo_order g of
        Sequential \<Rightarrow> [run_sequential ints ct (eo_events g)]
      | Parallel \<Rightarrow> map (run_parallel ints ct) (eo_events g))"

text \<open>The mappers that support the raw event, in order; the first error ends it.\<close>

fun map_event :: "event_mapper list \<Rightarrow> jsv \<Rightarrow> thrown + execution_options list" where
  "map_event [] raw = Inr []"
| "map_event (m # ms) raw =
     sum_bind (em_supportsMapping m raw) (\<lambda>supports.
       if supports then sum_bind (em_map m raw) (\<lambda>g. sum_bind (map_event ms raw) (\<lambda>gs. Inr (g # gs)))
       else map_event ms raw)"

definition pipeline_error :: "string \<Rightarrow> string \<Rightarrow> thrown option \<Rightarrow> thrown" where
  "pipeline_error message code cause =
     new_PristineError ''PristineError'' message (Some SystemError) (Some code) None (Some ''event'') None cause"

definition event_executions :: "pipeline \<Rightarrow> jsv \<Rightarrow> thrown + execution_options list" where
  "event_executions pl intercepted =
     (case map_event (pl_mappers pl) intercepted of
        Inl e \<Rightarrow> Inl (pipeline_error ''There was an error mapping the event into an Event object'' ''EVENT_MAPPING_FAILED'' (Some e))
      | Inr [] \<Rightarrow> Inl (pipeline_error ''There are no Event Mappers that support the event'' ''EVENT_NO_MAPPER_SUPPORTS'' None)
      | Inr gs \<Rightarrow>
          if sum_list (map (\<lambda>g. length (eo_events g)) gs) = 0
          then Inl (pipeline_error ''There are no events to execute.'' ''EVENT_NO_EVENTS'' None)
          else Inr gs)"

text \<open>The response, mapped back by every mapper that supports it, for one event response after the other.\<close>

fun reverse_map :: "event_mapper list \<Rightarrow> event_response \<Rightarrow> jsv \<Rightarrow> thrown + jsv" where
  "reverse_map [] resp acc = Inr acc"
| "reverse_map (m # ms) resp acc =
     sum_bind (em_supportsReverse m resp acc) (\<lambda>supports.
       if supports then sum_bind (em_reverseMap m resp acc) (reverse_map ms resp) else reverse_map ms resp acc)"

definition final_response :: "event_mapper list \<Rightarrow> event_response list \<Rightarrow> thrown + jsv" where
  "final_response ms resps = run_chain (reverse_map ms) resps (JObject [])"

definition map_back :: "pipeline \<Rightarrow> event_response list \<Rightarrow> jsv task" where
  "map_back pl resps =
     (case final_response (pl_mappers pl) resps of
        Inl e \<Rightarrow> (0, Rejected e)
      | Inr final \<Rightarrow> postResponseMappingIntercept (pl_interceptors pl) final)"

text \<open>The steps from the start of the events on.\<close>

definition execute_groups :: "pipeline \<Rightarrow> container \<Rightarrow> execution_options list \<Rightarrow> jsv run" where
  "execute_groups pl ct gs =
     (let runs = concat (map (run_group (pl_interceptors pl) ct) gs) in
      \<lparr>rn_task =
         await (promise_all (map rn_task runs)) (\<lambda>rss.
         await (promise_all (map (preResponseMappingIntercept (pl_interceptors pl)) (concat rss))) (map_back pl)),
       rn_dispatched = concat (map rn_dispatched runs), rn_lost = concat (map rn_lost runs)\<rparr>)"

datatype incoming = TypedEvent event | RawEvent jsv

definition pipeline_execute :: "pipeline \<Rightarrow> container \<Rightarrow> incoming \<Rightarrow> jsv run" where
  "pipeline_execute pl ct inc =
     (case inc of
        TypedEvent ev \<Rightarrow> execute_groups pl ct [\<lparr>eo_events = [ev], eo_order = Sequential\<rparr>]
      | RawEvent raw \<Rightarrow>
          (case preMappingIntercept (pl_interceptors pl) raw of
             (d, Fulfilled intercepted) \<Rightarrow>
               (case event_executions pl intercepted of
                  Inl e \<Rightarrow> \<lparr>rn_task = (d, Rejected e), rn_dispatched = [], rn_lost = []\<rparr>
                | Inr gs \<Rightarrow> let r = execute_groups pl ct gs in r\<lparr>rn_task := delay_task d (rn_task r)\<rparr>)
           | (d, Rejected e) \<Rightarrow> \<lparr>rn_task = (d, Rejected e), rn_dispatched = [], rn_lost = []\<rparr>
           | (d, NeverSettles) \<Rightarrow> \<lparr>rn_task = (d, NeverSettles), rn_dispatched = [], rn_lost = []\<rparr>))"

end
