(* ===== verification/Event_Properties.thy ===== *)
theory Event_Properties
  imports Event_Pipeline
begin

text \<open>
  The properties of event dispatch and of the pipeline: which handler is called, which failures of
  listeners nobody takes up, where a rejection can come from, what timing cannot change, and when
  the caller never gets an answer.
\<close>

section \<open>The handler\<close>

lemma find_handler_Some:
  assumes "find_handler ev hs = Inr (Some h)"
  shows "\<exists>xs ys. hs = xs @ h # ys \<and> eh_supports h ev = Inr True \<and> (\<forall>h' \<in> set xs. eh_supports h' ev = Inr False)"
  using assms
proof (induction hs)
  case (Cons h' hs)
  show ?case
  proof (cases "eh_supports h' ev")
    case (Inr b)
    show ?thesis
    proof (cases b)
      case True
      with Cons.prems Inr show ?thesis by (intro exI [of _ "[]"] exI [of _ hs]) simp
    next
      case False
      with Cons Inr obtain xs ys where "hs = xs @ h # ys" "eh_supports h ev = Inr True" "\<forall>h' \<in> set xs. eh_supports h' ev = Inr False"
        by auto
      with False Inr show ?thesis by (intro exI [of _ "h' # xs"] exI [of _ ys]) simp
    qed
  qed (use Cons.prems in simp)
qed simp

lemma find_handler_None: "find_handler ev hs = Inr None \<Longrightarrow> h \<in> set hs \<Longrightarrow> eh_supports h ev = Inr False"
  by (induction hs) (auto split: sum.splits bool.splits)

text \<open>The first supporting handler after sorting: of the highest priority, the earliest registered.\<close>

lemma find_sorted:
  assumes "find_handler ev (sort_desc handler_priority hs) = Inr (Some h)"
  shows "h \<in> set hs \<and> eh_supports h ev = Inr True \<and>
    (\<forall>h' \<in> set hs. eh_supports h' ev = Inr True \<longrightarrow> handler_priority h' \<le> handler_priority h) \<and>
    hd (filter (\<lambda>h'. handler_priority h' = handler_priority h \<and> eh_supports h' ev = Inr True) hs) = h"
proof -
  let ?s = "sort_desc handler_priority hs" and ?p = "handler_priority h"
  obtain xs ys where s: "?s = xs @ h # ys" and h: "eh_supports h ev = Inr True" and xs: "\<forall>h' \<in> set xs. eh_supports h' ev = Inr False"
    using find_handler_Some [OF assms] by blast
  have sorted: "sorted_wrt (\<lambda>x y. handler_priority y \<le> handler_priority x) ?s" by (rule sort_desc_sorted)
  have "\<forall>h' \<in> set ys. handler_priority h' \<le> ?p" using sorted unfolding s by (simp add: sorted_wrt_append)
  then have le: "\<forall>h' \<in> set ?s. eh_supports h' ev = Inr True \<longrightarrow> handler_priority h' \<le> ?p" using xs unfolding s by auto
  have "filter (\<lambda>h'. handler_priority h' = ?p \<and> eh_supports h' ev = Inr True) hs =
      filter (\<lambda>h'. eh_supports h' ev = Inr True) (filter (\<lambda>h'. handler_priority h' = ?p) hs)"
    by (simp add: conj_commute)
  also have "\<dots> = filter (\<lambda>h'. eh_supports h' ev = Inr True) (filter (\<lambda>h'. handler_priority h' = ?p) ?s)"
    by (simp add: sort_desc_stable)
  also have "hd \<dots> = h" using xs h unfolding s by (auto simp: filter_empty_conv)
  finally have "hd (filter (\<lambda>h'. handler_priority h' = ?p \<and> eh_supports h' ev = Inr True) hs) = h" .
  moreover have "h \<in> set ?s" unfolding s by simp
  ultimately show ?thesis using h le by simp
qed

lemma dispatch_handler:
  "dr_handler (dispatch dp ev) = Some n \<Longrightarrow> \<exists>h. find_handler ev (dp_handlers dp) = Inr (Some h) \<and> n = eh_name h"
  by (auto simp: dispatch_def Let_def case_prod_unfold split: option.splits sum.splits settled.splits)

text \<open>
  Claim C14. The handler an event is dispatched to supports it, no supporting handler has a higher
  priority, and of the supporting handlers of that priority it is the one registered first; when no
  handler supports the event the dispatch rejects with the error for that.
\<close>

theorem dispatch_picks_highest_priority:
  "(case dr_handler (dispatch (new_EventDispatcher hs ls) ev) of
      Some n \<Rightarrow> (\<exists>h \<in> set hs. eh_name h = n \<and> eh_supports h ev = Inr True \<and>
        (\<forall>h' \<in> set hs. eh_supports h' ev = Inr True \<longrightarrow> handler_priority h' \<le> handler_priority h) \<and>
        hd (filter (\<lambda>h'. handler_priority h' = handler_priority h \<and> eh_supports h' ev = Inr True) hs) = h)
    | None \<Rightarrow> (\<exists>e. dr_task (dispatch (new_EventDispatcher hs ls) ev) = (0, Rejected e)))"
proof (cases "dr_handler (dispatch (new_EventDispatcher hs ls) ev)")
  case None
  then show ?thesis
    by (auto simp: dispatch_def Let_def case_prod_unfold split: option.splits sum.splits settled.splits)
next
  case (Some n)
  from dispatch_handler [OF Some] obtain h where "find_handler ev (sort_desc handler_priority hs) = Inr (Some h)" "n = eh_name h"
    by (auto simp: new_EventDispatcher_def)
  with find_sorted [of ev hs h] Some show ?thesis by auto
qed

section \<open>Listeners\<close>

lemma set_unhandled_before:
  "set (unhandled_before attached ts) =
     {(name, e). \<exists>d. (name, d, Rejected e) \<in> set ts \<and> (case attached of None \<Rightarrow> True | Some a \<Rightarrow> d < a)}"
proof (induction ts)
  case (Cons x ts)
  obtain n d r where x: "x = (n, d, r)" by (cases x)
  have "unhandled_before attached (x # ts) = unhandled_before attached [x] @ unhandled_before attached ts"
    by (simp add: unhandled_before_def)
  moreover have "set (unhandled_before attached [x]) =
      {(name, e). (name, d, Rejected e) = x \<and> (case attached of None \<Rightarrow> True | Some a \<Rightarrow> d < a)}"
    by (cases r; cases attached) (auto simp: unhandled_before_def x)
  ultimately show ?case using Cons by (auto simp: x)
qed (simp add: unhandled_before_def)

text \<open>
  The rejection of a listener that was started is left unhandled exactly when it comes
  before the handler has fulfilled, or the handler does not fulfil at all (it rejects, never
  settles, or there is none): only then is nobody waiting for the listeners.
\<close>

theorem listener_rejection_unhandled_iff:
  assumes "start_listeners ev (dp_listeners dp) = (ts, None)"
  shows "(name, e) \<in> set (dr_unhandled (dispatch dp ev)) \<longleftrightarrow>
    (\<exists>d. (name, d, Rejected e) \<in> set ts \<and>
       \<not> (\<exists>h a resp. find_handler ev (dp_handlers dp) = Inr (Some h) \<and> eh_handle h ev = (a, Fulfilled resp) \<and> a \<le> d))"
proof (cases "\<exists>h a resp. find_handler ev (dp_handlers dp) = Inr (Some h) \<and> eh_handle h ev = (a, Fulfilled resp)")
  case True
  then obtain h a resp where "find_handler ev (dp_handlers dp) = Inr (Some h)" "eh_handle h ev = (a, Fulfilled resp)" by blast
  with assms show ?thesis by (auto simp: dispatch_def Let_def set_unhandled_before)
next
  case False
  then have "dr_unhandled (dispatch dp ev) = unhandled_before None ts"
    using assms by (auto simp: dispatch_def Let_def split: sum.splits option.splits settled.splits prod.splits)
  with False show ?thesis by (simp add: set_unhandled_before)
qed

definition quick_listener :: event_listener where
  "quick_listener = \<lparr>el_name = ''audit'', el_supports = (\<lambda>_. Inr True), el_execute = (\<lambda>_. Inr (1, Rejected (ValueErr ''disk full'')))\<rparr>"

definition slow_handler :: event_handler where
  "slow_handler = \<lparr>eh_name = ''slow'', eh_priority = None, eh_supports = (\<lambda>_. Inr True),
     eh_handle = (\<lambda>ev. (5, Fulfilled \<lparr>er_event = ev, er_response = JNull\<rparr>))\<rparr>"

definition sample_event :: event where
  "sample_event = \<lparr>ev_type = ''user.created'', ev_payload = JNull, ev_id = ''1'', ev_groupId = None\<rparr>"

theorem listener_rejection_unhandled_iff_witness:
  "(''audit'', ValueErr ''disk full'') \<in> set (dr_unhandled (dispatch (new_EventDispatcher [slow_handler] [quick_listener]) sample_event))"
  using listener_rejection_unhandled_iff [of sample_event "new_EventDispatcher [slow_handler] [quick_listener]"
      "[(''audit'', 1, Rejected (ValueErr ''disk full''))]" "''audit''" "ValueErr ''disk full''"]
  by (simp add: new_EventDispatcher_def quick_listener_def slow_handler_def sort_desc_def)

section \<open>Stages of interception\<close>

text \<open>One interceptor of a stage, without its time; a hook that never settles is an error without a value.\<close>

definition hook_step ::
  "string \<Rightarrow> string \<Rightarrow> (event_interceptor \<Rightarrow> ('a \<Rightarrow> 'a option task) option) \<Rightarrow> event_interceptor \<Rightarrow> 'a \<Rightarrow> thrown option + 'a" where
  "hook_step stage code hook i x =
     (case hook i of None \<Rightarrow> Inr x
      | Some h \<Rightarrow> (case snd (h x) of
          Fulfilled y \<Rightarrow> Inr (case y of None \<Rightarrow> x | Some y' \<Rightarrow> y')
        | Rejected e \<Rightarrow> Inl (Some (interceptor_error stage code (ei_name i) e))
        | NeverSettles \<Rightarrow> Inl None))"

fun outcome_of :: "thrown option + 'a \<Rightarrow> (thrown, 'a) settled" where
  "outcome_of (Inr a) = Fulfilled a"
| "outcome_of (Inl (Some e)) = Rejected e"
| "outcome_of (Inl None) = NeverSettles"

lemma snd_delay_task [simp]: "snd (delay_task d t) = snd t"
  by (simp add: delay_task_def)

lemma intercept_chain: "snd (intercept stage code hook is x) = outcome_of (run_chain (hook_step stage code hook) is x)"
proof (induction "is" arbitrary: x)
  case (Cons i "is")
  show ?case
  proof (cases "hook i")
    case (Some h)
    with Cons show ?thesis by (cases "h x"; cases "snd (h x)") (auto simp: hook_step_def)
  qed (simp add: Cons hook_step_def)
qed simp

text \<open>An error of a stage: a system error with the code of the stage, around the interceptor's.\<close>

definition stage_error :: "string \<Rightarrow> thrown \<Rightarrow> bool" where
  "stage_error code e \<longleftrightarrow> (\<exists>stage name cause. e = interceptor_error stage code name cause)"

interpretation stage: hook_chain "hook_step stage code hook" "\<lambda>_. True" "\<lambda>e. case e of None \<Rightarrow> True | Some e \<Rightarrow> stage_error code e"
  for stage code hook
  by unfold_locales (auto simp: hook_step_def stage_error_def split: option.splits settled.splits)

lemma intercept_error: "snd (intercept stage code hook is x) = Rejected e \<Longrightarrow> stage_error code e"
  using stage.chain_err [of stage code hook "is" x]
  by (cases "run_chain (hook_step stage code hook) is x" rule: outcome_of.cases) (auto simp: intercept_chain)

section \<open>Where a rejection comes from\<close>

lemma await_Rejected:
  "snd (await t f) = Rejected e \<longleftrightarrow> snd t = Rejected e \<or> (\<exists>a. snd t = Fulfilled a \<and> snd (f a) = Rejected e)"
  by (auto simp: await_def split: settled.splits)

lemma await_Fulfilled: "snd (await t f) = Fulfilled b \<longleftrightarrow> (\<exists>a. snd t = Fulfilled a \<and> snd (f a) = Fulfilled b)"
  by (auto simp: await_def split: settled.splits)

lemma set_rejections: "(d, e) \<in> set (rejections ts) \<longleftrightarrow> (d, Rejected e) \<in> set ts"
  by (force simp: rejections_def split: settled.splits)

lemma promise_all_Rejected: "snd (promise_all ts) = Rejected e \<Longrightarrow> \<exists>d. (d, Rejected e) \<in> set ts"
proof -
  assume "snd (promise_all ts) = Rejected e"
  then obtain d xs where "sort_key fst (rejections ts) = (d, e) # xs"
    by (auto simp: promise_all_def split: list.splits if_splits)
  then have "(d, e) \<in> set (sort_key fst (rejections ts))" by simp
  then show ?thesis by (auto simp: set_rejections)
qed

text \<open>The rejection of one of the dispatches.\<close>

definition dispatch_rejected :: "(string \<times> dispatch_result) list \<Rightarrow> thrown \<Rightarrow> bool" where
  "dispatch_rejected ds e \<longleftrightarrow> (\<exists>(i, r) \<in> set ds. snd (dr_task r) = Rejected e)"

lemma executeEvent_rejected:
  "snd (rn_task (executeEvent ints dp ev)) = Rejected e \<Longrightarrow>
     stage_error ''EVENT_POST_MAPPING_INTERCEPTOR_FAILED'' e \<or> dispatch_rejected (rn_dispatched (executeEvent ints dp ev)) e"
  using intercept_error [of "''PostMapping''" "''EVENT_POST_MAPPING_INTERCEPTOR_FAILED''" ei_postMapping ints ev e]
  by (auto simp: executeEvent_def postMappingIntercept_def dispatch_rejected_def Let_def split: prod.splits settled.splits)

lemma run_sequential_rejected:
  "snd (rn_task (run_sequential ints ct evs)) = Rejected e \<Longrightarrow>
     stage_error ''EVENT_POST_MAPPING_INTERCEPTOR_FAILED'' e \<or> dispatch_rejected (rn_dispatched (run_sequential ints ct evs)) e"
proof (induction evs)
  case (Cons ev evs)
  show ?case
  proof (cases "ct ev")
    case (Inr dp)
    with Cons executeEvent_rejected [of ints dp ev e] show ?thesis
      by (auto simp: Let_def await_Rejected dispatch_rejected_def split: settled.splits)
  qed (use Cons in simp)
qed simp

lemma run_parallel_rejected:
  assumes "snd (rn_task (run_parallel ints ct ev)) = Rejected e"
  shows "stage_error ''EVENT_POST_MAPPING_INTERCEPTOR_FAILED'' e \<or> dispatch_rejected (rn_dispatched (run_parallel ints ct ev)) e"
proof (cases "ct ev")
  case (Inr dp)
  with assms executeEvent_rejected [of ints dp ev e] show ?thesis by (simp add: run_parallel_def Let_def await_Rejected)
qed (use assms in \<open>simp add: run_parallel_def\<close>)

lemma run_group_rejected:
  "r \<in> set (run_group ints ct g) \<Longrightarrow> snd (rn_task r) = Rejected e \<Longrightarrow>
     stage_error ''EVENT_POST_MAPPING_INTERCEPTOR_FAILED'' e \<or> dispatch_rejected (rn_dispatched r) e"
  using run_sequential_rejected [of ints ct "eo_events g" e] run_parallel_rejected [of ints ct _ e]
  by (cases "eo_order g") (auto simp: run_group_def)

text \<open>The error of a mapper while the response is mapped back.\<close>

definition reverse_error :: "event_mapper list \<Rightarrow> thrown \<Rightarrow> bool" where
  "reverse_error ms e \<longleftrightarrow> (\<exists>m \<in> set ms. \<exists>resp acc. em_supportsReverse m resp acc = Inl e \<or> em_reverseMap m resp acc = Inl e)"

lemma reverse_map_error: "reverse_map ms resp acc = Inl e \<Longrightarrow> reverse_error ms e"
  by (induction ms arbitrary: acc) (auto simp: reverse_error_def sum_bind_Inl_conv split: if_splits)

lemma final_response_error: "final_response ms resps = Inl e \<Longrightarrow> reverse_error ms e"
  unfolding final_response_def by (drule run_chain_error_origin) (blast dest: reverse_map_error)

definition mapping_error :: "thrown \<Rightarrow> bool" where
  "mapping_error e \<longleftrightarrow> (\<exists>message code cause. e = pipeline_error message code cause \<and>
     code \<in> {''EVENT_MAPPING_FAILED'', ''EVENT_NO_MAPPER_SUPPORTS'', ''EVENT_NO_EVENTS''})"

lemma event_executions_error: "event_executions pl x = Inl e \<Longrightarrow> mapping_error e"
  by (auto simp: event_executions_def mapping_error_def split: sum.splits list.splits if_splits)

lemma execute_groups_rejected:
  assumes "snd (rn_task (execute_groups pl ct gs)) = Rejected e"
  shows "(\<exists>code \<in> {''EVENT_POST_MAPPING_INTERCEPTOR_FAILED'', ''EVENT_PRE_RESPONSE_INTERCEPTOR_FAILED'', ''EVENT_POST_RESPONSE_INTERCEPTOR_FAILED''}. stage_error code e) \<or>
    reverse_error (pl_mappers pl) e \<or> dispatch_rejected (rn_dispatched (execute_groups pl ct gs)) e"
proof -
  let ?ints = "pl_interceptors pl"
  define runs where "runs = concat (map (run_group ?ints ct) gs)"
  have dispatched: "rn_dispatched (execute_groups pl ct gs) = concat (map rn_dispatched runs)"
    by (simp add: execute_groups_def runs_def Let_def)
  from assms consider (run) "snd (promise_all (map rn_task runs)) = Rejected e"
    | (pre) rss where "snd (promise_all (map (preResponseMappingIntercept ?ints) (concat rss))) = Rejected e"
    | (mapped) resps where "snd (map_back pl resps) = Rejected e"
    unfolding execute_groups_def runs_def [symmetric] Let_def
    by (auto simp: await_Rejected)
  then show ?thesis
  proof cases
    case run
    then obtain d where "(d, Rejected e) \<in> rn_task ` set runs" using promise_all_Rejected by force
    then obtain r where r: "r \<in> set runs" "snd (rn_task r) = Rejected e" by (metis imageE snd_conv)
    from r(1) obtain g where "r \<in> set (run_group ?ints ct g)" by (auto simp: runs_def)
    then have "stage_error ''EVENT_POST_MAPPING_INTERCEPTOR_FAILED'' e \<or> dispatch_rejected (rn_dispatched r) e"
      using r(2) by (rule run_group_rejected)
    then show ?thesis using r(1) by (auto simp: dispatched dispatch_rejected_def)
  next
    case pre
    then obtain d where "(d, Rejected e) \<in> preResponseMappingIntercept ?ints ` set (concat rss)" using promise_all_Rejected by force
    then obtain x where "snd (preResponseMappingIntercept ?ints x) = Rejected e" by (metis imageE snd_conv)
    then show ?thesis unfolding preResponseMappingIntercept_def by (blast dest: intercept_error)
  next
    case mapped
    show ?thesis
    proof (cases "final_response (pl_mappers pl) resps")
      case (Inl e')
      with mapped have "final_response (pl_mappers pl) resps = Inl e" by (simp add: map_back_def)
      then show ?thesis by (blast dest: final_response_error)
    next
      case (Inr final)
      with mapped have "snd (postResponseMappingIntercept ?ints final) = Rejected e" by (simp add: map_back_def)
      then show ?thesis unfolding postResponseMappingIntercept_def by (blast dest: intercept_error)
    qed
  qed
qed

text \<open>
  Claim C15. A rejection of the pipeline is one of four: a system error with the code of the
  interception stage that failed, a system error of the mapping of the raw event, an error a mapper
  throws while the response is mapped back, or, unchanged, what one of the dispatches rejected with.
\<close>

theorem pipeline_error_origin:
  assumes "snd (rn_task (pipeline_execute pl ct inc)) = Rejected e"
  shows "(\<exists>code \<in> {''EVENT_PRE_MAPPING_INTERCEPTOR_FAILED'', ''EVENT_POST_MAPPING_INTERCEPTOR_FAILED'',
        ''EVENT_PRE_RESPONSE_INTERCEPTOR_FAILED'', ''EVENT_POST_RESPONSE_INTERCEPTOR_FAILED''}. stage_error code e) \<or>
    mapping_error e \<or> reverse_error (pl_mappers pl) e \<or>
    (\<exists>(i, r) \<in> set (rn_dispatched (pipeline_execute pl ct inc)). snd (dr_task r) = Rejected e)"
proof (cases inc)
  case (TypedEvent ev)
  with assms execute_groups_rejected show ?thesis by (fastforce simp: pipeline_execute_def dispatch_rejected_def)
next
  case (RawEvent raw)
  obtain d r where pre: "preMappingIntercept (pl_interceptors pl) raw = (d, r)" by (cases "preMappingIntercept (pl_interceptors pl) raw")
  show ?thesis
  proof (cases r)
    case (Fulfilled x)
    show ?thesis
    proof (cases "event_executions pl x")
      case (Inl e')
      with assms RawEvent pre Fulfilled event_executions_error [OF Inl] show ?thesis by (simp add: pipeline_execute_def)
    next
      case (Inr gs)
      with assms RawEvent pre Fulfilled execute_groups_rejected [of pl ct gs e] show ?thesis
        by (simp add: pipeline_execute_def Let_def dispatch_rejected_def) blast
    qed
  next
    case (Rejected e')
    then have "stage_error ''EVENT_PRE_MAPPING_INTERCEPTOR_FAILED'' e'"
      using pre intercept_error [of "''PreMapping''" _ ei_preMapping "pl_interceptors pl" raw e'] by (simp add: preMappingIntercept_def)
    with assms RawEvent pre Rejected show ?thesis by (simp add: pipeline_execute_def)
  next
    case NeverSettles
    with assms RawEvent pre show ?thesis by (simp add: pipeline_execute_def)
  qed
qed

definition failing_handler :: event_handler where
  "failing_handler = \<lparr>eh_name = ''failing'', eh_priority = Some 1, eh_supports = (\<lambda>_. Inr True), eh_handle = (\<lambda>ev. (1, Rejected (ValueErr ''no'')))\<rparr>"

definition plain_pipeline :: pipeline where
  "plain_pipeline = \<lparr>pl_interceptors = [], pl_mappers = []\<rparr>"

theorem pipeline_error_origin_witness:
  "\<exists>(i, r) \<in> set (rn_dispatched (pipeline_execute plain_pipeline (\<lambda>_. Inr (new_EventDispatcher [slow_handler, failing_handler] [])) (TypedEvent sample_event))).
     snd (dr_task r) = Rejected (ValueErr ''no'')"
proof -
  have "snd (rn_task (pipeline_execute plain_pipeline (\<lambda>_. Inr (new_EventDispatcher [slow_handler, failing_handler] [])) (TypedEvent sample_event))) = Rejected (ValueErr ''no'')"
    by (simp add: pipeline_execute_def execute_groups_def run_group_def executeEvent_def postMappingIntercept_def plain_pipeline_def
        dispatch_def new_EventDispatcher_def slow_handler_def failing_handler_def sort_desc_def handler_priority_def Let_def
        await_def promise_all_def rejections_def delay_task_def)
  from pipeline_error_origin [OF this] show ?thesis
    by (auto simp: stage_error_def mapping_error_def reverse_error_def interceptor_error_def pipeline_error_def new_PristineError_def plain_pipeline_def)
qed

theorem dispatch_picks_highest_priority_witness:
  "\<exists>h \<in> {slow_handler, failing_handler}. eh_name h = ''failing'' \<and> eh_supports h sample_event = Inr True"
proof -
  have "dr_handler (dispatch (new_EventDispatcher [slow_handler, failing_handler] []) sample_event) = Some ''failing''"
    by (simp add: dispatch_def new_EventDispatcher_def slow_handler_def failing_handler_def sort_desc_def handler_priority_def)
  with dispatch_picks_highest_priority [of "[slow_handler, failing_handler]" "[]" sample_event] show ?thesis by auto
qed

section \<open>What timing cannot change\<close>

text \<open>Two containers that differ in nothing but how long their dispatchers take.\<close>

definition same_but_for_time :: "container \<Rightarrow> container \<Rightarrow> bool" where
  "same_but_for_time ct ct' \<longleftrightarrow>
     (\<forall>ev. case (ct ev, ct' ev) of
        (Inr dp, Inr dp') \<Rightarrow> (\<forall>ev. snd (dr_task (dispatch dp ev)) = snd (dr_task (dispatch dp' ev)))
      | (Inl e, Inl e') \<Rightarrow> True
      | _ \<Rightarrow> False)"

lemma executeEvent_time:
  assumes "\<forall>ev. snd (dr_task (dispatch dp ev)) = snd (dr_task (dispatch dp' ev))"
  shows "snd (rn_task (executeEvent ints dp ev)) = snd (rn_task (executeEvent ints dp' ev))"
  using assms by (simp add: executeEvent_def Let_def split: prod.split settled.split)

lemma snd_await: "snd (await t f) = (case snd t of Fulfilled a \<Rightarrow> snd (f a) | Rejected e \<Rightarrow> Rejected e | NeverSettles \<Rightarrow> NeverSettles)"
  by (simp add: await_def split: settled.split)

lemma same_cases:
  assumes "same_but_for_time ct ct'"
  obtains e e' where "ct ev = Inl e" "ct' ev = Inl e'"
  | dp dp' where "ct ev = Inr dp" "ct' ev = Inr dp'" "\<forall>ev. snd (dr_task (dispatch dp ev)) = snd (dr_task (dispatch dp' ev))"
  using assms unfolding same_but_for_time_def by (cases "ct ev"; cases "ct' ev") (force dest: spec [of _ ev])+

lemma run_sequential_time:
  assumes "same_but_for_time ct ct'"
  shows "snd (rn_task (run_sequential ints ct evs)) = snd (rn_task (run_sequential ints ct' evs))"
proof (induction evs)
  case (Cons ev evs)
  show ?case
  proof (cases rule: same_cases [OF assms, of ev])
    case (2 dp dp')
    with Cons executeEvent_time [OF 2(3), of ints ev] show ?thesis
      by (auto simp: Let_def snd_await split: settled.split)
  qed simp
qed simp

lemma run_parallel_time:
  assumes "same_but_for_time ct ct'"
  shows "snd (rn_task (run_parallel ints ct ev)) = snd (rn_task (run_parallel ints ct' ev))"
proof (cases rule: same_cases [OF assms, of ev])
  case (2 dp dp')
  with executeEvent_time [OF 2(3), of ints ev] show ?thesis by (simp add: run_parallel_def Let_def snd_await)
qed (simp add: run_parallel_def)

lemma run_group_time:
  assumes "same_but_for_time ct ct'"
  shows "map (\<lambda>r. snd (rn_task r)) (run_group ints ct g) = map (\<lambda>r. snd (rn_task r)) (run_group ints ct' g)"
  using run_sequential_time [OF assms] run_parallel_time [OF assms]
  by (cases "eo_order g") (simp_all add: run_group_def)

text \<open>Only which of several rejections wins depends on time.\<close>

lemma rejections_empty: "rejections ts = [] \<longleftrightarrow> (\<forall>t \<in> set ts. \<forall>e. snd t \<noteq> Rejected e)"
  by (auto simp: rejections_def split: settled.splits)

lemma promise_all_time:
  assumes "map snd ts = map snd ts'" and "snd (promise_all ts) = Fulfilled x"
  shows "snd (promise_all ts') = Fulfilled x"
proof -
  have r: "rejections ts = []" and n: "\<not> never ts" and x: "x = values_of ts"
    using assms(2) by (auto simp: promise_all_def split: list.splits if_splits dest: arg_cong [of "sort_key fst _" _ length])
  have all: "P (map snd ts) \<longleftrightarrow> P (map snd ts')" for P using assms(1) by simp
  have "rejections ts' = []" using r all [of "\<lambda>l. \<forall>s \<in> set l. \<forall>e. s \<noteq> Rejected e"] by (simp add: rejections_empty)
  moreover have "never us \<longleftrightarrow> list_ex (\<lambda>s. case s of NeverSettles \<Rightarrow> True | _ \<Rightarrow> False) (map snd us)" for us :: "'a task list"
    by (simp add: never_def list_ex_iff)
  then have "\<not> never ts'" using n assms(1) by metis
  moreover have "values_of us = concat (map (\<lambda>s. case s of Fulfilled a \<Rightarrow> [a] | _ \<Rightarrow> []) (map snd us))" for us :: "'a task list"
    by (simp add: values_of_def o_def)
  then have "values_of ts' = x" using x assms(1) by metis
  ultimately show ?thesis by (simp add: promise_all_def)
qed

lemma execute_groups_time:
  assumes "same_but_for_time ct ct'" and "snd (rn_task (execute_groups pl ct gs)) = Fulfilled v"
  shows "snd (rn_task (execute_groups pl ct' gs)) = Fulfilled v"
proof -
  let ?runs = "\<lambda>ct. concat (map (run_group (pl_interceptors pl) ct) gs)"
  have "map (\<lambda>r. snd (rn_task r)) (?runs ct) = map (\<lambda>r. snd (rn_task r)) (?runs ct')"
    using run_group_time [OF assms(1)] by (induction gs) auto
  then have eq: "map snd (map rn_task (?runs ct)) = map snd (map rn_task (?runs ct'))" by (simp add: o_def)
  from assms(2) obtain rss where "snd (promise_all (map rn_task (?runs ct))) = Fulfilled rss"
    by (auto simp: execute_groups_def Let_def await_Fulfilled)
  with promise_all_time [OF eq this] assms(2) show ?thesis
    by (simp add: execute_groups_def Let_def snd_await)
qed

text \<open>
  However long the handlers and listeners of the events take, sequential or parallel, the
  answer of the pipeline is the same: when it fulfils, it fulfils with the same value for every
  other timing of the same outcomes, because the responses are collected in the order of the events.
\<close>

theorem answer_independent_of_timing:
  assumes "same_but_for_time ct ct'" and "snd (rn_task (pipeline_execute pl ct inc)) = Fulfilled v"
  shows "snd (rn_task (pipeline_execute pl ct' inc)) = Fulfilled v"
proof (cases inc)
  case (TypedEvent ev)
  with assms execute_groups_time show ?thesis by (simp add: pipeline_execute_def)
next
  case (RawEvent raw)
  with assms(2) execute_groups_time [OF assms(1)] show ?thesis
    by (auto simp: pipeline_execute_def Let_def split: prod.splits settled.splits sum.splits)
qed

definition hasty :: event_handler where
  "hasty = slow_handler\<lparr>eh_handle := (\<lambda>ev. (0, Fulfilled \<lparr>er_event = ev, er_response = JNull\<rparr>))\<rparr>"

theorem answer_independent_of_timing_witness:
  "snd (rn_task (pipeline_execute plain_pipeline (\<lambda>_. Inr (new_EventDispatcher [hasty] [])) (TypedEvent sample_event))) = Fulfilled (JObject [])"
proof (rule answer_independent_of_timing)
  show "same_but_for_time (\<lambda>_. Inr (new_EventDispatcher [slow_handler] [])) (\<lambda>_. Inr (new_EventDispatcher [hasty] []))"
    by (simp add: same_but_for_time_def dispatch_def new_EventDispatcher_def sort_desc_def slow_handler_def hasty_def Let_def never_def)
  show "snd (rn_task (pipeline_execute plain_pipeline (\<lambda>_. Inr (new_EventDispatcher [slow_handler] [])) (TypedEvent sample_event))) = Fulfilled (JObject [])"
    by (simp add: pipeline_execute_def execute_groups_def run_group_def executeEvent_def postMappingIntercept_def plain_pipeline_def
        dispatch_def new_EventDispatcher_def slow_handler_def sort_desc_def Let_def never_def values_of_def map_back_def final_response_def
        await_def promise_all_def rejections_def delay_task_def preResponseMappingIntercept_def postResponseMappingIntercept_def)
qed

section \<open>No answer\<close>

text \<open>
  When the container fails to build what an event needs (its child container or its
  dispatcher), the caller of a typed event never gets an answer: the error is thrown inside an
  executor that neither resolves nor rejects, and is lost.
\<close>

theorem container_failure_hangs:
  assumes "ct ev = Inl e"
  shows "snd (rn_task (pipeline_execute pl ct (TypedEvent ev))) = NeverSettles \<and>
    rn_lost (pipeline_execute pl ct (TypedEvent ev)) = [e] \<and> rn_dispatched (pipeline_execute pl ct (TypedEvent ev)) = []"
  using assms
  by (simp add: pipeline_execute_def execute_groups_def run_group_def Let_def snd_await promise_all_def rejections_def never_def)

theorem container_failure_hangs_witness:
  "snd (rn_task (pipeline_execute plain_pipeline (\<lambda>_. Inl (ValueErr ''no dispatcher'')) (TypedEvent sample_event))) = NeverSettles"
  using container_failure_hangs [of "\<lambda>_. Inl (ValueErr ''no dispatcher'')" sample_event "ValueErr ''no dispatcher''" plain_pipeline] by simp

end
