(* ===== verification/Data_Mapping.thy ===== *)
theory Data_Mapping
  imports Pristine_Errors
begin

text \<open>
  The data mapper of the data-mapping-common package: the schema tree (\<open>nodes/\<close>), the builder
  and its fluent methods (\<open>builders/data-mapping.builder.ts\<close>), the serializer, and
  \<open>DataMapper.map\<close>. A leaf's memoized list of normalizers lives in a store keyed by the path of
  the leaf in the tree. Normalizers, interceptors and \<open>plainToInstance\<close> of class-transformer
  are functions the mapper is given; accessors, proxies and objects that define their own
  \<open>hasOwnProperty\<close> or \<open>__proto__\<close> are outside the model.
\<close>

section \<open>Values\<close>

text \<open>
  A number is its \<open>String(...)\<close> text. An array has its elements and its other own properties; a
  hole counts as an element that is \<open>undefined\<close>. An instance has its class, what it stores
  internally (the time of a date) and its enumerable own properties.
\<close>

datatype dval =
    DUndefined
  | DNull
  | DBool bool
  | DNumber string
  | DString string
  | DArray "dval list" "(string \<times> dval) list"
  | DObject "(string \<times> dval) list"
  | DInstance string string "(string \<times> dval) list"

text \<open>The properties in the order of \<open>for ... in\<close> and \<open>Object.keys\<close>.\<close>

definition in_order :: "(string \<times> 'v) list \<Rightarrow> (string \<times> 'v) list" where
  "in_order ob = sort_key (\<lambda>kv. num_value (fst kv)) (filter (\<lambda>kv. is_index_key (fst kv)) ob) @
     filter (\<lambda>kv. \<not> is_index_key (fst kv)) ob"

fun type_of :: "dval \<Rightarrow> string" where
  "type_of DUndefined = ''undefined''"
| "type_of (DBool _) = ''boolean''"
| "type_of (DNumber _) = ''number''"
| "type_of (DString _) = ''string''"
| "type_of _ = ''object''"

fun truthy :: "dval \<Rightarrow> bool" where
  "truthy DUndefined = False"
| "truthy DNull = False"
| "truthy (DBool b) = b"
| "truthy (DNumber n) = (n \<notin> {''0'', ''NaN''})"
| "truthy (DString s) = (s \<noteq> [])"
| "truthy _ = True"

definition indexed :: "'a list \<Rightarrow> string \<Rightarrow> 'a option" where
  "indexed xs k = (if is_index_key k \<and> num_value k < length xs then Some (xs ! num_value k) else None)"

fun own_property :: "dval \<Rightarrow> string \<Rightarrow> dval option" where
  "own_property (DArray xs ps) k =
     (if k = ''length'' then Some (DNumber (show_nat (length xs)))
      else case indexed xs k of Some v \<Rightarrow> Some v | None \<Rightarrow> map_of ps k)"
| "own_property (DString s) k =
     (if k = ''length'' then Some (DNumber (show_nat (length s))) else map_option (\<lambda>c. DString [c]) (indexed s k))"
| "own_property (DObject ps) k = map_of ps k"
| "own_property (DInstance _ _ ps) k = map_of ps k"
| "own_property _ k = None"

text \<open>\<open>Object.keys\<close>, and the own properties as a fresh object.\<close>

fun own_keys :: "dval \<Rightarrow> string list" where
  "own_keys (DArray xs ps) = map show_nat [0..<length xs] @ obj_keys ps"
| "own_keys (DString s) = map show_nat [0..<length s]"
| "own_keys (DObject ps) = obj_keys ps"
| "own_keys (DInstance _ _ ps) = obj_keys ps"
| "own_keys _ = []"

definition get_own :: "dval \<Rightarrow> string \<Rightarrow> dval" where
  "get_own v k = (case own_property v k of Some w \<Rightarrow> w | None \<Rightarrow> DUndefined)"

definition own_copy :: "dval \<Rightarrow> (string \<times> dval) list" where
  "own_copy v = map (\<lambda>k. (k, get_own v k)) (own_keys v)"

definition hasOwnProperty :: "dval \<Rightarrow> string \<Rightarrow> thrown + bool" where
  "hasOwnProperty v k =
     (if v \<in> {DUndefined, DNull}
      then Inl (NativeErr ''TypeError'' (''Cannot read properties of '' @ (if v = DNull then ''null'' else ''undefined'') @
             '' (reading '' @ quoted ''hasOwnProperty'' @ '')'') None None)
      else Inr (own_property v k \<noteq> None))"

text \<open>
  \<open>target[k] = v\<close> in strict mode. Assigning the \<open>length\<close> of an array is outside the model.
\<close>

fun put :: "string \<Rightarrow> dval \<Rightarrow> dval \<Rightarrow> thrown + dval" where
  "put k v (DObject ps) = Inr (DObject (obj_set k v ps))"
| "put k v (DInstance c i ps) = Inr (DInstance c i (obj_set k v ps))"
| "put k v (DArray xs ps) =
     (if is_index_key k then
        (let i = num_value k in
         Inr (DArray (if i < length xs then xs[i := v] else xs @ replicate (i - length xs) DUndefined @ [v]) ps))
      else Inr (DArray xs (obj_set k v ps)))"
| "put k v target = Inl (NativeErr ''TypeError'' (''Cannot create property '' @ quoted k) None None)"

section \<open>The schema tree\<close>

datatype node_type = ScalarArray | ObjectArray | Node | Leaf

type_synonym keyed_options = "(string \<times> dval) list"

text \<open>
  A class by its name, a factory with the class of the sample instance it returns, or a value
  that is no function.
\<close>

datatype dest_type =
    ClassType string
  | FactoryCallback "dval \<Rightarrow> string \<Rightarrow> nat \<Rightarrow> thrown + string"
  | OtherValue dval

record leaf =
  lf_type :: node_type
  lf_sourceProperty :: "string option"
  lf_destinationProperty :: "string option"
  lf_normalizers :: keyed_options
  lf_excludedNormalizers :: "string list"
  lf_isOptional :: bool

record node_fields =
  nf_type :: node_type
  nf_sourceProperty :: "string option"
  nf_destinationProperty :: "string option"
  nf_isOptional :: bool
  nf_destinationType :: "dest_type option"

datatype mnode = LeafChild leaf | NodeChild node_fields "(string \<times> mnode) list"

text \<open>The store of \<open>effectiveNormalizersCache\<close>, by the keys from the root to the leaf.\<close>

type_synonym caches = "string list \<Rightarrow> keyed_options option"

record builder =
  bd_nodes :: "(string \<times> mnode) list"
  bd_normalizers :: keyed_options
  bd_beforeMappingInterceptors :: keyed_options
  bd_afterMappingInterceptors :: keyed_options
  bd_caches :: caches

definition new_DataMappingBuilder :: builder where
  "new_DataMappingBuilder = \<lparr>bd_nodes = [], bd_normalizers = [], bd_beforeMappingInterceptors = [],
     bd_afterMappingInterceptors = [], bd_caches = (\<lambda>_. None)\<rparr>"

definition new_DataMappingLeaf :: "node_type \<Rightarrow> leaf" where
  "new_DataMappingLeaf ty = \<lparr>lf_type = ty, lf_sourceProperty = None, lf_destinationProperty = None,
     lf_normalizers = [], lf_excludedNormalizers = [], lf_isOptional = False\<rparr>"

definition new_DataMappingNode :: "node_type \<Rightarrow> mnode" where
  "new_DataMappingNode ty = NodeChild \<lparr>nf_type = ty, nf_sourceProperty = None, nf_destinationProperty = None,
     nf_isOptional = False, nf_destinationType = None\<rparr> []"

text \<open>A property name that was never set is \<open>undefined\<close>, and used as a key it is this text.\<close>

definition prop_name :: "string option \<Rightarrow> string" where
  "prop_name p = (case p of Some s \<Rightarrow> s | None \<Rightarrow> ''undefined'')"

fun child_source :: "mnode \<Rightarrow> string option" where
  "child_source (LeafChild l) = lf_sourceProperty l"
| "child_source (NodeChild nf ch) = nf_sourceProperty nf"

fun child_destination :: "mnode \<Rightarrow> string option" where
  "child_destination (LeafChild l) = lf_destinationProperty l"
| "child_destination (NodeChild nf ch) = nf_destinationProperty nf"

fun child_optional :: "mnode \<Rightarrow> bool" where
  "child_optional (LeafChild l) = lf_isOptional l"
| "child_optional (NodeChild nf ch) = nf_isOptional nf"

section \<open>Mapping a leaf\<close>

definition plain_error :: "string \<Rightarrow> thrown" where
  "plain_error message = NativeErr ''Error'' message None None"

definition DataMappingSourcePropertyNotFoundError :: "string \<Rightarrow> thrown" where
  "DataMappingSourcePropertyNotFoundError sp =
     plain_error (''The property '' @ quoted sp @ '' isn'' @ [CHR 0x27] @ ''t found in the Source object and isn'' @ [CHR 0x27] @
       ''t marked as Optional. If you want to ignore this property, use the '' @ quoted ''setIsOptional(true)'' @
       '' method in the builder.'')"

definition ArrayDataMappingNodeInvalidSourcePropertyTypeError :: "string \<Rightarrow> string \<Rightarrow> dval \<Rightarrow> thrown" where
  "ArrayDataMappingNodeInvalidSourcePropertyTypeError members sp v =
     plain_error (''According to your schema, the property '' @ quoted sp @ '' in the source object must contain an Array of '' @
       members @ ''. Instead, it contains: '' @ quoted (type_of v) @ ''.'')"

definition DataNormalizerNotFoundError :: "string \<Rightarrow> string \<Rightarrow> thrown" where
  "DataNormalizerNotFoundError key sp =
     plain_error (''The normalizer '' @ quoted key @ '' wasn'' @ [CHR 0x27] @ ''t found and cannot be loaded for source property '' @
       quoted sp @ ''.'')"

record data_interceptor =
  di_beforeMapping :: "dval \<Rightarrow> dval \<Rightarrow> thrown + dval"
  di_afterMapping :: "dval \<Rightarrow> dval \<Rightarrow> thrown + dval"

record mapper =
  dm_dataNormalizersMap :: "string \<Rightarrow> (dval \<Rightarrow> dval \<Rightarrow> thrown + dval) option"
  dm_dataTransformerInterceptorsMap :: "string \<Rightarrow> data_interceptor option"
  dm_plainToInstance :: "dest_type \<Rightarrow> dval \<Rightarrow> thrown + dval"

text \<open>The constructor files normalizers and interceptors by their key; the last one wins.\<close>

definition new_DataMapper ::
  "(string \<times> (dval \<Rightarrow> dval \<Rightarrow> thrown + dval)) list \<Rightarrow> (string \<times> data_interceptor) list \<Rightarrow>
   (dest_type \<Rightarrow> dval \<Rightarrow> thrown + dval) \<Rightarrow> mapper" where
  "new_DataMapper normalizers interceptors plainToInstance =
     \<lparr>dm_dataNormalizersMap = map_of (rev normalizers),
      dm_dataTransformerInterceptorsMap = map_of (rev interceptors),
      dm_plainToInstance = plainToInstance\<rparr>"

definition getEffectiveNormalizers :: "keyed_options \<Rightarrow> leaf \<Rightarrow> keyed_options option \<Rightarrow> keyed_options" where
  "getEffectiveNormalizers root l cached =
     (case cached of Some ns \<Rightarrow> ns
      | None \<Rightarrow> filter (\<lambda>(key, _). key \<notin> set (lf_excludedNormalizers l)) root @ lf_normalizers l)"

fun normalize_value :: "mapper \<Rightarrow> string \<Rightarrow> keyed_options \<Rightarrow> dval \<Rightarrow> thrown + dval" where
  "normalize_value mp sp [] v = Inr v"
| "normalize_value mp sp ((key, options) # ns) v =
     (case dm_dataNormalizersMap mp key of None \<Rightarrow> Inl (DataNormalizerNotFoundError key sp)
      | Some norm \<Rightarrow> sum_bind (norm v options) (normalize_value mp sp ns))"

fun normalize_elements :: "mapper \<Rightarrow> string \<Rightarrow> keyed_options \<Rightarrow> dval list \<Rightarrow> thrown + dval list" where
  "normalize_elements mp sp ns [] = Inr []"
| "normalize_elements mp sp ns (v # vs) =
     sum_bind (normalize_value mp sp ns v) (\<lambda>w. sum_bind (normalize_elements mp sp ns vs) (\<lambda>ws. Inr (w # ws)))"

definition map_leaf ::
  "mapper \<Rightarrow> keyed_options \<Rightarrow> leaf \<Rightarrow> string list \<Rightarrow> dval \<Rightarrow> dval \<Rightarrow> caches \<Rightarrow> (thrown + dval) \<times> caches" where
  "map_leaf mp root l path source destination caches =
     (let sp = prop_name (lf_sourceProperty l); dp = prop_name (lf_destinationProperty l) in
      case hasOwnProperty source sp of
        Inl e \<Rightarrow> (Inl e, caches)
      | Inr False \<Rightarrow>
          (if lf_isOptional l then Inr destination else Inl (DataMappingSourcePropertyNotFoundError sp), caches)
      | Inr True \<Rightarrow>
          let ns = getEffectiveNormalizers root l (caches path);
              v = get_own source sp in
          (if lf_type l = ScalarArray
           then (case v of
               DArray xs ps \<Rightarrow>
                 sum_bind (put dp (DArray [] []) destination) (\<lambda>_.
                   sum_bind (normalize_elements mp sp ns xs) (\<lambda>ws. put dp (DArray ws []) destination))
             | _ \<Rightarrow> Inl (ArrayDataMappingNodeInvalidSourcePropertyTypeError ''Scalar'' sp v))
           else sum_bind (normalize_value mp sp ns v) (\<lambda>w. put dp w destination),
           caches(path := Some ns)))"

section \<open>Mapping a node\<close>

definition is_object :: "dval \<Rightarrow> bool" where
  "is_object v \<longleftrightarrow> v \<noteq> DNull \<and> type_of v = ''object''"

definition buildDestinationObject :: "mapper \<Rightarrow> node_fields \<Rightarrow> dval \<Rightarrow> bool \<Rightarrow> thrown + dval" where
  "buildDestinationObject mp nf sourceElement includeSourceKeys =
     (let seedFromSource = (includeSourceKeys \<and> is_object sourceElement) in
      case nf_destinationType nf of
        Some t \<Rightarrow> dm_plainToInstance mp t (if seedFromSource then sourceElement else DObject [])
      | None \<Rightarrow> Inr (DObject (if seedFromSource then own_copy sourceElement else [])))"

definition resolveArrayMemberConstructor :: "dest_type \<Rightarrow> string \<Rightarrow> dval \<Rightarrow> nat \<Rightarrow> thrown + dest_type" where
  "resolveArrayMemberConstructor t sp source index =
     (case t of FactoryCallback factory \<Rightarrow> sum_bind (factory source sp index) (\<lambda>c. Inr (ClassType c))
      | _ \<Rightarrow> Inr t)"

definition buildArrayMemberDestination ::
  "mapper \<Rightarrow> node_fields \<Rightarrow> dval \<Rightarrow> dval \<Rightarrow> nat \<Rightarrow> bool \<Rightarrow> thrown + dval" where
  "buildArrayMemberDestination mp nf source element index includeSourceKeys =
     (let seedFromSource = (includeSourceKeys \<and> is_object element) in
      case nf_destinationType nf of
        None \<Rightarrow> Inr (DObject (if seedFromSource then own_copy element else []))
      | Some t \<Rightarrow>
          sum_bind (resolveArrayMemberConstructor t (prop_name (nf_sourceProperty nf)) source index) (\<lambda>c.
            dm_plainToInstance mp c (if seedFromSource then element else DObject [])))"

lemma size_in_order [simp]: "size_list f (in_order ob) = size_list f ob"
proof -
  have "mset (in_order ob) = mset ob" by (simp add: in_order_def)
  then have "mset (map f (in_order ob)) = mset (map f ob)" by (simp only: mset_map)
  then show ?thesis
    using mset_eq_length [of "in_order ob" ob] \<open>mset (in_order ob) = mset ob\<close>
    by (simp add: size_list_conv_sum_list flip: sum_mset_sum_list)
qed

text \<open>
  One child, the children of a node in order, and the elements of an array. \<open>exclude\<close> is the
  option \<open>excludeExtraneousValues\<close>. The destination a node has built is written first and again
  with what its children added: in the code both are one object.
\<close>

function (sequential) map_child ::
  "mapper \<Rightarrow> keyed_options \<Rightarrow> bool \<Rightarrow> mnode \<Rightarrow> string list \<Rightarrow> dval \<Rightarrow> dval \<Rightarrow> caches \<Rightarrow> (thrown + dval) \<times> caches"
  and run_sub_nodes ::
  "mapper \<Rightarrow> keyed_options \<Rightarrow> bool \<Rightarrow> (string \<times> mnode) list \<Rightarrow> string list \<Rightarrow> dval \<Rightarrow> dval \<Rightarrow> caches \<Rightarrow>
   (thrown + dval) \<times> caches"
  and map_elements ::
  "mapper \<Rightarrow> keyed_options \<Rightarrow> bool \<Rightarrow> node_fields \<Rightarrow> (string \<times> mnode) list \<Rightarrow> string list \<Rightarrow> dval \<Rightarrow> nat \<Rightarrow>
   dval list \<Rightarrow> caches \<Rightarrow> (thrown + dval list) \<times> caches" where
  "map_child mp root exclude (LeafChild l) path source destination caches =
     map_leaf mp root l path source destination caches"
| "map_child mp root exclude (NodeChild nf ch) path source destination caches =
     (let sp = prop_name (nf_sourceProperty nf); dp = prop_name (nf_destinationProperty nf) in
      case hasOwnProperty source sp of
        Inl e \<Rightarrow> (Inl e, caches)
      | Inr False \<Rightarrow>
          (if nf_isOptional nf then Inr destination else Inl (DataMappingSourcePropertyNotFoundError sp), caches)
      | Inr True \<Rightarrow>
          let sourceElement = get_own source sp in
          if sourceElement = DUndefined then (Inr destination, caches)
          else if sourceElement = DNull then (put dp DNull destination, caches)
          else if nf_type nf = ObjectArray then
            (case put dp (DArray [] []) destination of
               Inl e \<Rightarrow> (Inl e, caches)
             | Inr _ \<Rightarrow>
                 (case sourceElement of
                    DArray es _ \<Rightarrow>
                      (case map_elements mp root exclude nf ch path source 0 es caches of
                         (Inl e, caches) \<Rightarrow> (Inl e, caches)
                       | (Inr ds, caches) \<Rightarrow> (put dp (DArray ds []) destination, caches))
                  | _ \<Rightarrow> (Inl (ArrayDataMappingNodeInvalidSourcePropertyTypeError ''objects'' sp sourceElement), caches)))
          else
            (case buildDestinationObject mp nf sourceElement (\<not> exclude) of
               Inl e \<Rightarrow> (Inl e, caches)
             | Inr built \<Rightarrow>
                 (case put dp built destination of
                    Inl e \<Rightarrow> (Inl e, caches)
                  | Inr _ \<Rightarrow>
                      (case run_sub_nodes mp root exclude (in_order ch) path sourceElement built caches of
                         (Inl e, caches) \<Rightarrow> (Inl e, caches)
                       | (Inr d, caches) \<Rightarrow> (put dp d destination, caches)))))"
| "run_sub_nodes mp root exclude [] path source destination caches = (Inr destination, caches)"
| "run_sub_nodes mp root exclude ((key, node) # nodes) path source destination caches =
     (case map_child mp root exclude node (path @ [key]) source destination caches of
        (Inl e, caches) \<Rightarrow> (Inl e, caches)
      | (Inr d, caches) \<Rightarrow> run_sub_nodes mp root exclude nodes path source d caches)"
| "map_elements mp root exclude nf ch path source index [] caches = (Inr [], caches)"
| "map_elements mp root exclude nf ch path source index (element # es) caches =
     (if element = DNull then
        (case map_elements mp root exclude nf ch path source (Suc index) es caches of
           (Inl e, caches) \<Rightarrow> (Inl e, caches)
         | (Inr ds, caches) \<Rightarrow> (Inr (DNull # ds), caches))
      else
        (case buildArrayMemberDestination mp nf source element index (\<not> exclude) of
           Inl e \<Rightarrow> (Inl e, caches)
         | Inr dest \<Rightarrow>
             (case run_sub_nodes mp root exclude (in_order ch) path element dest caches of
                (Inl e, caches) \<Rightarrow> (Inl e, caches)
              | (Inr d, caches) \<Rightarrow>
                  (case map_elements mp root exclude nf ch path source (Suc index) es caches of
                     (Inl e, caches) \<Rightarrow> (Inl e, caches)
                   | (Inr ds, caches) \<Rightarrow> (Inr (d # ds), caches)))))"
  by pat_completeness auto
termination
  by (relation "measures [
      \<lambda>x. case x of Inl (_, _, _, c, _) \<Rightarrow> size c
        | Inr (Inl (_, _, _, cs, _)) \<Rightarrow> size_list (size_prod (\<lambda>_. 0) size) cs
        | Inr (Inr (_, _, _, _, cs, _)) \<Rightarrow> size_list (size_prod (\<lambda>_. 0) size) cs,
      \<lambda>x. case x of Inr (Inr (_, _, _, _, _, _, _, _, es, _)) \<Rightarrow> Suc (length es) | _ \<Rightarrow> 0]") auto

declare map_child.simps [simp del] run_sub_nodes.simps [simp del] map_elements.simps [simp del]

section \<open>The mapper\<close>

definition DataMappingInterceptorNotFoundError :: thrown where
  "DataMappingInterceptorNotFoundError = plain_error (''The interceptor wasn'' @ [CHR 0x27] @ ''t found and cannot be loaded.'')"

definition intercept_step ::
  "mapper \<Rightarrow> (data_interceptor \<Rightarrow> dval \<Rightarrow> dval \<Rightarrow> thrown + dval) \<Rightarrow> string \<times> dval \<Rightarrow> dval \<Rightarrow> thrown + dval" where
  "intercept_step mp hook element v =
     (case dm_dataTransformerInterceptorsMap mp (fst element) of
        None \<Rightarrow> Inl DataMappingInterceptorNotFoundError
      | Some i \<Rightarrow> hook i v (snd element))"

text \<open>
  \<open>map\<close> with its option \<open>excludeExtraneousValues\<close>, \<open>None\<close> when the caller gave none. The top
  level copies the source only for an explicit \<open>false\<close>; the nodes below see the default.
\<close>

definition initial_properties :: "bool option \<Rightarrow> dval \<Rightarrow> (string \<times> dval) list" where
  "initial_properties excludeExtraneousValues source =
     (if excludeExtraneousValues = Some False \<and> truthy source then own_copy source else [])"

definition DataMapper_map ::
  "mapper \<Rightarrow> builder \<Rightarrow> dval \<Rightarrow> dest_type option \<Rightarrow> bool option \<Rightarrow> (thrown + dval) \<times> builder" where
  "DataMapper_map mp b source destinationType excludeExtraneousValues =
     (case run_chain (intercept_step mp di_beforeMapping) (bd_beforeMappingInterceptors b) source of
        Inl e \<Rightarrow> (Inl e, b)
      | Inr interceptedSource \<Rightarrow>
          (case run_sub_nodes mp (bd_normalizers b) (excludeExtraneousValues = Some True) (in_order (bd_nodes b)) []
               interceptedSource (DObject (initial_properties excludeExtraneousValues source)) (bd_caches b) of
             (Inl e, caches) \<Rightarrow> (Inl e, b\<lparr>bd_caches := caches\<rparr>)
           | (Inr destination, caches) \<Rightarrow>
               (sum_bind (run_chain (intercept_step mp di_afterMapping) (bd_afterMappingInterceptors b) destination) (\<lambda>d.
                  case destinationType of None \<Rightarrow> Inr d | Some t \<Rightarrow> dm_plainToInstance mp t d),
                b\<lparr>bd_caches := caches\<rparr>)))"

fun mapAll :: "mapper \<Rightarrow> builder \<Rightarrow> dval list \<Rightarrow> dest_type option \<Rightarrow> (thrown + dval list) \<times> builder" where
  "mapAll mp b [] destinationType = (Inr [], b)"
| "mapAll mp b (element # es) destinationType =
     (case DataMapper_map mp b element destinationType None of
        (Inl e, b) \<Rightarrow> (Inl e, b)
      | (Inr d, b) \<Rightarrow>
          (case mapAll mp b es destinationType of (Inl e, b) \<Rightarrow> (Inl e, b) | (Inr ds, b) \<Rightarrow> (Inr (d # ds), b)))"

section \<open>Building a schema\<close>

definition DataNormalizerAlreadyAdded :: "string \<Rightarrow> thrown" where
  "DataNormalizerAlreadyAdded message = plain_error message"

definition has_key :: "string \<Rightarrow> keyed_options \<Rightarrow> bool" where
  "has_key key ns = list_ex (\<lambda>(k, _). k = key) ns"

definition builder_addNormalizer :: "string \<Rightarrow> dval \<Rightarrow> builder \<Rightarrow> thrown + builder" where
  "builder_addNormalizer key options b =
     (if has_key key (bd_normalizers b)
      then Inl (DataNormalizerAlreadyAdded (''The data normalizer '' @ quoted key @ '' has already been added to this builder.''))
      else Inr (b\<lparr>bd_normalizers := bd_normalizers b @ [(key, options)]\<rparr>))"

definition addBeforeMappingInterceptor :: "string \<Rightarrow> dval \<Rightarrow> builder \<Rightarrow> thrown + builder" where
  "addBeforeMappingInterceptor key options b =
     (if has_key key (bd_beforeMappingInterceptors b)
      then Inl (plain_error ''The before row transform interceptor has already been added to this Tree.'')
      else Inr (b\<lparr>bd_beforeMappingInterceptors := bd_beforeMappingInterceptors b @ [(key, options)]\<rparr>))"

definition addAfterMappingInterceptor :: "string \<Rightarrow> dval \<Rightarrow> builder \<Rightarrow> thrown + builder" where
  "addAfterMappingInterceptor key options b =
     (if has_key key (bd_afterMappingInterceptors b)
      then Inl (plain_error ''The after row transform interceptor has already been added to this Tree.'')
      else Inr (b\<lparr>bd_afterMappingInterceptors := bd_afterMappingInterceptors b @ [(key, options)]\<rparr>))"

text \<open>The methods of a leaf that is not part of a tree yet; \<open>root\<close> are the builder's normalizers.\<close>

definition leaf_addNormalizer :: "keyed_options \<Rightarrow> string \<Rightarrow> dval \<Rightarrow> leaf \<Rightarrow> thrown + leaf" where
  "leaf_addNormalizer root key options l =
     (if has_key key (lf_normalizers l)
      then Inl (DataNormalizerAlreadyAdded (''The data normalizer '' @ quoted key @
        '' has already been added to the leaf with destination property: '' @ quoted (prop_name (lf_destinationProperty l)) @ ''.''))
      else if has_key key root
      then Inl (DataNormalizerAlreadyAdded (''The data normalizer '' @ quoted key @
        '' has already been added to the root and cannot be also added to the leaf with destination property: '' @
        quoted (prop_name (lf_destinationProperty l)) @ ''.''))
      else Inr (l\<lparr>lf_normalizers := lf_normalizers l @ [(key, options)]\<rparr>))"

definition excludeNormalizer :: "string \<Rightarrow> leaf \<Rightarrow> thrown + leaf" where
  "excludeNormalizer key l =
     (if key \<in> set (lf_excludedNormalizers l)
      then Inl (DataNormalizerAlreadyAdded (''The EXCLUDED data normalizer '' @ quoted key @
        '' has already been added to this source property: '' @ quoted (prop_name (lf_sourceProperty l)) @ ''.''))
      else Inr (l\<lparr>lf_excludedNormalizers := lf_excludedNormalizers l @ [key]\<rparr>))"

definition addNode :: "mnode \<Rightarrow> (string \<times> mnode) list \<Rightarrow> thrown + (string \<times> mnode) list" where
  "addNode node nodes =
     (case child_source node of
        None \<Rightarrow> Inl (plain_error ''The `sourceProperty` property of the Node cannot be undefined to be added as a Node to its parent.'')
      | Some sp \<Rightarrow>
          (case child_destination node of
             None \<Rightarrow> Inl (plain_error ''The `destinationProperty` property of the Node cannot be undefined to be added as a Node to its parent.'')
           | Some _ \<Rightarrow> Inr (obj_set sp node nodes)))"

record leaf_options =
  lo_normalizers :: "keyed_options option"
  lo_excludeNormalizers :: "string list option"
  lo_isOptional :: "bool option"

record nested_options =
  no_isOptional :: "bool option"
  no_destinationType :: "dest_type option"

definition applyLeafOptions :: "keyed_options \<Rightarrow> leaf_options option \<Rightarrow> leaf \<Rightarrow> thrown + leaf" where
  "applyLeafOptions root options l =
     (case options of None \<Rightarrow> Inr l
      | Some opts \<Rightarrow>
          let l = (case lo_isOptional opts of Some b \<Rightarrow> l\<lparr>lf_isOptional := b\<rparr> | None \<Rightarrow> l) in
          sum_bind (run_chain excludeNormalizer (case lo_excludeNormalizers opts of Some ks \<Rightarrow> ks | None \<Rightarrow> []) l)
            (run_chain (\<lambda>(key, options). leaf_addNormalizer root key options)
              (case lo_normalizers opts of Some ns \<Rightarrow> ns | None \<Rightarrow> [])))"

text \<open>\<open>field\<close> and \<open>arrayOfScalars\<close>; \<open>nested\<close> and \<open>arrayOfObjects\<close> with what their callback does.\<close>

definition add_leaf ::
  "node_type \<Rightarrow> keyed_options \<Rightarrow> string \<Rightarrow> string option \<Rightarrow> leaf_options option \<Rightarrow> (string \<times> mnode) list \<Rightarrow>
   thrown + (string \<times> mnode) list" where
  "add_leaf ty root source destination options nodes =
     sum_bind (applyLeafOptions root options ((new_DataMappingLeaf ty)
         \<lparr>lf_sourceProperty := Some source,
          lf_destinationProperty := Some (case destination of Some d \<Rightarrow> d | None \<Rightarrow> source)\<rparr>))
       (\<lambda>l. addNode (LeafChild l) nodes)"

definition add_subtree ::
  "node_type \<Rightarrow> string \<Rightarrow> string \<Rightarrow> ((string \<times> mnode) list \<Rightarrow> thrown + (string \<times> mnode) list) \<Rightarrow>
   nested_options option \<Rightarrow> (string \<times> mnode) list \<Rightarrow> thrown + (string \<times> mnode) list" where
  "add_subtree ty source destination build options nodes =
     (let nf = \<lparr>nf_type = ty, nf_sourceProperty = Some source, nf_destinationProperty = Some destination,
            nf_isOptional = (case options of Some opts \<Rightarrow> (case no_isOptional opts of Some b \<Rightarrow> b | None \<Rightarrow> False) | None \<Rightarrow> False),
            nf_destinationType = (case options of Some opts \<Rightarrow> no_destinationType opts | None \<Rightarrow> None)\<rparr> in
      sum_bind (build []) (\<lambda>ch. addNode (NodeChild nf ch) nodes))"

datatype fluent_call =
    Field string "string option" "leaf_options option"
  | ArrayOfScalars string "string option" "leaf_options option"
  | Nested string string "fluent_call list" "nested_options option"
  | ArrayOfObjects string string "fluent_call list" "nested_options option"

fun fluent :: "keyed_options \<Rightarrow> fluent_call \<Rightarrow> (string \<times> mnode) list \<Rightarrow> thrown + (string \<times> mnode) list"
  and fluents :: "keyed_options \<Rightarrow> fluent_call list \<Rightarrow> (string \<times> mnode) list \<Rightarrow> thrown + (string \<times> mnode) list" where
  "fluent root (Field source destination options) nodes = add_leaf Leaf root source destination options nodes"
| "fluent root (ArrayOfScalars source destination options) nodes =
     add_leaf ScalarArray root source destination options nodes"
| "fluent root (Nested source destination calls options) nodes =
     add_subtree Node source destination (\<lambda>ch. fluents root calls ch) options nodes"
| "fluent root (ArrayOfObjects source destination calls options) nodes =
     add_subtree ObjectArray source destination (\<lambda>ch. fluents root calls ch) options nodes"
| "fluents root [] nodes = Inr nodes"
| "fluents root (call # calls) nodes = sum_bind (fluent root call nodes) (fluents root calls)"

text \<open>A call on the builder. The leaves of the new child have no memoized list.\<close>

fun call_source :: "fluent_call \<Rightarrow> string" where
  "call_source (Field source _ _) = source"
| "call_source (ArrayOfScalars source _ _) = source"
| "call_source (Nested source _ _ _) = source"
| "call_source (ArrayOfObjects source _ _ _) = source"

definition builder_fluent :: "fluent_call \<Rightarrow> builder \<Rightarrow> thrown + builder" where
  "builder_fluent call b =
     sum_bind (fluent (bd_normalizers b) call (bd_nodes b)) (\<lambda>nodes.
       Inr (b\<lparr>bd_nodes := nodes,
              bd_caches := (\<lambda>p. if p \<noteq> [] \<and> hd p = call_source call then None else bd_caches b p)\<rparr>))"

section \<open>Export and import\<close>

text \<open>
  An exported schema: the plain object with the fields the code writes, \<open>None\<close> for one it does
  not write. The excluded normalizers are an object whose keys are the names.
\<close>

datatype schema_node =
  SchemaNode (sc_type: string) (sc_sourceProperty: "string option") (sc_destinationProperty: "string option")
    (sc_isOptional: bool) (sc_normalizers: "keyed_options option") (sc_excluded: "(string \<times> bool) list option")
    (sc_nodes: "(string \<times> schema_node) list option")

record schema =
  sm_nodes :: "(string \<times> schema_node) list option"
  sm_normalizers :: keyed_options
  sm_beforeMappingInterceptors :: keyed_options
  sm_afterMappingInterceptors :: keyed_options

fun type_text :: "node_type \<Rightarrow> string" where
  "type_text ScalarArray = ''DATA_MAPPING_NODE_SCALAR_ARRAY''"
| "type_text ObjectArray = ''DATA_MAPPING_NODE_OBJECT_ARRAY''"
| "type_text Node = ''DATA_MAPPING_NODE''"
| "type_text Leaf = ''DATA_MAPPING_LEAF''"

definition leaf_export :: "leaf \<Rightarrow> schema_node" where
  "leaf_export l =
     SchemaNode (type_text (lf_type l)) (lf_sourceProperty l) (lf_destinationProperty l) (lf_isOptional l)
       (Some (lf_normalizers l)) (Some (foldl (\<lambda>ob k. obj_set k True ob) [] (lf_excludedNormalizers l))) None"

definition exportChildren :: "(string \<times> schema_node) list \<Rightarrow> (string \<times> schema_node) list" where
  "exportChildren exported = foldl (\<lambda>ob (k, c). obj_set k c ob) [] (in_order exported)"

fun node_export :: "mnode \<Rightarrow> schema_node" where
  "node_export (LeafChild l) = leaf_export l"
| "node_export (NodeChild nf ch) =
     SchemaNode (type_text (nf_type nf)) (nf_sourceProperty nf) (nf_destinationProperty nf) (nf_isOptional nf)
       None None (Some (exportChildren (map (\<lambda>(k, c). (k, node_export c)) ch)))"

definition builder_export :: "builder \<Rightarrow> schema" where
  "builder_export b =
     \<lparr>sm_nodes = Some (exportChildren (map (\<lambda>(k, c). (k, node_export c)) (bd_nodes b))),
      sm_normalizers = bd_normalizers b,
      sm_beforeMappingInterceptors = bd_beforeMappingInterceptors b,
      sm_afterMappingInterceptors = bd_afterMappingInterceptors b\<rparr>"

definition leaf_import :: "node_type \<Rightarrow> schema_node \<Rightarrow> leaf" where
  "leaf_import ty sc =
     \<lparr>lf_type = ty, lf_sourceProperty = sc_sourceProperty sc, lf_destinationProperty = sc_destinationProperty sc,
      lf_normalizers = (case sc_normalizers sc of Some ns \<Rightarrow> ns | None \<Rightarrow> []),
      lf_excludedNormalizers = (case sc_excluded sc of Some ex \<Rightarrow> obj_keys ex | None \<Rightarrow> []),
      lf_isOptional = sc_isOptional sc\<rparr>"

text \<open>Children whose \<open>_type\<close> is none of the four are dropped.\<close>

definition importChildren :: "(string \<times> mnode option) list \<Rightarrow> (string \<times> mnode) list" where
  "importChildren imported =
     foldl (\<lambda>ob (k, c). case c of None \<Rightarrow> ob | Some c \<Rightarrow> obj_set (prop_name (child_source c)) c ob) [] (in_order imported)"

fun node_import :: "schema_node \<Rightarrow> mnode option" where
  "node_import (SchemaNode ty sp dp opt ns ex nodes) =
     (let sc = SchemaNode ty sp dp opt ns ex nodes;
          imported = (\<lambda>t. NodeChild \<lparr>nf_type = t, nf_sourceProperty = sp, nf_destinationProperty = dp,
              nf_isOptional = opt, nf_destinationType = None\<rparr>
            (case nodes of None \<Rightarrow> [] | Some nds \<Rightarrow> importChildren (map (\<lambda>(k, c). (k, node_import c)) nds))) in
      if ty = type_text ScalarArray then Some (LeafChild (leaf_import ScalarArray sc))
      else if ty = type_text Leaf then Some (LeafChild (leaf_import Leaf sc))
      else if ty = type_text Node then Some (imported Node)
      else if ty = type_text ObjectArray then Some (imported ObjectArray)
      else None)"

definition builder_import :: "schema \<Rightarrow> builder \<Rightarrow> builder" where
  "builder_import sc b =
     b\<lparr>bd_normalizers := sm_normalizers sc,
       bd_beforeMappingInterceptors := sm_beforeMappingInterceptors sc,
       bd_afterMappingInterceptors := sm_afterMappingInterceptors sc,
       bd_nodes := (case sm_nodes sc of None \<Rightarrow> [] | Some nds \<Rightarrow> importChildren (map (\<lambda>(k, c). (k, node_import c)) nds)),
       bd_caches := (\<lambda>_. None)\<rparr>"

section \<open>A sample\<close>

definition sample_calls :: "fluent_call list" where
  "sample_calls =
     [Field ''name'' (Some ''fullName'') (Some \<lparr>lo_normalizers = Some [(''BANG'', DUndefined)],
        lo_excludeNormalizers = None, lo_isOptional = None\<rparr>),
      Nested ''address'' ''addr'' [] None,
      ArrayOfObjects ''tags'' ''labels'' [Field ''t'' (Some ''text'') None] None]"

definition sample_leaf :: leaf where
  "sample_leaf = \<lparr>lf_type = Leaf, lf_sourceProperty = Some ''name'', lf_destinationProperty = Some ''fullName'',
     lf_normalizers = [(''BANG'', DUndefined)], lf_excludedNormalizers = [], lf_isOptional = False\<rparr>"

definition sample_node :: "node_type \<Rightarrow> string \<Rightarrow> string \<Rightarrow> node_fields" where
  "sample_node ty sp dp = \<lparr>nf_type = ty, nf_sourceProperty = Some sp, nf_destinationProperty = Some dp,
     nf_isOptional = False, nf_destinationType = None\<rparr>"

definition sample_nodes :: "(string \<times> mnode) list" where
  "sample_nodes =
     [(''name'', LeafChild sample_leaf),
      (''address'', NodeChild (sample_node Node ''address'' ''addr'') []),
      (''tags'', NodeChild (sample_node ObjectArray ''tags'' ''labels'')
         [(''t'', LeafChild (sample_leaf\<lparr>lf_sourceProperty := Some ''t'', lf_destinationProperty := Some ''text'',
            lf_normalizers := []\<rparr>))])]"

definition sample_builder :: builder where
  "sample_builder = new_DataMappingBuilder\<lparr>bd_nodes := sample_nodes\<rparr>"

definition sample_mapper :: mapper where
  "sample_mapper = new_DataMapper
     [(''MARK'', \<lambda>v options. Inr (case v of DString s \<Rightarrow> DString (''#'' @ s) | _ \<Rightarrow> v)),
      (''BANG'', \<lambda>v options. Inr (case v of DString s \<Rightarrow> DString (s @ ''!'') | _ \<Rightarrow> v))]
     [] (\<lambda>t v. Inr (DInstance (case t of ClassType c \<Rightarrow> c | _ \<Rightarrow> []) [] []))"

definition sample_source :: dval where
  "sample_source = DObject [(''name'', DString ''Ann''), (''address'', DObject [(''city'', DString ''Oslo'')]),
     (''tags'', DArray [DObject [(''t'', DString ''a'')], DNull] []), (''age'', DNumber ''7'')]"

end
