(* ===== verification/Data_Mapping_Properties.thy ===== *)
theory Data_Mapping_Properties
  imports Data_Mapping
begin

text \<open>
  What the data mapper guarantees: the memoized lists of normalizers are transparent as long as
  the builder's own list is not extended afterwards, the children of a node do not influence
  each other, and an exported schema that is imported again maps as the original.
\<close>

section \<open>Lemmas: property order\<close>

lemma set_in_order [simp]: "set (in_order ob) = set ob"
  by (auto simp: in_order_def)

lemma mset_in_order: "mset (in_order ob) = mset ob"
  by (simp add: in_order_def)

lemma keys_in_order: "map fst (in_order ob) = obj_keys ob"
proof -
  have "map fst (sort_key (\<lambda>kv. num_value (fst kv)) xs) = sort_key num_value (map fst xs)" for xs :: "(string \<times> 'a) list"
  proof (induction xs)
    case (Cons x xs)
    have "map fst (insort_key (\<lambda>kv. num_value (fst kv)) x ys) = insort_key num_value (fst x) (map fst ys)"
      for ys :: "(string \<times> 'a) list"
      by (induction ys) simp_all
    with Cons show ?case by simp
  qed simp
  then show ?thesis
    by (simp add: in_order_def obj_keys_def Let_def filter_map o_def)
qed

lemma in_order_map: "in_order (map (\<lambda>(k, v). (k, f v)) ob) = map (\<lambda>(k, v). (k, f v)) (in_order ob)"
proof -
  let ?g = "\<lambda>(k, v). (k, f v)"
  have fst_g: "fst (?g kv) = fst kv" for kv by (cases kv) simp
  have ins: "insort_key (\<lambda>kv. num_value (fst kv)) (?g x) (map ?g ys) =
      map ?g (insort_key (\<lambda>kv. num_value (fst kv)) x ys)" for x ys
    by (induction ys) (simp_all add: fst_g)
  have "sort_key (\<lambda>kv. num_value (fst kv)) (map ?g xs) = map ?g (sort_key (\<lambda>kv. num_value (fst kv)) xs)" for xs
    by (induction xs) (simp_all add: ins)
  then show ?thesis by (simp add: in_order_def filter_map o_def fst_g)
qed

lemma in_order_idem [simp]: "in_order (in_order ob) = in_order ob"
proof -
  let ?n = "\<lambda>kv. num_value (fst kv)" and ?P = "\<lambda>kv. is_index_key (fst kv)"
  have "filter ?P (sort_key ?n (filter ?P ob)) = sort_key ?n (filter ?P ob)"
    and "filter (\<lambda>kv. \<not> ?P kv) (sort_key ?n (filter ?P ob)) = []"
    by (auto simp: filter_id_conv filter_empty_conv)
  then show ?thesis by (simp add: in_order_def sort_key_id_if_sorted)
qed

lemma distinct_in_order: "wf_obj ob \<Longrightarrow> wf_obj (in_order ob)"
  by (simp add: wf_obj_def keys_in_order distinct_obj_keys [unfolded wf_obj_def])

lemma obj_set_fresh: "k \<notin> fst ` set ob \<Longrightarrow> obj_set k v ob = ob @ [(k, v)]"
  by (induction ob) auto

lemma rebuild_obj:
  assumes "distinct (map fst (acc @ ob))"
  shows "foldl (\<lambda>ob (k, v). obj_set k v ob) acc ob = acc @ ob"
  using assms
proof (induction ob arbitrary: acc)
  case (Cons kv ob)
  then show ?case using Cons.IH [of "acc @ [kv]"]
    by (cases kv) (auto simp: obj_set_fresh)
qed simp

section \<open>Lemmas: the memoized normalizers\<close>

lemma effective_cached [simp]: "getEffectiveNormalizers root l (Some ns) = ns"
  by (simp add: getEffectiveNormalizers_def)

text \<open>
  Mapping only adds entries to the store; a second run on a store that has these entries gives
  the same result whatever the builder's normalizers are by then, and adds nothing.
\<close>

lemma map_leaf_replay:
  assumes "map_leaf mp root l path s d caches = (r, caches1)"
  shows "caches \<subseteq>\<^sub>m caches1"
    and "caches1 \<subseteq>\<^sub>m caches2 \<Longrightarrow> map_leaf mp root' l path s d caches2 = (r, caches2)"
proof -
  show "caches \<subseteq>\<^sub>m caches1"
    using assms by (auto simp: map_leaf_def Let_def map_le_def split: sum.splits bool.splits if_splits)
  assume le: "caches1 \<subseteq>\<^sub>m caches2"
  show "map_leaf mp root' l path s d caches2 = (r, caches2)"
  proof (cases "hasOwnProperty s (prop_name (lf_sourceProperty l)) = Inr True")
    case True
    with assms have "caches1 = caches(path := Some (getEffectiveNormalizers root l (caches path)))"
      by (auto simp: map_leaf_def Let_def)
    with le have "caches2 path = Some (getEffectiveNormalizers root l (caches path))"
      by (force simp: map_le_def)
    with True assms show ?thesis
      by (auto simp: map_leaf_def Let_def fun_upd_idem_iff)
  next
    case False
    with assms show ?thesis
      by (auto simp: map_leaf_def Let_def split: sum.splits bool.splits)
  qed
qed

definition replays :: "(keyed_options \<Rightarrow> caches \<Rightarrow> 'r \<times> caches) \<Rightarrow> keyed_options \<Rightarrow> caches \<Rightarrow> bool" where
  "replays f root caches \<longleftrightarrow> caches \<subseteq>\<^sub>m snd (f root caches) \<and>
     (\<forall>root' caches2. snd (f root caches) \<subseteq>\<^sub>m caches2 \<longrightarrow> f root' caches2 = (fst (f root caches), caches2))"

lemma replays_return [intro]: "replays (\<lambda>root caches. (x, caches)) root caches"
  by (simp add: replays_def)

lemma replays_bind [intro]:
  assumes f: "replays f root caches"
    and g: "\<And>a caches1. f root caches = (Inr a, caches1) \<Longrightarrow> replays (g a) root caches1"
  shows "replays (\<lambda>root caches. case f root caches of (Inl e, c) \<Rightarrow> (Inl e, c) | (Inr a, c) \<Rightarrow> g a root c) root caches"
proof (cases "f root caches")
  case (Pair r caches1)
  show ?thesis
  proof (cases r)
    case (Inl e)
    with Pair f show ?thesis by (auto simp: replays_def)
  next
    case (Inr a)
    with Pair g have ga: "replays (g a) root caches1" by blast
    have le: "caches \<subseteq>\<^sub>m caches1" using f Pair by (simp add: replays_def)
    have le1: "caches1 \<subseteq>\<^sub>m snd (g a root caches1)" using ga by (simp add: replays_def)
    show ?thesis unfolding replays_def
    proof (intro conjI allI impI)
      show "caches \<subseteq>\<^sub>m snd (case f root caches of (Inl e, c) \<Rightarrow> (Inl e, c) | (Inr a, c) \<Rightarrow> g a root c)"
        using Pair Inr map_le_trans [OF le le1] by simp
    next
      fix root' caches2
      assume "snd (case f root caches of (Inl e, c) \<Rightarrow> (Inl e, c) | (Inr a, c) \<Rightarrow> g a root c) \<subseteq>\<^sub>m caches2"
      then have l2: "snd (g a root caches1) \<subseteq>\<^sub>m caches2" using Pair Inr by simp
      have "f root' caches2 = (Inr a, caches2)"
        using f Pair Inr map_le_trans [OF le1 l2] by (simp add: replays_def)
      moreover have "g a root' caches2 = (fst (g a root caches1), caches2)"
        using ga l2 by (simp add: replays_def)
      ultimately show "(case f root' caches2 of (Inl e, c) \<Rightarrow> (Inl e, c) | (Inr a, c) \<Rightarrow> g a root' c) =
          (fst (case f root caches of (Inl e, c) \<Rightarrow> (Inl e, c) | (Inr a, c) \<Rightarrow> g a root c), caches2)"
        using Pair Inr by simp
    qed
  qed
qed

lemma replays_sum_case [intro]:
  assumes "\<And>e. x = Inl e \<Longrightarrow> replays (f e) root caches" and "\<And>a. x = Inr a \<Longrightarrow> replays (g a) root caches"
  shows "replays (\<lambda>root caches. case x of Inl e \<Rightarrow> f e root caches | Inr a \<Rightarrow> g a root caches) root caches"
  using assms by (cases x) simp_all

lemma replays_if [intro]:
  assumes "b \<Longrightarrow> replays f root caches" and "\<not> b \<Longrightarrow> replays g root caches"
  shows "replays (\<lambda>root caches. if b then f root caches else g root caches) root caches"
  using assms by (cases b) simp_all

lemma replays_bool_case [intro]:
  assumes "b \<Longrightarrow> replays f root caches" and "\<not> b \<Longrightarrow> replays g root caches"
  shows "replays (\<lambda>root caches. case b of True \<Rightarrow> f root caches | False \<Rightarrow> g root caches) root caches"
  using assms by (cases b) simp_all

lemma replays_array [intro]:
  assumes "\<And>xs ps. v = DArray xs ps \<Longrightarrow> replays (f xs) root caches" and "replays g root caches"
  shows "replays (\<lambda>root caches. case v of DArray xs ps \<Rightarrow> f xs root caches | _ \<Rightarrow> g root caches) root caches"
  using assms by (cases v) simp_all

lemma replays_leaf: "replays (\<lambda>root. map_leaf mp root l path s d) root caches"
  unfolding replays_def using map_leaf_replay [of mp root l path s d caches] by (metis prod.collapse)

lemma replays_mapping:
  "replays (\<lambda>root. map_child mp root ex c path s d) root caches"
  "replays (\<lambda>root. run_sub_nodes mp root ex cs path s d) root caches"
  "replays (\<lambda>root. map_elements mp root ex nf ch path s i es) root caches"
proof (induction mp root ex c path s d caches and mp root ex cs path s d caches
    and mp root ex nf ch path s i es caches rule: map_child_run_sub_nodes_map_elements.induct)
  case (1 mp root exclude l path source destination caches)
  then show ?case using replays_leaf by (simp add: map_child.simps)
next
  case (2 mp root exclude nf ch path source destination caches)
  show ?case unfolding map_child.simps Let_def
    by (intro replays_sum_case replays_return replays_if replays_bool_case replays_array replays_bind)
      (use "2.IH" in \<open>simp_all add: Let_def\<close>)
next
  case (4 mp root exclude key node nodes path source destination caches)
  show ?case unfolding run_sub_nodes.simps
    by (rule replays_bind) (use "4.IH" in simp_all)
next
  case (6 mp root exclude nf ch path source index element es caches)
  show ?case unfolding map_elements.simps
    by (intro replays_sum_case replays_return replays_if replays_bind) (use "6.IH" in simp_all)
qed (auto simp: run_sub_nodes.simps map_elements.simps)

text \<open>A store that holds for every leaf of a subtree the list the leaf computes.\<close>

fun filled :: "keyed_options \<Rightarrow> caches \<Rightarrow> string list \<Rightarrow> mnode \<Rightarrow> bool" where
  "filled root full path (LeafChild l) = (full path = Some (getEffectiveNormalizers root l None))"
| "filled root full path (NodeChild nf ch) = list_all (\<lambda>(k, c). filled root full (path @ [k]) c) ch"

definition stays :: "caches \<Rightarrow> (caches \<Rightarrow> 'r \<times> caches) \<Rightarrow> caches \<Rightarrow> bool" where
  "stays full f caches \<longleftrightarrow> (caches \<subseteq>\<^sub>m full \<longrightarrow> snd (f caches) \<subseteq>\<^sub>m full)"

lemma stays_return [intro]: "stays full (\<lambda>caches. (x, caches)) caches"
  by (simp add: stays_def)

lemma stays_bind [intro]:
  assumes "stays full f caches" and "\<And>a caches1. f caches = (Inr a, caches1) \<Longrightarrow> stays full (g a) caches1"
  shows "stays full (\<lambda>caches. case f caches of (Inl e, c) \<Rightarrow> (Inl e, c) | (Inr a, c) \<Rightarrow> g a c) caches"
proof (cases "f caches")
  case (Pair r caches1)
  then show ?thesis using assms by (cases r) (auto simp: stays_def)
qed

lemma stays_cases [intro]:
  "(\<And>e. x = Inl e \<Longrightarrow> stays full (f e) caches) \<Longrightarrow> (\<And>a. x = Inr a \<Longrightarrow> stays full (g a) caches) \<Longrightarrow>
     stays full (\<lambda>caches. case x of Inl e \<Rightarrow> f e caches | Inr a \<Rightarrow> g a caches) caches"
  "(b \<Longrightarrow> stays full f1 caches) \<Longrightarrow> (\<not> b \<Longrightarrow> stays full g1 caches) \<Longrightarrow>
     stays full (\<lambda>caches. if b then f1 caches else g1 caches) caches"
  "(b \<Longrightarrow> stays full f1 caches) \<Longrightarrow> (\<not> b \<Longrightarrow> stays full g1 caches) \<Longrightarrow>
     stays full (\<lambda>caches. case b of True \<Rightarrow> f1 caches | False \<Rightarrow> g1 caches) caches"
  "(\<And>xs ps. v = DArray xs ps \<Longrightarrow> stays full (h xs) caches) \<Longrightarrow> stays full g1 caches \<Longrightarrow>
     stays full (\<lambda>caches. case v of DArray xs ps \<Rightarrow> h xs caches | _ \<Rightarrow> g1 caches) caches"
  unfolding stays_def by (auto split: sum.splits bool.splits dval.splits)

lemma stays_leaf:
  assumes "full path = Some (getEffectiveNormalizers root l None)"
  shows "stays full (map_leaf mp root l path s d) caches"
proof -
  have "caches path \<in> {None, Some (getEffectiveNormalizers root l None)}" if "caches \<subseteq>\<^sub>m full"
    using that assms by (auto simp: map_le_def dom_def)
  then show ?thesis
    using assms by (auto simp: stays_def map_leaf_def Let_def map_le_def split: sum.splits bool.splits)
qed

lemma stays_mapping:
  "filled root full path c \<Longrightarrow> stays full (map_child mp root ex c path s d) caches"
  "list_all (\<lambda>(k, c). filled root full (path @ [k]) c) cs \<Longrightarrow> stays full (run_sub_nodes mp root ex cs path s d) caches"
  "list_all (\<lambda>(k, c). filled root full (path @ [k]) c) ch \<Longrightarrow>
     stays full (map_elements mp root ex nf ch path s i es) caches"
proof (induction mp root ex c path s d caches and mp root ex cs path s d caches
    and mp root ex nf ch path s i es caches rule: map_child_run_sub_nodes_map_elements.induct)
  case (1 mp root exclude l path source destination caches)
  then show ?case using stays_leaf by (simp add: map_child.simps)
next
  case (2 mp root exclude nf ch path source destination caches)
  then have "list_all (\<lambda>(k, c). filled root full (path @ [k]) c) (in_order ch)"
    by (simp add: list_all_iff)
  with 2 show ?case unfolding map_child.simps Let_def
    by (intro stays_cases stays_return stays_bind) (simp_all add: Let_def)
next
  case (4 mp root exclude key node nodes path source destination caches)
  then show ?case unfolding run_sub_nodes.simps by (intro stays_bind) simp_all
next
  case (6 mp root exclude nf ch path source index element es caches)
  then have "list_all (\<lambda>(k, c). filled root full (path @ [k]) c) (in_order ch)"
    by (simp add: list_all_iff)
  with 6 show ?case unfolding map_elements.simps
    by (intro stays_cases stays_return stays_bind) simp_all
qed (auto simp: run_sub_nodes.simps map_elements.simps stays_def)

section \<open>Well-formed trees and coherent stores\<close>

text \<open>
  What \<open>addNode\<close> and the two constructors establish: a child is filed under its source
  property, both names are set, and leaves and nodes have a type of their own kind.
\<close>

fun wf_tree :: "mnode \<Rightarrow> bool" where
  "wf_tree (LeafChild l) \<longleftrightarrow> lf_type l \<in> {Leaf, ScalarArray} \<and> lf_destinationProperty l \<noteq> None"
| "wf_tree (NodeChild nf ch) \<longleftrightarrow> nf_type nf \<in> {Node, ObjectArray} \<and> nf_destinationProperty nf \<noteq> None \<and>
     wf_obj ch \<and> list_all (\<lambda>(k, c). child_source c = Some k \<and> wf_tree c) ch"

definition wf_nodes :: "(string \<times> mnode) list \<Rightarrow> bool" where
  "wf_nodes ns \<longleftrightarrow> wf_obj ns \<and> list_all (\<lambda>(k, c). child_source c = Some k \<and> wf_tree c) ns"

text \<open>The node at a path of keys.\<close>

fun node_at :: "(string \<times> mnode) list \<Rightarrow> string list \<Rightarrow> mnode option" where
  "node_at ns [] = None"
| "node_at ns (k # ks) =
     (case map_of ns k of
        None \<Rightarrow> None
      | Some c \<Rightarrow> if ks = [] then Some c else (case c of LeafChild _ \<Rightarrow> None | NodeChild nf ch \<Rightarrow> node_at ch ks))"

definition coherent :: "builder \<Rightarrow> bool" where
  "coherent b \<longleftrightarrow> (\<forall>path l ns. node_at (bd_nodes b) path = Some (LeafChild l) \<longrightarrow> bd_caches b path = Some ns \<longrightarrow>
     ns = getEffectiveNormalizers (bd_normalizers b) l None)"

lemma node_at_snoc: "node_at ns path = Some (NodeChild nf ch) \<Longrightarrow> map_of ch k = Some c \<Longrightarrow> node_at ns (path @ [k]) = Some c"
proof (induction ns path rule: node_at.induct)
  case (2 ns k' ks)
  show ?case
  proof (cases "map_of ns k'")
    case (Some c')
    with 2 show ?thesis by (cases c'; cases "ks = []") auto
  qed (use 2 in simp)
qed simp

lemma filled_at:
  assumes full: "\<And>p l. node_at ns p = Some (LeafChild l) \<Longrightarrow> full p = Some (getEffectiveNormalizers root l None)"
  shows "node_at ns path = Some c \<Longrightarrow> wf_tree c \<Longrightarrow> filled root full path c"
proof (induction c arbitrary: path rule: wf_tree.induct)
  case (1 l)
  then show ?case using full by simp
next
  case (2 nf ch)
  show ?case unfolding filled.simps list_all_iff
  proof (clarify)
    fix k c assume kc: "(k, c) \<in> set ch"
    with 2 have "map_of ch k = Some c" and "wf_tree c" by (auto simp: wf_obj_def list_all_iff)
    with 2 kc show "filled root full (path @ [k]) c" using node_at_snoc by (metis case_prodI)
  qed
qed

text \<open>A store that extends what is there with the list of every leaf.\<close>

definition full_store :: "builder \<Rightarrow> caches" where
  "full_store b path = (case node_at (bd_nodes b) path of
     Some (LeafChild l) \<Rightarrow> Some (getEffectiveNormalizers (bd_normalizers b) l None)
   | _ \<Rightarrow> bd_caches b path)"

lemma full_store_filled:
  assumes "wf_nodes (bd_nodes b)"
  shows "list_all (\<lambda>(k, c). filled (bd_normalizers b) (full_store b) ([] @ [k]) c) (in_order (bd_nodes b))"
proof -
  have "filled (bd_normalizers b) (full_store b) [k] c" if "(k, c) \<in> set (bd_nodes b)" for k c
  proof (rule filled_at)
    show "node_at (bd_nodes b) [k] = Some c" and "wf_tree c"
      using that assms by (auto simp: wf_nodes_def wf_obj_def list_all_iff)
  qed (simp add: full_store_def)
  then show ?thesis by (auto simp: list_all_iff)
qed

lemma coherent_iff: "coherent b \<longleftrightarrow> bd_caches b \<subseteq>\<^sub>m full_store b"
  by (force simp: coherent_def full_store_def map_le_def dom_def split: option.splits mnode.splits)

section \<open>The memoized lists are transparent\<close>

lemma mapping_nodes:
  "bd_nodes (snd (DataMapper_map mp b s t x)) = bd_nodes b"
  "bd_normalizers (snd (DataMapper_map mp b s t x)) = bd_normalizers b"
  by (auto simp: DataMapper_map_def split: sum.splits prod.splits)

lemma run_on_full_store:
  assumes "wf_nodes (bd_nodes b)" and "caches \<subseteq>\<^sub>m full_store b"
  shows "fst (run_sub_nodes mp (bd_normalizers b) ex (in_order (bd_nodes b)) [] s d caches) =
      fst (run_sub_nodes mp (bd_normalizers b) ex (in_order (bd_nodes b)) [] s d (full_store b))"
    and "snd (run_sub_nodes mp (bd_normalizers b) ex (in_order (bd_nodes b)) [] s d caches) \<subseteq>\<^sub>m full_store b"
proof -
  let ?run = "run_sub_nodes mp (bd_normalizers b) ex (in_order (bd_nodes b)) [] s d"
  show le: "snd (?run caches) \<subseteq>\<^sub>m full_store b"
    using stays_mapping(2) [OF full_store_filled [OF assms(1)]] assms(2) by (simp add: stays_def)
  then show "fst (?run caches) = fst (?run (full_store b))"
    using replays_mapping(2) [of mp ex "in_order (bd_nodes b)" "[]" s d "bd_normalizers b" caches]
    by (simp add: replays_def)
qed

text \<open>What a map does, over the outcome of the run through the top-level children.\<close>

definition finish_map :: "mapper \<Rightarrow> builder \<Rightarrow> dest_type option \<Rightarrow> thrown + dval \<Rightarrow> thrown + dval" where
  "finish_map mp b t r = sum_bind r (\<lambda>d.
     sum_bind (run_chain (intercept_step mp di_afterMapping) (bd_afterMappingInterceptors b) d) (\<lambda>d.
       case t of None \<Rightarrow> Inr d | Some t \<Rightarrow> dm_plainToInstance mp t d))"

lemma DataMapper_map_run:
  "fst (DataMapper_map mp b s t x) =
     sum_bind (run_chain (intercept_step mp di_beforeMapping) (bd_beforeMappingInterceptors b) s) (\<lambda>s'.
       finish_map mp b t (fst (run_sub_nodes mp (bd_normalizers b) (x = Some True) (in_order (bd_nodes b)) [] s'
         (DObject (initial_properties x s)) (bd_caches b))))"
  "bd_caches (snd (DataMapper_map mp b s t x)) =
     (case run_chain (intercept_step mp di_beforeMapping) (bd_beforeMappingInterceptors b) s of
        Inl e \<Rightarrow> bd_caches b
      | Inr s' \<Rightarrow> snd (run_sub_nodes mp (bd_normalizers b) (x = Some True) (in_order (bd_nodes b)) [] s'
         (DObject (initial_properties x s)) (bd_caches b)))"
  by (auto simp: DataMapper_map_def finish_map_def sum_bind_def split: sum.splits prod.splits)

lemma memoization_transparent:
  assumes "wf_nodes (bd_nodes b)" and "coherent b"
  shows "fst (DataMapper_map mp b s t x) = fst (DataMapper_map mp (b\<lparr>bd_caches := (\<lambda>_. None)\<rparr>) s t x)"
    and "coherent (snd (DataMapper_map mp b s t x))"
proof -
  have le: "bd_caches b \<subseteq>\<^sub>m full_store b" using assms(2) by (simp add: coherent_iff)
  have "fst (run_sub_nodes mp (bd_normalizers b) ex (in_order (bd_nodes b)) [] s' d (bd_caches b)) =
      fst (run_sub_nodes mp (bd_normalizers b) ex (in_order (bd_nodes b)) [] s' d (\<lambda>_. None))" for ex s' d
    using run_on_full_store(1) [OF assms(1) le] run_on_full_store(1) [OF assms(1) map_le_empty] by simp
  then show "fst (DataMapper_map mp b s t x) = fst (DataMapper_map mp (b\<lparr>bd_caches := (\<lambda>_. None)\<rparr>) s t x)"
    by (simp add: DataMapper_map_run finish_map_def)
  have "bd_caches (snd (DataMapper_map mp b s t x)) \<subseteq>\<^sub>m full_store b"
    using le run_on_full_store(2) [OF assms(1) le] by (simp add: DataMapper_map_run(2) split: sum.split)
  then show "coherent (snd (DataMapper_map mp b s t x))"
    by (force simp: coherent_def mapping_nodes full_store_def map_le_def dom_def)
qed

text \<open>
  Claim C18. On a builder whose memoized lists are current, a map gives what it gives with no list
  memoized, and it leaves the lists current.
\<close>

theorem memoization_is_transparent:
  assumes "wf_nodes (bd_nodes b)" and "coherent b"
  shows "fst (DataMapper_map mp b s t x) = fst (DataMapper_map mp (b\<lparr>bd_caches := (\<lambda>_. None)\<rparr>) s t x) \<and>
    coherent (snd (DataMapper_map mp b s t x))"
  using memoization_transparent [OF assms] by simp

text \<open>
  A normalizer that is added to the builder after a map has no effect on mapping the same source
  again: every leaf that took part still uses its memoized list.
\<close>

theorem late_normalizer_is_ignored:
  assumes "DataMapper_map mp b s t x = (r, b1)" and "builder_addNormalizer key options b1 = Inr b2"
  shows "fst (DataMapper_map mp b2 s t x) = r"
proof -
  from assms(2) have b2: "b2 = b1\<lparr>bd_normalizers := bd_normalizers b1 @ [(key, options)]\<rparr>"
    by (simp add: builder_addNormalizer_def split: if_splits)
  have b1: "b1 = snd (DataMapper_map mp b s t x)" and r: "r = fst (DataMapper_map mp b s t x)"
    using assms(1) by simp_all
  have same: "b1 = b\<lparr>bd_caches := bd_caches b1\<rparr>"
    using assms(1) by (auto simp: DataMapper_map_def split: sum.splits prod.splits)
  show ?thesis
  proof (cases "run_chain (intercept_step mp di_beforeMapping) (bd_beforeMappingInterceptors b) s")
    case (Inl e)
    have "bd_beforeMappingInterceptors b2 = bd_beforeMappingInterceptors b"
      by (subst b2, subst same) simp
    with Inl show ?thesis by (simp add: r DataMapper_map_run)
  next
    case (Inr s')
    let ?run = "\<lambda>root. run_sub_nodes mp root (x = Some True) (in_order (bd_nodes b)) [] s' (DObject (initial_properties x s))"
    have "bd_caches b1 = snd (?run (bd_normalizers b) (bd_caches b))"
      by (simp add: b1 DataMapper_map_run(2) Inr)
    then have "fst (?run (bd_normalizers b2) (bd_caches b1)) = fst (?run (bd_normalizers b) (bd_caches b))"
      using replays_mapping(2) [of mp "x = Some True" "in_order (bd_nodes b)" "[]" s' "DObject (initial_properties x s)"
        "bd_normalizers b" "bd_caches b"] by (simp add: replays_def)
    moreover have "bd_beforeMappingInterceptors b2 = bd_beforeMappingInterceptors b" and "bd_nodes b2 = bd_nodes b"
      and "bd_afterMappingInterceptors b2 = bd_afterMappingInterceptors b" and "bd_caches b2 = bd_caches b1"
      by (subst b2, subst same, simp)+
    ultimately show ?thesis by (simp add: r DataMapper_map_run Inr finish_map_def)
  qed
qed

section \<open>The children of a node do not influence each other\<close>

text \<open>What a child writes for a source, from mapping it alone onto an empty object.\<close>

definition written :: "mapper \<Rightarrow> builder \<Rightarrow> bool \<Rightarrow> dval \<Rightarrow> string \<times> mnode \<Rightarrow> thrown + (string \<times> dval) list" where
  "written mp b exclude source child =
     sum_bind (fst (map_child mp (bd_normalizers b) exclude (snd child) [fst child] source (DObject []) (\<lambda>_. None)))
       (\<lambda>d. Inr (own_copy d))"

lemma merge_small [simp]: "obj_merge ob [] = ob" "obj_merge ob [(k, v)] = obj_set k v ob"
  by (simp_all add: obj_merge_def)

lemma own_copy_small [simp]: "own_copy (DObject []) = []" "own_copy (DObject [(k, v)]) = [(k, v)]"
  by (simp_all add: own_copy_def obj_keys_def get_own_def)

lemma leaf_on_object:
  "map_leaf mp root l path s (DObject ob) caches =
     (sum_bind (fst (map_leaf mp root l path s (DObject []) caches)) (\<lambda>d. Inr (DObject (obj_merge ob (own_copy d)))),
      snd (map_leaf mp root l path s (DObject []) caches))"
  by (auto simp: map_leaf_def Let_def sum_bind_def split: sum.splits bool.splits dval.splits)

lemma child_on_object:
  "map_child mp root ex c path s (DObject ob) caches =
     (sum_bind (fst (map_child mp root ex c path s (DObject []) caches)) (\<lambda>d. Inr (DObject (obj_merge ob (own_copy d)))),
      snd (map_child mp root ex c path s (DObject []) caches))"
proof (cases c)
  case (LeafChild l)
  then show ?thesis using leaf_on_object [of mp root l path s ob caches] by (simp add: map_child.simps)
next
  case (NodeChild nf ch)
  show ?thesis
  proof (cases "hasOwnProperty s (prop_name (nf_sourceProperty nf)) = Inr True")
    case True
    then show ?thesis
      by (cases "get_own s (prop_name (nf_sourceProperty nf))")
        (simp_all add: NodeChild map_child.simps Let_def split: sum.split prod.split)
  next
    case False
    then show ?thesis
      by (cases "hasOwnProperty s (prop_name (nf_sourceProperty nf))") (simp_all add: NodeChild map_child.simps Let_def)
  qed
qed

lemma child_on_full_store:
  assumes "filled root full path c"
  shows "map_child mp root ex c path s d full = (fst (map_child mp root ex c path s d (\<lambda>_. None)), full)"
proof -
  have "snd (map_child mp root ex c path s d (\<lambda>_. None)) \<subseteq>\<^sub>m full"
    using stays_mapping(1) [OF assms] by (simp add: stays_def)
  then show ?thesis
    using replays_mapping(1) [of mp ex c path s d root "\<lambda>_. None"] by (simp add: replays_def)
qed

lemma run_on_object:
  assumes "list_all (\<lambda>(k, c). filled (bd_normalizers b) full ([] @ [k]) c) cs"
  shows "run_sub_nodes mp (bd_normalizers b) ex cs [] s (DObject ob) full =
    (sum_bind (run_chain (\<lambda>child ob. sum_bind (written mp b ex s child) (\<lambda>new. Inr (obj_merge ob new))) cs ob)
      (\<lambda>ob. Inr (DObject ob)), full)"
  using assms
proof (induction cs arbitrary: ob)
  case Nil
  then show ?case by (simp add: run_sub_nodes.simps)
next
  case (Cons kc cs)
  obtain k c where kc: "kc = (k, c)" by (cases kc)
  with Cons.prems have "filled (bd_normalizers b) full [k] c" by simp
  from child_on_full_store [OF this, of mp ex s "DObject ob"]
  have "map_child mp (bd_normalizers b) ex c [k] s (DObject ob) full =
      (sum_bind (written mp b ex s (k, c)) (\<lambda>new. Inr (DObject (obj_merge ob new))), full)"
    by (simp add: written_def child_on_object [of _ _ _ _ _ _ ob] sum_bind_def split: sum.splits)
  with Cons show ?case
    by (cases "written mp b ex s (k, c)") (simp_all add: kc run_sub_nodes.simps)
qed

text \<open>
  The outcome of a map is the fold of what each child writes alone, in property order, over the
  initial destination: the first child that fails decides the error.
\<close>

theorem children_are_independent:
  assumes "wf_nodes (bd_nodes b)" and "coherent b" and "bd_beforeMappingInterceptors b = []"
  shows "fst (DataMapper_map mp b s t x) =
    finish_map mp b t (sum_bind
      (run_chain (\<lambda>child ob. sum_bind (written mp b (x = Some True) s child) (\<lambda>new. Inr (obj_merge ob new)))
        (in_order (bd_nodes b)) (initial_properties x s))
      (\<lambda>ob. Inr (DObject ob)))"
proof -
  have le: "bd_caches b \<subseteq>\<^sub>m full_store b" using assms(2) by (simp add: coherent_iff)
  show ?thesis
    using run_on_full_store(1) [OF assms(1) le] run_on_object [OF full_store_filled [OF assms(1)]]
    by (simp add: DataMapper_map_run assms(3))
qed

lemma child_writes_destination:
  "fst (map_child mp root ex c path s (DObject []) caches) = Inr d \<Longrightarrow>
     d = DObject [] \<or> (\<exists>v. d = DObject [(prop_name (child_destination c), v)])"
proof (cases c)
  case (LeafChild l)
  assume "fst (map_child mp root ex c path s (DObject []) caches) = Inr d"
  then show ?thesis
    by (auto simp: LeafChild map_child.simps map_leaf_def Let_def sum_bind_Inr_conv
        split: sum.splits bool.splits if_splits dval.splits)
next
  case (NodeChild nf ch)
  assume r: "fst (map_child mp root ex c path s (DObject []) caches) = Inr d"
  show ?thesis
  proof (cases "hasOwnProperty s (prop_name (nf_sourceProperty nf)) = Inr True")
    case True
    with r show ?thesis
      by (cases "get_own s (prop_name (nf_sourceProperty nf))")
        (auto simp: NodeChild map_child.simps Let_def split: sum.splits prod.splits if_splits)
  next
    case False
    with r show ?thesis
      by (cases "hasOwnProperty s (prop_name (nf_sourceProperty nf))")
        (auto simp: NodeChild map_child.simps Let_def split: if_splits)
  qed
qed

lemma written_keys:
  "written mp b ex s (k, c) = Inr new \<Longrightarrow> new = [] \<or> (\<exists>v. new = [(prop_name (child_destination c), v)])"
  by (auto simp: written_def sum_bind_Inr_conv dest: child_writes_destination)

text \<open>Folding what the children write: a property has the value its only writer gave it.\<close>

lemma fold_written:
  assumes "run_chain (\<lambda>child ob. sum_bind (out child) (\<lambda>new. Inr (obj_merge ob new))) cs ob0 = Inr ob"
    and "\<And>child new. child \<in> set cs \<Longrightarrow> out child = Inr new \<Longrightarrow> new = [] \<or> (\<exists>v. new = [(dest child, v)])"
    and "distinct (map dest cs)"
  shows "(\<forall>child \<in> set cs. \<exists>new. out child = Inr new \<and>
      map_of ob (dest child) = (case new of [] \<Rightarrow> map_of ob0 (dest child) | kv # _ \<Rightarrow> Some (snd kv))) \<and>
    (\<forall>x. x \<notin> dest ` set cs \<longrightarrow> map_of ob x = map_of ob0 x)"
  using assms
proof (induction cs arbitrary: ob0)
  case (Cons child cs)
  from Cons.prems(1) obtain new where new: "out child = Inr new"
    and rest: "run_chain (\<lambda>child ob. sum_bind (out child) (\<lambda>new. Inr (obj_merge ob new))) cs (obj_merge ob0 new) = Inr ob"
    by (auto simp: sum_bind_def split: sum.splits)
  from Cons.prems(2) [OF _ new] have shape: "new = [] \<or> (\<exists>v. new = [(dest child, v)])" by simp
  note IH = Cons.IH [OF rest]
  have fresh: "dest child \<notin> dest ` set cs" and dist: "distinct (map dest cs)" using Cons.prems(3) by auto
  have other: "x \<noteq> dest child \<Longrightarrow> map_of (obj_merge ob0 new) x = map_of ob0 x" for x
    using shape by (auto simp: update_conv')
  have ih: "(\<forall>child \<in> set cs. \<exists>new'. out child = Inr new' \<and>
      map_of ob (dest child) = (case new' of [] \<Rightarrow> map_of (obj_merge ob0 new) (dest child) | kv # _ \<Rightarrow> Some (snd kv))) \<and>
    (\<forall>x. x \<notin> dest ` set cs \<longrightarrow> map_of ob x = map_of (obj_merge ob0 new) x)"
    using IH Cons.prems(2) dist by (meson list.set_intros(2))
  show ?case
  proof (intro conjI ballI)
    fix c assume c: "c \<in> set (child # cs)"
    show "\<exists>new. out c = Inr new \<and>
      map_of ob (dest c) = (case new of [] \<Rightarrow> map_of ob0 (dest c) | kv # _ \<Rightarrow> Some (snd kv))"
    proof (cases "c = child")
      case True
      have "map_of ob (dest child) = map_of (obj_merge ob0 new) (dest child)" using ih fresh by blast
      with True new shape show ?thesis by (auto simp: update_conv')
    next
      case False
      with c have mem: "c \<in> set cs" by simp
      with fresh have "dest c \<noteq> dest child" by (metis imageI)
      with ih mem other show ?thesis by (metis (no_types, lifting))
    qed
  next
    show "\<forall>x. x \<notin> dest ` set (child # cs) \<longrightarrow> map_of ob x = map_of ob0 x" using ih other by simp
  qed
qed simp

definition child_dest :: "string \<times> mnode \<Rightarrow> string" where
  "child_dest kc = prop_name (child_destination (snd kc))"

lemma mapped_object:
  assumes "wf_nodes (bd_nodes b)" and "coherent b" and "bd_beforeMappingInterceptors b = []"
    and "bd_afterMappingInterceptors b = []" and "distinct (map child_dest (bd_nodes b))"
    and "fst (DataMapper_map mp b s None x) = Inr d"
  obtains ob where "d = DObject ob"
    and "\<And>kc. kc \<in> set (bd_nodes b) \<Longrightarrow> \<exists>new. written mp b (x = Some True) s kc = Inr new \<and>
      map_of ob (child_dest kc) =
        (case new of [] \<Rightarrow> map_of (initial_properties x s) (child_dest kc) | kv # _ \<Rightarrow> Some (snd kv))"
    and "\<And>y. y \<notin> child_dest ` set (bd_nodes b) \<Longrightarrow> map_of ob y = map_of (initial_properties x s) y"
proof -
  let ?w = "written mp b (x = Some True) s"
  from assms(6) children_are_independent [OF assms(1,2,3), of mp s None x] assms(4)
  obtain ob where d: "d = DObject ob"
    and run: "run_chain (\<lambda>child ob. sum_bind (?w child) (\<lambda>new. Inr (obj_merge ob new)))
      (in_order (bd_nodes b)) (initial_properties x s) = Inr ob"
    by (auto simp: finish_map_def sum_bind_Inr_conv)
  have "mset (map child_dest (in_order (bd_nodes b))) = mset (map child_dest (bd_nodes b))"
    by (simp only: mset_map mset_in_order)
  then have dist: "distinct (map child_dest (in_order (bd_nodes b)))" using assms(5) mset_eq_imp_distinct_iff by blast
  have shape: "new = [] \<or> (\<exists>v. new = [(child_dest kc, v)])" if "?w kc = Inr new" for kc new
    using that written_keys by (cases kc) (auto simp: child_dest_def)
  from fold_written [OF run shape dist] have "(\<forall>child \<in> set (in_order (bd_nodes b)). \<exists>new. ?w child = Inr new \<and>
      map_of ob (child_dest child) = (case new of [] \<Rightarrow> map_of (initial_properties x s) (child_dest child) | kv # _ \<Rightarrow> Some (snd kv))) \<and>
    (\<forall>y. y \<notin> child_dest ` set (in_order (bd_nodes b)) \<longrightarrow> map_of ob y = map_of (initial_properties x s) y)" by simp
  then show thesis using that [OF d] by simp
qed

section \<open>What a mapped object holds\<close>

lemma own_has: "own_property s k = Some v \<Longrightarrow> hasOwnProperty s k = Inr True \<and> get_own s k = v"
  by (cases s) (auto simp: hasOwnProperty_def get_own_def)

lemma wf_child_source: "wf_nodes ns \<Longrightarrow> (k, c) \<in> set ns \<Longrightarrow> prop_name (child_source c) = k"
  by (auto simp: wf_nodes_def list_all_iff prop_name_def split: option.splits)

lemma no_initial_properties [simp]: "initial_properties None s = []"
  by (simp add: initial_properties_def)


text \<open>
  Without the option, properties the schema does not name are dropped at the top level, while a
  nested object keeps all of its own: the default of the option is only applied below the top.
\<close>

theorem omitted_option_is_inconsistent:
  assumes "wf_nodes (bd_nodes b)" and "coherent b" and "bd_beforeMappingInterceptors b = []"
    and "bd_afterMappingInterceptors b = []" and "distinct (map child_dest (bd_nodes b))"
    and "fst (DataMapper_map mp b s None None) = Inr d"
    and "(k, NodeChild nf []) \<in> set (bd_nodes b)" and "nf_type nf = Node" and "nf_destinationType nf = None"
    and "own_property s k = Some (DObject inner)" and "y \<notin> child_dest ` set (bd_nodes b)"
  shows "own_property d y = None \<and>
    own_property d (prop_name (nf_destinationProperty nf)) = Some (DObject (own_copy (DObject inner)))"
proof -
  from mapped_object [OF assms(1-6)] obtain ob where d: "d = DObject ob"
    and children: "\<And>kc. kc \<in> set (bd_nodes b) \<Longrightarrow> \<exists>new. written mp b (None = Some True) s kc = Inr new \<and>
      map_of ob (child_dest kc) = (case new of [] \<Rightarrow> map_of (initial_properties None s) (child_dest kc) | kv # _ \<Rightarrow> Some (snd kv))"
    and others: "\<And>y. y \<notin> child_dest ` set (bd_nodes b) \<Longrightarrow> map_of ob y = map_of (initial_properties None s) y"
    by blast
  from children [OF assms(7)] obtain new where "written mp b False s (k, NodeChild nf []) = Inr new"
    and "map_of ob (child_dest (k, NodeChild nf [])) = (case new of
      [] \<Rightarrow> map_of (initial_properties None s) (child_dest (k, NodeChild nf [])) | kv # _ \<Rightarrow> Some (snd kv))"
    by auto
  moreover have "map_of ob y = None" using others [OF assms(11)] by simp
  moreover have "prop_name (nf_sourceProperty nf) = k" using wf_child_source [OF assms(1,7)] by simp
  ultimately show ?thesis
    using own_has [OF assms(10)] assms(8,9)
    by (auto simp: written_def map_child.simps run_sub_nodes.simps buildDestinationObject_def is_object_def
        in_order_def sum_bind_Inr_conv child_dest_def Let_def d)
qed

text \<open>An array keeps its length, its order and the positions of its null elements.\<close>

lemma put_not_null: "put k v d = Inr d' \<Longrightarrow> d' \<noteq> DNull"
  by (cases d) (auto simp: Let_def split: if_splits)

lemma mapping_not_null:
  "d \<noteq> DNull \<Longrightarrow> fst (map_child mp root ex c path s d caches) = Inr r \<Longrightarrow> r \<noteq> DNull"
  "d \<noteq> DNull \<Longrightarrow> fst (run_sub_nodes mp root ex cs path s d caches) = Inr r \<Longrightarrow> r \<noteq> DNull"
proof -
  have child: "r \<noteq> DNull" if "d \<noteq> DNull" and r: "fst (map_child mp root ex c path s d caches) = Inr r"
    for d r c path caches
  proof (cases c)
    case (LeafChild l)
    with that show ?thesis
      by (auto simp: map_child.simps map_leaf_def Let_def sum_bind_Inr_conv dest: put_not_null
          split: sum.splits bool.splits if_splits dval.splits)
  next
    case (NodeChild nf ch)
    with that show ?thesis
      by (cases "get_own s (prop_name (nf_sourceProperty nf))")
        (auto simp: map_child.simps Let_def dest: put_not_null split: sum.splits bool.splits prod.splits if_splits)
  qed
  then show "d \<noteq> DNull \<Longrightarrow> fst (map_child mp root ex c path s d caches) = Inr r \<Longrightarrow> r \<noteq> DNull" by blast
  show "d \<noteq> DNull \<Longrightarrow> fst (run_sub_nodes mp root ex cs path s d caches) = Inr r \<Longrightarrow> r \<noteq> DNull"
  proof (induction cs arbitrary: d caches)
    case (Cons kc cs)
    obtain k c where kc: "kc = (k, c)" by (cases kc)
    show ?case
    proof (cases "map_child mp root ex c (path @ [k]) s d caches")
      case (Pair res caches1)
      with Cons child [of d c "path @ [k]" caches] show ?thesis
        by (cases res) (auto simp: kc run_sub_nodes.simps)
    qed
  qed (simp add: run_sub_nodes.simps)
qed

lemma elements_keep_positions:
  assumes "\<And>c v w. dm_plainToInstance mp c v = Inr w \<Longrightarrow> w \<noteq> DNull"
  shows "fst (map_elements mp root ex nf ch path s i es caches) = Inr ds \<Longrightarrow>
    length ds = length es \<and> list_all2 (\<lambda>e d. d = DNull \<longleftrightarrow> e = DNull) es ds"
proof (induction es arbitrary: i caches ds)
  case (Cons e es)
  show ?case
  proof (cases "e = DNull")
    case True
    with Cons.prems obtain ds' c1
      where rest: "map_elements mp root ex nf ch path s (Suc i) es caches = (Inr ds', c1)" and ds: "ds = DNull # ds'"
      by (auto simp: map_elements.simps split: prod.splits sum.splits)
    with Cons.IH [of "Suc i" caches ds'] True show ?thesis by simp
  next
    case False
    with Cons.prems obtain dest dt c1 ds' c2
      where dest: "buildArrayMemberDestination mp nf s e i (\<not> ex) = Inr dest"
        and run: "run_sub_nodes mp root ex (in_order ch) path e dest caches = (Inr dt, c1)"
        and rest: "map_elements mp root ex nf ch path s (Suc i) es c1 = (Inr ds', c2)" and ds: "ds = dt # ds'"
      by (auto simp: map_elements.simps split: prod.splits sum.splits)
    have "dest \<noteq> DNull"
      using dest assms by (auto simp: buildArrayMemberDestination_def Let_def sum_bind_Inr_conv split: option.splits)
    then have "dt \<noteq> DNull" using mapping_not_null(2) run by (metis fst_conv)
    with Cons.IH [of "Suc i" c1 ds'] rest ds False show ?thesis by simp
  qed
qed (simp add: map_elements.simps)

theorem array_keeps_positions:
  assumes "wf_nodes (bd_nodes b)" and "coherent b" and "bd_beforeMappingInterceptors b = []"
    and "bd_afterMappingInterceptors b = []" and "distinct (map child_dest (bd_nodes b))"
    and "fst (DataMapper_map mp b s None x) = Inr d"
    and "(k, NodeChild nf ch) \<in> set (bd_nodes b)" and "nf_type nf = ObjectArray"
    and "own_property s k = Some (DArray es ps)"
    and "\<And>c v w. dm_plainToInstance mp c v = Inr w \<Longrightarrow> w \<noteq> DNull"
  shows "\<exists>ds. own_property d (prop_name (nf_destinationProperty nf)) = Some (DArray ds []) \<and>
    list_all2 (\<lambda>e d. d = DNull \<longleftrightarrow> e = DNull) es ds"
proof -
  obtain ob new where d: "d = DObject ob" and new: "written mp b (x = Some True) s (k, NodeChild nf ch) = Inr new"
    and get: "map_of ob (child_dest (k, NodeChild nf ch)) =
      (case new of [] \<Rightarrow> map_of (initial_properties x s) (child_dest (k, NodeChild nf ch)) | kv # _ \<Rightarrow> Some (snd kv))"
    using mapped_object [OF assms(1-6)] assms(7) by metis
  have sp: "prop_name (nf_sourceProperty nf) = k" using wf_child_source [OF assms(1,7)] by simp
  let ?els = "map_elements mp (bd_normalizers b) (x = Some True) nf ch [k] s 0 es (\<lambda>_. None)"
  from new obtain ds where els: "fst ?els = Inr ds" and w: "new = [(prop_name (nf_destinationProperty nf), DArray ds [])]"
    using own_has [OF assms(9)] assms(8) sp
    by (cases ?els) (auto simp: written_def map_child.simps sum_bind_Inr_conv split: sum.splits)
  show ?thesis
    using elements_keep_positions [OF assms(10) els] get w by (auto simp: d child_dest_def)
qed

section \<open>The theorems on the sample\<close>

lemmas sample_simps = sample_builder_def sample_nodes_def sample_leaf_def sample_node_def sample_source_def
  sample_mapper_def new_DataMapper_def new_DataMappingBuilder_def

lemma sample_ok [simp]:
  "wf_nodes (bd_nodes sample_builder)" "coherent sample_builder"
  "bd_beforeMappingInterceptors sample_builder = []" "bd_afterMappingInterceptors sample_builder = []"
  "distinct (map child_dest (bd_nodes sample_builder))"
  by (simp_all add: sample_simps wf_nodes_def wf_obj_def coherent_def child_dest_def prop_name_def)

lemmas map_simps = DataMapper_map_def map_child.simps run_sub_nodes.simps map_elements.simps map_leaf_def
  prop_name_def hasOwnProperty_def get_own_def buildDestinationObject_def buildArrayMemberDestination_def
  is_object_def in_order_def is_index_key_def own_copy_def obj_keys_def getEffectiveNormalizers_def
  initial_properties_def

lemma sample_mapped:
  "fst (DataMapper_map sample_mapper sample_builder sample_source None None) =
     Inr (DObject [(''fullName'', DString ''Ann!''), (''addr'', DObject [(''city'', DString ''Oslo'')]),
       (''labels'', DArray [DObject [(''t'', DString ''a''), (''text'', DString ''a'')], DNull] [])])"
  by (simp add: sample_simps map_simps is_digit_def Let_def)

theorem memoization_is_transparent_witness:
  "fst (DataMapper_map sample_mapper (snd (DataMapper_map sample_mapper sample_builder sample_source None None))
     sample_source None None) = fst (DataMapper_map sample_mapper sample_builder sample_source None None) \<and>
   coherent (snd (DataMapper_map sample_mapper sample_builder sample_source None None)) \<and>
   bd_caches (snd (DataMapper_map sample_mapper sample_builder sample_source None None)) [''name''] = Some [(''BANG'', DUndefined)]"
proof -
  let ?b1 = "snd (DataMapper_map sample_mapper sample_builder sample_source None None)"
  have first: "coherent ?b1"
    using memoization_is_transparent [OF sample_ok(1,2)] by blast
  have same: "?b1\<lparr>bd_caches := (\<lambda>_. None)\<rparr> = sample_builder"
    by (simp add: sample_simps map_simps is_digit_def Let_def)
  have wf: "wf_nodes (bd_nodes ?b1)" by (simp add: mapping_nodes)
  have "bd_caches ?b1 [''name''] = Some [(''BANG'', DUndefined)]"
    by (simp add: sample_simps map_simps is_digit_def Let_def)
  with memoization_is_transparent [OF wf first, of sample_mapper sample_source None None] first same show ?thesis by simp
qed

theorem late_normalizer_is_ignored_witness:
  "\<exists>b2. builder_addNormalizer ''MARK'' DUndefined
      (snd (DataMapper_map sample_mapper sample_builder sample_source None None)) = Inr b2 \<and>
    bd_normalizers b2 = [(''MARK'', DUndefined)] \<and>
    fst (DataMapper_map sample_mapper b2 sample_source None None) =
      fst (DataMapper_map sample_mapper sample_builder sample_source None None)"
proof -
  let ?m = "DataMapper_map sample_mapper sample_builder sample_source None None"
  obtain b2 where b2: "builder_addNormalizer ''MARK'' DUndefined (snd ?m) = Inr b2" and "bd_normalizers b2 = [(''MARK'', DUndefined)]"
    by (simp add: builder_addNormalizer_def mapping_nodes has_key_def sample_builder_def new_DataMappingBuilder_def)
  with late_normalizer_is_ignored [OF prod.collapse [symmetric] b2] show ?thesis by blast
qed


theorem omitted_option_is_inconsistent_witness:
  "\<exists>d. fst (DataMapper_map sample_mapper sample_builder sample_source None None) = Inr d \<and>
    own_property d ''age'' = None \<and> own_property d ''addr'' = Some (DObject [(''city'', DString ''Oslo'')]) \<and>
    own_property sample_source ''age'' = Some (DNumber ''7'')"
proof -
  have "(''address'', NodeChild (sample_node Node ''address'' ''addr'') []) \<in> set (bd_nodes sample_builder)"
    and "nf_type (sample_node Node ''address'' ''addr'') = Node"
    and "nf_destinationType (sample_node Node ''address'' ''addr'') = None"
    and "own_property sample_source ''address'' = Some (DObject [(''city'', DString ''Oslo'')])"
    and "''age'' \<notin> child_dest ` set (bd_nodes sample_builder)"
    by (simp_all add: sample_simps child_dest_def prop_name_def)
  from omitted_option_is_inconsistent [OF sample_ok sample_mapped this] show ?thesis
    by (simp add: sample_mapped) (simp add: sample_simps)
qed

theorem array_keeps_positions_witness:
  "\<exists>d ds. fst (DataMapper_map sample_mapper sample_builder sample_source None None) = Inr d \<and>
    own_property d ''labels'' = Some (DArray ds []) \<and>
    list_all2 (\<lambda>e d. d = DNull \<longleftrightarrow> e = DNull) [DObject [(''t'', DString ''a'')], DNull] ds"
proof -
  let ?ch = "[(''t'', LeafChild (sample_leaf\<lparr>lf_sourceProperty := Some ''t'', lf_destinationProperty := Some ''text'',
    lf_normalizers := []\<rparr>))]"
  have "(''tags'', NodeChild (sample_node ObjectArray ''tags'' ''labels'') ?ch) \<in> set (bd_nodes sample_builder)"
    and "nf_type (sample_node ObjectArray ''tags'' ''labels'') = ObjectArray"
    and "own_property sample_source ''tags'' = Some (DArray [DObject [(''t'', DString ''a'')], DNull] [])"
    and "dm_plainToInstance sample_mapper c v = Inr w \<Longrightarrow> w \<noteq> DNull" for c v w
    by (auto simp: sample_simps)
  from array_keeps_positions [OF sample_ok sample_mapped this] show ?thesis
    by (simp add: sample_mapped sample_node_def prop_name_def)
qed

end
