(* ===== verification/Data_Mapping_Schema.thy ===== *)
theory Data_Mapping_Schema
  imports Data_Mapping_Properties
begin

text \<open>
  Schemas: the trees the fluent methods build are well formed, their memoized lists are current,
  and a schema that is exported and imported maps as the builder it came from.
\<close>

section \<open>The fluent methods build well-formed trees\<close>

lemma run_chain_keeps:
  "run_chain f xs a = Inr b \<Longrightarrow> P a \<Longrightarrow> (\<And>x a b. f x a = Inr b \<Longrightarrow> P a \<Longrightarrow> P b) \<Longrightarrow> P b"
  by (induction xs arbitrary: a) (auto split: sum.splits)

lemma addNode_wf:
  assumes "addNode c ns = Inr ns'" and "wf_nodes ns" and "wf_tree c"
  shows "wf_nodes ns'"
proof -
  from assms(1) obtain k where k: "child_source c = Some k" and ns': "ns' = obj_set k c ns"
    by (auto simp: addNode_def split: option.splits)
  show ?thesis
    using assms(2,3) k by (auto simp: ns' wf_nodes_def list_all_iff dest!: set_obj_set)
qed

lemma applyLeafOptions_keeps:
  assumes "applyLeafOptions root options l = Inr l'"
  shows "lf_type l' = lf_type l \<and> lf_sourceProperty l' = lf_sourceProperty l \<and>
    lf_destinationProperty l' = lf_destinationProperty l"
proof (cases options)
  case None
  with assms show ?thesis by (simp add: applyLeafOptions_def)
next
  case (Some opts)
  let ?same = "\<lambda>l'. lf_type l' = lf_type l \<and> lf_sourceProperty l' = lf_sourceProperty l \<and>
    lf_destinationProperty l' = lf_destinationProperty l"
  let ?l = "case lo_isOptional opts of Some b \<Rightarrow> l\<lparr>lf_isOptional := b\<rparr> | None \<Rightarrow> l"
  from assms Some obtain l1
    where ex: "run_chain excludeNormalizer (case lo_excludeNormalizers opts of Some ks \<Rightarrow> ks | None \<Rightarrow> []) ?l = Inr l1"
      and ns: "run_chain (\<lambda>(key, options). leaf_addNormalizer root key options)
        (case lo_normalizers opts of Some ns \<Rightarrow> ns | None \<Rightarrow> []) l1 = Inr l'"
    by (auto simp: applyLeafOptions_def Let_def sum_bind_Inr_conv)
  have "?same ?l" by (auto split: option.split)
  then have "?same l1"
    by (rule run_chain_keeps [where P = ?same, OF ex]) (auto simp: excludeNormalizer_def split: if_splits)
  then show ?thesis
    by (rule run_chain_keeps [where P = ?same, OF ns]) (auto simp: leaf_addNormalizer_def split: if_splits prod.splits)
qed

lemma add_leaf_wf:
  assumes "add_leaf ty root source destination options ns = Inr ns'" and "wf_nodes ns" and "ty \<in> {Leaf, ScalarArray}"
  shows "wf_nodes ns'"
proof -
  from assms(1) obtain l where "applyLeafOptions root options ((new_DataMappingLeaf ty)
      \<lparr>lf_sourceProperty := Some source,
       lf_destinationProperty := Some (case destination of Some d \<Rightarrow> d | None \<Rightarrow> source)\<rparr>) = Inr l"
    and add: "addNode (LeafChild l) ns = Inr ns'"
    by (auto simp: add_leaf_def sum_bind_Inr_conv)
  from applyLeafOptions_keeps [OF this(1)] assms(3) have "wf_tree (LeafChild l)"
    by (simp add: new_DataMappingLeaf_def)
  with add assms(2) show ?thesis by (rule addNode_wf)
qed

lemma wf_tree_node:
  "wf_nodes ch \<Longrightarrow> nf_type nf \<in> {Node, ObjectArray} \<Longrightarrow> nf_destinationProperty nf \<noteq> None \<Longrightarrow> wf_tree (NodeChild nf ch)"
  by (simp add: wf_nodes_def)

lemma wf_nodes_Nil [simp]: "wf_nodes []"
  by (simp add: wf_nodes_def)

lemma add_subtree_wf:
  assumes "add_subtree ty source destination build options ns = Inr ns'" and "wf_nodes ns"
    and "\<And>ch. build [] = Inr ch \<Longrightarrow> wf_nodes ch" and "ty \<in> {Node, ObjectArray}"
  shows "wf_nodes ns'"
proof -
  from assms(1) obtain nf ch where "build [] = Inr ch" and add: "addNode (NodeChild nf ch) ns = Inr ns'"
    and "nf_type nf = ty" and "nf_destinationProperty nf = Some destination"
    by (auto simp: add_subtree_def Let_def sum_bind_Inr_conv)
  with assms(3,4) have "wf_tree (NodeChild nf ch)" by (intro wf_tree_node) auto
  with add assms(2) show ?thesis by (rule addNode_wf)
qed

lemma fluent_wf:
  "fluent root call ns = Inr ns' \<Longrightarrow> wf_nodes ns \<Longrightarrow> wf_nodes ns'"
  "fluents root calls ns = Inr ns' \<Longrightarrow> wf_nodes ns \<Longrightarrow> wf_nodes ns'"
proof (induction root call ns and root calls ns arbitrary: ns' and ns' rule: fluent_fluents.induct)
  case (3 root source destination calls options nodes)
  then show ?case by (auto intro: add_subtree_wf)
next
  case (4 root source destination calls options nodes)
  then show ?case by (auto intro: add_subtree_wf)
next
  case (6 root call calls nodes)
  then show ?case by (auto simp: sum_bind_Inr_conv)
qed (auto intro: add_leaf_wf)

text \<open>
  Whatever is called, every child is filed under its source property, has both names, and is a
  leaf or a node of a matching type.
\<close>

theorem fluent_builds_wf_tree:
  assumes "fluents root calls [] = Inr ns"
  shows "wf_nodes ns"
  using fluent_wf(2) [OF assms] by simp

text \<open>A fluent call on a builder keeps its memoized lists current.\<close>

lemma fluent_adds:
  assumes "fluent root call ns = Inr ns'"
  obtains c where "ns' = obj_set (call_source call) c ns"
  using assms
proof (cases call)
  case (Field source destination options)
  with assms obtain l where "applyLeafOptions root options ((new_DataMappingLeaf Leaf)
      \<lparr>lf_sourceProperty := Some source,
       lf_destinationProperty := Some (case destination of Some d \<Rightarrow> d | None \<Rightarrow> source)\<rparr>) = Inr l"
    and "addNode (LeafChild l) ns = Inr ns'" by (auto simp: add_leaf_def sum_bind_Inr_conv)
  with applyLeafOptions_keeps [OF this(1)] that show thesis
    by (auto simp: Field addNode_def split: option.splits)
next
  case (ArrayOfScalars source destination options)
  with assms obtain l where "applyLeafOptions root options ((new_DataMappingLeaf ScalarArray)
      \<lparr>lf_sourceProperty := Some source,
       lf_destinationProperty := Some (case destination of Some d \<Rightarrow> d | None \<Rightarrow> source)\<rparr>) = Inr l"
    and "addNode (LeafChild l) ns = Inr ns'" by (auto simp: add_leaf_def sum_bind_Inr_conv)
  with applyLeafOptions_keeps [OF this(1)] that show thesis
    by (auto simp: ArrayOfScalars addNode_def split: option.splits)
qed (use assms that in \<open>auto simp: add_subtree_def Let_def sum_bind_Inr_conv addNode_def\<close>)

theorem builder_fluent_coherent:
  assumes "builder_fluent call b = Inr b'" and "coherent b"
  shows "coherent b'"
proof -
  from assms(1) obtain ns' where fl: "fluent (bd_normalizers b) call (bd_nodes b) = Inr ns'"
    and b': "b' = b\<lparr>bd_nodes := ns', bd_caches := (\<lambda>p. if p \<noteq> [] \<and> hd p = call_source call then None else bd_caches b p)\<rparr>"
    by (auto simp: builder_fluent_def sum_bind_Inr_conv)
  from fluent_adds [OF fl] obtain c where ns': "ns' = obj_set (call_source call) c (bd_nodes b)" .
  have at: "node_at ns' p = node_at (bd_nodes b) p" if "p = [] \<or> hd p \<noteq> call_source call" for p
    using that by (cases p) (auto simp: ns' update_conv')
  show ?thesis
    using assms(2) unfolding coherent_def
  proof (intro allI impI)
    fix path l ns
    assume coh: "\<forall>path l ns. node_at (bd_nodes b) path = Some (LeafChild l) \<longrightarrow> bd_caches b path = Some ns \<longrightarrow>
        ns = getEffectiveNormalizers (bd_normalizers b) l None"
      and leaf: "node_at (bd_nodes b') path = Some (LeafChild l)" and ca: "bd_caches b' path = Some ns"
    from ca have old: "path = [] \<or> hd path \<noteq> call_source call" and "bd_caches b path = Some ns"
      by (auto simp: b' split: if_splits)
    with leaf at [OF old] coh show "ns = getEffectiveNormalizers (bd_normalizers b') l None" by (simp add: b')
  qed
qed

lemma new_builder_coherent: "coherent new_DataMappingBuilder" "wf_nodes (bd_nodes new_DataMappingBuilder)"
  by (simp_all add: coherent_def new_DataMappingBuilder_def)

section \<open>Export and import\<close>

text \<open>What an exported and imported child is: its class is gone, its names are in property order.\<close>

fun reimported :: "mnode \<Rightarrow> mnode" where
  "reimported (LeafChild l) =
     LeafChild (l\<lparr>lf_excludedNormalizers := obj_keys (foldl (\<lambda>ob k. obj_set k True ob) [] (lf_excludedNormalizers l))\<rparr>)"
| "reimported (NodeChild nf ch) =
     NodeChild (nf\<lparr>nf_destinationType := None\<rparr>) (in_order (map (\<lambda>(k, c). (k, reimported c)) ch))"

lemma exportChildren_order: "wf_obj ob \<Longrightarrow> exportChildren ob = in_order ob"
  using rebuild_obj [of "[]" "in_order ob"] distinct_in_order [of ob] by (simp add: exportChildren_def wf_obj_def)

lemma fold_import:
  "(\<And>k c. (k, c) \<in> set xs \<Longrightarrow> prop_name (child_source c) = k) \<Longrightarrow>
     foldl (\<lambda>ob (k, c). case c of None \<Rightarrow> ob | Some c \<Rightarrow> obj_set (prop_name (child_source c)) c ob) acc
       (map (\<lambda>(k, c). (k, Some c)) xs) = foldl (\<lambda>ob (k, c). obj_set k c ob) acc xs"
proof (induction xs arbitrary: acc)
  case (Cons kc xs)
  obtain k c where kc: "kc = (k, c)" by (cases kc)
  with Cons.prems have "prop_name (child_source c) = k" by simp
  moreover have "prop_name (child_source c') = k'" if "(k', c') \<in> set xs" for k' c'
    using that Cons.prems by simp
  ultimately show ?case using Cons.IH by (simp add: kc)
qed simp

lemma importChildren_order:
  assumes "wf_obj ob" and "\<And>k c. (k, c) \<in> set ob \<Longrightarrow> prop_name (child_source c) = k"
  shows "importChildren (map (\<lambda>(k, c). (k, Some c)) ob) = in_order ob"
proof -
  have "importChildren (map (\<lambda>(k, c). (k, Some c)) ob) = foldl (\<lambda>ob (k, c). obj_set k c ob) [] (in_order ob)"
    unfolding importChildren_def in_order_map by (rule fold_import) (use assms(2) in simp)
  also have "\<dots> = in_order ob"
    using rebuild_obj [of "[]" "in_order ob"] distinct_in_order [OF assms(1)] by (simp add: wf_obj_def)
  finally show ?thesis .
qed

lemma reimported_source [simp]: "child_source (reimported c) = child_source c"
  by (cases c) simp_all

lemma wf_obj_map: "wf_obj ob \<Longrightarrow> wf_obj (map (\<lambda>(k, c). (k, f c)) ob)"
  by (simp add: wf_obj_def case_prod_unfold o_def)

lemma import_exported:
  assumes "wf_obj ch" and "\<And>k c. (k, c) \<in> set ch \<Longrightarrow> child_source c = Some k \<and> node_import (node_export c) = Some (reimported c)"
  shows "importChildren (map (\<lambda>(k, c). (k, node_import c)) (exportChildren (map (\<lambda>(k, c). (k, node_export c)) ch))) =
    in_order (map (\<lambda>(k, c). (k, reimported c)) ch)"
proof -
  have "map (\<lambda>(k, c). (k, node_import c)) (exportChildren (map (\<lambda>(k, c). (k, node_export c)) ch)) =
      map (\<lambda>(k, c). (k, node_import (node_export c))) (in_order ch)"
    unfolding exportChildren_order [OF wf_obj_map [OF assms(1)]] in_order_map by (simp add: case_prod_unfold)
  also have "\<dots> = map (\<lambda>(k, c). (k, Some c)) (map (\<lambda>(k, c). (k, reimported c)) (in_order ch))"
    using assms(2) by (auto simp: case_prod_unfold)
  also have "importChildren \<dots> = in_order (map (\<lambda>(k, c). (k, reimported c)) (in_order ch))"
    by (rule importChildren_order) (use assms in \<open>auto simp: wf_obj_map distinct_in_order prop_name_def\<close>)
  finally show ?thesis by (simp add: in_order_map)
qed

lemma import_export: "wf_tree c \<Longrightarrow> node_import (node_export c) = Some (reimported c)"
proof (induction c rule: wf_tree.induct)
  case (1 l)
  then show ?case by (auto simp: leaf_export_def leaf_import_def)
next
  case (2 nf ch)
  then have "importChildren (map (\<lambda>(k, c). (k, node_import c)) (exportChildren (map (\<lambda>(k, c). (k, node_export c)) ch))) =
      in_order (map (\<lambda>(k, c). (k, reimported c)) ch)"
    by (intro import_exported) (auto simp: list_all_iff)
  with "2.prems" show ?case by (auto simp: Let_def)
qed

lemma set_excluded: "set (obj_keys (foldl (\<lambda>ob k. obj_set k True ob) ob ks)) = fst ` set ob \<union> set ks"
proof (induction ks arbitrary: ob)
  case (Cons k ks)
  have "fst ` set (obj_set k True ob) = insert k (fst ` set ob)"
    using objd.keys_set [of k True ob] by simp
  with Cons show ?case by simp
qed simp

lemma reimported_normalizers:
  "getEffectiveNormalizers root (l\<lparr>lf_excludedNormalizers :=
     obj_keys (foldl (\<lambda>ob k. obj_set k True ob) [] (lf_excludedNormalizers l))\<rparr>) cached = getEffectiveNormalizers root l cached"
  using set_excluded [of "[]" "lf_excludedNormalizers l"] by (cases cached) (simp_all add: getEffectiveNormalizers_def)

text \<open>Trees without destination classes, which an export does not carry.\<close>

fun untyped :: "mnode \<Rightarrow> bool" where
  "untyped (LeafChild l) = True"
| "untyped (NodeChild nf ch) \<longleftrightarrow> nf_destinationType nf = None \<and> list_all (\<lambda>(k, c). untyped c) ch"

lemma map_snd_in_order:
  "list_all (\<lambda>(k, c). P c) (in_order ch) = list_all (\<lambda>(k, c). P c) ch"
  by (simp add: list_all_iff)

lemma reimported_maps:
  "untyped c \<Longrightarrow> map_child mp root ex (reimported c) path s d caches = map_child mp root ex c path s d caches"
  "list_all (\<lambda>(k, c). untyped c) cs \<Longrightarrow>
     run_sub_nodes mp root ex (map (\<lambda>(k, c). (k, reimported c)) cs) path s d caches = run_sub_nodes mp root ex cs path s d caches"
  "list_all (\<lambda>(k, c). untyped c) ch \<Longrightarrow> nf_destinationType nf = None \<Longrightarrow>
     map_elements mp root ex nf (in_order (map (\<lambda>(k, c). (k, reimported c)) ch)) path s i es caches =
       map_elements mp root ex nf ch path s i es caches"
proof (induction mp root ex c path s d caches and mp root ex cs path s d caches
    and mp root ex nf ch path s i es caches rule: map_child_run_sub_nodes_map_elements.induct)
  case (1 mp root exclude l path source destination caches)
  show ?case
    by (cases "hasOwnProperty source (prop_name (lf_sourceProperty l))")
      (simp_all add: map_child.simps map_leaf_def Let_def reimported_normalizers split: bool.split)
next
  case (2 mp root exclude nf ch path source destination caches)
  have nf: "nf\<lparr>nf_destinationType := None\<rparr> = nf" using "2.prems" by simp
  show ?case
  proof (cases "hasOwnProperty source (prop_name (nf_sourceProperty nf)) = Inr True")
    case True
    with 2 show ?thesis
      by (cases "get_own source (prop_name (nf_sourceProperty nf))")
        (auto simp: map_child.simps nf Let_def in_order_map map_snd_in_order split: sum.splits)
  next
    case False
    then show ?thesis
      by (cases "hasOwnProperty source (prop_name (nf_sourceProperty nf))") (simp_all add: map_child.simps Let_def nf)
  qed
next
  case (4 mp root exclude key node nodes path source destination caches)
  then show ?case by (auto simp: run_sub_nodes.simps split: sum.splits prod.splits)
next
  case (6 mp root exclude nf ch path source index element es caches)
  then show ?case by (auto simp: map_elements.simps in_order_map list_all_iff split: sum.splits prod.splits)
qed (auto simp: run_sub_nodes.simps map_elements.simps)

text \<open>
  Claim C17. A well-formed builder without destination classes, exported and imported into any
  builder, maps every source as the original does when none of its normalizer lists is memoized,
  and so as the original does wherever its memoized lists are current.
\<close>

theorem schema_round_trip:
  assumes "wf_nodes (bd_nodes b)" and "list_all (\<lambda>(k, c). untyped c) (bd_nodes b)"
  shows "fst (DataMapper_map mp (builder_import (builder_export b) b0) s t x) =
      fst (DataMapper_map mp (b\<lparr>bd_caches := (\<lambda>_. None)\<rparr>) s t x) \<and>
    (coherent b \<longrightarrow> fst (DataMapper_map mp (builder_import (builder_export b) b0) s t x) = fst (DataMapper_map mp b s t x))"
proof -
  let ?none = "b\<lparr>bd_caches := (\<lambda>_. None)\<rparr>" and ?b = "builder_import (builder_export b) b0"
  have nodes: "bd_nodes ?b = in_order (map (\<lambda>(k, c). (k, reimported c)) (bd_nodes b))"
    unfolding builder_import_def builder_export_def
    by (simp, rule import_exported) (use assms(1) import_export in \<open>auto simp: wf_nodes_def list_all_iff\<close>)
  have "bd_normalizers ?b = bd_normalizers b" and "bd_caches ?b = (\<lambda>_. None)"
    and "bd_beforeMappingInterceptors ?b = bd_beforeMappingInterceptors b"
    and "bd_afterMappingInterceptors ?b = bd_afterMappingInterceptors b"
    by (simp_all add: builder_import_def builder_export_def)
  moreover have "run_sub_nodes mp root ex (in_order (bd_nodes ?b)) [] s' d caches =
      run_sub_nodes mp root ex (in_order (bd_nodes b)) [] s' d caches" for root ex s' d caches
    using reimported_maps(2) [of "in_order (bd_nodes b)"] assms(2)
    by (simp add: nodes in_order_map map_snd_in_order)
  ultimately have "fst (DataMapper_map mp ?b s t x) = fst (DataMapper_map mp ?none s t x)"
    by (simp add: DataMapper_map_run finish_map_def)
  with memoization_transparent(1) [OF assms(1)] show ?thesis by simp
qed

section \<open>The theorems on the sample\<close>

theorem fluent_builds_wf_tree_witness: "fluents [] sample_calls [] = Inr sample_nodes \<and> wf_nodes sample_nodes"
proof -
  have "fluents [] sample_calls [] = Inr sample_nodes"
    by (simp add: sample_calls_def sample_nodes_def sample_leaf_def sample_node_def add_leaf_def add_subtree_def
        applyLeafOptions_def new_DataMappingLeaf_def leaf_addNormalizer_def has_key_def addNode_def)
  with fluent_builds_wf_tree [OF this] show ?thesis by simp
qed

theorem builder_fluent_coherent_witness:
  "\<exists>b'. builder_fluent (Field ''x'' None None)
      (snd (DataMapper_map sample_mapper sample_builder sample_source None None)) = Inr b' \<and> coherent b'"
proof -
  let ?b = "snd (DataMapper_map sample_mapper sample_builder sample_source None None)"
  obtain b' where "builder_fluent (Field ''x'' None None) ?b = Inr b'"
    by (simp add: builder_fluent_def add_leaf_def applyLeafOptions_def new_DataMappingLeaf_def addNode_def)
  with builder_fluent_coherent [OF this memoization_transparent(2) [OF sample_ok(1,2)]] show ?thesis by blast
qed

theorem schema_round_trip_witness:
  "fst (DataMapper_map sample_mapper (builder_import (builder_export sample_builder) new_DataMappingBuilder)
     sample_source None None) =
   Inr (DObject [(''fullName'', DString ''Ann!''), (''addr'', DObject [(''city'', DString ''Oslo'')]),
     (''labels'', DArray [DObject [(''t'', DString ''a''), (''text'', DString ''a'')], DNull] [])])"
proof -
  have "list_all (\<lambda>(k, c). untyped c) (bd_nodes sample_builder)" by (simp add: sample_simps)
  from schema_round_trip [OF sample_ok(1) this, of sample_mapper new_DataMappingBuilder sample_source None None]
  show ?thesis using sample_mapped sample_ok(2) by metis
qed

end
