(* ===== verification/Auto_Data_Mapping.thy ===== *)
theory Auto_Data_Mapping
  imports Data_Mapping_Schema
begin

text \<open>
  The automatic schemas (\<open>builders/auto-data-mapping.builder.ts\<close>) and \<open>DataMapper.autoMap\<close>. The
  metadata of the classes comes from functions (\<open>@pristine-ts/metadata\<close>), which may throw; so do
  the type of a value and the reporter of errors. Reading a property of a string and properties
  a class inherits are outside the model, and what is only logged is left out.
\<close>

section \<open>Metadata and options\<close>

datatype type_enum = TypeString | TypeNumber | TypeBoolean | TypeDate | TypeObject | TypeArray | TypeOther

record property_information =
  pi_typeEnum :: type_enum
  pi_typeObject :: "string option"
  pi_isNullable :: "bool option"
  pi_arrayMemberObject :: "string option"
  pi_typeFactory :: "(dval \<Rightarrow> string \<Rightarrow> thrown + string) option"
  pi_arrayMemberTypeFactory :: "dest_type option"
  pi_arrayMemberType :: "dest_type option"

record metadata =
  md_properties :: "string \<Rightarrow> thrown + string list"
  md_property :: "string \<Rightarrow> string \<Rightarrow> thrown + property_information"
  md_typeOfValue :: "dest_type \<Rightarrow> type_enum"

text \<open>The options a caller passes, each possibly missing, and with their defaults.\<close>

record auto_options =
  ao_isOptionalDefaultValue :: "bool option"
  ao_excludeExtraneousValues :: "bool option"
  ao_throwOnErrors :: "bool option"
  ao_logErrors :: "bool option"
  ao_disableCache :: "bool option"

definition flag :: "bool \<Rightarrow> (auto_options \<Rightarrow> bool option) \<Rightarrow> auto_options option \<Rightarrow> bool" where
  "flag missing field options = (case options of None \<Rightarrow> missing
     | Some opts \<Rightarrow> (case field opts of None \<Rightarrow> missing | Some b \<Rightarrow> b))"

record resolved_options =
  ro_isOptionalDefaultValue :: bool
  ro_throwOnErrors :: bool
  ro_disableCache :: bool

definition new_AutoDataMappingBuilderOptions :: "auto_options option \<Rightarrow> resolved_options" where
  "new_AutoDataMappingBuilderOptions options =
     \<lparr>ro_isOptionalDefaultValue = flag True ao_isOptionalDefaultValue options,
      ro_throwOnErrors = flag False ao_throwOnErrors options,
      ro_disableCache = flag False ao_disableCache options\<rparr>"

section \<open>Building the schema\<close>

definition StringNormalizerUniqueKey :: string where "StringNormalizerUniqueKey = ''PRISTINE_STRING_NORMALIZER''"
definition NumberNormalizerUniqueKey :: string where "NumberNormalizerUniqueKey = ''PRISTINE_NUMBER_NORMALIZER''"
definition BooleanNormalizerUniqueKey :: string where "BooleanNormalizerUniqueKey = ''PRISTINE_BOOLEAN_NORMALIZER''"
definition DateNormalizerUniqueKey :: string where "DateNormalizerUniqueKey = ''PRISTINE_DATE_NORMALIZER''"

definition scalar_normalizers :: "type_enum \<Rightarrow> keyed_options" where
  "scalar_normalizers t = (case t of
     TypeNumber \<Rightarrow> [(NumberNormalizerUniqueKey, DUndefined)]
   | TypeString \<Rightarrow> [(StringNormalizerUniqueKey, DUndefined)]
   | TypeDate \<Rightarrow> [(DateNormalizerUniqueKey, DUndefined)]
   | _ \<Rightarrow> [])"

definition field_normalizers :: "type_enum \<Rightarrow> keyed_options" where
  "field_normalizers t = (case t of
     TypeBoolean \<Rightarrow> [(BooleanNormalizerUniqueKey, DUndefined)]
   | _ \<Rightarrow> scalar_normalizers t)"

definition auto_leaf :: "node_type \<Rightarrow> string \<Rightarrow> bool \<Rightarrow> keyed_options \<Rightarrow> mnode" where
  "auto_leaf ty key isOptional normalizers = LeafChild \<lparr>lf_type = ty, lf_sourceProperty = Some key,
     lf_destinationProperty = Some key, lf_normalizers = normalizers, lf_excludedNormalizers = [], lf_isOptional = isOptional\<rparr>"

definition auto_node :: "node_type \<Rightarrow> string \<Rightarrow> bool \<Rightarrow> dest_type option \<Rightarrow> (string \<times> mnode) list \<Rightarrow> mnode" where
  "auto_node ty key isOptional destinationType children = NodeChild \<lparr>nf_type = ty, nf_sourceProperty = Some key,
     nf_destinationProperty = Some key, nf_isOptional = isOptional, nf_destinationType = destinationType\<rparr> children"

definition member :: "dval \<Rightarrow> string \<Rightarrow> dval" where
  "member v k = (case v of DString _ \<Rightarrow> DUndefined | _ \<Rightarrow> get_own v k)"

lemma size_own: "own_property v k = Some w \<Longrightarrow> (\<forall>s. v \<noteq> DString s) \<Longrightarrow> size w < size v"
proof (cases v)
  case (DArray xs ps)
  assume "own_property v k = Some w"
  with DArray consider "\<exists>n. w = DNumber n" | "w \<in> set xs" | "(k, w) \<in> set ps"
    by (auto simp: indexed_def split: if_splits option.splits dest: map_of_SomeD)
  then show ?thesis
    using size_list_estimation' [of _ xs "size w" size] size_list_estimation' [of _ ps "size w" "size_prod (\<lambda>_. 0) size"]
    by cases (force simp: DArray)+
next
  case (DObject ps)
  assume "own_property v k = Some w"
  then have "(k, w) \<in> set ps" using DObject by (auto dest: map_of_SomeD)
  then show ?thesis
    using size_list_estimation' [of _ ps "size w" "size_prod (\<lambda>_. 0) size"] by (force simp: DObject)
next
  case (DInstance c i ps)
  assume "own_property v k = Some w"
  then have "(k, w) \<in> set ps" using DInstance by (auto dest: map_of_SomeD)
  then show ?thesis
    using size_list_estimation' [of _ ps "size w" "size_prod (\<lambda>_. 0) size"] by (force simp: DInstance)
qed simp_all

lemma size_member: "truthy (member v k) \<Longrightarrow> size (member v k) < size v"
  using size_own [of v k] by (cases v) (auto simp: member_def get_own_def split: option.splits)

lemma size_first: "member v k = DArray (x # xs) ps \<Longrightarrow> size x < size v"
  using size_member [of v k] by simp

text \<open>
  The children built for a class, with the error that ended the loop; an error is only passed on
  with \<open>throwOnErrors\<close>, and the children built until then stay. A node is added before its own
  children are built, so it stays in either case.
\<close>

definition nullable :: "resolved_options \<Rightarrow> property_information \<Rightarrow> bool" where
  "nullable opts info = (case pi_isNullable info of Some b \<Rightarrow> b | None \<Rightarrow> ro_isOptionalDefaultValue opts)"

definition resolve_type :: "property_information \<Rightarrow> dval \<Rightarrow> string \<Rightarrow> thrown + string option" where
  "resolve_type info source key = (case pi_typeFactory info of
     None \<Rightarrow> Inr (pi_typeObject info)
   | Some callback \<Rightarrow> sum_bind (callback source key) (\<lambda>c. Inr (Some c)))"

text \<open>The type of the elements; without any annotation the first element stands for it.\<close>

definition member_type :: "property_information \<Rightarrow> dval \<Rightarrow> dest_type" where
  "member_type info first = (case pi_arrayMemberTypeFactory info of
     Some factory \<Rightarrow> factory
   | None \<Rightarrow> (case pi_arrayMemberType info of Some t \<Rightarrow> t | None \<Rightarrow> OtherValue first))"

definition is_scalar_array :: "metadata \<Rightarrow> property_information \<Rightarrow> dval \<Rightarrow> bool" where
  "is_scalar_array md info first \<longleftrightarrow>
     pi_arrayMemberTypeFactory info = None \<and> md_typeOfValue md (member_type info first) \<noteq> TypeObject"

function internalBuild ::
  "metadata \<Rightarrow> resolved_options \<Rightarrow> dval \<Rightarrow> string option \<Rightarrow> thrown option \<times> (string \<times> mnode) list"
  and build_property ::
  "metadata \<Rightarrow> resolved_options \<Rightarrow> dval \<Rightarrow> string \<Rightarrow> string \<Rightarrow> (string \<times> mnode) list \<Rightarrow>
   thrown option \<times> (string \<times> mnode) list"
  and build_properties ::
  "metadata \<Rightarrow> resolved_options \<Rightarrow> dval \<Rightarrow> string \<Rightarrow> string list \<Rightarrow> (string \<times> mnode) list \<Rightarrow>
   thrown option \<times> (string \<times> mnode) list" where
  "internalBuild md opts source destinationType =
     (case destinationType of
        None \<Rightarrow> (None, [])
      | Some cls \<Rightarrow>
          if \<not> truthy source then (None, [])
          else case md_properties md cls of
            Inl e \<Rightarrow> (if ro_throwOnErrors opts then Some e else None, [])
          | Inr keys \<Rightarrow>
              (case build_properties md opts source cls keys [] of
                 (err, children) \<Rightarrow> (if ro_throwOnErrors opts then err else None, children)))"
| "build_property md opts source cls key children =
     (case md_property md cls key of
        Inl e \<Rightarrow> (Some e, children)
      | Inr info \<Rightarrow>
          (case resolve_type info source key of
             Inl e \<Rightarrow> (Some e, children)
           | Inr typeObject \<Rightarrow>
               if pi_typeEnum info = TypeObject then
                 (case internalBuild md opts (member source key) typeObject of
                    (err, nested) \<Rightarrow>
                      (err, obj_set key (auto_node Node key (nullable opts info) (map_option ClassType typeObject) nested) children))
               else if pi_typeEnum info = TypeArray then
                 (case member source key of
                    DArray (x # xs) _ \<Rightarrow>
                      (if is_scalar_array md info x then
                         (None, obj_set key (auto_leaf ScalarArray key (nullable opts info)
                            (scalar_normalizers (md_typeOfValue md (member_type info x)))) children)
                       else
                         (case internalBuild md opts x (pi_arrayMemberObject info) of
                            (err, nested) \<Rightarrow>
                              (err, obj_set key (auto_node ObjectArray key (nullable opts info)
                                 (Some (member_type info x)) nested) children)))
                  | _ \<Rightarrow> (None, children))
               else
                 (None, obj_set key (auto_leaf Leaf key (nullable opts info)
                    (field_normalizers (pi_typeEnum info))) children)))"
| "build_properties md opts source cls [] children = (None, children)"
| "build_properties md opts source cls (key # keys) children =
     (case build_property md opts source cls key children of
        (Some e, children) \<Rightarrow> (Some e, children)
      | (None, children) \<Rightarrow> build_properties md opts source cls keys children)"
  by pat_completeness auto
termination
proof (relation "measures [
    \<lambda>a. case a of Inl (_, _, source, _) \<Rightarrow> if truthy source then 2 * size source + 3 else 0
      | Inr (Inl (_, _, source, _)) \<Rightarrow> 2 * size source + 2
      | Inr (Inr (_, _, source, _)) \<Rightarrow> 2 * size source + 2,
    \<lambda>a. case a of Inl _ \<Rightarrow> 0 | Inr (Inl _) \<Rightarrow> 0 | Inr (Inr (_, _, _, _, keys, _)) \<Rightarrow> Suc (length keys)]", goal_cases)
  case (3 md opts source cls key children info typeObject)
  then show ?case using size_member [of source key] by auto
qed (auto dest!: size_first)

declare internalBuild.simps [simp del] build_property.simps [simp del] build_properties.simps [simp del]

section \<open>The cache of schemas\<close>

record auto_builder =
  ab_cache :: "(string \<times> builder) list"

definition build :: "metadata \<Rightarrow> dval \<Rightarrow> string \<Rightarrow> auto_options option \<Rightarrow> auto_builder \<Rightarrow> (thrown + builder) \<times> auto_builder" where
  "build md source cls options ab =
     (let opts = new_AutoDataMappingBuilderOptions options in
      case (if ro_disableCache opts then None else map_of (ab_cache ab) cls) of
        Some b \<Rightarrow> (Inr b, ab)
      | None \<Rightarrow>
          (case internalBuild md opts source (Some cls) of
             (Some e, _) \<Rightarrow> (Inl e, ab)
           | (None, children) \<Rightarrow>
               let b = new_DataMappingBuilder\<lparr>bd_nodes := children\<rparr> in
               (Inr b, if ro_disableCache opts then ab else ab\<lparr>ab_cache := AList.update cls b (ab_cache ab)\<rparr>)))"

definition clearCache :: "string option \<Rightarrow> auto_builder \<Rightarrow> auto_builder" where
  "clearCache destinationType ab = (case destinationType of
     None \<Rightarrow> ab\<lparr>ab_cache := []\<rparr>
   | Some cls \<Rightarrow> ab\<lparr>ab_cache := AList.delete cls (ab_cache ab)\<rparr>)"

text \<open>The cached builder is the object that is mapped with: its memoized lists stay with it.\<close>

definition keep_builder :: "string \<Rightarrow> builder \<Rightarrow> auto_options option \<Rightarrow> auto_builder \<Rightarrow> auto_builder" where
  "keep_builder cls b options ab =
     (if ro_disableCache (new_AutoDataMappingBuilderOptions options) then ab
      else ab\<lparr>ab_cache := AList.update cls b (ab_cache ab)\<rparr>)"

section \<open>Mapping automatically\<close>

datatype primitive_type = PString | PNumber | PBigInt | PBoolean | PUndefined | PSymbol | PDate | PNull

fun primitive_text :: "primitive_type \<Rightarrow> string" where
  "primitive_text PString = ''string''"
| "primitive_text PNumber = ''number''"
| "primitive_text PBigInt = ''bigint''"
| "primitive_text PBoolean = ''boolean''"
| "primitive_text PUndefined = ''undefined''"
| "primitive_text PSymbol = ''symbol''"
| "primitive_text PDate = ''date''"
| "primitive_text PNull = ''null''"

datatype auto_target = PrimitiveTarget primitive_type | ClassTarget string

definition primitive_normalizer :: "primitive_type \<Rightarrow> string option" where
  "primitive_normalizer p = (case p of
     PString \<Rightarrow> Some StringNormalizerUniqueKey
   | PNumber \<Rightarrow> Some NumberNormalizerUniqueKey
   | PBoolean \<Rightarrow> Some BooleanNormalizerUniqueKey
   | PDate \<Rightarrow> Some DateNormalizerUniqueKey
   | _ \<Rightarrow> None)"

fun map_array :: "mapper \<Rightarrow> builder \<Rightarrow> string \<Rightarrow> bool \<Rightarrow> dval list \<Rightarrow> (thrown + dval list) \<times> builder" where
  "map_array mp b cls exclude [] = (Inr [], b)"
| "map_array mp b cls exclude (element # es) =
     (case DataMapper_map mp b element (Some (ClassType cls)) (Some exclude) of
        (Inl e, b) \<Rightarrow> (Inl e, b)
      | (Inr d, b) \<Rightarrow> (case map_array mp b cls exclude es of (Inl e, b) \<Rightarrow> (Inl e, b) | (Inr ds, b) \<Rightarrow> (Inr (d # ds), b)))"

definition auto_attempt ::
  "metadata \<Rightarrow> mapper \<Rightarrow> auto_builder \<Rightarrow> dval \<Rightarrow> auto_target \<Rightarrow> auto_options option \<Rightarrow> (thrown + dval) \<times> auto_builder" where
  "auto_attempt md mp ab source target options =
     (let exclude = flag False ao_excludeExtraneousValues options in
      case target of
        PrimitiveTarget p \<Rightarrow>
          ((case Option.bind (primitive_normalizer p) (dm_dataNormalizersMap mp) of
              None \<Rightarrow> Inl (plain_error (''Normalizer not found for primitive type: '' @ quoted (primitive_text p) @ ''.''))
            | Some norm \<Rightarrow> norm source DUndefined), ab)
      | ClassTarget cls \<Rightarrow>
          (case source of
             DArray [] _ \<Rightarrow> (Inr (DArray [] []), ab)
           | DArray (x # xs) _ \<Rightarrow>
               (case build md x cls options ab of
                  (Inl e, ab) \<Rightarrow> (Inl e, ab)
                | (Inr b, ab) \<Rightarrow>
                    (case map_array mp b cls exclude (x # xs) of
                       (r, b) \<Rightarrow> (sum_bind r (\<lambda>ds. Inr (DArray ds [])), keep_builder cls b options ab)))
           | _ \<Rightarrow>
               (case build md source cls options ab of
                  (Inl e, ab) \<Rightarrow> (Inl e, ab)
                | (Inr b, ab) \<Rightarrow>
                    (case DataMapper_map mp b source (Some (ClassType cls)) (Some exclude) of
                       (r, b) \<Rightarrow> (r, keep_builder cls b options ab)))))"

text \<open>What the promise ends as, the schemas cached then, and the errors reported.\<close>

definition autoMap ::
  "metadata \<Rightarrow> mapper \<Rightarrow> (thrown \<Rightarrow> thrown + unit) \<Rightarrow> auto_builder \<Rightarrow> dval \<Rightarrow> auto_target \<Rightarrow> auto_options option \<Rightarrow>
   (thrown + dval) \<times> auto_builder \<times> thrown list" where
  "autoMap md mp errorReporter ab source target options =
     (case auto_attempt md mp ab source target options of
        (Inr d, ab) \<Rightarrow> (Inr d, ab, [])
      | (Inl e, ab) \<Rightarrow>
          let logErrors = flag False ao_logErrors options in
          (case (if logErrors then errorReporter e else Inr ()) of
             Inl e' \<Rightarrow> (Inl e', ab, [e])
           | Inr _ \<Rightarrow>
               (if flag False ao_throwOnErrors options then Inl e else Inr source, ab, if logErrors then [e] else [])))"

section \<open>Lemmas\<close>

lemma wf_auto_leaf: "ty \<in> {Leaf, ScalarArray} \<Longrightarrow> wf_tree (auto_leaf ty key opt ns)"
  by (simp add: auto_leaf_def)

lemma wf_auto_node: "ty \<in> {Node, ObjectArray} \<Longrightarrow> wf_nodes ch \<Longrightarrow> wf_tree (auto_node ty key opt t ch)"
  by (simp add: auto_node_def wf_nodes_def)

lemma auto_sources [simp]:
  "child_source (auto_leaf ty key opt ns) = Some key" "child_source (auto_node ty key opt t ch) = Some key"
  by (simp_all add: auto_leaf_def auto_node_def)

lemma wf_nodes_set:
  "wf_nodes ns \<Longrightarrow> wf_tree c \<Longrightarrow> child_source c = Some k \<Longrightarrow> wf_nodes (obj_set k c ns)"
  by (auto simp: wf_nodes_def list_all_iff dest!: set_obj_set)

lemma built_wf:
  "wf_nodes (snd (internalBuild md opts source cls))"
  "wf_nodes children \<Longrightarrow> wf_nodes (snd (build_property md opts source c key children))"
  "wf_nodes children \<Longrightarrow> wf_nodes (snd (build_properties md opts source c keys children))"
proof (induction md opts source cls and md opts source c key children and md opts source c keys children
    rule: internalBuild_build_property_build_properties.induct)
  case (1 md opts source destinationType)
  then show ?case
    by (subst internalBuild.simps) (fastforce simp: split_beta split: option.split sum.split)
next
  case (2 md opts source cls key children)
  then show ?case
    by (auto simp: build_property.simps split_beta intro!: wf_nodes_set wf_auto_node wf_auto_leaf
        split: sum.split dval.split list.split)
next
  case (4 md opts source cls key keys children)
  then show ?case
    by (auto simp: build_properties.simps split: prod.split option.split)
qed (simp add: build_properties.simps)

text \<open>The schema built from a class and a sample is a well-formed tree.\<close>

theorem auto_schema_wf:
  assumes "build md source cls options ab = (Inr b, ab')" and "list_all (\<lambda>(_, b). wf_nodes (bd_nodes b)) (ab_cache ab)"
  shows "wf_nodes (bd_nodes b) \<and> list_all (\<lambda>(_, b). wf_nodes (bd_nodes b)) (ab_cache ab')"
proof (cases "ro_disableCache (new_AutoDataMappingBuilderOptions options) \<or> map_of (ab_cache ab) cls = None")
  case True
  then show ?thesis
    using assms built_wf(1) [of md "new_AutoDataMappingBuilderOptions options" source "Some cls"]
    by (auto simp: build_def Let_def list_all_iff split: prod.splits option.splits if_splits dest!: set_obj_set)
next
  case False
  then obtain b0 where b0: "map_of (ab_cache ab) cls = Some b0" and "\<not> ro_disableCache (new_AutoDataMappingBuilderOptions options)"
    by auto
  with assms(1) have "b = b0" and "ab' = ab" by (simp_all add: build_def)
  with map_of_SomeD [OF b0] assms(2) show ?thesis by (auto simp: list_all_iff)
qed

text \<open>
  Unless it is asked to throw, \<open>autoMap\<close> fulfils for every source: an error of the metadata, of
  a normalizer or of \<open>plainToInstance\<close> gives the source back.
\<close>

theorem autoMap_fulfils:
  assumes "\<not> flag False ao_throwOnErrors options" and "\<And>e. errorReporter e = Inr ()"
  shows "\<exists>d ab' reports. autoMap md mp errorReporter ab source target options = (Inr d, ab', reports) \<and>
    (d = source \<or> fst (auto_attempt md mp ab source target options) = Inr d) \<and>
    (reports = [] \<or> flag False ao_logErrors options \<and>
      (\<exists>e. reports = [e] \<and> fst (auto_attempt md mp ab source target options) = Inl e))"
  using assms by (cases "auto_attempt md mp ab source target options")
    (auto simp: autoMap_def Let_def split: sum.split)

text \<open>
  The schema of a class is built from the first source it is mapped from. When that source is
  null, the empty schema stays: later sources are handed to \<open>plainToInstance\<close> as they are,
  whatever the metadata of the class says.
\<close>

theorem null_source_poisons_cache:
  assumes "\<not> truthy first" and "map_of (ab_cache ab) cls = None" and "source = DObject ps"
  shows "fst (autoMap md mp errorReporter
      (fst (snd (autoMap md mp errorReporter ab first (ClassTarget cls) None))) source (ClassTarget cls) None) =
    Inr (case dm_plainToInstance mp (ClassType cls) (DObject (own_copy source)) of Inl _ \<Rightarrow> source | Inr d \<Rightarrow> d)"
proof -
  let ?empty = "new_DataMappingBuilder"
  have blank: "bd_nodes ?empty = []" "bd_beforeMappingInterceptors ?empty = []" "bd_afterMappingInterceptors ?empty = []"
    by (simp_all add: new_DataMappingBuilder_def)
  have empty: "?empty\<lparr>bd_nodes := []\<rparr> = ?empty" and same: "?empty\<lparr>bd_caches := bd_caches ?empty\<rparr> = ?empty"
    by (simp_all add: new_DataMappingBuilder_def)
  have mapped: "DataMapper_map mp ?empty s (Some (ClassType cls)) (Some False) =
      (dm_plainToInstance mp (ClassType cls) (DObject (initial_properties (Some False) s)), ?empty)" for s
    by (simp add: DataMapper_map_def blank in_order_def run_sub_nodes.simps same)
  have flags: "flag False f None = False" "ro_disableCache (new_AutoDataMappingBuilderOptions None) = False" for f
    by (simp_all add: flag_def new_AutoDataMappingBuilderOptions_def)
  have build1: "build md first cls None ab = (Inr ?empty, ab\<lparr>ab_cache := AList.update cls ?empty (ab_cache ab)\<rparr>)"
    using assms(1,2) by (simp add: build_def flags internalBuild.simps empty)
  have "auto_attempt md mp ab first (ClassTarget cls) None =
      (dm_plainToInstance mp (ClassType cls) (DObject (initial_properties (Some False) first)),
       ab\<lparr>ab_cache := AList.update cls ?empty (ab_cache ab)\<rparr>)"
    using assms(1) build1 by (cases first) (simp_all add: auto_attempt_def mapped flags keep_builder_def)
  then have cached: "map_of (ab_cache (fst (snd (autoMap md mp errorReporter ab first (ClassTarget cls) None)))) cls = Some ?empty"
    by (simp add: autoMap_def flags update_conv' split: sum.split)
  have "fst (autoMap md mp errorReporter ab1 source (ClassTarget cls) None) =
      Inr (case dm_plainToInstance mp (ClassType cls) (DObject (own_copy source)) of Inl _ \<Rightarrow> source | Inr d \<Rightarrow> d)"
    if "map_of (ab_cache ab1) cls = Some ?empty" for ab1
  proof -
    have "build md source cls None ab1 = (Inr ?empty, ab1)" using that by (simp add: build_def flags)
    then show ?thesis
      by (simp add: autoMap_def auto_attempt_def mapped flags initial_properties_def assms(3) split: sum.split)
  qed
  from this [OF cached] show ?thesis .
qed

lemma in_order_single [simp]: "in_order [kv] = [kv]"
  by (simp add: in_order_def)

text \<open>
  An array of objects without annotation gets its first element as the class of its members.
  \<open>plainToInstance\<close> cannot construct that, and the whole source comes back unmapped.
\<close>

theorem unannotated_array_is_returned_raw:
  assumes "md_properties md cls = Inr [key]" and "md_property md cls key = Inr info"
    and "pi_typeEnum info = TypeArray" and "pi_typeFactory info = None" and "pi_arrayMemberTypeFactory info = None"
    and "pi_arrayMemberType info = None" and "pi_arrayMemberObject info = None"
    and "md_typeOfValue md (OtherValue x) = TypeObject" and "x \<noteq> DNull"
    and "\<And>v. dm_plainToInstance mp (OtherValue x) v = Inl e"
    and "map_of ps key = Some (DArray (x # xs) aps)" and "map_of (ab_cache ab) cls = None"
  shows "fst (autoMap md mp errorReporter ab (DObject ps) (ClassTarget cls) None) = Inr (DObject ps)"
proof -
  let ?opts = "new_AutoDataMappingBuilderOptions None"
  let ?ch = "[(key, auto_node ObjectArray key (nullable ?opts info) (Some (OtherValue x)) [])]"
  have flags: "flag False f None = False" "ro_disableCache ?opts = False" for f
    by (simp_all add: flag_def new_AutoDataMappingBuilderOptions_def)
  have mem: "member (DObject ps) key = DArray (x # xs) aps" using assms(11) by (simp add: member_def get_own_def)
  have mt: "member_type info x = OtherValue x" "\<not> is_scalar_array md info x"
    using assms(5,6,8) by (simp_all add: member_type_def is_scalar_array_def)
  have "internalBuild md ?opts x (pi_arrayMemberObject info) = (None, [])"
    by (simp add: internalBuild.simps assms(7))
  then have "internalBuild md ?opts (DObject ps) (Some cls) = (None, ?ch)"
    by (simp add: internalBuild.simps [of _ _ "DObject ps"] build_properties.simps build_property.simps assms(1-4) resolve_type_def mem mt)
  then have build: "build md (DObject ps) cls None ab = (Inr (new_DataMappingBuilder\<lparr>bd_nodes := ?ch\<rparr>),
      ab\<lparr>ab_cache := AList.update cls (new_DataMappingBuilder\<lparr>bd_nodes := ?ch\<rparr>) (ab_cache ab)\<rparr>)"
    by (simp add: build_def Let_def flags assms(12))
  have own: "hasOwnProperty (DObject ps) key = Inr True" "get_own (DObject ps) key = DArray (x # xs) aps"
    using assms(11) by (simp_all add: hasOwnProperty_def get_own_def)
  have child: "fst (map_child mp [] False (auto_node ObjectArray key opt (Some (OtherValue x)) []) [key] (DObject ps) (DObject ob) caches) = Inl e"
    for opt ob caches
    using assms(9,10) by (simp add: auto_node_def map_child.simps map_elements.simps prop_name_def own Let_def
        buildArrayMemberDestination_def resolveArrayMemberConstructor_def)
  have "fst (run_sub_nodes mp [] False ?ch [] (DObject ps) (DObject ob) caches) = Inl e" for ob caches
    using child [of "nullable ?opts info" ob caches]
    by (cases "map_child mp [] False (snd (hd ?ch)) [key] (DObject ps) (DObject ob) caches")
      (simp add: run_sub_nodes.simps)
  then have "fst (DataMapper_map mp (new_DataMappingBuilder\<lparr>bd_nodes := ?ch\<rparr>) (DObject ps) (Some (ClassType cls)) (Some False)) = Inl e"
    by (simp add: DataMapper_map_run finish_map_def new_DataMappingBuilder_def)
  then obtain b' where "DataMapper_map mp (new_DataMappingBuilder\<lparr>bd_nodes := ?ch\<rparr>) (DObject ps) (Some (ClassType cls)) (Some False) = (Inl e, b')"
    by (metis prod.collapse)
  then show ?thesis by (simp add: autoMap_def auto_attempt_def build flags)
qed

section \<open>The theorems on a sample class\<close>

definition sample_metadata :: metadata where
  "sample_metadata = \<lparr>md_properties = (\<lambda>cls. if cls = ''User'' then Inr [''name'', ''items''] else Inl (plain_error ''no class'')),
     md_property = (\<lambda>cls key. Inr \<lparr>pi_typeEnum = (if key = ''name'' then TypeString else TypeArray), pi_typeObject = None,
       pi_isNullable = None, pi_arrayMemberObject = None, pi_typeFactory = None, pi_arrayMemberTypeFactory = None,
       pi_arrayMemberType = None\<rparr>),
     md_typeOfValue = (\<lambda>t. case t of OtherValue (DObject _) \<Rightarrow> TypeObject | _ \<Rightarrow> TypeString)\<rparr>"

theorem auto_schema_wf_witness:
  "\<exists>b ab'. build sample_metadata (DObject [(''name'', DNumber ''7'')]) ''User'' None \<lparr>ab_cache = []\<rparr> = (Inr b, ab') \<and>
    wf_nodes (bd_nodes b) \<and> bd_nodes b =
      [(''name'', auto_leaf Leaf ''name'' True [(''PRISTINE_STRING_NORMALIZER'', DUndefined)])]"
proof -
  let ?b = "new_DataMappingBuilder\<lparr>bd_nodes := [(''name'', auto_leaf Leaf ''name'' True [(''PRISTINE_STRING_NORMALIZER'', DUndefined)])]\<rparr>"
  have build: "build sample_metadata (DObject [(''name'', DNumber ''7'')]) ''User'' None \<lparr>ab_cache = []\<rparr> =
      (Inr ?b, \<lparr>ab_cache = [(''User'', ?b)]\<rparr>)"
    by (simp add: build_def Let_def new_AutoDataMappingBuilderOptions_def flag_def internalBuild.simps build_properties.simps
        build_property.simps sample_metadata_def resolve_type_def member_def get_own_def field_normalizers_def
        scalar_normalizers_def nullable_def StringNormalizerUniqueKey_def)
  with auto_schema_wf [OF build] show ?thesis by simp
qed

theorem autoMap_fulfils_witness:
  "\<exists>ab'. autoMap sample_metadata sample_mapper (\<lambda>_. Inr ()) \<lparr>ab_cache = []\<rparr> (DString ''x'') (PrimitiveTarget PSymbol) None =
    (Inr (DString ''x''), ab', [])"
proof -
  have "\<not> flag False ao_throwOnErrors None" by (simp add: flag_def)
  from autoMap_fulfils [OF this, of "\<lambda>_. Inr ()" sample_metadata sample_mapper "\<lparr>ab_cache = []\<rparr>" "DString ''x''" "PrimitiveTarget PSymbol"]
  show ?thesis by (auto simp: flag_def auto_attempt_def primitive_normalizer_def)
qed

theorem null_source_poisons_cache_witness:
  "fst (autoMap sample_metadata sample_mapper (\<lambda>_. Inr ())
      (fst (snd (autoMap sample_metadata sample_mapper (\<lambda>_. Inr ()) \<lparr>ab_cache = []\<rparr> DNull (ClassTarget ''User'') None)))
      (DObject [(''name'', DNumber ''7'')]) (ClassTarget ''User'') None) = Inr (DInstance ''User'' [] [])"
  using null_source_poisons_cache [of DNull "\<lparr>ab_cache = []\<rparr>" "''User''" "DObject [(''name'', DNumber ''7'')]"]
  by (simp add: sample_mapper_def new_DataMapper_def)

end
