(* ===== verification/Http_Cors.thy ===== *)
theory Http_Cors
  imports Pristine_Prelude
begin

text \<open>
  The CORS policy of the http package (\<open>cors/cors-request.handler.ts\<close>): the configured lists,
  the decision context read from a request's headers, the Host and Origin allowlists, and the
  headers of a preflight answer and of an actual response. The maximum age is a natural number
  of seconds. The headers of a request hold what Node hands over: one text, or a list of them.
\<close>

section \<open>Configuration\<close>

datatype list_setting = Unset | CommaText string | TextList "string list"

definition normalizeList :: "list_setting \<Rightarrow> string list" where
  "normalizeList value =
     (case value of
        Unset \<Rightarrow> []
      | CommaText s \<Rightarrow> filter (\<lambda>p. p \<noteq> []) (map trim (split_on CHR '','' s))
      | TextList ps \<Rightarrow> filter (\<lambda>p. p \<noteq> []) (map trim ps))"

record cors_handler =
  co_allowedOrigins :: "string list"
  co_allowedMethods :: "string list"
  co_allowedHeaders :: "string list"
  co_exposedHeaders :: "string list"
  co_maxAge :: nat
  co_allowCredentials :: bool
  co_allowPrivateNetwork :: bool
  co_allowedHosts :: "string list"

definition new_CorsRequestHandler ::
  "list_setting \<Rightarrow> list_setting \<Rightarrow> list_setting \<Rightarrow> list_setting \<Rightarrow> nat \<Rightarrow> bool \<Rightarrow> bool \<Rightarrow> list_setting \<Rightarrow> cors_handler" where
  "new_CorsRequestHandler origins methods headers exposed maxAge credentials privateNetwork hosts =
     \<lparr>co_allowedOrigins = normalizeList origins, co_allowedMethods = normalizeList methods,
      co_allowedHeaders = normalizeList headers, co_exposedHeaders = normalizeList exposed,
      co_maxAge = maxAge, co_allowCredentials = credentials,
      co_allowPrivateNetwork = privateNetwork, co_allowedHosts = normalizeList hosts\<rparr>"

definition isOriginCheckEnabled :: "cors_handler \<Rightarrow> bool" where
  "isOriginCheckEnabled co \<longleftrightarrow> length (co_allowedOrigins co) > 0"

definition isHostCheckEnabled :: "cors_handler \<Rightarrow> bool" where
  "isHostCheckEnabled co \<longleftrightarrow> length (co_allowedHosts co) > 0"

definition cors_isEnabled :: "cors_handler \<Rightarrow> bool" where
  "cors_isEnabled co \<longleftrightarrow> isOriginCheckEnabled co \<or> isHostCheckEnabled co"

section \<open>The decision context\<close>

datatype header_value = OneValue string | ManyValues "string list"

record cors_context =
  cc_method :: string
  cc_origin :: "string option"
  cc_host :: "string option"
  cc_requestMethod :: "string option"
  cc_requestHeaders :: "string option"
  cc_requestPrivateNetwork :: bool

definition readHeader :: "header_value obj \<Rightarrow> string \<Rightarrow> string option" where
  "readHeader headers name =
     (case obj_get headers name of
        None \<Rightarrow> None
      | Some (OneValue v) \<Rightarrow> Some v
      | Some (ManyValues []) \<Rightarrow> None
      | Some (ManyValues (v # _)) \<Rightarrow> Some v)"

definition buildContext :: "string option \<Rightarrow> header_value obj \<Rightarrow> cors_context" where
  "buildContext method headers =
     \<lparr>cc_method = to_upper (case method of Some m \<Rightarrow> m | None \<Rightarrow> ''GET''),
      cc_origin = readHeader headers ''origin'',
      cc_host = readHeader headers ''host'',
      cc_requestMethod = readHeader headers ''access-control-request-method'',
      cc_requestHeaders = readHeader headers ''access-control-request-headers'',
      cc_requestPrivateNetwork =
        (to_lower (case readHeader headers ''access-control-request-private-network'' of
           Some v \<Rightarrow> v | None \<Rightarrow> []) = ''true'')\<rparr>"

section \<open>Decisions\<close>

definition isHostAllowed :: "cors_handler \<Rightarrow> string option \<Rightarrow> bool" where
  "isHostAllowed co host =
     (if \<not> isHostCheckEnabled co then True
      else case host of
        None \<Rightarrow> False
      | Some h \<Rightarrow> list_ex (\<lambda>a. to_lower a = to_lower (trim h)) (co_allowedHosts co))"

definition isOriginAllowed :: "cors_handler \<Rightarrow> string option \<Rightarrow> bool" where
  "isOriginAllowed co origin =
     (case origin of
        None \<Rightarrow> False
      | Some v \<Rightarrow> list_ex (\<lambda>a. a = trim v) (co_allowedOrigins co))"

definition buildPreflightResponse :: "cors_handler \<Rightarrow> cors_context \<Rightarrow> (nat \<times> string obj) option" where
  "buildPreflightResponse co cx =
     (if \<not> isOriginCheckEnabled co then None
      else if cc_method cx \<noteq> ''OPTIONS'' \<or> cc_requestMethod cx = None then None
      else Some (204,
        if isOriginAllowed co (cc_origin cx) then
          [(''Access-Control-Allow-Origin'', the (cc_origin cx)), (''Vary'', ''Origin''),
           (''Access-Control-Allow-Methods'', join '', '' (co_allowedMethods co)),
           (''Access-Control-Allow-Headers'', join '', '' (co_allowedHeaders co)),
           (''Access-Control-Max-Age'', show_nat (co_maxAge co))] @
          (if co_allowCredentials co then [(''Access-Control-Allow-Credentials'', ''true'')] else []) @
          (if co_allowPrivateNetwork co \<and> cc_requestPrivateNetwork cx
           then [(''Access-Control-Allow-Private-Network'', ''true'')] else [])
        else []))"

definition buildResponseHeaders :: "cors_handler \<Rightarrow> string option \<Rightarrow> string obj" where
  "buildResponseHeaders co origin =
     (if \<not> isOriginCheckEnabled co \<or> \<not> isOriginAllowed co origin then []
      else
        [(''Access-Control-Allow-Origin'', the origin), (''Vary'', ''Origin'')] @
        (if co_allowCredentials co then [(''Access-Control-Allow-Credentials'', ''true'')] else []) @
        (if length (co_exposedHeaders co) > 0
         then [(''Access-Control-Expose-Headers'', join '', '' (co_exposedHeaders co))] else []))"

section \<open>What the policy admits\<close>

lemma normalizeList_trimmed: "p \<in> set (normalizeList value) \<Longrightarrow> p \<noteq> [] \<and> (\<exists>q. p = trim q)"
  by (auto simp: normalizeList_def split: list_setting.splits)

lemma isOriginAllowed_iff:
  "isOriginAllowed co origin \<longleftrightarrow> (\<exists>v. origin = Some v \<and> trim v \<in> set (co_allowedOrigins co))"
  by (auto simp: isOriginAllowed_def list_ex_iff split: option.splits)

lemma isOriginAllowed_enabled: "isOriginAllowed co origin \<Longrightarrow> isOriginCheckEnabled co"
  by (auto simp: isOriginAllowed_iff isOriginCheckEnabled_def)

lemma response_headers_disallowed: "\<not> isOriginAllowed co origin \<Longrightarrow> buildResponseHeaders co origin = []"
  by (simp add: buildResponseHeaders_def)

lemma response_headers_origin:
  "obj_get (buildResponseHeaders co origin) ''Access-Control-Allow-Origin'' =
     (if isOriginAllowed co origin then origin else None)"
  by (auto simp: buildResponseHeaders_def isOriginAllowed_iff isOriginCheckEnabled_def)

lemma preflight_headers_origin:
  assumes "buildPreflightResponse co cx = Some (status, headers)"
  shows "obj_get headers ''Access-Control-Allow-Origin'' =
           (if isOriginAllowed co (cc_origin cx) then cc_origin cx else None)"
    and "status = 204"
  using assms by (auto simp: buildPreflightResponse_def isOriginAllowed_iff split: if_splits)

lemma buildPreflightResponse_owned:
  "buildPreflightResponse co cx \<noteq> None \<longleftrightarrow>
     isOriginCheckEnabled co \<and> cc_method cx = ''OPTIONS'' \<and> cc_requestMethod cx \<noteq> None"
  by (auto simp: buildPreflightResponse_def)

text \<open>
  An origin gets \<open>Access-Control-Allow-Origin\<close>, on a preflight and on an actual response alike,
  exactly when its trimmed text is in the configured list, and then the header is the origin as
  the request sent it: no other value, and no wildcard the configuration does not hold and the
  request did not send. A preflight of another origin is still answered, without any header.
\<close>

theorem allow_origin_is_echo:
  shows "obj_get (buildResponseHeaders co (cc_origin cx)) ''Access-Control-Allow-Origin'' = Some v \<longleftrightarrow>
           cc_origin cx = Some v \<and> trim v \<in> set (co_allowedOrigins co)"
    and "(\<exists>status headers. buildPreflightResponse co cx = Some (status, headers) \<and>
            obj_get headers ''Access-Control-Allow-Origin'' = Some v) \<longleftrightarrow>
           cc_method cx = ''OPTIONS'' \<and> cc_requestMethod cx \<noteq> None \<and>
           cc_origin cx = Some v \<and> trim v \<in> set (co_allowedOrigins co)"
    and "\<not> isOriginAllowed co (cc_origin cx) \<longleftrightarrow>
           buildResponseHeaders co (cc_origin cx) = [] \<and> buildPreflightResponse co cx \<in> {None, Some (204, [])}"
  by (auto simp: response_headers_origin isOriginAllowed_iff buildPreflightResponse_def
      isOriginCheckEnabled_def buildResponseHeaders_def)

end
