(* ===== verification/Request_Body.thy ===== *)
theory Request_Body
  imports Pristine_Errors "HOL-Library.Word"
begin

text \<open>
  How the http package reads a request body: \<open>utils/request-body.decoder.ts\<close>, and the bounded
  \<open>readBody\<close> of \<open>servers/kernel.http-server.ts\<close> over the events of the incoming stream. The
  runtime's own decoders are arguments: \<open>utf8\<close> is \<open>bytes.toString("utf8")\<close>, \<open>textDecoder\<close> the
  \<open>TextDecoder\<close> of a charset (\<open>None\<close> when it throws) and \<open>jsonParse\<close> is \<open>JSON.parse\<close>
  (\<open>None\<close> when it throws).
\<close>

type_synonym bytes = "8 word list"

section \<open>Content types\<close>

definition media_unquote :: "string \<Rightarrow> string" where
  "media_unquote v =
     (if 2 \<le> length v \<and> hd v = CHR 0x22 \<and> last v = CHR 0x22 \<and>
         list_all (\<lambda>c. c \<noteq> CHR 0x0A \<and> c \<noteq> CHR 0x0D) (butlast (tl v))
      then butlast (tl v) else v)"

definition charset_parameter :: "string \<Rightarrow> string option \<Rightarrow> string option" where
  "charset_parameter p charset =
     (case index_of CHR ''='' p of
        None \<Rightarrow> charset
      | Some separator \<Rightarrow>
          (let name = to_lower (trim (take separator p)) in
           if name \<noteq> ''charset'' then charset
           else let value = to_lower (media_unquote (trim (drop (separator + 1) p))) in
             if value \<noteq> [] then Some value else charset))"

definition parseContentType :: "string option \<Rightarrow> string \<times> string option" where
  "parseContentType header =
     (case header of
        None \<Rightarrow> ([], None)
      | Some h \<Rightarrow> (let parts = split_on CHR '';'' h in
          (to_lower (trim (hd parts)), foldl (\<lambda>cs p. charset_parameter p cs) None (tl parts))))"

definition isJson :: "string \<Rightarrow> bool" where
  "isJson mediaType \<longleftrightarrow> mediaType = ''application/json'' \<or> ends_with mediaType ''+json''"

definition textMediaTypes :: "string list" where
  "textMediaTypes = [''application/x-www-form-urlencoded'', ''application/xml'', ''application/javascript'']"

definition isText :: "string \<Rightarrow> string option \<Rightarrow> bool" where
  "isText mediaType charset =
     (if charset \<noteq> None then True
      else starts_with mediaType ''text/'' \<or> mediaType \<in> set textMediaTypes)"

section \<open>Decoding\<close>

record 'j text_runtime =
  tr_utf8 :: "bytes \<Rightarrow> string"
  tr_textDecoder :: "string \<Rightarrow> bytes \<Rightarrow> string option"
  tr_jsonParse :: "string \<Rightarrow> 'j option"

definition decodeText :: "'j text_runtime \<Rightarrow> bytes \<Rightarrow> string option \<Rightarrow> string" where
  "decodeText rt bs charset =
     (case charset of
        None \<Rightarrow> tr_utf8 rt bs
      | Some c \<Rightarrow>
          if c = ''utf-8'' \<or> c = ''utf8'' then tr_utf8 rt bs
          else case tr_textDecoder rt c bs of Some s \<Rightarrow> s | None \<Rightarrow> tr_utf8 rt bs)"

text \<open>What a handler finds on \<open>request.body\<close>; \<open>EmptyObject\<close> is the initial value.\<close>

datatype 'j request_body = EmptyObject | ParsedBody 'j | TextBody string | BytesBody bytes

definition decode_body :: "'j text_runtime \<Rightarrow> string option \<Rightarrow> bytes \<Rightarrow> 'j request_body" where
  "decode_body rt header bs =
     (let (mediaType, charset) = parseContentType header in
      if isJson mediaType then
        (let s = decodeText rt bs charset in
         case tr_jsonParse rt s of Some j \<Rightarrow> ParsedBody j | None \<Rightarrow> TextBody s)
      else if isText mediaType charset then TextBody (decodeText rt bs charset)
      else BytesBody bs)"

section \<open>Reading the stream\<close>

text \<open>The events of an incoming message, in order; a stream that stops sending emits no more.\<close>

datatype stream_event = DataEvent bytes | EndEvent | ErrorEvent thrown

definition PayloadTooLargeError :: "string \<Rightarrow> thrown" where
  "PayloadTooLargeError message =
     new_PristineError ''PayloadTooLargeError'' message None (Some ''PAYLOAD_TOO_LARGE'') (Some 413)
       (Some ''maxBodySize, receivedBytes'') None None"

definition too_many_bytes :: "nat \<Rightarrow> thrown" where
  "too_many_bytes maxBodySize = PayloadTooLargeError
     (''KernelHttpServer: request body exceeds the maximum body size of '' @ show_nat maxBodySize @ '' bytes.'')"

fun read_chunks :: "nat \<Rightarrow> nat \<Rightarrow> bytes list \<Rightarrow> stream_event list \<Rightarrow> (thrown, bytes) settled" where
  "read_chunks maxBodySize received chunks [] = NeverSettles"
| "read_chunks maxBodySize received chunks (DataEvent chunk # es) =
     (if received + length chunk > maxBodySize then Rejected (too_many_bytes maxBodySize)
      else read_chunks maxBodySize (received + length chunk) (chunks @ [chunk]) es)"
| "read_chunks maxBodySize received chunks (EndEvent # es) = Fulfilled (concat chunks)"
| "read_chunks maxBodySize received chunks (ErrorEvent e # es) = Rejected e"

text \<open>
  \<open>Number\<close> of a \<open>Content-Length\<close> header, on what Node's parser lets through: decimal digits. Any
  other text, and an absent header, is not a finite number here.
\<close>

definition declared_length :: "string option \<Rightarrow> nat option" where
  "declared_length header =
     (case header of
        None \<Rightarrow> None
      | Some s \<Rightarrow> if trim s \<noteq> [] \<and> list_all is_digit (trim s) then Some (num_value (trim s)) else None)"

definition readBody :: "nat \<Rightarrow> string option \<Rightarrow> stream_event list \<Rightarrow> (thrown, bytes) settled" where
  "readBody maxBodySize contentLength events =
     (case declared_length contentLength of
        Some n \<Rightarrow>
          if n > maxBodySize then
            Rejected (PayloadTooLargeError (''KernelHttpServer: Content-Length '' @ show_nat n @
              '' exceeds the maximum body size of '' @ show_nat maxBodySize @ '' bytes.''))
          else read_chunks maxBodySize 0 [] events
      | None \<Rightarrow> read_chunks maxBodySize 0 [] events)"

section \<open>Which bodies are accepted\<close>

text \<open>The data events before the first event of another kind, and that event.\<close>

fun stream_data :: "stream_event list \<Rightarrow> bytes list" where
  "stream_data (DataEvent c # es) = c # stream_data es"
| "stream_data _ = []"

fun stream_close :: "stream_event list \<Rightarrow> stream_event option" where
  "stream_close [] = None"
| "stream_close (DataEvent c # es) = stream_close es"
| "stream_close (e # es) = Some e"

lemma read_chunks_within:
  assumes "received + length (concat (stream_data es)) \<le> maxBodySize"
  shows "read_chunks maxBodySize received chunks es =
     (case stream_close es of
        None \<Rightarrow> NeverSettles
      | Some (ErrorEvent e) \<Rightarrow> Rejected e
      | Some _ \<Rightarrow> Fulfilled (concat chunks @ concat (stream_data es)))"
  using assms
  by (induction maxBodySize received chunks es rule: read_chunks.induct)
    (simp_all split: option.splits stream_event.splits)

lemma read_chunks_over:
  assumes "maxBodySize < received + length (concat (stream_data es))" and "received \<le> maxBodySize"
  shows "read_chunks maxBodySize received chunks es = Rejected (too_many_bytes maxBodySize)"
  using assms by (induction maxBodySize received chunks es rule: read_chunks.induct) simp_all

lemma declared_length_digits: "declared_length (Some (show_nat n)) = Some n"
proof -
  have "dropWhile is_space s = s" if "list_all is_digit s" for s
  proof (cases s)
    case (Cons c t)
    then have "is_digit c" using that by simp
    then have "\<not> is_space c" by (auto simp: is_digit_def is_space_def)
    then show ?thesis by (simp add: Cons)
  qed simp
  moreover have "list_all is_digit (rev (show_nat n))" by simp
  ultimately have "trim (show_nat n) = show_nat n" by (simp add: trim_def)
  then show ?thesis by (simp add: declared_length_def)
qed

lemma readBody_fulfilled:
  "readBody maxBodySize contentLength events = Fulfilled body \<longleftrightarrow>
     stream_close events = Some EndEvent \<and> body = concat (stream_data events) \<and>
     length body \<le> maxBodySize \<and>
     (case declared_length contentLength of Some n \<Rightarrow> n \<le> maxBodySize | None \<Rightarrow> True)"
proof (cases "length (concat (stream_data events)) \<le> maxBodySize")
  case True
  have "stream_close events \<noteq> Some (DataEvent c)" for c
    by (induction events rule: stream_close.induct) auto
  with True show ?thesis
    by (auto simp: readBody_def read_chunks_within
        split: option.splits stream_event.splits)
next
  case False
  then have "read_chunks maxBodySize 0 [] events = Rejected (too_many_bytes maxBodySize)"
    by (intro read_chunks_over) simp_all
  with False show ?thesis
    by (auto simp: readBody_def split: option.splits)
qed

text \<open>
  \<open>readBody\<close> settles with a body exactly when the stream ends, the declared length (when it is a
  number) and the number of bytes received are both within \<open>maxBodySize\<close>; the body is then every
  byte of the stream, in order and unaltered. A body one byte over the limit is refused with the
  413 error, whatever length was declared.
\<close>

theorem readBody_accepts_iff:
  "readBody maxBodySize contentLength events = Fulfilled body \<longleftrightarrow>
     stream_close events = Some EndEvent \<and> body = concat (stream_data events) \<and>
     length body \<le> maxBodySize \<and>
     (case declared_length contentLength of Some n \<Rightarrow> n \<le> maxBodySize | None \<Rightarrow> True)"
  by (rule readBody_fulfilled)

end
