(* ===== verification/Js_Values.thy ===== *)
theory Js_Values
  imports Object_Util Pristine_Errors
begin

text \<open>
  Reading untyped values: member access with and without optional chaining, own properties,
  truthiness, \<open>typeof\<close>, \<open>instanceof\<close>, class instances built field by field, and the text
  \<open>JSON.stringify\<close> makes. Among the atoms of \<open>jsv\<close> a string is its text after a double quote;
  numbers, booleans and functions are the text they show. The text of an instance is the name of
  its class, possibly followed by a hash sign and more. Objects with an own property named
  \<open>hasOwnProperty\<close>, and the indexes and the length of a string, are outside the model.
\<close>

section \<open>Atoms\<close>

definition js_string :: "string \<Rightarrow> jsv" where
  "js_string s = JAtom (CHR 0x22 # s)"

definition as_string :: "jsv \<Rightarrow> string option" where
  "as_string v = (case v of JAtom (c # s) \<Rightarrow> if c = CHR 0x22 then Some s else None | _ \<Rightarrow> None)"

lemma as_string_js_string [simp]: "as_string (js_string s) = Some s"
  by (simp add: as_string_def js_string_def)

lemma js_string_inject [simp]: "js_string s = js_string t \<longleftrightarrow> s = t"
  by (simp add: js_string_def)

lemma as_string_Some: "as_string v = Some s \<longleftrightarrow> v = js_string s"
  by (auto simp: as_string_def js_string_def split: jsv.splits list.splits if_splits)

definition nullish :: "jsv \<Rightarrow> bool" where
  "nullish v \<longleftrightarrow> v = JUndefined \<or> v = JNull"

definition truthy :: "jsv \<Rightarrow> bool" where
  "truthy v = (case v of
     JUndefined \<Rightarrow> False | JNull \<Rightarrow> False
   | JAtom a \<Rightarrow> a \<notin> set [''false'', ''0'', ''-0'', ''NaN'', [CHR 0x22]]
   | _ \<Rightarrow> True)"

text \<open>\<open>a ?? b\<close>, and \<open>typeof v === "object"\<close> (which holds of \<open>null\<close>).\<close>

definition coalesce :: "jsv \<Rightarrow> jsv \<Rightarrow> jsv" where
  "coalesce v w = (if nullish v then w else v)"

definition typeof_object :: "jsv \<Rightarrow> bool" where
  "typeof_object v = (case v of JUndefined \<Rightarrow> False | JAtom _ \<Rightarrow> False | _ \<Rightarrow> True)"

definition is_array :: "jsv \<Rightarrow> bool" where
  "is_array v = (case v of JArray _ \<Rightarrow> True | _ \<Rightarrow> False)"

definition class_of :: "jsv \<Rightarrow> string option" where
  "class_of v = (case v of JInstance n _ \<Rightarrow> Some (takeWhile (\<lambda>c. c \<noteq> CHR ''#'') n) | _ \<Rightarrow> None)"

definition instance_of :: "string \<Rightarrow> jsv \<Rightarrow> bool" where
  "instance_of c v \<longleftrightarrow> class_of v = Some c"

text \<open>\<open>String(v)\<close>, where a mapper puts a value in the place of a text.\<close>

definition js_text :: "jsv \<Rightarrow> string" where
  "js_text v = (case v of
     JUndefined \<Rightarrow> ''undefined'' | JNull \<Rightarrow> ''null''
   | JAtom a \<Rightarrow> (case as_string v of Some s \<Rightarrow> s | None \<Rightarrow> a)
   | _ \<Rightarrow> ''[object Object]'')"

lemma js_text_string [simp]: "js_text (js_string s) = s"
  by (simp add: js_text_def js_string_def as_string_def)

section \<open>Members\<close>

definition read_error :: "jsv \<Rightarrow> string \<Rightarrow> thrown" where
  "read_error v k = NativeErr ''TypeError''
     (''Cannot read properties of '' @ js_text v @ '' (reading '' @ quoted k @ '')'') None None"

definition get_prop :: "jsv \<Rightarrow> string \<Rightarrow> thrown + jsv" where
  "get_prop v k = (case v of
     JUndefined \<Rightarrow> Inl (read_error v k) | JNull \<Rightarrow> Inl (read_error v k)
   | JObject ob \<Rightarrow> Inr (property ob k) | JInstance _ ob \<Rightarrow> Inr (property ob k)
   | _ \<Rightarrow> Inr JUndefined)"

definition get_index :: "jsv \<Rightarrow> nat \<Rightarrow> thrown + jsv" where
  "get_index v i = (case v of JArray xs \<Rightarrow> Inr (element xs i) | _ \<Rightarrow> get_prop v (show_nat i))"

text \<open>A member chain such as \<open>a.b?.c\<close>: a nullish value before \<open>?.\<close> ends the whole chain.\<close>

datatype member = Dot string | Opt string

fun chain :: "jsv \<Rightarrow> member list \<Rightarrow> thrown + jsv" where
  "chain v [] = Inr v"
| "chain v (Dot k # ms) = sum_bind (get_prop v k) (\<lambda>w. chain w ms)"
| "chain v (Opt k # ms) = (if nullish v then Inr JUndefined else sum_bind (get_prop v k) (\<lambda>w. chain w ms))"

lemma sum_bind_Inr_id [simp]: "sum_bind v Inr = v"
  by (cases v) simp_all

definition has_own :: "jsv \<Rightarrow> string \<Rightarrow> thrown + bool" where
  "has_own v k = (case v of
     JUndefined \<Rightarrow> Inl (read_error v ''hasOwnProperty'') | JNull \<Rightarrow> Inl (read_error v ''hasOwnProperty'')
   | JObject ob \<Rightarrow> Inr (obj_has ob k) | JInstance _ ob \<Rightarrow> Inr (obj_has ob k)
   | JArray xs \<Rightarrow> Inr (k \<in> set (map show_nat [0..<length xs]))
   | JAtom _ \<Rightarrow> Inr False)"

text \<open>\<open>a && b && ...\<close> over tests that may throw: the first one that does not hold ends it.\<close>

fun all_tests :: "(thrown + bool) list \<Rightarrow> thrown + bool" where
  "all_tests [] = Inr True"
| "all_tests (t # ts) = (case t of Inl e \<Rightarrow> Inl e | Inr False \<Rightarrow> Inr False | Inr True \<Rightarrow> all_tests ts)"

lemma all_tests_True: "all_tests ts = Inr True \<longleftrightarrow> (\<forall>t \<in> set ts. t = Inr True)"
  by (induction ts rule: all_tests.induct) (auto split: sum.splits bool.splits)

definition equals_string :: "thrown + jsv \<Rightarrow> string \<Rightarrow> thrown + bool" where
  "equals_string v s = sum_bind v (\<lambda>w. Inr (w = js_string s))"

lemma equals_string_True: "equals_string v s = Inr True \<longleftrightarrow> v = Inr (js_string s)"
  by (cases v) (simp_all add: equals_string_def)

section \<open>Objects built field by field\<close>

fun eval_fields :: "(string \<times> (thrown + jsv)) list \<Rightarrow> thrown + (string \<times> jsv) list" where
  "eval_fields [] = Inr []"
| "eval_fields ((k, v) # fs) = sum_bind v (\<lambda>w. sum_bind (eval_fields fs) (\<lambda>r. Inr ((k, w) # r)))"

definition new_object :: "string \<Rightarrow> (string \<times> (thrown + jsv)) list \<Rightarrow> thrown + jsv" where
  "new_object c fs = sum_bind (eval_fields fs) (\<lambda>r. Inr (JInstance c r))"

definition plain_object :: "(string \<times> (thrown + jsv)) list \<Rightarrow> thrown + jsv" where
  "plain_object fs = sum_bind (eval_fields fs) (\<lambda>r. Inr (JObject r))"

definition js_date :: "jsv \<Rightarrow> jsv" where
  "js_date v = JInstance ''Date'' [(''value'', v)]"

lemma eval_fields_Inr:
  "eval_fields fs = Inr r \<longleftrightarrow> map fst r = map fst fs \<and> map snd fs = map (\<lambda>kv. Inr (snd kv)) r"
proof (induction fs arbitrary: r)
  case (Cons f fs)
  then show ?case by (cases f; cases r) (auto simp: sum_bind_Inr_conv)
qed auto

lemma eval_fields_property:
  assumes "eval_fields fs = Inr r" and "map_of fs k = Some v"
  shows "v = Inr (property r k)"
  using assms
proof (induction fs arbitrary: r)
  case (Cons f fs)
  obtain k' v' where f: "f = (k', v')" by (cases f)
  with Cons.prems obtain w r' where w: "v' = Inr w" and r': "eval_fields fs = Inr r'" and r: "r = (k', w) # r'"
    by (auto simp: sum_bind_Inr_conv)
  show ?case
  proof (cases "k = k'")
    case True
    with Cons.prems f w r show ?thesis by (simp add: property_def)
  next
    case False
    with Cons.prems f have "map_of fs k = Some v" by simp
    from Cons.IH [OF r' this] False r show ?thesis by (simp add: property_def)
  qed
qed simp

text \<open>The events of a list of records, each built by \<open>f\<close> with the position it has.\<close>

fun collect :: "(nat \<Rightarrow> 'a \<Rightarrow> thrown + 'b) \<Rightarrow> nat \<Rightarrow> 'a list \<Rightarrow> thrown + 'b list" where
  "collect f i [] = Inr []"
| "collect f i (x # xs) = sum_bind (f i x) (\<lambda>y. sum_bind (collect f (Suc i) xs) (\<lambda>ys. Inr (y # ys)))"

lemma collect_Inr:
  "collect f i xs = Inr ys \<longleftrightarrow> length ys = length xs \<and> (\<forall>n < length xs. f (i + n) (xs ! n) = Inr (ys ! n))"
proof (induction xs arbitrary: i ys)
  case (Cons x xs)
  show ?case
  proof (cases ys)
    case (Cons y ys')
    have "(\<forall>n < length (x # xs). f (i + n) ((x # xs) ! n) = Inr ((y # ys') ! n)) \<longleftrightarrow>
      f i x = Inr y \<and> (\<forall>n < length xs. f (Suc i + n) (xs ! n) = Inr (ys' ! n))"
      by (auto simp: less_Suc_eq_0_disj)
    with Cons Cons.IH [of "Suc i" ys'] show ?thesis
      by (auto simp: sum_bind_Inr_conv)
  qed (auto simp: sum_bind_Inr_conv)
qed auto

text \<open>\<open>for (const x of v)\<close> over anything but an array throws here.\<close>

definition iterate :: "jsv \<Rightarrow> thrown + jsv list" where
  "iterate v = (case v of JArray xs \<Rightarrow> Inr xs
     | _ \<Rightarrow> Inl (NativeErr ''TypeError'' (js_text v @ '' is not iterable'') None None))"

section \<open>JSON\<close>

definition hex_digit :: "nat \<Rightarrow> char" where
  "hex_digit d = (if d < 10 then digit_char d else char_of (87 + d))"

definition json_char :: "char \<Rightarrow> string" where
  "json_char c =
     (let n = (of_char c :: nat) in
      if n = 34 then [CHR 0x5C, CHR 0x22]
      else if n = 92 then [CHR 0x5C, CHR 0x5C]
      else if n = 8 then [CHR 0x5C, CHR ''b''] else if n = 9 then [CHR 0x5C, CHR ''t'']
      else if n = 10 then [CHR 0x5C, CHR ''n''] else if n = 12 then [CHR 0x5C, CHR ''f'']
      else if n = 13 then [CHR 0x5C, CHR ''r'']
      else if n < 32 then [CHR 0x5C, CHR ''u'', CHR ''0'', CHR ''0'', hex_digit (n div 16), hex_digit (n mod 16)]
      else [c])"

definition json_string :: "string \<Rightarrow> string" where
  "json_string s = [CHR 0x22] @ concat (map json_char s) @ [CHR 0x22]"

text \<open>
  \<open>JSON.stringify\<close> of an atom: strings are quoted, infinities and NaN become \<open>null\<close>, and what is
  neither a string, a number nor a boolean has no text. Values of the model have no cycle, and
  instances no \<open>toJSON\<close>; every member of an object is listed in the order of \<open>Object.keys\<close>.
\<close>

definition json_atom :: "string \<Rightarrow> string option" where
  "json_atom a =
     (case as_string (JAtom a) of
        Some s \<Rightarrow> Some (json_string s)
      | None \<Rightarrow>
          if a \<in> set [''NaN'', ''Infinity'', ''-Infinity''] then Some ''null''
          else if a \<in> set [''true'', ''false''] then Some a
          else (case a of [] \<Rightarrow> None | c # _ \<Rightarrow> if is_digit c \<or> c = CHR ''-'' then Some a else None))"

lemma size_entry: "(k, v) \<in> set (entries ob) \<Longrightarrow> size v < Suc (size_list (size_prod (\<lambda>x. 0) size) ob)"
proof -
  assume "(k, v) \<in> set (entries ob)"
  then have "(k, v) \<in> set ob" by (auto simp: entries_def)
  then have "size_prod (\<lambda>x. 0) size (k, v) \<le> size_list (size_prod (\<lambda>x. 0) size) ob"
    by (rule size_list_estimation') simp
  then show ?thesis by simp
qed

function json_stringify :: "jsv \<Rightarrow> string option" where
  "json_stringify JUndefined = None"
| "json_stringify JNull = Some ''null''"
| "json_stringify (JAtom a) = json_atom a"
| "json_stringify (JArray xs) = Some ([CHR ''[''] @
     join '','' (map (\<lambda>x. case json_stringify x of Some s \<Rightarrow> s | None \<Rightarrow> ''null'') xs) @ [CHR '']''])"
| "json_stringify (JObject ob) = Some ([CHR ''{''] @
     join '','' (concat (map (\<lambda>kv. case json_stringify (snd kv) of
       Some s \<Rightarrow> [json_string (fst kv) @ '':'' @ s] | None \<Rightarrow> []) (entries ob))) @ [CHR ''}''])"
| "json_stringify (JInstance c ob) = Some ([CHR ''{''] @
     join '','' (concat (map (\<lambda>kv. case json_stringify (snd kv) of
       Some s \<Rightarrow> [json_string (fst kv) @ '':'' @ s] | None \<Rightarrow> []) (entries ob))) @ [CHR ''}''])"
  by pat_completeness auto

termination
proof (relation "measure size", goal_cases)
  case (2 xs x)
  then show ?case by (simp add: size_list_estimation' less_Suc_eq_le)
next
  case (3 ob kv)
  then show ?case using size_entry [of "fst kv" "snd kv" ob] by simp
next
  case (4 c ob kv)
  then show ?case using size_entry [of "fst kv" "snd kv" ob] by simp
qed simp

end
