(* ===== verification/Http_Server.thy ===== *)
theory Http_Server
  imports Http_Cors Request_Body Js_Values
begin

text \<open>
  \<open>KernelHttpServer\<close> of the http package (\<open>servers/kernel.http-server.ts\<close>): one request from the
  raw message to the end of its answer. The kernel, the identifier generator and the runtime's
  decoders are arguments; log entries are left out. The answer is Node's \<open>ServerResponse\<close>: its
  status, its headers under their lower-cased names, and what it was ended with. A write that Node
  refuses (an invalid header name or value, a status outside 100..999) throws, and leaves the
  headers set before it. Only \<open>set-cookie\<close> is ever a list among the headers of a request, and a
  response that fails before its end has sent no header yet.
\<close>

section \<open>The response object of Node\<close>

datatype answer_body = TextAnswer string | BytesAnswer bytes

record server_response =
  sr_statusCode :: nat
  sr_headers :: "(string \<times> string) obj"
  sr_ended :: "answer_body option"
  sr_closesSocket :: bool

definition new_server_response :: server_response where
  "new_server_response = \<lparr>sr_statusCode = 200, sr_headers = [], sr_ended = None, sr_closesSocket = False\<rparr>"

definition is_token_char :: "char \<Rightarrow> bool" where
  "is_token_char c \<longleftrightarrow> is_letter c \<or> is_digit c \<or>
     c \<in> set [CHR ''!'', CHR ''#'', CHR ''$'', CHR ''%'', CHR ''&'', CHR 0x27, CHR ''*'', CHR ''+'',
       CHR ''-'', CHR ''.'', CHR ''^'', CHR ''_'', CHR 0x60, CHR ''|'', CHR ''~'']"

definition valid_header_name :: "string \<Rightarrow> bool" where
  "valid_header_name name \<longleftrightarrow> name \<noteq> [] \<and> list_all is_token_char name"

definition valid_header_value :: "string \<Rightarrow> bool" where
  "valid_header_value value \<longleftrightarrow>
     list_all (\<lambda>c. (of_char c :: nat) = 9 \<or> (32 \<le> (of_char c :: nat) \<and> (of_char c :: nat) \<noteq> 127)) value"

definition valid_header :: "string \<times> string \<Rightarrow> bool" where
  "valid_header h \<longleftrightarrow> valid_header_name (fst h) \<and> valid_header_value (snd h)"

definition sr_setHeader :: "string \<Rightarrow> string \<Rightarrow> server_response \<Rightarrow> thrown + server_response" where
  "sr_setHeader name value res =
     (if \<not> valid_header_name name then
        Inl (NativeErr ''TypeError'' (''Header name must be a valid HTTP token ['' @ [CHR 0x22] @ name @ [CHR 0x22] @ '']'') None None)
      else if \<not> valid_header_value value then
        Inl (NativeErr ''TypeError'' (''Invalid character in header content ['' @ [CHR 0x22] @ name @ [CHR 0x22] @ '']'') None None)
      else Inr (res\<lparr>sr_headers := obj_set (to_lower name) (name, value) (sr_headers res)\<rparr>))"

text \<open>\<open>res.end\<close> writes the head, which checks the status.\<close>

definition sr_end :: "answer_body \<Rightarrow> server_response \<Rightarrow> thrown + server_response" where
  "sr_end body res =
     (if sr_statusCode res < 100 \<or> sr_statusCode res > 999 then
        Inl (NativeErr ''RangeError'' (''Invalid status code: '' @ show_nat (sr_statusCode res)) None None)
      else Inr (res\<lparr>sr_ended := Some body\<rparr>))"

definition sr_header :: "server_response \<Rightarrow> string \<Rightarrow> string option" where
  "sr_header res name = map_option snd (obj_get (sr_headers res) (to_lower name))"

section \<open>Writing an answer\<close>

text \<open>
  A step on the response answers its new state and, when a call threw, what was thrown;
  \<open>then_write\<close> goes on only when nothing was.
\<close>

type_synonym written = "server_response \<times> thrown option"

definition then_write :: "written \<Rightarrow> (server_response \<Rightarrow> written) \<Rightarrow> written" where
  "then_write w f = (case snd w of None \<Rightarrow> f (fst w) | Some e \<Rightarrow> w)"

definition call :: "(server_response \<Rightarrow> thrown + server_response) \<Rightarrow> server_response \<Rightarrow> written" where
  "call f res = (case f res of Inl e \<Rightarrow> (res, Some e) | Inr res' \<Rightarrow> (res', None))"

definition obj_entries :: "'v obj \<Rightarrow> (string \<times> 'v) list" where
  "obj_entries ob = map (\<lambda>k. (k, the (obj_get ob k))) (obj_keys ob)"

fun set_headers :: "(string \<times> string) list \<Rightarrow> server_response \<Rightarrow> written" where
  "set_headers [] res = (res, None)"
| "set_headers ((name, value) # hs) res = then_write (call (sr_setHeader name value) res) (set_headers hs)"

definition applyHeaders :: "string obj \<Rightarrow> server_response \<Rightarrow> written" where
  "applyHeaders headers res = set_headers (obj_entries headers) res"

definition getHeader_ci :: "string obj \<Rightarrow> string \<Rightarrow> string option" where
  "getHeader_ci headers name =
     map_option snd (find (\<lambda>(k, v). to_lower k = to_lower name) (obj_entries headers))"

text \<open>
  What \<open>kernel.handle\<close> answers: a \<open>Response\<close> (or an object that looks like one), or any other
  value, which is its own body. A body that is neither text nor a buffer comes with what
  \<open>JSON.stringify\<close> makes of it, which may be \<open>undefined\<close> or a throw.
\<close>

datatype handled_body = AbsentBody | StringBody string | BufferBody bytes | ObjectBody "thrown + string option"

datatype handled =
    PristineResponse "nat option" "string obj option" handled_body
  | OtherResult handled_body

definition writeResponse :: "handled \<Rightarrow> string obj \<Rightarrow> server_response \<Rightarrow> written" where
  "writeResponse result corsHeaders res =
     (let (status, headers, body) =
        (case result of
           PristineResponse st hs b \<Rightarrow>
             (case st of Some s \<Rightarrow> s | None \<Rightarrow> 200, case hs of Some h \<Rightarrow> h | None \<Rightarrow> [], b)
         | OtherResult b \<Rightarrow> (200, [], b));
        res = res\<lparr>sr_statusCode := status\<rparr>;
        write = (\<lambda>headers answer.
          then_write (applyHeaders headers res) (\<lambda>res.
            then_write (applyHeaders corsHeaders res) (call (sr_end answer))))
      in case body of
        AbsentBody \<Rightarrow> write headers (TextAnswer [])
      | StringBody s \<Rightarrow> write headers (TextAnswer s)
      | BufferBody b \<Rightarrow> write headers (BytesAnswer b)
      | ObjectBody (Inl e) \<Rightarrow> (res, Some e)
      | ObjectBody (Inr s) \<Rightarrow>
          write (if getHeader_ci headers ''content-type'' = None
                 then obj_set ''content-type'' ''application/json'' headers else headers)
            (TextAnswer (case s of Some s \<Rightarrow> s | None \<Rightarrow> [])))"

text \<open>\<open>JSON.stringify\<close> of the body of the server's own error answers.\<close>

definition error_answer :: "string \<Rightarrow> string \<Rightarrow> answer_body" where
  "error_answer message requestId = TextAnswer
     ([CHR ''{''] @ json_string ''error'' @ [CHR '':''] @ json_string message @ [CHR '','']
      @ json_string ''requestId'' @ [CHR '':''] @ json_string requestId @ [CHR ''}''])"

section \<open>From the raw message to a request\<close>

record incoming =
  im_method :: "string option"
  im_url :: "string option"
  im_headers :: "header_value obj"
  im_encrypted :: bool
  im_stream :: "stream_event list"

record 'j server_request =
  sq_httpMethod :: string
  sq_url :: string
  sq_id :: string
  sq_groupId :: "string option"
  sq_host :: "string option"
  sq_headers :: "string obj"
  sq_rawBody :: "bytes option"
  sq_body :: "'j request_body"

definition setHeaders :: "string obj \<Rightarrow> string obj \<Rightarrow> string obj" where
  "setHeaders headers own = foldl (\<lambda>own (k, v). obj_set (to_lower k) v own) own (obj_entries headers)"

definition flat_header :: "header_value \<Rightarrow> string" where
  "flat_header v = (case v of OneValue s \<Rightarrow> s | ManyValues vs \<Rightarrow> join '', '' vs)"

definition mapToPristineRequest ::
  "'j text_runtime \<Rightarrow> nat \<Rightarrow> incoming \<Rightarrow> string \<Rightarrow> (thrown, 'j server_request) settled" where
  "mapToPristineRequest rt maxBodySize req requestId =
     (let httpMethod = to_upper (case im_method req of Some m \<Rightarrow> m | None \<Rightarrow> ''GET'');
          request = \<lparr>sq_httpMethod = httpMethod,
            sq_url = (case im_url req of Some u \<Rightarrow> u | None \<Rightarrow> ''/''),
            sq_id = requestId,
            sq_groupId = readHeader (im_headers req) ''x-pristine-event-group-id'',
            sq_host = map_option (\<lambda>h. (if im_encrypted req then ''https'' else ''http'') @ ''://'' @ h)
              (readHeader (im_headers req) ''host''),
            sq_headers = setHeaders (map (\<lambda>(k, v). (k, flat_header v)) (obj_entries (im_headers req))) [],
            sq_rawBody = None, sq_body = EmptyObject\<rparr>
      in if httpMethod \<noteq> ''GET'' \<and> httpMethod \<noteq> ''HEAD'' then
           (case readBody maxBodySize (readHeader (im_headers req) ''content-length'') (im_stream req) of
              Rejected e \<Rightarrow> Rejected e
            | NeverSettles \<Rightarrow> NeverSettles
            | Fulfilled raw \<Rightarrow>
                if length raw > 0 then
                  Fulfilled (request\<lparr>sq_rawBody := Some raw,
                    sq_body := decode_body rt (readHeader (im_headers req) ''content-type'') raw\<rparr>)
                else Fulfilled request)
         else Fulfilled request)"

section \<open>Handling a request\<close>

record 'j http_env =
  he_cors :: cors_handler
  he_maxBodySize :: nat
  he_runtime :: "'j text_runtime"
  he_generateEventId :: string
  he_kernel :: "'j server_request \<Rightarrow> (thrown, handled) settled"

definition is_payload_too_large :: "thrown \<Rightarrow> bool" where
  "is_payload_too_large e = (case e of PristineErr n _ _ _ _ _ _ _ \<Rightarrow> n = ''PayloadTooLargeError'' | _ \<Rightarrow> False)"

definition answer_http_error :: "nat \<Rightarrow> string \<Rightarrow> string \<Rightarrow> string obj \<Rightarrow> server_response \<Rightarrow> written" where
  "answer_http_error status message requestId corsHeaders res =
     then_write (applyHeaders corsHeaders (res\<lparr>sr_statusCode := status\<rparr>)) (\<lambda>res.
       then_write (call (sr_setHeader ''content-type'' ''application/json'') res)
         (call (sr_end (error_answer message requestId))))"

text \<open>The body of the \<open>catch\<close>; a response whose headers were sent is destroyed instead.\<close>

definition answer_failure :: "string \<Rightarrow> string obj \<Rightarrow> thrown \<Rightarrow> server_response \<Rightarrow> written" where
  "answer_failure requestId corsHeaders e res =
     (if sr_ended res \<noteq> None then (res\<lparr>sr_closesSocket := True\<rparr>, None)
      else if is_payload_too_large e then
        then_write (applyHeaders corsHeaders (res\<lparr>sr_statusCode := 413\<rparr>)) (\<lambda>res.
          then_write (call (sr_setHeader ''content-type'' ''application/json'') res) (\<lambda>res.
            then_write (call (sr_setHeader ''connection'' ''close'') res) (\<lambda>res.
              call (sr_end (error_answer ''Payload Too Large'' requestId))
                (res\<lparr>sr_closesSocket := True\<rparr>))))
      else answer_http_error 500 ''Internal Server Error'' requestId corsHeaders res)"

text \<open>
  One request: the response, the requests given to the kernel, and what the promise of the
  handler ends as. \<open>Rejected\<close> is a rejection nobody handles.
\<close>

definition settle_written :: "string \<Rightarrow> string obj \<Rightarrow> written \<Rightarrow> server_response \<times> (thrown, unit) settled" where
  "settle_written requestId corsHeaders w =
     (case snd w of
        None \<Rightarrow> (fst w, Fulfilled ())
      | Some e \<Rightarrow> (case answer_failure requestId corsHeaders e (fst w) of
          (res, None) \<Rightarrow> (res, Fulfilled ())
        | (res, Some e') \<Rightarrow> (res, Rejected e')))"

definition http_requestId :: "'j http_env \<Rightarrow> incoming \<Rightarrow> string" where
  "http_requestId env req =
     (case readHeader (im_headers req) ''x-pristine-request-id'' of
        Some i \<Rightarrow> i | None \<Rightarrow> he_generateEventId env)"

definition handleRequest ::
  "'j http_env \<Rightarrow> incoming \<Rightarrow> server_response \<times> 'j server_request list \<times> (thrown, unit) settled" where
  "handleRequest env req =
     (let requestId = http_requestId env req;
          corsContext = buildContext (im_method req) (im_headers req);
          corsHeaders = buildResponseHeaders (he_cors env) (cc_origin corsContext);
          res = new_server_response;
          finish = (\<lambda>sent w. case settle_written requestId corsHeaders w of (res, out) \<Rightarrow> (res, sent, out))
      in if \<not> isHostAllowed (he_cors env) (cc_host corsContext) then
           finish [] (answer_http_error 403 ''Forbidden'' requestId corsHeaders res)
         else case buildPreflightResponse (he_cors env) corsContext of
           Some (status, headers) \<Rightarrow>
             finish [] (then_write (applyHeaders headers (res\<lparr>sr_statusCode := status\<rparr>)) (call (sr_end (TextAnswer []))))
         | None \<Rightarrow>
             (case mapToPristineRequest (he_runtime env) (he_maxBodySize env) req requestId of
                NeverSettles \<Rightarrow> (res, [], NeverSettles)
              | Rejected e \<Rightarrow> finish [] (res, Some e)
              | Fulfilled request \<Rightarrow>
                  (case he_kernel env request of
                     NeverSettles \<Rightarrow> (res, [request], NeverSettles)
                   | Rejected e \<Rightarrow> finish [request] (res, Some e)
                   | Fulfilled result \<Rightarrow> finish [request] (writeResponse result corsHeaders res))))"

end
