(* ===== verification/Http_Server_Properties.thy ===== *)
theory Http_Server_Properties
  imports Http_Server
begin

text \<open>
  What the HTTP server guarantees of one request (\<open>Http_Server\<close>): which requests reach the
  kernel, that every request is answered, and which CORS headers the answer carries.
\<close>

section \<open>Writes on the response\<close>

lemma then_write_simps [simp]:
  "then_write (res, None) f = f res"
  "then_write (res, Some e) f = (res, Some e)"
  by (simp_all add: then_write_def)

lemma then_write_ok: "then_write w f = (res, None) \<longleftrightarrow> (\<exists>r. w = (r, None) \<and> f r = (res, None))"
  by (cases w) (auto simp: then_write_def split: option.splits)

lemma call_ok: "call f res = (res', None) \<longleftrightarrow> f res = Inr res'"
  by (auto simp: call_def split: sum.splits)

lemma setHeader_ok:
  "sr_setHeader name value res = Inr res' \<longleftrightarrow> valid_header (name, value) \<and>
     res' = res\<lparr>sr_headers := obj_set (to_lower name) (name, value) (sr_headers res)\<rparr>"
  by (auto simp: sr_setHeader_def valid_header_def)

lemma end_ok:
  "sr_end body res = Inr res' \<longleftrightarrow> 100 \<le> sr_statusCode res \<and> sr_statusCode res \<le> 999 \<and>
     res' = res\<lparr>sr_ended := Some body\<rparr>"
  by (auto simp: sr_end_def)

lemma call_valid_header [simp]:
  "valid_header (name, value) \<Longrightarrow> call (sr_setHeader name value) res =
     (res\<lparr>sr_headers := obj_set (to_lower name) (name, value) (sr_headers res)\<rparr>, None)"
  by (simp add: call_ok setHeader_ok)

lemma call_end [simp]:
  "100 \<le> sr_statusCode res \<Longrightarrow> sr_statusCode res \<le> 999 \<Longrightarrow>
     call (sr_end body) res = (res\<lparr>sr_ended := Some body\<rparr>, None)"
  by (simp add: call_ok end_ok)

text \<open>A write that threw, and any write before the end, has not ended the response.\<close>

definition still_open :: "written \<Rightarrow> bool" where
  "still_open w \<longleftrightarrow> sr_ended (fst w) = None"

definition frame_of :: "server_response \<Rightarrow> nat \<times> answer_body option \<times> bool" where
  "frame_of res = (sr_statusCode res, sr_ended res, sr_closesSocket res)"

lemma set_headers_frame: "frame_of (fst (set_headers hs res)) = frame_of res"
  by (induction hs res rule: set_headers.induct)
    (auto simp: then_write_def call_def sr_setHeader_def frame_of_def split: option.splits sum.splits)

lemma applyHeaders_frame [simp]:
  "sr_statusCode (fst (applyHeaders headers res)) = sr_statusCode res"
  "sr_ended (fst (applyHeaders headers res)) = sr_ended res"
  using set_headers_frame [of "obj_entries headers" res] by (simp_all add: applyHeaders_def frame_of_def)

lemma set_headers_ok:
  "list_all valid_header hs \<Longrightarrow> set_headers hs res =
     (res\<lparr>sr_headers := foldl (\<lambda>d (n, v). obj_set (to_lower n) (n, v) d) (sr_headers res) hs\<rparr>, None)"
  by (induction hs arbitrary: res) auto

lemma set_headers_valid: "snd (set_headers hs res) = None \<Longrightarrow> list_all valid_header hs"
  by (induction hs res rule: set_headers.induct)
    (auto simp: then_write_def call_def sr_setHeader_def valid_header_def split: option.splits sum.splits if_splits)

lemma open_call_end: "still_open (r, None) \<Longrightarrow> snd (call (sr_end b) r) \<noteq> None \<Longrightarrow> still_open (call (sr_end b) r)"
  by (auto simp: still_open_def call_def sr_end_def split: if_splits)

section \<open>The CORS headers\<close>

lemma response_headers_shape:
  assumes "isOriginAllowed co (Some v)"
  shows "buildResponseHeaders co (Some v) =
    [(''Access-Control-Allow-Origin'', v), (''Vary'', ''Origin'')] @
    (if co_allowCredentials co then [(''Access-Control-Allow-Credentials'', ''true'')] else []) @
    (if co_exposedHeaders co \<noteq> [] then [(''Access-Control-Expose-Headers'', join '', '' (co_exposedHeaders co))] else [])"
  using assms isOriginAllowed_enabled [OF assms] by (simp add: buildResponseHeaders_def)

lemma entries_plain:
  assumes "list_all (\<lambda>k. \<not> is_index_key k) (map fst ob)" and "wf_obj ob"
  shows "obj_entries ob = ob"
proof -
  have "map (\<lambda>k. (k, the (map_of ob k))) (map fst ob) = ob"
    unfolding map_map
    by (rule map_idI) (use assms(2) in \<open>auto simp: wf_obj_def\<close>)
  then show ?thesis by (simp add: obj_entries_def obj_keys_plain [OF assms(1)])
qed

lemma response_headers_entries:
  "obj_entries (buildResponseHeaders co origin) = buildResponseHeaders co origin"
  by (rule entries_plain)
    (auto simp: buildResponseHeaders_def wf_obj_def is_index_key_def is_digit_def)

definition cors_headers_valid :: "cors_handler \<Rightarrow> string option \<Rightarrow> bool" where
  "cors_headers_valid co origin \<longleftrightarrow> list_all valid_header (buildResponseHeaders co origin)"

lemma apply_cors_ok:
  assumes "cors_headers_valid co origin"
  obtains res' where "applyHeaders (buildResponseHeaders co origin) res = (res', None)"
    and "sr_statusCode res' = sr_statusCode res" and "sr_ended res' = sr_ended res"
proof -
  have "snd (applyHeaders (buildResponseHeaders co origin) res) = None"
    using assms by (simp add: applyHeaders_def response_headers_entries cors_headers_valid_def set_headers_ok)
  then have eq: "applyHeaders (buildResponseHeaders co origin) res =
    (fst (applyHeaders (buildResponseHeaders co origin) res), None)"
    by (metis prod.collapse)
  show thesis by (rule that [OF eq]) simp_all
qed

lemma apply_cors_failed:
  assumes "\<not> cors_headers_valid co origin"
  shows "\<exists>e. snd (applyHeaders (buildResponseHeaders co origin) res) = Some e"
  using assms set_headers_valid
  by (fastforce simp: applyHeaders_def response_headers_entries cors_headers_valid_def)

definition carries_origin :: "cors_handler \<Rightarrow> string option \<Rightarrow> server_response \<Rightarrow> bool" where
  "carries_origin co origin res \<longleftrightarrow>
     (isOriginAllowed co origin \<longrightarrow> sr_header res ''Access-Control-Allow-Origin'' = origin)"

lemma apply_cors_carries:
  assumes "applyHeaders (buildResponseHeaders co origin) res = (res', None)"
  shows "carries_origin co origin res'"
proof (cases "isOriginAllowed co origin")
  case True
  then obtain v where v: "origin = Some v" by (auto simp: isOriginAllowed_iff)
  have "list_all valid_header (buildResponseHeaders co origin)"
    using assms set_headers_valid by (metis applyHeaders_def response_headers_entries snd_conv)
  then have "res' = res\<lparr>sr_headers := foldl (\<lambda>d (n, v). obj_set (to_lower n) (n, v) d) (sr_headers res)
      (buildResponseHeaders co origin)\<rparr>"
    using assms by (simp add: applyHeaders_def response_headers_entries set_headers_ok)
  with True v show ?thesis
    by (auto simp: carries_origin_def sr_header_def response_headers_shape to_lower_def lower_char_def update_conv')
next
  case False
  then show ?thesis by (simp add: carries_origin_def)
qed

lemma lower_acao: "to_lower ''Access-Control-Allow-Origin'' = ''access-control-allow-origin''"
  by code_simp

lemma carries_other_header:
  "carries_origin co origin res \<Longrightarrow> to_lower name \<noteq> ''access-control-allow-origin'' \<Longrightarrow>
   carries_origin co origin (res\<lparr>sr_headers := obj_set (to_lower name) (name, value) (sr_headers res)\<rparr>)"
  by (simp add: carries_origin_def sr_header_def update_conv' lower_acao)

lemma carries_ended [simp]:
  "carries_origin co origin (res\<lparr>sr_ended := b\<rparr>) = carries_origin co origin res"
  "carries_origin co origin (res\<lparr>sr_closesSocket := c\<rparr>) = carries_origin co origin res"
  by (simp_all add: carries_origin_def sr_header_def)

section \<open>Every answer\<close>

text \<open>A finished answer: ended, and readable by the origin it is for.\<close>

definition answered :: "cors_handler \<Rightarrow> string option \<Rightarrow> server_response \<Rightarrow> bool" where
  "answered co origin res \<longleftrightarrow> sr_ended res \<noteq> None \<and> carries_origin co origin res"

lemma content_type_valid: "valid_header (''content-type'', ''application/json'')"
  "to_lower ''content-type'' \<noteq> ''access-control-allow-origin''"
  by code_simp+

lemma connection_valid: "valid_header (''connection'', ''close'')"
  "to_lower ''connection'' \<noteq> ''access-control-allow-origin''"
  by code_simp+

lemma answer_http_error_ok:
  assumes "cors_headers_valid co origin" and "100 \<le> status" and "status \<le> 999"
  obtains res' where "answer_http_error status message requestId (buildResponseHeaders co origin) res = (res', None)"
    and "answered co origin res'"
proof -
  obtain r where r: "applyHeaders (buildResponseHeaders co origin) (res\<lparr>sr_statusCode := status\<rparr>) = (r, None)"
    and st: "sr_statusCode r = status"
    using apply_cors_ok [OF assms(1), of "res\<lparr>sr_statusCode := status\<rparr>"] by auto
  have "carries_origin co origin r" by (rule apply_cors_carries [OF r])
  then have "carries_origin co origin (r\<lparr>sr_headers :=
      obj_set (to_lower ''content-type'') (''content-type'', ''application/json'') (sr_headers r)\<rparr>)"
    by (rule carries_other_header [OF _ content_type_valid(2)])
  with r st assms(2,3) show thesis
    by (intro that) (simp add: answer_http_error_def content_type_valid, simp add: answered_def)
qed

lemma answer_failure_ok:
  assumes "cors_headers_valid co origin" and "sr_ended res = None"
  obtains res' where "answer_failure requestId (buildResponseHeaders co origin) e res = (res', None)"
    and "answered co origin res'"
proof (cases "is_payload_too_large e")
  case True
  obtain r where r: "applyHeaders (buildResponseHeaders co origin) (res\<lparr>sr_statusCode := 413\<rparr>) = (r, None)"
    and st: "sr_statusCode r = 413"
    using apply_cors_ok [OF assms(1), of "res\<lparr>sr_statusCode := 413\<rparr>"] by auto
  have "carries_origin co origin r" by (rule apply_cors_carries [OF r])
  then have "carries_origin co origin (r\<lparr>sr_headers :=
      obj_set (to_lower ''content-type'') (''content-type'', ''application/json'') (sr_headers r)\<rparr>)"
    by (rule carries_other_header [OF _ content_type_valid(2)])
  then have "carries_origin co origin (r\<lparr>sr_headers :=
      obj_set (to_lower ''connection'') (''connection'', ''close'')
        (obj_set (to_lower ''content-type'') (''content-type'', ''application/json'') (sr_headers r))\<rparr>)"
    using carries_other_header [OF _ connection_valid(2)] by fastforce
  with r st True assms(2) show thesis
    by (intro that) (simp add: answer_failure_def content_type_valid connection_valid, simp add: answered_def)
next
  case False
  obtain r where "answer_http_error 500 ''Internal Server Error'' requestId (buildResponseHeaders co origin) res = (r, None)"
    and "answered co origin r"
    by (rule answer_http_error_ok [OF assms(1), of 500]) simp_all
  with False assms(2) show thesis by (intro that [of r]) (simp_all add: answer_failure_def)
qed

lemma settle_failed_ok:
  assumes "cors_headers_valid co origin" and "still_open (res, Some e)"
  obtains res' where "settle_written requestId (buildResponseHeaders co origin) (res, Some e) = (res', Fulfilled ())"
    and "answered co origin res'"
proof -
  have "sr_ended res = None" using assms(2) by (simp add: still_open_def)
  then obtain r where "answer_failure requestId (buildResponseHeaders co origin) e res = (r, None)"
    and "answered co origin r"
    using answer_failure_ok [OF assms(1)] by blast
  then show thesis by (intro that [of r]) (simp_all add: settle_written_def)
qed

text \<open>Writes that fail leave the response open.\<close>

lemma failed_write_open:
  assumes "sr_ended res = None" and "f = call (sr_end answer)"
    and "then_write (applyHeaders hs res) (\<lambda>res. then_write (applyHeaders cs res) f) = (r, Some e)"
  shows "sr_ended r = None"
proof -
  obtain r1 x1 where 1: "applyHeaders hs res = (r1, x1)" by (cases "applyHeaders hs res")
  then have "sr_ended r1 = None" using assms(1) applyHeaders_frame(2) [of hs res] by simp
  moreover obtain r2 x2 where 2: "applyHeaders cs r1 = (r2, x2)" by (cases "applyHeaders cs r1")
  ultimately have "sr_ended r1 = None" "sr_ended r2 = None" using applyHeaders_frame(2) [of cs r1] by simp_all
  with 1 2 assms(2,3) show ?thesis
    by (cases x1; cases x2) (auto simp: call_def sr_end_def split: sum.splits if_splits)
qed

text \<open>A first attempt at the answer, and what the \<open>catch\<close> makes of it when it fails.\<close>

definition open_or_answered :: "cors_handler \<Rightarrow> string option \<Rightarrow> written \<Rightarrow> bool" where
  "open_or_answered co origin w \<longleftrightarrow>
     (case snd w of None \<Rightarrow> answered co origin (fst w) | Some e \<Rightarrow> sr_ended (fst w) = None)"

lemma settled_answer:
  assumes "cors_headers_valid co origin" and "open_or_answered co origin w"
  obtains res where "settle_written requestId (buildResponseHeaders co origin) w = (res, Fulfilled ())"
    and "answered co origin res"
proof (cases w)
  case (Pair r x)
  show thesis
  proof (cases x)
    case None
    with Pair assms(2) show thesis by (intro that [of r]) (simp_all add: settle_written_def open_or_answered_def)
  next
    case (Some e)
    with Pair assms(2) have "still_open (r, Some e)" by (simp add: still_open_def open_or_answered_def)
    with Pair Some show thesis using settle_failed_ok [OF assms(1)] that by blast
  qed
qed

lemma response_open_or_answered:
  assumes "sr_ended res = None"
  shows "open_or_answered co origin (then_write (applyHeaders hs res) (\<lambda>res.
           then_write (applyHeaders (buildResponseHeaders co origin) res) (call (sr_end answer))))"
    (is "open_or_answered co origin ?w")
proof (cases "snd ?w")
  case None
  then have w: "?w = (fst ?w, None)" by (simp add: prod_eq_iff)
  from this [unfolded then_write_ok call_ok] obtain r1 r2 where
    2: "applyHeaders (buildResponseHeaders co origin) r1 = (r2, None)" and 3: "sr_end answer r2 = Inr (fst ?w)"
    by blast
  from apply_cors_carries [OF 2] 3 have "answered co origin (fst ?w)"
    by (simp add: end_ok answered_def)
  with None show ?thesis by (simp add: open_or_answered_def)
next
  case (Some e)
  then have "?w = (fst ?w, Some e)" by (metis prod.collapse)
  from failed_write_open [OF assms refl this] Some show ?thesis by (simp add: open_or_answered_def)
qed

lemma writeResponse_open_or_answered:
  "open_or_answered co origin (writeResponse result (buildResponseHeaders co origin) new_server_response)"
  by (cases result)
    (auto simp: writeResponse_def Let_def new_server_response_def open_or_answered_def [of co origin "(_, Some _)"]
      intro!: response_open_or_answered split: handled_body.split sum.split)

lemma preflight_open_or_answered:
  assumes "buildPreflightResponse co cx = Some (status, headers)"
  shows "open_or_answered co (cc_origin cx) (then_write
           (applyHeaders headers (new_server_response\<lparr>sr_statusCode := status\<rparr>)) (call (sr_end (TextAnswer []))))"
proof -
  let ?r = "new_server_response\<lparr>sr_statusCode := status\<rparr>"
  have status: "status = 204" by (rule preflight_headers_origin(2) [OF assms])
  have entries: "obj_entries headers = headers"
    using assms by (intro entries_plain)
      (auto simp: buildPreflightResponse_def wf_obj_def is_index_key_def is_digit_def split: if_splits)
  show ?thesis
  proof (cases "list_all valid_header headers")
    case True
    let ?p = "?r\<lparr>sr_headers := foldl (\<lambda>d (n, v). obj_set (to_lower n) (n, v) d) [] headers\<rparr>"
    have put: "applyHeaders headers ?r = (?p, None)"
      using True by (simp add: applyHeaders_def entries set_headers_ok new_server_response_def)
    have "carries_origin co (cc_origin cx) ?p"
    proof (cases "isOriginAllowed co (cc_origin cx)")
      case True
      then obtain v where "cc_origin cx = Some v" by (auto simp: isOriginAllowed_iff)
      with assms True show ?thesis
        by (auto simp: buildPreflightResponse_def carries_origin_def sr_header_def update_conv'
            to_lower_def lower_char_def split: if_splits)
    qed (simp add: carries_origin_def)
    moreover have "call (sr_end (TextAnswer [])) ?p = (?p\<lparr>sr_ended := Some (TextAnswer [])\<rparr>, None)"
      by (simp add: status)
    ultimately show ?thesis
      unfolding put then_write_simps by (simp add: open_or_answered_def answered_def)
  next
    case False
    then have "snd (applyHeaders headers ?r) \<noteq> None"
      using set_headers_valid by (auto simp: applyHeaders_def entries)
    then obtain r e where "applyHeaders headers ?r = (r, Some e)" by (metis not_None_eq prod.collapse)
    then show ?thesis
      using applyHeaders_frame(2) [of headers ?r] by (simp add: open_or_answered_def new_server_response_def)
  qed
qed

section \<open>One request\<close>

definition http_origin :: "incoming \<Rightarrow> string option" where
  "http_origin req = cc_origin (buildContext (im_method req) (im_headers req))"

definition host_admitted :: "'j http_env \<Rightarrow> incoming \<Rightarrow> bool" where
  "host_admitted env req \<longleftrightarrow> isHostAllowed (he_cors env) (cc_host (buildContext (im_method req) (im_headers req)))"

definition answered_preflight :: "'j http_env \<Rightarrow> incoming \<Rightarrow> bool" where
  "answered_preflight env req \<longleftrightarrow>
     buildPreflightResponse (he_cors env) (buildContext (im_method req) (im_headers req)) \<noteq> None"

lemma mapped_raw_body:
  assumes "mapToPristineRequest rt maxBodySize req requestId = Fulfilled r"
  shows "sq_rawBody r = None \<or> (\<exists>raw. sq_rawBody r = Some raw \<and> raw \<noteq> [] \<and>
           readBody maxBodySize (readHeader (im_headers req) ''content-length'') (im_stream req) = Fulfilled raw)"
  using assms by (auto simp: mapToPristineRequest_def Let_def split: if_splits settled.splits)

lemma mapped_settles:
  assumes "stream_close (im_stream req) \<noteq> None"
  shows "mapToPristineRequest rt maxBodySize req requestId \<noteq> NeverSettles"
proof -
  have "read_chunks m n cs es \<noteq> NeverSettles" if "stream_close es \<noteq> None" for m n cs es
    using that by (induction m n cs es rule: read_chunks.induct) simp_all
  then have "readBody maxBodySize l (im_stream req) \<noteq> NeverSettles" for l
    using assms by (simp add: readBody_def split: option.split)
  then show ?thesis by (simp add: mapToPristineRequest_def Let_def split: settled.split)
qed

text \<open>
  Claim C19. Which requests reach the kernel, and as what. A request does so exactly when three
  conditions hold, once then and never otherwise: no hosts are configured or its Host header, trimmed,
  is one of them in any case; it is no preflight, which the server answers itself, and it is one
  when origins are configured, the method is OPTIONS and it asks for a method (without configured
  origins the kernel sees it); and, unless its method is GET or HEAD, its stream ends normally, with no more
  bytes than the limit, announced or received. The kernel then sees its method in capitals and as
  body all the bytes of the stream; a body without bytes is none, and that of a GET or HEAD is not read.
\<close>

theorem kernel_sees_admitted_requests:
  "(let co = he_cors env; hs = im_headers req;
        m = to_upper (case im_method req of Some m \<Rightarrow> m | None \<Rightarrow> ''GET'');
        data = concat (stream_data (im_stream req))
    in if (co_allowedHosts co = [] \<or>
           (case readHeader hs ''host'' of Some h \<Rightarrow> \<exists>a. a \<in> set (co_allowedHosts co) \<and> to_lower a = to_lower (trim h)
            | None \<Rightarrow> False)) \<and>
          \<not> (co_allowedOrigins co \<noteq> [] \<and> m = ''OPTIONS'' \<and> readHeader hs ''access-control-request-method'' \<noteq> None) \<and>
          (m \<in> {''GET'', ''HEAD''} \<or>
           (stream_close (im_stream req) = Some EndEvent \<and> length data \<le> he_maxBodySize env \<and>
            (case declared_length (readHeader hs ''content-length'') of Some n \<Rightarrow> n \<le> he_maxBodySize env | None \<Rightarrow> True)))
       then \<exists>r. fst (snd (handleRequest env req)) = [r] \<and> sq_httpMethod r = m \<and>
         sq_rawBody r = (if m \<in> {''GET'', ''HEAD''} \<or> data = [] then None else Some data)
       else fst (snd (handleRequest env req)) = [])"
proof -
  let ?co = "he_cors env" and ?hs = "im_headers req"
  let ?m = "to_upper (case im_method req of Some m \<Rightarrow> m | None \<Rightarrow> ''GET'')"
  let ?cx = "buildContext (im_method req) ?hs"
  let ?read = "readBody (he_maxBodySize env) (readHeader ?hs ''content-length'') (im_stream req)"
  let ?mapped = "mapToPristineRequest (he_runtime env) (he_maxBodySize env) req (http_requestId env req)"
  have host: "isHostAllowed ?co (cc_host ?cx) \<longleftrightarrow> co_allowedHosts ?co = [] \<or>
      (case readHeader ?hs ''host'' of Some h \<Rightarrow> \<exists>a. a \<in> set (co_allowedHosts ?co) \<and> to_lower a = to_lower (trim h)
       | None \<Rightarrow> False)"
    by (auto simp: isHostAllowed_def isHostCheckEnabled_def buildContext_def list_ex_iff split: option.splits)
  have preflight: "buildPreflightResponse ?co ?cx = None \<longleftrightarrow>
      \<not> (co_allowedOrigins ?co \<noteq> [] \<and> ?m = ''OPTIONS'' \<and> readHeader ?hs ''access-control-request-method'' \<noteq> None)"
    by (auto simp: buildPreflightResponse_def isOriginCheckEnabled_def buildContext_def)
  have handled: "fst (snd (handleRequest env req)) =
      (if isHostAllowed ?co (cc_host ?cx) \<and> buildPreflightResponse ?co ?cx = None
       then (case ?mapped of Fulfilled r \<Rightarrow> [r] | _ \<Rightarrow> []) else [])"
    by (simp add: handleRequest_def Let_def split_beta split: option.splits settled.splits)
  have unread: "?m \<in> {''GET'', ''HEAD''} \<Longrightarrow> \<exists>r. ?mapped = Fulfilled r \<and> sq_httpMethod r = ?m \<and> sq_rawBody r = None"
    by (auto simp: mapToPristineRequest_def Let_def)
  have read: "\<exists>r. ?mapped = Fulfilled r \<and> sq_httpMethod r = ?m \<and> sq_rawBody r = (if raw = [] then None else Some raw)"
    if "?m \<notin> {''GET'', ''HEAD''}" "?read = Fulfilled raw" for raw
    using that by (cases raw) (auto simp: mapToPristineRequest_def Let_def)
  have refused: "(case ?mapped of Fulfilled r \<Rightarrow> [r] | _ \<Rightarrow> []) = []"
    if "?m \<notin> {''GET'', ''HEAD''}" "\<And>raw. ?read \<noteq> Fulfilled raw"
    using that by (cases ?read) (auto simp: mapToPristineRequest_def Let_def)
  show ?thesis
  proof (cases "?m \<in> {''GET'', ''HEAD''}")
    case True
    from unread [OF True] obtain r where "?mapped = Fulfilled r" "sq_httpMethod r = ?m" "sq_rawBody r = None" by blast
    with True show ?thesis unfolding handled host preflight Let_def by auto
  next
    case False
    show ?thesis
    proof (cases "\<exists>raw. ?read = Fulfilled raw")
      case True
      then obtain raw where raw: "?read = Fulfilled raw" by blast
      note ok = raw [unfolded readBody_fulfilled]
      from read [OF False raw] obtain r where "?mapped = Fulfilled r" "sq_httpMethod r = ?m"
        "sq_rawBody r = (if raw = [] then None else Some raw)" by blast
      with False ok show ?thesis unfolding handled host preflight Let_def by auto
    next
      case none: False
      then have "\<not> (stream_close (im_stream req) = Some EndEvent \<and>
          length (concat (stream_data (im_stream req))) \<le> he_maxBodySize env \<and>
          (case declared_length (readHeader ?hs ''content-length'') of Some n \<Rightarrow> n \<le> he_maxBodySize env | None \<Rightarrow> True))"
        by (auto simp: readBody_fulfilled)
      moreover have "(case ?mapped of Fulfilled r \<Rightarrow> [r] | _ \<Rightarrow> []) = []" using refused [OF False] none by blast
      ultimately show ?thesis using False unfolding handled host preflight Let_def by auto
    qed
  qed
qed

text \<open>
  Every request is answered: when its stream closes and the kernel settles, the handler resolves
  with an ended response, whatever the kernel or the writes threw; and when the request's origin
  is allow-listed the answer, the 403, 413 and 500 ones included, carries it back, so that a
  browser can read it.
\<close>

theorem every_request_is_answered:
  assumes "cors_headers_valid (he_cors env) (http_origin req)"
    and "stream_close (im_stream req) \<noteq> None"
    and "\<And>r. he_kernel env r \<noteq> NeverSettles"
  shows "\<exists>res sent. handleRequest env req = (res, sent, Fulfilled ()) \<and> sr_ended res \<noteq> None \<and>
     (isOriginAllowed (he_cors env) (http_origin req) \<longrightarrow>
       sr_header res ''Access-Control-Allow-Origin'' = http_origin req)"
proof -
  let ?co = "he_cors env" and ?o = "http_origin req" and ?id = "http_requestId env req"
  let ?cx = "buildContext (im_method req) (im_headers req)"
  let ?cors = "buildResponseHeaders ?co ?o"
  have o: "cc_origin ?cx = ?o" by (simp add: http_origin_def)
  have fin: "\<exists>res. (case settle_written ?id ?cors w of (res, out) \<Rightarrow> (res, sent, out)) = (res, sent, Fulfilled ())
      \<and> answered ?co ?o res" if "open_or_answered ?co ?o w" for w and sent :: "'a server_request list"
    using settled_answer [OF assms(1) that, of ?id] by (metis (no_types, lifting) case_prod_conv)
  have "\<exists>res sent. handleRequest env req = (res, sent, Fulfilled ()) \<and> answered ?co ?o res"
  proof (cases "isHostAllowed ?co (cc_host ?cx)")
    case False
    obtain r where "answer_http_error 403 ''Forbidden'' ?id ?cors new_server_response = (r, None)"
      and "answered ?co ?o r"
      by (rule answer_http_error_ok [OF assms(1), of 403]) simp_all
    with False show ?thesis
      using fin [of "(r, None)" "[]"] by (auto simp: handleRequest_def Let_def o open_or_answered_def)
  next
    case True
    show ?thesis
    proof (cases "buildPreflightResponse ?co ?cx")
      case (Some p)
      obtain status headers where p: "p = (status, headers)" by (cases p)
      show ?thesis
        using True Some fin [OF preflight_open_or_answered [OF Some [unfolded p], unfolded o], of "[]"]
        by (auto simp: handleRequest_def Let_def o p)
    next
      case None
      show ?thesis
      proof (cases "mapToPristineRequest (he_runtime env) (he_maxBodySize env) req ?id")
        case NeverSettles
        with mapped_settles [OF assms(2)] show ?thesis by blast
      next
        case (Rejected e)
        have "open_or_answered ?co ?o (new_server_response, Some e)"
          by (simp add: open_or_answered_def new_server_response_def)
        from fin [OF this, of "[]"] show ?thesis
          using True None Rejected by (auto simp: handleRequest_def Let_def o)
      next
        case (Fulfilled r)
        show ?thesis
        proof (cases "he_kernel env r")
          case NeverSettles
          with assms(3) show ?thesis by blast
        next
          case (Rejected e)
          have "open_or_answered ?co ?o (new_server_response, Some e)"
            by (simp add: open_or_answered_def new_server_response_def)
          from fin [OF this, of "[r]"] show ?thesis
            using True None Fulfilled Rejected by (auto simp: handleRequest_def Let_def o)
        next
          case (Fulfilled result)
          obtain res where "(case settle_written ?id ?cors (writeResponse result ?cors new_server_response) of
              (res, out) \<Rightarrow> (res, [r], out)) = (res, [r], Fulfilled ())" and "answered ?co ?o res"
            using fin [OF writeResponse_open_or_answered, of "[r]" result] by blast
          with True None Fulfilled \<open>mapToPristineRequest _ _ _ _ = Fulfilled r\<close>
          have "handleRequest env req = (res, [r], Fulfilled ())"
            by (simp add: handleRequest_def Let_def o)
          with \<open>answered ?co ?o res\<close> show ?thesis by blast
        qed
      qed
    qed
  qed
  then show ?thesis by (auto simp: answered_def carries_origin_def)
qed

section \<open>A CORS setting Node refuses\<close>

lemma bad_cors_apply:
  assumes "\<not> cors_headers_valid co origin"
  obtains r e where "applyHeaders (buildResponseHeaders co origin) res = (r, Some e)" and "sr_ended r = sr_ended res"
proof -
  let ?w = "applyHeaders (buildResponseHeaders co origin) res"
  obtain e where "snd ?w = Some e" using apply_cors_failed [OF assms] by blast
  then have "?w = (fst ?w, Some e)" by (simp add: prod_eq_iff)
  then show thesis by (rule that) simp
qed

lemma bad_cors_failure:
  assumes "\<not> cors_headers_valid co origin" and "sr_ended res = None"
  shows "\<exists>r e'. answer_failure requestId (buildResponseHeaders co origin) e res = (r, Some e')"
proof -
  obtain r x where "applyHeaders (buildResponseHeaders co origin) (res\<lparr>sr_statusCode := 413\<rparr>) = (r, Some x)"
    by (rule bad_cors_apply [OF assms(1)])
  moreover obtain r' x' where "applyHeaders (buildResponseHeaders co origin) (res\<lparr>sr_statusCode := 500\<rparr>) = (r', Some x')"
    by (rule bad_cors_apply [OF assms(1)])
  ultimately show ?thesis using assms(2) by (simp add: answer_failure_def answer_http_error_def)
qed

definition open_failure :: "written \<Rightarrow> bool" where
  "open_failure w \<longleftrightarrow> snd w \<noteq> None \<and> sr_ended (fst w) = None"

lemma bad_cors_settle:
  assumes "\<not> cors_headers_valid co origin" and "open_failure w"
  shows "\<exists>res e. (case settle_written requestId (buildResponseHeaders co origin) w of (res, out) \<Rightarrow> (res, sent, out))
    = (res, sent, Rejected e)"
proof -
  obtain r e where w: "w = (r, Some e)" and "sr_ended r = None"
    using assms(2) by (cases w) (auto simp: open_failure_def)
  with bad_cors_failure [OF assms(1), of r requestId e] show ?thesis
    by (auto simp: settle_written_def)
qed

lemma bad_cors_write:
  assumes "\<not> cors_headers_valid co origin"
  shows "open_failure (writeResponse result (buildResponseHeaders co origin) new_server_response)"
proof -
  have "open_failure (then_write (applyHeaders hs res)
      (\<lambda>res. then_write (applyHeaders (buildResponseHeaders co origin) res) f))"
    if "sr_ended res = None" for hs res f
  proof -
    obtain r1 x1 where 1: "applyHeaders hs res = (r1, x1)" by (cases "applyHeaders hs res")
    then have "sr_ended r1 = None" using that applyHeaders_frame(2) [of hs res] by simp
    moreover obtain r2 e where "applyHeaders (buildResponseHeaders co origin) r1 = (r2, Some e)"
      and "sr_ended r2 = sr_ended r1"
      by (rule bad_cors_apply [OF assms])
    ultimately show ?thesis using 1 by (cases x1) (simp_all add: open_failure_def)
  qed
  moreover have "open_failure (new_server_response\<lparr>sr_statusCode := s\<rparr>, Some e)" for s e
    by (simp add: open_failure_def new_server_response_def)
  ultimately show ?thesis
    by (cases result) (simp_all add: writeResponse_def Let_def new_server_response_def
        split: handled_body.split sum.split)
qed

text \<open>
  The error answers apply the same CORS headers that made the answer fail: when Node refuses one
  of them (an exposed header the configuration got a line break or another control character
  into), every request of an allow-listed origin that is no preflight ends in a rejection that
  nothing handles, and no answer is ever sent.
\<close>

theorem refused_cors_header_is_unhandled:
  assumes "\<not> cors_headers_valid (he_cors env) (http_origin req)"
    and "\<not> answered_preflight env req"
    and "stream_close (im_stream req) \<noteq> None" and "\<And>r. he_kernel env r \<noteq> NeverSettles"
  shows "\<exists>res sent e. handleRequest env req = (res, sent, Rejected e)"
proof -
  let ?co = "he_cors env" and ?o = "http_origin req" and ?id = "http_requestId env req"
  let ?cx = "buildContext (im_method req) (im_headers req)"
  let ?cors = "buildResponseHeaders ?co ?o"
  have o: "cc_origin ?cx = ?o" by (simp add: http_origin_def)
  have none: "buildPreflightResponse ?co ?cx = None" using assms(2) unfolding answered_preflight_def by blast
  have fresh: "open_failure (new_server_response, Some e)" for e
    by (simp add: open_failure_def new_server_response_def)
  note fails = bad_cors_settle [OF assms(1), where requestId = ?id]
  show ?thesis
  proof (cases "isHostAllowed ?co (cc_host ?cx)")
    case False
    obtain r e where "applyHeaders ?cors (new_server_response\<lparr>sr_statusCode := 403\<rparr>) = (r, Some e)"
      and "sr_ended r = sr_ended (new_server_response\<lparr>sr_statusCode := 403\<rparr>)"
      by (rule bad_cors_apply [OF assms(1)])
    then have "open_failure (answer_http_error 403 ''Forbidden'' ?id ?cors new_server_response)"
      by (simp add: answer_http_error_def open_failure_def new_server_response_def)
    from fails [OF this, where sent = "[]"] False show ?thesis by (auto simp: handleRequest_def Let_def o)
  next
    case True
    show ?thesis
    proof (cases "mapToPristineRequest (he_runtime env) (he_maxBodySize env) req ?id")
      case NeverSettles
      with mapped_settles [OF assms(3)] show ?thesis by blast
    next
      case (Rejected e)
      with fails [OF fresh [of e], where sent = "[]"] True none show ?thesis by (auto simp: handleRequest_def Let_def o)
    next
      case mapped: (Fulfilled r)
      show ?thesis
      proof (cases "he_kernel env r")
        case NeverSettles
        with assms(4) show ?thesis by blast
      next
        case (Rejected e)
        with fails [OF fresh [of e], where sent = "[r]"] True none mapped show ?thesis by (auto simp: handleRequest_def Let_def o)
      next
        case (Fulfilled result)
        obtain res e where "(case settle_written ?id ?cors (writeResponse result ?cors new_server_response) of
            (res, out) \<Rightarrow> (res, [r], out)) = (res, [r], Rejected e)"
          using fails [OF bad_cors_write [OF assms(1), of result], where sent = "[r]"] by blast
        with True none mapped Fulfilled have "handleRequest env req = (res, [r], Rejected e)"
          by (simp add: handleRequest_def Let_def o)
        then show ?thesis by blast
      qed
    qed
  qed
qed

section \<open>Concrete requests\<close>

definition sample_http_env :: "cors_handler \<Rightarrow> handled \<Rightarrow> unit http_env" where
  "sample_http_env co result =
     \<lparr>he_cors = co, he_maxBodySize = 4,
      he_runtime = \<lparr>tr_utf8 = map (\<lambda>b. char_of (unat b)), tr_textDecoder = (\<lambda>_ _. None), tr_jsonParse = (\<lambda>_. None)\<rparr>,
      he_generateEventId = ''e'',
      he_kernel = (\<lambda>_. Fulfilled result)\<rparr>"

definition sample_cors :: "string list \<Rightarrow> cors_handler" where
  "sample_cors exposed = new_CorsRequestHandler (CommaText ''a.b,c.d'') Unset Unset (TextList exposed) 600 False False Unset"

definition sample_incoming :: "string \<Rightarrow> stream_event list \<Rightarrow> incoming" where
  "sample_incoming httpMethod stream =
     \<lparr>im_method = Some httpMethod, im_url = Some ''/items'',
      im_headers = [(''host'', OneValue ''h''), (''origin'', OneValue ''c.d'')],
      im_encrypted = False, im_stream = stream\<rparr>"

lemma sample_origin: "http_origin (sample_incoming httpMethod stream) = Some ''c.d''"
  by (simp add: http_origin_def sample_incoming_def buildContext_def readHeader_def)

lemma sample_allowed: "isOriginAllowed (sample_cors exposed) (Some ''c.d'')"
  by (simp add: sample_cors_def new_CorsRequestHandler_def isOriginAllowed_iff normalizeList_def trim_def is_space_def)

lemma sample_valid: "cors_headers_valid (sample_cors []) (Some ''c.d'')"
  unfolding cors_headers_valid_def response_headers_shape [OF sample_allowed]
  by (simp add: sample_cors_def new_CorsRequestHandler_def normalizeList_def
      valid_header_def valid_header_name_def valid_header_value_def is_token_char_def is_letter_def is_digit_def)

lemma sample_invalid: "\<not> cors_headers_valid (sample_cors [[CHR ''X'', CHR 0x0A, CHR ''Y'']]) (Some ''c.d'')"
  unfolding cors_headers_valid_def response_headers_shape [OF sample_allowed]
  by (simp add: sample_cors_def new_CorsRequestHandler_def normalizeList_def trim_def is_space_def
      valid_header_def valid_header_value_def)

lemma sample_plain: "\<not> answered_preflight env (sample_incoming ''GET'' stream)"
  by (auto simp: answered_preflight_def sample_incoming_def buildPreflightResponse_def buildContext_def to_upper_def
      upper_char_def)

text \<open>
  A handler's headers that were set before a later one was refused stay on the 500 answer.
\<close>

lemma failed_write_keeps_headers:
  "(case handleRequest (sample_http_env (new_CorsRequestHandler Unset Unset Unset Unset 0 False False Unset)
      (PristineResponse (Some 200) (Some [(''A'', ''1''), (''B'', [CHR 0x0A])]) (StringBody ''ok'')))
      (sample_incoming ''GET'' []) of (res, _, _) \<Rightarrow> (sr_header res ''a'', sr_statusCode res)) = (Some ''1'', 500)"
  by code_simp

theorem kernel_sees_admitted_requests_witness:
  "\<exists>r. fst (snd (handleRequest (sample_http_env (sample_cors []) (OtherResult (StringBody [])))
      (sample_incoming ''PUT'' [DataEvent [104, 105], EndEvent]))) = [r] \<and> sq_rawBody r = Some [104, 105]"
proof -
  have upper: "to_upper ''PUT'' = ''PUT''" by code_simp
  show ?thesis
    using kernel_sees_admitted_requests [of "sample_http_env (sample_cors []) (OtherResult (StringBody []))"
        "sample_incoming ''PUT'' [DataEvent [104, 105], EndEvent]"]
    by (auto simp: Let_def sample_incoming_def sample_http_env_def sample_cors_def normalizeList_def
        new_CorsRequestHandler_def upper readHeader_def declared_length_def)
qed

theorem every_request_is_answered_witness:
  "\<exists>res sent. handleRequest (sample_http_env (sample_cors []) (OtherResult (StringBody ''ok'')))
      (sample_incoming ''PUT'' [DataEvent [104, 105, 104, 105, 33], EndEvent]) = (res, sent, Fulfilled ()) \<and>
     sr_header res ''Access-Control-Allow-Origin'' = Some ''c.d''"
proof -
  let ?env = "sample_http_env (sample_cors []) (OtherResult (StringBody ''ok''))"
  let ?req = "sample_incoming ''PUT'' [DataEvent [104, 105, 104, 105, 33], EndEvent]"
  have co: "he_cors ?env = sample_cors []" by (simp add: sample_http_env_def)
  have "\<exists>res sent. handleRequest ?env ?req = (res, sent, Fulfilled ()) \<and> sr_ended res \<noteq> None \<and>
     (isOriginAllowed (he_cors ?env) (http_origin ?req) \<longrightarrow>
       sr_header res ''Access-Control-Allow-Origin'' = http_origin ?req)"
    by (rule every_request_is_answered)
      (simp_all add: co sample_origin sample_valid, simp_all add: sample_incoming_def sample_http_env_def)
  then show ?thesis by (auto simp: co sample_origin sample_allowed)
qed

theorem refused_cors_header_is_unhandled_witness:
  "\<exists>res sent e. handleRequest (sample_http_env (sample_cors [[CHR ''X'', CHR 0x0A, CHR ''Y'']]) (OtherResult (StringBody ''ok'')))
      (sample_incoming ''GET'' [EndEvent]) = (res, sent, Rejected e)"
proof (rule refused_cors_header_is_unhandled)
  let ?env = "sample_http_env (sample_cors [[CHR ''X'', CHR 0x0A, CHR ''Y'']]) (OtherResult (StringBody ''ok''))"
  show "\<not> cors_headers_valid (he_cors ?env) (http_origin (sample_incoming ''GET'' [EndEvent]))"
    using sample_invalid by (simp add: sample_origin sample_http_env_def)
qed (simp_all add: sample_plain, simp_all add: sample_incoming_def sample_http_env_def)

end
