(* ===== verification/Aws_Event_Mappers.thy ===== *)
theory Aws_Event_Mappers
  imports Js_Values Event_Pipeline "HOL-Library.Word"
begin

text \<open>
  The event mappers of the aws package (\<open>mappers/\<close>): S3, SNS, SQS, DynamoDB streams, Kafka and
  EventBridge. Each tells from the shape of a raw event whether it supports it and makes the
  events of the framework out of its records. The identifiers the runtime generates, \<open>JSON.parse\<close>
  (\<open>None\<close> when it throws) and the conversion \<open>+value\<close> (\<open>None\<close> for NaN) are arguments; an
  identifier that is no string appears by its text.
\<close>

record mapper_env =
  me_newId :: "nat \<Rightarrow> string"
  me_jsonParse :: "string \<Rightarrow> jsv option"
  me_toNumber :: "jsv \<Rightarrow> string option"
  me_context :: string

definition new_event :: "string \<Rightarrow> jsv \<Rightarrow> jsv \<Rightarrow> event" where
  "new_event t payload i = \<lparr>ev_type = t, ev_payload = payload, ev_id = js_text i, ev_groupId = None\<rparr>"

definition find_enum :: "string list \<Rightarrow> string \<Rightarrow> jsv \<Rightarrow> string" where
  "find_enum values unknown name =
     (case find (\<lambda>v. js_string v = name) values of Some v \<Rightarrow> v | None \<Rightarrow> unknown)"

text \<open>A mapper that supports no reverse mapping.\<close>

definition one_way_mapper :: "(jsv \<Rightarrow> thrown + bool) \<Rightarrow> (jsv \<Rightarrow> thrown + execution_options) \<Rightarrow> event_mapper" where
  "one_way_mapper supports f = \<lparr>em_supportsMapping = supports, em_map = f,
     em_supportsReverse = (\<lambda>_ _. Inr False), em_reverseMap = (\<lambda>_ _. Inr JUndefined)\<rparr>"

section \<open>Batches of records\<close>

definition first_record :: "jsv \<Rightarrow> thrown + jsv" where
  "first_record raw = sum_bind (get_prop raw ''Records'') (\<lambda>rs. get_index rs 0)"

definition batch_tests :: "string \<Rightarrow> string \<Rightarrow> jsv \<Rightarrow> (thrown + bool) list" where
  "batch_tests key source raw =
     [has_own raw ''Records'',
      sum_bind (get_prop raw ''Records'') (\<lambda>rs. Inr (is_array rs)),
      sum_bind (first_record raw) (\<lambda>r. has_own r key),
      equals_string (sum_bind (first_record raw) (\<lambda>r. get_prop r key)) source]"

definition map_records :: "(nat \<Rightarrow> jsv \<Rightarrow> thrown + event) \<Rightarrow> jsv \<Rightarrow> thrown + execution_options" where
  "map_records f raw =
     sum_bind (get_prop raw ''Records'') (\<lambda>rs. sum_bind (iterate rs) (\<lambda>records.
     sum_bind (collect f 0 records) (\<lambda>events. Inr \<lparr>eo_events = events, eo_order = Parallel\<rparr>)))"

section \<open>S3\<close>

definition S3EventType :: "string list" where
  "S3EventType = [''UnknownS3Event'', ''ObjectCreated:Put'', ''ObjectCreated:Post'', ''ObjectCreated:Copy'',
     ''ObjectCreated:CompleteMultipartUpload'', ''ObjectRemoved:Delete'', ''ObjectRemoved:DeleteMarkerCreated'',
     ''ObjectRestore:Post'', ''ObjectRestore:Completed'', ''ReducedRedundancyLostObject'',
     ''Replication:OperationFailedReplication'', ''Replication:OperationMissedThreshold'',
     ''Replication:OperationReplicatedAfterThreshold'', ''Replication:OperationNotTracked'']"

definition s3_payload :: "jsv \<Rightarrow> thrown + jsv" where
  "s3_payload record =
     new_object ''S3EventPayload''
       [(''eventVersion'', chain record [Dot ''eventVersion'']),
        (''eventSource'', chain record [Dot ''eventSource'']),
        (''awsRegion'', chain record [Dot ''awsRegion'']),
        (''eventTime'', sum_bind (chain record [Dot ''eventTime'']) (\<lambda>t. Inr (js_date t))),
        (''eventName'', chain record [Dot ''eventName'']),
        (''userIdentity'', new_object ''IdentityModel''
          [(''principalId'', chain record [Dot ''userIdentity'', Opt ''principalId''])]),
        (''requestParameters'', new_object ''RequestParametersModel''
          [(''sourceIPAddress'', chain record [Dot ''requestParameters'', Opt ''sourceIPAddress''])]),
        (''responseElements'', sum_bind (chain record [Dot ''responseElements'']) (\<lambda>re.
          new_object ''ResponseElementsModel''
            (if truthy re then
               [(''x-amz-request-id'', chain re [Dot ''x-amz-request-id'']), (''x-amz-id-2'', chain re [Dot ''x-amz-id-2''])]
             else []))),
        (''s3'', new_object ''S3Model''
          [(''s3SchemaVersion'', chain record [Dot ''s3'', Dot ''s3SchemaVersion'']),
           (''configurationId'', chain record [Dot ''s3'', Dot ''configurationId'']),
           (''bucket'', new_object ''S3BucketModel''
             [(''ownerIdentity'', new_object ''IdentityModel''
                [(''principalId'', chain record [Dot ''s3'', Dot ''bucket'', Opt ''ownerIdentity'', Opt ''principalId''])]),
              (''name'', chain record [Dot ''s3'', Dot ''bucket'', Opt ''name'']),
              (''arn'', chain record [Dot ''s3'', Dot ''bucket'', Opt ''arn''])]),
           (''object'', new_object ''S3ObjectModel''
             [(''key'', chain record [Dot ''s3'', Dot ''object'', Dot ''key'']),
              (''size'', chain record [Dot ''s3'', Dot ''object'', Dot ''size'']),
              (''eTag'', chain record [Dot ''s3'', Dot ''object'', Dot ''eTag'']),
              (''versionId'', chain record [Dot ''s3'', Dot ''object'', Dot ''versionId'']),
              (''sequencer'', chain record [Dot ''s3'', Dot ''object'', Dot ''sequencer''])])])]"

definition s3_event :: "mapper_env \<Rightarrow> nat \<Rightarrow> jsv \<Rightarrow> thrown + event" where
  "s3_event env i record =
     sum_bind (chain record [Dot ''eventName'']) (\<lambda>name.
     sum_bind (chain record [Dot ''responseElements'', Opt ''x-amz-request-id'']) (\<lambda>requestId.
     sum_bind (s3_payload record) (\<lambda>payload.
       Inr (new_event (find_enum S3EventType ''UnknownS3Event'' name) payload
         (coalesce requestId (js_string (me_newId env i)))))))"

definition S3EventMapper_supports :: "jsv \<Rightarrow> thrown + bool" where
  "S3EventMapper_supports raw = all_tests (batch_tests ''eventSource'' ''aws:s3'' raw @
     [sum_bind (first_record raw) (\<lambda>r. has_own r ''s3'')])"

definition S3EventMapper_map :: "mapper_env \<Rightarrow> jsv \<Rightarrow> thrown + execution_options" where
  "S3EventMapper_map env raw = map_records (s3_event env) raw"

definition S3EventMapper :: "mapper_env \<Rightarrow> event_mapper" where
  "S3EventMapper env = one_way_mapper S3EventMapper_supports (S3EventMapper_map env)"

section \<open>SNS\<close>

definition SnsEventType :: "string list" where
  "SnsEventType = [''Notification'', ''UnknownSnsEvent'']"

text \<open>The attributes, in the order of the \<open>for ... in\<close> loop.\<close>

definition sns_attribute :: "string \<times> jsv \<Rightarrow> thrown + jsv" where
  "sns_attribute kv = new_object ''SnsMessageAttributeModel''
     [(''key'', Inr (js_string (fst kv))), (''type'', chain (snd kv) [Dot ''Type'']),
      (''value'', chain (snd kv) [Dot ''Value''])]"

definition sns_attributes :: "jsv \<Rightarrow> thrown + jsv" where
  "sns_attributes v = sum_bind (collect (\<lambda>_. sns_attribute) 0 (own_properties v)) (\<lambda>as. Inr (JArray as))"

definition sns_model :: "jsv \<Rightarrow> thrown + jsv" where
  "sns_model record =
     (let sns = (\<lambda>k. chain record [Dot ''Sns'', Dot k]) in
      sum_bind (sum_bind (chain record [Dot ''Sns'']) (\<lambda>s. has_own s ''MessageAttributes'')) (\<lambda>attributed.
      new_object ''SnsModel''
       ([(''signatureVersion'', sns ''SignatureVersion''),
         (''eventTime'', sum_bind (sns ''Timestamp'') (\<lambda>t. Inr (js_date t))),
         (''signature'', sns ''Signature''), (''signingCertUrl'', sns ''SigningCertUrl''),
         (''messageId'', sns ''MessageId''), (''message'', sns ''Message''), (''type'', sns ''Type''),
         (''unsubscribeUrl'', sns ''UnsubscribeUrl''), (''topicArn'', sns ''TopicArn''), (''subject'', sns ''Subject'')] @
        (if attributed then [(''messageAttributes'', sum_bind (sns ''MessageAttributes'') sns_attributes)] else []))))"

definition sns_event :: "nat \<Rightarrow> jsv \<Rightarrow> thrown + event" where
  "sns_event i record =
     sum_bind (chain record [Dot ''Sns'', Dot ''Type'']) (\<lambda>t.
     sum_bind (chain record [Dot ''Sns'', Dot ''MessageId'']) (\<lambda>messageId.
     sum_bind (new_object ''SnsEventPayload''
       [(''eventSource'', chain record [Dot ''EventSource'']),
        (''eventSubscriptionArn'', chain record [Dot ''EventSubscriptionArn'']),
        (''eventVersion'', chain record [Dot ''EventVersion'']),
        (''sns'', sns_model record)]) (\<lambda>payload.
       Inr (new_event (find_enum SnsEventType ''UnknownSnsEvent'' t) payload messageId))))"

definition SnsEventMapper_supports :: "jsv \<Rightarrow> thrown + bool" where
  "SnsEventMapper_supports raw = all_tests (batch_tests ''EventSource'' ''aws:sns'' raw @
     [sum_bind (first_record raw) (\<lambda>r. has_own r ''Sns'')])"

definition SnsEventMapper_map :: "jsv \<Rightarrow> thrown + execution_options" where
  "SnsEventMapper_map raw = map_records sns_event raw"

definition SnsEventMapper :: event_mapper where
  "SnsEventMapper = one_way_mapper SnsEventMapper_supports SnsEventMapper_map"

section \<open>SQS\<close>

text \<open>\<open>+attribute\<close>, when it is a number.\<close>

definition number_field :: "mapper_env \<Rightarrow> (jsv \<Rightarrow> jsv) \<Rightarrow> string \<Rightarrow> jsv \<Rightarrow> (string \<times> (thrown + jsv)) list" where
  "number_field env f name v = (case me_toNumber env v of Some n \<Rightarrow> [(name, Inr (f (JAtom n)))] | None \<Rightarrow> [])"

definition sqs_attributes :: "mapper_env \<Rightarrow> jsv \<Rightarrow> thrown + jsv" where
  "sqs_attributes env attributes =
     sum_bind (get_prop attributes ''ApproximateFirstReceiveTimestamp'') (\<lambda>first.
     sum_bind (get_prop attributes ''SentTimestamp'') (\<lambda>sent.
     sum_bind (get_prop attributes ''ApproximateReceiveCount'') (\<lambda>count.
       new_object ''SqsAttributesModel''
        (number_field env js_date ''approximateFirstReceiveTime'' first @
         number_field env js_date ''sentTime'' sent @
         [(''senderId'', get_prop attributes ''SenderId'')] @
         [(''approximateReceiveCount'', Inr (case me_toNumber env count of Some n \<Rightarrow> JAtom n | None \<Rightarrow> JUndefined)),
          (''messageGroupId'', get_prop attributes ''MessageGroupId''),
          (''messageDeduplicationId'', get_prop attributes ''MessageDeduplicationId''),
          (''sequenceNumber'', get_prop attributes ''SequenceNumber'')]))))"

definition sqs_fields :: "mapper_env \<Rightarrow> jsv \<Rightarrow> jsv \<Rightarrow> (string \<times> (thrown + jsv)) list" where
  "sqs_fields env record attributes =
     [(''eventSource'', chain record [Dot ''eventSource'']),
      (''awsRegion'', chain record [Dot ''awsRegion'']),
      (''body'', chain record [Dot ''body'']),
      (''eventSourceArn'', chain record [Dot ''eventSourceARN'']),
      (''md5OfBody'', chain record [Dot ''md5OfBody'']),
      (''messageAttributes'', chain record [Dot ''messageAttributes'']),
      (''receiptHandle'', chain record [Dot ''receiptHandle'']),
      (''messageId'', chain record [Dot ''messageId''])] @
     (if truthy attributes then [(''attributes'', sqs_attributes env attributes)] else [])"

definition sqs_payload :: "mapper_env \<Rightarrow> jsv \<Rightarrow> thrown + jsv" where
  "sqs_payload env record =
     sum_bind (chain record [Dot ''attributes'']) (\<lambda>attributes. new_object ''SqsEventPayload'' (sqs_fields env record attributes))"

definition sqs_event :: "mapper_env \<Rightarrow> nat \<Rightarrow> jsv \<Rightarrow> thrown + event" where
  "sqs_event env i record =
     sum_bind (chain record [Dot ''messageId'']) (\<lambda>messageId.
     sum_bind (sqs_payload env record) (\<lambda>payload. Inr (new_event ''SQS_EVENT'' payload messageId)))"

definition SqsEventMapper_supports :: "jsv \<Rightarrow> thrown + bool" where
  "SqsEventMapper_supports raw = all_tests (batch_tests ''eventSource'' ''aws:sqs'' raw)"

definition SqsEventMapper_map :: "mapper_env \<Rightarrow> jsv \<Rightarrow> thrown + execution_options" where
  "SqsEventMapper_map env raw = map_records (sqs_event env) raw"

definition SqsEventMapper :: "mapper_env \<Rightarrow> event_mapper" where
  "SqsEventMapper env = one_way_mapper SqsEventMapper_supports (SqsEventMapper_map env)"

section \<open>DynamoDB streams\<close>

definition DynamodbEventType :: "string list" where
  "DynamodbEventType = [''UnknownDynamoDbEvent'', ''INSERT'', ''MODIFY'', ''REMOVE'']"

definition first_key :: "jsv \<Rightarrow> thrown + string option" where
  "first_key v = (case v of
     JUndefined \<Rightarrow> Inl (NativeErr ''TypeError'' ''Cannot convert undefined or null to object'' None None)
   | JNull \<Rightarrow> Inl (NativeErr ''TypeError'' ''Cannot convert undefined or null to object'' None None)
   | _ \<Rightarrow> Inr (case own_properties v of [] \<Rightarrow> None | kv # _ \<Rightarrow> Some (fst kv)))"

definition parsed_key :: "string \<times> jsv \<Rightarrow> thrown + jsv" where
  "parsed_key kv =
     sum_bind (first_key (snd kv)) (\<lambda>t.
     let keyType = (case t of Some t \<Rightarrow> js_string t | None \<Rightarrow> JUndefined) in
     plain_object [(''keyName'', Inr (js_string (fst kv))), (''keyType'', Inr keyType),
       (''keyValue'', get_prop (snd kv) (js_text keyType))])"

definition parseKeys :: "jsv \<Rightarrow> thrown + jsv" where
  "parseKeys v = sum_bind (collect (\<lambda>_. parsed_key) 0 (own_properties v)) (\<lambda>ks. Inr (JArray ks))"

definition js_split_second :: "jsv \<Rightarrow> thrown + jsv" where
  "js_split_second v =
     (case as_string v of
        Some s \<Rightarrow> Inr (case split_on CHR ''/'' s of _ # t # _ \<Rightarrow> js_string t | _ \<Rightarrow> JUndefined)
      | None \<Rightarrow> Inl (if nullish v then read_error v ''split''
          else NativeErr ''TypeError'' ''record.eventSourceARN.split is not a function'' None None))"

definition dynamodb_model :: "jsv \<Rightarrow> thrown + jsv" where
  "dynamodb_model record =
     (let db = (\<lambda>k. chain record [Dot ''dynamodb'', Dot k]) in
      sum_bind (db ''NewImage'') (\<lambda>newImage. sum_bind (db ''OldImage'') (\<lambda>oldImage.
      new_object ''DynamodbModel''
       ([(''sequenceNumber'', db ''SequenceNumber''), (''sizeBytes'', db ''SizeBytes''),
         (''streamViewType'', db ''StreamViewType''), (''keys'', db ''Keys''),
         (''parsedKeys'', sum_bind (db ''Keys'') parseKeys)] @
        (if truthy newImage then [(''newImage'', Inr newImage), (''parsedNewImage'', parseKeys newImage)] else []) @
        (if truthy oldImage then [(''oldImage'', Inr oldImage), (''parsedOldImage'', parseKeys oldImage)] else []) @
        [(''tableName'', sum_bind (chain record [Dot ''eventSourceARN'']) js_split_second)]))))"

definition dynamodb_event :: "nat \<Rightarrow> jsv \<Rightarrow> thrown + event" where
  "dynamodb_event i record =
     sum_bind (chain record [Dot ''eventName'']) (\<lambda>name.
     sum_bind (chain record [Dot ''eventID'']) (\<lambda>eventId.
     sum_bind (chain record [Dot ''dynamodb'', Dot ''ApproximateCreationDateTime'']) (\<lambda>created.
     sum_bind (new_object ''DynamodbEventPayload''
       ([(''eventVersion'', chain record [Dot ''eventVersion'']), (''eventSource'', chain record [Dot ''eventSource''])] @
        (if truthy created then [(''eventTime'', Inr (js_date created))] else []) @
        [(''awsRegion'', chain record [Dot ''awsRegion'']), (''eventName'', Inr name), (''eventId'', Inr eventId),
         (''eventSourceArn'', chain record [Dot ''eventSourceARN'']), (''dynamodb'', dynamodb_model record)])) (\<lambda>payload.
       Inr (new_event (find_enum DynamodbEventType ''UnknownDynamoDbEvent'' name) payload eventId)))))"

definition DynamodbEventMapper_supports :: "jsv \<Rightarrow> thrown + bool" where
  "DynamodbEventMapper_supports raw = all_tests (batch_tests ''eventSource'' ''aws:dynamodb'' raw @
     [sum_bind (first_record raw) (\<lambda>r. has_own r ''dynamodb'')])"

definition DynamodbEventMapper_map :: "jsv \<Rightarrow> thrown + execution_options" where
  "DynamodbEventMapper_map raw = map_records dynamodb_event raw"

definition DynamodbEventMapper :: event_mapper where
  "DynamodbEventMapper = one_way_mapper DynamodbEventMapper_supports DynamodbEventMapper_map"

section \<open>Kafka\<close>

text \<open>
  \<open>Buffer(v, 'base64').toString('ascii')\<close>: characters outside the alphabet are skipped, the padding
  sign ends the text, and each byte loses its high bit.
\<close>

definition base64_value :: "char \<Rightarrow> nat option" where
  "base64_value c =
     (let n = (of_char c :: nat) in
      if 65 \<le> n \<and> n \<le> 90 then Some (n - 65)
      else if 97 \<le> n \<and> n \<le> 122 then Some (n - 71)
      else if 48 \<le> n \<and> n \<le> 57 then Some (n + 4)
      else if c = CHR ''+'' \<or> c = CHR ''-'' then Some 62
      else if c = CHR ''/'' \<or> c = CHR ''_'' then Some 63 else None)"

fun base64_bytes :: "nat list \<Rightarrow> nat list" where
  "base64_bytes (a # b # c # d # r) =
     (a * 4 + b div 16) # ((b mod 16) * 16 + c div 4) # ((c mod 4) * 64 + d) # base64_bytes r"
| "base64_bytes [a, b, c] = [a * 4 + b div 16, (b mod 16) * 16 + c div 4]"
| "base64_bytes [a, b] = [a * 4 + b div 16]"
| "base64_bytes _ = []"

definition base64_decode :: "string \<Rightarrow> nat list" where
  "base64_decode s = base64_bytes (List.map_filter base64_value (takeWhile (\<lambda>c. c \<noteq> CHR ''='') s))"

definition ascii_text :: "nat list \<Rightarrow> string" where
  "ascii_text bs = map (\<lambda>b. char_of (b mod 128)) bs"

definition buffer_text :: "jsv \<Rightarrow> thrown + string" where
  "buffer_text v =
     (case as_string v of
        Some s \<Rightarrow> Inr (ascii_text (base64_decode s))
      | None \<Rightarrow> Inl (NativeErr ''TypeError'' ''The first argument must be of type string or an instance of Buffer'' None None))"

definition kafka_message :: "mapper_env \<Rightarrow> jsv \<Rightarrow> thrown + jsv" where
  "kafka_message env record =
     sum_bind (chain record [Dot ''offset'']) (\<lambda>offset.
     sum_bind (chain record [Dot ''value'']) (\<lambda>v. sum_bind (buffer_text v) (\<lambda>decoded.
     new_object ''KafkaMessageModel''
       [(''offset'', Inr offset), (''partition'', chain record [Dot ''partition'']),
        (''timestamp'', sum_bind (chain record [Dot ''timestamp'']) (\<lambda>t. Inr (js_date t))),
        (''timestampType'', chain record [Dot ''timestampType'']),
        (''value'', Inr (case me_jsonParse env decoded of Some j \<Rightarrow> j | None \<Rightarrow> js_string decoded))])))"

definition kafka_event :: "mapper_env \<Rightarrow> jsv \<Rightarrow> nat \<Rightarrow> string \<times> jsv \<Rightarrow> thrown + event" where
  "kafka_event env raw i kv =
     sum_bind (sum_bind (get_index (snd kv) 0) (\<lambda>r. get_prop r ''topic'')) (\<lambda>topic.
     sum_bind (iterate (snd kv)) (\<lambda>records.
     sum_bind (collect (\<lambda>_. kafka_message env) 0 records) (\<lambda>messages.
     sum_bind (new_object ''KafkaEventPayload''
       [(''eventSource'', get_prop raw ''eventSource''), (''eventSourceArn'', get_prop raw ''eventSourceArn''),
        (''topicName'', Inr topic), (''messages'', Inr (JArray messages))]) (\<lambda>payload.
       Inr (new_event ''KAFKA_EVENT'' payload (js_string (me_newId env i)))))))"

definition KafkaEventMapper_map :: "mapper_env \<Rightarrow> jsv \<Rightarrow> thrown + execution_options" where
  "KafkaEventMapper_map env raw =
     sum_bind (get_prop raw ''records'') (\<lambda>records.
     sum_bind (collect (kafka_event env raw) 0 (own_properties records)) (\<lambda>events.
       Inr \<lparr>eo_events = events, eo_order = Sequential\<rparr>))"

definition KafkaEventMapper_supports :: "jsv \<Rightarrow> thrown + bool" where
  "KafkaEventMapper_supports raw =
     all_tests [has_own raw ''eventSource'', equals_string (get_prop raw ''eventSource'') ''aws:kafka'']"

definition KafkaEventMapper :: "mapper_env \<Rightarrow> event_mapper" where
  "KafkaEventMapper env = one_way_mapper KafkaEventMapper_supports (KafkaEventMapper_map env)"

section \<open>EventBridge\<close>

definition EventBridgeEventMapper_map :: "jsv \<Rightarrow> thrown + execution_options" where
  "EventBridgeEventMapper_map raw =
     sum_bind (get_prop raw ''source'') (\<lambda>source.
     sum_bind (get_prop raw ''id'') (\<lambda>i.
     sum_bind (new_object ''EventBridgePayload''
       [(''id'', Inr i), (''source'', Inr source), (''version'', get_prop raw ''version''),
        (''detailType'', get_prop raw ''detail-type''), (''account'', get_prop raw ''account''),
        (''time'', get_prop raw ''time''), (''region'', get_prop raw ''region''),
        (''resources'', get_prop raw ''resources''), (''detail'', get_prop raw ''detail'')]) (\<lambda>payload.
       Inr \<lparr>eo_events = [new_event (if source = js_string ''aws.events'' then ''SCHEDULED_EVENT'' else ''EVENT_BRIDGE_EVENT'')
              payload i], eo_order = Parallel\<rparr>)))"

definition EventBridgeEventMapper_supports :: "jsv \<Rightarrow> thrown + bool" where
  "EventBridgeEventMapper_supports raw = all_tests (map (has_own raw)
     [''source'', ''id'', ''version'', ''detail-type'', ''account'', ''time'', ''region'', ''resources'', ''detail''])"

definition EventBridgeEventMapper :: event_mapper where
  "EventBridgeEventMapper = one_way_mapper EventBridgeEventMapper_supports EventBridgeEventMapper_map"

definition aws_mappers :: "mapper_env \<Rightarrow> event_mapper list" where
  "aws_mappers env = [DynamodbEventMapper, EventBridgeEventMapper, KafkaEventMapper env, S3EventMapper env,
     SnsEventMapper, SqsEventMapper env]"

end
