(* ===== verification/Gateway_Event_Mappers.thy ===== *)
theory Gateway_Event_Mappers
  imports Aws_Event_Mappers
begin

text \<open>
  The event mappers that turn a platform's HTTP event into a \<open>Request\<close> and a \<open>Response\<close> back into
  what the platform expects: API Gateway HTTP and REST (\<open>aws-api-gateway\<close>), Express (\<open>express\<close>),
  and the mapper of the networking package for a \<open>Request\<close> that comes as it is. A request and a
  response are instances with the fields of their classes; the getter \<open>headers\<close> reads \<open>_headers\<close>.
  The log entry of a body that cannot be stringified is left out: values of the model always can.
\<close>

section \<open>Requests and responses as values\<close>

definition lower_headers :: "jsv \<Rightarrow> (string \<times> jsv) list" where
  "lower_headers headers = foldl (\<lambda>own kv. obj_set (to_lower (fst kv)) (snd kv) own) [] (own_properties headers)"

text \<open>\<open>new Request(method, url, id)\<close>, \<open>setHeaders\<close>, the bodies, then the identifiers of the headers.\<close>

definition request_value :: "string \<Rightarrow> string \<Rightarrow> string \<Rightarrow> (string \<times> jsv) list \<Rightarrow> jsv \<Rightarrow> jsv \<Rightarrow> jsv" where
  "request_value httpMethod url i headers body rawBody = JInstance ''Request''
     [(''id'', coalesce (property headers ''x-pristine-request-id'') (js_string i)),
      (''groupId'', property headers ''x-pristine-event-group-id''),
      (''httpMethod'', js_string httpMethod), (''url'', js_string url),
      (''body'', body), (''rawBody'', rawBody), (''_headers'', JObject headers)]"

definition js_to_lower :: "jsv \<Rightarrow> thrown + string" where
  "js_to_lower v =
     (case as_string v of
        Some s \<Rightarrow> Inr (to_lower s)
      | None \<Rightarrow> Inl (if nullish v then read_error v ''toLowerCase''
          else NativeErr ''TypeError'' ''method.toLowerCase is not a function'' None None))"

definition method_of_lower :: "string \<Rightarrow> string option" where
  "method_of_lower m =
     (if m = ''get'' then Some ''GET'' else if m = ''post'' then Some ''POST''
      else if m = ''put'' then Some ''PUT'' else if m = ''patch'' then Some ''PATCH''
      else if m = ''delete'' then Some ''DELETE'' else if m = ''options'' then Some ''OPTIONS'' else None)"

definition mapHttpMethod :: "jsv \<Rightarrow> thrown + string" where
  "mapHttpMethod v = sum_bind (js_to_lower v) (\<lambda>m.
     Inr (case method_of_lower m of Some x \<Rightarrow> x | None \<Rightarrow> ''GET''))"

datatype strategy = RequestStrategy | EventStrategy

definition single_event :: "event \<Rightarrow> execution_options" where
  "single_event e = \<lparr>eo_events = [e], eo_order = Sequential\<rparr>"

definition request_event :: "string \<Rightarrow> jsv \<Rightarrow> event" where
  "request_event t request = new_event t request
     (case request of JInstance _ fs \<Rightarrow> property fs ''id'' | _ \<Rightarrow> JUndefined)"

section \<open>API Gateway, HTTP API\<close>

definition HttpApiEventMapper_supports :: "jsv \<Rightarrow> thrown + bool" where
  "HttpApiEventMapper_supports raw = all_tests
     [has_own raw ''version'', equals_string (get_prop raw ''version'') ''2.0'',
      has_own raw ''headers'', has_own raw ''requestContext'']"

definition http_api_request :: "mapper_env \<Rightarrow> jsv \<Rightarrow> thrown + jsv" where
  "http_api_request env raw =
     sum_bind (sum_bind (chain raw [Dot ''requestContext'', Dot ''http'', Dot ''method'']) mapHttpMethod) (\<lambda>httpMethod.
     sum_bind (chain raw [Dot ''requestContext'', Dot ''http'', Dot ''path'']) (\<lambda>path.
     sum_bind (get_prop raw ''rawQueryString'') (\<lambda>query.
     sum_bind (get_prop raw ''headers'') (\<lambda>headers.
     sum_bind (get_prop raw ''body'') (\<lambda>body.
       Inr (request_value httpMethod (js_text path @ (if truthy query then ''?'' @ js_text query else []))
         (me_newId env 0) (lower_headers headers) body body))))))"

definition http_api_payload :: "jsv \<Rightarrow> thrown + jsv" where
  "http_api_payload raw =
     (let rc = (\<lambda>k. (k, chain raw [Dot ''requestContext'', Dot k]));
          rh = (\<lambda>k. (k, chain raw [Dot ''requestContext'', Dot ''http'', Dot k])) in
      sum_bind (has_own raw ''requestContext'') (\<lambda>hasContext.
      new_object ''HttpApiEventPayload''
       (map (\<lambda>k. (k, get_prop raw k))
          [''version'', ''routeKey'', ''rawPath'', ''rawQueryString'', ''cookies'', ''headers'', ''queryStringParameters'',
           ''isBase64Encoded'', ''body'', ''pathParameters'', ''stageVariables''] @
        (if hasContext then
          [(''requestContext'', plain_object
             ([rc ''accountId'', rc ''apiId'', rc ''domainName'', rc ''domainPrefix'',
               (''http'', plain_object (map rh [''method'', ''path'', ''protocol'', ''sourceIp'', ''userAgent'']))] @
              map rc [''requestId'', ''routeKey'', ''stage'', ''time'', ''timeEpoch'', ''authentication'', ''authorizer'']))]
         else []))))"

definition HttpApiEventMapper_map :: "mapper_env \<Rightarrow> strategy \<Rightarrow> jsv \<Rightarrow> thrown + execution_options" where
  "HttpApiEventMapper_map env s raw =
     (case s of
        RequestStrategy \<Rightarrow> sum_bind (http_api_request env raw) (\<lambda>r. Inr (single_event (request_event ''HTTP_API_EVENT'' r)))
      | EventStrategy \<Rightarrow>
          sum_bind (http_api_payload raw) (\<lambda>p.
          sum_bind (chain raw [Dot ''headers'', Dot ''x-pristine-request-id'']) (\<lambda>i.
            Inr (single_event (new_event ''HTTP_API_EVENT'' p i)))))"

text \<open>The response of a handler: a payload of the platform, a \<open>Response\<close>, or any other value.\<close>

definition stringified :: "jsv \<Rightarrow> jsv" where
  "stringified body =
     (if body \<noteq> JNull \<and> typeof_object body
      then (case json_stringify body of Some s \<Rightarrow> js_string s | None \<Rightarrow> JUndefined) else body)"

definition response_payload :: "string \<Rightarrow> (string \<times> jsv) list \<Rightarrow> jsv \<Rightarrow> jsv \<Rightarrow> jsv \<Rightarrow> jsv" where
  "response_payload c extra status body headers = JInstance c
     ([(''headers'', headers), (''isBase64Encoded'', JAtom ''false'')] @ extra @ [(''statusCode'', status), (''body'', body)])"

definition to_platform_response :: "string \<Rightarrow> (string \<times> jsv) list \<Rightarrow> jsv \<Rightarrow> jsv" where
  "to_platform_response c extra response =
     (if instance_of c response then response
      else if instance_of ''Response'' response then
        (case response of
           JInstance _ fs \<Rightarrow>
             response_payload c extra (property fs ''status'') (stringified (property fs ''body''))
               (if truthy (property fs ''_headers'') then property fs ''_headers'' else JObject [])
         | _ \<Rightarrow> response)
      else response_payload c extra (JAtom ''200'') response (JObject []))"

definition typed_reverse :: "string \<Rightarrow> event_response \<Rightarrow> jsv \<Rightarrow> thrown + bool" where
  "typed_reverse t resp acc = Inr (ev_type (er_event resp) = t)"

definition HttpApiEventMapper :: "mapper_env \<Rightarrow> strategy \<Rightarrow> event_mapper" where
  "HttpApiEventMapper env s = \<lparr>em_supportsMapping = HttpApiEventMapper_supports, em_map = HttpApiEventMapper_map env s,
     em_supportsReverse = typed_reverse ''HTTP_API_EVENT'',
     em_reverseMap = (\<lambda>resp acc. Inr (to_platform_response ''HttpApiEventResponsePayload''
       [(''multiValueHeaders'', JObject [])] (er_response resp)))\<rparr>"

section \<open>API Gateway, REST API\<close>

definition RestApiEventMapper_supports :: "mapper_env \<Rightarrow> jsv \<Rightarrow> thrown + bool" where
  "RestApiEventMapper_supports env raw = all_tests
     [Inr (me_context env = ''AWS_LAMBDA''), has_own raw ''version'', equals_string (get_prop raw ''version'') ''1.0'',
      has_own raw ''resource'', has_own raw ''path'', has_own raw ''httpMethod'', has_own raw ''headers'']"

definition rest_api_request :: "mapper_env \<Rightarrow> jsv \<Rightarrow> thrown + jsv" where
  "rest_api_request env raw =
     sum_bind (sum_bind (get_prop raw ''httpMethod'') mapHttpMethod) (\<lambda>httpMethod.
     sum_bind (get_prop raw ''path'') (\<lambda>path.
     sum_bind (get_prop raw ''headers'') (\<lambda>headers.
     sum_bind (get_prop raw ''body'') (\<lambda>body.
       Inr (request_value httpMethod (js_text path) (me_newId env 0) (lower_headers headers) body body)))))"

definition or_undefined :: "thrown + jsv \<Rightarrow> thrown + jsv" where
  "or_undefined v = sum_bind v (\<lambda>w. Inr (coalesce w JUndefined))"

definition rest_api_payload :: "jsv \<Rightarrow> thrown + jsv" where
  "rest_api_payload raw =
     (let rc = (\<lambda>k. (k, chain raw [Dot ''requestContext'', Dot k]));
          ident = (\<lambda>k. (k, or_undefined (chain raw [Dot ''requestContext'', Dot ''identity'', Opt k])));
          or_empty = (\<lambda>k. (k, sum_bind (get_prop raw k) (\<lambda>v. Inr (coalesce v (JObject []))))) in
      sum_bind (has_own raw ''requestContext'') (\<lambda>hasContext.
      new_object ''RestApiEventPayload''
       (map (\<lambda>k. (k, get_prop raw k))
          [''version'', ''resource'', ''path'', ''httpMethod'', ''headers'', ''multiValueHeaders'', ''queryStringParameters'',
           ''multiValueQueryStringParameters''] @
        [or_empty ''pathParameters'', or_empty ''stageVariables'',
         (''body'', get_prop raw ''body''), (''isBase64Encoded'', get_prop raw ''isBase64Encoded'')] @
        (if hasContext then
          [(''requestContext'', plain_object
             ([(''resourceId'', or_undefined (chain raw [Dot ''requestContext'', Dot ''resourceId'']))] @
              map rc [''resourcePath'', ''httpMethod'', ''extendedRequestId'', ''requestTime'', ''path'', ''accountId'',
                ''protocol'', ''stage'', ''domainPrefix'', ''requestTimeEpoch'', ''requestId'', ''domainName'', ''apiId'',
                ''authorizer''] @
              [(''identity'', plain_object
                 (map ident [''cognitoIdentityPoolId'', ''accountId'', ''cognitoIdentityId'', ''caller'', ''sourceIp'',
                    ''principalOrgId'', ''accessKey'', ''cognitoAuthenticationType'', ''cognitoAuthenticationProvider'',
                    ''userArn'', ''userAgent'', ''user''] @
                  [(''clientCert'', or_undefined
                     (chain raw [Dot ''requestContext'', Dot ''identity'', Dot ''clientCert'']))]))]))]
         else []))))"

definition RestApiEventMapper_map :: "mapper_env \<Rightarrow> strategy \<Rightarrow> jsv \<Rightarrow> thrown + execution_options" where
  "RestApiEventMapper_map env s raw =
     (case s of
        RequestStrategy \<Rightarrow> sum_bind (rest_api_request env raw) (\<lambda>r. Inr (single_event (request_event ''REST_API_EVENT'' r)))
      | EventStrategy \<Rightarrow>
          sum_bind (rest_api_payload raw) (\<lambda>p.
          sum_bind (chain raw [Dot ''requestContext'', Dot ''requestId'']) (\<lambda>i.
            Inr (single_event (new_event ''REST_API_EVENT'' p (coalesce i (js_string (me_newId env 0))))))))"

definition RestApiEventMapper :: "mapper_env \<Rightarrow> strategy \<Rightarrow> event_mapper" where
  "RestApiEventMapper env s = \<lparr>em_supportsMapping = RestApiEventMapper_supports env, em_map = RestApiEventMapper_map env s,
     em_supportsReverse = typed_reverse ''REST_API_EVENT'',
     em_reverseMap = (\<lambda>resp acc. Inr (to_platform_response ''RestApiEventResponsePayload''
       [(''multiValueHeaders'', JObject [])] (er_response resp)))\<rparr>"

section \<open>The networking package\<close>

definition RequestMapper_map :: "jsv \<Rightarrow> thrown + execution_options" where
  "RequestMapper_map request =
     (case request of
        JInstance _ fs \<Rightarrow> Inr (single_event \<lparr>ev_type = ''Request'', ev_payload = request,
          ev_id = js_text (property fs ''id''), ev_groupId = map_option id (as_string (property fs ''groupId''))\<rparr>)
      | _ \<Rightarrow> Inl (read_error request ''id''))"

definition RequestMapper :: event_mapper where
  "RequestMapper = \<lparr>em_supportsMapping = (\<lambda>raw. Inr (instance_of ''Request'' raw)), em_map = RequestMapper_map,
     em_supportsReverse = (\<lambda>resp acc. Inr (instance_of ''Response'' (er_response resp))),
     em_reverseMap = (\<lambda>resp acc. Inr (er_response resp))\<rparr>"

definition DefaultEventMapper :: event_mapper where
  "DefaultEventMapper = \<lparr>em_supportsMapping = (\<lambda>raw. Inr False),
     em_map = (\<lambda>raw. Inr \<lparr>eo_events = [], eo_order = Sequential\<rparr>),
     em_supportsReverse = (\<lambda>resp acc. Inr False), em_reverseMap = (\<lambda>resp acc. Inr JUndefined)\<rparr>"

section \<open>Express\<close>

definition HttpHeadersMapper_map :: "jsv \<Rightarrow> (string \<times> jsv) list" where
  "HttpHeadersMapper_map headers = foldl (\<lambda>own kv. obj_set (fst kv) (snd kv) own) []
     (filter (\<lambda>kv. snd kv \<noteq> JUndefined \<and> \<not> is_array (snd kv)) (own_properties headers))"

definition MethodMapper_map :: "jsv \<Rightarrow> thrown + string" where
  "MethodMapper_map v = sum_bind (js_to_lower v) (\<lambda>m.
     Inr (case method_of_lower m of Some x \<Rightarrow> x | None \<Rightarrow> m))"

definition RawBodyCapture_resolve :: "jsv \<Rightarrow> thrown + jsv" where
  "RawBodyCapture_resolve request =
     sum_bind (get_prop request ''rawBody'') (\<lambda>captured.
     sum_bind (get_prop request ''body'') (\<lambda>body.
       Inr (if instance_of ''Buffer'' captured then captured
            else if instance_of ''Buffer'' body \<or> as_string body \<noteq> None then body else JUndefined)))"

definition express_request :: "mapper_env \<Rightarrow> jsv \<Rightarrow> thrown + jsv" where
  "express_request env raw =
     sum_bind (get_prop raw ''headers'') (\<lambda>headers.
     sum_bind (sum_bind (get_prop raw ''method'') MethodMapper_map) (\<lambda>httpMethod.
     sum_bind (get_prop raw ''url'') (\<lambda>url.
     sum_bind (get_prop raw ''body'') (\<lambda>body.
     sum_bind (RawBodyCapture_resolve raw) (\<lambda>rawBody.
     let requestHeader = (\<lambda>k. property (own_properties headers) k) in
       Inr (JInstance ''Request''
         [(''id'', coalesce (requestHeader ''x-pristine-request-id'') (js_string (me_newId env 0))),
          (''groupId'', requestHeader ''x-pristine-event-group-id''),
          (''httpMethod'', js_string httpMethod), (''url'', url), (''body'', body), (''rawBody'', rawBody),
          (''_headers'', JObject (lower_headers (JObject (HttpHeadersMapper_map headers))))]))))))"

text \<open>\<open>status\<close>, \<open>setHeader\<close> for each header, \<open>send\<close>: what the Express response was given.\<close>

definition ResponseMapper_reverseMap :: "jsv \<Rightarrow> jsv" where
  "ResponseMapper_reverseMap response =
     (case response of
        JInstance _ fs \<Rightarrow> JInstance ''ExpressResponse''
          [(''status'', property fs ''status''), (''headers'', JObject (own_properties (property fs ''_headers''))),
           (''sent'', property fs ''body'')]
      | _ \<Rightarrow> JUndefined)"

definition ExpressRequestEventMapper :: "mapper_env \<Rightarrow> event_mapper" where
  "ExpressRequestEventMapper env = \<lparr>em_supportsMapping = (\<lambda>raw. Inr (me_context env = ''EXPRESS'')),
     em_map = (\<lambda>raw. sum_bind (express_request env raw) (\<lambda>r. Inr (single_event (request_event ''EXPRESS_REQUEST'' r)))),
     em_supportsReverse = (\<lambda>resp acc. Inr (me_context env = ''EXPRESS'' \<and> instance_of ''Response'' acc)),
     em_reverseMap = (\<lambda>resp acc. Inr (ResponseMapper_reverseMap acc))\<rparr>"

end
