(* ===== verification/Gcp_Event_Mappers.thy ===== *)
theory Gcp_Event_Mappers
  imports Gateway_Event_Mappers
begin

text \<open>
  The event mappers of the gcp package (Pub/Sub, Cloud Storage, Firestore, Eventarc) and of the
  gcp-functions package (Cloud Functions of both generations, Cloud Run), with their shared base.
  \<open>Buffer.from(data, "base64").toString("utf-8")\<close> is an argument.
\<close>

section \<open>CloudEvents of one source\<close>

definition typed_object :: "jsv \<Rightarrow> bool" where
  "typed_object v \<longleftrightarrow> \<not> nullish v \<and> typeof_object v"

definition type_text :: "jsv \<Rightarrow> string \<Rightarrow> string option" where
  "type_text raw k = (case get_prop raw k of Inr v \<Rightarrow> as_string v | Inl e \<Rightarrow> None)"

definition type_starts :: "jsv \<Rightarrow> string \<Rightarrow> bool" where
  "type_starts raw prefix = (case type_text raw ''type'' of Some t \<Rightarrow> starts_with t prefix | None \<Rightarrow> False)"

definition storage_prefix :: string where "storage_prefix = ''google.cloud.storage.object.v1.''"

definition firestore_prefix :: string where "firestore_prefix = ''google.cloud.firestore.document.v1.''"

text \<open>\<open>if (raw.k) payload.name = new Date(raw.k)\<close>.\<close>

definition date_field :: "string \<Rightarrow> jsv \<Rightarrow> (string \<times> (thrown + jsv)) list" where
  "date_field name v = (if truthy v then [(name, Inr (js_date v))] else [])"

definition event_id_of :: "mapper_env \<Rightarrow> jsv \<Rightarrow> jsv" where
  "event_id_of env i = coalesce i (js_string (me_newId env 0))"

definition CloudStorageEventType :: "string list" where
  "CloudStorageEventType = [''UnknownCloudStorageEvent'', ''google.cloud.storage.object.v1.finalized'', ''google.cloud.storage.object.v1.deleted'',
     ''google.cloud.storage.object.v1.archived'', ''google.cloud.storage.object.v1.metadataUpdated'']"

definition FirestoreEventType :: "string list" where
  "FirestoreEventType = [''UnknownFirestoreEvent'', ''google.cloud.firestore.document.v1.created'',
     ''google.cloud.firestore.document.v1.updated'', ''google.cloud.firestore.document.v1.deleted'',
     ''google.cloud.firestore.document.v1.written'']"

definition CloudStorageEventMapper_supports :: "jsv \<Rightarrow> thrown + bool" where
  "CloudStorageEventMapper_supports raw = Inr (typed_object raw \<and> type_starts raw storage_prefix)"

definition FirestoreEventMapper_supports :: "jsv \<Rightarrow> thrown + bool" where
  "FirestoreEventMapper_supports raw = Inr (typed_object raw \<and> type_starts raw firestore_prefix)"

definition EventarcEventMapper_supports :: "jsv \<Rightarrow> thrown + bool" where
  "EventarcEventMapper_supports raw = Inr (
     if \<not> typed_object raw then False
     else if type_text raw ''type'' = None \<or> type_text raw ''source'' = None then False
     else if type_starts raw storage_prefix then False
     else if type_starts raw firestore_prefix then False
     else True)"

definition CloudStorageEventMapper_map :: "mapper_env \<Rightarrow> jsv \<Rightarrow> thrown + execution_options" where
  "CloudStorageEventMapper_map env raw =
     sum_bind (get_prop raw ''type'') (\<lambda>t. sum_bind (get_prop raw ''time'') (\<lambda>time. sum_bind (get_prop raw ''id'') (\<lambda>i.
     sum_bind (new_object ''CloudStorageEventPayload''
       ([(''eventType'', Inr t), (''source'', get_prop raw ''source'')] @ date_field ''eventTime'' time @
        [(''data'', get_prop raw ''data'')] @
        map (\<lambda>k. (k, chain raw [Dot ''data'', Opt k]))
          [''bucket'', ''name'', ''generation'', ''metageneration'', ''contentType'', ''size'', ''md5Hash'', ''crc32c''])) (\<lambda>payload.
       Inr \<lparr>eo_events = [new_event (find_enum CloudStorageEventType ''UnknownCloudStorageEvent'' t) payload (event_id_of env i)],
            eo_order = Parallel\<rparr>))))"

definition FirestoreEventMapper_map :: "mapper_env \<Rightarrow> jsv \<Rightarrow> thrown + execution_options" where
  "FirestoreEventMapper_map env raw =
     sum_bind (get_prop raw ''type'') (\<lambda>t. sum_bind (get_prop raw ''time'') (\<lambda>time. sum_bind (get_prop raw ''id'') (\<lambda>i.
     sum_bind (chain raw [Dot ''data'', Opt ''value'', Opt ''name'']) (\<lambda>newName.
     sum_bind (chain raw [Dot ''data'', Opt ''oldValue'', Opt ''name'']) (\<lambda>oldName.
     sum_bind (new_object ''FirestoreEventPayload''
       ([(''eventType'', Inr t), (''source'', get_prop raw ''source'')] @ date_field ''eventTime'' time @
        [(''data'', get_prop raw ''data''), (''documentPath'', Inr (coalesce newName oldName)),
         (''value'', chain raw [Dot ''data'', Opt ''value'', Opt ''fields'']),
         (''oldValue'', chain raw [Dot ''data'', Opt ''oldValue'', Opt ''fields'']),
         (''updateMask'', chain raw [Dot ''data'', Opt ''updateMask'', Opt ''fieldPaths''])])) (\<lambda>payload.
       Inr \<lparr>eo_events = [new_event (find_enum FirestoreEventType ''UnknownFirestoreEvent'' t) payload (event_id_of env i)],
            eo_order = Parallel\<rparr>))))))"

definition EventarcEventMapper_map :: "mapper_env \<Rightarrow> jsv \<Rightarrow> thrown + execution_options" where
  "EventarcEventMapper_map env raw =
     sum_bind (get_prop raw ''id'') (\<lambda>i. sum_bind (get_prop raw ''specversion'') (\<lambda>version.
     sum_bind (get_prop raw ''time'') (\<lambda>time.
     sum_bind (new_object ''EventarcEventPayload''
       ([(''id'', Inr (event_id_of env i)), (''specVersion'', Inr (coalesce version (js_string ''1.0''))),
         (''type'', get_prop raw ''type''), (''source'', get_prop raw ''source''), (''subject'', get_prop raw ''subject'')] @
        date_field ''time'' time @
        [(''dataContentType'', get_prop raw ''datacontenttype''), (''data'', get_prop raw ''data'')])) (\<lambda>payload.
       Inr (single_event (new_event ''EVENTARC_EVENT'' payload (event_id_of env i)))))))"

definition CloudStorageEventMapper :: "mapper_env \<Rightarrow> event_mapper" where
  "CloudStorageEventMapper env = one_way_mapper CloudStorageEventMapper_supports (CloudStorageEventMapper_map env)"

definition FirestoreEventMapper :: "mapper_env \<Rightarrow> event_mapper" where
  "FirestoreEventMapper env = one_way_mapper FirestoreEventMapper_supports (FirestoreEventMapper_map env)"

definition EventarcEventMapper :: "mapper_env \<Rightarrow> event_mapper" where
  "EventarcEventMapper env = one_way_mapper EventarcEventMapper_supports (EventarcEventMapper_map env)"

section \<open>Pub/Sub\<close>

text \<open>The object test comes before the reads, which throw for a \<open>null\<close> message.\<close>

definition PubSubEventMapper_supports :: "jsv \<Rightarrow> thrown + bool" where
  "PubSubEventMapper_supports raw = all_tests
     [Inr (typed_object raw), has_own raw ''message'',
      sum_bind (get_prop raw ''message'') (\<lambda>m. Inr (typeof_object m)),
      sum_bind (get_prop raw ''message'') (\<lambda>m. has_own m ''data''),
      has_own raw ''subscription'']"

definition buffer_utf8 :: "(nat list \<Rightarrow> string) \<Rightarrow> jsv \<Rightarrow> thrown + string" where
  "buffer_utf8 utf8 v =
     (case as_string v of
        Some s \<Rightarrow> Inr (utf8 (base64_decode s))
      | None \<Rightarrow> Inl (NativeErr ''TypeError'' ''The first argument must be of type string or an instance of Buffer'' None None))"

definition PubSubEventMapper_map :: "mapper_env \<Rightarrow> (nat list \<Rightarrow> string) \<Rightarrow> jsv \<Rightarrow> thrown + execution_options" where
  "PubSubEventMapper_map env utf8 raw =
     (let msg = (\<lambda>k. chain raw [Dot ''message'', Dot k]) in
      sum_bind (msg ''messageId'') (\<lambda>messageId. sum_bind (msg ''data'') (\<lambda>dt. sum_bind (buffer_utf8 utf8 dt) (\<lambda>body.
      sum_bind (msg ''publishTime'') (\<lambda>published. sum_bind (msg ''orderingKey'') (\<lambda>orderingKey.
      sum_bind (new_object ''PubSubEventPayload''
        ([(''messageId'', Inr (event_id_of env messageId)), (''rawData'', Inr dt), (''body'', Inr (js_string body)),
          (''attributes'', sum_bind (msg ''attributes'') (\<lambda>a. Inr (coalesce a (JObject [])))),
          (''subscription'', get_prop raw ''subscription'')] @ date_field ''publishTime'' published @
         (if truthy orderingKey then [(''orderingKey'', Inr orderingKey)] else []))) (\<lambda>payload.
        Inr \<lparr>eo_events = [new_event ''PUB_SUB_MESSAGE'' payload (event_id_of env messageId)],
             eo_order = (if truthy orderingKey then Sequential else Parallel)\<rparr>)))))))"

definition PubSubEventMapper :: "mapper_env \<Rightarrow> (nat list \<Rightarrow> string) \<Rightarrow> event_mapper" where
  "PubSubEventMapper env utf8 = one_way_mapper PubSubEventMapper_supports (PubSubEventMapper_map env utf8)"

section \<open>HTTP functions\<close>

definition gcp_mapHttpMethod :: "jsv \<Rightarrow> thrown + string" where
  "gcp_mapHttpMethod v = mapHttpMethod (coalesce v (js_string []))"

definition extractPath :: "jsv \<Rightarrow> string" where
  "extractPath url =
     (if \<not> truthy url then ''/''
      else let u = js_text url in case index_of CHR ''?'' u of Some i \<Rightarrow> take i u | None \<Rightarrow> u)"

definition array_text :: "jsv list \<Rightarrow> string" where
  "array_text vs = join '','' (map (\<lambda>v. if nullish v then [] else js_text v) vs)"

definition flattenHeaders :: "jsv \<Rightarrow> (string \<times> jsv) list" where
  "flattenHeaders headers = foldl (\<lambda>flat kv. case snd kv of
       JArray vs \<Rightarrow> obj_set (to_lower (fst kv)) (js_string (array_text vs)) flat
     | v \<Rightarrow> if nullish v then flat else obj_set (to_lower (fst kv)) (js_string (js_text v)) flat) []
     (own_properties headers)"

definition raw_body_of :: "jsv \<Rightarrow> jsv" where
  "raw_body_of body =
     (if as_string body \<noteq> None then body
      else if \<not> nullish body then (case json_stringify body of Some s \<Rightarrow> js_string s | None \<Rightarrow> JUndefined)
      else JUndefined)"

definition toPristineRequest :: "jsv \<Rightarrow> jsv \<Rightarrow> jsv \<Rightarrow> jsv \<Rightarrow> string \<Rightarrow> thrown + jsv" where
  "toPristineRequest httpMethod url headers body i =
     sum_bind (gcp_mapHttpMethod httpMethod) (\<lambda>m.
       Inr (request_value m (extractPath url) i
         (lower_headers (JObject (flattenHeaders (coalesce headers (JObject []))))) body (raw_body_of body)))"

definition gcp_reverse :: "string \<Rightarrow> event_mapper \<Rightarrow> event_mapper" where
  "gcp_reverse t m = m\<lparr>em_supportsReverse := typed_reverse t,
     em_reverseMap := (\<lambda>resp acc. Inr (to_platform_response ''GcpFunctionsHttpEventResponsePayload'' [] (er_response resp)))\<rparr>"

definition has_cloud_event_headers :: "jsv \<Rightarrow> bool" where
  "has_cloud_event_headers headers \<longleftrightarrow>
     list_ex (\<lambda>kv. to_lower (fst kv) = ''ce-specversion'' \<or> to_lower (fst kv) = ''ce-type'') (own_properties headers)"

definition gcp_headers :: "jsv \<Rightarrow> jsv" where
  "gcp_headers raw = (case get_prop raw ''headers'' of Inr h \<Rightarrow> coalesce h (JObject []) | Inl e \<Rightarrow> JObject [])"

text \<open>The two mappers of raw HTTP, Cloud Functions of the first generation and Cloud Run, differ in names only.\<close>

definition raw_http_map ::
  "mapper_env \<Rightarrow> string \<Rightarrow> string \<Rightarrow> strategy \<Rightarrow> jsv \<Rightarrow> thrown + execution_options" where
  "raw_http_map env payloadClass t s raw =
     (case s of
        RequestStrategy \<Rightarrow>
          sum_bind (get_prop raw ''method'') (\<lambda>m. sum_bind (get_prop raw ''url'') (\<lambda>url.
          sum_bind (get_prop raw ''headers'') (\<lambda>headers. sum_bind (get_prop raw ''body'') (\<lambda>body.
          sum_bind (toPristineRequest m url headers body (me_newId env 0)) (\<lambda>r.
            Inr (single_event (request_event t r)))))))
      | EventStrategy \<Rightarrow>
          sum_bind (get_prop raw ''url'') (\<lambda>url. sum_bind (get_prop raw ''body'') (\<lambda>body.
          sum_bind (get_prop raw ''rawBody'') (\<lambda>rawBody.
          sum_bind (new_object payloadClass
            [(''method'', get_prop raw ''method''), (''url'', Inr url), (''path'', Inr (js_string (extractPath url))),
             (''headers'', Inr (gcp_headers raw)),
             (''query'', sum_bind (get_prop raw ''query'') (\<lambda>q. Inr (coalesce q (JObject [])))),
             (''body'', Inr body),
             (''rawBody'', Inr (coalesce rawBody (if as_string body \<noteq> None then body else JUndefined))),
             (''ip'', get_prop raw ''ip'')]) (\<lambda>payload.
            Inr (single_event (new_event t payload (js_string (me_newId env 0)))))))))"

definition raw_http_shape :: "jsv \<Rightarrow> (thrown + bool) list" where
  "raw_http_shape raw = [has_own raw ''method'', has_own raw ''url'', has_own raw ''headers'']"

definition CloudFunctionGen1_supports :: "mapper_env \<Rightarrow> jsv \<Rightarrow> thrown + bool" where
  "CloudFunctionGen1_supports env raw =
     (if me_context env \<noteq> ''GCP_CLOUD_FUNCTION'' then Inr False
      else if \<not> typed_object raw then Inr False
      else if has_cloud_event_headers (gcp_headers raw) then Inr False
      else all_tests (raw_http_shape raw))"

definition CloudFunctionGen1HttpEventMapper :: "mapper_env \<Rightarrow> strategy \<Rightarrow> event_mapper" where
  "CloudFunctionGen1HttpEventMapper env s = gcp_reverse ''GCP_CLOUD_FUNCTION_GEN_1_HTTP_EVENT''
     (one_way_mapper (CloudFunctionGen1_supports env)
       (raw_http_map env ''CloudFunctionGen1HttpEventPayload'' ''GCP_CLOUD_FUNCTION_GEN_1_HTTP_EVENT'' s))"

definition CloudRun_supports :: "mapper_env \<Rightarrow> jsv \<Rightarrow> thrown + bool" where
  "CloudRun_supports env raw = all_tests
     ([Inr (me_context env = ''GCP_CLOUD_RUN''), Inr (typed_object raw)] @ raw_http_shape raw)"

definition CloudRunHttpEventMapper :: "mapper_env \<Rightarrow> strategy \<Rightarrow> event_mapper" where
  "CloudRunHttpEventMapper env s = gcp_reverse ''GCP_CLOUD_RUN_HTTP_EVENT''
     (one_way_mapper (CloudRun_supports env)
       (raw_http_map env ''CloudRunHttpEventPayload'' ''GCP_CLOUD_RUN_HTTP_EVENT'' s))"

section \<open>Functions of the second generation\<close>

definition structured_type :: "jsv \<Rightarrow> bool" where
  "structured_type body \<longleftrightarrow> typed_object body \<and> type_text body ''specversion'' \<noteq> None \<and> type_text body ''type'' \<noteq> None"

definition CloudFunctionGen2_supports :: "mapper_env \<Rightarrow> jsv \<Rightarrow> thrown + bool" where
  "CloudFunctionGen2_supports env raw =
     (if me_context env \<noteq> ''GCP_CLOUD_FUNCTION'' then Inr False
      else if \<not> typed_object raw then Inr False
      else sum_bind (get_prop raw ''body'') (\<lambda>body.
        Inr (has_cloud_event_headers (gcp_headers raw) \<or> structured_type body)))"

definition gen2_payload :: "mapper_env \<Rightarrow> jsv \<Rightarrow> jsv \<Rightarrow> (string \<times> jsv) list" where
  "gen2_payload env raw body =
     (let headers = flattenHeaders (gcp_headers raw);
          member = (\<lambda>k. case get_prop body k of Inr v \<Rightarrow> v | Inl e \<Rightarrow> JUndefined);
          dated = (\<lambda>v. if truthy v then [(''time'', js_date v)] else []);
          fields =
            (if typed_object body \<and> type_text body ''specversion'' \<noteq> None then
               [(''id'', member ''id''), (''specVersion'', member ''specversion''), (''type'', member ''type''),
                (''source'', member ''source''), (''subject'', member ''subject''),
                (''dataContentType'', member ''datacontenttype'')] @ dated (member ''time'') @ [(''data'', member ''data'')]
             else
               [(''id'', property headers ''ce-id''), (''specVersion'', property headers ''ce-specversion''),
                (''type'', property headers ''ce-type''), (''source'', property headers ''ce-source''),
                (''subject'', property headers ''ce-subject''),
                (''dataContentType'', coalesce (property headers ''ce-datacontenttype'') (property headers ''content-type''))] @
               dated (property headers ''ce-time'') @ [(''data'', body)])
      in obj_set ''headers'' (gcp_headers raw)
           (obj_set ''id'' (coalesce (property fields ''id'') (js_string (me_newId env 0))) fields))"

definition CloudFunctionGen2_map :: "mapper_env \<Rightarrow> strategy \<Rightarrow> jsv \<Rightarrow> thrown + execution_options" where
  "CloudFunctionGen2_map env s raw =
     sum_bind (get_prop raw ''body'') (\<lambda>body.
     let payload = gen2_payload env raw body in
     case s of
       RequestStrategy \<Rightarrow>
         sum_bind (get_prop raw ''method'') (\<lambda>m. sum_bind (get_prop raw ''url'') (\<lambda>url.
         sum_bind (get_prop raw ''headers'') (\<lambda>headers.
         sum_bind (toPristineRequest (coalesce m (js_string ''POST'')) (coalesce url (js_string ''/'')) headers
           (property payload ''data'') (js_text (property payload ''id''))) (\<lambda>r.
           Inr (single_event (request_event ''GCP_CLOUD_FUNCTION_GEN_2_HTTP_EVENT'' r))))))
     | EventStrategy \<Rightarrow>
         Inr (single_event (new_event ''GCP_CLOUD_FUNCTION_GEN_2_HTTP_EVENT''
           (JInstance ''CloudFunctionGen2HttpEventPayload'' payload) (property payload ''id''))))"

definition CloudFunctionGen2HttpEventMapper :: "mapper_env \<Rightarrow> strategy \<Rightarrow> event_mapper" where
  "CloudFunctionGen2HttpEventMapper env s = gcp_reverse ''GCP_CLOUD_FUNCTION_GEN_2_HTTP_EVENT''
     (one_way_mapper (CloudFunctionGen2_supports env) (CloudFunctionGen2_map env s))"

end
