(* ===== verification/Event_Mapper_Properties.thy ===== *)
theory Event_Mapper_Properties
  imports Gcp_Event_Mappers
begin

text \<open>
  What the event mappers guarantee together and inside the pipeline: every record of a batch
  becomes one event, which mappers claim the same raw event, what an unexpected raw event does
  to the pipeline, which part of a platform's request reaches the router, and which mapper
  decides the final response.
\<close>

declare all_tests.simps [simp del]

section \<open>Batches\<close>

lemma map_records_Inr:
  "map_records f raw = Inr opts \<longleftrightarrow>
     (\<exists>records. get_prop raw ''Records'' = Inr (JArray records) \<and> eo_order opts = Parallel \<and>
        length (eo_events opts) = length records \<and>
        (\<forall>n < length records. f n (records ! n) = Inr (eo_events opts ! n)))"
proof -
  have "iterate v = Inr xs \<longleftrightarrow> v = JArray xs" for v xs
    by (auto simp: iterate_def split: jsv.splits)
  then show ?thesis
    by (cases opts) (auto simp: map_records_def sum_bind_Inr_conv collect_Inr)
qed

lemma new_object_field:
  assumes "new_object c fs = Inr v" and "map_of fs k = Some w"
  shows "\<exists>r. v = JInstance c r \<and> w = Inr (property r k)"
  using assms by (auto simp: new_object_def sum_bind_Inr_conv eval_fields_property)

text \<open>
  An SQS batch becomes one event per message, in the order of the batch, each under the identifier
  of its message and with the body of its message.
\<close>

theorem sqs_batch_is_complete:
  assumes "SqsEventMapper_map env raw = Inr opts"
  shows "\<exists>records. get_prop raw ''Records'' = Inr (JArray records) \<and> length (eo_events opts) = length records \<and>
     list_all2 (\<lambda>record e. ev_type e = ''SQS_EVENT'' \<and>
       (\<exists>i fs. get_prop record ''messageId'' = Inr i \<and> ev_id e = js_text i \<and>
          ev_payload e = JInstance ''SqsEventPayload'' fs \<and>
          get_prop record ''body'' = Inr (property fs ''body'') \<and>
          get_prop record ''receiptHandle'' = Inr (property fs ''receiptHandle''))) records (eo_events opts)"
proof -
  obtain records where rs: "get_prop raw ''Records'' = Inr (JArray records)"
    and len: "length (eo_events opts) = length records"
    and each: "\<forall>n < length records. sqs_event env n (records ! n) = Inr (eo_events opts ! n)"
    using assms unfolding SqsEventMapper_map_def map_records_Inr by blast
  have "ev_type e = ''SQS_EVENT'' \<and> (\<exists>i fs. get_prop rc ''messageId'' = Inr i \<and> ev_id e = js_text i \<and>
          ev_payload e = JInstance ''SqsEventPayload'' fs \<and>
          get_prop rc ''body'' = Inr (property fs ''body'') \<and>
          get_prop rc ''receiptHandle'' = Inr (property fs ''receiptHandle''))"
    if "sqs_event env n rc = Inr e" for n rc e
  proof -
    from that obtain i payload where i: "get_prop rc ''messageId'' = Inr i"
      and p: "sqs_payload env rc = Inr payload" and e: "e = new_event ''SQS_EVENT'' payload i"
      by (auto simp: sqs_event_def sum_bind_Inr_conv)
    from p obtain attributes where p': "new_object ''SqsEventPayload'' (sqs_fields env rc attributes) = Inr payload"
      unfolding sqs_payload_def by (auto simp: sum_bind_Inr_conv)
    then obtain r where "payload = JInstance ''SqsEventPayload'' r" and "get_prop rc ''body'' = Inr (property r ''body'')"
      using new_object_field [of _ _ _ "''body''", OF p'] by (auto simp: sqs_fields_def)
    moreover from p' obtain r' where "payload = JInstance ''SqsEventPayload'' r'"
      and "get_prop rc ''receiptHandle'' = Inr (property r' ''receiptHandle'')"
      using new_object_field [of _ _ _ "''receiptHandle''", OF p'] by (auto simp: sqs_fields_def)
    ultimately have "\<exists>r. payload = JInstance ''SqsEventPayload'' r \<and> get_prop rc ''body'' = Inr (property r ''body'') \<and>
        get_prop rc ''receiptHandle'' = Inr (property r ''receiptHandle'')" by simp
    with i e show ?thesis by (simp add: new_event_def)
  qed
  with each len rs show ?thesis by (auto simp: list_all2_conv_all_nth)
qed

section \<open>Who claims a raw event\<close>

text \<open>
  The tests of the three mappers that look at \<open>eventSource\<close>, and of the two API Gateway mappers,
  exclude one another.
\<close>

lemma batch_source:
  assumes "all_tests (batch_tests key source raw @ ts) = Inr True"
  shows "sum_bind (first_record raw) (\<lambda>r. get_prop r key) = Inr (js_string source)"
  using assms by (simp add: all_tests_True batch_tests_def equals_string_True)

lemma supported_source:
  "S3EventMapper_supports raw = Inr True \<Longrightarrow> sum_bind (first_record raw) (\<lambda>r. get_prop r ''eventSource'') = Inr (js_string ''aws:s3'')"
  "DynamodbEventMapper_supports raw = Inr True \<Longrightarrow>
     sum_bind (first_record raw) (\<lambda>r. get_prop r ''eventSource'') = Inr (js_string ''aws:dynamodb'')"
  "SqsEventMapper_supports raw = Inr True \<Longrightarrow> sum_bind (first_record raw) (\<lambda>r. get_prop r ''eventSource'') = Inr (js_string ''aws:sqs'')"
  by (auto simp: S3EventMapper_supports_def SqsEventMapper_supports_def DynamodbEventMapper_supports_def
      intro: batch_source [where ts = "[]", simplified] batch_source)

lemma sources_exclude:
  "S3EventMapper_supports raw = Inr True \<Longrightarrow> SqsEventMapper_supports raw \<noteq> Inr True"
  "S3EventMapper_supports raw = Inr True \<Longrightarrow> DynamodbEventMapper_supports raw \<noteq> Inr True"
  "SqsEventMapper_supports raw = Inr True \<Longrightarrow> DynamodbEventMapper_supports raw \<noteq> Inr True"
  using supported_source [of raw] by auto

lemma gateways_exclude:
  "HttpApiEventMapper_supports raw = Inr True \<Longrightarrow> RestApiEventMapper_supports env raw \<noteq> Inr True"
  by (auto simp: HttpApiEventMapper_supports_def RestApiEventMapper_supports_def all_tests_True equals_string_True)

lemma prefixes_exclude: "\<not> (starts_with t storage_prefix \<and> starts_with t firestore_prefix)"
proof -
  have "c = d" if "starts_with t (p @ c # p')" "starts_with t (p @ d # q')" for c d :: char and p p' q'
  proof -
    from that obtain r r' where "t = (p @ c # p') @ r" and "t = (p @ d # q') @ r'"
      unfolding starts_with_def by (metis append_take_drop_id)
    then show ?thesis by simp
  qed
  from this [of "''google.cloud.''" "CHR ''s''" "''torage.object.v1.''" "CHR ''f''" "''irestore.document.v1.''"]
  show ?thesis by (auto simp: storage_prefix_def firestore_prefix_def)
qed

text \<open>
  A CloudEvent, an object whose \<open>type\<close> and \<open>source\<close> are strings, is claimed by exactly one of the
  Cloud Storage, Firestore and Eventarc mappers, in whatever order they are registered.
\<close>

theorem cloud_event_has_one_mapper:
  assumes "typed_object raw" and "type_text raw ''type'' = Some t" and "type_text raw ''source'' = Some s"
  shows "length (filter (\<lambda>m. em_supportsMapping m raw = Inr True)
           [CloudStorageEventMapper env, FirestoreEventMapper env, EventarcEventMapper env]) = 1"
  using assms prefixes_exclude [of t]
  by (auto simp: CloudStorageEventMapper_def FirestoreEventMapper_def EventarcEventMapper_def one_way_mapper_def
      CloudStorageEventMapper_supports_def FirestoreEventMapper_supports_def EventarcEventMapper_supports_def type_starts_def)

text \<open>
  The mappers of the two generations of Cloud Functions both claim a raw event, which is then
  dispatched twice, exactly when it has the shape of raw HTTP, no \<open>ce-\<close> header, and a body that is
  a structured CloudEvent.
\<close>

theorem both_generations_claim_iff:
  "em_supportsMapping (CloudFunctionGen1HttpEventMapper env s) raw = Inr True \<and>
   em_supportsMapping (CloudFunctionGen2HttpEventMapper env s) raw = Inr True \<longleftrightarrow>
     me_context env = ''GCP_CLOUD_FUNCTION'' \<and> typed_object raw \<and>
     \<not> has_cloud_event_headers (gcp_headers raw) \<and> (\<forall>t \<in> set (raw_http_shape raw). t = Inr True) \<and>
     (\<exists>body. get_prop raw ''body'' = Inr body \<and> structured_type body)"
  by (auto simp: CloudFunctionGen1HttpEventMapper_def CloudFunctionGen2HttpEventMapper_def gcp_reverse_def
      one_way_mapper_def CloudFunctionGen1_supports_def CloudFunctionGen2_supports_def all_tests_True sum_bind_Inr_conv)

section \<open>A raw event a mapper cannot test\<close>

lemma map_event_test_error:
  assumes "m \<in> set ms" and "em_supportsMapping m raw = Inl e"
  shows "\<exists>e'. map_event ms raw = Inl e'"
  using assms
proof (induction ms)
  case (Cons n ms)
  show ?case
  proof (cases "m \<in> set ms")
    case True
    with Cons obtain e' where "map_event ms raw = Inl e'" by auto
    then show ?thesis
      by (cases "em_supportsMapping n raw"; cases "em_map n raw") auto
  next
    case False
    with Cons.prems show ?thesis by auto
  qed
qed simp

lemma empty_batch_test:
  assumes "map_of ob ''Records'' = Some (JArray [])"
  shows "\<exists>e. all_tests (batch_tests key source (JObject ob) @ ts) = Inl e"
  using assms by (simp add: batch_tests_def all_tests.simps has_own_def obj_has_def get_prop_def property_def is_array_def
      first_record_def get_index_def element_def)

text \<open>
  An empty batch, and a raw event that is nothing, makes the test of the S3, SNS, SQS and DynamoDB
  mappers throw, and with one of them registered the pipeline rejects the event whatever the other
  mappers, which may well support it, answer.
\<close>

theorem empty_batch_fails_the_pipeline:
  assumes "raw = JUndefined \<or> raw = JNull \<or> (\<exists>ob. raw = JObject ob \<and> map_of ob ''Records'' = Some (JArray []))"
    and "m \<in> {S3EventMapper env, SnsEventMapper, SqsEventMapper env, DynamodbEventMapper}" and "m \<in> set (pl_mappers pl)"
  shows "\<exists>cause. event_executions pl raw =
     Inl (pipeline_error ''There was an error mapping the event into an Event object'' ''EVENT_MAPPING_FAILED'' (Some cause))"
proof -
  have "\<exists>e. all_tests (batch_tests key source raw @ ts) = Inl e" for key source ts
    using assms(1) empty_batch_test by (auto simp: batch_tests_def all_tests.simps has_own_def)
  note tests = this this [where ts = "[]", simplified]
  have "\<exists>e. em_supportsMapping m raw = Inl e"
    using assms(2) tests
    by (auto simp: S3EventMapper_def SnsEventMapper_def SqsEventMapper_def DynamodbEventMapper_def one_way_mapper_def
        S3EventMapper_supports_def SnsEventMapper_supports_def SqsEventMapper_supports_def DynamodbEventMapper_supports_def)
  then obtain e where "map_event (pl_mappers pl) raw = Inl e"
    using map_event_test_error [OF assms(3)] by blast
  then show ?thesis by (auto simp: event_executions_def)
qed

section \<open>The query of a request\<close>

lemma take_index_of: "index_of c (u @ c # q) = Some (length u)" if "c \<notin> set u"
  using that by (induction u) auto

lemma url_path: "CHR ''?'' \<notin> set u \<Longrightarrow> u \<noteq> [] \<Longrightarrow> extractPath (js_string (u @ ''?'' @ q)) = u"
  by (simp add: extractPath_def truthy_def js_string_def js_text_def as_string_def take_index_of)

text \<open>
  The request made from a REST API event does not depend on the query string parameters of the
  event, and the requests made from Cloud Functions and Cloud Run are those of the bare path: what
  a client put in the query never reaches the router, while the HTTP API mapper keeps it.
\<close>

theorem query_is_dropped:
  shows "rest_api_request env (JObject (obj_set ''queryStringParameters'' q ob)) = rest_api_request env (JObject ob) \<and>
     (CHR ''?'' \<notin> set u \<and> u \<noteq> [] \<longrightarrow>
       toPristineRequest m (js_string (u @ ''?'' @ s)) headers body i = toPristineRequest m (js_string u) headers body i)"
proof (intro conjI impI)
  show "rest_api_request env (JObject (obj_set ''queryStringParameters'' q ob)) = rest_api_request env (JObject ob)"
    by (simp add: rest_api_request_def get_prop_def property_def update_conv')
next
  assume u: "CHR ''?'' \<notin> set u \<and> u \<noteq> []"
  have "index_of CHR ''?'' w = None" if "CHR ''?'' \<notin> set w" for w
    using that by (induction w) auto
  with u have "extractPath (js_string u) = u"
    by (simp add: extractPath_def truthy_def js_string_def js_text_def as_string_def)
  with u show "toPristineRequest m (js_string (u @ ''?'' @ s)) headers body i = toPristineRequest m (js_string u) headers body i"
    by (simp add: toPristineRequest_def url_path [simplified])
qed

section \<open>The final response\<close>

text \<open>A mapper whose answers to a response do not look at what the mappers before it made.\<close>

definition forgetful :: "event_mapper \<Rightarrow> bool" where
  "forgetful m \<longleftrightarrow> (\<exists>supports back. em_supportsReverse m = (\<lambda>resp acc. Inr (supports resp)) \<and>
     em_reverseMap m = (\<lambda>resp acc. Inr (back resp)))"

lemma forgetful_mappers:
  "forgetful (HttpApiEventMapper env s)" "forgetful (RestApiEventMapper env s)" "forgetful RequestMapper"
  "forgetful DefaultEventMapper" "forgetful (one_way_mapper q f)" "forgetful (gcp_reverse t m)"
  by (auto simp: forgetful_def HttpApiEventMapper_def RestApiEventMapper_def RequestMapper_def DefaultEventMapper_def
      one_way_mapper_def gcp_reverse_def typed_reverse_def fun_eq_iff intro: exI [of _ "\<lambda>resp. False"])

lemma reverse_map_append:
  "reverse_map (ms @ ns) resp acc = sum_bind (reverse_map ms resp acc) (reverse_map ns resp)"
proof (induction ms arbitrary: acc)
  case (Cons m ms)
  then show ?case
    by (cases "em_supportsReverse m resp acc"; cases "em_reverseMap m resp acc") auto
qed simp

lemma reverse_map_unsupported:
  assumes "\<And>m acc. m \<in> set ms \<Longrightarrow> em_supportsReverse m resp acc = Inr False"
  shows "reverse_map ms resp acc = Inr acc"
  using assms by (induction ms) auto

lemma reverse_map_total:
  assumes "\<And>m. m \<in> set ms \<Longrightarrow> forgetful m"
  shows "\<exists>v. reverse_map ms resp acc = Inr v"
  using assms
proof (induction ms arbitrary: acc)
  case (Cons m ms)
  then have "forgetful m" by simp
  then obtain f g where "em_supportsReverse m = (\<lambda>resp acc. Inr (f resp))" "em_reverseMap m = (\<lambda>resp acc. Inr (g resp))"
    by (auto simp: forgetful_def)
  with Cons show ?case by auto
qed simp

lemma last_mapper_decides:
  assumes "\<And>n. n \<in> set xs \<Longrightarrow> forgetful n" and "forgetful m"
    and "\<And>acc. em_supportsReverse m resp acc = Inr True"
    and "\<And>n acc. n \<in> set ys \<Longrightarrow> em_supportsReverse n resp acc = Inr False"
  shows "final_response (xs @ m # ys) [resp] = em_reverseMap m resp JUndefined"
proof -
  obtain g where g: "em_reverseMap m = (\<lambda>resp acc. Inr (g resp))"
    using assms(2) by (auto simp: forgetful_def)
  obtain v where "reverse_map xs resp (JObject []) = Inr v"
    using reverse_map_total assms(1) by blast
  then have "reverse_map (xs @ m # ys) resp (JObject []) = Inr (g resp)"
    by (simp add: reverse_map_append assms(3) g reverse_map_unsupported [OF assms(4)])
  then show ?thesis by (simp add: final_response_def g)
qed

text \<open>
  When every mapper is forgetful, as all of the framework's but the one of Express are, the last
  registered mapper that supports a response decides it alone. A \<open>Response\<close> to an API Gateway
  event therefore reaches Lambda in the platform's form only when no mapper after the gateway's
  one supports it; with the networking package's mapper registered last, the bare \<open>Response\<close>
  object is returned instead.
\<close>

theorem registration_order_decides_the_response:
  assumes "instance_of ''Response'' (er_response resp)" and "ev_type (er_event resp) = ''HTTP_API_EVENT''"
    and "\<And>n. n \<in> set xs \<Longrightarrow> forgetful n"
    and "\<And>n acc. n \<in> set ys \<Longrightarrow> em_supportsReverse n resp acc = Inr False"
  shows "final_response (xs @ HttpApiEventMapper env s # ys) [resp] =
       Inr (to_platform_response ''HttpApiEventResponsePayload'' [(''multiValueHeaders'', JObject [])] (er_response resp)) \<and>
     final_response (xs @ RequestMapper # ys) [resp] = Inr (er_response resp)"
proof
  show "final_response (xs @ HttpApiEventMapper env s # ys) [resp] =
       Inr (to_platform_response ''HttpApiEventResponsePayload'' [(''multiValueHeaders'', JObject [])] (er_response resp))"
    by (subst last_mapper_decides [OF assms(3) forgetful_mappers(1) _ assms(4)])
      (simp_all add: HttpApiEventMapper_def typed_reverse_def assms(2))
  show "final_response (xs @ RequestMapper # ys) [resp] = Inr (er_response resp)"
    by (subst last_mapper_decides [OF assms(3) forgetful_mappers(3) _ assms(4)])
      (simp_all add: RequestMapper_def assms(1))
qed

text \<open>
  The Express mapper answers the client only with a \<open>Response\<close> that a mapper before it has put in
  place: registered first, it sends nothing, and the client waits.
\<close>

lemma express_needs_an_earlier_mapper:
  assumes "me_context env = ''EXPRESS''" and "instance_of ''Response'' (er_response resp)"
  shows "final_response [RequestMapper, ExpressRequestEventMapper env] [resp] =
       Inr (ResponseMapper_reverseMap (er_response resp)) \<and>
     final_response [ExpressRequestEventMapper env, RequestMapper] [resp] = Inr (er_response resp)"
  using assms by (simp add: final_response_def ExpressRequestEventMapper_def RequestMapper_def instance_of_def class_of_def)

text \<open>The payload carries the status, the headers and the text of the body over, and is kept as it is.\<close>

lemma platform_response_fields:
  assumes "c \<noteq> ''Response''" and "CHR ''#'' \<notin> set c" and "truthy (property fs ''_headers'')"
    and "property fs ''body'' = js_string body"
  shows "to_platform_response c extra (JInstance ''Response'' fs) =
      response_payload c extra (property fs ''status'') (js_string body) (property fs ''_headers'')"
    and "to_platform_response c extra (to_platform_response c extra (JInstance ''Response'' fs)) =
      to_platform_response c extra (JInstance ''Response'' fs)"
  using assms
  by (auto simp: to_platform_response_def instance_of_def class_of_def stringified_def response_payload_def
      typeof_object_def js_string_def takeWhile_eq_all_conv [THEN iffD2])

section \<open>Concrete events\<close>

definition sample_mapper_env :: "string \<Rightarrow> mapper_env" where
  "sample_mapper_env context = \<lparr>me_newId = (\<lambda>n. ''id''), me_jsonParse = (\<lambda>s. None), me_toNumber = (\<lambda>v. None), me_context = context\<rparr>"

text \<open>The Kafka mapper reads the decoded bytes as ASCII: a letter outside it is lost.\<close>

lemma kafka_text_is_ascii: "map_sum id (\<lambda>s. s) (buffer_text (js_string ''w6k='')) = Inr ''C)''"
  by code_simp

theorem sqs_batch_is_complete_witness:
  "\<exists>e fs. map_sum id eo_events (SqsEventMapper_map (sample_mapper_env ''AWS_LAMBDA'')
       (JObject [(''Records'', JArray [JObject [(''messageId'', js_string ''m1''), (''body'', js_string ''hi'')]])])) = Inr [e] \<and>
     ev_id e = ''m1'' \<and> ev_payload e = JInstance ''SqsEventPayload'' fs \<and> property fs ''body'' = js_string ''hi''"
proof -
  let ?env = "sample_mapper_env ''AWS_LAMBDA''"
  let ?rc = "JObject [(''messageId'', js_string ''m1''), (''body'', js_string ''hi'')]"
  let ?raw = "JObject [(''Records'', JArray [?rc])]"
  obtain opts where opts: "SqsEventMapper_map ?env ?raw = Inr opts"
    by (simp add: SqsEventMapper_map_def map_records_def get_prop_def property_def iterate_def sqs_event_def sqs_payload_def
        sqs_fields_def new_object_def truthy_def)
  obtain e where "eo_events opts = [e]" and "ev_id e = ''m1''"
    and "\<exists>fs. ev_payload e = JInstance ''SqsEventPayload'' fs \<and> property fs ''body'' = js_string ''hi''"
    using sqs_batch_is_complete [OF opts] by (auto simp: get_prop_def property_def list_all2_Cons1)
  with opts show ?thesis by auto
qed

theorem cloud_event_has_one_mapper_witness:
  "length (filter (\<lambda>m. em_supportsMapping m
       (JObject [(''type'', js_string ''a.b''), (''source'', js_string ''s'')]) = Inr True)
     [CloudStorageEventMapper env, FirestoreEventMapper env, EventarcEventMapper env]) = 1"
  by (rule cloud_event_has_one_mapper [of _ "''a.b''" "''s''"])
    (simp_all add: typed_object_def nullish_def typeof_object_def type_text_def get_prop_def property_def)

theorem empty_batch_fails_the_pipeline_witness:
  "\<exists>cause. event_executions \<lparr>pl_interceptors = [], pl_mappers = [RequestMapper, SqsEventMapper env]\<rparr>
       (JObject [(''Records'', JArray [])]) =
     Inl (pipeline_error ''There was an error mapping the event into an Event object'' ''EVENT_MAPPING_FAILED'' (Some cause))"
  by (rule empty_batch_fails_the_pipeline [of _ "SqsEventMapper env" env]) simp_all

theorem query_is_dropped_witness:
  "toPristineRequest JUndefined (js_string ''/a?b=1'') JNull JNull i = toPristineRequest JUndefined (js_string ''/a'') JNull JNull i"
  using query_is_dropped [of env q ob "''/a''" JUndefined "''b=1''" JNull JNull i] by simp

theorem registration_order_decides_the_response_witness:
  "\<forall>env. final_response [RequestMapper, HttpApiEventMapper env RequestStrategy]
     [\<lparr>er_event = \<lparr>ev_type = ''HTTP_API_EVENT'', ev_payload = JNull, ev_id = [], ev_groupId = None\<rparr>,
       er_response = JInstance ''Response'' [(''status'', JAtom ''201'')]\<rparr>] =
     Inr (to_platform_response ''HttpApiEventResponsePayload'' [(''multiValueHeaders'', JObject [])]
       (JInstance ''Response'' [(''status'', JAtom ''201'')]))"
proof
  fix env
  show "final_response [RequestMapper, HttpApiEventMapper env RequestStrategy]
     [\<lparr>er_event = \<lparr>ev_type = ''HTTP_API_EVENT'', ev_payload = JNull, ev_id = [], ev_groupId = None\<rparr>,
       er_response = JInstance ''Response'' [(''status'', JAtom ''201'')]\<rparr>] =
     Inr (to_platform_response ''HttpApiEventResponsePayload'' [(''multiValueHeaders'', JObject [])]
       (JInstance ''Response'' [(''status'', JAtom ''201'')]))"
    using registration_order_decides_the_response [of
      "\<lparr>er_event = \<lparr>ev_type = ''HTTP_API_EVENT'', ev_payload = JNull, ev_id = [], ev_groupId = None\<rparr>,
       er_response = JInstance ''Response'' [(''status'', JAtom ''201'')]\<rparr>" "[RequestMapper]" "[]" env RequestStrategy]
    by (simp add: instance_of_def class_of_def forgetful_mappers)
qed

end
