(* ===== verification/Mysql_Migrations.thy ===== *)
theory Mysql_Migrations
  imports Pristine_Prelude "HOL-Library.Char_ord" "HOL-Library.List_Lexorder"
begin

text \<open>
  The migrations of \<open>packages/mysql-cli\<close>: checksums, the bookkeeping table, the runner of
  one script, the manager that plans and applies, and the three commands that call it.

  The state is the database the keyname of a configuration addresses: its data, its tables of
  applied migrations, the scripts it was given so far (a record for the proofs only), its clock,
  and the replies of the server still to come. The server is not code of the repository: what a
  script does to the data is the parameter \<open>run_script\<close>, and every statement ends the way
  the next reply says. The three statements on the bookkeeping table are written in the source
  and modelled as it declares them (\<open>IF NOT EXISTS\<close>, the unique file name, the defaults).
  Names are compared by code unit, which is what \<open>localeCompare\<close> gives on digits, small letters
  and hyphens. The script of a migration is a constant: \<open>up()\<close>, which the plan and
  the application each call, is taken to return the same text both times.
\<close>

section \<open>Checksums\<close>

fun crlf_to_lf :: "string \<Rightarrow> string" where
  "crlf_to_lf [] = []"
| "crlf_to_lf [c] = [c]"
| "crlf_to_lf (c # d # s) =
     (if c = CHR 0x0D \<and> d = CHR 0x0A then d # crlf_to_lf s else c # crlf_to_lf (d # s))"

fun drop_line_blanks :: "string \<Rightarrow> string" where
  "drop_line_blanks [] = []"
| "drop_line_blanks (c # s) =
     (let t = drop_line_blanks s in
      if (c = CHR 0x20 \<or> c = CHR 0x09) \<and> starts_with t [CHR 0x0A] then t else c # t)"

definition canonicalize :: "string \<Rightarrow> string" where
  "canonicalize sql = trim (drop_line_blanks (crlf_to_lf sql))"

definition compute_checksum :: "(string \<Rightarrow> string) \<Rightarrow> string \<Rightarrow> string" where
  "compute_checksum sha256 sql = sha256 (canonicalize sql)"

section \<open>Migrations, rows and the database\<close>

record migration =
  mig_name :: string
  configUniqueKeynames :: "string list option"
  up :: "string + string"

record migration_row =
  filename :: string
  checksum :: string
  appliedAt :: nat
  rowExecutionTimeMs :: "nat option"

text \<open>A statement is answered after some milliseconds, refused before it had an effect, or
  performed with its answer lost.\<close>

datatype reply = Answered nat | Refused string | Reply_Lost string

record 'd database =
  db_data :: 'd
  db_tables :: "migration_row list obj"
  db_scripts :: "string list"
  db_clock :: nat
  db_replies :: "reply list"

record mysql_provider =
  provider_supports :: "string \<Rightarrow> bool"
  migrationsTableName :: "string + string option"

datatype migration_error =
    InvalidName string
  | DuplicateName string string
  | ChecksumMismatch string string string string
  | OrphanedRecord string string
  | ExecutionError string string string
  | PlainError string

text \<open>Double quotes around a text, as the messages have them.\<close>

definition dq :: "string \<Rightarrow> string" where
  "dq s = [CHR 0x22] @ s @ [CHR 0x22]"

fun error_text :: "migration_error \<Rightarrow> string" where
  "error_text (InvalidName n) =
     ''Migration name '' @ dq n @ '' does not match the required pattern '' @
     ''<NN>-<kebab-slug> (e.g. '' @ dq ''01-init'' @ '', '' @ dq ''02-add-users-table'' @ ''). Rename the '' @
     ''class file and update its '' @ [CHR 0x60] @ ''name'' @ [CHR 0x60] @ '' field to match.''"
| "error_text (DuplicateName n c) =
     ''Multiple registered migrations have the same name '' @ dq n @ '' for '' @
     ''config '' @ dq c @ ''. Each migration name must be unique. Rename '' @
     ''one of them and re-run.''"
| "error_text (ChecksumMismatch n c d a) =
     ''Migration '' @ dq n @ '' has been edited since it was applied to config '' @
     dq c @ ''. Disk checksum '' @ d @ '' vs applied '' @
     a @ ''. Revert the edit or add a new migration to roll forward.''"
| "error_text (OrphanedRecord n c) =
     ''Database has a record for migration '' @ dq n @ '' against config '' @
     dq c @ '' but no matching class is registered. Restore the '' @
     ''class, check the '' @ [CHR 0x60] @ ''name'' @ [CHR 0x60] @ '' field, or target a different config.''"
| "error_text (ExecutionError n c m) =
     ''Migration '' @ dq n @ '' failed against config '' @ dq c @ '': '' @ m"
| "error_text (PlainError m) = m"

text \<open>The manager with its injected parts; the last two fields stand for \<open>crypto\<close> and the server.\<close>

record 'd migration_manager =
  registeredMigrations :: "migration list"
  mysqlConfigProviders :: "mysql_provider list"
  sha256 :: "string \<Rightarrow> string"
  run_script :: "string \<Rightarrow> 'd \<Rightarrow> string option \<times> 'd"

text \<open>Awaiting one step after another: a rejection ends the sequence.\<close>

definition and_then ::
  "('e + 'a) \<times> 's \<Rightarrow> ('a \<Rightarrow> 's \<Rightarrow> ('e + 'b) \<times> 's) \<Rightarrow> ('e + 'b) \<times> 's" where
  "and_then p f = (case p of (Inl e, s) \<Rightarrow> (Inl e, s) | (Inr a, s) \<Rightarrow> f a s)"

lemma and_then_simps [simp]:
  "and_then (Inl e, s) f = (Inl e, s)"
  "and_then (Inr a, s) f = f a s"
  by (simp_all add: and_then_def)

section \<open>Statements\<close>

fun next_reply :: "'d database \<Rightarrow> reply \<times> 'd database" where
  "next_reply db = (case db_replies db of [] \<Rightarrow> (Answered 0, db)
     | r # rs \<Rightarrow> (r, db\<lparr>db_replies := rs\<rparr>))"

declare next_reply.simps [simp del]

definition pass :: "nat \<Rightarrow> 'd database \<Rightarrow> 'd database" where
  "pass ms db = db\<lparr>db_clock := db_clock db + ms\<rparr>"

definition executeSql ::
  "('d database \<Rightarrow> (string + 'a) \<times> 'd database) \<Rightarrow> 'd database \<Rightarrow> (migration_error + 'a) \<times> 'd database" where
  "executeSql perform db = (case next_reply db of
     (Answered ms, db1) \<Rightarrow> apfst (map_sum PlainError id) (perform (pass ms db1))
   | (Refused m, db1) \<Rightarrow> (Inl (PlainError m), db1)
   | (Reply_Lost m, db1) \<Rightarrow> (Inl (PlainError m), snd (perform db1)))"

definition create_table :: "string \<Rightarrow> 'd database \<Rightarrow> (string + unit) \<times> 'd database" where
  "create_table t db = (Inr (),
     if obj_has (db_tables db) t then db else db\<lparr>db_tables := obj_set t [] (db_tables db)\<rparr>)"

definition select_rows :: "string \<Rightarrow> 'd database \<Rightarrow> (string + migration_row list) \<times> 'd database" where
  "select_rows t db = (case obj_get (db_tables db) t of
     None \<Rightarrow> (Inl (''Table '' @ quoted t @ '' does not exist''), db)
   | Some rows \<Rightarrow> (Inr (sort_key filename rows), db))"

definition insert_row ::
  "string \<Rightarrow> string \<Rightarrow> string \<Rightarrow> nat \<Rightarrow> 'd database \<Rightarrow> (string + unit) \<times> 'd database" where
  "insert_row t n c ms db = (case obj_get (db_tables db) t of
     None \<Rightarrow> (Inl (''Table '' @ quoted t @ '' does not exist''), db)
   | Some rows \<Rightarrow>
       if n \<in> set (map filename rows)
       then (Inl (''Duplicate entry '' @ quoted n @ '' for key uniq_filename''), db)
       else (Inr (), db\<lparr>db_tables := obj_set t (rows @ [\<lparr>filename = n, checksum = c,
               appliedAt = db_clock db, rowExecutionTimeMs = Some ms\<rparr>]) (db_tables db)\<rparr>))"

definition ensureTable :: "string \<Rightarrow> 'd database \<Rightarrow> (migration_error + unit) \<times> 'd database" where
  "ensureTable t = executeSql (create_table t)"

definition listApplied ::
  "string \<Rightarrow> 'd database \<Rightarrow> (migration_error + migration_row list) \<times> 'd database" where
  "listApplied t = executeSql (select_rows t)"

definition recordApplied ::
  "string \<Rightarrow> string \<Rightarrow> string \<Rightarrow> nat \<Rightarrow> 'd database \<Rightarrow> (migration_error + unit) \<times> 'd database" where
  "recordApplied t n c ms = executeSql (insert_row t n c ms)"

section \<open>Running one script\<close>

definition resolveConfig ::
  "'d migration_manager \<Rightarrow> string \<Rightarrow> migration_error + string option" where
  "resolveConfig mgr cfg =
     (case List.find (\<lambda>p. provider_supports p cfg) (mysqlConfigProviders mgr) of
        None \<Rightarrow> Inl (PlainError (''No MysqlConfigProvider supports the unique keyname '' @ dq cfg @ ''.''))
      | Some p \<Rightarrow> map_sum PlainError id (migrationsTableName p))"

text \<open>A connection is one exchange with the server that changes nothing.\<close>

definition createConnection :: "'d database \<Rightarrow> (migration_error + unit) \<times> 'd database" where
  "createConnection = executeSql (\<lambda>db. (Inr (), db))"

definition perform_script ::
  "'d migration_manager \<Rightarrow> string \<Rightarrow> 'd database \<Rightarrow> string option \<times> 'd database" where
  "perform_script mgr sql db = (let (failure, d) = run_script mgr sql (db_data db) in
     (failure, db\<lparr>db_data := d, db_scripts := db_scripts db @ [sql]\<rparr>))"

definition query_script ::
  "'d migration_manager \<Rightarrow> string \<Rightarrow> 'd database \<Rightarrow> (string + nat) \<times> 'd database" where
  "query_script mgr sql db = (case next_reply db of
     (Answered ms, db1) \<Rightarrow>
       (case perform_script mgr sql (pass ms db1) of
          (None, db2) \<Rightarrow> (Inr ms, db2)
        | (Some m, db2) \<Rightarrow> (Inl m, db2))
   | (Refused m, db1) \<Rightarrow> (Inl m, db1)
   | (Reply_Lost m, db1) \<Rightarrow> (Inl m, snd (perform_script mgr sql db1)))"

text \<open>The \<open>finally\<close> block: an error of \<open>connection.end()\<close> is only logged.\<close>

definition end_connection :: "'d database \<Rightarrow> 'd database" where
  "end_connection db = snd (executeSql (\<lambda>db. (Inr (), db)) db)"

definition execute_migration ::
  "'d migration_manager \<Rightarrow> string \<Rightarrow> string \<Rightarrow> string \<Rightarrow> 'd database \<Rightarrow> (migration_error + nat) \<times> 'd database" where
  "execute_migration mgr cfg n sql db =
     and_then (map_sum id (\<lambda>_. ()) (resolveConfig mgr cfg), db) (\<lambda>_ db0.
     and_then (createConnection db0) (\<lambda>_ db1.
       apfst (map_sum (ExecutionError n cfg) id)
         (apsnd end_connection (query_script mgr sql db1))))"

section \<open>Selecting and planning\<close>

definition name_char :: "char \<Rightarrow> bool" where
  "name_char c \<longleftrightarrow> is_digit c \<or> c = CHR ''-'' \<or> (97 \<le> (of_char c :: nat) \<and> (of_char c :: nat) \<le> 122)"

definition valid_name :: "string \<Rightarrow> bool" where
  "valid_name s \<longleftrightarrow> takeWhile is_digit s \<noteq> [] \<and>
     (case dropWhile is_digit s of [] \<Rightarrow> False
      | c # t \<Rightarrow> c = CHR ''-'' \<and> t \<noteq> [] \<and> list_all name_char t)"

definition applies_to :: "string \<Rightarrow> migration \<Rightarrow> bool" where
  "applies_to cfg m = (case configUniqueKeynames m of None \<Rightarrow> True | Some ks \<Rightarrow> cfg \<in> set ks)"

fun check_names :: "string \<Rightarrow> string list \<Rightarrow> migration list \<Rightarrow> migration_error option" where
  "check_names cfg seen [] = None"
| "check_names cfg seen (m # ms) =
     (if \<not> valid_name (mig_name m) then Some (InvalidName (mig_name m))
      else if mig_name m \<in> set seen then Some (DuplicateName (mig_name m) cfg)
      else check_names cfg (mig_name m # seen) ms)"

definition selectMigrations ::
  "'d migration_manager \<Rightarrow> string \<Rightarrow> migration_error + migration list" where
  "selectMigrations mgr cfg = (let filtered = filter (applies_to cfg) (registeredMigrations mgr) in
     case check_names cfg [] filtered of
       Some e \<Rightarrow> Inl e
     | None \<Rightarrow> Inr (sort_key mig_name filtered))"

datatype migration_state = Pending | Applied | Modified | Orphaned

record plan_entry =
  pe_name :: string
  pe_state :: migration_state
  diskChecksum :: "string option"
  appliedChecksum :: "string option"
  pe_appliedAt :: "nat option"

definition row_of :: "migration_row list \<Rightarrow> string \<Rightarrow> migration_row option" where
  "row_of rows n = map_of (map (\<lambda>r. (filename r, r)) (rev rows)) n"

definition plan_migration ::
  "'d migration_manager \<Rightarrow> migration_row list \<Rightarrow> migration \<Rightarrow> migration_error + plan_entry" where
  "plan_migration mgr rows m = (case up m of
     Inl e \<Rightarrow> Inl (PlainError e)
   | Inr sql \<Rightarrow>
       let disk = compute_checksum (sha256 mgr) sql in
       Inr (case row_of rows (mig_name m) of
         None \<Rightarrow> \<lparr>pe_name = mig_name m, pe_state = Pending, diskChecksum = Some disk,
                  appliedChecksum = None, pe_appliedAt = None\<rparr>
       | Some r \<Rightarrow> \<lparr>pe_name = mig_name m,
                    pe_state = (if checksum r = disk then Applied else Modified),
                    diskChecksum = Some disk, appliedChecksum = Some (checksum r),
                    pe_appliedAt = Some (appliedAt r)\<rparr>))"

fun plan_migrations ::
  "'d migration_manager \<Rightarrow> migration_row list \<Rightarrow> migration list \<Rightarrow> migration_error + plan_entry list" where
  "plan_migrations mgr rows [] = Inr []"
| "plan_migrations mgr rows (m # ms) =
     sum_bind (plan_migration mgr rows m) (\<lambda>e.
     sum_bind (plan_migrations mgr rows ms) (\<lambda>es. Inr (e # es)))"

definition orphan_entry :: "migration_row \<Rightarrow> plan_entry" where
  "orphan_entry r = \<lparr>pe_name = filename r, pe_state = Orphaned, diskChecksum = None,
     appliedChecksum = Some (checksum r), pe_appliedAt = Some (appliedAt r)\<rparr>"

definition plan_entries ::
  "'d migration_manager \<Rightarrow> migration list \<Rightarrow> migration_row list \<Rightarrow> migration_error + plan_entry list" where
  "plan_entries mgr selected rows =
     sum_bind (plan_migrations mgr rows selected) (\<lambda>es.
       Inr (sort_key pe_name (es @ map orphan_entry
         (filter (\<lambda>r. filename r \<notin> set (map mig_name selected)) rows))))"

definition buildPlan ::
  "'d migration_manager \<Rightarrow> string \<Rightarrow> string \<Rightarrow> 'd database \<Rightarrow> (migration_error + plan_entry list) \<times> 'd database" where
  "buildPlan mgr cfg t db =
     and_then (selectMigrations mgr cfg, db) (\<lambda>selected db0.
     and_then (listApplied t db0) (\<lambda>rows db1. (plan_entries mgr selected rows, db1)))"

definition hasPending :: "plan_entry list \<Rightarrow> bool" where
  "hasPending plan \<longleftrightarrow> list_ex (\<lambda>e. pe_state e = Pending) plan"

definition hasDrift :: "plan_entry list \<Rightarrow> bool" where
  "hasDrift plan \<longleftrightarrow> list_ex (\<lambda>e. pe_state e = Modified \<or> pe_state e = Orphaned) plan"

definition countByState :: "migration_state \<Rightarrow> plan_entry list \<Rightarrow> nat" where
  "countByState st plan = length (filter (\<lambda>e. pe_state e = st) plan)"

fun assertNoDrift :: "string \<Rightarrow> plan_entry list \<Rightarrow> migration_error + unit" where
  "assertNoDrift cfg [] = Inr ()"
| "assertNoDrift cfg (e # es) = (case pe_state e of
       Modified \<Rightarrow> Inl (ChecksumMismatch (pe_name e) cfg
         (case diskChecksum e of None \<Rightarrow> [] | Some c \<Rightarrow> c)
         (case appliedChecksum e of None \<Rightarrow> [] | Some c \<Rightarrow> c))
     | Orphaned \<Rightarrow> Inl (OrphanedRecord (pe_name e) cfg)
     | _ \<Rightarrow> assertNoDrift cfg es)"

definition resolveTableName :: "'d migration_manager \<Rightarrow> string \<Rightarrow> migration_error + string" where
  "resolveTableName mgr cfg =
     sum_bind (resolveConfig mgr cfg) (\<lambda>t. Inr (case t of None \<Rightarrow> ''pristine_migrations'' | Some t \<Rightarrow> t))"

definition migration_status ::
  "'d migration_manager \<Rightarrow> string \<Rightarrow> 'd database \<Rightarrow> (migration_error + string \<times> plan_entry list) \<times> 'd database" where
  "migration_status mgr cfg db =
     and_then (resolveTableName mgr cfg, db) (\<lambda>t db0.
     and_then (ensureTable t db0) (\<lambda>_ db1.
     apfst (map_sum id (Pair t)) (buildPlan mgr cfg t db1)))"

definition migration_verify ::
  "'d migration_manager \<Rightarrow> string \<Rightarrow> 'd database \<Rightarrow> (migration_error + string \<times> plan_entry list) \<times> 'd database" where
  "migration_verify mgr cfg db =
     and_then (migration_status mgr cfg db) (\<lambda>plan db1.
       (sum_bind (assertNoDrift cfg (snd plan)) (\<lambda>_. Inr plan), db1))"

section \<open>Applying\<close>

record apply_entry =
  ae_name :: string
  ae_executionTimeMs :: nat
  ae_error :: "string option"

record apply_result =
  appliedMigrations :: "apply_entry list"
  skippedAlreadyApplied :: "string list"
  failedMigration :: "apply_entry option"

text \<open>The \<open>try\<close> block of one migration.\<close>

definition attempt_migration ::
  "'d migration_manager \<Rightarrow> string \<Rightarrow> string \<Rightarrow> bool \<Rightarrow> string \<times> string \<Rightarrow> 'd database \<Rightarrow>
   (migration_error + apply_entry) \<times> 'd database" where
  "attempt_migration mgr cfg t dryRun nsql db = (let (n, sql) = nsql in
     if dryRun then (Inr \<lparr>ae_name = n, ae_executionTimeMs = 0, ae_error = None\<rparr>, db)
     else and_then (execute_migration mgr cfg n sql db) (\<lambda>ms db1.
          and_then (recordApplied t n (compute_checksum (sha256 mgr) sql) ms db1) (\<lambda>_ db2.
            (Inr \<lparr>ae_name = n, ae_executionTimeMs = ms, ae_error = None\<rparr>, db2))))"

fun apply_entries ::
  "'d migration_manager \<Rightarrow> string \<Rightarrow> string \<Rightarrow> bool \<Rightarrow> (string \<times> migration) list \<Rightarrow> plan_entry list \<Rightarrow>
   apply_result \<Rightarrow> 'd database \<Rightarrow> (migration_error + apply_result) \<times> 'd database" where
  "apply_entries mgr cfg t dryRun byName [] res db = (Inr res, db)"
| "apply_entries mgr cfg t dryRun byName (e # es) res db =
     (if pe_state e = Applied
      then apply_entries mgr cfg t dryRun byName es
             (res\<lparr>skippedAlreadyApplied := skippedAlreadyApplied res @ [pe_name e]\<rparr>) db
      else if pe_state e \<noteq> Pending then apply_entries mgr cfg t dryRun byName es res db
      else (case map_of byName (pe_name e) of
          None \<Rightarrow> apply_entries mgr cfg t dryRun byName es res db
        | Some m \<Rightarrow>
            (case up m of
               Inl msg \<Rightarrow> (Inl (PlainError msg), db)
             | Inr sql \<Rightarrow>
                 (case attempt_migration mgr cfg t dryRun (pe_name e, sql) db of
                    (Inr a, db1) \<Rightarrow> apply_entries mgr cfg t dryRun byName es
                      (res\<lparr>appliedMigrations := appliedMigrations res @ [a]\<rparr>) db1
                  | (Inl err, db1) \<Rightarrow>
                      (Inr (res\<lparr>failedMigration := Some \<lparr>ae_name = pe_name e,
                         ae_executionTimeMs = 0, ae_error = Some (error_text err)\<rparr>\<rparr>), db1)))))"

definition apply_migrations ::
  "'d migration_manager \<Rightarrow> string \<Rightarrow> bool \<Rightarrow> bool \<Rightarrow> 'd database \<Rightarrow> (migration_error + apply_result) \<times> 'd database" where
  "apply_migrations mgr cfg dryRun force db =
     and_then (migration_status mgr cfg db) (\<lambda>(t, plan) db1.
     and_then (if force then Inr () else assertNoDrift cfg plan, db1) (\<lambda>_ db2.
     and_then (selectMigrations mgr cfg, db2) (\<lambda>selected db3.
       apply_entries mgr cfg t dryRun (map (\<lambda>m. (mig_name m, m)) selected) plan
         \<lparr>appliedMigrations = [], skippedAlreadyApplied = [], failedMigration = None\<rparr> db3)))"

section \<open>The commands\<close>

datatype report_line =
    Heading string bool
  | Applied_Line string nat
  | Failed_Line string
  | Totals_Line nat nat
  | Verified_Line string
  | Plan_Heading string string
  | Plan_Line migration_state string "nat option"
  | Summary_Line nat nat nat nat

definition config_argument :: "string option \<Rightarrow> string" where
  "config_argument arg = (case arg of None \<Rightarrow> ''__default__'' | Some k \<Rightarrow> k)"

text \<open>\<open>ExitCode.Success\<close> is 0 and \<open>ExitCode.Error\<close> is 1.\<close>

definition migrate_command ::
  "'d migration_manager \<Rightarrow> string option \<Rightarrow> bool \<Rightarrow> bool \<Rightarrow> 'd database \<Rightarrow> nat \<times> report_line list \<times> 'd database" where
  "migrate_command mgr arg dryRun force db = (let cfg = config_argument arg in
     case apply_migrations mgr cfg dryRun force db of
       (Inl e, db1) \<Rightarrow> (1, [], db1)
     | (Inr res, db1) \<Rightarrow>
         let lines = Heading cfg dryRun #
               map (\<lambda>a. Applied_Line (ae_name a) (ae_executionTimeMs a)) (appliedMigrations res) in
         (case failedMigration res of
            Some a \<Rightarrow> (1, lines @ [Failed_Line (ae_name a)], db1)
          | None \<Rightarrow> (0, lines @ [Totals_Line (length (appliedMigrations res))
              (length (skippedAlreadyApplied res))], db1)))"

definition verify_command ::
  "'d migration_manager \<Rightarrow> string option \<Rightarrow> 'd database \<Rightarrow> nat \<times> report_line list \<times> 'd database" where
  "verify_command mgr arg db = (let cfg = config_argument arg in
     case migration_verify mgr cfg db of
       (Inl e, db1) \<Rightarrow> (1, [], db1)
     | (Inr plan, db1) \<Rightarrow> (0, [Verified_Line cfg], db1))"

text \<open>\<open>appliedAt\<close> is printed for applied migrations only.\<close>

definition plan_line :: "plan_entry \<Rightarrow> report_line" where
  "plan_line e = Plan_Line (pe_state e) (pe_name e) (if pe_state e = Applied then pe_appliedAt e else None)"

definition status_command ::
  "'d migration_manager \<Rightarrow> string option \<Rightarrow> 'd database \<Rightarrow> nat \<times> report_line list \<times> 'd database" where
  "status_command mgr arg db = (let cfg = config_argument arg in
     case migration_status mgr cfg db of
       (Inl e, db1) \<Rightarrow> (1, [], db1)
     | (Inr (t, plan), db1) \<Rightarrow> (0, Plan_Heading cfg t # map plan_line plan @
         [Summary_Line (countByState Pending plan) (countByState Applied plan)
            (countByState Modified plan) (countByState Orphaned plan)], db1))"

end
