(* ===== verification/Migration_Properties.thy ===== *)
theory Migration_Properties
  imports Mysql_Migrations
begin

text \<open>
  What the migration manager guarantees: an abstract runner that stops at the first failure, the
  simulation of \<open>apply\<close> by it, the journal kept by the bookkeeping table, and the agreement of
  \<open>apply\<close> with \<open>verify\<close>.
\<close>

section \<open>Runs that stop at the first failure\<close>

fun run_until_failure ::
  "('m \<Rightarrow> 's \<Rightarrow> ('e + 'a) \<times> 's) \<Rightarrow> 'm list \<Rightarrow> 's \<Rightarrow> 'a list \<times> ('m \<times> 'e) option \<times> 's" where
  "run_until_failure step [] s = ([], None, s)"
| "run_until_failure step (m # ms) s = (case step m s of
       (Inl e, s1) \<Rightarrow> ([], Some (m, e), s1)
     | (Inr a, s1) \<Rightarrow>
         (case run_until_failure step ms s1 of (as, f, s2) \<Rightarrow> (a # as, f, s2)))"

text \<open>
  A step that does its work and then notes it down. It may fail before the work, after it, or
  after the note was written with the confirmation lost.
\<close>

locale journalled =
  fixes step :: "'m \<Rightarrow> 's \<Rightarrow> ('e + 'a) \<times> 's"
    and work :: "'m \<Rightarrow> 'w"
    and entry :: "'m \<Rightarrow> 'n"
    and worked :: "'s \<Rightarrow> 'w list"
    and noted :: "'s \<Rightarrow> 'n list"
  assumes step_ok: "step m s = (Inr a, s') \<Longrightarrow>
      worked s' = worked s @ [work m] \<and> noted s' = noted s @ [entry m]"
    and step_failed: "step m s = (Inl e, s') \<Longrightarrow>
      (worked s', noted s') \<in> {(worked s, noted s), (worked s @ [work m], noted s),
        (worked s @ [work m], noted s @ [entry m])}"
begin

lemma run_complete:
  "run_until_failure step ms s = (as, None, s') \<Longrightarrow>
     worked s' = worked s @ map work ms \<and> noted s' = noted s @ map entry ms"
  by (induction ms arbitrary: s as) (auto split: prod.splits sum.splits dest!: step_ok)

lemma run_stopped:
  "run_until_failure step ms s = (as, Some (m, e), s') \<Longrightarrow>
     \<exists>pre post. ms = pre @ m # post \<and> length as = length pre \<and>
       (worked s', noted s') \<in>
         {(worked s @ map work pre, noted s @ map entry pre),
          (worked s @ map work pre @ [work m], noted s @ map entry pre),
          (worked s @ map work pre @ [work m], noted s @ map entry pre @ [entry m])}"
proof (induction ms arbitrary: s as)
  case Nil
  then show ?case by simp
next
  case (Cons x ms)
  show ?case
  proof (cases "step x s")
    case (Pair r s1)
    show ?thesis
    proof (cases r)
      case (Inl e')
      with Pair Cons.prems have "m = x" "as = []" "s' = s1" by simp_all
      moreover from Inl Pair have "step x s = (Inl e', s1)" by simp
      note step_failed [OF this]
      ultimately show ?thesis
        by (intro exI [of _ "[]"] exI [of _ ms]) simp
    next
      case (Inr a)
      with Pair Cons.prems obtain bs where run: "run_until_failure step ms s1 = (bs, Some (m, e), s')"
        and bs: "as = a # bs"
        by (auto split: prod.splits)
      from Inr Pair have "step x s = (Inr a, s1)" by simp
      note ok = step_ok [OF this]
      from Cons.IH [OF run] obtain pre post where ih: "ms = pre @ m # post" "length bs = length pre"
        "(worked s', noted s') \<in>
         {(worked s1 @ map work pre, noted s1 @ map entry pre),
          (worked s1 @ map work pre @ [work m], noted s1 @ map entry pre),
          (worked s1 @ map work pre @ [work m], noted s1 @ map entry pre @ [entry m])}"
        by blast
      then show ?thesis
        using ok bs by (intro exI [of _ "x # pre"] exI [of _ post]) auto
    qed
  qed
qed

end

section \<open>What a statement changes\<close>

definition rows_in :: "string \<Rightarrow> 'd database \<Rightarrow> migration_row list" where
  "rows_in t db = (case obj_get (db_tables db) t of None \<Rightarrow> [] | Some rows \<Rightarrow> rows)"

definition journal :: "string \<Rightarrow> 'd database \<Rightarrow> (string \<times> string) list" where
  "journal t db = map (\<lambda>r. (filename r, checksum r)) (rows_in t db)"

lemma next_reply_frame [simp]:
  "next_reply db = (r, db') \<Longrightarrow>
     db_data db' = db_data db \<and> db_tables db' = db_tables db \<and> db_scripts db' = db_scripts db"
  by (auto simp: next_reply.simps split: list.splits)

lemma pass_frame [simp]:
  "db_data (pass ms db) = db_data db" "db_tables (pass ms db) = db_tables db"
  "db_scripts (pass ms db) = db_scripts db" "db_replies (pass ms db) = db_replies db"
  by (simp_all add: pass_def)

lemma rows_in_cong: "db_tables db' = db_tables db \<Longrightarrow> rows_in t db' = rows_in t db"
  by (simp add: rows_in_def)

lemma journal_cong: "db_tables db' = db_tables db \<Longrightarrow> journal t db' = journal t db"
  by (simp add: journal_def rows_in_def)

text \<open>A property of data, tables and scripts is kept by a statement that keeps it when performed.\<close>

lemma executeSql_cases:
  assumes "executeSql perform db = (res, db')"
  obtains ms db1 r where "next_reply db = (Answered ms, db1)" "perform (pass ms db1) = (r, db')"
      "res = map_sum PlainError id r"
  | m db1 where "next_reply db = (Refused m, db1)" "db' = db1" "res = Inl (PlainError m)"
  | m db1 where "next_reply db = (Reply_Lost m, db1)" "db' = snd (perform db1)" "res = Inl (PlainError m)"
proof (cases "next_reply db")
  case (Pair r db1)
  show thesis
  proof (cases r)
    case (Answered ms)
    with Pair assms that(1) [of ms db1] show thesis
      by (cases "perform (pass ms db1)") (simp add: executeSql_def)
  qed (use Pair assms that(2,3) in \<open>simp_all add: executeSql_def\<close>)
qed

lemma keep_everything:
  assumes "executeSql (\<lambda>db. (Inr (), db)) db = (res, db')"
  shows "db_data db' = db_data db \<and> db_tables db' = db_tables db \<and> db_scripts db' = db_scripts db"
  using assms by (cases rule: executeSql_cases) auto

lemma end_connection_frame [simp]:
  "db_data (end_connection db) = db_data db" "db_tables (end_connection db) = db_tables db"
  "db_scripts (end_connection db) = db_scripts db"
  using keep_everything [of db] unfolding end_connection_def
  by (metis prod.collapse)+

lemma createConnection_frame:
  "createConnection db = (res, db') \<Longrightarrow>
     db_data db' = db_data db \<and> db_tables db' = db_tables db \<and> db_scripts db' = db_scripts db"
  unfolding createConnection_def by (rule keep_everything)

lemma ensureTable_frame:
  assumes "ensureTable t db = (res, db')"
  shows "rows_in t' db' = rows_in t' db \<and> db_data db' = db_data db \<and> db_scripts db' = db_scripts db"
  using assms unfolding ensureTable_def
  by (cases rule: executeSql_cases)
    (auto simp: create_table_def rows_in_def obj_get_set obj_has_def split: if_splits)

lemma listApplied_frame:
  assumes "listApplied t db = (res, db')"
  shows "db_tables db' = db_tables db \<and> db_data db' = db_data db \<and> db_scripts db' = db_scripts db"
  using assms unfolding listApplied_def
  by (cases rule: executeSql_cases) (auto simp: select_rows_def split: option.splits)

lemma listApplied_rows:
  assumes "listApplied t db = (Inr rows, db')"
  shows "rows = sort_key filename (rows_in t db)"
  using assms unfolding listApplied_def
  by (cases rule: executeSql_cases) (auto simp: select_rows_def rows_in_def map_sum_def split: option.splits sum.splits)

lemma insert_row_journal:
  assumes "insert_row t n c ms db = (r, db')"
  shows "db_data db' = db_data db \<and> db_scripts db' = db_scripts db \<and>
    (case r of Inr _ \<Rightarrow> journal t db' = journal t db @ [(n, c)] | Inl _ \<Rightarrow> journal t db' = journal t db)"
  using assms
  by (auto simp: insert_row_def journal_def rows_in_def obj_get_set split: option.splits if_splits)

lemma recordApplied_journal:
  assumes "recordApplied t n c ms db = (res, db')"
  shows "db_data db' = db_data db \<and> db_scripts db' = db_scripts db \<and>
    journal t db' \<in> {journal t db, journal t db @ [(n, c)]} \<and>
    (\<forall>u. res = Inr u \<longrightarrow> journal t db' = journal t db @ [(n, c)])"
  using assms unfolding recordApplied_def
proof (cases rule: executeSql_cases)
  case (1 ms' db1 r)
  have "journal t (pass ms' db1) = journal t db"
    using 1(1) by (intro journal_cong) simp
  then show ?thesis
    using insert_row_journal [OF 1(2)] 1 by (cases r) auto
next
  case (2 m db1)
  then show ?thesis by (auto intro!: journal_cong)
next
  case (3 m db1)
  obtain r where "insert_row t n c ms db1 = (r, db')" using 3(2) by (metis prod.collapse)
  moreover have "journal t db1 = journal t db"
    using 3(1) by (intro journal_cong) simp
  ultimately show ?thesis
    using insert_row_journal [of t n c ms db1 r db'] 3 by (cases r) auto
qed

lemma perform_script_frame:
  "perform_script mgr sql db = (f, db') \<Longrightarrow>
     db_tables db' = db_tables db \<and> db_scripts db' = db_scripts db @ [sql]"
  by (auto simp: perform_script_def Let_def split: prod.splits)

lemma query_script_frame:
  assumes "query_script mgr sql db = (res, db')"
  shows "db_tables db' = db_tables db \<and> db_scripts db' \<in> {db_scripts db, db_scripts db @ [sql]} \<and>
    (\<forall>ms. res = Inr ms \<longrightarrow> db_scripts db' = db_scripts db @ [sql])"
proof (cases "next_reply db")
  case (Pair r db1)
  note frame = next_reply_frame [OF Pair]
  show ?thesis
  proof (cases r)
    case (Answered ms)
    obtain f db2 where p: "perform_script mgr sql (pass ms db1) = (f, db2)" by fastforce
    then show ?thesis
      using assms Pair Answered frame perform_script_frame [OF p]
      by (auto simp: query_script_def split: option.splits)
  next
    case (Reply_Lost m)
    obtain f db2 where p: "perform_script mgr sql db1 = (f, db2)" by fastforce
    then show ?thesis
      using assms Pair Reply_Lost frame perform_script_frame [OF p]
      by (auto simp: query_script_def)
  qed (use assms Pair frame in \<open>auto simp: query_script_def\<close>)
qed

lemma execute_migration_frame:
  assumes "execute_migration mgr cfg n sql db = (res, db')"
  shows "db_tables db' = db_tables db \<and> db_scripts db' \<in> {db_scripts db, db_scripts db @ [sql]} \<and>
    (\<forall>ms. res = Inr ms \<longrightarrow> db_scripts db' = db_scripts db @ [sql])"
proof (cases "resolveConfig mgr cfg")
  case (Inl e)
  with assms show ?thesis by (auto simp: execute_migration_def)
next
  case (Inr tn)
  obtain r1 db1 where c: "createConnection db = (r1, db1)" by fastforce
  obtain r2 db2 where q: "query_script mgr sql db1 = (r2, db2)" by fastforce
  from assms Inr c q show ?thesis
    using createConnection_frame [OF c] query_script_frame [OF q]
    by (cases r1; cases r2) (auto simp: execute_migration_def)
qed

text \<open>One attempt gives the server one script and notes its name and checksum.\<close>

interpretation attempts: journalled "attempt_migration mgr cfg t False" snd
  "\<lambda>(n, sql). (n, compute_checksum (sha256 mgr) sql)" db_scripts "journal t" for mgr cfg t
proof
  fix m :: "string \<times> string" and db db' :: "'a database" and a
  assume "attempt_migration mgr cfg t False m db = (Inr a, db')"
  moreover obtain n sql where m: "m = (n, sql)" by fastforce
  moreover obtain r1 db1 where e: "execute_migration mgr cfg n sql db = (r1, db1)" by fastforce
  ultimately obtain ms where r1: "r1 = Inr ms"
    by (cases r1) (auto simp: attempt_migration_def)
  obtain r2 db2 where "recordApplied t n (compute_checksum (sha256 mgr) sql) ms db1 = (r2, db2)"
    by fastforce
  note rec = this recordApplied_journal [OF this]
  from \<open>attempt_migration mgr cfg t False m db = (Inr a, db')\<close> m e r1 rec
  have "r2 = Inr ()" "db' = db2"
    by (cases r2; auto simp: attempt_migration_def)+
  then show "db_scripts db' = db_scripts db @ [snd m] \<and>
      journal t db' = journal t db @ [case m of (n, sql) \<Rightarrow> (n, compute_checksum (sha256 mgr) sql)]"
    using rec execute_migration_frame [OF e] r1 m journal_cong [of db1 db t] by auto
next
  fix m :: "string \<times> string" and db db' :: "'a database" and err
  assume a: "attempt_migration mgr cfg t False m db = (Inl err, db')"
  obtain n sql where m: "m = (n, sql)" by fastforce
  obtain r1 db1 where e: "execute_migration mgr cfg n sql db = (r1, db1)" by fastforce
  note frame = execute_migration_frame [OF e]
  show "(db_scripts db', journal t db') \<in> {(db_scripts db, journal t db),
      (db_scripts db @ [snd m], journal t db), (db_scripts db @ [snd m],
        journal t db @ [case m of (n, sql) \<Rightarrow> (n, compute_checksum (sha256 mgr) sql)])}"
  proof (cases r1)
    case (Inl e1)
    with a m e frame journal_cong [of db1 db t] show ?thesis
      by (auto simp: attempt_migration_def)
  next
    case (Inr ms)
    obtain r2 db2 where "recordApplied t n (compute_checksum (sha256 mgr) sql) ms db1 = (r2, db2)"
      by fastforce
    note rec = this recordApplied_journal [OF this]
    with a m e Inr have "db' = db2"
      by (cases r2) (auto simp: attempt_migration_def)
    with rec frame m Inr journal_cong [of db1 db t] show ?thesis by auto
  qed
qed


section \<open>The plan\<close>

definition script_of :: "migration \<Rightarrow> string" where
  "script_of m = (case up m of Inr sql \<Rightarrow> sql | Inl _ \<Rightarrow> [])"

text \<open>What there is to do: the selected migrations without a row, in the order of their names.\<close>

definition pending_scripts ::
  "'d migration_manager \<Rightarrow> string \<Rightarrow> migration_row list \<Rightarrow> (string \<times> string) list" where
  "pending_scripts mgr cfg rows = map (\<lambda>m. (mig_name m, script_of m))
     (filter (\<lambda>m. mig_name m \<notin> set (map filename rows))
       (sort_key mig_name (filter (applies_to cfg) (registeredMigrations mgr))))"

lemma check_names_None:
  "check_names cfg seen ms = None \<longleftrightarrow>
     list_all (\<lambda>m. valid_name (mig_name m)) ms \<and> distinct (map mig_name ms) \<and>
     set seen \<inter> set (map mig_name ms) = {}"
  by (induction ms arbitrary: seen) auto

lemma selected_iff:
  "selectMigrations mgr cfg = Inr ms \<longleftrightarrow>
     ms = sort_key mig_name (filter (applies_to cfg) (registeredMigrations mgr)) \<and>
     list_all (\<lambda>m. valid_name (mig_name m)) ms \<and> distinct (map mig_name ms)"
proof -
  let ?f = "filter (applies_to cfg) (registeredMigrations mgr)"
  have "distinct (map mig_name (sort_key mig_name ?f)) \<longleftrightarrow> distinct (map mig_name ?f)"
    by (metis distinct_map distinct_sort set_sort)
  moreover have "list_all P (sort_key mig_name ?f) \<longleftrightarrow> list_all P ?f" for P
    by (simp add: list_all_iff)
  ultimately show ?thesis
    using check_names_None [of cfg "[]" ?f]
    by (auto simp: selectMigrations_def Let_def split: option.splits)
qed

lemma row_of_None: "row_of rows n = None \<longleftrightarrow> n \<notin> set (map filename rows)"
  by (auto simp: row_of_def map_of_eq_None_iff image_iff)

lemma row_of_Some: "row_of rows n = Some r \<Longrightarrow> r \<in> set rows \<and> filename r = n"
  unfolding row_of_def by (drule map_of_SomeD) auto

text \<open>The entry of a migration whose script is known.\<close>

definition entry_of :: "'d migration_manager \<Rightarrow> migration_row list \<Rightarrow> migration \<Rightarrow> plan_entry" where
  "entry_of mgr rows m = (let disk = compute_checksum (sha256 mgr) (script_of m) in
     case row_of rows (mig_name m) of
       None \<Rightarrow> \<lparr>pe_name = mig_name m, pe_state = Pending, diskChecksum = Some disk,
                appliedChecksum = None, pe_appliedAt = None\<rparr>
     | Some r \<Rightarrow> \<lparr>pe_name = mig_name m, pe_state = (if checksum r = disk then Applied else Modified),
                  diskChecksum = Some disk, appliedChecksum = Some (checksum r),
                  pe_appliedAt = Some (appliedAt r)\<rparr>)"

lemma entry_of_simps [simp]:
  "pe_name (entry_of mgr rows m) = mig_name m"
  "pe_state (entry_of mgr rows m) = Pending \<longleftrightarrow> mig_name m \<notin> set (map filename rows)"
  "pe_state (entry_of mgr rows m) \<noteq> Orphaned"
  using row_of_None [of rows "mig_name m"]
  by (auto simp: entry_of_def Let_def split: option.splits)

lemma orphan_entry_simps [simp]:
  "pe_name (orphan_entry r) = filename r" "pe_state (orphan_entry r) = Orphaned"
  by (simp_all add: orphan_entry_def)

lemma plan_migration_iff:
  "plan_migration mgr rows m = Inr e \<longleftrightarrow> up m = Inr (script_of m) \<and> e = entry_of mgr rows m"
  by (auto simp: plan_migration_def entry_of_def script_of_def Let_def split: sum.splits)

lemma plan_migrations_iff:
  "plan_migrations mgr rows ms = Inr es \<longleftrightarrow>
     (\<forall>m\<in>set ms. up m = Inr (script_of m)) \<and> es = map (entry_of mgr rows) ms"
  by (induction ms arbitrary: es) (auto simp: sum_bind_Inr_conv plan_migration_iff)

lemma plan_entries_iff:
  "plan_entries mgr ms rows = Inr plan \<longleftrightarrow>
     (\<forall>m\<in>set ms. up m = Inr (script_of m)) \<and>
     plan = sort_key pe_name (map (entry_of mgr rows) ms @
       map orphan_entry (filter (\<lambda>r. filename r \<notin> set (map mig_name ms)) rows))"
  by (auto simp: plan_entries_def sum_bind_Inr_conv plan_migrations_iff)

lemma insort_map: "insort_key k (g x) (map g xs) = map g (insort_key (\<lambda>x. k (g x)) x xs)"
  by (induction xs) simp_all

lemma sort_key_map: "sort_key k (map g xs) = map g (sort_key (\<lambda>x. k (g x)) xs)"
  by (induction xs) (simp_all add: insort_map)

text \<open>The pending entries of a plan are the pending migrations, in the order of their names.\<close>

lemma plan_pending:
  assumes sel: "selectMigrations mgr cfg = Inr ms" and plan: "plan_entries mgr ms rows = Inr plan"
  shows "filter (\<lambda>e. pe_state e = Pending) plan =
    map (entry_of mgr rows) (filter (\<lambda>m. mig_name m \<notin> set (map filename rows)) ms)"
proof -
  let ?pend = "\<lambda>m. mig_name m \<notin> set (map filename rows)"
  have orphans: "filter (\<lambda>e. pe_state e = Pending) (map orphan_entry rs) = []" for rs
    by (simp add: filter_empty_conv)
  have sorted: "sort_key mig_name (filter ?pend ms) = filter ?pend ms"
    using sel by (intro sort_key_id_if_sorted)
      (auto simp: selected_iff intro: sorted_filter)
  have "filter (\<lambda>e. pe_state e = Pending) plan = sort_key pe_name (filter (\<lambda>e. pe_state e = Pending)
      (map (entry_of mgr rows) ms))"
    using plan orphans by (simp add: plan_entries_iff filter_sort)
  also have "\<dots> = map (entry_of mgr rows) (sort_key mig_name (filter ?pend ms))"
    by (simp add: filter_map o_def sort_key_map)
  finally show ?thesis unfolding sorted .
qed

lemma pending_scripts_set: "set xs = set rows \<Longrightarrow> pending_scripts mgr cfg xs = pending_scripts mgr cfg rows"
  by (simp add: pending_scripts_def)

section \<open>The loop of \<open>apply\<close>\<close>

definition scripts_by_name :: "(string \<times> migration) list \<Rightarrow> plan_entry list \<Rightarrow> (string \<times> string) list" where
  "scripts_by_name byName es =
     map (\<lambda>e. (pe_name e, script_of (the (map_of byName (pe_name e)))))
       (filter (\<lambda>e. pe_state e = Pending) es)"

definition failure_entry :: "((string \<times> string) \<times> migration_error) option \<Rightarrow> apply_entry option" where
  "failure_entry f = map_option (\<lambda>((n, sql), err).
     \<lparr>ae_name = n, ae_executionTimeMs = 0, ae_error = Some (error_text err)\<rparr>) f"

text \<open>The loop is the run that stops at the first failure, over the pending scripts of the plan.\<close>

lemma apply_entries_run:
  assumes "\<forall>e\<in>set es. pe_state e = Pending \<longrightarrow>
      (\<exists>m. map_of byName (pe_name e) = Some m \<and> up m = Inr (script_of m))"
    and "run_until_failure (attempt_migration mgr cfg t dryRun) (scripts_by_name byName es) db = (as, f, db')"
    and "failedMigration res = None"
  shows "\<exists>sk. apply_entries mgr cfg t dryRun byName es res db =
      (Inr \<lparr>appliedMigrations = appliedMigrations res @ as, skippedAlreadyApplied = skippedAlreadyApplied res @ sk,
         failedMigration = failure_entry f\<rparr>, db') \<and>
    (f = None \<longrightarrow> sk = map pe_name (filter (\<lambda>e. pe_state e = Applied) es))"
  using assms
proof (induction es arbitrary: res db as)
  case Nil
  then show ?case by (simp add: scripts_by_name_def failure_entry_def)
next
  case (Cons e es)
  consider (applied) "pe_state e = Applied" | (pending) "pe_state e = Pending"
    | (drift) "pe_state e = Modified \<or> pe_state e = Orphaned"
    by (cases "pe_state e") auto
  then show ?case
  proof cases
    case applied
    with Cons.prems have "run_until_failure (attempt_migration mgr cfg t dryRun) (scripts_by_name byName es) db = (as, f, db')"
      by (simp add: scripts_by_name_def)
    from Cons.IH [OF _ this, of "res\<lparr>skippedAlreadyApplied := skippedAlreadyApplied res @ [pe_name e]\<rparr>"]
    obtain sk where "apply_entries mgr cfg t dryRun byName (e # es) res db =
        (Inr \<lparr>appliedMigrations = appliedMigrations res @ as,
           skippedAlreadyApplied = skippedAlreadyApplied res @ pe_name e # sk,
           failedMigration = failure_entry f\<rparr>, db')"
      and "f = None \<longrightarrow> sk = map pe_name (filter (\<lambda>e. pe_state e = Applied) es)"
      using Cons.prems applied by auto
    then show ?thesis using applied by (intro exI [of _ "pe_name e # sk"]) simp
  next
    case drift
    with Cons.prems have "run_until_failure (attempt_migration mgr cfg t dryRun) (scripts_by_name byName es) db = (as, f, db')"
      by (auto simp: scripts_by_name_def)
    from Cons.IH [OF _ this, of res] show ?thesis using Cons.prems drift by auto
  next
    case pending
    with Cons.prems obtain m where m: "map_of byName (pe_name e) = Some m" "up m = Inr (script_of m)"
      by auto
    have split: "scripts_by_name byName (e # es) = (pe_name e, script_of m) # scripts_by_name byName es"
      using pending m by (simp add: scripts_by_name_def)
    obtain r db1 where att: "attempt_migration mgr cfg t dryRun (pe_name e, script_of m) db = (r, db1)"
      by fastforce
    show ?thesis
    proof (cases r)
      case (Inl err)
      with att split Cons.prems pending m show ?thesis
        by (auto simp: failure_entry_def intro!: exI [of _ "[]"])
    next
      case (Inr a)
      with att split Cons.prems(2) obtain bs
        where run: "run_until_failure (attempt_migration mgr cfg t dryRun) (scripts_by_name byName es) db1 = (bs, f, db')"
          and bs: "as = a # bs"
        by (auto split: prod.splits)
      from Cons.IH [OF _ run, of "res\<lparr>appliedMigrations := appliedMigrations res @ [a]\<rparr>"]
      show ?thesis using Cons.prems pending m att Inr bs by auto
    qed
  qed
qed

lemma run_results:
  "run_until_failure (attempt_migration mgr cfg t dryRun) ms db = (as, f, db') \<Longrightarrow>
     map ae_name as = map fst (take (length as) ms) \<and> (f = None \<longrightarrow> length as = length ms) \<and>
     (\<forall>a\<in>set as. ae_error a = None)"
proof (induction ms arbitrary: db as)
  case (Cons m ms)
  obtain r db1 where att: "attempt_migration mgr cfg t dryRun m db = (r, db1)" by fastforce
  have name: "ae_name a = fst m \<and> ae_error a = None" if "r = Inr a" for a
    using att that
    by (auto simp: attempt_migration_def and_then_def Let_def split: prod.splits sum.splits if_splits)
  show ?case
  proof (cases r)
    case (Inl err)
    with Cons.prems att show ?thesis by auto
  next
    case (Inr a)
    with Cons.prems att obtain bs where "run_until_failure (attempt_migration mgr cfg t dryRun) ms db1 = (bs, f, db')"
      and "as = a # bs" by (auto split: prod.splits)
    with Cons.IH name [OF Inr] show ?thesis by auto
  qed
qed simp

section \<open>A whole run\<close>

lemma status_frame:
  assumes "migration_status mgr cfg db = (res, db')"
  shows "rows_in t db' = rows_in t db \<and> db_data db' = db_data db \<and> db_scripts db' = db_scripts db"
proof (cases "resolveTableName mgr cfg")
  case (Inl e)
  with assms show ?thesis by (auto simp: migration_status_def)
next
  case (Inr tn)
  obtain r1 db1 where e: "ensureTable tn db = (r1, db1)" by fastforce
  obtain r2 db2 where l: "listApplied tn db1 = (r2, db2)" by fastforce
  have "db' = db1 \<or> db' = db2"
    using assms Inr e l
    by (cases r1; cases r2; cases "selectMigrations mgr cfg") (auto simp: migration_status_def buildPlan_def)
  then show ?thesis
    using ensureTable_frame [OF e, of t] listApplied_frame [OF l] rows_in_cong [of db2 db1 t] by auto
qed

lemma status_plan:
  assumes "migration_status mgr cfg db = (Inr (t, plan), db')"
  obtains ms where "resolveTableName mgr cfg = Inr t" "selectMigrations mgr cfg = Inr ms"
    "plan_entries mgr ms (sort_key filename (rows_in t db)) = Inr plan"
proof (cases "resolveTableName mgr cfg")
  case (Inl e)
  with assms show thesis by (auto simp: migration_status_def)
next
  case (Inr tn)
  obtain r1 db1 where e: "ensureTable tn db = (r1, db1)" by fastforce
  obtain r2 db2 where l: "listApplied tn db1 = (r2, db2)" by fastforce
  show thesis
  proof (cases r1; cases r2; cases "selectMigrations mgr cfg")
    fix u rows ms
    assume "r1 = Inr u" and rows: "r2 = Inr rows" and "selectMigrations mgr cfg = Inr ms"
    with assms Inr e l that [of ms] ensureTable_frame [OF e, of tn]
      listApplied_rows [of tn db1 rows db2]
    show thesis by (cases "plan_entries mgr ms rows") (auto simp: migration_status_def buildPlan_def)
  qed (use assms Inr e l in \<open>auto simp: migration_status_def buildPlan_def\<close>)
qed

text \<open>Either \<open>apply\<close> rejects before the first script, or it is the run over the pending scripts.\<close>

lemma apply_run:
  assumes "apply_migrations mgr cfg dryRun force db = (result, db')"
  obtains (rejected) e where "result = Inl e" "db_scripts db' = db_scripts db"
      "db_data db' = db_data db" "\<And>t. rows_in t db' = rows_in t db"
      "(\<exists>db1. migration_status mgr cfg db = (Inl e, db1)) \<or> (\<exists>t plan db1.
         migration_status mgr cfg db = (Inr (t, plan), db1) \<and> \<not> force \<and> assertNoDrift cfg plan = Inl e)"
  | (ran) t plan db1 as f sk where "migration_status mgr cfg db = (Inr (t, plan), db1)"
      "run_until_failure (attempt_migration mgr cfg t dryRun) (pending_scripts mgr cfg (rows_in t db)) db1 = (as, f, db')"
      "result = Inr \<lparr>appliedMigrations = as, skippedAlreadyApplied = sk, failedMigration = failure_entry f\<rparr>"
      "force \<or> assertNoDrift cfg plan = Inr ()"
      "f = None \<longrightarrow> sk = map pe_name (filter (\<lambda>e. pe_state e = Applied) plan)"
proof -
  obtain r db1 where st: "migration_status mgr cfg db = (r, db1)" by fastforce
  note frame = status_frame [OF st]
  show thesis
  proof (cases r)
    case (Inl e)
    with st assms frame show thesis by (intro rejected [of e]) (auto simp: apply_migrations_def)
  next
    case (Inr p)
    obtain t plan where p: "p = (t, plan)" by fastforce
    with st Inr have st': "migration_status mgr cfg db = (Inr (t, plan), db1)" by simp
    then obtain ms where tn: "resolveTableName mgr cfg = Inr t" and ms: "selectMigrations mgr cfg = Inr ms"
      and plan: "plan_entries mgr ms (sort_key filename (rows_in t db)) = Inr plan"
      by (rule status_plan)
    show thesis
    proof (cases "force \<or> assertNoDrift cfg plan = Inr ()")
      case False
      then obtain e where "assertNoDrift cfg plan = Inl e" by (cases "assertNoDrift cfg plan") auto
      with st' assms frame False show thesis by (intro rejected [of e]) (auto simp: apply_migrations_def)
    next
      case True
      let ?rows = "sort_key filename (rows_in t db)"
      let ?byName = "map (\<lambda>m. (mig_name m, m)) ms"
      note pend = plan_pending [OF ms plan]
      have lookup: "map_of ?byName (mig_name m) = Some m" if "m \<in> set ms" for m
        using that ms by (intro map_of_is_SomeI) (auto simp: selected_iff o_def)
      have ups: "up m = Inr (script_of m)" if "m \<in> set ms" for m
        using plan that by (simp add: plan_entries_iff)
      have "set (filter (\<lambda>e. pe_state e = Pending) plan) \<subseteq> entry_of mgr ?rows ` set ms"
        unfolding pend by auto
      then have found: "\<forall>e\<in>set plan. pe_state e = Pending \<longrightarrow>
          (\<exists>m. map_of ?byName (pe_name e) = Some m \<and> up m = Inr (script_of m))"
        using lookup ups by (force simp: subset_iff)
      have scripts: "scripts_by_name ?byName plan = pending_scripts mgr cfg (rows_in t db)"
        unfolding scripts_by_name_def pend using lookup ms
        by (auto simp: pending_scripts_def selected_iff)
      obtain as f db2 where run: "run_until_failure (attempt_migration mgr cfg t dryRun)
          (pending_scripts mgr cfg (rows_in t db)) db1 = (as, f, db2)"
        by (metis prod_cases3)
      from apply_entries_run [OF found, where mgr = mgr and cfg = cfg and t = t and dryRun = dryRun
          and db = db1 and as = as and f = f and db' = db2
          and res = "\<lparr>appliedMigrations = [], skippedAlreadyApplied = [], failedMigration = None\<rparr>"]
      obtain sk where loop: "apply_entries mgr cfg t dryRun ?byName plan
          \<lparr>appliedMigrations = [], skippedAlreadyApplied = [], failedMigration = None\<rparr> db1 =
        (Inr \<lparr>appliedMigrations = as, skippedAlreadyApplied = sk, failedMigration = failure_entry f\<rparr>, db2)"
        and sk: "f = None \<longrightarrow> sk = map pe_name (filter (\<lambda>e. pe_state e = Applied) plan)"
        using run scripts by auto
      have guard: "(if force then Inr () else assertNoDrift cfg plan) = Inr ()"
        using True by auto
      have "result = Inr \<lparr>appliedMigrations = as, skippedAlreadyApplied = sk, failedMigration = failure_entry f\<rparr>"
        and "db' = db2"
        using assms st' True ms loop guard by (simp_all add: apply_migrations_def)
      with ran [OF st'] run sk True show thesis by blast
    qed
  qed
qed


section \<open>Agreement between the registered migrations and the table\<close>

definition agrees :: "'d migration_manager \<Rightarrow> migration list \<Rightarrow> migration_row list \<Rightarrow> bool" where
  "agrees mgr ms rows \<longleftrightarrow> (\<forall>r\<in>set rows. \<exists>m\<in>set ms. mig_name m = filename r \<and>
     checksum r = compute_checksum (sha256 mgr) (script_of m))"

lemma no_drift_iff:
  "assertNoDrift cfg plan = Inr () \<longleftrightarrow>
     (\<forall>e\<in>set plan. pe_state e \<noteq> Modified \<and> pe_state e \<noteq> Orphaned)"
  by (induction plan) (auto split: migration_state.splits)

lemma row_of_unique:
  assumes "distinct (map filename rows)"
  shows "row_of rows n = Some r \<longleftrightarrow> r \<in> set rows \<and> filename r = n"
proof
  assume "r \<in> set rows \<and> filename r = n"
  then have "(n, r) \<in> set (map (\<lambda>r. (filename r, r)) (rev rows))" by auto
  moreover have "distinct (map fst (map (\<lambda>r. (filename r, r)) (rev rows)))"
    using assms by (simp add: o_def rev_map [symmetric])
  ultimately show "row_of rows n = Some r" unfolding row_of_def by (simp add: map_of_eq_Some_iff)
qed (rule row_of_Some)

lemma entry_modified_iff:
  "pe_state (entry_of mgr rows m) = Modified \<longleftrightarrow>
     (\<exists>r. row_of rows (mig_name m) = Some r \<and> checksum r \<noteq> compute_checksum (sha256 mgr) (script_of m))"
  by (auto simp: entry_of_def Let_def split: option.splits)

lemma no_drift_agrees:
  assumes "selectMigrations mgr cfg = Inr ms" and "plan_entries mgr ms rows = Inr plan"
    and "distinct (map filename rows)"
  shows "assertNoDrift cfg plan = Inr () \<longleftrightarrow> agrees mgr ms rows"
proof -
  have "assertNoDrift cfg plan = Inr () \<longleftrightarrow>
      (\<forall>m\<in>set ms. pe_state (entry_of mgr rows m) \<noteq> Modified) \<and>
      (\<forall>r\<in>set rows. filename r \<in> mig_name ` set ms)"
    using assms(2) by (auto simp: no_drift_iff plan_entries_iff ball_Un)
  also have "\<dots> \<longleftrightarrow> agrees mgr ms rows"
  proof
    assume l: "(\<forall>m\<in>set ms. pe_state (entry_of mgr rows m) \<noteq> Modified) \<and>
      (\<forall>r\<in>set rows. filename r \<in> mig_name ` set ms)"
    show "agrees mgr ms rows" unfolding agrees_def
    proof
      fix r assume r: "r \<in> set rows"
      with l obtain m where "m \<in> set ms" "mig_name m = filename r" by force
      with l r assms(3) show "\<exists>m\<in>set ms. mig_name m = filename r \<and>
          checksum r = compute_checksum (sha256 mgr) (script_of m)"
        by (auto simp: entry_modified_iff row_of_unique)
    qed
  next
    assume r: "agrees mgr ms rows"
    have "pe_state (entry_of mgr rows m) \<noteq> Modified" if m: "m \<in> set ms" for m
    proof
      assume "pe_state (entry_of mgr rows m) = Modified"
      then obtain x where x: "x \<in> set rows" "filename x = mig_name m"
          "checksum x \<noteq> compute_checksum (sha256 mgr) (script_of m)"
        using assms(3) by (auto simp: entry_modified_iff row_of_unique)
      then obtain m' where "m' \<in> set ms" "mig_name m' = mig_name m"
          "checksum x = compute_checksum (sha256 mgr) (script_of m')"
        using r by (force simp: agrees_def)
      with m assms(1) x show False
        by (metis distinct_map_inj selected_iff)
    qed
    with r show "(\<forall>m\<in>set ms. pe_state (entry_of mgr rows m) \<noteq> Modified) \<and>
        (\<forall>r\<in>set rows. filename r \<in> mig_name ` set ms)"
      by (force simp: agrees_def)
  qed
  finally show ?thesis .
qed

lemma agrees_sorted [simp]: "agrees mgr ms (sort_key filename rows) = agrees mgr ms rows"
  by (simp add: agrees_def)

lemma distinct_filenames_sorted [simp]:
  "distinct (map filename (sort_key filename rows)) = distinct (map filename rows)"
  by (metis distinct_map distinct_sort set_sort)

section \<open>Runs in which the server answers\<close>

lemma executeSql_answered:
  "db_replies db = [] \<Longrightarrow> executeSql perform db = apfst (map_sum PlainError id) (perform db)"
  by (simp add: executeSql_def next_reply.simps pass_def)

lemma status_answered:
  assumes "db_replies db = []" and "resolveTableName mgr cfg = Inr t"
    and "selectMigrations mgr cfg = Inr ms"
    and "plan_entries mgr ms (sort_key filename (rows_in t db)) = Inr plan"
  obtains db' where "migration_status mgr cfg db = (Inr (t, plan), db')" "db_replies db' = []"
    "obj_has (db_tables db') t" "rows_in t db' = rows_in t db" "db_data db' = db_data db"
    "db_scripts db' = db_scripts db"
proof -
  define db1 where "db1 = snd (create_table t db)"
  have e: "ensureTable t db = (Inr (), db1)" and f: "db_replies db1 = []" "obj_has (db_tables db1) t"
    using assms(1) by (auto simp: ensureTable_def executeSql_answered create_table_def db1_def)
  note frame = ensureTable_frame [OF e, of t]
  have l: "listApplied t db1 = (Inr (sort_key filename (rows_in t db)), db1)"
    using f frame
    by (auto simp: listApplied_def executeSql_answered select_rows_def rows_in_def obj_has_def
        split: option.splits)
  show thesis
    using that [of db1] e f l frame assms by (simp add: migration_status_def buildPlan_def)
qed

lemma verify_answered:
  assumes answered: "db_replies db = []"
    and unique: "\<And>t. resolveTableName mgr cfg = Inr t \<Longrightarrow> distinct (map filename (rows_in t db))"
  shows "(\<exists>plan db'. migration_verify mgr cfg db = (Inr plan, db')) \<longleftrightarrow>
    (\<exists>t ms. resolveTableName mgr cfg = Inr t \<and> selectMigrations mgr cfg = Inr ms \<and>
      (\<forall>m\<in>set ms. up m = Inr (script_of m)) \<and> agrees mgr ms (rows_in t db))" (is "?l \<longleftrightarrow> ?r")
proof
  assume ?l
  then obtain plan db' where v: "migration_verify mgr cfg db = (Inr plan, db')" by blast
  obtain r db1 where st: "migration_status mgr cfg db = (r, db1)" by fastforce
  with v obtain t es where r: "r = Inr (t, es)" and ok: "assertNoDrift cfg es = Inr ()"
    by (cases r; cases plan) (auto simp: migration_verify_def sum_bind_Inr_conv)
  with st have "migration_status mgr cfg db = (Inr (t, es), db1)" by simp
  then obtain ms where "resolveTableName mgr cfg = Inr t" and ms: "selectMigrations mgr cfg = Inr ms"
    and es: "plan_entries mgr ms (sort_key filename (rows_in t db)) = Inr es"
    by (rule status_plan)
  moreover from this have "agrees mgr ms (rows_in t db)"
    using no_drift_agrees [OF ms es] ok unique by simp
  moreover have "\<forall>m\<in>set ms. up m = Inr (script_of m)"
    using es by (simp add: plan_entries_iff)
  ultimately show ?r by blast
next
  assume ?r
  then obtain t ms where t: "resolveTableName mgr cfg = Inr t" and ms: "selectMigrations mgr cfg = Inr ms"
    and ups: "\<forall>m\<in>set ms. up m = Inr (script_of m)" and ag: "agrees mgr ms (rows_in t db)" by blast
  obtain plan where plan: "plan_entries mgr ms (sort_key filename (rows_in t db)) = Inr plan"
    using ups by (simp add: plan_entries_iff)
  obtain db1 where "migration_status mgr cfg db = (Inr (t, plan), db1)"
    using status_answered [OF answered t ms plan] by blast
  moreover have "assertNoDrift cfg plan = Inr ()"
    using no_drift_agrees [OF ms plan] ag unique t by simp
  ultimately show ?l by (auto simp: migration_verify_def)
qed

text \<open>A healthy server: it answers every statement and no pending script fails.\<close>

lemma attempt_answered:
  assumes "db_replies db = []" and "obj_has (db_tables db) t" and "n \<notin> set (map fst (journal t db))"
    and "resolveConfig mgr cfg = Inr tn" and "\<And>d. fst (run_script mgr sql d) = None"
  obtains a db' where "attempt_migration mgr cfg t False (n, sql) db = (Inr a, db')"
    "db_replies db' = []" "obj_has (db_tables db') t"
proof -
  define db1 where "db1 = db\<lparr>db_data := snd (run_script mgr sql (db_data db)), db_scripts := db_scripts db @ [sql]\<rparr>"
  have p: "perform_script mgr sql db = (None, db1)"
    using assms(5) [of "db_data db"]
    by (auto simp: perform_script_def Let_def db1_def split: prod.splits)
  have f: "db_replies db1 = []" "db_tables db1 = db_tables db"
    using assms(1) by (simp_all add: db1_def)
  have q: "query_script mgr sql db = (Inr 0, db1)"
    using assms(1) p by (simp add: query_script_def next_reply.simps pass_def)
  have x: "execute_migration mgr cfg n sql db = (Inr 0, db1)"
    using assms(1,4) q f
    by (simp add: execute_migration_def createConnection_def executeSql_answered end_connection_def)
  obtain rows where rows: "obj_get (db_tables db1) t = Some rows"
    using assms(2) f by (auto simp: obj_has_def)
  then have "n \<notin> set (map filename rows)"
    using assms(3) f by (simp add: journal_def rows_in_def image_image)
  with rows f obtain db2 where
    rec: "recordApplied t n (compute_checksum (sha256 mgr) sql) 0 db1 = (Inr (), db2)"
    and ok: "db_replies db2 = []" "obj_has (db_tables db2) t"
    by (simp add: recordApplied_def executeSql_answered insert_row_def)
  show thesis using that x rec ok by (simp add: attempt_migration_def)
qed

lemma run_answered:
  assumes "db_replies db = []" and "obj_has (db_tables db) t"
    and "distinct (map fst ps)" and "set (map fst ps) \<inter> set (map fst (journal t db)) = {}"
    and "resolveConfig mgr cfg = Inr tn"
    and "\<And>n sql d. (n, sql) \<in> set ps \<Longrightarrow> fst (run_script mgr sql d) = None"
  shows "\<exists>as db'. run_until_failure (attempt_migration mgr cfg t False) ps db = (as, None, db') \<and>
    db_replies db' = []"
  using assms(1-4,6)
proof (induction ps arbitrary: db)
  case Nil
  then show ?case by simp
next
  case (Cons p ps)
  obtain n sql where p: "p = (n, sql)" by fastforce
  have "n \<notin> set (map fst (journal t db))" and "\<And>d. fst (run_script mgr sql d) = None"
    using Cons.prems(4,5) p by auto
  then obtain a db1 where att: "attempt_migration mgr cfg t False (n, sql) db = (Inr a, db1)"
    and ok: "db_replies db1 = []" "obj_has (db_tables db1) t"
    using attempt_answered [OF Cons.prems(1,2) _ assms(5)] by blast
  have "set (map fst ps) \<inter> set (map fst (journal t db1)) = {}"
    using attempts.step_ok [OF att] Cons.prems(3,4) p by auto
  moreover have "distinct (map fst ps)" using Cons.prems(3) by simp
  ultimately obtain as db' where "run_until_failure (attempt_migration mgr cfg t False) ps db1 = (as, None, db')"
    and "db_replies db' = []"
    using Cons.IH [OF ok] Cons.prems(5) by fastforce
  with att p show ?case by auto
qed


lemma entries_names [simp]:
  "map fst (map (\<lambda>(n, sql). (n, f sql)) ps) = map fst ps"
  by (induction ps) auto

lemma journal_names: "map fst (journal t db) = map filename (rows_in t db)"
  by (simp add: journal_def)

text \<open>
  Claim C20. Whatever the server answers, \<open>apply\<close> gives it scripts of pending migrations only, in
  the order of their names, each at most once, and stops at the first failure. A rejected \<open>apply\<close>
  gave it nothing. One that reports no failure gave it every pending script and wrote one row for
  each, with the script's checksum. One that reports a failure left the later migrations alone;
  the failed one is written down only if the confirmation of its own row was lost.
\<close>

theorem migrations_run_once_in_order:
  assumes "apply_migrations mgr cfg False force db = (result, db')"
    and "resolveTableName mgr cfg = Inr t"
  defines "todo \<equiv> pending_scripts mgr cfg (rows_in t db)"
    and "noted \<equiv> map (\<lambda>(n, sql). (n, compute_checksum (sha256 mgr) sql))"
  shows "case result of
      Inl _ \<Rightarrow> db_scripts db' = db_scripts db \<and> journal t db' = journal t db \<and> db_data db' = db_data db
    | Inr res \<Rightarrow> (case failedMigration res of
        None \<Rightarrow> map ae_name (appliedMigrations res) = map fst todo \<and>
          db_scripts db' = db_scripts db @ map snd todo \<and> journal t db' = journal t db @ noted todo
      | Some a \<Rightarrow> \<exists>before n sql after. todo = before @ (n, sql) # after \<and> ae_name a = n \<and>
          map ae_name (appliedMigrations res) = map fst before \<and>
          (db_scripts db', journal t db') \<in>
            {(db_scripts db @ map snd before, journal t db @ noted before),
             (db_scripts db @ map snd before @ [sql], journal t db @ noted before),
             (db_scripts db @ map snd before @ [sql], journal t db @ noted before @ noted [(n, sql)])})"
  using assms(1)
proof (cases rule: apply_run)
  case (rejected e)
  then show ?thesis by (simp add: journal_def)
next
  case (ran t' plan db1 as f sk)
  from ran(1) have "t' = t" using assms(2) by (auto elim: status_plan)
  note run = ran(2) [unfolded this, folded todo_def]
  have start: "db_scripts db1 = db_scripts db" "journal t db1 = journal t db"
    using status_frame [OF ran(1), of t] by (simp_all add: journal_def)
  show ?thesis
  proof (cases f)
    case None
    with run ran(3) attempts.run_complete [of mgr cfg t todo db1 as db'] run_results [OF run] start
    show ?thesis by (simp add: failure_entry_def noted_def)
  next
    case (Some g)
    obtain n sql err where g: "g = ((n, sql), err)" by (metis prod.collapse)
    with Some run attempts.run_stopped [of mgr cfg t todo db1 as "(n, sql)" err db']
    obtain before after where split: "todo = before @ (n, sql) # after" "length as = length before"
      and ends: "(db_scripts db', journal t db') \<in>
        {(db_scripts db1 @ map snd before, journal t db1 @ noted before),
         (db_scripts db1 @ map snd before @ [sql], journal t db1 @ noted before),
         (db_scripts db1 @ map snd before @ [sql], journal t db1 @ noted before @ noted [(n, sql)])}"
      by (auto simp: noted_def)
    moreover have "map ae_name as = map fst before"
      using run_results [OF run] split by simp
    ultimately show ?thesis
      using Some g ran(3) start by (auto simp: failure_entry_def)
  qed
qed

text \<open>
  When the server answers, \<open>verify\<close> accepts exactly when every applicable migration can
  produce its script, and every row of the table has a registered migration of its name whose
  script still has the checksum of the row.
\<close>

theorem verify_accepts_iff:
  assumes "db_replies db = []"
    and "\<And>t. resolveTableName mgr cfg = Inr t \<Longrightarrow> distinct (map filename (rows_in t db))"
  shows "(\<exists>plan db'. migration_verify mgr cfg db = (Inr plan, db')) \<longleftrightarrow>
    (\<exists>t ms. resolveTableName mgr cfg = Inr t \<and> selectMigrations mgr cfg = Inr ms \<and>
      (\<forall>m\<in>set ms. up m = Inr (script_of m)) \<and> agrees mgr ms (rows_in t db))"
  using assms by (rule verify_answered)

lemma migrated_rows:
  assumes "journal t db' = journal t db @
      map (\<lambda>(n, sql). (n, compute_checksum (sha256 mgr) sql)) (pending_scripts mgr cfg (rows_in t db))"
    and ms: "selectMigrations mgr cfg = Inr ms" and ag: "agrees mgr ms (rows_in t db)"
  shows "agrees mgr ms (rows_in t db') \<and> set (map filename (rows_in t db')) = mig_name ` set ms"
proof -
  let ?sum = "\<lambda>m. compute_checksum (sha256 mgr) (script_of m)"
  let ?new = "filter (\<lambda>m. mig_name m \<notin> set (map filename (rows_in t db))) ms"
  have pend: "pending_scripts mgr cfg (rows_in t db) = map (\<lambda>m. (mig_name m, script_of m)) ?new"
    using ms by (simp add: pending_scripts_def selected_iff)
  have old: "set (journal t db) \<subseteq> (\<lambda>m. (mig_name m, ?sum m)) ` set ms"
    using ag by (force simp: agrees_def journal_def image_iff)
  have all: "set (journal t db') = set (journal t db) \<union> (\<lambda>m. (mig_name m, ?sum m)) ` set ?new"
    using assms(1) pend by (auto simp: image_image)
  have "agrees mgr ms (rows_in t db')" unfolding agrees_def
  proof
    fix r assume "r \<in> set (rows_in t db')"
    then have "(filename r, checksum r) \<in> set (journal t db')" by (auto simp: journal_def)
    with all have "(filename r, checksum r) \<in> (\<lambda>m. (mig_name m, ?sum m)) ` set ms"
      using old by auto
    then show "\<exists>m\<in>set ms. mig_name m = filename r \<and> checksum r = ?sum m" by auto
  qed
  moreover have "set (map filename (rows_in t db')) = fst ` set (journal t db')"
    by (simp add: journal_names [symmetric])
  moreover have "fst ` set (journal t db') = mig_name ` set ms"
  proof
    show "fst ` set (journal t db') \<subseteq> mig_name ` set ms" using all old by auto
    show "mig_name ` set ms \<subseteq> fst ` set (journal t db')"
    proof
      fix n assume "n \<in> mig_name ` set ms"
      then obtain m where m: "m \<in> set ms" "n = mig_name m" by auto
      have "set (map filename (rows_in t db)) = fst ` set (journal t db)"
        by (simp add: journal_names [symmetric])
      with m all show "n \<in> fst ` set (journal t db')" by (auto simp: image_Un image_image)
    qed
  qed
  ultimately show ?thesis by simp
qed

lemma pending_names_distinct:
  assumes "selectMigrations mgr cfg = Inr ms"
  shows "distinct (map fst (pending_scripts mgr cfg rows))"
    and "set (map fst (pending_scripts mgr cfg rows)) \<inter> set (map filename rows) = {}"
  using assms by (auto simp: pending_scripts_def selected_iff o_def distinct_map_filter)

text \<open>
  On a database that answers, whose rows agree with the registered migrations and on
  which no pending script fails, the migrate command exits with 0, the verify command that follows
  exits with 0 and every applicable migration has a row.
\<close>

theorem migrate_then_verify:
  assumes "db_replies db = []" and unique: "distinct (map filename (rows_in t db))"
    and t: "resolveTableName mgr (config_argument arg) = Inr t"
    and ms: "selectMigrations mgr (config_argument arg) = Inr ms"
    and ups: "\<forall>m\<in>set ms. up m = Inr (script_of m)"
    and ag: "agrees mgr ms (rows_in t db)"
    and runs: "\<forall>m\<in>set ms. \<forall>d. fst (run_script mgr (script_of m) d) = None"
  shows "\<exists>lines db' db''. migrate_command mgr arg False False db = (0, lines, db') \<and>
    verify_command mgr arg db' = (0, [Verified_Line (config_argument arg)], db'') \<and>
    set (map filename (rows_in t db')) = mig_name ` set ms"
proof -
  let ?cfg = "config_argument arg"
  let ?todo = "pending_scripts mgr ?cfg (rows_in t db)"
  obtain tn where tn: "resolveConfig mgr ?cfg = Inr tn"
    using t by (auto simp: resolveTableName_def sum_bind_Inr_conv)
  obtain plan where plan: "plan_entries mgr ms (sort_key filename (rows_in t db)) = Inr plan"
    using ups by (simp add: plan_entries_iff)
  obtain db1 where st: "migration_status mgr ?cfg db = (Inr (t, plan), db1)" "db_replies db1 = []"
      "obj_has (db_tables db1) t" "rows_in t db1 = rows_in t db"
    using status_answered [OF assms(1) t ms plan] by metis
  have ok: "assertNoDrift ?cfg plan = Inr ()"
    using no_drift_agrees [OF ms plan] ag unique by simp
  obtain result db' where run: "apply_migrations mgr ?cfg False False db = (result, db')" by fastforce
  have "set (map fst ?todo) \<inter> set (map fst (journal t db1)) = {}"
    using pending_names_distinct(2) [OF ms, of "rows_in t db"] st(4) by (simp add: journal_names)
  moreover have "\<And>n sql d. (n, sql) \<in> set ?todo \<Longrightarrow> fst (run_script mgr sql d) = None"
    using runs ms by (auto simp: pending_scripts_def selected_iff)
  ultimately obtain as db2 where complete:
      "run_until_failure (attempt_migration mgr ?cfg t False) ?todo db1 = (as, None, db2)" "db_replies db2 = []"
    using run_answered [OF st(2,3) pending_names_distinct(1) [OF ms]] tn by blast
  from run obtain sk where result: "result = Inr \<lparr>appliedMigrations = as, skippedAlreadyApplied = sk,
      failedMigration = None\<rparr>" and "db' = db2"
    by (cases rule: apply_run) (use st(1) ok complete in \<open>auto simp: failure_entry_def\<close>)
  have "journal t db' = journal t db @ map (\<lambda>(n, sql). (n, compute_checksum (sha256 mgr) sql)) ?todo"
    using attempts.run_complete [OF complete(1)] st(4) \<open>db' = db2\<close> by (simp add: journal_def)
  note rows = this migrated_rows [OF this ms ag]
  have "map fst (journal t db') = map filename (rows_in t db) @ map fst ?todo"
    by (simp only: rows(1) map_append journal_names entries_names)
  moreover have "distinct (map filename (rows_in t db) @ map fst ?todo)"
    unfolding distinct_append
    using unique pending_names_distinct [OF ms, of "rows_in t db"] by blast
  ultimately have "distinct (map filename (rows_in t db'))" by (simp add: journal_names)
  then have "\<exists>plan db''. migration_verify mgr ?cfg db' = (Inr plan, db'')"
    using verify_answered [of db' mgr ?cfg] rows t ms ups complete(2) \<open>db' = db2\<close> by auto
  then obtain es db'' where "migration_verify mgr ?cfg db' = (Inr es, db'')" by blast
  with run result rows show ?thesis
    by (simp add: migrate_command_def verify_command_def Let_def)
qed


text \<open>A dry run gives the server no script and writes no row.\<close>

lemma dry_attempt: "attempt_migration mgr cfg t True m db =
    (Inr \<lparr>ae_name = fst m, ae_executionTimeMs = 0, ae_error = None\<rparr>, db)"
  by (cases m) (simp add: attempt_migration_def)

lemma dry_runs: "run_until_failure (attempt_migration mgr cfg t True) ms db = (as, f, db') \<Longrightarrow> db' = db"
  by (induction ms arbitrary: as) (auto simp: dry_attempt split: prod.splits)

lemma dry_run_changes_nothing:
  assumes "apply_migrations mgr cfg True force db = (result, db')"
  shows "db_scripts db' = db_scripts db \<and> db_data db' = db_data db \<and> rows_in t db' = rows_in t db"
  using assms
proof (cases rule: apply_run)
  case (ran t' plan db1 as f sk)
  with dry_runs [OF ran(2)] status_frame [OF ran(1), of t] show ?thesis by simp
qed auto

text \<open>Line endings do not change a checksum.\<close>

fun to_crlf :: "string \<Rightarrow> string" where
  "to_crlf [] = []"
| "to_crlf (c # s) = (if c = CHR 0x0A then CHR 0x0D # c # to_crlf s else c # to_crlf s)"

lemma crlf_to_lf_Cons: "c \<noteq> CHR 0x0D \<Longrightarrow> crlf_to_lf (c # s) = c # crlf_to_lf s"
  by (cases s) simp_all

lemma crlf_round_trip: "CHR 0x0D \<notin> set s \<Longrightarrow> crlf_to_lf (to_crlf s) = s \<and> crlf_to_lf s = s"
  by (induction s) (auto simp: crlf_to_lf_Cons)

lemma line_endings_keep_checksum:
  "CHR 0x0D \<notin> set sql \<Longrightarrow> compute_checksum h (to_crlf sql) = compute_checksum h sql"
  by (simp add: compute_checksum_def canonicalize_def crlf_round_trip)

section \<open>Witnesses\<close>

definition sample_migration :: "string \<Rightarrow> string \<Rightarrow> migration" where
  "sample_migration n sql = \<lparr>mig_name = n, configUniqueKeynames = None, up = Inr sql\<rparr>"

text \<open>A server whose data is the list of the scripts it ran; the script \<open>X\<close> fails.\<close>

definition sample_manager :: "migration list \<Rightarrow> string list migration_manager" where
  "sample_manager ms = \<lparr>registeredMigrations = ms,
     mysqlConfigProviders = [\<lparr>provider_supports = (\<lambda>k. True), migrationsTableName = Inr (Some ''t'')\<rparr>],
     sha256 = (\<lambda>s. ''#'' @ s),
     run_script = (\<lambda>sql d. if sql = ''X'' then (Some ''bad'', d) else (None, d @ [sql]))\<rparr>"

definition sample_database :: "reply list \<Rightarrow> string list database" where
  "sample_database replies = \<lparr>db_data = [], db_tables = [(''t'', [\<lparr>filename = ''1-a'', checksum = ''#A'',
     appliedAt = 0, rowExecutionTimeMs = None\<rparr>])], db_scripts = [], db_clock = 0, db_replies = replies\<rparr>"

abbreviation sample_registered :: "migration list" where
  "sample_registered \<equiv> [sample_migration ''2-b'' ''B'', sample_migration ''1-a'' ''A'']"

lemma sample_apply:
  "apply_migrations (sample_manager (sample_registered @ [sample_migration ''3-c'' ''X''])) ''c'' False False
     (sample_database []) =
   (Inr \<lparr>appliedMigrations = [\<lparr>ae_name = ''2-b'', ae_executionTimeMs = 0, ae_error = None\<rparr>],
      skippedAlreadyApplied = [''1-a''], failedMigration = Some \<lparr>ae_name = ''3-c'',
        ae_executionTimeMs = 0, ae_error = Some (error_text (ExecutionError ''3-c'' ''c'' ''bad''))\<rparr>\<rparr>,
    \<lparr>db_data = [''B''], db_tables = [(''t'',
       [\<lparr>filename = ''1-a'', checksum = ''#A'', appliedAt = 0, rowExecutionTimeMs = None\<rparr>,
        \<lparr>filename = ''2-b'', checksum = ''#B'', appliedAt = 0, rowExecutionTimeMs = Some 0\<rparr>])],
     db_scripts = [''B'', ''X''], db_clock = 0, db_replies = []\<rparr>)"
  by code_simp


lemma sample_facts:
  "resolveTableName (sample_manager ms) k = Inr ''t''"
  "rows_in ''t'' (sample_database rs) =
     [\<lparr>filename = ''1-a'', checksum = ''#A'', appliedAt = 0, rowExecutionTimeMs = None\<rparr>]"
  "db_replies (sample_database rs) = rs"
  by (simp_all add: resolveTableName_def resolveConfig_def sample_manager_def rows_in_def sample_database_def)

lemma sample_selected:
  "selectMigrations (sample_manager sample_registered) k =
     Inr [sample_migration ''1-a'' ''A'', sample_migration ''2-b'' ''B'']"
proof -
  have "filter (applies_to k) sample_registered = sample_registered"
    by (simp add: applies_to_def sample_migration_def)
  moreover have "check_names k [] sample_registered = None"
    unfolding check_names_None by code_simp
  moreover have "sort_key mig_name sample_registered =
      [sample_migration ''1-a'' ''A'', sample_migration ''2-b'' ''B'']"
    by code_simp
  ultimately show ?thesis by (simp add: selectMigrations_def sample_manager_def)
qed

lemma sample_scripts:
  "\<forall>m\<in>set [sample_migration ''1-a'' ''A'', sample_migration ''2-b'' ''B'']. up m = Inr (script_of m) \<and>
     (\<forall>d. fst (run_script (sample_manager sample_registered) (script_of m) d) = None)"
  by (simp add: sample_migration_def script_of_def sample_manager_def)

lemma sample_agrees:
  "agrees (sample_manager sample_registered) [sample_migration ''1-a'' ''A'', sample_migration ''2-b'' ''B'']
     (rows_in ''t'' (sample_database []))"
  unfolding sample_facts agrees_def by code_simp

theorem migrations_run_once_in_order_witness:
  "\<exists>before sql after. pending_scripts (sample_manager (sample_registered @ [sample_migration ''3-c'' ''X''])) ''c''
       (rows_in ''t'' (sample_database [])) = before @ (''3-c'', sql) # after \<and> map fst before = [''2-b'']"
  using migrations_run_once_in_order [OF sample_apply sample_facts(1)]
  by (simp only: sum.case apply_result.select_convs option.case apply_entry.select_convs list.map) metis

theorem verify_accepts_iff_witness:
  "\<exists>plan db'. migration_verify (sample_manager sample_registered) ''c'' (sample_database []) = (Inr plan, db')"
proof -
  have "db_replies (sample_database []) = []" by (simp add: sample_facts)
  moreover have "distinct (map filename (rows_in t (sample_database [])))"
    if "resolveTableName (sample_manager sample_registered) ''c'' = Inr t" for t
    using that by (auto simp: sample_facts)
  ultimately show ?thesis
    by (subst verify_accepts_iff)
      (use sample_selected [of "''c''"] sample_facts(1) [of sample_registered "''c''"] sample_scripts sample_agrees
        in auto)
qed

theorem migrate_then_verify_witness:
  "\<exists>lines db' db''. migrate_command (sample_manager sample_registered) None False False (sample_database []) =
       (0, lines, db') \<and>
     verify_command (sample_manager sample_registered) None db' = (0, [Verified_Line ''__default__''], db'') \<and>
     set (map filename (rows_in ''t'' db')) = {''1-a'', ''2-b''}"
proof -
  have "config_argument None = ''__default__''" by (simp add: config_argument_def)
  then show ?thesis
    using migrate_then_verify [of "sample_database []" "''t''" "sample_manager sample_registered" None,
        OF sample_facts(3) _ sample_facts(1) sample_selected _ sample_agrees] sample_scripts
    by (auto simp: sample_facts sample_migration_def)
qed

text \<open>
  The order is that of the texts: an unpadded \<open>10-x\<close> runs before \<open>9-x\<close>, although both names are
  valid.
\<close>

lemma unpadded_names_run_out_of_order:
  "map mig_name (case selectMigrations (sample_manager [sample_migration ''9-x'' ''B'', sample_migration ''10-x'' ''A''])
      ''c'' of Inr ms \<Rightarrow> ms | Inl _ \<Rightarrow> []) = [''10-x'', ''9-x'']"
  by code_simp

end
