(* ===== verification/Migration_Scaffold.thy ===== *)
theory Migration_Scaffold
  imports Mysql_Migrations Js_Values
begin

text \<open>
  The scaffold of \<open>packages/mysql-cli\<close> (\<open>managers/mysql-migration-scaffold.manager.ts\<close> and the
  create command): numbering, the class that is written, and the lines spliced into a barrel file.

  The file system is the dictionary of the files' contents by absolute path; \<open>refused\<close> gives the
  message of an operation the system refuses. Node's path functions are standard library: the
  paths of the scaffold are absolute, so \<open>join\<close> puts a slash between, and \<open>relative\<close> and \<open>dirname\<close>
  are parameters. The comparison of import lines by \<open>localeCompare\<close> is a parameter as well.
\<close>

section \<open>Names\<close>

definition slug_char :: "char \<Rightarrow> bool" where
  "slug_char c \<longleftrightarrow> is_digit c \<or> (97 \<le> (of_char c :: nat) \<and> (of_char c :: nat) \<le> 122)"

text \<open>Each maximal run of other characters becomes one hyphen.\<close>

function hyphenate :: "string \<Rightarrow> string" where
  "hyphenate [] = []"
| "hyphenate (c # s) = (if slug_char c then c # hyphenate s
     else CHR ''-'' # hyphenate (dropWhile (\<lambda>d. \<not> slug_char d) s))"
  by pat_completeness auto

termination
  by (relation "measure length") (auto simp: le_imp_less_Suc length_dropWhile_le)

definition strip_hyphens :: "string \<Rightarrow> string" where
  "strip_hyphens s = rev (dropWhile (\<lambda>c. c = CHR ''-'') (rev (dropWhile (\<lambda>c. c = CHR ''-'') s)))"

definition slugify :: "string \<Rightarrow> string" where
  "slugify input = strip_hyphens (hyphenate (to_lower input))"

definition buildClassName :: "string \<Rightarrow> string \<Rightarrow> string" where
  "buildClassName slug number =
     concat (map (\<lambda>part. upper_char (hd part) # tl part) (filter (\<lambda>p. p \<noteq> []) (split_on (CHR ''-'') slug))) @
     ''_'' @ number"

definition file_suffix :: string where
  "file_suffix = ''.sql-migrations.ts''"

definition number_prefix :: "string \<Rightarrow> nat option" where
  "number_prefix file =
     (let stem = take (length file - length file_suffix) file in
      if ends_with file file_suffix \<and> valid_name stem
      then Some (num_value (takeWhile is_digit stem)) else None)"

definition resolveWidth :: "nat list \<Rightarrow> nat" where
  "resolveWidth prefixes = (if prefixes = [] then 2
     else max 2 (Max (set (map (\<lambda>n. length (show_nat n)) prefixes))))"

definition padStart :: "nat \<Rightarrow> string \<Rightarrow> string" where
  "padStart w s = replicate (w - length s) (CHR ''0'') @ s"

definition next_number :: "nat list \<Rightarrow> nat" where
  "next_number prefixes = (if prefixes = [] then 0 else Max (set prefixes)) + 1"

section \<open>The text of a migration\<close>

definition lf :: string where
  "lf = [CHR 0x0A]"

definition config_line :: "string list option \<Rightarrow> string" where
  "config_line ks = (if ks = None \<or> ks = Some []
     then ''  // readonly configUniqueKeynames = ['' @ dq ''__default__'' @
       ''];   // uncomment to scope to specific configs''
     else ''  readonly configUniqueKeynames = ['' @
       join '','' (map json_string (case ks of Some l \<Rightarrow> l | None \<Rightarrow> [])) @ ''];'')"

definition renderMigrationFile :: "string \<Rightarrow> string \<Rightarrow> string list option \<Rightarrow> string" where
  "renderMigrationFile cls name ks = join lf
     [''import {injectable} from '' @ dq ''tsyringe'' @ '';'',
      ''import {tag} from '' @ dq ''@pristine-ts/common'' @ '';'',
      ''import {MysqlMigrationInterface} from '' @ dq ''@pristine-ts/mysql-cli'' @ '';'',
      [],
      ''@tag('' @ dq ''MysqlMigrationInterface'' @ '')'',
      ''@injectable()'',
      ''export class '' @ cls @ '' implements MysqlMigrationInterface {'',
      ''  readonly name = '' @ dq name @ '';'',
      config_line ks,
      [],
      ''  up(): string {'',
      ''    return '' @ [CHR 0x60],
      ''      -- write your SQL here'',
      ''    '' @ [CHR 0x60] @ '';'',
      ''  }'',
      ''}'',
      []]"

section \<open>Splicing lines into the barrel\<close>

fun find_line :: "string \<Rightarrow> string list \<Rightarrow> nat option" where
  "find_line marker [] = None"
| "find_line marker (l # ls) = (if trim l = marker then Some 0 else map_option Suc (find_line marker ls))"

text \<open>A stable sort by a comparison \<open>le\<close>, as \<open>Array.prototype.sort\<close>.\<close>

fun insert_by :: "('a \<Rightarrow> 'a \<Rightarrow> bool) \<Rightarrow> 'a \<Rightarrow> 'a list \<Rightarrow> 'a list" where
  "insert_by le x [] = [x]"
| "insert_by le x (y # ys) = (if le x y then x # y # ys else y # insert_by le x ys)"

definition sort_by :: "('a \<Rightarrow> 'a \<Rightarrow> bool) \<Rightarrow> 'a list \<Rightarrow> 'a list" where
  "sort_by le xs = foldr (insert_by le) xs []"

definition insertSortedBetween ::
  "(string \<Rightarrow> string \<Rightarrow> bool) \<Rightarrow> string \<Rightarrow> string \<Rightarrow> string \<Rightarrow> string \<Rightarrow> string" where
  "insertSortedBetween le source startMarker endMarker newLine =
     (let ls = split_on (CHR 0x0A) source in
      case (find_line startMarker ls, find_line endMarker ls) of
        (Some i, Some j) \<Rightarrow>
          if j \<le> i then source
          else (let indent = takeWhile is_space (ls ! i);
                    existing = filter (\<lambda>l. trim l \<noteq> []) (take (j - Suc i) (drop (Suc i) ls)) in
            if list_ex (\<lambda>l. trim l = trim newLine) existing then source
            else join lf (take (Suc i) ls @
              sort_by (\<lambda>a b. le (trim a) (trim b)) (existing @ [indent @ newLine]) @ drop j ls))
      | _ \<Rightarrow> source)"

definition imports_start :: string where "imports_start = ''// <pristine:migration-imports:start>''"
definition imports_end :: string where "imports_end = ''// <pristine:migration-imports:end>''"
definition services_start :: string where "services_start = ''// <pristine:migration-services:start>''"
definition services_end :: string where "services_end = ''// <pristine:migration-services:end>''"

text \<open>\<open>original.indexOf(marker) === -1\<close>.\<close>

fun occurs_in :: "string \<Rightarrow> string \<Rightarrow> bool" where
  "occurs_in p [] \<longleftrightarrow> p = []"
| "occurs_in p (c # s) \<longleftrightarrow> starts_with (c # s) p \<or> occurs_in p s"

record path_functions =
  path_dirname :: "string \<Rightarrow> string"
  path_relative :: "string \<Rightarrow> string \<Rightarrow> string"
  localeCompare_le :: "string \<Rightarrow> string \<Rightarrow> bool"
  refused :: "string \<Rightarrow> string option"

definition join_path :: "string \<Rightarrow> string \<Rightarrow> string" where
  "join_path dir file = dir @ ''/'' @ file"

definition relativeImportSpecifier :: "path_functions \<Rightarrow> string \<Rightarrow> string \<Rightarrow> string \<Rightarrow> string" where
  "relativeImportSpecifier fns barrelPath scaffoldPath file =
     (let rel = map (\<lambda>c. if c = CHR 0x5C then CHR ''/'' else c)
            (path_relative fns (path_dirname fns barrelPath) (join_path scaffoldPath file));
          rel = (if ends_with rel ''.ts'' then take (length rel - 3) rel else rel) in
      if starts_with rel ''.'' then rel else ''./'' @ rel)"

type_synonym files = "string obj"

definition access_file :: "path_functions \<Rightarrow> string \<Rightarrow> string + unit" where
  "access_file fns p = (case refused fns p of None \<Rightarrow> Inr () | Some m \<Rightarrow> Inl m)"

definition tryUpdateBarrel ::
  "path_functions \<Rightarrow> string \<Rightarrow> string \<Rightarrow> string \<Rightarrow> string \<Rightarrow> files \<Rightarrow> (string + bool) \<times> files" where
  "tryUpdateBarrel fns barrelPath scaffoldPath file cls fs =
     (case obj_get fs barrelPath of
        None \<Rightarrow> (Inr False, fs)
      | Some original \<Rightarrow>
          if list_ex (\<lambda>m. \<not> occurs_in m original) [imports_start, imports_end, services_start, services_end]
          then (Inr False, fs)
          else (let importLine = ''import {'' @ cls @ ''} from '' @
                      dq (relativeImportSpecifier fns barrelPath scaffoldPath file) @ '';'';
                    withImport = insertSortedBetween (localeCompare_le fns) original imports_start imports_end importLine;
                    withService = insertSortedBetween (localeCompare_le fns) withImport services_start services_end
                      (cls @ '','') in
            case access_file fns barrelPath of
              Inl m \<Rightarrow> (Inl m, fs)
            | Inr _ \<Rightarrow> (Inr True, obj_set barrelPath withService fs)))"

section \<open>Creating a migration\<close>

record scaffolded =
  filePath :: string
  className :: string
  migrationName :: string
  barrelUpdated :: bool

definition readdir :: "string \<Rightarrow> files \<Rightarrow> string list" where
  "readdir dir fs = filter (\<lambda>f. CHR ''/'' \<notin> set f)
     (map (drop (length dir + 1)) (filter (\<lambda>p. starts_with p (dir @ ''/'')) (map fst fs)))"

definition listExistingNumberPrefixes :: "string \<Rightarrow> files \<Rightarrow> nat list" where
  "listExistingNumberPrefixes dir fs = List.map_filter number_prefix (readdir dir fs)"

definition scaffold_name :: "nat list \<Rightarrow> string \<Rightarrow> string" where
  "scaffold_name prefixes slug =
     padStart (resolveWidth prefixes) (show_nat (next_number prefixes)) @ ''-'' @ slug"

definition create_migration ::
  "path_functions \<Rightarrow> string \<Rightarrow> string \<Rightarrow> string option \<Rightarrow> string list option \<Rightarrow> files \<Rightarrow> (string + scaffolded) \<times> files" where
  "create_migration fns dir description barrel ks fs =
     (let slug = slugify description in
      if slug = [] then (Inl (''Cannot scaffold a migration from an empty/symbol-only name: '' @ dq description), fs)
      else (case access_file fns dir of
        Inl m \<Rightarrow> (Inl m, fs)
      | Inr _ \<Rightarrow>
        (let prefixes = listExistingNumberPrefixes dir fs;
             number = padStart (resolveWidth prefixes) (show_nat (next_number prefixes));
             name = scaffold_name prefixes slug;
             path = join_path dir (name @ file_suffix);
             cls = buildClassName slug number in
         if obj_has fs path then (Inl (''Refusing to overwrite existing migration file at '' @ path), fs)
         else (case access_file fns path of
           Inl m \<Rightarrow> (Inl m, fs)
         | Inr _ \<Rightarrow>
           (let fs1 = obj_set path (renderMigrationFile cls name ks) fs in
            case barrel of
              None \<Rightarrow> (Inr \<lparr>filePath = path, className = cls, migrationName = name, barrelUpdated = False\<rparr>, fs1)
            | Some b \<Rightarrow>
                (case tryUpdateBarrel fns b dir (name @ file_suffix) cls fs1 of
                   (Inl m, fs2) \<Rightarrow> (Inl m, fs2)
                 | (Inr u, fs2) \<Rightarrow>
                     (Inr \<lparr>filePath = path, className = cls, migrationName = name, barrelUpdated = u\<rparr>, fs2)))))))"

text \<open>The create command: the barrel is not set when its configured path is empty.\<close>

definition create_command ::
  "path_functions \<Rightarrow> string \<Rightarrow> string \<Rightarrow> string \<Rightarrow> string option \<Rightarrow> files \<Rightarrow> nat \<times> files" where
  "create_command fns dir barrelPath description config fs =
     (case create_migration fns dir description (if barrelPath = [] then None else Some barrelPath)
         (map_option (\<lambda>k. [k]) config) fs of
        (Inl m, fs1) \<Rightarrow> (1, fs1)
      | (Inr r, fs1) \<Rightarrow> (0, fs1))"

section \<open>What the scaffold guarantees\<close>

lemma hyphenate_chars: "set (hyphenate s) \<subseteq> {c. slug_char c} \<union> {CHR ''-''}"
  by (induction s rule: hyphenate.induct) auto

lemma set_strip_hyphens: "set (strip_hyphens s) \<subseteq> set s"
  by (auto simp: strip_hyphens_def dest!: set_dropWhileD)

lemma slugify_chars: "list_all name_char (slugify s)"
proof -
  have "set (slugify s) \<subseteq> {c. slug_char c} \<union> {CHR ''-''}"
    unfolding slugify_def using set_strip_hyphens hyphenate_chars by blast
  then show ?thesis by (auto simp: list_all_iff name_char_def slug_char_def subset_iff)
qed

lemma zero_digit: "is_digit (CHR ''0'')" "\<not> is_digit (CHR ''-'')"
  by (simp_all add: is_digit_def)

lemma padStart_digits: "list_all is_digit (padStart w (show_nat n))"
  using show_nat_digits [of n] zero_digit by (auto simp: padStart_def list_all_iff simp del: show_nat_digits)

lemma padStart_nonempty: "padStart w (show_nat n) \<noteq> []"
  by (simp add: padStart_def)

lemma takeWhile_prefix:
  "list_all P xs \<Longrightarrow> \<not> P y \<Longrightarrow> takeWhile P (xs @ y # ys) = xs \<and> dropWhile P (xs @ y # ys) = y # ys"
  by (induction xs) auto

lemma scaffold_name_parts:
  "takeWhile is_digit (scaffold_name prefixes slug) = padStart (resolveWidth prefixes) (show_nat (next_number prefixes))"
  "dropWhile is_digit (scaffold_name prefixes slug) = CHR ''-'' # slug"
  using takeWhile_prefix [OF padStart_digits zero_digit(2)] by (simp_all add: scaffold_name_def)

lemma scaffold_name_valid: "slug \<noteq> [] \<Longrightarrow> list_all name_char slug \<Longrightarrow> valid_name (scaffold_name prefixes slug)"
  by (simp add: valid_name_def scaffold_name_parts padStart_nonempty)

lemma num_value_zeros: "num_value (replicate k (CHR ''0'') @ s) = num_value s"
  by (induction k) (simp_all add: num_value_def digit_value_def)

lemma scaffold_number: "num_value (takeWhile is_digit (scaffold_name prefixes slug)) = next_number prefixes"
  by (simp add: scaffold_name_parts padStart_def num_value_zeros)

lemma next_number_greater: "n \<in> set prefixes \<Longrightarrow> n < next_number prefixes"
  by (auto simp: next_number_def le_imp_less_Suc)


lemma num_value_Cons: "num_value (c # s) = digit_value c * 10 ^ length s + num_value s"
proof (induction s rule: rev_induct)
  case Nil
  then show ?case by (simp add: num_value_def)
next
  case (snoc d s)
  then show ?case
    using num_value_append [of "c # s" d] num_value_append [of s d] by (simp add: algebra_simps)
qed

lemma num_value_bound: "list_all is_digit s \<Longrightarrow> num_value s < 10 ^ length s"
proof (induction s)
  case Nil
  then show ?case by (simp add: num_value_def)
next
  case (Cons c s)
  then have "num_value s < 10 ^ length s" and "digit_value c \<le> 9"
    by (auto simp: is_digit_def digit_value_def)
  then have "digit_value c * 10 ^ length s + num_value s < 9 * 10 ^ length s + 10 ^ length s"
    by (meson add_le_less_mono mult_le_mono1)
  then show ?case by (simp add: num_value_Cons)
qed

text \<open>Numbers of the same width are ordered as texts the way they are as numbers.\<close>

lemma numbers_in_order:
  assumes "length a = length b" and "list_all is_digit a" and "list_all is_digit b"
    and "num_value a < num_value b"
  shows "a @ x < b @ y"
  using assms
proof (induction a b rule: list_induct2)
  case Nil
  then show ?case by simp
next
  case (Cons c s d t)
  have dg: "48 \<le> (of_char c :: nat)" "48 \<le> (of_char d :: nat)"
    using Cons.prems by (simp_all add: is_digit_def)
  have bounds: "num_value s < 10 ^ length s" "num_value t < 10 ^ length s"
    using Cons.prems num_value_bound [of s] num_value_bound [of t] Cons.hyps by simp_all
  consider "digit_value c < digit_value d" | "digit_value c = digit_value d" | "digit_value d < digit_value c"
    by linarith
  then show ?case
  proof cases
    case 1
    then have "c < d" using dg by (simp add: digit_value_def less_char_def)
    then show ?thesis by simp
  next
    case 2
    then have "(of_char c :: nat) = of_char d" using dg unfolding digit_value_def by linarith
    then have "c = d" by simp
    moreover have "num_value s < num_value t"
      using Cons.prems 2 Cons.hyps by (simp add: num_value_Cons)
    ultimately show ?thesis using Cons.IH Cons.prems by simp
  next
    case 3
    then have "(digit_value d + 1) * 10 ^ length s \<le> digit_value c * 10 ^ length s"
      by (intro mult_le_mono1) simp
    with bounds Cons.prems(3) Cons.hyps show ?thesis by (simp add: num_value_Cons)
  qed
qed

lemma length_show_nat: "n < 10 \<Longrightarrow> length (show_nat n) = 1" "10 \<le> n \<Longrightarrow> n < 100 \<Longrightarrow> length (show_nat n) = 2"
  by (simp_all add: show_nat.simps [of n] show_nat.simps [of "n div 10"])

lemma two_digits_width:
  assumes "next_number prefixes < 100"
  shows "length (padStart (resolveWidth prefixes) (show_nat (next_number prefixes))) = 2"
proof -
  have small: "length (show_nat n) \<le> 2" if "n < 100" for n
    using that length_show_nat [of n] by (cases "n < 10") auto
  have "length (show_nat n) \<le> 2" if "n \<in> set prefixes" for n
    using next_number_greater [OF that] assms by (intro small) linarith
  then have "Max (set (map (\<lambda>n. length (show_nat n)) prefixes)) \<le> 2" if "prefixes \<noteq> []"
    using that by (subst Max_le_iff) auto
  then have "resolveWidth prefixes = 2" by (auto simp: resolveWidth_def)
  with small [OF assms] show ?thesis by (simp add: padStart_def)
qed

lemma tryUpdateBarrel_frame:
  assumes "tryUpdateBarrel fns b dir f cls fs = (u, fs')" and "p \<noteq> b"
  shows "obj_get fs' p = obj_get fs p"
  using assms
  by (auto simp: tryUpdateBarrel_def Let_def obj_get_set split: option.splits if_splits sum.splits)

lemma create_migration_Inr:
  assumes "create_migration fns dir description barrel ks fs = (Inr r, fs')"
  obtains slug where "slug = slugify description" "slug \<noteq> []"
    "migrationName r = scaffold_name (listExistingNumberPrefixes dir fs) slug"
    "filePath r = join_path dir (migrationName r @ file_suffix)" "\<not> obj_has fs (filePath r)"
    "\<And>p. p \<noteq> filePath r \<Longrightarrow> barrel \<noteq> Some p \<Longrightarrow> obj_get fs' p = obj_get fs p"
proof -
  let ?slug = "slugify description"
  let ?ps = "listExistingNumberPrefixes dir fs"
  let ?num = "padStart (resolveWidth ?ps) (show_nat (next_number ?ps))"
  let ?cls = "buildClassName ?slug ?num"
  let ?name = "scaffold_name ?ps ?slug"
  let ?path = "join_path dir (?name @ file_suffix)"
  let ?fs1 = "obj_set ?path (renderMigrationFile ?cls ?name ks) fs"
  have new: "?slug \<noteq> []" "access_file fns dir = Inr ()" "\<not> obj_has fs ?path" "access_file fns ?path = Inr ()"
    using assms by (auto simp: create_migration_def Let_def split: if_splits sum.splits)
  have own: "obj_get ?fs1 p = obj_get fs p" if "p \<noteq> ?path" for p
    using that by (simp add: obj_get_set)
  show thesis
  proof (cases barrel)
    case None
    with assms new have "r = \<lparr>filePath = ?path, className = ?cls, migrationName = ?name, barrelUpdated = False\<rparr>"
      and "fs' = ?fs1"
      by (simp_all add: create_migration_def Let_def)
    then show thesis by (intro that [OF refl new(1)]) (simp_all add: new own)
  next
    case (Some b)
    obtain u fs2 where barrel: "tryUpdateBarrel fns b dir (?name @ file_suffix) ?cls ?fs1 = (u, fs2)"
      by fastforce
    with assms new Some obtain up where
      "r = \<lparr>filePath = ?path, className = ?cls, migrationName = ?name, barrelUpdated = up\<rparr>" and "fs' = fs2"
      by (cases u) (auto simp: create_migration_def Let_def)
    moreover have "obj_get fs2 p = obj_get ?fs1 p" if "p \<noteq> b" for p
      using tryUpdateBarrel_frame [OF barrel] that by simp
    ultimately show thesis
      using Some by (intro that [OF refl new(1)]) (simp_all add: new own)
  qed
qed

text \<open>
  A migration the create command scaffolds has a name the migration manager accepts, in
  a file that did not exist; no other file than it and the barrel changes; and as long as the
  numbers of the directory have two digits and the next one has, its name comes after all the
  others, so that it runs last.
\<close>

theorem scaffolded_migration_runs_last:
  assumes "create_migration fns dir description barrel ks fs = (Inr r, fs')"
  shows "valid_name (migrationName r) \<and> \<not> obj_has fs (filePath r) \<and>
    (\<forall>p. p \<noteq> filePath r \<longrightarrow> barrel \<noteq> Some p \<longrightarrow> obj_get fs' p = obj_get fs p) \<and>
    (next_number (listExistingNumberPrefixes dir fs) < 100 \<longrightarrow>
      (\<forall>name n. name @ file_suffix \<in> set (readdir dir fs) \<longrightarrow> number_prefix (name @ file_suffix) = Some n \<longrightarrow>
        length (takeWhile is_digit name) = 2 \<longrightarrow> name < migrationName r))"
  using assms
proof (rule create_migration_Inr)
  fix slug
  assume slug: "slug = slugify description" "slug \<noteq> []"
    and name: "migrationName r = scaffold_name (listExistingNumberPrefixes dir fs) slug"
    and path: "\<not> obj_has fs (filePath r)"
      "\<And>p. p \<noteq> filePath r \<Longrightarrow> barrel \<noteq> Some p \<Longrightarrow> obj_get fs' p = obj_get fs p"
  let ?ps = "listExistingNumberPrefixes dir fs"
  let ?num = "padStart (resolveWidth ?ps) (show_nat (next_number ?ps))"
  have last: "old < migrationName r"
    if "next_number ?ps < 100" "old @ file_suffix \<in> set (readdir dir fs)"
      "number_prefix (old @ file_suffix) = Some n" "length (takeWhile is_digit old) = 2" for old n
  proof -
    have n: "n = num_value (takeWhile is_digit old)"
      using that(3) by (auto simp: number_prefix_def Let_def split: if_splits)
    have "n \<in> set ?ps"
      using that(2,3) by (auto simp: listExistingNumberPrefixes_def List.map_filter_def image_iff intro!: bexI)
    then have "num_value (takeWhile is_digit old) < num_value ?num"
      using next_number_greater n by (simp add: padStart_def num_value_zeros)
    moreover have "list_all is_digit (takeWhile is_digit old)"
      by (auto simp: list_all_iff dest: set_takeWhileD)
    ultimately have "takeWhile is_digit old @ dropWhile is_digit old < ?num @ ''-'' @ slug"
      using that(4) two_digits_width [OF that(1)] padStart_digits by (intro numbers_in_order) auto
    then show ?thesis by (simp add: name scaffold_name_def)
  qed
  moreover have "valid_name (migrationName r)"
    using slug slugify_chars by (simp add: name scaffold_name_valid)
  ultimately show ?thesis using path by blast
qed

text \<open>Beyond two digits the names are out of order, and the padding of the directory is not kept.\<close>

lemma hundredth_migration_runs_early: "scaffold_name [99] ''x'' < ''99-x''"
  by code_simp

lemma three_digit_padding_is_lost:
  "number_prefix ''001-a.sql-migrations.ts'' = Some 1 \<and> scaffold_name [1] ''b'' = ''02-b''"
  by code_simp


definition sample_functions :: path_functions where
  "sample_functions = \<lparr>path_dirname = (\<lambda>p. p), path_relative = (\<lambda>d f. f), localeCompare_le = (\<lambda>a b. True),
     refused = (\<lambda>p. None)\<rparr>"

definition sample_directory :: files where
  "sample_directory = [(''d/01-a.sql-migrations.ts'', [])]"

lemma sample_prefixes:
  "listExistingNumberPrefixes ''d'' sample_directory = [1]" "slugify ''B'' = ''b''" "scaffold_name [1] ''b'' = ''02-b''"
  by code_simp+

lemma sample_created:
  "\<exists>fs'. create_migration sample_functions ''d'' ''B'' None None sample_directory =
     (Inr \<lparr>filePath = ''d/02-b.sql-migrations.ts'',
        className = buildClassName ''b'' (padStart (resolveWidth [1]) (show_nat (next_number [1]))),
        migrationName = ''02-b'', barrelUpdated = False\<rparr>, fs')"
  by (simp add: create_migration_def sample_prefixes access_file_def sample_functions_def Let_def join_path_def
      file_suffix_def obj_has_def sample_directory_def [unfolded file_suffix_def] sample_prefixes [unfolded sample_directory_def] del: One_nat_def)

theorem scaffolded_migration_runs_last_witness:
  "valid_name ''02-b'' \<and> \<not> obj_has sample_directory ''d/02-b.sql-migrations.ts'' \<and> ''01-a'' < ''02-b''"
proof -
  obtain fs' where "create_migration sample_functions ''d'' ''B'' None None sample_directory =
     (Inr \<lparr>filePath = ''d/02-b.sql-migrations.ts'',
        className = buildClassName ''b'' (padStart (resolveWidth [1]) (show_nat (next_number [1]))),
        migrationName = ''02-b'', barrelUpdated = False\<rparr>, fs')"
    using sample_created by blast
  note spec = scaffolded_migration_runs_last [OF this]
  have "next_number [1] < 100" by code_simp
  moreover have "''01-a'' @ file_suffix \<in> set (readdir ''d'' sample_directory)" by code_simp
  moreover have "number_prefix (''01-a'' @ file_suffix) = Some 1" by code_simp
  moreover have "length (takeWhile is_digit ''01-a'') = 2" by code_simp
  ultimately show ?thesis using spec by (auto simp: sample_prefixes simp del: One_nat_def)
qed

end
