(* ===== verification/Http_Client.thy ===== *)
theory Http_Client
  imports Complex_Main Js_Values
begin

text \<open>
  The HTTP client of \<open>packages/http\<close>: the wrapper around Node, the interceptors, retries with
  exponential backoff, and redirects.

  The outside world is the parameter \<open>node_http\<close>, one exchange over Node's \<open>http\<close> or \<open>https\<close>,
  with a state of its own. URLs are the fields the source reads, with \<open>URL.parse\<close> as a
  parameter. The request object is shared and changed in place, so it is part of the state,
  with the requests sent and the waits between them; response times are left out. A loop that
  need not end is a partial function: \<open>None\<close> is a call that never comes back, and
  \<open>NeverSettles\<close> a promise nobody settles.
\<close>

section \<open>URLs\<close>

record url_parts =
  protocol :: string
  hostname :: string
  port :: string
  pathname :: string
  search :: string
  fragment :: string

definition url_text :: "url_parts \<Rightarrow> string" where
  "url_text u = protocol u @ ''//'' @ hostname u @ (if port u = [] then [] else CHR '':'' # port u) @
     pathname u @ search u @ fragment u"

text \<open>Assigning \<open>pathname\<close> encodes what would end the path.\<close>

definition encode_path :: "string \<Rightarrow> string" where
  "encode_path s = concat (map (\<lambda>c. if c = CHR ''?'' then ''%3F'' else if c = CHR ''#'' then ''%23'' else [c]) s)"

definition appendLocationHeaderToUrl ::
  "(string \<Rightarrow> url_parts option) \<Rightarrow> url_parts \<Rightarrow> string \<Rightarrow> url_parts option" where
  "appendLocationHeaderToUrl parse u location =
     (if starts_with location ''/'' then Some (u\<lparr>pathname := encode_path location\<rparr>) else parse location)"

section \<open>Requests, responses and options\<close>

record client_request =
  httpMethod :: string
  req_url :: string
  req_headers :: "string obj option"
  req_body :: "string option"

record client_response =
  res_status :: int
  res_headers :: "string obj option"
  res_body :: jsv

datatype response_type = Raw | Json

text \<open>Options as given: \<open>None\<close> is an absent member, \<open>Some None\<close> one that is \<open>undefined\<close>.\<close>

record given_options =
  given_followRedirects :: "bool option option"
  given_maximumNumberOfRedirects :: "int option option"
  given_isRetryable :: "(client_request \<Rightarrow> client_response \<Rightarrow> bool) option option"
  given_maximumNumberOfRetries :: "int option option"
  given_responseType :: "response_type option option"

record request_options =
  followRedirects :: "bool option"
  maximumNumberOfRedirects :: "int option"
  isRetryable :: "(client_request \<Rightarrow> client_response \<Rightarrow> bool) option"
  maximumNumberOfRetries :: "int option"
  responseType :: "response_type option"

definition defaultOptions :: request_options where
  "defaultOptions = \<lparr>followRedirects = Some True, maximumNumberOfRedirects = Some 5,
     isRetryable = Some (\<lambda>req res. 500 \<le> res_status res \<and> res_status res < 600),
     maximumNumberOfRetries = Some 3, responseType = Some Raw\<rparr>"

definition option_or :: "'a option \<Rightarrow> 'a \<Rightarrow> 'a" where
  "option_or given d = (case given of Some v \<Rightarrow> v | None \<Rightarrow> d)"

text \<open>\<open>{...this.defaultOptions, ...options}\<close>.\<close>

definition merge_options :: "given_options \<Rightarrow> request_options" where
  "merge_options g = \<lparr>
     followRedirects = option_or (given_followRedirects g) (followRedirects defaultOptions),
     maximumNumberOfRedirects = option_or (given_maximumNumberOfRedirects g) (maximumNumberOfRedirects defaultOptions),
     isRetryable = option_or (given_isRetryable g) (isRetryable defaultOptions),
     maximumNumberOfRetries = option_or (given_maximumNumberOfRetries g) (maximumNumberOfRetries defaultOptions),
     responseType = option_or (given_responseType g) (responseType defaultOptions)\<rparr>"

datatype client_error =
    Client_Request_Error string
  | Redirect_Limit_Error nat
  | No_Location_Error nat
  | Invalid_Url string
  | Response_Stream_Error string
  | Interceptor_Failure string

section \<open>The wrapper around Node\<close>

record wire_request =
  wire_host :: string
  wire_path :: string
  wire_method :: string
  wire_headers :: "string obj option"
  wire_port :: string
  wire_body :: "string option"

datatype node_answer =
    Node_Response "int option" "string obj" "string list"
  | Node_Response_Error string
  | Node_Request_Error string string

record 's http_client =
  url_parse :: "string \<Rightarrow> url_parts option"
  node_http :: "bool \<Rightarrow> wire_request \<Rightarrow> 's \<Rightarrow> node_answer \<times> 's"
  json_parse :: "jsv \<Rightarrow> jsv option"
  random_draw :: "nat \<Rightarrow> rat"
  httpRequestInterceptors :: "(client_request \<Rightarrow> request_options \<Rightarrow> client_error + client_request) list"
  httpResponseInterceptors :: "(client_request \<Rightarrow> request_options \<Rightarrow> client_response \<Rightarrow> client_error + client_response) list"
  httpErrorResponseInterceptors :: "(client_request \<Rightarrow> request_options \<Rightarrow> client_response \<Rightarrow> client_error + client_response) list"

definition wire_of :: "client_request \<Rightarrow> url_parts \<Rightarrow> wire_request" where
  "wire_of req u = \<lparr>wire_host = hostname u, wire_path = pathname u @ search u, wire_method = httpMethod req,
     wire_headers = req_headers req, wire_port = port u,
     wire_body = (case req_body req of Some (c # cs) \<Rightarrow> Some (c # cs) | _ \<Rightarrow> None)\<rparr>"

definition settle_answer :: "node_answer \<Rightarrow> client_error + client_response" where
  "settle_answer a = (case a of
       Node_Response st hs chunks \<Rightarrow>
         Inr \<lparr>res_status = (case st of None \<Rightarrow> 200 | Some n \<Rightarrow> n), res_headers = Some hs,
              res_body = js_string (concat chunks)\<rparr>
     | Node_Response_Error m \<Rightarrow> Inl (Response_Stream_Error m)
     | Node_Request_Error c m \<Rightarrow>
         Inl (Client_Request_Error (''Error making the HTTP Request. Code: '' @ c @ '', Message:'' @ m)))"

definition wrapper_executeRequest ::
  "'s http_client \<Rightarrow> client_request \<Rightarrow> 's \<Rightarrow> (client_error + client_response) \<times> 's" where
  "wrapper_executeRequest cl req w =
     (case url_parse cl (req_url req) of
        None \<Rightarrow> (Inl (Invalid_Url (req_url req)), w)
      | Some u \<Rightarrow>
          if protocol u \<in> set [''http://'', ''http:'', ''http'']
          then apfst settle_answer (node_http cl False (wire_of req u) w)
          else if protocol u \<in> set [''https://'', ''https:'', ''https'']
          then apfst settle_answer (node_http cl True (wire_of req u) w)
          else (Inl (Client_Request_Error
            (''The protocol for the HttpRequest is invalid. It must be '' @ quoted ''http'' @ '' or '' @ quoted ''https'' @ ''.'')), w))"

section \<open>Waiting between retries\<close>

definition random_between :: "rat \<Rightarrow> rat \<Rightarrow> rat \<Rightarrow> rat" where
  "random_between draw mn mx = draw * (mx - mn) + mn"

text \<open>With the defaults of the source: intervals 100, 10000 and 100, jitter factors 1/2 and 1/4.
  The power is \<open>2 ^ (retryCount - 2)\<close>.\<close>

definition exponentialBackoffWithJitter :: "rat \<Rightarrow> nat \<Rightarrow> rat" where
  "exponentialBackoffWithJitter draw retryCount =
     min (100 + 2 ^ retryCount / 4 * random_between draw (100 * (1 - 1 / 2)) (100 * (1 - 1 / 4))) 10000"

section \<open>The client\<close>

record 's client_state =
  cs_request :: client_request
  cs_world :: 's
  cs_sent :: "client_request list"
  cs_waits :: "rat list"

definition executeRequest ::
  "'s http_client \<Rightarrow> 's client_state \<Rightarrow> (client_error + client_response) \<times> 's client_state" where
  "executeRequest cl st = (let (r, w) = wrapper_executeRequest cl (cs_request st) (cs_world st) in
     (r, st\<lparr>cs_world := w, cs_sent := cs_sent st @ [cs_request st]\<rparr>))"

definition isResponseError :: "client_response \<Rightarrow> bool" where
  "isResponseError res \<longleftrightarrow> 400 \<le> res_status res \<and> res_status res < 600"

definition isResponseRedirect :: "client_response \<Rightarrow> bool" where
  "isResponseRedirect res \<longleftrightarrow> 300 \<le> res_status res \<and> res_status res < 400"

text \<open>\<open>maximum && maximum <= count\<close>: neither \<open>undefined\<close> nor 0 is a limit.\<close>

definition limit_reached :: "int option \<Rightarrow> nat \<Rightarrow> bool" where
  "limit_reached maximum n = (case maximum of None \<Rightarrow> False | Some m \<Rightarrow> m \<noteq> 0 \<and> m \<le> int n)"

definition retryable :: "request_options \<Rightarrow> client_request \<Rightarrow> client_response \<Rightarrow> bool" where
  "retryable opts req res = (case isRetryable opts of None \<Rightarrow> False | Some f \<Rightarrow> f req res)"

definition wait_before_retry :: "'s http_client \<Rightarrow> nat \<Rightarrow> 's client_state \<Rightarrow> 's client_state" where
  "wait_before_retry cl n st = st\<lparr>cs_waits := cs_waits st @
     [exponentialBackoffWithJitter (random_draw cl (length (cs_waits st))) n]\<rparr>"

definition error_interceptors ::
  "'s http_client \<Rightarrow> request_options \<Rightarrow> client_request \<Rightarrow> client_response \<Rightarrow> client_error + client_response" where
  "error_interceptors cl opts req res = run_chain (\<lambda>i. i req opts) (httpErrorResponseInterceptors cl) res"

text \<open>The retry runs in a timer whose callback has no handler: when it fails, the promise of the
  retry is never settled.\<close>

partial_function (option) handleResponseError ::
  "'s http_client \<Rightarrow> request_options \<Rightarrow> client_response \<Rightarrow> nat \<Rightarrow> 's client_state \<Rightarrow>
   ((client_error, client_response) settled \<times> 's client_state) option" where
  "handleResponseError cl opts res n st =
     (if \<not> isResponseError res then Some (Fulfilled res, st)
      else (case error_interceptors cl opts (cs_request st) res of
          Inl e \<Rightarrow> Some (Rejected e, st)
        | Inr res1 \<Rightarrow>
            if \<not> retryable opts (cs_request st) res1 then Some (Fulfilled res1, st)
            else if limit_reached (maximumNumberOfRetries opts) n then Some (Fulfilled res1, st)
            else (case executeRequest cl (wait_before_retry cl (Suc n) st) of
                (Inl e, st1) \<Rightarrow> Some (NeverSettles, st1)
              | (Inr res2, st1) \<Rightarrow> handleResponseError cl opts res2 (Suc n) st1)))"

definition location_of :: "client_response \<Rightarrow> string option" where
  "location_of res = (case res_headers res of None \<Rightarrow> None | Some hs \<Rightarrow> obj_get hs ''location'')"

definition redirect_url :: "'s http_client \<Rightarrow> string \<Rightarrow> string \<Rightarrow> client_error + string" where
  "redirect_url cl current location =
     (case url_parse cl current of
        None \<Rightarrow> Inl (Invalid_Url current)
      | Some u \<Rightarrow> (case appendLocationHeaderToUrl (url_parse cl) u location of
            None \<Rightarrow> Inl (Invalid_Url location)
          | Some u' \<Rightarrow> Inr (url_text u')))"

partial_function (option) handleResponseRedirect ::
  "'s http_client \<Rightarrow> request_options \<Rightarrow> client_response \<Rightarrow> nat \<Rightarrow> 's client_state \<Rightarrow>
   ((client_error, client_response) settled \<times> 's client_state) option" where
  "handleResponseRedirect cl opts res n st =
     (if \<not> (isResponseRedirect res \<and> followRedirects opts = Some True) then Some (Fulfilled res, st)
      else if limit_reached (maximumNumberOfRedirects opts) n then Some (Rejected (Redirect_Limit_Error n), st)
      else (case location_of res of
          None \<Rightarrow> Some (Rejected (No_Location_Error n), st)
        | Some location \<Rightarrow>
            (case redirect_url cl (req_url (cs_request st)) location of
               Inl e \<Rightarrow> Some (Rejected e, st)
             | Inr u \<Rightarrow>
                 (case executeRequest cl (st\<lparr>cs_request := (cs_request st)\<lparr>req_url := u\<rparr>\<rparr>) of
                    (Inl e, st1) \<Rightarrow> Some (Rejected e, st1)
                  | (Inr res1, st1) \<Rightarrow>
                      Option.bind (if isResponseError res1 then handleResponseError cl opts res1 0 st1
                                   else Some (Fulfilled res1, st1)) (\<lambda>(r, st2).
                        case r of
                          Fulfilled res2 \<Rightarrow> handleResponseRedirect cl opts res2 (Suc n) st2
                        | Rejected e \<Rightarrow> Some (Rejected e, st2)
                        | NeverSettles \<Rightarrow> Some (NeverSettles, st2))))))"

definition convert_body :: "'s http_client \<Rightarrow> request_options \<Rightarrow> client_response \<Rightarrow> client_response" where
  "convert_body cl opts res =
     (if responseType opts = Some Json
      then (case json_parse cl (res_body res) of Some v \<Rightarrow> res\<lparr>res_body := v\<rparr> | None \<Rightarrow> res) else res)"

definition finish_response ::
  "'s http_client \<Rightarrow> request_options \<Rightarrow> (client_error, client_response) settled \<times> 's client_state \<Rightarrow>
   (client_error, client_response) settled \<times> 's client_state" where
  "finish_response cl opts p = (case p of
       (Fulfilled res, st) \<Rightarrow>
         (settled_of (run_chain (\<lambda>i. i (cs_request st) opts) (httpResponseInterceptors cl) (convert_body cl opts res)), st)
     | _ \<Rightarrow> p)"

definition handleResponse ::
  "'s http_client \<Rightarrow> request_options \<Rightarrow> client_response \<Rightarrow> 's client_state \<Rightarrow>
   ((client_error, client_response) settled \<times> 's client_state) option" where
  "handleResponse cl opts res st =
     Option.bind (handleResponseError cl opts res 0 st) (\<lambda>(r, st1).
       case r of
         Fulfilled res1 \<Rightarrow> map_option (finish_response cl opts) (handleResponseRedirect cl opts res1 0 st1)
       | _ \<Rightarrow> Some (r, st1))"

definition client_start :: "client_request \<Rightarrow> 's \<Rightarrow> 's client_state" where
  "client_start req w = \<lparr>cs_request = req, cs_world = w, cs_sent = [], cs_waits = []\<rparr>"

definition client_send ::
  "'s http_client \<Rightarrow> client_request \<Rightarrow> given_options \<Rightarrow> 's \<Rightarrow>
   ((client_error, client_response) settled \<times> 's client_state) option" where
  "client_send cl req given w = (let opts = merge_options given in
     case run_chain (\<lambda>i r. i r opts) (httpRequestInterceptors cl) req of
       Inl e \<Rightarrow> Some (Rejected e, client_start req w)
     | Inr handled \<Rightarrow>
         (case executeRequest cl (client_start handled w) of
            (Inl e, st) \<Rightarrow> Some (Rejected e, st)
          | (Inr res, st) \<Rightarrow> handleResponse cl opts res st))"

end
