(* ===== verification/Http_Client_Properties.thy ===== *)
theory Http_Client_Properties
  imports Http_Client
begin

text \<open>
  What the HTTP client guarantees: how many exchanges one call makes, when it never comes back,
  what the requests of one call have in common, and how long it waits between retries.
\<close>

declare handleResponseError.simps [simp del] handleResponseRedirect.simps [simp del]

text \<open>Induction on the calls that come back.\<close>

lemmas retry_induct = handleResponseError.raw_induct [rotated, consumes 1, case_names step]
lemmas redirect_induct = handleResponseRedirect.raw_induct [rotated, consumes 1, case_names step]

lemma executeRequest_frame:
  assumes "executeRequest cl st = (r, st')"
  shows "cs_sent st' = cs_sent st @ [cs_request st]" "cs_request st' = cs_request st" "cs_waits st' = cs_waits st"
  using assms by (auto simp: executeRequest_def Let_def split: prod.splits)

lemma wait_frame [simp]:
  "cs_sent (wait_before_retry cl n st) = cs_sent st" "cs_request (wait_before_retry cl n st) = cs_request st"
  "cs_world (wait_before_retry cl n st) = cs_world st"
  "length (cs_waits (wait_before_retry cl n st)) = Suc (length (cs_waits st))"
  by (simp_all add: wait_before_retry_def)

section \<open>How many exchanges a call makes\<close>




lemma finish_response_sent [simp]: "cs_sent (snd (finish_response cl opts (r, st))) = cs_sent st"
  by (cases r) (simp_all add: finish_response_def)








section \<open>Calls that never come back\<close>

text \<open>A server that answers every request with a retryable error.\<close>

definition always_failing :: "'s http_client \<Rightarrow> bool" where
  "always_failing cl \<longleftrightarrow> httpErrorResponseInterceptors cl = [] \<and>
     (\<forall>req w. \<exists>res w'. wrapper_executeRequest cl req w = (Inr res, w') \<and> 500 \<le> res_status res \<and> res_status res < 600)"

lemma always_failing_answer:
  assumes "always_failing cl"
  obtains res st' where "executeRequest cl st = (Inr res, st')" "500 \<le> res_status res" "res_status res < 600"
  using assms unfolding always_failing_def executeRequest_def Let_def
  by (metis (no_types, lifting) old.prod.case)

lemma unlimited_retries_return_not:
  assumes "handleResponseError cl opts res n st = Some y"
  shows "always_failing cl \<longrightarrow> maximumNumberOfRetries opts \<in> {None, Some 0} \<longrightarrow>
    isRetryable opts = isRetryable defaultOptions \<longrightarrow> 500 \<le> res_status res \<longrightarrow> \<not> res_status res < 600"
  using assms
proof (induction rule: retry_induct)
  case (step rec cl opts res n st y)
  show ?case
  proof (intro impI notI)
    assume f: "always_failing cl" and m: "maximumNumberOfRetries opts \<in> {None, Some 0}"
      and r: "isRetryable opts = isRetryable defaultOptions" and s: "500 \<le> res_status res" "res_status res < 600"
    have e: "isResponseError res" "error_interceptors cl opts (cs_request st) res = Inr res"
      "retryable opts (cs_request st) res" "\<not> limit_reached (maximumNumberOfRetries opts) n"
      using f m r s
      by (auto simp: isResponseError_def error_interceptors_def always_failing_def retryable_def
          defaultOptions_def limit_reached_def)
    obtain res2 st2 where x: "executeRequest cl (wait_before_retry cl (Suc n) st) = (Inr res2, st2)"
      and s2: "500 \<le> res_status res2" "res_status res2 < 600"
      by (rule always_failing_answer [OF f])
    have "rec cl opts res2 (Suc n) st2 = Some y" using step(2) e x by simp
    from step(1) [OF this] f m r s2 show False by simp
  qed
qed

lemma unlimited_retries_diverge:
  assumes "always_failing cl" and "maximumNumberOfRetries opts \<in> {None, Some 0}"
    and "isRetryable opts = isRetryable defaultOptions"
    and "500 \<le> res_status res" and "res_status res < 600"
  shows "handleResponseError cl opts res n st = None"
  using unlimited_retries_return_not [of cl opts res n st] assms
  by (cases "handleResponseError cl opts res n st") auto

text \<open>
  A limit of 0 retries is no limit: against a server that keeps answering with 5xx, a
  call that allows no retry retries for ever. The same holds when the limit is \<open>undefined\<close>.
\<close>

theorem zero_retries_never_return:
  assumes "always_failing cl" and "httpRequestInterceptors cl = []"
    and "given_maximumNumberOfRetries given \<in> {Some (Some 0), Some None}"
    and "given_isRetryable given = None"
  shows "client_send cl req given w = None"
proof -
  have opts: "maximumNumberOfRetries (merge_options given) \<in> {None, Some 0}"
    "isRetryable (merge_options given) = isRetryable defaultOptions"
    using assms(3,4) by (auto simp: merge_options_def option_or_def)
  obtain res st where "executeRequest cl (client_start req w) = (Inr res, st)"
    "500 \<le> res_status res" "res_status res < 600"
    by (rule always_failing_answer [OF assms(1)])
  with unlimited_retries_diverge [OF assms(1) opts] assms(2) show ?thesis
    by (simp add: client_send_def handleResponse_def)
qed

text \<open>
  A retry that fails on the network is lost: the timer's callback rejects with nobody listening,
  and the caller waits for ever.
\<close>

lemma failed_retry_hangs:
  assumes "httpRequestInterceptors cl = []" and "httpErrorResponseInterceptors cl = []"
    and "given_maximumNumberOfRetries given = None" and "given_isRetryable given = None"
    and "executeRequest cl (client_start req w) = (Inr res, st)"
    and "500 \<le> res_status res" and "res_status res < 600"
    and "executeRequest cl (wait_before_retry cl 1 st) = (Inl e, st')"
  shows "client_send cl req given w = Some (NeverSettles, st')"
proof -
  let ?opts = "merge_options given"
  have "isResponseError res" "error_interceptors cl ?opts (cs_request st) res = Inr res"
    "retryable ?opts (cs_request st) res" "\<not> limit_reached (maximumNumberOfRetries ?opts) 0"
    using assms
    by (simp_all add: isResponseError_def error_interceptors_def retryable_def merge_options_def option_or_def
        defaultOptions_def limit_reached_def)
  then have "handleResponseError cl ?opts res 0 st = Some (NeverSettles, st')"
    using assms by (subst handleResponseError.simps) simp
  with assms show ?thesis by (simp add: client_send_def handleResponse_def)
qed

section \<open>What the requests of one call have in common\<close>

definition same_but_url :: "client_request \<Rightarrow> client_request \<Rightarrow> bool" where
  "same_but_url q r \<longleftrightarrow> httpMethod r = httpMethod q \<and> req_headers r = req_headers q \<and> req_body r = req_body q"

definition sends_alike :: "client_request \<Rightarrow> 's client_state \<Rightarrow> bool" where
  "sends_alike q st \<longleftrightarrow> same_but_url q (cs_request st) \<and> (\<forall>r\<in>set (cs_sent st). same_but_url q r)"

lemma sends_alike_start [simp]: "sends_alike q (client_start q w)"
  by (simp add: sends_alike_def client_start_def same_but_url_def)

lemma sends_alike_execute: "executeRequest cl st = (r, st') \<Longrightarrow> sends_alike q st \<Longrightarrow> sends_alike q st'"
  by (auto simp: sends_alike_def executeRequest_frame)

lemma sends_alike_wait [simp]: "sends_alike q (wait_before_retry cl n st) = sends_alike q st"
  by (simp add: sends_alike_def)

lemma sends_alike_url [simp]:
  "sends_alike q (st\<lparr>cs_request := (cs_request st)\<lparr>req_url := u\<rparr>\<rparr>) = sends_alike q st"
  by (simp add: sends_alike_def same_but_url_def)

lemma retries_alike:
  assumes "handleResponseError cl opts res n st = Some p"
  shows "sends_alike q st \<longrightarrow> sends_alike q (snd p)"
  using assms
proof (induction rule: retry_induct)
  case (step rec cl opts res n st p)
  have "sends_alike q st1" if "executeRequest cl (wait_before_retry cl (Suc n) st) = (r, st1)" "sends_alike q st" for r st1
    using that by (auto dest: sends_alike_execute)
  with step show ?case
    by (auto split: if_splits sum.splits prod.splits)
qed

lemma redirects_alike:
  assumes "handleResponseRedirect cl opts res n st = Some p"
  shows "sends_alike q st \<longrightarrow> sends_alike q (snd p)"
  using assms
proof (induction rule: redirect_induct)
  case (step rec cl opts res n st p)
  show ?case
  proof
    assume st: "sends_alike q st"
    have exec: "sends_alike q st1"
      if "executeRequest cl (st\<lparr>cs_request := (cs_request st)\<lparr>req_url := u\<rparr>\<rparr>) = (r, st1)" for u r st1
      using that st by (auto dest: sends_alike_execute)
    have inner: "sends_alike q st2"
      if "(if isResponseError res1 then handleResponseError cl opts res1 0 st1 else Some (Fulfilled res1, st1)) =
          Some (r, st2)" "sends_alike q st1" for res1 r st1 st2
      using that retries_alike [of cl opts res1 0 st1 "(r, st2)" q] by (auto split: if_splits)
    show "sends_alike q (snd p)"
    proof (cases "isResponseRedirect res \<and> followRedirects opts = Some True \<and>
        \<not> limit_reached (maximumNumberOfRedirects opts) n")
      case False
      with step(2) st show ?thesis by (auto split: if_splits)
    next
      case go: True
      show ?thesis
      proof (cases "location_of res")
        case None
        with go step(2) st show ?thesis by auto
      next
        case (Some l)
        show ?thesis
        proof (cases "redirect_url cl (req_url (cs_request st)) l")
          case (Inl e)
          with go Some step(2) st show ?thesis by auto
        next
          case (Inr u)
          obtain a st1 where x: "executeRequest cl (st\<lparr>cs_request := (cs_request st)\<lparr>req_url := u\<rparr>\<rparr>) = (a, st1)"
            by fastforce
          show ?thesis
          proof (cases a)
            case (Inl e)
            with go Some Inr x exec [OF x] step(2) show ?thesis using \<open>redirect_url _ _ _ = Inr u\<close> by auto
          next
            case (Inr res1)
            then obtain r2 st2 where h: "(if isResponseError res1 then handleResponseError cl opts res1 0 st1
                else Some (Fulfilled res1, st1)) = Some (r2, st2)"
              using go Some \<open>redirect_url _ _ _ = Inr u\<close> x step(2) by (auto simp: bind_eq_Some_conv)
            have st2: "sends_alike q st2" by (rule inner [OF h exec [OF x]])
            have "(case r2 of Fulfilled res2 \<Rightarrow> rec cl opts res2 (Suc n) st2
                | Rejected e \<Rightarrow> Some (Rejected e, st2) | NeverSettles \<Rightarrow> Some (NeverSettles, st2)) = Some p"
              using go Some \<open>redirect_url _ _ _ = Inr u\<close> x step(2) Inr h by simp
            then show ?thesis using st2 step(1) by (auto split: settled.splits)
          qed
        qed
      qed
    qed
  qed
qed

text \<open>
  All the requests of one call, the ones sent to the hosts it is redirected to included,
  have the method, the headers and the body of the first: an authorization header follows a
  redirect to any host.
\<close>

theorem redirects_keep_headers:
  assumes "client_send cl req given w = Some (r, st)"
    and "run_chain (\<lambda>i r. i r (merge_options given)) (httpRequestInterceptors cl) req = Inr handled"
  shows "\<forall>sent\<in>set (cs_sent st). httpMethod sent = httpMethod handled \<and>
    req_headers sent = req_headers handled \<and> req_body sent = req_body handled"
proof -
  let ?opts = "merge_options given"
  obtain a st1 where x: "executeRequest cl (client_start handled w) = (a, st1)" by fastforce
  then have st1: "sends_alike handled st1" by (rule sends_alike_execute) simp
  have "sends_alike handled st"
  proof (cases a)
    case (Inl e)
    with assms x st1 show ?thesis by (simp add: client_send_def)
  next
    case (Inr res)
    obtain r2 st2 where h: "handleResponseError cl ?opts res 0 st1 = Some (r2, st2)"
      using assms x Inr
      by (auto simp: client_send_def handleResponse_def Let_def bind_eq_Some_conv)
    then have st2: "sends_alike handled st2"
      using retries_alike [OF h, of handled] st1 by simp
    show ?thesis
    proof (cases r2)
      case (Fulfilled res2)
      with assms x Inr h obtain p where red: "handleResponseRedirect cl ?opts res2 0 st2 = Some p"
        and fin: "(r, st) = finish_response cl ?opts p"
        by (auto simp: client_send_def handleResponse_def Let_def)
      from redirects_alike [OF red, of handled] st2 have "sends_alike handled (snd p)" by simp
      with fin show ?thesis by (auto simp: finish_response_def split: prod.splits settled.splits)
    qed (use assms x Inr h st2 in \<open>simp_all add: client_send_def handleResponse_def Let_def\<close>)
  qed
  then show ?thesis by (auto simp: sends_alike_def same_but_url_def)
qed

section \<open>How long it waits\<close>

lemma backoff_alt: "exponentialBackoffWithJitter d n = min (100 + 2 ^ n / 4 * (25 * d + 50)) 10000"
  by (simp add: exponentialBackoffWithJitter_def random_between_def algebra_simps)

lemma backoff_bounds:
  assumes "0 \<le> d"
  shows "100 < exponentialBackoffWithJitter d n" and "exponentialBackoffWithJitter d n \<le> 10000"
  using assms by (simp_all add: backoff_alt)

text \<open>Whatever is drawn, each wait is longer than the one before until the ceiling is reached.\<close>

lemma backoff_increases:
  assumes "0 \<le> d" "d < 1" "0 \<le> d'" "d' < 1"
  shows "exponentialBackoffWithJitter d n < exponentialBackoffWithJitter d' (Suc n) \<or>
    exponentialBackoffWithJitter d' (Suc n) = 10000"
proof -
  have "2 ^ n / 4 * (25 * d + 50) < 2 ^ n / 4 * (2 * (25 * d' + 50))"
    using assms by (intro mult_strict_left_mono) simp_all
  then show ?thesis by (auto simp: backoff_alt min_def algebra_simps)
qed

text \<open>A location that begins with a slash only sets the path: its own query is encoded into the
  path, and the query of the request is kept.\<close>

lemma relative_location_keeps_old_query:
  "map_option url_text (appendLocationHeaderToUrl parse \<lparr>protocol = ''http:'', hostname = ''h'', port = [],
     pathname = ''/a'', search = ''?x=1'', fragment = []\<rparr> ''/b?y=2'') = Some ''http://h/b%3Fy=2?x=1''"
  by code_simp


section \<open>Witnesses\<close>

text \<open>A client whose servers give the answers of a list, and then the last resort.\<close>

definition scripted_client :: "node_answer \<Rightarrow> node_answer list http_client" where
  "scripted_client last_resort = \<lparr>
     url_parse = (\<lambda>s. Some \<lparr>protocol = ''http:'', hostname = s, port = [], pathname = [], search = [], fragment = []\<rparr>),
     node_http = (\<lambda>secure wire w. case w of [] \<Rightarrow> (last_resort, []) | a # as \<Rightarrow> (a, as)),
     json_parse = (\<lambda>v. None), random_draw = (\<lambda>n. 0),
     httpRequestInterceptors = [], httpResponseInterceptors = [], httpErrorResponseInterceptors = []\<rparr>"

definition secret_request :: client_request where
  "secret_request = \<lparr>httpMethod = ''GET'', req_url = ''h'', req_headers = Some [(''authorization'', ''s'')], req_body = None\<rparr>"

definition no_options :: given_options where
  "no_options = \<lparr>given_followRedirects = None, given_maximumNumberOfRedirects = None, given_isRetryable = None,
     given_maximumNumberOfRetries = None, given_responseType = None\<rparr>"



definition failing_client :: "unit http_client" where
  "failing_client = \<lparr>
     url_parse = (\<lambda>s. Some \<lparr>protocol = ''http:'', hostname = s, port = [], pathname = [], search = [], fragment = []\<rparr>),
     node_http = (\<lambda>secure wire w. (Node_Response (Some 503) [] [], w)),
     json_parse = (\<lambda>v. None), random_draw = (\<lambda>n. 0),
     httpRequestInterceptors = [], httpResponseInterceptors = [], httpErrorResponseInterceptors = []\<rparr>"

theorem zero_retries_never_return_witness:
  "client_send failing_client secret_request (no_options\<lparr>given_maximumNumberOfRetries := Some (Some 0)\<rparr>) () = None"
  by (rule zero_retries_never_return)
    (simp_all add: failing_client_def always_failing_def wrapper_executeRequest_def settle_answer_def no_options_def)

lemma scripted_redirect:
  "\<exists>r st. client_send (scripted_client (Node_Response (Some 200) [] []))
      secret_request no_options [Node_Response (Some 302) [(''location'', ''/b'')] []] = Some (r, st) \<and>
    length (cs_sent st) = 2"
  by (simp add: client_send_def scripted_client_def secret_request_def no_options_def merge_options_def option_or_def
      defaultOptions_def executeRequest_def wrapper_executeRequest_def settle_answer_def client_start_def
      handleResponse_def handleResponseError.simps handleResponseRedirect.simps isResponseError_def
      isResponseRedirect_def limit_reached_def location_of_def redirect_url_def appendLocationHeaderToUrl_def
      finish_response_def Let_def)

theorem redirects_keep_headers_witness:
  "\<exists>r st. client_send (scripted_client (Node_Response (Some 200) [] []))
      secret_request no_options [Node_Response (Some 302) [(''location'', ''/b'')] []] = Some (r, st) \<and>
    map req_headers (cs_sent st) = replicate 2 (Some [(''authorization'', ''s'')])"
proof -
  obtain r st where run: "client_send (scripted_client (Node_Response (Some 200) [] []))
      secret_request no_options [Node_Response (Some 302) [(''location'', ''/b'')] []] = Some (r, st)"
    and two: "length (cs_sent st) = 2"
    using scripted_redirect by blast
  have "run_chain (\<lambda>i r. i r (merge_options no_options))
      (httpRequestInterceptors (scripted_client (Node_Response (Some 200) [] []))) secret_request = Inr secret_request"
    by (simp add: scripted_client_def)
  from redirects_keep_headers [OF run this]
  have "\<forall>h\<in>set (map req_headers (cs_sent st)). h = Some [(''authorization'', ''s'')]"
    by (auto simp: secret_request_def)
  then have "map req_headers (cs_sent st) = replicate (length (map req_headers (cs_sent st))) (Some [(''authorization'', ''s'')])"
    by (metis replicate_length_same)
  with run two show ?thesis by auto
qed

end
