(* ===== verification/Tracing.thy ===== *)
theory Tracing
  imports Pristine_Prelude
begin

text \<open>
  The tracing manager of \<open>packages/telemetry\<close>, with spans, traces and the event context of
  \<open>packages/common\<close>, and what the kernel's \<open>handle\<close> and the event pipeline do with them.

  Spans, traces and event contexts are objects that are shared and changed in place: they live in
  stores addressed by numbers, allocated in order. \<open>AsyncLocalStorage\<close> is the number of the
  context the running code sees, so that an interleaving is a sequence of operations with
  changes of context between them. Managers are numbered too, each with its own fallback trace.
  The tracers see one stream of what is pushed to them; entries written for debugging are left
  out. Recursion over spans is limited by the call stack: \<open>None\<close> is its overflow.
\<close>

section \<open>Spans, traces and contexts\<close>

record span_marker =
  mk_message :: string
  mk_timestamp :: nat
  mk_attributes :: "string obj"

record span =
  sp_id :: string
  sp_keyname :: string
  sp_manager :: "nat option"
  sp_trace :: "nat option"
  sp_startDate :: nat
  sp_endDate :: "nat option"
  sp_parent :: "nat option"
  sp_children :: "nat list"
  sp_markers :: "span_marker list"
  sp_context :: "string obj"
  sp_inProgress :: bool

record trace =
  tr_id :: string
  tr_startDate :: nat
  tr_endDate :: "nat option"
  tr_rootSpan :: "nat option"
  tr_spansByKeyname :: "nat list obj"
  tr_context :: "string obj"
  tr_hasEnded :: bool

record event_context =
  ec_trace :: "nat option"
  ec_traceId :: "string option"

datatype tracer_event = Trace_Started nat | Span_Started nat | Span_Ended nat | Trace_Ended nat

record tracing =
  ts_spans :: "nat \<Rightarrow> span"
  ts_span_count :: nat
  ts_traces :: "nat \<Rightarrow> trace"
  ts_trace_count :: nat
  ts_contexts :: "nat \<Rightarrow> event_context"
  ts_context_count :: nat
  ts_current :: "nat option"
  ts_fallback :: "nat \<Rightarrow> nat option"
  ts_traceId :: "string option"
  ts_stream :: "tracer_event list"
  ts_log :: "effect list"
  ts_clock :: nat

text \<open>The configuration, the identifiers generated in turn, and the depth of the call stack.\<close>

record tracing_config =
  tracing_active :: bool
  fresh_uuid :: "nat \<Rightarrow> string"
  stack_depth :: nat

definition upd_span :: "nat \<Rightarrow> (span \<Rightarrow> span) \<Rightarrow> tracing \<Rightarrow> tracing" where
  "upd_span s f st = st\<lparr>ts_spans := (ts_spans st)(s := f (ts_spans st s))\<rparr>"

definition upd_trace :: "nat \<Rightarrow> (trace \<Rightarrow> trace) \<Rightarrow> tracing \<Rightarrow> tracing" where
  "upd_trace t f st = st\<lparr>ts_traces := (ts_traces st)(t := f (ts_traces st t))\<rparr>"

definition upd_context :: "nat \<Rightarrow> (event_context \<Rightarrow> event_context) \<Rightarrow> tracing \<Rightarrow> tracing" where
  "upd_context c f st = st\<lparr>ts_contexts := (ts_contexts st)(c := f (ts_contexts st c))\<rparr>"

definition to_tracers :: "tracer_event \<Rightarrow> tracing \<Rightarrow> tracing" where
  "to_tracers e st = st\<lparr>ts_stream := ts_stream st @ [e]\<rparr>"

definition write_log :: "severity \<Rightarrow> string \<Rightarrow> tracing \<Rightarrow> tracing" where
  "write_log sev msg st = st\<lparr>ts_log := ts_log st @ [Log sev msg]\<rparr>"

definition fresh_id :: "tracing_config \<Rightarrow> tracing \<Rightarrow> string" where
  "fresh_id cfg st = fresh_uuid cfg (ts_span_count st + ts_trace_count st)"

definition new_span :: "tracing_config \<Rightarrow> string \<Rightarrow> string option \<Rightarrow> string obj \<Rightarrow> tracing \<Rightarrow> nat \<times> tracing" where
  "new_span cfg keyname i context st = (let s = ts_span_count st in
     (s, st\<lparr>ts_span_count := Suc s, ts_spans := (ts_spans st)(s :=
        \<lparr>sp_id = (case i of Some i \<Rightarrow> i | None \<Rightarrow> fresh_id cfg st), sp_keyname = keyname, sp_manager = None,
         sp_trace = None, sp_startDate = ts_clock st, sp_endDate = None, sp_parent = None, sp_children = [],
         sp_markers = [], sp_context = context, sp_inProgress = True\<rparr>)\<rparr>))"

definition new_trace :: "tracing_config \<Rightarrow> string option \<Rightarrow> string obj \<Rightarrow> tracing \<Rightarrow> nat \<times> tracing" where
  "new_trace cfg i context st = (let t = ts_trace_count st in
     (t, st\<lparr>ts_trace_count := Suc t, ts_traces := (ts_traces st)(t :=
        \<lparr>tr_id = (case i of Some i \<Rightarrow> i | None \<Rightarrow> fresh_id cfg st), tr_startDate = ts_clock st, tr_endDate = None,
         tr_rootSpan = None, tr_spansByKeyname = [], tr_context = context, tr_hasEnded = False\<rparr>)\<rparr>))"

definition getDuration :: "nat \<Rightarrow> span \<Rightarrow> int" where
  "getDuration now sp = int (case sp_endDate sp of Some e \<Rightarrow> e | None \<Rightarrow> now) - int (sp_startDate sp)"

text \<open>\<open>Span.addChild\<close>: a child with the same identifier is not added again.\<close>

definition addChild :: "nat \<Rightarrow> nat \<Rightarrow> tracing \<Rightarrow> tracing" where
  "addChild p s st =
     (if list_ex (\<lambda>c. sp_id (ts_spans st c) = sp_id (ts_spans st s)) (sp_children (ts_spans st p)) then st
      else upd_span p (\<lambda>sp. sp\<lparr>sp_children := sp_children sp @ [s]\<rparr>)
             (upd_span s (\<lambda>sp. sp\<lparr>sp_parent := Some p\<rparr>) st))"

section \<open>The active trace\<close>

definition getActiveTrace :: "nat \<Rightarrow> tracing \<Rightarrow> nat option" where
  "getActiveTrace m st =
     (case ts_current st of
        None \<Rightarrow> ts_fallback st m
      | Some c \<Rightarrow> (case ec_trace (ts_contexts st c) of Some t \<Rightarrow> Some t | None \<Rightarrow> ts_fallback st m))"

definition setActiveTrace :: "nat \<Rightarrow> nat \<Rightarrow> tracing \<Rightarrow> tracing" where
  "setActiveTrace m t st =
     (case ts_current st of
        Some c \<Rightarrow> upd_context c (\<lambda>ec. ec\<lparr>ec_trace := Some t\<rparr>) st
      | None \<Rightarrow> st\<lparr>ts_fallback := (ts_fallback st)(m := Some t)\<rparr>)"

definition mirror_trace_id :: "string \<Rightarrow> tracing \<Rightarrow> tracing" where
  "mirror_trace_id i st = (let st1 = st\<lparr>ts_traceId := Some i\<rparr> in
     case ts_current st1 of
       Some c \<Rightarrow> upd_context c (\<lambda>ec. ec\<lparr>ec_traceId := Some i\<rparr>) st1
     | None \<Rightarrow> st1)"

definition addToTraceContext :: "nat \<Rightarrow> string obj \<Rightarrow> tracing \<Rightarrow> tracing" where
  "addToTraceContext m es st = (case getActiveTrace m st of
       None \<Rightarrow> st
     | Some t \<Rightarrow> upd_trace t (\<lambda>tr. tr\<lparr>tr_context := obj_merge (tr_context tr) es\<rparr>) st)"

definition continueTrace :: "nat \<Rightarrow> string \<Rightarrow> tracing \<Rightarrow> tracing" where
  "continueTrace m i st = (case getActiveTrace m st of
       None \<Rightarrow> st
     | Some t \<Rightarrow> mirror_trace_id i (upd_trace t (\<lambda>tr. tr\<lparr>tr_id := i\<rparr>) st))"

section \<open>Starting\<close>

definition index_span :: "string \<Rightarrow> nat \<Rightarrow> trace \<Rightarrow> trace" where
  "index_span k s tr = tr\<lparr>tr_spansByKeyname := obj_set k
     (case obj_get (tr_spansByKeyname tr) k of None \<Rightarrow> [s] | Some ss \<Rightarrow> ss @ [s]) (tr_spansByKeyname tr)\<rparr>"

text \<open>\<open>addSpan\<close> before it comes to the children.\<close>

definition attach_span :: "tracing_config \<Rightarrow> nat \<Rightarrow> nat \<Rightarrow> nat \<Rightarrow> tracing \<Rightarrow> tracing" where
  "attach_span cfg m t s st = (let st1 = upd_span s (\<lambda>sp. sp\<lparr>sp_manager := Some m, sp_trace := Some t\<rparr>) st;
     st2 = upd_trace t (index_span (sp_keyname (ts_spans st1 s)) s) st1 in
     if tracing_active cfg then to_tracers (Span_Started s) st2 else st2)"

fun addSpan :: "tracing_config \<Rightarrow> nat \<Rightarrow> nat \<Rightarrow> nat \<Rightarrow> tracing \<Rightarrow> tracing option"
  and add_spans :: "tracing_config \<Rightarrow> nat \<Rightarrow> nat \<Rightarrow> nat list \<Rightarrow> tracing \<Rightarrow> tracing option" where
  "addSpan cfg 0 m s st = None"
| "addSpan cfg (Suc k) m s st = (case getActiveTrace m st of
       None \<Rightarrow> Some (write_log Error (''You cannot call '' @ quoted ''addSpan'' @ '' without having an existing Trace.'') st)
     | Some t \<Rightarrow> (let st1 = attach_span cfg m t s st in
         if \<not> tracing_active cfg then Some st1
         else add_spans cfg k m (sp_children (ts_spans st1 s)) st1))"
| "add_spans cfg k m [] st = Some st"
| "add_spans cfg k m (c # cs) st = Option.bind (addSpan cfg k m c st) (add_spans cfg k m cs)"

definition root_execution :: string where
  "root_execution = ''root.execution''"

definition startTracing ::
  "tracing_config \<Rightarrow> nat \<Rightarrow> string \<Rightarrow> string option \<Rightarrow> string obj \<Rightarrow> tracing \<Rightarrow> (nat \<times> tracing) option" where
  "startTracing cfg m rootKeyname traceId context st =
     (let (t, st1) = new_trace cfg traceId context st;
          st2 = setActiveTrace m t st1;
          (s, st3) = new_span cfg rootKeyname None context st2;
          st4 = mirror_trace_id (tr_id (ts_traces st3 t)) st3 in
      if \<not> tracing_active cfg then Some (s, st4)
      else map_option (Pair s) (addSpan cfg (stack_depth cfg) m s
        (upd_trace t (\<lambda>tr. tr\<lparr>tr_rootSpan := Some s\<rparr>) (to_tracers (Trace_Started t) st4))))"

text \<open>The parent of a new span: the only span of the keyname, or the one of several that has the
  identifier, or else the root.\<close>

definition resolve_parent :: "trace \<Rightarrow> string option \<Rightarrow> string option \<Rightarrow> tracing \<Rightarrow> nat option" where
  "resolve_parent tr parentKeyname parentId st =
     (case parentKeyname of
        None \<Rightarrow> tr_rootSpan tr
      | Some k \<Rightarrow> if k = [] then tr_rootSpan tr
          else (case obj_get (tr_spansByKeyname tr) k of
            None \<Rightarrow> tr_rootSpan tr
          | Some ss \<Rightarrow>
              if 1 < length ss then
                (case parentId of
                   None \<Rightarrow> tr_rootSpan tr
                 | Some i \<Rightarrow> if i = [] then tr_rootSpan tr
                     else (case List.find (\<lambda>s. sp_id (ts_spans st s) = i) ss of
                       None \<Rightarrow> tr_rootSpan tr | Some s \<Rightarrow> Some s))
              else if length ss = 1 then Some (hd ss) else tr_rootSpan tr))"

definition startSpan ::
  "tracing_config \<Rightarrow> nat \<Rightarrow> string \<Rightarrow> string option \<Rightarrow> string option \<Rightarrow> string obj \<Rightarrow> tracing \<Rightarrow> (nat \<times> tracing) option" where
  "startSpan cfg m keyname parentKeyname parentId context st =
     Option.bind (if getActiveTrace m st = None
                  then map_option snd (startTracing cfg m root_execution None context st) else Some st) (\<lambda>st1.
     let (s, st2) = new_span cfg keyname None context st1 in
     case getActiveTrace m st2 of
       None \<Rightarrow> Some (s, write_log Error ''Trace is undefined after startTracing; returning unattached span.'' st2)
     | Some t \<Rightarrow>
         let st3 = upd_span s (\<lambda>sp. sp\<lparr>sp_trace := Some t\<rparr>) st2;
             st4 = (case resolve_parent (ts_traces st3 t) parentKeyname parentId st3 of
                 None \<Rightarrow> write_log Warning
                   ''startSpan: no parent span available (rootSpan is undefined). Attaching as orphan.'' st3
               | Some p \<Rightarrow> addChild p s st3) in
         map_option (Pair s) (addSpan cfg (stack_depth cfg) m s st4))"

section \<open>Ending\<close>

text \<open>The root span of the active trace is recognised by its keyname.\<close>

definition is_root_keyname :: "nat \<Rightarrow> nat \<Rightarrow> tracing \<Rightarrow> bool" where
  "is_root_keyname m s st = (case getActiveTrace m st of
       None \<Rightarrow> False
     | Some t \<Rightarrow> (case tr_rootSpan (ts_traces st t) of
           None \<Rightarrow> False
         | Some r \<Rightarrow> sp_keyname (ts_spans st s) = sp_keyname (ts_spans st r)))"

definition stamp_end :: "nat \<Rightarrow> tracing \<Rightarrow> tracing" where
  "stamp_end s st = (if sp_endDate (ts_spans st s) = None
     then upd_span s (\<lambda>sp. sp\<lparr>sp_endDate := Some (ts_clock st)\<rparr>) st else st)"

fun endSpan :: "tracing_config \<Rightarrow> nat \<Rightarrow> nat \<Rightarrow> nat \<Rightarrow> tracing \<Rightarrow> tracing option"
  and end_spans :: "tracing_config \<Rightarrow> nat \<Rightarrow> nat \<Rightarrow> nat list \<Rightarrow> tracing \<Rightarrow> tracing option"
  and endTrace :: "tracing_config \<Rightarrow> nat \<Rightarrow> nat \<Rightarrow> tracing \<Rightarrow> tracing option" where
  "endSpan cfg 0 m s st = None"
| "endSpan cfg (Suc k) m s st =
     (if \<not> sp_inProgress (ts_spans st s) then Some st
      else Option.bind (end_spans cfg k m (sp_children (ts_spans st s))
             (upd_span s (\<lambda>sp. sp\<lparr>sp_inProgress := False\<rparr>) st)) (\<lambda>st1.
        let st2 = stamp_end s st1 in
        if \<not> tracing_active cfg then Some st2
        else let st3 = to_tracers (Span_Ended s) st2 in
          if is_root_keyname m s st3 then endTrace cfg k m st3 else Some st3))"
| "end_spans cfg k m [] st = Some st"
| "end_spans cfg k m (c # cs) st = Option.bind (endSpan cfg k m c st) (end_spans cfg k m cs)"
| "endTrace cfg 0 m st = None"
| "endTrace cfg (Suc k) m st = (case getActiveTrace m st of
       None \<Rightarrow> Some st
     | Some t \<Rightarrow>
         if tr_hasEnded (ts_traces st t) then Some st
         else let st1 = upd_trace t (\<lambda>tr. tr\<lparr>tr_endDate := Some (ts_clock st), tr_hasEnded := True\<rparr>) st in
           Option.bind (case tr_rootSpan (ts_traces st1 t) of None \<Rightarrow> Some st1 | Some r \<Rightarrow> endSpan cfg k m r st1)
             (\<lambda>st2. Some (if tracing_active cfg then to_tracers (Trace_Ended t) st2 else st2)))"

text \<open>\<open>Span.end\<close>: nothing for a span no manager has taken.\<close>

definition span_end :: "tracing_config \<Rightarrow> nat \<Rightarrow> tracing \<Rightarrow> tracing option" where
  "span_end cfg s st = (case sp_manager (ts_spans st s) of
       None \<Rightarrow> Some st
     | Some m \<Rightarrow> endSpan cfg (stack_depth cfg) m s st)"

definition endSpanKeyname :: "tracing_config \<Rightarrow> nat \<Rightarrow> string \<Rightarrow> tracing \<Rightarrow> tracing option" where
  "endSpanKeyname cfg m keyname st = (case getActiveTrace m st of
       None \<Rightarrow> Some st
     | Some t \<Rightarrow> (case obj_get (tr_spansByKeyname (ts_traces st t)) keyname of
           None \<Rightarrow> Some st
         | Some [s] \<Rightarrow> endSpan cfg (stack_depth cfg) m s st
         | Some _ \<Rightarrow> Some (write_log Error
             ''Error ending span by keyname since multiple spans exist with this keyname'' st)))"

section \<open>Markers\<close>

text \<open>The open leaves below a span, in the order the walk meets them.\<close>

fun open_leaves :: "nat \<Rightarrow> tracing \<Rightarrow> nat \<Rightarrow> nat list option"
  and open_leaves_of :: "nat \<Rightarrow> tracing \<Rightarrow> nat list \<Rightarrow> nat list option" where
  "open_leaves 0 st s = None"
| "open_leaves (Suc k) st s = (let cs = filter (\<lambda>c. sp_inProgress (ts_spans st c)) (sp_children (ts_spans st s)) in
     map_option (\<lambda>rest. (if sp_inProgress (ts_spans st s) \<and> cs = [] then [s] else []) @ rest)
       (open_leaves_of k st cs))"
| "open_leaves_of k st [] = Some []"
| "open_leaves_of k st (c # cs) = Option.bind (open_leaves k st c) (\<lambda>xs.
     map_option ((@) xs) (open_leaves_of k st cs))"

definition later_started :: "tracing \<Rightarrow> nat option \<Rightarrow> nat \<Rightarrow> nat option" where
  "later_started st best s = (case best of
       None \<Rightarrow> Some s
     | Some b \<Rightarrow> if sp_startDate (ts_spans st b) \<le> sp_startDate (ts_spans st s) then Some s else Some b)"

definition findActiveLeafSpan :: "tracing_config \<Rightarrow> nat \<Rightarrow> tracing \<Rightarrow> nat option option" where
  "findActiveLeafSpan cfg m st = (case getActiveTrace m st of
       None \<Rightarrow> Some None
     | Some t \<Rightarrow> (case tr_rootSpan (ts_traces st t) of
           None \<Rightarrow> Some None
         | Some r \<Rightarrow> map_option (foldl (later_started st) None) (open_leaves (stack_depth cfg) st r)))"

definition addMarkerToCurrentSpan ::
  "tracing_config \<Rightarrow> nat \<Rightarrow> string \<Rightarrow> string obj \<Rightarrow> tracing \<Rightarrow> tracing option" where
  "addMarkerToCurrentSpan cfg m message attributes st =
     map_option (\<lambda>target. case target of
         None \<Rightarrow> write_log Warning
           ''TracingManager.addMarkerToCurrentSpan called outside any active trace; marker dropped.'' st
       | Some s \<Rightarrow> upd_span s (\<lambda>sp. sp\<lparr>sp_markers := sp_markers sp @
           [\<lparr>mk_message = message, mk_timestamp = ts_clock st, mk_attributes = attributes\<rparr>]\<rparr>) st)
       (findActiveLeafSpan cfg m st)"

record trail_entry =
  te_is_span :: bool
  te_name :: string
  te_date :: nat
  te_attributes :: "string obj"

definition span_trail :: "span \<Rightarrow> trail_entry list" where
  "span_trail sp =
     \<lparr>te_is_span = True, te_name = sp_keyname sp @ (if sp_inProgress sp then '' (active)'' else []),
      te_date = sp_startDate sp, te_attributes = obj_merge [(''spanId'', sp_id sp)] (sp_context sp)\<rparr> #
     map (\<lambda>mk. \<lparr>te_is_span = False, te_name = mk_message mk, te_date = mk_timestamp mk,
       te_attributes = obj_merge [(''spanKeyname'', sp_keyname sp)] (mk_attributes mk)\<rparr>) (sp_markers sp)"

fun trail_from :: "nat \<Rightarrow> tracing \<Rightarrow> nat \<Rightarrow> trail_entry list option"
  and trail_from_all :: "nat \<Rightarrow> tracing \<Rightarrow> nat list \<Rightarrow> trail_entry list option" where
  "trail_from 0 st s = None"
| "trail_from (Suc k) st s = map_option ((@) (span_trail (ts_spans st s)))
     (trail_from_all k st (sp_children (ts_spans st s)))"
| "trail_from_all k st [] = Some []"
| "trail_from_all k st (c # cs) = Option.bind (trail_from k st c) (\<lambda>xs.
     map_option ((@) xs) (trail_from_all k st cs))"

definition getCurrentTrail :: "tracing_config \<Rightarrow> nat \<Rightarrow> tracing \<Rightarrow> trail_entry list option" where
  "getCurrentTrail cfg m st = (case getActiveTrace m st of
       None \<Rightarrow> Some []
     | Some t \<Rightarrow> (case tr_rootSpan (ts_traces st t) of
           None \<Rightarrow> Some []
         | Some r \<Rightarrow> map_option (sort_key te_date) (trail_from (stack_depth cfg) st r)))"

section \<open>The kernel and the event pipeline\<close>

text \<open>The manager of the root container has the number 0. \<open>handle\<close> starts a trace outside every
  event context, runs the pipeline, and then ends the active trace.\<close>

definition handle_begin :: "tracing_config \<Rightarrow> nat option \<Rightarrow> tracing \<Rightarrow> tracing option" where
  "handle_begin cfg initialization st =
     Option.bind (startTracing cfg 0 root_execution None [] st) (\<lambda>(s, st1).
       case initialization of
         None \<Rightarrow> Some st1
       | Some i \<Rightarrow>
           let st2 = (case Option.bind (ts_fallback st1 0) (\<lambda>t. tr_rootSpan (ts_traces st1 t)) of
               None \<Rightarrow> st1 | Some r \<Rightarrow> addChild r i st1) in
           Option.bind (addSpan cfg (stack_depth cfg) 0 i st2) (span_end cfg i))"

definition handle_end :: "tracing_config \<Rightarrow> tracing \<Rightarrow> tracing option" where
  "handle_end cfg st = endTrace cfg (stack_depth cfg) 0 st"

text \<open>\<open>runWithEventContext\<close> installs a context with the trace the root manager has at that moment.\<close>

definition enter_event :: "tracing \<Rightarrow> nat \<times> tracing" where
  "enter_event st = (let c = ts_context_count st; tr = ts_fallback st 0 in
     (c, st\<lparr>ts_context_count := Suc c, ts_current := Some c,
        ts_contexts := (ts_contexts st)(c :=
          \<lparr>ec_trace = tr, ec_traceId = map_option (\<lambda>t. tr_id (ts_traces st t)) tr\<rparr>)\<rparr>))"

definition resume_in :: "nat option \<Rightarrow> tracing \<Rightarrow> tracing" where
  "resume_in c st = st\<lparr>ts_current := c\<rparr>"

end
