(* ===== verification/Tracing_Properties.thy ===== *)
theory Tracing_Properties
  imports Tracing
begin

text \<open>
  What the tracing manager guarantees: ending a span or a trace returns and closes everything
  below it, every span and trace is reported ended exactly once, and what goes wrong when two
  calls of \<open>handle\<close> overlap.
\<close>

section \<open>Updates of the stores\<close>

lemma upd_span_simps [simp]:
  "ts_spans (upd_span s f st) x = (if x = s then f (ts_spans st s) else ts_spans st x)"
  "ts_span_count (upd_span s f st) = ts_span_count st" "ts_traces (upd_span s f st) = ts_traces st"
  "ts_trace_count (upd_span s f st) = ts_trace_count st" "ts_stream (upd_span s f st) = ts_stream st"
  "ts_current (upd_span s f st) = ts_current st" "ts_contexts (upd_span s f st) = ts_contexts st"
  "ts_fallback (upd_span s f st) = ts_fallback st" "ts_clock (upd_span s f st) = ts_clock st"
  "ts_context_count (upd_span s f st) = ts_context_count st"
  by (simp_all add: upd_span_def)

lemma upd_trace_simps [simp]:
  "ts_traces (upd_trace t f st) x = (if x = t then f (ts_traces st t) else ts_traces st x)"
  "ts_span_count (upd_trace t f st) = ts_span_count st" "ts_spans (upd_trace t f st) = ts_spans st"
  "ts_trace_count (upd_trace t f st) = ts_trace_count st" "ts_stream (upd_trace t f st) = ts_stream st"
  "ts_current (upd_trace t f st) = ts_current st" "ts_contexts (upd_trace t f st) = ts_contexts st"
  "ts_fallback (upd_trace t f st) = ts_fallback st" "ts_clock (upd_trace t f st) = ts_clock st"
  "ts_context_count (upd_trace t f st) = ts_context_count st"
  by (simp_all add: upd_trace_def)

lemma to_tracers_simps [simp]:
  "ts_spans (to_tracers e st) = ts_spans st" "ts_traces (to_tracers e st) = ts_traces st"
  "ts_span_count (to_tracers e st) = ts_span_count st" "ts_trace_count (to_tracers e st) = ts_trace_count st"
  "ts_stream (to_tracers e st) = ts_stream st @ [e]" "ts_current (to_tracers e st) = ts_current st"
  "ts_contexts (to_tracers e st) = ts_contexts st" "ts_fallback (to_tracers e st) = ts_fallback st"
  "ts_clock (to_tracers e st) = ts_clock st" "ts_context_count (to_tracers e st) = ts_context_count st"
  by (simp_all add: to_tracers_def)

abbreviation running :: "tracing \<Rightarrow> nat \<Rightarrow> bool" where
  "running st s \<equiv> sp_inProgress (ts_spans st s)"

abbreviation ended :: "tracing \<Rightarrow> nat \<Rightarrow> bool" where
  "ended st t \<equiv> tr_hasEnded (ts_traces st t)"

lemma stamp_end_simps [simp]:
  "running (stamp_end s st) x = running st x" "ended (stamp_end s st) t = ended st t"
  "ts_stream (stamp_end s st) = ts_stream st"
  by (simp_all add: stamp_end_def)

lemma getActiveTrace_cong:
  "ts_current st' = ts_current st \<Longrightarrow> ts_contexts st' = ts_contexts st \<Longrightarrow> ts_fallback st' = ts_fallback st \<Longrightarrow>
     getActiveTrace m st' = getActiveTrace m st"
  by (simp add: getActiveTrace_def split: option.splits)

section \<open>What ending does\<close>

text \<open>What stays the same while spans and traces end.\<close>

definition shape :: "tracing \<Rightarrow> (nat \<Rightarrow> nat list) \<times> (nat \<Rightarrow> nat option) \<times> nat \<times> nat \<times> nat option \<times>
    (nat \<Rightarrow> event_context) \<times> (nat \<Rightarrow> nat option)" where
  "shape st = (\<lambda>s. sp_children (ts_spans st s), \<lambda>t. tr_rootSpan (ts_traces st t), ts_span_count st,
     ts_trace_count st, ts_current st, ts_contexts st, ts_fallback st)"

lemma shape_simps [simp]:
  "shape (to_tracers e st) = shape st" "shape (stamp_end s st) = shape st"
  "shape (upd_span s (\<lambda>sp. sp\<lparr>sp_inProgress := b\<rparr>) st) = shape st"
  "shape (upd_trace t (\<lambda>tr. tr\<lparr>tr_endDate := d, tr_hasEnded := b\<rparr>) st) = shape st"
  by (auto simp: shape_def stamp_end_def)

lemma shape_children: "shape st' = shape st \<Longrightarrow> sp_children (ts_spans st' s) = sp_children (ts_spans st s)"
  by (simp add: shape_def fun_eq_iff)

lemma shape_active: "shape st' = shape st \<Longrightarrow> getActiveTrace m st' = getActiveTrace m st"
  by (auto simp: shape_def intro: getActiveTrace_cong)

lemma shape_root: "shape st' = shape st \<Longrightarrow> tr_rootSpan (ts_traces st' t) = tr_rootSpan (ts_traces st t)"
  by (simp add: shape_def fun_eq_iff)

text \<open>The events a stretch of the stream must hold, for the flags before and after it.\<close>

definition reports :: "tracing_config \<Rightarrow> (nat \<Rightarrow> bool) \<Rightarrow> (nat \<Rightarrow> bool) \<Rightarrow> (nat \<Rightarrow> bool) \<Rightarrow> (nat \<Rightarrow> bool) \<Rightarrow>
    tracer_event list \<Rightarrow> bool" where
  "reports cfg run run' over over' new \<longleftrightarrow>
     (\<forall>s. count_list new (Span_Ended s) = of_bool (tracing_active cfg \<and> run s \<and> \<not> run' s)) \<and>
     (\<forall>t. count_list new (Trace_Ended t) = of_bool (tracing_active cfg \<and> \<not> over t \<and> over' t)) \<and>
     (\<forall>s. Span_Started s \<notin> set new \<and> Trace_Started s \<notin> set new)"

lemma reports_append:
  assumes "reports cfg run run1 over over1 xs" and "reports cfg run1 run2 over1 over2 ys"
    and "\<And>s. run1 s \<Longrightarrow> run s" "\<And>s. run2 s \<Longrightarrow> run1 s" "\<And>t. over t \<Longrightarrow> over1 t" "\<And>t. over1 t \<Longrightarrow> over2 t"
  shows "reports cfg run run2 over over2 (xs @ ys)"
proof -
  have "of_bool (tracing_active cfg \<and> run s \<and> \<not> run1 s) + of_bool (tracing_active cfg \<and> run1 s \<and> \<not> run2 s) =
      (of_bool (tracing_active cfg \<and> run s \<and> \<not> run2 s) :: nat)" for s
    using assms(3,4) [of s] by auto
  moreover have "of_bool (tracing_active cfg \<and> \<not> over t \<and> over1 t) + of_bool (tracing_active cfg \<and> \<not> over1 t \<and> over2 t) =
      (of_bool (tracing_active cfg \<and> \<not> over t \<and> over2 t) :: nat)" for t
    using assms(5,6) [of t] by auto
  ultimately show ?thesis using assms(1,2) by (simp add: reports_def)
qed

text \<open>Between two states only spans and traces ended, and each of them was reported once.\<close>

definition only_ends :: "tracing_config \<Rightarrow> tracing \<Rightarrow> tracing \<Rightarrow> bool" where
  "only_ends cfg st st' \<longleftrightarrow>
     (\<forall>s. running st' s \<longrightarrow> running st s) \<and> (\<forall>t. ended st t \<longrightarrow> ended st' t) \<and> shape st' = shape st \<and>
     (\<exists>new. ts_stream st' = ts_stream st @ new \<and>
        reports cfg (running st) (running st') (ended st) (ended st') new)"

lemma only_endsE:
  assumes "only_ends cfg st st'"
  obtains new where "ts_stream st' = ts_stream st @ new"
    "reports cfg (running st) (running st') (ended st) (ended st') new"
    "\<And>s. running st' s \<Longrightarrow> running st s" "\<And>t. ended st t \<Longrightarrow> ended st' t" "shape st' = shape st"
  using assms unfolding only_ends_def by blast

lemma only_endsI:
  assumes "ts_stream st' = ts_stream st @ new"
    "reports cfg (running st) (running st') (ended st) (ended st') new"
    "\<And>s. running st' s \<Longrightarrow> running st s" "\<And>t. ended st t \<Longrightarrow> ended st' t" "shape st' = shape st"
  shows "only_ends cfg st st'"
  using assms unfolding only_ends_def by blast

text \<open>What ended has no running child.\<close>

definition closes :: "tracing \<Rightarrow> tracing \<Rightarrow> bool" where
  "closes st st' \<longleftrightarrow> (\<forall>s. running st s \<and> \<not> running st' s \<longrightarrow>
     (\<forall>c\<in>set (sp_children (ts_spans st s)). \<not> running st' c))"

lemma only_ends_refl [simp]: "only_ends cfg st st"
  by (rule only_endsI [where new = "[]"]) (simp_all add: reports_def)

lemma only_ends_trans:
  assumes "only_ends cfg st1 st2" and "only_ends cfg st2 st3"
  shows "only_ends cfg st1 st3"
proof -
  from assms(1) obtain n1 where n1: "ts_stream st2 = ts_stream st1 @ n1"
    "reports cfg (running st1) (running st2) (ended st1) (ended st2) n1"
    "\<And>s. running st2 s \<Longrightarrow> running st1 s" "\<And>t. ended st1 t \<Longrightarrow> ended st2 t" "shape st2 = shape st1"
    by (erule only_endsE)
  from assms(2) obtain n2 where n2: "ts_stream st3 = ts_stream st2 @ n2"
    "reports cfg (running st2) (running st3) (ended st2) (ended st3) n2"
    "\<And>s. running st3 s \<Longrightarrow> running st2 s" "\<And>t. ended st2 t \<Longrightarrow> ended st3 t" "shape st3 = shape st2"
    by (erule only_endsE)
  show ?thesis
  proof (rule only_endsI)
    show "ts_stream st3 = ts_stream st1 @ (n1 @ n2)" using n1(1) n2(1) by simp
    show "reports cfg (running st1) (running st3) (ended st1) (ended st3) (n1 @ n2)"
      by (rule reports_append [OF n1(2) n2(2) n1(3) n2(3) n1(4) n2(4)])
    show "running st1 s" if "running st3 s" for s using n1(3) n2(3) that by blast
    show "ended st3 t" if "ended st1 t" for t using n1(4) n2(4) that by blast
    show "shape st3 = shape st1" using n1(5) n2(5) by simp
  qed
qed

lemma only_ends_children:
  "only_ends cfg st st' \<Longrightarrow> sp_children (ts_spans st' s) = sp_children (ts_spans st s)"
  by (erule only_endsE) (rule shape_children)

lemma only_ends_mono: "only_ends cfg st st' \<Longrightarrow> running st' s \<Longrightarrow> running st s"
  by (erule only_endsE)

lemma closes_refl [simp]: "closes st st"
  by (simp add: closes_def)

lemma closes_trans:
  assumes "closes st1 st2" and "closes st2 st3" and "only_ends cfg st1 st2" and "only_ends cfg st2 st3"
  shows "closes st1 st3"
  unfolding closes_def
proof (intro allI impI ballI)
  fix s c assume s: "running st1 s \<and> \<not> running st3 s" and c: "c \<in> set (sp_children (ts_spans st1 s))"
  show "\<not> running st3 c"
  proof (cases "running st2 s")
    case True
    then show ?thesis using assms(2) s c only_ends_children [OF assms(3), of s] by (auto simp: closes_def)
  next
    case False
    then have "\<not> running st2 c" using assms(1) s c by (auto simp: closes_def)
    then show ?thesis using only_ends_mono [OF assms(4)] by blast
  qed
qed

text \<open>Ending one span: the flag, then what happens below, then the report.\<close>

lemma only_ends_span:
  assumes run: "running st s" and below: "only_ends cfg (upd_span s (\<lambda>sp. sp\<lparr>sp_inProgress := False\<rparr>) st) st1"
  defines "st2 \<equiv> if tracing_active cfg then to_tracers (Span_Ended s) (stamp_end s st1) else stamp_end s st1"
  shows "only_ends cfg st st2" and "\<not> running st2 s" and "\<And>x. running st2 x = running st1 x"
proof -
  let ?st0 = "upd_span s (\<lambda>sp. sp\<lparr>sp_inProgress := False\<rparr>) st"
  from below obtain new where new: "ts_stream st1 = ts_stream ?st0 @ new"
    "reports cfg (running ?st0) (running st1) (ended ?st0) (ended st1) new"
    "\<And>x. running st1 x \<Longrightarrow> running ?st0 x" "\<And>t. ended ?st0 t \<Longrightarrow> ended st1 t" "shape st1 = shape ?st0"
    by (erule only_endsE)
  have flags: "running st2 x = running st1 x" "ended st2 t = ended st1 t" for x t
    by (simp_all add: st2_def stamp_end_def)
  have dead: "\<not> running st1 s" using new(3) [of s] by auto
  let ?rep = "if tracing_active cfg then [Span_Ended s] else []"
  show "only_ends cfg st st2"
  proof (rule only_endsI)
    show "ts_stream st2 = ts_stream st @ (new @ ?rep)"
      using new(1) by (simp add: st2_def stamp_end_def)
    show "reports cfg (running st) (running st2) (ended st) (ended st2) (new @ ?rep)"
      using new(2) run dead unfolding reports_def flags by auto
    show "running st x" if "running st2 x" for x
      using new(3) [of x] that flags by (simp split: if_splits)
    show "ended st2 t" if "ended st t" for t using new(4) [of t] that flags by simp
    show "shape st2 = shape st" using new(5) by (simp add: st2_def)
  qed
  show "\<not> running st2 s" "\<And>x. running st2 x = running st1 x" using flags dead by simp_all
qed

lemma only_ends_trace:
  assumes open_trace: "\<not> ended st t"
    and below: "only_ends cfg (upd_trace t (\<lambda>tr. tr\<lparr>tr_endDate := d, tr_hasEnded := True\<rparr>) st) st1"
  shows "only_ends cfg st (if tracing_active cfg then to_tracers (Trace_Ended t) st1 else st1)"
proof -
  let ?st0 = "upd_trace t (\<lambda>tr. tr\<lparr>tr_endDate := d, tr_hasEnded := True\<rparr>) st"
  let ?st2 = "if tracing_active cfg then to_tracers (Trace_Ended t) st1 else st1"
  from below obtain new where new: "ts_stream st1 = ts_stream ?st0 @ new"
    "reports cfg (running ?st0) (running st1) (ended ?st0) (ended st1) new"
    "\<And>x. running st1 x \<Longrightarrow> running ?st0 x" "\<And>t. ended ?st0 t \<Longrightarrow> ended st1 t" "shape st1 = shape ?st0"
    by (erule only_endsE)
  have dead: "ended st1 t" using new(4) [of t] by auto
  let ?rep = "if tracing_active cfg then [Trace_Ended t] else []"
  show ?thesis
  proof (rule only_endsI)
    show "ts_stream ?st2 = ts_stream st @ (new @ ?rep)" using new(1) by simp
    show "reports cfg (running st) (running ?st2) (ended st) (ended ?st2) (new @ ?rep)"
      using new(2) open_trace dead unfolding reports_def by auto
    show "running st x" if "running ?st2 x" for x using new(3) [of x] that by (simp split: if_splits)
    show "ended ?st2 x" if "ended st x" for x using new(4) [of x] that by (simp split: if_splits)
    show "shape ?st2 = shape st" using new(5) by simp
  qed
qed

lemma ending_only_ends:
  "endSpan cfg k m s st = Some st' \<Longrightarrow> only_ends cfg st st' \<and> closes st st' \<and> \<not> running st' s"
  "end_spans cfg k m cs st = Some st' \<Longrightarrow> only_ends cfg st st' \<and> closes st st' \<and> (\<forall>c\<in>set cs. \<not> running st' c)"
  "endTrace cfg k m st = Some st' \<Longrightarrow> only_ends cfg st st' \<and> closes st st'"
proof (induction cfg k m s st and cfg k m cs st and cfg k m st arbitrary: st' and st' and st'
    rule: endSpan_end_spans_endTrace.induct)
  case (2 cfg k m s st)
  show ?case
  proof (cases "running st s")
    case False
    with 2 show ?thesis by simp
  next
    case True
    let ?st0 = "upd_span s (\<lambda>sp. sp\<lparr>sp_inProgress := False\<rparr>) st"
    obtain st1 where st1: "end_spans cfg k m (sp_children (ts_spans st s)) ?st0 = Some st1"
      using 2(3) True by (auto simp: bind_eq_Some_conv)
    let ?st2 = "if tracing_active cfg then to_tracers (Span_Ended s) (stamp_end s st1) else stamp_end s st1"
    have ih: "only_ends cfg ?st0 st1" "closes ?st0 st1" "\<forall>c\<in>set (sp_children (ts_spans st s)). \<not> running st1 c"
      using 2(1) [OF _ st1] True by auto
    note own = only_ends_span [OF True ih(1)]
    have close: "closes st ?st2"
      unfolding closes_def
    proof (intro allI impI ballI)
      fix x c assume x: "running st x \<and> \<not> running ?st2 x" and c: "c \<in> set (sp_children (ts_spans st x))"
      show "\<not> running ?st2 c"
      proof (cases "x = s")
        case True
        then show ?thesis using ih(3) c own(3) by simp
      next
        case False
        then have "running ?st0 x \<and> \<not> running st1 x" "c \<in> set (sp_children (ts_spans ?st0 x))"
          using x c own(3) [of x] by simp_all
        then have "\<not> running st1 c" using ih(2) unfolding closes_def by blast
        then show ?thesis using own(3) [of c] by simp
      qed
    qed
    show ?thesis
    proof (cases "tracing_active cfg \<and> is_root_keyname m s ?st2")
      case False
      with 2(3) True st1 have "st' = ?st2" by (auto simp: Let_def split: if_splits)
      with own close show ?thesis by simp
    next
      case root: True
      let ?st3 = "to_tracers (Span_Ended s) (stamp_end s st1)"
      have active: "tracing_active cfg" using root by blast
      then have eq: "?st2 = ?st3" by simp
      have rk: "is_root_keyname m s ?st3" using root unfolding eq by blast
      have t: "endTrace cfg k m ?st3 = Some st'"
        using 2(3) True st1 active rk by (simp add: Let_def)
      have "only_ends cfg ?st3 st' \<and> closes ?st3 st'"
        using True active by (intro 2(2) [OF _ st1 refl _ refl rk t]) simp_all
      then have "only_ends cfg ?st2 st' \<and> closes ?st2 st'" unfolding eq .
      then show ?thesis
        using only_ends_trans [OF own(1)] closes_trans [OF close _ own(1)] only_ends_mono own(2) by blast
    qed
  qed
next
  case (4 cfg k m c cs st)
  then obtain st1 where st1: "endSpan cfg k m c st = Some st1" "end_spans cfg k m cs st1 = Some st'"
    by (auto simp: bind_eq_Some_conv)
  have a: "only_ends cfg st st1 \<and> closes st st1 \<and> \<not> running st1 c" by (rule 4(1) [OF st1(1)])
  have b: "only_ends cfg st1 st' \<and> closes st1 st' \<and> (\<forall>c\<in>set cs. \<not> running st' c)"
    by (rule 4(2) [OF st1])
  from a b show ?case
    using only_ends_trans [of cfg st st1 st'] closes_trans [of st st1 st' cfg] only_ends_mono [of cfg st1 st' c] by auto
next
  case (6 cfg k m st)
  show ?case
  proof (cases "getActiveTrace m st")
    case None
    with 6 show ?thesis by simp
  next
    case (Some t)
    show ?thesis
    proof (cases "ended st t")
      case True
      with 6 Some show ?thesis by simp
    next
      case False
      let ?st1 = "upd_trace t (\<lambda>tr. tr\<lparr>tr_endDate := Some (ts_clock st), tr_hasEnded := True\<rparr>) st"
      obtain st2 where st2: "(case tr_rootSpan (ts_traces ?st1 t) of None \<Rightarrow> Some ?st1 | Some r \<Rightarrow> endSpan cfg k m r ?st1) = Some st2"
        and st': "st' = (if tracing_active cfg then to_tracers (Trace_Ended t) st2 else st2)"
        using 6(2) Some False by (auto simp: Let_def bind_eq_Some_conv)
      have below: "only_ends cfg ?st1 st2 \<and> closes ?st1 st2"
      proof (cases "tr_rootSpan (ts_traces ?st1 t)")
        case None
        with st2 show ?thesis by simp
      next
        case (Some r)
        with st2 have "endSpan cfg k m r ?st1 = Some st2" by simp
        from 6(1) [OF \<open>getActiveTrace m st = Some t\<close> False refl Some this] show ?thesis by simp
      qed
      have "only_ends cfg st st'"
        unfolding st' by (rule only_ends_trace [OF False conjunct1 [OF below]])
      moreover have "closes st st'"
        using conjunct2 [OF below] unfolding st' by (simp add: closes_def)
      ultimately show ?thesis by blast
    qed
  qed
qed simp_all


section \<open>Ending returns\<close>

text \<open>Enough stack: a level for every span and trace that is still open, and one more.\<close>

definition open_objects :: "tracing \<Rightarrow> nat" where
  "open_objects st = card {s. running st s} + card {t. \<not> ended st t}"

definition finite_store :: "tracing \<Rightarrow> bool" where
  "finite_store st \<longleftrightarrow> finite {s. running st s} \<and> finite {t. \<not> ended st t}"

lemma only_ends_open:
  assumes "only_ends cfg st st'" and "finite_store st"
  shows "finite_store st' \<and> open_objects st' \<le> open_objects st"
proof -
  have sub: "{s. running st' s} \<subseteq> {s. running st s}" "{t. \<not> ended st' t} \<subseteq> {t. \<not> ended st t}"
    using assms(1) by (auto elim: only_endsE)
  then show ?thesis
    using assms(2) unfolding finite_store_def open_objects_def
    by (meson add_mono card_mono finite_subset)
qed

lemma open_span_flag:
  assumes "running st s" and "finite_store st"
  shows "finite_store (upd_span s (\<lambda>sp. sp\<lparr>sp_inProgress := False\<rparr>) st) \<and>
    open_objects (upd_span s (\<lambda>sp. sp\<lparr>sp_inProgress := False\<rparr>) st) < open_objects st"
proof -
  have flags: "{x. running (upd_span s (\<lambda>sp. sp\<lparr>sp_inProgress := False\<rparr>) st) x} = {x. running st x} - {s}"
    by auto
  have "card ({x. running st x} - {s}) < card {x. running st x}"
    using assms by (intro card_Diff1_less) (simp_all add: finite_store_def)
  then show ?thesis
    using assms(2) unfolding finite_store_def open_objects_def flags by simp
qed

lemma open_trace_flag:
  assumes "\<not> ended st t" and "finite_store st"
  shows "finite_store (upd_trace t (\<lambda>tr. tr\<lparr>tr_endDate := d, tr_hasEnded := True\<rparr>) st) \<and>
    open_objects (upd_trace t (\<lambda>tr. tr\<lparr>tr_endDate := d, tr_hasEnded := True\<rparr>) st) < open_objects st"
proof -
  have flags: "{x. \<not> ended (upd_trace t (\<lambda>tr. tr\<lparr>tr_endDate := d, tr_hasEnded := True\<rparr>) st) x} = {x. \<not> ended st x} - {t}"
    by auto
  have "card ({x. \<not> ended st x} - {t}) < card {x. \<not> ended st x}"
    using assms by (intro card_Diff1_less) (simp_all add: finite_store_def)
  then show ?thesis
    using assms(2) unfolding finite_store_def open_objects_def flags by simp
qed

lemma ending_returns:
  "finite_store st \<Longrightarrow> open_objects st < k \<Longrightarrow> \<exists>st'. endSpan cfg k m s st = Some st'"
  "finite_store st \<Longrightarrow> open_objects st < k \<Longrightarrow> \<exists>st'. end_spans cfg k m cs st = Some st'"
  "finite_store st \<Longrightarrow> open_objects st < k \<Longrightarrow> \<exists>st'. endTrace cfg k m st = Some st'"
proof (induction cfg k m s st and cfg k m cs st and cfg k m st rule: endSpan_end_spans_endTrace.induct)
  case (2 cfg k m s st)
  show ?case
  proof (cases "running st s")
    case False
    then show ?thesis by simp
  next
    case True
    let ?st0 = "upd_span s (\<lambda>sp. sp\<lparr>sp_inProgress := False\<rparr>) st"
    have st0: "finite_store ?st0" "open_objects ?st0 < k"
      using open_span_flag [OF True 2(3)] 2(4) by simp_all
    then obtain st1 where st1: "end_spans cfg k m (sp_children (ts_spans st s)) ?st0 = Some st1"
      using 2(1) True by blast
    have ends: "only_ends cfg ?st0 st1" using ending_only_ends(2) [OF st1] by blast
    let ?st3 = "to_tracers (Span_Ended s) (stamp_end s st1)"
    have "finite_store st1" "open_objects st1 < k"
      using only_ends_open [OF ends st0(1)] st0(2) by auto
    then have "finite_store ?st3" "open_objects ?st3 < k"
      by (simp_all add: finite_store_def open_objects_def)
    then have "\<exists>st'. endTrace cfg k m ?st3 = Some st'" if "tracing_active cfg" "is_root_keyname m s ?st3"
      using that True by (intro 2(2) [OF _ st1 refl _ refl]) simp_all
    then show ?thesis using True st1 by (auto simp: Let_def)
  qed
next
  case (4 cfg k m c cs st)
  then obtain st1 where st1: "endSpan cfg k m c st = Some st1" by blast
  have ends: "only_ends cfg st st1" using ending_only_ends(1) [OF st1] by blast
  have "\<exists>st'. end_spans cfg k m cs st1 = Some st'"
    using only_ends_open [OF ends 4(3)] 4(4) by (intro 4(2) [OF st1]) simp_all
  then show ?case using st1 by simp
next
  case (6 cfg k m st)
  show ?case
  proof (cases "getActiveTrace m st")
    case None
    then show ?thesis by simp
  next
    case (Some t)
    show ?thesis
    proof (cases "ended st t")
      case True
      with Some show ?thesis by simp
    next
      case False
      let ?st1 = "upd_trace t (\<lambda>tr. tr\<lparr>tr_endDate := Some (ts_clock st), tr_hasEnded := True\<rparr>) st"
      have st1: "finite_store ?st1" "open_objects ?st1 < k"
        using open_trace_flag [OF False 6(2), of "Some (ts_clock st)"] 6(3) by linarith+
      then have "\<exists>st'. endSpan cfg k m r ?st1 = Some st'" if "tr_rootSpan (ts_traces ?st1 t) = Some r" for r
        using that by (intro 6(1) [OF Some False refl _ st1])
      then show ?thesis
        using Some False by (auto simp: Let_def split: option.splits)
    qed
  qed
qed auto


section \<open>Every end is reported once\<close>

text \<open>In every state a span or a trace that exists and is over was reported over exactly once, and
  nothing else was.\<close>

definition ends_reported :: "tracing_config \<Rightarrow> tracing \<Rightarrow> bool" where
  "ends_reported cfg st \<longleftrightarrow>
     (\<forall>s. count_list (ts_stream st) (Span_Ended s) = of_bool (tracing_active cfg \<and> s < ts_span_count st \<and> \<not> running st s)) \<and>
     (\<forall>t. count_list (ts_stream st) (Trace_Ended t) = of_bool (tracing_active cfg \<and> t < ts_trace_count st \<and> ended st t)) \<and>
     (\<forall>s\<ge>ts_span_count st. \<not> running st s) \<and> (\<forall>t\<ge>ts_trace_count st. ended st t)"

lemma ends_reported_finite: "ends_reported cfg st \<Longrightarrow> finite_store st"
proof -
  assume a: "ends_reported cfg st"
  have "{s. running st s} \<subseteq> {..<ts_span_count st}" "{t. \<not> ended st t} \<subseteq> {..<ts_trace_count st}"
    using a by (auto simp: ends_reported_def not_le [symmetric])
  then show ?thesis unfolding finite_store_def by (meson finite_lessThan finite_subset)
qed

text \<open>Steps that end nothing and make nothing.\<close>

definition quiet :: "tracing \<Rightarrow> tracing \<Rightarrow> bool" where
  "quiet st st' \<longleftrightarrow> (\<forall>x. running st' x = running st x \<and> ended st' x = ended st x) \<and>
     ts_span_count st' = ts_span_count st \<and> ts_trace_count st' = ts_trace_count st \<and>
     (\<forall>x. count_list (ts_stream st') (Span_Ended x) = count_list (ts_stream st) (Span_Ended x) \<and>
        count_list (ts_stream st') (Trace_Ended x) = count_list (ts_stream st) (Trace_Ended x))"

lemma quiet_refl [simp]: "quiet st st"
  by (simp add: quiet_def)

lemma quiet_trans: "quiet st1 st2 \<Longrightarrow> quiet st2 st3 \<Longrightarrow> quiet st1 st3"
  by (simp add: quiet_def)

lemma reported_quiet: "ends_reported cfg st \<Longrightarrow> quiet st st' \<Longrightarrow> ends_reported cfg st'"
  by (simp add: ends_reported_def quiet_def)

lemma quiet_upd_span: "(\<And>sp. sp_inProgress (f sp) = sp_inProgress sp) \<Longrightarrow> quiet st (upd_span s f st)"
  by (simp add: quiet_def)

lemma quiet_upd_trace: "(\<And>tr. tr_hasEnded (f tr) = tr_hasEnded tr) \<Longrightarrow> quiet st (upd_trace t f st)"
  by (simp add: quiet_def)

lemma quiet_writes [simp]:
  "quiet st (write_log sev msg st)" "quiet st (upd_context c g st)" "quiet st (setActiveTrace m t st)"
  "quiet st (mirror_trace_id i st)" "quiet st (to_tracers (Span_Started s) st)"
  "quiet st (to_tracers (Trace_Started t) st)" "quiet st (resume_in c' st)"
  by (auto simp: quiet_def write_log_def upd_context_def setActiveTrace_def mirror_trace_id_def resume_in_def
      Let_def split: option.splits)

lemma quiet_addChild [simp]: "quiet st (addChild p s st)"
proof -
  have "quiet st (upd_span p (\<lambda>sp. sp\<lparr>sp_children := sp_children sp @ [s]\<rparr>)
      (upd_span s (\<lambda>sp. sp\<lparr>sp_parent := Some p\<rparr>) st))"
    by (rule quiet_trans [OF quiet_upd_span quiet_upd_span]) simp_all
  then show ?thesis by (simp add: addChild_def)
qed

lemma quiet_attach: "quiet st (attach_span cfg m t s st)"
proof -
  let ?st1 = "upd_span s (\<lambda>sp. sp\<lparr>sp_manager := Some m, sp_trace := Some t\<rparr>) st"
  let ?st2 = "upd_trace t (index_span (sp_keyname (ts_spans ?st1 s)) s) ?st1"
  have "quiet st ?st1" by (rule quiet_upd_span) simp
  moreover have "quiet ?st1 ?st2" by (rule quiet_upd_trace) (simp add: index_span_def)
  ultimately have own: "quiet st ?st2" by (rule quiet_trans)
  have "quiet st (to_tracers (Span_Started s) ?st2)" by (rule quiet_trans [OF own quiet_writes(5)])
  with own show ?thesis
    unfolding attach_span_def Let_def by (cases "tracing_active cfg") (simp_all only: if_True if_False)
qed

lemma quiet_addSpan:
  "addSpan cfg k m s st = Some st' \<Longrightarrow> quiet st st'"
  "add_spans cfg k m cs st = Some st' \<Longrightarrow> quiet st st'"
proof (induction cfg k m s st and cfg k m cs st arbitrary: st' and st' rule: addSpan_add_spans.induct)
  case (2 cfg k m s st)
  show ?case
  proof (cases "getActiveTrace m st")
    case None
    with 2 show ?thesis by auto
  next
    case (Some t)
    show ?thesis
    proof (cases "tracing_active cfg")
      case False
      with 2(2) Some show ?thesis by (auto simp: Let_def quiet_attach)
    next
      case True
      with 2(2) Some have "add_spans cfg k m (sp_children (ts_spans (attach_span cfg m t s st) s))
          (attach_span cfg m t s st) = Some st'" by (simp add: Let_def)
      then have "quiet (attach_span cfg m t s st) st'"
        using 2(1) [OF Some refl] True by simp
      with quiet_attach show ?thesis by (rule quiet_trans)
    qed
  qed
next
  case (4 cfg k m c cs st)
  then obtain st1 where st1: "addSpan cfg k m c st = Some st1" "add_spans cfg k m cs st1 = Some st'"
    by (auto simp: bind_eq_Some_conv)
  show ?case by (rule quiet_trans [OF 4(1) [OF st1(1)] 4(2) [OF st1]])
qed simp_all

lemma reported_new_span:
  assumes "ends_reported cfg st" and "new_span cfg k i c st = (s, st')"
  shows "ends_reported cfg st'"
proof -
  have "s = ts_span_count st" "ts_span_count st' = Suc s" "ts_trace_count st' = ts_trace_count st"
    "ts_stream st' = ts_stream st" "ended st' x = ended st x" "running st' x = (x = s \<or> running st x)" for x
    using assms(2) by (auto simp: new_span_def Let_def split: if_splits)
  then show ?thesis using assms(1) unfolding ends_reported_def by (auto simp: less_Suc_eq not_less_eq_eq Suc_le_eq)
qed

lemma reported_new_trace:
  assumes "ends_reported cfg st" and "new_trace cfg i c st = (t, st')"
  shows "ends_reported cfg st'"
proof -
  have "t = ts_trace_count st" "ts_trace_count st' = Suc t" "ts_span_count st' = ts_span_count st"
    "ts_stream st' = ts_stream st" "running st' x = running st x" "ended st' x = (x \<noteq> t \<and> ended st x)" for x
    using assms(2) by (auto simp: new_trace_def Let_def split: if_splits)
  then show ?thesis using assms(1) unfolding ends_reported_def by (auto simp: less_Suc_eq Suc_le_eq)
qed

lemma reported_ends:
  assumes a: "ends_reported cfg st" and b: "only_ends cfg st st'"
  shows "ends_reported cfg st'"
proof -
  from b obtain new where new: "ts_stream st' = ts_stream st @ new"
    "reports cfg (running st) (running st') (ended st) (ended st') new"
    "\<And>s. running st' s \<Longrightarrow> running st s" "\<And>t. ended st t \<Longrightarrow> ended st' t" "shape st' = shape st"
    by (erule only_endsE)
  have n: "ts_span_count st' = ts_span_count st" "ts_trace_count st' = ts_trace_count st"
    using new(5) by (simp_all add: shape_def)
  have "of_bool (tracing_active cfg \<and> s < ts_span_count st \<and> \<not> running st s) +
      of_bool (tracing_active cfg \<and> running st s \<and> \<not> running st' s) =
      (of_bool (tracing_active cfg \<and> s < ts_span_count st \<and> \<not> running st' s) :: nat)" for s
    using new(3) [of s] a by (auto simp: ends_reported_def not_le [symmetric])
  moreover have "of_bool (tracing_active cfg \<and> t < ts_trace_count st \<and> ended st t) +
      of_bool (tracing_active cfg \<and> \<not> ended st t \<and> ended st' t) =
      (of_bool (tracing_active cfg \<and> t < ts_trace_count st \<and> ended st' t) :: nat)" for t
    using new(4) [of t] a by (auto simp: ends_reported_def not_le [symmetric])
  ultimately show ?thesis
    using a new(1-4) unfolding ends_reported_def reports_def n by auto
qed

lemma reported_startTracing:
  assumes "startTracing cfg m k i c st = Some (s, st')" and "ends_reported cfg st"
  shows "ends_reported cfg st'"
proof -
  obtain t st1 where t: "new_trace cfg i c st = (t, st1)" by fastforce
  let ?st2 = "setActiveTrace m t st1"
  obtain s' st3 where s: "new_span cfg k None c ?st2 = (s', st3)" by fastforce
  let ?st4 = "mirror_trace_id (tr_id (ts_traces st3 t)) st3"
  let ?st5 = "to_tracers (Trace_Started t) ?st4"
  let ?st6 = "upd_trace t (\<lambda>tr. tr\<lparr>tr_rootSpan := Some s'\<rparr>) ?st5"
  have "ends_reported cfg ?st2"
    using reported_quiet [OF reported_new_trace [OF assms(2) t]] by simp
  then have st4: "ends_reported cfg ?st4"
    using reported_quiet [OF reported_new_span [OF _ s]] by simp
  have "quiet ?st5 ?st6" by (rule quiet_upd_trace) simp
  then have "ends_reported cfg ?st6"
    using reported_quiet [OF reported_quiet [OF st4 quiet_writes(6)]] by blast
  note st6 = this
  show ?thesis
  proof (cases "tracing_active cfg")
    case False
    with assms(1) t s have "st' = ?st4" by (simp add: startTracing_def)
    with st4 show ?thesis by simp
  next
    case True
    with assms(1) t s have "addSpan cfg (stack_depth cfg) m s' ?st6 = Some st'"
      by (auto simp: startTracing_def Let_def)
    then show ?thesis using reported_quiet [OF st6] quiet_addSpan(1) by blast
  qed
qed

lemma reported_startSpan:
  assumes "startSpan cfg m k pk pid c st = Some (s, st')" and "ends_reported cfg st"
  shows "ends_reported cfg st'"
proof -
  obtain st1 where st1: "(if getActiveTrace m st = None then map_option snd (startTracing cfg m root_execution None c st)
      else Some st) = Some st1"
    using assms(1) by (auto simp: startSpan_def bind_eq_Some_conv)
  have r1: "ends_reported cfg st1"
    using st1 assms(2) reported_startTracing by (auto split: if_splits)
  obtain s' st2 where s: "new_span cfg k None c st1 = (s', st2)" by fastforce
  have r2: "ends_reported cfg st2" by (rule reported_new_span [OF r1 s])
  show ?thesis
  proof (cases "getActiveTrace m st2")
    case None
    with assms(1) st1 s have "st' = write_log Error ''Trace is undefined after startTracing; returning unattached span.'' st2"
      by (simp add: startSpan_def)
    then show ?thesis using reported_quiet [OF r2] by simp
  next
    case (Some t)
    let ?st3 = "upd_span s' (\<lambda>sp. sp\<lparr>sp_trace := Some t\<rparr>) st2"
    let ?st4 = "case resolve_parent (ts_traces ?st3 t) pk pid ?st3 of
        None \<Rightarrow> write_log Warning ''startSpan: no parent span available (rootSpan is undefined). Attaching as orphan.'' ?st3
      | Some p \<Rightarrow> addChild p s' ?st3"
    have "quiet st2 ?st3" by (rule quiet_upd_span) simp
    moreover have "quiet ?st3 ?st4" by (auto split: option.splits)
    ultimately have r4: "ends_reported cfg ?st4" using reported_quiet [OF r2] quiet_trans by blast
    have "addSpan cfg (stack_depth cfg) m s' ?st4 = Some st'"
      using assms(1) st1 s Some by (auto simp: startSpan_def Let_def)
    then show ?thesis using reported_quiet [OF r4] quiet_addSpan(1) by blast
  qed
qed


section \<open>All reachable states\<close>

text \<open>Any code may call the manager's methods, make spans of its own, and run in any context.\<close>

inductive tracing_step :: "tracing_config \<Rightarrow> tracing \<Rightarrow> tracing \<Rightarrow> bool" for cfg where
  step_startTracing: "startTracing cfg m k i c st = Some (s, st') \<Longrightarrow> tracing_step cfg st st'"
| step_startSpan: "startSpan cfg m k pk pid c st = Some (s, st') \<Longrightarrow> tracing_step cfg st st'"
| step_addSpan: "addSpan cfg (stack_depth cfg) m s st = Some st' \<Longrightarrow> tracing_step cfg st st'"
| step_new_span: "new_span cfg k i c st = (s, st') \<Longrightarrow> tracing_step cfg st st'"
| step_addChild: "tracing_step cfg st (addChild p s st)"
| step_stamp: "tracing_step cfg st (upd_span s (\<lambda>sp. sp\<lparr>sp_endDate := Some (ts_clock st)\<rparr>) st)"
| step_endSpan: "endSpan cfg (stack_depth cfg) m s st = Some st' \<Longrightarrow> tracing_step cfg st st'"
| step_span_end: "span_end cfg s st = Some st' \<Longrightarrow> tracing_step cfg st st'"
| step_endSpanKeyname: "endSpanKeyname cfg m k st = Some st' \<Longrightarrow> tracing_step cfg st st'"
| step_endTrace: "endTrace cfg (stack_depth cfg) m st = Some st' \<Longrightarrow> tracing_step cfg st st'"
| step_marker: "addMarkerToCurrentSpan cfg m msg atts st = Some st' \<Longrightarrow> tracing_step cfg st st'"
| step_continue: "tracing_step cfg st (continueTrace m i st)"
| step_context: "tracing_step cfg st (addToTraceContext m es st)"
| step_enter: "enter_event st = (c, st') \<Longrightarrow> tracing_step cfg st st'"
| step_resume: "tracing_step cfg st (resume_in c st)"
| step_clock: "tracing_step cfg st (st\<lparr>ts_clock := ts_clock st + n\<rparr>)"

definition no_span :: span where
  "no_span = \<lparr>sp_id = [], sp_keyname = [], sp_manager = None, sp_trace = None, sp_startDate = 0, sp_endDate = None,
     sp_parent = None, sp_children = [], sp_markers = [], sp_context = [], sp_inProgress = False\<rparr>"

definition no_trace :: trace where
  "no_trace = \<lparr>tr_id = [], tr_startDate = 0, tr_endDate = None, tr_rootSpan = None, tr_spansByKeyname = [],
     tr_context = [], tr_hasEnded = True\<rparr>"

definition start_tracing_state :: tracing where
  "start_tracing_state = \<lparr>ts_spans = \<lambda>s. no_span, ts_span_count = 0, ts_traces = \<lambda>t. no_trace, ts_trace_count = 0,
     ts_contexts = \<lambda>c. \<lparr>ec_trace = None, ec_traceId = None\<rparr>, ts_context_count = 0, ts_current = None,
     ts_fallback = \<lambda>m. None, ts_traceId = None, ts_stream = [], ts_log = [], ts_clock = 0\<rparr>"

definition reachable_tracing :: "tracing_config \<Rightarrow> tracing \<Rightarrow> bool" where
  "reachable_tracing cfg st \<longleftrightarrow> (tracing_step cfg)\<^sup>*\<^sup>* start_tracing_state st"

lemma start_reported: "ends_reported cfg start_tracing_state"
  by (simp add: ends_reported_def start_tracing_state_def no_span_def no_trace_def)

lemma reported_span_end: "span_end cfg s st = Some st' \<Longrightarrow> ends_reported cfg st \<Longrightarrow> ends_reported cfg st'"
  by (auto simp: span_end_def split: option.splits dest: ending_only_ends(1) intro: reported_ends)

lemma reported_keyname: "endSpanKeyname cfg m k st = Some st' \<Longrightarrow> ends_reported cfg st \<Longrightarrow> ends_reported cfg st'"
  by (auto simp: endSpanKeyname_def split: option.splits list.splits dest: ending_only_ends(1)
      intro: reported_ends reported_quiet)

lemma quiet_marker:
  assumes "addMarkerToCurrentSpan cfg m msg atts st = Some st'"
  shows "quiet st st'"
proof -
  obtain target where "st' = (case target of
         None \<Rightarrow> write_log Warning
           ''TracingManager.addMarkerToCurrentSpan called outside any active trace; marker dropped.'' st
       | Some s \<Rightarrow> upd_span s (\<lambda>sp. sp\<lparr>sp_markers := sp_markers sp @
           [\<lparr>mk_message = msg, mk_timestamp = ts_clock st, mk_attributes = atts\<rparr>]\<rparr>) st)"
    using assms unfolding addMarkerToCurrentSpan_def by blast
  then show ?thesis by (cases target) (simp_all add: quiet_upd_span)
qed

lemma quiet_trace_writes:
  "quiet st (continueTrace m i st)" "quiet st (addToTraceContext m es st)"
proof -
  have "quiet st (mirror_trace_id i (upd_trace t (\<lambda>tr. tr\<lparr>tr_id := i\<rparr>) st))" for t
    by (rule quiet_trans [OF quiet_upd_trace quiet_writes(4)]) simp
  then show "quiet st (continueTrace m i st)" by (simp add: continueTrace_def split: option.splits)
  show "quiet st (addToTraceContext m es st)"
    by (simp add: addToTraceContext_def quiet_upd_trace split: option.splits)
qed

lemma step_reported: "tracing_step cfg st st' \<Longrightarrow> ends_reported cfg st \<Longrightarrow> ends_reported cfg st'"
proof (induction rule: tracing_step.induct)
  case (step_startTracing m k i c st s st')
  then show ?case by (rule reported_startTracing)
next
  case (step_startSpan m k pk pid c st s st')
  then show ?case by (rule reported_startSpan)
next
  case (step_addSpan m s st st')
  show ?case by (rule reported_quiet [OF step_addSpan(2) quiet_addSpan(1) [OF step_addSpan(1)]])
next
  case (step_new_span k i c st s st')
  show ?case by (rule reported_new_span [OF step_new_span(2,1)])
next
  case (step_addChild st p s)
  show ?case by (rule reported_quiet [OF step_addChild quiet_addChild])
next
  case (step_stamp st s)
  then show ?case by (rule reported_quiet) (rule quiet_upd_span, simp)
next
  case (step_endSpan m s st st')
  show ?case by (rule reported_ends [OF step_endSpan(2) conjunct1 [OF ending_only_ends(1) [OF step_endSpan(1)]]])
next
  case (step_span_end s st st')
  then show ?case by (rule reported_span_end)
next
  case (step_endSpanKeyname m k st st')
  then show ?case by (rule reported_keyname)
next
  case (step_endTrace m st st')
  show ?case by (rule reported_ends [OF step_endTrace(2) conjunct1 [OF ending_only_ends(3) [OF step_endTrace(1)]]])
next
  case (step_marker m msg atts st st')
  show ?case by (rule reported_quiet [OF step_marker(2) quiet_marker [OF step_marker(1)]])
next
  case (step_continue st m i)
  show ?case by (rule reported_quiet [OF step_continue quiet_trace_writes(1)])
next
  case (step_context st m es)
  show ?case by (rule reported_quiet [OF step_context quiet_trace_writes(2)])
next
  case (step_enter st c st')
  then have "quiet st st'" by (auto simp: enter_event_def Let_def quiet_def)
  then show ?case by (rule reported_quiet [OF step_enter(2)])
next
  case (step_resume st c)
  show ?case by (rule reported_quiet [OF step_resume quiet_writes(7)])
next
  case (step_clock st n)
  then show ?case by (rule reported_quiet) (simp add: quiet_def)
qed

lemma reachable_reported: "reachable_tracing cfg st \<Longrightarrow> ends_reported cfg st"
  unfolding reachable_tracing_def
  by (induction rule: rtranclp_induct) (auto intro: start_reported step_reported)

text \<open>
  Claim C22. However spans and traces are started and ended, by whatever code in whatever event
  context, the tracers are told exactly once that a span or a trace ended, when it has ended, and
  never before.
\<close>

theorem ends_are_reported_once:
  assumes "reachable_tracing cfg st"
  shows "count_list (ts_stream st) (Span_Ended s) = of_bool (tracing_active cfg \<and> s < ts_span_count st \<and> \<not> running st s) \<and>
    count_list (ts_stream st) (Trace_Ended t) = of_bool (tracing_active cfg \<and> t < ts_trace_count st \<and> ended st t)"
  using reachable_reported [OF assms] by (simp add: ends_reported_def)

text \<open>
  Claim C23. Ending a span returns as long as the stack has a frame for each span and trace that is
  still open, whatever shape the tree has; afterwards the span is over, and so is every child of
  every span that ended with it.
\<close>

theorem ending_closes_the_tree:
  assumes "reachable_tracing cfg st" and "open_objects st < stack_depth cfg"
  shows "\<exists>st'. endSpan cfg (stack_depth cfg) m s st = Some st' \<and> \<not> running st' s \<and> closes st st' \<and>
    shape st' = shape st"
proof -
  obtain st' where st': "endSpan cfg (stack_depth cfg) m s st = Some st'"
    using ending_returns(1) [OF ends_reported_finite [OF reachable_reported [OF assms(1)]] assms(2)] by blast
  with ending_only_ends(1) [OF st'] show ?thesis by (auto elim: only_endsE)
qed

section \<open>Overlapping calls of handle\<close>

text \<open>Nothing but the active trace is ended.\<close>

lemma ends_active_trace:
  "endSpan cfg k m s st = Some st' \<Longrightarrow> ended st' t \<Longrightarrow> ended st t \<or> getActiveTrace m st = Some t"
  "end_spans cfg k m cs st = Some st' \<Longrightarrow> ended st' t \<Longrightarrow> ended st t \<or> getActiveTrace m st = Some t"
  "endTrace cfg k m st = Some st' \<Longrightarrow> ended st' t \<Longrightarrow> ended st t \<or> getActiveTrace m st = Some t"
proof (induction cfg k m s st and cfg k m cs st and cfg k m st arbitrary: st' and st' and st'
    rule: endSpan_end_spans_endTrace.induct)
  case (2 cfg k m s st)
  show ?case
  proof (cases "running st s")
    case False
    with 2 show ?thesis by simp
  next
    case True
    let ?st0 = "upd_span s (\<lambda>sp. sp\<lparr>sp_inProgress := False\<rparr>) st"
    obtain st1 where st1: "end_spans cfg k m (sp_children (ts_spans st s)) ?st0 = Some st1"
      using 2(3) True by (auto simp: bind_eq_Some_conv)
    have act: "getActiveTrace m ?st0 = getActiveTrace m st" "getActiveTrace m st1 = getActiveTrace m st"
      using ending_only_ends(2) [OF st1] by (auto elim!: only_endsE intro!: shape_active)
    have below: "ended st t \<or> getActiveTrace m st = Some t" if "ended st1 t"
      using 2(1) [OF _ st1 that] True act by simp
    let ?st3 = "to_tracers (Span_Ended s) (stamp_end s st1)"
    have a3: "getActiveTrace m ?st3 = getActiveTrace m st1" by (rule shape_active) simp
    show ?thesis
    proof (cases "tracing_active cfg \<and> is_root_keyname m s ?st3")
      case False
      with 2(3,4) True st1 below show ?thesis by (auto simp: Let_def split: if_splits)
    next
      case root: True
      with 2(3) True st1 have e: "endTrace cfg k m ?st3 = Some st'" by (simp add: Let_def)
      have "ended ?st3 t \<or> getActiveTrace m ?st3 = Some t"
        using root True by (intro 2(2) [OF _ st1 refl _ refl _ e 2(4)]) simp_all
      then show ?thesis using below act a3 by auto
    qed
  qed
next
  case (4 cfg k m c cs st)
  then obtain st1 where st1: "endSpan cfg k m c st = Some st1" "end_spans cfg k m cs st1 = Some st'"
    by (auto simp: bind_eq_Some_conv)
  have "getActiveTrace m st1 = getActiveTrace m st"
    using ending_only_ends(1) [OF st1(1)] by (auto elim!: only_endsE intro!: shape_active)
  then show ?case using 4(1) [OF st1(1)] 4(2) [OF st1 4(4)] by auto
next
  case (6 cfg k m st)
  show ?case
  proof (cases "getActiveTrace m st")
    case None
    with 6 show ?thesis by simp
  next
    case (Some u)
    show ?thesis
    proof (cases "ended st u")
      case True
      with 6 Some show ?thesis by simp
    next
      case False
      let ?st1 = "upd_trace u (\<lambda>tr. tr\<lparr>tr_endDate := Some (ts_clock st), tr_hasEnded := True\<rparr>) st"
      obtain st2 where st2: "(case tr_rootSpan (ts_traces ?st1 u) of None \<Rightarrow> Some ?st1 | Some r \<Rightarrow> endSpan cfg k m r ?st1) = Some st2"
        and st': "st' = (if tracing_active cfg then to_tracers (Trace_Ended u) st2 else st2)"
        using 6(2) Some False by (auto simp: Let_def bind_eq_Some_conv)
      have e2: "ended st2 t" using 6(3) st' by (simp split: if_splits)
      have act: "getActiveTrace m ?st1 = getActiveTrace m st" by (rule shape_active) simp
      have "ended ?st1 t \<or> getActiveTrace m ?st1 = Some t"
      proof (cases "tr_rootSpan (ts_traces ?st1 u)")
        case None
        with st2 e2 show ?thesis by simp
      next
        case (Some r)
        with st2 have "endSpan cfg k m r ?st1 = Some st2" by simp
        from 6(1) [OF \<open>getActiveTrace m st = Some u\<close> False refl Some this e2] show ?thesis .
      qed
      then show ?thesis using act Some by (auto split: if_splits)
    qed
  qed
qed simp_all

lemma endTrace_ends:
  assumes "endTrace cfg k m st = Some st'" and "getActiveTrace m st = Some t"
  shows "ended st' t"
proof (cases "ended st t")
  case True
  then show ?thesis using ending_only_ends(3) [OF assms(1)] by (auto elim: only_endsE)
next
  case False
  obtain k' where k: "k = Suc k'" using assms(1) by (cases k) auto
  let ?st1 = "upd_trace t (\<lambda>tr. tr\<lparr>tr_endDate := Some (ts_clock st), tr_hasEnded := True\<rparr>) st"
  obtain st2 where st2: "(case tr_rootSpan (ts_traces ?st1 t) of None \<Rightarrow> Some ?st1 | Some r \<Rightarrow> endSpan cfg k' m r ?st1) = Some st2"
    and st': "st' = (if tracing_active cfg then to_tracers (Trace_Ended t) st2 else st2)"
    using assms False k by (auto simp: Let_def bind_eq_Some_conv)
  have "only_ends cfg ?st1 st2"
    using st2 ending_only_ends(1) by (auto split: option.splits)
  then have "ended st2 t" by (rule only_endsE) auto
  then show ?thesis using st' by simp
qed


lemma addSpan_frame:
  "addSpan cfg k m s st = Some st' \<Longrightarrow>
     ts_current st' = ts_current st \<and> ts_contexts st' = ts_contexts st \<and> ts_fallback st' = ts_fallback st"
  "add_spans cfg k m cs st = Some st' \<Longrightarrow>
     ts_current st' = ts_current st \<and> ts_contexts st' = ts_contexts st \<and> ts_fallback st' = ts_fallback st"
proof (induction cfg k m s st and cfg k m cs st arbitrary: st' and st' rule: addSpan_add_spans.induct)
  case (2 cfg k m s st)
  have own: "ts_current (attach_span cfg m t s st) = ts_current st \<and>
      ts_contexts (attach_span cfg m t s st) = ts_contexts st \<and> ts_fallback (attach_span cfg m t s st) = ts_fallback st" for t
    by (simp add: attach_span_def Let_def)
  show ?case
  proof (cases "getActiveTrace m st")
    case None
    with 2 show ?thesis by (auto simp: write_log_def)
  next
    case (Some t)
    show ?thesis
    proof (cases "tracing_active cfg")
      case False
      with 2(2) Some own show ?thesis by (auto simp: Let_def)
    next
      case True
      with 2(2) Some have e: "add_spans cfg k m (sp_children (ts_spans (attach_span cfg m t s st) s))
          (attach_span cfg m t s st) = Some st'" by (simp add: Let_def)
      show ?thesis using 2(1) [OF Some refl _ e] True own by simp
    qed
  qed
next
  case (4 cfg k m c cs st)
  from 4(3) obtain st1 where st1: "addSpan cfg k m c st = Some st1" "add_spans cfg k m cs st1 = Some st'"
    by (auto simp: bind_eq_Some_conv)
  show ?case using 4(1) [OF st1(1)] 4(2) [OF st1] by simp
qed simp_all

text \<open>Outside every event context a new trace takes the place of the one the manager had.\<close>

lemma startTracing_facts:
  assumes "startTracing cfg m k i c st = Some (s, st')" and "ts_current st = None"
  shows "ts_current st' = None" and "ts_fallback st' m = Some (ts_trace_count st)"
    and "ts_trace_count st' = Suc (ts_trace_count st)" and "ts_span_count st' = Suc (ts_span_count st)"
    and "ended st' x = (x \<noteq> ts_trace_count st \<and> ended st x)"
proof -
  obtain t st1 where t: "new_trace cfg i c st = (t, st1)" by fastforce
  let ?st2 = "setActiveTrace m t st1"
  obtain s' st3 where sp: "new_span cfg k None c ?st2 = (s', st3)" by fastforce
  let ?st4 = "mirror_trace_id (tr_id (ts_traces st3 t)) st3"
  let ?st6 = "upd_trace t (\<lambda>tr. tr\<lparr>tr_rootSpan := Some s'\<rparr>) (to_tracers (Trace_Started t) ?st4)"
  have 1: "t = ts_trace_count st" "ts_current st1 = None" "ts_trace_count st1 = Suc t"
    "ts_span_count st1 = ts_span_count st" "ended st1 x = (x \<noteq> t \<and> ended st x)" for x
    using t assms(2) by (auto simp: new_trace_def Let_def split: if_splits)
  have 3: "ts_current st3 = None" "ts_fallback st3 m = Some t" "ts_trace_count st3 = Suc t" "ts_span_count st3 = Suc (ts_span_count st)"
    "ended st3 x = ended st1 x" for x
    using sp 1(2,3,4) by (auto simp: new_span_def Let_def setActiveTrace_def)
  have 4: "ts_current ?st4 = None" "ts_fallback ?st4 m = Some t" "ts_trace_count ?st4 = Suc t"
    "ts_span_count ?st4 = Suc (ts_span_count st)" "ended ?st4 x = ended st1 x" for x
    using 3 by (simp_all add: mirror_trace_id_def Let_def)
  have "ts_current st' = None \<and> ts_fallback st' m = Some t \<and> ts_trace_count st' = Suc t \<and>
      ts_span_count st' = Suc (ts_span_count st) \<and> (\<forall>x. ended st' x = ended st1 x)"
  proof (cases "tracing_active cfg")
    case False
    with assms(1) t sp have "st' = ?st4" by (simp add: startTracing_def)
    with 4 show ?thesis by simp
  next
    case True
    with assms(1) t sp have add: "addSpan cfg (stack_depth cfg) m s' ?st6 = Some st'"
      by (auto simp: startTracing_def Let_def)
    from addSpan_frame(1) [OF add] quiet_addSpan(1) [OF add] 4 show ?thesis
      by (auto simp: quiet_def)
  qed
  then show "ts_current st' = None" "ts_fallback st' m = Some (ts_trace_count st)"
    "ts_trace_count st' = Suc (ts_trace_count st)" "ts_span_count st' = Suc (ts_span_count st)"
    "ended st' x = (x \<noteq> ts_trace_count st \<and> ended st x)"
    using 1 by simp_all
qed

lemma handle_begin_facts:
  assumes "handle_begin cfg None st = Some st'" and "ts_current st = None"
  shows "ts_current st' = None" and "getActiveTrace 0 st' = Some (ts_trace_count st)"
    and "ts_trace_count st' = Suc (ts_trace_count st)"
    and "ended st' x = (x \<noteq> ts_trace_count st \<and> ended st x)"
proof -
  obtain s where "startTracing cfg 0 root_execution None [] st = Some (s, st')"
    using assms(1) by (auto simp: handle_begin_def bind_eq_Some_conv)
  from startTracing_facts [OF this assms(2)] show "ts_current st' = None"
    "getActiveTrace 0 st' = Some (ts_trace_count st)" "ts_trace_count st' = Suc (ts_trace_count st)"
    "ended st' x = (x \<noteq> ts_trace_count st \<and> ended st x)"
    by (simp_all add: getActiveTrace_def)
qed

text \<open>
  When a second call of \<open>handle\<close> begins before the first has finished, the end of the
  first ends the trace of the second, and the trace of the first is never ended.
\<close>

theorem overlapping_handles_end_the_wrong_trace:
  assumes "ts_current st = None"
    and "handle_begin cfg None st = Some st1" and "handle_begin cfg None st1 = Some st2"
    and "handle_end cfg st2 = Some st3" and "handle_end cfg st3 = Some st4"
  shows "ended st3 (Suc (ts_trace_count st)) \<and> \<not> ended st4 (ts_trace_count st)"
proof -
  let ?a = "ts_trace_count st"
  note one = handle_begin_facts [OF assms(2,1)]
  note two = handle_begin_facts [OF assms(3) one(1)]
  have active: "getActiveTrace 0 st2 = Some (Suc ?a)" using two(2) one(3) by simp
  have e3: "endTrace cfg (stack_depth cfg) 0 st2 = Some st3" and e4: "endTrace cfg (stack_depth cfg) 0 st3 = Some st4"
    using assms(4,5) by (simp_all add: handle_end_def)
  have active3: "getActiveTrace 0 st3 = Some (Suc ?a)"
    using ending_only_ends(3) [OF e3] active by (auto elim!: only_endsE dest: shape_active [where m = 0])
  have "\<not> ended st2 ?a" using one(3,4) two(4) by simp
  then have "\<not> ended st3 ?a" using ends_active_trace(3) [OF e3, of ?a] active by auto
  then have "\<not> ended st4 ?a" using ends_active_trace(3) [OF e4, of ?a] active3 by auto
  then show ?thesis using endTrace_ends [OF e3 active] by blast
qed

text \<open>The root span is recognised by its keyname: a span below it that is called like the root
  ends the whole trace when it ends.\<close>

lemma namesake_ends_the_trace:
  assumes "tracing_active cfg" and "running st s" and "sp_children (ts_spans st s) = []"
    and "getActiveTrace m st = Some t" and "tr_rootSpan (ts_traces st t) = Some r"
    and "sp_keyname (ts_spans st s) = sp_keyname (ts_spans st r)"
    and "endSpan cfg (Suc k) m s st = Some st'"
  shows "ended st' t"
proof -
  let ?st3 = "to_tracers (Span_Ended s) (stamp_end s (upd_span s (\<lambda>sp. sp\<lparr>sp_inProgress := False\<rparr>) st))"
  have active: "getActiveTrace m ?st3 = Some t"
    using assms(4) shape_active [of ?st3 st m] by simp
  have names: "sp_keyname (ts_spans ?st3 x) = sp_keyname (ts_spans st x)" for x
    by (simp add: stamp_end_def)
  have "tr_rootSpan (ts_traces ?st3 t) = Some r"
    using assms(5) shape_root [of ?st3 st t] by simp
  then have root: "is_root_keyname m s ?st3"
    unfolding is_root_keyname_def active by (simp only: option.case names assms(6))
  have "endSpan cfg (Suc k) m s st = endTrace cfg k m ?st3"
    unfolding endSpan.simps(2) assms(3) end_spans.simps(1) Let_def bind.bind_lunit
    using assms(1,2) root by (simp only: if_True if_False not_True_eq_False)
  then show ?thesis using active assms(7) by (intro endTrace_ends) simp_all
qed

text \<open>A marker is attached to a span that is in progress.\<close>

lemma open_leaves_running:
  "open_leaves k st s = Some xs \<Longrightarrow> \<forall>x\<in>set xs. running st x"
  "open_leaves_of k st cs = Some xs \<Longrightarrow> \<forall>x\<in>set xs. running st x"
proof (induction k st s and k st cs arbitrary: xs and xs rule: open_leaves_open_leaves_of.induct)
  case (2 k st s)
  from 2(2) obtain rest where "open_leaves_of k st (filter (\<lambda>c. running st c) (sp_children (ts_spans st s))) = Some rest"
    and "set xs \<subseteq> {x. x = s \<and> running st s} \<union> set rest"
    by (auto simp: Let_def split: if_splits)
  with 2(1) [OF refl] show ?case by blast
next
  case (4 k st c cs)
  from 4(3) obtain ys zs where "open_leaves k st c = Some ys" "open_leaves_of k st cs = Some zs" "xs = ys @ zs"
    by (auto simp: bind_eq_Some_conv)
  with 4(1) 4(2) show ?case by auto
qed simp_all

lemma later_started_member:
  "foldl (later_started st) best xs = Some s \<Longrightarrow> best = Some s \<or> s \<in> set xs"
  by (induction xs arbitrary: best) (auto simp: later_started_def split: option.splits if_splits)

lemma marker_goes_to_running_span:
  assumes "findActiveLeafSpan cfg m st = Some (Some s)"
  shows "running st s"
proof -
  obtain k r xs where "open_leaves k st r = Some xs" "foldl (later_started st) None xs = Some s"
    using assms by (auto simp: findActiveLeafSpan_def split: option.splits)
  then show ?thesis using open_leaves_running(1) later_started_member by fastforce
qed

section \<open>Witnesses\<close>

definition sample_tracing :: tracing_config where
  "sample_tracing = \<lparr>tracing_active = True, fresh_uuid = (\<lambda>n. replicate n (CHR ''x'')), stack_depth = 9\<rparr>"

lemma addSpan_childless:
  assumes "sp_children (ts_spans st s) = []"
  shows "\<exists>st'. addSpan cfg (Suc k) m s st = Some st'"
proof (cases "getActiveTrace m st")
  case (Some t)
  have "sp_children (ts_spans (attach_span cfg m t s st) s) = []"
    using assms by (simp add: attach_span_def Let_def)
  with Some show ?thesis by (simp add: Let_def)
qed simp

lemma handle_begin_returns:
  assumes "ts_current st = None" and "reachable_tracing sample_tracing st"
  obtains st' where "handle_begin sample_tracing None st = Some st'" "ts_current st' = None"
    "reachable_tracing sample_tracing st'" "ts_span_count st' = Suc (ts_span_count st)"
    "ts_trace_count st' = Suc (ts_trace_count st)"
proof -
  obtain t st1 where t: "new_trace sample_tracing None [] st = (t, st1)" by fastforce
  obtain s st3 where sp: "new_span sample_tracing root_execution None [] (setActiveTrace 0 t st1) = (s, st3)" by fastforce
  let ?st6 = "upd_trace t (\<lambda>tr. tr\<lparr>tr_rootSpan := Some s\<rparr>)
      (to_tracers (Trace_Started t) (mirror_trace_id (tr_id (ts_traces st3 t)) st3))"
  have "sp_children (ts_spans st3 s) = []" using sp by (auto simp: new_span_def Let_def)
  then have "sp_children (ts_spans ?st6 s) = []"
    by (simp add: mirror_trace_id_def upd_context_def Let_def split: option.splits)
  from addSpan_childless [OF this, of sample_tracing 8 0] obtain st'
    where "addSpan sample_tracing (Suc 8) 0 s ?st6 = Some st'" by blast
  then have "startTracing sample_tracing 0 root_execution None [] st = Some (s, st')"
    using t sp by (simp add: startTracing_def Let_def sample_tracing_def)
  note run = this startTracing_facts [OF this assms(1)] step_startTracing [OF this]
  show thesis
  proof (rule that)
    show "handle_begin sample_tracing None st = Some st'" using run(1) by (simp add: handle_begin_def)
    show "reachable_tracing sample_tracing st'"
      using assms(2) run(7) by (simp add: reachable_tracing_def)
  qed (use run in auto)
qed

lemma open_objects_bound:
  assumes "ends_reported cfg st"
  shows "open_objects st \<le> ts_span_count st + ts_trace_count st"
proof -
  have "{s. running st s} \<subseteq> {..<ts_span_count st}" "{t. \<not> ended st t} \<subseteq> {..<ts_trace_count st}"
    using assms by (auto simp: ends_reported_def not_le [symmetric])
  from card_mono [OF _ this(1)] card_mono [OF _ this(2)] show ?thesis by (simp add: open_objects_def)
qed

lemma start_reachable: "reachable_tracing cfg start_tracing_state"
  by (simp add: reachable_tracing_def)

lemma handle_end_returns:
  assumes "reachable_tracing sample_tracing st" and "ts_span_count st + ts_trace_count st < 9"
  obtains st' where "handle_end sample_tracing st = Some st'" "reachable_tracing sample_tracing st'"
    "ts_span_count st' + ts_trace_count st' < 9"
proof -
  note r = reachable_reported [OF assms(1)]
  have "open_objects st < stack_depth sample_tracing"
    using open_objects_bound [OF r] assms(2) by (simp add: sample_tracing_def)
  then obtain st' where e: "endTrace sample_tracing (stack_depth sample_tracing) 0 st = Some st'"
    using ending_returns(3) [OF ends_reported_finite [OF r]] by blast
  have "reachable_tracing sample_tracing st'"
    using assms(1) step_endTrace [OF e] by (simp add: reachable_tracing_def)
  moreover have "shape st' = shape st" using ending_only_ends(3) [OF e] by (auto elim: only_endsE)
  ultimately show thesis using that e assms(2) by (simp add: handle_end_def shape_def)
qed

lemma start_counts:
  "ts_current start_tracing_state = None" "ts_trace_count start_tracing_state = 0" "ts_span_count start_tracing_state = 0"
  by (simp_all add: start_tracing_state_def)

lemma two_handles_run:
  obtains st1 st2 st3 st4 where "handle_begin sample_tracing None start_tracing_state = Some st1"
    "handle_begin sample_tracing None st1 = Some st2" "handle_end sample_tracing st2 = Some st3"
    "handle_end sample_tracing st3 = Some st4"
proof -
  obtain st1 where 1: "handle_begin sample_tracing None start_tracing_state = Some st1" "ts_current st1 = None"
    "reachable_tracing sample_tracing st1" "ts_span_count st1 = Suc (ts_span_count start_tracing_state)"
    "ts_trace_count st1 = Suc (ts_trace_count start_tracing_state)"
    by (rule handle_begin_returns [OF start_counts(1) start_reachable])
  obtain st2 where 2: "handle_begin sample_tracing None st1 = Some st2" "ts_current st2 = None"
    "reachable_tracing sample_tracing st2" "ts_span_count st2 = Suc (ts_span_count st1)"
    "ts_trace_count st2 = Suc (ts_trace_count st1)"
    by (rule handle_begin_returns [OF 1(2,3)])
  have "ts_span_count st2 + ts_trace_count st2 < 9"
    using 1(4,5) 2(4,5) start_counts by simp
  then obtain st3 where 3: "handle_end sample_tracing st2 = Some st3" "reachable_tracing sample_tracing st3"
    "ts_span_count st3 + ts_trace_count st3 < 9"
    by (rule handle_end_returns [OF 2(3)])
  obtain st4 where 4: "handle_end sample_tracing st3 = Some st4" "reachable_tracing sample_tracing st4"
    "ts_span_count st4 + ts_trace_count st4 < 9"
    by (rule handle_end_returns [OF 3(2,3)])
  show thesis by (rule that [OF 1(1) 2(1) 3(1) 4(1)])
qed

theorem overlapping_handles_end_the_wrong_trace_witness:
  "\<exists>st1 st2 st3 st4. handle_begin sample_tracing None start_tracing_state = Some st1 \<and>
     handle_begin sample_tracing None st1 = Some st2 \<and> handle_end sample_tracing st2 = Some st3 \<and>
     handle_end sample_tracing st3 = Some st4 \<and> ended st3 1 \<and> \<not> ended st4 0"
proof -
  obtain st1 st2 st3 st4 where run: "handle_begin sample_tracing None start_tracing_state = Some st1"
    "handle_begin sample_tracing None st1 = Some st2" "handle_end sample_tracing st2 = Some st3"
    "handle_end sample_tracing st3 = Some st4"
    by (rule two_handles_run)
  with overlapping_handles_end_the_wrong_trace [OF start_counts(1) run] start_counts(2) show ?thesis by auto
qed

lemma first_handle:
  assumes "handle_begin cfg None start_tracing_state = Some st"
  shows "reachable_tracing cfg st"
  using assms step_startTracing [of cfg 0 root_execution None "[]" start_tracing_state]
  by (auto simp: reachable_tracing_def handle_begin_def bind_eq_Some_conv)

theorem ends_are_reported_once_witness:
  "\<exists>st. handle_begin sample_tracing None start_tracing_state = Some st \<and>
     count_list (ts_stream st) (Span_Ended 0) = of_bool (0 < ts_span_count st \<and> \<not> running st 0)"
proof -
  obtain st where st: "handle_begin sample_tracing None start_tracing_state = Some st"
    by (rule two_handles_run)
  have "tracing_active sample_tracing" by (simp add: sample_tracing_def)
  with st ends_are_reported_once [OF first_handle [OF st], of 0 0] show ?thesis by auto
qed

theorem ending_closes_the_tree_witness:
  "\<exists>st'. endSpan sample_tracing 9 0 0 start_tracing_state = Some st' \<and> \<not> running st' 0"
proof -
  have "open_objects start_tracing_state < stack_depth sample_tracing"
    by (simp add: open_objects_def start_tracing_state_def no_span_def no_trace_def sample_tracing_def)
  moreover have "stack_depth sample_tracing = 9" by (simp add: sample_tracing_def)
  ultimately show ?thesis
    using ending_closes_the_tree [OF start_reachable, of sample_tracing 0 0] by auto
qed

end
