(* ===== verification/Trace_Parent.thy ===== *)
theory Trace_Parent
  imports Tracing
begin

text \<open>
  The \<open>traceparent\<close> header (\<open>packages/telemetry/utils/trace-parent.parser.ts\<close>) and the request
  interceptor of \<open>packages/networking\<close> that continues the trace it names.
\<close>

record trace_parent =
  tp_traceId :: string
  tp_parentSpanId :: string
  tp_isSampled :: bool

definition is_lower_hex :: "char \<Rightarrow> bool" where
  "is_lower_hex c \<longleftrightarrow> is_digit c \<or> (97 \<le> (of_char c :: nat) \<and> (of_char c :: nat) \<le> 102)"

text \<open>The pattern of a field of exactly \<open>n\<close> lower-case hexadecimal digits.\<close>

definition hex_field :: "nat \<Rightarrow> string \<Rightarrow> bool" where
  "hex_field n s \<longleftrightarrow> length s = n \<and> list_all is_lower_hex s"

definition lower_hex_value :: "char \<Rightarrow> nat" where
  "lower_hex_value c = (if is_digit c then digit_value c else of_char c - 87)"

definition zeros :: "nat \<Rightarrow> string" where
  "zeros n = replicate n (CHR ''0'')"

definition toUuid :: "string \<Rightarrow> string" where
  "toUuid hex = take 8 hex @ ''-'' @ take 4 (drop 8 hex) @ ''-'' @ take 4 (drop 12 hex) @ ''-'' @
     take 4 (drop 16 hex) @ ''-'' @ drop 20 hex"

text \<open>\<open>parseInt(flags, 16) & 1\<close> is the parity of the last digit.\<close>

definition sampled :: "string \<Rightarrow> bool" where
  "sampled flags \<longleftrightarrow> odd (foldl (\<lambda>n c. 16 * n + lower_hex_value c) 0 flags)"

definition parse_traceparent :: "string \<Rightarrow> trace_parent option" where
  "parse_traceparent value =
     (case split_on (CHR ''-'') (trim value) of
        version # traceId # parentId # flags # rest \<Rightarrow>
          if \<not> hex_field 2 version \<or> version = ''ff'' then None
          else if version = ''00'' \<and> rest \<noteq> [] then None
          else if \<not> hex_field 32 traceId \<or> traceId = zeros 32 then None
          else if \<not> hex_field 16 parentId \<or> parentId = zeros 16 then None
          else if \<not> hex_field 2 flags then None
          else Some \<lparr>tp_traceId = toUuid traceId, tp_parentSpanId = parentId, tp_isSampled = sampled flags\<rparr>
      | _ \<Rightarrow> None)"

text \<open>\<open>TracePropagationRequestInterceptor\<close>: the request is passed on as it is.\<close>

definition propagate_trace :: "bool \<Rightarrow> nat \<Rightarrow> string option \<Rightarrow> tracing \<Rightarrow> tracing" where
  "propagate_trace active m header st =
     (if \<not> active then st
      else (case header of
          None \<Rightarrow> st
        | Some value \<Rightarrow> (case parse_traceparent value of
              None \<Rightarrow> write_log Debug ''TracePropagationRequestInterceptor: Ignored an invalid traceparent header.'' st
            | Some tp \<Rightarrow> addToTraceContext m [(''trace.parentSpanId'', tp_parentSpanId tp)]
                (continueTrace m (tp_traceId tp) st))))"

section \<open>Round trip\<close>

definition without_hyphens :: "string \<Rightarrow> string" where
  "without_hyphens s = filter (\<lambda>c. c \<noteq> CHR ''-'') s"

lemma hex_not_special: "is_lower_hex c \<Longrightarrow> c \<noteq> CHR ''-'' \<and> \<not> is_space c"
  by (auto simp: is_lower_hex_def is_digit_def is_space_def)

lemma hex_field_chars:
  assumes "hex_field n s"
  shows "CHR ''-'' \<notin> set s" and "list_all (\<lambda>c. \<not> is_space c) s"
  using assms hex_not_special by (auto simp: hex_field_def list_all_iff)

lemma toUuid_inverse:
  assumes "hex_field 32 i"
  shows "without_hyphens (toUuid i) = i"
proof -
  have "\<forall>c\<in>set i. c \<noteq> CHR ''-''" using hex_field_chars(1) [OF assms] by blast
  then have "filter (\<lambda>c. c \<noteq> CHR ''-'') (take n (drop k i)) = take n (drop k i)"
    and "filter (\<lambda>c. c \<noteq> CHR ''-'') (drop k i) = drop k i" for n k
    by (auto simp: filter_id_conv dest: in_set_takeD in_set_dropD)
  then have "without_hyphens (toUuid i) = take 8 i @ take 4 (drop 8 i) @ take 4 (drop 12 i) @ take 4 (drop 16 i) @ drop 20 i"
    using \<open>\<And>n k. filter (\<lambda>c. c \<noteq> CHR ''-'') (take n (drop k i)) = take n (drop k i)\<close> [of 8 0]
    by (simp add: without_hyphens_def toUuid_def)
  also have "\<dots> = i"
    using append_take_drop_id [of 8 i] append_take_drop_id [of 4 "drop 8 i"]
      append_take_drop_id [of 4 "drop 12 i"] append_take_drop_id [of 4 "drop 16 i"]
    by (simp only: drop_drop append_assoc) simp
  finally show ?thesis .
qed

lemma trim_clean: "list_all (\<lambda>c. \<not> is_space c) s \<Longrightarrow> trim s = s"
proof -
  assume s: "list_all (\<lambda>c. \<not> is_space c) s"
  have id: "dropWhile is_space t = t" if "list_all (\<lambda>c. \<not> is_space c) t" for t
    using that by (cases t) auto
  have "list_all (\<lambda>c. \<not> is_space c) (rev s)" using s by (simp add: list_all_iff)
  with id [OF s] id [of "rev s"] show "trim s = s" by (simp add: trim_def)
qed

text \<open>
  A header of version 00 with identifiers that are not all zeros is accepted; the trace
  identifier is kept up to the hyphens of a UUID, the parent identifier as it is, and the sampled
  flag is the lowest bit of the flags.
\<close>

theorem traceparent_round_trip:
  assumes i: "hex_field 32 i" "i \<noteq> zeros 32" and p: "hex_field 16 p" "p \<noteq> zeros 16" and f: "hex_field 2 f"
  shows "\<exists>tp. parse_traceparent (join ''-'' [''00'', i, p, f]) = Some tp \<and>
    without_hyphens (tp_traceId tp) = i \<and> tp_parentSpanId tp = p \<and> tp_isSampled tp = sampled f"
proof -
  have v: "hex_field 2 ''00''" by (simp add: hex_field_def is_lower_hex_def is_digit_def)
  have "\<forall>x\<in>set [''00'', i, p, f]. CHR ''-'' \<notin> set x"
    using hex_field_chars(1) i(1) p(1) f v by auto
  then have split: "split_on (CHR ''-'') (join [CHR ''-''] [''00'', i, p, f]) = [''00'', i, p, f]"
    by (intro split_on_join) simp_all
  have "list_all (\<lambda>c. \<not> is_space c) (join ''-'' [''00'', i, p, f])"
    using hex_field_chars(2) [OF i(1)] hex_field_chars(2) [OF p(1)] hex_field_chars(2) [OF f]
    by (simp add: is_space_def)
  then have "parse_traceparent (join ''-'' [''00'', i, p, f]) =
      Some \<lparr>tp_traceId = toUuid i, tp_parentSpanId = p, tp_isSampled = sampled f\<rparr>"
    using i p f v split by (simp add: parse_traceparent_def trim_clean)
  then show ?thesis using toUuid_inverse [OF i(1)] by simp
qed

definition sample_id :: "nat \<Rightarrow> string" where
  "sample_id n = replicate n (CHR ''7'')"

theorem traceparent_round_trip_witness:
  "\<exists>tp. parse_traceparent (join ''-'' [''00'', sample_id 32, sample_id 16, ''01'']) = Some tp \<and>
    without_hyphens (tp_traceId tp) = sample_id 32 \<and> tp_parentSpanId tp = sample_id 16 \<and> tp_isSampled tp"
proof -
  have "is_lower_hex (CHR ''7'')" "is_lower_hex (CHR ''0'')" "is_lower_hex (CHR ''1'')"
    by (simp_all add: is_lower_hex_def is_digit_def)
  then have h: "hex_field n (sample_id n)" "hex_field 2 ''01''" for n
    by (simp_all add: hex_field_def sample_id_def list_all_iff)
  have "sample_id 32 \<noteq> zeros 32" "sample_id 16 \<noteq> zeros 16"
    by (simp_all add: sample_id_def zeros_def)
  moreover have "sampled ''01''" by (simp add: sampled_def lower_hex_value_def is_digit_def digit_value_def)
  ultimately show ?thesis using traceparent_round_trip [OF h(1) _ h(1) _ h(2)] by simp
qed

text \<open>The other fields: an appended field is refused in version 00 and ignored in a later one.\<close>

lemma traceparent_later_version:
  "parse_traceparent (join ''-'' [''01'', sample_id 32, sample_id 16, ''01'', ''x'']) \<noteq> None"
  "parse_traceparent (join ''-'' [''00'', sample_id 32, sample_id 16, ''01'', ''x'']) = None"
  by code_simp+

end
