(* ===== verification/Search_Query.thy ===== *)
theory Search_Query
  imports Js_Values
begin

text \<open>
  The search queries of \<open>packages/database-common\<close> (\<open>models/search-query.model.ts\<close>), the naming
  strategies of columns and the values of JSON columns. A number of the code is a whole number,
  exact as long as it stays below \<open>2^53\<close>, or \<open>None\<close> for \<open>NaN\<close>.
\<close>

section \<open>Numbers\<close>

definition is_hex_char :: "char \<Rightarrow> bool" where
  "is_hex_char c \<longleftrightarrow> is_digit c \<or> (65 \<le> (of_char c :: nat) \<and> (of_char c :: nat) \<le> 70) \<or>
     (97 \<le> (of_char c :: nat) \<and> (of_char c :: nat) \<le> 102)"

definition hex_char_value :: "char \<Rightarrow> nat" where
  "hex_char_value c = (if is_digit c then digit_value c else of_char (lower_char c) - 87)"

text \<open>\<open>parseInt(s)\<close>: white space, a sign, a hexadecimal prefix, and as many digits as follow.\<close>

definition parse_digits :: "string \<Rightarrow> nat option" where
  "parse_digits s =
     (case s of
        x # y # r \<Rightarrow>
          if x = CHR ''0'' \<and> y \<in> {CHR ''x'', CHR ''X''} then (let ds = takeWhile is_hex_char r in
            if ds = [] then None else Some (foldl (\<lambda>n c. 16 * n + hex_char_value c) 0 ds))
          else (let ds = takeWhile is_digit s in if ds = [] then None else Some (num_value ds))
      | _ \<Rightarrow> (let ds = takeWhile is_digit s in if ds = [] then None else Some (num_value ds)))"

definition parseInt :: "string \<Rightarrow> int option" where
  "parseInt s = (case dropWhile is_space s of
       [] \<Rightarrow> None
     | c # r \<Rightarrow>
         if c = CHR ''-'' then map_option (\<lambda>n. - int n) (parse_digits r)
         else if c = CHR ''+'' then map_option int (parse_digits r)
         else map_option int (parse_digits (c # r)))"

definition number_text :: "int option \<Rightarrow> string" where
  "number_text n = (case n of None \<Rightarrow> ''NaN'' | Some i \<Rightarrow> show_int i)"

section \<open>Queries\<close>

datatype sort_order = Ascending | Descending

fun order_value :: "sort_order \<Rightarrow> string" where
  "order_value Ascending = ''asc''"
| "order_value Descending = ''desc''"

record query_field =
  qf_field :: string
  qf_order :: "sort_order option"
  qf_exclude :: bool
  qf_includeExplicitly :: "bool option"

definition new_SearchQueryField :: "string \<Rightarrow> sort_order option \<Rightarrow> bool option \<Rightarrow> bool option \<Rightarrow> query_field" where
  "new_SearchQueryField f ord exclude explicitly =
     \<lparr>qf_field = f, qf_order = ord, qf_exclude = (exclude = Some True), qf_includeExplicitly = explicitly\<rparr>"

text \<open>The operator and the value of a filter come from a text that may lack them.\<close>

record field_filter =
  ff_field :: string
  ff_operator :: "string option"
  ff_value :: "string option"

record search_query =
  sq_fields :: "query_field list"
  sq_page :: "int option"
  sq_maximum :: "int option"
  sq_query :: "string option"
  sq_filters :: "field_filter list"

record search_options =
  so_fields :: "query_field list option"
  so_page :: "int option option"
  so_maximum :: "int option option"
  so_query :: "string option"
  so_filters :: "field_filter list option"

text \<open>The constructor reads every option but the filters.\<close>

definition new_SearchQuery :: "search_options option \<Rightarrow> search_query" where
  "new_SearchQuery opts = (case opts of
       None \<Rightarrow> \<lparr>sq_fields = [], sq_page = Some 1, sq_maximum = Some 100, sq_query = None, sq_filters = []\<rparr>
     | Some o' \<Rightarrow> \<lparr>sq_fields = (case so_fields o' of Some fs \<Rightarrow> fs | None \<Rightarrow> []),
         sq_page = (case so_page o' of Some p \<Rightarrow> p | None \<Rightarrow> Some 1),
         sq_maximum = (case so_maximum o' of Some m \<Rightarrow> m | None \<Rightarrow> Some 100),
         sq_query = so_query o', sq_filters = []\<rparr>)"

definition find_field :: "string \<Rightarrow> query_field list \<Rightarrow> query_field option" where
  "find_field name fs = find (\<lambda>f. qf_field f = name) fs"

definition getField :: "string \<Rightarrow> search_query \<Rightarrow> query_field option" where
  "getField name q = find_field name (sq_fields q)"

text \<open>Writing to the field \<open>getField\<close> returns, which is the first of its name.\<close>

fun update_field :: "string \<Rightarrow> (query_field \<Rightarrow> query_field) \<Rightarrow> query_field list \<Rightarrow> query_field list" where
  "update_field name g [] = []"
| "update_field name g (f # fs) = (if qf_field f = name then g f # fs else f # update_field name g fs)"

definition addFilter :: "field_filter \<Rightarrow> search_query \<Rightarrow> search_query" where
  "addFilter ff q = q\<lparr>sq_filters := sq_filters q @ [ff]\<rparr>"

definition clearSort :: "string \<Rightarrow> search_query \<Rightarrow> search_query" where
  "clearSort name q = (case getField name q of
       None \<Rightarrow> q
     | Some _ \<Rightarrow> q\<lparr>sq_fields := update_field name (\<lambda>f. f\<lparr>qf_order := None\<rparr>) (sq_fields q)\<rparr>)"

definition set_order :: "string \<Rightarrow> sort_order \<Rightarrow> query_field list \<Rightarrow> query_field list" where
  "set_order name ord fs = (case find_field name fs of
       None \<Rightarrow> fs @ [new_SearchQueryField name (Some ord) None None]
     | Some _ \<Rightarrow> update_field name (\<lambda>f. f\<lparr>qf_order := Some ord\<rparr>) fs)"

definition setSort :: "string \<Rightarrow> sort_order \<Rightarrow> search_query \<Rightarrow> search_query" where
  "setSort name ord q = q\<lparr>sq_fields := set_order name ord (sq_fields q)\<rparr>"

definition toggleSort :: "string \<Rightarrow> search_query \<Rightarrow> sort_order \<times> search_query" where
  "toggleSort name q = (case getField name q of
       None \<Rightarrow> (Ascending, setSort name Ascending q)
     | Some f \<Rightarrow> (let ord = (if qf_order f = Some Descending then Ascending else Descending) in
         (ord, setSort name ord q)))"

definition getSortedFields :: "search_query \<Rightarrow> (string \<times> sort_order) list" where
  "getSortedFields q = concat (map (\<lambda>f. case qf_order f of None \<Rightarrow> [] | Some ord \<Rightarrow> [(qf_field f, ord)]) (sq_fields q))"

section \<open>Query strings\<close>

record query_parameters =
  qp_query :: "string option"
  qp_fields :: "string option"
  qp_page :: "string option"
  qp_exclude :: "string option"
  qp_maximum :: "string option"
  qp_sort :: "string option"
  qp_filters :: "string option"

definition no_parameters :: query_parameters where
  "no_parameters = \<lparr>qp_query = None, qp_fields = None, qp_page = None, qp_exclude = None, qp_maximum = None,
     qp_sort = None, qp_filters = None\<rparr>"

text \<open>A parameter that is tested for truth: \<open>undefined\<close> and the empty text do not count.\<close>

definition given :: "string option \<Rightarrow> string option" where
  "given p = (case p of Some s \<Rightarrow> (if s = [] then None else Some s) | None \<Rightarrow> None)"

text \<open>The entries of a list between commas, none when the parameter is not given.\<close>

definition listed :: "string option \<Rightarrow> string list" where
  "listed p = (case given p of Some s \<Rightarrow> split_on (CHR '','') s | None \<Rightarrow> [])"

definition parse_order :: "string option \<Rightarrow> thrown + sort_order" where
  "parse_order p =
     (if p = Some ''asc'' then Inr Ascending
      else if p = Some ''desc'' then Inr Descending
      else Inl (NativeErr ''Error'' (''The order '' @ (case p of Some s \<Rightarrow> s | None \<Rightarrow> ''undefined'') @
        '' is not a valid order. It must be either '' @ json_string ''asc'' @ '' or '' @ json_string ''desc'' @ ''.'') None None))"

definition part :: "nat \<Rightarrow> string list \<Rightarrow> string option" where
  "part n ps = (if n < length ps then Some (ps ! n) else None)"

definition sort_entry :: "string \<Rightarrow> query_field list \<Rightarrow> thrown + query_field list" where
  "sort_entry entry fs = (let ps = split_on (CHR '':'') entry in
     case parse_order (part 1 ps) of Inl e \<Rightarrow> Inl e | Inr ord \<Rightarrow> Inr (set_order (hd ps) ord fs))"

text \<open>The entries before one that throws have been applied.\<close>

fun import_sort :: "string list \<Rightarrow> query_field list \<Rightarrow> (thrown + unit) \<times> query_field list" where
  "import_sort [] fs = (Inr (), fs)"
| "import_sort (e # es) fs = (case sort_entry e fs of Inl err \<Rightarrow> (Inl err, fs) | Inr fs' \<Rightarrow> import_sort es fs')"

definition filter_entry :: "string \<Rightarrow> field_filter" where
  "filter_entry entry = (let ps = split_on (CHR '':'') entry in
     \<lparr>ff_field = hd ps, ff_operator = part 1 ps, ff_value = part 2 ps\<rparr>)"

definition set_exclude :: "string \<Rightarrow> query_field list \<Rightarrow> query_field list" where
  "set_exclude name fs = (case find_field name fs of
       None \<Rightarrow> fs @ [new_SearchQueryField name None (Some True) None]
     | Some _ \<Rightarrow> update_field name (\<lambda>f. f\<lparr>qf_exclude := True\<rparr>) fs)"

definition importQueryParameters :: "query_parameters \<Rightarrow> search_query \<Rightarrow> (thrown + unit) \<times> search_query" where
  "importQueryParameters p q =
     (let q1 = q\<lparr>sq_query := (case qp_query p of Some s \<Rightarrow> Some s | None \<Rightarrow> sq_query q),
                 sq_page := (case given (qp_page p) of Some s \<Rightarrow> parseInt s | None \<Rightarrow> sq_page q),
                 sq_maximum := (case given (qp_maximum p) of Some s \<Rightarrow> parseInt s | None \<Rightarrow> sq_maximum q),
                 sq_fields := (case given (qp_fields p) of
                    Some s \<Rightarrow> map (\<lambda>f. new_SearchQueryField f None None (Some True)) (split_on (CHR '','') s)
                  | None \<Rightarrow> sq_fields q)\<rparr>;
          (res, fs) = import_sort (listed (qp_sort p)) (sq_fields q1);
          q2 = q1\<lparr>sq_fields := fs\<rparr>
      in case res of
           Inl e \<Rightarrow> (Inl e, q2)
         | Inr _ \<Rightarrow> (Inr (), q2\<lparr>
             sq_filters := sq_filters q2 @ map filter_entry (listed (qp_filters p)),
             sq_fields := foldl (\<lambda>fs n. set_exclude n fs) fs (listed (qp_exclude p))\<rparr>))"

definition explicit_fields :: "query_field list \<Rightarrow> string list" where
  "explicit_fields fs = map qf_field (filter (\<lambda>f. qf_includeExplicitly f = Some True) fs)"

definition undefined_text :: "string option \<Rightarrow> string" where
  "undefined_text p = (case p of Some s \<Rightarrow> s | None \<Rightarrow> ''undefined'')"

definition exportQueryParameters :: "search_query \<Rightarrow> query_parameters" where
  "exportQueryParameters q =
     \<lparr>qp_query = sq_query q,
      qp_fields = Some (join '','' (explicit_fields (sq_fields q))),
      qp_page = Some (number_text (sq_page q)),
      qp_exclude = Some (join '','' (map qf_field (filter qf_exclude (sq_fields q)))),
      qp_maximum = Some (number_text (sq_maximum q)),
      qp_sort = Some (join '','' (map (\<lambda>(f, ord). f @ '':'' @ order_value ord) (getSortedFields q))),
      qp_filters = Some (join '','' (map (\<lambda>ff. ff_field ff @ '':'' @ undefined_text (ff_operator ff) @ '':'' @
        undefined_text (ff_value ff)) (sq_filters q)))\<rparr>"

section \<open>Column names and JSON columns\<close>

definition is_upper :: "char \<Rightarrow> bool" where
  "is_upper c \<longleftrightarrow> 65 \<le> (of_char c :: nat) \<and> (of_char c :: nat) \<le> 90"

definition is_lower :: "char \<Rightarrow> bool" where
  "is_lower c \<longleftrightarrow> 97 \<le> (of_char c :: nat) \<and> (of_char c :: nat) \<le> 122"

definition snakeCaseColumnStrategy :: "string \<Rightarrow> string" where
  "snakeCaseColumnStrategy column = to_lower (concat (map (\<lambda>c. if is_upper c then [CHR ''_'', c] else [c]) column))"

fun camelCaseColumnStrategy :: "string \<Rightarrow> string" where
  "camelCaseColumnStrategy (x # y # r) =
     (if x = CHR ''_'' \<and> is_lower y then upper_char y # camelCaseColumnStrategy r
      else x # camelCaseColumnStrategy (y # r))"
| "camelCaseColumnStrategy s = s"

text \<open>\<open>JsonBlobUtils.parse\<close>; \<open>decode\<close> is the text decoder and \<open>parse\<close> is \<open>JSON.parse\<close>.\<close>

definition JsonBlobUtils_parse :: "(jsv \<Rightarrow> string) \<Rightarrow> (string \<Rightarrow> thrown + jsv) \<Rightarrow> jsv \<Rightarrow> thrown + jsv" where
  "JsonBlobUtils_parse decode parse v =
     (let w = (if instance_of ''Uint8Array'' v \<or> instance_of ''Buffer'' v then js_string (decode v) else v) in
      case as_string w of
        None \<Rightarrow> Inr w
      | Some s \<Rightarrow> (if trim s = [] then Inr w else parse s))"

section \<open>Reading back what was written\<close>

lemma find_field_update:
  "(\<And>f. qf_field (g f) = qf_field f) \<Longrightarrow>
   find_field n (update_field m g fs) = (if n = m then map_option g (find_field m fs) else find_field n fs)"
  by (induction fs) (auto simp: find_field_def)

lemma find_field_append:
  "find_field n (fs @ gs) = (case find_field n fs of Some f \<Rightarrow> Some f | None \<Rightarrow> find_field n gs)"
  by (induction fs) (auto simp: find_field_def)

lemma find_field_single: "find_field n [f] = (if qf_field f = n then Some f else None)"
  by (simp add: find_field_def)

lemma find_field_absent: "find_field n fs = None \<longleftrightarrow> n \<notin> qf_field ` set fs"
  by (induction fs) (auto simp: find_field_def)

lemma find_field_Cons: "find_field n (f # fs) = (if qf_field f = n then Some f else find_field n fs)"
  by (simp add: find_field_def)

definition blank_field :: "string \<Rightarrow> query_field" where
  "blank_field n = new_SearchQueryField n None None None"

definition field_or_blank :: "string \<Rightarrow> query_field list \<Rightarrow> query_field" where
  "field_or_blank n fs = (case find_field n fs of Some f \<Rightarrow> f | None \<Rightarrow> blank_field n)"

lemmas blank_defs = blank_field_def field_or_blank_def new_SearchQueryField_def

lemma find_set_order:
  "find_field n (set_order m ord fs) =
     (if n = m then Some ((field_or_blank m fs)\<lparr>qf_order := Some ord\<rparr>) else find_field n fs)"
  by (auto simp: set_order_def find_field_update find_field_append find_field_single blank_defs split: option.splits)

lemma find_set_exclude:
  "find_field n (set_exclude m fs) =
     (if n = m then Some ((field_or_blank m fs)\<lparr>qf_exclude := True\<rparr>) else find_field n fs)"
  by (auto simp: set_exclude_def find_field_update find_field_append find_field_single blank_defs split: option.splits)

lemma field_or_blank_other:
  "find_field n fs = find_field n gs \<Longrightarrow> field_or_blank n fs = field_or_blank n gs"
  by (simp add: field_or_blank_def)

lemma find_orders:
  "distinct (map fst ps) \<Longrightarrow> find_field n (foldl (\<lambda>fs (f, ord). set_order f ord fs) fs ps) =
     (case map_of ps n of Some ord \<Rightarrow> Some ((field_or_blank n fs)\<lparr>qf_order := Some ord\<rparr>) | None \<Rightarrow> find_field n fs)"
proof (induction ps arbitrary: fs)
  case (Cons p ps)
  obtain f ord where p: "p = (f, ord)" by (cases p)
  with Cons.prems have f: "map_of ps f = None" by (simp add: map_of_eq_None_iff image_iff)
  have "field_or_blank n (set_order f ord fs) = field_or_blank n fs" if "n \<noteq> f"
    using that by (intro field_or_blank_other) (simp add: find_set_order)
  with Cons f show ?case by (auto simp: p find_set_order split: option.splits)
qed simp

lemma find_excludes:
  "find_field n (foldl (\<lambda>fs m. set_exclude m fs) fs ns) =
     (if n \<in> set ns then Some ((field_or_blank n fs)\<lparr>qf_exclude := True\<rparr>) else find_field n fs)"
proof (induction ns arbitrary: fs)
  case (Cons m ns)
  have "field_or_blank n (set_exclude m fs) = field_or_blank n fs" if "n \<noteq> m"
    using that by (intro field_or_blank_other) (simp add: find_set_exclude)
  moreover have "(field_or_blank m (set_exclude m fs))\<lparr>qf_exclude := True\<rparr> = (field_or_blank m fs)\<lparr>qf_exclude := True\<rparr>"
    by (simp add: field_or_blank_def [of m "set_exclude m fs"] find_set_exclude)
  ultimately show ?case using Cons by (cases "n = m") (auto simp: find_set_exclude)
qed simp

lemma find_explicit:
  "find_field n (map (\<lambda>f. new_SearchQueryField f None None (Some True)) ns) =
     (if n \<in> set ns then Some (new_SearchQueryField n None None (Some True)) else None)"
  by (induction ns) (auto simp: find_field_def new_SearchQueryField_def)

text \<open>Texts without the separators.\<close>

definition plain_text :: "string \<Rightarrow> bool" where
  "plain_text s \<longleftrightarrow> CHR '','' \<notin> set s \<and> CHR '':'' \<notin> set s"

definition plain_name :: "string \<Rightarrow> bool" where
  "plain_name s \<longleftrightarrow> s \<noteq> [] \<and> plain_text s"

lemma given_join:
  assumes "\<forall>x\<in>set xs. x \<noteq> [] \<and> CHR '','' \<notin> set x"
  shows "(case given (Some (join '','' xs)) of Some s \<Rightarrow> F (split_on (CHR '','') s) | None \<Rightarrow> c) =
    (if xs = [] then c else F xs)"
proof (cases xs)
  case (Cons x ys)
  then have "join '','' xs \<noteq> []" using assms by (cases ys) auto
  moreover have "split_on (CHR '','') (join '','' xs) = xs"
    by (rule split_on_join) (use assms Cons in auto)
  ultimately show ?thesis using Cons by (simp add: given_def)
qed (simp add: given_def)

lemma listed_join: "\<forall>x\<in>set xs. x \<noteq> [] \<and> CHR '','' \<notin> set x \<Longrightarrow> listed (Some (join '','' xs)) = xs"
  using given_join [of xs "[]" "\<lambda>ys. ys"] by (simp add: listed_def)

lemma split_pair: "CHR '':'' \<notin> set a \<Longrightarrow> CHR '':'' \<notin> set b \<Longrightarrow> split_on (CHR '':'') (a @ '':'' @ b) = [a, b]"
  using split_on_append_sep [of "CHR '':''" a b] by (simp add: split_on_no_sep)

lemma split_triple:
  assumes "CHR '':'' \<notin> set a" "CHR '':'' \<notin> set b" "CHR '':'' \<notin> set c"
  shows "split_on (CHR '':'') (a @ '':'' @ b @ '':'' @ c) = [a, b, c]"
  using split_on_append_sep [OF assms(1), of "b @ '':'' @ c"] split_pair [OF assms(2,3)] by simp

lemma order_value_plain: "plain_text (order_value ord)"
  by (cases ord) (simp_all add: plain_text_def)

lemma import_sort_rendered:
  "\<forall>(f, ord) \<in> set ps. plain_text f \<Longrightarrow> import_sort (map (\<lambda>(f, ord). f @ '':'' @ order_value ord) ps) fs =
     (Inr (), foldl (\<lambda>fs (f, ord). set_order f ord fs) fs ps)"
proof (induction ps arbitrary: fs)
  case (Cons p ps)
  obtain f ord where p: "p = (f, ord)" by (cases p)
  have "split_on (CHR '':'') (f @ '':'' @ order_value ord) = [f, order_value ord]"
    by (rule split_pair) (use Cons.prems p order_value_plain [of ord] in \<open>simp_all add: plain_text_def\<close>)
  moreover have "parse_order (Some (order_value ord)) = Inr ord" by (cases ord) (simp_all add: parse_order_def)
  ultimately have "sort_entry (f @ '':'' @ order_value ord) fs = Inr (set_order f ord fs)"
    by (simp add: sort_entry_def part_def)
  with Cons show ?case by (simp add: p)
qed simp

lemma parse_digits_decimal:
  assumes "list_all is_digit s" and "s \<noteq> []"
  shows "parse_digits s = Some (num_value s)"
proof -
  have t: "takeWhile is_digit s = s" using assms(1) by (simp add: list_all_iff)
  have "\<not> is_digit (CHR ''x'')" "\<not> is_digit (CHR ''X'')" by (simp_all add: is_digit_def)
  then have "y \<notin> {CHR ''x'', CHR ''X''}" if "s = x # y # r" for x y r using assms(1) that by auto
  then have "parse_digits s = (let ds = takeWhile is_digit s in if ds = [] then None else Some (num_value ds))"
    unfolding parse_digits_def by (auto simp: Let_def split: list.splits)
  with t assms(2) show ?thesis by (simp only: Let_def t) simp
qed

lemma parse_digits_show_nat: "parse_digits (show_nat n) = Some n"
  by (simp add: parse_digits_decimal)

lemma parseInt_number_text: "parseInt (number_text p) = p"
proof (cases p)
  case None
  then show ?thesis by (simp add: parseInt_def parse_digits_def number_text_def is_space_def is_digit_def)
next
  case (Some i)
  obtain c r where cr: "show_nat (nat i) = c # r" by (cases "show_nat (nat i)") simp_all
  then have "is_digit c" using show_nat_digits [of "nat i"] by simp
  then have c: "\<not> is_space c" "c \<noteq> CHR ''-''" "c \<noteq> CHR ''+''" by (auto simp: is_digit_def is_space_def)
  have "\<not> is_space (CHR ''-'')" by (simp add: is_space_def)
  with Some c cr parse_digits_show_nat [of "nat i"] parse_digits_show_nat [of "nat (- i)"] show ?thesis
    by (auto simp: parseInt_def number_text_def show_int_def)
qed

definition plain_query :: "search_query \<Rightarrow> bool" where
  "plain_query q \<longleftrightarrow> distinct (map qf_field (sq_fields q)) \<and> (\<forall>f\<in>set (sq_fields q). plain_name (qf_field f)) \<and>
     (\<forall>ff\<in>set (sq_filters q). plain_text (ff_field ff) \<and>
        (\<exists>op v. ff_operator ff = Some op \<and> ff_value ff = Some v \<and> plain_text op \<and> plain_text v))"

text \<open>What a query says of a field: its order, whether it is excluded, whether it is named.\<close>

definition said_of :: "query_field option \<Rightarrow> sort_order option \<times> bool \<times> bool" where
  "said_of f = (case f of None \<Rightarrow> (None, False, False)
     | Some f \<Rightarrow> (qf_order f, qf_exclude f, qf_includeExplicitly f = Some True))"

lemma sorted_fields_map_of:
  "distinct (map qf_field fs) \<Longrightarrow>
   map_of (concat (map (\<lambda>f. case qf_order f of None \<Rightarrow> [] | Some ord \<Rightarrow> [(qf_field f, ord)]) fs)) n =
     (case find_field n fs of None \<Rightarrow> None | Some f \<Rightarrow> qf_order f) \<and>
   distinct (map fst (concat (map (\<lambda>f. case qf_order f of None \<Rightarrow> [] | Some ord \<Rightarrow> [(qf_field f, ord)]) fs)))"
proof (induction fs)
  case (Cons f fs)
  have "find_field (qf_field f) fs = None" using Cons.prems by (auto simp: find_field_absent)
  moreover have "fst ` set (concat (map (\<lambda>f. case qf_order f of None \<Rightarrow> [] | Some ord \<Rightarrow> [(qf_field f, ord)]) fs))
      \<subseteq> qf_field ` set fs" by (auto split: option.splits)
  ultimately show ?case using Cons by (fastforce simp: find_field_Cons split: option.splits)
qed (simp add: find_field_def)

lemma find_filter_names:
  "distinct (map qf_field fs) \<Longrightarrow>
   n \<in> set (map qf_field (filter P fs)) \<longleftrightarrow> (\<exists>f. find_field n fs = Some f \<and> P f)"
proof (induction fs)
  case (Cons f fs)
  have "find_field (qf_field f) fs = None" using Cons.prems by (auto simp: find_field_absent)
  with Cons show ?case by (auto simp: find_field_Cons)
qed (simp add: find_field_def)

lemma filter_entry_rendered:
  assumes "plain_text (ff_field ff)" "ff_operator ff = Some op" "ff_value ff = Some v" "plain_text op" "plain_text v"
  shows "filter_entry (ff_field ff @ '':'' @ undefined_text (ff_operator ff) @ '':'' @ undefined_text (ff_value ff)) = ff"
  using assms split_triple [of "ff_field ff" op v]
  by (simp add: filter_entry_def undefined_text_def part_def plain_text_def)

lemma names_of_orders:
  "(f, ord) \<in> set (getSortedFields q) \<Longrightarrow> f \<in> qf_field ` set (sq_fields q)"
  by (auto simp: getSortedFields_def split: option.splits)

text \<open>What the import makes of the three lists of names that the export writes.\<close>

lemma import_of_names:
  assumes "distinct (map fst ps)" and "find_field n fs = None \<or> find_field n fs = Some (new_SearchQueryField n None None (Some True))"
  shows "said_of (find_field n (foldl (\<lambda>fs m. set_exclude m fs) (foldl (\<lambda>fs (f, ord). set_order f ord fs) fs ps) xs)) =
    (map_of ps n, n \<in> set xs, find_field n fs \<noteq> None)"
  using assms by (auto simp: find_excludes find_orders field_or_blank_def blank_field_def new_SearchQueryField_def said_of_def
      split: option.splits)

text \<open>What an import of the three lists says of every field.\<close>

lemma imported_fields_say:
  assumes d: "distinct (map qf_field (sq_fields q))"
  shows "said_of (find_field n (foldl (\<lambda>fs m. set_exclude m fs)
      (foldl (\<lambda>fs (f, ord). set_order f ord fs)
        (map (\<lambda>f. new_SearchQueryField f None None (Some True)) (explicit_fields (sq_fields q))) (getSortedFields q))
      (map qf_field (filter qf_exclude (sq_fields q))))) = said_of (getField n q)"
proof -
  let ?fs = "sq_fields q" and ?ps = "getSortedFields q"
  let ?X = "map qf_field (filter qf_exclude ?fs)"
  let ?named = "map (\<lambda>f. new_SearchQueryField f None None (Some True)) (explicit_fields ?fs)"
  have "find_field n ?named = None \<or> find_field n ?named = Some (new_SearchQueryField n None None (Some True))"
    by (simp add: find_explicit)
  moreover have "distinct (map fst ?ps)" and order: "map_of ?ps n = (case getField n q of None \<Rightarrow> None | Some f \<Rightarrow> qf_order f)"
    using sorted_fields_map_of [OF d, of n] by (simp_all add: getSortedFields_def getField_def)
  ultimately have said: "said_of (find_field n (foldl (\<lambda>fs m. set_exclude m fs) (foldl (\<lambda>fs (f, ord). set_order f ord fs) ?named ?ps) ?X)) = (map_of ?ps n, n \<in> set ?X, find_field n ?named \<noteq> None)"
    by (intro import_of_names)
  have exclude: "n \<in> set ?X \<longleftrightarrow> (\<exists>f. getField n q = Some f \<and> qf_exclude f)"
    using find_filter_names [OF d, of n qf_exclude] by (simp add: getField_def)
  have named: "find_field n ?named \<noteq> None \<longleftrightarrow> (\<exists>f. getField n q = Some f \<and> qf_includeExplicitly f = Some True)"
    unfolding find_explicit using find_filter_names [OF d, of n "\<lambda>f. qf_includeExplicitly f = Some True"]
    by (simp add: getField_def explicit_fields_def)
  show ?thesis unfolding said order exclude named by (simp add: said_of_def split: option.splits)
qed

text \<open>
  Claim C24. A query survives the query string when its fields have distinct names that are not
  empty, every filter has an operator and a value, and all of these are free of commas and colons:
  importing what it exports gives the same page, maximum, text and filters, and every field is
  named, ordered and excluded as it was. The order among the fields, which is the priority in
  sorting, is not part of it: it is lost.
\<close>

theorem query_parameters_round_trip:
  assumes "plain_query q"
  shows "\<exists>q'. importQueryParameters (exportQueryParameters q) (new_SearchQuery None) = (Inr (), q') \<and>
    sq_query q' = sq_query q \<and> sq_page q' = sq_page q \<and> sq_maximum q' = sq_maximum q \<and> sq_filters q' = sq_filters q \<and>
    (\<forall>n. said_of (getField n q') = said_of (getField n q))"
proof -
  let ?fs = "sq_fields q" and ?ps = "getSortedFields q"
  let ?E = "explicit_fields ?fs" and ?X = "map qf_field (filter qf_exclude ?fs)"
  let ?S = "map (\<lambda>(f, ord). f @ '':'' @ order_value ord) ?ps"
  let ?F = "map (\<lambda>ff. ff_field ff @ '':'' @ undefined_text (ff_operator ff) @ '':'' @ undefined_text (ff_value ff)) (sq_filters q)"
  let ?named = "map (\<lambda>f. new_SearchQueryField f None None (Some True)) ?E"
  have d: "distinct (map qf_field ?fs)" and names: "\<forall>f\<in>set ?fs. plain_name (qf_field f)"
    and filters: "\<And>ff. ff \<in> set (sq_filters q) \<Longrightarrow> plain_text (ff_field ff) \<and>
        (\<exists>op v. ff_operator ff = Some op \<and> ff_value ff = Some v \<and> plain_text op \<and> plain_text v)"
    using assms by (auto simp: plain_query_def)
  have E: "\<forall>x\<in>set ?E. x \<noteq> [] \<and> CHR '','' \<notin> set x" and X: "\<forall>x\<in>set ?X. x \<noteq> [] \<and> CHR '','' \<notin> set x"
    using names by (auto simp: explicit_fields_def plain_name_def plain_text_def)
  have plain: "plain_text f" if "(f, ord) \<in> set ?ps" for f ord
    using names_of_orders [OF that] names by (auto simp: plain_name_def)
  then have S: "\<forall>x\<in>set ?S. x \<noteq> [] \<and> CHR '','' \<notin> set x"
    using order_value_plain by (auto simp: plain_text_def)
  have F: "\<forall>x\<in>set ?F. x \<noteq> [] \<and> CHR '','' \<notin> set x"
    using filters by (fastforce simp: plain_text_def undefined_text_def)
  have entries: "map filter_entry ?F = sq_filters q"
    unfolding map_map by (rule map_idI) (use filters filter_entry_rendered in \<open>fastforce\<close>)
  have sorts: "import_sort ?S fs = (Inr (), foldl (\<lambda>fs (f, ord). set_order f ord fs) fs ?ps)" for fs
    by (rule import_sort_rendered) (use plain in auto)
  let ?q' = "\<lparr>sq_fields = foldl (\<lambda>fs m. set_exclude m fs) (foldl (\<lambda>fs (f, ord). set_order f ord fs) ?named ?ps) ?X,
    sq_page = sq_page q, sq_maximum = sq_maximum q, sq_query = sq_query q, sq_filters = sq_filters q\<rparr>"
  have numbers: "given (Some (number_text p)) = Some (number_text p)" for p
    by (cases p) (simp_all add: given_def number_text_def show_int_def)
  have "importQueryParameters (exportQueryParameters q) (new_SearchQuery None) = (Inr (), ?q')"
    unfolding importQueryParameters_def exportQueryParameters_def query_parameters.simps
      given_join [OF E] listed_join [OF S] listed_join [OF F] listed_join [OF X] numbers
    by (simp add: new_SearchQuery_def parseInt_number_text sorts [simplified] entries [unfolded map_map, simplified] Let_def split: option.splits)
  moreover have "said_of (getField n ?q') = said_of (getField n q)" for n
    using imported_fields_say [OF d, of n] by (simp add: getField_def)
  ultimately show ?thesis by (intro exI [of _ ?q']) simp
qed

text \<open>The order in which the fields sort is not kept: fields named explicitly come first.\<close>

definition two_sorts :: search_query where
  "two_sorts = (new_SearchQuery None)\<lparr>sq_fields :=
     [new_SearchQueryField ''name'' (Some Ascending) None None, new_SearchQueryField ''age'' (Some Descending) None (Some True)]\<rparr>"

theorem query_parameters_round_trip_witness:
  "\<exists>q'. importQueryParameters (exportQueryParameters two_sorts) (new_SearchQuery None) = (Inr (), q') \<and>
     said_of (getField ''age'' q') = (Some Descending, False, True)"
proof -
  have "plain_query two_sorts"
    by (simp add: plain_query_def two_sorts_def new_SearchQuery_def new_SearchQueryField_def plain_name_def plain_text_def)
  moreover have "said_of (getField ''age'' two_sorts) = (Some Descending, False, True)"
    by (simp add: two_sorts_def new_SearchQuery_def new_SearchQueryField_def getField_def find_field_def said_of_def)
  ultimately show ?thesis using query_parameters_round_trip [of two_sorts] by metis
qed

lemma sort_priority_is_lost:
  "getSortedFields two_sorts = [(''name'', Ascending), (''age'', Descending)]"
  "getSortedFields (snd (importQueryParameters (exportQueryParameters two_sorts) (new_SearchQuery None))) =
     [(''age'', Descending), (''name'', Ascending)]"
  by code_simp+

text \<open>The value of a filter ends at its first colon.\<close>

lemma filter_value_is_cut: "filter_entry ''at:gte:10:30'' = \<lparr>ff_field = ''at'', ff_operator = Some ''gte'', ff_value = Some ''10''\<rparr>"
  by code_simp

section \<open>The naming strategies\<close>

lemma lower_char_upper: "is_upper c \<Longrightarrow> is_lower (lower_char c) \<and> upper_char (lower_char c) = c"
proof -
  assume "is_upper c"
  then have n: "65 \<le> (of_char c :: nat)" "(of_char c :: nat) \<le> 90" by (simp_all add: is_upper_def)
  then have "(of_char (lower_char c) :: nat) = of_char c + 32"
    by (simp add: lower_char_def Let_def of_char_of)
  with n show ?thesis by (simp add: is_lower_def upper_char_def Let_def)
qed

text \<open>Names of letters and digits, as properties of a class are called.\<close>

definition property_name :: "string \<Rightarrow> bool" where
  "property_name s \<longleftrightarrow> list_all (\<lambda>c. is_upper c \<or> is_lower c \<or> is_digit c) s"

lemma lower_char_kept: "is_lower c \<or> is_digit c \<Longrightarrow> lower_char c = c"
  by (auto simp: lower_char_def is_lower_def is_digit_def Let_def)

lemma camel_snake_inverse: "property_name p \<Longrightarrow> camelCaseColumnStrategy (snakeCaseColumnStrategy p) = p"
proof (induction p)
  case (Cons c p)
  have underscore: "lower_char (CHR ''_'') = CHR ''_''" by (simp add: lower_char_def)
  have rest: "camelCaseColumnStrategy (snakeCaseColumnStrategy p) = p" using Cons by (simp add: property_name_def)
  show ?case
  proof (cases "is_upper c")
    case True
    then have "snakeCaseColumnStrategy (c # p) = CHR ''_'' # lower_char c # snakeCaseColumnStrategy p"
      using underscore by (simp add: snakeCaseColumnStrategy_def to_lower_def)
    with lower_char_upper [OF True] rest show ?thesis by simp
  next
    case False
    then have c: "is_lower c \<or> is_digit c" using Cons.prems by (auto simp: property_name_def)
    then have ne: "c \<noteq> CHR ''_''" by (auto simp: is_lower_def is_digit_def)
    have "snakeCaseColumnStrategy (c # p) = c # snakeCaseColumnStrategy p"
      using False lower_char_kept [OF c] by (simp add: snakeCaseColumnStrategy_def to_lower_def)
    with ne rest show ?thesis by (cases "snakeCaseColumnStrategy p") auto
  qed
qed (simp add: snakeCaseColumnStrategy_def to_lower_def)

end
