(* ===== verification/Sql_Clients.thy ===== *)
theory Sql_Clients
  imports Search_Query
begin

text \<open>
  The SQL clients (\<open>packages/mysql\<close> and \<open>packages/sqlite\<close>, \<open>clients/\<close>) over the metadata of
  \<open>packages/database-common\<close>: the statements they make of entities and search queries, the rows
  they map back, and the connections they open. The database, the text decoder, \<open>JSON.parse\<close> and
  the injected data mapper are arguments; a reply is its list of rows, empty for a statement that
  has none. Log entries are left out.
\<close>

section \<open>Metadata\<close>

record column_metadata =
  cd_name :: "string option"
  cd_isPrimaryKey :: bool
  cd_isSearchable :: bool
  cd_isJsonBlob :: bool

definition column_decorator :: "string option \<Rightarrow> bool option \<Rightarrow> bool option \<Rightarrow> bool option \<Rightarrow> column_metadata" where
  "column_decorator name pk searchable blob =
     \<lparr>cd_name = name, cd_isPrimaryKey = (pk = Some True),
      cd_isSearchable = (case searchable of Some b \<Rightarrow> b | None \<Rightarrow> True),
      cd_isJsonBlob = (case blob of Some b \<Rightarrow> b | None \<Rightarrow> False)\<rparr>"

record table_metadata =
  td_tableName :: string
  td_strategy :: "(string \<Rightarrow> string) option"
  td_reverse :: "(string \<Rightarrow> string) option"

record entity_class =
  mc_name :: string
  mc_table :: "table_metadata option"
  mc_properties :: "string list"
  mc_column :: "string \<Rightarrow> column_metadata option"

record entity =
  en_class :: entity_class
  en_fields :: "(string \<times> jsv) list"

definition sql_error :: "string \<Rightarrow> thrown" where
  "sql_error msg = NativeErr ''Error'' msg None None"

definition getTableMetadata :: "entity_class \<Rightarrow> thrown + table_metadata" where
  "getTableMetadata c = (case mc_table c of
       Some t \<Rightarrow> Inr t
     | None \<Rightarrow> Inl (sql_error (''The class '' @ mc_name c @ '' does not have the @table decorator.'')))"

definition getColumnMetadata :: "entity_class \<Rightarrow> string \<Rightarrow> thrown + column_metadata" where
  "getColumnMetadata c p = (case mc_column c p of
       Some m \<Rightarrow> Inr m
     | None \<Rightarrow> Inl (sql_error (''The property '' @ p @ '' does not have the @column decorator.'')))"

fun collect_columns :: "entity_class \<Rightarrow> string list \<Rightarrow> column_metadata obj \<Rightarrow> thrown + column_metadata obj" where
  "collect_columns c [] acc = Inr acc"
| "collect_columns c (p # ps) acc = sum_bind (getColumnMetadata c p) (\<lambda>m. collect_columns c ps (obj_set p m acc))"

definition getColumnsMetadata :: "entity_class \<Rightarrow> thrown + column_metadata obj" where
  "getColumnsMetadata c = collect_columns c (mc_properties c) []"

fun primary_loop :: "entity_class \<Rightarrow> column_metadata obj \<Rightarrow> string list \<Rightarrow> string option \<Rightarrow> thrown + string option" where
  "primary_loop c columns [] acc = Inr acc"
| "primary_loop c columns (k # ks) acc =
     (if map_option cd_isPrimaryKey (obj_get columns k) = Some True then
        if given acc \<noteq> None then Inl (sql_error (''The class '' @ mc_name c @ '' has more than one primary key.''))
        else primary_loop c columns ks (Some k)
      else primary_loop c columns ks acc)"

definition getPrimaryKeyPropertyName :: "entity_class \<Rightarrow> thrown + string" where
  "getPrimaryKeyPropertyName c =
     sum_bind (getColumnsMetadata c) (\<lambda>columns.
     sum_bind (primary_loop c columns (obj_keys columns) None) (\<lambda>acc.
     case given acc of
       Some k \<Rightarrow> Inr k
     | None \<Rightarrow> Inl (sql_error (''The class '' @ mc_name c @ '' does not have a primary key.''))))"

definition getColumnName :: "entity_class \<Rightarrow> string \<Rightarrow> thrown + string" where
  "getColumnName c p =
     sum_bind (getColumnsMetadata c) (\<lambda>_.
     sum_bind (getColumnMetadata c p) (\<lambda>m.
     case given (cd_name m) of
       Some n \<Rightarrow> Inr n
     | None \<Rightarrow> sum_bind (getTableMetadata c) (\<lambda>t. Inr (case td_strategy t of Some f \<Rightarrow> f p | None \<Rightarrow> p))))"

definition getPrimaryKeyColumnName :: "entity_class \<Rightarrow> thrown + string" where
  "getPrimaryKeyColumnName c = sum_bind (getPrimaryKeyPropertyName c) (getColumnName c)"

section \<open>Statements\<close>

record statement =
  st_text :: string
  st_values :: "jsv list"

definition by_key :: "string \<Rightarrow> entity_class \<Rightarrow> jsv \<Rightarrow> thrown + statement" where
  "by_key verb c pk =
     sum_bind (getTableMetadata c) (\<lambda>t.
     sum_bind (getPrimaryKeyColumnName c) (\<lambda>k.
     Inr \<lparr>st_text = verb @ td_tableName t @ '' WHERE '' @ k @ '' = ?'', st_values = [pk]\<rparr>))"

definition column_value :: "entity \<Rightarrow> string \<Rightarrow> thrown + jsv" where
  "column_value e p = sum_bind (getColumnMetadata (en_class e) p) (\<lambda>m. let v = property (en_fields e) p in
     Inr (if cd_isJsonBlob m then (case json_stringify v of Some s \<Rightarrow> js_string s | None \<Rightarrow> JUndefined) else v))"

definition create_statement :: "entity \<Rightarrow> thrown + statement" where
  "create_statement e = (let c = en_class e in
     sum_bind (getColumnsMetadata c) (\<lambda>columns.
     sum_bind (collect (\<lambda>_. getColumnName c) 0 (obj_keys columns)) (\<lambda>names.
     sum_bind (collect (\<lambda>_. column_value e) 0 (obj_keys columns)) (\<lambda>values.
     sum_bind (getTableMetadata c) (\<lambda>t.
     Inr \<lparr>st_text = ''INSERT INTO '' @ td_tableName t @ '' ('' @ join '', '' names @ '') VALUES ('' @
            join '', '' (map (\<lambda>_. ''?'') values) @ '')'',
          st_values = values\<rparr>)))))"

definition update_statement :: "entity \<Rightarrow> thrown + statement" where
  "update_statement e = (let c = en_class e in
     sum_bind (getColumnsMetadata c) (\<lambda>columns.
     sum_bind (getPrimaryKeyColumnName c) (\<lambda>pkColumn.
     sum_bind (getPrimaryKeyPropertyName c) (\<lambda>pk.
     let ps = filter (\<lambda>p. p \<noteq> pk) (obj_keys columns) in
     sum_bind (collect (\<lambda>_. getColumnName c) 0 ps) (\<lambda>names.
     sum_bind (collect (\<lambda>_. column_value e) 0 ps) (\<lambda>values.
     sum_bind (getTableMetadata c) (\<lambda>t.
     Inr \<lparr>st_text = ''UPDATE '' @ td_tableName t @ '' SET '' @ join '' = ?, '' names @ '' = ? WHERE '' @ pkColumn @ '' = ?'',
          st_values = values @ [property (en_fields e) pk]\<rparr>)))))))"

section \<open>Searching\<close>

definition searched_fields :: "string list \<Rightarrow> search_query \<Rightarrow> string list" where
  "searched_fields defaults q =
     (let explicit = explicit_fields (sq_fields q);
          chosen = (if explicit = [] then defaults else explicit);
          kept = filter (\<lambda>n. \<not> list_ex (\<lambda>f. qf_field f = n \<and> qf_exclude f) (sq_fields q)) chosen
      in map snakeCaseColumnStrategy kept)"

definition like_clause :: "string list \<Rightarrow> string \<Rightarrow> string \<times> jsv list" where
  "like_clause cols text = ('' AND '' @ join '' OR '' (map (\<lambda>f. f @ '' LIKE ?'') cols),
     map (\<lambda>_. js_string (''%'' @ text @ ''%'')) cols)"

definition operator_text :: "string option \<Rightarrow> string option" where
  "operator_text op =
     (if op = Some ''eq'' then Some ''='' else if op = Some ''ne'' then Some ''!=''
      else if op = Some ''gt'' then Some ''>'' else if op = Some ''gte'' then Some ''>=''
      else if op = Some ''lt'' then Some ''<'' else if op = Some ''lte'' then Some ''<='' else None)"

fun filter_clauses :: "entity_class \<Rightarrow> field_filter list \<Rightarrow> thrown + (string \<times> jsv list)" where
  "filter_clauses c [] = Inr ([], [])"
| "filter_clauses c (ff # ffs) =
     sum_bind (getColumnName c (ff_field ff)) (\<lambda>column.
     sum_bind (filter_clauses c ffs) (\<lambda>(sql, vs).
     Inr (case operator_text (ff_operator ff) of
         None \<Rightarrow> (sql, vs)
       | Some op \<Rightarrow> ('' AND '' @ column @ '' '' @ op @ '' ?'' @ sql,
           (case ff_value ff of Some v \<Rightarrow> js_string v | None \<Rightarrow> JUndefined) # vs))))"

definition order_clause :: "query_field list \<Rightarrow> string" where
  "order_clause fs =
     (let os = concat (map (\<lambda>f. case qf_order f of
            None \<Rightarrow> [] | Some ord \<Rightarrow> [snakeCaseColumnStrategy (qf_field f) @ '' '' @ to_upper (order_value ord)]) fs)
      in if os = [] then [] else '' ORDER BY '' @ join '', '' os)"

text \<open>The table, the text after \<open>WHERE 1=1\<close>, and the values.\<close>

definition search_condition :: "entity_class \<Rightarrow> search_query \<Rightarrow> thrown + (string \<times> string \<times> jsv list)" where
  "search_condition c q =
     sum_bind (getColumnsMetadata c) (\<lambda>columns.
     sum_bind (collect (\<lambda>_. getColumnName c) 0
        (filter (\<lambda>k. map_option cd_isSearchable (obj_get columns k) = Some True) (obj_keys columns))) (\<lambda>defaults.
     sum_bind (getTableMetadata c) (\<lambda>t.
     let (likes, ls) = (case given (sq_query q) of
           Some text \<Rightarrow> like_clause (searched_fields defaults q) text | None \<Rightarrow> ([], [])) in
     sum_bind (filter_clauses c (sq_filters q)) (\<lambda>(filters, fs).
     Inr (td_tableName t, likes @ filters @ order_clause (sq_fields q), ls @ fs)))))"

definition count_statement :: "string \<Rightarrow> string \<Rightarrow> jsv list \<Rightarrow> statement" where
  "count_statement table sql vs =
     \<lparr>st_text = ''SELECT COUNT(*) as total_number_of_results FROM `'' @ table @ ''` WHERE 1=1 '' @ sql, st_values = vs\<rparr>"

definition page_offset :: "search_query \<Rightarrow> int option" where
  "page_offset q = Option.bind (sq_page q) (\<lambda>p. map_option (\<lambda>m. (p - 1) * m) (sq_maximum q))"

definition page_statement :: "string \<Rightarrow> string \<Rightarrow> jsv list \<Rightarrow> search_query \<Rightarrow> statement" where
  "page_statement table sql vs q =
     \<lparr>st_text = ''SELECT * FROM `'' @ table @ ''` WHERE 1=1 '' @ sql @ '' LIMIT '' @ number_text (sq_maximum q) @
        '' OFFSET '' @ number_text (page_offset q),
      st_values = vs\<rparr>"

record search_result =
  sr_page :: "int option"
  sr_numberOfResultsReturned :: nat
  sr_totalNumberOfResults :: jsv
  sr_maximum :: "int option"
  sr_results :: "jsv list"

section \<open>Rows\<close>

record row_functions =
  rf_decode :: "jsv \<Rightarrow> string"
  rf_parse :: "string \<Rightarrow> thrown + jsv"
  rf_autoMap :: "entity_class \<Rightarrow> bool \<Rightarrow> jsv list \<Rightarrow> thrown + jsv list"

record map_options =
  mo_excludeFields :: "string list option"
  mo_logMappingErrors :: "bool option"

text \<open>The keys of a row are visited as they were before the first one is renamed.\<close>

definition rename_key :: "row_functions \<Rightarrow> entity_class \<Rightarrow> string list option \<Rightarrow> (string \<Rightarrow> string) \<Rightarrow>
  (string \<times> jsv) list \<Rightarrow> string \<Rightarrow> (string \<times> jsv) list" where
  "rename_key fns c excluded strategy row key =
     (let newKey = strategy key; v = property row key in
      if (case excluded of Some fs \<Rightarrow> newKey \<in> set fs | None \<Rightarrow> False) then obj_delete key row
      else (let w = (if map_option cd_isJsonBlob (mc_column c newKey) = Some True
               then (case JsonBlobUtils_parse (rf_decode fns) (rf_parse fns) v of Inl _ \<Rightarrow> v | Inr w \<Rightarrow> w) else v);
                row1 = obj_set newKey w row
            in if key \<noteq> newKey then obj_delete key row1 else row1))"

definition rename_row :: "row_functions \<Rightarrow> entity_class \<Rightarrow> string list option \<Rightarrow> (string \<Rightarrow> string) \<Rightarrow>
  (string \<times> jsv) list \<Rightarrow> (string \<times> jsv) list" where
  "rename_row fns c excluded strategy row = foldl (rename_key fns c excluded strategy) row (obj_keys row)"

definition row_fields :: "jsv \<Rightarrow> (string \<times> jsv) list" where
  "row_fields r = (case r of JObject ob \<Rightarrow> ob | JInstance n ob \<Rightarrow> ob | _ \<Rightarrow> [])"

definition mapResults :: "bool \<Rightarrow> row_functions \<Rightarrow> entity_class \<Rightarrow> map_options \<Rightarrow> jsv list \<Rightarrow> thrown + jsv list" where
  "mapResults logByDefault fns c opts rows =
     sum_bind (getTableMetadata c) (\<lambda>t.
     let rows' = (case td_reverse t of
           None \<Rightarrow> rows
         | Some f \<Rightarrow> map (\<lambda>r. JObject (rename_row fns c (mo_excludeFields opts) f (row_fields r))) rows)
     in rf_autoMap fns c (case mo_logMappingErrors opts of Some b \<Rightarrow> b | None \<Rightarrow> logByDefault) rows')"

section \<open>Configurations\<close>

record 'c config_provider =
  cp_supports :: "string \<Rightarrow> bool"
  cp_config :: "string \<Rightarrow> thrown + 'c"

definition find_config :: "string \<Rightarrow> 'c config_provider list \<Rightarrow> string \<Rightarrow> thrown + 'c" where
  "find_config engine providers key = (case find (\<lambda>p. cp_supports p key) providers of
       None \<Rightarrow> Inl (sql_error (''The '' @ engine @ '' config with the keyname '' @ key @ '' does not exist.''))
     | Some p \<Rightarrow> cp_config p key)"

text \<open>The default providers: the first registered configuration of the keyname.\<close>

definition default_provider :: "string \<Rightarrow> ('c \<Rightarrow> string) \<Rightarrow> 'c list \<Rightarrow> 'c config_provider" where
  "default_provider engine keyname configs =
     \<lparr>cp_supports = (\<lambda>k. list_ex (\<lambda>c. keyname c = k) configs),
      cp_config = (\<lambda>k. case find (\<lambda>c. keyname c = k) configs of
          Some c \<Rightarrow> Inr c
        | None \<Rightarrow> Inl (sql_error (''The '' @ engine @ '' config with the unique keyname '' @ k @ '' does not exist.'')))\<rparr>"

section \<open>The MySQL client\<close>

record mysql_config =
  mq_uniqueKeyname :: string
  mq_host :: string
  mq_port :: nat
  mq_user :: string
  mq_password :: string
  mq_connectionLimit :: nat
  mq_debug :: bool
  mq_database :: string
  mq_multipleStatements :: "bool option"

record 'd mysql_env =
  me_providers :: "mysql_config config_provider list"
  me_rows :: row_functions
  me_query :: "nat \<Rightarrow> statement \<Rightarrow> 'd \<Rightarrow> (thrown + jsv list) \<times> 'd"

text \<open>A pool is its position among the pools made; \<open>ms_made\<close> holds the options of each.\<close>

record 'd mysql_state =
  ms_pools :: "nat obj"
  ms_made :: "mysql_config list"
  ms_sent :: "(nat \<times> statement) list"
  ms_database :: 'd

definition createPool :: "mysql_config \<Rightarrow> 'd mysql_state \<Rightarrow> nat \<times> 'd mysql_state" where
  "createPool cfg st = (length (ms_made st), st\<lparr>ms_made := ms_made st @ [cfg\<lparr>mq_multipleStatements :=
     Some (case mq_multipleStatements cfg of Some b \<Rightarrow> b | None \<Rightarrow> False)\<rparr>]\<rparr>)"

text \<open>\<open>getPool\<close> after its configuration has come.\<close>

definition make_pool :: "string \<Rightarrow> mysql_config \<Rightarrow> 'd mysql_state \<Rightarrow> 'd mysql_state" where
  "make_pool key cfg st = (let (h, st1) = createPool cfg st in st1\<lparr>ms_pools := obj_set key h (ms_pools st1)\<rparr>)"

definition getPool :: "'d mysql_env \<Rightarrow> string \<Rightarrow> bool \<Rightarrow> 'd mysql_state \<Rightarrow> (thrown + nat option) \<times> 'd mysql_state" where
  "getPool env key force st =
     (if \<not> obj_has (ms_pools st) key \<and> \<not> force then
        (case find_config ''mysql'' (me_providers env) key of
           Inl e \<Rightarrow> (Inl e, st)
         | Inr cfg \<Rightarrow> (let st1 = make_pool key cfg st in (Inr (obj_get (ms_pools st1) key), st1)))
      else (Inr (obj_get (ms_pools st) key), st))"

definition mysql_executeSql :: "'d mysql_env \<Rightarrow> string \<Rightarrow> statement \<Rightarrow> 'd mysql_state \<Rightarrow> (thrown + jsv list) \<times> 'd mysql_state" where
  "mysql_executeSql env key stm st =
     (case getPool env key False st of
        (Inl e, st1) \<Rightarrow> (Inl e, st1)
      | (Inr None, st1) \<Rightarrow> (Inl (read_error JUndefined ''query''), st1)
      | (Inr (Some h), st1) \<Rightarrow>
          (let (r, d) = me_query env h stm (ms_database st1)
           in (r, st1\<lparr>ms_sent := ms_sent st1 @ [(h, stm)], ms_database := d\<rparr>)))"

text \<open>\<open>querySql\<close> differs in its log entries.\<close>

definition mysql_querySql :: "'d mysql_env \<Rightarrow> string \<Rightarrow> statement \<Rightarrow> 'd mysql_state \<Rightarrow> (thrown + jsv list) \<times> 'd mysql_state" where
  "mysql_querySql env key stm st = mysql_executeSql env key stm st"

definition mysql_mapResults :: "row_functions \<Rightarrow> entity_class \<Rightarrow> map_options \<Rightarrow> jsv list \<Rightarrow> thrown + jsv list" where
  "mysql_mapResults = mapResults True"

text \<open>The statement is made before the pool is asked for, and an error of it is thrown at once.\<close>

definition mysql_run :: "'d mysql_env \<Rightarrow> string \<Rightarrow> thrown + statement \<Rightarrow> 'd mysql_state \<Rightarrow> (thrown + jsv list) \<times> 'd mysql_state" where
  "mysql_run env key s st = (case s of Inl e \<Rightarrow> (Inl e, st) | Inr stm \<Rightarrow> mysql_executeSql env key stm st)"

definition mysql_get :: "'d mysql_env \<Rightarrow> string \<Rightarrow> entity_class \<Rightarrow> jsv \<Rightarrow> bool option \<Rightarrow> 'd mysql_state \<Rightarrow>
  (thrown + jsv) \<times> 'd mysql_state" where
  "mysql_get env key c pk logErrors st =
     (case mysql_run env key (by_key ''SELECT * FROM '' c pk) st of
        (Inl e, st1) \<Rightarrow> (Inl e, st1)
      | (Inr rows, st1) \<Rightarrow>
          (sum_bind (mysql_mapResults (me_rows env) c \<lparr>mo_excludeFields = None, mo_logMappingErrors = logErrors\<rparr> rows)
             (\<lambda>xs. Inr (element xs 0)), st1))"

definition mysql_create :: "'d mysql_env \<Rightarrow> string \<Rightarrow> entity \<Rightarrow> 'd mysql_state \<Rightarrow> (thrown + unit) \<times> 'd mysql_state" where
  "mysql_create env key e st = (let (r, st1) = mysql_run env key (create_statement e) st in (sum_bind r (\<lambda>_. Inr ()), st1))"

definition mysql_update :: "'d mysql_env \<Rightarrow> string \<Rightarrow> entity \<Rightarrow> 'd mysql_state \<Rightarrow> (thrown + unit) \<times> 'd mysql_state" where
  "mysql_update env key e st = (let (r, st1) = mysql_run env key (update_statement e) st in (sum_bind r (\<lambda>_. Inr ()), st1))"

definition mysql_delete :: "'d mysql_env \<Rightarrow> string \<Rightarrow> entity_class \<Rightarrow> jsv \<Rightarrow> 'd mysql_state \<Rightarrow> (thrown + unit) \<times> 'd mysql_state" where
  "mysql_delete env key c pk st = (let (r, st1) = mysql_run env key (by_key ''DELETE FROM '' c pk) st in (sum_bind r (\<lambda>_. Inr ()), st1))"

text \<open>The result that both clients make of the two replies.\<close>

definition total_of :: "jsv list \<Rightarrow> thrown + jsv" where
  "total_of rows = get_prop (element rows 0) ''total_number_of_results''"

definition search_result_of :: "search_query \<Rightarrow> jsv \<Rightarrow> jsv list \<Rightarrow> jsv list \<Rightarrow> search_result" where
  "search_result_of q n rows results =
     \<lparr>sr_page = sq_page q, sr_numberOfResultsReturned = length rows, sr_totalNumberOfResults = n,
      sr_maximum = sq_maximum q, sr_results = results\<rparr>"

text \<open>Of the options, only \<open>logMappingErrors\<close> has the name that \<open>mapResults\<close> reads.\<close>

record search_call_options =
  sc_logMappingErrors :: "bool option"
  sc_excludeFieldsFromResponse :: "string list option"

definition options_read :: "search_call_options \<Rightarrow> map_options" where
  "options_read opts = \<lparr>mo_excludeFields = None, mo_logMappingErrors = sc_logMappingErrors opts\<rparr>"

definition mysql_search :: "'d mysql_env \<Rightarrow> string \<Rightarrow> entity_class \<Rightarrow> search_query \<Rightarrow> search_call_options \<Rightarrow> 'd mysql_state \<Rightarrow>
  (thrown + search_result) \<times> 'd mysql_state" where
  "mysql_search env key c q opts st =
     (case search_condition c q of
        Inl e \<Rightarrow> (Inl e, st)
      | Inr (table, sql, vs) \<Rightarrow>
          (case mysql_executeSql env key (count_statement table sql vs) st of
             (Inl e, st1) \<Rightarrow> (Inl e, st1)
           | (Inr counts, st1) \<Rightarrow>
               (case total_of counts of
                  Inl e \<Rightarrow> (Inl e, st1)
                | Inr n \<Rightarrow>
                    (case mysql_executeSql env key (page_statement table sql vs q) st1 of
                       (Inl e, st2) \<Rightarrow> (Inl e, st2)
                     | (Inr rows, st2) \<Rightarrow>
                         (sum_bind (mysql_mapResults (me_rows env) c (options_read opts) rows)
                            (\<lambda>xs. Inr (search_result_of q n rows xs)), st2)))))"

end
