(* ===== verification/Sqlite_Client.thy ===== *)
theory Sqlite_Client
  imports Sql_Clients
begin

text \<open>
  The SQLite client (\<open>packages/sqlite\<close>, \<open>clients/sqlite.client.ts\<close>): its handles, which
  \<open>node:sqlite\<close> closes once and refuses to use afterwards, the values it binds, and the operations
  on entities it shares with the MySQL client. What opening, executing and querying do is an
  argument.
\<close>

section \<open>Handles\<close>

datatype journal_mode = Journal_Delete | Journal_Truncate | Journal_Persist | Journal_Memory | Journal_Wal | Journal_Off

fun journal_text :: "journal_mode \<Rightarrow> string" where
  "journal_text Journal_Delete = ''delete''"
| "journal_text Journal_Truncate = ''truncate''"
| "journal_text Journal_Persist = ''persist''"
| "journal_text Journal_Memory = ''memory''"
| "journal_text Journal_Wal = ''wal''"
| "journal_text Journal_Off = ''off''"

record sqlite_config =
  sl_uniqueKeyname :: string
  sl_filename :: string
  sl_readOnly :: "bool option"
  sl_enableForeignKeyConstraints :: "bool option"
  sl_journalMode :: "journal_mode option"
  sl_busyTimeoutMs :: "nat option"

record open_options =
  oo_readOnly :: bool
  oo_enableForeignKeyConstraints :: bool
  oo_timeout :: nat

record 'd sqlite_env =
  se_providers :: "sqlite_config config_provider list"
  se_rows :: row_functions
  se_open :: "string \<Rightarrow> open_options \<Rightarrow> 'd \<Rightarrow> (thrown + unit) \<times> 'd"
  se_exec :: "nat \<Rightarrow> string \<Rightarrow> 'd \<Rightarrow> (thrown + unit) \<times> 'd"
  se_run :: "nat \<Rightarrow> statement \<Rightarrow> 'd \<Rightarrow> (thrown + jsv) \<times> 'd"
  se_all :: "nat \<Rightarrow> statement \<Rightarrow> 'd \<Rightarrow> (thrown + jsv list) \<times> 'd"
  se_iso :: "jsv \<Rightarrow> jsv"

text \<open>A handle is its position among those made; \<open>ss_handles\<close> says which are open.\<close>

record 'd sqlite_state =
  ss_databases :: "nat obj"
  ss_handles :: "bool list"
  ss_sent :: "(nat \<times> statement) list"
  ss_database :: 'd

definition handle_open :: "'d sqlite_state \<Rightarrow> nat \<Rightarrow> bool" where
  "handle_open st h \<longleftrightarrow> h < length (ss_handles st) \<and> ss_handles st ! h"

definition not_open :: thrown where
  "not_open = sql_error ''database is not open''"

definition close_handle :: "nat \<Rightarrow> 'd sqlite_state \<Rightarrow> (thrown + unit) \<times> 'd sqlite_state" where
  "close_handle h st = (if handle_open st h then (Inr (), st\<lparr>ss_handles := (ss_handles st)[h := False]\<rparr>) else (Inl not_open, st))"

definition open_handle :: "'d sqlite_env \<Rightarrow> sqlite_config \<Rightarrow> 'd sqlite_state \<Rightarrow> (thrown + nat) \<times> 'd sqlite_state" where
  "open_handle env cfg st =
     (case se_open env (sl_filename cfg)
         \<lparr>oo_readOnly = (case sl_readOnly cfg of Some b \<Rightarrow> b | None \<Rightarrow> False),
          oo_enableForeignKeyConstraints = (case sl_enableForeignKeyConstraints cfg of Some b \<Rightarrow> b | None \<Rightarrow> True),
          oo_timeout = (case sl_busyTimeoutMs cfg of Some n \<Rightarrow> n | None \<Rightarrow> 5000)\<rparr> (ss_database st) of
        (Inl e, d) \<Rightarrow> (Inl e, st\<lparr>ss_database := d\<rparr>)
      | (Inr _, d) \<Rightarrow> (Inr (length (ss_handles st)), st\<lparr>ss_database := d, ss_handles := ss_handles st @ [True]\<rparr>))"

text \<open>The handle that is being replaced, if there is one.\<close>

definition drop_previous :: "string \<Rightarrow> 'd sqlite_state \<Rightarrow> (thrown + unit) \<times> 'd sqlite_state" where
  "drop_previous key st = (case obj_get (ss_databases st) key of
       None \<Rightarrow> (Inr (), st)
     | Some h \<Rightarrow> (case close_handle h st of
           (Inl e, st1) \<Rightarrow> (Inl e, st1)
         | (Inr _, st1) \<Rightarrow> (Inr (), st1\<lparr>ss_databases := obj_delete key (ss_databases st1)\<rparr>)))"

definition journal_pragma :: "'d sqlite_env \<Rightarrow> sqlite_config \<Rightarrow> nat \<Rightarrow> 'd sqlite_state \<Rightarrow> (thrown + unit) \<times> 'd sqlite_state" where
  "journal_pragma env cfg h st =
     (if sl_filename cfg \<noteq> '':memory:'' \<and> sl_readOnly cfg \<noteq> Some True then
        (let (r, d) = se_exec env h (''PRAGMA journal_mode = '' @
            journal_text (case sl_journalMode cfg of Some j \<Rightarrow> j | None \<Rightarrow> Journal_Wal) @ '';'') (ss_database st)
         in (r, st\<lparr>ss_database := d\<rparr>))
      else (Inr (), st))"

text \<open>\<open>getDatabase\<close> after its configuration has come: nothing can happen in between.\<close>

definition open_database :: "'d sqlite_env \<Rightarrow> string \<Rightarrow> sqlite_config \<Rightarrow> 'd sqlite_state \<Rightarrow> (thrown + nat) \<times> 'd sqlite_state" where
  "open_database env key cfg st =
     (if sl_filename cfg = [] then (Inl (sql_error (''The sqlite config with the unique keyname '' @ key @
        '' has an empty filename. Register a SqliteConfig with a file path or '' @ json_string '':memory:'' @ ''.'')), st)
      else (case drop_previous key st of
          (Inl e, st1) \<Rightarrow> (Inl e, st1)
        | (Inr _, st1) \<Rightarrow> (case open_handle env cfg st1 of
              (Inl e, st2) \<Rightarrow> (Inl e, st2)
            | (Inr h, st2) \<Rightarrow> (case journal_pragma env cfg h st2 of
                  (Inl e, st3) \<Rightarrow> (Inl e, st3)
                | (Inr _, st3) \<Rightarrow> (Inr h, st3\<lparr>ss_databases := obj_set key h (ss_databases st3)\<rparr>)))))"

definition needs_opening :: "string \<Rightarrow> bool \<Rightarrow> 'd sqlite_state \<Rightarrow> bool" where
  "needs_opening key force st \<longleftrightarrow> \<not> obj_has (ss_databases st) key \<or> force"

definition getDatabase :: "'d sqlite_env \<Rightarrow> string \<Rightarrow> bool \<Rightarrow> 'd sqlite_state \<Rightarrow> (thrown + nat option) \<times> 'd sqlite_state" where
  "getDatabase env key force st =
     (if needs_opening key force st then
        (case find_config ''sqlite'' (se_providers env) key of
           Inl e \<Rightarrow> (Inl e, st)
         | Inr cfg \<Rightarrow> (case open_database env key cfg st of
               (Inl e, st1) \<Rightarrow> (Inl e, st1)
             | (Inr _, st1) \<Rightarrow> (Inr (obj_get (ss_databases st1) key), st1)))
      else (Inr (obj_get (ss_databases st) key), st))"

definition close_database :: "string \<Rightarrow> 'd sqlite_state \<Rightarrow> (thrown + unit) \<times> 'd sqlite_state" where
  "close_database key st = drop_previous key st"

section \<open>Statements\<close>

text \<open>\<open>normalizeValues\<close>; \<open>se_iso\<close> is \<open>Date.toISOString\<close>.\<close>

definition bind_value :: "(jsv \<Rightarrow> jsv) \<Rightarrow> jsv \<Rightarrow> jsv" where
  "bind_value fmt v =
     (if nullish v then JNull
      else if v = JAtom ''true'' then JAtom ''1''
      else if v = JAtom ''false'' then JAtom ''0''
      else if instance_of ''Date'' v then fmt v
      else v)"

definition bound_statement :: "'d sqlite_env \<Rightarrow> statement \<Rightarrow> statement" where
  "bound_statement env stm = stm\<lparr>st_values := map (bind_value (se_iso env)) (st_values stm)\<rparr>"

text \<open>\<open>prepare\<close> throws on a handle that is closed.\<close>

definition on_handle :: "'d sqlite_env \<Rightarrow> (nat \<Rightarrow> statement \<Rightarrow> 'd \<Rightarrow> (thrown + 'r) \<times> 'd) \<Rightarrow> nat \<Rightarrow> statement \<Rightarrow> 'd sqlite_state \<Rightarrow>
  (thrown + 'r) \<times> 'd sqlite_state" where
  "on_handle env run h stm st =
     (if \<not> handle_open st h then (Inl not_open, st)
      else (let b = bound_statement env stm; (r, d) = run h b (ss_database st)
            in (r, st\<lparr>ss_sent := ss_sent st @ [(h, b)], ss_database := d\<rparr>)))"

definition sqlite_executeSql :: "'d sqlite_env \<Rightarrow> string \<Rightarrow> statement \<Rightarrow> 'd sqlite_state \<Rightarrow> (thrown + jsv) \<times> 'd sqlite_state" where
  "sqlite_executeSql env key stm st =
     (case getDatabase env key False st of
        (Inl e, st1) \<Rightarrow> (Inl e, st1)
      | (Inr None, st1) \<Rightarrow> (Inl (read_error JUndefined ''prepare''), st1)
      | (Inr (Some h), st1) \<Rightarrow> on_handle env (se_run env) h stm st1)"

text \<open>The rows are copied into plain objects.\<close>

definition sqlite_querySql :: "'d sqlite_env \<Rightarrow> string \<Rightarrow> statement \<Rightarrow> 'd sqlite_state \<Rightarrow> (thrown + jsv list) \<times> 'd sqlite_state" where
  "sqlite_querySql env key stm st =
     (case getDatabase env key False st of
        (Inl e, st1) \<Rightarrow> (Inl e, st1)
      | (Inr None, st1) \<Rightarrow> (Inl (read_error JUndefined ''prepare''), st1)
      | (Inr (Some h), st1) \<Rightarrow>
          (let (r, st2) = on_handle env (se_all env) h stm st1
           in (sum_bind r (\<lambda>rows. Inr (map (\<lambda>row. JObject (row_fields row)) rows)), st2)))"

definition sqlite_mapResults :: "row_functions \<Rightarrow> entity_class \<Rightarrow> map_options \<Rightarrow> jsv list \<Rightarrow> thrown + jsv list" where
  "sqlite_mapResults = mapResults False"

definition sqlite_get :: "'d sqlite_env \<Rightarrow> string \<Rightarrow> entity_class \<Rightarrow> jsv \<Rightarrow> bool option \<Rightarrow> 'd sqlite_state \<Rightarrow>
  (thrown + jsv) \<times> 'd sqlite_state" where
  "sqlite_get env key c pk logErrors st =
     (case by_key ''SELECT * FROM '' c pk of
        Inl e \<Rightarrow> (Inl e, st)
      | Inr stm \<Rightarrow> (case sqlite_querySql env key stm st of
            (Inl e, st1) \<Rightarrow> (Inl e, st1)
          | (Inr rows, st1) \<Rightarrow>
              (sum_bind (sqlite_mapResults (se_rows env) c \<lparr>mo_excludeFields = None, mo_logMappingErrors = logErrors\<rparr> rows)
                 (\<lambda>xs. Inr (coalesce (element xs 0) JNull)), st1)))"

definition sqlite_write :: "'d sqlite_env \<Rightarrow> string \<Rightarrow> thrown + statement \<Rightarrow> 'd sqlite_state \<Rightarrow> (thrown + unit) \<times> 'd sqlite_state" where
  "sqlite_write env key s st = (case s of Inl e \<Rightarrow> (Inl e, st)
     | Inr stm \<Rightarrow> (let (r, st1) = sqlite_executeSql env key stm st in (sum_bind r (\<lambda>_. Inr ()), st1)))"

definition sqlite_create :: "'d sqlite_env \<Rightarrow> string \<Rightarrow> entity \<Rightarrow> 'd sqlite_state \<Rightarrow> (thrown + unit) \<times> 'd sqlite_state" where
  "sqlite_create env key e st = sqlite_write env key (create_statement e) st"

definition sqlite_update :: "'d sqlite_env \<Rightarrow> string \<Rightarrow> entity \<Rightarrow> 'd sqlite_state \<Rightarrow> (thrown + unit) \<times> 'd sqlite_state" where
  "sqlite_update env key e st = sqlite_write env key (update_statement e) st"

definition sqlite_delete :: "'d sqlite_env \<Rightarrow> string \<Rightarrow> entity_class \<Rightarrow> jsv \<Rightarrow> 'd sqlite_state \<Rightarrow> (thrown + unit) \<times> 'd sqlite_state" where
  "sqlite_delete env key c pk st = sqlite_write env key (by_key ''DELETE FROM '' c pk) st"

definition sqlite_search :: "'d sqlite_env \<Rightarrow> string \<Rightarrow> entity_class \<Rightarrow> search_query \<Rightarrow> search_call_options \<Rightarrow> 'd sqlite_state \<Rightarrow>
  (thrown + search_result) \<times> 'd sqlite_state" where
  "sqlite_search env key c q opts st =
     (case search_condition c q of
        Inl e \<Rightarrow> (Inl e, st)
      | Inr (table, sql, vs) \<Rightarrow>
          (case sqlite_querySql env key (count_statement table sql vs) st of
             (Inl e, st1) \<Rightarrow> (Inl e, st1)
           | (Inr counts, st1) \<Rightarrow>
               (case total_of counts of
                  Inl e \<Rightarrow> (Inl e, st1)
                | Inr n \<Rightarrow>
                    (case sqlite_querySql env key (page_statement table sql vs q) st1 of
                       (Inl e, st2) \<Rightarrow> (Inl e, st2)
                     | (Inr rows, st2) \<Rightarrow>
                         (sum_bind (sqlite_mapResults (se_rows env) c (options_read opts) rows)
                            (\<lambda>xs. Inr (search_result_of q n rows xs)), st2)))))"

section \<open>Overlapping calls\<close>

text \<open>
  Calls of \<open>getDatabase\<close> that wait for their configuration: each has already decided to open.
  Anything may happen before it goes on.
\<close>

inductive sqlite_step :: "'d sqlite_env \<Rightarrow> (string list \<times> 'd sqlite_state) \<Rightarrow> (string list \<times> 'd sqlite_state) \<Rightarrow> bool" for env where
  step_ask: "needs_opening key force st \<Longrightarrow> sqlite_step env (waiting, st) (waiting @ [key], st)"
| step_config: "find_config ''sqlite'' (se_providers env) key = Inr cfg \<Longrightarrow> open_database env key cfg st = (r, st') \<Longrightarrow>
    sqlite_step env (ws @ key # vs, st) (ws @ vs, st')"
| step_no_config: "find_config ''sqlite'' (se_providers env) key = Inl e \<Longrightarrow> sqlite_step env (ws @ key # vs, st) (ws @ vs, st)"
| step_close: "close_database key st = (r, st') \<Longrightarrow> sqlite_step env (waiting, st) (waiting, st')"
| step_run: "on_handle env (se_run env) h stm st = (r, st') \<Longrightarrow> sqlite_step env (waiting, st) (waiting, st')"
| step_all: "on_handle env (se_all env) h stm st = (r, st') \<Longrightarrow> sqlite_step env (waiting, st) (waiting, st')"

definition new_SqliteClient :: "'d \<Rightarrow> 'd sqlite_state" where
  "new_SqliteClient d = \<lparr>ss_databases = [], ss_handles = [], ss_sent = [], ss_database = d\<rparr>"

end
