(* ===== verification/Sql_Properties.thy ===== *)
theory Sql_Properties
  imports Sqlite_Client
begin

text \<open>
  What the SQL clients guarantee: entities are read back as they were stored, values travel as
  parameters, what a client's query string can put into a statement, what the filters of a search
  select, and which handles of SQLite are open when calls overlap.
\<close>

section \<open>Columns\<close>

lemma collect_columns_Inr:
  "collect_columns c ps acc = Inr columns \<Longrightarrow> wf_obj acc \<Longrightarrow>
   wf_obj columns \<and> fst ` set columns = fst ` set acc \<union> set ps \<and>
   (\<forall>p. obj_get columns p = (if p \<in> set ps then mc_column c p else obj_get acc p)) \<and> (\<forall>p\<in>set ps. mc_column c p \<noteq> None)"
proof (induction ps arbitrary: acc)
  case (Cons p ps)
  obtain m where m: "mc_column c p = Some m" and rest: "collect_columns c ps (obj_set p m acc) = Inr columns"
    using Cons.prems(1) by (auto simp: getColumnMetadata_def split: option.splits)
  have "fst ` set (obj_set p m acc) = insert p (fst ` set acc)" by (simp add: dom_update [unfolded dom_map_of_conv_image_fst])
  with Cons.IH [OF rest wf_obj_set [OF Cons.prems(2)]] m show ?case by (auto simp: update_conv')
qed simp

lemma getColumnsMetadata_Inr:
  assumes "getColumnsMetadata c = Inr columns"
  shows "wf_obj columns" and "set (obj_keys columns) = set (mc_properties c)"
    and "p \<in> set (mc_properties c) \<Longrightarrow> obj_get columns p = mc_column c p \<and> mc_column c p \<noteq> None"
  using collect_columns_Inr [OF assms [unfolded getColumnsMetadata_def]] by auto

lemma collect_const_Inr:
  "collect (\<lambda>_. f) i xs = Inr ys \<longleftrightarrow> length ys = length xs \<and> (\<forall>n<length xs. f (xs ! n) = Inr (ys ! n))"
  by (simp add: collect_Inr)

lemma collect_const_map:
  "(\<And>x. x \<in> set xs \<Longrightarrow> f x = Inr (g x)) \<Longrightarrow> collect (\<lambda>_. f) i xs = Inr (map g xs)"
  by (simp add: collect_Inr)

section \<open>Reading back what was stored\<close>

text \<open>A class whose column names come from the naming strategies of the package.\<close>

definition snake_class :: "entity_class \<Rightarrow> table_metadata \<Rightarrow> bool" where
  "snake_class c t \<longleftrightarrow> mc_table c = Some t \<and> td_strategy t = Some snakeCaseColumnStrategy \<and>
     (\<forall>p\<in>set (mc_properties c). property_name p \<and> map_option cd_name (mc_column c p) = Some None)"

lemma snake_column_name:
  assumes "snake_class c t" and "getColumnsMetadata c = Inr columns" and "p \<in> set (mc_properties c)"
  shows "getColumnName c p = Inr (snakeCaseColumnStrategy p)"
  using assms by (auto simp: snake_class_def getColumnName_def getColumnMetadata_def getTableMetadata_def given_def)

text \<open>What a JSON column holds is read back when \<open>JSON.parse\<close> inverts \<open>JSON.stringify\<close> on it.\<close>

definition json_survives :: "row_functions \<Rightarrow> jsv \<Rightarrow> bool" where
  "json_survives fns v \<longleftrightarrow> (case json_stringify v of Some s \<Rightarrow> rf_parse fns s = Inr v | None \<Rightarrow> v = JUndefined)"

lemma json_not_blank: "json_stringify v = Some s \<Longrightarrow> trim s \<noteq> []"
proof -
  assume s: "json_stringify v = Some s"
  have brackets: "\<not> is_space (CHR ''['')" "\<not> is_space (CHR ''{'')" by (simp_all add: is_space_def)
  have "\<exists>c r. s = c # r \<and> \<not> is_space c"
  proof (cases v)
    case (JAtom a)
    with s have a: "json_atom a = Some s" by simp
    have space: "\<not> is_space (CHR 0x22)" "\<not> is_space (CHR ''n'')" "\<not> is_space (CHR ''t'')" "\<not> is_space (CHR ''f'')"
      "\<not> is_space (CHR ''-'')" "\<not> (is_digit c \<and> is_space c)" for c
      by (auto simp: is_space_def is_digit_def)
    show ?thesis
    proof (cases "as_string (JAtom a)")
      case (Some t)
      with a space show ?thesis by (auto simp: json_atom_def json_string_def)
    next
      case None
      note atom = a [unfolded json_atom_def None option.case]
      have "s = ''null'' \<or> s \<in> set [''true'', ''false''] \<or> (\<exists>c r. s = c # r \<and> (is_digit c \<or> c = CHR ''-''))"
      proof (cases "a \<in> set [''NaN'', ''Infinity'', ''-Infinity'']")
        case True
        show ?thesis by (rule disjI1) (rule atom [unfolded if_P [OF True], symmetric, unfolded option.inject])
      next
        case False
        note atom = atom [unfolded if_not_P [OF False]]
        show ?thesis
        proof (cases "a \<in> set [''true'', ''false'']")
          case True
          from atom [unfolded if_P [OF True]] True show ?thesis by (simp only: option.inject simp_thms)
        next
          case False
          from atom [unfolded if_not_P [OF False]] obtain c r where "a = c # r" "is_digit c \<or> c = CHR ''-''" "a = s"
            by (cases a) (simp_all only: list.case option.distinct option.inject split: if_split_asm)
          then show ?thesis by blast
        qed
      qed
      then have "s \<noteq> [] \<and> \<not> is_space (hd s)" using space by (elim disjE exE conjE) (simp_all, (elim disjE; simp add: space)?)
      then show ?thesis by (cases s) auto
    qed
  next
    case (JArray xs)
    then have "\<exists>r. s = CHR ''['' # r" using s by (auto simp only: json_stringify.simps option.inject append_Cons append_Nil)
    then show ?thesis using brackets by blast
  next
    case (JObject ob)
    then have "\<exists>r. s = CHR ''{'' # r" using s by (auto simp only: json_stringify.simps option.inject append_Cons append_Nil)
    then show ?thesis using brackets by blast
  next
    case (JInstance n ob)
    then have "\<exists>r. s = CHR ''{'' # r" using s by (auto simp only: json_stringify.simps option.inject append_Cons append_Nil)
    then show ?thesis using brackets by blast
  next
    case JNull
    have "\<not> is_space (CHR ''n'')" by (simp add: is_space_def)
    then show ?thesis using s JNull by auto
  qed (use s in simp_all)
  then obtain c r where c: "s = c # r" "\<not> is_space c" by blast
  then have "c \<in> set (rev s)" by simp
  then have "dropWhile is_space (rev s) \<noteq> []" using c(2) by (auto simp: dropWhile_eq_Nil_conv)
  with c show "trim s \<noteq> []" by (simp add: trim_def)
qed

definition stored_value :: "entity_class \<Rightarrow> string \<Rightarrow> jsv \<Rightarrow> jsv" where
  "stored_value c p v = (if map_option cd_isJsonBlob (mc_column c p) = Some True
     then (case json_stringify v of Some s \<Rightarrow> js_string s | None \<Rightarrow> JUndefined) else v)"

definition read_value :: "row_functions \<Rightarrow> entity_class \<Rightarrow> string \<Rightarrow> jsv \<Rightarrow> jsv" where
  "read_value fns c p v = (if map_option cd_isJsonBlob (mc_column c p) = Some True
     then (case JsonBlobUtils_parse (rf_decode fns) (rf_parse fns) v of Inl _ \<Rightarrow> v | Inr w \<Rightarrow> w) else v)"

lemma read_stored:
  assumes "map_option cd_isJsonBlob (mc_column c p) = Some True \<Longrightarrow> json_survives fns v"
  shows "read_value fns c p (stored_value c p v) = v"
proof (cases "map_option cd_isJsonBlob (mc_column c p) = Some True")
  case True
  have plain: "\<not> instance_of k (js_string s)" "\<not> instance_of k JUndefined" for k s
    by (simp_all add: instance_of_def class_of_def js_string_def)
  show ?thesis
  proof (cases "json_stringify v")
    case None
    with True assms plain show ?thesis
      by (simp add: read_value_def stored_value_def json_survives_def JsonBlobUtils_parse_def as_string_def)
  next
    case (Some s)
    with True assms plain json_not_blank [OF Some] show ?thesis
      by (simp add: read_value_def stored_value_def json_survives_def JsonBlobUtils_parse_def)
  qed
next
  case False
  then show ?thesis unfolding read_value_def stored_value_def by (simp only: if_False)
qed

lemma property_listed: "wf_obj (map (\<lambda>q. (f q, g q)) ks) \<Longrightarrow> q \<in> set ks \<Longrightarrow> property (map (\<lambda>q. (f q, g q)) ks) (f q) = g q"
proof -
  assume w: "wf_obj (map (\<lambda>q. (f q, g q)) ks)" and q: "q \<in> set ks"
  have "map_of (map (\<lambda>q. (f q, g q)) ks) (f q) = Some (g q)"
    by (rule map_of_is_SomeI) (use w q in \<open>auto simp: wf_obj_def\<close>)
  then show ?thesis by (simp add: property_def)
qed

lemma property_set_delete:
  "property (obj_set k v row) x = (if x = k then v else property row x)"
  "property (obj_delete k row) x = (if x = k then JUndefined else property row x)"
  by (simp_all add: property_def update_conv' delete_conv')

lemma property_rename:
  "property (rename_key fns c None f row k) x =
     (if x = f k then read_value fns c (f k) (property row k) else if x = k then JUndefined else property row x)"
  by (auto simp: rename_key_def Let_def property_set_delete read_value_def)

lemma property_renames_other:
  "x \<notin> set ks \<Longrightarrow> x \<notin> f ` set ks \<Longrightarrow> property (foldl (rename_key fns c None f) row ks) x = property row x"
  by (induction ks arbitrary: row) (auto simp: property_rename)

lemma property_renames:
  assumes "distinct ks" and "inj_on f (set ks)" and "\<And>k k'. k \<in> set ks \<Longrightarrow> k' \<in> set ks \<Longrightarrow> f k = k' \<Longrightarrow> k = k'"
    and "k \<in> set ks"
  shows "property (foldl (rename_key fns c None f) row ks) (f k) = read_value fns c (f k) (property row k)"
  using assms
proof (induction ks arbitrary: row)
  case (Cons a ks)
  show ?case
  proof (cases "k = a")
    case True
    have "f a \<notin> set ks" using Cons.prems(1,3) by (metis distinct.simps(2) list.set_intros)
    moreover have "f a \<notin> f ` set ks" using Cons.prems(1,2) by (auto simp: inj_on_def)
    ultimately show ?thesis using True by (simp add: property_renames_other property_rename)
  next
    case False
    then have k: "k \<in> set ks" using Cons.prems(4) by simp
    have "k \<noteq> f a" using Cons.prems(3) [of a k] k False by auto
    with False have "property (rename_key fns c None f row a) k = property row k" by (simp add: property_rename)
    with Cons.IH [OF _ _ _ k, of "rename_key fns c None f row a"] Cons.prems(1-3) show ?thesis
      by (simp add: inj_on_def)
  qed
qed simp

lemma snake_inj: "inj_on snakeCaseColumnStrategy {p. property_name p}"
  by (metis (mono_tags, lifting) camel_snake_inverse inj_onI mem_Collect_eq)

lemma snake_no_clash:
  assumes "property_name p" "property_name q" "p = snakeCaseColumnStrategy q"
  shows "p = q"
proof -
  have "list_all (\<lambda>c. \<not> is_upper c) (snakeCaseColumnStrategy q)"
  proof -
    have "\<not> is_upper (lower_char c)" for c by (auto simp: is_upper_def lower_char_def Let_def of_char_of)
    then show ?thesis by (auto simp: snakeCaseColumnStrategy_def to_lower_def list_all_iff)
  qed
  then have "list_all (\<lambda>c. is_lower c \<or> is_digit c) p" using assms by (auto simp: property_name_def list_all_iff)
  then have "snakeCaseColumnStrategy p = p"
  proof (induction p)
    case (Cons c p)
    then have "\<not> is_upper c" "lower_char c = c"
      using lower_char_kept [of c] by (auto simp: is_lower_def is_upper_def is_digit_def)
    with Cons show ?case by (simp add: snakeCaseColumnStrategy_def to_lower_def)
  qed (simp add: snakeCaseColumnStrategy_def to_lower_def)
  then show ?thesis using snake_inj assms by (metis inj_onD mem_Collect_eq)
qed

lemma rename_snake_row:
  assumes d: "distinct ks" and pn: "\<And>q. q \<in> set ks \<Longrightarrow> property_name q" and p: "p \<in> set ks"
  shows "property (rename_row fns c None camelCaseColumnStrategy (map (\<lambda>q. (snakeCaseColumnStrategy q, g q)) ks)) p =
    read_value fns c p (g p)"
proof -
  let ?row = "map (\<lambda>q. (snakeCaseColumnStrategy q, g q)) ks"
  have inj: "inj_on snakeCaseColumnStrategy (set ks)" using pn by (auto intro: inj_on_subset [OF snake_inj])
  then have wr: "wf_obj ?row" using d by (simp add: wf_obj_def distinct_map o_def)
  then have dr: "distinct (obj_keys ?row)" by (rule distinct_obj_keys)
  have keys: "set (obj_keys ?row) = snakeCaseColumnStrategy ` set ks" by (auto simp: image_image)
  have camel: "camelCaseColumnStrategy (snakeCaseColumnStrategy q) = q" if "q \<in> set ks" for q
    by (rule camel_snake_inverse [OF pn [OF that]])
  have at: "property ?row (snakeCaseColumnStrategy p) = g p"
    using p wr by (intro property_listed) simp_all
  have camel_inj: "inj_on camelCaseColumnStrategy (set (obj_keys ?row))"
    unfolding keys using camel by (auto simp: inj_on_def)
  have clash: "k = k'" if k: "k \<in> set (obj_keys ?row)" "k' \<in> set (obj_keys ?row)" and eq: "camelCaseColumnStrategy k = k'" for k k'
  proof -
    obtain a b where ab: "k = snakeCaseColumnStrategy a" "a \<in> set ks" "k' = snakeCaseColumnStrategy b" "b \<in> set ks"
      using k unfolding keys by blast
    then have "a = snakeCaseColumnStrategy b" using eq camel by simp
    with ab pn snake_no_clash show ?thesis by metis
  qed
  have "snakeCaseColumnStrategy p \<in> set (obj_keys ?row)" unfolding keys using p by (rule imageI)
  from property_renames [OF dr camel_inj clash this, of fns c ?row] show ?thesis unfolding rename_row_def camel [OF p] at .
qed

definition column_names :: "entity_class \<Rightarrow> thrown + string list" where
  "column_names c = sum_bind (getColumnsMetadata c) (\<lambda>columns. collect (\<lambda>_. getColumnName c) 0 (obj_keys columns))"

lemma create_statement_values:
  assumes "create_statement e = Inr stm" and "getColumnsMetadata (en_class e) = Inr columns"
  shows "st_values stm = map (\<lambda>p. stored_value (en_class e) p (property (en_fields e) p)) (obj_keys columns)"
proof -
  let ?g = "\<lambda>p. stored_value (en_class e) p (property (en_fields e) p)"
  have "column_value e p = Inr (?g p)" if "p \<in> set (obj_keys columns)" for p
    using getColumnsMetadata_Inr(2,3) [OF assms(2)] that
    by (auto simp: column_value_def getColumnMetadata_def stored_value_def Let_def split: option.splits)
  then have "collect (\<lambda>_. column_value e) 0 (obj_keys columns) = Inr (map ?g (obj_keys columns))"
    by (rule collect_const_map)
  with assms show ?thesis unfolding create_statement_def Let_def by (auto simp: sum_bind_Inr_conv)
qed

text \<open>
  A row whose columns have the values of an INSERT statement is mapped back to the entity
  the statement was made of: every property has the value it had, JSON columns included.
\<close>

theorem stored_row_reads_back:
  assumes "snake_class (en_class e) t" and "create_statement e = Inr stm" and "column_names (en_class e) = Inr names"
    and "\<And>p. p \<in> set (mc_properties (en_class e)) \<Longrightarrow> map_option cd_isJsonBlob (mc_column (en_class e) p) = Some True \<Longrightarrow>
           json_survives fns (property (en_fields e) p)"
    and "p \<in> set (mc_properties (en_class e))"
  shows "property (rename_row fns (en_class e) None camelCaseColumnStrategy (zip names (st_values stm))) p = property (en_fields e) p"
proof -
  let ?c = "en_class e" and ?v = "\<lambda>p. stored_value (en_class e) p (property (en_fields e) p)"
  obtain columns where columns: "getColumnsMetadata ?c = Inr columns"
    using assms(3) by (auto simp: column_names_def sum_bind_Inr_conv)
  let ?ks = "obj_keys columns"
  note wf = getColumnsMetadata_Inr(1,2) [OF columns]
  have pn: "property_name q" if "q \<in> set ?ks" for q using assms(1) that wf(2) by (simp add: snake_class_def)
  have names: "names = map snakeCaseColumnStrategy ?ks"
    using assms(3) columns collect_const_map [of ?ks "getColumnName ?c" snakeCaseColumnStrategy 0]
      snake_column_name [OF assms(1) columns] wf(2)
    by (simp add: column_names_def)
  have row: "zip names (st_values stm) = map (\<lambda>q. (snakeCaseColumnStrategy q, ?v q)) ?ks"
    unfolding names create_statement_values [OF assms(2) columns] by (simp add: zip_map_map zip_same_conv_map)
  have "property (rename_row fns ?c None camelCaseColumnStrategy (zip names (st_values stm))) p = read_value fns ?c p (?v p)"
    unfolding row using pn wf assms(5) by (intro rename_snake_row distinct_obj_keys) simp_all
  with read_stored assms(4,5) show ?thesis by simp
qed

section \<open>Values travel as parameters\<close>

abbreviation placeholders :: "string \<Rightarrow> nat" where
  "placeholders s \<equiv> count_list s (CHR ''?'')"

lemma count_list_append [simp]: "count_list (xs @ ys) x = count_list xs x + count_list ys x"
  by (induction xs) simp_all

lemma placeholders_join: "placeholders (join sep xs) = (\<Sum>x\<leftarrow>xs. placeholders x) + (length xs - 1) * placeholders sep"
  by (induction sep xs rule: join.induct) simp_all

definition unmarked_class :: "entity_class \<Rightarrow> bool" where
  "unmarked_class c \<longleftrightarrow> (\<forall>t. mc_table c = Some t \<longrightarrow> CHR ''?'' \<notin> set (td_tableName t)) \<and>
     (\<forall>p n. getColumnName c p = Inr n \<longrightarrow> CHR ''?'' \<notin> set n)"

lemma unmarked_names:
  assumes "unmarked_class c" and "collect (\<lambda>_. getColumnName c) 0 ps = Inr names"
  shows "(\<Sum>x\<leftarrow>names. placeholders x) = 0"
proof -
  have "CHR ''?'' \<notin> set x" if x: "x \<in> set names" for x
  proof -
    obtain n where "n < length names" "names ! n = x" using x by (metis in_set_conv_nth)
    moreover have "length names = length ps" "\<forall>n<length ps. getColumnName c (ps ! n) = Inr (names ! n)"
      using iffD1 [OF collect_const_Inr assms(2)] by simp_all
    ultimately have "getColumnName c (ps ! n) = Inr x" by simp
    with assms(1) show ?thesis unfolding unmarked_class_def by blast
  qed
  then show ?thesis by (induction names) (simp_all add: count_list_0_iff)
qed

lemma column_value_stored:
  assumes "column_value e p = Inr v" and "en_class e' = en_class e"
  shows "column_value e' p = Inr (stored_value (en_class e) p (property (en_fields e') p))"
proof -
  obtain m where "mc_column (en_class e) p = Some m"
    using assms(1) by (auto simp: column_value_def getColumnMetadata_def split: option.splits)
  with assms(2) show ?thesis by (simp add: column_value_def getColumnMetadata_def stored_value_def Let_def)
qed

lemma column_values_other:
  assumes "collect (\<lambda>_. column_value e) 0 ps = Inr vs" and "en_class e' = en_class e"
  shows "\<exists>vs'. collect (\<lambda>_. column_value e') 0 ps = Inr vs' \<and> length vs' = length vs"
proof -
  have "column_value e' p = Inr (stored_value (en_class e) p (property (en_fields e') p))" if "p \<in> set ps" for p
    using assms(1) that column_value_stored [OF _ assms(2)] unfolding collect_const_Inr in_set_conv_nth by auto
  then have "collect (\<lambda>_. column_value e') 0 ps = Inr (map (\<lambda>p. stored_value (en_class e) p (property (en_fields e') p)) ps)"
    by (rule collect_const_map)
  moreover have "length vs = length ps" using assms(1) unfolding collect_const_Inr by blast
  ultimately show ?thesis by simp
qed

text \<open>
  The text of an INSERT or UPDATE depends on the class alone, and a placeholder stands for
  every value. An UPDATE of a class with nothing but its key has a placeholder too many.
\<close>

theorem values_stay_out_of_statements:
  assumes "unmarked_class (en_class e)" and same: "en_class e' = en_class e"
    and s: "create_statement e = Inr s" and u: "update_statement e = Inr u"
  shows "(\<exists>s'. create_statement e' = Inr s' \<and> st_text s' = st_text s) \<and> placeholders (st_text s) = length (st_values s) \<and>
    (\<exists>u'. update_statement e' = Inr u' \<and> st_text u' = st_text u) \<and>
    placeholders (st_text u) = length (st_values u) + of_bool (length (st_values u) = 1)"
proof -
  let ?c = "en_class e"
  obtain columns names vs t where columns: "getColumnsMetadata ?c = Inr columns"
      "collect (\<lambda>_. getColumnName ?c) 0 (obj_keys columns) = Inr names"
      "collect (\<lambda>_. column_value e) 0 (obj_keys columns) = Inr vs" "getTableMetadata ?c = Inr t"
    and st: "s = \<lparr>st_text = ''INSERT INTO '' @ td_tableName t @ '' ('' @ join '', '' names @ '') VALUES ('' @
        join '', '' (map (\<lambda>_. ''?'') vs) @ '')'', st_values = vs\<rparr>"
    using s unfolding create_statement_def Let_def sum_bind_Inr_conv by blast
  obtain pkColumn pk ns ws where keys: "getPrimaryKeyColumnName ?c = Inr pkColumn" "getPrimaryKeyPropertyName ?c = Inr pk"
      "collect (\<lambda>_. getColumnName ?c) 0 (filter (\<lambda>p. p \<noteq> pk) (obj_keys columns)) = Inr ns"
      "collect (\<lambda>_. column_value e) 0 (filter (\<lambda>p. p \<noteq> pk) (obj_keys columns)) = Inr ws"
    and ut: "u = \<lparr>st_text = ''UPDATE '' @ td_tableName t @ '' SET '' @ join '' = ?, '' ns @ '' = ? WHERE '' @ pkColumn @ '' = ?'',
        st_values = ws @ [property (en_fields e) pk]\<rparr>"
    using u columns(1,4) unfolding update_statement_def Let_def sum_bind_Inr_conv by auto
  obtain vs' where vs': "collect (\<lambda>_. column_value e') 0 (obj_keys columns) = Inr vs'" "length vs' = length vs"
    using column_values_other [OF columns(3) same] by blast
  obtain ws' where ws': "collect (\<lambda>_. column_value e') 0 (filter (\<lambda>p. p \<noteq> pk) (obj_keys columns)) = Inr ws'"
    using column_values_other [OF keys(4) same] by blast
  have marks: "map (\<lambda>_. ''?'') vs' = map (\<lambda>_. ''?'') vs" using vs'(2) by (simp add: map_replicate_const)
  have "\<exists>s'. create_statement e' = Inr s' \<and> st_text s' = st_text s"
    using columns vs'(1) by (simp add: create_statement_def same st marks)
  moreover have "\<exists>u'. update_statement e' = Inr u' \<and> st_text u' = st_text u"
    using columns keys ws' by (simp add: update_statement_def same ut)
  moreover have "placeholders (td_tableName t) = 0" "placeholders pkColumn = 0"
    using assms(1) columns(4) keys(1,2)
    by (auto simp: unmarked_class_def getTableMetadata_def getPrimaryKeyColumnName_def count_list_0_iff split: option.splits)
  moreover have "length ns = length ws" using keys(3,4) by (simp add: collect_const_Inr)
  moreover note unmarked_names [OF assms(1) columns(2)] unmarked_names [OF assms(1) keys(3)]
  ultimately show ?thesis by (cases ws) (simp_all add: st ut placeholders_join o_def sum_list_triv)
qed

section \<open>What a query string puts into a statement\<close>

definition sort_parameter :: "string \<Rightarrow> query_parameters" where
  "sort_parameter x = no_parameters\<lparr>qp_sort := Some (x @ '':asc'')\<rparr>"

lemma import_sort_parameter:
  assumes "plain_text x"
  shows "importQueryParameters (sort_parameter x) (new_SearchQuery None) =
    (Inr (), (new_SearchQuery None)\<lparr>sq_fields := [new_SearchQueryField x (Some Ascending) None None]\<rparr>)"
proof -
  have "split_on (CHR '','') (x @ '':asc'') = [x @ '':asc'']" using assms by (intro split_on_no_sep) (simp add: plain_text_def)
  moreover have "split_on (CHR '':'') (x @ '':asc'') = [x, ''asc'']"
    using split_pair [of x "''asc''"] assms by (simp add: plain_text_def)
  then have "sort_entry (x @ '':asc'') [] = Inr [new_SearchQueryField x (Some Ascending) None None]"
    by (simp add: sort_entry_def part_def parse_order_def set_order_def find_field_def)
  ultimately show ?thesis
    by (simp add: importQueryParameters_def sort_parameter_def no_parameters_def listed_def given_def new_SearchQuery_def Let_def)
qed

lemma mysql_sent_grows: "set (ms_sent st) \<subseteq> set (ms_sent (snd (mysql_executeSql env key stm st)))"
  by (auto simp: mysql_executeSql_def getPool_def make_pool_def createPool_def Let_def split: prod.splits sum.splits option.splits)

lemma mysql_search_counts:
  assumes "search_condition c q = Inr (table, sql, vs)"
  shows "set (ms_sent (snd (mysql_executeSql env key (count_statement table sql vs) st))) \<subseteq>
    set (ms_sent (snd (mysql_search env key c q opts st)))"
proof -
  obtain r1 st1 where r1: "mysql_executeSql env key (count_statement table sql vs) st = (r1, st1)"
    by (cases "mysql_executeSql env key (count_statement table sql vs) st")
  obtain r2 st2 where r2: "mysql_executeSql env key (page_statement table sql vs q) st1 = (r2, st2)"
    by (cases "mysql_executeSql env key (page_statement table sql vs q) st1")
  have "set (ms_sent st1) \<subseteq> set (ms_sent st2)" using mysql_sent_grows [of st1 env key "page_statement table sql vs q"] r2 by simp
  with assms r1 r2 show ?thesis by (simp add: mysql_search_def split: sum.split)
qed

text \<open>
  The name to sort by goes from the query string into the statement as it is: any text
  without capitals, commas and colons is part of the SQL that the client sends, whatever the class
  declares.
\<close>

theorem sort_reaches_the_statement:
  assumes "plain_text x" and "snakeCaseColumnStrategy x = x"
    and cls: "search_condition c (new_SearchQuery None) = Inr (table, [], [])" and "obj_get (ms_pools st) key = Some h"
  shows "\<exists>q. importQueryParameters (sort_parameter x) (new_SearchQuery None) = (Inr (), q) \<and>
    (h, count_statement table ('' ORDER BY '' @ x @ '' ASC'') []) \<in> set (ms_sent (snd (mysql_search env key c q opts st)))"
proof -
  let ?q = "(new_SearchQuery None)\<lparr>sq_fields := [new_SearchQueryField x (Some Ascending) None None]\<rparr>"
  have asc: "to_upper ''asc'' = ''ASC''" by code_simp
  have "search_condition c ?q = Inr (table, '' ORDER BY '' @ x @ '' ASC'', [])"
    using cls assms(2) asc
    by (auto simp: search_condition_def sum_bind_Inr_conv new_SearchQuery_def new_SearchQueryField_def given_def order_clause_def)
  moreover have "(h, stm) \<in> set (ms_sent (snd (mysql_executeSql env key stm st)))" for stm
    using assms(4) by (simp add: mysql_executeSql_def getPool_def obj_has_def Let_def split: prod.splits)
  ultimately have "(h, count_statement table ('' ORDER BY '' @ x @ '' ASC'') []) \<in> set (ms_sent (snd (mysql_search env key c ?q opts st)))"
    using mysql_search_counts by blast
  with import_sort_parameter [OF assms(1)] show ?thesis by blast
qed

section \<open>What the filters of a search select\<close>

text \<open>Conditions as SQL reads them: without parentheses AND binds tighter than OR.\<close>

datatype condition = Always | Like string | Compare string string | And condition condition | Or condition condition

fun condition_text :: "condition \<Rightarrow> string" where
  "condition_text Always = ''1=1 ''"
| "condition_text (Like f) = f @ '' LIKE ?''"
| "condition_text (Compare f op) = f @ '' '' @ op @ '' ?''"
| "condition_text (And a b) = condition_text a @ '' AND '' @ condition_text b"
| "condition_text (Or a b) = condition_text a @ '' OR '' @ condition_text b"

fun and_only :: "condition \<Rightarrow> bool" where
  "and_only (And a b) \<longleftrightarrow> and_only a \<and> and_only b"
| "and_only (Or a b) \<longleftrightarrow> False"
| "and_only _ \<longleftrightarrow> True"

fun paren_free :: "condition \<Rightarrow> bool" where
  "paren_free (And a b) \<longleftrightarrow> and_only a \<and> and_only b"
| "paren_free (Or a b) \<longleftrightarrow> paren_free a \<and> paren_free b"
| "paren_free _ \<longleftrightarrow> True"

fun selects :: "(string \<Rightarrow> bool) \<Rightarrow> (string \<Rightarrow> string \<Rightarrow> bool) \<Rightarrow> condition \<Rightarrow> bool" where
  "selects like cmp Always \<longleftrightarrow> True"
| "selects like cmp (Like f) \<longleftrightarrow> like f"
| "selects like cmp (Compare f op) \<longleftrightarrow> cmp f op"
| "selects like cmp (And a b) \<longleftrightarrow> selects like cmp a \<and> selects like cmp b"
| "selects like cmp (Or a b) \<longleftrightarrow> selects like cmp a \<or> selects like cmp b"

definition with_filters :: "condition \<Rightarrow> (string \<times> string) list \<Rightarrow> condition" where
  "with_filters a clauses = foldl (\<lambda>a (f, op). And a (Compare f op)) a clauses"

definition search_where :: "string \<Rightarrow> string list \<Rightarrow> string \<Rightarrow> (string \<times> string) list \<Rightarrow> condition" where
  "search_where f middle l clauses =
     Or (foldl (\<lambda>a g. Or a (Like g)) (And Always (Like f)) middle) (with_filters (Like l) clauses)"

lemma with_filters_facts:
  "condition_text (with_filters a clauses) =
     condition_text a @ concat (map (\<lambda>(f, op). '' AND '' @ f @ '' '' @ op @ '' ?'') clauses)"
  "and_only a \<Longrightarrow> and_only (with_filters a clauses)"
  "selects like cmp (with_filters a clauses) \<longleftrightarrow> selects like cmp a \<and> (\<forall>(f, op)\<in>set clauses. cmp f op)"
  by (induction clauses arbitrary: a) (auto simp: with_filters_def)

lemma and_only_paren_free: "and_only a \<Longrightarrow> paren_free a"
  by (cases a) simp_all

lemma or_likes_facts:
  "condition_text (foldl (\<lambda>a g. Or a (Like g)) a middle) = condition_text a @ concat (map (\<lambda>g. '' OR '' @ g @ '' LIKE ?'') middle)"
  "paren_free a \<Longrightarrow> paren_free (foldl (\<lambda>a g. Or a (Like g)) a middle)"
  "selects like cmp (foldl (\<lambda>a g. Or a (Like g)) a middle) \<longleftrightarrow> selects like cmp a \<or> (\<exists>g\<in>set middle. like g)"
  by (induction middle arbitrary: a) auto

lemma join_or: "join '' OR '' (map (\<lambda>f. f @ '' LIKE ?'') (f # gs)) = f @ '' LIKE ?'' @ concat (map (\<lambda>g. '' OR '' @ g @ '' LIKE ?'') gs)"
  by (induction gs arbitrary: f) simp_all

lemma filter_clauses_text:
  "filter_clauses c ffs = Inr (sql, vs) \<Longrightarrow>
   \<exists>clauses. sql = concat (map (\<lambda>(f, op). '' AND '' @ f @ '' '' @ op @ '' ?'') clauses) \<and> length clauses = length vs"
proof (induction ffs arbitrary: sql vs)
  case (Cons ff ffs)
  obtain column sql1 vs1 where column: "getColumnName c (ff_field ff) = Inr column" and rest: "filter_clauses c ffs = Inr (sql1, vs1)"
    using Cons.prems by (auto simp: sum_bind_Inr_conv)
  obtain clauses where clauses: "sql1 = concat (map (\<lambda>(f, op). '' AND '' @ f @ '' '' @ op @ '' ?'') clauses)" "length clauses = length vs1"
    using Cons.IH [OF rest] by blast
  show ?case
  proof (cases "operator_text (ff_operator ff)")
    case None
    with Cons.prems column rest clauses show ?thesis by auto
  next
    case (Some op)
    with Cons.prems column rest clauses show ?thesis by (intro exI [of _ "(column, op) # clauses"]) auto
  qed
qed simp

definition search_columns :: "entity_class \<Rightarrow> search_query \<Rightarrow> thrown + string list" where
  "search_columns c q =
     sum_bind (getColumnsMetadata c) (\<lambda>columns.
     sum_bind (collect (\<lambda>_. getColumnName c) 0
        (filter (\<lambda>k. map_option cd_isSearchable (obj_get columns k) = Some True) (obj_keys columns))) (\<lambda>defaults.
     Inr (searched_fields defaults q)))"

text \<open>
  Without parentheses around the searched columns, the filters of a search belong to the last
  of them alone: a row that matches the text in any other column is selected whatever the filters
  ask for.
\<close>

theorem filters_bind_to_the_last_column:
  assumes "search_condition c q = Inr (table, sql, vs)" and "given (sq_query q) = Some text"
    and cols: "search_columns c q = Inr (f # middle @ [l])"
  shows "\<exists>clauses. ''1=1 '' @ sql = condition_text (search_where f middle l clauses) @ order_clause (sq_fields q) \<and>
    paren_free (search_where f middle l clauses) \<and> length vs = 2 + length middle + length clauses \<and>
    (\<forall>like cmp. selects like cmp (search_where f middle l clauses) \<longleftrightarrow>
       like f \<or> (\<exists>g\<in>set middle. like g) \<or> like l \<and> (\<forall>(h, op)\<in>set clauses. cmp h op))"
proof -
  obtain filters fs where sql: "sql = fst (like_clause (f # middle @ [l]) text) @ filters @ order_clause (sq_fields q)"
      "vs = snd (like_clause (f # middle @ [l]) text) @ fs" and filters: "filter_clauses c (sq_filters q) = Inr (filters, fs)"
    using assms unfolding search_condition_def search_columns_def sum_bind_Inr_conv Let_def
    by (cases "filter_clauses c (sq_filters q)") (auto simp: split_beta)
  obtain clauses where "filters = concat (map (\<lambda>(f, op). '' AND '' @ f @ '' '' @ op @ '' ?'') clauses)" "length clauses = length fs"
    using filter_clauses_text [OF filters] by blast
  with sql join_or [of f "middle @ [l]"] show ?thesis
    by (intro exI [of _ clauses])
      (simp add: search_where_def with_filters_facts or_likes_facts like_clause_def and_only_paren_free)
qed

section \<open>The handles of SQLite\<close>

definition handles_ok :: "'d sqlite_state \<Rightarrow> bool" where
  "handles_ok st \<longleftrightarrow> wf_obj (ss_databases st) \<and>
     (\<forall>h. handle_open st h \<longleftrightarrow> (\<exists>k. obj_get (ss_databases st) k = Some h)) \<and>
     (\<forall>k k' h. obj_get (ss_databases st) k = Some h \<longrightarrow> obj_get (ss_databases st) k' = Some h \<longrightarrow> k = k')"

lemma drop_previous_ok:
  assumes "handles_ok st" and "drop_previous key st = (r, st')"
  shows "r = Inr ()" and "handles_ok st'" and "obj_get (ss_databases st') key = None"
    and "length (ss_handles st') = length (ss_handles st)"
    and "obj_get (ss_databases st) key = Some h \<Longrightarrow> \<not> handle_open st' h"
proof -
  have *: "r = Inr () \<and> handles_ok st' \<and> obj_get (ss_databases st') key = None \<and> length (ss_handles st') = length (ss_handles st) \<and>
      (\<forall>h. obj_get (ss_databases st) key = Some h \<longrightarrow> \<not> handle_open st' h)"
  proof (cases "obj_get (ss_databases st) key")
    case None
    with assms show ?thesis by (simp add: drop_previous_def)
  next
    case (Some h)
    with assms(1) have "handle_open st h" by (auto simp: handles_ok_def)
    with Some assms(2) have r: "r = Inr ()" and st': "st' = st\<lparr>ss_handles := (ss_handles st)[h := False],
        ss_databases := obj_delete key (ss_databases st)\<rparr>"
      by (simp_all add: drop_previous_def close_handle_def)
    have "handle_open st' x \<longleftrightarrow> x \<noteq> h \<and> handle_open st x" for x
      by (cases "x = h") (auto simp: st' handle_open_def)
    moreover have maps: "obj_get (ss_databases st') k = Some x \<longleftrightarrow> k \<noteq> key \<and> obj_get (ss_databases st) k = Some x" for k x
      by (simp add: st' delete_conv')
    moreover have "wf_obj (ss_databases st')" using assms(1) by (simp add: handles_ok_def st')
    ultimately have "handles_ok st'" using assms(1) Some unfolding handles_ok_def by (metis option.inject)
    moreover have "obj_get (ss_databases st') key = None" by (simp add: st' delete_conv')
    moreover have "\<not> handle_open st' h" by (auto simp: st' handle_open_def)
    ultimately show ?thesis using r Some by (simp add: st')
  qed
  then show "r = Inr ()" "handles_ok st'" "obj_get (ss_databases st') key = None"
    "length (ss_handles st') = length (ss_handles st)"
    "obj_get (ss_databases st) key = Some h \<Longrightarrow> \<not> handle_open st' h" by auto
qed

definition journal_works :: "'d sqlite_env \<Rightarrow> bool" where
  "journal_works env \<longleftrightarrow> (\<forall>h sql d. \<exists>d'. se_exec env h sql d = (Inr (), d'))"

lemma handles_ok_cong:
  "ss_databases st' = ss_databases st \<Longrightarrow> ss_handles st' = ss_handles st \<Longrightarrow> handles_ok st' \<longleftrightarrow> handles_ok st"
  by (simp add: handles_ok_def handle_open_def)

lemma open_handle_ok:
  assumes "handles_ok st" and o: "open_handle env cfg st = (r, st')"
  shows "length (ss_handles st) \<le> length (ss_handles st')" and "ss_databases st' = ss_databases st"
    and "r = Inl e \<Longrightarrow> handles_ok st'"
    and "r = Inr h \<Longrightarrow> h = length (ss_handles st) \<and> (\<forall>x. handle_open st' x \<longleftrightarrow> x = h \<or> handle_open st x) \<and> \<not> handle_open st h"
proof -
  show "length (ss_handles st) \<le> length (ss_handles st')" "ss_databases st' = ss_databases st"
    using o by (auto simp: open_handle_def split: prod.splits sum.splits)
  show "handles_ok st'" if "r = Inl e"
    by (rule iffD2 [OF handles_ok_cong assms(1)]) (use o that in \<open>auto simp: open_handle_def split: prod.splits sum.splits\<close>)
  show "h = length (ss_handles st) \<and> (\<forall>x. handle_open st' x \<longleftrightarrow> x = h \<or> handle_open st x) \<and> \<not> handle_open st h" if "r = Inr h"
    using o that by (auto simp: open_handle_def handle_open_def nth_append less_Suc_eq split: prod.splits sum.splits)
qed

lemma journal_pragma_ok: "journal_works env \<Longrightarrow> \<exists>d. journal_pragma env cfg h st = (Inr (), st\<lparr>ss_database := d\<rparr>)"
proof -
  assume "journal_works env"
  then obtain d where d: "se_exec env h (''PRAGMA journal_mode = '' @
      journal_text (case sl_journalMode cfg of Some j \<Rightarrow> j | None \<Rightarrow> Journal_Wal) @ '';'') (ss_database st) = (Inr (), d)"
    unfolding journal_works_def by blast
  show ?thesis
  proof (cases "sl_filename cfg \<noteq> '':memory:'' \<and> sl_readOnly cfg \<noteq> Some True")
    case True
    then have "journal_pragma env cfg h st = (Inr (), st\<lparr>ss_database := d\<rparr>)"
      unfolding journal_pragma_def if_P [OF True] Let_def d by simp
    then show ?thesis by blast
  next
    case False
    then have "journal_pragma env cfg h st = (Inr (), st\<lparr>ss_database := ss_database st\<rparr>)"
      unfolding journal_pragma_def if_not_P [OF False] by simp
    then show ?thesis by blast
  qed
qed

lemma handles_ok_database: "handles_ok (st\<lparr>ss_database := d\<rparr>) \<longleftrightarrow> handles_ok st"
  by (simp add: handles_ok_def handle_open_def)

lemma open_database_ok:
  assumes "handles_ok st" and j: "journal_works env" and "open_database env key cfg st = (r, st')"
  shows "handles_ok st'"
    and "r = Inr h \<Longrightarrow> obj_get (ss_databases st') key = Some h \<and> (\<forall>g. obj_get (ss_databases st) key = Some g \<longrightarrow> \<not> handle_open st' g)"
proof -
  have *: "handles_ok st' \<and> (\<forall>h. r = Inr h \<longrightarrow> obj_get (ss_databases st') key = Some h \<and>
      (\<forall>g. obj_get (ss_databases st) key = Some g \<longrightarrow> \<not> handle_open st' g))"
  proof (cases "sl_filename cfg = []")
    case True
    with assms show ?thesis by (auto simp: open_database_def)
  next
    case False
    obtain r1 st1 where p: "drop_previous key st = (r1, st1)" by (cases "drop_previous key st")
    obtain r2 st2 where q: "open_handle env cfg st1 = (r2, st2)" by (cases "open_handle env cfg st1")
    note ok = drop_previous_ok [OF assms(1) p] and new = open_handle_ok [OF drop_previous_ok(2) [OF assms(1) p] q]
    show ?thesis
    proof (cases r2)
      case (Inl e)
      from new(3) [OF Inl] assms(3) False p q ok(1) Inl show ?thesis by (auto simp: open_database_def)
    next
      case (Inr h)
      obtain d where "journal_pragma env cfg h st2 = (Inr (), st2\<lparr>ss_database := d\<rparr>)" using journal_pragma_ok [OF j] by blast
      with assms(3) False p q ok(1) Inr have r: "r = Inr h"
        and st': "st' = st2\<lparr>ss_database := d, ss_databases := obj_set key h (ss_databases st1)\<rparr>"
        using new(2) by (simp_all add: open_database_def)
      note h = new(4) [OF Inr]
      have opened: "handle_open st' x \<longleftrightarrow> x = h \<or> handle_open st1 x" for x
        using h by (simp add: st' handle_open_def)
      have maps: "obj_get (ss_databases st') k = Some x \<longleftrightarrow> (if k = key then x = h else obj_get (ss_databases st1) k = Some x)" for k x
        by (auto simp: st' update_conv')
      have "wf_obj (ss_databases st')" using ok(2) by (simp add: st' handles_ok_def)
      moreover have st1: "handle_open st1 x \<longleftrightarrow> (\<exists>k. obj_get (ss_databases st1) k = Some x)"
        "obj_get (ss_databases st1) k = Some x \<Longrightarrow> obj_get (ss_databases st1) k' = Some x \<Longrightarrow> k = k'" for x k k'
        using ok(2) unfolding handles_ok_def by blast+
      moreover have "obj_get (ss_databases st1) k \<noteq> Some h" for k using h st1(1) by blast
      ultimately have "handles_ok st'" using ok(3) unfolding handles_ok_def opened maps
        by (auto split: if_splits) (metis option.distinct(1))
      moreover have "\<not> handle_open st' g" if g: "obj_get (ss_databases st) key = Some g" for g
      proof -
        have "g < length (ss_handles st)" using assms(1) g by (auto simp: handles_ok_def handle_open_def)
        then show ?thesis using ok(4) ok(5) [OF g] h unfolding opened by simp
      qed
      ultimately show ?thesis using r maps by simp
    qed
  qed
  then show "handles_ok st'" "r = Inr h \<Longrightarrow> obj_get (ss_databases st') key = Some h \<and>
    (\<forall>g. obj_get (ss_databases st) key = Some g \<longrightarrow> \<not> handle_open st' g)" by simp_all
qed

lemma on_handle_ok: "on_handle env run h stm st = (r, st') \<Longrightarrow> handles_ok st \<Longrightarrow> handles_ok st'"
  by (rule iffD2 [OF handles_ok_cong]) (auto simp: on_handle_def Let_def split: if_splits prod.splits)

lemma step_handles_ok: "sqlite_step env a b \<Longrightarrow> journal_works env \<Longrightarrow> handles_ok (snd a) \<Longrightarrow> handles_ok (snd b)"
proof (induction rule: sqlite_step.induct)
  case (step_config key cfg st r st' ws vs)
  then show ?case using open_database_ok(1) [OF _ _ step_config(2)] by simp
next
  case (step_close key st r st' waiting)
  then show ?case using drop_previous_ok(2) by (auto simp: close_database_def)
next
  case (step_run h stm st r st' waiting)
  then show ?case by (simp add: on_handle_ok)
next
  case (step_all h stm st r st' waiting)
  then show ?case by (simp add: on_handle_ok)
qed auto

lemma reachable_handles_ok:
  assumes "(sqlite_step env)\<^sup>*\<^sup>* ([], new_SqliteClient d) a" and "journal_works env"
  shows "handles_ok (snd a)"
  using assms(1)
proof (induction rule: rtranclp_induct)
  case base
  show ?case by (simp add: handles_ok_def new_SqliteClient_def handle_open_def)
next
  case (step a b)
  then show ?case using step_handles_ok assms(2) by blast
qed

text \<open>
  However calls overlap, a handle is open exactly when it is the handle of one keyname, as
  long as setting the journal mode does not fail: none is leaked and none is shared.
\<close>

theorem sqlite_handles_are_mapped:
  assumes "(sqlite_step env)\<^sup>*\<^sup>* ([], new_SqliteClient d) (waiting, st)" and "journal_works env"
  shows "handle_open st h \<longleftrightarrow> (\<exists>!k. obj_get (ss_databases st) k = Some h)"
proof -
  show ?thesis using reachable_handles_ok [OF assms] unfolding handles_ok_def by (metis snd_conv)
qed

text \<open>
  When two calls ask for a database that is not open yet, the second closes the handle the
  first was given: the first statement of the first call fails.
\<close>

theorem overlapping_opens_close_a_handle_in_use:
  assumes "(sqlite_step env)\<^sup>*\<^sup>* ([], new_SqliteClient d) ([], st)" and "journal_works env"
    and "obj_get (ss_databases st) key = None" and "find_config ''sqlite'' (se_providers env) key = Inr cfg"
    and "open_database env key cfg st = (Inr h1, st1)" and "open_database env key cfg st1 = (Inr h2, st2)"
  shows "(sqlite_step env)\<^sup>*\<^sup>* ([], st) ([], st2) \<and> on_handle env run h1 stm st2 = (Inl not_open, st2) \<and>
    obj_get (ss_databases st2) key = Some h2"
proof -
  have "handles_ok st" using reachable_handles_ok [OF assms(1,2)] by simp
  then have ok: "handles_ok st1" "obj_get (ss_databases st1) key = Some h1"
    using open_database_ok [OF _ assms(2,5)] by auto
  from open_database_ok(2) [OF ok(1) assms(2,6)] ok(2) have "\<not> handle_open st2 h1" "obj_get (ss_databases st2) key = Some h2" by auto
  moreover have "(sqlite_step env)\<^sup>*\<^sup>* ([], st) ([], st2)"
  proof -
    have ask: "needs_opening key False st" using assms(3) by (simp add: needs_opening_def obj_has_def)
    have "sqlite_step env ([], st) ([key], st)" "sqlite_step env ([key], st) ([key, key], st)"
      using step_ask [OF ask, of env "[]"] step_ask [OF ask, of env "[key]"] by simp_all
    moreover have "sqlite_step env ([key, key], st) ([key], st1)" "sqlite_step env ([key], st1) ([], st2)"
      using step_config [OF assms(4,5), of "[]" "[key]"] step_config [OF assms(4,6), of "[]" "[]"] by simp_all
    ultimately show ?thesis by (meson converse_rtranclp_into_rtranclp rtranclp.rtrancl_refl)
  qed
  ultimately show ?thesis by (simp add: on_handle_def)
qed

text \<open>A handle whose journal mode cannot be set is opened, kept nowhere and never closed.\<close>

lemma failed_journal_leaks_a_handle:
  assumes "obj_get (ss_databases st) key = None" and "sl_filename cfg \<noteq> []"
    and "open_handle env cfg st = (Inr h, st1)" and "journal_pragma env cfg h st1 = (Inl e, st2)"
  shows "open_database env key cfg st = (Inl e, st2)"
  using assms by (simp add: open_database_def drop_previous_def)

section \<open>A class and a database\<close>

definition user_class :: entity_class where
  "user_class = \<lparr>mc_name = ''User'',
     mc_table = Some \<lparr>td_tableName = ''users'', td_strategy = Some snakeCaseColumnStrategy, td_reverse = Some camelCaseColumnStrategy\<rparr>,
     mc_properties = [''id'', ''homeTown''],
     mc_column = (\<lambda>p. if p = ''id'' then Some (column_decorator None (Some True) None None)
        else if p = ''homeTown'' then Some (column_decorator None None None (Some True)) else None)\<rparr>"

definition some_user :: entity where
  "some_user = \<lparr>en_class = user_class, en_fields = [(''id'', JAtom ''7''), (''homeTown'', JArray [])]\<rparr>"

definition bracket_functions :: row_functions where
  "bracket_functions = \<lparr>rf_decode = (\<lambda>_. []), rf_parse = (\<lambda>s. if s = ''[]'' then Inr (JArray []) else Inl (sql_error s)),
     rf_autoMap = (\<lambda>c b rows. Inr rows)\<rparr>"

lemma user_columns:
  "getColumnsMetadata user_class = Inr [(''id'', column_decorator None (Some True) None None), (''homeTown'', column_decorator None None None (Some True))]"
  by code_simp

lemma user_statements:
  "create_statement some_user = Inr \<lparr>st_text = ''INSERT INTO users (id, home_town) VALUES (?, ?)'', st_values = [JAtom ''7'', js_string ''[]'']\<rparr>"
  "update_statement some_user = Inr \<lparr>st_text = ''UPDATE users SET home_town = ? WHERE id = ?'', st_values = [js_string ''[]'', JAtom ''7'']\<rparr>"
  "column_names user_class = Inr [''id'', ''home_town'']"
  by code_simp+

lemma user_name: "getColumnName user_class p = Inr n \<Longrightarrow> n = ''id'' \<or> n = ''home_town''"
proof -
  assume a: "getColumnName user_class p = Inr n"
  then have "p = ''id'' \<or> p = ''homeTown''"
    by (auto simp: getColumnName_def sum_bind_Inr_conv getColumnMetadata_def user_class_def split: if_splits)
  moreover have "getColumnName user_class ''id'' = Inr ''id''" "getColumnName user_class ''homeTown'' = Inr ''home_town''"
    by code_simp+
  ultimately show ?thesis using a by auto
qed

theorem stored_row_reads_back_witness:
  "property (rename_row bracket_functions user_class None camelCaseColumnStrategy
     (zip [''id'', ''home_town''] [JAtom ''7'', js_string ''[]''])) ''homeTown'' = JArray []"
proof -
  have "snake_class (en_class some_user) \<lparr>td_tableName = ''users'', td_strategy = Some snakeCaseColumnStrategy, td_reverse = Some camelCaseColumnStrategy\<rparr>"
    by (simp add: snake_class_def some_user_def user_class_def column_decorator_def property_name_def is_upper_def is_lower_def)
  moreover have "column_names (en_class some_user) = Inr [''id'', ''home_town'']"
    using user_statements(3) by (simp add: some_user_def)
  moreover have "json_survives bracket_functions (property (en_fields some_user) p)"
    if "p \<in> set (mc_properties (en_class some_user))" "map_option cd_isJsonBlob (mc_column (en_class some_user) p) = Some True" for p
    using that by (auto simp: some_user_def user_class_def column_decorator_def property_def json_survives_def bracket_functions_def)
  moreover have "''homeTown'' \<in> set (mc_properties (en_class some_user))" by (simp add: some_user_def user_class_def)
  ultimately have "property (rename_row bracket_functions (en_class some_user) None camelCaseColumnStrategy
      (zip [''id'', ''home_town''] (st_values \<lparr>st_text = ''INSERT INTO users (id, home_town) VALUES (?, ?)'',
        st_values = [JAtom ''7'', js_string ''[]'']\<rparr>))) ''homeTown'' = property (en_fields some_user) ''homeTown''"
    by (intro stored_row_reads_back [OF _ user_statements(1)]) simp_all
  moreover have "en_class some_user = user_class" "property (en_fields some_user) ''homeTown'' = JArray []"
    by (simp_all add: some_user_def property_def)
  ultimately show ?thesis by (simp only: statement.simps)
qed

theorem values_stay_out_of_statements_witness:
  "\<exists>s'. create_statement (some_user\<lparr>en_fields := []\<rparr>) = Inr s' \<and> st_text s' = ''INSERT INTO users (id, home_town) VALUES (?, ?)''"
proof -
  have "unmarked_class (en_class some_user)"
    using user_name by (fastforce simp: unmarked_class_def some_user_def user_class_def)
  from values_stay_out_of_statements [OF this _ user_statements(1,2), of "some_user\<lparr>en_fields := []\<rparr>"]
  show ?thesis by simp
qed

definition plain_mysql :: "unit mysql_env" where
  "plain_mysql = \<lparr>me_providers = [], me_rows = bracket_functions, me_query = (\<lambda>h stm d. (Inr [], d))\<rparr>"

definition pooled :: "unit mysql_state" where
  "pooled = \<lparr>ms_pools = [(''main'', 0)], ms_made = [], ms_sent = [], ms_database = ()\<rparr>"

theorem sort_reaches_the_statement_witness:
  "\<exists>q. importQueryParameters (sort_parameter ''(select sleep(9))'') (new_SearchQuery None) = (Inr (), q) \<and>
     (0, count_statement ''users'' ('' ORDER BY '' @ ''(select sleep(9))'' @ '' ASC'') []) \<in>
       set (ms_sent (snd (mysql_search plain_mysql ''main'' user_class q \<lparr>sc_logMappingErrors = None, sc_excludeFieldsFromResponse = None\<rparr> pooled)))"
proof -
  have "search_condition user_class (new_SearchQuery None) = Inr (''users'', [], [])" by code_simp
  moreover have "snakeCaseColumnStrategy ''(select sleep(9))'' = ''(select sleep(9))''" by code_simp
  ultimately show ?thesis
    by (intro sort_reaches_the_statement) (simp_all add: plain_text_def pooled_def)
qed

definition two_column_query :: search_query where
  "two_column_query = (new_SearchQuery None)\<lparr>sq_query := Some ''ab'', sq_filters := [\<lparr>ff_field = ''id'', ff_operator = Some ''eq'', ff_value = Some ''7''\<rparr>]\<rparr>"

theorem filters_bind_to_the_last_column_witness:
  "\<exists>clauses. ''1=1  AND id LIKE ? OR home_town LIKE ? AND id = ?'' = condition_text (search_where ''id'' [] ''home_town'' clauses)"
proof -
  have "search_condition user_class two_column_query = Inr (''users'', '' AND id LIKE ? OR home_town LIKE ? AND id = ?'',
      [js_string ''%ab%'', js_string ''%ab%'', js_string ''7''])" by code_simp
  moreover have "search_columns user_class two_column_query = Inr (''id'' # [] @ [''home_town''])" by code_simp
  moreover have "given (sq_query two_column_query) = Some ''ab''" "order_clause (sq_fields two_column_query) = []" by code_simp+
  ultimately show ?thesis using filters_bind_to_the_last_column [of user_class two_column_query] by fastforce
qed

definition memory_config :: sqlite_config where
  "memory_config = \<lparr>sl_uniqueKeyname = ''main'', sl_filename = '':memory:'', sl_readOnly = None,
     sl_enableForeignKeyConstraints = None, sl_journalMode = None, sl_busyTimeoutMs = None\<rparr>"

definition plain_sqlite :: "unit sqlite_env" where
  "plain_sqlite = \<lparr>se_providers = [default_provider ''sqlite'' sl_uniqueKeyname [memory_config]], se_rows = bracket_functions,
     se_open = (\<lambda>f os d. (Inr (), d)), se_exec = (\<lambda>h sql d. (Inr (), d)), se_run = (\<lambda>h stm d. (Inr JUndefined, d)),
     se_all = (\<lambda>h stm d. (Inr [], d)), se_iso = (\<lambda>v. v)\<rparr>"

lemma plain_sqlite_facts:
  "journal_works plain_sqlite" "find_config ''sqlite'' (se_providers plain_sqlite) ''main'' = Inr memory_config"
  "open_database plain_sqlite ''main'' memory_config (new_SqliteClient ()) =
     (Inr 0, \<lparr>ss_databases = [(''main'', 0)], ss_handles = [True], ss_sent = [], ss_database = ()\<rparr>)"
  "open_database plain_sqlite ''main'' memory_config \<lparr>ss_databases = [(''main'', 0)], ss_handles = [True], ss_sent = [], ss_database = ()\<rparr> =
     (Inr 1, \<lparr>ss_databases = [(''main'', 1)], ss_handles = [False, True], ss_sent = [], ss_database = ()\<rparr>)"
  by (simp_all add: journal_works_def plain_sqlite_def find_config_def default_provider_def memory_config_def open_database_def
      new_SqliteClient_def drop_previous_def open_handle_def close_handle_def handle_open_def journal_pragma_def)

theorem overlapping_opens_close_a_handle_in_use_witness:
  "\<exists>st. (sqlite_step plain_sqlite)\<^sup>*\<^sup>* ([], new_SqliteClient ()) ([], st) \<and>
     on_handle plain_sqlite (se_run plain_sqlite) 0 \<lparr>st_text = [], st_values = []\<rparr> st = (Inl not_open, st)"
  using overlapping_opens_close_a_handle_in_use [OF rtranclp.rtrancl_refl plain_sqlite_facts(1) _ plain_sqlite_facts(2,3,4)]
  by (auto simp: new_SqliteClient_def)

theorem sqlite_handles_are_mapped_witness:
  "handle_open (new_SqliteClient ()) 0 \<longleftrightarrow> (\<exists>!k. obj_get (ss_databases (new_SqliteClient ())) k = Some 0)"
  by (rule sqlite_handles_are_mapped [OF rtranclp.rtrancl_refl plain_sqlite_facts(1)])

end
