(* ===== verification/Token_Authenticators.thy ===== *)
theory Token_Authenticators
  imports Complex_Main Js_Values
begin

text \<open>
  The authenticators of bearer tokens (\<open>packages/auth0\<close>, \<open>packages/aws-cognito\<close>,
  \<open>packages/gcp-identity-platform\<close>) and the token manager of \<open>packages/jwt\<close>, with their guards.
  Signatures, base64, \<open>JSON.parse\<close>, the conversion of keys and \<open>jsonwebtoken.verify\<close> are
  arguments. A date of a claim is compared with the time as JavaScript compares any value with a
  number; the numbers of texts are exact here, where the code rounds them to a double (which only
  matters for a text with more digits than a double holds). Claims and headers whose own
  properties are named \<open>toString\<close>, \<open>valueOf\<close> or \<open>hasOwnProperty\<close> are left out. The options are those
  of the last request that set the context, see the end.
\<close>

section \<open>Errors, headers and claims\<close>

definition raw_error :: "string \<Rightarrow> thrown" where
  "raw_error msg = NativeErr ''Error'' msg None None"

definition TokenExpiredError :: "string \<Rightarrow> thrown option \<Rightarrow> thrown" where
  "TokenExpiredError msg cause =
     new_PristineError ''TokenExpiredError'' msg (Some UserError) (Some ''TOKEN_EXPIRED'') (Some 401) None None cause"

definition is_expiry_error :: "thrown \<Rightarrow> bool" where
  "is_expiry_error e \<longleftrightarrow> name_or [] e = ''TokenExpiredError''"

text \<open>The headers of a request have lower-case names, whatever name is asked for.\<close>

definition request_header :: "string obj \<Rightarrow> string \<Rightarrow> string option" where
  "request_header headers name = obj_get headers (to_lower name)"

definition bearer_prefix :: string where
  "bearer_prefix = ''Bearer ''"

definition no_authorization :: string where
  "no_authorization = ''The Authorization header was'' @ [CHR ''n'', CHR 0x27] @ ''t found in the Request.''"

definition not_bearer :: string where
  "not_bearer = ''The value in Authorization header does'' @ [CHR ''n'', CHR 0x27] @ ''t start with '' @ quoted ''Bearer ''"

text \<open>
  \<open>headers.Authorization ?? headers.authorization\<close>, then the text after \<open>Bearer\<close>; the
  authenticators throw a plain error here, the token manager an error of its own.
\<close>

definition token_of_header :: "(string \<Rightarrow> thrown) \<Rightarrow> string option \<Rightarrow> thrown + string" where
  "token_of_header err header = (case header of
       None \<Rightarrow> Inl (err no_authorization)
     | Some h \<Rightarrow> if \<not> starts_with h bearer_prefix then Inl (err not_bearer) else Inr (drop 7 h))"

definition validateRequestAndReturnToken :: "string obj option \<Rightarrow> thrown + string" where
  "validateRequestAndReturnToken headers = (case headers of
       None \<Rightarrow> Inl (raw_error no_authorization)
     | Some hs \<Rightarrow>
         if \<not> obj_has hs ''Authorization'' \<and> \<not> obj_has hs ''authorization'' then Inl (raw_error no_authorization)
         else token_of_header raw_error (case obj_get hs ''Authorization'' of Some h \<Rightarrow> Some h | None \<Rightarrow> obj_get hs ''authorization''))"

text \<open>
  The text of a value where one is converted: that of an array is the texts of its elements, with
  nothing for \<open>undefined\<close> and \<open>null\<close>, between commas.
\<close>

fun value_text :: "jsv \<Rightarrow> string" where
  "value_text (JArray xs) = join '','' (map (\<lambda>x. if x = JUndefined \<or> x = JNull then [] else value_text x) xs)"
| "value_text v = js_text v"

text \<open>
  The number of a value: that of a text is decimal, with a fraction and an exponent, or in another
  radix behind a prefix, between white space; a blank text is zero.
\<close>

datatype js_number = Not_A_Number | Minus_Infinity | Finite rat | Plus_Infinity

definition power_of_ten :: "int \<Rightarrow> rat" where
  "power_of_ten x = (if 0 \<le> x then 10 ^ nat x else 1 / 10 ^ nat (- x))"

definition signed_part :: "string \<Rightarrow> bool \<times> string" where
  "signed_part s = (case s of [] \<Rightarrow> (False, [])
     | c # r \<Rightarrow> if c = CHR ''-'' then (True, r) else if c = CHR ''+'' then (False, r) else (False, s))"

definition exponent_part :: "string \<Rightarrow> int option" where
  "exponent_part s = (case s of [] \<Rightarrow> Some 0
     | c # r \<Rightarrow> if c \<notin> {CHR ''e'', CHR ''E''} then None
         else (let (negative, ds) = signed_part r in
           if ds = [] \<or> \<not> list_all is_digit ds then None
           else Some ((if negative then -1 else 1) * int (num_value ds))))"

definition decimal_number :: "string \<Rightarrow> rat option" where
  "decimal_number s =
     (let (negative, u) = signed_part s;
          whole = takeWhile is_digit u;
          rest = dropWhile is_digit u;
          (fraction, rest) = (case rest of [] \<Rightarrow> ([], [])
             | c # r \<Rightarrow> if c = CHR ''.'' then (takeWhile is_digit r, dropWhile is_digit r) else ([], rest))
      in if whole @ fraction = [] then None
         else map_option (\<lambda>x. (if negative then -1 else 1) * of_nat (num_value (whole @ fraction)) *
             power_of_ten (x - int (length fraction))) (exponent_part rest))"

definition radix_of :: "char \<Rightarrow> nat" where
  "radix_of c = (if c \<in> {CHR ''x'', CHR ''X''} then 16 else if c \<in> {CHR ''o'', CHR ''O''} then 8
     else if c \<in> {CHR ''b'', CHR ''B''} then 2 else 0)"

definition radix_digit :: "char \<Rightarrow> nat" where
  "radix_digit c = (if is_digit c then digit_value c
     else if 97 \<le> (of_char (lower_char c) :: nat) \<and> (of_char (lower_char c) :: nat) \<le> 102 then of_char (lower_char c) - 87
     else 99)"

definition number_of_text :: "string \<Rightarrow> js_number" where
  "number_of_text s =
     (let t = trim s; plain = (case decimal_number t of Some q \<Rightarrow> Finite q | None \<Rightarrow> Not_A_Number) in
      if t = [] then Finite 0
      else if t = ''Infinity'' \<or> t = ''+Infinity'' then Plus_Infinity
      else if t = ''-Infinity'' then Minus_Infinity
      else case t of
        z # c # ds \<Rightarrow>
          if z = CHR ''0'' \<and> radix_of c \<noteq> 0 then
            (if ds \<noteq> [] \<and> list_all (\<lambda>d. radix_digit d < radix_of c) ds
             then Finite (of_nat (foldl (\<lambda>n d. radix_of c * n + radix_digit d) 0 ds)) else Not_A_Number)
          else plain
      | _ \<Rightarrow> plain)"

definition js_number_of :: "jsv \<Rightarrow> js_number" where
  "js_number_of v = (case v of
       JUndefined \<Rightarrow> Not_A_Number
     | JNull \<Rightarrow> Finite 0
     | JAtom a \<Rightarrow> (case as_string v of Some s \<Rightarrow> number_of_text s
         | None \<Rightarrow> if a = ''true'' then Finite 1 else if a = ''false'' then Finite 0 else number_of_text a)
     | JArray xs \<Rightarrow> number_of_text (value_text v)
     | _ \<Rightarrow> Not_A_Number)"

text \<open>\<open>now > v\<close>, \<open>now < v\<close> and \<open>now >= v\<close>: what is no number compares false with everything.\<close>

definition later_than :: "int \<Rightarrow> jsv \<Rightarrow> bool" where
  "later_than now v = (case js_number_of v of Not_A_Number \<Rightarrow> False | Minus_Infinity \<Rightarrow> True
     | Finite d \<Rightarrow> d < of_int now | Plus_Infinity \<Rightarrow> False)"

definition earlier_than :: "int \<Rightarrow> jsv \<Rightarrow> bool" where
  "earlier_than now v = (case js_number_of v of Not_A_Number \<Rightarrow> False | Minus_Infinity \<Rightarrow> False
     | Finite d \<Rightarrow> of_int now < d | Plus_Infinity \<Rightarrow> True)"

definition at_or_after :: "int \<Rightarrow> jsv \<Rightarrow> bool" where
  "at_or_after now v = (case js_number_of v of Not_A_Number \<Rightarrow> False | Minus_Infinity \<Rightarrow> True
     | Finite d \<Rightarrow> d \<le> of_int now | Plus_Infinity \<Rightarrow> False)"

text \<open>A field of verified claims, which are neither \<open>null\<close> nor \<open>undefined\<close>.\<close>

definition field_of :: "jsv \<Rightarrow> string \<Rightarrow> jsv" where
  "field_of v k = (case get_prop v k of Inr w \<Rightarrow> w | Inl _ \<Rightarrow> JUndefined)"

record token_functions =
  tf_base64 :: "string \<Rightarrow> string"
  tf_base64url :: "string \<Rightarrow> string"
  tf_parse :: "string \<Rightarrow> thrown + jsv"
  tf_rsa :: "string \<Rightarrow> string \<Rightarrow> string \<Rightarrow> thrown + bool"
  tf_verify :: "string \<Rightarrow> string \<Rightarrow> string list option \<Rightarrow> thrown + jsv"

record token_identity =
  ti_id :: jsv
  ti_claims :: jsv

section \<open>Keys\<close>

text \<open>The published keys by their identifier, each converted; the last of an identifier stays.\<close>

fun collect_keys :: "('k \<Rightarrow> thrown + string) \<Rightarrow> (string \<times> 'k) list \<Rightarrow> string obj \<Rightarrow> thrown + string obj" where
  "collect_keys convert [] acc = Inr acc"
| "collect_keys convert ((kid, k) # ks) acc = sum_bind (convert k) (\<lambda>pem. collect_keys convert ks (obj_set kid pem acc))"

definition getTokenHeader :: "token_functions \<Rightarrow> string \<Rightarrow> thrown + jsv" where
  "getTokenHeader fns token = (let sections = split_on (CHR ''.'') token in
     if length sections < 2 then Inl (raw_error ''Token is invalid'') else tf_parse fns (tf_base64 fns (hd sections)))"

text \<open>
  The identifier is used as the name of a property, so one that is missing reads \<open>undefined\<close>;
  identifiers that are members of every object, such as \<open>constructor\<close>, are left out.
\<close>

definition getKeyFromToken :: "token_functions \<Rightarrow> string \<Rightarrow> string obj \<Rightarrow> thrown + string" where
  "getKeyFromToken fns token keys =
     sum_bind (getTokenHeader fns token) (\<lambda>header.
     sum_bind (get_prop header ''kid'') (\<lambda>kid.
     case obj_get keys (value_text kid) of
       Some key \<Rightarrow> Inr key
     | None \<Rightarrow> Inl (raw_error ''Claim made for unknown kid'')))"

text \<open>The dates and the issuer, which the three authenticators check alike.\<close>

definition check_dates_and_issuer :: "int \<Rightarrow> string \<Rightarrow> jsv \<Rightarrow> thrown + unit" where
  "check_dates_and_issuer now issuer claim =
     (if later_than now (field_of claim ''exp'') then Inl (TokenExpiredError ''The token has expired.'' None)
      else if earlier_than now (field_of claim ''auth_time'') then Inl (UnauthorizedError ''The token auth_time is invalid.'' None None)
      else if field_of claim ''iss'' \<noteq> js_string issuer then Inl (UnauthorizedError ''Claim issuer is invalid'' None None)
      else Inr ())"

section \<open>Auth0\<close>

datatype one_or_many = One string | Many "string list"

record auth0_options =
  a0_expectedAudience :: "one_or_many option"
  a0_expectedScopes :: "one_or_many option"

record auth0 =
  a0_issuerDomain :: string
  a0_configuredAudience :: "string option"

definition getAuth0Issuer :: "auth0 \<Rightarrow> string" where
  "getAuth0Issuer a = ''https://'' @ a0_issuerDomain a @ ''/''"

definition auth0_publicKeyUrl :: "auth0 \<Rightarrow> string" where
  "auth0_publicKeyUrl a = getAuth0Issuer a @ ''.well-known/jwks.json''"

definition verifyTokenAndDecode :: "token_functions \<Rightarrow> int \<Rightarrow> string \<Rightarrow> string \<Rightarrow> thrown + jsv" where
  "verifyTokenAndDecode fns now token key =
     (case split_on (CHR ''.'') token of
        [h, p, s] \<Rightarrow>
          (case tf_rsa fns (h @ ''.'' @ p) key (tf_base64url fns s) of
             Inl e \<Rightarrow> Inl e
           | Inr False \<Rightarrow> Inl (UnauthorizedError ''invalid signature'' None None)
           | Inr True \<Rightarrow>
               sum_bind (tf_parse fns (tf_base64url fns p)) (\<lambda>claim.
               sum_bind (get_prop claim ''exp'') (\<lambda>ex.
               if at_or_after now ex then Inl (TokenExpiredError ''The token has expired.'' None) else Inr claim)))
      | _ \<Rightarrow> Inl (UnauthorizedError ''jwt malformed'' None None))"

definition invalid_jwt :: "thrown \<Rightarrow> thrown" where
  "invalid_jwt e = UnauthorizedError (''Invalid jwt: '' @ message_or ''undefined'' e) None (Some e)"

definition expected_list :: "one_or_many option \<Rightarrow> string list" where
  "expected_list o' = filter (\<lambda>a. a \<noteq> []) (case o' of None \<Rightarrow> [] | Some (One a) \<Rightarrow> [a] | Some (Many as) \<Rightarrow> as)"

text \<open>An option of the route stands before the configured audience, even when it is empty.\<close>

definition expected_audiences :: "auth0 \<Rightarrow> auth0_options option \<Rightarrow> string list" where
  "expected_audiences a opts =
     expected_list (case Option.bind opts a0_expectedAudience of Some e \<Rightarrow> Some e | None \<Rightarrow> map_option One (a0_configuredAudience a))"

definition token_audiences :: "jsv \<Rightarrow> jsv list" where
  "token_audiences aud = (case aud of JArray xs \<Rightarrow> xs | v \<Rightarrow> [v])"

definition audience_ok :: "string list \<Rightarrow> jsv \<Rightarrow> bool" where
  "audience_ok expected claim \<longleftrightarrow>
     expected = [] \<or> list_ex (\<lambda>a. js_string a \<in> set (token_audiences (field_of claim ''aud''))) expected"

fun missing_scope :: "string list \<Rightarrow> string list \<Rightarrow> string option" where
  "missing_scope provided [] = None"
| "missing_scope provided (s # ss) = (if s \<in> set provided then missing_scope provided ss else Some s)"

definition check_scopes :: "auth0_options option \<Rightarrow> jsv \<Rightarrow> thrown + unit" where
  "check_scopes opts claim =
     (case Option.bind opts a0_expectedScopes of
        None \<Rightarrow> Inr ()
      | Some e \<Rightarrow>
          if e = One [] then Inr ()
          else (let scope = field_of claim ''scope'' in
            case as_string scope of
              None \<Rightarrow> Inl (if nullish scope then read_error scope ''split''
                else NativeErr ''TypeError'' ''claim.scope.split is not a function'' None None)
            | Some s \<Rightarrow>
                (case missing_scope (split_on (CHR '' '') s) (case e of One x \<Rightarrow> [x] | Many xs \<Rightarrow> xs) of
                   None \<Rightarrow> Inr ()
                 | Some x \<Rightarrow> Inl (ForbiddenError (''Claim does not contain the required scope: '' @ quoted x) None))))"

definition auth0_verify_claims :: "token_functions \<Rightarrow> int \<Rightarrow> auth0 \<Rightarrow> auth0_options option \<Rightarrow> string \<Rightarrow> string \<Rightarrow> thrown + jsv" where
  "auth0_verify_claims fns now a opts token key =
     (case verifyTokenAndDecode fns now token key of
        Inl e \<Rightarrow> Inl (if is_pristine e then e else invalid_jwt e)
      | Inr claim \<Rightarrow>
          sum_bind (check_dates_and_issuer now (getAuth0Issuer a) claim) (\<lambda>_.
          if \<not> audience_ok (expected_audiences a opts) claim
          then Inl (ForbiddenError ''Claim audience does not include expected audience'' None)
          else sum_bind (check_scopes opts claim) (\<lambda>_. Inr claim)))"

text \<open>What \<open>authenticate\<close> does once it has the keys.\<close>

definition auth0_identity :: "token_functions \<Rightarrow> int \<Rightarrow> auth0 \<Rightarrow> auth0_options option \<Rightarrow> string obj \<Rightarrow> string obj option \<Rightarrow>
  thrown + token_identity" where
  "auth0_identity fns now a opts keys headers =
     sum_bind (validateRequestAndReturnToken headers) (\<lambda>token.
     sum_bind (getKeyFromToken fns token keys) (\<lambda>key.
     sum_bind (auth0_verify_claims fns now a opts token key) (\<lambda>claim.
     Inr \<lparr>ti_id = field_of claim ''sub'', ti_claims = claim\<rparr>)))"

text \<open>The authenticator is a singleton: one set of keys and one context for every request.\<close>

record auth0_state =
  at_cachedPems :: "string obj option"
  at_context :: "auth0_options option"

definition auth0_setContext :: "auth0_options option \<Rightarrow> auth0_state \<Rightarrow> auth0_state" where
  "auth0_setContext opts st = st\<lparr>at_context := opts\<rparr>"

definition auth0_authenticate :: "token_functions \<Rightarrow> int \<Rightarrow> auth0 \<Rightarrow> thrown + string obj \<Rightarrow> string obj option \<Rightarrow> auth0_state \<Rightarrow>
  (thrown + token_identity) \<times> auth0_state" where
  "auth0_authenticate fns now a fetched headers st =
     (case (case at_cachedPems st of Some keys \<Rightarrow> Inr keys | None \<Rightarrow> fetched) of
        Inl e \<Rightarrow> (Inl e, st)
      | Inr keys \<Rightarrow> (auth0_identity fns now a (at_context st) keys headers, st\<lparr>at_cachedPems := Some keys\<rparr>))"

section \<open>Cognito and Identity Platform\<close>

record key_state =
  ks_keys :: "string obj option"

text \<open>\<open>jsonwebtoken.verify\<close> and what its errors become.\<close>

definition library_claims :: "token_functions \<Rightarrow> string \<Rightarrow> string \<Rightarrow> string list option \<Rightarrow> thrown + jsv" where
  "library_claims fns token key algorithms =
     (case tf_verify fns token key algorithms of
        Inl e \<Rightarrow> Inl (if is_expiry_error e then TokenExpiredError ''The token has expired.'' (Some e) else invalid_jwt e)
      | Inr claim \<Rightarrow> Inr claim)"

record cognito =
  cg_region :: string
  cg_poolId :: string

definition getCognitoIssuer :: "cognito \<Rightarrow> string" where
  "getCognitoIssuer a = ''https://cognito-idp.'' @ cg_region a @ ''.amazonaws.com/'' @ cg_poolId a"

definition cognito_publicKeyUrl :: "cognito \<Rightarrow> string" where
  "cognito_publicKeyUrl a = getCognitoIssuer a @ ''/.well-known/jwks.json''"

definition cognito_verify_claims :: "token_functions \<Rightarrow> int \<Rightarrow> cognito \<Rightarrow> string \<Rightarrow> string \<Rightarrow> thrown + jsv" where
  "cognito_verify_claims fns now a token key =
     sum_bind (library_claims fns token key None) (\<lambda>claim.
     sum_bind (check_dates_and_issuer now (getCognitoIssuer a) claim) (\<lambda>_. Inr claim))"

definition cognito_identity :: "token_functions \<Rightarrow> int \<Rightarrow> cognito \<Rightarrow> string obj \<Rightarrow> string obj option \<Rightarrow> thrown + token_identity" where
  "cognito_identity fns now a keys headers =
     sum_bind (validateRequestAndReturnToken headers) (\<lambda>token.
     sum_bind (getKeyFromToken fns token keys) (\<lambda>key.
     sum_bind (cognito_verify_claims fns now a token key) (\<lambda>claim.
     Inr \<lparr>ti_id = field_of claim ''cognito:username'', ti_claims = claim\<rparr>)))"

text \<open>The keys are asked for once, and kept for good.\<close>

definition with_keys :: "thrown + string obj \<Rightarrow> (string obj \<Rightarrow> thrown + token_identity) \<Rightarrow> key_state \<Rightarrow>
  (thrown + token_identity) \<times> key_state" where
  "with_keys fetched identify st =
     (case (case ks_keys st of Some keys \<Rightarrow> Inr keys | None \<Rightarrow> fetched) of
        Inl e \<Rightarrow> (Inl e, st)
      | Inr keys \<Rightarrow> (identify keys, st\<lparr>ks_keys := Some keys\<rparr>))"

definition cognito_authenticate :: "token_functions \<Rightarrow> int \<Rightarrow> cognito \<Rightarrow> thrown + string obj \<Rightarrow> string obj option \<Rightarrow> key_state \<Rightarrow>
  (thrown + token_identity) \<times> key_state" where
  "cognito_authenticate fns now a fetched headers = with_keys fetched (\<lambda>keys. cognito_identity fns now a keys headers)"

definition platform_verify_claims :: "token_functions \<Rightarrow> int \<Rightarrow> string \<Rightarrow> string \<Rightarrow> string \<Rightarrow> thrown + jsv" where
  "platform_verify_claims fns now projectId token cert =
     sum_bind (library_claims fns token cert (Some [''RS256''])) (\<lambda>claim.
     sum_bind (check_dates_and_issuer now (''https://securetoken.google.com/'' @ projectId) claim) (\<lambda>_.
     if field_of claim ''aud'' \<noteq> js_string projectId then Inl (UnauthorizedError ''Claim audience is invalid'' None None)
     else Inr claim))"

definition platform_identity :: "token_functions \<Rightarrow> int \<Rightarrow> string \<Rightarrow> string obj \<Rightarrow> string obj option \<Rightarrow> thrown + token_identity" where
  "platform_identity fns now projectId certs headers =
     sum_bind (validateRequestAndReturnToken headers) (\<lambda>token.
     sum_bind (getKeyFromToken fns token certs) (\<lambda>cert.
     sum_bind (platform_verify_claims fns now projectId token cert) (\<lambda>claim.
     Inr \<lparr>ti_id = coalesce (field_of claim ''user_id'') (field_of claim ''sub''), ti_claims = claim\<rparr>)))"

definition platform_authenticate :: "token_functions \<Rightarrow> int \<Rightarrow> string \<Rightarrow> thrown + string obj \<Rightarrow> string obj option \<Rightarrow> key_state \<Rightarrow>
  (thrown + token_identity) \<times> key_state" where
  "platform_authenticate fns now projectId fetched headers = with_keys fetched (\<lambda>certs. platform_identity fns now projectId certs headers)"

section \<open>The token manager\<close>

record jwt_manager =
  jm_publicKey :: string
  jm_algorithm :: string

definition JwtAuthorizationHeaderError :: "string \<Rightarrow> thrown" where
  "JwtAuthorizationHeaderError msg =
     new_PristineError ''JwtAuthorizationHeaderError'' msg None (Some ''UNAUTHORIZED'') (Some 401) (Some ''request'') None None"

definition InvalidJwtError :: "string \<Rightarrow> thrown" where
  "InvalidJwtError msg =
     new_PristineError ''InvalidJwtError'' msg None (Some ''UNAUTHORIZED'') (Some 401)
       (Some ''request, previousError, token, algorithm, publicKey'') None None"

definition jwt_token :: "string obj option \<Rightarrow> thrown + string" where
  "jwt_token headers = (case headers of
       None \<Rightarrow> Inl (JwtAuthorizationHeaderError no_authorization)
     | Some hs \<Rightarrow> token_of_header JwtAuthorizationHeaderError (request_header hs ''Authorization''))"

definition validateAndDecode :: "token_functions \<Rightarrow> jwt_manager \<Rightarrow> string obj option \<Rightarrow> thrown + jsv" where
  "validateAndDecode fns m headers =
     sum_bind (jwt_token headers) (\<lambda>token.
     case tf_verify fns token (jm_publicKey m) (Some [jm_algorithm m]) of
       Inl e \<Rightarrow> Inl (if is_expiry_error e then TokenExpiredError ''The JWT has expired.'' (Some e)
                       else InvalidJwtError ''The JWT is invalid.'')
     | Inr decoded \<Rightarrow> Inr decoded)"

text \<open>The guard of a token, and the argument that swallows every error.\<close>

definition jwt_isAuthorized :: "token_functions \<Rightarrow> jwt_manager \<Rightarrow> string obj option \<Rightarrow> thrown + bool" where
  "jwt_isAuthorized fns m headers = sum_bind (validateAndDecode fns m headers) (\<lambda>_. Inr True)"

definition resolve_payload :: "token_functions \<Rightarrow> jwt_manager \<Rightarrow> string obj option \<Rightarrow> jsv" where
  "resolve_payload fns m headers = (case validateAndDecode fns m headers of Inl _ \<Rightarrow> JObject [] | Inr decoded \<Rightarrow> decoded)"

section \<open>Guards on claims\<close>

text \<open>The context of a guard holds its options; the identity is that of the authenticator.\<close>

definition needed_of :: "string \<Rightarrow> jsv obj option \<Rightarrow> jsv list" where
  "needed_of name opts = (case opts of
       None \<Rightarrow> []
     | Some ob \<Rightarrow> (case obj_get ob name of Some (JArray xs) \<Rightarrow> xs | _ \<Rightarrow> []))"

definition claims_of :: "token_identity option \<Rightarrow> jsv" where
  "claims_of identity = (case identity of None \<Rightarrow> JUndefined | Some i \<Rightarrow> ti_claims i)"

definition cognito_group_isAuthorized :: "jsv obj option option \<Rightarrow> token_identity option \<Rightarrow> bool" where
  "cognito_group_isAuthorized context identity = (case context of
       None \<Rightarrow> False
     | Some opts \<Rightarrow> (let needed = needed_of ''groups'' opts in
         needed = [] \<or> (case field_of (claims_of identity) ''cognito:groups'' of
             JArray groups \<Rightarrow> list_all (\<lambda>g. g \<in> set groups) needed
           | _ \<Rightarrow> False)))"

definition platform_claim_isAuthorized :: "jsv obj option option \<Rightarrow> token_identity option \<Rightarrow> bool" where
  "platform_claim_isAuthorized context identity = (case context of
       None \<Rightarrow> False
     | Some opts \<Rightarrow> (let needed = needed_of ''claims'' opts in
         needed = [] \<or> claims_of identity \<noteq> JUndefined \<and>
           list_all (\<lambda>c. truthy (field_of (claims_of identity) (js_text c))) needed))"

section \<open>Overlapping requests\<close>

text \<open>
  A request sets the context of the authenticator, and a turn later it authenticates: at once
  when the keys are known, else when the issuer has answered. Whatever other requests do falls in
  between. \<open>Asked\<close> and \<open>Fetching\<close> are the requests on their way, each with the options of its
  route; the answers are kept in order.
\<close>

datatype auth_phase = Asked | Fetching

record auth_run =
  ar_headers :: "string obj option"
  ar_options :: "auth0_options option"

record auth0_world =
  aw_state :: auth0_state
  aw_pending :: "(auth_phase \<times> auth_run) list"
  aw_answers :: "(auth_run \<times> (thrown + token_identity)) list"

definition remove_nth :: "nat \<Rightarrow> 'a list \<Rightarrow> 'a list" where
  "remove_nth i xs = take i xs @ drop (Suc i) xs"

inductive auth0_step :: "token_functions \<Rightarrow> int \<Rightarrow> auth0 \<Rightarrow> auth0_world \<Rightarrow> auth0_world \<Rightarrow> bool" for fns now a where
  step_set: "auth0_step fns now a w
     (w\<lparr>aw_state := auth0_setContext (ar_options r) (aw_state w), aw_pending := aw_pending w @ [(Asked, r)]\<rparr>)"
| step_known: "i < length (aw_pending w) \<Longrightarrow> aw_pending w ! i = (Asked, r) \<Longrightarrow> at_cachedPems (aw_state w) = Some keys \<Longrightarrow>
     auth0_step fns now a w (w\<lparr>aw_pending := remove_nth i (aw_pending w),
       aw_answers := aw_answers w @ [(r, auth0_identity fns now a (at_context (aw_state w)) keys (ar_headers r))]\<rparr>)"
| step_fetch: "i < length (aw_pending w) \<Longrightarrow> aw_pending w ! i = (Asked, r) \<Longrightarrow> at_cachedPems (aw_state w) = None \<Longrightarrow>
     auth0_step fns now a w (w\<lparr>aw_pending := (aw_pending w)[i := (Fetching, r)]\<rparr>)"
| step_fetched: "i < length (aw_pending w) \<Longrightarrow> aw_pending w ! i = (Fetching, r) \<Longrightarrow>
     auth0_step fns now a w (w\<lparr>aw_state := (aw_state w)\<lparr>at_cachedPems := Some keys\<rparr>,
       aw_pending := remove_nth i (aw_pending w),
       aw_answers := aw_answers w @ [(r, auth0_identity fns now a (at_context (aw_state w)) keys (ar_headers r))]\<rparr>)"
| step_failed: "i < length (aw_pending w) \<Longrightarrow> aw_pending w ! i = (Fetching, r) \<Longrightarrow>
     auth0_step fns now a w (w\<lparr>aw_pending := remove_nth i (aw_pending w), aw_answers := aw_answers w @ [(r, Inl e)]\<rparr>)"

end
