(* ===== verification/Token_Properties.thy ===== *)
theory Token_Properties
  imports Token_Authenticators
begin

text \<open>
  What the authenticators of bearer tokens guarantee: which tokens Auth0's accepts, what holds of
  every answer it gives however requests overlap, what it cannot keep apart, and that keys are
  never asked for again.
\<close>

section \<open>Which tokens are accepted\<close>

definition wanted :: "one_or_many \<Rightarrow> string list" where
  "wanted e = (case e of One x \<Rightarrow> [x] | Many xs \<Rightarrow> xs)"

text \<open>
  What the claims have to say, at a time and under the options of a route. An \<open>exp\<close> or \<open>auth_time\<close>
  that is no number, or is missing, asks for nothing.
\<close>

definition claims_grant :: "int \<Rightarrow> auth0 \<Rightarrow> auth0_options option \<Rightarrow> jsv \<Rightarrow> bool" where
  "claims_grant now a opts claim \<longleftrightarrow>
     (case js_number_of (field_of claim ''exp'') of
        Finite d \<Rightarrow> of_int now < d | Minus_Infinity \<Rightarrow> False | Plus_Infinity \<Rightarrow> True | Not_A_Number \<Rightarrow> True) \<and>
     (case js_number_of (field_of claim ''auth_time'') of
        Finite d \<Rightarrow> d \<le> of_int now | Minus_Infinity \<Rightarrow> True | Plus_Infinity \<Rightarrow> False | Not_A_Number \<Rightarrow> True) \<and>
     field_of claim ''iss'' = js_string (getAuth0Issuer a) \<and>
     (expected_audiences a opts = [] \<or>
       (\<exists>x\<in>set (expected_audiences a opts). js_string x \<in> set (token_audiences (field_of claim ''aud'')))) \<and>
     (\<forall>e. Option.bind opts a0_expectedScopes = Some e \<longrightarrow> e \<noteq> One [] \<longrightarrow>
       (\<exists>s. field_of claim ''scope'' = js_string s \<and> set (wanted e) \<subseteq> set (split_on (CHR '' '') s)))"

text \<open>A token whose signature the published key of its identifier verifies.\<close>

definition signed_claims :: "token_functions \<Rightarrow> string obj \<Rightarrow> string \<Rightarrow> jsv \<Rightarrow> bool" where
  "signed_claims fns keys token claim \<longleftrightarrow> (\<exists>h p s header kid key.
     split_on (CHR ''.'') token = [h, p, s] \<and> tf_parse fns (tf_base64 fns h) = Inr header \<and>
     get_prop header ''kid'' = Inr kid \<and> obj_get keys (value_text kid) = Some key \<and>
     tf_rsa fns (h @ ''.'' @ p) key (tf_base64url fns s) = Inr True \<and>
     tf_parse fns (tf_base64url fns p) = Inr claim \<and> \<not> nullish claim)"

lemma missing_scope_None: "missing_scope provided ss = None \<longleftrightarrow> set ss \<subseteq> set provided"
  by (induction ss) auto

lemma check_scopes_Inr:
  "check_scopes opts claim = Inr () \<longleftrightarrow>
     (\<forall>e. Option.bind opts a0_expectedScopes = Some e \<longrightarrow> e \<noteq> One [] \<longrightarrow>
       (\<exists>s. field_of claim ''scope'' = js_string s \<and> set (wanted e) \<subseteq> set (split_on (CHR '' '') s)))"
proof (cases "Option.bind opts a0_expectedScopes")
  case (Some e)
  show ?thesis
  proof (cases "as_string (field_of claim ''scope'')")
    case None
    then have "field_of claim ''scope'' \<noteq> js_string s" for s by auto
    with Some None show ?thesis by (simp add: check_scopes_def Let_def)
  next
    case (Some s)
    then have "field_of claim ''scope'' = js_string s" by (simp add: as_string_Some)
    with \<open>Option.bind opts a0_expectedScopes = Some e\<close> show ?thesis
      by (auto simp: check_scopes_def Let_def wanted_def missing_scope_None [symmetric] split: option.splits)
  qed
qed (simp add: check_scopes_def)

lemma check_dates_Inr:
  "check_dates_and_issuer now issuer claim = Inr () \<longleftrightarrow>
     \<not> later_than now (field_of claim ''exp'') \<and> \<not> earlier_than now (field_of claim ''auth_time'') \<and>
     field_of claim ''iss'' = js_string issuer"
  by (simp add: check_dates_and_issuer_def)

lemma dates_iff:
  "\<not> at_or_after now v \<longleftrightarrow> (case js_number_of v of
     Finite d \<Rightarrow> of_int now < d | Minus_Infinity \<Rightarrow> False | Plus_Infinity \<Rightarrow> True | Not_A_Number \<Rightarrow> True)"
  "\<not> earlier_than now v \<longleftrightarrow> (case js_number_of v of
     Finite d \<Rightarrow> d \<le> of_int now | Minus_Infinity \<Rightarrow> True | Plus_Infinity \<Rightarrow> False | Not_A_Number \<Rightarrow> True)"
  "\<not> at_or_after now v \<Longrightarrow> \<not> later_than now v"
  by (auto simp: at_or_after_def earlier_than_def later_than_def split: js_number.splits)

lemma get_prop_field: "\<not> nullish v \<Longrightarrow> get_prop v k = Inr (field_of v k)"
  by (cases v) (simp_all add: field_of_def get_prop_def nullish_def)

lemma get_prop_nullish: "nullish v \<Longrightarrow> get_prop v k = Inl (read_error v k)"
  by (auto simp: nullish_def get_prop_def)

lemma verifyTokenAndDecode_Inr:
  "verifyTokenAndDecode fns now token key = Inr claim \<longleftrightarrow> (\<exists>h p s. split_on (CHR ''.'') token = [h, p, s] \<and>
     tf_rsa fns (h @ ''.'' @ p) key (tf_base64url fns s) = Inr True \<and> tf_parse fns (tf_base64url fns p) = Inr claim \<and>
     \<not> nullish claim \<and> \<not> at_or_after now (field_of claim ''exp''))"
proof -
  have "sum_bind (get_prop c ''exp'') (\<lambda>ex. if at_or_after now ex then Inl e else Inr c) = Inr claim \<longleftrightarrow>
      c = claim \<and> \<not> nullish claim \<and> \<not> at_or_after now (field_of claim ''exp'')" for c e
    by (cases "nullish c") (auto simp: get_prop_nullish get_prop_field)
  then show ?thesis
    unfolding verifyTokenAndDecode_def
    by (auto simp: sum_bind_Inr_conv split: list.splits sum.splits bool.splits)
qed

lemma auth0_verify_claims_Inr:
  "auth0_verify_claims fns now a opts token key = Inr claim \<longleftrightarrow>
     verifyTokenAndDecode fns now token key = Inr claim \<and> claims_grant now a opts claim"
proof (cases "verifyTokenAndDecode fns now token key")
  case (Inr c)
  then have "\<not> at_or_after now (field_of c ''exp'')" by (auto simp: verifyTokenAndDecode_Inr)
  then show ?thesis using Inr dates_iff(3)
    by (auto simp: auth0_verify_claims_def sum_bind_Inr_conv check_dates_Inr check_scopes_Inr claims_grant_def dates_iff(1,2)
        [symmetric] audience_ok_def list_ex_iff)
qed (simp add: auth0_verify_claims_def)

definition bearer_headers :: "string \<Rightarrow> string obj option" where
  "bearer_headers token = Some [(''authorization'', bearer_prefix @ token)]"

lemma bearer_token: "validateRequestAndReturnToken (bearer_headers token) = Inr token"
  by (simp add: validateRequestAndReturnToken_def bearer_headers_def token_of_header_def obj_has_def starts_with_def bearer_prefix_def)

lemma looked_up: "(case x of None \<Rightarrow> Inl e | Some k \<Rightarrow> Inr k) = Inr key \<longleftrightarrow> x = Some key"
  by (cases x) auto

lemma identity_iff:
  "auth0_identity fns now a opts keys (bearer_headers token) = Inr i \<longleftrightarrow>
     (\<exists>claim. signed_claims fns keys token claim \<and> claims_grant now a opts claim \<and>
        i = \<lparr>ti_id = field_of claim ''sub'', ti_claims = claim\<rparr>)"
proof -
  have key: "getKeyFromToken fns token keys = Inr key \<longleftrightarrow> 2 \<le> length (split_on (CHR ''.'') token) \<and>
      (\<exists>header kid. tf_parse fns (tf_base64 fns (hd (split_on (CHR ''.'') token))) = Inr header \<and>
         get_prop header ''kid'' = Inr kid \<and> obj_get keys (value_text kid) = Some key)" for key
    by (cases "length (split_on (CHR ''.'') token) < 2")
      (auto simp: getKeyFromToken_def getTokenHeader_def sum_bind_Inr_conv Let_def looked_up)
  show ?thesis
    unfolding auth0_identity_def bearer_token sum_bind_simps sum_bind_Inr_conv key auth0_verify_claims_Inr
      verifyTokenAndDecode_Inr signed_claims_def dates_iff(1)
    by (auto simp: claims_grant_def)
qed


section \<open>Overlapping requests\<close>

text \<open>An answer that some options and some keys account for.\<close>

definition accounted :: "token_functions \<Rightarrow> int \<Rightarrow> auth0 \<Rightarrow> auth_run \<times> (thrown + token_identity) \<Rightarrow> bool" where
  "accounted fns now a ans \<longleftrightarrow> (case snd ans of Inl e \<Rightarrow> True
     | Inr i \<Rightarrow> \<exists>opts keys. auth0_identity fns now a opts keys (ar_headers (fst ans)) = Inr i)"

lemma step_accounted:
  "auth0_step fns now a w w' \<Longrightarrow> list_all (accounted fns now a) (aw_answers w) \<Longrightarrow> list_all (accounted fns now a) (aw_answers w')"
  by (induction rule: auth0_step.induct) (auto simp: accounted_def split: sum.splits)

definition idle_auth0 :: "string obj option \<Rightarrow> auth0_world" where
  "idle_auth0 keys = \<lparr>aw_state = \<lparr>at_cachedPems = keys, at_context = None\<rparr>, aw_pending = [], aw_answers = []\<rparr>"

text \<open>
  However requests overlap, a request is given an identity only for a token that a key
  verifies and whose claims are in date and of the issuer.
\<close>

theorem auth0_answers_are_verified:
  assumes "(auth0_step fns now a)\<^sup>*\<^sup>* (idle_auth0 keys) w" and "(r, Inr i) \<in> set (aw_answers w)"
    and "ar_headers r = bearer_headers token"
  shows "\<exists>keys' opts. signed_claims fns keys' token (ti_claims i) \<and> claims_grant now a opts (ti_claims i)"
proof -
  have "list_all (accounted fns now a) (aw_answers w)"
    using assms(1) by (induction rule: rtranclp_induct) (auto simp: idle_auth0_def intro: step_accounted)
  then have "accounted fns now a (r, Inr i)" using assms(2) by (simp add: list_all_iff)
  then obtain opts keys' where "auth0_identity fns now a opts keys' (bearer_headers token) = Inr i"
    using assms(3) by (auto simp: accounted_def)
  then obtain claim where "signed_claims fns keys' token claim" "claims_grant now a opts claim"
      "i = \<lparr>ti_id = field_of claim ''sub'', ti_claims = claim\<rparr>"
    by (subst (asm) identity_iff) blast
  then show ?thesis by auto
qed

text \<open>The requests of a schedule: one is asked, another is asked, the first is answered.\<close>

lemma overlap_run:
  fixes r other :: auth_run
  shows "\<exists>w. (auth0_step fns now a)\<^sup>*\<^sup>* (idle_auth0 (Some keys)) w \<and>
     aw_answers w = [(r, auth0_identity fns now a (ar_options other) keys (ar_headers r))]"
proof -
  define w1 where "w1 = (idle_auth0 (Some keys))\<lparr>aw_state := auth0_setContext (ar_options r) (aw_state (idle_auth0 (Some keys))),
    aw_pending := aw_pending (idle_auth0 (Some keys)) @ [(Asked, r)]\<rparr>"
  define w2 where "w2 = w1\<lparr>aw_state := auth0_setContext (ar_options other) (aw_state w1), aw_pending := aw_pending w1 @ [(Asked, other)]\<rparr>"
  define w3 where "w3 = w2\<lparr>aw_pending := remove_nth 0 (aw_pending w2),
    aw_answers := aw_answers w2 @ [(r, auth0_identity fns now a (at_context (aw_state w2)) keys (ar_headers r))]\<rparr>"
  have "auth0_step fns now a (idle_auth0 (Some keys)) w1" unfolding w1_def by (rule step_set)
  moreover have "auth0_step fns now a w1 w2" unfolding w2_def by (rule step_set)
  moreover have "auth0_step fns now a w2 w3" unfolding w3_def
    by (rule step_known) (simp_all add: w2_def w1_def idle_auth0_def auth0_setContext_def)
  ultimately have "(auth0_step fns now a)\<^sup>*\<^sup>* (idle_auth0 (Some keys)) w3" 
    by (meson rtranclp.rtrancl_refl rtranclp.rtrancl_into_rtrancl)
  moreover have "aw_answers w3 = [(r, auth0_identity fns now a (ar_options other) keys (ar_headers r))]"
    by (simp add: w3_def w2_def w1_def idle_auth0_def auth0_setContext_def)
  ultimately show ?thesis by blast
qed

text \<open>
  The authenticator keeps the options of the last request that set them: a request that
  is overtaken is judged by the options of the other, so a token that lacks a scope of its own
  route is accepted when it satisfies the options of the other route.
\<close>

theorem overlapping_requests_share_options:
  fixes r other :: auth_run
  assumes "signed_claims fns keys token claim" and "claims_grant now a (ar_options other) claim"
    and "ar_headers r = bearer_headers token"
  shows "\<exists>w i. (auth0_step fns now a)\<^sup>*\<^sup>* (idle_auth0 (Some keys)) w \<and> (r, Inr i) \<in> set (aw_answers w) \<and> ti_claims i = claim"
proof -
  obtain w where "(auth0_step fns now a)\<^sup>*\<^sup>* (idle_auth0 (Some keys)) w"
    and "aw_answers w = [(r, auth0_identity fns now a (ar_options other) keys (bearer_headers token))]"
    using overlap_run [of fns now a keys r other] assms(3) by auto
  moreover have "auth0_identity fns now a (ar_options other) keys (bearer_headers token) =
      Inr \<lparr>ti_id = field_of claim ''sub'', ti_claims = claim\<rparr>"
    using assms(1,2) by (auto simp: identity_iff)
  ultimately show ?thesis by (intro exI [of _ w]) auto
qed

section \<open>Keys are asked for once\<close>

lemma getKeyFromToken_unknown:
  assumes "getTokenHeader fns token = Inr header" and "get_prop header ''kid'' = Inr kid" and "obj_get keys (value_text kid) = None"
  shows "getKeyFromToken fns token keys = Inl (raw_error ''Claim made for unknown kid'')"
  using assms by (simp add: getKeyFromToken_def)

text \<open>
  Once an authenticator has keys, whatever the issuer would answer changes nothing: a
  token of a key published later is refused until the process is started again.
\<close>

theorem rotated_key_is_refused:
  assumes "at_cachedPems st = Some keys" and "getTokenHeader fns token = Inr header"
    and "get_prop header ''kid'' = Inr kid" and "obj_get keys (value_text kid) = None"
  shows "auth0_authenticate fns now a fetched (bearer_headers token) st = (Inl (raw_error ''Claim made for unknown kid''), st)"
  using assms by (simp add: auth0_authenticate_def auth0_identity_def bearer_token getKeyFromToken_unknown)

lemma with_keys_cached: "ks_keys st = Some keys \<Longrightarrow> with_keys fetched identify st = (identify keys, st)"
  by (simp add: with_keys_def)

lemma with_keys_fetched: "ks_keys st = None \<Longrightarrow> with_keys (Inr keys) identify st = (identify keys, st\<lparr>ks_keys := Some keys\<rparr>)"
  by (simp add: with_keys_def)

text \<open>The published keys are those that convert, the last of an identifier.\<close>

lemma collect_keys_Inr:
  "collect_keys convert ks acc = Inr keys \<Longrightarrow> wf_obj acc \<Longrightarrow>
     obj_get keys kid = (case map_of (rev ks) kid of Some k \<Rightarrow> (case convert k of Inr pem \<Rightarrow> Some pem | Inl _ \<Rightarrow> None) | None \<Rightarrow> obj_get acc kid)"
  by (induction convert ks acc rule: collect_keys.induct)
    (auto simp: sum_bind_Inr_conv obj_get_set wf_obj_set map_add_def split: option.splits)

section \<open>The token manager\<close>

text \<open>Whatever a token is refused for, the answer is 401, and the argument of a handler is empty.\<close>

lemma jwt_errors_are_401:
  assumes "validateAndDecode fns m headers = Inl e"
  shows "is_pristine e \<and> http_status e = Some 401 \<and> resolve_payload fns m headers = JObject []"
  using assms
  by (cases headers)
    (auto simp: validateAndDecode_def jwt_token_def token_of_header_def resolve_payload_def JwtAuthorizationHeaderError_def
      InvalidJwtError_def TokenExpiredError_def new_PristineError_def is_pristine_def http_status_def
      split: option.splits if_splits sum.splits)

section \<open>A token\<close>

definition sample_header :: jsv where
  "sample_header = JObject [(''kid'', js_string ''k'')]"

definition sample_claims :: jsv where
  "sample_claims = JObject [(''sub'', js_string ''me''), (''iss'', js_string ''https://d/''), (''exp'', JAtom ''20''),
     (''scope'', js_string ''read'')]"

text \<open>A signature that is the key itself, and texts that stand for what they parse to.\<close>

definition sample_functions :: token_functions where
  "sample_functions = \<lparr>tf_base64 = (\<lambda>s. s), tf_base64url = (\<lambda>s. s),
     tf_parse = (\<lambda>s. if s = ''H'' then Inr sample_header else if s = ''P'' then Inr sample_claims else Inl (raw_error ''syntax'')),
     tf_rsa = (\<lambda>signed key signature. Inr (signature = key)), tf_verify = (\<lambda>token key algorithms. Inr sample_claims)\<rparr>"

definition sample_auth0 :: auth0 where
  "sample_auth0 = \<lparr>a0_issuerDomain = ''d'', a0_configuredAudience = None\<rparr>"

definition admin_options :: auth0_options where
  "admin_options = \<lparr>a0_expectedAudience = None, a0_expectedScopes = Some (Many [''admin''])\<rparr>"

definition admin_request :: auth_run where
  "admin_request = \<lparr>ar_headers = bearer_headers ''H.P.key'', ar_options = Some admin_options\<rparr>"

definition open_request :: auth_run where
  "open_request = \<lparr>ar_headers = bearer_headers ''H.P.key'', ar_options = None\<rparr>"

lemma sample_signed: "signed_claims sample_functions [(''k'', ''key'')] ''H.P.key'' sample_claims"
proof -
  have "split_on (CHR ''.'') ''H.P.key'' = [''H'', ''P'', ''key'']" by code_simp
  moreover have "get_prop sample_header ''kid'' = Inr (js_string ''k'')" by code_simp
  moreover have "value_text (js_string ''k'') = ''k''" by code_simp
  moreover have "\<not> nullish sample_claims" by code_simp
  ultimately show ?thesis
    by (simp add: signed_claims_def sample_functions_def)
qed

lemma sample_fields:
  "field_of sample_claims ''exp'' = JAtom ''20''" "field_of sample_claims ''auth_time'' = JUndefined"
  "field_of sample_claims ''iss'' = js_string ''https://d/''" "field_of sample_claims ''scope'' = js_string ''read''"
  by code_simp+

lemma sample_dates: "js_number_of (JAtom ''20'') = Finite 20" "js_number_of JUndefined = Not_A_Number"
  by code_simp+

text \<open>What JavaScript makes of some dates.\<close>

lemma numbers_of_dates:
  "js_number_of (JAtom ''20.5'') = Finite (41 / 2)" "js_number_of (js_string ''1e3'') = Finite 1000"
  "js_number_of (JAtom ''true'') = Finite 1" "js_number_of (JArray []) = Finite 0"
  "js_number_of (JArray [js_string '' 0x1F '']) = Finite 31" "js_number_of (js_string ''soon'') = Not_A_Number"
  "js_number_of (JArray [JAtom ''1'', JAtom ''2'']) = Not_A_Number" "js_number_of (JAtom ''1e-7'') = Finite (1 / 10000000)"
  by code_simp+

lemma sample_granted: "claims_grant 10 sample_auth0 (ar_options open_request) sample_claims"
  by (simp add: claims_grant_def sample_fields sample_dates getAuth0Issuer_def sample_auth0_def expected_audiences_def
      expected_list_def open_request_def)

lemma admin_refused: "\<not> claims_grant 10 sample_auth0 (ar_options admin_request) sample_claims"
proof -
  have "split_on (CHR '' '') ''read'' = [''read'']" by code_simp
  then show ?thesis
    by (auto simp: claims_grant_def sample_fields admin_request_def admin_options_def wanted_def js_string_inject)
qed

lemma overlapping_requests_share_options_witness:
  "\<not> claims_grant 10 sample_auth0 (ar_options admin_request) sample_claims \<and>
   (\<exists>w i. (auth0_step sample_functions 10 sample_auth0)\<^sup>*\<^sup>* (idle_auth0 (Some [(''k'', ''key'')])) w \<and>
      (admin_request, Inr i) \<in> set (aw_answers w) \<and> ti_claims i = sample_claims)"
  using admin_refused
    overlapping_requests_share_options [OF sample_signed sample_granted, of admin_request]
  by (simp add: admin_request_def)

lemma sample_answer:
  "\<exists>w. (auth0_step sample_functions 10 sample_auth0)\<^sup>*\<^sup>* (idle_auth0 (Some [(''k'', ''key'')])) w \<and>
     (open_request, Inr \<lparr>ti_id = field_of sample_claims ''sub'', ti_claims = sample_claims\<rparr>) \<in> set (aw_answers w)"
proof -
  have "auth0_identity sample_functions 10 sample_auth0 (ar_options open_request) [(''k'', ''key'')] (bearer_headers ''H.P.key'') =
      Inr \<lparr>ti_id = field_of sample_claims ''sub'', ti_claims = sample_claims\<rparr>"
    using sample_signed sample_granted by (auto simp: identity_iff)
  then show ?thesis
    using overlap_run [of sample_functions 10 sample_auth0 "[(''k'', ''key'')]" open_request open_request]
    by (auto simp: open_request_def)
qed

lemma auth0_answers_are_verified_witness:
  "\<exists>keys' opts. signed_claims sample_functions keys' ''H.P.key'' sample_claims \<and> claims_grant 10 sample_auth0 opts sample_claims"
proof -
  obtain w where "(auth0_step sample_functions 10 sample_auth0)\<^sup>*\<^sup>* (idle_auth0 (Some [(''k'', ''key'')])) w"
    and "(open_request, Inr \<lparr>ti_id = field_of sample_claims ''sub'', ti_claims = sample_claims\<rparr>) \<in> set (aw_answers w)"
    using sample_answer by blast
  from auth0_answers_are_verified [OF this, of "''H.P.key''"] show ?thesis by (simp add: open_request_def)
qed

lemma rotated_key_is_refused_witness:
  "auth0_authenticate sample_functions 10 sample_auth0 (Inr [(''k'', ''key'')]) (bearer_headers ''H.P.key'')
     \<lparr>at_cachedPems = Some [], at_context = None\<rparr> =
   (Inl (raw_error ''Claim made for unknown kid''), \<lparr>at_cachedPems = Some [], at_context = None\<rparr>)"
proof -
  have "getTokenHeader sample_functions ''H.P.key'' = Inr sample_header" by code_simp
  moreover have "get_prop sample_header ''kid'' = Inr (js_string ''k'')" by code_simp
  moreover have "obj_get [] (value_text (js_string ''k'')) = (None :: string option)" by simp
  ultimately show ?thesis 
    by (intro rotated_key_is_refused [where keys = "[]" and header = sample_header and kid = "js_string ''k''"]) simp_all
qed

end
