(* ===== verification/Mcp_Dispatcher.thy ===== *)
theory Mcp_Dispatcher
  imports Js_Values
begin

text \<open>
  The server of the Model Context Protocol (\<open>packages/mcp\<close>): the catalog of tools, the call of a
  tool, and the dispatcher, which answers one parsed JSON-RPC message of either era of the
  protocol. The data mapper, the validator, the generator of schemas, the container and the tools
  themselves are arguments; of several policies that fail together the first in order is reported.
\<close>

section \<open>Protocol\<close>

datatype rpc_code =
    Rpc_ParseError | Rpc_InvalidRequest | Rpc_MethodNotFound | Rpc_InvalidParams | Rpc_InternalError
  | Rpc_HeaderMismatch | Rpc_MissingRequiredClientCapability | Rpc_UnsupportedProtocolVersion

fun rpc_value :: "rpc_code \<Rightarrow> int" where
  "rpc_value Rpc_ParseError = -32700"
| "rpc_value Rpc_InvalidRequest = -32600"
| "rpc_value Rpc_MethodNotFound = -32601"
| "rpc_value Rpc_InvalidParams = -32602"
| "rpc_value Rpc_InternalError = -32603"
| "rpc_value Rpc_HeaderMismatch = -32020"
| "rpc_value Rpc_MissingRequiredClientCapability = -32021"
| "rpc_value Rpc_UnsupportedProtocolVersion = -32022"

datatype protocol_era = Modern | Legacy

definition modern_versions :: "string list" where
  "modern_versions = [''2026-07-28'']"

definition legacy_versions :: "string list" where
  "legacy_versions = [''2025-11-25'', ''2025-06-18'', ''2025-03-26'']"

definition legacy_default :: string where
  "legacy_default = ''2025-03-26''"

definition all_versions :: "string list" where
  "all_versions = modern_versions @ legacy_versions"

definition version_key :: string where
  "version_key = ''io.modelcontextprotocol/protocolVersion''"

definition clientInfo_key :: string where
  "clientInfo_key = ''io.modelcontextprotocol/clientInfo''"

definition capabilities_key :: string where
  "capabilities_key = ''io.modelcontextprotocol/clientCapabilities''"

definition serverInfo_key :: string where
  "serverInfo_key = ''io.modelcontextprotocol/serverInfo''"

text \<open>
  An error of the protocol with its status and its data, or whatever else was thrown, which the
  dispatcher passes on.
\<close>

datatype mcp_failure = McpProtocolError rpc_code string nat "jsv option" | Escaped thrown

definition McpToolDeclarationError :: "string \<Rightarrow> thrown option \<Rightarrow> thrown" where
  "McpToolDeclarationError msg cause =
     new_PristineError ''McpToolDeclarationError'' msg (Some SystemError) (Some ''MCP_TOOL_DECLARATION_INVALID'') None
       (Some ''details'') None cause"

text \<open>\<open>v?.k\<close>, membership in a list of texts, and \<open>typeof v === "number"\<close>.\<close>

definition opt_get :: "jsv \<Rightarrow> string \<Rightarrow> jsv" where
  "opt_get v k = (case v of JObject ob \<Rightarrow> property ob k | JInstance _ ob \<Rightarrow> property ob k | _ \<Rightarrow> JUndefined)"

definition includes_text :: "string list \<Rightarrow> jsv \<Rightarrow> bool" where
  "includes_text ss v = (case as_string v of Some s \<Rightarrow> s \<in> set ss | None \<Rightarrow> False)"

definition typeof_number :: "jsv \<Rightarrow> bool" where
  "typeof_number v = (case v of
       JAtom (c # s) \<Rightarrow> is_digit c \<or> c = CHR ''-'' \<or> c # s = ''NaN'' \<or> c # s = ''Infinity''
     | _ \<Rightarrow> False)"

definition typeof_string :: "jsv \<Rightarrow> bool" where
  "typeof_string v \<longleftrightarrow> as_string v \<noteq> None"

text \<open>Neither \<open>null\<close> nor an array, and an object.\<close>

definition is_record :: "jsv \<Rightarrow> bool" where
  "is_record v = (case v of JObject _ \<Rightarrow> True | JInstance _ _ \<Rightarrow> True | _ \<Rightarrow> False)"

section \<open>Tools\<close>

record tool_options =
  to_name :: string
  to_title :: "string option"
  to_description :: string
  to_inputType :: "string option"
  to_annotations :: "jsv option"

record tool_registration =
  tg_class :: string
  tg_method :: string
  tg_options :: tool_options

record tool_entry =
  te_registration :: tool_registration
  te_definition :: jsv

record mcp_context =
  mc_identity :: jsv
  mc_signal :: "nat option"
  mc_protocolVersion :: string
  mc_clientInfo :: jsv

record tool_result =
  tr_content :: "jsv list"
  tr_structured :: jsv
  tr_isError :: bool

datatype returned = Result_Returned tool_result | Value_Returned jsv

datatype validation_error = Validation_Error string "string list" "validation_error list"

datatype mcp_event = Tool_Called tool_registration jsv mcp_context | Failure_Logged string

text \<open>What the server is given: its configuration, its tools and policies, and what they rest on.\<close>

record mcp_server =
  ms_name :: string
  ms_version :: string
  ms_instructions :: string
  ms_tools :: "tool_registration list"
  ms_policies :: "(jsv \<Rightarrow> jsv \<times> jsv \<Rightarrow> mcp_failure + bool) list"
  ms_schema :: "string \<Rightarrow> thrown + jsv"
  ms_map :: "string \<Rightarrow> jsv \<Rightarrow> thrown + jsv"
  ms_validate :: "jsv \<Rightarrow> thrown + validation_error list"
  ms_resolve :: "string \<Rightarrow> thrown option"
  ms_call :: "tool_registration \<Rightarrow> jsv \<Rightarrow> mcp_context \<Rightarrow> thrown + returned"

subsection \<open>The catalog\<close>

definition is_name_char :: "char \<Rightarrow> bool" where
  "is_name_char c \<longleftrightarrow> is_letter c \<or> is_digit c \<or> c \<in> {CHR ''_'', CHR ''.'', CHR ''-''}"

definition name_pattern :: "string \<Rightarrow> bool" where
  "name_pattern s \<longleftrightarrow> 1 \<le> length s \<and> length s \<le> 128 \<and> list_all is_name_char s"

definition owner_of :: "tool_registration \<Rightarrow> string" where
  "owner_of r = tg_class r @ ''.'' @ tg_method r"

definition inputSchema :: "(string \<Rightarrow> thrown + jsv) \<Rightarrow> tool_options \<Rightarrow> thrown + jsv" where
  "inputSchema schema opts = (case to_inputType opts of
       None \<Rightarrow> Inr (JObject [(''type'', js_string ''object''), (''additionalProperties'', JAtom ''false'')])
     | Some t \<Rightarrow> (case schema t of
         Inr s \<Rightarrow> Inr s
       | Inl e \<Rightarrow> Inl (McpToolDeclarationError (''The input of the tool '' @ quoted (to_name opts) @
           '' cannot become a JSON Schema: '' @ message_or ''undefined'' e) (Some e))))"

definition tool_definition :: "tool_options \<Rightarrow> jsv \<Rightarrow> jsv" where
  "tool_definition opts schema = JObject
     ([(''name'', js_string (to_name opts)), (''description'', js_string (to_description opts)), (''inputSchema'', schema)] @
      (case to_title opts of None \<Rightarrow> [] | Some t \<Rightarrow> [(''title'', js_string t)]) @
      (case to_annotations opts of None \<Rightarrow> [] | Some a \<Rightarrow> [(''annotations'', a)]))"

fun build_entries :: "(string \<Rightarrow> thrown + jsv) \<Rightarrow> tool_registration list \<Rightarrow> tool_entry obj \<Rightarrow> thrown + tool_entry obj" where
  "build_entries schema [] acc = Inr acc"
| "build_entries schema (r # rs) acc =
     (let name = to_name (tg_options r) in
      if \<not> name_pattern name then
        Inl (McpToolDeclarationError (''The tool name '' @ quoted name @ '' on '' @ quoted (owner_of r) @
          '' is invalid. Use 1 to 128 ASCII letters, digits, '' @ quoted ''_'' @ '', '' @ quoted ''-'' @ '' or '' @ quoted ''.'' @ ''.'') None)
      else case obj_get acc name of
        Some other \<Rightarrow> Inl (McpToolDeclarationError (''The tool name '' @ quoted name @ '' is declared twice: on '' @
          quoted (owner_of (te_registration other)) @ '' and on '' @ quoted (owner_of r) @ ''.'') None)
      | None \<Rightarrow> sum_bind (inputSchema schema (tg_options r)) (\<lambda>s.
          build_entries schema rs (acc @ [(name, \<lparr>te_registration = r, te_definition = tool_definition (tg_options r) s\<rparr>)])))"

text \<open>Built on first use and kept; it depends on the registered tools alone.\<close>

definition catalog :: "mcp_server \<Rightarrow> thrown + tool_entry obj" where
  "catalog srv = build_entries (ms_schema srv) (ms_tools srv) []"

subsection \<open>One call\<close>

definition text_content :: "jsv \<Rightarrow> jsv" where
  "text_content t = JObject [(''type'', js_string ''text''), (''text'', t)]"

definition text_result :: "string \<Rightarrow> tool_result" where
  "text_result s = \<lparr>tr_content = [text_content (js_string s)], tr_structured = JUndefined, tr_isError = False\<rparr>"

definition json_result :: "jsv \<Rightarrow> tool_result" where
  "json_result v = \<lparr>tr_content = [text_content (case json_stringify v of Some s \<Rightarrow> js_string s | None \<Rightarrow> JUndefined)],
     tr_structured = v, tr_isError = False\<rparr>"

definition error_result :: "string \<Rightarrow> tool_result" where
  "error_result msg = \<lparr>tr_content = [text_content (js_string msg)], tr_structured = JUndefined, tr_isError = True\<rparr>"

definition tool_normalize :: "returned \<Rightarrow> tool_result" where
  "tool_normalize r = (case r of
       Result_Returned t \<Rightarrow> t
     | Value_Returned v \<Rightarrow>
         if nullish v then \<lparr>tr_content = [], tr_structured = JUndefined, tr_isError = False\<rparr>
         else case as_string v of Some s \<Rightarrow> text_result s | None \<Rightarrow> json_result v)"

fun format_errors :: "validation_error list \<Rightarrow> string \<Rightarrow> string list" where
  "format_errors [] parent = []"
| "format_errors (Validation_Error p cs children # es) parent =
     (let path = (if parent = [] then p else parent @ ''.'' @ p) in
      map (\<lambda>m. ''- '' @ path @ '': '' @ m) cs @ format_errors children path @ format_errors es parent)"

definition tool_failure :: "string \<Rightarrow> thrown \<Rightarrow> mcp_event list \<times> tool_result" where
  "tool_failure name e = (case e of
       PristineErr _ m UserError _ _ _ _ _ \<Rightarrow> ([], error_result m)
     | _ \<Rightarrow> ([Failure_Logged (''The MCP tool '' @ quoted name @ '' threw an error.'')],
             error_result (''The tool '' @ quoted name @ '' failed.'')))"

text \<open>The input of a tool: mapped and valid, or the result that reports what is wrong with it.\<close>

definition tool_input :: "mcp_server \<Rightarrow> tool_registration \<Rightarrow> jsv \<Rightarrow> thrown + (tool_result + jsv)" where
  "tool_input srv r args =
     (let name = to_name (tg_options r); invalid = ''The arguments of '' @ quoted name @ '' are invalid:'' in
      case to_inputType (tg_options r) of
        None \<Rightarrow> Inr (Inr args)
      | Some t \<Rightarrow> (case ms_map srv t args of
          Inl e \<Rightarrow> Inr (Inl (error_result (invalid @ '' '' @ message_or ''undefined'' e)))
        | Inr input \<Rightarrow> sum_bind (ms_validate srv input) (\<lambda>errors.
            if errors \<noteq> [] then Inr (Inl (error_result (invalid @ [CHR 10] @ join [CHR 10] (format_errors errors []))))
            else Inr (Inr input))))"

definition tool_invoke :: "mcp_server \<Rightarrow> tool_registration \<Rightarrow> jsv \<Rightarrow> mcp_context \<Rightarrow> mcp_event list \<times> (thrown + tool_result)" where
  "tool_invoke srv r args ctx =
     (case tool_input srv r args of
        Inl e \<Rightarrow> ([], Inl e)
      | Inr (Inl refused) \<Rightarrow> ([], Inr refused)
      | Inr (Inr input) \<Rightarrow>
          (case ms_resolve srv (tg_class r) of
             Some e \<Rightarrow> ([], Inl e)
           | None \<Rightarrow> (case ms_call srv r input ctx of
               Inl e \<Rightarrow> (let (logged, res) = tool_failure (to_name (tg_options r)) e in (Tool_Called r input ctx # logged, Inr res))
             | Inr v \<Rightarrow> ([Tool_Called r input ctx], Inr (tool_normalize v)))))"

section \<open>The dispatcher\<close>

record dispatch_options =
  do_identity :: jsv
  do_signal :: "nat option"
  do_legacyVersion :: "string option"

record dispatch_result =
  dr_status :: nat
  dr_response :: "jsv option"

definition is_message :: "jsv \<Rightarrow> bool" where
  "is_message m \<longleftrightarrow> is_record m \<and> opt_get m ''jsonrpc'' = js_string ''2.0'' \<and> typeof_string (opt_get m ''method'') \<and>
     (opt_get m ''id'' = JUndefined \<or> typeof_string (opt_get m ''id'') \<or> typeof_number (opt_get m ''id'')) \<and>
     (opt_get m ''params'' = JUndefined \<or> is_record (opt_get m ''params''))"

definition meta_of :: "jsv \<Rightarrow> string \<Rightarrow> jsv" where
  "meta_of m k = opt_get (opt_get (opt_get m ''params'') ''_meta'') k"

definition is_method :: "jsv \<Rightarrow> string \<Rightarrow> bool" where
  "is_method m name \<longleftrightarrow> opt_get m ''method'' = js_string name"

definition era_of :: "jsv \<Rightarrow> protocol_era" where
  "era_of m =
     (let requested = meta_of m version_key in
      if is_method m ''initialize'' then Legacy
      else if requested = JUndefined \<or> includes_text legacy_versions requested then Legacy else Modern)"

definition rpc_error :: "rpc_code \<Rightarrow> string \<Rightarrow> jsv option \<Rightarrow> jsv \<Rightarrow> jsv" where
  "rpc_error code msg data ident = JObject ([(''jsonrpc'', js_string ''2.0'')] @
     (if ident = JUndefined then [] else [(''id'', ident)]) @
     [(''error'', JObject ([(''code'', JAtom (show_int (rpc_value code))), (''message'', js_string msg)] @
        (case data of None \<Rightarrow> [] | Some d \<Rightarrow> [(''data'', d)])))])"

definition failure_result :: "jsv \<Rightarrow> rpc_code \<Rightarrow> string \<Rightarrow> nat \<Rightarrow> jsv option \<Rightarrow> protocol_era \<Rightarrow> dispatch_result" where
  "failure_result ident code msg status data era =
     \<lparr>dr_status = (if era = Modern \<or> code = Rpc_InvalidRequest \<or> code = Rpc_ParseError then status else 200),
      dr_response = Some (rpc_error code msg data ident)\<rparr>"

definition server_info :: "mcp_server \<Rightarrow> jsv" where
  "server_info srv = JObject [(''name'', js_string (ms_name srv)), (''version'', js_string (ms_version srv))]"

definition instructions_member :: "mcp_server \<Rightarrow> jsv obj" where
  "instructions_member srv = (if ms_instructions srv = [] then [] else [(''instructions'', js_string (ms_instructions srv))])"

definition mcp_initialize :: "mcp_server \<Rightarrow> jsv \<Rightarrow> mcp_failure + jsv obj" where
  "mcp_initialize srv m =
     (case as_string (opt_get (opt_get m ''params'') ''protocolVersion'') of
        None \<Rightarrow> Inl (McpProtocolError Rpc_InvalidParams
          (quoted ''initialize'' @ '' requires a '' @ quoted ''protocolVersion'' @ '' string.'') 400 None)
      | Some requested \<Rightarrow> Inr ([(''protocolVersion'', js_string (if requested \<in> set legacy_versions then requested else hd legacy_versions)),
            (''capabilities'', JObject [(''tools'', JObject [(''listChanged'', JAtom ''false'')])]),
            (''serverInfo'', server_info srv)] @ instructions_member srv))"

definition mcp_discover :: "mcp_server \<Rightarrow> jsv obj" where
  "mcp_discover srv = [(''supportedVersions'', JArray (map js_string all_versions)),
     (''capabilities'', JObject [(''tools'', JObject [])])] @ instructions_member srv"

definition protocol_version :: "jsv \<Rightarrow> protocol_era \<Rightarrow> dispatch_options \<Rightarrow> mcp_failure + string" where
  "protocol_version m era opts =
     (let requested = meta_of m version_key; capabilities = meta_of m capabilities_key in
      if requested = JUndefined then
        Inr (case do_legacyVersion opts of
            Some v \<Rightarrow> if v \<in> set legacy_versions then v else legacy_default
          | None \<Rightarrow> legacy_default)
      else case as_string requested of
        Some v \<Rightarrow>
          if v \<notin> set all_versions then Inl (McpProtocolError Rpc_UnsupportedProtocolVersion ''Unsupported protocol version'' 400
            (Some (JObject [(''supported'', JArray (map js_string all_versions)), (''requested'', requested)])))
          else if era = Modern \<and> \<not> is_record capabilities then
            Inl (McpProtocolError Rpc_InvalidParams (''The request '' @ quoted ''_meta'' @ '' requires '' @ quoted capabilities_key @ ''.'') 400 None)
          else Inr v
      | None \<Rightarrow> Inl (McpProtocolError Rpc_UnsupportedProtocolVersion ''Unsupported protocol version'' 400
          (Some (JObject [(''supported'', JArray (map js_string all_versions)), (''requested'', requested)]))))"

definition policy_context :: "jsv \<Rightarrow> dispatch_options \<Rightarrow> jsv \<times> jsv" where
  "policy_context m opts = (do_identity opts, meta_of m clientInfo_key)"

fun is_allowed :: "(jsv \<Rightarrow> jsv \<times> jsv \<Rightarrow> mcp_failure + bool) list \<Rightarrow> jsv \<Rightarrow> jsv \<times> jsv \<Rightarrow> mcp_failure + bool" where
  "is_allowed [] tool ctx = Inr True"
| "is_allowed (p # ps) tool ctx = sum_bind (p tool ctx) (\<lambda>ok. if ok then is_allowed ps tool ctx else Inr False)"

fun filter_allowed :: "(jsv \<Rightarrow> mcp_failure + bool) \<Rightarrow> jsv list \<Rightarrow> mcp_failure + jsv list" where
  "filter_allowed ok [] = Inr []"
| "filter_allowed ok (t # ts) = sum_bind (ok t) (\<lambda>b. sum_bind (filter_allowed ok ts) (\<lambda>r. Inr (if b then t # r else r)))"

definition escaping :: "thrown + 'a \<Rightarrow> mcp_failure + 'a" where
  "escaping r = (case r of Inl e \<Rightarrow> Inl (Escaped e) | Inr v \<Rightarrow> Inr v)"

definition allowed_tools :: "mcp_server \<Rightarrow> jsv \<Rightarrow> dispatch_options \<Rightarrow> mcp_failure + jsv list" where
  "allowed_tools srv m opts =
     sum_bind (escaping (catalog srv)) (\<lambda>entries.
     let tools = map (te_definition \<circ> snd) entries in
     if ms_policies srv = [] then Inr tools
     else filter_allowed (\<lambda>t. is_allowed (ms_policies srv) t (policy_context m opts)) tools)"

text \<open>The tool a call names, if there is one and every policy allows it.\<close>

definition unknown_tool :: "string \<Rightarrow> mcp_failure" where
  "unknown_tool name = McpProtocolError Rpc_InvalidParams (''Unknown tool: '' @ quoted name @ ''.'') 400 None"

definition called_tool :: "mcp_server \<Rightarrow> jsv \<Rightarrow> dispatch_options \<Rightarrow> mcp_failure + tool_registration \<times> jsv" where
  "called_tool srv m opts =
     (let params = opt_get m ''params''; args = coalesce (opt_get params ''arguments'') (JObject []) in
      case as_string (opt_get params ''name'') of
        None \<Rightarrow> Inl (McpProtocolError Rpc_InvalidParams (quoted ''tools/call'' @ '' requires a '' @ quoted ''name'' @ '' string.'') 400 None)
      | Some name \<Rightarrow>
          if \<not> is_record args then
            Inl (McpProtocolError Rpc_InvalidParams (''The '' @ quoted ''arguments'' @ '' of '' @ quoted ''tools/call'' @ '' must be an object.'') 400 None)
          else sum_bind (escaping (catalog srv)) (\<lambda>entries.
            case obj_get entries name of
              None \<Rightarrow> Inl (unknown_tool name)
            | Some e \<Rightarrow> sum_bind (is_allowed (ms_policies srv) (te_definition e) (policy_context m opts)) (\<lambda>ok.
                if ok then Inr (te_registration e, args) else Inl (unknown_tool name))))"

definition call_tool :: "mcp_server \<Rightarrow> jsv \<Rightarrow> string \<Rightarrow> dispatch_options \<Rightarrow> mcp_event list \<times> (mcp_failure + tool_result)" where
  "call_tool srv m version opts = (case called_tool srv m opts of
       Inl e \<Rightarrow> ([], Inl e)
     | Inr (r, args) \<Rightarrow> (let (evs, res) = tool_invoke srv r args \<lparr>mc_identity = do_identity opts, mc_signal = do_signal opts,
           mc_protocolVersion = version, mc_clientInfo = meta_of m clientInfo_key\<rparr> in (evs, escaping res)))"

definition serialize_result :: "tool_result \<Rightarrow> protocol_era \<Rightarrow> string \<Rightarrow> jsv obj" where
  "serialize_result r era version =
     [(''content'', JArray (tr_content r)), (''isError'', JAtom (if tr_isError r then ''true'' else ''false''))] @
     (if tr_structured r \<noteq> JUndefined \<and> (era = Modern \<or> version \<noteq> ''2025-03-26'' \<and> is_record (tr_structured r))
      then [(''structuredContent'', tr_structured r)] else [])"

text \<open>A modern result says that it is complete and who answered.\<close>

definition modern_result :: "mcp_server \<Rightarrow> jsv obj \<Rightarrow> jsv obj" where
  "modern_result srv result = obj_set ''_meta'' (JObject (obj_set serverInfo_key (server_info srv)
      (case property result ''_meta'' of JObject ob \<Rightarrow> ob | _ \<Rightarrow> [])))
     (obj_merge [(''resultType'', js_string ''complete'')] result)"

definition method_result :: "mcp_server \<Rightarrow> jsv \<Rightarrow> protocol_era \<Rightarrow> string \<Rightarrow> dispatch_options \<Rightarrow> mcp_event list \<times> (mcp_failure + jsv obj)" where
  "method_result srv m era version opts =
     (if is_method m ''server/discover'' then ([], Inr (mcp_discover srv))
      else if is_method m ''ping'' then ([], Inr [])
      else if is_method m ''tools/list'' then ([], sum_bind (allowed_tools srv m opts) (\<lambda>ts. Inr [(''tools'', JArray ts)]))
      else if is_method m ''tools/call'' then
        (let (evs, res) = call_tool srv m version opts in (evs, sum_bind res (\<lambda>r. Inr (serialize_result r era version))))
      else ([], Inl (McpProtocolError Rpc_MethodNotFound (''Method not found: '' @ quoted (js_text (opt_get m ''method'')) @ ''.'') 404 None)))"

definition mcp_handle :: "mcp_server \<Rightarrow> jsv \<Rightarrow> protocol_era \<Rightarrow> dispatch_options \<Rightarrow> mcp_event list \<times> (mcp_failure + jsv obj)" where
  "mcp_handle srv m era opts =
     (if is_method m ''initialize'' then ([], mcp_initialize srv m)
      else case protocol_version m era opts of
        Inl e \<Rightarrow> ([], Inl e)
      | Inr version \<Rightarrow> (let (evs, res) = method_result srv m era version opts in
          (evs, sum_bind res (\<lambda>r. Inr (if era = Legacy then r else modern_result srv r)))))"

definition mcp_dispatch :: "mcp_server \<Rightarrow> jsv \<Rightarrow> dispatch_options \<Rightarrow> mcp_event list \<times> (thrown + dispatch_result)" where
  "mcp_dispatch srv m opts =
     (if \<not> is_message m then ([], Inr (failure_result JUndefined Rpc_InvalidRequest
          ''The message is not a JSON-RPC 2.0 request or notification.'' 400 None Modern))
      else if opt_get m ''id'' = JUndefined then ([], Inr \<lparr>dr_status = 202, dr_response = None\<rparr>)
      else (let era = era_of m; (evs, res) = mcp_handle srv m era opts in
        (evs, case res of
            Inl (McpProtocolError code msg status data) \<Rightarrow> Inr (failure_result (opt_get m ''id'') code msg status data era)
          | Inl (Escaped e) \<Rightarrow> Inl e
          | Inr r \<Rightarrow> Inr \<lparr>dr_status = 200, dr_response = Some (JObject [(''jsonrpc'', js_string ''2.0''),
              (''id'', opt_get m ''id''), (''result'', JObject r)])\<rparr>)))"

end
