(* ===== verification/Mcp_Transports.thy ===== *)
theory Mcp_Transports
  imports Mcp_Dispatcher
begin

text \<open>
  The two transports of the protocol server: Streamable HTTP, which turns one request into one
  response, and stdio, which serves the lines of its input concurrently and forgets the ones that
  are cancelled. \<open>JSON.parse\<close> and base64 are arguments; the headers of a request have lower-case
  names. In the texts of errors an object or an array in the place of a version is shown as an
  object.
\<close>

section \<open>Streamable HTTP\<close>

text \<open>The configured origins: one text with commas, or a list.\<close>

definition allowed_origins :: "string option + string list \<Rightarrow> string list" where
  "allowed_origins c = filter (\<lambda>s. s \<noteq> [])
     (map trim (case c of Inr xs \<Rightarrow> xs | Inl s \<Rightarrow> split_on (CHR '','') (case s of Some t \<Rightarrow> t | None \<Rightarrow> [])))"

datatype mcp_body = Buffer_Body string | Value_Body jsv

record mcp_http_request =
  mh_method :: string
  mh_headers :: "string obj"
  mh_body :: mcp_body

record mcp_http_response =
  mr_status :: nat
  mr_body :: "jsv option"
  mr_headers :: "string obj"

definition header_value :: "mcp_http_request \<Rightarrow> string \<Rightarrow> jsv" where
  "header_value req name = (case obj_get (mh_headers req) name of Some h \<Rightarrow> js_string h | None \<Rightarrow> JUndefined)"

definition http_error :: "nat \<Rightarrow> rpc_code \<Rightarrow> string \<Rightarrow> jsv \<Rightarrow> jsv option \<Rightarrow> mcp_http_response" where
  "http_error status code msg ident data =
     \<lparr>mr_status = status, mr_body = Some (rpc_error code msg data ident), mr_headers = [(''content-type'', ''application/json'')]\<rparr>"

definition parse_body :: "(string \<Rightarrow> thrown + jsv) \<Rightarrow> mcp_body \<Rightarrow> thrown + jsv" where
  "parse_body parse b = (case b of
       Buffer_Body s \<Rightarrow> parse s
     | Value_Body v \<Rightarrow> (case as_string v of Some s \<Rightarrow> parse s | None \<Rightarrow> Inr v))"

definition decode_header :: "(string \<Rightarrow> string) \<Rightarrow> jsv \<Rightarrow> jsv" where
  "decode_header base64 v = (case as_string v of
       None \<Rightarrow> v
     | Some s \<Rightarrow> if \<not> starts_with s ''=?base64?'' \<or> \<not> ends_with s ''?='' then v
         else js_string (base64 (drop 9 (take (length s - 2) s))))"

definition shown :: "jsv \<Rightarrow> string" where
  "shown v = (if v = JUndefined then quoted [] else quoted (js_text v))"

definition header_mismatch :: "jsv \<Rightarrow> string \<Rightarrow> jsv \<Rightarrow> jsv \<Rightarrow> mcp_http_response" where
  "header_mismatch ident name header body = http_error 400 Rpc_HeaderMismatch
     (''Header mismatch: '' @ name @ '' header value '' @ shown header @ '' does not match body value '' @
      quoted (js_text body) @ ''.'') ident None"

text \<open>The response that refuses a request for its headers, if they are not acceptable.\<close>

definition validate_headers :: "(string \<Rightarrow> string) \<Rightarrow> mcp_http_request \<Rightarrow> jsv \<Rightarrow> mcp_http_response option" where
  "validate_headers base64 req m =
     (let ident = opt_get m ''id''; header = header_value req ''mcp-protocol-version''; body = meta_of m version_key;
          method = opt_get m ''method''; headerMethod = header_value req ''mcp-method'';
          name = opt_get (opt_get m ''params'') ''name''; headerName = decode_header base64 (header_value req ''mcp-name'') in
      if ident = JUndefined then None
      else if body = JUndefined then
        (if header = JUndefined \<or> includes_text legacy_versions header then None
         else if includes_text modern_versions header then
           Some (http_error 400 Rpc_InvalidParams (''The request '' @ quoted ''_meta'' @ '' requires '' @ quoted version_key @ ''.'') ident None)
         else Some (http_error 400 Rpc_UnsupportedProtocolVersion ''Unsupported protocol version'' ident
           (Some (JObject [(''supported'', JArray (map js_string all_versions)), (''requested'', header)]))))
      else if header \<noteq> body then Some (header_mismatch ident ''MCP-Protocol-Version'' header body)
      else if \<not> includes_text modern_versions body then None
      else if headerMethod \<noteq> method then Some (header_mismatch ident ''Mcp-Method'' headerMethod method)
      else if method = js_string ''tools/call'' \<and> headerName \<noteq> name then
        Some (header_mismatch ident ''Mcp-Name'' headerName name)
      else None)"

text \<open>\<open>McpHttpTransport.handle\<close>.\<close>

definition mcp_http_handle :: "(string \<Rightarrow> thrown + jsv) \<Rightarrow> (string \<Rightarrow> string) \<Rightarrow> mcp_server \<Rightarrow> string list \<Rightarrow> jsv \<Rightarrow>
  mcp_http_request \<Rightarrow> mcp_event list \<times> (thrown + mcp_http_response)" where
  "mcp_http_handle parse base64 srv origins identity req =
     (let origin = obj_get (mh_headers req) ''origin'' in
      if (case origin of Some org \<Rightarrow> org \<notin> set origins | None \<Rightarrow> False) then
        ([], Inr (http_error 403 Rpc_InvalidRequest (''The origin '' @ quoted (the origin) @ '' is not allowed.'') JUndefined None))
      else if to_upper (mh_method req) \<noteq> ''POST'' then
        (let refusal = http_error 405 Rpc_InvalidRequest ''The MCP endpoint accepts POST only.'' JUndefined None in
         ([], Inr (refusal\<lparr>mr_headers := obj_set ''allow'' ''POST'' (mr_headers refusal)\<rparr>)))
      else case parse_body parse (mh_body req) of
        Inl e \<Rightarrow> ([], Inr (http_error 400 Rpc_ParseError ''The body is not valid JSON.'' JUndefined None))
      | Inr m \<Rightarrow> (case validate_headers base64 req m of
          Some refusal \<Rightarrow> ([], Inr refusal)
        | None \<Rightarrow>
            (let (evs, res) = mcp_dispatch srv m \<lparr>do_identity = identity, do_signal = None,
                do_legacyVersion = obj_get (mh_headers req) ''mcp-protocol-version''\<rparr> in
             (evs, sum_bind res (\<lambda>r. Inr \<lparr>mr_status = dr_status r, mr_body = dr_response r,
                mr_headers = (case dr_response r of None \<Rightarrow> [] | Some _ \<Rightarrow> [(''content-type'', ''application/json'')])\<rparr>)))))"

section \<open>Stdio\<close>

text \<open>
  A call that is being served has the number of its abort controller. \<open>io_started\<close> keeps every
  call that was begun, and each message written comes with the call it answers, if any: both
  only say what happened. What a call does is recorded when it ends.
\<close>

record stdio_state =
  io_unread :: "string list"
  io_inFlight :: "(jsv \<times> nat) list"
  io_calls :: "(nat \<times> jsv) list"
  io_started :: "(nat \<times> jsv) list"
  io_aborted :: "nat list"
  io_output :: "(nat option \<times> jsv) list"
  io_events :: "mcp_event list"
  io_resolved :: bool

definition stdio_start :: "string list \<Rightarrow> stdio_state" where
  "stdio_start lines = \<lparr>io_unread = lines, io_inFlight = [], io_calls = [], io_started = [], io_aborted = [],
     io_output = [], io_events = [], io_resolved = False\<rparr>"

definition write_message :: "nat option \<Rightarrow> jsv \<Rightarrow> stdio_state \<Rightarrow> stdio_state" where
  "write_message k v st = st\<lparr>io_output := io_output st @ [(k, v)]\<rparr>"

definition readable_id :: "jsv \<Rightarrow> jsv option" where
  "readable_id m = (let i = opt_get m ''id'' in if typeof_string i \<or> typeof_number i then Some i else None)"

definition begin_call :: "jsv \<Rightarrow> stdio_state \<Rightarrow> stdio_state" where
  "begin_call m st =
     (let k = length (io_started st) in
      st\<lparr>io_inFlight := (case readable_id m of Some i \<Rightarrow> AList.update i k (io_inFlight st) | None \<Rightarrow> io_inFlight st),
         io_calls := io_calls st @ [(k, m)], io_started := io_started st @ [(k, m)]\<rparr>)"

definition is_cancellation :: "jsv \<Rightarrow> bool" where
  "is_cancellation m \<longleftrightarrow> is_method m ''notifications/cancelled'' \<and> opt_get m ''id'' = JUndefined"

definition cancel_call :: "jsv \<Rightarrow> stdio_state \<Rightarrow> stdio_state" where
  "cancel_call m st = (case map_of (io_inFlight st) (opt_get (opt_get m ''params'') ''requestId'') of
       None \<Rightarrow> st
     | Some k \<Rightarrow> st\<lparr>io_aborted := k # io_aborted st\<rparr>)"

definition read_line :: "(string \<Rightarrow> thrown + jsv) \<Rightarrow> string \<Rightarrow> stdio_state \<Rightarrow> stdio_state" where
  "read_line parse line st =
     (if trim line = [] then st
      else case parse line of
        Inl e \<Rightarrow> write_message None (rpc_error Rpc_ParseError ''The message is not valid JSON.'' None JUndefined) st
      | Inr m \<Rightarrow> if is_cancellation m then cancel_call m st else begin_call m st)"

text \<open>What a call writes, if it writes anything.\<close>

definition call_answer :: "mcp_server \<Rightarrow> jsv \<Rightarrow> nat \<Rightarrow> jsv \<Rightarrow> jsv option" where
  "call_answer srv identity k m =
     (case snd (mcp_dispatch srv m \<lparr>do_identity = identity, do_signal = Some k, do_legacyVersion = None\<rparr>) of
        Inr r \<Rightarrow> dr_response r
      | Inl e \<Rightarrow> (case readable_id m of
          Some i \<Rightarrow> Some (rpc_error Rpc_InternalError ''Internal error.'' None i)
        | None \<Rightarrow> None))"

definition call_events :: "mcp_server \<Rightarrow> jsv \<Rightarrow> nat \<Rightarrow> jsv \<Rightarrow> mcp_event list" where
  "call_events srv identity k m =
     (case mcp_dispatch srv m \<lparr>do_identity = identity, do_signal = Some k, do_legacyVersion = None\<rparr> of
        (evs, Inr r) \<Rightarrow> evs
      | (evs, Inl e) \<Rightarrow> evs @ [Failure_Logged ''The MCP stdio transport failed to serve a message.''])"

definition end_call :: "mcp_server \<Rightarrow> jsv \<Rightarrow> nat \<Rightarrow> jsv \<Rightarrow> stdio_state \<Rightarrow> stdio_state" where
  "end_call srv identity k m st =
     (let st1 = (case call_answer srv identity k m of
            Some v \<Rightarrow> if k \<in> set (io_aborted st) then st else write_message (Some k) v st
          | None \<Rightarrow> st) in
      st1\<lparr>io_inFlight := (case readable_id m of Some i \<Rightarrow> AList.delete i (io_inFlight st) | None \<Rightarrow> io_inFlight st),
          io_calls := filter (\<lambda>c. fst c \<noteq> k) (io_calls st),
          io_events := io_events st @ call_events srv identity k m\<rparr>)"

text \<open>The input is closed and no call is being served.\<close>

definition stdio_drained :: "stdio_state \<Rightarrow> bool" where
  "stdio_drained st \<longleftrightarrow> io_unread st = [] \<and> io_calls st = []"

text \<open>
  One step of \<open>listen\<close>: the next line is read, a call that is being served ends, or \<open>listen\<close> resolves
  once the input is closed and every call has ended. \<open>ends\<close> says which calls end at all: a tool may
  never settle.
\<close>

inductive stdio_step :: "(string \<Rightarrow> thrown + jsv) \<Rightarrow> mcp_server \<Rightarrow> jsv \<Rightarrow> (nat \<Rightarrow> jsv \<Rightarrow> bool) \<Rightarrow> stdio_state \<Rightarrow> stdio_state \<Rightarrow> bool"
  for parse srv identity ends where
  step_read: "io_unread st = line # rest \<Longrightarrow> stdio_step parse srv identity ends st (read_line parse line (st\<lparr>io_unread := rest\<rparr>))"
| step_end: "(k, m) \<in> set (io_calls st) \<Longrightarrow> ends k m \<Longrightarrow> stdio_step parse srv identity ends st (end_call srv identity k m st)"
| step_resolve: "stdio_drained st \<Longrightarrow> \<not> io_resolved st \<Longrightarrow> stdio_step parse srv identity ends st (st\<lparr>io_resolved := True\<rparr>)"

end
