(* ===== verification/Mcp_Properties.thy ===== *)
theory Mcp_Properties
  imports Mcp_Transports
begin

text \<open>
  What the protocol server guarantees: a tool that a policy refuses cannot be told from one that
  does not exist, a tool is called over HTTP only as its headers say, and the stdio transport
  answers each call once, none that was cancelled, and ends.
\<close>

section \<open>The catalog\<close>

definition entry_name :: "tool_entry \<Rightarrow> string" where
  "entry_name e = to_name (tg_options (te_registration e))"

definition entries_ok :: "tool_entry obj \<Rightarrow> bool" where
  "entries_ok es \<longleftrightarrow> wf_obj es \<and> (\<forall>(n, e) \<in> set es. entry_name e = n)"

lemma build_entries_step:
  "build_entries schema (r # rs) acc = Inr es \<longleftrightarrow> (\<exists>s. name_pattern (to_name (tg_options r)) \<and>
     obj_get acc (to_name (tg_options r)) = None \<and> inputSchema schema (tg_options r) = Inr s \<and>
     build_entries schema rs (acc @ [(to_name (tg_options r), \<lparr>te_registration = r, te_definition = tool_definition (tg_options r) s\<rparr>)]) = Inr es)"
  by (auto simp: Let_def sum_bind_Inr_conv split: option.splits)

lemma entries_ok_snoc:
  "entries_ok acc \<Longrightarrow> obj_get acc n = None \<Longrightarrow> entry_name e = n \<Longrightarrow> entries_ok (acc @ [(n, e)])"
  by (auto simp: entries_ok_def wf_obj_def map_of_eq_None_iff)

lemma build_entries_ok: "build_entries schema rs acc = Inr es \<Longrightarrow> entries_ok acc \<Longrightarrow> entries_ok es"
proof (induction rs arbitrary: acc)
  case (Cons r rs)
  then show ?case unfolding build_entries_step
    by (auto intro!: Cons.IH entries_ok_snoc simp: entry_name_def)
qed simp

lemma catalog_ok: "catalog srv = Inr es \<Longrightarrow> entries_ok es"
  unfolding catalog_def by (rule build_entries_ok [where acc = "[]"]) (simp_all add: entries_ok_def)

text \<open>A catalog without one of its tools.\<close>

definition without_tool :: "string \<Rightarrow> mcp_server \<Rightarrow> mcp_server" where
  "without_tool n srv = srv\<lparr>ms_tools := filter (\<lambda>r. to_name (tg_options r) \<noteq> n) (ms_tools srv)\<rparr>"

abbreviation not_named :: "string \<Rightarrow> string \<times> tool_entry \<Rightarrow> bool" where
  "not_named n \<equiv> \<lambda>kv. fst kv \<noteq> n"

lemma map_of_filter_other: "k \<noteq> n \<Longrightarrow> map_of (filter (not_named n) es) k = map_of es k"
  by (induction es) auto

lemma map_of_filter_same: "map_of (filter (not_named n) es) n = None"
  by (induction es) auto

lemma build_entries_without:
  "build_entries schema rs acc = Inr es \<Longrightarrow>
     build_entries schema (filter (\<lambda>r. to_name (tg_options r) \<noteq> n) rs) (filter (not_named n) acc) = Inr (filter (not_named n) es)"
proof (induction rs arbitrary: acc)
  case (Cons r rs)
  then obtain s where s: "name_pattern (to_name (tg_options r))" "obj_get acc (to_name (tg_options r)) = None"
      "inputSchema schema (tg_options r) = Inr s"
    and es: "build_entries schema rs (acc @ [(to_name (tg_options r), \<lparr>te_registration = r, te_definition = tool_definition (tg_options r) s\<rparr>)]) = Inr es"
    unfolding build_entries_step by blast
  from Cons.IH [OF es] s show ?case
    by (cases "to_name (tg_options r) = n") (simp_all add: build_entries_step map_of_filter_other del: build_entries.simps(2))
qed simp

lemma catalog_without: "catalog srv = Inr es \<Longrightarrow> catalog (without_tool n srv) = Inr (filter (not_named n) es)"
  unfolding catalog_def using build_entries_without [of "ms_schema srv" "ms_tools srv" "[]" es n]
  by (simp add: without_tool_def)

lemma without_tool_simps [simp]:
  "ms_policies (without_tool n srv) = ms_policies srv" "ms_name (without_tool n srv) = ms_name srv"
  "ms_version (without_tool n srv) = ms_version srv" "ms_instructions (without_tool n srv) = ms_instructions srv"
  "ms_map (without_tool n srv) = ms_map srv" "ms_validate (without_tool n srv) = ms_validate srv"
  "ms_resolve (without_tool n srv) = ms_resolve srv" "ms_call (without_tool n srv) = ms_call srv"
  by (simp_all add: without_tool_def)

section \<open>Refused tools\<close>

text \<open>The tool of this name is in the catalog, and a policy refuses it to the client of a message.\<close>

definition refused_tool :: "mcp_server \<Rightarrow> string \<Rightarrow> jsv \<Rightarrow> dispatch_options \<Rightarrow> bool" where
  "refused_tool srv n m opts \<longleftrightarrow> (case catalog srv of Inl _ \<Rightarrow> False
     | Inr es \<Rightarrow> (case obj_get es n of None \<Rightarrow> False
       | Some e \<Rightarrow> is_allowed (ms_policies srv) (te_definition e) (policy_context m opts) = Inr False))"

lemma filter_allowed_refused:
  assumes "\<And>e. (n, e) \<in> set es \<Longrightarrow> ok (te_definition e) = Inr False"
  shows "filter_allowed ok (map (\<lambda>kv. te_definition (snd kv)) (filter (not_named n) es)) =
    filter_allowed ok (map (\<lambda>kv. te_definition (snd kv)) es)"
  using assms
proof (induction es)
  case (Cons kv es)
  obtain k e where kv: "kv = (k, e)" by (cases kv)
  have IH: "filter_allowed ok (map (\<lambda>kv. te_definition (snd kv)) (filter (not_named n) es)) =
    filter_allowed ok (map (\<lambda>kv. te_definition (snd kv)) es)"
    using Cons by (meson list.set_intros(2))
  show ?case
  proof (cases "k = n")
    case True
    with Cons.prems kv have "ok (te_definition e) = Inr False" by simp
    with IH kv True show ?thesis by (simp add: sum_bind_def split: sum.splits)
  qed (use IH kv in simp)
qed simp

lemma allowed_tools_refused:
  assumes "refused_tool srv n m opts"
  shows "allowed_tools (without_tool n srv) m opts = allowed_tools srv m opts"
proof -
  from assms obtain es e where es: "catalog srv = Inr es" and e: "obj_get es n = Some e"
    and no: "is_allowed (ms_policies srv) (te_definition e) (policy_context m opts) = Inr False"
    by (auto simp: refused_tool_def split: sum.splits option.splits)
  have "ms_policies srv \<noteq> []" using no by auto
  moreover have "e' = e" if "(n, e') \<in> set es" for e'
    using that e catalog_ok [OF es] by (auto simp: entries_ok_def wf_obj_def)
  ultimately have "filter_allowed (\<lambda>t. is_allowed (ms_policies srv) t (policy_context m opts))
      (map (\<lambda>kv. te_definition (snd kv)) (filter (not_named n) es)) =
    filter_allowed (\<lambda>t. is_allowed (ms_policies srv) t (policy_context m opts)) (map (\<lambda>kv. te_definition (snd kv)) es)"
    using no by (intro filter_allowed_refused) auto
  with \<open>ms_policies srv \<noteq> []\<close> es catalog_without [OF es, of n] show ?thesis
    by (simp add: allowed_tools_def escaping_def comp_def)
qed

lemma called_tool_refused:
  assumes "refused_tool srv n m opts"
  shows "called_tool (without_tool n srv) m opts = called_tool srv m opts"
proof -
  from assms obtain es e where es: "catalog srv = Inr es" and e: "obj_get es n = Some e"
    and no: "is_allowed (ms_policies srv) (te_definition e) (policy_context m opts) = Inr False"
    by (auto simp: refused_tool_def split: sum.splits option.splits)
  show ?thesis
  proof (cases "as_string (opt_get (opt_get m ''params'') ''name'')")
    case (Some name)
    then show ?thesis using es e no catalog_without [OF es, of n]
      by (cases "name = n") (simp_all add: called_tool_def Let_def escaping_def map_of_filter_same map_of_filter_other split: option.splits)
  qed (simp add: called_tool_def Let_def)
qed

lemma tool_invoke_without: "tool_invoke (without_tool n srv) = tool_invoke srv"
  unfolding fun_eq_iff tool_invoke_def tool_input_def without_tool_simps by simp

lemma handle_refused:
  assumes "refused_tool srv n m opts"
  shows "mcp_handle (without_tool n srv) m era opts = mcp_handle srv m era opts"
  unfolding mcp_handle_def method_result_def call_tool_def tool_invoke_without mcp_initialize_def mcp_discover_def
    instructions_member_def server_info_def modern_result_def without_tool_simps
    allowed_tools_refused [OF assms] called_tool_refused [OF assms]
  by (rule refl)

text \<open>
  Claim C26. A client to which a policy refuses a tool is answered, whatever it sends, as by a server
  that does not have the tool: neither the list, nor a call, nor any error shows that it is there.
\<close>

theorem refused_tool_is_invisible:
  assumes "refused_tool srv n m opts"
  shows "mcp_dispatch srv m opts = mcp_dispatch (without_tool n srv) m opts"
  using handle_refused [OF assms] by (simp add: mcp_dispatch_def)

section \<open>Who calls a tool\<close>

lemma called_tool_Inr:
  assumes "called_tool srv m opts = Inr (r, args)"
  shows "\<exists>es e. catalog srv = Inr es \<and> obj_get es (to_name (tg_options r)) = Some e \<and> te_registration e = r \<and>
    opt_get (opt_get m ''params'') ''name'' = js_string (to_name (tg_options r)) \<and>
    is_allowed (ms_policies srv) (te_definition e) (policy_context m opts) = Inr True"
proof -
  from assms obtain name es e where "as_string (opt_get (opt_get m ''params'') ''name'') = Some name"
    and es: "catalog srv = Inr es" and e: "obj_get es name = Some e" and r: "te_registration e = r"
    and ok: "is_allowed (ms_policies srv) (te_definition e) (policy_context m opts) = Inr True"
    by (auto simp: called_tool_def Let_def escaping_def sum_bind_Inr_conv split: option.splits if_splits sum.splits)
  moreover from catalog_ok [OF es] e r have "to_name (tg_options r) = name"
    by (force simp: entries_ok_def entry_name_def dest: map_of_SomeD)
  ultimately show ?thesis by (auto simp: as_string_Some)
qed

lemma tool_failure_logs: "Tool_Called r input ctx \<notin> set (fst (tool_failure n e))"
  by (auto simp: tool_failure_def split: thrown.splits error_kind.splits)

lemma tool_invoke_called:
  assumes "Tool_Called r' input ctx' \<in> set (fst (tool_invoke srv r args ctx))"
  shows "r' = r \<and> ctx' = ctx"
  using assms tool_failure_logs
  by (auto simp: tool_invoke_def case_prod_beta split: sum.splits option.splits)

lemma call_tool_called:
  assumes "Tool_Called r input ctx \<in> set (fst (call_tool srv m version opts))"
  shows "(\<exists>args. called_tool srv m opts = Inr (r, args)) \<and> mc_protocolVersion ctx = version"
  using assms
  by (auto simp: call_tool_def case_prod_beta split: sum.splits dest!: tool_invoke_called)

lemma dispatch_called:
  assumes "Tool_Called r input ctx \<in> set (fst (mcp_dispatch srv m opts))"
  shows "is_message m \<and> opt_get m ''id'' \<noteq> JUndefined \<and> is_method m ''tools/call'' \<and>
    protocol_version m (era_of m) opts = Inr (mc_protocolVersion ctx) \<and> (\<exists>args. called_tool srv m opts = Inr (r, args))"
  using assms
  by (auto simp: mcp_dispatch_def mcp_handle_def method_result_def Let_def case_prod_beta
      split: if_splits sum.splits dest!: call_tool_called)

lemma protocol_version_Inr:
  assumes "protocol_version m era opts = Inr v"
  shows "meta_of m version_key = js_string v \<or> meta_of m version_key = JUndefined \<and> v \<in> set legacy_versions"
  using assms
  by (auto simp: protocol_version_def Let_def as_string_Some legacy_default_def legacy_versions_def
      split: if_splits option.splits)

lemma modern_not_legacy: "v \<in> set modern_versions \<Longrightarrow> v \<notin> set legacy_versions"
  by (auto simp: modern_versions_def legacy_versions_def)

lemma mcp_http_called:
  assumes "Tool_Called r input ctx \<in> set (fst (mcp_http_handle parse base64 srv origins identity req))"
  shows "\<exists>m. parse_body parse (mh_body req) = Inr m \<and> validate_headers base64 req m = None \<and>
    (\<forall>org. obj_get (mh_headers req) ''origin'' = Some org \<longrightarrow> org \<in> set origins) \<and> to_upper (mh_method req) = ''POST'' \<and>
    Tool_Called r input ctx \<in> set (fst (mcp_dispatch srv m \<lparr>do_identity = identity, do_signal = None,
      do_legacyVersion = obj_get (mh_headers req) ''mcp-protocol-version''\<rparr>))"
  using assms
  by (auto simp: mcp_http_handle_def Let_def case_prod_beta split: if_splits sum.splits option.splits)

text \<open>
  Claim C27. A tool is called over HTTP, under whatever version, only for a POST that names no origin
  or an allowed one; and when it is called under a modern version, the headers that proxies read
  name that version, the call, and the tool. Under an older version nothing is claimed of the headers.
\<close>

theorem headers_name_the_tool:
  assumes "Tool_Called r input ctx \<in> set (fst (mcp_http_handle parse base64 srv origins identity req))"
  shows "to_upper (mh_method req) = ''POST'' \<and>
    (\<forall>org. obj_get (mh_headers req) ''origin'' = Some org \<longrightarrow> org \<in> set origins) \<and>
    (mc_protocolVersion ctx \<in> set modern_versions \<longrightarrow>
      obj_get (mh_headers req) ''mcp-protocol-version'' = Some (mc_protocolVersion ctx) \<and>
      obj_get (mh_headers req) ''mcp-method'' = Some ''tools/call'' \<and>
      decode_header base64 (header_value req ''mcp-name'') = js_string (to_name (tg_options r)))"
proof (intro conjI impI)
  show "to_upper (mh_method req) = ''POST''"
    and "\<forall>org. obj_get (mh_headers req) ''origin'' = Some org \<longrightarrow> org \<in> set origins"
    using mcp_http_called [OF assms] by blast+
next
  assume modern: "mc_protocolVersion ctx \<in> set modern_versions"
  obtain m where m: "validate_headers base64 req m = None"
    and called: "Tool_Called r input ctx \<in> set (fst (mcp_dispatch srv m \<lparr>do_identity = identity, do_signal = None,
      do_legacyVersion = obj_get (mh_headers req) ''mcp-protocol-version''\<rparr>))"
    using mcp_http_called [OF assms] by blast
  have called_method: "opt_get m ''method'' = js_string ''tools/call''" and ident: "opt_get m ''id'' \<noteq> JUndefined"
    and called_name: "opt_get (opt_get m ''params'') ''name'' = js_string (to_name (tg_options r))"
    using dispatch_called [OF called] by (auto simp: is_method_def dest!: called_tool_Inr)
  have version: "meta_of m version_key = js_string (mc_protocolVersion ctx)"
    using dispatch_called [OF called] protocol_version_Inr modern_not_legacy [OF modern] by blast
  then have "meta_of m version_key \<noteq> JUndefined" by (simp add: js_string_def)
  have read: "obj_get (mh_headers req) h = Some s" if "header_value req h = js_string s" for h s
    using that by (auto simp: header_value_def js_string_def split: option.splits)
  have "header_value req ''mcp-protocol-version'' = js_string (mc_protocolVersion ctx)"
    and "header_value req ''mcp-method'' = js_string ''tools/call''"
    and "decode_header base64 (header_value req ''mcp-name'') = js_string (to_name (tg_options r))"
    using m ident version called_method called_name modern \<open>meta_of m version_key \<noteq> JUndefined\<close>
    by (auto simp: validate_headers_def Let_def includes_text_def split: if_splits)
  then show "obj_get (mh_headers req) ''mcp-protocol-version'' = Some (mc_protocolVersion ctx)"
    and "obj_get (mh_headers req) ''mcp-method'' = Some ''tools/call''"
    and "decode_header base64 (header_value req ''mcp-name'') = js_string (to_name (tg_options r))"
    using read by simp_all
qed

section \<open>Stdio: one answer, and none that was cancelled\<close>

text \<open>What a call has written.\<close>

definition written :: "nat \<Rightarrow> stdio_state \<Rightarrow> jsv list" where
  "written k st = map snd (filter (\<lambda>w. fst w = Some k) (io_output st))"









lemma written_simps [simp]:
  "written k (write_message l v st) = (if l = Some k then written k st @ [v] else written k st)"
  "written k (st\<lparr>io_unread := ls\<rparr>) = written k st" "written k (st\<lparr>io_inFlight := fl\<rparr>) = written k st"
  "written k (st\<lparr>io_calls := cs\<rparr>) = written k st" "written k (st\<lparr>io_started := ss\<rparr>) = written k st"
  "written k (st\<lparr>io_aborted := as\<rparr>) = written k st" "written k (st\<lparr>io_events := es\<rparr>) = written k st"
  "written k (st\<lparr>io_resolved := b\<rparr>) = written k st"
  by (simp_all add: written_def write_message_def)

lemma write_message_simps [simp]:
  "io_unread (write_message l v st) = io_unread st" "io_inFlight (write_message l v st) = io_inFlight st"
  "io_calls (write_message l v st) = io_calls st" "io_started (write_message l v st) = io_started st"
  "io_aborted (write_message l v st) = io_aborted st" "io_events (write_message l v st) = io_events st"
  by (simp_all add: write_message_def)











lemma end_call_simps [simp]:
  "io_started (end_call srv identity k m st) = io_started st" "io_aborted (end_call srv identity k m st) = io_aborted st"
  "io_calls (end_call srv identity k m st) = filter (\<lambda>c. fst c \<noteq> k) (io_calls st)" "io_unread (end_call srv identity k m st) = io_unread st"
  "io_inFlight (end_call srv identity k m st) = (case readable_id m of Some i \<Rightarrow> AList.delete i (io_inFlight st) | None \<Rightarrow> io_inFlight st)"
  by (simp_all add: end_call_def Let_def split: option.splits)






section \<open>Stdio: what is read\<close>











section \<open>Stdio: who can be cancelled\<close>







section \<open>Stdio: the end\<close>







section \<open>Stdio: identifiers used twice\<close>

definition cancellation :: "jsv \<Rightarrow> jsv" where
  "cancellation i = JObject [(''jsonrpc'', js_string ''2.0''), (''method'', js_string ''notifications/cancelled''),
     (''params'', JObject [(''requestId'', i)])]"

lemma cancellation_facts:
  "is_cancellation (cancellation i)" "opt_get (opt_get (cancellation i) ''params'') ''requestId'' = i"
  by (simp_all add: is_cancellation_def cancellation_def is_method_def opt_get_def property_def)

text \<open>
  The map of controllers holds one call for an identifier: when of two calls of one
  identifier either has ended, a cancellation no longer reaches the other.
\<close>

theorem reused_id_cannot_be_cancelled:
  assumes "readable_id m = Some i"
  shows "cancel_call (cancellation i) (end_call srv identity k m st) = end_call srv identity k m st"
  using assms by (simp add: cancel_call_def cancellation_facts delete_conv')

section \<open>A server with one tool\<close>

definition secret_tool :: tool_registration where
  "secret_tool = \<lparr>tg_class = ''Tools'', tg_method = ''secret'',
     tg_options = \<lparr>to_name = ''secret'', to_title = None, to_description = [], to_inputType = None, to_annotations = None\<rparr>\<rparr>"

text \<open>Its policy lets one identity see the tool.\<close>

definition sample_mcp :: mcp_server where
  "sample_mcp = \<lparr>ms_name = ''s'', ms_version = ''1'', ms_instructions = [], ms_tools = [secret_tool],
     ms_policies = [\<lambda>tool ctx. Inr (fst ctx = js_string ''admin'')], ms_schema = (\<lambda>t. Inr JNull),
     ms_map = (\<lambda>t v. Inr v), ms_validate = (\<lambda>v. Inr []), ms_resolve = (\<lambda>c. None),
     ms_call = (\<lambda>r v ctx. Inr (Value_Returned (js_string ''told'')))\<rparr>"

definition secret_call :: jsv where
  "secret_call = JObject [(''jsonrpc'', js_string ''2.0''), (''id'', JAtom ''1''), (''method'', js_string ''tools/call''),
     (''params'', JObject [(''name'', js_string ''secret''),
        (''_meta'', JObject [(version_key, js_string ''2026-07-28''), (capabilities_key, JObject [])])])]"

definition guest_options :: dispatch_options where
  "guest_options = \<lparr>do_identity = JUndefined, do_signal = None, do_legacyVersion = None\<rparr>"

lemma secret_refused: "refused_tool sample_mcp ''secret'' secret_call guest_options"
  by code_simp

lemma refused_tool_is_invisible_witness:
  "mcp_dispatch sample_mcp secret_call guest_options = mcp_dispatch (without_tool ''secret'' sample_mcp) secret_call guest_options"
  by (rule refused_tool_is_invisible [OF secret_refused])

definition secret_request :: mcp_http_request where
  "secret_request = \<lparr>mh_method = ''post'', mh_headers = [(''mcp-protocol-version'', ''2026-07-28''), (''mcp-method'', ''tools/call''),
     (''mcp-name'', ''secret'')], mh_body = Value_Body secret_call\<rparr>"

definition secret_context :: mcp_context where
  "secret_context = \<lparr>mc_identity = js_string ''admin'', mc_signal = None, mc_protocolVersion = ''2026-07-28'', mc_clientInfo = JUndefined\<rparr>"

lemma secret_told:
  "fst (mcp_http_handle (\<lambda>s. Inl (ValueErr s)) (\<lambda>s. s) sample_mcp [] (js_string ''admin'') secret_request) =
     [Tool_Called secret_tool (JObject []) secret_context]"
  by code_simp

lemma headers_name_the_tool_witness:
  "obj_get (mh_headers secret_request) ''mcp-method'' = Some ''tools/call'' \<and>
   decode_header (\<lambda>s. s) (header_value secret_request ''mcp-name'') = js_string ''secret''"
proof -
  have "Tool_Called secret_tool (JObject []) secret_context \<in>
      set (fst (mcp_http_handle (\<lambda>s. Inl (ValueErr s)) (\<lambda>s. s) sample_mcp [] (js_string ''admin'') secret_request))"
    by (simp add: secret_told)
  from headers_name_the_tool [OF this] show ?thesis
    by (simp add: secret_context_def modern_versions_def secret_tool_def)
qed

definition one_call :: stdio_state where
  "one_call = read_line (\<lambda>s. Inr secret_call) ''x'' ((stdio_start [''x''])\<lparr>io_unread := []\<rparr>)"

definition one_answer :: stdio_state where
  "one_answer = end_call sample_mcp JUndefined 0 secret_call one_call"




lemma reused_id_cannot_be_cancelled_witness:
  "cancel_call (cancellation (JAtom ''1'')) (end_call sample_mcp JUndefined 0 secret_call one_call) = one_answer"
proof -
  have "readable_id secret_call = Some (JAtom ''1'')" by code_simp
  from reused_id_cannot_be_cancelled [OF this] show ?thesis by (simp add: one_answer_def)
qed

end
