(* ===== verification/Jsonl_Files.thy ===== *)
theory Jsonl_Files
  imports Pristine_Prelude
begin

text \<open>
  The \<open>.jsonl\<close> files of the observability store (\<open>packages/observability\<close>): the reader in chunks of
  either direction (\<open>utils/jsonl-reader.ts\<close>), the rotating writer
  (\<open>store/rotating-jsonl-writer.ts\<close>) and the tailer (\<open>tailers/log-tailer.ts\<close>). A file is the list
  of its bytes; the decoding of UTF-8 and \<open>JSON.parse\<close> are arguments. A file does not change while
  it is read, and every \<open>readSync\<close> returns all the bytes asked for: short reads, and the break of the loops
  on a read of nothing, are left out.
\<close>

section \<open>Reading in chunks\<close>

definition chunk_size :: nat where
  "chunk_size = 64 * 1024"

definition newline :: char where
  "newline = CHR 10"

fun newlines_from :: "nat \<Rightarrow> string \<Rightarrow> nat list" where
  "newlines_from i [] = []"
| "newlines_from i (b # bs) = (if b = newline then i # newlines_from (Suc i) bs else newlines_from (Suc i) bs)"

definition newlineIndexes :: "string \<Rightarrow> nat list" where
  "newlineIndexes buffer = newlines_from 0 buffer"

definition region :: "'a list \<Rightarrow> nat \<Rightarrow> nat \<Rightarrow> 'a list" where
  "region buffer a b = take (b - a) (drop a buffer)"

text \<open>A callback returns what it has collected and whether to go on.\<close>

type_synonym 's on_line = "'s \<Rightarrow> string \<Rightarrow> 's \<times> bool"

definition emit_line :: "(string \<Rightarrow> string) \<Rightarrow> 's on_line \<Rightarrow> string \<Rightarrow> 's \<Rightarrow> 's \<times> bool" where
  "emit_line utf8 onLine bytes s =
     (if bytes = [] then (s, True)
      else if trim (utf8 bytes) = [] then (s, True) else onLine s (utf8 bytes))"

fun emit_regions :: "(string \<Rightarrow> string) \<Rightarrow> 's on_line \<Rightarrow> string \<Rightarrow> (nat \<times> nat) list \<Rightarrow> 's \<Rightarrow> 's \<times> bool" where
  "emit_regions utf8 onLine buffer [] s = (s, True)"
| "emit_regions utf8 onLine buffer ((a, b) # rs) s =
     (case emit_line utf8 onLine (region buffer a b) s of
        (s', True) \<Rightarrow> emit_regions utf8 onLine buffer rs s'
      | (s', False) \<Rightarrow> (s', False))"

text \<open>
  The lines between the breaks of a buffer: forward, those that end at a break; backward, those
  that begin after one.
\<close>

definition ended_lines :: "nat list \<Rightarrow> (nat \<times> nat) list" where
  "ended_lines breaks = zip (0 # map Suc breaks) breaks"

definition begun_lines :: "nat list \<Rightarrow> nat \<Rightarrow> (nat \<times> nat) list" where
  "begun_lines breaks len = zip (map Suc breaks) (tl breaks @ [len])"

definition after_breaks :: "nat list \<Rightarrow> nat" where
  "after_breaks breaks = (if breaks = [] then 0 else Suc (last breaks))"

definition before_breaks :: "nat list \<Rightarrow> nat \<Rightarrow> nat" where
  "before_breaks breaks len = (case breaks of [] \<Rightarrow> len | b # _ \<Rightarrow> b)"

function forward_loop :: "(string \<Rightarrow> string) \<Rightarrow> 's on_line \<Rightarrow> nat \<Rightarrow> string \<Rightarrow> nat \<Rightarrow> string \<Rightarrow> 's \<Rightarrow> 's" where
  "forward_loop utf8 onLine chunk bytes offset carry s =
     (if offset < length bytes \<and> 0 < chunk then
        (let len = min chunk (length bytes - offset);
             combined = carry @ region bytes offset (offset + len);
             breaks = newlineIndexes combined in
         case emit_regions utf8 onLine combined (ended_lines breaks) s of
           (s', False) \<Rightarrow> s'
         | (s', True) \<Rightarrow> forward_loop utf8 onLine chunk bytes (offset + len) (drop (after_breaks breaks) combined) s')
      else fst (emit_line utf8 onLine carry s))"
  by pat_completeness auto
termination by (relation "measure (\<lambda>(_, _, _, bytes, offset, _, _). length bytes - offset)") auto

function backward_loop :: "(string \<Rightarrow> string) \<Rightarrow> 's on_line \<Rightarrow> nat \<Rightarrow> string \<Rightarrow> nat \<Rightarrow> string \<Rightarrow> 's \<Rightarrow> 's" where
  "backward_loop utf8 onLine chunk bytes remaining carry s =
     (if 0 < remaining \<and> 0 < chunk then
        (let start = remaining - min chunk remaining;
             combined = region bytes start remaining @ carry;
             breaks = newlineIndexes combined in
         case emit_regions utf8 onLine combined (rev (begun_lines breaks (length combined))) s of
           (s', False) \<Rightarrow> s'
         | (s', True) \<Rightarrow> backward_loop utf8 onLine chunk bytes start (take (before_breaks breaks (length combined)) combined) s')
      else fst (emit_line utf8 onLine carry s))"
  by pat_completeness auto
termination by (relation "measure (\<lambda>(_, _, _, _, remaining, _, _). remaining)") auto

declare forward_loop.simps [simp del] backward_loop.simps [simp del]

text \<open>A file that is missing or cannot be opened is treated as empty.\<close>

definition forEachLine :: "(string \<Rightarrow> string) \<Rightarrow> 's on_line \<Rightarrow> string option \<Rightarrow> 's \<Rightarrow> 's" where
  "forEachLine utf8 onLine file_bytes s = (case file_bytes of None \<Rightarrow> s | Some bytes \<Rightarrow> forward_loop utf8 onLine chunk_size bytes 0 [] s)"

definition forEachLineReverse :: "(string \<Rightarrow> string) \<Rightarrow> 's on_line \<Rightarrow> string option \<Rightarrow> 's \<Rightarrow> 's" where
  "forEachLineReverse utf8 onLine file_bytes s =
     (case file_bytes of None \<Rightarrow> s | Some bytes \<Rightarrow> backward_loop utf8 onLine chunk_size bytes (length bytes) [] s)"

text \<open>The callback of \<open>parse\<close>: lines that do not parse are skipped.\<close>

definition collect_entry :: "(string \<Rightarrow> 'e option) \<Rightarrow> nat option \<Rightarrow> 'e list on_line" where
  "collect_entry parse limit es line = (case parse line of
       None \<Rightarrow> (es, True)
     | Some e \<Rightarrow> (es @ [e], case limit of None \<Rightarrow> True | Some n \<Rightarrow> length (es @ [e]) < n))"

definition jsonl_parse :: "(string \<Rightarrow> string) \<Rightarrow> (string \<Rightarrow> 'e option) \<Rightarrow> string option \<Rightarrow> nat option \<Rightarrow> bool \<Rightarrow> 'e list" where
  "jsonl_parse utf8 parse bytes limit newestFirst =
     (if newestFirst then rev (forEachLineReverse utf8 (collect_entry parse limit) bytes [])
      else forEachLine utf8 (collect_entry parse limit) bytes [])"

subsection \<open>The whole file at once\<close>

text \<open>What a reader of the whole file would see, and a loop over it that can be stopped.\<close>

definition pieces :: "string \<Rightarrow> string list" where
  "pieces bytes = split_on newline bytes"

fun each_piece :: "(string \<Rightarrow> string) \<Rightarrow> 's on_line \<Rightarrow> string list \<Rightarrow> 's \<Rightarrow> 's \<times> bool" where
  "each_piece utf8 onLine [] s = (s, True)"
| "each_piece utf8 onLine (p # ps) s =
     (case emit_line utf8 onLine p s of (s', True) \<Rightarrow> each_piece utf8 onLine ps s' | (s', False) \<Rightarrow> (s', False))"

lemma each_piece_append:
  "each_piece utf8 onLine (ps @ qs) s =
     (case each_piece utf8 onLine ps s of (s', True) \<Rightarrow> each_piece utf8 onLine qs s' | (s', False) \<Rightarrow> (s', False))"
  by (induction ps arbitrary: s) (auto split: prod.splits bool.splits)

lemma emit_regions_pieces:
  "emit_regions utf8 onLine buffer rs s = each_piece utf8 onLine (map (\<lambda>(a, b). region buffer a b) rs) s"
  by (induction rs arbitrary: s) (auto split: prod.splits bool.splits)

lemma newlines_shift: "newlines_from (i + n) bs = map ((+) n) (newlines_from i bs)"
  by (induction bs arbitrary: i) (auto simp flip: add_Suc)

lemma newlines_none: "newline \<notin> set bs \<Longrightarrow> newlines_from i bs = []"
  by (induction bs arbitrary: i) auto

lemma newlines_first:
  "newline \<notin> set p \<Longrightarrow> newlines_from i (p @ newline # bs) = (i + length p) # newlines_from (i + Suc (length p)) bs"
  by (induction p arbitrary: i) auto

text \<open>The pieces of a buffer by its first newline, the rule by which everything below is shown.\<close>

lemma pieces_induct [case_names last first]:
  assumes "\<And>p. newline \<notin> set p \<Longrightarrow> P p"
    and "\<And>p bs. newline \<notin> set p \<Longrightarrow> P bs \<Longrightarrow> P (p @ newline # bs)"
  shows "P bs"
proof (induction "length bs" arbitrary: bs rule: less_induct)
  case less
  show ?case
  proof (cases "newline \<in> set bs")
    case True
    then obtain p r where "bs = p @ newline # r" and "newline \<notin> set p" by (meson split_list_first)
    with less assms(2) show ?thesis by simp
  qed (simp add: assms(1))
qed

lemma pieces_last: "newline \<notin> set p \<Longrightarrow> pieces p = [p]"
  by (simp add: pieces_def split_on_no_sep)

lemma pieces_first: "newline \<notin> set p \<Longrightarrow> pieces (p @ newline # bs) = p # pieces bs"
  by (simp add: pieces_def split_on_append_sep)

lemma pieces_nonempty [simp]: "pieces bs \<noteq> []"
  by (simp add: pieces_def)

lemma pieces_no_newline: "q \<in> set (pieces bs) \<Longrightarrow> newline \<notin> set q"
  by (induction bs rule: pieces_induct) (auto simp: pieces_last pieces_first)

lemma pieces_append: "pieces (a @ b) = butlast (pieces a) @ (last (pieces a) @ hd (pieces b)) # tl (pieces b)"
proof (induction a rule: pieces_induct)
  case (last p)
  then show ?case
    by (induction b rule: pieces_induct) (simp_all add: pieces_last pieces_first flip: append_assoc)
next
  case (first p bs)
  then show ?case by (simp add: pieces_first)
qed

subsection \<open>The breaks of a buffer are its pieces\<close>

definition shifted :: "nat \<Rightarrow> nat \<times> nat \<Rightarrow> nat \<times> nat" where
  "shifted k ab = (k + fst ab, k + snd ab)"

lemma newlineIndexes_last: "newline \<notin> set p \<Longrightarrow> newlineIndexes p = []"
  by (simp add: newlineIndexes_def newlines_none)

lemma newlineIndexes_first:
  "newline \<notin> set p \<Longrightarrow> newlineIndexes (p @ newline # bs) = length p # map ((+) (Suc (length p))) (newlineIndexes bs)"
  using newlines_shift [of 0 "Suc (length p)" bs] by (simp add: newlineIndexes_def newlines_first)

lemma region_shifted: "region (p @ newline # bs) (fst (shifted (Suc (length p)) ab)) (snd (shifted (Suc (length p)) ab)) = region bs (fst ab) (snd ab)"
  by (simp add: region_def shifted_def)

lemma map_region_shifted:
  "map (\<lambda>(a, b). region (p @ newline # bs) a b) (map (shifted (Suc (length p))) rs) = map (\<lambda>(a, b). region bs a b) rs"
  by (auto simp: case_prod_beta region_shifted)

lemma zip_shifted: "zip (map ((+) k) xs) (map ((+) k) ys) = map (shifted k) (zip xs ys)"
  by (simp add: shifted_def zip_map_map case_prod_beta)

lemma ended_lines_first: "ended_lines (n # map ((+) (Suc n)) B) = (0, n) # map (shifted (Suc n)) (ended_lines B)"
  using zip_shifted [of "Suc n" "0 # map Suc B" B] by (simp add: ended_lines_def comp_def)

lemma begun_lines_first:
  "begun_lines (n # map ((+) (Suc n)) B) (Suc n + len) = map (shifted (Suc n)) ((0, before_breaks B len) # begun_lines B len)"
proof -
  have "(0, before_breaks B len) # begun_lines B len = zip (0 # map Suc B) (B @ [len])"
    by (cases B) (simp_all add: begun_lines_def before_breaks_def)
  then show ?thesis
    using zip_shifted [of "Suc n" "0 # map Suc B" "B @ [len]"] by (simp add: begun_lines_def comp_def)
qed

lemma ended_pieces: "map (\<lambda>(a, b). region bs a b) (ended_lines (newlineIndexes bs)) = butlast (pieces bs)"
proof (induction bs rule: pieces_induct)
  case (last p)
  then show ?case by (simp add: newlineIndexes_last ended_lines_def pieces_last)
next
  case (first p bs)
  then show ?case
    by (simp add: newlineIndexes_first ended_lines_first pieces_first map_region_shifted del: map_map)
      (simp add: region_def)
qed

lemma begun_pieces: "map (\<lambda>(a, b). region bs a b) (begun_lines (newlineIndexes bs) (length bs)) = tl (pieces bs) \<and>
    take (before_breaks (newlineIndexes bs) (length bs)) bs = hd (pieces bs)"
proof (induction bs rule: pieces_induct)
  case (last p)
  then show ?case by (simp add: newlineIndexes_last begun_lines_def before_breaks_def pieces_last)
next
  case (first p bs)
  have "map (\<lambda>(a, b). region (p @ newline # bs) a b) (begun_lines (newlineIndexes (p @ newline # bs)) (length (p @ newline # bs))) =
      map (\<lambda>(a, b). region bs a b) ((0, before_breaks (newlineIndexes bs) (length bs)) # begun_lines (newlineIndexes bs) (length bs))"
    using begun_lines_first [of "length p" "newlineIndexes bs" "length bs"] first.hyps
    by (simp add: newlineIndexes_first map_region_shifted del: map_map list.map(2))
  also have "\<dots> = hd (pieces bs) # tl (pieces bs)" using first.IH by (simp add: region_def)
  finally show ?case using first.hyps by (simp add: pieces_first newlineIndexes_first before_breaks_def)
qed

lemma after_pieces: "drop (after_breaks (newlineIndexes bs)) bs = last (pieces bs)"
proof (induction bs rule: pieces_induct)
  case (last p)
  then show ?case by (simp add: newlineIndexes_last after_breaks_def pieces_last)
next
  case (first p bs)
  then show ?case
    by (cases "newlineIndexes bs = []") (simp_all add: newlineIndexes_first after_breaks_def pieces_first last_map)
qed

subsection \<open>The reader\<close>

lemma region_split: "a \<le> b \<Longrightarrow> b \<le> length xs \<Longrightarrow> drop a xs = region xs a b @ drop b xs"
  by (metis append_take_drop_id drop_drop le_add_diff_inverse2 region_def)

lemma region_take: "a \<le> b \<Longrightarrow> b \<le> length xs \<Longrightarrow> take b xs = take a xs @ region xs a b"
  by (metis le_add_diff_inverse region_def take_add)

lemma forward_loop_pieces:
  "newline \<notin> set carry \<Longrightarrow> 0 < chunk \<Longrightarrow>
     forward_loop utf8 onLine chunk bytes offset carry s = fst (each_piece utf8 onLine (pieces (carry @ drop offset bytes)) s)"
proof (induction utf8 onLine chunk bytes offset carry s rule: forward_loop.induct)
  case (1 utf8 onLine chunk bytes offset carry s)
  show ?case
  proof (cases "offset < length bytes")
    case True
    define len where "len = min chunk (length bytes - offset)"
    define combined where "combined = carry @ region bytes offset (offset + len)"
    have rest: "carry @ drop offset bytes = combined @ drop (offset + len) bytes"
      using True by (simp add: combined_def len_def region_split [of offset "offset + min chunk (length bytes - offset)" bytes])
    have "newline \<notin> set (last (pieces combined))" by (rule pieces_no_newline [of _ combined]) simp
    with 1 True have "forward_loop utf8 onLine chunk bytes (offset + len) (last (pieces combined)) s' =
        fst (each_piece utf8 onLine (pieces (last (pieces combined) @ drop (offset + len) bytes)) s')"
      if "emit_regions utf8 onLine combined (ended_lines (newlineIndexes combined)) s = (s', True)" for s'
      using that by (simp add: combined_def len_def Let_def after_pieces del: drop_append)
    moreover have "pieces (carry @ drop offset bytes) =
        butlast (pieces combined) @ pieces (last (pieces combined) @ drop (offset + len) bytes)"
      unfolding rest using pieces_append [of combined] pieces_append [of "last (pieces combined)"]
        pieces_last [OF \<open>newline \<notin> set (last (pieces combined))\<close>] by simp
    ultimately show ?thesis using 1(3) True
      by (subst forward_loop.simps)
        (auto simp: Let_def emit_regions_pieces ended_pieces after_pieces each_piece_append
          simp flip: len_def combined_def split: prod.splits bool.splits)
  next
    case False
    with 1 show ?thesis
      by (subst forward_loop.simps) (simp add: pieces_last split: prod.splits bool.splits)
  qed
qed

lemma backward_loop_pieces:
  "newline \<notin> set carry \<Longrightarrow> 0 < chunk \<Longrightarrow> remaining \<le> length bytes \<Longrightarrow>
     backward_loop utf8 onLine chunk bytes remaining carry s =
       fst (each_piece utf8 onLine (rev (pieces (take remaining bytes @ carry))) s)"
proof (induction utf8 onLine chunk bytes remaining carry s rule: backward_loop.induct)
  case (1 utf8 onLine chunk bytes remaining carry s)
  show ?case
  proof (cases "0 < remaining")
    case True
    define start where "start = remaining - min chunk remaining"
    define combined where "combined = region bytes start remaining @ carry"
    have rest: "take remaining bytes @ carry = take start bytes @ combined"
      using 1(4) by (simp add: combined_def start_def region_take [of "remaining - min chunk remaining" remaining bytes])
    have "newline \<notin> set (hd (pieces combined))" by (rule pieces_no_newline [of _ combined]) simp
    with 1 True have "backward_loop utf8 onLine chunk bytes start (hd (pieces combined)) s' =
        fst (each_piece utf8 onLine (rev (pieces (take start bytes @ hd (pieces combined)))) s')"
      if "emit_regions utf8 onLine combined (rev (begun_lines (newlineIndexes combined) (length combined))) s = (s', True)" for s'
      using that by (simp add: combined_def start_def Let_def begun_pieces del: take_append length_append)
    moreover have "pieces (take remaining bytes @ carry) =
        pieces (take start bytes @ hd (pieces combined)) @ tl (pieces combined)"
      unfolding rest using pieces_append [of "take start bytes" combined] pieces_append [of "take start bytes" "hd (pieces combined)"]
        pieces_last [OF \<open>newline \<notin> set (hd (pieces combined))\<close>] by simp
    ultimately show ?thesis using 1(3) True
      by (subst backward_loop.simps)
        (auto simp: Let_def emit_regions_pieces begun_pieces each_piece_append rev_map [symmetric]
          simp flip: start_def combined_def split: prod.splits bool.splits)
  next
    case False
    with 1 show ?thesis
      by (subst backward_loop.simps) (simp add: pieces_last split: prod.splits bool.splits)
  qed
qed

text \<open>
  Claim C29. Reading in chunks, a reader sees the lines of the file: in order, or in the opposite
  order from the end, until it asks to stop.
\<close>

theorem reader_sees_whole_lines:
  "forEachLine utf8 onLine (Some bytes) s = fst (each_piece utf8 onLine (pieces bytes) s) \<and>
   forEachLineReverse utf8 onLine (Some bytes) s = fst (each_piece utf8 onLine (rev (pieces bytes)) s)"
  by (simp add: forEachLine_def forEachLineReverse_def forward_loop_pieces backward_loop_pieces chunk_size_def)

section \<open>Entries\<close>

text \<open>The entries of a file: its lines that are not blank and parse.\<close>

definition entry_of :: "(string \<Rightarrow> string) \<Rightarrow> (string \<Rightarrow> 'e option) \<Rightarrow> string \<Rightarrow> 'e option" where
  "entry_of utf8 parse p = (if p = [] \<or> trim (utf8 p) = [] then None else parse (utf8 p))"

definition file_entries :: "(string \<Rightarrow> string) \<Rightarrow> (string \<Rightarrow> 'e option) \<Rightarrow> string \<Rightarrow> 'e list" where
  "file_entries utf8 parse bytes = List.map_filter (entry_of utf8 parse) (pieces bytes)"

definition at_most :: "nat option \<Rightarrow> 'e list \<Rightarrow> 'e list" where
  "at_most limit es = (case limit of None \<Rightarrow> es | Some n \<Rightarrow> take (max 1 n) es)"

lemma emit_collect:
  "emit_line utf8 (collect_entry parse limit) p es = (case entry_of utf8 parse p of
     None \<Rightarrow> (es, True)
   | Some e \<Rightarrow> (es @ [e], case limit of None \<Rightarrow> True | Some n \<Rightarrow> length (es @ [e]) < n))"
  by (auto simp: emit_line_def collect_entry_def entry_of_def split: option.splits)

lemma collected:
  "(case limit of None \<Rightarrow> True | Some n \<Rightarrow> length es < max 1 n) \<Longrightarrow>
     fst (each_piece utf8 (collect_entry parse limit) ps es) = at_most limit (es @ List.map_filter (entry_of utf8 parse) ps)"
proof (induction ps arbitrary: es)
  case Nil
  then show ?case by (auto simp: at_most_def map_filter_simps split: option.splits)
next
  case (Cons p ps)
  show ?case
  proof (cases "entry_of utf8 parse p")
    case None
    with Cons show ?thesis by (simp add: emit_collect map_filter_simps)
  next
    case (Some e)
    show ?thesis
    proof (cases limit)
      case None
      with Some Cons.IH [of "es @ [e]"] show ?thesis by (simp add: emit_collect map_filter_simps at_most_def)
    next
      case (Some n)
      with \<open>entry_of utf8 parse p = Some e\<close> Cons.IH [of "es @ [e]"] Cons.prems show ?thesis
        by (cases "Suc (length es) < n")
          (auto simp: emit_collect map_filter_simps at_most_def max_def take_Cons' not_less_eq split: if_splits)
    qed
  qed
qed

lemma map_filter_rev: "List.map_filter f (rev xs) = rev (List.map_filter f xs)"
  by (simp add: List.map_filter_def rev_map rev_filter [symmetric])

text \<open>
  With a limit, reading from the start keeps the first entries and reading from the end
  the last ones, both in the order of the file; a limit of zero keeps one.
\<close>

theorem parse_keeps_the_entries_asked_for:
  "jsonl_parse utf8 parse (Some bytes) limit False = at_most limit (file_entries utf8 parse bytes) \<and>
   jsonl_parse utf8 parse (Some bytes) limit True = rev (at_most limit (rev (file_entries utf8 parse bytes)))"
proof -
  have start: "case limit of None \<Rightarrow> True | Some n \<Rightarrow> length [] < max 1 n"
    by (simp add: less_max_iff_disj split: option.splits)
  show ?thesis
    by (simp add: jsonl_parse_def forEachLine_def forEachLineReverse_def forward_loop_pieces backward_loop_pieces
        chunk_size_def collected [OF start] file_entries_def map_filter_rev)
qed

section \<open>Writing with rotation\<close>

text \<open>
  The generations of a file, the live one first. A file operation that fails is swallowed; which
  ones do is an argument. Appending does not fail.
\<close>

datatype fs_call = Remove_File nat | Rename_File nat nat

type_synonym generations = "nat \<Rightarrow> string option"

record rotating_writer =
  rw_maxFileSize :: nat
  rw_maxFiles :: nat

definition remove_generation :: "(fs_call \<Rightarrow> bool) \<Rightarrow> nat \<Rightarrow> generations \<Rightarrow> generations" where
  "remove_generation fails g disk = (if fails (Remove_File g) then disk else disk(g := None))"

definition rename_generation :: "(fs_call \<Rightarrow> bool) \<Rightarrow> nat \<Rightarrow> nat \<Rightarrow> generations \<Rightarrow> generations" where
  "rename_generation fails a b disk =
     (case disk a of None \<Rightarrow> disk
      | Some content \<Rightarrow> if fails (Rename_File a b) then disk else disk(b := Some content, a := None))"

text \<open>The loop from \<open>maxFiles - 2\<close> down to 1.\<close>

fun shift_generations :: "(fs_call \<Rightarrow> bool) \<Rightarrow> nat \<Rightarrow> generations \<Rightarrow> generations" where
  "shift_generations fails 0 disk = disk"
| "shift_generations fails (Suc g) disk = shift_generations fails g (rename_generation fails (Suc g) (Suc (Suc g)) disk)"

definition rotate_files :: "(fs_call \<Rightarrow> bool) \<Rightarrow> rotating_writer \<Rightarrow> generations \<Rightarrow> generations" where
  "rotate_files fails w disk =
     (if rw_maxFiles w \<le> 1 then remove_generation fails 0 disk
      else rename_generation fails 0 1 (shift_generations fails (rw_maxFiles w - 2)
        (remove_generation fails (rw_maxFiles w - 1) disk)))"

definition line_payload :: "string \<Rightarrow> string" where
  "line_payload line = (if ends_with line [newline] then line else line @ [newline])"

definition live_size :: "generations \<Rightarrow> nat" where
  "live_size disk = (case disk 0 of None \<Rightarrow> 0 | Some content \<Rightarrow> length content)"

text \<open>
  One line appended: the disk, the size kept in memory (read from the file the first time), and
  what \<open>onWrite\<close> is told.
\<close>

definition append_line :: "(fs_call \<Rightarrow> bool) \<Rightarrow> rotating_writer \<Rightarrow> string \<Rightarrow> generations \<times> nat option \<Rightarrow>
  (generations \<times> nat option) \<times> (nat \<times> bool)" where
  "append_line fails w line ds =
     (let disk = fst ds; payload = line_payload line; size = (case snd ds of Some n \<Rightarrow> n | None \<Rightarrow> live_size disk);
          rotated = (0 < size \<and> rw_maxFileSize w < size + length payload);
          disk' = (if rotated then rotate_files fails w disk else disk);
          size' = (if rotated then 0 else size) in
      ((disk'(0 := Some ((case disk' 0 of None \<Rightarrow> [] | Some content \<Rightarrow> content) @ payload)), Some (size' + length payload)),
       (length payload, rotated)))"

fun append_lines :: "(fs_call \<Rightarrow> bool) \<Rightarrow> rotating_writer \<Rightarrow> string list \<Rightarrow> generations \<times> nat option \<Rightarrow> generations \<times> nat option" where
  "append_lines fails w [] ds = ds"
| "append_lines fails w (l # ls) ds = append_lines fails w ls (fst (append_line fails w l ds))"

text \<open>The generations that exist, oldest first, and without the live file.\<close>

definition existing_files :: "nat \<Rightarrow> generations \<Rightarrow> nat list" where
  "existing_files maxFiles disk = filter (\<lambda>g. disk g \<noteq> None) (rev [0..<max maxFiles 1])"

definition rotated_files :: "nat \<Rightarrow> generations \<Rightarrow> nat list" where
  "rotated_files maxFiles disk = filter (\<lambda>g. g \<noteq> 0) (existing_files maxFiles disk)"

section \<open>Following a file\<close>

record tailer =
  tl_offset :: nat
  tl_buffer :: string

definition follow_from :: "string option \<Rightarrow> tailer" where
  "follow_from bytes = \<lparr>tl_offset = (case bytes of None \<Rightarrow> 0 | Some b \<Rightarrow> length b), tl_buffer = []\<rparr>"

text \<open>What a change of the file emits; the bytes read at once are decoded as one text.\<close>

definition drain :: "(string \<Rightarrow> string) \<Rightarrow> string option \<Rightarrow> tailer \<Rightarrow> tailer \<times> string list" where
  "drain utf8 bytes t = (case bytes of
       None \<Rightarrow> (t, [])
     | Some b \<Rightarrow>
         if length b \<le> tl_offset t then (t\<lparr>tl_offset := length b\<rparr>, [])
         else (let lines = pieces (tl_buffer t @ utf8 (drop (tl_offset t) b)) in
           (\<lparr>tl_offset = length b, tl_buffer = last lines\<rparr>, filter (\<lambda>l. l \<noteq> []) (butlast lines))))"

end
