(* ===== verification/Safe_Stringifier.thy ===== *)
theory Safe_Stringifier
  imports Js_Values
begin

text \<open>
  The serializer of the observability store (\<open>packages/observability/src/utils/safe-stringifier.ts\<close>)
  on objects that refer to each other in any way, cycles included, and the bounds on what it makes.
  Texts are their UTF-8 bytes; the members of an object are listed in the order of
  \<open>Object.keys\<close>, a getter that throws without a value.
\<close>

section \<open>Values with references\<close>

datatype js_value =
    Text_Value string
  | BigInt_Value string
  | Function_Value
  | Symbol_Value
  | Plain_Value jsv
  | Ref_Value nat

text \<open>\<open>Plain_Value\<close> is \<open>undefined\<close>, \<open>null\<close>, a boolean or a number. A date that is invalid has no text.\<close>

datatype heap_object =
    Date_Object "string option"
  | Error_Object string string "string option"
  | Array_Object "js_value list"
  | Plain_Object "(string \<times> js_value option) list"

type_synonym js_heap = "nat \<Rightarrow> heap_object"

record stringifier =
  ss_maxDepth :: nat
  ss_maxArrayLength :: nat
  ss_maxKeys :: nat
  ss_maxStringLength :: nat

definition default_stringifier :: stringifier where
  "default_stringifier = \<lparr>ss_maxDepth = 12, ss_maxArrayLength = 200, ss_maxKeys = 200, ss_maxStringLength = 8192\<rparr>"

definition ellipsis :: string where
  "ellipsis = [CHR 0xE2, CHR 0x80, CHR 0xA6]"

definition truncate_text :: "stringifier \<Rightarrow> string \<Rightarrow> string" where
  "truncate_text cfg s =
     (if length s \<le> ss_maxStringLength cfg then s
      else take (ss_maxStringLength cfg) s @ ellipsis @ ''('' @ show_nat (length s - ss_maxStringLength cfg) @ '' more chars)'')"

definition error_members :: "stringifier \<Rightarrow> string \<Rightarrow> string \<Rightarrow> string option \<Rightarrow> jsv" where
  "error_members cfg name msg stk = JObject [(''name'', js_string name), (''message'', js_string (truncate_text cfg msg)),
     (''stack'', case stk of None \<Rightarrow> JUndefined | Some s \<Rightarrow> js_string (truncate_text cfg s))]"

fun all_results :: "'a option list \<Rightarrow> 'a list option" where
  "all_results [] = Some []"
| "all_results (None # vs) = None"
| "all_results (Some v # vs) = map_option ((#) v) (all_results vs)"

text \<open>An array cut at its limit; one element that throws fails it as a whole.\<close>

definition cut_array :: "stringifier \<Rightarrow> nat \<Rightarrow> jsv option list \<Rightarrow> jsv option" where
  "cut_array cfg len vs = map_option (\<lambda>kept. JArray (kept @
     (if ss_maxArrayLength cfg < len
      then [js_string (''['' @ ellipsis @ show_nat (len - ss_maxArrayLength cfg) @ '' more]'')] else []))) (all_results vs)"

text \<open>An object cut at its limit; a member that cannot be read is marked.\<close>

definition cut_object :: "stringifier \<Rightarrow> nat \<Rightarrow> (string \<times> jsv option) list \<Rightarrow> jsv" where
  "cut_object cfg len kvs = (let kept = map (\<lambda>kv. (fst kv, case snd kv of Some v \<Rightarrow> v | None \<Rightarrow> js_string ''[Unreadable]'')) kvs in
     JObject (if ss_maxKeys cfg < len then obj_set ''__truncatedKeys'' (JAtom (show_nat (len - ss_maxKeys cfg))) kept else kept))"

section \<open>The walk\<close>

text \<open>
  \<open>seen\<close> holds the objects of the current path. \<open>None\<close> is a value that throws. The depth ends the
  walk on every heap.
\<close>

function sanitize :: "stringifier \<Rightarrow> js_heap \<Rightarrow> js_value \<Rightarrow> nat \<Rightarrow> nat list \<Rightarrow> jsv option" where
  "sanitize cfg heap v depth seen =
     (case v of
        Text_Value s \<Rightarrow> Some (js_string (truncate_text cfg s))
      | BigInt_Value s \<Rightarrow> Some (js_string (s @ ''n''))
      | Function_Value \<Rightarrow> Some (js_string ''[function]'')
      | Symbol_Value \<Rightarrow> Some (js_string ''[symbol]'')
      | Plain_Value w \<Rightarrow> Some w
      | Ref_Value r \<Rightarrow>
          (case heap r of
             Date_Object d \<Rightarrow> map_option js_string d
           | Error_Object name msg stk \<Rightarrow> Some (error_members cfg name msg stk)
           | Array_Object vs \<Rightarrow>
               if r \<in> set seen then Some (js_string ''[Circular]'')
               else if ss_maxDepth cfg \<le> depth then Some (js_string ''[MaxDepth]'')
               else cut_array cfg (length vs)
                 (map (\<lambda>w. sanitize cfg heap w (Suc depth) (r # seen)) (take (ss_maxArrayLength cfg) vs))
           | Plain_Object kvs \<Rightarrow>
               if r \<in> set seen then Some (js_string ''[Circular]'')
               else if ss_maxDepth cfg \<le> depth then Some (js_string ''[MaxDepth]'')
               else Some (cut_object cfg (length kvs)
                 (map (\<lambda>kv. (fst kv, case snd kv of None \<Rightarrow> None | Some w \<Rightarrow> sanitize cfg heap w (Suc depth) (r # seen)))
                   (take (ss_maxKeys cfg) kvs)))))"
  by pat_completeness auto
termination by (relation "measure (\<lambda>(cfg, _, _, depth, _). ss_maxDepth cfg - depth)") auto

declare sanitize.simps [simp del]

lemma sanitize_atoms:
  "sanitize cfg heap (Text_Value s) depth seen = Some (js_string (truncate_text cfg s))"
  "sanitize cfg heap (BigInt_Value s) depth seen = Some (js_string (s @ ''n''))"
  "sanitize cfg heap Function_Value depth seen = Some (js_string ''[function]'')"
  "sanitize cfg heap Symbol_Value depth seen = Some (js_string ''[symbol]'')"
  "sanitize cfg heap (Plain_Value w) depth seen = Some w"
  by (simp_all add: sanitize.simps)

text \<open>\<open>stringify\<close> never throws.\<close>

definition sanitized_text :: "jsv option \<Rightarrow> string" where
  "sanitized_text v = (case v of
       None \<Rightarrow> ''{'' @ json_string ''__unserializable'' @ '':true}''
     | Some w \<Rightarrow> (case json_stringify w of Some s \<Rightarrow> s | None \<Rightarrow> ''null''))"

definition safe_stringify :: "stringifier \<Rightarrow> js_heap \<Rightarrow> js_value \<Rightarrow> string" where
  "safe_stringify cfg heap v = sanitized_text (sanitize cfg heap v 0 [])"

text \<open>An object made for the purpose, which no other refers to.\<close>

definition stringify_members :: "stringifier \<Rightarrow> js_heap \<Rightarrow> (string \<times> js_value option) list \<Rightarrow> string" where
  "stringify_members cfg heap kvs = sanitized_text (if ss_maxDepth cfg = 0 then Some (js_string ''[MaxDepth]'')
     else Some (cut_object cfg (length kvs)
       (map (\<lambda>kv. (fst kv, case snd kv of None \<Rightarrow> None | Some w \<Rightarrow> sanitize cfg heap w 1 [])) (take (ss_maxKeys cfg) kvs))))"

section \<open>Bounds\<close>

text \<open>How deep a value nests and how wide it gets.\<close>

fun nesting :: "jsv \<Rightarrow> nat" where
  "nesting (JArray vs) = Suc (foldr max (map nesting vs) 0)"
| "nesting (JObject kvs) = Suc (foldr max (map (\<lambda>kv. nesting (snd kv)) kvs) 0)"
| "nesting (JInstance c kvs) = Suc (foldr max (map (\<lambda>kv. nesting (snd kv)) kvs) 0)"
| "nesting _ = 0"

fun within_width :: "nat \<Rightarrow> nat \<Rightarrow> jsv \<Rightarrow> bool" where
  "within_width a k (JArray vs) \<longleftrightarrow> length vs \<le> a \<and> list_all (within_width a k) vs"
| "within_width a k (JObject kvs) \<longleftrightarrow> length kvs \<le> k \<and> list_all (\<lambda>kv. within_width a k (snd kv)) kvs"
| "within_width a k (JInstance c kvs) \<longleftrightarrow> length kvs \<le> k \<and> list_all (\<lambda>kv. within_width a k (snd kv)) kvs"
| "within_width a k _ \<longleftrightarrow> True"

text \<open>A value that is neither an array nor an object, as \<open>Plain_Value\<close> holds them.\<close>

definition is_plain :: "jsv \<Rightarrow> bool" where
  "is_plain v = (case v of JUndefined \<Rightarrow> True | JNull \<Rightarrow> True | JAtom _ \<Rightarrow> True | _ \<Rightarrow> False)"

definition plain_value :: "js_value \<Rightarrow> bool" where
  "plain_value v = (case v of Plain_Value w \<Rightarrow> is_plain w | _ \<Rightarrow> True)"

definition plain_heap :: "js_heap \<Rightarrow> bool" where
  "plain_heap heap \<longleftrightarrow> (\<forall>r. case heap r of
       Array_Object vs \<Rightarrow> list_all plain_value vs
     | Plain_Object kvs \<Rightarrow> list_all (\<lambda>kv. case snd kv of None \<Rightarrow> True | Some v \<Rightarrow> plain_value v) kvs
     | _ \<Rightarrow> True)"

definition bounded :: "stringifier \<Rightarrow> nat \<Rightarrow> jsv \<Rightarrow> bool" where
  "bounded cfg d w \<longleftrightarrow> nesting w \<le> d \<and> within_width (Suc (ss_maxArrayLength cfg)) (max 3 (Suc (ss_maxKeys cfg))) w"

lemma all_results_Some: "all_results vs = Some ws \<longleftrightarrow> vs = map Some ws"
  by (induction vs arbitrary: ws rule: all_results.induct) (auto simp: map_eq_Cons_conv eq_commute [of "_ # _" "map _ _"])

lemma foldr_max: "foldr max xs (0::nat) \<le> d \<longleftrightarrow> (\<forall>x \<in> set xs. x \<le> d)"
  by (induction xs) auto

lemma bounded_atom: "bounded cfg d (js_string s)" "bounded cfg d (JAtom a)" "is_plain w \<Longrightarrow> bounded cfg d w"
  by (auto simp: bounded_def js_string_def is_plain_def split: jsv.splits)

lemma bounded_array:
  "length vs \<le> Suc (ss_maxArrayLength cfg) \<Longrightarrow> (\<And>v. v \<in> set vs \<Longrightarrow> bounded cfg d v) \<Longrightarrow> bounded cfg (Suc d) (JArray vs)"
  by (auto simp: bounded_def foldr_max list_all_iff)

lemma bounded_object:
  "length kvs \<le> max 3 (Suc (ss_maxKeys cfg)) \<Longrightarrow> (\<And>k v. (k, v) \<in> set kvs \<Longrightarrow> bounded cfg d v) \<Longrightarrow> bounded cfg (Suc d) (JObject kvs)"
  by (auto simp: bounded_def foldr_max list_all_iff)

lemma bounded_cut_array:
  assumes "cut_array cfg len vs = Some w" and "length vs \<le> ss_maxArrayLength cfg"
    and "\<And>v. Some v \<in> set vs \<Longrightarrow> bounded cfg d v"
  shows "bounded cfg (Suc d) w"
proof -
  obtain ws where ws: "vs = map Some ws" and w: "w = JArray (ws @ (if ss_maxArrayLength cfg < len
      then [js_string (''['' @ ellipsis @ show_nat (len - ss_maxArrayLength cfg) @ '' more]'')] else []))"
    using assms(1) by (auto simp: cut_array_def all_results_Some)
  show ?thesis unfolding w
    by (rule bounded_array) (use assms(2,3) ws in \<open>auto simp: bounded_atom\<close>)
qed

lemma length_obj_set: "length (obj_set k v ob) \<le> Suc (length ob)"
  by (induction ob) auto

lemma bounded_cut_object:
  assumes "length kvs \<le> ss_maxKeys cfg" and "\<And>k v. (k, Some v) \<in> set kvs \<Longrightarrow> bounded cfg d v"
  shows "bounded cfg (Suc d) (cut_object cfg len kvs)"
proof -
  define kept where "kept = map (\<lambda>kv. (fst kv, case snd kv of Some v \<Rightarrow> v | None \<Rightarrow> js_string ''[Unreadable]'')) kvs"
  have kept: "bounded cfg d v" if "(k, v) \<in> set kept" for k v
    using that assms(2) by (auto simp: kept_def bounded_atom split: option.splits)
  have len: "length kept = length kvs" by (simp add: kept_def)
  show ?thesis
  proof (cases "ss_maxKeys cfg < len")
    case True
    have "bounded cfg (Suc d) (JObject (obj_set ''__truncatedKeys'' (JAtom (show_nat (len - ss_maxKeys cfg))) kept))"
    proof (rule bounded_object)
      show "length (obj_set ''__truncatedKeys'' (JAtom (show_nat (len - ss_maxKeys cfg))) kept) \<le> max 3 (Suc (ss_maxKeys cfg))"
        using length_obj_set [of "''__truncatedKeys''" "JAtom (show_nat (len - ss_maxKeys cfg))" kept] assms(1) len by simp
      show "bounded cfg d v" if "(k, v) \<in> set (obj_set ''__truncatedKeys'' (JAtom (show_nat (len - ss_maxKeys cfg))) kept)" for k v
      proof -
        have "(k, v) = (''__truncatedKeys'', JAtom (show_nat (len - ss_maxKeys cfg))) \<or> (k, v) \<in> set kept"
          using that by (rule set_obj_set)
        then show ?thesis using kept by (auto simp: bounded_atom(2))
      qed
    qed
    with True show ?thesis by (simp add: cut_object_def kept_def)
  next
    case False
    with kept len assms(1) show ?thesis
      by (auto simp: cut_object_def simp flip: kept_def intro!: bounded_object)
  qed
qed

lemma bounded_error: "bounded cfg (Suc d) (error_members cfg name msg stk)"
  unfolding error_members_def
  by (rule bounded_object) (auto simp: bounded_atom is_plain_def split: option.splits)

lemma heap_array: "plain_heap heap \<Longrightarrow> heap r = Array_Object vs \<Longrightarrow> v \<in> set vs \<Longrightarrow> plain_value v"
  unfolding plain_heap_def by (drule spec [of _ r]) (auto simp: list_all_iff)

lemma heap_member: "plain_heap heap \<Longrightarrow> heap r = Plain_Object kvs \<Longrightarrow> (k, Some v) \<in> set kvs \<Longrightarrow> plain_value v"
  unfolding plain_heap_def by (drule spec [of _ r]) (auto simp: list_all_iff)

lemma sanitize_bounded:
  "plain_heap heap \<Longrightarrow> plain_value v \<Longrightarrow> sanitize cfg heap v depth seen = Some w \<Longrightarrow>
     bounded cfg (Suc (ss_maxDepth cfg - depth)) w"
proof (induction cfg heap v depth seen arbitrary: w rule: sanitize.induct)
  case (1 cfg heap v depth seen)
  show ?case
  proof (cases v)
    case (Ref_Value r)
    show ?thesis
    proof (cases "heap r")
      case (Array_Object vs)
      show ?thesis
      proof (cases "r \<in> set seen \<or> ss_maxDepth cfg \<le> depth")
        case False
        then have d: "ss_maxDepth cfg - depth = Suc (ss_maxDepth cfg - Suc depth)" by (simp add: Suc_diff_Suc not_le)
        show ?thesis unfolding d
        proof (rule bounded_cut_array)
          show "cut_array cfg (length vs) (map (\<lambda>w. sanitize cfg heap w (Suc depth) (r # seen)) (take (ss_maxArrayLength cfg) vs)) = Some w"
            using "1.prems"(3) Ref_Value Array_Object False by (subst (asm) sanitize.simps) simp
          show "bounded cfg (Suc (ss_maxDepth cfg - Suc depth)) u"
            if u: "Some u \<in> set (map (\<lambda>w. sanitize cfg heap w (Suc depth) (r # seen)) (take (ss_maxArrayLength cfg) vs))" for u
          proof -
            obtain x where x: "x \<in> set (take (ss_maxArrayLength cfg) vs)" "sanitize cfg heap x (Suc depth) (r # seen) = Some u"
              using u by (auto simp: eq_commute [of "Some u"])
            then have "plain_value x" using heap_array [OF "1.prems"(1) Array_Object] by (meson in_set_takeD)
            with 1(1) [OF Ref_Value Array_Object] x "1.prems"(1) False show ?thesis by blast
          qed
        qed simp
      qed (use "1.prems"(3) Ref_Value Array_Object in \<open>auto simp: sanitize.simps [of cfg heap "Ref_Value r"] bounded_atom split: if_splits\<close>)
    next
      case (Plain_Object kvs)
      show ?thesis
      proof (cases "r \<in> set seen \<or> ss_maxDepth cfg \<le> depth")
        case False
        then have d: "ss_maxDepth cfg - depth = Suc (ss_maxDepth cfg - Suc depth)" by (simp add: Suc_diff_Suc not_le)
        have w: "w = cut_object cfg (length kvs)
            (map (\<lambda>kv. (fst kv, case snd kv of None \<Rightarrow> None | Some w \<Rightarrow> sanitize cfg heap w (Suc depth) (r # seen))) (take (ss_maxKeys cfg) kvs))"
          using "1.prems"(3) Ref_Value Plain_Object False by (subst (asm) sanitize.simps) simp
        show ?thesis unfolding d w
        proof (rule bounded_cut_object)
          show "bounded cfg (Suc (ss_maxDepth cfg - Suc depth)) u" if u: "(k, Some u) \<in> set (map (\<lambda>kv. (fst kv,
              case snd kv of None \<Rightarrow> None | Some w \<Rightarrow> sanitize cfg heap w (Suc depth) (r # seen))) (take (ss_maxKeys cfg) kvs))" for k u
          proof -
            obtain x where x: "(k, Some x) \<in> set (take (ss_maxKeys cfg) kvs)" "sanitize cfg heap x (Suc depth) (r # seen) = Some u"
              using u by (auto split: option.splits)
            then have "plain_value x" using heap_member [OF "1.prems"(1) Plain_Object] by (meson in_set_takeD)
            moreover have "bounded cfg (Suc (ss_maxDepth cfg - Suc depth)) u"
              if "plain_value x" using 1(2) [OF Ref_Value Plain_Object _ _ x(1)] x(2) that "1.prems"(1) False by fastforce
            ultimately show ?thesis by blast
          qed
        qed simp
      qed (use "1.prems"(3) Ref_Value Plain_Object in \<open>auto simp: sanitize.simps [of cfg heap "Ref_Value r"] bounded_atom split: if_splits\<close>)
    qed (use "1.prems"(3) Ref_Value in \<open>auto simp: sanitize.simps [of cfg heap "Ref_Value r"] bounded_atom bounded_error\<close>)
  qed (use "1.prems" in \<open>auto simp: sanitize_atoms bounded_atom plain_value_def\<close>)
qed

text \<open>
  Whatever objects refer to each other, what the serializer makes of them is no deeper
  than its limit, but for the fields of an error at the bottom, and no wider than its limits and one
  marker.
\<close>

theorem sanitized_values_are_bounded:
  assumes "plain_heap heap" and "plain_value v" and "sanitize cfg heap v 0 [] = Some w"
  shows "nesting w \<le> Suc (ss_maxDepth cfg) \<and>
    within_width (Suc (ss_maxArrayLength cfg)) (max 3 (Suc (ss_maxKeys cfg))) w"
  using sanitize_bounded [OF assms] by (simp add: bounded_def)

text \<open>An object that refers to itself.\<close>

definition loop_heap :: js_heap where
  "loop_heap = (\<lambda>r. Plain_Object [(''self'', Some (Ref_Value 0))])"

lemma sanitized_values_are_bounded_witness:
  "nesting (JObject [(''self'', js_string ''[Circular]'')]) \<le> 13"
proof -
  have "sanitize default_stringifier loop_heap (Ref_Value 0) 0 [] = Some (JObject [(''self'', js_string ''[Circular]'')])"
    by code_simp
  moreover have "plain_heap loop_heap" and "plain_value (Ref_Value 0)"
    by (simp_all add: plain_heap_def loop_heap_def plain_value_def)
  ultimately show ?thesis
    using sanitized_values_are_bounded [of loop_heap "Ref_Value 0" default_stringifier] by (simp add: default_stringifier_def)
qed

end
