(* ===== verification/Observability_Store.thy ===== *)
theory Observability_Store
  imports Jsonl_Files Safe_Stringifier
begin

text \<open>
  The store of logs and traces (\<open>packages/observability/src/store\<close>): the partitions of the
  processes that write to it, the ceiling on the whole store, the cap on trace files, and the
  reading and writing of logs and of the summaries of requests. The disk is a list of directories
  in the order in which the system lists them; the clock, the processes that run, and the removals
  that fail are arguments. What a read returns is the list of parsed entries.
\<close>

section \<open>Partitions\<close>

datatype store_file = Logs_File nat | Requests_File nat | Trace_File string | Pid_File | Other_File string

text \<open>A file with its content and the time it was last written.\<close>

type_synonym stored = "store_file \<times> string \<times> int"

record partition =
  pa_name :: string
  pa_mtime :: int
  pa_files :: "stored list"

type_synonym store_disk = "partition list"

text \<open>
  What \<open>process.kill(pid, 0)\<close> does: it returns, or throws that there is no such process, or that the
  process is one of another user that may not be signalled.
\<close>

datatype probe = Signalled | No_Such_Process | Not_Permitted

record store_env =
  se_current :: string
  se_kill :: "nat \<Rightarrow> probe"
  se_stuck :: "string \<Rightarrow> store_file option \<Rightarrow> bool"
  se_now :: int

definition newestFirst :: "store_disk \<Rightarrow> partition list" where
  "newestFirst disk = sort_desc pa_mtime disk"

definition file_size :: "stored \<Rightarrow> nat" where
  "file_size f = length (fst (snd f))"

definition partition_size :: "partition \<Rightarrow> nat" where
  "partition_size p = sum_list (map file_size (pa_files p))"

text \<open>\<open>Number.parseInt(text.trim(), 10)\<close>, where a process is looked up: nothing but a positive number.\<close>

definition parse_pid :: "string \<Rightarrow> nat option" where
  "parse_pid s = (let ds = takeWhile is_digit (trim s) in if num_value ds = 0 then None else Some (num_value ds))"

definition read_file :: "store_file \<Rightarrow> partition \<Rightarrow> string option" where
  "read_file f p = map_option fst (map_of (pa_files p) f)"

text \<open>Whatever is thrown counts as no process.\<close>

definition isLive :: "store_env \<Rightarrow> partition \<Rightarrow> bool" where
  "isLive env p \<longleftrightarrow> pa_name p = se_current env \<or>
     (case Option.bind (read_file Pid_File p) parse_pid of None \<Rightarrow> False | Some pid \<Rightarrow> se_kill env pid = Signalled)"

definition remove_partition :: "store_env \<Rightarrow> string \<Rightarrow> store_disk \<Rightarrow> store_disk" where
  "remove_partition env name disk = (if se_stuck env name None then disk else filter (\<lambda>p. pa_name p \<noteq> name) disk)"

definition update_partition :: "string \<Rightarrow> (partition \<Rightarrow> partition) \<Rightarrow> store_disk \<Rightarrow> store_disk" where
  "update_partition name f disk = map (\<lambda>p. if pa_name p = name then f p else p) disk"

definition remove_file :: "store_env \<Rightarrow> string \<Rightarrow> store_file \<Rightarrow> store_disk \<Rightarrow> store_disk" where
  "remove_file env name f disk =
     (if se_stuck env name (Some f) then disk
      else update_partition name (\<lambda>p. p\<lparr>pa_files := filter (\<lambda>g. fst g \<noteq> f) (pa_files p)\<rparr>) disk)"

section \<open>The ceiling on the store\<close>

record budget =
  bu_maxStoreSize :: int
  bu_maxRetentionAge :: int
  bu_retainedInstances :: nat
  bu_maxLogFiles :: nat

text \<open>The disk, the bytes since the last sweep, and how often listeners were told of a pruning.\<close>

record budget_state =
  bs_disk :: store_disk
  bs_pending :: nat
  bs_pruned :: nat

definition minimum_sweep :: nat where
  "minimum_sweep = 1024 * 1024"

text \<open>5% of the ceiling and at least a megabyte; the fraction is compared exactly.\<close>

definition sweep_due :: "budget \<Rightarrow> nat \<Rightarrow> bool" where
  "sweep_due bu pending \<longleftrightarrow> minimum_sweep \<le> pending \<and> (bu_maxStoreSize bu \<le> 0 \<or> bu_maxStoreSize bu \<le> 20 * int pending)"

text \<open>The partitions past the age limit or the count are dropped unless a process owns them.\<close>

definition past_limits :: "store_env \<Rightarrow> budget \<Rightarrow> nat \<Rightarrow> partition \<Rightarrow> bool" where
  "past_limits env bu i p \<longleftrightarrow> (0 < bu_maxRetentionAge bu \<and> bu_maxRetentionAge bu < se_now env - pa_mtime p \<or>
     max (bu_retainedInstances bu) 1 \<le> i) \<and> \<not> isLive env p"

fun expire_partitions :: "store_env \<Rightarrow> budget \<Rightarrow> nat \<Rightarrow> partition list \<Rightarrow> store_disk \<Rightarrow> partition list \<times> store_disk" where
  "expire_partitions env bu i [] disk = ([], disk)"
| "expire_partitions env bu i (p # ps) disk =
     (if past_limits env bu i p then expire_partitions env bu (Suc i) ps (remove_partition env (pa_name p) disk)
      else (let (survivors, disk') = expire_partitions env bu (Suc i) ps disk in (p # survivors, disk')))"

definition dropExpiredPartitions :: "store_env \<Rightarrow> budget \<Rightarrow> store_disk \<Rightarrow> partition list \<times> store_disk" where
  "dropExpiredPartitions env bu disk = expire_partitions env bu 0 (newestFirst disk) disk"

text \<open>From the oldest of the survivors on, those that no process owns, until the store fits.\<close>

fun drop_abandoned :: "store_env \<Rightarrow> budget \<Rightarrow> partition list \<Rightarrow> int \<Rightarrow> store_disk \<Rightarrow> partition list \<times> int \<times> store_disk" where
  "drop_abandoned env bu [] amount disk = ([], amount, disk)"
| "drop_abandoned env bu (p # ps) amount disk =
     (if amount \<le> bu_maxStoreSize bu then (p # ps, amount, disk)
      else if isLive env p then
        (let (kept, t, d) = drop_abandoned env bu ps amount disk in (p # kept, t, d))
      else drop_abandoned env bu ps (amount - int (partition_size p)) (remove_partition env (pa_name p) disk))"

definition dropAbandonedPartitions :: "store_env \<Rightarrow> budget \<Rightarrow> partition list \<Rightarrow> int \<Rightarrow> store_disk \<Rightarrow> partition list \<times> int \<times> store_disk" where
  "dropAbandonedPartitions env bu survivors amount disk =
     (let (kept, t, d) = drop_abandoned env bu (rev survivors) amount disk in (rev kept, t, d))"

text \<open>The files that may be reclaimed: rotated generations, oldest first, and traces.\<close>

definition generation_files :: "(nat \<Rightarrow> store_file) \<Rightarrow> nat \<Rightarrow> partition \<Rightarrow> nat list" where
  "generation_files f maxFiles p = existing_files maxFiles (\<lambda>g. read_file (f g) p)"

definition is_trace_json :: "store_file \<Rightarrow> bool" where
  "is_trace_json f = (case f of Trace_File n \<Rightarrow> ends_with n ''.json'' | _ \<Rightarrow> False)"

definition reclaimable_names :: "budget \<Rightarrow> partition \<Rightarrow> store_file list" where
  "reclaimable_names bu p =
     map Logs_File (filter (\<lambda>g. g \<noteq> 0) (generation_files Logs_File (bu_maxLogFiles bu) p)) @
     map Requests_File (filter (\<lambda>g. g \<noteq> 0) (generation_files Requests_File (bu_maxLogFiles bu) p)) @
     filter is_trace_json (map fst (pa_files p))"

definition reclaimableFiles :: "budget \<Rightarrow> partition \<Rightarrow> (string \<times> store_file \<times> nat \<times> int) list" where
  "reclaimableFiles bu p = List.map_filter (\<lambda>f. case map_of (pa_files p) f of
       None \<Rightarrow> None
     | Some (content, mtime) \<Rightarrow> Some (pa_name p, f, length content, mtime)) (reclaimable_names bu p)"

fun trim_candidates :: "store_env \<Rightarrow> budget \<Rightarrow> (string \<times> store_file \<times> nat \<times> int) list \<Rightarrow> int \<Rightarrow> store_disk \<Rightarrow> store_disk \<times> bool" where
  "trim_candidates env bu [] amount disk = (disk, False)"
| "trim_candidates env bu ((name, f, n, mtime) # cs) amount disk =
     (if amount \<le> bu_maxStoreSize bu then (disk, False)
      else if se_stuck env name (Some f) then trim_candidates env bu cs amount disk
      else (let (disk', pruned) = trim_candidates env bu cs (amount - int n) (remove_file env name f disk) in
        (disk', pruned \<or> name = se_current env)))"

definition candidate_mtime :: "string \<times> store_file \<times> nat \<times> int \<Rightarrow> int" where
  "candidate_mtime c = snd (snd (snd c))"

definition trimFiles :: "store_env \<Rightarrow> budget \<Rightarrow> partition list \<Rightarrow> int \<Rightarrow> store_disk \<Rightarrow> store_disk \<times> bool" where
  "trimFiles env bu survivors amount disk =
     trim_candidates env bu (sort_key candidate_mtime (concat (map (reclaimableFiles bu) survivors))) amount disk"

definition enforce :: "store_env \<Rightarrow> budget \<Rightarrow> budget_state \<Rightarrow> budget_state" where
  "enforce env bu st =
     (let (survivors, disk) = dropExpiredPartitions env bu (bs_disk st);
          amount = int (sum_list (map partition_size survivors)) in
      if bu_maxStoreSize bu \<le> 0 \<or> amount \<le> bu_maxStoreSize bu then st\<lparr>bs_pending := 0, bs_disk := disk\<rparr>
      else (let (kept, t, d) = dropAbandonedPartitions env bu survivors amount disk in
        if t \<le> bu_maxStoreSize bu then st\<lparr>bs_pending := 0, bs_disk := d\<rparr>
        else (let (d', pruned) = trimFiles env bu kept t d in
          st\<lparr>bs_pending := 0, bs_disk := d', bs_pruned := (if pruned then Suc (bs_pruned st) else bs_pruned st)\<rparr>)))"

definition recordBytes :: "store_env \<Rightarrow> budget \<Rightarrow> nat \<Rightarrow> bool \<Rightarrow> budget_state \<Rightarrow> budget_state" where
  "recordBytes env bu n rotated st =
     (let st1 = st\<lparr>bs_pending := bs_pending st + n\<rparr> in
      if rotated \<or> sweep_due bu (bs_pending st1) then enforce env bu st1 else st1)"

section \<open>The cap on trace files\<close>

text \<open>The trace files of a partition on disk, oldest first, and the list kept in memory.\<close>

definition listed_traces :: "partition \<Rightarrow> string list" where
  "listed_traces p = map fst (sort_key snd (List.map_filter (\<lambda>(f, _, mtime). case f of
       Trace_File n \<Rightarrow> if ends_with n ''.json'' then Some (n, mtime) else None
     | _ \<Rightarrow> None) (pa_files p)))"

fun evict :: "nat \<Rightarrow> string list \<Rightarrow> string list \<times> string list" where
  "evict limit [] = ([], [])"
| "evict limit (f # fs) = (if limit < length (f # fs) then (let (gone, kept) = evict limit fs in (f # gone, kept)) else ([], f # fs))"

text \<open>The files that remain listed, and those that are deleted.\<close>

definition register_trace :: "nat \<Rightarrow> string \<Rightarrow> string list \<Rightarrow> string list \<times> string list" where
  "register_trace maxTraceFiles name files = evict (max maxTraceFiles 1) (remove1 name files @ [name])"

section \<open>Logs\<close>

record log_store =
  ls_enabled :: bool
  ls_maxEntrySize :: int
  ls_maxLogFiles :: nat
  ls_severityLevel :: int
  ls_stringifier :: stringifier

text \<open>A log is its members; the severity is compared where it is a number.\<close>

record stored_log =
  sl_severity :: "int option"
  sl_members :: "(string \<times> js_value option) list"

definition isBelowThreshold :: "log_store \<Rightarrow> stored_log \<Rightarrow> bool" where
  "isBelowThreshold ls l = (case sl_severity l of None \<Rightarrow> False | Some n \<Rightarrow> n < ls_severityLevel ls)"

definition member_value :: "stored_log \<Rightarrow> string \<Rightarrow> js_value option" where
  "member_value l k = (case map_of (sl_members l) k of Some v \<Rightarrow> v | None \<Rightarrow> Some (Plain_Value JUndefined))"

definition short_message :: "js_value option \<Rightarrow> js_value option" where
  "short_message v = (case v of Some (Text_Value s) \<Rightarrow> Some (Text_Value (take 1024 s)) | _ \<Rightarrow> v)"

definition js_true :: "js_value option" where
  "js_true = Some (Plain_Value (JAtom ''true''))"

definition without_extra :: "stored_log \<Rightarrow> (string \<times> js_value option) list" where
  "without_extra l = AList.update ''extraOmitted'' js_true (filter (\<lambda>kv. fst kv \<noteq> ''extra'') (sl_members l))"

definition essential_members :: "stored_log \<Rightarrow> (string \<times> js_value option) list" where
  "essential_members l = map (\<lambda>k. (k, member_value l k)) [''severity'', ''date'', ''eventId'', ''traceId'', ''kernelInstantiationId''] @
     [(''message'', short_message (member_value l ''message'')), (''extraOmitted'', js_true), (''truncated'', js_true)]"

definition serialize_log :: "log_store \<Rightarrow> js_heap \<Rightarrow> stored_log \<Rightarrow> string" where
  "serialize_log ls heap l =
     (let line = stringify_members (ls_stringifier ls) heap (sl_members l);
          shorter = stringify_members (ls_stringifier ls) heap (without_extra l) in
      if ls_maxEntrySize ls \<le> 0 \<or> int (length line) \<le> ls_maxEntrySize ls then line
      else if int (length shorter) \<le> ls_maxEntrySize ls then shorter
      else stringify_members (ls_stringifier ls) heap (essential_members l))"

text \<open>The entries of one partition that match, newest first, until the limit is reached.\<close>

definition collect_matching :: "(string \<Rightarrow> 'e option) \<Rightarrow> ('e \<Rightarrow> bool) \<Rightarrow> nat option \<Rightarrow> nat \<Rightarrow> 'e list on_line" where
  "collect_matching parse matches limit already es line = (case parse line of
       None \<Rightarrow> (es, True)
     | Some e \<Rightarrow> if \<not> matches e then (es, True)
         else (es @ [e], case limit of None \<Rightarrow> True | Some n \<Rightarrow> already + length (es @ [e]) < n))"

definition limit_reached :: "nat option \<Rightarrow> nat \<Rightarrow> bool" where
  "limit_reached limit n = (case limit of None \<Rightarrow> False | Some m \<Rightarrow> m \<le> n)"

fun read_generations :: "(string \<Rightarrow> string) \<Rightarrow> (string \<Rightarrow> 'e option) \<Rightarrow> ('e \<Rightarrow> bool) \<Rightarrow> nat option \<Rightarrow> nat \<Rightarrow> string option list \<Rightarrow> 'e list \<Rightarrow> 'e list" where
  "read_generations utf8 parse matches limit already [] es = es"
| "read_generations utf8 parse matches limit already (f # fs) es =
     (if limit_reached limit (already + length es) then es
      else read_generations utf8 parse matches limit already fs
        (forEachLineReverse utf8 (collect_matching parse matches limit already) f es))"

text \<open>The contents of the generations of a partition, the live file first.\<close>

definition generation_contents :: "(nat \<Rightarrow> store_file) \<Rightarrow> nat \<Rightarrow> partition \<Rightarrow> string option list" where
  "generation_contents f maxFiles p = map (\<lambda>g. read_file (f g) p) (rev (generation_files f maxFiles p))"

fun read_partitions :: "(string \<Rightarrow> string) \<Rightarrow> (string \<Rightarrow> 'e option) \<Rightarrow> ('e \<Rightarrow> bool) \<Rightarrow> nat option \<Rightarrow> nat \<Rightarrow> partition list \<Rightarrow> 'e list \<Rightarrow> 'e list" where
  "read_partitions utf8 parse matches limit maxFiles [] found = found"
| "read_partitions utf8 parse matches limit maxFiles (p # ps) found =
     (let found' = found @ rev (read_generations utf8 parse matches limit (length found)
        (generation_contents Logs_File maxFiles p) []) in
      if limit_reached limit (length found') then found'
      else read_partitions utf8 parse matches limit maxFiles ps found')"

definition log_read :: "(string \<Rightarrow> string) \<Rightarrow> (string \<Rightarrow> 'e option) \<Rightarrow> ('e \<Rightarrow> bool) \<Rightarrow> nat option \<Rightarrow> nat \<Rightarrow> store_disk \<Rightarrow> 'e list" where
  "log_read utf8 parse matches limit maxFiles disk = read_partitions utf8 parse matches limit maxFiles (newestFirst disk) []"

section \<open>Summaries of requests\<close>

text \<open>The summaries of a partition in write order, the newest alone when there is a limit.\<close>

fun summary_files :: "(string \<Rightarrow> string) \<Rightarrow> (string \<Rightarrow> 'e option) \<Rightarrow> nat option \<Rightarrow> string option list \<Rightarrow> 'e list \<Rightarrow> 'e list" where
  "summary_files utf8 parse limit [] acc = acc"
| "summary_files utf8 parse limit (f # fs) acc =
     (if limit_reached limit (length acc) then acc
      else summary_files utf8 parse limit fs
        (acc @ rev (jsonl_parse utf8 parse f (map_option (\<lambda>n. n - length acc) limit) True)))"

definition readSummaries :: "(string \<Rightarrow> string) \<Rightarrow> (string \<Rightarrow> 'e option) \<Rightarrow> nat \<Rightarrow> nat option \<Rightarrow> partition \<Rightarrow> 'e list" where
  "readSummaries utf8 parse maxFiles limit p =
     rev (summary_files utf8 parse limit (generation_contents Requests_File maxFiles p) [])"

fun collect_summaries :: "(string \<Rightarrow> string) \<Rightarrow> (string \<Rightarrow> 'e option) \<Rightarrow> nat \<Rightarrow> nat option \<Rightarrow> partition list \<Rightarrow> 'e list \<Rightarrow> 'e list" where
  "collect_summaries utf8 parse maxFiles limit [] acc = acc"
| "collect_summaries utf8 parse maxFiles limit (p # ps) acc =
     (let acc' = acc @ readSummaries utf8 parse maxFiles limit p in
      if limit_reached limit (length acc') then acc' else collect_summaries utf8 parse maxFiles limit ps acc')"

definition recentRequests :: "(string \<Rightarrow> string) \<Rightarrow> (string \<Rightarrow> 'e option) \<Rightarrow> ('e \<Rightarrow> int) \<Rightarrow> nat \<Rightarrow> nat option \<Rightarrow> store_disk \<Rightarrow> 'e list" where
  "recentRequests utf8 parse startedAt maxFiles limit disk =
     (let all = sort_desc startedAt (collect_summaries utf8 parse maxFiles limit (newestFirst disk) []) in
      case limit of None \<Rightarrow> all | Some n \<Rightarrow> take n all)"

end
