(* ===== verification/Jsonl_Properties.thy ===== *)
theory Jsonl_Properties
  imports Jsonl_Files
begin

text \<open>
  What rotation keeps and how large it lets a file become, as a refinement of a list of
  generations; what a failed rename does to it; and what a tailer emits.
\<close>

section \<open>Rotation on lists of lines\<close>

text \<open>The generations as lists of payloads, the live one first.\<close>

definition disk_holds :: "string list list \<Rightarrow> generations \<Rightarrow> bool" where
  "disk_holds L disk \<longleftrightarrow> (\<forall>g. disk g = (if g < length L then Some (concat (L ! g)) else None))"

definition kept_generations :: "rotating_writer \<Rightarrow> nat" where
  "kept_generations w = max (rw_maxFiles w) 1"

text \<open>What rotation means: a new live file, and the oldest generations dropped.\<close>

definition abs_append :: "rotating_writer \<Rightarrow> string \<Rightarrow> string list list \<Rightarrow> string list list" where
  "abs_append w p L = (case L of
       [] \<Rightarrow> [[p]]
     | G # Gs \<Rightarrow>
         if concat G \<noteq> [] \<and> rw_maxFileSize w < length (concat G) + length p then take (kept_generations w) ([p] # L)
         else (G @ [p]) # Gs)"

abbreviation all_work :: "fs_call \<Rightarrow> bool" where
  "all_work \<equiv> (\<lambda>_. False)"

lemma rename_works:
  "disk b = None \<Longrightarrow> a \<noteq> b \<Longrightarrow> rename_generation all_work a b disk = disk(b := disk a, a := None)"
  by (auto simp: rename_generation_def split: option.splits)

lemma shift_works:
  "disk (Suc m) = None \<Longrightarrow>
     shift_generations all_work m disk = (\<lambda>g. if g = 0 then disk 0 else if g = 1 then None else if g \<le> Suc m then disk (g - 1) else disk g)"
proof (induction m arbitrary: disk)
  case 0
  then show ?case by (auto simp: fun_eq_iff)
next
  case (Suc m)
  define disk1 where "disk1 = disk(Suc (Suc m) := disk (Suc m), Suc m := None)"
  have "shift_generations all_work (Suc m) disk = shift_generations all_work m disk1"
    using Suc.prems by (simp add: rename_works disk1_def)
  also have "\<dots> = (\<lambda>g. if g = 0 then disk1 0 else if g = 1 then None else if g \<le> Suc m then disk1 (g - 1) else disk1 g)"
    by (rule Suc.IH) (simp add: disk1_def)
  also have "\<dots> = (\<lambda>g. if g = 0 then disk 0 else if g = 1 then None else if g \<le> Suc (Suc m) then disk (g - 1) else disk g)"
    by (rule ext) (auto simp: disk1_def)
  finally show ?case .
qed

lemma rotate_works:
  assumes "disk_holds L disk" and "length L \<le> kept_generations w"
  shows "rotate_files all_work w disk = (\<lambda>g. if g = 0 then None else if g < kept_generations w then disk (g - 1) else None)"
proof (cases "rw_maxFiles w \<le> 1")
  case True
  then show ?thesis using assms
    by (auto simp: rotate_files_def remove_generation_def kept_generations_def disk_holds_def fun_eq_iff)
next
  case False
  then obtain m where m: "rw_maxFiles w = Suc (Suc m)" by (metis One_nat_def Suc_le_mono le0 not0_implies_Suc)
  then have k: "kept_generations w = Suc (Suc m)" by (simp add: kept_generations_def)
  show ?thesis using assms
    by (auto simp: rotate_files_def remove_generation_def m k shift_works rename_works disk_holds_def fun_eq_iff)
qed

lemma live_size_holds: "disk_holds L disk \<Longrightarrow> live_size disk = (case L of [] \<Rightarrow> 0 | G # _ \<Rightarrow> length (concat G))"
  by (cases L) (auto simp: disk_holds_def live_size_def dest: spec [of _ 0])

definition size_known :: "generations \<times> nat option \<Rightarrow> bool" where
  "size_known ds \<longleftrightarrow> (case snd ds of None \<Rightarrow> True | Some n \<Rightarrow> n = live_size (fst ds))"

lemma append_line_refines:
  assumes holds: "disk_holds L (fst ds)" and len: "length L \<le> kept_generations w" and known: "size_known ds"
  shows "disk_holds (abs_append w (line_payload l) L) (fst (fst (append_line all_work w l ds))) \<and>
    snd (fst (append_line all_work w l ds)) = Some (live_size (fst (fst (append_line all_work w l ds)))) \<and>
    length (abs_append w (line_payload l) L) \<le> kept_generations w"
proof -
  let ?p = "line_payload l" and ?disk = "fst ds"
  have size: "(case snd ds of Some n \<Rightarrow> n | None \<Rightarrow> live_size ?disk) = live_size ?disk"
    using known by (auto simp: size_known_def split: option.splits)
  have kept: "0 < kept_generations w" by (simp add: kept_generations_def)
  show ?thesis
  proof (cases "0 < live_size ?disk \<and> rw_maxFileSize w < live_size ?disk + length ?p")
    case True
    then obtain G Gs where L: "L = G # Gs" using holds by (cases L) (auto simp: live_size_holds)
    with True have abs: "abs_append w ?p L = take (kept_generations w) ([?p] # L)"
      using holds by (simp add: abs_append_def live_size_holds)
    have "fst (fst (append_line all_work w l ds)) =
        (\<lambda>g. if g = 0 then Some ?p else if g < kept_generations w then ?disk (g - 1) else None)"
      using True rotate_works [OF holds len] by (auto simp: append_line_def Let_def size fun_eq_iff)
    moreover from this have "disk_holds (abs_append w ?p L) (fst (fst (append_line all_work w l ds)))"
      using holds kept unfolding abs disk_holds_def
      by (auto simp: nth_Cons' less_Suc_eq_0_disj)
    ultimately show ?thesis using True kept abs
      by (simp add: append_line_def Let_def size live_size_def)
  next
    case False
    then show ?thesis using holds len kept
      by (cases L) (auto simp: append_line_def Let_def size abs_append_def live_size_holds disk_holds_def live_size_def
          kept_generations_def nth_Cons' split: option.splits)
  qed
qed

section \<open>What is kept\<close>

text \<open>
  The files that a list of payloads fills when none is ever dropped, the newest first: a payload
  that does not fit behind the others begins a file.
\<close>

definition pack_one :: "nat \<Rightarrow> string \<Rightarrow> string list list \<Rightarrow> string list list" where
  "pack_one limit p P = (case P of [] \<Rightarrow> [[p]]
     | G # Gs \<Rightarrow> if limit < length (concat G) + length p then [p] # P else (G @ [p]) # Gs)"

fun packing :: "nat \<Rightarrow> string list \<Rightarrow> string list list \<Rightarrow> string list list" where
  "packing limit [] P = P"
| "packing limit (p # ps) P = packing limit ps (pack_one limit p P)"

text \<open>
  Files are nonempty, within the limit unless they hold one line alone, and each was begun because
  its first line did not fit into the one before.
\<close>

definition packed :: "nat \<Rightarrow> string list list \<Rightarrow> bool" where
  "packed limit P \<longleftrightarrow>
     (\<forall>i<length P. P ! i \<noteq> [] \<and> [] \<notin> set (P ! i) \<and> (length (concat (P ! i)) \<le> limit \<or> length (P ! i) = 1)) \<and>
     (\<forall>i. Suc i < length P \<longrightarrow> limit < length (concat (P ! Suc i)) + length (hd (P ! i)))"

lemma packed_one: "packed limit P \<Longrightarrow> p \<noteq> [] \<Longrightarrow> packed limit (pack_one limit p P)"
proof (cases P)
  case (Cons G Gs)
  assume P: "packed limit P" and p: "p \<noteq> []"
  have G: "G \<noteq> []" "[] \<notin> set G" using P Cons by (auto simp: packed_def)
  show ?thesis
  proof (cases "limit < length (concat G) + length p")
    case True
    have "packed limit ([p] # P)"
      unfolding packed_def
    proof (intro conjI allI impI)
      fix i assume i: "i < length ([p] # P)"
      show "([p] # P) ! i \<noteq> []" "[] \<notin> set (([p] # P) ! i)"
        "length (concat (([p] # P) ! i)) \<le> limit \<or> length (([p] # P) ! i) = 1"
        using P p i by (cases i; auto simp: packed_def)+
    next
      fix i assume i: "Suc i < length ([p] # P)"
      show "limit < length (concat (([p] # P) ! Suc i)) + length (hd (([p] # P) ! i))"
        using P True i Cons by (cases i) (auto simp: packed_def)
    qed
    with True Cons show ?thesis by (simp add: pack_one_def)
  next
    case False
    have "packed limit ((G @ [p]) # Gs)"
      unfolding packed_def
    proof (intro conjI allI impI)
      fix i assume i: "i < length ((G @ [p]) # Gs)"
      show "((G @ [p]) # Gs) ! i \<noteq> []" "[] \<notin> set (((G @ [p]) # Gs) ! i)"
        "length (concat (((G @ [p]) # Gs) ! i)) \<le> limit \<or> length (((G @ [p]) # Gs) ! i) = 1"
        using P p G False i Cons by (cases i; auto simp: packed_def)+
    next
      fix i assume i: "Suc i < length ((G @ [p]) # Gs)"
      show "limit < length (concat (((G @ [p]) # Gs) ! Suc i)) + length (hd (((G @ [p]) # Gs) ! i))"
        using P G i Cons by (cases i) (auto simp: packed_def hd_append)
    qed
    with False Cons show ?thesis by (simp add: pack_one_def)
  qed
qed (simp add: packed_def pack_one_def)

lemma concat_pack_one: "concat (rev (pack_one limit p P)) = concat (rev P) @ [p]"
  by (cases P) (simp_all add: pack_one_def)

lemma packing_ok: "packed limit P \<Longrightarrow> [] \<notin> set ps \<Longrightarrow>
    packed limit (packing limit ps P) \<and> concat (rev (packing limit ps P)) = concat (rev P) @ ps"
  by (induction limit ps P rule: packing.induct) (auto simp: packed_one concat_pack_one)

lemma abs_append_pack:
  assumes "packed (rw_maxFileSize w) P"
  shows "abs_append w p (take (kept_generations w) P) = take (kept_generations w) (pack_one (rw_maxFileSize w) p P)"
proof -
  have "kept_generations w \<noteq> 0" by (simp add: kept_generations_def)
  then obtain k where k: "kept_generations w = Suc k" by (meson not0_implies_Suc)
  show ?thesis
  proof (cases P)
    case (Cons G Gs)
    then have "G \<noteq> []" "[] \<notin> set G" using assms by (auto simp: packed_def)
    then have "concat G \<noteq> []" by (metis concat.simps(2) append_is_Nil_conv list.exhaust list.set_intros(1))
    then show ?thesis using Cons k by (auto simp: abs_append_def pack_one_def take_Cons')
  qed (simp add: abs_append_def pack_one_def k)
qed

lemma payload_nonempty: "line_payload l \<noteq> []"
  by (auto simp: line_payload_def ends_with_def)

lemma no_empty_payload: "[] \<notin> set (map line_payload ls)"
proof
  assume "[] \<in> set (map line_payload ls)"
  then obtain l where "line_payload l = []" by (metis (no_types) imageE list.set_map)
  with payload_nonempty show False by blast
qed

lemma append_lines_refines:
  "packed (rw_maxFileSize w) P \<Longrightarrow> disk_holds (take (kept_generations w) P) (fst ds) \<Longrightarrow> size_known ds \<Longrightarrow>
     disk_holds (take (kept_generations w) (packing (rw_maxFileSize w) (map line_payload ls) P)) (fst (append_lines all_work w ls ds)) \<and>
     size_known (append_lines all_work w ls ds)"
proof (induction ls arbitrary: P ds)
  case (Cons l ls)
  have "disk_holds (take (kept_generations w) (pack_one (rw_maxFileSize w) (line_payload l) P)) (fst (fst (append_line all_work w l ds))) \<and>
      size_known (fst (append_line all_work w l ds))"
    using append_line_refines [OF Cons.prems(2) _ Cons.prems(3), where w = w and l = l] abs_append_pack [OF Cons.prems(1)]
    by (simp add: size_known_def)
  with Cons.IH [of "pack_one (rw_maxFileSize w) (line_payload l) P" "fst (append_line all_work w l ds)"]
    packed_one [OF Cons.prems(1) payload_nonempty] show ?case by simp
qed simp

lemma existing_holds:
  "disk_holds L disk \<Longrightarrow> length L \<le> max n 1 \<Longrightarrow> existing_files n disk = rev [0..<length L]"
proof -
  assume L: "disk_holds L disk" "length L \<le> max n 1"
  then have "[0..<max n 1] = [0..<length L] @ [length L..<max n 1]" by (metis le_add_diff_inverse upt_add_eq_append zero_le)
  with L(1) show "existing_files n disk = rev [0..<length L]"
    by (simp add: existing_files_def disk_holds_def filter_empty_conv filter_id_conv flip: rev_filter)
qed

lemma concat_map_concat: "concat (map concat xss) = concat (concat xss)"
  by (induction xss) simp_all

definition file_content :: "generations \<Rightarrow> nat \<Rightarrow> string" where
  "file_content disk g = (case disk g of None \<Rightarrow> [] | Some content \<Rightarrow> content)"

lemma contents_hold:
  assumes "disk_holds L disk"
  shows "map (file_content disk) (rev [0..<length L]) = map concat (rev L)"
proof -
  have "map (file_content disk) [0..<length L] = map concat L"
    using assms by (intro nth_equalityI) (simp_all add: disk_holds_def file_content_def)
  then show ?thesis by (simp add: rev_map [symmetric])
qed

lemma append_lines_knows: "snd ds \<noteq> None \<Longrightarrow> snd (append_lines fails w ls ds) \<noteq> None"
  by (induction ls arbitrary: ds) (simp_all add: append_line_def Let_def)

lemma append_lines_known: "ls \<noteq> [] \<Longrightarrow> snd (append_lines fails w ls ds) \<noteq> None"
  by (cases ls) (auto simp: append_lines_knows append_line_def Let_def)

text \<open>
  Claim C30. Start without files, append lines while no file operation fails, and lay the lines out in files
  as they come, beginning a file exactly when a line does not fit into the limit behind what the
  last one holds. Then the live file and the older generations on disk are, exactly, the newest of these files,
  as many as are configured (one at least): none of them is dropped, changed or out of order, and
  no other is left. Read oldest first they are the newest lines written, all of them while the files have
  not been more than configured. Every file is within the limit, but for one that holds a single
  line, and the size kept in memory is that of the live file.
\<close>

theorem rotation_keeps_the_newest_lines:
  assumes "append_lines (\<lambda>_. False) w ls (\<lambda>_. None, None) = (disk, known)" and "ls \<noteq> []"
  shows "\<exists>P. concat (rev P) = map line_payload ls \<and>
    (\<forall>i<length P. P ! i \<noteq> [] \<and> (length (concat (P ! i)) \<le> rw_maxFileSize w \<or> length (P ! i) = 1)) \<and>
    (\<forall>i. Suc i < length P \<longrightarrow> rw_maxFileSize w < length (concat (P ! Suc i)) + length (hd (P ! i))) \<and>
    (\<forall>g. disk g = (if g < max (rw_maxFiles w) 1 \<and> g < length P then Some (concat (P ! g)) else None)) \<and>
    concat (map (file_content disk) (existing_files (rw_maxFiles w) disk)) =
      concat (concat (rev (take (max (rw_maxFiles w) 1) P))) \<and>
    known = Some (live_size disk)"
proof -
  define P where "P = packing (rw_maxFileSize w) (map line_payload ls) []"
  have start: "packed (rw_maxFileSize w) []" "disk_holds (take (kept_generations w) []) (\<lambda>_. None)" "size_known (\<lambda>_. None, None)"
    by (simp_all add: packed_def disk_holds_def size_known_def)
  have L: "disk_holds (take (kept_generations w) P) disk" and sz: "size_known (disk, known)"
    using append_lines_refines [OF start(1), where ds = "(\<lambda>_. None, None)" and ls = ls] start assms(1) by (simp_all add: P_def)
  from packing_ok [OF start(1) no_empty_payload, of ls] have P: "packed (rw_maxFileSize w) P" "concat (rev P) = map line_payload ls"
    by (simp_all add: P_def)
  have "known = Some (live_size disk)"
    using sz append_lines_known [OF assms(2), of all_work w "(\<lambda>_. None, None)"] assms(1) by (auto simp: size_known_def)
  moreover have "disk g = (if g < max (rw_maxFiles w) 1 \<and> g < length P then Some (concat (P ! g)) else None)" for g
    using L by (auto simp: disk_holds_def kept_generations_def)
  moreover have "concat (map (file_content disk) (existing_files (rw_maxFiles w) disk)) =
      concat (concat (rev (take (max (rw_maxFiles w) 1) P)))"
    using L existing_holds [OF L, of "rw_maxFiles w"] contents_hold [OF L]
    by (simp add: kept_generations_def concat_map_concat)
  ultimately show ?thesis using P unfolding packed_def by blast
qed

lemma rotation_keeps_the_newest_lines_witness:
  "\<exists>P. concat (rev P) = [''ab'' @ [newline], ''cd'' @ [newline], ''ef'' @ [newline]] \<and>
     fst (append_lines (\<lambda>_. False) \<lparr>rw_maxFileSize = 4, rw_maxFiles = 2\<rparr> [''ab'', ''cd'', ''ef''] (\<lambda>_. None, None)) 1 =
       (if 1 < length P then Some (concat (P ! 1)) else None)"
proof -
  obtain disk known where run: "append_lines (\<lambda>_. False) \<lparr>rw_maxFileSize = 4, rw_maxFiles = 2\<rparr> [''ab'', ''cd'', ''ef''] (\<lambda>_. None, None) =
    (disk, known)" by force
  have lines: "map line_payload [''ab'', ''cd'', ''ef''] = [''ab'' @ [newline], ''cd'' @ [newline], ''ef'' @ [newline]]"
    by (simp add: line_payload_def ends_with_def newline_def)
  from rotation_keeps_the_newest_lines [OF run] obtain P where "concat (rev P) = map line_payload [''ab'', ''cd'', ''ef'']"
    and "disk 1 = (if 1 < length P then Some (concat (P ! 1)) else None)"
    by auto
  then show ?thesis unfolding run lines fst_conv by blast
qed

section \<open>A rename that fails\<close>

text \<open>
  When the live file cannot be renamed the writer still counts from zero: the file keeps
  what it held, and is larger than the limit by what is appended.
\<close>

theorem failed_rename_outgrows_the_limit:
  assumes "fails (Rename_File 0 1)" and "1 < rw_maxFiles w" and "disk 0 = Some content" and "content \<noteq> []"
    and "rw_maxFileSize w < length content + length (line_payload l)"
  shows "fst (fst (append_line fails w l (disk, Some (length content)))) 0 = Some (content @ line_payload l) \<and>
    snd (fst (append_line fails w l (disk, Some (length content)))) = Some (length (line_payload l))"
proof -
  have "shift_generations fails m d 0 = d 0" for m d
    by (induction m arbitrary: d) (auto simp: rename_generation_def split: option.splits)
  with assms(3) have live: "shift_generations fails m (remove_generation fails (rw_maxFiles w - 1) disk) 0 = Some content" for m
    using assms(2) by (simp add: remove_generation_def)
  with assms have "rotate_files fails w disk 0 = Some content"
    by (simp add: rotate_files_def rename_generation_def live)
  with assms show ?thesis by (simp add: append_line_def Let_def)
qed

lemma failed_rename_outgrows_the_limit_witness:
  "fst (fst (append_line (\<lambda>c. True) \<lparr>rw_maxFileSize = 4, rw_maxFiles = 2\<rparr> ''cd'' ((\<lambda>_. None)(0 := Some ''abc''), Some 3))) 0 =
     Some (''abc'' @ line_payload ''cd'')"
  using failed_rename_outgrows_the_limit [of "\<lambda>c. True" "\<lparr>rw_maxFileSize = 4, rw_maxFiles = 2\<rparr>" "(\<lambda>_. None)(0 := Some ''abc'')" "''abc''" "''cd''"]
  by (simp add: line_payload_def ends_with_def numeral_3_eq_3)

section \<open>Following\<close>

text \<open>The drains of a file that grows, one content after the other.\<close>

fun drains :: "(string \<Rightarrow> string) \<Rightarrow> string list \<Rightarrow> tailer \<Rightarrow> tailer \<times> string list" where
  "drains utf8 [] t = (t, [])"
| "drains utf8 (b # bs) t = (let (t1, out1) = drain utf8 (Some b) t; (t2, out2) = drains utf8 bs t1 in (t2, out1 @ out2))"

fun grows :: "string \<Rightarrow> string list \<Rightarrow> bool" where
  "grows b [] \<longleftrightarrow> True"
| "grows b (c # cs) \<longleftrightarrow> take (length b) c = b \<and> grows c cs"

definition following :: "nat \<Rightarrow> string \<Rightarrow> tailer \<Rightarrow> bool" where
  "following start b t \<longleftrightarrow> start \<le> length b \<and> tl_offset t = length b \<and> tl_buffer t = last (pieces (drop start b))"

definition new_lines :: "string \<Rightarrow> string list" where
  "new_lines text' = filter (\<lambda>l. l \<noteq> []) (butlast (pieces text'))"

lemma drain_grown:
  assumes "following start b t" and "take (length b) c = b"
  shows "following start c (fst (drain (\<lambda>s. s) (Some c) t)) \<and>
    new_lines (drop start b) @ snd (drain (\<lambda>s. s) (Some c) t) = new_lines (drop start c)"
proof -
  obtain d where c: "c = b @ d" using assms(2) by (metis append_take_drop_id)
  have start: "start \<le> length b" and t: "tl_offset t = length b" "tl_buffer t = last (pieces (drop start b))"
    using assms(1) by (auto simp: following_def)
  have nonl: "newline \<notin> set (last (pieces (drop start b)))" by (rule pieces_no_newline [of _ "drop start b"]) simp
  have "pieces (last (pieces (drop start b)) @ d) = (last (pieces (drop start b)) @ hd (pieces d)) # tl (pieces d)"
    using pieces_append [of "last (pieces (drop start b))" d] pieces_last [OF nonl] by simp
  moreover have "pieces (drop start c) = butlast (pieces (drop start b)) @ (last (pieces (drop start b)) @ hd (pieces d)) # tl (pieces d)"
    using start pieces_append [of "drop start b" d] by (simp add: c)
  ultimately show ?thesis using t start
    by (cases "d = []") (auto simp: drain_def Let_def c following_def new_lines_def butlast_append split: if_splits)
qed

text \<open>
  Of a file that only grows and is decoded as it is, the tailer emits exactly the lines
  completed since it began, in order, however the growth is split.
\<close>

theorem tailer_emits_complete_lines:
  assumes "grows b cs"
  shows "snd (drains (\<lambda>s. s) cs (follow_from (Some b))) = new_lines (drop (length b) (last (b # cs)))"
proof -
  have run: "new_lines (drop start b) @ snd (drains (\<lambda>s. s) cs t) = new_lines (drop start (last (b # cs)))"
    if "following start b t" "grows b cs" for start t b
    using that
  proof (induction cs arbitrary: b t)
    case (Cons c cs)
    with drain_grown [of start b t c] have "following start c (fst (drain (\<lambda>s. s) (Some c) t))"
      and out: "new_lines (drop start b) @ snd (drain (\<lambda>s. s) (Some c) t) = new_lines (drop start c)" by auto
    with Cons.IH [of c "fst (drain (\<lambda>s. s) (Some c) t)"] Cons.prems show ?case
      by (auto simp: case_prod_beta simp flip: append_assoc)
  qed simp
  have "following (length b) b (follow_from (Some b))"
    by (simp add: following_def follow_from_def pieces_last)
  from run [OF this assms] show ?thesis by (simp add: new_lines_def pieces_last)
qed

lemma tailer_emits_complete_lines_witness:
  "snd (drains (\<lambda>s. s) [''ab'' @ [newline], ''ab'' @ [newline] @ ''c''] (follow_from (Some ''a''))) = [''b'']"
proof -
  have "snd (drains (\<lambda>s. s) [''ab'' @ [newline], ''ab'' @ [newline] @ ''c''] (follow_from (Some ''a''))) =
      new_lines (drop (length ''a'') (last [''a'', ''ab'' @ [newline], ''ab'' @ [newline] @ ''c'']))"
    by (rule tailer_emits_complete_lines) simp
  also have "\<dots> = [''b'']"
    using pieces_first [of "''b''" "''c''"] by (simp add: new_lines_def newline_def pieces_last)
  finally show ?thesis .
qed

text \<open>After a rotation the new file is shorter: what it holds already is passed over.\<close>

theorem rollover_loses_lines:
  assumes "length b \<le> tl_offset t"
  shows "drains utf8 (b # cs) t = drains utf8 cs (t\<lparr>tl_offset := length b\<rparr>)"
  using assms by (simp add: drain_def)

lemma rollover_loses_lines_witness:
  "snd (drains (\<lambda>s. s) [''b'' @ [newline]] \<lparr>tl_offset = 9, tl_buffer = []\<rparr>) = []"
  by (subst rollover_loses_lines) simp_all

end
