(* ===== verification/Observability_Properties.thy ===== *)
theory Observability_Properties
  imports Observability_Store Jsonl_Properties
begin

text \<open>
  What the observability store guarantees: a sweep spares the partitions in use and their live
  files, and meets its ceiling or has nothing left to reclaim; a limited read returns the newest
  entries; and the cap on trace files.
\<close>

section \<open>Sweeps\<close>

definition wf_disk :: "store_disk \<Rightarrow> bool" where
  "wf_disk disk \<longleftrightarrow> distinct (map pa_name disk) \<and> (\<forall>p \<in> set disk. distinct (map fst (pa_files p)))"

definition reclaimable_kind :: "store_file \<Rightarrow> bool" where
  "reclaimable_kind f = (case f of Logs_File g \<Rightarrow> 0 < g | Requests_File g \<Rightarrow> 0 < g | Trace_File n \<Rightarrow> True | _ \<Rightarrow> False)"

lemma reclaimable_names_kind: "f \<in> set (reclaimable_names bu p) \<Longrightarrow> reclaimable_kind f"
  by (auto simp: reclaimable_names_def reclaimable_kind_def is_trace_json_def split: store_file.splits)

lemma reclaimable_names_exist: "f \<in> set (reclaimable_names bu p) \<Longrightarrow> map_of (pa_files p) f \<noteq> None"
  by (auto simp: reclaimable_names_def generation_files_def existing_files_def read_file_def map_of_eq_None_iff)

lemma reclaimableFiles_member:
  "(n, f, k, mt) \<in> set (reclaimableFiles bu p) \<longleftrightarrow> n = pa_name p \<and> f \<in> set (reclaimable_names bu p) \<and>
     (\<exists>c. map_of (pa_files p) f = Some (c, mt) \<and> k = length c)"
  by (auto simp: reclaimableFiles_def List.map_filter_def image_iff split: option.splits) force+

lemma reclaimable_candidate: "c \<in> set (reclaimableFiles bu p) \<Longrightarrow> reclaimable_kind (fst (snd c))"
  by (cases c) (auto simp: reclaimableFiles_member dest: reclaimable_names_kind)

subsection \<open>What is spared\<close>

text \<open>A partition is spared when one of its name remains, with all files that may not be reclaimed.\<close>

definition spared :: "partition \<Rightarrow> store_disk \<Rightarrow> bool" where
  "spared p disk \<longleftrightarrow> (\<exists>q \<in> set disk. pa_name q = pa_name p \<and>
     (\<forall>f \<in> set (pa_files p). \<not> reclaimable_kind (fst f) \<longrightarrow> f \<in> set (pa_files q)))"

lemma spared_self: "p \<in> set disk \<Longrightarrow> spared p disk"
  by (auto simp: spared_def)

lemma spared_remove_partition: "spared p disk \<Longrightarrow> pa_name p \<noteq> n \<Longrightarrow> spared p (remove_partition env n disk)"
  by (auto simp: spared_def remove_partition_def)

lemma spared_remove_file:
  assumes "spared p disk" and "reclaimable_kind f"
  shows "spared p (remove_file env n f disk)"
proof -
  obtain q where q: "q \<in> set disk" "pa_name q = pa_name p"
    "\<And>g. g \<in> set (pa_files p) \<Longrightarrow> \<not> reclaimable_kind (fst g) \<Longrightarrow> g \<in> set (pa_files q)"
    using assms(1) by (auto simp: spared_def)
  define q' where "q' = (if se_stuck env n (Some f) \<or> pa_name q \<noteq> n then q
    else q\<lparr>pa_files := filter (\<lambda>g. fst g \<noteq> f) (pa_files q)\<rparr>)"
  have "q' \<in> set (remove_file env n f disk)" using q(1) by (auto simp: q'_def remove_file_def update_partition_def)
  moreover have "pa_name q' = pa_name p" using q(2) by (simp add: q'_def)
  moreover have "g \<in> set (pa_files q')" if "g \<in> set (pa_files p)" "\<not> reclaimable_kind (fst g)" for g
    using q(3) [OF that] that(2) assms(2) by (auto simp: q'_def)
  ultimately show ?thesis by (auto simp: spared_def)
qed

lemma expire_spares:
  "spared q disk \<Longrightarrow> (\<And>p. p \<in> set ps \<Longrightarrow> pa_name p = pa_name q \<Longrightarrow> isLive env p) \<Longrightarrow>
     spared q (snd (expire_partitions env bu i ps disk))"
proof (induction ps arbitrary: i disk)
  case (Cons p ps)
  show ?case
  proof (cases "past_limits env bu i p")
    case True
    with Cons.prems have "spared q (remove_partition env (pa_name p) disk)"
      by (intro spared_remove_partition) (auto simp: past_limits_def)
    with Cons.IH Cons.prems(2) True show ?thesis by simp
  qed (use Cons in \<open>simp add: case_prod_beta\<close>)
qed simp

lemma expire_survivors: "set (fst (expire_partitions env bu i ps disk)) \<subseteq> set ps"
  by (induction ps arbitrary: i disk) (auto simp: case_prod_beta)

lemma drop_abandoned_spares:
  "spared q disk \<Longrightarrow> (\<And>p. p \<in> set ps \<Longrightarrow> pa_name p = pa_name q \<Longrightarrow> isLive env p) \<Longrightarrow>
     spared q (snd (snd (drop_abandoned env bu ps amount disk)))"
proof (induction ps arbitrary: amount disk)
  case (Cons p ps)
  show ?case
  proof (cases "amount \<le> bu_maxStoreSize bu \<or> isLive env p")
    case False
    with Cons.prems have "spared q (remove_partition env (pa_name p) disk)"
      by (intro spared_remove_partition) auto
    with Cons.IH Cons.prems(2) False show ?thesis by simp
  qed (use Cons in \<open>auto simp: case_prod_beta Let_def\<close>)
qed simp

lemma drop_abandoned_kept: "set (fst (drop_abandoned env bu ps amount disk)) \<subseteq> set ps"
  by (induction ps arbitrary: amount disk) (auto simp: case_prod_beta Let_def)

lemma trim_spares:
  "spared q disk \<Longrightarrow> (\<And>c. c \<in> set cs \<Longrightarrow> reclaimable_kind (fst (snd c))) \<Longrightarrow>
     spared q (fst (trim_candidates env bu cs amount disk))"
proof (induction cs arbitrary: amount disk)
  case (Cons c cs)
  obtain n f k mt where c: "c = (n, f, k, mt)" by (cases c)
  with Cons.prems(2) [of c] have "reclaimable_kind f" by simp
  then have "spared q (remove_file env n f disk)" by (rule spared_remove_file [OF Cons.prems(1)])
  with Cons c show ?case by (simp add: case_prod_beta Let_def)
qed simp

text \<open>
  Claim C31. A sweep never removes a partition that belongs to the process itself or whose process file
  names a process that this one may signal, nor its live log, its live index, its process file or
  any other file that is neither a rotated generation nor a trace. A running process of another user
  cannot be signalled and is not covered: it counts as gone.
\<close>

theorem sweep_spares_live_partitions:
  assumes "wf_disk (bs_disk st)" and "q \<in> set (bs_disk st)"
    and "pa_name q = se_current env \<or>
      (\<exists>pid. Option.bind (read_file Pid_File q) parse_pid = Some pid \<and> se_kill env pid = Signalled)"
  shows "spared q (bs_disk (enforce env bu st))"
proof -
  have "isLive env q" using assms(3) by (auto simp: isLive_def)
  have live: "isLive env p" if "p \<in> set (bs_disk st)" "pa_name p = pa_name q" for p
    using that assms(1,2) \<open>isLive env q\<close> distinct_map_inj by (metis wf_disk_def)
  define ex where "ex = dropExpiredPartitions env bu (bs_disk st)"
  define ab where "ab = dropAbandonedPartitions env bu (fst ex) (int (sum_list (map partition_size (fst ex)))) (snd ex)"
  define tr where "tr = trimFiles env bu (fst ab) (fst (snd ab)) (snd (snd ab))"
  have ex: "spared q (snd ex)" and sub: "set (fst ex) \<subseteq> set (bs_disk st)"
    using expire_spares [OF spared_self [OF assms(2)], of "newestFirst (bs_disk st)" env bu 0] live
      expire_survivors [of env bu 0 "newestFirst (bs_disk st)" "bs_disk st"]
    by (auto simp: ex_def dropExpiredPartitions_def newestFirst_def)
  then have ab: "spared q (snd (snd ab))"
    using drop_abandoned_spares [OF ex, of "rev (fst ex)" env bu] live
    by (auto simp: ab_def dropAbandonedPartitions_def case_prod_beta)
  have "reclaimable_kind (fst (snd c))" if "c \<in> set (concat (map (reclaimableFiles bu) ps))" for c ps
    using that by (simp del: split_paired_All split_paired_Ex) (blast dest: reclaimable_candidate)
  then have "spared q (fst tr)" using ab by (auto simp: tr_def trimFiles_def intro!: trim_spares)
  with ex ab show ?thesis by (simp add: enforce_def Let_def case_prod_beta flip: ex_def ab_def tr_def)
qed

text \<open>
  The probe of a running process of another user throws, and its partition is then not live: a
  sweep may remove it.
\<close>

lemma foreign_process_counts_as_gone:
  assumes "pa_name q \<noteq> se_current env" and "Option.bind (read_file Pid_File q) parse_pid = Some pid"
    and "se_kill env pid = Not_Permitted"
  shows "\<not> isLive env q"
  using assms by (simp add: isLive_def)

subsection \<open>How much remains\<close>

definition store_size :: "store_disk \<Rightarrow> nat" where
  "store_size disk = sum_list (map partition_size disk)"

definition nothing_stuck :: "store_env \<Rightarrow> bool" where
  "nothing_stuck env \<longleftrightarrow> (\<forall>n f. \<not> se_stuck env n f)"

lemma store_size_mset: "mset d1 = mset d2 \<Longrightarrow> store_size d1 = store_size d2"
  unfolding store_size_def by (metis mset_map sum_mset_sum_list)

lemma remove_partition_mset:
  assumes "nothing_stuck env" and "distinct (map pa_name disk)" and "p \<in> set disk"
  shows "mset disk = add_mset p (mset (remove_partition env (pa_name p) disk))"
proof -
  have "filter (\<lambda>q. pa_name q \<noteq> pa_name p) ps = remove1 p ps" if "distinct (map pa_name ps)" "p \<in> set ps" for ps
    using that
  proof (induction ps)
    case (Cons q ps)
    show ?case
    proof (cases "q = p")
      case True
      with Cons.prems have "filter (\<lambda>q. pa_name q \<noteq> pa_name p) ps = ps" by (intro filter_True) (auto simp: image_iff)
      with True show ?thesis by simp
    qed (use Cons in \<open>auto simp: image_iff\<close>)
  qed simp
  with assms(2,3) have "filter (\<lambda>q. pa_name q \<noteq> pa_name p) disk = remove1 p disk" by blast
  then show ?thesis using assms(1,3) by (simp add: remove_partition_def nothing_stuck_def)
qed

lemma wf_remove_partition: "wf_disk disk \<Longrightarrow> wf_disk (remove_partition env n disk)"
  by (auto simp: wf_disk_def remove_partition_def distinct_map_filter)

lemma in_remove_partition:
  assumes "mset disk = add_mset p (mset ps) + R" and "mset disk = add_mset p (mset disk')"
  shows "mset disk' = mset ps + R"
  using assms by simp

lemma expire_exact:
  "nothing_stuck env \<Longrightarrow> wf_disk disk \<Longrightarrow> mset disk = mset ps + R \<Longrightarrow>
     wf_disk (snd (expire_partitions env bu i ps disk)) \<and>
     mset (snd (expire_partitions env bu i ps disk)) = mset (fst (expire_partitions env bu i ps disk)) + R"
proof (induction ps arbitrary: i disk R)
  case (Cons p ps)
  have p: "p \<in> set disk" using Cons.prems(3) by (metis mset.simps(2) set_mset_mset union_iff union_single_eq_member add_mset_add_single)
  show ?case
  proof (cases "past_limits env bu i p")
    case True
    let ?disk = "remove_partition env (pa_name p) disk"
    have "mset ?disk = mset ps + R"
      using remove_partition_mset [OF Cons.prems(1) _ p] Cons.prems(2,3) by (simp add: wf_disk_def)
    with Cons.IH [OF Cons.prems(1) wf_remove_partition [OF Cons.prems(2)]] True show ?thesis by simp
  next
    case False
    have "mset disk = mset ps + add_mset p R" using Cons.prems(3) by simp
    with Cons.IH [OF Cons.prems(1,2), of "add_mset p R" "Suc i"] False show ?thesis by (simp add: case_prod_beta)
  qed
qed simp

lemma drop_abandoned_exact:
  "nothing_stuck env \<Longrightarrow> wf_disk disk \<Longrightarrow> mset disk = mset ps + R \<Longrightarrow> amount = int (store_size disk) \<Longrightarrow>
     (case drop_abandoned env bu ps amount disk of (kept, t, d) \<Rightarrow>
       wf_disk d \<and> mset d = mset kept + R \<and> t = int (store_size d) \<and>
       (t \<le> bu_maxStoreSize bu \<or> (\<forall>p \<in> set kept. isLive env p)))"
proof (induction ps arbitrary: amount disk R)
  case (Cons p ps)
  have p: "p \<in> set disk" using Cons.prems(3) by (metis mset.simps(2) set_mset_mset union_iff union_single_eq_member add_mset_add_single)
  consider "amount \<le> bu_maxStoreSize bu" | "\<not> amount \<le> bu_maxStoreSize bu" "isLive env p"
    | "\<not> amount \<le> bu_maxStoreSize bu" "\<not> isLive env p" by blast
  then show ?case
  proof cases
    case 2
    have "mset disk = mset ps + add_mset p R" using Cons.prems(3) by simp
    with Cons.IH [OF Cons.prems(1,2) _ Cons.prems(4), of "add_mset p R"] 2 show ?thesis
      by (auto simp: case_prod_beta Let_def)
  next
    case 3
    let ?disk = "remove_partition env (pa_name p) disk"
    have m: "mset disk = add_mset p (mset ?disk)"
      using remove_partition_mset [OF Cons.prems(1) _ p] Cons.prems(2) by (simp add: wf_disk_def)
    then have "mset ?disk = mset ps + R" using Cons.prems(3) by simp
    moreover have "store_size disk = partition_size p + store_size ?disk"
      using store_size_mset [of disk "p # ?disk"] m by (simp add: store_size_def)
    ultimately show ?thesis
      using Cons.IH [OF Cons.prems(1) wf_remove_partition [OF Cons.prems(2)], of env "pa_name p" R "amount - int (partition_size p)"]
        3 Cons.prems(4) by simp
  qed (use Cons.prems in auto)
qed simp

lemma size_filter_other:
  "map_of fs f = Some (c, mt) \<Longrightarrow> distinct (map fst fs) \<Longrightarrow>
     sum_list (map file_size fs) = length c + sum_list (map file_size (filter (\<lambda>g. fst g \<noteq> f) fs))"
proof (induction fs)
  case (Cons g fs)
  show ?case
  proof (cases "fst g = f")
    case True
    with Cons.prems have "filter (\<lambda>g. fst g \<noteq> f) fs = fs" by (intro filter_True) (auto simp: image_iff)
    with True Cons.prems show ?thesis by (auto simp: file_size_def)
  qed (use Cons in \<open>auto split: if_splits\<close>)
qed simp

lemma store_size_update:
  "p \<in> set disk \<Longrightarrow> distinct (map pa_name disk) \<Longrightarrow>
     store_size disk + partition_size (f p) = store_size (update_partition (pa_name p) f disk) + partition_size p"
proof (induction disk)
  case (Cons q disk)
  show ?case
  proof (cases "pa_name q = pa_name p")
    case True
    with Cons.prems have "q = p" and "pa_name p \<notin> pa_name ` set disk" by (auto simp: image_iff)
    then have "update_partition (pa_name p) f disk = disk"
      unfolding update_partition_def by (intro map_idI) (auto simp: image_iff)
    with \<open>q = p\<close> show ?thesis by (simp add: store_size_def update_partition_def)
  next
    case False
    with Cons have "store_size disk + partition_size (f p) = store_size (update_partition (pa_name p) f disk) + partition_size p" by auto
    with False show ?thesis by (simp add: store_size_def update_partition_def)
  qed
qed simp

text \<open>A partition with some of its reclaimable files gone.\<close>

definition reduced :: "partition \<Rightarrow> partition \<Rightarrow> bool" where
  "reduced p q \<longleftrightarrow> pa_name q = pa_name p \<and> (\<forall>f. map_of (pa_files q) f \<noteq> None \<longrightarrow> map_of (pa_files q) f = map_of (pa_files p) f) \<and>
     (\<forall>f. \<not> reclaimable_kind f \<longrightarrow> map_of (pa_files q) f = map_of (pa_files p) f)"

definition reduces :: "store_disk \<Rightarrow> store_disk \<Rightarrow> bool" where
  "reduces disk d \<longleftrightarrow> (\<forall>q \<in> set d. \<exists>p \<in> set disk. reduced p q)"

lemma reduces_refl: "reduces disk disk"
  by (auto simp: reduces_def reduced_def)

lemma reduces_trans: "reduces d1 d2 \<Longrightarrow> reduces d2 d3 \<Longrightarrow> reduces d1 d3"
  unfolding reduces_def reduced_def by metis

lemma map_of_without: "map_of (filter (\<lambda>g. fst g \<noteq> f) fs) h = (if h = f then None else map_of fs h)"
  by (induction fs) auto

definition without_file :: "store_file \<Rightarrow> partition \<Rightarrow> partition" where
  "without_file f p = p\<lparr>pa_files := filter (\<lambda>g. fst g \<noteq> f) (pa_files p)\<rparr>"

lemma remove_file_works: "nothing_stuck env \<Longrightarrow> remove_file env n f disk = update_partition n (without_file f) disk"
  by (simp add: remove_file_def nothing_stuck_def without_file_def [abs_def])

lemma remove_file_facts:
  assumes "nothing_stuck env" and "reclaimable_kind f" and "wf_disk disk"
  shows "reduces disk (remove_file env n f disk)" and "wf_disk (remove_file env n f disk)"
    and "q \<in> set (remove_file env n f disk) \<Longrightarrow> pa_name q = n \<Longrightarrow> map_of (pa_files q) f = None"
proof -
  show "reduces disk (remove_file env n f disk)"
    using assms(2) by (auto simp: remove_file_works [OF assms(1)] reduces_def update_partition_def reduced_def without_file_def map_of_without)
  have names: "map pa_name (update_partition n (without_file f) disk) = map pa_name disk"
    by (simp add: update_partition_def without_file_def comp_def if_distrib cong: if_cong)
  have "distinct (map fst (pa_files q))" if q: "q \<in> set (update_partition n (without_file f) disk)" for q
  proof -
    obtain p where p: "p \<in> set disk" "q = (if pa_name p = n then without_file f p else p)"
      using q unfolding update_partition_def by auto
    then have "distinct (map fst (pa_files p))" using assms(3) by (simp add: wf_disk_def)
    with p(2) show ?thesis by (simp add: without_file_def distinct_map_filter)
  qed
  then show "wf_disk (remove_file env n f disk)"
    using assms(3) by (simp add: wf_disk_def remove_file_works [OF assms(1)] names)
  show "map_of (pa_files q) f = None" if q: "q \<in> set (remove_file env n f disk)" and n: "pa_name q = n"
  proof -
    obtain p where p: "p \<in> set disk" "q = (if pa_name p = n then without_file f p else p)"
      using q unfolding remove_file_works [OF assms(1)] update_partition_def by auto
    from n p(2) have "pa_name p = n" by (cases "pa_name p = n") (simp_all add: without_file_def)
    with p(2) show ?thesis by (simp add: without_file_def map_of_without)
  qed
qed

lemma remove_file_size:
  assumes "nothing_stuck env" and "wf_disk disk" and "p \<in> set disk" and "map_of (pa_files p) f = Some (c, mt)"
  shows "store_size disk = length c + store_size (remove_file env (pa_name p) f disk)"
proof -
  have "partition_size p = length c + partition_size (without_file f p)"
    using assms size_filter_other [of "pa_files p" f c mt] by (simp add: partition_size_def without_file_def wf_disk_def)
  then show ?thesis
    using store_size_update [OF assms(3), of "without_file f"] assms(2) by (simp add: remove_file_works [OF assms(1)] wf_disk_def)
qed

definition candidate_key :: "string \<times> store_file \<times> nat \<times> int \<Rightarrow> string \<times> store_file" where
  "candidate_key c = (fst c, fst (snd c))"

definition candidate_of :: "store_disk \<Rightarrow> string \<times> store_file \<times> nat \<times> int \<Rightarrow> bool" where
  "candidate_of disk c \<longleftrightarrow> reclaimable_kind (fst (snd c)) \<and>
     (\<exists>p \<in> set disk. \<exists>content mt. pa_name p = fst c \<and> map_of (pa_files p) (fst (snd c)) = Some (content, mt) \<and> fst (snd (snd c)) = length content)"

lemma candidate_after_removal:
  assumes "nothing_stuck env" and "candidate_of disk c" and "candidate_key c \<noteq> (n, f)"
  shows "candidate_of (remove_file env n f disk) c"
proof -
  obtain p content mt where p: "p \<in> set disk" "pa_name p = fst c" "map_of (pa_files p) (fst (snd c)) = Some (content, mt)"
      "fst (snd (snd c)) = length content" and "reclaimable_kind (fst (snd c))"
    using assms(2) by (auto simp: candidate_of_def)
  define p' where "p' = (if pa_name p = n then without_file f p else p)"
  have "p' \<in> set (remove_file env n f disk)" using p(1) by (auto simp: remove_file_works [OF assms(1)] update_partition_def p'_def)
  moreover have "pa_name p' = fst c" and "map_of (pa_files p') (fst (snd c)) = Some (content, mt)"
    using p assms(3) by (auto simp: p'_def without_file_def map_of_without candidate_key_def)
  ultimately show ?thesis using p(4) \<open>reclaimable_kind (fst (snd c))\<close> by (auto simp: candidate_of_def)
qed

lemma trim_exact:
  "nothing_stuck env \<Longrightarrow> wf_disk disk \<Longrightarrow> amount = int (store_size disk) \<Longrightarrow> distinct (map candidate_key cs) \<Longrightarrow>
     (\<And>c. c \<in> set cs \<Longrightarrow> candidate_of disk c) \<Longrightarrow>
     reduces disk (fst (trim_candidates env bu cs amount disk)) \<and>
     (int (store_size (fst (trim_candidates env bu cs amount disk))) \<le> bu_maxStoreSize bu \<or>
       (\<forall>c \<in> set cs. \<forall>q \<in> set (fst (trim_candidates env bu cs amount disk)).
          pa_name q = fst c \<longrightarrow> map_of (pa_files q) (fst (snd c)) = None))"
proof (induction cs arbitrary: amount disk)
  case Nil
  then show ?case by (simp add: reduces_refl)
next
  case (Cons c cs)
  obtain n f k mt where c: "c = (n, f, k, mt)" by (cases c)
  show ?case
  proof (cases "amount \<le> bu_maxStoreSize bu")
    case False
    let ?disk = "remove_file env n f disk"
    from Cons.prems(5) [of c] c obtain p content mt' where p: "p \<in> set disk" "pa_name p = n"
        "map_of (pa_files p) f = Some (content, mt')" "k = length content" and kind: "reclaimable_kind f"
      by (auto simp: candidate_of_def)
    note facts = remove_file_facts [OF Cons.prems(1) kind Cons.prems(2), where n = n]
    have "amount - int k = int (store_size ?disk)"
      using remove_file_size [OF Cons.prems(1,2) p(1,3)] p(2,4) Cons.prems(3) by simp
    moreover have "candidate_of ?disk c'" if "c' \<in> set cs" for c'
    proof (rule candidate_after_removal [OF Cons.prems(1)])
      show "candidate_of disk c'" using Cons.prems(5) that by simp
      show "candidate_key c' \<noteq> (n, f)" using Cons.prems(4) that c by (force simp: candidate_key_def)
    qed
    moreover define d where "d = fst (trim_candidates env bu cs (amount - int k) ?disk)"
    ultimately have red: "reduces ?disk d"
      and IH: "int (store_size d) \<le> bu_maxStoreSize bu \<or>
         (\<forall>c \<in> set cs. \<forall>q \<in> set d. pa_name q = fst c \<longrightarrow> map_of (pa_files q) (fst (snd c)) = None)"
      using Cons.IH [OF Cons.prems(1) facts(2), of "amount - int k"] Cons.prems(4) by auto
    have run: "fst (trim_candidates env bu (c # cs) amount disk) = d"
      using False c Cons.prems(1) by (simp add: case_prod_beta Let_def nothing_stuck_def d_def)
    have gone: "map_of (pa_files q) f = None" if q: "q \<in> set d" "pa_name q = n" for q
    proof -
      obtain p where "p \<in> set ?disk" and pq: "reduced p q" using q(1) red unfolding reduces_def by blast
      moreover from this q(2) have "map_of (pa_files p) f = None" by (intro facts(3)) (simp_all add: reduced_def)
      ultimately show ?thesis unfolding reduced_def by metis
    qed
    show ?thesis unfolding run
    proof (intro conjI)
      show "reduces disk d" by (rule reduces_trans [OF facts(1) red])
      show "int (store_size d) \<le> bu_maxStoreSize bu \<or>
          (\<forall>c \<in> set (c # cs). \<forall>q \<in> set d. pa_name q = fst c \<longrightarrow> map_of (pa_files q) (fst (snd c)) = None)"
        using IH gone by (simp add: c)
    qed
  qed (use Cons.prems c in \<open>simp add: reduces_refl\<close>)
qed

subsection \<open>The ceiling\<close>

definition eligible :: "budget \<Rightarrow> store_file \<Rightarrow> bool" where
  "eligible bu f \<longleftrightarrow> (case f of Logs_File g \<Rightarrow> 0 < g \<and> g < max (bu_maxLogFiles bu) 1
     | Requests_File g \<Rightarrow> 0 < g \<and> g < max (bu_maxLogFiles bu) 1 | _ \<Rightarrow> is_trace_json f)"

lemma reclaimable_names_iff: "f \<in> set (reclaimable_names bu p) \<longleftrightarrow> map_of (pa_files p) f \<noteq> None \<and> eligible bu f"
  by (cases f) (auto simp: reclaimable_names_def eligible_def generation_files_def existing_files_def read_file_def
      is_trace_json_def map_of_eq_None_iff)

lemma reclaimable_names_distinct: "distinct (map fst (pa_files p)) \<Longrightarrow> distinct (reclaimable_names bu p)"
  by (auto simp: reclaimable_names_def generation_files_def existing_files_def distinct_map inj_on_def is_trace_json_def)

lemma reclaimable_keys: "map candidate_key (reclaimableFiles bu p) = map (Pair (pa_name p)) (reclaimable_names bu p)"
proof -
  have "map candidate_key (List.map_filter (\<lambda>f. case map_of (pa_files p) f of None \<Rightarrow> None
       | Some (content, mtime) \<Rightarrow> Some (pa_name p, f, length content, mtime)) fs) = map (Pair (pa_name p)) fs"
    if "\<And>f. f \<in> set fs \<Longrightarrow> map_of (pa_files p) f \<noteq> None" for fs
    using that
  proof (induction fs)
    case (Cons f fs)
    then obtain c mt where "map_of (pa_files p) f = Some (c, mt)" by fastforce
    with Cons show ?case by (simp add: List.map_filter_simps candidate_key_def)
  qed (simp add: List.map_filter_simps)
  from this [OF reclaimable_names_exist] show ?thesis by (simp add: reclaimableFiles_def)
qed

lemma candidate_keys_distinct:
  "distinct (map pa_name ps) \<Longrightarrow> (\<And>p. p \<in> set ps \<Longrightarrow> distinct (map fst (pa_files p))) \<Longrightarrow>
     distinct (map candidate_key (concat (map (reclaimableFiles bu) ps)))"
proof (induction ps)
  case (Cons p ps)
  have "distinct (map (Pair (pa_name p)) (reclaimable_names bu p))"
    using reclaimable_names_distinct [OF Cons.prems(2) [of p]] by (simp add: distinct_map inj_on_def)
  moreover have "fst c \<noteq> pa_name p" if c: "c \<in> set (concat (map (reclaimableFiles bu) ps))" for c
  proof -
    obtain p' where "p' \<in> set ps" "c \<in> set (reclaimableFiles bu p')" using c unfolding set_concat set_map by blast
    then have "fst c = pa_name p'" by (cases c) (simp add: reclaimableFiles_member)
    with \<open>p' \<in> set ps\<close> Cons.prems(1) show ?thesis by (auto simp: image_iff)
  qed
  then have "set (map (Pair (pa_name p)) (reclaimable_names bu p)) \<inter>
      candidate_key ` set (concat (map (reclaimableFiles bu) ps)) = {}"
    by (force simp: candidate_key_def)
  ultimately show ?case using Cons by (simp add: reclaimable_keys)
qed simp

lemma distinct_sorted_keys: "distinct (map f (sort_key k xs)) = distinct (map f xs)"
  by (rule mset_eq_imp_distinct_iff) simp

lemma reduced_isLive: "reduced p q \<Longrightarrow> isLive env q = isLive env p"
  by (simp add: reduced_def isLive_def read_file_def reclaimable_kind_def)

lemma trimmed:
  assumes "nothing_stuck env" and "wf_disk disk" and "mset ps = mset disk" and "\<forall>p \<in> set disk. isLive env p"
    and "d = fst (trimFiles env bu ps (int (store_size disk)) disk)"
  shows "int (store_size d) \<le> bu_maxStoreSize bu \<or> (\<forall>p \<in> set d. isLive env p \<and> reclaimableFiles bu p = [])"
proof -
  define cs where "cs = sort_key candidate_mtime (concat (map (reclaimableFiles bu) ps))"
  have same: "set ps = set disk" using assms(3) by (rule mset_eq_setD)
  have wf: "distinct (map pa_name ps)" "\<And>p. p \<in> set ps \<Longrightarrow> distinct (map fst (pa_files p))"
    using assms(2,3) same mset_eq_imp_distinct_iff [of "map pa_name ps" "map pa_name disk"] by (simp_all add: wf_disk_def)
  have keys: "distinct (map candidate_key cs)"
    unfolding cs_def distinct_sorted_keys by (rule candidate_keys_distinct [OF wf])
  have cand: "candidate_of disk c" if c: "c \<in> set cs" for c
  proof -
    obtain n f k mt where [simp]: "c = (n, f, k, mt)" by (cases c)
    from c obtain p where p: "p \<in> set ps" "(n, f, k, mt) \<in> set (reclaimableFiles bu p)" by (auto simp: cs_def)
    with same reclaimable_candidate [OF p(2)] show ?thesis by (auto simp: candidate_of_def reclaimableFiles_member)
  qed
  note run = trim_exact [OF assms(1,2) refl keys cand, where bu = bu]
  have d: "d = fst (trim_candidates env bu cs (int (store_size disk)) disk)" by (simp add: assms(5) trimFiles_def cs_def)
  show ?thesis
  proof (cases "int (store_size d) \<le> bu_maxStoreSize bu")
    case False
    have "isLive env q \<and> reclaimableFiles bu q = []" if q: "q \<in> set d" for q
    proof -
      obtain p where p: "p \<in> set disk" and pq: "reduced p q" using run q unfolding d reduces_def by blast
      have "f \<notin> set (reclaimable_names bu q)" for f
      proof
        assume f: "f \<in> set (reclaimable_names bu q)"
        then have "map_of (pa_files q) f \<noteq> None" by (rule reclaimable_names_exist)
        with pq obtain c mt where cm: "map_of (pa_files p) f = Some (c, mt)" unfolding reduced_def by (cases "map_of (pa_files p) f") auto
        then have "(pa_name p, f, length c, mt) \<in> set (reclaimableFiles bu p)"
          using f by (simp add: reclaimableFiles_member reclaimable_names_iff)
        then have "(pa_name p, f, length c, mt) \<in> set cs" using p same by (auto simp: cs_def)
        moreover have "\<forall>c \<in> set cs. \<forall>q \<in> set d. pa_name q = fst c \<longrightarrow> map_of (pa_files q) (fst (snd c)) = None"
          using run False unfolding d by blast
        ultimately have "map_of (pa_files q) f = None" using q pq by (force simp: reduced_def)
        with \<open>map_of (pa_files q) f \<noteq> None\<close> show False by simp
      qed
      then have "reclaimable_names bu q = []" by (cases "reclaimable_names bu q") auto
      then show ?thesis using reduced_isLive [OF pq] assms(4) p by (simp add: reclaimableFiles_def List.map_filter_simps)
    qed
    then show ?thesis by blast
  qed simp
qed

definition fully_reclaimed :: "store_env \<Rightarrow> budget \<Rightarrow> store_disk \<Rightarrow> bool" where
  "fully_reclaimed env bu disk \<longleftrightarrow> (\<forall>p \<in> set disk. isLive env p \<and> reclaimableFiles bu p = [])"

text \<open>
  Claim C32. Where no removal fails, a sweep leaves the store within its ceiling, or every
  partition that is left is owned by a running process and has no file to reclaim.
\<close>

theorem sweep_meets_the_ceiling:
  assumes "nothing_stuck env" and "wf_disk (bs_disk st)" and "0 < bu_maxStoreSize bu"
    and "d = bs_disk (enforce env bu st)"
  shows "int (store_size d) \<le> bu_maxStoreSize bu \<or> fully_reclaimed env bu d"
proof -
  define ex where "ex = dropExpiredPartitions env bu (bs_disk st)"
  define total where "total = int (sum_list (map partition_size (fst ex)))"
  define ab where "ab = dropAbandonedPartitions env bu (fst ex) total (snd ex)"
  have ex: "wf_disk (snd ex)" "mset (snd ex) = mset (fst ex)"
    using expire_exact [OF assms(1,2), of "newestFirst (bs_disk st)" "{#}" bu 0]
    by (simp_all add: ex_def dropExpiredPartitions_def newestFirst_def)
  then have size: "total = int (store_size (snd ex))"
    using store_size_mset [OF ex(2)] by (simp add: total_def store_size_def)
  have "mset (snd ex) = mset (rev (fst ex)) + {#}" using ex(2) by simp
  from drop_abandoned_exact [OF assms(1) ex(1) this size, of bu]
  have ab: "wf_disk (snd (snd ab))" "mset (fst ab) = mset (snd (snd ab))" "fst (snd ab) = int (store_size (snd (snd ab)))"
    "fst (snd ab) \<le> bu_maxStoreSize bu \<or> (\<forall>p \<in> set (fst ab). isLive env p)"
    by (auto simp: ab_def dropAbandonedPartitions_def case_prod_beta Let_def)
  have run: "d = (if total \<le> bu_maxStoreSize bu then snd ex else if fst (snd ab) \<le> bu_maxStoreSize bu then snd (snd ab)
      else fst (trimFiles env bu (fst ab) (fst (snd ab)) (snd (snd ab))))"
    using assms(3,4) by (simp add: enforce_def Let_def case_prod_beta flip: ex_def total_def ab_def)
  consider "total \<le> bu_maxStoreSize bu" | "\<not> total \<le> bu_maxStoreSize bu" "fst (snd ab) \<le> bu_maxStoreSize bu"
    | "\<not> total \<le> bu_maxStoreSize bu" "\<not> fst (snd ab) \<le> bu_maxStoreSize bu" by blast
  then show ?thesis
  proof cases
    case 1
    with run size show ?thesis by simp
  next
    case 2
    with run ab(3) show ?thesis by simp
  next
    case 3
    then have "\<forall>p \<in> set (snd (snd ab)). isLive env p" using ab(4) mset_eq_setD [OF ab(2)] by blast
    with 3 run ab(3) show ?thesis using trimmed [OF assms(1) ab(1,2)] by (simp add: fully_reclaimed_def)
  qed
qed

text \<open>Two partitions: one in use, whose log has rotated once, and one that a process left behind.\<close>

definition live_partition :: partition where
  "live_partition = \<lparr>pa_name = ''b'', pa_mtime = 9,
     pa_files = [(Logs_File 0, ''{}'', 9), (Logs_File 1, ''{1}'', 5), (Pid_File, ''7'', 1)]\<rparr>"

definition left_partition :: partition where
  "left_partition = \<lparr>pa_name = ''a'', pa_mtime = 3, pa_files = [(Logs_File 0, ''{}'', 3), (Pid_File, ''5'', 1)]\<rparr>"

definition swept_env :: store_env where
  "swept_env = \<lparr>se_current = ''b'', se_kill = (\<lambda>n. if n = 7 then Signalled else No_Such_Process), se_stuck = (\<lambda>n f. False), se_now = 10\<rparr>"

definition swept_budget :: budget where
  "swept_budget = \<lparr>bu_maxStoreSize = 4, bu_maxRetentionAge = 100, bu_retainedInstances = 5, bu_maxLogFiles = 3\<rparr>"

definition swept_store :: budget_state where
  "swept_store = \<lparr>bs_disk = [left_partition, live_partition], bs_pending = 0, bs_pruned = 0\<rparr>"

lemma swept_wf: "wf_disk (bs_disk swept_store)"
  by (simp add: wf_disk_def swept_store_def left_partition_def live_partition_def)

lemma sweep_spares_live_partitions_witness: "spared live_partition (bs_disk (enforce swept_env swept_budget swept_store))"
  by (rule sweep_spares_live_partitions [OF swept_wf]) (simp_all add: swept_store_def swept_env_def live_partition_def read_file_def)

lemma sweep_meets_the_ceiling_witness:
  "int (store_size (bs_disk (enforce swept_env swept_budget swept_store))) \<le> bu_maxStoreSize swept_budget \<or>
   fully_reclaimed swept_env swept_budget (bs_disk (enforce swept_env swept_budget swept_store))"
  by (rule sweep_meets_the_ceiling [OF _ swept_wf _ refl]) (simp_all add: nothing_stuck_def swept_env_def swept_budget_def)

section \<open>Reading logs\<close>

text \<open>What a partition holds, oldest first, and the last entries of the newest partitions.\<close>

definition matching :: "(string \<Rightarrow> 'e option) \<Rightarrow> ('e \<Rightarrow> bool) \<Rightarrow> string \<Rightarrow> 'e option" where
  "matching parse matches line = Option.bind (parse line) (\<lambda>e. if matches e then Some e else None)"

definition bytes_entries :: "(string \<Rightarrow> string) \<Rightarrow> (string \<Rightarrow> 'e option) \<Rightarrow> string option \<Rightarrow> 'e list" where
  "bytes_entries utf8 parse bytes = (case bytes of None \<Rightarrow> [] | Some b \<Rightarrow> file_entries utf8 parse b)"

definition partition_entries :: "(string \<Rightarrow> string) \<Rightarrow> (string \<Rightarrow> 'e option) \<Rightarrow> ('e \<Rightarrow> bool) \<Rightarrow> nat \<Rightarrow> partition \<Rightarrow> 'e list" where
  "partition_entries utf8 parse matches maxFiles p =
     concat (map (\<lambda>g. filter matches (bytes_entries utf8 parse (read_file (Logs_File g) p))) (generation_files Logs_File maxFiles p))"

definition last_of :: "nat \<Rightarrow> 'a list \<Rightarrow> 'a list" where
  "last_of n xs = drop (length xs - n) xs"

fun newest_entries :: "nat option \<Rightarrow> 'e list list \<Rightarrow> 'e list" where
  "newest_entries limit [] = []"
| "newest_entries limit (xs # xss) = (case limit of
      None \<Rightarrow> xs @ newest_entries None xss
    | Some n \<Rightarrow> last_of n xs @ newest_entries (Some (n - length xs)) xss)"

lemma last_of_rev: "rev (take n (rev xs)) = last_of n xs"
  by (simp add: last_of_def take_rev)

lemma last_of_zero [simp]: "last_of 0 xs = []"
  by (simp add: last_of_def)

lemma length_last_of: "length (last_of n xs) = min n (length xs)"
  by (simp add: last_of_def)

lemma newest_entries_zero: "newest_entries (Some 0) xss = []"
  by (induction xss) simp_all

lemma entries_matching: "bytes_entries utf8 (matching parse matches) bytes = filter matches (bytes_entries utf8 parse bytes)"
proof -
  have "List.map_filter (entry_of utf8 (matching parse matches)) ps = filter matches (List.map_filter (entry_of utf8 parse) ps)" for ps
    by (induction ps) (auto simp: List.map_filter_simps entry_of_def matching_def split: option.splits)
  then show ?thesis by (auto simp: bytes_entries_def file_entries_def split: option.splits)
qed

lemma collect_matching_entry:
  "already < n \<Longrightarrow> collect_matching parse matches (Some n) already = collect_entry (matching parse matches) (Some (n - already))"
  "collect_matching parse matches None already = collect_entry (matching parse matches) None"
  by (auto simp: collect_matching_def collect_entry_def matching_def fun_eq_iff split: option.splits bind_splits)

lemma read_reverse:
  "length es < n \<Longrightarrow> forEachLineReverse utf8 (collect_entry parse (Some n)) bytes es = take n (es @ rev (bytes_entries utf8 parse bytes))"
  "forEachLineReverse utf8 (collect_entry parse None) bytes es = es @ rev (bytes_entries utf8 parse bytes)"
  using collected [where limit = "Some n" and es = es] collected [where limit = None and es = es]
  by (auto simp: bytes_entries_def forEachLineReverse_def backward_loop_pieces chunk_size_def at_most_def file_entries_def map_filter_rev
      split: option.splits)

lemma take_taken_append: "take m (take m xs @ ys) = take m (xs @ ys)"
  by (cases "length xs \<le> m") simp_all

lemma read_generations_limited:
  "already \<le> n \<Longrightarrow> length es \<le> n - already \<Longrightarrow>
     read_generations utf8 parse matches (Some n) already fs es =
       take (n - already) (es @ concat (map (\<lambda>f. rev (bytes_entries utf8 (matching parse matches) f)) fs))"
proof (induction fs arbitrary: es)
  case (Cons f fs)
  show ?case
  proof (cases "n \<le> already + length es")
    case True
    with Cons.prems have "length es = n - already" by simp
    then show ?thesis using True by (simp add: limit_reached_def)
  next
    case False
    let ?b = "rev (bytes_entries utf8 (matching parse matches) f)"
    have "read_generations utf8 parse matches (Some n) already (f # fs) es =
        read_generations utf8 parse matches (Some n) already fs (take (n - already) (es @ ?b))"
      using False by (simp add: limit_reached_def collect_matching_entry read_reverse del: take_append)
    also have "\<dots> = take (n - already) (take (n - already) (es @ ?b) @ concat (map (\<lambda>f. rev (bytes_entries utf8 (matching parse matches) f)) fs))"
      using Cons.prems by (intro Cons.IH) simp_all
    finally show ?thesis by (simp add: take_taken_append del: take_append)
  qed
qed simp

lemma read_generations_all:
  "read_generations utf8 parse matches None already fs es =
     es @ concat (map (\<lambda>f. rev (bytes_entries utf8 (matching parse matches) f)) fs)"
  by (induction fs arbitrary: es) (simp_all add: limit_reached_def collect_matching_entry read_reverse)

lemma generations_entries:
  "rev (concat (map (\<lambda>f. rev (bytes_entries utf8 (matching parse matches) f)) (generation_contents Logs_File maxFiles p))) =
     partition_entries utf8 parse matches maxFiles p"
  by (simp add: generation_contents_def partition_entries_def rev_concat rev_map comp_def entries_matching)

lemma read_partitions_all:
  "read_partitions utf8 parse matches None maxFiles ps found =
     found @ newest_entries None (map (partition_entries utf8 parse matches maxFiles) ps)"
  by (induction ps arbitrary: found) (simp_all add: limit_reached_def read_generations_all generations_entries)

lemma read_partitions_limited:
  "length found \<le> n \<Longrightarrow> read_partitions utf8 parse matches (Some n) maxFiles ps found =
     found @ newest_entries (Some (n - length found)) (map (partition_entries utf8 parse matches maxFiles) ps)"
proof (induction ps arbitrary: found)
  case (Cons p ps)
  let ?es = "partition_entries utf8 parse matches maxFiles p"
  define found' where "found' = found @ last_of (n - length found) ?es"
  have new: "found @ rev (read_generations utf8 parse matches (Some n) (length found) (generation_contents Logs_File maxFiles p) []) = found'"
    using Cons.prems generations_entries [of utf8 parse matches maxFiles p]
    by (simp add: read_generations_limited found'_def flip: last_of_rev) (simp add: rev_swap)
  have len: "length found' = min n (length found + length ?es)" using Cons.prems by (simp add: found'_def length_last_of)
  then have left: "n - length found' = n - length found - length ?es" by simp
  have "read_partitions utf8 parse matches (Some n) maxFiles (p # ps) found =
      (if n \<le> length found' then found' else read_partitions utf8 parse matches (Some n) maxFiles ps found')"
    by (simp add: new limit_reached_def)
  also have "\<dots> = found' @ newest_entries (Some (n - length found')) (map (partition_entries utf8 parse matches maxFiles) ps)"
    using Cons.IH [of found'] len by (simp add: newest_entries_zero)
  finally show ?case unfolding left by (simp add: found'_def del: read_partitions.simps)
qed simp

text \<open>
  A read of the logs visits the partitions from the newest on; without a limit it returns all
  entries that match, each partition's in the order in which they were written, and with a limit
  of n the last n of them, the newest partition's first.
\<close>

theorem log_read_returns_the_newest:
  "log_read utf8 parse matches limit maxFiles disk =
     newest_entries limit (map (partition_entries utf8 parse matches maxFiles) (newestFirst disk))"
  by (cases limit) (simp_all add: log_read_def read_partitions_all read_partitions_limited)

section \<open>Trace files\<close>

text \<open>The list of traces holds each name once, the newest last, at most as many as allowed.\<close>

lemma evict_last: "evict limit fs = (take (length fs - limit) fs, last_of limit fs)"
  by (induction fs) (auto simp: last_of_def Suc_diff_le not_less_eq_eq split: prod.splits)

theorem register_trace_keeps_the_newest:
  "snd (register_trace n name fs) = last_of (max n 1) (remove1 name fs @ [name]) \<and>
   last (snd (register_trace n name fs)) = name \<and> length (snd (register_trace n name fs)) \<le> max n 1 \<and>
   fst (register_trace n name fs) @ snd (register_trace n name fs) = remove1 name fs @ [name]"
  by (auto simp: register_trace_def evict_last last_of_def)

end
