(* ===== verification/Stored_Traces.thy ===== *)
theory Stored_Traces
  imports Tracing Observability_Store
begin

text \<open>
  Traces as they are rendered, stored and read back: \<open>TraceRenderer\<close> of
  \<open>packages/telemetry\<close>, and \<open>TraceStore\<close> with the deserializers of
  \<open>packages/observability\<close>, over the spans and traces of the tracing manager. The depth of the
  call stack bounds every walk over spans; \<open>None\<close> is its overflow. JSON text is an argument: the
  text of a serialized trace, and what parses to one.
\<close>

section \<open>Rendering\<close>

datatype serialized_span = Serialized_Span
  (ss_id: "string option") (ss_keyname: string) (ss_startDate: nat) (ss_endDate: "nat option") (ss_duration: int)
  (ss_context: "string obj option") (ss_markers: "span_marker list") (ss_children: "serialized_span list")

record serialized_trace =
  sr_id :: string
  sr_startDate :: nat
  sr_endDate :: "nat option"
  sr_duration :: int
  sr_context :: "string obj option"
  sr_rootSpan :: "serialized_span option"

fun serializeSpan :: "nat \<Rightarrow> tracing \<Rightarrow> nat \<Rightarrow> serialized_span option" where
  "serializeSpan 0 st s = None"
| "serializeSpan (Suc depth) st s =
     (let sp = ts_spans st s in
      map_option (Serialized_Span (Some (sp_id sp)) (sp_keyname sp) (sp_startDate sp) (sp_endDate sp)
          (getDuration (ts_clock st) sp) (Some (sp_context sp)) (sp_markers sp))
        (those (map (serializeSpan depth st) (sp_children sp))))"

definition trace_duration :: "nat \<Rightarrow> trace \<Rightarrow> int" where
  "trace_duration now tr = int (case tr_endDate tr of Some e \<Rightarrow> e | None \<Rightarrow> now) - int (tr_startDate tr)"

definition serialize_trace :: "nat \<Rightarrow> tracing \<Rightarrow> nat \<Rightarrow> serialized_trace option" where
  "serialize_trace depth st t =
     (let tr = ts_traces st t;
          plain = \<lparr>sr_id = tr_id tr, sr_startDate = tr_startDate tr, sr_endDate = tr_endDate tr,
            sr_duration = trace_duration (ts_clock st) tr, sr_context = Some (tr_context tr), sr_rootSpan = None\<rparr> in
      case tr_rootSpan tr of None \<Rightarrow> Some plain
      | Some r \<Rightarrow> map_option (\<lambda>s. plain\<lparr>sr_rootSpan := Some s\<rparr>) (serializeSpan depth st r))"

text \<open>A span and all below it, parents first.\<close>

fun walkSpans :: "nat \<Rightarrow> tracing \<Rightarrow> nat \<Rightarrow> nat list option" where
  "walkSpans 0 st s = None"
| "walkSpans (Suc depth) st s =
     map_option (\<lambda>ws. s # concat ws) (those (map (walkSpans depth st) (sp_children (ts_spans st s))))"

text \<open>The slowest span without children: the first of those that take longest, and how long.\<close>

definition slower_leaf :: "tracing \<Rightarrow> nat option \<times> int \<Rightarrow> nat \<Rightarrow> nat option \<times> int" where
  "slower_leaf st best s =
     (let d = getDuration (ts_clock st) (ts_spans st s) in
      if sp_children (ts_spans st s) \<noteq> [] then best else if snd best < d then (Some s, d) else best)"

definition slowest_leaf :: "tracing \<Rightarrow> nat list \<Rightarrow> nat option \<times> int" where
  "slowest_leaf st ss = foldl (slower_leaf st) (None, -1) ss"

text \<open>The pieces of a row's prefix, each four columns wide, and a row.\<close>

datatype branch_glyph = Blank | Bar | Corner | Tee

record tree_row =
  ro_prefix :: "branch_glyph list"
  ro_name :: string
  ro_duration :: int
  ro_isBottleneck :: bool

definition row_prefix :: "bool list \<Rightarrow> branch_glyph list" where
  "row_prefix ancestorIsLast = (if ancestorIsLast = [] then []
     else map (\<lambda>isLast. if isLast then Blank else Bar) (butlast ancestorIsLast) @ [if last ancestorIsLast then Corner else Tee])"

fun render_node :: "nat \<Rightarrow> tracing \<Rightarrow> nat option \<times> int \<Rightarrow> bool list \<Rightarrow> nat \<Rightarrow> tree_row list option" where
  "render_node 0 st slow anc s = None"
| "render_node (Suc depth) st slow anc s =
     (let sp = ts_spans st s; cs = sp_children sp in
      map_option (\<lambda>rs. \<lparr>ro_prefix = row_prefix anc, ro_name = sp_keyname sp, ro_duration = getDuration (ts_clock st) sp,
          ro_isBottleneck = (fst slow = Some s \<and> 0 < snd slow)\<rparr> # concat rs)
        (those (map (\<lambda>(i, c). render_node depth st slow (anc @ [Suc i = length cs]) c) (enumerate 0 cs))))"

definition row_width :: "tree_row \<Rightarrow> nat" where
  "row_width r = 4 * length (ro_prefix r) + length (ro_name r)"

text \<open>The rows of a tree with the number of spaces between a name and its duration.\<close>

definition row_padding :: "tree_row list \<Rightarrow> tree_row \<Rightarrow> nat" where
  "row_padding rows r = (let width = Max (set (map row_width rows)) in max 1 (width - row_width r + 2))"

definition renderTree :: "nat \<Rightarrow> tracing \<Rightarrow> nat \<Rightarrow> (tree_row \<times> nat) list option" where
  "renderTree depth st t = (case tr_rootSpan (ts_traces st t) of
       None \<Rightarrow> Some []
     | Some r \<Rightarrow> Option.bind (walkSpans depth st r) (\<lambda>ss.
         map_option (\<lambda>rows. map (\<lambda>row. (row, row_padding rows row)) rows)
           (render_node depth st (slowest_leaf st ss) [] r)))"

text \<open>The lines of the flat form: names and durations by the time of the start.\<close>

definition renderFlat :: "nat \<Rightarrow> tracing \<Rightarrow> nat \<Rightarrow> (string \<times> int) list option" where
  "renderFlat depth st t =
     map_option (\<lambda>ss. map (\<lambda>s. (sp_keyname (ts_spans st s), getDuration (ts_clock st) (ts_spans st s)))
         (sort_key (\<lambda>s. sp_startDate (ts_spans st s)) ss))
       (case tr_rootSpan (ts_traces st t) of None \<Rightarrow> Some [] | Some r \<Rightarrow> walkSpans depth st r)"

section \<open>Reading back\<close>

text \<open>Members that are absent are \<open>None\<close>; absent children are none.\<close>

definition filled_span :: "nat \<Rightarrow> nat \<Rightarrow> nat option \<Rightarrow> span \<Rightarrow> span" where
  "filled_span t startDate endDate sp =
     sp\<lparr>sp_trace := Some t, sp_startDate := startDate, sp_endDate := endDate, sp_inProgress := endDate = None\<rparr>"

fun deserialize_span :: "tracing_config \<Rightarrow> nat \<Rightarrow> serialized_span \<Rightarrow> tracing \<Rightarrow> nat \<times> tracing"
  and deserialize_children :: "tracing_config \<Rightarrow> nat \<Rightarrow> nat \<Rightarrow> serialized_span list \<Rightarrow> tracing \<Rightarrow> tracing" where
  "deserialize_span cfg t (Serialized_Span i keyname startDate endDate duration context markers children) st =
     (let s = ts_span_count st;
          st1 = snd (new_span cfg keyname i (case context of None \<Rightarrow> [] | Some c \<Rightarrow> c) st) in
      (s, deserialize_children cfg t s children (upd_span s (filled_span t startDate endDate) st1)))"
| "deserialize_children cfg t s [] st = st"
| "deserialize_children cfg t s (c # cs) st =
     (let r = deserialize_span cfg t c st in deserialize_children cfg t s cs (addChild s (fst r) (snd r)))"

definition deserialize_trace :: "tracing_config \<Rightarrow> serialized_trace \<Rightarrow> tracing \<Rightarrow> nat \<times> tracing" where
  "deserialize_trace cfg s st =
     (let t = ts_trace_count st;
          st1 = snd (new_trace cfg (Some (sr_id s)) (case sr_context s of None \<Rightarrow> [] | Some c \<Rightarrow> c) st);
          st2 = upd_trace t (\<lambda>tr. tr\<lparr>tr_startDate := sr_startDate s, tr_endDate := sr_endDate s,
            tr_hasEnded := sr_endDate s \<noteq> None\<rparr>) st1 in
      (t, case sr_rootSpan s of None \<Rightarrow> st2
          | Some root \<Rightarrow> (let r = deserialize_span cfg t root st2 in upd_trace t (\<lambda>tr. tr\<lparr>tr_rootSpan := Some (fst r)\<rparr>) (snd r))))"

section \<open>The store of traces\<close>

record request_summary =
  rs_eventId :: string
  rs_startedAt :: nat
  rs_durationMs :: int
  rs_rootKeyname :: string
  rs_traceId :: "string option"
  rs_requestId :: "string option"
  rs_httpMethod :: "string option"
  rs_httpPath :: "string option"
  rs_httpStatus :: "int option"
  rs_traceOmitted :: bool

definition eventIdOf :: "trace \<Rightarrow> string" where
  "eventIdOf tr = (case obj_get (tr_context tr) ''event.id'' of
       Some i \<Rightarrow> if i \<noteq> [] then i else tr_id tr
     | None \<Rightarrow> tr_id tr)"

text \<open>\<open>Number\<close> of the status is an argument; \<open>None\<close> is not a number.\<close>

definition buildSummary :: "(string \<Rightarrow> int option) \<Rightarrow> tracing \<Rightarrow> nat \<Rightarrow> string \<Rightarrow> request_summary" where
  "buildSummary number st t eventId =
     (let tr = ts_traces st t; member = obj_get (tr_context tr) in
      \<lparr>rs_eventId = eventId, rs_startedAt = tr_startDate tr, rs_durationMs = trace_duration (ts_clock st) tr,
       rs_rootKeyname = (case tr_rootSpan tr of None \<Rightarrow> [] | Some r \<Rightarrow> sp_keyname (ts_spans st r)),
       rs_traceId = (if tr_id tr \<noteq> eventId then Some (tr_id tr) else None),
       rs_requestId = (case member ''request.id'' of Some i \<Rightarrow> if i \<noteq> eventId then Some i else None | None \<Rightarrow> None),
       rs_httpMethod = member ''http.method'', rs_httpPath = member ''http.path'',
       rs_httpStatus = Option.bind (member ''http.statusCode'') number, rs_traceOmitted = False\<rparr>)"

text \<open>The file that a trace goes to, or none when it is too large, and the summary that is indexed.\<close>

definition trace_file :: "string \<Rightarrow> store_file" where
  "trace_file eventId = Trace_File (eventId @ ''.json'')"

definition stored_trace :: "nat \<Rightarrow> (serialized_trace \<Rightarrow> string) \<Rightarrow> (string \<Rightarrow> int option) \<Rightarrow> int \<Rightarrow> tracing \<Rightarrow> nat \<Rightarrow>
  ((store_file \<times> string) option \<times> request_summary) option" where
  "stored_trace depth json number maxTraceFileSize st t =
     (let eventId = eventIdOf (ts_traces st t); summary = buildSummary number st t eventId in
      map_option (\<lambda>s. let content = json s in
        if 0 < maxTraceFileSize \<and> maxTraceFileSize < int (length content) then (None, summary\<lparr>rs_traceOmitted := True\<rparr>)
        else (Some (trace_file eventId, content), summary)) (serialize_trace depth st t))"

definition tryLoadTrace :: "(string \<Rightarrow> serialized_trace option) \<Rightarrow> partition \<Rightarrow> string \<Rightarrow> serialized_trace option" where
  "tryLoadTrace parse p eventId = Option.bind (read_file (trace_file eventId) p) parse"

definition summary_matches :: "string \<Rightarrow> request_summary \<Rightarrow> bool" where
  "summary_matches i s \<longleftrightarrow> rs_eventId s = i \<or> rs_traceId s = Some i \<or> rs_requestId s = Some i"

definition resolveEventIdFromSummaries :: "(string \<Rightarrow> string) \<Rightarrow> (string \<Rightarrow> request_summary option) \<Rightarrow> nat \<Rightarrow> partition \<Rightarrow> string \<Rightarrow> string option" where
  "resolveEventIdFromSummaries utf8 parse maxFiles p i =
     map_option rs_eventId (List.find (summary_matches i) (readSummaries utf8 parse maxFiles None p))"

definition find_in_partition :: "(string \<Rightarrow> string) \<Rightarrow> (string \<Rightarrow> serialized_trace option) \<Rightarrow> (string \<Rightarrow> request_summary option) \<Rightarrow>
  nat \<Rightarrow> string \<Rightarrow> partition \<Rightarrow> (serialized_trace \<times> string) option" where
  "find_in_partition utf8 parse parse_summary maxFiles i p =
     (case tryLoadTrace parse p i of
        Some s \<Rightarrow> Some (s, i)
      | None \<Rightarrow> Option.bind (resolveEventIdFromSummaries utf8 parse_summary maxFiles p i)
          (\<lambda>e. map_option (\<lambda>s. (s, e)) (tryLoadTrace parse p e)))"

fun findSerialized :: "(string \<Rightarrow> string) \<Rightarrow> (string \<Rightarrow> serialized_trace option) \<Rightarrow> (string \<Rightarrow> request_summary option) \<Rightarrow>
  nat \<Rightarrow> string \<Rightarrow> partition list \<Rightarrow> (serialized_trace \<times> string) option" where
  "findSerialized utf8 parse parse_summary maxFiles i [] = None"
| "findSerialized utf8 parse parse_summary maxFiles i (p # ps) =
     (case find_in_partition utf8 parse parse_summary maxFiles i p of
        Some r \<Rightarrow> Some r
      | None \<Rightarrow> findSerialized utf8 parse parse_summary maxFiles i ps)"

definition find_trace :: "(string \<Rightarrow> string) \<Rightarrow> (string \<Rightarrow> serialized_trace option) \<Rightarrow> (string \<Rightarrow> request_summary option) \<Rightarrow>
  nat \<Rightarrow> tracing_config \<Rightarrow> string \<Rightarrow> store_disk \<Rightarrow> tracing \<Rightarrow> ((nat \<times> tracing) \<times> string) option" where
  "find_trace utf8 parse parse_summary maxFiles cfg i disk st =
     map_option (\<lambda>(s, e). (deserialize_trace cfg s st, e))
       (findSerialized utf8 parse parse_summary maxFiles i (newestFirst disk))"

definition recentTraceIds :: "(string \<Rightarrow> string) \<Rightarrow> (string \<Rightarrow> request_summary option) \<Rightarrow> nat \<Rightarrow> nat \<Rightarrow> store_disk \<Rightarrow> string list" where
  "recentTraceIds utf8 parse maxFiles limit disk =
     map rs_eventId (recentRequests utf8 parse (int \<circ> rs_startedAt) maxFiles (Some limit) disk)"

end
