(* ===== verification/Stored_Traces_Properties.thy ===== *)
theory Stored_Traces_Properties
  imports Stored_Traces
begin

text \<open>
  A stored trace is found again as the tree of spans that was written, but for its markers; and
  the bottleneck that a rendered tree flags is the slowest span without children.
\<close>

section \<open>Reading a trace back\<close>

text \<open>What is left of a span once it has been written and read at a given time.\<close>

fun reread_span :: "nat \<Rightarrow> serialized_span \<Rightarrow> serialized_span" where
  "reread_span now (Serialized_Span i k startDate endDate d context markers cs) =
     Serialized_Span i k startDate endDate (int (case endDate of Some e \<Rightarrow> e | None \<Rightarrow> now) - int startDate) context []
       (map (reread_span now) cs)"

definition reread_trace :: "nat \<Rightarrow> serialized_trace \<Rightarrow> serialized_trace" where
  "reread_trace now s = s\<lparr>sr_duration := int (case sr_endDate s of Some e \<Rightarrow> e | None \<Rightarrow> now) - int (sr_startDate s),
     sr_rootSpan := map_option (reread_span now) (sr_rootSpan s)\<rparr>"

text \<open>What a walk of limited depth writes, where the identifiers of siblings differ.\<close>

fun complete_span :: "nat \<Rightarrow> serialized_span \<Rightarrow> bool" where
  "complete_span 0 s = False"
| "complete_span (Suc d) s = (ss_id s \<noteq> None \<and> ss_context s \<noteq> None \<and> distinct (map ss_id (ss_children s)) \<and>
     list_all (complete_span d) (ss_children s))"

text \<open>Spans are the same but for the parent; a range of spans is closed under children.\<close>

definition same_range :: "nat \<Rightarrow> nat \<Rightarrow> tracing \<Rightarrow> tracing \<Rightarrow> bool" where
  "same_range a b st st' \<longleftrightarrow> (\<forall>x. a \<le> x \<longrightarrow> x < b \<longrightarrow>
     (ts_spans st' x)\<lparr>sp_parent := None\<rparr> = (ts_spans st x)\<lparr>sp_parent := None\<rparr>)"

definition closed_range :: "nat \<Rightarrow> nat \<Rightarrow> tracing \<Rightarrow> bool" where
  "closed_range a b st \<longleftrightarrow> (\<forall>x. a \<le> x \<longrightarrow> x < b \<longrightarrow> set (sp_children (ts_spans st x)) \<subseteq> {a..<b})"

lemma same_but_parent:
  assumes "sp\<lparr>sp_parent := None\<rparr> = sq\<lparr>sp_parent := (None :: nat option)\<rparr>"
  shows "sp_id sp = sp_id sq" "sp_keyname sp = sp_keyname sq" "sp_startDate sp = sp_startDate sq" "sp_endDate sp = sp_endDate sq"
    "sp_context sp = sp_context sq" "sp_markers sp = sp_markers sq" "sp_children sp = sp_children sq"
    "getDuration now sp = getDuration now sq"
  using assms by (cases sp; cases sq; simp add: getDuration_def)+

lemma serializeSpan_range:
  "closed_range a b st \<Longrightarrow> same_range a b st st' \<Longrightarrow> ts_clock st' = ts_clock st \<Longrightarrow> a \<le> s \<Longrightarrow> s < b \<Longrightarrow>
     serializeSpan d st' s = serializeSpan d st s"
proof (induction d arbitrary: s)
  case (Suc d)
  note same = same_but_parent [OF Suc.prems(2) [unfolded same_range_def, rule_format, OF Suc.prems(4,5)]]
  have sub: "set (sp_children (ts_spans st s)) \<subseteq> {a..<b}" using Suc.prems(1,4,5) unfolding closed_range_def by blast
  have "map (serializeSpan d st') (sp_children (ts_spans st s)) = map (serializeSpan d st) (sp_children (ts_spans st s))"
    using sub by (intro map_cong refl Suc.IH [OF Suc.prems(1-3)]) auto
  then show ?case by (simp only: serializeSpan.simps Let_def same Suc.prems(3))
qed simp

lemma closed_same: "closed_range a b st \<Longrightarrow> same_range a b st st' \<Longrightarrow> closed_range a b st'"
  unfolding closed_range_def same_range_def by (metis same_but_parent(7))

lemma closed_join: "closed_range a b st \<Longrightarrow> closed_range b c st \<Longrightarrow> a \<le> b \<Longrightarrow> b \<le> c \<Longrightarrow> closed_range a c st"
  unfolding closed_range_def
proof (intro allI impI)
  fix x
  assume ab: "\<forall>x\<ge>a. x < b \<longrightarrow> set (sp_children (ts_spans st x)) \<subseteq> {a..<b}"
    and bc: "\<forall>x\<ge>b. x < c \<longrightarrow> set (sp_children (ts_spans st x)) \<subseteq> {b..<c}"
    and le: "a \<le> b" "b \<le> c" and x: "a \<le> x" "x < c"
  have sub: "{a..<b} \<subseteq> {a..<c}" "{b..<c} \<subseteq> {a..<c}" using le by auto
  show "set (sp_children (ts_spans st x)) \<subseteq> {a..<c}"
  proof (cases "x < b")
    case True
    then show ?thesis using ab x(1) sub(1) by blast
  next
    case False
    then show ?thesis using bc x(2) sub(2) by (meson not_le subset_trans)
  qed
qed

text \<open>What reading one span leaves, and what reading children below a span does.\<close>

definition span_read :: "tracing \<Rightarrow> nat \<Rightarrow> serialized_span \<Rightarrow> nat \<Rightarrow> tracing \<Rightarrow> bool" where
  "span_read st d s a st' \<longleftrightarrow> a = ts_span_count st \<and> ts_span_count st < ts_span_count st' \<and> ts_clock st' = ts_clock st \<and>
     ts_traces st' = ts_traces st \<and> (\<forall>x < ts_span_count st. ts_spans st' x = ts_spans st x) \<and>
     closed_range a (ts_span_count st') st' \<and> sp_id (ts_spans st' a) = the (ss_id s) \<and>
     serializeSpan d st' a = Some (reread_span (ts_clock st) s)"

definition children_read :: "tracing \<Rightarrow> nat \<Rightarrow> nat \<Rightarrow> serialized_span list \<Rightarrow> nat list \<Rightarrow> tracing \<Rightarrow> bool" where
  "children_read st d p cs as st' \<longleftrightarrow> ts_span_count st \<le> ts_span_count st' \<and> ts_clock st' = ts_clock st \<and>
     ts_traces st' = ts_traces st \<and> (\<forall>x < ts_span_count st. x \<noteq> p \<longrightarrow> ts_spans st' x = ts_spans st x) \<and>
     ts_spans st' p = (ts_spans st p)\<lparr>sp_children := sp_children (ts_spans st p) @ as\<rparr> \<and>
     set as \<subseteq> {ts_span_count st..<ts_span_count st'} \<and> closed_range (ts_span_count st) (ts_span_count st') st' \<and>
     those (map (serializeSpan d st') as) = Some (map (reread_span (ts_clock st)) cs)"

lemma children_read_Nil: "children_read st d p [] [] st"
  by (simp add: children_read_def closed_range_def)

lemma children_read_Cons:
  assumes p: "p < ts_span_count st"
    and c: "span_read st d c a st1" and new: "\<not> list_ex (\<lambda>k. sp_id (ts_spans st1 k) = sp_id (ts_spans st1 a)) (sp_children (ts_spans st1 p))"
    and rest: "children_read (addChild p a st1) d p cs as st'"
  shows "children_read st d p (c # cs) (a # as) st'"
proof -
  let ?n = "ts_span_count st" and ?n1 = "ts_span_count st1" and ?n' = "ts_span_count st'"
  note c' = c [unfolded span_read_def]
  have st2: "addChild p a st1 = upd_span p (\<lambda>sp. sp\<lparr>sp_children := sp_children sp @ [a]\<rparr>) (upd_span a (\<lambda>sp. sp\<lparr>sp_parent := Some p\<rparr>) st1)"
    using new by (simp add: addChild_def)
  have pa: "p \<noteq> a" using p c' by simp
  have cnt: "ts_span_count (addChild p a st1) = ?n1" and clk: "ts_clock (addChild p a st1) = ts_clock st1"
    and trs: "ts_traces (addChild p a st1) = ts_traces st1"
    by (simp_all add: st2 upd_span_def)
  have spans2: "ts_spans (addChild p a st1) x = (if x = p then (ts_spans st1 p)\<lparr>sp_children := sp_children (ts_spans st1 p) @ [a]\<rparr>
      else if x = a then (ts_spans st1 a)\<lparr>sp_parent := Some p\<rparr> else ts_spans st1 x)" for x
    using pa by (simp add: st2 upd_span_def)
  note rest' = rest [unfolded children_read_def cnt clk trs]
  have range: "same_range ?n ?n1 st1 st'"
    unfolding same_range_def
  proof (intro allI impI)
    fix x assume "?n \<le> x" "x < ?n1"
    with p rest' have "ts_spans st' x = ts_spans (addChild p a st1) x" by auto
    moreover have "x \<noteq> p" using \<open>?n \<le> x\<close> p by simp
    ultimately show "(ts_spans st' x)\<lparr>sp_parent := None\<rparr> = (ts_spans st1 x)\<lparr>sp_parent := None\<rparr>"
      by (simp add: spans2)
  qed
  have ca: "a = ?n" using c' by blast
  have first: "closed_range ?n ?n1 st1" using c' unfolding ca by blast
  have "serializeSpan d st' a = serializeSpan d st1 a"
    using c' rest' by (intro serializeSpan_range [OF first range]) simp_all
  moreover have "closed_range ?n ?n' st'"
    using closed_join [OF closed_same [OF first range]] c' rest' by simp
  moreover have "ts_spans st' p = (ts_spans st p)\<lparr>sp_children := sp_children (ts_spans st p) @ a # as\<rparr>"
  proof -
    have "ts_spans st' p = (ts_spans (addChild p a st1) p)\<lparr>sp_children := sp_children (ts_spans (addChild p a st1) p) @ as\<rparr>"
      using rest' by blast
    moreover have "ts_spans st1 p = ts_spans st p" using c' p by blast
    ultimately show ?thesis by (simp add: spans2)
  qed
  moreover have "ts_spans st' x = ts_spans st x" if "x < ?n" "x \<noteq> p" for x
  proof -
    have x: "x < ?n1" "x \<noteq> a" "ts_spans st1 x = ts_spans st x" using that c' by auto
    then have "ts_spans st' x = ts_spans (addChild p a st1) x" using rest' that(2) by blast
    then show ?thesis using x that(2) by (simp add: spans2)
  qed
  moreover have "set (a # as) \<subseteq> {?n..<?n'}" using rest' c' by auto
  ultimately show ?thesis using c' rest' by (auto simp: children_read_def)
qed

lemma deserialized:
  "\<And>d. complete_span d s \<Longrightarrow> span_read st d s (fst (deserialize_span cfg t s st)) (snd (deserialize_span cfg t s st))"
  "\<And>d. p < ts_span_count st \<Longrightarrow> list_all (complete_span d) cs \<Longrightarrow> distinct (map ss_id cs) \<Longrightarrow>
     (\<forall>k \<in> set (sp_children (ts_spans st p)). Some (sp_id (ts_spans st k)) \<notin> ss_id ` set cs) \<Longrightarrow>
     set (sp_children (ts_spans st p)) \<subseteq> {p<..<ts_span_count st} \<Longrightarrow>
     \<exists>as. children_read st d p cs as (deserialize_children cfg t p cs st)"
proof (induction cfg t s st and cfg t p cs st rule: deserialize_span_deserialize_children.induct)
  case (1 cfg t i keyname startDate endDate duration ctx markers children st)
  obtain d' where d: "d = Suc d'" using 1(2) by (cases d) simp_all
  define s where "s = ts_span_count st"
  define st1 where "st1 = upd_span s (filled_span t startDate endDate)
    (snd (new_span cfg keyname i (case ctx of None \<Rightarrow> [] | Some c \<Rightarrow> c) st))"
  obtain i' cx where ic: "i = Some i'" "ctx = Some cx" using 1(2) d by auto
  have sp: "ts_spans st1 s = \<lparr>sp_id = i', sp_keyname = keyname, sp_manager = None, sp_trace = Some t, sp_startDate = startDate,
      sp_endDate = endDate, sp_parent = None, sp_children = [], sp_markers = [], sp_context = cx, sp_inProgress = (endDate = None)\<rparr>"
    by (simp add: st1_def s_def new_span_def Let_def filled_span_def ic upd_span_def)
  have other: "ts_spans st1 x = ts_spans st x" if "x \<noteq> s" for x
    using that by (simp add: st1_def s_def new_span_def Let_def upd_span_def)
  have keep: "ts_span_count st1 = Suc s" "ts_clock st1 = ts_clock st" "ts_traces st1 = ts_traces st"
    by (simp_all add: st1_def s_def new_span_def Let_def upd_span_def)
  have "\<exists>as. children_read st1 d' s children as (deserialize_children cfg t s children st1)"
    unfolding st1_def s_def
  proof (rule 1(1))
    show "ts_span_count st = ts_span_count st" ..
  qed (use 1(2) d sp keep in \<open>auto simp flip: st1_def s_def\<close>)
  then obtain as where kids: "children_read st1 d' s children as (deserialize_children cfg t s children st1)" ..
  define st' where "st' = deserialize_children cfg t s children st1"
  note k = kids [folded st'_def, unfolded children_read_def keep sp]
  have "closed_range s (ts_span_count st') st'"
    unfolding closed_range_def
  proof (intro allI impI)
    fix x assume x: "s \<le> x" "x < ts_span_count st'"
    show "set (sp_children (ts_spans st' x)) \<subseteq> {s..<ts_span_count st'}"
    proof (cases "x = s")
      case True
      with k show ?thesis by auto
    next
      case False
      with x have "Suc s \<le> x" by simp
      with x k have "set (sp_children (ts_spans st' x)) \<subseteq> {Suc s..<ts_span_count st'}" by (simp add: closed_range_def)
      then show ?thesis by auto
    qed
  qed
  moreover have "serializeSpan d st' s = Some (reread_span (ts_clock st) (Serialized_Span i keyname startDate endDate duration ctx markers children))"
    using k by (simp add: d ic getDuration_def)
  moreover have "ts_spans st' x = ts_spans st x" if "x < s" for x
    using k other [of x] that by simp
  ultimately have "span_read st d (Serialized_Span i keyname startDate endDate duration ctx markers children) s st'"
    using k by (simp add: span_read_def s_def ic)
  then show ?case by (simp add: Let_def s_def st1_def st'_def)
next
  case (2 cfg t s st)
  show ?case unfolding deserialize_children.simps by (rule exI) (rule children_read_Nil)
next
  case (3 cfg t p c cs st)
  define r where "r = deserialize_span cfg t c st"
  have c: "span_read st d c (fst r) (snd r)" unfolding r_def using 3(1) 3(4) by simp
  note c' = c [unfolded span_read_def]
  have id_c: "ss_id c = Some (sp_id (ts_spans (snd r) (fst r)))"
  proof -
    have "ss_id c \<noteq> None" using 3(4) by (cases d) simp_all
    with c' show ?thesis by auto
  qed
  have p1: "ts_spans (snd r) p = ts_spans st p" using c' 3(3) by simp
  have kids: "ts_spans (snd r) k = ts_spans st k" "k \<noteq> fst r" if "k \<in> set (sp_children (ts_spans st p))" for k
    using that 3(7) c' by auto
  have new: "\<not> list_ex (\<lambda>k. sp_id (ts_spans (snd r) k) = sp_id (ts_spans (snd r) (fst r))) (sp_children (ts_spans (snd r) p))"
    using 3(6) id_c kids(1) by (auto simp: list_ex_iff p1)
  define st2 where "st2 = addChild p (fst r) (snd r)"
  have st2: "st2 = upd_span p (\<lambda>sp. sp\<lparr>sp_children := sp_children sp @ [fst r]\<rparr>) (upd_span (fst r) (\<lambda>sp. sp\<lparr>sp_parent := Some p\<rparr>) (snd r))"
    using new by (simp add: addChild_def st2_def)
  have pa: "p \<noteq> fst r" using 3(3) c' by simp
  have cnt: "ts_span_count st2 = ts_span_count (snd r)" by (simp add: st2 upd_span_def)
  have ch: "sp_children (ts_spans st2 p) = sp_children (ts_spans st p) @ [fst r]" using pa by (simp add: st2 upd_span_def p1)
  have ids: "sp_id (ts_spans st2 k) = sp_id (ts_spans (snd r) k)" for k by (simp add: st2 upd_span_def)
  have "\<exists>as. children_read st2 d p cs as (deserialize_children cfg t p cs st2)"
    unfolding st2_def
  proof (rule 3(2) [OF r_def])
    show "p < ts_span_count (addChild p (fst r) (snd r))" using 3(3) c' cnt by (simp add: st2_def)
    show "list_all (complete_span d) cs" "distinct (map ss_id cs)" using 3(4,5) by simp_all
    show "\<forall>k \<in> set (sp_children (ts_spans (addChild p (fst r) (snd r)) p)). Some (sp_id (ts_spans (addChild p (fst r) (snd r)) k)) \<notin> ss_id ` set cs"
      using 3(5,6) id_c kids(1) by (auto simp: ch ids simp flip: st2_def)
    show "set (sp_children (ts_spans (addChild p (fst r) (snd r)) p)) \<subseteq> {p<..<ts_span_count (addChild p (fst r) (snd r))}"
      unfolding st2_def [symmetric] ch cnt using 3(3,7) c' by auto
  qed
  then obtain as where "children_read (addChild p (fst r) (snd r)) d p cs as (deserialize_children cfg t p cs st2)"
    by (auto simp: st2_def)
  from children_read_Cons [OF 3(3) c new this] show ?case by (auto simp: Let_def r_def st2_def)
qed

text \<open>Siblings have different identifiers, as \<open>addChild\<close> sees to.\<close>

definition distinct_siblings :: "tracing \<Rightarrow> bool" where
  "distinct_siblings st \<longleftrightarrow> (\<forall>s. distinct (map (\<lambda>c. sp_id (ts_spans st c)) (sp_children (ts_spans st s))))"

lemma addChild_siblings:
  assumes "distinct_siblings st"
  shows "distinct_siblings (addChild p s st)"
proof (cases "list_ex (\<lambda>c. sp_id (ts_spans st c) = sp_id (ts_spans st s)) (sp_children (ts_spans st p))")
  case False
  have "sp_id (ts_spans (addChild p s st) x) = sp_id (ts_spans st x)"
    "sp_children (ts_spans (addChild p s st) x) = sp_children (ts_spans st x) @ (if x = p then [s] else [])" for x
    using False by (simp_all add: addChild_def upd_span_def)
  then show ?thesis using assms False by (auto simp: distinct_siblings_def list_ex_iff)
qed (use assms in \<open>simp add: addChild_def\<close>)

lemma those_map_Some: "those (map f xs) = Some ys \<longleftrightarrow> list_all2 (\<lambda>x y. f x = Some y) xs ys"
proof (induction xs arbitrary: ys)
  case (Cons x xs)
  then show ?case by (cases ys) (auto split: option.splits)
qed auto

lemma serialized_complete:
  "distinct_siblings st \<Longrightarrow> serializeSpan d st s = Some x \<Longrightarrow> complete_span d x \<and> ss_id x = Some (sp_id (ts_spans st s))"
proof (induction d arbitrary: s x)
  case (Suc d)
  obtain ys where ys: "list_all2 (\<lambda>c y. serializeSpan d st c = Some y) (sp_children (ts_spans st s)) ys"
      and x: "ss_children x = ys" "ss_id x = Some (sp_id (ts_spans st s))" "ss_context x \<noteq> None"
    using Suc.prems(2) by (auto simp: Let_def those_map_Some)
  have "list_all2 (\<lambda>c y. complete_span d y \<and> ss_id y = Some (sp_id (ts_spans st c))) (sp_children (ts_spans st s)) ys"
    by (rule list_all2_mono [OF ys]) (rule Suc.IH [OF Suc.prems(1)])
  then have all: "list_all (complete_span d) ys" and ids: "map ss_id ys = map (\<lambda>c. Some (sp_id (ts_spans st c))) (sp_children (ts_spans st s))"
    by (auto simp: list_all2_conv_all_nth list_all_length intro: nth_equalityI)
  have "distinct (map Some (map (\<lambda>c. sp_id (ts_spans st c)) (sp_children (ts_spans st s))))"
    using Suc.prems(1) by (subst distinct_map) (simp add: distinct_siblings_def)
  then have "distinct (map ss_id ys)" by (simp add: ids comp_def)
  with all x show ?case by simp
qed simp

lemma deserialized_trace:
  assumes "case sr_rootSpan s of None \<Rightarrow> True | Some r \<Rightarrow> complete_span d r" and "sr_context s \<noteq> None"
    and "r = deserialize_trace cfg s st"
  shows "serialize_trace d (snd r) (fst r) = Some (reread_trace (ts_clock st) s) \<and>
    tr_hasEnded (ts_traces (snd r) (fst r)) = (sr_endDate s \<noteq> None)"
proof -
  obtain cx where cx: "sr_context s = Some cx" using assms(2) by blast
  define t where "t = ts_trace_count st"
  define st2 where "st2 = upd_trace t (\<lambda>tr. tr\<lparr>tr_startDate := sr_startDate s, tr_endDate := sr_endDate s,
    tr_hasEnded := sr_endDate s \<noteq> None\<rparr>) (snd (new_trace cfg (Some (sr_id s)) cx st))"
  have tr: "ts_traces st2 t = \<lparr>tr_id = sr_id s, tr_startDate = sr_startDate s, tr_endDate = sr_endDate s, tr_rootSpan = None,
      tr_spansByKeyname = [], tr_context = cx, tr_hasEnded = (sr_endDate s \<noteq> None)\<rparr>" and clk: "ts_clock st2 = ts_clock st"
    by (simp_all add: st2_def t_def new_trace_def Let_def upd_trace_def)
  show ?thesis
  proof (cases "sr_rootSpan s")
    case None
    then have "r = (t, st2)" by (simp add: assms(3) deserialize_trace_def Let_def cx t_def st2_def)
    with None show ?thesis
      by (simp add: serialize_trace_def tr clk Let_def trace_duration_def reread_trace_def cx)
  next
    case (Some root)
    define q where "q = deserialize_span cfg t root st2"
    have q: "span_read st2 d root (fst q) (snd q)" using assms(1) deserialized(1) Some by (simp add: q_def)
    define st3 where "st3 = upd_trace t (\<lambda>tr. tr\<lparr>tr_rootSpan := Some (fst q)\<rparr>) (snd q)"
    have r: "r = (t, st3)" using Some by (simp add: assms(3) deserialize_trace_def Let_def cx t_def st2_def q_def st3_def)
    have spans: "ts_spans st3 = ts_spans (snd q)" "ts_clock st3 = ts_clock (snd q)" by (simp_all add: st3_def upd_trace_def)
    have same: "serializeSpan d st3 x = serializeSpan d (snd q) x" for d x
    proof (induction d arbitrary: x)
      case (Suc d)
      then show ?case by (simp add: spans cong: map_cong)
    qed simp
    have root: "serializeSpan d st3 (fst q) = Some (reread_span (ts_clock st) root)"
      unfolding same using q unfolding span_read_def clk by blast
    have tr3: "ts_traces st3 t = (ts_traces st2 t)\<lparr>tr_rootSpan := Some (fst q)\<rparr>" and clk3: "ts_clock st3 = ts_clock st"
      using q clk by (simp_all add: st3_def upd_trace_def span_read_def)
    show ?thesis using root Some
      by (simp add: r serialize_trace_def tr3 tr clk3 Let_def trace_duration_def reread_trace_def cx)
  qed
qed

text \<open>
  A partition without the file of an event and without a summary that names it has nothing to
  find, and what the first partition with it finds is found.
\<close>

definition knows_nothing_of :: "(string \<Rightarrow> string) \<Rightarrow> (string \<Rightarrow> request_summary option) \<Rightarrow> nat \<Rightarrow> string \<Rightarrow> partition \<Rightarrow> bool" where
  "knows_nothing_of utf8 parse_summary maxFiles i q \<longleftrightarrow> read_file (trace_file i) q = None \<and>
     (\<forall>e \<in> set (readSummaries utf8 parse_summary maxFiles None q). \<not> summary_matches i e)"

lemma find_in_ignorant:
  "knows_nothing_of utf8 parse_summary maxFiles i q \<Longrightarrow> find_in_partition utf8 parse parse_summary maxFiles i q = None"
proof -
  assume q: "knows_nothing_of utf8 parse_summary maxFiles i q"
  then have "List.find (summary_matches i) (readSummaries utf8 parse_summary maxFiles None q) = None"
    by (simp add: knows_nothing_of_def find_None_iff)
  with q show ?thesis
    by (simp add: knows_nothing_of_def find_in_partition_def tryLoadTrace_def resolveEventIdFromSummaries_def)
qed

lemma findSerialized_skips:
  "list_all (knows_nothing_of utf8 parse_summary maxFiles i) qs \<Longrightarrow>
     findSerialized utf8 parse parse_summary maxFiles i (qs @ ps) = findSerialized utf8 parse parse_summary maxFiles i ps"
  by (induction qs) (simp_all add: find_in_ignorant)

text \<open>
  Claim C33. A trace that was written to any partition, and not omitted for its size, is found by
  its event identifier, if its file is still there, its text parses to what was serialized, no
  newer partition has a file or a summary for that identifier and siblings differ in their
  identifiers. What is rebuilt renders as the tree that was written, but for the markers, which
  are not read back, and for the durations of what has not ended, which count to the time of
  reading.
\<close>

theorem stored_trace_is_found:
  assumes "stored_trace depth json number maxSize st t = Some (Some (f, content), summary)"
    and "\<And>s. serialize_trace depth st t = Some s \<Longrightarrow> parse (json s) = Some s"
    and "newestFirst disk = qs @ p # ps" and "list_all (knows_nothing_of utf8 parse_summary maxFiles (rs_eventId summary)) qs"
    and "read_file f p = Some content" and "distinct_siblings st"
  shows "\<exists>s t' st'. serialize_trace depth st t = Some s \<and>
     find_trace utf8 parse parse_summary maxFiles cfg (rs_eventId summary) disk now = Some ((t', st'), rs_eventId summary) \<and>
     serialize_trace depth st' t' = Some (reread_trace (ts_clock now) s) \<and>
     tr_hasEnded (ts_traces st' t') = (sr_endDate s \<noteq> None)"
proof -
  obtain s where s: "serialize_trace depth st t = Some s" and f: "f = trace_file (eventIdOf (ts_traces st t))"
      "content = json s" "rs_eventId summary = eventIdOf (ts_traces st t)"
    using assms(1) by (auto simp: stored_trace_def Let_def buildSummary_def split: if_splits)
  have "tryLoadTrace parse p (rs_eventId summary) = Some s"
    using assms(2) [OF s] assms(5) f by (simp add: tryLoadTrace_def)
  then have found: "find_trace utf8 parse parse_summary maxFiles cfg (rs_eventId summary) disk now =
      Some (deserialize_trace cfg s now, rs_eventId summary)"
    by (simp add: find_trace_def assms(3) findSerialized_skips [OF assms(4)] find_in_partition_def)
  have "case sr_rootSpan s of None \<Rightarrow> True | Some r \<Rightarrow> complete_span depth r" and "sr_context s \<noteq> None"
    using s serialized_complete [OF assms(6)] by (auto simp: serialize_trace_def Let_def split: option.splits)
  from deserialized_trace [OF this refl, of cfg now] s found show ?thesis by (metis prod.collapse)
qed

section \<open>The bottleneck\<close>

abbreviation span_duration :: "tracing \<Rightarrow> nat \<Rightarrow> int" where
  "span_duration st s \<equiv> getDuration (ts_clock st) (ts_spans st s)"

abbreviation leaf_span :: "tracing \<Rightarrow> nat \<Rightarrow> bool" where
  "leaf_span st s \<equiv> sp_children (ts_spans st s) = []"

text \<open>The first among the spans without children that take longest.\<close>

definition first_slowest :: "tracing \<Rightarrow> nat list \<Rightarrow> nat \<Rightarrow> bool" where
  "first_slowest st ss i \<longleftrightarrow> i < length ss \<and> leaf_span st (ss ! i) \<and>
     (\<forall>j < length ss. leaf_span st (ss ! j) \<longrightarrow> span_duration st (ss ! j) \<le> span_duration st (ss ! i)) \<and>
     (\<forall>j < i. leaf_span st (ss ! j) \<longrightarrow> span_duration st (ss ! j) < span_duration st (ss ! i))"

lemma slowest_leaf_facts:
  "(\<forall>s \<in> set ss. leaf_span st s \<longrightarrow> span_duration st s \<le> snd (slowest_leaf st ss)) \<and>
   (case fst (slowest_leaf st ss) of None \<Rightarrow> snd (slowest_leaf st ss) = -1
    | Some s \<Rightarrow> \<exists>i. first_slowest st ss i \<and> ss ! i = s \<and> snd (slowest_leaf st ss) = span_duration st s)"
proof (induction ss rule: rev_induct)
  case Nil
  then show ?case by (simp add: slowest_leaf_def)
next
  case (snoc x ss)
  let ?old = "slowest_leaf st ss"
  have step: "slowest_leaf st (ss @ [x]) = slower_leaf st ?old x" by (simp add: slowest_leaf_def)
  show ?case
  proof (cases "leaf_span st x \<and> snd ?old < span_duration st x")
    case True
    then have new: "slowest_leaf st (ss @ [x]) = (Some x, span_duration st x)" by (simp add: step slower_leaf_def)
    have "first_slowest st (ss @ [x]) (length ss)"
      using True snoc.IH by (fastforce simp: first_slowest_def nth_append less_Suc_eq)
    then show ?thesis using True snoc.IH by (force simp: new)
  next
    case False
    then have new: "slowest_leaf st (ss @ [x]) = ?old" by (auto simp: step slower_leaf_def Let_def)
    have all: "\<forall>s \<in> set (ss @ [x]). leaf_span st s \<longrightarrow> span_duration st s \<le> snd (slowest_leaf st (ss @ [x]))"
      unfolding new using False snoc.IH by auto
    show ?thesis
    proof (cases "fst ?old")
      case None
      then have "snd ?old = -1" using snoc.IH by simp
      with None show ?thesis using all by (simp add: new)
    next
      case (Some a)
      then obtain i where i: "first_slowest st ss i" "ss ! i = a" "snd ?old = span_duration st a" using snoc.IH by auto
      then have "(ss @ [x]) ! i = a" by (simp add: first_slowest_def nth_append)
      moreover have "first_slowest st (ss @ [x]) i"
        using i False by (auto simp: first_slowest_def nth_append less_Suc_eq)
      ultimately have "\<exists>i. first_slowest st (ss @ [x]) i \<and> (ss @ [x]) ! i = a \<and> snd (slowest_leaf st (ss @ [x])) = span_duration st a"
        using i(3) unfolding new by blast
      then show ?thesis using all Some by (simp add: new del: nth_append)
    qed
  qed
qed

lemma first_slowest_unique: "first_slowest st ss i \<Longrightarrow> first_slowest st ss j \<Longrightarrow> i = j"
  unfolding first_slowest_def by (metis linorder_neqE_nat not_le)

definition row_summary :: "tree_row \<Rightarrow> string \<times> int \<times> bool" where
  "row_summary r = (ro_name r, ro_duration r, ro_isBottleneck r)"

lemma render_rows:
  "walkSpans d st s = Some ss \<Longrightarrow> render_node d st slow anc s = Some rows \<Longrightarrow>
     map row_summary rows = map (\<lambda>s. (sp_keyname (ts_spans st s), span_duration st s, fst slow = Some s \<and> 0 < snd slow)) ss"
proof (induction d arbitrary: s ss anc rows)
  case (Suc d)
  let ?cs = "sp_children (ts_spans st s)"
  let ?row = "\<lambda>s. (sp_keyname (ts_spans st s), span_duration st s, fst slow = Some s \<and> 0 < snd slow)"
  obtain wss where w: "list_all2 (\<lambda>c ws. walkSpans d st c = Some ws) ?cs wss" and ss: "ss = s # concat wss"
    using Suc.prems(1) by (auto simp: those_map_Some)
  obtain rss where r: "list_all2 (\<lambda>ic rs. (case ic of (i, c) \<Rightarrow> render_node d st slow (anc @ [Suc i = length ?cs]) c) = Some rs) (enumerate 0 ?cs) rss"
      and rows: "map row_summary rows = ?row s # map row_summary (concat rss)"
    using Suc.prems(2) by (auto simp: Let_def those_map_Some row_summary_def)
  have "map (map row_summary) rss = map (map ?row) wss"
  proof (rule nth_equalityI)
    show "length (map (map row_summary) rss) = length (map (map ?row) wss)"
      using w r by (simp add: list_all2_conv_all_nth)
    fix i assume i: "i < length (map (map row_summary) rss)"
    have "walkSpans d st (?cs ! i) = Some (wss ! i)" using w i list_all2_lengthD [OF r] by (simp add: list_all2_conv_all_nth)
    moreover have "render_node d st slow (anc @ [Suc i = length ?cs]) (?cs ! i) = Some (rss ! i)"
      using r i by (auto simp: list_all2_conv_all_nth nth_enumerate_eq)
    ultimately have "map row_summary (rss ! i) = map ?row (wss ! i)" by (rule Suc.IH)
    then show "map (map row_summary) rss ! i = map (map ?row) wss ! i"
      using w r i by (simp add: list_all2_conv_all_nth)
  qed
  then show ?case by (simp add: ss rows map_concat)
qed simp

definition flags_slowest :: "tracing \<Rightarrow> nat list \<Rightarrow> tree_row list \<Rightarrow> bool" where
  "flags_slowest st ss rows \<longleftrightarrow>
     (\<forall>i < length rows. ro_isBottleneck (rows ! i) \<longleftrightarrow> first_slowest st ss i \<and> 0 < span_duration st (ss ! i))"

text \<open>
  The rows of a rendered tree are its spans, parents first, with their names and
  durations, and the one flagged as the bottleneck is the first of the slowest spans without
  children, if that one took any time at all.
\<close>

theorem bottleneck_is_the_slowest_leaf:
  assumes "walkSpans depth st r = Some ss" and "distinct ss"
    and "render_node depth st (slowest_leaf st ss) [] r = Some rows"
  shows "map (\<lambda>row. (ro_name row, ro_duration row)) rows = map (\<lambda>s. (sp_keyname (ts_spans st s), span_duration st s)) ss \<and>
    flags_slowest st ss rows"
proof -
  let ?slow = "slowest_leaf st ss"
  note rows = render_rows [OF assms(1,3)]
  have len: "length rows = length ss" using arg_cong [OF rows, of length] by simp
  have at: "row_summary (rows ! i) = (sp_keyname (ts_spans st (ss ! i)), span_duration st (ss ! i), fst ?slow = Some (ss ! i) \<and> 0 < snd ?slow)"
    if "i < length ss" for i
    using arg_cong [OF rows, of "\<lambda>l. l ! i"] that len by simp
  have "map (\<lambda>row. (ro_name row, ro_duration row)) rows = map (\<lambda>s. (sp_keyname (ts_spans st s), span_duration st s)) ss"
    using arg_cong [OF rows, of "map (\<lambda>r. (fst r, fst (snd r)))"] by (simp add: row_summary_def comp_def)
  moreover have "ro_isBottleneck (rows ! i) \<longleftrightarrow> first_slowest st ss i \<and> 0 < span_duration st (ss ! i)" if i: "i < length rows" for i
  proof -
    have flag: "ro_isBottleneck (rows ! i) \<longleftrightarrow> fst ?slow = Some (ss ! i) \<and> 0 < snd ?slow"
      using at [of i] i len by (simp add: row_summary_def)
    show ?thesis
    proof (cases "fst ?slow")
      case None
      then have "span_duration st (ss ! i) \<le> -1" if "leaf_span st (ss ! i)"
        using slowest_leaf_facts [where ss = ss and st = st] that i len by auto
      then show ?thesis using None flag by (auto simp: first_slowest_def)
    next
      case (Some s)
      then obtain k where k: "first_slowest st ss k" "ss ! k = s" "snd ?slow = span_duration st s"
        using slowest_leaf_facts [where ss = ss and st = st] by auto
      have "ss ! i = s \<longleftrightarrow> i = k" using assms(2) k i len by (auto simp: first_slowest_def nth_eq_iff_index_eq)
      moreover have "first_slowest st ss i \<longleftrightarrow> i = k" using k(1) first_slowest_unique by blast
      ultimately show ?thesis using flag Some k by auto
    qed
  qed
  ultimately show ?thesis unfolding flags_slowest_def by blast
qed

section \<open>An example\<close>

text \<open>A trace of a root and two children, the second of which is the slower.\<close>

definition ended_span :: "string \<Rightarrow> nat \<Rightarrow> nat \<Rightarrow> nat option \<Rightarrow> nat list \<Rightarrow> span" where
  "ended_span k a b p cs = \<lparr>sp_id = k, sp_keyname = k, sp_manager = None, sp_trace = Some 0, sp_startDate = a, sp_endDate = Some b,
     sp_parent = p, sp_children = cs, sp_markers = [], sp_context = [], sp_inProgress = False\<rparr>"

definition traced :: tracing where
  "traced = \<lparr>ts_spans = (\<lambda>n. if n = 0 then ended_span ''root'' 1 9 None [1, 2] else if n = 1 then ended_span ''a'' 2 3 (Some 0) []
       else ended_span ''b'' 4 8 (Some 0) []),
     ts_span_count = 3,
     ts_traces = (\<lambda>n. \<lparr>tr_id = ''e'', tr_startDate = 1, tr_endDate = Some 9, tr_rootSpan = Some 0, tr_spansByKeyname = [],
       tr_context = [], tr_hasEnded = True\<rparr>),
     ts_trace_count = 1, ts_contexts = (\<lambda>n. \<lparr>ec_trace = None, ec_traceId = None\<rparr>), ts_context_count = 0, ts_current = None,
     ts_fallback = (\<lambda>n. None), ts_traceId = None, ts_stream = [], ts_log = [], ts_clock = 10\<rparr>"

definition traced_partition :: partition where
  "traced_partition = \<lparr>pa_name = ''p'', pa_mtime = 1, pa_files = [(trace_file ''e'', ''t'', 9)]\<rparr>"

definition newer_partition :: partition where
  "newer_partition = \<lparr>pa_name = ''q'', pa_mtime = 2, pa_files = [(trace_file ''f'', ''t'', 9)]\<rparr>"

lemma newer_knows_nothing: "knows_nothing_of (\<lambda>b. b) (\<lambda>c. None) 3 ''e'' newer_partition"
  by (simp add: knows_nothing_of_def newer_partition_def read_file_def trace_file_def readSummaries_def
      generation_contents_def generation_files_def existing_files_def numeral_3_eq_3)

lemma newer_mtime: "pa_mtime newer_partition = 2"
  by (simp add: newer_partition_def)

lemma buildSummary_event: "rs_eventId (buildSummary number st t i) = i"
  by (simp add: buildSummary_def Let_def)

definition traced_config :: tracing_config where
  "traced_config = \<lparr>tracing_active = True, fresh_uuid = show_nat, stack_depth = 10\<rparr>"

lemma traced_siblings: "distinct_siblings traced"
  by (simp add: distinct_siblings_def traced_def ended_span_def)

lemma traced_stored:
  "stored_trace (Suc (Suc 0)) (\<lambda>s. ''t'') (\<lambda>s. None) 100 traced 0 =
     Some (Some (trace_file ''e'', ''t''), buildSummary (\<lambda>s. None) traced 0 ''e'')"
  by (simp add: stored_trace_def serialize_trace_def traced_def ended_span_def eventIdOf_def Let_def)

lemma stored_trace_is_found_witness:
  "\<exists>s t' st'. serialize_trace (Suc (Suc 0)) traced 0 = Some s \<and>
     find_trace (\<lambda>b. b) (\<lambda>c. serialize_trace (Suc (Suc 0)) traced 0) (\<lambda>c. None) 3 traced_config
       (rs_eventId (buildSummary (\<lambda>s. None) traced 0 ''e'')) [traced_partition, newer_partition] traced =
       Some ((t', st'), rs_eventId (buildSummary (\<lambda>s. None) traced 0 ''e'')) \<and>
     serialize_trace (Suc (Suc 0)) st' t' = Some (reread_trace (ts_clock traced) s) \<and>
     tr_hasEnded (ts_traces st' t') = (sr_endDate s \<noteq> None)"
  by (rule stored_trace_is_found [OF traced_stored, of _ "[traced_partition, newer_partition]" "[newer_partition]" traced_partition "[]"])
     (simp_all add: newestFirst_def sort_desc_def read_file_def traced_partition_def traced_siblings
        newer_knows_nothing newer_mtime buildSummary_event)

lemma traced_walk: "walkSpans (Suc (Suc 0)) traced 0 = Some [0, 1, 2]"
  by (simp add: traced_def ended_span_def)

definition traced_rows :: "tree_row list" where
  "traced_rows = [\<lparr>ro_prefix = [], ro_name = ''root'', ro_duration = 8, ro_isBottleneck = False\<rparr>,
     \<lparr>ro_prefix = [Tee], ro_name = ''a'', ro_duration = 1, ro_isBottleneck = False\<rparr>,
     \<lparr>ro_prefix = [Corner], ro_name = ''b'', ro_duration = 4, ro_isBottleneck = True\<rparr>]"

lemma traced_rendered: "render_node (Suc (Suc 0)) traced (slowest_leaf traced [0, 1, 2]) [] 0 = Some traced_rows"
  by (simp add: traced_def ended_span_def slowest_leaf_def slower_leaf_def getDuration_def row_prefix_def traced_rows_def)

lemma bottleneck_is_the_slowest_leaf_witness:
  "map (\<lambda>row. (ro_name row, ro_duration row)) traced_rows =
     map (\<lambda>s. (sp_keyname (ts_spans traced s), getDuration (ts_clock traced) (ts_spans traced s))) [0, 1, 2] \<and>
   flags_slowest traced [0, 1, 2] traced_rows"
  by (rule bottleneck_is_the_slowest_leaf [OF traced_walk _ traced_rendered]) simp

end
