(* ===== verification/Node_Paths.thy ===== *)
theory Node_Paths
  imports Js_Values
begin

text \<open>
  Paths as Node's \<open>path\<close> module takes them apart and joins them under POSIX.
\<close>

section \<open>The last segment\<close>

text \<open>\<open>path.basename\<close>, \<open>path.extname\<close>, and the first without the second.\<close>

definition path_base :: "string \<Rightarrow> string" where
  "path_base p = (let parts = filter (\<lambda>s. s \<noteq> []) (split_on (CHR ''/'') p) in if parts = [] then [] else last parts)"

fun last_index_of :: "char \<Rightarrow> string \<Rightarrow> nat option" where
  "last_index_of c [] = None"
| "last_index_of c (x # xs) = (case last_index_of c xs of Some i \<Rightarrow> Some (Suc i) | None \<Rightarrow> if x = c then Some 0 else None)"

definition path_extname :: "string \<Rightarrow> string" where
  "path_extname p = (let b = path_base p in
     case last_index_of (CHR ''.'') b of
       None \<Rightarrow> []
     | Some i \<Rightarrow> if i = 0 \<or> b = ''..'' then [] else drop i b)"

definition path_basename_without :: "string \<Rightarrow> string \<Rightarrow> string" where
  "path_basename_without p ext = (let b = path_base p in
     if ext \<noteq> [] \<and> ends_with b ext \<and> b \<noteq> ext then take (length b - length ext) b else b)"

section \<open>Joining\<close>

text \<open>The segments of a path, resolved: dots are dropped and two dots take the segment before with them.\<close>

definition resolve_step :: "bool \<Rightarrow> string list \<Rightarrow> string \<Rightarrow> string list" where
  "resolve_step aboveRoot acc s =
     (if s = [] \<or> s = ''.'' then acc
      else if s = ''..'' then
        (if acc \<noteq> [] \<and> last acc \<noteq> ''..'' then butlast acc else if aboveRoot then acc @ [''..''] else acc)
      else acc @ [s])"

definition resolve_segments :: "bool \<Rightarrow> string list \<Rightarrow> string list" where
  "resolve_segments aboveRoot ss = foldl (resolve_step aboveRoot) [] ss"

definition path_normalize :: "string \<Rightarrow> string" where
  "path_normalize p =
     (if p = [] then ''.''
      else
        (let absolute = starts_with p ''/''; trailing = ends_with p ''/'';
             s = join ''/'' (resolve_segments (\<not> absolute) (split_on (CHR ''/'') p)) in
         if s = [] then (if absolute then ''/'' else if trailing then ''./'' else ''.'')
         else (if absolute then ''/'' else []) @ s @ (if trailing then ''/'' else [])))"

definition path_join :: "string list \<Rightarrow> string" where
  "path_join ps = path_normalize (join ''/'' (filter (\<lambda>p. p \<noteq> []) ps))"

section \<open>Where resolved segments lead\<close>

text \<open>Segments that never climb above where they start.\<close>

fun stays_down :: "nat \<Rightarrow> string list \<Rightarrow> bool" where
  "stays_down k [] = True"
| "stays_down k (s # ss) =
     (if s = [] \<or> s = ''.'' then stays_down k ss
      else if s = ''..'' then (case k of 0 \<Rightarrow> False | Suc j \<Rightarrow> stays_down j ss)
      else stays_down (Suc k) ss)"

lemma resolve_plain:
  assumes "\<forall>s \<in> set ds. s \<noteq> [] \<and> s \<noteq> ''.'' \<and> s \<noteq> ''..''"
  shows "foldl (resolve_step a) acc ds = acc @ ds"
  using assms by (induction ds arbitrary: acc) (simp_all add: resolve_step_def)

lemma resolve_step_stays:
  assumes "stays_down (length xs) (s # ss)" and "list_all (\<lambda>x. x \<notin> {[], ''.'', ''..''}) xs"
  shows "resolve_step a (ds @ xs) s = ds @ resolve_step a xs s \<and> stays_down (length (resolve_step a xs s)) ss \<and>
    list_all (\<lambda>x. x \<notin> {[], ''.'', ''..''}) (resolve_step a xs s) \<and> set (resolve_step a xs s) \<subseteq> set xs \<union> {s}"
proof -
  consider "s = [] \<or> s = ''.''" | "s = ''..''" | "s \<noteq> []" "s \<noteq> ''.''" "s \<noteq> ''..''" by blast
  then show ?thesis
  proof cases
    case 1
    then show ?thesis using assms by (auto simp: resolve_step_def)
  next
    case 2
    then obtain zs z where z: "xs = zs @ [z]" using assms(1) by (cases xs rule: rev_cases) auto
    have "z \<noteq> ''..''" using assms(2) z by simp
    then have step: "resolve_step a (ds @ xs) s = ds @ zs" "resolve_step a xs s = zs"
      using 2 z by (simp_all add: resolve_step_def butlast_append)
    show ?thesis unfolding step using assms z 2 by auto
  next
    case 3
    then have step: "resolve_step a (ds @ xs) s = ds @ (xs @ [s])" "resolve_step a xs s = xs @ [s]" by (simp_all add: resolve_step_def)
    show ?thesis unfolding step using assms 3 by auto
  qed
qed

lemma resolve_stays:
  "stays_down (length xs) ss \<Longrightarrow> list_all (\<lambda>x. x \<notin> {[], ''.'', ''..''}) xs \<Longrightarrow>
    foldl (resolve_step a) (ds @ xs) ss = ds @ foldl (resolve_step a) xs ss \<and>
    list_all (\<lambda>x. x \<notin> {[], ''.'', ''..''}) (foldl (resolve_step a) xs ss) \<and> set (foldl (resolve_step a) xs ss) \<subseteq> set xs \<union> set ss"
proof (induction ss arbitrary: xs)
  case (Cons s ss)
  note step = resolve_step_stays [OF Cons.prems, of a ds]
  have "foldl (resolve_step a) (ds @ resolve_step a xs s) ss = ds @ foldl (resolve_step a) (resolve_step a xs s) ss \<and>
    list_all (\<lambda>x. x \<notin> {[], ''.'', ''..''}) (foldl (resolve_step a) (resolve_step a xs s) ss) \<and>
    set (foldl (resolve_step a) (resolve_step a xs s) ss) \<subseteq> set (resolve_step a xs s) \<union> set ss"
    by (rule Cons.IH) (use step in blast)+
  then show ?case unfolding foldl_Cons using step by (simp only: set_simps) blast
qed simp

end
