(* ===== verification/Cli_Arguments.thy ===== *)
theory Cli_Arguments
  imports Node_Paths
begin

text \<open>
  The command line of \<open>packages/cli\<close>: the search for the program in \<open>argv\<close>, the two event mappers
  that share it, the parsing of arguments, and a line of the interactive console. A number is the decimal text that \<open>parseFloat\<close> reads; argument names that
  \<open>Object.prototype\<close> has are outside the model.
\<close>

section \<open>Numbers\<close>

text \<open>The longest prefix that is a decimal literal, after white space; \<open>None\<close> is \<open>NaN\<close>.\<close>

definition digits_of :: "string \<Rightarrow> string" where
  "digits_of s = takeWhile is_digit s"

definition exponent_of :: "string \<Rightarrow> string" where
  "exponent_of s = (case s of [] \<Rightarrow> []
     | e # t \<Rightarrow> if e \<noteq> CHR ''e'' \<and> e \<noteq> CHR ''E'' then [] else
         (let sign = (case t of [] \<Rightarrow> [] | c # u \<Rightarrow> if c = CHR ''+'' \<or> c = CHR ''-'' then [c] else []);
              ds = digits_of (drop (length sign) t) in
          if ds = [] then [] else e # sign @ ds))"

definition unsigned_decimal :: "string \<Rightarrow> string" where
  "unsigned_decimal s =
     (if starts_with s ''Infinity'' then ''Infinity'' else
      (let whole = digits_of s;
           rest = drop (length whole) s;
           fraction = (if starts_with rest ''.'' then CHR ''.'' # digits_of (drop 1 rest) else []) in
       if whole = [] \<and> length fraction \<le> 1 then []
       else whole @ fraction @ exponent_of (drop (length fraction) rest)))"

definition parse_float :: "string \<Rightarrow> string option" where
  "parse_float s = (let t = dropWhile is_space s;
      sign = (case t of [] \<Rightarrow> [] | c # u \<Rightarrow> if c = CHR ''+'' \<or> c = CHR ''-'' then [c] else []);
      body = unsigned_decimal (drop (length sign) t) in
    if body = [] then None else Some (sign @ body))"

section \<open>The program in argv\<close>

record pristine_argv =
  av_scriptPath :: string
  av_userArgs :: "string list"

definition isPristineBin :: "jsv \<Rightarrow> bool" where
  "isPristineBin v = (case as_string v of None \<Rightarrow> False | Some s \<Rightarrow> path_basename_without s (path_extname s) = ''pristine'')"

definition new_PristineArgv :: "jsv list \<Rightarrow> pristine_argv" where
  "new_PristineArgv argv = (case dropWhile (\<lambda>v. \<not> isPristineBin v) argv of
       [] \<Rightarrow> \<lparr>av_scriptPath = [], av_userArgs = []\<rparr>
     | b # rest \<Rightarrow> \<lparr>av_scriptPath = (case as_string b of Some s \<Rightarrow> s | None \<Rightarrow> []),
         av_userArgs = List.map_filter as_string rest\<rparr>)"

definition argv_isValid :: "pristine_argv \<Rightarrow> bool" where
  "argv_isValid a \<longleftrightarrow> av_scriptPath a \<noteq> []"

section \<open>Arguments\<close>

datatype arg_atom = Arg_Text string | Arg_Number string | Arg_Bool bool

datatype arg_value = One arg_atom | Many "arg_atom list"

type_synonym arguments = "arg_value obj"

text \<open>A text that is given again makes a list; a number or a boolean replaces what was there.\<close>

definition accumulate_arg :: "string \<Rightarrow> string \<Rightarrow> arguments \<Rightarrow> arguments" where
  "accumulate_arg name v ob = (case obj_get ob name of
       None \<Rightarrow> obj_set name (One (Arg_Text v)) ob
     | Some (One a) \<Rightarrow> obj_set name (Many [a, Arg_Text v]) ob
     | Some (Many xs) \<Rightarrow> obj_set name (Many (xs @ [Arg_Text v])) ob)"

definition positional_arg :: "string \<Rightarrow> arguments \<Rightarrow> arguments" where
  "positional_arg arg ob = (let ob1 = obj_set arg (One (Arg_Bool True)) ob;
      xs = (case obj_get ob1 ''_'' of Some (Many xs) \<Rightarrow> xs | _ \<Rightarrow> []) in
    obj_set ''_'' (Many (xs @ [Arg_Text arg])) ob1)"

text \<open>The value after an option.\<close>

definition following_value :: "string \<Rightarrow> string \<Rightarrow> arguments \<Rightarrow> arguments" where
  "following_value name v ob = (case parse_float v of
       Some n \<Rightarrow> obj_set name (One (Arg_Number n)) ob
     | None \<Rightarrow>
         if to_lower v = ''true'' then obj_set name (One (Arg_Bool True)) ob
         else if to_lower v = ''false'' then obj_set name (One (Arg_Bool False)) ob
         else accumulate_arg name v ob)"

fun parse_args :: "string list \<Rightarrow> arguments \<Rightarrow> arguments" where
  "parse_args [] ob = ob"
| "parse_args (arg # rest) ob =
     (if \<not> starts_with arg ''-'' then parse_args rest (positional_arg arg ob)
      else (let dashes = (if starts_with arg ''--'' then 2 else 1); name = drop dashes arg in
        case (if dashes = 2 then index_of (CHR ''='') name else None) of
          Some i \<Rightarrow> parse_args rest (accumulate_arg (take i name) (drop (Suc i) name) ob)
        | None \<Rightarrow> (case rest of
            [] \<Rightarrow> obj_set name (One (Arg_Bool True)) ob
          | v # rest' \<Rightarrow>
              if starts_with v ''-'' then parse_args (v # rest') (obj_set name (One (Arg_Bool True)) ob)
              else parse_args rest' (following_value name v ob))))"

section \<open>The mappers\<close>

record command_payload =
  cp_name :: string
  cp_scriptPath :: string
  cp_arguments :: arguments

datatype cli_payload = Command_Payload command_payload | Start_Repl_Payload string

text \<open>A raw event that is an array, and whether the execution context is that of the command line.\<close>

definition array_items :: "jsv \<Rightarrow> jsv list option" where
  "array_items v = (case v of JArray vs \<Rightarrow> Some vs | _ \<Rightarrow> None)"

definition command_supportsMapping :: "bool \<Rightarrow> jsv \<Rightarrow> bool" where
  "command_supportsMapping cli raw = (cli \<and> (case array_items raw of None \<Rightarrow> False | Some vs \<Rightarrow>
     (let a = new_PristineArgv vs in argv_isValid a \<and> (case av_userArgs a of [] \<Rightarrow> False | n # _ \<Rightarrow> n \<noteq> ''repl''))))"

definition command_map :: "jsv \<Rightarrow> thrown + cli_payload" where
  "command_map raw = (case array_items raw of
       None \<Rightarrow> Inl (NativeErr ''Error'' (''If using the '' @ quoted ''CLI'' @ '', process.argv should be passed as the event.'') None None)
     | Some vs \<Rightarrow> (let a = new_PristineArgv vs in
         if \<not> argv_isValid a \<or> av_userArgs a = [] then
           Inl (NativeErr ''Error'' (''If using the '' @ quoted ''CLI'' @ '', there must be at least one command passed'') None None)
         else Inr (Command_Payload \<lparr>cp_name = hd (av_userArgs a), cp_scriptPath = av_scriptPath a,
           cp_arguments = parse_args (tl (av_userArgs a)) []\<rparr>)))"

definition repl_supportsMapping :: "bool \<Rightarrow> jsv \<Rightarrow> bool" where
  "repl_supportsMapping cli raw = (cli \<and> (case array_items raw of None \<Rightarrow> False | Some vs \<Rightarrow>
     (let a = new_PristineArgv vs in argv_isValid a \<and> (case av_userArgs a of [] \<Rightarrow> True | n # _ \<Rightarrow> n = ''repl''))))"

definition repl_map :: "jsv \<Rightarrow> cli_payload" where
  "repl_map raw = Start_Repl_Payload (av_scriptPath (new_PristineArgv (case array_items raw of None \<Rightarrow> [] | Some vs \<Rightarrow> vs)))"

section \<open>A line of the console\<close>

fun words_of :: "string \<Rightarrow> string \<Rightarrow> string list" where
  "words_of w [] = (if w = [] then [] else [w])"
| "words_of w (c # cs) = (if is_space c then (if w = [] then words_of [] cs else w # words_of [] cs) else words_of (w @ [c]) cs)"

datatype repl_action = Repl_Prompt | Repl_Exit | Repl_Clear | Repl_Help | Repl_Dispatch jsv

text \<open>What a line does; a line without a word leaves the name \<open>undefined\<close>.\<close>

definition repl_line :: "string \<Rightarrow> repl_action" where
  "repl_line line = (let input = trim line in
     if input = [] then Repl_Prompt else
     (let tokens = words_of [] (if starts_with input ''/'' then drop 1 input else input);
          name = (case tokens of [] \<Rightarrow> None | n # _ \<Rightarrow> Some n) in
      if name = Some ''exit'' \<or> name = Some ''quit'' then Repl_Exit
      else if name = Some ''clear'' then Repl_Clear
      else if name = Some ''help'' then Repl_Help
      else Repl_Dispatch (JArray ([js_string ''node'', js_string ''pristine'',
        case name of None \<Rightarrow> JUndefined | Some n \<Rightarrow> js_string n] @ map js_string (drop 1 tokens)))))"

text \<open>
  The completer: \<open>recent\<close> are the recent trace identifiers. The regular expression wants \<open>/trace\<close> or
  \<open>/logs\<close>, white space, and a last word without any.
\<close>

definition trace_id_partial :: "string \<Rightarrow> string option" where
  "trace_id_partial line =
     (case (if starts_with line ''/trace'' then Some (drop 6 line) else if starts_with line ''/logs'' then Some (drop 5 line) else None) of
        None \<Rightarrow> None
      | Some rest \<Rightarrow> (let w = dropWhile is_space rest in
          if w = rest \<or> \<not> list_all (\<lambda>c. \<not> is_space c) w then None else Some w))"

definition session_verbs :: "string list" where
  "session_verbs = [''/help'', ''/clear'', ''/exit'']"

definition repl_complete :: "string list \<Rightarrow> string list \<Rightarrow> string \<Rightarrow> string list \<times> string" where
  "repl_complete recent names line = (case trace_id_partial line of
       Some p \<Rightarrow> (filter (\<lambda>i. starts_with i p) recent, p)
     | None \<Rightarrow> (let candidates = map ((#) (CHR ''/'')) names @ session_verbs;
          hits = filter (\<lambda>c. starts_with c line) candidates in
        (if hits \<noteq> [] then hits else candidates, line)))"

section \<open>Properties\<close>

text \<open>
  Under the command line's context the two mappers share what names the program: an array that
  does is claimed by exactly one of them, and anything else by none.
\<close>

theorem cli_mappers_partition:
  "(command_supportsMapping cli raw \<or> repl_supportsMapping cli raw) =
     (cli \<and> (\<exists>vs. raw = JArray vs \<and> list_ex isPristineBin vs)) \<and>
   \<not> (command_supportsMapping cli raw \<and> repl_supportsMapping cli raw)"
proof -
  have bin: "as_string v = Some s \<and> s \<noteq> []" if "isPristineBin v" "s = the (as_string v)" for v s
    using that by (auto simp: isPristineBin_def path_basename_without_def path_extname_def path_base_def split: option.splits)
  have valid: "argv_isValid (new_PristineArgv vs) \<longleftrightarrow> list_ex isPristineBin vs" for vs
  proof (induction vs)
    case (Cons v vs)
    show ?case
    proof (cases "isPristineBin v")
      case True
      then obtain s where "as_string v = Some s" "s \<noteq> []" using bin by blast
      with True show ?thesis by (simp add: new_PristineArgv_def argv_isValid_def)
    next
      case False
      then have "new_PristineArgv (v # vs) = new_PristineArgv vs" by (simp add: new_PristineArgv_def)
      with False Cons show ?thesis by simp
    qed
  qed (simp add: new_PristineArgv_def argv_isValid_def)
  show ?thesis
  proof (cases raw)
    case (JArray vs)
    then show ?thesis using valid [of vs]
      by (cases "av_userArgs (new_PristineArgv vs)")
        (auto simp: command_supportsMapping_def repl_supportsMapping_def array_items_def Let_def)
  qed (auto simp: command_supportsMapping_def repl_supportsMapping_def array_items_def)
qed

text \<open>A value that starts with a dash is an option of its own, and digits in front of a text make it a number.\<close>

theorem negative_value_is_an_option:
  "parse_args [''--offset'', ''-5''] [] = [(''offset'', One (Arg_Bool True)), (''5'', One (Arg_Bool True))]"
  by code_simp

theorem version_is_cut_to_a_number:
  "parse_args [''--tag'', ''1.2.3''] [] = [(''tag'', One (Arg_Number ''1.2''))] \<and>
   parse_args [''--id'', ''7f3a''] [] = [(''id'', One (Arg_Number ''7''))] \<and>
   parse_args [''--id=7f3a''] [] = [(''id'', One (Arg_Text ''7f3a''))]"
  by (intro conjI) code_simp+

text \<open>A positional argument \<open>_\<close> discards those before it.\<close>

theorem underscore_discards_positionals:
  "obj_get (parse_args [''a'', ''_'', ''b''] []) ''_'' = Some (Many [Arg_Text ''_'', Arg_Text ''b''])"
  by code_simp

text \<open>A line of the console that is a slash alone starts a session within the session.\<close>

theorem slash_starts_a_nested_session:
  "\<exists>argv. repl_line ''/'' = Repl_Dispatch argv \<and> repl_supportsMapping True argv \<and> \<not> command_supportsMapping True argv"
  by (rule exI [of _ "JArray [js_string ''node'', js_string ''pristine'', JUndefined]"]) code_simp

subsection \<open>What a list of arguments means\<close>



































end
