(* ===== verification/Cli_Prompts.thy ===== *)
theory Cli_Prompts
  imports Cli_Arguments
begin

text \<open>
  What the command line asks (\<open>packages/cli\<close>): the keys of a terminal in raw mode, the menu and
  the masked input over them, the questions answered by lines, and the filling of parameters. What
  the user does is a list: of chunks of the input stream, or of answers. \<open>None\<close> is a prompt that
  waits for more; a cancelled one throws. Restoring the terminal is left out.
\<close>

section \<open>Errors with an exit code\<close>

text \<open>A thrown value with the options that only the command line reads; the details are rendered.\<close>

record cli_failure =
  cf_error :: thrown
  cf_exitCode :: "int option"
  cf_plain :: bool
  cf_details :: "(string \<times> string) list option"

definition plain_failure :: "thrown \<Rightarrow> cli_failure" where
  "plain_failure e = \<lparr>cf_error = e, cf_exitCode = None, cf_plain = False, cf_details = None\<rparr>"

definition UsageError :: "string \<Rightarrow> string \<Rightarrow> bool \<Rightarrow> (string \<times> string) list option \<Rightarrow> thrown option \<Rightarrow> cli_failure" where
  "UsageError msg code plain_mode details cause =
     \<lparr>cf_error = new_PristineError ''UsageError'' msg (Some UserError) (Some code) None
        (if details = None then None else Some ''details'') None cause,
      cf_exitCode = Some 64, cf_plain = plain_mode, cf_details = details\<rparr>"

section \<open>Keys\<close>

datatype key_name = Key_Up | Key_Down | Key_Enter | Key_Backspace | Key_CtrlC | Key_Character | Key_Other

type_synonym terminal_key = "key_name \<times> string"

definition escape_char :: char where
  "escape_char = CHR 0x1B"

definition decodeControl :: "string \<Rightarrow> terminal_key option" where
  "decodeControl s =
     (if s = [escape_char, CHR ''['', CHR ''A''] then Some (Key_Up, s)
      else if s = [escape_char, CHR ''['', CHR ''B''] then Some (Key_Down, s)
      else if s = [CHR 0x0D] \<or> s = [CHR 0x0A] then Some (Key_Enter, s)
      else if s = [CHR 0x7F] \<or> s = [CHR 0x08] then Some (Key_Backspace, s)
      else if s = [CHR 0x03] then Some (Key_CtrlC, s)
      else None)"

definition decode_char :: "char \<Rightarrow> terminal_key" where
  "decode_char c = (case decodeControl [c] of
       Some k \<Rightarrow> k
     | None \<Rightarrow> if (of_char c :: nat) < 32 then (Key_Other, [c]) else (Key_Character, [c]))"

definition decode_keys :: "string \<Rightarrow> terminal_key list" where
  "decode_keys data = (case decodeControl data of
       Some k \<Rightarrow> [k]
     | None \<Rightarrow> if data \<noteq> [] \<and> hd data = escape_char then [(Key_Other, data)] else map decode_char data)"

definition PromptCancelledError :: cli_failure where
  "PromptCancelledError = \<lparr>cf_error = new_PristineError ''PromptCancelledError'' ''Prompt cancelled.'' (Some UserError) (Some ''PROMPT_CANCELLED'') None None None None,
     cf_exitCode = Some 130, cf_plain = False, cf_details = None\<rparr>"

text \<open>A handler of keys returns its state and, when it resolves, the result.\<close>

type_synonym ('s, 'r) on_key = "key_name \<Rightarrow> string \<Rightarrow> 's \<Rightarrow> 's \<times> 'r option"

fun read_keys :: "('s, 'r) on_key \<Rightarrow> terminal_key list \<Rightarrow> 's \<Rightarrow> 's \<times> (cli_failure + 'r) option" where
  "read_keys onKey [] s = (s, None)"
| "read_keys onKey ((n, q) # ks) s =
     (if n = Key_CtrlC then (s, Some (Inl PromptCancelledError))
      else (case onKey n q s of (s', Some r) \<Rightarrow> (s', Some (Inr r)) | (s', None) \<Rightarrow> read_keys onKey ks s'))"

text \<open>The stream as chunks; what follows in the chunk that settles the read is lost.\<close>

fun key_chunks :: "('s, 'r) on_key \<Rightarrow> string list \<Rightarrow> 's \<Rightarrow> (cli_failure + 'r) option" where
  "key_chunks onKey [] s = None"
| "key_chunks onKey (c # cs) s =
     (case read_keys onKey (decode_keys c) s of (s', Some r) \<Rightarrow> Some r | (s', None) \<Rightarrow> key_chunks onKey cs s')"

section \<open>Menus and secrets\<close>

record 'v choice =
  ch_name :: string
  ch_value :: 'v

definition select_key :: "'v choice list \<Rightarrow> (nat, 'v) on_key" where
  "select_key choices n q active =
     (let len = length choices in
      case n of
        Key_Up \<Rightarrow> ((active + len - 1) mod len, None)
      | Key_Down \<Rightarrow> ((active + 1) mod len, None)
      | Key_Enter \<Rightarrow> (active, Some (ch_value (choices ! active)))
      | _ \<Rightarrow> (active, None))"

fun find_index :: "('a \<Rightarrow> bool) \<Rightarrow> 'a list \<Rightarrow> nat option" where
  "find_index P [] = None"
| "find_index P (x # xs) = (if P x then Some 0 else map_option Suc (find_index P xs))"

definition cli_select :: "'v choice list \<Rightarrow> 'v option \<Rightarrow> string list \<Rightarrow> (cli_failure + 'v) option" where
  "cli_select choices defaultValue chunks =
     (if choices = [] then Some (Inl (plain_failure (NativeErr ''Error'' ''CliPrompt.select requires at least one choice.'' None None)))
      else key_chunks (select_key choices) chunks
        (case find_index (\<lambda>c. Some (ch_value c) = defaultValue) choices of Some i \<Rightarrow> i | None \<Rightarrow> 0))"

definition secret_key :: "(string, string) on_key" where
  "secret_key n q value = (case n of
      Key_Enter \<Rightarrow> (value, Some value)
    | Key_Backspace \<Rightarrow> (butlast value, None)
    | Key_Character \<Rightarrow> (value @ q, None)
    | _ \<Rightarrow> (value, None))"

definition readSecret :: "string list \<Rightarrow> (cli_failure + string) option" where
  "readSecret chunks = key_chunks secret_key chunks []"

section \<open>Lines\<close>

definition parse_boolean_answer :: "string \<Rightarrow> bool option" where
  "parse_boolean_answer raw = (let n = to_lower (trim raw) in
     if n \<in> set [''y'', ''yes'', ''true'', ''1''] then Some True
     else if n \<in> set [''n'', ''no'', ''false'', ''0''] then Some False
     else None)"

text \<open>An answer is a line or the cancellation.\<close>

datatype answer = Line_Answer string | Cancelled

fun confirm :: "bool \<Rightarrow> answer list \<Rightarrow> ((cli_failure + bool) \<times> answer list) option" where
  "confirm defaultValue [] = None"
| "confirm defaultValue (Cancelled # as) = Some (Inl PromptCancelledError, as)"
| "confirm defaultValue (Line_Answer l # as) =
     (if trim l = [] then Some (Inr defaultValue, as)
      else case parse_boolean_answer l of Some b \<Rightarrow> Some (Inr b, as) | None \<Rightarrow> confirm defaultValue as)"

definition line_input :: "string option \<Rightarrow> answer list \<Rightarrow> ((cli_failure + string) \<times> answer list) option" where
  "line_input defaultValue as = (case as of
      [] \<Rightarrow> None
    | Cancelled # as' \<Rightarrow> Some (Inl PromptCancelledError, as')
    | Line_Answer l # as' \<Rightarrow> Some (Inr (case defaultValue of None \<Rightarrow> trim l | Some d \<Rightarrow> if trim l = [] then d else trim l), as'))"

section \<open>Parameters\<close>

text \<open>
  The parameters of an options class as its decorators declare them. \<open>pd_menu\<close> is what resolves its
  choices from the arguments, \<open>None\<close> where it has none.
\<close>

record param_decl =
  pd_property :: string
  pd_flag :: "string option"
  pd_question :: "string option"
  pd_sensitive :: bool
  pd_boolean :: bool
  pd_menu :: "jsv obj \<Rightarrow> string choice list option"

definition effective_flag :: "param_decl \<Rightarrow> string" where
  "effective_flag p = (case pd_flag p of Some f \<Rightarrow> f | None \<Rightarrow> pd_property p)"

definition flag_conflict :: "string \<Rightarrow> string \<Rightarrow> string \<Rightarrow> string \<Rightarrow> cli_failure" where
  "flag_conflict target existing prop flag = UsageError
     (''Command parameters '' @ quoted existing @ '' and '' @ quoted prop @ '' on '' @ quoted target @
      '' both bind to the flag '' @ quoted (''--'' @ flag) @ ''. Give one of them a distinct '' @ quoted ''flag'' @ ''.'')
     ''COMMAND_PARAMETER_FLAG_CONFLICT'' False
     (Some [(''targetType'', target), (''flag'', flag), (''properties'', ''['' @ json_string existing @ '','' @ json_string prop @ '']'')]) None"

fun collect_parameters :: "string \<Rightarrow> (string \<times> string) list \<Rightarrow> param_decl list \<Rightarrow> cli_failure + (param_decl \<times> string) list" where
  "collect_parameters target seen [] = Inr []"
| "collect_parameters target seen (p # ps) =
     (let flag = effective_flag p in
      case map_of seen flag of
        Some existing \<Rightarrow> Inl (flag_conflict target existing (pd_property p) flag)
      | None \<Rightarrow> sum_bind (collect_parameters target ((flag, pd_property p) # seen) ps) (\<lambda>qs. Inr ((p, flag) # qs)))"

text \<open>
  What an answer is worth: the mapper and the validator of the property. A user's session is the
  list of answers; a menu is answered by the text it resolves to.
\<close>

datatype coerced = Valid_Answer jsv | Invalid_Answer "string list"

type_synonym coercion = "string \<Rightarrow> string \<Rightarrow> coerced"

definition max_attempts :: nat where
  "max_attempts = 5"

definition answer_text :: "param_decl \<Rightarrow> string \<Rightarrow> string" where
  "answer_text p l = (if pd_sensitive p then l else trim l)"

text \<open>The loop over attempts: the value or \<open>undefined\<close>, the answers left, and how many were asked for.\<close>

fun ask_attempts :: "coercion \<Rightarrow> param_decl \<Rightarrow> nat \<Rightarrow> answer list \<Rightarrow> ((cli_failure + jsv) \<times> answer list) option" where
  "ask_attempts coerce p 0 as = Some (Inr JUndefined, as)"
| "ask_attempts coerce p (Suc n) [] = None"
| "ask_attempts coerce p (Suc n) (Cancelled # as) = Some (Inl PromptCancelledError, as)"
| "ask_attempts coerce p (Suc n) (Line_Answer l # as) =
     (let raw = answer_text p l in
      if raw = [] then Some (Inr JUndefined, as)
      else if pd_boolean p \<and> \<not> pd_sensitive p then
        (case parse_boolean_answer raw of
           Some b \<Rightarrow> Some (Inr (JAtom (if b then ''true'' else ''false'')), as)
         | None \<Rightarrow> ask_attempts coerce p n as)
      else (case coerce (pd_property p) raw of
           Valid_Answer v \<Rightarrow> Some (Inr v, as)
         | Invalid_Answer ms \<Rightarrow> ask_attempts coerce p n as))"

definition menu_of :: "param_decl \<Rightarrow> jsv obj \<Rightarrow> string choice list option" where
  "menu_of p args = (if pd_sensitive p \<or> pd_boolean p then None
     else case pd_menu p args of None \<Rightarrow> None | Some cs \<Rightarrow> if cs = [] then None else Some cs)"

definition selected_value :: "coercion \<Rightarrow> param_decl \<Rightarrow> string \<Rightarrow> jsv" where
  "selected_value coerce p s = (case coerce (pd_property p) s of Valid_Answer v \<Rightarrow> v | Invalid_Answer ms \<Rightarrow> js_string s)"

definition promptForValue :: "coercion \<Rightarrow> param_decl \<Rightarrow> jsv obj \<Rightarrow> answer list \<Rightarrow> ((cli_failure + jsv) \<times> answer list) option" where
  "promptForValue coerce p args as = (case menu_of p args of
       Some cs \<Rightarrow> (case as of
           [] \<Rightarrow> None
         | Cancelled # as' \<Rightarrow> Some (Inl PromptCancelledError, as')
         | Line_Answer l # as' \<Rightarrow> Some (Inr (selected_value coerce p l), as'))
     | None \<Rightarrow> ask_attempts coerce p max_attempts as)"

definition given :: "string \<Rightarrow> jsv obj \<Rightarrow> bool" where
  "given k args \<longleftrightarrow> (case obj_get args k of None \<Rightarrow> False | Some v \<Rightarrow> v \<noteq> JUndefined)"

definition bind_flag :: "param_decl \<Rightarrow> string \<Rightarrow> jsv obj \<Rightarrow> jsv obj" where
  "bind_flag p flag args = (if flag \<noteq> pd_property p \<and> given flag args then obj_set (pd_property p) (the (obj_get args flag)) args else args)"

fun fill_parameters :: "coercion \<Rightarrow> bool \<Rightarrow> (param_decl \<times> string) list \<Rightarrow> jsv obj \<Rightarrow> answer list \<Rightarrow> ((cli_failure + jsv obj) \<times> answer list) option" where
  "fill_parameters coerce interactive [] args as = Some (Inr args, as)"
| "fill_parameters coerce interactive ((p, flag) # ps) args as =
     (let args1 = bind_flag p flag args in
      if given (pd_property p) args1 \<or> given flag args1 \<or> pd_question p = None \<or> \<not> interactive then
        fill_parameters coerce interactive ps args1 as
      else (case promptForValue coerce p args1 as of
          None \<Rightarrow> None
        | Some (Inl e, as') \<Rightarrow> Some (Inl e, as')
        | Some (Inr v, as') \<Rightarrow> fill_parameters coerce interactive ps
            (if v = JUndefined then args1 else obj_set (pd_property p) v args1) as'))"

definition fillMissingParameters :: "coercion \<Rightarrow> bool \<Rightarrow> string \<Rightarrow> param_decl list \<Rightarrow> jsv obj \<Rightarrow> answer list \<Rightarrow> ((cli_failure + jsv obj) \<times> answer list) option" where
  "fillMissingParameters coerce interactive target decls rawArgs as =
     (case collect_parameters target [] decls of
        Inl e \<Rightarrow> Some (Inl e, as)
      | Inr ps \<Rightarrow> fill_parameters coerce interactive ps rawArgs as)"

section \<open>Properties of the keys\<close>

text \<open>The moves of a menu, and what a secret is left with, as plain folds.\<close>

definition net_moves :: "terminal_key list \<Rightarrow> int" where
  "net_moves ks = int (length (filter (\<lambda>k. fst k = Key_Down) ks)) - int (length (filter (\<lambda>k. fst k = Key_Up) ks))"

lemma net_moves_Cons:
  "net_moves ((n, q) # ks) = net_moves ks + (if n = Key_Down then 1 else if n = Key_Up then -1 else 0)"
  by (simp add: net_moves_def)

definition no_end :: "terminal_key list \<Rightarrow> bool" where
  "no_end ks \<longleftrightarrow> list_all (\<lambda>k. fst k \<noteq> Key_Enter \<and> fst k \<noteq> Key_CtrlC) ks"

lemma read_keys_moves:
  assumes "0 < length choices"
  shows "no_end ks \<Longrightarrow> active < length choices \<Longrightarrow>
    read_keys (select_key choices) ks active = (nat ((int active + net_moves ks) mod int (length choices)), None)"
proof (induction ks arbitrary: active)
  case Nil
  then show ?case by (simp add: net_moves_def)
next
  case (Cons k ks)
  let ?n = "length choices"
  obtain n q where k: "k = (n, q)" by (cases k)
  have up: "int ((active + ?n - 1) mod ?n) = (int active - 1) mod int ?n"
  proof -
    have "int (active + ?n - 1) = (int active - 1) + int ?n" using assms by linarith
    then show ?thesis by (simp only: zmod_int mod_add_self2)
  qed
  have down: "int ((active + 1) mod ?n) = (int active + 1) mod int ?n" by (simp add: zmod_int algebra_simps)
  have rest: "no_end ks" "n \<noteq> Key_Enter" "n \<noteq> Key_CtrlC" using Cons.prems(1) by (simp_all add: no_end_def k)
  show ?case
  proof (cases n)
    case Key_Up
    have "read_keys (select_key choices) (k # ks) active = read_keys (select_key choices) ks ((active + ?n - 1) mod ?n)"
      by (simp add: k Key_Up select_key_def Let_def)
    also have "\<dots> = (nat ((int ((active + ?n - 1) mod ?n) + net_moves ks) mod int ?n), None)"
      using assms by (intro Cons.IH rest) simp
    also have "(int ((active + ?n - 1) mod ?n) + net_moves ks) mod int ?n = (int active + net_moves (k # ks)) mod int ?n"
      unfolding up k Key_Up net_moves_Cons mod_add_left_eq by (simp add: algebra_simps)
    finally show ?thesis .
  next
    case Key_Down
    have "read_keys (select_key choices) (k # ks) active = read_keys (select_key choices) ks ((active + 1) mod ?n)"
      by (simp add: k Key_Down select_key_def Let_def)
    also have "\<dots> = (nat ((int ((active + 1) mod ?n) + net_moves ks) mod int ?n), None)"
      using assms by (intro Cons.IH rest) simp
    also have "(int ((active + 1) mod ?n) + net_moves ks) mod int ?n = (int active + net_moves (k # ks)) mod int ?n"
      unfolding down k Key_Down net_moves_Cons mod_add_left_eq by (simp add: algebra_simps)
    finally show ?thesis .
  qed (use rest Cons.IH [OF rest(1) Cons.prems(2)] in \<open>simp_all add: k select_key_def Let_def net_moves_def\<close>)
qed

lemma read_keys_append:
  "read_keys onKey (ks @ ls) s = (case read_keys onKey ks s of (s', None) \<Rightarrow> read_keys onKey ls s' | (s', Some r) \<Rightarrow> (s', Some r))"
  by (induction onKey ks s rule: read_keys.induct) (auto split: prod.splits option.splits)

lemma key_chunks_keys: "key_chunks onKey cs s = snd (read_keys onKey (concat (map decode_keys cs)) s)"
  by (induction onKey cs s rule: key_chunks.induct) (auto simp: read_keys_append split: prod.splits option.splits)

text \<open>
  A menu resolves to the choice that the arrow keys before the first Enter lead to, counted
  from the default around the ends in both directions.
\<close>

theorem menu_picks_where_the_arrows_lead:
  assumes "find_index (\<lambda>c. Some (ch_value c) = defaultValue) choices = Some start" and "start < length choices"
    and "concat (map decode_keys chunks) = ks @ (Key_Enter, q) # rest" and "no_end ks"
  shows "cli_select choices defaultValue chunks =
    Some (Inr (ch_value (choices ! nat ((int start + net_moves ks) mod int (length choices)))))"
proof -
  have "choices \<noteq> []" using assms(2) by auto
  then show ?thesis
    using assms read_keys_moves [OF _ assms(4,2)]
    by (simp add: cli_select_def key_chunks_keys read_keys_append select_key_def Let_def)
qed

text \<open>Ctrl+C cancels wherever it comes before Enter.\<close>

fun secret_of :: "terminal_key list \<Rightarrow> string \<Rightarrow> string" where
  "secret_of [] v = v"
| "secret_of ((n, q) # ks) v = secret_of ks (if n = Key_Backspace then butlast v else if n = Key_Character then v @ q else v)"

lemma read_keys_secret: "no_end ks \<Longrightarrow> read_keys secret_key ks v = (secret_of ks v, None)"
proof (induction ks arbitrary: v)
  case (Cons k ks)
  obtain n q where "k = (n, q)" by (cases k)
  with Cons show ?case by (cases n) (simp_all add: no_end_def secret_key_def)
qed simp

theorem secret_ends_by_enter_or_cancel:
  assumes "concat (map decode_keys chunks) = ks @ (n, q) # rest" and "no_end ks" and "n = Key_Enter \<or> n = Key_CtrlC"
  shows "readSecret chunks = Some (if n = Key_Enter then Inr (secret_of ks []) else Inl PromptCancelledError)"
  using assms by (auto simp: readSecret_def key_chunks_keys read_keys_append read_keys_secret secret_key_def)

section \<open>Properties of the questions\<close>

lemma ask_attempts_bounded:
  "n \<le> length as \<Longrightarrow> \<exists>r as'. ask_attempts coerce p n as = Some (r, as') \<and> length as \<le> length as' + n"
proof (induction coerce p n as rule: ask_attempts.induct)
  case (4 coerce p n l as)
  have IH: "\<exists>r as'. ask_attempts coerce p n as = Some (r, as') \<and> Suc (length as) \<le> length as' + Suc n"
    if "pd_boolean p \<and> \<not> pd_sensitive p" "parse_boolean_answer (answer_text p l) = None" "answer_text p l \<noteq> []"
    using 4(1) [OF refl that(3,1,2)] 4(3) by simp
  have IH': "\<exists>r as'. ask_attempts coerce p n as = Some (r, as') \<and> Suc (length as) \<le> length as' + Suc n"
    if "\<not> (pd_boolean p \<and> \<not> pd_sensitive p)" "coerce (pd_property p) (answer_text p l) = Invalid_Answer ms" "answer_text p l \<noteq> []" for ms
    using 4(2) [OF refl that(3,1,2)] 4(3) by simp
  show ?case
    using IH IH' by (auto simp: Let_def split: option.splits coerced.splits)
qed auto

lemma prompt_bounded:
  assumes "max_attempts \<le> length as"
  shows "\<exists>r as'. promptForValue coerce p args as = Some (r, as') \<and> length as \<le> length as' + max_attempts"
proof (cases "menu_of p args")
  case None
  then show ?thesis using ask_attempts_bounded [OF assms] by (simp add: promptForValue_def)
next
  case (Some cs)
  with assms show ?thesis
    by (cases as) (auto simp: promptForValue_def max_attempts_def split: answer.splits)
qed

lemma fill_bounded:
  "max_attempts * length ps \<le> length as \<Longrightarrow>
     \<exists>r as'. fill_parameters coerce interactive ps args as = Some (r, as') \<and> length as \<le> length as' + max_attempts * length ps"
proof (induction ps arbitrary: args as)
  case (Cons pf ps)
  obtain p flag where pf: "pf = (p, flag)" by (cases pf)
  let ?args = "bind_flag p flag args"
  show ?case
  proof (cases "given (pd_property p) ?args \<or> given flag ?args \<or> pd_question p = None \<or> \<not> interactive")
    case True
    with Cons.IH [of as ?args] Cons.prems show ?thesis by (auto simp: pf Let_def)
  next
    case False
    obtain r as' where r: "promptForValue coerce p ?args as = Some (r, as')" and len: "length as \<le> length as' + max_attempts"
      using prompt_bounded [of as coerce p ?args] Cons.prems by auto
    show ?thesis
    proof (cases r)
      case (Inl e)
      with False r len show ?thesis by (auto simp: pf Let_def)
    next
      case (Inr v)
      have "max_attempts * length ps \<le> length as'" using Cons.prems len by simp
      from Cons.IH [OF this, of "if v = JUndefined then ?args else obj_set (pd_property p) v ?args"]
      obtain q as'' where "fill_parameters coerce interactive ps (if v = JUndefined then ?args else obj_set (pd_property p) v ?args) as' = Some (q, as'')"
        "length as' \<le> length as'' + max_attempts * length ps" by blast
      with False r len Inr show ?thesis by (auto simp: pf Let_def)
    qed
  qed
qed simp

lemma collect_parameters_length: "collect_parameters target seen ps = Inr qs \<Longrightarrow> map fst qs = ps \<and> length qs = length ps"
  by (induction target seen ps arbitrary: qs rule: collect_parameters.induct)
    (auto simp: Let_def sum_bind_Inr_conv split: option.splits)

text \<open>
  The filling of parameters asks each at most five times: with five answers for every
  parameter it ends, however wrong they are, and leaves no fewer than the rest.
\<close>

theorem prompts_end:
  assumes "max_attempts * length decls \<le> length as"
  shows "\<exists>r as'. fillMissingParameters coerce interactive target decls rawArgs as = Some (r, as') \<and>
    length as \<le> length as' + max_attempts * length decls"
proof (cases "collect_parameters target [] decls")
  case (Inl e)
  then show ?thesis by (simp add: fillMissingParameters_def)
next
  case (Inr qs)
  then have "length qs = length decls" using collect_parameters_length by blast
  with Inr fill_bounded [of qs as coerce interactive rawArgs] assms show ?thesis by (simp add: fillMissingParameters_def)
qed

text \<open>A question that five answers do not settle.\<close>

definition asked_param :: param_decl where
  "asked_param = \<lparr>pd_property = ''size'', pd_flag = None, pd_question = Some ''Size?'', pd_sensitive = False, pd_boolean = False,
     pd_menu = (\<lambda>a. None)\<rparr>"

lemma prompts_end_witness:
  "\<exists>r as'. fillMissingParameters (\<lambda>k s. Invalid_Answer [''no'']) True ''Options'' [asked_param] [] (replicate 6 (Line_Answer ''x'')) = Some (r, as') \<and>
    length (replicate 6 (Line_Answer ''x'')) \<le> length as' + max_attempts * length [asked_param]"
  by (rule prompts_end) (simp add: max_attempts_def)

subsection \<open>What is kept\<close>

lemma bind_flag_other: "k \<noteq> pd_property p \<or> flag = k \<or> \<not> given flag args \<Longrightarrow> obj_get (bind_flag p flag args) k = obj_get args k"
  by (auto simp: bind_flag_def update_conv)

lemma given_cong: "obj_get a k = obj_get b k \<Longrightarrow> given k a = given k b"
  by (simp add: given_def)

text \<open>An argument that is given, and that no flag of another name takes the place of.\<close>

definition settled_argument :: "(param_decl \<times> string) list \<Rightarrow> jsv obj \<Rightarrow> string \<Rightarrow> bool" where
  "settled_argument ps args k \<longleftrightarrow> given k args \<and>
     (\<forall>(p, flag) \<in> set ps. pd_property p = k \<longrightarrow> flag = k)"

lemma fill_keeps:
  "fill_parameters coerce interactive ps args as = Some (Inr args', as') \<Longrightarrow> settled_argument ps args k \<Longrightarrow>
     obj_get args' k = obj_get args k"
proof (induction coerce interactive ps args as rule: fill_parameters.induct)
  case (2 coerce interactive p flag ps args as)
  let ?args = "bind_flag p flag args"
  have same: "obj_get ?args k = obj_get args k"
    using 2(4) by (intro bind_flag_other) (auto simp: settled_argument_def)
  then have settled: "settled_argument ps ?args k" and given: "given k ?args"
    using 2(4) given_cong [OF same] by (auto simp: settled_argument_def)
  show ?case
  proof (cases "given (pd_property p) ?args \<or> given flag ?args \<or> pd_question p = None \<or> \<not> interactive")
    case True
    with 2(1) [OF refl True] 2(3) settled same show ?thesis by simp
  next
    case False
    with 2(3) obtain v as1 where v: "promptForValue coerce p ?args as = Some (Inr v, as1)"
      and rest: "fill_parameters coerce interactive ps (if v = JUndefined then ?args else obj_set (pd_property p) v ?args) as1 = Some (Inr args', as')"
      by (auto simp: Let_def split: option.splits sum.splits)
    have "k \<noteq> pd_property p" using False given by auto
    then have new: "obj_get (if v = JUndefined then ?args else obj_set (pd_property p) v ?args) k = obj_get ?args k"
      by (simp add: update_conv)
    have "settled_argument ps (if v = JUndefined then ?args else obj_set (pd_property p) v ?args) k"
      using settled given_cong [OF new] by (auto simp: settled_argument_def)
    with 2(2) [OF refl False v refl refl] rest have "obj_get args' k = obj_get (if v = JUndefined then ?args else obj_set (pd_property p) v ?args) k"
      by simp
    with new same show ?thesis by simp
  qed
qed simp

lemma collect_flags:
  "collect_parameters target seen ps = Inr qs \<Longrightarrow> (p, flag) \<in> set qs \<Longrightarrow> p \<in> set ps \<and> flag = effective_flag p"
proof (induction ps arbitrary: seen qs)
  case (Cons q ps)
  then obtain qs' where "collect_parameters target ((effective_flag q, pd_property q) # seen) ps = Inr qs'"
      and "qs = (q, effective_flag q) # qs'"
    by (auto simp: Let_def sum_bind_Inr_conv split: option.splits)
  with Cons.IH [of _ qs'] Cons.prems(2) show ?case by auto
qed simp

text \<open>
  An argument that was given is passed on as it is, whatever is asked and answered,
  unless its parameter is declared with a flag of another name.
\<close>

theorem given_arguments_are_kept:
  assumes "fillMissingParameters coerce interactive target decls rawArgs as = Some (Inr args, as')"
    and "given k rawArgs" and "list_all (\<lambda>p. pd_property p \<noteq> k \<or> effective_flag p = k) decls"
  shows "obj_get args k = obj_get rawArgs k"
proof -
  obtain qs where qs: "collect_parameters target [] decls = Inr qs"
    and fill: "fill_parameters coerce interactive qs rawArgs as = Some (Inr args, as')"
    using assms(1) by (auto simp: fillMissingParameters_def split: sum.splits)
  have "settled_argument qs rawArgs k"
    using assms(2,3) collect_flags [OF qs] by (fastforce simp: settled_argument_def list_all_iff)
  then show ?thesis by (rule fill_keeps [OF fill])
qed

end
