(* ===== verification/Cli_Commands.thy ===== *)
theory Cli_Commands
  imports Cli_Prompts
begin

text \<open>
  From the arguments of a command to its exit code (\<open>packages/cli\<close>): the usage line and the messages
  for wrong arguments, the resolution of options, the dispatch of a command, the report of an error,
  and the choice of the module that the program starts with.
\<close>

section \<open>Errors and their report\<close>

definition CommandNotFoundError :: "string \<Rightarrow> cli_failure" where
  "CommandNotFoundError name = UsageError (''There is no command found for name: '' @ quoted name @ ''. Use the '' @ quoted ''list'' @
     '' command to see the commands already registered.'') ''COMMAND_NOT_FOUND'' False (Some [(''commandName'', name)]) None"

text \<open>What is written to the error stream, and the exit code. The stack is an argument.\<close>

definition check_mark :: string where
  "check_mark = [CHR 0xE2, CHR 0x9C, CHR 0x97]"

fun cause_lines :: "cause_entry list \<Rightarrow> string list" where
  "cause_lines [] = []"
| "cause_lines (c # cs) = ([CHR 0x0A] @ ''caused by: '' @ ce_name c @ '': '' @ ce_message c @ [CHR 0x0A]) #
     (case ce_stack c of Some s \<Rightarrow> if s = [] then [] else [s @ [CHR 0x0A]] | None \<Rightarrow> []) @ cause_lines cs"

definition report_failure :: "string option \<Rightarrow> string option \<Rightarrow> cli_failure \<Rightarrow> string list \<times> int" where
  "report_failure env stk f =
     (let e = PristineError_from stk (cf_error f);
          own = is_pristine (cf_error f);
          exitCode = (if own then cf_exitCode f else None);
          details = (if own then cf_details f else None);
          isDev = (getEnvironment env = ''dev'');
          isUserError = (pe_kind e \<noteq> SystemError) in
      if own \<and> cf_plain f \<and> isUserError then ([pe_message e @ [CHR 0x0A]], case exitCode of Some c \<Rightarrow> c | None \<Rightarrow> 1)
      else
        ([check_mark @ '' '' @ (case pe_code e of Some c \<Rightarrow> c | None \<Rightarrow> ''ERROR'') @ '': '' @
            (if isUserError \<or> isDev then pe_message e else ''Internal Error'') @ [CHR 0x0A]] @
         (case details of None \<Rightarrow> [] | Some kvs \<Rightarrow>
            if isUserError \<or> isDev then map (\<lambda>(k, v). ''  '' @ k @ '': '' @ v @ [CHR 0x0A]) kvs else []) @
         (if isDev then (case pe_stack e of Some s \<Rightarrow> if s = [] then [] else [[CHR 0x0A] @ s @ [CHR 0x0A]] | None \<Rightarrow> []) @
            cause_lines (collectCauseChain 0 (pe_cause e)) else []),
         (case exitCode of Some c \<Rightarrow> c | None \<Rightarrow> if isUserError then 1 else 70)))"

section \<open>Usage and wrong arguments\<close>

record option_prop =
  op_name :: string
  op_declared :: bool
  op_flag :: "string option"
  op_sensitive :: bool
  op_valueHint :: "string option"
  op_errorMessage :: "string option"
  op_boolean :: bool
  op_required :: bool

definition prop_flag :: "option_prop \<Rightarrow> string" where
  "prop_flag p = (case op_flag p of Some f \<Rightarrow> f | None \<Rightarrow> op_name p)"

definition usage_token :: "option_prop \<Rightarrow> string" where
  "usage_token p = (if op_boolean p then ''[--'' @ prop_flag p @ '']''
     else (let body = ''--'' @ prop_flag p @ ''=<'' @ (case op_valueHint p of Some h \<Rightarrow> h | None \<Rightarrow> op_name p) @ ''>'' in
       if op_required p then body else ''['' @ body @ '']''))"

definition usage_line :: "option_prop list \<Rightarrow> string \<Rightarrow> string \<Rightarrow> string" where
  "usage_line props commandName binName =
     ''Usage: '' @ join '' '' (filter (\<lambda>s. s \<noteq> []) ([binName, commandName] @ map usage_token props))"

record validation_error =
  ve_property :: string
  ve_constraints :: "(string \<times> string option) list"

definition isMissing :: "jsv \<Rightarrow> bool" where
  "isMissing v \<longleftrightarrow> v = JUndefined \<or> v = JNull \<or> v = js_string []"

definition definedness :: "string list" where
  "definedness = [''IS_DEFINED'', ''IS_NOT_EMPTY'', ''IS_STRING'']"

text \<open>The first message of a constraint that is not about being defined, or the first at all.\<close>

definition validatorMessage :: "validation_error \<Rightarrow> string" where
  "validatorMessage ve =
     (let messages = List.map_filter (\<lambda>(k, m). map_option (Pair k) m) (ve_constraints ve) in
      case find (\<lambda>(k, m). to_upper k \<notin> set definedness) messages of
        Some (k, m) \<Rightarrow> m
      | None \<Rightarrow> (case messages of [] \<Rightarrow> ''Invalid value.'' | (k, m) # _ \<Rightarrow> m))"

text \<open>\<open>String.replace\<close> with a pattern for all matches: a dollar sign in the replacement is special.\<close>

fun expand_replacement :: "string \<Rightarrow> string \<Rightarrow> string \<Rightarrow> string \<Rightarrow> string" where
  "expand_replacement before match after [] = []"
| "expand_replacement before match after [c] = [c]"
| "expand_replacement before match after (c # d # cs) =
     (if c \<noteq> CHR ''$'' then c # expand_replacement before match after (d # cs)
      else if d = CHR ''$'' then CHR ''$'' # expand_replacement before match after cs
      else if d = CHR ''&'' then match @ expand_replacement before match after cs
      else if d = CHR 0x60 then before @ expand_replacement before match after cs
      else if d = CHR 0x27 then after @ expand_replacement before match after cs
      else c # expand_replacement before match after (d # cs))"

function replace_all_in :: "string \<Rightarrow> string \<Rightarrow> string \<Rightarrow> string \<Rightarrow> string" where
  "replace_all_in pat replacement before s =
     (if s = [] then []
      else if pat \<noteq> [] \<and> starts_with s pat then
        expand_replacement before pat (drop (length pat) s) replacement @
          replace_all_in pat replacement (before @ pat) (drop (length pat) s)
      else hd s # replace_all_in pat replacement (before @ [hd s]) (tl s))"
  by pat_completeness auto
termination by (relation "measure (\<lambda>(pat, r, b, s). length s)") auto

declare replace_all_in.simps [simp del]

definition option_of :: "option_prop list \<Rightarrow> string \<Rightarrow> option_prop option" where
  "option_of props name = find (\<lambda>p. op_name p = name \<and> op_declared p) props"

definition flag_for :: "option_prop list \<Rightarrow> string \<Rightarrow> string" where
  "flag_for props name = (case option_of props name of Some p \<Rightarrow> prop_flag p | None \<Rightarrow> name)"

definition invalidLine :: "option_prop list \<Rightarrow> (string \<Rightarrow> jsv) \<Rightarrow> validation_error \<Rightarrow> string" where
  "invalidLine props mapped ve =
     (let opts = option_of props (ve_property ve); flag = flag_for props (ve_property ve);
          sensitive = (case opts of Some p \<Rightarrow> op_sensitive p | None \<Rightarrow> False);
          value = (if sensitive then ''<hidden>'' else js_text (mapped (ve_property ve)));
          template = (case opts of Some p \<Rightarrow> (case op_errorMessage p of Some m \<Rightarrow> if m = [] then None else Some m | None \<Rightarrow> None) | None \<Rightarrow> None) in
      case template of
        Some m \<Rightarrow> replace_all_in ''%flag%'' flag [] (replace_all_in ''%value%'' value [] m)
      | None \<Rightarrow> (let reason = validatorMessage ve in
          if sensitive then ''Invalid '' @ flag @ ''. '' @ reason
          else ''Invalid '' @ flag @ '' '' @ quoted value @ ''. '' @ reason))"

definition buildValidationError :: "option_prop list \<Rightarrow> (string \<Rightarrow> jsv) \<Rightarrow> validation_error list \<Rightarrow> string \<Rightarrow> string \<Rightarrow> cli_failure" where
  "buildValidationError props mapped errors commandName binName =
     (let missing = filter (\<lambda>ve. isMissing (mapped (ve_property ve))) errors in
      if missing \<noteq> [] then
        UsageError (usage_line props commandName binName) ''MISSING_REQUIRED_ARGUMENT'' True
          (Some [(''missing'', join '', '' (map (\<lambda>ve. flag_for props (ve_property ve)) missing))]) None
      else UsageError (join [CHR 0x0A] (map (invalidLine props mapped) errors)) ''INVALID_ARGUMENT'' True None None)"

section \<open>Options and commands\<close>

text \<open>An options class with the data mapper, the validator and the reading of a property.\<close>

record 'm options_type =
  ot_name :: string
  ot_params :: "param_decl list"
  ot_props :: "option_prop list"
  ot_map :: "jsv obj \<Rightarrow> thrown + 'm"
  ot_validate :: "'m \<Rightarrow> validation_error list"
  ot_read :: "'m \<Rightarrow> string \<Rightarrow> jsv"

definition mapping_failure :: "string \<Rightarrow> thrown \<Rightarrow> cli_failure" where
  "mapping_failure target cause = UsageError (''Failed to map arguments to '' @ quoted target @ '': '' @ message_or ''undefined'' cause)
     ''ARGUMENT_MAPPING_FAILED'' False (Some [(''targetType'', target)]) (Some cause)"

definition resolve_options :: "coercion \<Rightarrow> bool \<Rightarrow> string \<Rightarrow> 'm options_type \<Rightarrow> jsv obj \<Rightarrow> string \<Rightarrow> answer list \<Rightarrow>
  ((cli_failure + 'm) \<times> answer list) option" where
  "resolve_options coerce interactive binName ot rawArgs commandName as =
     (case fillMissingParameters coerce interactive (ot_name ot) (ot_params ot) rawArgs as of
        None \<Rightarrow> None
      | Some (Inl e, as') \<Rightarrow> Some (Inl e, as')
      | Some (Inr args, as') \<Rightarrow> Some (case ot_map ot args of
            Inl cause \<Rightarrow> Inl (mapping_failure (ot_name ot) cause)
          | Inr m \<Rightarrow> if ot_validate ot m = [] then Inr m
              else Inl (buildValidationError (ot_props ot) (ot_read ot m) (ot_validate ot m) commandName binName), as'))"

datatype 'm command_input = Raw_Input "jsv obj" | Typed_Input 'm

record 'm cli_command =
  cm_name :: string
  cm_options :: "'m options_type option"
  cm_run :: "'m command_input \<Rightarrow> cli_failure + int"

definition resolve_args :: "coercion \<Rightarrow> bool \<Rightarrow> string \<Rightarrow> 'm cli_command \<Rightarrow> jsv obj \<Rightarrow> answer list \<Rightarrow>
  ((cli_failure + 'm command_input) \<times> answer list) option" where
  "resolve_args coerce interactive binName c rawArgs as = (case cm_options c of
       None \<Rightarrow> Some (Inr (Raw_Input rawArgs), as)
     | Some ot \<Rightarrow> map_option (\<lambda>(r, as'). (case r of Inl e \<Rightarrow> Inl e | Inr m \<Rightarrow> Inr (Typed_Input m), as'))
         (resolve_options coerce interactive binName ot rawArgs (cm_name c) as))"

text \<open>The exit code, and the severity of the entry that is logged.\<close>

definition exit_severity :: "int \<Rightarrow> severity" where
  "exit_severity code = (if code = 0 then Info else Error)"

definition handle_command :: "coercion \<Rightarrow> bool \<Rightarrow> string \<Rightarrow> 'm cli_command list \<Rightarrow> string \<Rightarrow> jsv obj \<Rightarrow> answer list \<Rightarrow>
  (cli_failure + int \<times> severity) option" where
  "handle_command coerce interactive binName commands name args as =
     (case find (\<lambda>c. cm_name c = name) commands of
        None \<Rightarrow> Some (Inl (CommandNotFoundError name))
      | Some c \<Rightarrow> (case resolve_args coerce interactive binName c args as of
          None \<Rightarrow> None
        | Some (Inl e, as') \<Rightarrow> Some (Inl e)
        | Some (Inr i, as') \<Rightarrow> Some (case cm_run c i of Inl e \<Rightarrow> Inl e | Inr code \<Rightarrow> Inr (code, exit_severity code))))"

text \<open>Names registered more than once, in the order in which they first occur.\<close>

definition command_collisions :: "'m cli_command list \<Rightarrow> (string \<times> nat) list" where
  "command_collisions cs = filter (\<lambda>(n, k). 1 < k) (map (\<lambda>n. (n, length (filter (\<lambda>c. cm_name c = n) cs))) (rev (remdups (rev (map cm_name cs)))))"

section \<open>Properties\<close>

lemma resolve_options_cases:
  assumes "resolve_options coerce interactive binName ot rawArgs commandName as = Some (r, as')"
  obtains e where "fillMissingParameters coerce interactive (ot_name ot) (ot_params ot) rawArgs as = Some (Inl e, as')" "r = Inl e"
  | args where "fillMissingParameters coerce interactive (ot_name ot) (ot_params ot) rawArgs as = Some (Inr args, as')"
      "r = (case ot_map ot args of Inl cause \<Rightarrow> Inl (mapping_failure (ot_name ot) cause)
          | Inr m \<Rightarrow> if ot_validate ot m = [] then Inr m
              else Inl (buildValidationError (ot_props ot) (ot_read ot m) (ot_validate ot m) commandName binName))"
  using assms by (auto simp: resolve_options_def split: option.splits sum.splits prod.splits)

text \<open>What a command is run with: its raw arguments, or an instance of its options that validates.\<close>

definition proper_input :: "'m cli_command \<Rightarrow> jsv obj \<Rightarrow> 'm command_input \<Rightarrow> bool" where
  "proper_input c args i = (case cm_options c of
       None \<Rightarrow> i = Raw_Input args
     | Some ot \<Rightarrow> (case i of Raw_Input r \<Rightarrow> False | Typed_Input m \<Rightarrow> ot_validate ot m = []))"

lemma resolve_args_proper:
  assumes "resolve_args coerce interactive binName c args as = Some (Inr i, as')"
  shows "proper_input c args i"
proof (cases "cm_options c")
  case None
  with assms show ?thesis by (simp add: resolve_args_def proper_input_def)
next
  case (Some ot)
  then obtain r where r: "resolve_options coerce interactive binName ot args (cm_name c) as = Some (r, as')"
      "(case r of Inl e \<Rightarrow> Inl e | Inr m \<Rightarrow> Inr (Typed_Input m)) = Inr i"
    using assms unfolding resolve_args_def by auto
  then obtain m where m: "resolve_options coerce interactive binName ot args (cm_name c) as = Some (Inr m, as')" and i: "i = Typed_Input m"
    by (cases r) auto
  from m have "ot_validate ot m = []"
    by (rule resolve_options_cases) (auto split: sum.splits if_splits)
  with Some i show ?thesis by (simp add: proper_input_def)
qed

text \<open>
  An exit code comes from the first command of that name, run with its raw arguments where
  it declares no options, and otherwise only with an instance that its validator passes.
\<close>

theorem command_runs_with_valid_options:
  assumes "handle_command coerce interactive binName commands name args as = Some (Inr (code, sev))"
  shows "\<exists>c i. find (\<lambda>c. cm_name c = name) commands = Some c \<and> proper_input c args i \<and> cm_run c i = Inr code \<and>
    sev = exit_severity code"
proof -
  obtain c where c: "find (\<lambda>c. cm_name c = name) commands = Some c"
    using assms by (auto simp: handle_command_def split: option.splits)
  with assms obtain i as' where i: "resolve_args coerce interactive binName c args as = Some (Inr i, as')"
    and "cm_run c i = Inr code" "sev = exit_severity code"
    by (auto simp: handle_command_def split: option.splits sum.splits prod.splits)
  with c resolve_args_proper [OF i] show ?thesis by blast
qed

text \<open>Wrong arguments end with the exit code of a usage error.\<close>

theorem wrong_arguments_exit_64:
  assumes "fillMissingParameters coerce interactive (ot_name ot) (ot_params ot) rawArgs as = Some (Inr args, as1)"
    and "resolve_options coerce interactive binName ot rawArgs commandName as = Some (Inl f, as')"
  shows "snd (report_failure env stk f) = 64"
  using assms
  by (auto simp: report_failure_def mapping_failure_def buildValidationError_def UsageError_def new_PristineError_def is_pristine_def Let_def
      elim!: resolve_options_cases split: sum.splits if_splits)

text \<open>
  In production a system error is reported as an internal error, whatever its message,
  details, stack and causes.
\<close>

theorem production_report_hides_system_errors:
  assumes "pe_kind (PristineError_from stk (cf_error f)) = SystemError" and "getEnvironment env \<noteq> ''dev''"
  shows "fst (report_failure env stk f) =
    [check_mark @ '' '' @ (case pe_code (PristineError_from stk (cf_error f)) of Some c \<Rightarrow> c | None \<Rightarrow> ''ERROR'') @ '': Internal Error'' @ [CHR 0x0A]]"
proof (cases "is_pristine (cf_error f)")
  case True
  with assms show ?thesis by (simp add: report_failure_def Let_def split: option.splits)
next
  case False
  with assms show ?thesis by (simp add: report_failure_def Let_def)
qed

definition sensitive_prop :: "option_prop list \<Rightarrow> string \<Rightarrow> bool" where
  "sensitive_prop props k = (case option_of props k of Some p \<Rightarrow> op_sensitive p | None \<Rightarrow> False)"

text \<open>
  Two validation errors report the same: they are of one parameter, and unless that has a message
  of its own the message of the validator that is shown is the same.
\<close>

definition own_message :: "option_prop list \<Rightarrow> string \<Rightarrow> bool" where
  "own_message props k = (case option_of props k of Some p \<Rightarrow> op_errorMessage p \<notin> {None, Some []} | None \<Rightarrow> False)"

definition reports_the_same :: "option_prop list \<Rightarrow> validation_error \<Rightarrow> validation_error \<Rightarrow> bool" where
  "reports_the_same props ve ve' \<longleftrightarrow> ve_property ve = ve_property ve' \<and>
     (own_message props (ve_property ve) \<or> validatorMessage ve = validatorMessage ve')"

lemma invalidLine_sensitive:
  "(sensitive_prop props (ve_property ve) \<or> mapped (ve_property ve) = mapped' (ve_property ve)) \<Longrightarrow> reports_the_same props ve ve' \<Longrightarrow>
     invalidLine props mapped ve = invalidLine props mapped' ve'"
  by (auto simp: invalidLine_def sensitive_prop_def reports_the_same_def own_message_def Let_def split: option.splits)

text \<open>
  Claim C35. The message about wrong arguments does not depend on the value of a sensitive
  parameter, but for whether it is missing, as long as the same parameters are wrong: of a parameter
  with a message of its own not even on what is wrong with it, of any other only through the text
  of the validator that is shown, which is the application's and may quote the value.
\<close>

theorem sensitive_values_stay_hidden:
  assumes "\<And>k. isMissing (mapped k) = isMissing (mapped' k)"
    and "\<And>k. \<not> sensitive_prop props k \<Longrightarrow> mapped k = mapped' k"
    and "list_all2 (reports_the_same props) errors errors'"
  shows "buildValidationError props mapped errors commandName binName = buildValidationError props mapped' errors' commandName binName"
proof -
  have props: "map ve_property errors = map ve_property errors'"
    using assms(3) by (auto simp: list_all2_conv_all_nth reports_the_same_def intro: nth_equalityI)
  have lines: "map (invalidLine props mapped) errors = map (invalidLine props mapped') errors'"
    using assms(3)
  proof (induction rule: list_all2_induct)
    case (Cons e es e' es')
    have "invalidLine props mapped e = invalidLine props mapped' e'"
      by (rule invalidLine_sensitive [OF _ Cons.hyps(1)]) (use assms(2) in blast)
    with Cons.IH show ?case by simp
  qed simp
  have "filter (\<lambda>k. isMissing (mapped k)) (map ve_property errors) = filter (\<lambda>k. isMissing (mapped' k)) (map ve_property errors')"
    by (simp only: assms(1) props)
  then have missing: "map ve_property (filter (\<lambda>ve. isMissing (mapped (ve_property ve))) errors) =
      map ve_property (filter (\<lambda>ve. isMissing (mapped' (ve_property ve))) errors')"
    by (simp add: filter_map comp_def)
  have none: "filter (\<lambda>ve. isMissing (mapped (ve_property ve))) errors = [] \<longleftrightarrow> filter (\<lambda>ve. isMissing (mapped' (ve_property ve))) errors' = []"
    using missing by (metis map_is_Nil_conv)
  have flags: "map (\<lambda>ve. flag_for props (ve_property ve)) (filter (\<lambda>ve. isMissing (mapped (ve_property ve))) errors) =
      map (\<lambda>ve. flag_for props (ve_property ve)) (filter (\<lambda>ve. isMissing (mapped' (ve_property ve))) errors')"
    using arg_cong [OF missing, of "map (flag_for props)"] by (simp add: comp_def)
  show ?thesis unfolding buildValidationError_def Let_def none lines flags ..
qed

definition secret_prop :: option_prop where
  "secret_prop = \<lparr>op_name = ''key'', op_declared = True, op_flag = None, op_sensitive = True, op_valueHint = None,
     op_errorMessage = Some ''%value% is no key'', op_boolean = False, op_required = True\<rparr>"

lemma sensitive_values_stay_hidden_witness:
  "buildValidationError [secret_prop] (\<lambda>k. js_string ''x'') [\<lparr>ve_property = ''key'', ve_constraints = []\<rparr>] ''login'' ''app'' =
   buildValidationError [secret_prop] (\<lambda>k. if k = ''key'' then js_string ''y'' else js_string ''x'')
     [\<lparr>ve_property = ''key'', ve_constraints = [(''MATCHES'', Some ''y is wrong'')]\<rparr>] ''login'' ''app''"
  by (rule sensitive_values_stay_hidden)
    (auto simp: isMissing_def js_string_def sensitive_prop_def reports_the_same_def own_message_def option_of_def secret_prop_def split: if_splits)

text \<open>In a custom message a dollar sign of the value is taken for a pattern of the replacement.\<close>

theorem dollar_in_a_value_is_a_pattern:
  "replace_all_in ''%value%'' ''a$&b'' [] ''<%value%>'' = ''<a%value%b>'' \<and>
   replace_all_in ''%value%'' ''$$'' [] ''<%value%>'' = ''<$>''"
  by (simp add: replace_all_in.simps starts_with_def)

text \<open>One flag can reach two properties: the conflict is looked for among flags only.\<close>

definition plain_param :: "string \<Rightarrow> string \<Rightarrow> param_decl" where
  "plain_param k flag = \<lparr>pd_property = k, pd_flag = Some flag, pd_question = None, pd_sensitive = False, pd_boolean = False, pd_menu = (\<lambda>a. None)\<rparr>"

theorem flag_reaches_two_properties:
  "fillMissingParameters coerce interactive target [plain_param ''a'' ''b'', plain_param ''b'' ''c''] [(''b'', js_string ''x'')] as =
     Some (Inr [(''b'', js_string ''x''), (''a'', js_string ''x'')], as)"
  by (simp add: fillMissingParameters_def plain_param_def effective_flag_def Let_def bind_flag_def given_def js_string_def)

end
