(* ===== verification/Cli_Startup.thy ===== *)
theory Cli_Startup
  imports Cli_Commands
begin

text \<open>
  Which module the command line starts with (\<open>packages/cli/src/bootstrap\<close>): the check of the build
  against its manifest, the offer to rebuild, the import of the module and its fallback, and the
  plugins that are wrapped around it. The files are what can be observed of them; the build, the
  imports and the user's answer are arguments. What is written to the error stream is listed.
\<close>

section \<open>The build manifest\<close>

datatype staleness = Fresh | Missing | Source_Path_Changed | Output_Path_Changed | Source_Content_Changed | Output_Missing

record build_manifest =
  mf_sourcePath :: string
  mf_outputPath :: string
  mf_sourceHash :: string

record build_files =
  bf_manifest :: "build_manifest option"
  bf_exists :: "string \<Rightarrow> bool"
  bf_hash :: "string \<Rightarrow> string"

text \<open>The configured paths are resolved against the root of the project beforehand.\<close>

definition check_manifest :: "build_files \<Rightarrow> string \<Rightarrow> string \<Rightarrow> staleness" where
  "check_manifest fs source outp = (case bf_manifest fs of
       None \<Rightarrow> Missing
     | Some m \<Rightarrow>
         if mf_sourcePath m \<noteq> source then Source_Path_Changed
         else if mf_outputPath m \<noteq> outp then Output_Path_Changed
         else if \<not> bf_exists fs (mf_outputPath m) then Output_Missing
         else if \<not> bf_exists fs (mf_sourcePath m) then Source_Content_Changed
         else if bf_hash fs (mf_sourcePath m) \<noteq> mf_sourceHash m then Source_Content_Changed
         else Fresh)"

definition describe_staleness :: "staleness \<Rightarrow> string" where
  "describe_staleness r = (case r of
       Missing \<Rightarrow> ''No build manifest found. Run `pristine build` before invoking this command.''
     | Source_Path_Changed \<Rightarrow> ''Your config'' @ [CHR 0x27] @ ''s `appModule.sourcePath` no longer matches the last build. Run `pristine build` to rebuild against the new source.''
     | Output_Path_Changed \<Rightarrow> ''Your config'' @ [CHR 0x27] @ ''s `appModule.outputPath` no longer matches the last build. Run `pristine build` to rebuild against the new output path.''
     | Source_Content_Changed \<Rightarrow> ''Your AppModule source has changed since the last build. Run `pristine build` to recompile.''
     | Output_Missing \<Rightarrow> ''The compiled AppModule output is missing on disk. Run `pristine build` to produce it.''
     | Fresh \<Rightarrow> ''Build manifest is up to date.'')"

text \<open>The user at a terminal, and the build, which may change the files.\<close>

record build_env =
  be_interactive :: bool
  be_answer :: "bool option"
  be_build :: "build_files \<Rightarrow> bool \<times> build_files"

definition pristine_line :: "string \<Rightarrow> string" where
  "pristine_line s = ''[pristine] '' @ s @ [CHR 0x0A]"

definition ensureFreshBuild :: "build_env \<Rightarrow> string \<Rightarrow> string \<Rightarrow> build_files \<Rightarrow> (bool \<times> build_files) \<times> string list" where
  "ensureFreshBuild env source outp fs =
     (let st = check_manifest fs source outp in
      if st = Fresh \<or> (st = Missing \<and> bf_exists fs outp) then ((True, fs), [])
      else if \<not> be_interactive env \<or> be_answer env \<noteq> Some True then ((False, fs), [pristine_line (describe_staleness st)])
      else (let (ok, fs') = be_build env fs in
        if \<not> ok then ((False, fs'), [pristine_line ''Rebuilding...'', pristine_line ''Rebuild failed. Fix the build error and re-run.''])
        else (let st' = check_manifest fs' source outp in
          if st' \<noteq> Fresh then ((False, fs'), [pristine_line ''Rebuilding...'',
            pristine_line (''Build ran but manifest is still stale: '' @ describe_staleness st')])
          else ((True, fs'), [pristine_line ''Rebuilding...'']))))"

section \<open>Plugins\<close>

record 'm loaded_plugin =
  lp_name :: string
  lp_modules :: "'m list"

text \<open>An application module: its name and what it imports, each a module of its own.\<close>

record 'm app_module =
  am_keyname :: string
  am_imports :: "'m list"

text \<open>\<open>self\<close> is the application's module as one that can be imported.\<close>

definition add_once :: "'m list \<Rightarrow> 'm \<Rightarrow> 'm list" where
  "add_once ms m = (if m \<in> set ms then ms else ms @ [m])"

definition wrap_plugins :: "('m app_module \<Rightarrow> 'm) \<Rightarrow> 'm app_module \<Rightarrow> 'm loaded_plugin list \<Rightarrow> 'm app_module" where
  "wrap_plugins self app plugins = (if plugins = [] then app
     else \<lparr>am_keyname = am_keyname app @ ''.with-plugins'',
       am_imports = foldl add_once [] (self app # concat (map lp_modules plugins))\<rparr>)"

definition no_module_error :: "string \<Rightarrow> thrown" where
  "no_module_error name = NativeErr ''Error'' (''[pristine] Plugin '' @ quoted name @ '' exported no '' @ quoted ''*Module'' @
     '' symbols. A plugin must export at least one ModuleInterface (e.g. `export const FooModule: ModuleInterface = { keyname: \"...\", ... }`).'') None None"

text \<open>What resolving and importing a plugin gives: the modules among its exports.\<close>

fun load_plugins :: "(string \<Rightarrow> thrown + 'm list) \<Rightarrow> string list \<Rightarrow> thrown + 'm loaded_plugin list" where
  "load_plugins imported [] = Inr []"
| "load_plugins imported (n # ns) = sum_bind (imported n) (\<lambda>ms.
     if ms = [] then Inl (no_module_error n)
     else sum_bind (load_plugins imported ns) (\<lambda>ps. Inr (\<lparr>lp_name = n, lp_modules = ms\<rparr> # ps)))"

section \<open>The module of the application\<close>

record module_config =
  mc_export :: "string option"
  mc_sourcePath :: "string option"
  mc_outputPath :: "string option"

text \<open>
  What the loader reads: the configuration with its file, a field of \<open>package.json\<close> that is no longer
  read, and the imports. \<open>ld_export\<close> is an export of a file, \<open>None\<close> when it is falsy.
\<close>

record 'm loader =
  ld_config :: "module_config option"
  ld_configFile :: "string option"
  ld_legacy :: "jsv option"
  ld_plugins :: "string list"
  ld_resolve :: "string \<Rightarrow> string"
  ld_export :: "string \<Rightarrow> string \<Rightarrow> thrown + 'm app_module option"
  ld_plugin :: "string \<Rightarrow> thrown + 'm list"
  ld_installed :: "'m list"
  ld_cliModule :: 'm
  ld_self :: "'m app_module \<Rightarrow> 'm"

definition fallback_module :: "'m loader \<Rightarrow> 'm app_module" where
  "fallback_module ld = \<lparr>am_keyname = ''__auto_generated_app.module__'',
     am_imports = (if ld_installed ld = [] then [ld_cliModule ld] else ld_installed ld)\<rparr>"

definition importAppModule :: "'m loader \<Rightarrow> string \<Rightarrow> string \<Rightarrow> thrown + 'm app_module" where
  "importAppModule ld file exportName = sum_bind (ld_export ld file exportName) (\<lambda>m. case m of
       None \<Rightarrow> Inl (NativeErr ''Error'' (''[pristine] The file at '' @ quoted file @ '' was loaded but did not export '' @ quoted exportName @
         ''. Make sure your AppModule file does `export const '' @ exportName @ '': AppModuleInterface = { ... }`.'') None None)
     | Some a \<Rightarrow> Inr a)"

text \<open>\<open>parsed?.pristine?.appModule\<close>.\<close>

definition json_member :: "jsv \<Rightarrow> string \<Rightarrow> jsv" where
  "json_member v k = (case v of JObject kvs \<Rightarrow> (case map_of kvs k of Some x \<Rightarrow> x | None \<Rightarrow> JUndefined) | _ \<Rightarrow> JUndefined)"

definition legacy_field :: "jsv option \<Rightarrow> string option" where
  "legacy_field parsed = (case parsed of None \<Rightarrow> None | Some v \<Rightarrow>
     (let a = json_member (json_member v ''pristine'') ''appModule'' in
      if nullish a then None
      else if as_string (json_member a ''cjsPath'') \<noteq> None then Some ''pristine.appModule.cjsPath''
      else if as_string (json_member a ''path'') \<noteq> None then Some ''pristine.appModule.path''
      else Some ''pristine.appModule''))"

datatype load_warning = Stale_Build "string list" | Import_Failed thrown | Legacy_Field string | No_App_Module string | Plugins_Failed thrown

definition no_module_warning :: "'m loader \<Rightarrow> load_warning list" where
  "no_module_warning ld = (case legacy_field (ld_legacy ld) of
       Some f \<Rightarrow> [Legacy_Field f]
     | None \<Rightarrow> (case ld_configFile ld of Some p \<Rightarrow> [No_App_Module (path_base p)] | None \<Rightarrow> []))"

definition export_name :: "'m loader \<Rightarrow> string" where
  "export_name ld = (case Option.bind (ld_config ld) mc_export of Some e \<Rightarrow> e | None \<Rightarrow> ''AppModule'')"

definition configured_paths :: "'m loader \<Rightarrow> (string \<times> string) option" where
  "configured_paths ld = Option.bind (ld_config ld) (\<lambda>c. Option.bind (mc_sourcePath c) (\<lambda>s. map_option (Pair s) (mc_outputPath c)))"

definition with_plugins :: "'m loader \<Rightarrow> 'm app_module \<Rightarrow> load_warning list \<Rightarrow> ('m app_module \<times> 'm loaded_plugin list) \<times> load_warning list" where
  "with_plugins ld app ws = (case load_plugins (ld_plugin ld) (ld_plugins ld) of
       Inl e \<Rightarrow> ((app, []), ws @ [Plugins_Failed e])
     | Inr ps \<Rightarrow> ((wrap_plugins (ld_self ld) app ps, ps), ws))"

definition load_app_module :: "build_env \<Rightarrow> 'm loader \<Rightarrow> build_files \<Rightarrow> ('m app_module \<times> 'm loaded_plugin list) \<times> load_warning list" where
  "load_app_module env ld fs = (case configured_paths ld of
       None \<Rightarrow> with_plugins ld (fallback_module ld) (no_module_warning ld)
     | Some (source, outp) \<Rightarrow>
         (let r = ensureFreshBuild env (ld_resolve ld source) (ld_resolve ld outp) fs in
          if \<not> fst (fst r) then ((fallback_module ld, []), [Stale_Build (snd r)])
          else (case importAppModule ld (ld_resolve ld outp) (export_name ld) of
              Inl e \<Rightarrow> with_plugins ld (fallback_module ld) [Import_Failed e]
            | Inr app \<Rightarrow> with_plugins ld app [])))"

section \<open>Properties\<close>

text \<open>A manifest that describes the files as they are.\<close>

definition described :: "build_files \<Rightarrow> string \<Rightarrow> string \<Rightarrow> bool" where
  "described fs source outp \<longleftrightarrow> bf_exists fs source \<and> bf_exists fs outp \<and>
     bf_manifest fs = Some \<lparr>mf_sourcePath = source, mf_outputPath = outp, mf_sourceHash = bf_hash fs source\<rparr>"

lemma fresh_iff: "check_manifest fs source outp = Fresh \<longleftrightarrow> described fs source outp"
proof (cases "bf_manifest fs")
  case (Some m)
  then show ?thesis by (cases m) (auto simp: check_manifest_def described_def)
qed (simp add: check_manifest_def described_def)

lemma missing_iff: "check_manifest fs source outp = Missing \<longleftrightarrow> bf_manifest fs = None"
  by (auto simp: check_manifest_def split: option.splits)

text \<open>
  The build gate lets the program go on only where the manifest describes the configured
  paths and the source as it is, in the files as they were or as the one build left them, or where
  there is no manifest at all and the output exists.
\<close>

theorem only_described_builds_pass:
  "fst (ensureFreshBuild env source outp fs) = (True, fs') \<longleftrightarrow>
     fs' = fs \<and> (described fs source outp \<or> (bf_manifest fs = None \<and> bf_exists fs outp)) \<or>
     \<not> described fs source outp \<and> \<not> (bf_manifest fs = None \<and> bf_exists fs outp) \<and> be_interactive env \<and>
       be_answer env = Some True \<and> be_build env fs = (True, fs') \<and> described fs' source outp"
  by (cases "be_build env fs") (auto simp: ensureFreshBuild_def Let_def fresh_iff missing_iff)

text \<open>
  The modules of a start: unless the application's own module was imported from a
  described build, what runs is the fallback; plugins are added once each, after it.
\<close>

definition starts_with_module :: "'m loader \<Rightarrow> 'm app_module \<Rightarrow> 'm app_module \<times> 'm loaded_plugin list \<Rightarrow> bool" where
  "starts_with_module ld app r \<longleftrightarrow> fst r = wrap_plugins (ld_self ld) app (snd r)"

lemma with_plugins_starts: "starts_with_module ld app (fst (with_plugins ld app ws))"
  by (auto simp: with_plugins_def starts_with_module_def wrap_plugins_def split: sum.splits)

theorem stale_modules_never_start:
  "starts_with_module ld (fallback_module ld) (fst (load_app_module env ld fs)) \<or>
   (\<exists>source outp fs' app. configured_paths ld = Some (source, outp) \<and>
      fst (ensureFreshBuild env (ld_resolve ld source) (ld_resolve ld outp) fs) = (True, fs') \<and>
      ld_export ld (ld_resolve ld outp) (export_name ld) = Inr (Some app) \<and>
      starts_with_module ld app (fst (load_app_module env ld fs)))"
proof (cases "configured_paths ld")
  case None
  then show ?thesis by (simp add: load_app_module_def with_plugins_starts)
next
  case (Some so)
  obtain source outp where so: "so = (source, outp)" by (cases so)
  let ?r = "ensureFreshBuild env (ld_resolve ld source) (ld_resolve ld outp) fs"
  show ?thesis
  proof (cases "fst (fst ?r)")
    case False
    then show ?thesis using Some so by (simp add: load_app_module_def starts_with_module_def wrap_plugins_def Let_def)
  next
    case True
    then have r: "fst ?r = (True, snd (fst ?r))" by (metis prod.collapse)
    show ?thesis
    proof (cases "importAppModule ld (ld_resolve ld outp) (export_name ld)")
      case (Inl e)
      then show ?thesis using Some so True by (simp add: load_app_module_def with_plugins_starts Let_def)
    next
      case (Inr app)
      then have "ld_export ld (ld_resolve ld outp) (export_name ld) = Inr (Some app)"
        by (auto simp: importAppModule_def sum_bind_Inr_conv split: option.splits)
      moreover have "starts_with_module ld app (fst (load_app_module env ld fs))"
        using Inr Some so True by (simp add: load_app_module_def with_plugins_starts Let_def)
      ultimately show ?thesis using Some so r by blast
    qed
  qed
qed

lemma foldl_add_once:
  "distinct ms \<Longrightarrow> distinct (foldl add_once ms xs) \<and> set (foldl add_once ms xs) = set ms \<union> set xs"
  by (induction xs arbitrary: ms) (auto simp: add_once_def)

theorem plugins_are_wrapped_once:
  "distinct (am_imports (wrap_plugins self app (p # ps))) \<and>
   set (am_imports (wrap_plugins self app (p # ps))) = insert (self app) (\<Union> (set ` lp_modules ` set (p # ps)))"
  using foldl_add_once [of "[]" "self app # concat (map lp_modules (p # ps))"] by (simp add: wrap_plugins_def)

end
