(* ===== verification/Cloudformation_Client.thy ===== *)
theory Cloudformation_Client
  imports Js_Values
begin

text \<open>
  The CloudFormation client (\<open>aws/src/clients/cloudformation.client.ts\<close>): its calls, and the
  deployment of a stack by a change set, with the two loops that poll the service every five
  seconds. The service is a parameter: it answers each call from a state of its own. A loop that
  never sees a final status is \<open>None\<close>. Every call, wait, callback and error entry is an event of the
  trace; debug entries and the request options are left out.
\<close>

section \<open>The service and what is observed\<close>

text \<open>An exception of the service has a name and a message (line 120 would throw for one without a message).\<close>

datatype cf_error = Service_Error string string | Missing_Stack_Error string | Callback_Error string

primrec cf_message :: "cf_error \<Rightarrow> string" where
  "cf_message (Service_Error _ m) = m"
| "cf_message (Missing_Stack_Error m) = m"
| "cf_message (Callback_Error m) = m"

text \<open>The error in a template string.\<close>

definition cf_text :: "cf_error \<Rightarrow> string" where
  "cf_text e = (let n = (case e of Service_Error n _ \<Rightarrow> n | _ \<Rightarrow> ''Error'') in
     if cf_message e = [] then n else if n = [] then cf_message e else n @ '': '' @ cf_message e)"

datatype deployment_status = NoChangesToPerform | Completed | Failed | InProgress

text \<open>The statuses are the strings of the service: it may answer one the client does not know.\<close>

record stack_description =
  sd_name :: string
  sd_status :: "string option"

record change_set_description =
  cd_status :: "string option"
  cd_reason :: "string option"

record change_set_input =
  ci_stackName :: string
  ci_templateUrl :: string
  ci_parameters :: "(string \<times> string) list"
  ci_capabilities :: "string list"
  ci_changeSetName :: string
  ci_changeSetType :: string
  ci_onStackFailure :: string

datatype cf_event =
    Stack_Described string | Change_Set_Created change_set_input
  | Change_Set_Described string string "cf_error + change_set_description"
  | Change_Set_Executed string string
  | Stack_Changed string jsv | Waited nat | Told deployment_status | Cf_Logged string string

record 'w cloudformation =
  cw_describeStacks :: "string option \<Rightarrow> 'w \<Rightarrow> (cf_error + stack_description list option) \<times> 'w"
  cw_createChangeSet :: "change_set_input \<Rightarrow> 'w \<Rightarrow> (cf_error + jsv) \<times> 'w"
  cw_describeChangeSet :: "string \<Rightarrow> string \<Rightarrow> 'w \<Rightarrow> (cf_error + change_set_description) \<times> 'w"
  cw_executeChangeSet :: "string \<Rightarrow> string \<Rightarrow> 'w \<Rightarrow> (cf_error + jsv) \<times> 'w"
  cw_send :: "string \<Rightarrow> jsv \<Rightarrow> 'w \<Rightarrow> (cf_error + jsv) \<times> 'w"

record 'w cf_state =
  cs_world :: 'w
  cs_trace :: "cf_event list"

definition observe :: "cf_event \<Rightarrow> 'w cf_state \<Rightarrow> 'w cf_state" where
  "observe e st = st\<lparr>cs_trace := cs_trace st @ [e]\<rparr>"

definition cf_error_log :: "string \<Rightarrow> 'w cf_state \<Rightarrow> 'w cf_state" where
  "cf_error_log m = observe (Cf_Logged ''error'' m)"

section \<open>The calls\<close>

text \<open>
  Line 120 matches the message against \<open>(.*)name(.*)does not exist(.*)\<close>, with the name unescaped; for
  a name of letters, digits and hyphens, as the service has them, this says that the name and then
  \<open>does not exist\<close> stand on one line of the message.
\<close>

definition is_line_break :: "char \<Rightarrow> bool" where
  "is_line_break c \<longleftrightarrow> of_char c = (10::nat) \<or> of_char c = (13::nat)"

fun says_on_the_line :: "string \<Rightarrow> string \<Rightarrow> bool" where
  "says_on_the_line p [] = (p = [])"
| "says_on_the_line p (c # s) = (starts_with (c # s) p \<or> (\<not> is_line_break c \<and> says_on_the_line p s))"

fun says_missing :: "string \<Rightarrow> string \<Rightarrow> bool" where
  "says_missing n [] = False"
| "says_missing n (c # s) =
     ((starts_with (c # s) n \<and> says_on_the_line ''does not exist'' (drop (length n) (c # s))) \<or> says_missing n s)"

text \<open>The placeholder of line 115 is in a plain string, so it is logged as it stands.\<close>

definition getStackDescription ::
  "'w cloudformation \<Rightarrow> string \<Rightarrow> 'w cf_state \<Rightarrow> (cf_error + stack_description option) \<times> 'w cf_state" where
  "getStackDescription svc n st =
     (case cw_describeStacks svc (Some n) (cs_world st) of (answer, w) \<Rightarrow>
       (let st1 = observe (Stack_Described n) (st\<lparr>cs_world := w\<rparr>) in
        case answer of
          Inr None \<Rightarrow> (Inr None, st1)
        | Inr (Some []) \<Rightarrow> (Inr None, st1)
        | Inr (Some (s # more_stacks)) \<Rightarrow>
            (Inr (Some s), if more_stacks = [] then st1 else observe (Cf_Logged ''warning''
               ''CloudformationClient: More than one stack was returned from cloudformation when we were expecting only one.'') st1)
        | Inl e \<Rightarrow>
            (let st2 = cf_error_log ''CloudformationClient: Error getting stack description from cloudformation. Error: ${e}'' st1 in
             if says_missing n (cf_message e) then (Inr None, st2) else (Inl e, st2))))"

definition listStacks :: "'w cloudformation \<Rightarrow> 'w cf_state \<Rightarrow> (cf_error + stack_description list) \<times> 'w cf_state" where
  "listStacks svc st =
     (case cw_describeStacks svc None (cs_world st) of (answer, w) \<Rightarrow>
       (let st1 = st\<lparr>cs_world := w\<rparr> in
        case answer of
          Inr stacks \<Rightarrow> (Inr (case stacks of None \<Rightarrow> [] | Some ss \<Rightarrow> ss), st1)
        | Inl e \<Rightarrow> (Inl e, cf_error_log ''CloudformationClient: Error getting stack description from cloudformation. Error: ${e}'' st1)))"

text \<open>The calls that only pass their input on, log a failure and throw it again.\<close>

definition pass_on :: "'w cloudformation \<Rightarrow> string \<Rightarrow> string \<Rightarrow> jsv \<Rightarrow> 'w cf_state \<Rightarrow> (cf_error + jsv) \<times> 'w cf_state" where
  "pass_on svc command doing input st =
     (case cw_send svc command input (cs_world st) of (answer, w) \<Rightarrow>
       (let st1 = observe (Stack_Changed command input) (st\<lparr>cs_world := w\<rparr>) in
        (answer, case answer of Inr _ \<Rightarrow> st1
          | Inl _ \<Rightarrow> cf_error_log (''CloudformationClient: Error '' @ doing @ '' in cloudformation. Error: ${e}'') st1)))"

definition createStack :: "'w cloudformation \<Rightarrow> jsv \<Rightarrow> 'w cf_state \<Rightarrow> (cf_error + jsv) \<times> 'w cf_state" where
  "createStack svc = pass_on svc ''CreateStackCommand'' ''creating stack''"

definition deleteStack :: "'w cloudformation \<Rightarrow> jsv \<Rightarrow> 'w cf_state \<Rightarrow> (cf_error + jsv) \<times> 'w cf_state" where
  "deleteStack svc = pass_on svc ''DeleteStackCommand'' ''deleting stack''"

definition deleteChangeSet :: "'w cloudformation \<Rightarrow> jsv \<Rightarrow> 'w cf_state \<Rightarrow> (cf_error + jsv) \<times> 'w cf_state" where
  "deleteChangeSet svc = pass_on svc ''DeleteChangeSetCommand'' ''deleting change set''"

definition listChangeSets :: "'w cloudformation \<Rightarrow> jsv \<Rightarrow> 'w cf_state \<Rightarrow> (cf_error + jsv) \<times> 'w cf_state" where
  "listChangeSets svc = pass_on svc ''ListChangeSetsCommand'' ''listing change sets''"

text \<open>An update that would change nothing is a success.\<close>

definition updateStack :: "'w cloudformation \<Rightarrow> jsv \<Rightarrow> 'w cf_state \<Rightarrow> (cf_error + jsv) \<times> 'w cf_state" where
  "updateStack svc input st =
     (case cw_send svc ''UpdateStackCommand'' input (cs_world st) of (answer, w) \<Rightarrow>
       (let st1 = observe (Stack_Changed ''UpdateStackCommand'' input) (st\<lparr>cs_world := w\<rparr>) in
        case answer of
          Inr r \<Rightarrow> (Inr r, st1)
        | Inl e \<Rightarrow>
            (if cf_message e = ''No updates are to be performed.''
             then (Inr (JObject [(''$metadata'', JObject [(''httpStatusCode'', JAtom ''200'')])]), st1)
             else (Inl e, cf_error_log ''CloudformationClient: Error updating stack in cloudformation. Error: ${e}'' st1))))"

definition createChangeSet :: "'w cloudformation \<Rightarrow> change_set_input \<Rightarrow> 'w cf_state \<Rightarrow> (cf_error + jsv) \<times> 'w cf_state" where
  "createChangeSet svc input st =
     (case cw_createChangeSet svc input (cs_world st) of (answer, w) \<Rightarrow>
       (let st1 = observe (Change_Set_Created input) (st\<lparr>cs_world := w\<rparr>) in
        (answer, case answer of Inr _ \<Rightarrow> st1
          | Inl e \<Rightarrow> cf_error_log (''CloudformationClient: Error creating change set in cloudformation. Error: '' @ cf_text e) st1)))"

definition describeChangeSet ::
  "'w cloudformation \<Rightarrow> string \<Rightarrow> string \<Rightarrow> 'w cf_state \<Rightarrow> (cf_error + change_set_description) \<times> 'w cf_state" where
  "describeChangeSet svc n c st =
     (case cw_describeChangeSet svc n c (cs_world st) of (answer, w) \<Rightarrow>
       (let st1 = observe (Change_Set_Described n c answer) (st\<lparr>cs_world := w\<rparr>) in
        (answer, case answer of Inr _ \<Rightarrow> st1
          | Inl _ \<Rightarrow> cf_error_log ''CloudformationClient: Error describing change set in cloudformation. Error: ${e}'' st1)))"

definition executeChangeSet :: "'w cloudformation \<Rightarrow> string \<Rightarrow> string \<Rightarrow> 'w cf_state \<Rightarrow> (cf_error + jsv) \<times> 'w cf_state" where
  "executeChangeSet svc n c st =
     (case cw_executeChangeSet svc n c (cs_world st) of (answer, w) \<Rightarrow>
       (let st1 = observe (Change_Set_Executed n c) (st\<lparr>cs_world := w\<rparr>) in
        (answer, case answer of Inr _ \<Rightarrow> st1
          | Inl _ \<Rightarrow> cf_error_log ''CloudformationClient: Error executing change set in cloudformation. Error: ${e}'' st1)))"

section \<open>The polling loops\<close>

text \<open>A \<open>while (true)\<close> whose body settles the result or asks for another round.\<close>

partial_function (option) repeat_until :: "('s \<Rightarrow> ('r \<times> 's) + 's) \<Rightarrow> 's \<Rightarrow> ('r \<times> 's) option" where
  "repeat_until body s = (case body s of Inl settled \<Rightarrow> Some settled | Inr s' \<Rightarrow> repeat_until body s')"

type_synonym status_callback = "(deployment_status \<Rightarrow> string option) option"

text \<open>A callback may throw: its error leaves the loop.\<close>

definition tell_progress ::
  "status_callback \<Rightarrow> 'w cf_state \<Rightarrow> ((cf_error + deployment_status) \<times> 'w cf_state) + 'w cf_state" where
  "tell_progress cb st = (case cb of
     None \<Rightarrow> Inr (observe (Waited 5000) st)
   | Some f \<Rightarrow> (let st1 = observe (Told InProgress) st in
       case f InProgress of None \<Rightarrow> Inr (observe (Waited 5000) st1) | Some m \<Rightarrow> Inl (Inl (Callback_Error m), st1)))"

definition changes_nothing :: "change_set_description \<Rightarrow> bool" where
  "changes_nothing d \<longleftrightarrow> cd_reason d = Some ''No updates are to be performed.'' \<or>
     cd_reason d = Some (''The submitted information didn'' @ [CHR 0x27] @ ''t contain changes. Submit different information to create a change set.'')"

definition change_set_body ::
  "'w cloudformation \<Rightarrow> string \<Rightarrow> string \<Rightarrow> status_callback \<Rightarrow> 'w cf_state \<Rightarrow>
   ((cf_error + deployment_status) \<times> 'w cf_state) + 'w cf_state" where
  "change_set_body svc n c cb st =
     (case describeChangeSet svc n c st of
        (Inl e, st1) \<Rightarrow> Inl (Inl e, st1)
      | (Inr r, st1) \<Rightarrow>
          (case cd_status r of
             None \<Rightarrow> Inr (observe (Waited 5000) st1)
           | Some s \<Rightarrow>
               (if s \<in> {''CREATE_IN_PROGRESS'', ''CREATE_PENDING'', ''DELETE_IN_PROGRESS'', ''DELETE_PENDING''}
                then tell_progress cb st1
                else if s = ''CREATE_COMPLETE'' \<or> s = ''DELETE_COMPLETE'' then Inl (Inr Completed, st1)
                else if s = ''FAILED'' then
                  Inl (Inr (if changes_nothing r then NoChangesToPerform else Failed), st1)
                else if s = ''DELETE_FAILED''
                then Inl (Inr Failed, cf_error_log ''CloudformationClient: Error with the ChangeSet.'' st1)
                else Inr (observe (Waited 5000) st1))))"

definition monitorChangeSet ::
  "'w cloudformation \<Rightarrow> string \<Rightarrow> string \<Rightarrow> status_callback \<Rightarrow> 'w cf_state \<Rightarrow>
   ((cf_error + deployment_status) \<times> 'w cf_state) option" where
  "monitorChangeSet svc n c cb = repeat_until (change_set_body svc n c cb)"

definition progress_states :: "string list" where
  "progress_states = [''CREATE_IN_PROGRESS'', ''DELETE_IN_PROGRESS'', ''IMPORT_IN_PROGRESS'',
     ''UPDATE_COMPLETE_CLEANUP_IN_PROGRESS'', ''UPDATE_IN_PROGRESS'', ''REVIEW_IN_PROGRESS'']"

definition failure_states :: "string list" where
  "failure_states = [''IMPORT_ROLLBACK_IN_PROGRESS'', ''UPDATE_ROLLBACK_IN_PROGRESS'', ''ROLLBACK_IN_PROGRESS'',
     ''CREATE_FAILED'', ''DELETE_COMPLETE'', ''DELETE_FAILED'', ''IMPORT_ROLLBACK_COMPLETE'', ''IMPORT_ROLLBACK_FAILED'',
     ''ROLLBACK_COMPLETE'', ''ROLLBACK_FAILED'', ''UPDATE_FAILED'', ''UPDATE_ROLLBACK_COMPLETE'',
     ''UPDATE_ROLLBACK_COMPLETE_CLEANUP_IN_PROGRESS'', ''UPDATE_ROLLBACK_FAILED'']"

definition success_states :: "string list" where
  "success_states = [''CREATE_COMPLETE'', ''IMPORT_COMPLETE'', ''UPDATE_COMPLETE'']"

definition stack_body ::
  "'w cloudformation \<Rightarrow> string \<Rightarrow> status_callback \<Rightarrow> 'w cf_state \<Rightarrow>
   ((cf_error + deployment_status) \<times> 'w cf_state) + 'w cf_state" where
  "stack_body svc n cb st =
     (case getStackDescription svc n st of
        (Inl e, st1) \<Rightarrow> Inl (Inl e, st1)
      | (Inr None, st1) \<Rightarrow>
          (let m = ''Stack '' @ quoted n @ '' wasn'' @ [CHR 0x27] @ ''t found.'' in
           Inl (Inl (Missing_Stack_Error m), cf_error_log m st1))
      | (Inr (Some d), st1) \<Rightarrow>
          (case sd_status d of
             None \<Rightarrow> Inr (observe (Waited 5000) st1)
           | Some s \<Rightarrow>
               (if s \<in> set progress_states then tell_progress cb st1
                else if s \<in> set failure_states then
                  Inl (Inr Failed, cf_error_log (''CloudformationClient: Invalid status '' @ quoted s @ '' for stack '' @ quoted n @ ''.'') st1)
                else if s \<in> set success_states then Inl (Inr Completed, st1)
                else Inr (observe (Waited 5000) st1))))"

definition monitorStack ::
  "'w cloudformation \<Rightarrow> string \<Rightarrow> status_callback \<Rightarrow> 'w cf_state \<Rightarrow> ((cf_error + deployment_status) \<times> 'w cf_state) option" where
  "monitorStack svc n cb = repeat_until (stack_body svc n cb)"

section \<open>A deployment\<close>

definition change_set_request ::
  "string \<Rightarrow> string \<Rightarrow> string \<Rightarrow> string obj \<Rightarrow> string list \<Rightarrow> stack_description option \<Rightarrow> change_set_input" where
  "change_set_request n c url parameters capabilities found =
     \<lparr>ci_stackName = n, ci_templateUrl = url,
      ci_parameters = map (\<lambda>k. (k, the (obj_get parameters k))) (obj_keys parameters),
      ci_capabilities = capabilities, ci_changeSetName = c,
      ci_changeSetType = (if found = None then ''CREATE'' else ''UPDATE''),
      ci_onStackFailure = ''ROLLBACK''\<rparr>"

definition deployStack ::
  "'w cloudformation \<Rightarrow> string \<Rightarrow> string \<Rightarrow> string \<Rightarrow> string obj \<Rightarrow> string list \<Rightarrow> status_callback \<Rightarrow>
   'w cf_state \<Rightarrow> ((cf_error + deployment_status) \<times> 'w cf_state) option" where
  "deployStack svc uuid n url parameters capabilities cb st =
     (let c = ''p-'' @ uuid in
      case getStackDescription svc n st of
        (Inl e, st1) \<Rightarrow> Some (Inl e, st1)
      | (Inr found, st1) \<Rightarrow>
          (case createChangeSet svc (change_set_request n c url parameters capabilities found) st1 of
             (Inl e, st2) \<Rightarrow> Some (Inl e, st2)
           | (Inr _, st2) \<Rightarrow>
               (case monitorChangeSet svc n c None st2 of
                  None \<Rightarrow> None
                | Some (Inl e, st3) \<Rightarrow> Some (Inl e, st3)
                | Some (Inr status, st3) \<Rightarrow>
                    (if status = Failed \<or> status = NoChangesToPerform then Some (Inr status, st3)
                     else
                       (let st4 = (if status = InProgress then cf_error_log (''CloudformationClient: The returned status of '' @
                                     quoted ''monitorStack'' @ '' should never be '' @ quoted ''InProgress'' @ ''.'') st3 else st3) in
                        case executeChangeSet svc n c st4 of
                          (Inl e, st5) \<Rightarrow> Some (Inl e, st5)
                        | (Inr _, st5) \<Rightarrow> monitorStack svc n cb st5)))))"

end
