(* ===== verification/Cloudformation_Properties.thy ===== *)
theory Cloudformation_Properties
  imports Cloudformation_Client "HOL-Library.Sublist"
begin

text \<open>
  Deployments: a polling loop answers with the first verdict of the service, or never; a change set is
  executed once, by its name, straight after the service said it is complete.
\<close>

section \<open>Loops that poll\<close>

primrec after_rounds :: "nat \<Rightarrow> ('s \<Rightarrow> ('r \<times> 's) + 's) \<Rightarrow> 's \<Rightarrow> 's option" where
  "after_rounds 0 body s = Some s"
| "after_rounds (Suc k) body s = (case body s of Inl _ \<Rightarrow> None | Inr s' \<Rightarrow> after_rounds k body s')"

lemma repeat_until_returns: "after_rounds k body s = Some s' \<Longrightarrow> body s' = Inl r \<Longrightarrow> repeat_until body s = Some r"
proof (induction k arbitrary: s)
  case 0
  then show ?case by (subst repeat_until.simps) simp
next
  case (Suc k)
  then show ?case by (subst repeat_until.simps) (auto split: sum.splits)
qed

lemma repeat_until_ends:
  assumes "repeat_until body s = Some r"
  shows "\<exists>k s'. after_rounds k body s = Some s' \<and> body s' = Inl r"
proof (rule repeat_until.raw_induct [OF _ assms, where P = "\<lambda>body s r. \<exists>k s'. after_rounds k body s = Some s' \<and> body s' = Inl r"])
  fix rec body s r
  assume again: "\<And>body s r. rec body s = Some r \<Longrightarrow> \<exists>k s'. after_rounds k body s = Some s' \<and> body s' = Inl r"
    and one: "(case body s of Inl settled \<Rightarrow> Some settled | Inr s' \<Rightarrow> rec body s') = Some r"
  show "\<exists>k s'. after_rounds k body s = Some s' \<and> body s' = Inl r"
  proof (cases "body s")
    case (Inl settled)
    then show ?thesis using one by (intro exI [of _ 0] exI [of _ s]) simp
  next
    case (Inr t)
    then have "rec body t = Some r" using one by simp
    then obtain k s' where "after_rounds k body t = Some s'" "body s' = Inl r" using again by blast
    then show ?thesis using Inr by (intro exI [of _ "Suc k"] exI [of _ s']) simp
  qed
qed

lemma repeat_until_iff: "repeat_until body s = Some r \<longleftrightarrow> (\<exists>k s'. after_rounds k body s = Some s' \<and> body s' = Inl r)"
  using repeat_until_returns repeat_until_ends by metis

text \<open>What every round respects, the loop respects.\<close>

lemma repeat_until_related:
  assumes "repeat_until body s = Some (r, s')" and refl: "\<And>s. R s s" and trans: "\<And>s t u. R s t \<Longrightarrow> R t u \<Longrightarrow> R s u"
    and round: "\<And>s t. body s = Inr t \<Longrightarrow> R s t" and last: "\<And>s r t. body s = Inl (r, t) \<Longrightarrow> R s t"
  shows "R s s'"
proof -
  obtain k t where k: "after_rounds k body s = Some t" and "body t = Inl (r, s')"
    using assms(1) by (auto simp: repeat_until_iff)
  then have "R t s'" using last by simp
  have "R s t" using k
  proof (induction k arbitrary: s)
    case 0
    then show ?case using refl by simp
  next
    case (Suc k)
    then obtain u where "body s = Inr u" "after_rounds k body u = Some t" by (auto split: sum.splits)
    then show ?case using Suc.IH round trans by blast
  qed
  then show ?thesis using trans \<open>R t s'\<close> by blast
qed

section \<open>The first verdict\<close>

text \<open>The answers of a service that is only asked one question, over and over.\<close>

primrec nth_answer :: "('w \<Rightarrow> 'a \<times> 'w) \<Rightarrow> 'w \<Rightarrow> nat \<Rightarrow> 'a" where
  "nth_answer ask w 0 = fst (ask w)"
| "nth_answer ask w (Suc k) = nth_answer ask (snd (ask w)) k"

text \<open>What an answer says of a stack under deployment; \<open>None\<close> is not yet.\<close>

definition missing_stack :: "string \<Rightarrow> cf_error" where
  "missing_stack n = Missing_Stack_Error (''Stack '' @ quoted n @ '' wasn'' @ [CHR 0x27] @ ''t found.'')"

definition progress_verdict :: "status_callback \<Rightarrow> (cf_error + deployment_status) option" where
  "progress_verdict cb = (case cb of None \<Rightarrow> None | Some f \<Rightarrow> map_option (\<lambda>m. Inl (Callback_Error m)) (f InProgress))"

text \<open>
  What a status says, by its name: whatever rolls back or failed is a failure, and so is that the
  stack was deleted; anything else that is complete is a success, and the rest is under way. A
  status that the service does not document says nothing.
\<close>

definition documented_statuses :: "string list" where
  "documented_statuses = [''CREATE_COMPLETE'', ''CREATE_FAILED'', ''CREATE_IN_PROGRESS'', ''DELETE_COMPLETE'', ''DELETE_FAILED'',
     ''DELETE_IN_PROGRESS'', ''IMPORT_COMPLETE'', ''IMPORT_IN_PROGRESS'', ''IMPORT_ROLLBACK_COMPLETE'', ''IMPORT_ROLLBACK_FAILED'',
     ''IMPORT_ROLLBACK_IN_PROGRESS'', ''REVIEW_IN_PROGRESS'', ''ROLLBACK_COMPLETE'', ''ROLLBACK_FAILED'', ''ROLLBACK_IN_PROGRESS'',
     ''UPDATE_COMPLETE'', ''UPDATE_COMPLETE_CLEANUP_IN_PROGRESS'', ''UPDATE_FAILED'', ''UPDATE_IN_PROGRESS'',
     ''UPDATE_ROLLBACK_COMPLETE'', ''UPDATE_ROLLBACK_COMPLETE_CLEANUP_IN_PROGRESS'', ''UPDATE_ROLLBACK_FAILED'',
     ''UPDATE_ROLLBACK_IN_PROGRESS'']"

definition status_outcome :: "string \<Rightarrow> deployment_status option" where
  "status_outcome s =
     (if s \<notin> set documented_statuses then None
      else if sublist ''ROLLBACK'' s \<or> suffix ''_FAILED'' s \<or> s = ''DELETE_COMPLETE'' then Some Failed
      else if suffix ''_COMPLETE'' s then Some Completed
      else Some InProgress)"

definition stack_verdict ::
  "string \<Rightarrow> status_callback \<Rightarrow> cf_error + stack_description list option \<Rightarrow> (cf_error + deployment_status) option" where
  "stack_verdict n cb answer = (case answer of
     Inl e \<Rightarrow> Some (Inl (if says_missing n (cf_message e) then missing_stack n else e))
   | Inr None \<Rightarrow> Some (Inl (missing_stack n))
   | Inr (Some []) \<Rightarrow> Some (Inl (missing_stack n))
   | Inr (Some (d # _)) \<Rightarrow> (case sd_status d of
       None \<Rightarrow> None
     | Some s \<Rightarrow> (case status_outcome s of
           None \<Rightarrow> None
         | Some InProgress \<Rightarrow> progress_verdict cb
         | Some v \<Rightarrow> Some (Inr v))))"

text \<open>The three lists of the code are these outcomes.\<close>

lemma documented_are_listed: "set documented_statuses = set progress_states \<union> set failure_states \<union> set success_states"
  by code_simp

lemma listed_outcomes:
  "list_all (\<lambda>s. status_outcome s = Some InProgress) progress_states"
  "list_all (\<lambda>s. status_outcome s = Some Failed) failure_states"
  "list_all (\<lambda>s. status_outcome s = Some Completed) success_states"
  by code_simp+

lemma status_outcome_listed:
  "status_outcome s = (if s \<in> set progress_states then Some InProgress else if s \<in> set failure_states then Some Failed
     else if s \<in> set success_states then Some Completed else None)"
  using listed_outcomes documented_are_listed by (auto simp: list_all_iff) (auto simp: status_outcome_def)

lemma cf_state_simps [simp]:
  "cs_world (observe e st) = cs_world st" "cs_trace (observe e st) = cs_trace st @ [e]"
  "cs_world (cf_error_log m st) = cs_world st" "cs_trace (cf_error_log m st) = cs_trace st @ [Cf_Logged ''error'' m]"
  by (simp_all add: observe_def cf_error_log_def)

lemma tell_progress_verdict:
  "case tell_progress cb st of Inl (r, _) \<Rightarrow> progress_verdict cb = Some r | Inr st' \<Rightarrow> progress_verdict cb = None \<and> cs_world st' = cs_world st"
  by (auto simp: tell_progress_def progress_verdict_def Let_def split: option.splits)

definition described :: "string \<Rightarrow> cf_error + stack_description list option \<Rightarrow> cf_error + stack_description option" where
  "described n answer = (case answer of
     Inl e \<Rightarrow> if says_missing n (cf_message e) then Inr None else Inl e
   | Inr None \<Rightarrow> Inr None
   | Inr (Some []) \<Rightarrow> Inr None
   | Inr (Some (d # _)) \<Rightarrow> Inr (Some d))"

lemma getStackDescription_result:
  assumes "cw_describeStacks svc (Some n) (cs_world st) = (answer, w)"
  shows "fst (getStackDescription svc n st) = described n answer" and "cs_world (snd (getStackDescription svc n st)) = w"
  using assms by (auto simp: getStackDescription_def described_def Let_def split: sum.splits option.splits list.splits)

lemma stack_body_verdict:
  assumes "cw_describeStacks svc (Some n) (cs_world st) = (answer, w)"
  shows "case stack_body svc n cb st of Inl (r, _) \<Rightarrow> stack_verdict n cb answer = Some r
    | Inr st' \<Rightarrow> stack_verdict n cb answer = None \<and> cs_world st' = w"
proof -
  obtain found st1 where called: "getStackDescription svc n st = (found, st1)" by force
  have w: "cs_world st1 = w" and found: "found = described n answer"
    using getStackDescription_result [OF assms] called by simp_all
  consider d rest where "answer = Inr (Some (d # rest))" | e where "answer = Inl e" | "answer = Inr None" | "answer = Inr (Some [])"
    by (metis list.exhaust option.exhaust sumE)
  then show ?thesis
  proof cases
    case (1 d rest)
    show ?thesis
    proof (cases "sd_status d")
      case None
      then show ?thesis using called w found 1 by (simp add: stack_body_def stack_verdict_def described_def)
    next
      case (Some s)
      then show ?thesis using called w found 1 tell_progress_verdict [of cb st1]
        by (auto simp: stack_body_def stack_verdict_def status_outcome_listed described_def split: sum.splits)
    qed
  next
    case (2 e)
    then show ?thesis using called found
      by (cases "says_missing n (cf_message e)") (simp_all add: stack_body_def stack_verdict_def described_def missing_stack_def Let_def)
  next
    case 3
    then show ?thesis using called found by (simp add: stack_body_def stack_verdict_def described_def missing_stack_def Let_def)
  next
    case 4
    then show ?thesis using called found by (simp add: stack_body_def stack_verdict_def described_def missing_stack_def Let_def)
  qed
qed

text \<open>
  A loop whose rounds each ask the service one question: a verdict on the answer settles the result,
  and without one the next round asks again. The trace plays no part in it.
\<close>

locale polling =
  fixes body :: "'w cf_state \<Rightarrow> ('r \<times> 'w cf_state) + 'w cf_state"
    and verdict :: "'a \<Rightarrow> 'r option"
    and ask :: "'w \<Rightarrow> 'a \<times> 'w"
  assumes round: "case body st of Inl (r, _) \<Rightarrow> verdict (fst (ask (cs_world st))) = Some r
    | Inr st' \<Rightarrow> verdict (fst (ask (cs_world st))) = None \<and> cs_world st' = snd (ask (cs_world st))"
begin

lemma after_rounds_verdict:
  "(\<exists>s' t. after_rounds k body st = Some s' \<and> body s' = Inl (r, t)) \<longleftrightarrow>
    (\<forall>i < k. verdict (nth_answer ask (cs_world st) i) = None) \<and> verdict (nth_answer ask (cs_world st) k) = Some r"
proof (induction k arbitrary: st)
  case 0
  then show ?case using round [of st] by (cases "body st") auto
next
  case (Suc k)
  show ?case
  proof (cases "body st")
    case (Inl x)
    then have "verdict (fst (ask (cs_world st))) \<noteq> None" using round [of st] by (auto split: prod.splits)
    then have "\<not> (\<forall>i < Suc k. verdict (nth_answer ask (cs_world st) i) = None)" by (auto intro: exI [of _ 0])
    then show ?thesis using Inl by simp
  next
    case (Inr st')
    then have none: "verdict (fst (ask (cs_world st))) = None" and w: "cs_world st' = snd (ask (cs_world st))"
      using round [of st] by auto
    have "(\<forall>i < Suc k. verdict (nth_answer ask (cs_world st) i) = None) \<longleftrightarrow> (\<forall>i < k. verdict (nth_answer ask (cs_world st') i) = None)"
      using none w by (auto simp: less_Suc_eq_0_disj)
    then show ?thesis using Inr Suc.IH [of st'] w by simp
  qed
qed

lemma first_verdict:
  "map_option fst (repeat_until body st) = Some r \<longleftrightarrow>
    (\<exists>k. (\<forall>i < k. verdict (nth_answer ask (cs_world st) i) = None) \<and> verdict (nth_answer ask (cs_world st) k) = Some r)"
proof -
  have "map_option fst (repeat_until body st) = Some r \<longleftrightarrow> (\<exists>k s' t. after_rounds k body st = Some s' \<and> body s' = Inl (r, t))"
    unfolding map_option_eq_Some repeat_until_iff by (metis fst_conv prod.collapse)
  then show ?thesis using after_rounds_verdict [of _ st r] by simp
qed

end

interpretation stack_polls: polling "stack_body svc n cb" "stack_verdict n cb" "cw_describeStacks svc (Some n)" for svc n cb
  by unfold_locales (rule stack_body_verdict [OF prod.collapse [symmetric]])

text \<open>What an answer says of a change set.\<close>

definition change_set_verdict ::
  "status_callback \<Rightarrow> cf_error + change_set_description \<Rightarrow> (cf_error + deployment_status) option" where
  "change_set_verdict cb answer = (case answer of
     Inl e \<Rightarrow> Some (Inl e)
   | Inr d \<Rightarrow> (case cd_status d of
       None \<Rightarrow> None
     | Some s \<Rightarrow> if s \<in> {''CREATE_IN_PROGRESS'', ''CREATE_PENDING'', ''DELETE_IN_PROGRESS'', ''DELETE_PENDING''} then progress_verdict cb
         else if s = ''CREATE_COMPLETE'' \<or> s = ''DELETE_COMPLETE'' then Some (Inr Completed)
         else if s = ''FAILED'' then Some (Inr (if changes_nothing d then NoChangesToPerform else Failed))
         else if s = ''DELETE_FAILED'' then Some (Inr Failed) else None))"

lemma change_set_body_verdict:
  assumes "cw_describeChangeSet svc n c (cs_world st) = (answer, w)"
  shows "case change_set_body svc n c cb st of Inl (r, _) \<Rightarrow> change_set_verdict cb answer = Some r
    | Inr st' \<Rightarrow> change_set_verdict cb answer = None \<and> cs_world st' = w"
proof (cases answer)
  case (Inl e)
  then show ?thesis using assms by (simp add: change_set_body_def describeChangeSet_def change_set_verdict_def Let_def)
next
  case (Inr d)
  obtain st1 where called: "describeChangeSet svc n c st = (Inr d, st1)" and w: "cs_world st1 = w"
    using assms Inr by (simp add: describeChangeSet_def Let_def)
  show ?thesis
  proof (cases "cd_status d")
    case None
    then show ?thesis using called w Inr by (simp add: change_set_body_def change_set_verdict_def)
  next
    case (Some s)
    then show ?thesis using called w Inr tell_progress_verdict [of cb st1]
      by (auto simp: change_set_body_def change_set_verdict_def split: sum.splits)
  qed
qed

interpretation change_set_polls: polling "change_set_body svc n c cb" "change_set_verdict cb" "cw_describeChangeSet svc n c" for svc n c cb
  by unfold_locales (rule change_set_body_verdict [OF prod.collapse [symmetric]])

lemma monitorChangeSet_first_verdict:
  "map_option fst (monitorChangeSet svc n c cb st) = Some r \<longleftrightarrow>
    (\<exists>k. (\<forall>i < k. change_set_verdict cb (nth_answer (cw_describeChangeSet svc n c) (cs_world st) i) = None) \<and>
      change_set_verdict cb (nth_answer (cw_describeChangeSet svc n c) (cs_world st) k) = Some r)"
  unfolding monitorChangeSet_def by (rule change_set_polls.first_verdict)

text \<open>
  Claim C37. Monitoring a stack returns exactly the first verdict among the answers of the service to that
  question: a failure for a status that rolls back, failed or says the stack is deleted, a success
  for any other that is complete, an error for one or for no stack, and what the callback throws.
  Statuses that are missing, in progress or unknown are no verdict, so without another the loop
  never returns.
\<close>

theorem monitoring_returns_the_first_verdict:
  "map_option fst (monitorStack svc n cb st) = Some r \<longleftrightarrow>
    (\<exists>k. (\<forall>i < k. stack_verdict n cb (nth_answer (cw_describeStacks svc (Some n)) (cs_world st) i) = None) \<and>
      stack_verdict n cb (nth_answer (cw_describeStacks svc (Some n)) (cs_world st) k) = Some r)"
  unfolding monitorStack_def by (rule stack_polls.first_verdict)

section \<open>What is executed\<close>

definition is_execution :: "cf_event \<Rightarrow> bool" where
  "is_execution e = (case e of Change_Set_Executed _ _ \<Rightarrow> True | _ \<Rightarrow> False)"

definition is_told :: "cf_event \<Rightarrow> bool" where
  "is_told e = (case e of Told _ \<Rightarrow> True | _ \<Rightarrow> False)"

definition adds :: "(cf_event \<Rightarrow> bool) \<Rightarrow> 'w cf_state \<Rightarrow> 'w cf_state \<Rightarrow> bool" where
  "adds P st st' \<longleftrightarrow> (\<exists>es. cs_trace st' = cs_trace st @ es \<and> list_all P es)"

lemma adds_refl: "adds P st st"
  by (simp add: adds_def)

lemma adds_trans: "adds P s t \<Longrightarrow> adds P t u \<Longrightarrow> adds P s u"
  by (auto simp: adds_def)

lemma adds_observe: "P e \<Longrightarrow> adds P st st' \<Longrightarrow> adds P st (observe e st')"
  by (auto simp: adds_def)

lemma adds_world [simp]: "adds P st (st'\<lparr>cs_world := w\<rparr>) = adds P st st'"
  by (simp add: adds_def)

lemmas event_kinds = is_execution_def is_told_def

definition quiet :: "cf_event \<Rightarrow> bool" where
  "quiet e \<longleftrightarrow> \<not> is_execution e \<and> \<not> is_told e"

lemma quiet_events [simp]:
  "quiet (Stack_Described n)" "quiet (Change_Set_Created i)" "quiet (Change_Set_Described n c a)" "quiet (Waited k)" "quiet (Cf_Logged sev m)"
  "\<not> quiet (Told s)" "\<not> quiet (Change_Set_Executed n c)" "is_execution (Change_Set_Executed n c)" "\<not> is_execution (Told s)"
  by (simp_all add: quiet_def event_kinds)

lemma quiet_executions: "quiet e \<Longrightarrow> \<not> is_execution e"
  by (simp add: quiet_def)

lemma getStackDescription_quiet: "adds quiet st (snd (getStackDescription svc n st))"
  by (auto simp: getStackDescription_def Let_def cf_error_log_def adds_refl intro!: adds_observe
      split: prod.splits sum.splits option.splits list.splits)

lemma createChangeSet_quiet: "adds quiet st (snd (createChangeSet svc i st))"
  by (auto simp: createChangeSet_def Let_def cf_error_log_def adds_refl intro!: adds_observe split: prod.splits sum.splits)

lemma stack_body_calm:
  "case stack_body svc n cb st of Inl (_, t) \<Rightarrow> adds (\<lambda>e. \<not> is_execution e) st t | Inr t \<Rightarrow> adds (\<lambda>e. \<not> is_execution e) st t"
proof -
  obtain found st1 where called: "getStackDescription svc n st = (found, st1)" by force
  then have "adds quiet st st1" using getStackDescription_quiet [of st svc n] by simp
  then have "adds (\<lambda>e. \<not> is_execution e) st st1" by (auto simp: adds_def list_all_iff quiet_def)
  then show ?thesis using called
    by (auto simp: stack_body_def tell_progress_def Let_def cf_error_log_def event_kinds intro!: adds_observe
        split: sum.splits option.splits)
qed

lemma monitorStack_calm: "monitorStack svc n cb st = Some (r, st') \<Longrightarrow> adds (\<lambda>e. \<not> is_execution e) st st'"
  unfolding monitorStack_def
proof (erule repeat_until_related)
  show "adds (\<lambda>e. \<not> is_execution e) s t" if "stack_body svc n cb s = Inr t" for s t
    using stack_body_calm [of s svc n cb] that by simp
  show "adds (\<lambda>e. \<not> is_execution e) s t" if "stack_body svc n cb s = Inl (r, t)" for s r t
    using stack_body_calm [of s svc n cb] that by simp
qed (rule adds_refl, rule adds_trans)

text \<open>A change set that is called complete was described so last.\<close>

definition says_complete :: "change_set_description \<Rightarrow> bool" where
  "says_complete d \<longleftrightarrow> cd_status d = Some ''CREATE_COMPLETE'' \<or> cd_status d = Some ''DELETE_COMPLETE''"

lemma change_set_round:
  "case change_set_body svc n c None st of Inr t \<Rightarrow> adds quiet st t
   | Inl (r, t) \<Rightarrow> adds quiet st t \<and> r \<noteq> Inr InProgress \<and>
      (r = Inr Completed \<longrightarrow> (\<exists>d. cs_trace t = cs_trace st @ [Change_Set_Described n c (Inr d)] \<and> says_complete d))"
proof -
  obtain answer w where answer: "cw_describeChangeSet svc n c (cs_world st) = (answer, w)" by force
  show ?thesis
  proof (cases answer)
    case (Inl e)
    then show ?thesis using answer
      by (auto simp: change_set_body_def describeChangeSet_def Let_def cf_error_log_def adds_refl intro!: adds_observe)
  next
    case (Inr r)
    show ?thesis
    proof (cases "cd_status r")
      case None
      then show ?thesis using answer Inr
        by (auto simp: change_set_body_def describeChangeSet_def Let_def adds_refl intro!: adds_observe)
    next
      case (Some s)
      then show ?thesis using answer Inr
        by (simp add: change_set_body_def describeChangeSet_def Let_def adds_refl adds_observe tell_progress_def cf_error_log_def says_complete_def)
    qed
  qed
qed

lemma monitorChangeSet_quiet:
  assumes "monitorChangeSet svc n c None st = Some (r, st')"
  shows "adds quiet st st'" and "r \<noteq> Inr InProgress"
    and "r = Inr Completed \<Longrightarrow> \<exists>es d. cs_trace st' = cs_trace st @ es @ [Change_Set_Described n c (Inr d)] \<and> list_all quiet es \<and> says_complete d"
proof -
  let ?body = "change_set_body svc n c None"
  have end_of: "\<exists>t. adds quiet st t \<and> ?body t = Inl (r, st')"
  proof -
    obtain k t where "after_rounds k ?body st = Some t" and t: "?body t = Inl (r, st')"
      using assms by (auto simp: monitorChangeSet_def repeat_until_iff)
    then have "adds quiet st t"
    proof (induction k arbitrary: st)
      case (Suc k)
      then obtain u where u: "?body st = Inr u" "after_rounds k ?body u = Some t" by (auto split: sum.splits)
      then have "adds quiet st u" using change_set_round [of st n c svc] by simp
      then show ?case using Suc.IH [OF u(2) t] adds_trans by blast
    qed (simp add: adds_refl)
    then show ?thesis using t by blast
  qed
  then obtain t where t: "adds quiet st t" "?body t = Inl (r, st')" by blast
  then have r: "adds quiet t st'" "r \<noteq> Inr InProgress"
    "r = Inr Completed \<longrightarrow> (\<exists>d. cs_trace st' = cs_trace t @ [Change_Set_Described n c (Inr d)] \<and> says_complete d)"
    using change_set_round [of t n c svc] by simp_all
  show "adds quiet st st'" using t(1) r(1) by (rule adds_trans)
  show "r \<noteq> Inr InProgress" using r(2) .
  show "\<exists>es d. cs_trace st' = cs_trace st @ es @ [Change_Set_Described n c (Inr d)] \<and> list_all quiet es \<and> says_complete d"
    if "r = Inr Completed" using that r(3) t(1) by (auto simp: adds_def)
qed

lemma executeChangeSet_trace:
  "\<exists>es. cs_trace (snd (executeChangeSet svc n c st)) = cs_trace st @ Change_Set_Executed n c # es \<and> list_all (\<lambda>e. \<not> is_execution e) es"
  by (auto simp: executeChangeSet_def Let_def event_kinds split: prod.splits sum.splits)

text \<open>A failure before the execution leaves a quiet trace and no completion.\<close>

definition executed_when_complete :: "string \<Rightarrow> string \<Rightarrow> cf_event list \<Rightarrow> bool" where
  "executed_when_complete n c es \<longleftrightarrow> (\<exists>before d after. es = before @ [Change_Set_Described n c (Inr d), Change_Set_Executed n c] @ after \<and>
     says_complete d \<and> list_all quiet before \<and> list_all (\<lambda>e. \<not> is_execution e) after)"

lemma executed_when_completeI:
  assumes "cs_trace st3 = before @ [Change_Set_Described n c (Inr d)]" and "list_all quiet before" and "says_complete d"
    and "adds (\<lambda>e. \<not> is_execution e) (snd (executeChangeSet svc n c st3)) st'"
  shows "executed_when_complete n c (cs_trace st')"
proof -
  obtain es where "cs_trace (snd (executeChangeSet svc n c st3)) = cs_trace st3 @ Change_Set_Executed n c # es"
    and "list_all (\<lambda>e. \<not> is_execution e) es" using executeChangeSet_trace by blast
  moreover obtain es' where "cs_trace st' = cs_trace (snd (executeChangeSet svc n c st3)) @ es'" "list_all (\<lambda>e. \<not> is_execution e) es'"
    using assms(4) by (auto simp: adds_def)
  ultimately have "cs_trace st' = before @ [Change_Set_Described n c (Inr d), Change_Set_Executed n c] @ (es @ es')"
    and "list_all (\<lambda>e. \<not> is_execution e) (es @ es')" using assms(1) by simp_all
  then show ?thesis unfolding executed_when_complete_def using assms(2,3) by blast
qed

text \<open>The change set is executed once, straight after it was described as created, and nothing was told before.\<close>

definition executed_once :: "string \<Rightarrow> string \<Rightarrow> cf_event list \<Rightarrow> bool" where
  "executed_once n c es \<longleftrightarrow> (\<exists>before d after. es = before @ [Change_Set_Described n c (Inr d), Change_Set_Executed n c] @ after \<and>
     cd_status d = Some ''CREATE_COMPLETE'' \<and> list_all quiet before \<and> list_all (\<lambda>e. \<not> is_execution e) after)"

definition says_deleted :: "cf_event \<Rightarrow> bool" where
  "says_deleted e \<longleftrightarrow> (case e of Change_Set_Described n c (Inr d) \<Rightarrow> cd_status d = Some ''DELETE_COMPLETE'' | _ \<Rightarrow> False)"

lemma executed_once_undeleted: "executed_when_complete n c es \<Longrightarrow> list_all (\<lambda>e. \<not> says_deleted e) es \<Longrightarrow> executed_once n c es"
  unfolding executed_when_complete_def executed_once_def by (fastforce simp: says_complete_def says_deleted_def)

text \<open>Where a deployment can end.\<close>

lemma deployment_ends:
  assumes "deployStack svc uuid n url parameters capabilities cb st = Some (r, st')"
  obtains (early) "adds quiet st st'" and "r \<noteq> Inr Completed"
  | (executed) st2 st3 where "adds quiet st st2" and "monitorChangeSet svc n (''p-'' @ uuid) None st2 = Some (Inr Completed, st3)"
    and "adds (\<lambda>e. \<not> is_execution e) (snd (executeChangeSet svc n (''p-'' @ uuid) st3)) st'"
proof -
  let ?c = "''p-'' @ uuid"
  obtain found st1 where found: "getStackDescription svc n st = (found, st1)" by force
  have q1: "adds quiet st st1" using getStackDescription_quiet [of st svc n] found by simp
  show ?thesis
  proof (cases found)
    case (Inl e)
    then show ?thesis using assms found q1 early by (auto simp: deployStack_def)
  next
    case (Inr d)
    let ?i = "change_set_request n ?c url parameters capabilities d"
    obtain made st2 where made: "createChangeSet svc ?i st1 = (made, st2)" by force
    then have "adds quiet st1 st2" using createChangeSet_quiet [of st1 svc ?i] by simp
    then have q2: "adds quiet st st2" by (rule adds_trans [OF q1])
    note so_far = assms [unfolded deployStack_def Let_def] found \<open>found = Inr d\<close> made
    show ?thesis
    proof (cases made)
      case (Inl e)
      then show ?thesis using so_far q2 early by auto
    next
      case (Inr a)
      then obtain v st3 where watched: "monitorChangeSet svc n ?c None st2 = Some (v, st3)"
        using so_far by (auto split: option.splits)
      note m = monitorChangeSet_quiet [OF watched]
      show ?thesis
      proof (cases "v = Inr Completed")
        case False
        then have "r = v \<and> st' = st3"
          using so_far \<open>made = Inr a\<close> watched m(2) deployment_status.exhaust by (cases v) (auto split: if_splits)
        then show ?thesis using early False q2 m(1) adds_trans by blast
      next
        case True
        obtain end5 st5 where five: "executeChangeSet svc n ?c st3 = (end5, st5)" by force
        have "st' = st5 \<or> monitorStack svc n cb st5 = Some (r, st')"
          using so_far \<open>made = Inr a\<close> watched True five by (cases end5) simp_all
        then have "adds (\<lambda>e. \<not> is_execution e) st5 st'" by (auto simp: adds_refl intro: monitorStack_calm)
        then show ?thesis using executed [OF q2] watched True five by simp
      qed
    qed
  qed
qed

text \<open>
  Claim C36. Where the service never answers that the change set was deleted, a deployment executes
  its own change set, once, straight after the service described it as \<open>CREATE_COMPLETE\<close>, and tells
  its callback nothing before; without the execution it does not report success. (That a deleted
  one counts as complete, and is executed, is shown below.)
\<close>

theorem deployments_execute_complete_change_sets:
  assumes "deployStack svc uuid n url parameters capabilities cb st = Some (r, st')" and "cs_trace st = []"
    and "list_all (\<lambda>e. \<not> says_deleted e) (cs_trace st')"
  shows "(list_all quiet (cs_trace st') \<and> r \<noteq> Inr Completed) \<or> executed_once n (''p-'' @ uuid) (cs_trace st')"
  using assms(1)
proof (cases rule: deployment_ends)
  case early
  then show ?thesis using assms(2) by (auto simp: adds_def)
next
  case (executed st2 st3)
  then obtain es d where "cs_trace st3 = (cs_trace st2 @ es) @ [Change_Set_Described n (''p-'' @ uuid) (Inr d)]"
    and "list_all quiet es" and "says_complete d"
    using monitorChangeSet_quiet(3) [OF executed(2)] by auto
  moreover have "list_all quiet (cs_trace st2)" using executed(1) assms(2) by (auto simp: adds_def)
  ultimately have "executed_when_complete n (''p-'' @ uuid) (cs_trace st')"
    using executed(3) by (intro executed_when_completeI [where before = "cs_trace st2 @ es"]) simp_all
  then show ?thesis using executed_once_undeleted assms(3) by blast
qed

text \<open>A change set that was deleted counts as complete, and is executed.\<close>

lemma deleted_change_set_is_executed:
  assumes "cw_describeChangeSet svc n c (cs_world st) = (Inr \<lparr>cd_status = Some ''DELETE_COMPLETE'', cd_reason = why\<rparr>, w)"
  shows "map_option fst (monitorChangeSet svc n c cb st) = Some (Inr Completed)"
  unfolding monitorChangeSet_def by (subst repeat_until.simps) (simp add: change_set_body_def describeChangeSet_def Let_def assms)

section \<open>A scripted service\<close>

type_synonym script = "(cf_error + stack_description list option) list \<times> (string option \<times> string option) list"

definition scripted :: "script cloudformation" where
  "scripted = \<lparr>
     cw_describeStacks = (\<lambda>_ (ss, cs). case ss of [] \<Rightarrow> (Inl (Service_Error ''Throttling'' ''Rate exceeded''), ([], cs)) | a # rest \<Rightarrow> (a, (rest, cs))),
     cw_createChangeSet = (\<lambda>_ w. (Inr (JObject []), w)),
     cw_describeChangeSet = (\<lambda>_ _ (ss, cs). case cs of
        [] \<Rightarrow> (Inl (Service_Error ''Throttling'' ''Rate exceeded''), (ss, []))
      | (s, why) # rest \<Rightarrow> (Inr \<lparr>cd_status = s, cd_reason = why\<rparr>, (ss, rest))),
     cw_executeChangeSet = (\<lambda>_ _ w. (Inr (JObject []), w)),
     cw_send = (\<lambda>_ _ w. (Inr (JObject []), w))\<rparr>"

definition app_stack :: "string \<Rightarrow> cf_error + stack_description list option" where
  "app_stack s = Inr (Some [\<lparr>sd_name = ''app'', sd_status = Some s\<rparr>])"

definition first_deployment :: "script cf_state" where
  "first_deployment = \<lparr>cs_world = ([Inl (Service_Error ''ValidationError'' ''Stack with id app does not exist''),
     app_stack ''CREATE_IN_PROGRESS'', app_stack ''CREATE_COMPLETE''],
     [(Some ''CREATE_IN_PROGRESS'', None), (Some ''CREATE_COMPLETE'', None)]), cs_trace = []\<rparr>"

lemma scripted_verdicts:
  "stack_verdict ''app'' None (app_stack ''CREATE_IN_PROGRESS'') = None"
  "stack_verdict ''app'' None (app_stack ''CREATE_COMPLETE'') = Some (Inr Completed)"
  by (simp_all add: stack_verdict_def app_stack_def status_outcome_listed progress_states_def failure_states_def success_states_def progress_verdict_def)

theorem monitoring_returns_the_first_verdict_witness:
  "map_option fst (monitorStack scripted ''app'' None
     \<lparr>cs_world = ([app_stack ''CREATE_IN_PROGRESS'', app_stack ''CREATE_COMPLETE''], []), cs_trace = []\<rparr>) = Some (Inr Completed)"
  unfolding monitoring_returns_the_first_verdict
  by (rule exI [of _ 1]) (simp add: scripted_def scripted_verdicts)

lemma first_deployment_described:
  "getStackDescription scripted ''app'' first_deployment = (Inr None, \<lparr>cs_world = ([app_stack ''CREATE_IN_PROGRESS'', app_stack ''CREATE_COMPLETE''],
     [(Some ''CREATE_IN_PROGRESS'', None), (Some ''CREATE_COMPLETE'', None)]), cs_trace = [Stack_Described ''app'',
       Cf_Logged ''error'' ''CloudformationClient: Error getting stack description from cloudformation. Error: ${e}'']\<rparr>)"
  by (simp add: getStackDescription_def first_deployment_def scripted_def cf_error_log_def observe_def starts_with_def is_line_break_def)

lemma first_deployment_completes:
  "\<exists>st'. deployStack scripted ''1'' ''app'' ''s3://t'' [] [] None first_deployment = Some (Inr Completed, st') \<and>
     list_all (\<lambda>e. \<not> says_deleted e) (cs_trace st')"
  unfolding deployStack_def first_deployment_described monitorChangeSet_def monitorStack_def
  by (simp add: createChangeSet_def executeChangeSet_def scripted_def observe_def repeat_until.simps change_set_body_def describeChangeSet_def
      stack_body_def getStackDescription_def app_stack_def tell_progress_def progress_states_def failure_states_def success_states_def Let_def
      says_deleted_def)

theorem deployments_execute_complete_change_sets_witness:
  "\<exists>st'. deployStack scripted ''1'' ''app'' ''s3://t'' [] [] None first_deployment = Some (Inr Completed, st') \<and>
     executed_once ''app'' ''p-1'' (cs_trace st')"
proof -
  obtain st' where st': "deployStack scripted ''1'' ''app'' ''s3://t'' [] [] None first_deployment = Some (Inr Completed, st')"
    and kept: "list_all (\<lambda>e. \<not> says_deleted e) (cs_trace st')"
    using first_deployment_completes by blast
  have "executed_once ''app'' (''p-'' @ ''1'') (cs_trace st')"
    using deployments_execute_complete_change_sets [OF st' _ kept] by (simp add: first_deployment_def)
  then show ?thesis using st' by simp
qed

end
