(* ===== verification/Dynamodb_Client.thy ===== *)
theory Dynamodb_Client
  imports Js_Values
begin

text \<open>
  The DynamoDB client (\<open>aws/src/clients/dynamodb.client.ts\<close>), its errors (\<open>aws/src/errors\<close>) and the list
  it returns (\<open>aws/src/results/list.result.ts\<close>). The data mapper of the library below is a parameter: its
  calls answer from a state of their own, and a scan or a query hands out pages. The table of a
  class and the properties of its new instances are the application's. Debug entries are left out.
  Times and seconds are whole numbers, so a fraction of a second and an invalid date are outside the
  model, and what the service makes of the empty \<open>Or\<close> that an empty list of values gives is not claimed.
\<close>

section \<open>Errors\<close>

datatype dynamodb_kind = Dynamodb_Base | Table_Not_Found | Item_Not_Found | Item_Already_Exists | Validation_Failed

text \<open>An error from outside has an own name, or none, and a message.\<close>

datatype dynamodb_error =
    Outside_Error (outside_name: "string option") (outside_message: string)
  | Dynamodb_Error (dynamodb_kind: dynamodb_kind) (dynamodb_message: string) (original_error: "dynamodb_error option")
      (table_name: "string option") (primary_key: "string option")

definition new_DynamodbError ::
  "string \<Rightarrow> dynamodb_error option \<Rightarrow> string option \<Rightarrow> string option \<Rightarrow> dynamodb_error" where
  "new_DynamodbError m e t k = Dynamodb_Error Dynamodb_Base m e t k"

definition new_DynamodbTableNotFoundError :: "dynamodb_error option \<Rightarrow> string option \<Rightarrow> dynamodb_error" where
  "new_DynamodbTableNotFoundError e t = Dynamodb_Error Table_Not_Found ''The table was not found in dynamodb.'' e t None"

text \<open>These take the primary key, and do not pass it on.\<close>

definition new_DynamodbItemNotFoundError :: "dynamodb_error option \<Rightarrow> string option \<Rightarrow> string option \<Rightarrow> dynamodb_error" where
  "new_DynamodbItemNotFoundError e t k = Dynamodb_Error Item_Not_Found ''The item was not found in dynamodb.'' e t None"

definition new_DynamodbItemAlreadyExistsError :: "dynamodb_error option \<Rightarrow> string option \<Rightarrow> string option \<Rightarrow> dynamodb_error" where
  "new_DynamodbItemAlreadyExistsError e t k = Dynamodb_Error Item_Already_Exists ''The item already exists in dynamodb.'' e t None"

definition new_DynamodbValidationError :: "dynamodb_error option \<Rightarrow> string option \<Rightarrow> string option \<Rightarrow> dynamodb_error" where
  "new_DynamodbValidationError e t k = Dynamodb_Error Validation_Failed ''Validation error in dynamodb.'' e t None"

definition convertError :: "dynamodb_error \<Rightarrow> string option \<Rightarrow> string option \<Rightarrow> dynamodb_error" where
  "convertError e t k = (case e of
     Dynamodb_Error _ _ _ _ _ \<Rightarrow> e
   | Outside_Error None _ \<Rightarrow> new_DynamodbError ''Unknown dynamodb error'' (Some e) t k
   | Outside_Error (Some n) _ \<Rightarrow>
       (if n = ''ResourceNotFoundException'' then new_DynamodbTableNotFoundError (Some e) t
        else if n = ''ItemNotFoundException'' then new_DynamodbItemNotFoundError (Some e) t k
        else if n = ''ValidationException'' then new_DynamodbValidationError (Some e) t k
        else new_DynamodbError (''Unknown dynamodb error: '' @ n) (Some e) t k))"

definition is_not_found :: "dynamodb_error \<Rightarrow> bool" where
  "is_not_found e = (case e of Dynamodb_Error Item_Not_Found _ _ _ _ \<Rightarrow> True | _ \<Rightarrow> False)"

section \<open>The mapper and the state\<close>

record dynamodb_item =
  di_class :: string
  di_properties :: "(string \<times> jsv) list"

text \<open>A page, with what the paginator says once it was handed out.\<close>

record dynamodb_page =
  dp_items :: "dynamodb_item list"
  dp_count :: nat
  dp_lastKey :: jsv

datatype filter_condition =
    Equals_Condition string jsv | Greater_Than_Condition "string option" jsv
  | Or_Condition "filter_condition list" | And_Condition "filter_condition list"

record scan_options =
  so_startKey :: jsv
  so_pageSize :: "nat option"

record query_options =
  qo_indexName :: string
  qo_filter :: "filter_condition option"
  qo_pageSize :: "nat option"
  qo_startKey :: jsv
  qo_forward :: bool

record 'w item_mapper =
  im_get :: "dynamodb_item \<Rightarrow> 'w \<Rightarrow> (dynamodb_error + dynamodb_item) \<times> 'w"
  im_put :: "dynamodb_item \<Rightarrow> 'w \<Rightarrow> (dynamodb_error + dynamodb_item) \<times> 'w"
  im_update :: "dynamodb_item \<Rightarrow> 'w \<Rightarrow> (dynamodb_error + dynamodb_item) \<times> 'w"
  im_delete :: "dynamodb_item \<Rightarrow> 'w \<Rightarrow> (dynamodb_error + unit) \<times> 'w"
  im_scan :: "string \<Rightarrow> scan_options option \<Rightarrow> 'w \<Rightarrow> (dynamodb_error + dynamodb_page) list"
  im_query :: "string \<Rightarrow> jsv obj \<Rightarrow> query_options \<Rightarrow> 'w \<Rightarrow> (dynamodb_error + dynamodb_page) list"
  im_tableOf :: "string \<Rightarrow> string option"
  im_newInstance :: "string \<Rightarrow> (string \<times> jsv) list"

record 'w dynamodb_state =
  ds_world :: 'w
  ds_logs :: "(string \<times> string) list"

definition dynamodb_log :: "string \<Rightarrow> string \<Rightarrow> 'w dynamodb_state \<Rightarrow> 'w dynamodb_state" where
  "dynamodb_log sev m st = st\<lparr>ds_logs := ds_logs st @ [(sev, m)]\<rparr>"

section \<open>One item\<close>

definition primary_key_name :: "'v obj \<Rightarrow> string option" where
  "primary_key_name ob = (case obj_keys ob of [] \<Rightarrow> None | k # _ \<Rightarrow> Some k)"

definition key_text :: "string option \<Rightarrow> string" where
  "key_text k = (case k of None \<Rightarrow> ''undefined'' | Some s \<Rightarrow> s)"

definition createItemOfClassWithPrimaryKey :: "'w item_mapper \<Rightarrow> string \<Rightarrow> string obj \<Rightarrow> dynamodb_item" where
  "createItemOfClassWithPrimaryKey im c pk =
     (let k = key_text (primary_key_name pk) in
      \<lparr>di_class = c, di_properties = obj_set k (case obj_get pk k of None \<Rightarrow> JUndefined | Some v \<Rightarrow> js_string v) (im_newInstance im c)\<rparr>)"

definition dynamodb_get ::
  "'w item_mapper \<Rightarrow> string \<Rightarrow> string obj \<Rightarrow> 'w dynamodb_state \<Rightarrow> (dynamodb_error + dynamodb_item option) \<times> 'w dynamodb_state" where
  "dynamodb_get im c pk st =
     (case im_get im (createItemOfClassWithPrimaryKey im c pk) (ds_world st) of (answer, w) \<Rightarrow>
       (let st1 = st\<lparr>ds_world := w\<rparr> in
        case answer of
          Inr item \<Rightarrow> (Inr (Some item), st1)
        | Inl e \<Rightarrow>
            (let e' = convertError e (im_tableOf im c) (primary_key_name pk) in
             if is_not_found e' then (Inr None, dynamodb_log ''warning'' ''DynamodbClient: Error getting item from dynamodb.'' st1)
             else (Inl e', dynamodb_log ''error'' ''DynamodbClient: Error getting item from dynamodb.'' st1))))"

text \<open>The calls on an item: convert, log and throw again.\<close>

definition on_item ::
  "string \<Rightarrow> string option \<Rightarrow> string option \<Rightarrow> (dynamodb_error + 'a) \<times> 'w \<Rightarrow> 'w dynamodb_state \<Rightarrow>
   (dynamodb_error + 'a) \<times> 'w dynamodb_state" where
  "on_item m t k answered st =
     (case answered of (answer, w) \<Rightarrow>
       (case answer of
          Inr v \<Rightarrow> (Inr v, st\<lparr>ds_world := w\<rparr>)
        | Inl e \<Rightarrow> (Inl (convertError e t k), dynamodb_log ''error'' m (st\<lparr>ds_world := w\<rparr>))))"

definition dynamodb_update ::
  "'w item_mapper \<Rightarrow> dynamodb_item \<Rightarrow> 'w dynamodb_state \<Rightarrow> (dynamodb_error + dynamodb_item) \<times> 'w dynamodb_state" where
  "dynamodb_update im item st =
     on_item ''DynamodbClient: Error updating item in dynamodb.'' (im_tableOf im (di_class item)) None (im_update im item (ds_world st)) st"

definition dynamodb_put ::
  "'w item_mapper \<Rightarrow> dynamodb_item \<Rightarrow> 'w dynamodb_state \<Rightarrow> (dynamodb_error + dynamodb_item) \<times> 'w dynamodb_state" where
  "dynamodb_put im item st =
     on_item ''DynamodbClient: Error putting item in dynamodb.'' (im_tableOf im (di_class item)) None (im_put im item (ds_world st)) st"

definition dynamodb_delete ::
  "'w item_mapper \<Rightarrow> string \<Rightarrow> string obj \<Rightarrow> 'w dynamodb_state \<Rightarrow> (dynamodb_error + unit) \<times> 'w dynamodb_state" where
  "dynamodb_delete im c pk st =
     on_item ''DynamodbClient: Error deleting item from dynamodb.'' (im_tableOf im c) (primary_key_name pk)
       (im_delete im (createItemOfClassWithPrimaryKey im c pk) (ds_world st)) st"

text \<open>
  A creation looks first and puts then; other calls can come in between. Looking answers with the error
  to throw, or with nothing when the item can be put.
\<close>

definition create_look :: "'w item_mapper \<Rightarrow> dynamodb_item \<Rightarrow> 'w dynamodb_state \<Rightarrow> dynamodb_error option \<times> 'w dynamodb_state" where
  "create_look im item st =
     (case im_get im item (ds_world st) of (answer, w) \<Rightarrow>
       (let e = convertError (case answer of Inl e \<Rightarrow> e | Inr _ \<Rightarrow> new_DynamodbItemAlreadyExistsError None None None)
              (im_tableOf im (di_class item)) None in
        (if is_not_found e then None else Some e, st\<lparr>ds_world := w\<rparr>)))"

definition create_put :: "'w item_mapper \<Rightarrow> dynamodb_item \<Rightarrow> 'w dynamodb_state \<Rightarrow> (dynamodb_error + dynamodb_item) \<times> 'w dynamodb_state" where
  "create_put im item st =
     on_item ''DynamodbClient: Error creating item in dynamodb.'' (im_tableOf im (di_class item)) None (im_put im item (ds_world st)) st"

definition dynamodb_create ::
  "'w item_mapper \<Rightarrow> dynamodb_item \<Rightarrow> 'w dynamodb_state \<Rightarrow> (dynamodb_error + dynamodb_item) \<times> 'w dynamodb_state" where
  "dynamodb_create im item st = (case create_look im item st of
     (Some e, st1) \<Rightarrow> (Inl e, st1)
   | (None, st1) \<Rightarrow> create_put im item st1)"

section \<open>Filters\<close>

datatype filter_value = One_Value jsv | Any_Of "jsv list"

definition createFilterConditions :: "filter_value obj \<Rightarrow> filter_condition list" where
  "createFilterConditions fs = map (\<lambda>k. case the (obj_get fs k) of
     Any_Of vs \<Rightarrow> Or_Condition (map (Equals_Condition k) vs)
   | One_Value v \<Rightarrow> Equals_Condition k v) (obj_keys fs)"

datatype expiry = Expiry_Seconds int | Expiry_Date int

definition expiry_value :: "expiry \<Rightarrow> jsv" where
  "expiry_value x = JAtom (show_int (case x of Expiry_Seconds s \<Rightarrow> s | Expiry_Date ms \<Rightarrow> ms div 1000))"

definition createExpiresAtFilter :: "expiry obj \<Rightarrow> filter_condition" where
  "createExpiresAtFilter xs = (case primary_key_name xs of
     None \<Rightarrow> Greater_Than_Condition None JUndefined
   | Some k \<Rightarrow> Greater_Than_Condition (Some k) (expiry_value (the (obj_get xs k))))"

definition createFilterExpression :: "filter_value obj option \<Rightarrow> expiry obj option \<Rightarrow> filter_condition option" where
  "createFilterExpression filters expires =
     (let conditions = (case filters of None \<Rightarrow> [] | Some fs \<Rightarrow> createFilterConditions fs) @
            (case expires of None \<Rightarrow> [] | Some xs \<Rightarrow> [createExpiresAtFilter xs]) in
      case conditions of [] \<Rightarrow> None | [c] \<Rightarrow> Some c | _ \<Rightarrow> Some (And_Condition conditions))"

section \<open>Lists\<close>

record list_result =
  lr_items :: "dynamodb_item list"
  lr_count :: nat
  lr_lastKey :: jsv
  lr_index :: nat
  lr_done :: bool

definition new_ListResult :: "dynamodb_item list \<Rightarrow> nat \<Rightarrow> jsv \<Rightarrow> list_result" where
  "new_ListResult items n lastKey = \<lparr>lr_items = items, lr_count = n, lr_lastKey = lastKey, lr_index = 0, lr_done = False\<rparr>"

text \<open>What the iterator gives: \<open>None\<close> is the end.\<close>

definition list_next :: "list_result \<Rightarrow> dynamodb_item option \<times> list_result" where
  "list_next r =
     (if lr_done r then (None, r)
      else if lr_index r = length (lr_items r) then (None, r\<lparr>lr_done := True\<rparr>)
      else (Some (lr_items r ! lr_index r), r\<lparr>lr_index := Suc (lr_index r)\<rparr>))"

text \<open>With a page size only the first page is read.\<close>

fun read_dynamodb_pages ::
  "bool \<Rightarrow> (dynamodb_error + dynamodb_page) list \<Rightarrow> list_result \<Rightarrow> dynamodb_error + list_result" where
  "read_dynamodb_pages one [] r = Inr r"
| "read_dynamodb_pages one (Inl e # ps) r = Inl e"
| "read_dynamodb_pages one (Inr p # ps) r =
     (let r' = r\<lparr>lr_items := lr_items r @ dp_items p, lr_count := dp_count p, lr_lastKey := dp_lastKey p\<rparr> in
      if one then Inr r' else read_dynamodb_pages one ps r')"

definition sized :: "nat option \<Rightarrow> bool" where
  "sized n = (case n of None \<Rightarrow> False | Some m \<Rightarrow> m \<noteq> 0)"

record dynamodb_pagination =
  da_pageSize :: "nat option"
  da_startKey :: jsv
  da_ascending :: bool

definition dynamodb_list ::
  "'w item_mapper \<Rightarrow> string \<Rightarrow> dynamodb_pagination option \<Rightarrow> 'w dynamodb_state \<Rightarrow> (dynamodb_error + list_result) \<times> 'w dynamodb_state" where
  "dynamodb_list im c pagination st =
     (let pages = im_scan im c (map_option (\<lambda>p. \<lparr>so_startKey = da_startKey p, so_pageSize = da_pageSize p\<rparr>) pagination) (ds_world st) in
      on_item ''DynamodbClient: Error listing items from dynamodb.'' (im_tableOf im c) None
        (read_dynamodb_pages (case pagination of None \<Rightarrow> False | Some p \<Rightarrow> sized (da_pageSize p)) pages (new_ListResult [] 0 JUndefined),
         ds_world st) st)"

definition findBySecondaryIndex ::
  "'w item_mapper \<Rightarrow> string \<Rightarrow> string \<Rightarrow> jsv obj \<Rightarrow> filter_value obj option \<Rightarrow> expiry obj option \<Rightarrow> dynamodb_pagination option \<Rightarrow>
   'w dynamodb_state \<Rightarrow> (dynamodb_error + list_result) \<times> 'w dynamodb_state" where
  "findBySecondaryIndex im c index condition filters expires pagination st =
     (let options = \<lparr>qo_indexName = index, qo_filter = createFilterExpression filters expires,
            qo_pageSize = (case pagination of None \<Rightarrow> None | Some p \<Rightarrow> da_pageSize p),
            qo_startKey = (case pagination of None \<Rightarrow> JUndefined | Some p \<Rightarrow> da_startKey p),
            qo_forward = (case pagination of None \<Rightarrow> False | Some p \<Rightarrow> da_ascending p)\<rparr> in
      on_item ''DynamodbClient: Error finding by secondary index.'' (im_tableOf im c) None
        (read_dynamodb_pages (case pagination of None \<Rightarrow> False | Some p \<Rightarrow> sized (da_pageSize p))
           (im_query im c condition options (ds_world st)) (new_ListResult [] 0 JUndefined), ds_world st) st)"

end
