(* ===== verification/Dynamodb_Properties.thy ===== *)
theory Dynamodb_Properties
  imports Dynamodb_Client
begin

text \<open>
  The DynamoDB client: what a filter means, when a creation refuses and when two of them overwrite each
  other, what a list holds and how often it can be read, and what the errors keep.
\<close>

section \<open>Filters\<close>

text \<open>The service's reading of a condition; how it compares two values is its own.\<close>

definition attribute :: "dynamodb_item \<Rightarrow> string \<Rightarrow> jsv" where
  "attribute item k = property (di_properties item) k"

fun satisfied :: "(jsv \<Rightarrow> jsv \<Rightarrow> bool) \<Rightarrow> dynamodb_item \<Rightarrow> filter_condition \<Rightarrow> bool" where
  "satisfied later_than item (Equals_Condition k v) = (attribute item k = v)"
| "satisfied later_than item (Greater_Than_Condition k v) = (case k of None \<Rightarrow> False | Some n \<Rightarrow> later_than (attribute item n) v)"
| "satisfied later_than item (Or_Condition cs) = list_ex (satisfied later_than item) cs"
| "satisfied later_than item (And_Condition cs) = list_all (satisfied later_than item) cs"

definition passes :: "(jsv \<Rightarrow> jsv \<Rightarrow> bool) \<Rightarrow> dynamodb_item \<Rightarrow> filter_condition option \<Rightarrow> bool" where
  "passes later_than item c = (case c of None \<Rightarrow> True | Some c \<Rightarrow> satisfied later_than item c)"

definition accepts_value :: "jsv \<Rightarrow> filter_value \<Rightarrow> bool" where
  "accepts_value v fv = (case fv of One_Value w \<Rightarrow> v = w | Any_Of ws \<Rightarrow> v \<in> set ws)"

definition meets :: "dynamodb_item \<Rightarrow> filter_value obj \<Rightarrow> bool" where
  "meets item fs \<longleftrightarrow> (\<forall>k fv. obj_get fs k = Some fv \<longrightarrow> accepts_value (attribute item k) fv)"

lemma filter_conditions_meet: "list_all (satisfied later_than item) (createFilterConditions fs) \<longleftrightarrow> meets item fs"
proof -
  have one: "satisfied later_than item (case fv of Any_Of vs \<Rightarrow> Or_Condition (map (Equals_Condition k) vs) | One_Value v \<Rightarrow> Equals_Condition k v)
      \<longleftrightarrow> accepts_value (attribute item k) fv" for k fv
    by (cases fv) (auto simp: accepts_value_def list_ex_iff)
  show ?thesis
  proof
    assume all: "list_all (satisfied later_than item) (createFilterConditions fs)"
    show "meets item fs" unfolding meets_def
    proof (intro allI impI)
      fix k fv
      assume fv: "obj_get fs k = Some fv"
      then have "k \<in> set (obj_keys fs)" by (auto dest!: map_of_SomeD intro: rev_image_eqI)
      then show "accepts_value (attribute item k) fv" using all fv one [of k fv]
        by (force simp: createFilterConditions_def list_all_iff)
    qed
  next
    assume meets: "meets item fs"
    have "accepts_value (attribute item k) (the (obj_get fs k))" if "k \<in> set (obj_keys fs)" for k
    proof -
      have "obj_get fs k \<noteq> None" using that by (simp add: map_of_eq_None_iff)
      then show ?thesis using meets by (auto simp: meets_def)
    qed
    then show "list_all (satisfied later_than item) (createFilterConditions fs)"
      using one by (simp add: createFilterConditions_def list_all_iff)
  qed
qed

lemma expression_of_conditions:
  "passes later_than item (case cs of [] \<Rightarrow> None | [c] \<Rightarrow> Some c | _ \<Rightarrow> Some (And_Condition cs)) \<longleftrightarrow> list_all (satisfied later_than item) cs"
  by (auto simp: passes_def split: list.splits)

text \<open>
  What is asked of the expiry of an item, which is a time in whole seconds: to be after so many
  seconds, or after a date in milliseconds.
\<close>

definition whole :: "int \<Rightarrow> jsv" where
  "whole n = JAtom (show_int n)"

definition outlives :: "int \<Rightarrow> expiry \<Rightarrow> bool" where
  "outlives n x = (case x of Expiry_Seconds s \<Rightarrow> s < n | Expiry_Date ms \<Rightarrow> ms < 1000 * n)"

lemma later_than_expiry:
  assumes "\<And>n m. later_than (whole n) (whole m) \<longleftrightarrow> m < n"
  shows "later_than (whole n) (expiry_value x) \<longleftrightarrow> outlives n x"
proof (cases x)
  case (Expiry_Seconds s)
  then show ?thesis using assms [of n s] by (simp add: expiry_value_def outlives_def whole_def)
next
  case (Expiry_Date ms)
  then show ?thesis using assms [of n "ms div 1000"] by (simp add: expiry_value_def outlives_def whole_def) linarith
qed

text \<open>
  Claim C39. An item passes the filter of a query exactly when each named attribute has the value
  asked for, or one of them, and, where an expiry attribute is given, the item has it and its time
  in whole seconds is after the seconds or the date asked for. The service is taken to compare
  whole numbers as numbers and to find nothing later where there is no attribute; lists of values
  are not empty, at most one expiry attribute is given (of several only the first counts), and
  numbers are whole.
\<close>

theorem filter_means_what_is_asked:
  assumes "\<And>n m. later_than (whole n) (whole m) \<longleftrightarrow> m < n" and "\<And>v. \<not> later_than JUndefined v"
    and "\<And>fs k. filters = Some fs \<Longrightarrow> obj_get fs k \<noteq> Some (Any_Of [])"
    and "\<And>k x. expires = Some (k, x) \<Longrightarrow> attribute item k = (case seconds of None \<Rightarrow> JUndefined | Some n \<Rightarrow> whole n)"
  shows "passes later_than item (createFilterExpression filters (map_option (\<lambda>kx. [kx]) expires)) \<longleftrightarrow>
    (\<forall>fs k fv. filters = Some fs \<longrightarrow> obj_get fs k = Some fv \<longrightarrow> accepts_value (attribute item k) fv) \<and>
    (case expires of None \<Rightarrow> True | Some (k, x) \<Rightarrow> (case seconds of None \<Rightarrow> False | Some n \<Rightarrow> outlives n x))"
proof -
  have key: "primary_key_name [(k, x)] = Some k" for k and x :: expiry by (simp add: primary_key_name_def obj_keys_def)
  have "passes later_than item (createFilterExpression filters (map_option (\<lambda>kx. [kx]) expires)) \<longleftrightarrow>
      list_all (satisfied later_than item) (case filters of None \<Rightarrow> [] | Some fs \<Rightarrow> createFilterConditions fs) \<and>
      (case expires of None \<Rightarrow> True | Some (k, x) \<Rightarrow> later_than (attribute item k) (expiry_value x))"
    unfolding createFilterExpression_def Let_def expression_of_conditions
    by (simp add: createExpiresAtFilter_def key split: option.split)
  moreover have "list_all (satisfied later_than item) (case filters of None \<Rightarrow> [] | Some fs \<Rightarrow> createFilterConditions fs) \<longleftrightarrow>
      (\<forall>fs k fv. filters = Some fs \<longrightarrow> obj_get fs k = Some fv \<longrightarrow> accepts_value (attribute item k) fv)"
    by (cases filters) (simp_all add: filter_conditions_meet meets_def)
  moreover have "later_than (attribute item k) (expiry_value x) \<longleftrightarrow> (case seconds of None \<Rightarrow> False | Some n \<Rightarrow> outlives n x)"
    if "expires = Some (k, x)" for k x
    using assms(4) [OF that] assms(2) later_than_expiry [OF assms(1)] by (simp split: option.splits)
  ultimately show ?thesis by (cases expires) auto
qed

text \<open>A second expiry attribute is dropped.\<close>

lemma second_expiry_is_dropped:
  "createFilterExpression None (Some [(''a'', x), (''b'', y)]) = Some (Greater_Than_Condition (Some ''a'') (expiry_value x))"
  by (simp add: createFilterExpression_def createExpiresAtFilter_def primary_key_name_def obj_keys_def is_index_key_def is_digit_def)

section \<open>Creations\<close>

text \<open>
  What the mapper promises of a table: an item that is there is answered, one that is not is an
  \<open>ItemNotFoundException\<close>, and looking changes nothing.
\<close>

definition looks_up :: "'w item_mapper \<Rightarrow> (dynamodb_item \<Rightarrow> 'w \<Rightarrow> dynamodb_item option) \<Rightarrow> bool" where
  "looks_up im stored \<longleftrightarrow> (\<forall>item w. im_get im item w = (case stored item w of
     Some found \<Rightarrow> (Inr found, w) | None \<Rightarrow> (Inl (Outside_Error (Some ''ItemNotFoundException'') ''''), w)))"

text \<open>
  A creation that nothing interrupts never touches an item that is there: it throws that the item
  exists, and where there is none it does what a put does.
\<close>

theorem creation_never_overwrites:
  assumes "looks_up im stored"
  shows "dynamodb_create im item st = (case stored item (ds_world st) of
      Some _ \<Rightarrow> (Inl (Dynamodb_Error Item_Already_Exists ''The item already exists in dynamodb.'' None None None), st)
    | None \<Rightarrow> create_put im item st)"
  using assms by (simp add: looks_up_def dynamodb_create_def create_look_def convertError_def is_not_found_def Let_def
      new_DynamodbItemAlreadyExistsError_def new_DynamodbItemNotFoundError_def split: option.splits)

text \<open>A table in memory, by the value of \<open>id\<close>.\<close>

type_synonym memory_table = "(jsv \<times> dynamodb_item) list"

definition in_memory :: "memory_table item_mapper" where
  "in_memory = \<lparr>
     im_get = (\<lambda>item w. case map_of w (attribute item ''id'') of
        Some found \<Rightarrow> (Inr found, w) | None \<Rightarrow> (Inl (Outside_Error (Some ''ItemNotFoundException'') ''''), w)),
     im_put = (\<lambda>item w. (Inr item, AList.update (attribute item ''id'') item w)),
     im_update = (\<lambda>item w. (Inr item, AList.update (attribute item ''id'') item w)),
     im_delete = (\<lambda>item w. (Inr (), AList.delete (attribute item ''id'') w)),
     im_scan = (\<lambda>_ _ w. [Inr \<lparr>dp_items = map snd w, dp_count = length w, dp_lastKey = JUndefined\<rparr>]),
     im_query = (\<lambda>_ _ _ w. [Inr \<lparr>dp_items = map snd w, dp_count = length w, dp_lastKey = JUndefined\<rparr>]),
     im_tableOf = (\<lambda>_. Some ''users''), im_newInstance = (\<lambda>_. [])\<rparr>"

definition user_item :: "string \<Rightarrow> dynamodb_item" where
  "user_item n = \<lparr>di_class = ''User'', di_properties = [(''id'', js_string ''1''), (''name'', js_string n)]\<rparr>"

definition empty_table :: "memory_table dynamodb_state" where
  "empty_table = \<lparr>ds_world = [], ds_logs = []\<rparr>"

lemma in_memory_looks_up: "looks_up in_memory (\<lambda>item w. map_of w (attribute item ''id''))"
  by (simp add: looks_up_def in_memory_def)

text \<open>Two creations of one item that both look before either puts: both succeed, and the second one's item replaces the first's.\<close>

lemma overlapping_creations_overwrite:
  "case create_look in_memory (user_item ''a'') empty_table of (seen_a, st1) \<Rightarrow>
   (case create_look in_memory (user_item ''b'') st1 of (seen_b, st2) \<Rightarrow>
   (case create_put in_memory (user_item ''a'') st2 of (put_a, st3) \<Rightarrow>
   (case create_put in_memory (user_item ''b'') st3 of (put_b, st4) \<Rightarrow>
      seen_a = None \<and> seen_b = None \<and> put_a = Inr (user_item ''a'') \<and> put_b = Inr (user_item ''b'') \<and>
      ds_world st4 = [(js_string ''1'', user_item ''b'')])))"
  by (simp add: create_look_def create_put_def in_memory_def user_item_def empty_table_def attribute_def property_def convertError_def
      is_not_found_def on_item_def new_DynamodbItemNotFoundError_def Let_def)

section \<open>Lists\<close>

lemma read_all_pages:
  "read_dynamodb_pages False (map Inr ps) r = Inr r' \<Longrightarrow> lr_items r' = lr_items r @ concat (map dp_items ps)"
  by (induction ps arbitrary: r) (auto simp: Let_def)

lemma read_one_page: "read_dynamodb_pages True (Inr p # ps) (new_ListResult [] 0 JUndefined) = Inr (new_ListResult (dp_items p) (dp_count p) (dp_lastKey p))"
  by (simp add: new_ListResult_def Let_def)

text \<open>A loop over the list: until the iterator says it is done.\<close>

fun iterate_list :: "nat \<Rightarrow> list_result \<Rightarrow> dynamodb_item list \<times> list_result" where
  "iterate_list 0 r = ([], r)"
| "iterate_list (Suc fuel) r = (case list_next r of
     (None, r') \<Rightarrow> ([], r')
   | (Some v, r') \<Rightarrow> (case iterate_list fuel r' of (vs, r'') \<Rightarrow> (v # vs, r'')))"

lemma iterate_from:
  assumes "\<not> lr_done r" and "lr_index r \<le> length (lr_items r)" and "length (lr_items r) - lr_index r < fuel"
  shows "fst (iterate_list fuel r) = drop (lr_index r) (lr_items r)" and "lr_done (snd (iterate_list fuel r))"
proof -
  have "fst (iterate_list fuel r) = drop (lr_index r) (lr_items r) \<and> lr_done (snd (iterate_list fuel r))"
    using assms
  proof (induction fuel arbitrary: r)
    case (Suc fuel)
    show ?case
    proof (cases "lr_index r = length (lr_items r)")
      case True
      then show ?thesis using Suc.prems by (simp add: list_next_def)
    next
      case False
      then have "lr_index r < length (lr_items r)" using Suc.prems by simp
      then show ?thesis using Suc.prems Suc.IH [of "r\<lparr>lr_index := Suc (lr_index r)\<rparr>"]
        by (auto simp: list_next_def Cons_nth_drop_Suc split: prod.splits)
    qed
  qed simp
  then show "fst (iterate_list fuel r) = drop (lr_index r) (lr_items r)" and "lr_done (snd (iterate_list fuel r))" by simp_all
qed

lemma list_is_read_once:
  assumes "length items < fuel"
  shows "fst (iterate_list fuel (new_ListResult items n k)) = items"
    and "fst (iterate_list again (snd (iterate_list fuel (new_ListResult items n k)))) = []"
proof -
  let ?r = "new_ListResult items n k"
  have r: "fst (iterate_list fuel ?r) = items \<and> lr_done (snd (iterate_list fuel ?r))"
    using iterate_from [of ?r fuel] assms by (simp add: new_ListResult_def)
  then show "fst (iterate_list fuel ?r) = items" by simp
  show "fst (iterate_list again (snd (iterate_list fuel ?r))) = []"
    using r by (cases again) (simp_all add: list_next_def)
qed

section \<open>Errors\<close>

lemma converted_error_is_dynamodb: "\<exists>kd m c t' k'. convertError e t k = Dynamodb_Error kd m c t' k'"
  by (cases e) (auto simp: convertError_def new_DynamodbError_def new_DynamodbTableNotFoundError_def new_DynamodbItemNotFoundError_def
      new_DynamodbValidationError_def split: option.splits)

lemma converted_error_loses_the_key:
  assumes "n \<in> {''ItemNotFoundException'', ''ValidationException''}"
  shows "primary_key (convertError (Outside_Error (Some n) m) t (Some k)) = None"
  using assms by (auto simp: convertError_def new_DynamodbItemNotFoundError_def new_DynamodbValidationError_def)

definition later_number :: "jsv \<Rightarrow> jsv \<Rightarrow> bool" where
  "later_number v w \<longleftrightarrow> (\<exists>n m. v = whole n \<and> w = whole m \<and> m < n)"

definition expiring_user :: dynamodb_item where
  "expiring_user = \<lparr>di_class = ''User'', di_properties = [(''name'', js_string ''a''), (''until'', whole 6)]\<rparr>"

lemma show_nat_no_sign: "show_nat n \<noteq> CHR ''-'' # s"
proof
  assume "show_nat n = CHR ''-'' # s"
  then have "list_all is_digit (CHR ''-'' # s)" using show_nat_digits [of n] by simp
  then show False by (simp add: is_digit_def)
qed

lemma show_int_inject: "show_int n = show_int m \<Longrightarrow> n = m"
proof -
  have nats: "show_nat a = show_nat b \<Longrightarrow> a = b" for a b by (metis num_value_show_nat)
  show "show_int n = show_int m \<Longrightarrow> n = m"
    using nats [of "nat n" "nat m"] nats [of "nat (- n)" "nat (- m)"]
    by (auto simp: show_int_def show_nat_no_sign show_nat_no_sign [symmetric] split: if_splits)
qed

lemma later_whole: "later_number (whole n) (whole m) \<longleftrightarrow> m < n" "\<not> later_number JUndefined v"
  by (auto simp: later_number_def whole_def dest!: show_int_inject)

theorem filter_means_what_is_asked_witness:
  "passes later_number expiring_user
     (createFilterExpression (Some [(''name'', Any_Of [js_string ''b'', js_string ''a''])]) (map_option (\<lambda>kx. [kx]) (Some (''until'', Expiry_Date 5999)))) \<and>
   \<not> passes later_number expiring_user
     (createFilterExpression (Some [(''name'', Any_Of [js_string ''b'', js_string ''a''])]) (map_option (\<lambda>kx. [kx]) (Some (''until'', Expiry_Date 6000))))"
proof -
  have "passes later_number expiring_user (createFilterExpression (Some [(''name'', Any_Of [js_string ''b'', js_string ''a''])])
      (map_option (\<lambda>kx. [kx]) (Some (''until'', Expiry_Date ms)))) \<longleftrightarrow> outlives 6 (Expiry_Date ms)" for ms
    by (subst filter_means_what_is_asked [where seconds = "Some 6"])
      (auto simp: later_whole expiring_user_def attribute_def property_def accepts_value_def split: if_splits)
  then show ?thesis by (simp add: outlives_def)
qed

theorem creation_never_overwrites_witness:
  "fst (dynamodb_create in_memory (user_item ''b'') \<lparr>ds_world = [(js_string ''1'', user_item ''a'')], ds_logs = []\<rparr>) =
    Inl (Dynamodb_Error Item_Already_Exists ''The item already exists in dynamodb.'' None None None)"
  unfolding creation_never_overwrites [OF in_memory_looks_up] by (simp add: attribute_def property_def user_item_def)

end
