(* ===== verification/Log_Output.thy ===== *)
theory Log_Output
  imports Js_Values
begin

text \<open>
  Log entries and their text (\<open>logging/src/models/log.model.ts\<close>, \<open>utils/utils.ts\<close>): the truncation of
  deep values, the deep keys, and the JSON and the simple rendering. A date is its ISO text; the
  pretty rendering, whose icons are above code point 255, and the local text of a date are
  parameters. Values have no cycles, getters, holes, functions, symbols or big integers.
\<close>

section \<open>Severities and entries\<close>

datatype severity = Debug | Info | Success | Notice | Warning | Error | Critical

primrec rank :: "severity \<Rightarrow> nat" where
  "rank Debug = 0" | "rank Info = 1" | "rank Success = 2" | "rank Notice = 3" | "rank Warning = 4" | "rank Error = 5" | "rank Critical = 6"

primrec getSeverityText :: "severity \<Rightarrow> string" where
  "getSeverityText Debug = ''DEBUG''" | "getSeverityText Info = ''INFO''" | "getSeverityText Success = ''SUCCESS''"
| "getSeverityText Notice = ''NOTICE''" | "getSeverityText Warning = ''WARNING''" | "getSeverityText Error = ''ERROR''"
| "getSeverityText Critical = ''CRITICAL''"

record log_model =
  lg_severity :: severity
  lg_message :: string
  lg_date :: string
  lg_highlights :: jsv
  lg_outputHints :: jsv
  lg_kernelInstantiationId :: string
  lg_traceId :: "string option"
  lg_extra :: "jsv option"
  lg_eventId :: jsv
  lg_eventGroupId :: "jsv option"

definition optional_text :: "string option \<Rightarrow> jsv" where
  "optional_text s = (case s of None \<Rightarrow> JUndefined | Some t \<Rightarrow> js_string t)"

text \<open>
  The entry as an object, its properties in the order they are assigned (where the handler adds
  diagnostics to an entry without data, the extra data really comes after the event id).
\<close>

definition log_value :: "log_model \<Rightarrow> jsv" where
  "log_value l = JInstance ''LogModel''
     ([(''severity'', JAtom (show_nat (rank (lg_severity l)))), (''message'', js_string (lg_message l)),
       (''date'', js_date (js_string (lg_date l))), (''module'', js_string ''application''),
       (''highlights'', lg_highlights l), (''outputHints'', lg_outputHints l),
       (''kernelInstantiationId'', js_string (lg_kernelInstantiationId l)), (''traceId'', optional_text (lg_traceId l))] @
      (case lg_extra l of None \<Rightarrow> [] | Some v \<Rightarrow> [(''extra'', v)]) @ [(''eventId'', lg_eventId l)] @
      (case lg_eventGroupId l of None \<Rightarrow> [] | Some v \<Rightarrow> [(''eventGroupId'', v)]))"

section \<open>Truncation\<close>

definition is_date :: "jsv \<Rightarrow> bool" where
  "is_date v \<longleftrightarrow> instance_of ''Date'' v"

definition isFlat :: "jsv \<Rightarrow> bool" where
  "isFlat v = (case v of JUndefined \<Rightarrow> True | JNull \<Rightarrow> True | JAtom _ \<Rightarrow> True | _ \<Rightarrow> is_date v)"

definition truncation_mark :: jsv where
  "truncation_mark = js_string ''-- Truncated: Max Depth Reached --''"

function truncate_value :: "jsv \<Rightarrow> nat \<Rightarrow> nat \<Rightarrow> jsv" where
  "truncate_value v maxDepth curDepth =
     (if curDepth < maxDepth then
        (if isFlat v then v
         else (case v of
             JArray xs \<Rightarrow> JArray (map (\<lambda>x. if isFlat x then x else truncate_value x maxDepth (Suc curDepth)) xs)
           | JObject ob \<Rightarrow> JObject (map (\<lambda>(k, x). (k, if isFlat x then x else truncate_value x maxDepth (Suc curDepth))) (entries ob))
           | JInstance _ ob \<Rightarrow> JObject (map (\<lambda>(k, x). (k, if isFlat x then x else truncate_value x maxDepth (Suc curDepth))) (entries ob))
           | _ \<Rightarrow> v))
      else truncation_mark)"
  by pat_completeness auto

termination
  by (relation "measure (\<lambda>(v, m, c). m - c)") auto

declare truncate_value.simps [simp del]

section \<open>The keys of a value, at every depth\<close>

text \<open>What \<open>for (const key in value)\<close> visits; a string shows its indexes.\<close>

definition visited :: "jsv \<Rightarrow> (string \<times> jsv) list" where
  "visited v = (if is_date v then [] else own_properties v)"

definition string_indexes :: "jsv \<Rightarrow> string list" where
  "string_indexes v = (case as_string v of None \<Rightarrow> [] | Some s \<Rightarrow> map show_nat [0..<length s])"

lemma size_visited: "(k, x) \<in> set (visited v) \<Longrightarrow> size x < size v"
proof -
  assume x: "(k, x) \<in> set (visited v)"
  show ?thesis
  proof (cases v)
    case (JArray xs)
    then have "x \<in> set xs" using x by (auto simp: visited_def own_properties_def in_set_enumerate_eq is_date_def instance_of_def class_of_def)
    then show ?thesis using JArray by (simp add: size_list_estimation' less_Suc_eq_le)
  next
    case (JObject ob)
    then show ?thesis using x size_entry [of k x ob] by (simp add: visited_def own_properties_def split: if_splits)
  next
    case (JInstance c ob)
    then show ?thesis using x size_entry [of k x ob] by (simp add: visited_def own_properties_def split: if_splits)
  qed (use x in \<open>simp_all add: visited_def own_properties_def split: if_splits\<close>)
qed

function getDeepKeys :: "jsv \<Rightarrow> string list" where
  "getDeepKeys v = string_indexes v @
     concat (map (\<lambda>kx. (case snd kx of
         JArray ys \<Rightarrow> concat (map getDeepKeys ys)
       | JObject ob \<Rightarrow> getDeepKeys (snd kx)
       | JInstance c ob \<Rightarrow> getDeepKeys (snd kx)
       | _ \<Rightarrow> []) @ [fst kx]) (visited v))"
  by pat_completeness auto

termination
proof (relation "measure size", goal_cases)
  case (2 v kx ys y)
  then have "size y < size (snd kx)" by (simp add: size_list_estimation' less_Suc_eq_le)
  moreover have "size (snd kx) < size v" using 2(1) by (intro size_visited [of "fst kx"]) simp
  ultimately show ?case by simp
next
  case (3 v kx ob)
  moreover have "size (snd kx) < size v" using 3(1) by (intro size_visited [of "fst kx"]) simp
  ultimately show ?case by simp
next
  case (4 v kx c ob)
  moreover have "size (snd kx) < size v" using 4(1) by (intro size_visited [of "fst kx"]) simp
  ultimately show ?case by simp
qed simp

declare getDeepKeys.simps [simp del]

section \<open>JSON with a list of keys\<close>

text \<open>
  \<open>JSON.stringify\<close> with dates; with an array of names as its second argument every object shows only
  those members, in the order of the names, each name once.
\<close>

definition shown_keys :: "string list option \<Rightarrow> (string \<times> jsv) list \<Rightarrow> string list" where
  "shown_keys sel ob = (case sel of None \<Rightarrow> map fst (entries ob) | Some ks \<Rightarrow> rev (remdups (rev ks)))"

lemma size_property: "size (property ob k) \<le> size_list (size_prod (\<lambda>x. 0) size) ob"
proof (cases "map_of ob k")
  case (Some v)
  then have "(k, v) \<in> set ob" by (rule map_of_SomeD)
  then have "size_prod (\<lambda>x. 0) size (k, v) \<le> size_list (size_prod (\<lambda>x. 0) size) ob"
    by (rule size_list_estimation') simp
  then show ?thesis using Some by (simp add: property_def)
qed (simp add: property_def)

function json_selected :: "string list option \<Rightarrow> jsv \<Rightarrow> string option" where
  "json_selected sel JUndefined = None"
| "json_selected sel JNull = Some ''null''"
| "json_selected sel (JAtom a) = json_atom a"
| "json_selected sel (JArray xs) = Some ([CHR ''[''] @
     join '','' (map (\<lambda>x. case json_selected sel x of Some s \<Rightarrow> s | None \<Rightarrow> ''null'') xs) @ [CHR '']''])"
| "json_selected sel (JObject ob) = Some ([CHR ''{''] @
     join '','' (concat (map (\<lambda>k. case json_selected sel (property ob k) of
       Some s \<Rightarrow> [json_string k @ '':'' @ s] | None \<Rightarrow> []) (shown_keys sel ob))) @ [CHR ''}''])"
| "json_selected sel (JInstance c ob) =
     (if is_date (JInstance c ob) then Some (json_string (js_text (property ob ''value'')))
      else Some ([CHR ''{''] @
     join '','' (concat (map (\<lambda>k. case json_selected sel (property ob k) of
       Some s \<Rightarrow> [json_string k @ '':'' @ s] | None \<Rightarrow> []) (shown_keys sel ob))) @ [CHR ''}'']))"
  by pat_completeness auto

termination
proof (relation "measure (\<lambda>(sel, v). size v)", goal_cases)
  case (2 ks xs x)
  then show ?case by (simp add: size_list_estimation' less_Suc_eq_le)
next
  case (3 ks ob k)
  then show ?case using size_property [of ob k] by (simp add: less_Suc_eq_le)
next
  case (4 ks c ob k)
  then show ?case using size_property [of ob k] by (simp add: less_Suc_eq_le)
qed simp

section \<open>The text of an entry\<close>

datatype output_mode = Json | Simple | Pretty

definition json_order :: "string list" where
  "json_order = [''severity'', ''message'', ''date'', ''module'', ''traceId'', ''kernelInstantiationId'']"

text \<open>
  At depth zero the truncated entry is a string, and assigning a member of a string throws. The
  indentation is never passed, so the text has none.
\<close>

definition json_output :: "log_model \<Rightarrow> nat \<Rightarrow> thrown + string" where
  "json_output l depth = (case truncate_value (log_value l) depth 0 of
     JObject ob \<Rightarrow>
       (let v = JObject (obj_set ''severity'' (js_string (getSeverityText (lg_severity l))) ob);
            ks = json_order @ filter (\<lambda>k. k \<notin> set json_order) (getDeepKeys v) in
        Inr (case json_selected (Some ks) v of Some s \<Rightarrow> s | None \<Rightarrow> ''undefined''))
   | v \<Rightarrow> Inl (NativeErr ''TypeError'' (''Cannot create property '' @ quoted ''severity'' @ '' on string '' @ quoted (js_text v)) None None))"

definition highlight_lines :: "jsv \<Rightarrow> string" where
  "highlight_lines v = (if truthy v then concat (map (\<lambda>(k, x).
     [CHR 0x0A, CHR 0x09] @ ''- '' @ k @ '': '' @ (case json_selected None (truncate_value x 4 0) of Some s \<Rightarrow> s | None \<Rightarrow> ''undefined'')) (visited v)) else [])"

definition simple_output :: "(string \<Rightarrow> string) \<Rightarrow> log_model \<Rightarrow> string" where
  "simple_output date_text l = [CHR 0x0A] @ js_text (lg_eventId l) @ '' - '' @ date_text (lg_date l) @ '' - '' @ '' ['' @
     getSeverityText (lg_severity l) @ ''] - '' @ lg_message l @ highlight_lines (lg_highlights l)"

record output_rendering =
  or_dateText :: "string \<Rightarrow> string"
  or_pretty :: "log_model \<Rightarrow> string"

definition outputLog :: "output_rendering \<Rightarrow> log_model \<Rightarrow> output_mode \<Rightarrow> nat \<Rightarrow> thrown + string" where
  "outputLog r l mode depth = (case mode of
     Json \<Rightarrow> json_output l depth
   | Simple \<Rightarrow> Inr (simple_output (or_dateText r) l)
   | Pretty \<Rightarrow> Inr (or_pretty r l))"

section \<open>Truncated values are no deeper than asked\<close>

fun depth_of :: "jsv \<Rightarrow> nat" where
  "depth_of (JArray xs) = Suc (foldr max (map depth_of xs) 0)"
| "depth_of (JObject ob) = Suc (foldr max (map (\<lambda>kx. depth_of (snd kx)) ob) 0)"
| "depth_of (JInstance c ob) = (if is_date (JInstance c ob) then 0 else Suc (foldr max (map (\<lambda>kx. depth_of (snd kx)) ob) 0))"
| "depth_of v = 0"

lemma depth_of_flat: "isFlat v \<Longrightarrow> depth_of v = 0"
  by (cases v) (simp_all add: isFlat_def is_date_def instance_of_def class_of_def)

lemma foldr_max_le: "foldr max xs (0::nat) \<le> b \<longleftrightarrow> (\<forall>x \<in> set xs. x \<le> b)"
  by (induction xs) auto

lemma foldr_max_entries: "foldr max (map f (entries ob)) (0::nat) = foldr max (map f ob) 0"
proof (rule order_antisym)
  have upper: "f x \<le> foldr max (map f xs) 0" if "x \<in> set xs" for x xs
    using that foldr_max_le [of "map f xs" "foldr max (map f xs) 0"] by simp
  show "foldr max (map f (entries ob)) 0 \<le> foldr max (map f ob) 0" using upper [of _ ob] by (simp add: foldr_max_le)
  show "foldr max (map f ob) 0 \<le> foldr max (map f (entries ob)) 0" using upper [of _ "entries ob"] by (simp add: foldr_max_le)
qed

lemma foldr_max_min: "foldr max (map (\<lambda>x. min (f x) b) xs) (0::nat) = min (foldr max (map f xs) 0) b"
  by (induction xs) (simp_all add: max_min_distrib1)

text \<open>A truncated value is as deep as the value, or as deep as asked where that is less.\<close>

theorem truncated_values_are_bounded: "depth_of (truncate_value v m c) = min (depth_of v) (m - c)"
proof (induction "m - c" arbitrary: v c)
  case 0
  then show ?case by (simp add: truncate_value.simps [of v] truncation_mark_def js_string_def)
next
  case (Suc d)
  have c: "c < m" using Suc(2) by simp
  show ?case
  proof (cases "isFlat v")
    case True
    then show ?thesis using c by (simp add: truncate_value.simps [of v] depth_of_flat)
  next
    case flat: False
    define cut where "cut x = (if isFlat x then x else truncate_value x m (Suc c))" for x
    have cut: "depth_of (cut x) = min (depth_of x) (m - Suc c)" for x
      using Suc.hyps(1) [of "Suc c" x] Suc(2) by (auto simp: depth_of_flat cut_def)
    have left: "m - c = Suc (m - Suc c)" using c by simp
    show ?thesis
    proof (cases v)
      case (JArray xs)
      then have "truncate_value v m c = JArray (map cut xs)" using flat c by (subst truncate_value.simps) (simp add: cut_def)
      then show ?thesis using JArray left by (simp add: comp_def cut foldr_max_min)
    next
      case (JObject ob)
      then have "truncate_value v m c = JObject (map (\<lambda>(k, x). (k, cut x)) (entries ob))"
        using flat c by (subst truncate_value.simps) (simp add: cut_def)
      then show ?thesis using JObject left by (simp add: comp_def case_prod_beta cut foldr_max_min foldr_max_entries)
    next
      case (JInstance n ob)
      then have "truncate_value v m c = JObject (map (\<lambda>(k, x). (k, cut x)) (entries ob))"
        using flat c by (subst truncate_value.simps) (simp add: cut_def)
      then show ?thesis using JInstance left flat by (simp add: comp_def case_prod_beta cut foldr_max_min foldr_max_entries isFlat_def)
    qed (use flat in \<open>simp_all add: isFlat_def\<close>)
  qed
qed

subsection \<open>What is cut and what is kept\<close>

text \<open>The way into a value: by the index of an array or the key of an object; a date has no members.\<close>

datatype way = At_Index nat | At_Key string

fun member_at :: "jsv \<Rightarrow> way \<Rightarrow> jsv option" where
  "member_at (JArray xs) (At_Index i) = (if i < length xs then Some (xs ! i) else None)"
| "member_at (JObject ob) (At_Key k) = map_of ob k"
| "member_at (JInstance c ob) (At_Key k) = (if is_date (JInstance c ob) then None else map_of ob k)"
| "member_at _ _ = None"

fun reach :: "jsv \<Rightarrow> way list \<Rightarrow> jsv option" where
  "reach v [] = Some v"
| "reach v (w # ws) = Option.bind (member_at v w) (\<lambda>x. reach x ws)"

text \<open>An array of as many elements, or an object of the same keys, in the order they are listed.\<close>

definition same_outline :: "jsv \<Rightarrow> jsv \<Rightarrow> bool" where
  "same_outline x y = (case y of
     JArray ys \<Rightarrow> (case x of JArray xs \<Rightarrow> length xs = length ys | _ \<Rightarrow> False)
   | JObject ob \<Rightarrow> (case x of JObject ob' \<Rightarrow> map fst ob' = map fst (entries ob) | _ \<Rightarrow> False)
   | JInstance c ob \<Rightarrow> (case x of JObject ob' \<Rightarrow> map fst ob' = map fst (entries ob) | _ \<Rightarrow> False)
   | _ \<Rightarrow> False)"

text \<open>What is left, at a distance from the limit, of what was there.\<close>

definition left_of :: "bool \<Rightarrow> jsv \<Rightarrow> jsv \<Rightarrow> bool" where
  "left_of at_limit y x \<longleftrightarrow> (if isFlat y then x = y else if at_limit then x = truncation_mark else same_outline x y)"

definition cut :: "nat \<Rightarrow> nat \<Rightarrow> jsv \<Rightarrow> jsv" where
  "cut m c x = (if isFlat x then x else truncate_value x m c)"

lemma cut_flat: "isFlat x \<Longrightarrow> cut m c x = x"
  by (simp add: cut_def)

lemma map_of_stable:
  "map_of (filter (\<lambda>kv. fst kv = k) xs) k = map_of xs k"
  by (induction xs) auto

lemma map_of_entries: "map_of (entries ob) k = map_of ob k"
proof -
  have index: "filter (\<lambda>kv. fst kv = k) (sort_key (\<lambda>kv. num_value (fst kv)) xs) = filter (\<lambda>kv. fst kv = k) xs" for xs :: "(string \<times> jsv) list"
  proof -
    have "filter (\<lambda>kv. fst kv = k) (sort_key (\<lambda>kv. num_value (fst kv)) xs) =
        sort_key (\<lambda>kv. num_value (fst kv)) (filter (\<lambda>kv. fst kv = k) xs)" by (rule filter_sort)
    also have "\<dots> = filter (\<lambda>kv. fst kv = k) xs"
    proof -
      have same_key: "map (\<lambda>kv. num_value (fst kv)) (filter (\<lambda>kv. fst kv = k) xs) =
        replicate (length (filter (\<lambda>kv. fst kv = k) xs)) (num_value k)"
      by (rule replicate_eqI) auto
      show ?thesis by (rule sort_key_id_if_sorted) (simp only: same_key sorted_replicate)
    qed
    finally show ?thesis .
  qed
  have "filter (\<lambda>kv. fst kv = k) (entries ob) = filter (\<lambda>kv. fst kv = k) ob"
  proof (cases "is_index_key k")
    case True
    then have "filter (\<lambda>kv. fst kv = k) (filter (\<lambda>kv. is_index_key (fst kv)) ob) = filter (\<lambda>kv. fst kv = k) ob"
      "filter (\<lambda>kv. fst kv = k) (filter (\<lambda>kv. \<not> is_index_key (fst kv)) ob) = []"
      by (auto simp: filter_empty_conv intro: filter_cong)
    then show ?thesis by (simp only: entries_def filter_append index append_Nil2)
  next
    case False
    then have "filter (\<lambda>kv. fst kv = k) (filter (\<lambda>kv. \<not> is_index_key (fst kv)) ob) = filter (\<lambda>kv. fst kv = k) ob"
      "filter (\<lambda>kv. fst kv = k) (filter (\<lambda>kv. is_index_key (fst kv)) ob) = []"
      by (auto simp: filter_empty_conv intro: filter_cong)
    then show ?thesis by (simp only: entries_def filter_append index append_Nil)
  qed
  then show ?thesis by (metis map_of_stable)
qed

lemma map_of_cut: "map_of (map (\<lambda>(k, x). (k, f x)) (entries ob)) k = map_option f (map_of ob k)"
  by (simp add: map_of_map map_of_entries)

lemma truncate_array: "c < m \<Longrightarrow> truncate_value (JArray xs) m c = JArray (map (cut m (Suc c)) xs)"
  by (subst truncate_value.simps) (simp add: cut_def isFlat_def is_date_def instance_of_def class_of_def)

lemma truncate_object: "c < m \<Longrightarrow> truncate_value (JObject ob) m c = JObject (map (\<lambda>(k, x). (k, cut m (Suc c) x)) (entries ob))"
  by (subst truncate_value.simps) (simp add: cut_def isFlat_def is_date_def instance_of_def class_of_def)

lemma truncate_instance:
  "c < m \<Longrightarrow> \<not> isFlat (JInstance n ob) \<Longrightarrow>
     truncate_value (JInstance n ob) m c = JObject (map (\<lambda>(k, x). (k, cut m (Suc c) x)) (entries ob))"
  by (subst truncate_value.simps) (simp add: cut_def)

lemma flat_has_no_members: "isFlat v \<Longrightarrow> member_at v w = None"
  by (cases v; cases w) (simp_all add: isFlat_def is_date_def instance_of_def class_of_def)

lemma cut_members:
  assumes "c < m" and "\<not> isFlat v"
  shows "member_at (cut m c v) w = map_option (cut m (Suc c)) (member_at v w)" and "same_outline (cut m c v) v"
proof -
  have "member_at (cut m c v) w = map_option (cut m (Suc c)) (member_at v w) \<and> same_outline (cut m c v) v"
  proof (cases v)
    case (JArray xs)
    then show ?thesis using assms by (cases w) (simp_all add: cut_def [of m c] truncate_array same_outline_def)
  next
    case (JObject ob)
    then show ?thesis using assms
      by (cases w) (simp_all add: cut_def [of m c] truncate_object same_outline_def map_of_cut comp_def case_prod_beta)
  next
    case (JInstance n ob)
    then have "\<not> is_date v" using assms(2) by (simp add: isFlat_def)
    then show ?thesis using assms JInstance
      by (cases w) (simp_all add: cut_def [of m c] truncate_instance same_outline_def map_of_cut comp_def case_prod_beta)
  qed (use assms(2) in \<open>simp_all add: isFlat_def\<close>)
  then show "member_at (cut m c v) w = map_option (cut m (Suc c)) (member_at v w)" and "same_outline (cut m c v) v" by simp_all
qed

lemma cut_at_limit: "\<not> isFlat v \<Longrightarrow> cut m m v = truncation_mark"
  by (simp add: cut_def truncate_value.simps)

lemma mark_has_no_members: "member_at truncation_mark w = None"
  by (simp add: truncation_mark_def js_string_def)

lemma reach_cut:
  "c \<le> m \<Longrightarrow> rel_option (left_of (c + length ws = m)) (if c + length ws \<le> m then reach v ws else None) (reach (cut m c v) ws)"
proof (induction ws arbitrary: v c)
  case Nil
  then show ?case using cut_members(2) [of c m v] cut_at_limit [of v m]
    by (cases "isFlat v"; cases "c = m") (simp_all add: left_of_def cut_flat)
next
  case (Cons w ws)
  show ?case
  proof (cases "isFlat v \<or> c = m")
    case True
    then have "member_at (cut m c v) w = None"
      using flat_has_no_members cut_at_limit mark_has_no_members by (cases "isFlat v") (auto simp: cut_def)
    then show ?thesis using True Cons.prems flat_has_no_members by auto
  next
    case False
    then have c: "c < m" "\<not> isFlat v" using Cons.prems by simp_all
    show ?thesis
    proof (cases "member_at v w")
      case None
      then show ?thesis by (simp add: cut_members(1) [OF c])
    next
      case (Some x)
      then show ?thesis using Cons.IH [of "Suc c" x] c(1) by (simp add: cut_members(1) [OF c] split: if_splits)
    qed
  qed
qed

text \<open>
  Claim C38. Truncation to a positive depth keeps, of whatever is reached in fewer steps, the value where it is
  flat, else the elements of an array and the keys of an object; at that depth itself flat values
  stay and anything else is the mark; and nothing is deeper.
\<close>

theorem truncation_cuts_at_the_depth:
  "rel_option (left_of (length ws = Suc m)) (if length ws \<le> Suc m then reach v ws else None)
     (reach (truncate_value v (Suc m) 0) ws)"
proof -
  have "cut (Suc m) 0 v = truncate_value v (Suc m) 0"
    by (simp add: cut_def truncate_value.simps)
  then show ?thesis using reach_cut [of 0 "Suc m" ws v] by simp
qed

text \<open>At depth zero no entry has a JSON text.\<close>

lemma depth_zero_has_no_json: "\<exists>e. json_output l 0 = Inl e"
  by (simp add: json_output_def truncate_value.simps truncation_mark_def js_string_def)

end
