(* ===== verification/Loggers.thy ===== *)
theory Loggers
  imports Log_Output
begin

text \<open>
  The log handler (\<open>logging/src/handlers/log.handler.ts\<close>), the logger the others extend
  (\<open>loggers/base.logger.ts\<close>) and the console logger (\<open>loggers/console.logger.ts\<close>). The arrays of stacked
  entries are shared objects: they live in a store, by number. What a logger does with an entry
  is a parameter of the base logger; the frames of the stack of calls are a parameter of the handler.
\<close>

section \<open>The entry the handler makes\<close>

record call_frame =
  cf_className :: "string option"
  cf_filename :: "string option"
  cf_line :: "string option"
  cf_column :: "string option"

definition frame_value :: "call_frame \<Rightarrow> jsv" where
  "frame_value f = JObject [(''className'', optional_text (cf_className f)), (''filename'', optional_text (cf_filename f)),
     (''line'', optional_text (cf_line f)), (''column'', optional_text (cf_column f))]"

definition reporting_frame :: "call_frame list \<Rightarrow> call_frame option" where
  "reporting_frame fs = (case find (\<lambda>f. case cf_className f of None \<Rightarrow> False
       | Some c \<Rightarrow> c \<noteq> [] \<and> \<not> starts_with c ''LogHandler'' \<and> \<not> starts_with c ''Array'') fs of
     Some f \<Rightarrow> Some f
   | None \<Rightarrow> (case fs of [] \<Rightarrow> None | f # _ \<Rightarrow> Some f))"

definition diagnostics_value :: "call_frame list \<Rightarrow> jsv" where
  "diagnostics_value fs = JInstance ''DiagnosticsModel'' ([(''stackTrace'', JArray (map frame_value fs))] @
     (case reporting_frame fs of None \<Rightarrow> [] | Some f \<Rightarrow> [(''lastStackTrace'', frame_value f)]))"

text \<open>The diagnostics become a member of the extra data; a member of an array is not shown.\<close>

definition with_diagnostics :: "jsv \<Rightarrow> jsv option \<Rightarrow> jsv" where
  "with_diagnostics d extra = (case extra of
     Some (JObject ob) \<Rightarrow> JObject (obj_set ''__diagnostics'' d ob)
   | Some (JInstance c ob) \<Rightarrow> JInstance c (obj_set ''__diagnostics'' d ob)
   | Some (JArray xs) \<Rightarrow> JArray xs
   | Some v \<Rightarrow> JObject [(''originalData'', v), (''__diagnostics'', d)]
   | None \<Rightarrow> JObject [(''originalData'', JUndefined), (''__diagnostics'', d)])"

record handler_context =
  hc_kernelInstantiationId :: string
  hc_contextTraceId :: "string option"
  hc_contextEventId :: "string option"
  hc_tracingTraceId :: "string option"
  hc_activateDiagnostics :: bool
  hc_frames :: "call_frame list"

definition own_member :: "jsv \<Rightarrow> string \<Rightarrow> jsv" where
  "own_member v k = (case v of JObject ob \<Rightarrow> property ob k | JInstance _ ob \<Rightarrow> property ob k | _ \<Rightarrow> JUndefined)"

definition is_structured :: "jsv \<Rightarrow> bool" where
  "is_structured v = (case v of
     JObject ob \<Rightarrow> obj_has ob ''highlights'' \<or> obj_has ob ''extra'' \<or> obj_has ob ''eventId''
   | JInstance _ ob \<Rightarrow> obj_has ob ''highlights'' \<or> obj_has ob ''extra'' \<or> obj_has ob ''eventId''
   | _ \<Rightarrow> False)"

definition make_log :: "handler_context \<Rightarrow> string \<Rightarrow> string \<Rightarrow> severity \<Rightarrow> jsv \<Rightarrow> log_model" where
  "make_log ctx now message sev data =
     (let given = truthy data;
          structured = given \<and> is_structured data;
          extra = (if structured then Some (own_member data ''extra'') else if given then Some data else None) in
      \<lparr>lg_severity = sev, lg_message = message, lg_date = now,
       lg_highlights = (if structured then coalesce (own_member data ''highlights'') (JObject []) else JObject []),
       lg_outputHints = (if given \<and> truthy (own_member data ''outputHints'') then own_member data ''outputHints'' else JObject []),
       lg_kernelInstantiationId = hc_kernelInstantiationId ctx,
       lg_traceId = (case hc_contextTraceId ctx of Some t \<Rightarrow> Some t | None \<Rightarrow> hc_tracingTraceId ctx),
       lg_extra = (if hc_activateDiagnostics ctx then Some (with_diagnostics (diagnostics_value (hc_frames ctx)) extra) else extra),
       lg_eventId = coalesce (own_member data ''eventId'') (optional_text (hc_contextEventId ctx)),
       lg_eventGroupId = (if given \<and> truthy (own_member data ''eventGroupId'') then Some (own_member data ''eventGroupId'') else None)\<rparr>)"

section \<open>Dispatch\<close>

text \<open>
  A logger as the handler sees it: listeners that may throw, over a state of their own. What is written
  to the standard error stream says which logger failed.
\<close>

record 's attached_logger =
  al_name :: string
  al_active :: bool
  al_listeners :: "(log_model \<Rightarrow> 's \<Rightarrow> thrown option \<times> 's) list option"

datatype failure_report = Handler_Report string thrown | Logger_Report string thrown

fun run_listeners :: "(log_model \<Rightarrow> 's \<Rightarrow> thrown option \<times> 's) list \<Rightarrow> log_model \<Rightarrow> 's \<Rightarrow> thrown option \<times> 's" where
  "run_listeners [] l s = (None, s)"
| "run_listeners (f # fs) l s = (case f l s of (Some e, s') \<Rightarrow> (Some e, s') | (None, s') \<Rightarrow> run_listeners fs l s')"

fun dispatch_log ::
  "'s attached_logger list \<Rightarrow> log_model \<Rightarrow> 's \<times> failure_report list \<Rightarrow> 's \<times> failure_report list" where
  "dispatch_log [] l w = w"
| "dispatch_log (g # gs) l w =
     (if \<not> al_active g then dispatch_log gs l w
      else (case al_listeners g of
         None \<Rightarrow> dispatch_log gs l w
       | Some fs \<Rightarrow> (case run_listeners fs l (fst w) of
           (None, s) \<Rightarrow> dispatch_log gs l (s, snd w)
         | (Some e, s) \<Rightarrow> dispatch_log gs l (s, snd w @ [Handler_Report (al_name g) e]))))"

definition log_handler_log ::
  "'s attached_logger list \<Rightarrow> handler_context \<Rightarrow> string \<Rightarrow> string \<Rightarrow> severity \<Rightarrow> jsv \<Rightarrow> 's \<times> failure_report list \<Rightarrow> 's \<times> failure_report list" where
  "log_handler_log loggers ctx now message sev data w = dispatch_log loggers (make_log ctx now message sev data) w"

section \<open>The stacks of the base logger\<close>

record stacked_logs =
  sl_arrays :: "log_model list list"
  sl_stacks :: "nat obj"

definition common_stack :: string where
  "common_stack = ''pristine.common''"

definition new_array :: "string \<Rightarrow> stacked_logs \<Rightarrow> stacked_logs" where
  "new_array k st = st\<lparr>sl_arrays := sl_arrays st @ [[]], sl_stacks := obj_set k (length (sl_arrays st)) (sl_stacks st)\<rparr>"

definition setupStackedLogsArrayIfRequired :: "string option \<Rightarrow> stacked_logs \<Rightarrow> stacked_logs" where
  "setupStackedLogsArrayIfRequired traceId st =
     (let st1 = (if obj_has (sl_stacks st) common_stack then st else new_array common_stack st) in
      case traceId of
        None \<Rightarrow> st1
      | Some t \<Rightarrow>
          (if t \<noteq> [] \<and> \<not> obj_has (sl_stacks st1) t
           then (case obj_get (sl_stacks st1) common_stack of
               Some a \<Rightarrow> st1\<lparr>sl_stacks := obj_set t a (sl_stacks st1)\<rparr>
             | None \<Rightarrow> new_array t st1)
           else st1))"

text \<open>\<open>do shift while longer\<close>: one entry goes even when there is just one more than fits.\<close>

function shift_while :: "nat \<Rightarrow> 'a list \<Rightarrow> 'a list" where
  "shift_while m xs = (let ys = tl xs in if m < length ys then shift_while m ys else ys)"
  by pat_completeness auto

termination
  by (relation "measure (\<lambda>(m, xs). length xs)") auto

declare shift_while.simps [simp del]

definition missing_stack_error :: thrown where
  "missing_stack_error = NativeErr ''TypeError'' (''Cannot read properties of undefined (reading '' @ quoted ''push'' @ '')'') None None"

definition addStackedLog :: "nat \<Rightarrow> log_model \<Rightarrow> stacked_logs \<Rightarrow> thrown option \<times> stacked_logs" where
  "addStackedLog numberOfStackedLogs l st =
     (case obj_get (sl_stacks st) (case lg_traceId l of Some t \<Rightarrow> t | None \<Rightarrow> common_stack) of
        None \<Rightarrow> (Some missing_stack_error, st)
      | Some a \<Rightarrow>
          (let xs = sl_arrays st ! a @ [l] in
           (None, st\<lparr>sl_arrays := (sl_arrays st)[a := if numberOfStackedLogs \<le> length xs then shift_while numberOfStackedLogs xs else xs]\<rparr>)))"

fun emit_all :: "(log_model \<Rightarrow> 's \<Rightarrow> thrown option \<times> 's) \<Rightarrow> log_model list \<Rightarrow> 's \<Rightarrow> thrown option \<times> 's" where
  "emit_all emit [] s = (None, s)"
| "emit_all emit (l # ls) s = (case emit l s of (Some e, s') \<Rightarrow> (Some e, s') | (None, s') \<Rightarrow> emit_all emit ls s')"

definition stack_of :: "string \<Rightarrow> stacked_logs \<Rightarrow> log_model list" where
  "stack_of k st = (case obj_get (sl_stacks st) k of Some a \<Rightarrow> sl_arrays st ! a | None \<Rightarrow> [])"

definition clearStackedLogs :: "string option \<Rightarrow> stacked_logs \<Rightarrow> stacked_logs" where
  "clearStackedLogs traceId st =
     (let st1 = new_array common_stack st in
      case traceId of None \<Rightarrow> st1 | Some t \<Rightarrow> if obj_has (sl_stacks st1) t then new_array t st1 else st1)"

definition outputStackedLogs ::
  "(log_model \<Rightarrow> 's \<Rightarrow> thrown option \<times> 's) \<Rightarrow> string option \<Rightarrow> stacked_logs \<Rightarrow> 's \<Rightarrow> thrown option \<times> stacked_logs \<times> 's" where
  "outputStackedLogs emit traceId st s =
     (case emit_all emit (stack_of common_stack st) s of
        (Some e, s1) \<Rightarrow> (Some e, st, s1)
      | (None, s1) \<Rightarrow>
          (case traceId of
             None \<Rightarrow> (None, st, s1)
           | Some t \<Rightarrow>
               (if \<not> obj_has (sl_stacks st) t then (None, st, s1)
                else (case emit_all emit (stack_of t st) s1 of
                    (Some e, s2) \<Rightarrow> (Some e, st, s2)
                  | (None, s2) \<Rightarrow> (None, clearStackedLogs traceId st, s2)))))"

text \<open>\<open>captureLog\<close> asks for the stacked entries without a trace.\<close>

definition captureLog ::
  "nat \<Rightarrow> nat \<Rightarrow> (log_model \<Rightarrow> 's \<Rightarrow> thrown option \<times> 's) \<Rightarrow> log_model \<Rightarrow> stacked_logs \<times> 's \<Rightarrow> thrown option \<times> stacked_logs \<times> 's" where
  "captureLog numberOfStackedLogs level emit l = (\<lambda>(st, s).
     if 0 < numberOfStackedLogs then
       (let st1 = setupStackedLogsArrayIfRequired (lg_traceId l) st in
        if rank (lg_severity l) < level
        then (case addStackedLog numberOfStackedLogs l st1 of (e, st2) \<Rightarrow> (e, st2, s))
        else if rank Error \<le> rank (lg_severity l)
        then (case outputStackedLogs emit None st1 s of
            (Some e, st2, s2) \<Rightarrow> (Some e, st2, s2)
          | (None, st2, s2) \<Rightarrow> (case emit l s2 of (e, s3) \<Rightarrow> (e, st2, s3)))
        else (case emit l s of (e, s2) \<Rightarrow> (e, st1, s2)))
     else if level \<le> rank (lg_severity l) then (case emit l s of (e, s2) \<Rightarrow> (e, st, s2))
     else (None, st, s))"

text \<open>The listener of the stream reports what is thrown.\<close>

definition safe_capture ::
  "string \<Rightarrow> nat \<Rightarrow> nat \<Rightarrow> (log_model \<Rightarrow> 's \<Rightarrow> thrown option \<times> 's) \<Rightarrow> log_model \<Rightarrow>
   stacked_logs \<times> 's \<times> failure_report list \<Rightarrow> stacked_logs \<times> 's \<times> failure_report list" where
  "safe_capture name n level emit l = (\<lambda>(st, s, reports).
     case captureLog n level emit l (st, s) of
       (None, st1, s1) \<Rightarrow> (st1, s1, reports)
     | (Some e, st1, s1) \<Rightarrow> (st1, s1, reports @ [Logger_Report name e]))"

section \<open>The console\<close>

record console_settings =
  co_rendering :: output_rendering
  co_outputMode :: output_mode
  co_depth :: "severity \<Rightarrow> nat"
  co_stderr :: "severity \<Rightarrow> bool"
  co_maximumLogsPerSecond :: nat

record console_state =
  ct_seconds :: nat
  ct_currentSecond :: "nat option"
  ct_numberOfLogs :: nat
  ct_throttling :: bool
  ct_written :: "(bool \<times> string) list"

text \<open>The clock is \<open>ct_seconds\<close>, in seconds; \<open>getSeconds\<close> is the second within its minute.\<close>

definition getSeconds :: "console_state \<Rightarrow> nat" where
  "getSeconds st = ct_seconds st mod 60"

definition throttling_notice :: "nat \<Rightarrow> string" where
  "throttling_notice m = ''Throttling the logs as we are outputting too many logs ('' @ show_nat m @ '') per second.'' @ [CHR 0x0A]"

definition shouldThrottleLogs :: "nat \<Rightarrow> console_state \<Rightarrow> bool \<times> console_state" where
  "shouldThrottleLogs maximum st =
     (let now = getSeconds st in
      if ct_currentSecond st \<noteq> Some now
      then (False, st\<lparr>ct_currentSecond := Some now, ct_numberOfLogs := 1, ct_throttling := False\<rparr>)
      else (let st1 = st\<lparr>ct_numberOfLogs := Suc (ct_numberOfLogs st)\<rparr> in
        if maximum < ct_numberOfLogs st1
        then (True, st1\<lparr>ct_throttling := True,
               ct_written := ct_written st1 @ (if ct_throttling st1 then [] else [(True, throttling_notice maximum)])\<rparr>)
        else (ct_throttling st1, st1)))"

definition console_log :: "console_settings \<Rightarrow> log_model \<Rightarrow> console_state \<Rightarrow> thrown option \<times> console_state" where
  "console_log cfg l st =
     (case outputLog (co_rendering cfg) l (co_outputMode cfg) (co_depth cfg (lg_severity l)) of
        Inl e \<Rightarrow> (Some e, st)
      | Inr line \<Rightarrow>
          (case shouldThrottleLogs (co_maximumLogsPerSecond cfg) st of (throttled, st1) \<Rightarrow>
            (None, if throttled then st1
                   else st1\<lparr>ct_written := ct_written st1 @ [(co_stderr cfg (lg_severity l), line @ [CHR 0x0A])]\<rparr>)))"

end
