(* ===== verification/Logger_Properties.thy ===== *)
theory Logger_Properties
  imports Loggers
begin

text \<open>
  Loggers: the stacks of all traces are one bounded stack, shown again at every error; a logger that
  fails does not keep the entry from the others; the console writes no more than its limit in a second.
\<close>

section \<open>Dispatch\<close>

definition listening :: "'s attached_logger list \<Rightarrow> (log_model \<Rightarrow> 's \<Rightarrow> thrown option \<times> 's) list list" where
  "listening gs = List.map_filter (\<lambda>g. if al_active g then al_listeners g else None) gs"

lemma dispatch_reaches_every_logger:
  "fst (dispatch_log gs l w) = foldl (\<lambda>s fs. snd (run_listeners fs l s)) (fst w) (listening gs)"
proof (induction gs arbitrary: w)
  case (Cons g gs)
  show ?case
  proof (cases "if al_active g then al_listeners g else None")
    case None
    then show ?thesis using Cons.IH by (auto simp: listening_def List.map_filter_simps split: if_splits)
  next
    case (Some fs)
    then have "al_active g" "al_listeners g = Some fs" by (simp_all split: if_splits)
    then show ?thesis using Cons.IH Some
      by (cases "run_listeners fs l (fst w)") (auto simp: listening_def List.map_filter_simps split: option.splits)
  qed
qed (simp add: listening_def List.map_filter_simps)

section \<open>One stack\<close>

text \<open>
  What the base logger comes to: one list of the last entries below the level, one fewer than
  configured, whatever their traces; an error shows the list before itself and leaves it as it is.
  An entry whose trace id is the empty string has no stack.
\<close>

definition keep_last :: "nat \<Rightarrow> 'a list \<Rightarrow> 'a list" where
  "keep_last k xs = drop (length xs - k) xs"

definition ring_capture ::
  "nat \<Rightarrow> nat \<Rightarrow> (log_model \<Rightarrow> 's \<Rightarrow> thrown option \<times> 's) \<Rightarrow> log_model \<Rightarrow> log_model list \<times> 's \<Rightarrow> thrown option \<times> log_model list \<times> 's" where
  "ring_capture n level emit l = (\<lambda>(ring, s).
     if 0 < n \<and> rank (lg_severity l) < level then
       (if lg_traceId l = Some [] then (Some missing_stack_error, ring, s) else (None, keep_last (n - 1) (ring @ [l]), s))
     else if rank (lg_severity l) < level then (None, ring, s)
     else (case emit_all emit ((if 0 < n \<and> 5 \<le> rank (lg_severity l) then ring else []) @ [l]) s of (e, s') \<Rightarrow> (e, ring, s')))"

definition no_stacks :: stacked_logs where
  "no_stacks = \<lparr>sl_arrays = [], sl_stacks = []\<rparr>"

fun captures :: "('l \<Rightarrow> 'x \<Rightarrow> thrown option \<times> 'x) \<Rightarrow> 'l list \<Rightarrow> 'x \<Rightarrow> thrown option list \<times> 'x" where
  "captures f [] x = ([], x)"
| "captures f (l # ls) x = (case f l x of (e, x') \<Rightarrow> (case captures f ls x' of (es, x'') \<Rightarrow> (e # es, x'')))"

text \<open>Every key leads to the array that holds the list.\<close>

definition one_array :: "stacked_logs \<Rightarrow> log_model list \<Rightarrow> bool" where
  "one_array st ring \<longleftrightarrow> (\<exists>a. a < length (sl_arrays st) \<and> obj_get (sl_stacks st) common_stack = Some a \<and>
     obj_get (sl_stacks st) [] = None \<and> (\<forall>k. obj_get (sl_stacks st) k \<in> {None, Some a}) \<and> sl_arrays st ! a = ring)"

definition shares :: "nat \<Rightarrow> stacked_logs \<Rightarrow> log_model list \<Rightarrow> bool" where
  "shares n st ring \<longleftrightarrow> (sl_stacks st = [] \<and> ring = []) \<or> (one_array st ring \<and> length ring < n)"

lemma common_stack_named: "common_stack \<noteq> []"
  by (simp add: common_stack_def)

lemma setup_shares:
  assumes "shares n st ring" and "0 < n"
  shows "one_array (setupStackedLogsArrayIfRequired t st) ring" and "length ring < n"
    and "\<And>k. t = Some k \<Longrightarrow> k \<noteq> [] \<Longrightarrow> obj_has (sl_stacks (setupStackedLogsArrayIfRequired t st)) k"
proof -
  let ?st1 = "if obj_has (sl_stacks st) common_stack then st else new_array common_stack st"
  have one: "one_array ?st1 ring"
  proof (cases "sl_stacks st = []")
    case True
    then have "ring = []" using assms(1) by (auto simp: shares_def one_array_def)
    have "?st1 = \<lparr>sl_arrays = sl_arrays st @ [[]], sl_stacks = [(common_stack, length (sl_arrays st))]\<rparr>"
      using True by (simp add: new_array_def obj_has_def)
    then show ?thesis using \<open>ring = []\<close> by (simp add: one_array_def common_stack_named common_stack_named [symmetric])
  next
    case False
    then have "one_array st ring" using assms(1) by (simp add: shares_def)
    then show ?thesis by (auto simp: one_array_def obj_has_def)
  qed
  then obtain a where a: "a < length (sl_arrays ?st1)" "obj_get (sl_stacks ?st1) common_stack = Some a"
    "obj_get (sl_stacks ?st1) [] = None" "\<forall>k. obj_get (sl_stacks ?st1) k \<in> {None, Some a}" "sl_arrays ?st1 ! a = ring"
    unfolding one_array_def by blast
  show "one_array (setupStackedLogsArrayIfRequired t st) ring"
  proof (cases "\<exists>k. t = Some k \<and> k \<noteq> [] \<and> \<not> obj_has (sl_stacks ?st1) k")
    case True
    then obtain k where k: "t = Some k" "k \<noteq> []" "\<not> obj_has (sl_stacks ?st1) k" by blast
    have "setupStackedLogsArrayIfRequired t st = ?st1\<lparr>sl_stacks := obj_set k a (sl_stacks ?st1)\<rparr>"
      using k a(2) unfolding setupStackedLogsArrayIfRequired_def Let_def by simp
    moreover have "one_array (?st1\<lparr>sl_stacks := obj_set k a (sl_stacks ?st1)\<rparr>) ring"
      unfolding one_array_def by (rule exI [of _ a]) (use a k in \<open>auto simp: obj_get_set\<close>)
    ultimately show ?thesis by simp
  next
    case False
    then have "setupStackedLogsArrayIfRequired t st = ?st1"
      unfolding setupStackedLogsArrayIfRequired_def Let_def by (auto split: option.splits)
    then show ?thesis using one by simp
  qed
  show "length ring < n" using assms by (auto simp: shares_def)
  show "obj_has (sl_stacks (setupStackedLogsArrayIfRequired t st)) k" if "t = Some k" "k \<noteq> []" for k
    using that a(2) unfolding setupStackedLogsArrayIfRequired_def Let_def
    by (auto simp: obj_has_def obj_get_set split: option.splits)
qed

lemma shifted: "0 < n \<Longrightarrow> length ring < n \<Longrightarrow>
  (if n \<le> length (ring @ [l]) then shift_while n (ring @ [l]) else ring @ [l]) = keep_last (n - 1) (ring @ [l])"
proof -
  assume n: "0 < n" "length ring < n"
  show ?thesis
  proof (cases "n = Suc (length ring)")
    case True
    have "shift_while n (ring @ [l]) = tl (ring @ [l])" using True by (subst shift_while.simps) simp
    then show ?thesis using True by (cases ring) (simp_all add: keep_last_def)
  next
    case False
    then show ?thesis using n by (simp add: keep_last_def)
  qed
qed

lemma add_shares:
  assumes "one_array st ring" and "0 < n" and "length ring < n"
    and "\<And>k. lg_traceId l = Some k \<Longrightarrow> k \<noteq> [] \<Longrightarrow> obj_has (sl_stacks st) k"
  shows "case addStackedLog n l st of (e, st') \<Rightarrow>
    (if lg_traceId l = Some [] then e = Some missing_stack_error \<and> st' = st
     else e = None \<and> one_array st' (keep_last (n - 1) (ring @ [l])))"
proof -
  obtain a where a: "a < length (sl_arrays st)" "obj_get (sl_stacks st) common_stack = Some a"
    "obj_get (sl_stacks st) [] = None" "\<forall>k. obj_get (sl_stacks st) k \<in> {None, Some a}" "sl_arrays st ! a = ring"
    using assms(1) unfolding one_array_def by blast
  let ?k = "case lg_traceId l of Some t \<Rightarrow> t | None \<Rightarrow> common_stack"
  show ?thesis
  proof (cases "lg_traceId l = Some []")
    case True
    then show ?thesis using a(3) by (simp add: addStackedLog_def)
  next
    case False
    then have "obj_has (sl_stacks st) ?k" using assms(4) a(2) by (auto simp: obj_has_def split: option.splits)
    then have k: "obj_get (sl_stacks st) ?k = Some a" using spec [OF a(4), of ?k] by (auto simp: obj_has_def)
    have "addStackedLog n l st = (None, st\<lparr>sl_arrays := (sl_arrays st)[a := keep_last (n - 1) (ring @ [l])]\<rparr>)"
      unfolding addStackedLog_def k option.case Let_def a(5) shifted [OF assms(2,3)] by (rule refl)
    moreover have "one_array (st\<lparr>sl_arrays := (sl_arrays st)[a := keep_last (n - 1) (ring @ [l])]\<rparr>) (keep_last (n - 1) (ring @ [l]))"
      unfolding one_array_def by (rule exI [of _ a]) (use a in simp)
    ultimately show ?thesis using False by simp
  qed
qed

lemma emit_all_append: "emit_all emit (ls @ [l]) s = (case emit_all emit ls s of (Some e, s') \<Rightarrow> (Some e, s') | (None, s') \<Rightarrow> emit l s')"
  by (induction ls arbitrary: s) (auto split: prod.splits option.splits)

lemma capture_shares:
  assumes "shares n st ring"
  shows "\<exists>st'. captureLog n level emit l (st, s) = (fst (ring_capture n level emit l (ring, s)), st', snd (snd (ring_capture n level emit l (ring, s)))) \<and>
    shares n st' (fst (snd (ring_capture n level emit l (ring, s))))"
proof (cases "0 < n")
  case False
  then show ?thesis using assms
    by (auto simp: captureLog_def ring_capture_def not_le split: prod.splits option.splits)
next
  case True
  let ?st1 = "setupStackedLogsArrayIfRequired (lg_traceId l) st"
  note ready = setup_shares [OF assms True]
  have shared: "shares n ?st1 ring" using ready(1,2) by (simp add: shares_def)
  have stack: "stack_of common_stack ?st1 = ring" using ready(1) [of "lg_traceId l"] by (auto simp: one_array_def stack_of_def)
  show ?thesis
  proof (cases "rank (lg_severity l) < level")
    case low: True
    obtain e st2 where added: "addStackedLog n l ?st1 = (e, st2)" by force
    have "if lg_traceId l = Some [] then e = Some missing_stack_error \<and> st2 = ?st1
      else e = None \<and> one_array st2 (keep_last (n - 1) (ring @ [l]))"
      using add_shares [OF ready(1) True ready(2), of l "lg_traceId l"] ready(3) added by simp
    moreover have "length (keep_last (n - 1) (ring @ [l])) < n" using True by (simp add: keep_last_def)
    ultimately show ?thesis using True low added shared
      by (auto simp: captureLog_def ring_capture_def Let_def shares_def split: if_splits)
  next
    case False
    then show ?thesis using True shared stack
      by (auto simp: captureLog_def ring_capture_def Let_def outputStackedLogs_def emit_all_append split: prod.splits option.splits)
  qed
qed

text \<open>
  Whatever entries arrive, with whatever traces, and whatever becomes of them, the base logger
  behaves as one list of at most one entry fewer than configured, shown before every entry at
  least as severe as an error that is itself shown; it is never cleared. The comments of the class
  speak of a stack for each request.
\<close>

theorem base_logger_has_one_stack:
  "fst (captures (captureLog n level emit) ls (no_stacks, s)) = fst (captures (ring_capture n level emit) ls ([], s)) \<and>
   snd (snd (captures (captureLog n level emit) ls (no_stacks, s))) = snd (snd (captures (ring_capture n level emit) ls ([], s)))"
proof -
  have "fst (captures (captureLog n level emit) ls (st, s)) = fst (captures (ring_capture n level emit) ls (ring, s)) \<and>
    snd (snd (captures (captureLog n level emit) ls (st, s))) = snd (snd (captures (ring_capture n level emit) ls (ring, s)))"
    if "shares n st ring" for st ring s
    using that
  proof (induction ls arbitrary: st ring s)
    case (Cons l ls)
    obtain e ring' s' where spec: "ring_capture n level emit l (ring, s) = (e, ring', s')" by (cases "ring_capture n level emit l (ring, s)") auto
    obtain st' where "captureLog n level emit l (st, s) = (e, st', s')" "shares n st' ring'"
      using capture_shares [OF Cons.prems, of level emit l s] spec by auto
    then show ?case using Cons.IH [of st' ring' s'] spec
      by (cases "captures (captureLog n level emit) ls (st', s')"; cases "captures (ring_capture n level emit) ls (ring', s')") simp
  qed simp
  then show ?thesis by (simp add: shares_def no_stacks_def)
qed

text \<open>Entries of another trace are shown with an error, and again with the next one.\<close>

definition plain_entry :: "string \<Rightarrow> severity \<Rightarrow> string \<Rightarrow> log_model" where
  "plain_entry t sev m = \<lparr>lg_severity = sev, lg_message = m, lg_date = ''2026-01-01T00:00:00.000Z'', lg_highlights = JObject [],
     lg_outputHints = JObject [], lg_kernelInstantiationId = ''k'', lg_traceId = Some t, lg_extra = None, lg_eventId = JUndefined,
     lg_eventGroupId = None\<rparr>"

definition shown_by :: "nat \<Rightarrow> nat \<Rightarrow> log_model list \<Rightarrow> string list" where
  "shown_by n level ls = map lg_message (snd (snd (captures (captureLog n level (\<lambda>l s. (None, s @ [l]))) ls (no_stacks, []))))"

lemma errors_show_other_traces:
  "shown_by 10 1 [plain_entry ''a'' Debug ''secret of a'', plain_entry ''b'' Error ''b failed'', plain_entry ''c'' Error ''c failed''] =
    [''secret of a'', ''b failed'', ''secret of a'', ''c failed'']"
  by (simp add: shown_by_def plain_entry_def captureLog_def Let_def no_stacks_def setupStackedLogsArrayIfRequired_def new_array_def
      obj_has_def common_stack_def addStackedLog_def outputStackedLogs_def stack_of_def)

text \<open>A stack of one entry holds none.\<close>

lemma stack_of_one_is_empty:
  "shown_by 1 1 [plain_entry ''a'' Debug ''before'', plain_entry ''a'' Error ''failed''] = [''failed'']"
  by (simp add: shown_by_def plain_entry_def captureLog_def Let_def no_stacks_def setupStackedLogsArrayIfRequired_def new_array_def
      obj_has_def common_stack_def addStackedLog_def outputStackedLogs_def stack_of_def shift_while.simps)

section \<open>The limit of the console\<close>

text \<open>Entries with the time, in seconds, at which each arrives.\<close>

fun console_run :: "console_settings \<Rightarrow> (nat \<times> log_model) list \<Rightarrow> console_state \<Rightarrow> console_state" where
  "console_run cfg [] st = st"
| "console_run cfg ((t, l) # ls) st = console_run cfg ls (snd (console_log cfg l (st\<lparr>ct_seconds := t\<rparr>)))"

definition room :: "nat \<Rightarrow> console_state \<Rightarrow> nat" where
  "room m st = (m - ct_numberOfLogs st) + (if ct_throttling st then 0 else 1)"

lemma console_log_same_second:
  assumes "ct_currentSecond st = Some (getSeconds st)"
  shows "ct_currentSecond (snd (console_log cfg l st)) = Some (getSeconds st)"
    and "length (ct_written (snd (console_log cfg l st))) + room (co_maximumLogsPerSecond cfg) (snd (console_log cfg l st)) \<le>
      length (ct_written st) + room (co_maximumLogsPerSecond cfg) st"
  using assms by (auto simp: console_log_def shouldThrottleLogs_def Let_def room_def getSeconds_def split: sum.splits)

lemma console_log_new_second:
  assumes "ct_currentSecond st \<noteq> Some (getSeconds st)" and "console_log cfg l st = (None, st')"
  shows "ct_currentSecond st' = Some (getSeconds st)"
    and "length (ct_written st') + room (co_maximumLogsPerSecond cfg) st' \<le> length (ct_written st) + max 1 (co_maximumLogsPerSecond cfg) + 1"
  using assms by (auto simp: console_log_def shouldThrottleLogs_def Let_def room_def getSeconds_def split: sum.splits)

lemma console_log_failed: "console_log cfg l st = (Some e, st') \<Longrightarrow> st' = st"
  by (auto simp: console_log_def split: sum.splits prod.splits)

lemma console_run_same_second:
  assumes "ct_currentSecond st = Some sec" and "\<forall>(t, l) \<in> set ls. t mod 60 = sec"
  shows "length (ct_written (console_run cfg ls st)) \<le> length (ct_written st) + room (co_maximumLogsPerSecond cfg) st"
  using assms
proof (induction ls arbitrary: st)
  case (Cons tl0 ls)
  obtain t l where tl0: "tl0 = (t, l)" by (cases tl0)
  let ?now = "st\<lparr>ct_seconds := t\<rparr>"
  let ?st' = "snd (console_log cfg l ?now)"
  have now: "ct_currentSecond ?now = Some (getSeconds ?now)" "getSeconds ?now = sec"
    using Cons.prems tl0 by (simp_all add: getSeconds_def)
  then have "ct_currentSecond ?st' = Some sec" and bound: "length (ct_written ?st') + room (co_maximumLogsPerSecond cfg) ?st' \<le>
      length (ct_written st) + room (co_maximumLogsPerSecond cfg) st"
    using console_log_same_second [of ?now cfg l] by (simp_all add: room_def)
  then have "length (ct_written (console_run cfg ls ?st')) \<le> length (ct_written ?st') + room (co_maximumLogsPerSecond cfg) ?st'"
    using Cons.IH [of ?st'] Cons.prems by simp
  then show ?case using bound tl0 by simp
qed (simp add: room_def)

text \<open>
  Of the entries that arrive within one second, however many, the console writes at most its
  limit (or one entry, when the limit is zero) and the notice that it throttles.
\<close>

theorem console_keeps_its_limit:
  assumes "\<forall>(t, l) \<in> set ls. t mod 60 = sec"
  shows "length (ct_written (console_run cfg ls st)) \<le> length (ct_written st) + max 1 (co_maximumLogsPerSecond cfg) + 1"
  using assms
proof (induction ls arbitrary: st)
  case (Cons tl0 ls)
  obtain t l where tl0: "tl0 = (t, l)" by (cases tl0)
  let ?now = "st\<lparr>ct_seconds := t\<rparr>" and ?m = "co_maximumLogsPerSecond cfg"
  have sec: "getSeconds ?now = sec" using Cons.prems tl0 by (simp add: getSeconds_def)
  obtain e st' where logged: "console_log cfg l ?now = (e, st')" by force
  have rest: "\<forall>(t, l) \<in> set ls. t mod 60 = sec" using Cons.prems by simp
  show ?case
  proof (cases "e = None \<and> ct_currentSecond st \<noteq> Some sec")
    case True
    then have "ct_currentSecond st' = Some sec"
      and "length (ct_written st') + room ?m st' \<le> length (ct_written st) + max 1 ?m + 1"
      using console_log_new_second [of ?now cfg l st'] logged sec by simp_all
    then show ?thesis using console_run_same_second [OF _ rest, of st' cfg] tl0 logged by simp
  next
    case False
    show ?thesis
    proof (cases "ct_currentSecond st = Some sec")
      case True
      then have "length (ct_written (console_run cfg (tl0 # ls) st)) \<le> length (ct_written st) + room ?m st"
        using console_run_same_second [OF _ Cons.prems] by simp
      then show ?thesis by (simp add: room_def split: if_splits)
    next
      case other: False
      then obtain err where "e = Some err" using False by (cases e) auto
      then have "st' = ?now" using logged console_log_failed by blast
      then show ?thesis using Cons.IH [OF rest, of ?now] tl0 logged by simp
    qed
  qed
qed simp

text \<open>A second is its number within the minute: the limit counts entries that are minutes apart.\<close>

definition one_per_second :: console_settings where
  "one_per_second = \<lparr>co_rendering = \<lparr>or_dateText = id, or_pretty = lg_message\<rparr>, co_outputMode = Pretty, co_depth = (\<lambda>_. 5),
     co_stderr = (\<lambda>_. False), co_maximumLogsPerSecond = 1\<rparr>"

definition fresh_console :: console_state where
  "fresh_console = \<lparr>ct_seconds = 0, ct_currentSecond = None, ct_numberOfLogs = 0, ct_throttling = False, ct_written = []\<rparr>"

lemmas console_evaluation = one_per_second_def fresh_console_def console_log_def shouldThrottleLogs_def outputLog_def getSeconds_def
  Let_def throttling_notice_def plain_entry_def

lemma limit_counts_entries_minutes_apart:
  "ct_written (console_run one_per_second [(5, plain_entry ''a'' Info ''first''), (65, plain_entry ''a'' Info ''a minute later'')] fresh_console) =
    [(False, ''first'' @ [CHR 0x0A]), (True, throttling_notice 1)]"
  by (simp add: console_evaluation)

theorem console_keeps_its_limit_witness:
  "length (ct_written (console_run one_per_second (map (\<lambda>i. (5, plain_entry ''a'' Info (show_nat i))) [0..<100]) fresh_console)) \<le> 2"
proof -
  have "\<forall>(t, l) \<in> set (map (\<lambda>i. (5::nat, plain_entry ''a'' Info (show_nat i))) [0..<100]). t mod 60 = 5" by auto
  then have "length (ct_written (console_run one_per_second (map (\<lambda>i. (5, plain_entry ''a'' Info (show_nat i))) [0..<100]) fresh_console)) \<le>
      length (ct_written fresh_console) + max 1 (co_maximumLogsPerSecond one_per_second) + 1"
    by (rule console_keeps_its_limit)
  then show ?thesis by (simp add: fresh_console_def one_per_second_def)
qed

end
