(* ===== verification/File_Server.thy ===== *)
theory File_Server
  imports Node_Paths
begin

text \<open>
  The server of files (\<open>http/src/servers/file.http-server.ts\<close>): one request, over a file system that is a
  parameter. \<open>path.join\<close>, \<open>path.parse\<close> are those of POSIX. Of \<open>url.parse\<close> the model has targets that start
  with one slash and hold no hash sign, at sign or white space. Headers are the calls of
  \<open>setHeader\<close> in their order.
\<close>

text \<open>The path of a request target, before its query; backslashes become slashes.\<close>

definition target_pathname :: "string \<Rightarrow> string" where
  "target_pathname u = map (\<lambda>c. if c = CHR 0x5C then CHR ''/'' else c) (takeWhile (\<lambda>c. c \<noteq> CHR ''?'') u)"

section \<open>A request\<close>

definition content_types :: "string obj" where
  "content_types = [
    (''.aac'', ''audio/aac''), (''.abw'', ''application/x-abiword''), (''.arc'', ''application/x-freearc''),
    (''.avi'', ''video/x-msvideo''), (''.azw'', ''application/vnd.amazon.ebook''),
    (''.bin'', ''application/octet-stream''), (''.bmp'', ''image/bmp''), (''.bz'', ''application/x-bzip''),
    (''.bz2'', ''application/x-bzip2''), (''.csh'', ''application/x-csh''), (''.css'', ''text/css''),
    (''.csv'', ''text/csv''), (''.doc'', ''application/msword''),
    (''.docx'', ''application/vnd.openxmlformats-officedocument.wordprocessingml.document''),
    (''.eot'', ''application/vnd.ms-fontobject''), (''.epub'', ''application/epub+zip''), (''.gif'', ''image/gif''),
    (''.htm'', ''text/html''), (''.html'', ''text/html''), (''.ico'', ''image/vnd.microsoft.icon''),
    (''.ics'', ''text/calendar''), (''.jar'', ''application/java-archive''), (''.jpeg'', ''image/jpeg''),
    (''.jpg'', ''image/jpeg''), (''.js'', ''text/javascript''), (''.json'', ''application/json''),
    (''.jsonld'', ''application/ld+json''), (''.mid'', ''audio/midi''), (''.midi'', ''audio/midi''),
    (''.mjs'', ''text/javascript''), (''.mp3'', ''audio/mpeg''), (''.mp4'', ''video/mp4''),
    (''.mpeg'', ''video/mpeg''), (''.mpkg'', ''application/vnd.apple.installer+xml''),
    (''.odp'', ''application/vnd.oasis.opendocument.presentation''),
    (''.ods'', ''application/vnd.oasis.opendocument.spreadsheet''),
    (''.odt'', ''application/vnd.oasis.opendocument.text''), (''.oga'', ''audio/ogg''), (''.ogv'', ''video/ogg''),
    (''.ogx'', ''application/ogg''), (''.otf'', ''font/otf''), (''.png'', ''image/png''),
    (''.pdf'', ''application/pdf''), (''.php'', ''application/php''), (''.ppt'', ''application/vnd.ms-powerpoint''),
    (''.pptx'', ''application/vnd.openxmlformats-officedocument.presentationml.presentation''),
    (''.rar'', ''application/vnd.rar''), (''.rtf'', ''application/rtf''), (''.sh'', ''application/x-sh''),
    (''.svg'', ''image/svg+xml''), (''.swf'', ''application/x-shockwave-flash''), (''.tar'', ''application/x-tar''),
    (''.tif'', ''image/tiff''), (''.tiff'', ''image/tiff''), (''.ts'', ''video/mp2t''), (''.ttf'', ''font/ttf''),
    (''.txt'', ''text/plain''), (''.vsd'', ''application/vnd.visio''), (''.wasm'', ''application/wasm''),
    (''.wav'', ''audio/wav''), (''.weba'', ''audio/webm''), (''.webm'', ''video/webm''), (''.webp'', ''image/webp''),
    (''.woff'', ''font/woff''), (''.woff2'', ''font/woff2''), (''.xhtml'', ''application/xhtml+xml''),
    (''.xls'', ''application/vnd.ms-excel''),
    (''.xlsx'', ''application/vnd.openxmlformats-officedocument.spreadsheetml.sheet''),
    (''.xml'', ''application/xml''), (''.xul'', ''application/vnd.mozilla.xul+xml''),
    (''.zip'', ''application/zip''), (''.3gp'', ''video/3gpp''), (''.3g2'', ''video/3gpp2''),
    (''.7z'', ''application/x-7z-compressed'')]"

record file_view =
  fw_exists :: "string \<Rightarrow> bool"
  fw_isDirectory :: "string \<Rightarrow> bool"
  fw_read :: "string \<Rightarrow> string + string"

datatype file_reply = No_Reply | File_Reply nat "(string \<times> string) list" string

definition requested_path :: "string \<Rightarrow> string \<Rightarrow> string" where
  "requested_path directory u = path_join [directory, target_pathname u]"

definition serve_file :: "file_view \<Rightarrow> string \<Rightarrow> string obj \<Rightarrow> string option \<Rightarrow> file_reply" where
  "serve_file fs directory defaults u = (case u of
     None \<Rightarrow> No_Reply
   | Some target \<Rightarrow>
       (let pathname = requested_path directory target in
        if \<not> fw_exists fs pathname then File_Reply 404 [] (''File '' @ pathname @ '' not found!'')
        else
          (let dir = fw_isDirectory fs pathname;
               ext = (if dir then ''.html'' else path_extname pathname);
               file = (if dir then pathname @ ''index.html'' else pathname) in
           case fw_read fs file of
             Inl e \<Rightarrow> File_Reply 500 [] (''Error getting the file: '' @ e @ ''.'')
           | Inr data \<Rightarrow> File_Reply 200
               ((''Content-type'', case obj_get content_types ext of Some t \<Rightarrow> t | None \<Rightarrow> ''text/plain'') #
                map (\<lambda>k. (k, the (obj_get defaults k))) (obj_keys defaults)) data)))"

section \<open>Which files a request reaches\<close>



definition directory_path :: "string list \<Rightarrow> string" where
  "directory_path ds = CHR ''/'' # join ''/'' ds"













lemmas path_evaluation = requested_path_def path_join_def path_normalize_def target_pathname_def directory_path_def
  resolve_segments_def resolve_step_def starts_with_def ends_with_def Let_def

text \<open>One that climbs leaves the directory: nothing refuses it.\<close>

lemma climbing_requests_leave_the_directory:
  "requested_path (directory_path [''srv'', ''www'']) ''/../secret.txt'' = ''/srv/secret.txt''"
  by (simp add: path_evaluation)

lemma secret_is_served:
  assumes "fw_exists fs ''/srv/secret.txt''" and "\<not> fw_isDirectory fs ''/srv/secret.txt''" and "fw_read fs ''/srv/secret.txt'' = Inr data"
  shows "serve_file fs (directory_path [''srv'', ''www'']) [] (Some ''/../secret.txt'') = File_Reply 200 [(''Content-type'', ''text/plain'')] data"
  using assms by (simp add: serve_file_def climbing_requests_leave_the_directory content_types_def path_extname_def path_base_def obj_keys_def)

text \<open>The index of a directory is looked for only where the path ends with a slash.\<close>

lemma directory_without_slash_has_no_index:
  assumes "fw_exists fs ''/srv/www/docs''" and "fw_isDirectory fs ''/srv/www/docs''" and "fw_read fs ''/srv/www/docsindex.html'' = Inl e"
  shows "serve_file fs (directory_path [''srv'', ''www'']) [] (Some ''/docs'') = File_Reply 500 [] (''Error getting the file: '' @ e @ ''.'')"
proof -
  have "requested_path (directory_path [''srv'', ''www'']) ''/docs'' = ''/srv/www/docs''" by (simp add: path_evaluation)
  then show ?thesis using assms by (simp add: serve_file_def)
qed

text \<open>A request for \<open>/.\<close> climbs nowhere, and is answered from a file beside the directory.\<close>

lemma dot_request_reads_beside_the_directory:
  assumes "fw_exists fs ''/srv/www''" and "fw_isDirectory fs ''/srv/www''" and "fw_read fs ''/srv/wwwindex.html'' = Inr data"
  shows "serve_file fs (directory_path [''srv'', ''www'']) [] (Some ''/.'') = File_Reply 200 [(''Content-type'', ''text/html'')] data"
proof -
  have "requested_path (directory_path [''srv'', ''www'']) ''/.'' = ''/srv/www''" by (simp add: path_evaluation)
  then show ?thesis using assms by (simp add: serve_file_def content_types_def obj_keys_def)
qed




end
